(* ===== verification/Prelude.thy ===== *)
theory Prelude
  imports Complex_Main "HOL-Library.Word" "HOL-Library.Monad_Syntax" "HOL-Library.Char_ord"
    "HOL-Library.List_Lexorder"
begin

text \<open>
  What every component shares: machine integers and floating point values, the identifier
  template of \<^verbatim>\<open>core/id.hpp\<close>, the C character classes and string searches the parsers
  use, decimal printing, and generic lemmas on lists and options.  A \<^verbatim>\<open>std::string\<close> is a
  \<^typ>\<open>string\<close>: both are lists of bytes.  Character classes are those of the C locale, which
  UTF-8 locales share on single bytes.
\<close>

named_theorems core_ops "definitions of the workspace core's operations"
named_theorems storage_ops "definitions of the storage layer's operations"
named_theorems json_codec "definitions of the JSON encoders and decoders"

type_synonym u8 = "8 word"
type_synonym u32 = "32 word"
type_synonym u64 = "64 word"
type_synonym i32 = "32 word"  \<comment> \<open>two's complement, read with \<open>sint\<close>\<close>
type_synonym i64 = "64 word"  \<comment> \<open>two's complement, read with \<open>sint\<close>\<close>
type_synonym bytes = "8 word list"

section \<open>Identifiers\<close>

text \<open>
  \<^verbatim>\<open>template <typename Tag> class Id\<close>: a string with a phantom tag, so that a window id is
  not a tab id.  The default constructor gives the empty string.
\<close>

datatype 'tag id = Id (id_str: string)

definition empty_id :: "'tag id" where
  "empty_id = Id ''''"

definition id_empty :: "'tag id \<Rightarrow> bool" where
  "id_empty i \<longleftrightarrow> id_str i = ''''"

datatype workspace_tag = WorkspaceTag
datatype window_tag = WindowTag
datatype tab_tag = TabTag
datatype pane_tag = PaneTag
datatype snapshot_tag = SnapshotTag

type_synonym workspace_id = "workspace_tag id"
type_synonym window_id = "window_tag id"
type_synonym tab_id = "tab_tag id"
type_synonym pane_id = "pane_tag id"
type_synonym snapshot_id = "snapshot_tag id"

text \<open>\<^verbatim>\<open>operator<\<close> compares the strings, so ids are ordered as their strings are.\<close>

instantiation id :: (type) linorder
begin

definition less_eq_id :: "'a id \<Rightarrow> 'a id \<Rightarrow> bool" where
  "less_eq_id a b \<longleftrightarrow> id_str a \<le> id_str b"

definition less_id :: "'a id \<Rightarrow> 'a id \<Rightarrow> bool" where
  "less_id a b \<longleftrightarrow> id_str a < id_str b"

instance
  by standard (auto simp: less_eq_id_def less_id_def id.expand)

end

lemma id_empty_iff [simp]: "id_empty i \<longleftrightarrow> i = empty_id"
  by (cases i) (simp add: id_empty_def empty_id_def)

section \<open>Time\<close>

text \<open>
  A \<^verbatim>\<open>system_clock::time_point\<close> is its \<^verbatim>\<open>time_since_epoch().count()\<close>: a signed 64-bit
  number of nanoseconds.
\<close>

type_synonym time_point = i64

section \<open>Floating point\<close>

text \<open>
  A \<^verbatim>\<open>double\<close> is a finite rational or one of the special values.  Storing, comparing and
  serialising them is exact; the theory \<^theory_text>\<open>Floating\<close> has their arithmetic.
\<close>

datatype dbl = Fin rat | PosInf | NegInf | NaN

fun dbl_less :: "dbl \<Rightarrow> dbl \<Rightarrow> bool" where
  "dbl_less (Fin a) (Fin b) \<longleftrightarrow> a < b"
| "dbl_less NegInf (Fin _) \<longleftrightarrow> True"
| "dbl_less NegInf PosInf \<longleftrightarrow> True"
| "dbl_less (Fin _) PosInf \<longleftrightarrow> True"
| "dbl_less _ _ \<longleftrightarrow> False"

fun dbl_finite :: "dbl \<Rightarrow> bool" where
  "dbl_finite (Fin _) \<longleftrightarrow> True"
| "dbl_finite _ \<longleftrightarrow> False"

section \<open>Characters\<close>

definition is_digit :: "char \<Rightarrow> bool" where
  "is_digit c \<longleftrightarrow> CHR ''0'' \<le> c \<and> c \<le> CHR ''9''"

definition is_lower :: "char \<Rightarrow> bool" where
  "is_lower c \<longleftrightarrow> CHR ''a'' \<le> c \<and> c \<le> CHR ''z''"

definition is_upper :: "char \<Rightarrow> bool" where
  "is_upper c \<longleftrightarrow> CHR ''A'' \<le> c \<and> c \<le> CHR ''Z''"

definition is_alpha :: "char \<Rightarrow> bool" where
  "is_alpha c \<longleftrightarrow> is_lower c \<or> is_upper c"

definition is_alnum :: "char \<Rightarrow> bool" where
  "is_alnum c \<longleftrightarrow> is_alpha c \<or> is_digit c"

text \<open>\<^verbatim>\<open>std::isspace\<close>: space, tab, newline, vertical tab, form feed, carriage return.\<close>

definition is_space :: "char \<Rightarrow> bool" where
  "is_space c \<longleftrightarrow> c \<in> {CHR '' '', CHR 0x09, CHR 0x0A, CHR 0x0B, CHR 0x0C, CHR 0x0D}"

definition to_lower :: "char \<Rightarrow> char" where
  "to_lower c = (if is_upper c then char_of (of_char c + 32 :: nat) else c)"

definition newline :: char where
  "newline = CHR 0x0A"

section \<open>Strings\<close>

definition trim :: "string \<Rightarrow> string" where
  "trim s = rev (dropWhile is_space (rev (dropWhile is_space s)))"

definition starts_with :: "string \<Rightarrow> string \<Rightarrow> bool" where
  "starts_with p s \<longleftrightarrow> take (length p) s = p"

text \<open>\<^verbatim>\<open>std::string::c_str()\<close> as a C function reads it: up to the first NUL.\<close>

definition cstr :: "string \<Rightarrow> string" where
  "cstr s = takeWhile (\<lambda>c. c \<noteq> CHR 0x00) s"

text \<open>\<^verbatim>\<open>std::getline\<close> until the stream ends: a final newline starts no further line.\<close>

function getlines :: "string \<Rightarrow> string list" where
  "getlines [] = []"
| "getlines (c # s) =
     takeWhile (\<lambda>x. x \<noteq> newline) (c # s) # getlines (tl (dropWhile (\<lambda>x. x \<noteq> newline) (c # s)))"
  by pat_completeness auto
termination
  by (relation "measure length") (auto simp: le_imp_less_Suc le_trans [OF diff_le_self length_dropWhile_le])

declare getlines.simps(2) [simp del]

text \<open>\<^verbatim>\<open>std::string::find(needle) != npos\<close>.\<close>

fun contains :: "string \<Rightarrow> string \<Rightarrow> bool" where
  "contains needle [] \<longleftrightarrow> needle = []"
| "contains needle (c # s) \<longleftrightarrow> starts_with needle (c # s) \<or> contains needle s"

section \<open>Decimal numbers\<close>

definition digit_char :: "nat \<Rightarrow> char" where
  "digit_char d = char_of (48 + d)"

definition digit_val :: "char \<Rightarrow> nat" where
  "digit_val c = of_char c - 48"

text \<open>\<^verbatim>\<open>std::to_string\<close> of a non-negative integer.\<close>

fun dec_of_nat :: "nat \<Rightarrow> string" where
  "dec_of_nat n = (if n < 10 then [digit_char n]
                   else dec_of_nat (n div 10) @ [digit_char (n mod 10)])"

declare dec_of_nat.simps [simp del]

fun nat_of_dec :: "nat \<Rightarrow> string \<Rightarrow> nat" where
  "nat_of_dec acc [] = acc"
| "nat_of_dec acc (c # s) = nat_of_dec (acc * 10 + digit_val c) s"

definition dec_of_int :: "int \<Rightarrow> string" where
  "dec_of_int i = (if i < 0 then CHR ''-'' # dec_of_nat (nat (- i)) else dec_of_nat (nat i))"

lemma digit_val_char: "d < 10 \<Longrightarrow> digit_val (digit_char d) = d"
  by (simp add: digit_val_def digit_char_def of_char_of)

lemma is_digit_digit_char: "d < 10 \<Longrightarrow> is_digit (digit_char d)"
  by (auto simp: is_digit_def digit_char_def less_eq_char_def of_char_of)

lemma nat_of_dec_append: "nat_of_dec acc (s @ [c]) = nat_of_dec acc s * 10 + digit_val c"
  by (induction s arbitrary: acc) auto

lemma nat_of_dec_of_nat: "nat_of_dec 0 (dec_of_nat n) = n"
proof (induction n rule: dec_of_nat.induct)
  case (1 n)
  show ?case
    by (cases "n < 10")
      (use 1 in \<open>simp_all add: dec_of_nat.simps [of n] nat_of_dec_append digit_val_char\<close>)
qed

lemma dec_of_nat_inject [simp]: "dec_of_nat m = dec_of_nat n \<longleftrightarrow> m = n"
  by (metis nat_of_dec_of_nat)

lemma dec_of_nat_not_Nil [simp]: "dec_of_nat n \<noteq> []"
  by (subst dec_of_nat.simps) simp

lemma dec_of_nat_digits: "\<forall>c \<in> set (dec_of_nat n). is_digit c"
proof (induction n rule: dec_of_nat.induct)
  case (1 n)
  show ?case
    by (cases "n < 10")
      (use 1 in \<open>auto simp: dec_of_nat.simps [of n] is_digit_digit_char\<close>)
qed

text \<open>
  \<^verbatim>\<open>strtoll\<close> in base 10, as \<^verbatim>\<open>stoi\<close>, \<^verbatim>\<open>stol\<close> and \<^verbatim>\<open>stoll\<close> use it: white space, a sign,
  digits, anything.  \<^const>\<open>None\<close> stands for the exceptions \<^verbatim>\<open>invalid_argument\<close> and
  \<^verbatim>\<open>out_of_range\<close>, which every caller treats alike.
\<close>

definition sto_int :: "int \<Rightarrow> int \<Rightarrow> string \<Rightarrow> int option" where
  "sto_int lo hi s =
     (let s = dropWhile is_space s;
          (neg, s) = (case s of c # r \<Rightarrow> if c = CHR ''-'' then (True, r)
                                         else if c = CHR ''+'' then (False, r) else (False, s)
                              | [] \<Rightarrow> (False, s));
          ds = takeWhile is_digit s;
          v = (if neg then - int (nat_of_dec 0 ds) else int (nat_of_dec 0 ds))
      in if ds \<noteq> [] \<and> lo \<le> v \<and> v \<le> hi then Some v else None)"

definition stoi :: "string \<Rightarrow> int option" where
  "stoi = sto_int (- (2 ^ 31)) (2 ^ 31 - 1)"

definition stoll :: "string \<Rightarrow> int option" where
  "stoll = sto_int (- (2 ^ 63)) (2 ^ 63 - 1)"

lemma sto_int_digits:
  assumes "\<forall>c \<in> set ds. is_digit c" "ds \<noteq> []" "nat_of_dec 0 ds = v" "lo \<le> int v" "int v \<le> hi"
    and "s = [] \<or> \<not> is_digit (hd s)"
  shows "sto_int lo hi (ds @ s) = Some (int v)"
proof -
  obtain c cs where c: "ds = c # cs" using assms(2) by (cases ds) auto
  with assms(1) have "is_digit c" by simp
  then have n: "\<not> is_space c" "c \<noteq> CHR ''-''" "c \<noteq> CHR ''+''"
    by (auto simp: is_digit_def is_space_def)
  have "takeWhile is_digit s = []" using assms(6) by (cases s) auto
  then have t: "takeWhile is_digit (ds @ s) = ds"
    using assms(1) by (subst takeWhile_append2) auto
  show ?thesis
    using n t assms(3-5) by (simp add: sto_int_def c Let_def)
qed

lemma stoi_digits:
  assumes "\<forall>c \<in> set ds. is_digit c" "ds \<noteq> []" "nat_of_dec 0 ds = v" "v < 2 ^ 31"
    and "s = [] \<or> \<not> is_digit (hd s)"
  shows "stoi (ds @ s) = Some (int v)"
  unfolding stoi_def by (rule sto_int_digits) (use assms in auto)

section \<open>Lists\<close>

text \<open>The first element that satisfies \<open>P\<close>, rewritten; the loops that return at a match.\<close>

fun upd_first :: "('a \<Rightarrow> bool) \<Rightarrow> ('a \<Rightarrow> 'a) \<Rightarrow> 'a list \<Rightarrow> 'a list" where
  "upd_first P f [] = []"
| "upd_first P f (x # xs) = (if P x then f x # xs else x # upd_first P f xs)"

fun remove_first :: "('a \<Rightarrow> bool) \<Rightarrow> 'a list \<Rightarrow> 'a list" where
  "remove_first P [] = []"
| "remove_first P (x # xs) = (if P x then xs else x # remove_first P xs)"

lemma upd_first_none [simp]: "\<not> (\<exists>x \<in> set xs. P x) \<Longrightarrow> upd_first P f xs = xs"
  by (induction xs) auto

lemma upd_first_append: "upd_first P f (xs @ ys) =
    (if \<exists>x \<in> set xs. P x then upd_first P f xs @ ys else xs @ upd_first P f ys)"
  by (induction xs) auto

lemma map_upd_first: "(\<And>x. P x \<Longrightarrow> g (f x) = g x) \<Longrightarrow> map g (upd_first P f xs) = map g xs"
  by (induction xs) auto

lemma length_upd_first [simp]: "length (upd_first P f xs) = length xs"
  by (induction xs) auto

lemma set_upd_first: "y \<in> set (upd_first P f xs) \<Longrightarrow> y \<in> set xs \<or> (\<exists>x \<in> set xs. P x \<and> y = f x)"
  by (induction xs) (auto split: if_splits)

lemma remove_first_none [simp]: "\<not> (\<exists>x \<in> set xs. P x) \<Longrightarrow> remove_first P xs = xs"
  by (induction xs) auto

lemma remove_first_append: "remove_first P (xs @ ys) =
    (if \<exists>x \<in> set xs. P x then remove_first P xs @ ys else xs @ remove_first P ys)"
  by (induction xs) auto

lemma set_remove_first_subset: "set (remove_first P xs) \<subseteq> set xs"
  by (induction xs) auto

lemma remove_first_is_filter:
  "distinct (map g xs) \<Longrightarrow> remove_first (\<lambda>x. g x = k) xs = filter (\<lambda>x. g x \<noteq> k) xs"
proof (induction xs)
  case (Cons x xs)
  have "filter (\<lambda>y. g y \<noteq> g x) xs = xs" if "g x \<notin> g ` set xs"
    using that by (intro filter_True) (metis image_eqI)
  with Cons show ?case by auto
qed simp

lemma concat_concat: "concat (concat xss) = concat (map concat xss)"
  by (induction xss) auto

lemma find_append: "find P (xs @ ys) = (case find P xs of None \<Rightarrow> find P ys | Some x \<Rightarrow> Some x)"
  by (induction xs) auto

lemma find_None_iff_set: "find P xs = None \<longleftrightarrow> (\<forall>x \<in> set xs. \<not> P x)"
  by (auto simp: find_None_iff)

lemma find_Some_set: "find P xs = Some x \<Longrightarrow> x \<in> set xs \<and> P x"
  by (auto simp: find_Some_iff)

lemma distinct_map_find:
  "distinct (map g xs) \<Longrightarrow> x \<in> set xs \<Longrightarrow> find (\<lambda>y. g y = g x) xs = Some x"
  by (induction xs) auto

end
