(* ===== verification/Pane_Tree.thy ===== *)
theory Pane_Tree
  imports Prelude
begin

text \<open>
  \<^verbatim>\<open>core/pane/pane.hpp\<close>, \<^verbatim>\<open>core/pane/pane.cpp\<close> and the tree functions of
  \<^verbatim>\<open>core/workspace_core.cpp\<close>: the state of a terminal pane, the binary tree of panes of a
  tab, and finding, removing, splitting and resizing panes in it.  A node pointer returned by
  \<^verbatim>\<open>find_pane\<close> is written through with \<open>at_pane\<close>, which rewrites the node the search finds.
\<close>

section \<open>Pane state\<close>

datatype interrupted_source = CtrlC | ProcessExit | UnknownSource

record interrupted_command =
  ic_command :: string
  ic_timestamp_us :: i64
  ic_source :: interrupted_source

definition kMaxCommandHistoryPerPane :: nat where
  "kMaxCommandHistoryPerPane = 1000"

record command_record =
  cr_command :: string
  cr_timestamp_us :: i64
  cr_pinned :: bool

record pane_state =
  ps_cwd :: string
  ps_shell :: string
  ps_cols :: u32
  ps_rows :: u32
  ps_environment :: "string list"
  ps_command_history :: "command_record list"
  ps_snapshot_data :: bytes
  ps_interrupted_command :: "interrupted_command option"

definition empty_pane_state :: pane_state where
  "empty_pane_state = \<lparr>ps_cwd = '''', ps_shell = '''', ps_cols = 0, ps_rows = 0,
     ps_environment = [], ps_command_history = [], ps_snapshot_data = [],
     ps_interrupted_command = None\<rparr>"

record terminal_runtime_snapshot =
  rs_cwd :: string
  rs_shell :: string
  rs_cols :: u32
  rs_rows :: u32
  rs_snapshot_data :: bytes
  rs_command_history :: "command_record list"
  rs_interrupted_command :: "interrupted_command option"

record pane =
  p_id :: pane_id
  p_state :: pane_state

definition empty_pane :: pane where
  "empty_pane = \<lparr>p_id = empty_id, p_state = empty_pane_state\<rparr>"

section \<open>The pane tree\<close>

text \<open>
  A node is a leaf, which may hold no pane, or a split with two children and a ratio.  Both
  ways to build a node (\<^verbatim>\<open>leaf\<close>, \<^verbatim>\<open>split\<close>) give a split its two children, so the null
  children a \<^verbatim>\<open>unique_ptr\<close> allows do not occur.
\<close>

datatype split_kind = SplitHorizontal | SplitVertical

datatype pane_tree = Leaf "pane option" | Split split_kind pane_tree pane_tree dbl

definition leaf :: "pane \<Rightarrow> pane_tree" where
  "leaf p = Leaf (Some p)"

definition empty_tree :: pane_tree where
  "empty_tree = Leaf None"

fun is_leaf :: "pane_tree \<Rightarrow> bool" where
  "is_leaf (Leaf _) \<longleftrightarrow> True"
| "is_leaf (Split _ _ _ _) \<longleftrightarrow> False"

fun collect_panes :: "pane_tree \<Rightarrow> pane list" where
  "collect_panes (Leaf None) = []"
| "collect_panes (Leaf (Some p)) = [p]"
| "collect_panes (Split _ a b _) = collect_panes a @ collect_panes b"

text \<open>The leaf at which the search for an id stops: the first in depth-first order.\<close>

fun is_pane :: "pane_id \<Rightarrow> pane_tree \<Rightarrow> bool" where
  "is_pane i (Leaf (Some p)) \<longleftrightarrow> p_id p = i"
| "is_pane i _ \<longleftrightarrow> False"

fun find_pane :: "pane_tree \<Rightarrow> pane_id \<Rightarrow> pane option" where
  "find_pane (Leaf None) i = None"
| "find_pane (Leaf (Some p)) i = (if p_id p = i then Some p else None)"
| "find_pane (Split _ a b _) i =
     (case find_pane a i of Some p \<Rightarrow> Some p | None \<Rightarrow> find_pane b i)"

fun at_pane :: "pane_id \<Rightarrow> (pane_tree \<Rightarrow> pane_tree) \<Rightarrow> pane_tree \<Rightarrow> pane_tree" where
  "at_pane i f (Leaf None) = Leaf None"
| "at_pane i f (Leaf (Some p)) = (if p_id p = i then f (Leaf (Some p)) else Leaf (Some p))"
| "at_pane i f (Split k a b r) =
     (if find_pane a i \<noteq> None then Split k (at_pane i f a) b r else Split k a (at_pane i f b) r)"

text \<open>Writing to \<^verbatim>\<open>node->pane()->state\<close> through the pointer.\<close>

fun map_leaf :: "(pane_state \<Rightarrow> pane_state) \<Rightarrow> pane_tree \<Rightarrow> pane_tree" where
  "map_leaf g (Leaf (Some p)) = Leaf (Some (p\<lparr>p_state := g (p_state p)\<rparr>))"
| "map_leaf g t = t"

definition upd_pane_state :: "pane_id \<Rightarrow> (pane_state \<Rightarrow> pane_state) \<Rightarrow> pane_tree \<Rightarrow> pane_tree" where
  "upd_pane_state i g = at_pane i (map_leaf g)"

text \<open>
  \<^verbatim>\<open>for (auto* p : panes) p->state...\<close>: the loops over \<^verbatim>\<open>collect_panes\<close> that write every pane.
\<close>

fun map_panes :: "(pane \<Rightarrow> pane) \<Rightarrow> pane_tree \<Rightarrow> pane_tree" where
  "map_panes g (Leaf None) = Leaf None"
| "map_panes g (Leaf (Some p)) = Leaf (Some (g p))"
| "map_panes g (Split k a b r) = Split k (map_panes g a) (map_panes g b) r"

definition child_alive :: "pane_tree \<Rightarrow> bool" where
  "child_alive t \<longleftrightarrow> t \<noteq> Leaf None"

fun remove_pane_from_tree :: "pane_tree \<Rightarrow> pane_id \<Rightarrow> bool \<times> pane_tree" where
  "remove_pane_from_tree (Leaf None) i = (False, Leaf None)"
| "remove_pane_from_tree (Leaf (Some p)) i =
     (if p_id p = i then (True, Leaf None) else (False, Leaf (Some p)))"
| "remove_pane_from_tree (Split k a b r) i =
     (let (ra, a') = remove_pane_from_tree a i;
          (removed, b') = (if \<not> ra then remove_pane_from_tree b i else (ra, b))
      in if \<not> removed then (False, Split k a' b' r)
         else if child_alive a' \<and> child_alive b' then (True, Split k a' b' r)
         else if child_alive a' then (True, a')
         else if child_alive b' then (True, b')
         else (True, Leaf None))"

fun set_split_ratio :: "pane_tree \<Rightarrow> pane_id \<Rightarrow> dbl \<Rightarrow> bool \<times> pane_tree" where
  "set_split_ratio (Leaf p) i q = (False, Leaf p)"
| "set_split_ratio (Split k a b r) i q =
     (if is_pane i a then (True, Split k a b q)
      else if is_pane i b then (True, Split k a b q)
      else let (ra, a') = set_split_ratio a i q
           in if ra then (True, Split k a' b r)
              else let (rb, b') = set_split_ratio b i q
                   in if rb then (True, Split k a' b' r) else (False, Split k a b r))"

section \<open>Searching and writing\<close>

lemma find_pane_collect: "find_pane t i = find (\<lambda>p. p_id p = i) (collect_panes t)"
  by (induction t i rule: find_pane.induct) (auto simp: find_append split: option.splits)

lemma find_pane_None_iff: "find_pane t i = None \<longleftrightarrow> i \<notin> p_id ` set (collect_panes t)"
  by (auto simp: find_pane_collect find_None_iff_set)

lemma find_pane_SomeD: "find_pane t i = Some p \<Longrightarrow> p \<in> set (collect_panes t) \<and> p_id p = i"
  by (auto simp: find_pane_collect dest: find_Some_set)

lemma at_pane_notin [simp]: "find_pane t i = None \<Longrightarrow> at_pane i f t = t"
  by (induction i f t rule: at_pane.induct) (auto split: option.splits if_splits)

lemma collect_upd_pane_state:
  "collect_panes (upd_pane_state i g t) =
     upd_first (\<lambda>p. p_id p = i) (\<lambda>p. p\<lparr>p_state := g (p_state p)\<rparr>) (collect_panes t)"
  unfolding upd_pane_state_def
proof (induction t)
  case (Leaf p)
  then show ?case by (cases p) auto
next
  case (Split k a b r)
  then show ?case by (auto simp: upd_first_append find_pane_collect find_None_iff_set)
qed

lemma ids_upd_pane_state [simp]:
  "map p_id (collect_panes (upd_pane_state i g t)) = map p_id (collect_panes t)"
  by (simp add: collect_upd_pane_state map_upd_first)

lemma collect_map_panes [simp]: "collect_panes (map_panes g t) = map g (collect_panes t)"
  by (induction g t rule: map_panes.induct) auto

section \<open>Well-formed trees\<close>

text \<open>
  \<open>full\<close>: no leaf is empty.  A tab's tree is full or is one empty leaf, the state of a note tab
  and of a tab whose last pane was removed; an empty leaf never sits under a split.
\<close>

fun full :: "pane_tree \<Rightarrow> bool" where
  "full (Leaf p) \<longleftrightarrow> p \<noteq> None"
| "full (Split _ a b _) \<longleftrightarrow> full a \<and> full b"

definition wf_tree :: "pane_tree \<Rightarrow> bool" where
  "wf_tree t \<longleftrightarrow> t = Leaf None \<or> full t"

lemma full_not_empty: "full t \<Longrightarrow> t \<noteq> Leaf None"
  by auto

lemma full_collect_ne: "full t \<Longrightarrow> collect_panes t \<noteq> []"
  by (induction t) (auto simp: neq_Nil_conv)

lemma wf_tree_Split: "wf_tree (Split k a b r) \<longleftrightarrow> full a \<and> full b"
  by (simp add: wf_tree_def)

lemma full_map_panes [simp]: "full (map_panes g t) = full t"
  by (induction g t rule: map_panes.induct) auto

lemma map_panes_empty_iff [simp]: "map_panes g t = Leaf None \<longleftrightarrow> t = Leaf None"
  by (induction g t rule: map_panes.induct) auto

lemma wf_tree_map_panes [simp]: "wf_tree (map_panes g t) = wf_tree t"
  by (simp add: wf_tree_def)

lemma full_at_pane: "full t \<Longrightarrow> (\<And>p. full (f (Leaf (Some p)))) \<Longrightarrow> full (at_pane i f t)"
  by (induction i f t rule: at_pane.induct) auto

lemma wf_tree_upd_pane_state: "wf_tree t \<Longrightarrow> wf_tree (upd_pane_state i g t)"
  by (auto simp: wf_tree_def upd_pane_state_def intro: full_at_pane)

section \<open>Removal\<close>

lemma remove_pane_found:
  "fst (remove_pane_from_tree t i) \<longleftrightarrow> i \<in> p_id ` set (collect_panes t)"
proof (induction t)
  case (Leaf p)
  then show ?case by (cases p) auto
next
  case (Split k a b r)
  then show ?case
    by (cases "remove_pane_from_tree a i"; cases "remove_pane_from_tree b i")
      (simp add: Let_def image_Un)
qed

lemma remove_pane_notin:
  "i \<notin> p_id ` set (collect_panes t) \<Longrightarrow> remove_pane_from_tree t i = (False, t)"
proof (induction t)
  case (Leaf p)
  then show ?case by (cases p) auto
next
  case (Split k a b r)
  then show ?case by (simp add: Let_def image_Un)
qed

lemma dead_child_empty: "\<not> child_alive t \<Longrightarrow> collect_panes t = []"
  by (simp add: child_alive_def)

lemma remove_pane_Split_collect:
  "collect_panes (snd (remove_pane_from_tree (Split k a b r) i)) =
     collect_panes (snd (remove_pane_from_tree a i)) @
     collect_panes (if fst (remove_pane_from_tree a i) then b else snd (remove_pane_from_tree b i))"
  by (cases "remove_pane_from_tree a i"; cases "remove_pane_from_tree b i")
    (simp add: Let_def dead_child_empty)

lemma remove_pane_collect:
  "collect_panes (snd (remove_pane_from_tree t i)) =
     remove_first (\<lambda>p. p_id p = i) (collect_panes t)"
proof (induction t)
  case (Leaf p)
  then show ?case by (cases p) auto
next
  case (Split k a b r)
  have "fst (remove_pane_from_tree a i) \<longleftrightarrow> (\<exists>p \<in> set (collect_panes a). p_id p = i)"
    by (auto simp: remove_pane_found)
  with Split.IH show ?case
    by (simp only: remove_pane_Split_collect remove_first_append collect_panes.simps)
      (auto simp: remove_pane_found)
qed

lemma remove_pane_full:
  "full t \<Longrightarrow> wf_tree (snd (remove_pane_from_tree t i))"
proof (induction t)
  case (Leaf p)
  then show ?case by (cases p) (auto simp: wf_tree_def)
next
  case (Split k a b r)
  have keep: "\<not> fst (remove_pane_from_tree t i) \<Longrightarrow> remove_pane_from_tree t i = (False, t)" for t
    by (simp add: remove_pane_found remove_pane_notin)
  show ?case
    using Split keep [of a] keep [of b]
    by (cases "remove_pane_from_tree a i"; cases "remove_pane_from_tree b i")
      (auto simp: Let_def wf_tree_def child_alive_def)
qed

lemma remove_pane_wf: "wf_tree t \<Longrightarrow> wf_tree (snd (remove_pane_from_tree t i))"
  using remove_pane_full by (auto simp: wf_tree_def)

section \<open>Ratios\<close>

lemma set_split_ratio_collect [simp]:
  "collect_panes (snd (set_split_ratio t i q)) = collect_panes t"
  by (induction t i q rule: set_split_ratio.induct) (auto simp: Let_def split: prod.splits if_splits)

lemma set_split_ratio_full [simp]: "full (snd (set_split_ratio t i q)) = full t"
  by (induction t i q rule: set_split_ratio.induct) (auto simp: Let_def split: prod.splits if_splits)

lemma set_split_ratio_wf: "wf_tree t \<Longrightarrow> wf_tree (snd (set_split_ratio t i q))"
  by (cases t) (auto simp: wf_tree_def simp del: set_split_ratio.simps(2))

lemma is_pane_iff: "is_pane i t \<longleftrightarrow> is_leaf t \<and> i \<in> p_id ` set (collect_panes t)"
  by (cases "(i, t)" rule: is_pane.cases) auto

lemma set_split_ratio_iff:
  "fst (set_split_ratio t i q) \<longleftrightarrow> \<not> is_leaf t \<and> i \<in> p_id ` set (collect_panes t)"
proof (induction t)
  case (Split k a b r)
  have "fst (set_split_ratio (Split k a b r) i q) \<longleftrightarrow>
      is_pane i a \<or> is_pane i b \<or> fst (set_split_ratio a i q) \<or> fst (set_split_ratio b i q)"
    by (cases "set_split_ratio a i q"; cases "set_split_ratio b i q") simp
  then show ?case
    by (simp add: Split.IH is_pane_iff image_Un) blast
qed simp

end
