(* ===== verification/Workspace_Model.thy ===== *)
theory Workspace_Model
  imports Pane_Tree
begin

text \<open>
  \<^verbatim>\<open>core/window/window.hpp\<close>, \<^verbatim>\<open>core/workspace/workspace.hpp\<close> and
  \<^verbatim>\<open>core/snapshot/snapshot.hpp\<close>: tabs, windows, the workspace with its user interface state,
  snapshots, and the aggregate command history.  The \<^verbatim>\<open>create\<close> functions take the identifier
  they would generate and the time they would read as arguments.  The last section states what
  a well-formed workspace is.
\<close>

section \<open>Tabs and windows\<close>

datatype tab_kind = Terminal | Note

record note_tab_state =
  nt_document_id :: string
  nt_path :: string
  nt_title :: string
  nt_content :: string
  nt_modified :: bool
  nt_cursor :: i32
  nt_scroll :: dbl
  nt_preview_enabled :: bool
  nt_split_ratio :: dbl
  nt_sync_scroll :: bool

definition empty_note_tab_state :: note_tab_state where
  "empty_note_tab_state = \<lparr>nt_document_id = '''', nt_path = '''', nt_title = '''', nt_content = '''',
     nt_modified = False, nt_cursor = 0, nt_scroll = Fin 0, nt_preview_enabled = False,
     nt_split_ratio = Fin (1/2), nt_sync_scroll = False\<rparr>"

record tab =
  t_id :: tab_id
  t_title :: string
  t_kind :: tab_kind
  t_note_state :: "note_tab_state option"
  t_pane_tree :: pane_tree

definition empty_tab :: tab where
  "empty_tab = \<lparr>t_id = empty_id, t_title = '''', t_kind = Terminal, t_note_state = None,
     t_pane_tree = empty_tree\<rparr>"

definition Tab_create :: "string \<Rightarrow> tab_id \<Rightarrow> tab" where
  "Tab_create title i = empty_tab\<lparr>t_id := i, t_title := title\<rparr>"

record window =
  w_id :: window_id
  w_label :: string
  w_x :: i32
  w_y :: i32
  w_width :: u32
  w_height :: u32
  w_created_at :: time_point
  w_last_active :: time_point
  w_tabs :: "tab list"
  w_focus_tab_id :: "tab_id option"
  w_focus_pane_id :: "pane_id option"

definition empty_window :: window where
  "empty_window = \<lparr>w_id = empty_id, w_label = '''', w_x = 0, w_y = 0, w_width = 0, w_height = 0,
     w_created_at = 0, w_last_active = 0, w_tabs = [], w_focus_tab_id = None,
     w_focus_pane_id = None\<rparr>"

definition Window_create :: "time_point \<Rightarrow> string \<Rightarrow> window_id \<Rightarrow> window" where
  "Window_create now title i =
     empty_window\<lparr>w_id := i, w_label := title, w_created_at := now, w_last_active := now\<rparr>"

section \<open>Workspaces\<close>

record directory_tree_state =
  dt_current_dir :: string
  dt_expanded :: "string list"
  dt_selected :: string
  dt_filter :: string
  dt_scroll_anchor :: string
  dt_anchor_offset :: dbl

record ui_state =
  ui_directory_tree :: directory_tree_state

definition empty_ui :: ui_state where
  "empty_ui = \<lparr>ui_directory_tree = \<lparr>dt_current_dir = '''', dt_expanded = [], dt_selected = '''',
     dt_filter = '''', dt_scroll_anchor = '''', dt_anchor_offset = Fin 0\<rparr>\<rparr>"

definition kSchemaVersion :: i32 where
  "kSchemaVersion = 1"

record workspace =
  ws_id :: workspace_id
  ws_name :: string
  ws_working_directory :: string
  ws_created_at :: time_point
  ws_last_saved_at :: time_point
  ws_tags :: "string list"
  ws_schema_version :: i32
  ws_generation :: u64
  ws_windows :: "window list"
  ws_focus_window_id :: "window_id option"
  ws_snapshot_ids :: "snapshot_id list"
  ws_ui :: ui_state

definition empty_workspace :: workspace where
  "empty_workspace = \<lparr>ws_id = empty_id, ws_name = '''', ws_working_directory = '''',
     ws_created_at = 0, ws_last_saved_at = 0, ws_tags = [], ws_schema_version = kSchemaVersion,
     ws_generation = 0, ws_windows = [], ws_focus_window_id = None, ws_snapshot_ids = [],
     ws_ui = empty_ui\<rparr>"

definition Workspace_create :: "time_point \<Rightarrow> string \<Rightarrow> workspace_id \<Rightarrow> workspace" where
  "Workspace_create now name i =
     empty_workspace\<lparr>ws_id := i, ws_name := name, ws_created_at := now, ws_last_saved_at := now\<rparr>"

record snapshot =
  sn_id :: snapshot_id
  sn_timestamp :: time_point
  sn_size_bytes :: u64
  sn_revision :: i32

record closed_window_snapshot =
  cw_id :: snapshot_id
  cw_window_id :: window_id
  cw_label :: string
  cw_closed_at :: time_point
  cw_workspace_state_json :: string
  cw_generation :: u64

section \<open>The aggregate command history\<close>

record history_entry =
  he_window :: window_id
  he_tab :: tab_id
  he_pane :: pane_id
  he_record :: command_record

definition aggregate_command_history :: "workspace \<Rightarrow> history_entry list" where
  "aggregate_command_history ws =
     [\<lparr>he_window = w_id w, he_tab = t_id t, he_pane = p_id p, he_record = c\<rparr>.
        w \<leftarrow> ws_windows ws, t \<leftarrow> w_tabs w, p \<leftarrow> collect_panes (t_pane_tree t),
        c \<leftarrow> ps_command_history (p_state p)]"

section \<open>Well-formed workspaces\<close>

text \<open>
  The tabs and panes of a workspace in window, tab, depth-first order.  \<open>wf_workspace\<close> is the
  invariant of the core: identifiers are unique in their kind, every tab is well-formed (its
  tree is full or empty, no pane's history is longer than the cap, a note tab has its note
  state), and the focused window exists.
\<close>

definition all_tabs :: "workspace \<Rightarrow> tab list" where
  "all_tabs ws = concat (map w_tabs (ws_windows ws))"

definition tab_panes :: "tab \<Rightarrow> pane list" where
  "tab_panes t = collect_panes (t_pane_tree t)"

definition window_panes :: "window \<Rightarrow> pane list" where
  "window_panes w = concat (map tab_panes (w_tabs w))"

definition all_panes :: "workspace \<Rightarrow> pane list" where
  "all_panes ws = concat (map window_panes (ws_windows ws))"

definition wf_pane :: "pane \<Rightarrow> bool" where
  "wf_pane p \<longleftrightarrow> length (ps_command_history (p_state p)) \<le> kMaxCommandHistoryPerPane"

definition wf_tab :: "tab \<Rightarrow> bool" where
  "wf_tab t \<longleftrightarrow> wf_tree (t_pane_tree t) \<and> (\<forall>p \<in> set (tab_panes t). wf_pane p) \<and>
     (t_kind t = Note \<longrightarrow> t_note_state t \<noteq> None)"

definition wf_workspace :: "workspace \<Rightarrow> bool" where
  "wf_workspace ws \<longleftrightarrow>
     distinct (map w_id (ws_windows ws)) \<and>
     distinct (map t_id (all_tabs ws)) \<and>
     distinct (map p_id (all_panes ws)) \<and>
     (\<forall>t \<in> set (all_tabs ws). wf_tab t) \<and>
     (\<forall>i. ws_focus_window_id ws = Some i \<longrightarrow> i \<in> w_id ` set (ws_windows ws))"

lemma all_panes_tabs: "all_panes ws = concat (map tab_panes (all_tabs ws))"
  by (simp add: all_panes_def all_tabs_def window_panes_def [abs_def] concat_concat map_concat comp_def)

lemma aggregate_entries:
  "e \<in> set (aggregate_command_history ws) \<longleftrightarrow>
     (\<exists>w \<in> set (ws_windows ws). \<exists>t \<in> set (w_tabs w). \<exists>p \<in> set (tab_panes t).
        he_window e = w_id w \<and> he_tab e = t_id t \<and> he_pane e = p_id p \<and>
        he_record e \<in> set (ps_command_history (p_state p)))"
  by (cases e) (auto simp: aggregate_command_history_def tab_panes_def image_iff)

lemma aggregate_records:
  "map he_record (aggregate_command_history ws) =
     concat (map (\<lambda>p. ps_command_history (p_state p)) (all_panes ws))"
  by (simp add: aggregate_command_history_def all_panes_def window_panes_def tab_panes_def
      map_concat comp_def concat_concat)

end
