(* ===== verification/Base64.thy ===== *)
theory Base64
  imports Prelude
begin

text \<open>
  The base64 codec of \<^verbatim>\<open>core/serialization.hpp\<close>, on 32-bit words and bytes as the code
  computes them, with the round trip of every blob.
\<close>

unbundle bit_operations_syntax

section \<open>Encoding\<close>

definition kBase64Table :: string where
  "kBase64Table = ''ABCDEFGHIJKLMNOPQRSTUVWXYZabcdefghijklmnopqrstuvwxyz0123456789+/''"

definition sextet :: "u32 \<Rightarrow> nat \<Rightarrow> char" where
  "sextet n k = kBase64Table ! unat (drop_bit k n AND 0x3F)"

definition enc_word :: "u8 \<Rightarrow> u8 \<Rightarrow> u8 \<Rightarrow> u32" where
  "enc_word a b c = push_bit 16 (ucast a) OR push_bit 8 (ucast b) OR ucast c"

fun base64_encode :: "bytes \<Rightarrow> string" where
  "base64_encode [] = ''''"
| "base64_encode [a] =
     (let n = push_bit 16 (ucast a :: u32) in [sextet n 18, sextet n 12, CHR ''='', CHR ''=''])"
| "base64_encode [a, b] =
     (let n = push_bit 16 (ucast a :: u32) OR push_bit 8 (ucast b)
      in [sextet n 18, sextet n 12, sextet n 6, CHR ''=''])"
| "base64_encode (a # b # c # rest) =
     (let n = push_bit 16 (ucast a :: u32) OR push_bit 8 (ucast b) OR ucast c
      in sextet n 18 # sextet n 12 # sextet n 6 # sextet n 0 # base64_encode rest)"

section \<open>Decoding\<close>

text \<open>
  The 256-entry table \<^verbatim>\<open>kDecode\<close>: letters, digits, \<^verbatim>\<open>+\<close> and \<^verbatim>\<open>/\<close> in the order of the
  alphabet, 255 for every other byte.
\<close>

definition kDecode :: "char \<Rightarrow> u8" where
  "kDecode c = (if is_upper c then of_nat (of_char c - 65)
                else if is_lower c then of_nat (of_char c - 97 + 26)
                else if is_digit c then of_nat (of_char c - 48 + 52)
                else if c = CHR ''+'' then 62
                else if c = CHR ''/'' then 63
                else 255)"

text \<open>One round of the inner loop: shift, then add the character's value unless it pads.\<close>

definition dec_step :: "u32 \<Rightarrow> char \<Rightarrow> u32" where
  "dec_step n c = (let m = push_bit 6 n in if c \<noteq> CHR ''='' then m OR ucast (kDecode c) else m)"

text \<open>The bytes of one group of at most four characters, the padding rules included.\<close>

definition dec_group :: "string \<Rightarrow> bytes" where
  "dec_group g =
     (let n = foldl dec_step 0 g in
      [ucast (drop_bit 16 n AND 0xFF)] @
      (if 2 < length g \<and> g ! 2 \<noteq> CHR ''='' then [ucast (drop_bit 8 n AND 0xFF)] else []) @
      (if 3 < length g \<and> g ! 3 \<noteq> CHR ''='' then [ucast (n AND 0xFF)] else []))"

fun base64_decode :: "string \<Rightarrow> bytes" where
  "base64_decode [] = []"
| "base64_decode (c0 # c1 # c2 # c3 # rest) = dec_group [c0, c1, c2, c3] @ base64_decode rest"
| "base64_decode g = dec_group g"

section \<open>Round trip\<close>

lemma table_decode: "i < 64 \<Longrightarrow> kDecode (kBase64Table ! i) = of_nat i \<and> kBase64Table ! i \<noteq> CHR ''=''"
proof -
  have "\<forall>i \<in> set [0..<64]. kDecode (kBase64Table ! i) = of_nat i \<and> kBase64Table ! i \<noteq> CHR ''=''"
    by code_simp
  then show "i < 64 \<Longrightarrow> ?thesis" by simp
qed

lemma and_63: "(x AND 63 :: u32) = take_bit 6 x"
  by (simp add: take_bit_eq_mask mask_eq_exp_minus_1)

lemma and_255: "(x AND 255 :: u32) = take_bit 8 x"
  by (simp add: take_bit_eq_mask mask_eq_exp_minus_1)

lemma take6_less: "unat (take_bit 6 x :: u32) < 64"
  using take_bit_nat_less_exp [of 6 "unat x"] by (simp add: unsigned_take_bit_eq)

lemma decode_take6:
  "kDecode (kBase64Table ! unat (take_bit 6 x :: u32)) = ucast (take_bit 6 x)"
  using table_decode [OF take6_less [of x]] by (simp add: unsigned_of_nat)

lemma ucast_ucast6: "ucast (ucast (take_bit 6 x :: u32) :: u8) = (take_bit 6 x :: u32)"
  by (rule bit_word_eqI) (auto simp: bit_simps)

lemma bit8 [simp]: "8 \<le> n \<Longrightarrow> \<not> bit (a::u8) n" 
  using bit_imp_le_length [of a n] by auto

definition enc3 :: "u8 \<Rightarrow> u8 \<Rightarrow> u8 \<Rightarrow> u32" where
  "enc3 a b c = push_bit 16 (ucast a) OR push_bit 8 (ucast b) OR ucast c"

lemma fold_sextets:
  "let n = enc3 a b c in push_bit 6 (push_bit 6 (push_bit 6 (take_bit 6 (drop_bit 18 n)) OR take_bit 6 (drop_bit 12 n)) OR take_bit 6 (drop_bit 6 n)) OR take_bit 6 n = n"
  unfolding Let_def
proof (rule bit_word_eqI)
  fix i assume "i < LENGTH(32)"
  then have "i \<in> set [0..<32]" by simp
  then show "bit (push_bit 6 (push_bit 6 (push_bit 6 (take_bit 6 (drop_bit 18 (enc3 a b c))) OR take_bit 6 (drop_bit 12 (enc3 a b c))) OR take_bit 6 (drop_bit 6 (enc3 a b c))) OR take_bit 6 (enc3 a b c)) i = bit (enc3 a b c) i"
    by (simp add: enc3_def upt_rec del: set_upt)
      (elim disjE; simp add: bit_simps; (simp add: numeral_eq_Suc)?)
qed
lemma byte0: 
  "ucast (take_bit 8 (drop_bit 16 (enc3 a b c))) = a" (is "?l = a")
proof (rule bit_word_eqI)
  fix i assume "i < LENGTH(8)"
  then have "i \<in> set [0..<8]" by simp
  then show "bit ?l i = bit a i"
    by (simp add: enc3_def upt_rec del: set_upt)
      (elim disjE; simp add: bit_simps; (simp add: numeral_eq_Suc)?)
qed
lemma byte1: 
  "ucast (take_bit 8 (drop_bit 8 (enc3 a b c))) = b" (is "?l = b")
proof (rule bit_word_eqI)
  fix i assume "i < LENGTH(8)"
  then have "i \<in> set [0..<8]" by simp
  then show "bit ?l i = bit b i"
    by (simp add: enc3_def upt_rec del: set_upt)
      (elim disjE; simp add: bit_simps; (simp add: numeral_eq_Suc)?)
qed
lemma byte2: 
  "ucast (take_bit 8 (enc3 a b c)) = c" (is "?l = c")
proof (rule bit_word_eqI)
  fix i assume "i < LENGTH(8)"
  then have "i \<in> set [0..<8]" by simp
  then show "bit ?l i = bit c i"
    by (simp add: enc3_def upt_rec del: set_upt)
      (elim disjE; simp add: bit_simps; (simp add: numeral_eq_Suc)?)
qed

lemma low6_zero: "take_bit 6 (drop_bit 6 (enc3 a 0 0)) = 0" "take_bit 6 (enc3 a b 0) = 0"
  by (rule bit_word_eqI; auto simp: enc3_def bit_simps)+

lemma enc3_1: "push_bit 16 (ucast a :: u32) = enc3 a 0 0"
  and enc3_2: "push_bit 16 (ucast a :: u32) OR push_bit 8 (ucast b) = enc3 a b 0"
  by (simp_all add: enc3_def)

lemma dec_step_sextet: "dec_step m (sextet n k) = push_bit 6 m OR take_bit 6 (drop_bit k n)"
  using table_decode [OF take6_less [of "drop_bit k n"]]
  by (simp add: dec_step_def sextet_def and_63 decode_take6 ucast_ucast6 Let_def)

lemma dec_step_pad: "dec_step m CHR ''='' = push_bit 6 m"
  by (simp add: dec_step_def)

lemma sextet_not_pad [simp]: "sextet n k \<noteq> CHR ''=''"
  using table_decode [OF take6_less [of "drop_bit k n"]] by (simp add: sextet_def and_63)


lemma fold_enc3:
  "foldl dec_step 0 [sextet (enc3 a b c) 18, sextet (enc3 a b c) 12, sextet (enc3 a b c) 6, sextet (enc3 a b c) 0] = enc3 a b c"
  "foldl dec_step 0 [sextet (enc3 a b 0) 18, sextet (enc3 a b 0) 12, sextet (enc3 a b 0) 6, CHR ''=''] = enc3 a b 0"
  "foldl dec_step 0 [sextet (enc3 a 0 0) 18, sextet (enc3 a 0 0) 12, CHR ''='', CHR ''=''] = enc3 a 0 0"
  using fold_sextets [of a b c] fold_sextets [of a b 0] fold_sextets [of a 0 0]
  by (simp_all add: dec_step_sextet dec_step_pad low6_zero Let_def)

lemma dec_group_enc:
  "dec_group [sextet (enc3 a b c) 18, sextet (enc3 a b c) 12, sextet (enc3 a b c) 6, sextet (enc3 a b c) 0] = [a, b, c]"
  "dec_group [sextet (enc3 a b 0) 18, sextet (enc3 a b 0) 12, sextet (enc3 a b 0) 6, CHR ''=''] = [a, b]"
  "dec_group [sextet (enc3 a 0 0) 18, sextet (enc3 a 0 0) 12, CHR ''='', CHR ''=''] = [a]"
  unfolding dec_group_def Let_def fold_enc3
  by (simp_all add: and_255 byte0 byte1 byte2)

lemma base64_decode_encode: "base64_decode (base64_encode d) = d"
proof (induction d rule: base64_encode.induct)
  case (2 a)
  show ?case using dec_group_enc(3) [of a] by (simp add: Let_def enc3_1)
next
  case (3 a b)
  show ?case using dec_group_enc(2) [of a b] by (simp add: Let_def enc3_2 del: enc3_1)
next
  case (4 a b c rest)
  then show ?case using dec_group_enc(1) [of a b c] by (simp add: Let_def enc3_def)
qed simp


text \<open>The size of the text, the capacity the code reserves.\<close>

lemma length_base64_encode: "length (base64_encode d) = (length d + 2) div 3 * 4"
proof (induction d rule: base64_encode.induct)
  case (4 a b c rest)
  then show ?case by (simp add: Let_def) presburger
qed (simp_all add: Let_def)

end
