(* ===== verification/Json_Value.thy ===== *)
theory Json_Value
  imports Prelude
begin

text \<open>
  The part of the JSON library's interface that Remin calls (\<^verbatim>\<open>nlohmann::json\<close>, a bundled
  third-party library): its values, the checked and defaulted reads \<^verbatim>\<open>contains\<close>, \<^verbatim>\<open>at\<close>,
  \<^verbatim>\<open>value\<close> and \<^verbatim>\<open>get\<close>, iteration, and assignment through \<^verbatim>\<open>operator[]\<close>.  An exception of the
  library is \<^const>\<open>None\<close>; every caller in Remin either lets it propagate or catches all of
  them alike.  Printing and parsing text are not modelled: they are parameters of the storage
  layer.  An object is an association list in the key order of the \<^verbatim>\<open>std::map\<close> that holds it;
  signed and unsigned integers, which the library compares by value, are one constructor.
\<close>

datatype json = JNull | JBool bool | JInt int | JFloat dbl | JString string
  | JArray "json list" | JObject "(string \<times> json) list"

section \<open>Reading\<close>

definition jcontains :: "json \<Rightarrow> string \<Rightarrow> bool" where
  "jcontains j k = (case j of JObject kvs \<Rightarrow> map_of kvs k \<noteq> None | _ \<Rightarrow> False)"

definition jat :: "json \<Rightarrow> string \<Rightarrow> json option" where
  "jat j k = (case j of JObject kvs \<Rightarrow> map_of kvs k | _ \<Rightarrow> None)"

definition jvalue :: "(json \<Rightarrow> 'a option) \<Rightarrow> json \<Rightarrow> string \<Rightarrow> 'a \<Rightarrow> 'a option" where
  "jvalue get j k d =
     (case j of
        JObject kvs \<Rightarrow> (case map_of kvs k of Some v \<Rightarrow> get v | None \<Rightarrow> Some d)
      | _ \<Rightarrow> None)"

fun is_string :: "json \<Rightarrow> bool" where
  "is_string (JString _) \<longleftrightarrow> True"
| "is_string _ \<longleftrightarrow> False"

fun get_string :: "json \<Rightarrow> string option" where
  "get_string (JString s) = Some s"
| "get_string _ = None"

fun get_bool :: "json \<Rightarrow> bool option" where
  "get_bool (JBool b) = Some b"
| "get_bool _ = None"

text \<open>
  \<^verbatim>\<open>get<T>\<close> of a number casts it: integers wrap, floats truncate.  A float outside the target's
  range is undefined behaviour in C++ and has no value here.  32-bit targets also take booleans;
  64-bit ones and \<^verbatim>\<open>double\<close> do not.
\<close>

definition cast_dbl :: "int \<Rightarrow> int \<Rightarrow> dbl \<Rightarrow> int option" where
  "cast_dbl lo hi d =
     (case d of
        Fin q \<Rightarrow> (let i = (if q < 0 then - \<lfloor>- q\<rfloor> else \<lfloor>q\<rfloor>)
                  in if lo \<le> i \<and> i \<le> hi then Some i else None)
      | _ \<Rightarrow> None)"

fun get_u32 :: "json \<Rightarrow> u32 option" where
  "get_u32 (JInt i) = Some (word_of_int i)"
| "get_u32 (JFloat d) = map_option word_of_int (cast_dbl 0 (2 ^ 32 - 1) d)"
| "get_u32 (JBool b) = Some (if b then 1 else 0)"
| "get_u32 _ = None"

fun get_i32 :: "json \<Rightarrow> i32 option" where
  "get_i32 (JInt i) = Some (word_of_int i)"
| "get_i32 (JFloat d) = map_option word_of_int (cast_dbl (- (2 ^ 31)) (2 ^ 31 - 1) d)"
| "get_i32 (JBool b) = Some (if b then 1 else 0)"
| "get_i32 _ = None"

fun get_i64 :: "json \<Rightarrow> i64 option" where
  "get_i64 (JInt i) = Some (word_of_int i)"
| "get_i64 (JFloat d) = map_option word_of_int (cast_dbl (- (2 ^ 63)) (2 ^ 63 - 1) d)"
| "get_i64 _ = None"

fun get_u64 :: "json \<Rightarrow> u64 option" where
  "get_u64 (JInt i) = Some (word_of_int i)"
| "get_u64 (JFloat d) = map_option word_of_int (cast_dbl 0 (2 ^ 64 - 1) d)"
| "get_u64 _ = None"

fun get_double :: "json \<Rightarrow> dbl option" where
  "get_double (JInt i) = Some (Fin (of_int i))"
| "get_double (JFloat d) = Some d"
| "get_double _ = None"

fun get_vector :: "(json \<Rightarrow> 'a option) \<Rightarrow> json \<Rightarrow> 'a list option" where
  "get_vector get (JArray js) = those (map get js)"
| "get_vector get _ = None"

text \<open>\<^verbatim>\<open>for (auto& e : j)\<close>: elements, object values, nothing for null, a primitive itself.\<close>

fun jiter :: "json \<Rightarrow> json list" where
  "jiter (JArray js) = js"
| "jiter (JObject kvs) = map snd kvs"
| "jiter JNull = []"
| "jiter j = [j]"

section \<open>Writing\<close>

text \<open>\<^verbatim>\<open>j[k] = v\<close>: replaces the member or inserts it at its place in the key order.\<close>

fun put_member :: "string \<Rightarrow> json \<Rightarrow> (string \<times> json) list \<Rightarrow> (string \<times> json) list" where
  "put_member k v [] = [(k, v)]"
| "put_member k v ((k', v') # kvs) =
     (if k = k' then (k, v) # kvs
      else if k < k' then (k, v) # (k', v') # kvs
      else (k', v') # put_member k v kvs)"

fun jput :: "string \<Rightarrow> json \<Rightarrow> json \<Rightarrow> json option" where
  "jput k v (JObject kvs) = Some (JObject (put_member k v kvs))"
| "jput k v JNull = Some (JObject [(k, v)])"
| "jput k v _ = None"

text \<open>An object with an optional member, as \<^verbatim>\<open>if (x) j["k"] = *x\<close> builds it.\<close>

definition jopt :: "string \<Rightarrow> ('a \<Rightarrow> json) \<Rightarrow> 'a option \<Rightarrow> (string \<times> json) list" where
  "jopt k enc x = (case x of None \<Rightarrow> [] | Some a \<Rightarrow> [(k, enc a)])"

section \<open>Text\<close>

text \<open>
  What a value becomes when it is printed and parsed again: the grammar of JSON has no infinite
  or undefined numbers, and the library's \<^verbatim>\<open>dump\<close> writes them as \<^verbatim>\<open>null\<close>.
\<close>

primrec as_text :: "json \<Rightarrow> json" where
  "as_text JNull = JNull"
| "as_text (JBool b) = JBool b"
| "as_text (JInt i) = JInt i"
| "as_text (JFloat d) = (if dbl_finite d then JFloat d else JNull)"
| "as_text (JString s) = JString s"
| "as_text (JArray js) = JArray (map as_text js)"
| "as_text (JObject kvs) = JObject (map (map_prod id as_text) kvs)"

section \<open>Lemmas\<close>

lemma jcontains_obj [simp]: "jcontains (JObject kvs) k \<longleftrightarrow> map_of kvs k \<noteq> None"
  by (simp add: jcontains_def)

lemma jat_obj [simp]: "jat (JObject kvs) k = map_of kvs k"
  by (simp add: jat_def)

lemma jvalue_obj [simp]:
  "jvalue get (JObject kvs) k d = (case map_of kvs k of Some v \<Rightarrow> get v | None \<Rightarrow> Some d)"
  by (simp add: jvalue_def)

lemma map_of_jopt [simp]:
  "map_of (jopt k enc x) k' = (if k = k' then map_option enc x else None)"
  by (simp add: jopt_def split: option.splits)

lemma map_of_put_member: "map_of (put_member k v kvs) = (map_of kvs)(k \<mapsto> v)"
  by (induction k v kvs rule: put_member.induct) (auto simp: fun_eq_iff)

lemma those_Some: "(\<And>x. x \<in> set xs \<Longrightarrow> f x = Some (g x)) \<Longrightarrow> those (map f xs) = Some (map g xs)"
  by (induction xs) auto

lemma get_vector_map:
  "(\<And>x. x \<in> set xs \<Longrightarrow> dec (enc x) = Some (g x)) \<Longrightarrow>
   get_vector dec (JArray (map enc xs)) = Some (map g xs)"
  using those_Some [of xs "\<lambda>x. dec (enc x)" g] by (simp add: comp_def)

lemma get_vector_strings [simp]: "get_vector get_string (JArray (map JString xs)) = Some xs"
  using get_vector_map [of xs get_string JString "\<lambda>x. x"] by simp

lemma word_of_uint [simp]: "word_of_int (uint w) = (w :: 'a::len word)"
  by simp

lemma map_of_size [termination_simp]:
  "map_of kvs k = Some v \<Longrightarrow> size v < Suc (size_list (\<lambda>x. Suc (size (snd x))) kvs)"
  by (induction kvs) (auto split: if_splits)

end
