(* ===== verification/Iso8601.thy ===== *)
theory Iso8601
  imports Prelude
begin

text \<open>
  \<^verbatim>\<open>to_iso8601\<close> and \<^verbatim>\<open>from_iso8601\<close> of \<^verbatim>\<open>core/serialization.cpp\<close>, with the calendar functions
  of the C library they call (\<^verbatim>\<open>gmtime_r\<close>, \<^verbatim>\<open>timegm\<close>: the proleptic Gregorian calendar) and
  the field syntax of \<^verbatim>\<open>put_time\<close>, \<^verbatim>\<open>get_time\<close> and \<^verbatim>\<open>stoi\<close>.
\<close>

section \<open>Calendar\<close>

text \<open>C++ division truncates; the remainder has the dividend's sign.\<close>

definition tdiv :: "int \<Rightarrow> int \<Rightarrow> int" where
  "tdiv a b = sgn a * sgn b * (\<bar>a\<bar> div \<bar>b\<bar>)"

definition trem :: "int \<Rightarrow> int \<Rightarrow> int" where
  "trem a b = a - tdiv a b * b"

record tm =
  tm_year :: int
  tm_mon :: nat  \<comment> \<open>1 to 12\<close>
  tm_day :: int
  tm_hour :: int
  tm_min :: int
  tm_sec :: int

definition leap :: "int \<Rightarrow> bool" where
  "leap y \<longleftrightarrow> y mod 4 = 0 \<and> y mod 100 \<noteq> 0 \<or> y mod 400 = 0"

definition month_lengths :: "int \<Rightarrow> int list" where
  "month_lengths y = [31, if leap y then 29 else 28, 31, 30, 31, 30, 31, 31, 30, 31, 30, 31]"

text \<open>Days from 1970-01-01 to January 1 of year \<open>y\<close>.\<close>

definition days_before_year :: "int \<Rightarrow> int" where
  "days_before_year y =
     365 * (y - 1970) + (y - 1969) div 4 - (y - 1901) div 100 + (y - 1601) div 400"

definition year_of :: "int \<Rightarrow> int" where
  "year_of d =
     (let g = 1970 + d * 400 div 146097
      in if d < days_before_year g then g - 1
         else if days_before_year (g + 1) \<le> d then g + 1 else g)"

fun month_day :: "int list \<Rightarrow> nat \<Rightarrow> int \<Rightarrow> nat \<times> int" where
  "month_day [] k d = (k, d)"
| "month_day (m # ms) k d = (if d < m then (k, d) else month_day ms (Suc k) (d - m))"

definition gmtime :: "int \<Rightarrow> tm" where
  "gmtime t =
     (let days = t div 86400; sod = t mod 86400;
          y = year_of days;
          (k, d) = month_day (month_lengths y) 0 (days - days_before_year y)
      in \<lparr>tm_year = y, tm_mon = k + 1, tm_day = d + 1, tm_hour = sod div 3600,
          tm_min = sod mod 3600 div 60, tm_sec = sod mod 60\<rparr>)"

definition timegm :: "tm \<Rightarrow> int" where
  "timegm t =
     (days_before_year (tm_year t) + sum_list (take (tm_mon t - 1) (month_lengths (tm_year t))) +
      (tm_day t - 1)) * 86400 + tm_hour t * 3600 + tm_min t * 60 + tm_sec t"

lemma div_bounds:
  "numeral n * (a div numeral n) \<le> (a::int)" "a < numeral n * (a div numeral n) + numeral n"
  using mult_div_mod_eq [of "numeral n" a] pos_mod_sign [OF zero_less_numeral, of a n]
    pos_mod_bound [OF zero_less_numeral, of a n] by linarith+

lemma div_range:
  assumes "0 < n" "0 \<le> a" "a < m * n"
  shows "0 \<le> a div n \<and> a div n < (m::int)"
proof
  show "0 \<le> a div n" using assms by (simp add: pos_imp_zdiv_nonneg_iff)
  have "n * (a div n) < n * m"
    using mult_div_mod_eq [of n a] pos_mod_sign [OF assms(1), of a] assms(3)
    by (simp only: mult.commute)
  then show "a div n < m" using assms(1) by simp
qed

lemma div_succ:
  assumes "0 < (n::int)"
  shows "(x + 1) div n = x div n + (if (x + 1) mod n = 0 then 1 else 0)"
proof -
  have x: "x + 1 = n * (x div n) + (x mod n + 1)" by simp
  have r: "0 \<le> x mod n" "x mod n < n" using assms by simp_all
  show ?thesis
  proof (cases "x mod n + 1 = n")
    case True
    with x have "x + 1 = n * (x div n + 1)" by (simp only: distrib_left mult_1_right)
    with assms show ?thesis by simp
  next
    case False
    with r x have "(x + 1) div n = x div n" "(x + 1) mod n = x mod n + 1"
      using int_div_pos_eq [of "x + 1" n "x div n" "x mod n + 1"]
        int_mod_pos_eq [of "x + 1" n "x div n" "x mod n + 1"] by auto
    with r show ?thesis by simp
  qed
qed

lemma mod_shift: "(y - c * n) mod n = y mod (n::int)"
  using mod_mult_self1 [of y "- c" n] by simp

lemma days_before_year_Suc:
  "days_before_year (y + 1) = days_before_year y + (if leap y then 366 else 365)"
proof -
  define a b c where "a = (y - 1969) div 4" and "b = (y - 1901) div 100"
    and "c = (y - 1601) div 400"
  have a: "(y + 1 - 1969) div 4 = a + (if y mod 4 = 0 then 1 else 0)"
    using div_succ [of 4 "y - 1969"] mod_shift [of y 492 4] by (simp add: a_def)
  have b: "(y + 1 - 1901) div 100 = b + (if y mod 100 = 0 then 1 else 0)"
    using div_succ [of 100 "y - 1901"] mod_shift [of y 19 100] by (simp add: b_def)
  have c: "(y + 1 - 1601) div 400 = c + (if y mod 400 = 0 then 1 else 0)"
    using div_succ [of 400 "y - 1601"] mod_shift [of y 4 400] by (simp add: c_def)
  have "y mod 400 mod 100 = y mod 100" "y mod 100 mod 4 = y mod 4"
    by (rule mod_mod_cancel, simp)+
  then have "y mod 400 = 0 \<Longrightarrow> y mod 100 = 0" "y mod 100 = 0 \<Longrightarrow> y mod 4 = 0" by auto
  then show ?thesis
    by (simp only: days_before_year_def a b c a_def [symmetric] b_def [symmetric]
        c_def [symmetric] leap_def) simp
qed

lemma year_of_bounds:
  "days_before_year (year_of d) \<le> d \<and> d < days_before_year (year_of d + 1)"
proof -
  define g where "g = 1970 + d * 400 div 146097"
  have g1: "146097 * (g - 1970) \<le> d * 400" "d * 400 < 146097 * (g - 1970) + 146097"
    unfolding g_def add_diff_cancel_left' by (rule div_bounds)+
  have days: "160000 * days_before_year y \<le> 58438800 * y - 115124198800" (is "?u y")
   and days': "58438800 * y - 115124678800 \<le> 160000 * days_before_year y" (is "?l y")
   for y
  proof -
    define a b c where "a = (y - 1969) div 4" and "b = (y - 1901) div 100"
      and "c = (y - 1601) div 400"
    have a: "4 * a \<le> y - 1969" "y - 1969 < 4 * a + 4" unfolding a_def by (rule div_bounds)+
    have b: "100 * b \<le> y - 1901" "y - 1901 < 100 * b + 100" unfolding b_def by (rule div_bounds)+
    have c: "400 * c \<le> y - 1601" "y - 1601 < 400 * c + 400" unfolding c_def by (rule div_bounds)+
    have d: "days_before_year y = 365 * (y - 1970) + a - b + c"
      by (simp add: days_before_year_def a_def b_def c_def)
    show "?u y" using a b c unfolding d by simp
    show "?l y" using a b c unfolding d by simp
  qed
  have lo: "days_before_year (g - 1) \<le> d"
  proof -
    have "160000 * days_before_year (g - 1) \<le> 58438800 * (g - 1) - 115124198800" by (rule days)
    also have "\<dots> \<le> 400 * (146097 * (g - 1970))" by simp
    also have "\<dots> \<le> 400 * (d * 400)" using g1(1) by simp
    finally show ?thesis by simp
  qed
  have hi: "d < days_before_year (g + 2)"
  proof -
    have "160000 * d = 400 * (d * 400)" by simp
    also have "\<dots> < 400 * (146097 * (g - 1970) + 146097)" using g1(2) by simp
    also have "\<dots> \<le> 58438800 * (g + 2) - 115124678800" by simp
    also have "\<dots> \<le> 160000 * days_before_year (g + 2)" by (rule days')
    finally show ?thesis by simp
  qed
  show ?thesis
    using lo hi by (auto simp: year_of_def g_def [symmetric] Let_def add.commute)
qed

lemma sum_month_lengths: "sum_list (month_lengths y) = (if leap y then 366 else 365)"
  by (simp add: month_lengths_def)

lemma month_lengths_pos: "m \<in> set (month_lengths y) \<Longrightarrow> 28 \<le> m \<and> m \<le> 31"
  by (auto simp: month_lengths_def)

lemma month_day_inverse:
  "month_day ms k d = (k', d') \<Longrightarrow> k \<le> k' \<and> sum_list (take (k' - k) ms) + d' = d"
  by (induction ms k d rule: month_day.induct)
    (auto split: if_splits simp: take_Cons' Suc_diff_le not_less_eq_eq)

lemma month_day_range:
  assumes "0 \<le> d" "d < sum_list ms" "month_day ms k d = (k', d')"
  shows "k' < k + length ms \<and> 0 \<le> d' \<and> d' < ms ! (k' - k)"
  using assms
proof (induction ms k d rule: month_day.induct)
  case (2 m ms k d)
  show ?case
  proof (cases "d < m")
    case False
    with 2 have "k' < Suc k + length ms \<and> 0 \<le> d' \<and> d' < ms ! (k' - Suc k)" by simp
    moreover from 2 False have "Suc k \<le> k'"
      using month_day_inverse [of ms "Suc k" "d - m" k' d'] by simp
    ultimately show ?thesis by (auto simp: nth_Cons' Suc_diff_le)
  qed (use 2 in auto)
qed simp

lemma gmtime_fields:
  shows "timegm (gmtime t) = t"
    and "1 \<le> tm_mon (gmtime t) \<and> tm_mon (gmtime t) \<le> 12"
    and "1 \<le> tm_day (gmtime t) \<and> tm_day (gmtime t) \<le> 31"
    and "0 \<le> tm_hour (gmtime t) \<and> tm_hour (gmtime t) < 24"
    and "0 \<le> tm_min (gmtime t) \<and> tm_min (gmtime t) < 60"
    and "0 \<le> tm_sec (gmtime t) \<and> tm_sec (gmtime t) < 60"
    and "tm_year (gmtime t) = year_of (t div 86400)"
proof -
  define y where "y = year_of (t div 86400)"
  define yd where "yd = t div 86400 - days_before_year y"
  obtain k d where kd: "month_day (month_lengths y) 0 yd = (k, d)" by fastforce
  have yd: "0 \<le> yd" "yd < sum_list (month_lengths y)"
    using year_of_bounds [of "t div 86400"] days_before_year_Suc [of y]
    by (auto simp: yd_def y_def [symmetric] sum_month_lengths)
  have sum: "sum_list (take k (month_lengths y)) + d = yd"
    using month_day_inverse [OF kd] by simp
  have k: "k < 12" "0 \<le> d" "d < month_lengths y ! k"
    using month_day_range [OF yd kd] by (auto simp: month_lengths_def)
  then have "d < 31"
    using month_lengths_pos [of "month_lengths y ! k" y] nth_mem [of k "month_lengths y"]
    by (simp add: month_lengths_def)
  have g: "gmtime t = \<lparr>tm_year = y, tm_mon = k + 1, tm_day = d + 1,
      tm_hour = t mod 86400 div 3600, tm_min = t mod 86400 mod 3600 div 60,
      tm_sec = t mod 86400 mod 60\<rparr>"
    using kd by (simp add: gmtime_def Let_def y_def yd_def)
  have "t mod 86400 mod 3600 mod 60 = t mod 86400 mod 60" by (rule mod_mod_cancel) simp
  then have "t = (t div 86400) * 86400 + (t mod 86400 div 3600 * 3600 +
      (t mod 86400 mod 3600 div 60 * 60 + t mod 86400 mod 60))"
    using div_mult_mod_eq [of t 86400] div_mult_mod_eq [of "t mod 86400" 3600]
      div_mult_mod_eq [of "t mod 86400 mod 3600" 60] by metis
  then show "timegm (gmtime t) = t"
    using sum by (simp add: g timegm_def yd_def)
  show "1 \<le> tm_mon (gmtime t) \<and> tm_mon (gmtime t) \<le> 12" using k by (simp add: g)
  show "1 \<le> tm_day (gmtime t) \<and> tm_day (gmtime t) \<le> 31" using k \<open>d < 31\<close> by (simp add: g)
  show "0 \<le> tm_hour (gmtime t) \<and> tm_hour (gmtime t) < 24"
    unfolding g tm.simps by (rule div_range) simp_all
  show "0 \<le> tm_min (gmtime t) \<and> tm_min (gmtime t) < 60"
    unfolding g tm.simps by (rule div_range) simp_all
  show "0 \<le> tm_sec (gmtime t) \<and> tm_sec (gmtime t) < 60" by (simp add: g)
  show "tm_year (gmtime t) = year_of (t div 86400)" by (simp add: g y_def)
qed

section \<open>Printing\<close>

definition pad_left :: "nat \<Rightarrow> string \<Rightarrow> string" where
  "pad_left n s = replicate (n - length s) CHR ''0'' @ s"

definition to_iso8601 :: "time_point \<Rightarrow> string" where
  "to_iso8601 tp =
     (let tt = tdiv (sint tp) 1000000000;
          ms = trem (tdiv (sint tp) 1000000) 1000;
          t = gmtime tt
      in dec_of_int (tm_year t) @ ''-'' @ pad_left 2 (dec_of_nat (tm_mon t)) @ ''-'' @
         pad_left 2 (dec_of_int (tm_day t)) @ ''T'' @ pad_left 2 (dec_of_int (tm_hour t)) @ '':'' @
         pad_left 2 (dec_of_int (tm_min t)) @ '':'' @ pad_left 2 (dec_of_int (tm_sec t)) @ ''.'' @
         pad_left 3 (dec_of_int ms) @ ''Z'')"

section \<open>Reading\<close>

text \<open>A numeric field of \<^verbatim>\<open>get_time\<close>: at most \<open>len\<close> digits, at least one, value in range.\<close>

definition get_num :: "nat \<Rightarrow> nat \<Rightarrow> nat \<Rightarrow> string \<Rightarrow> (int \<times> string) option" where
  "get_num len lo hi s =
     (let ds = takeWhile is_digit (take len s); v = nat_of_dec 0 ds
      in if ds \<noteq> [] \<and> lo \<le> v \<and> v \<le> hi then Some (int v, drop (length ds) s) else None)"

fun get_lit :: "char \<Rightarrow> string \<Rightarrow> string option" where
  "get_lit c [] = None"
| "get_lit c (x # s) = (if x = c then Some s else None)"

definition get_time :: "string \<Rightarrow> tm option" where
  "get_time s = do {
     (y, s) \<leftarrow> get_num 4 0 9999 (dropWhile is_space s); s \<leftarrow> get_lit CHR ''-'' s;
     (mo, s) \<leftarrow> get_num 2 1 12 s; s \<leftarrow> get_lit CHR ''-'' s;
     (d, s) \<leftarrow> get_num 2 1 31 s; s \<leftarrow> get_lit CHR ''T'' s;
     (h, s) \<leftarrow> get_num 2 0 23 s; s \<leftarrow> get_lit CHR '':'' s;
     (mi, s) \<leftarrow> get_num 2 0 59 s; s \<leftarrow> get_lit CHR '':'' s;
     (sec, s) \<leftarrow> get_num 2 0 60 s;
     Some \<lparr>tm_year = y, tm_mon = nat mo, tm_day = d, tm_hour = h, tm_min = mi, tm_sec = sec\<rparr>
   }"

definition from_iso8601 :: "string \<Rightarrow> time_point" where
  "from_iso8601 s =
     (case get_time s of
        None \<Rightarrow> 0
      | Some t \<Rightarrow>
          let ms = (case dropWhile (\<lambda>c. c \<noteq> CHR ''.'') s of
                      [] \<Rightarrow> 0
                    | _ # rest \<Rightarrow> (case stoi rest of Some i \<Rightarrow> i | None \<Rightarrow> 0))
          in word_of_int (timegm t * 1000000000 + ms * 1000000))"

section \<open>Round trip\<close>

lemma length_dec_of_nat_Suc: "10 \<le> n \<Longrightarrow> length (dec_of_nat n) = Suc (length (dec_of_nat (n div 10)))"
  by (subst dec_of_nat.simps) simp

lemma length_dec_of_nat_1: "n < 10 \<Longrightarrow> length (dec_of_nat n) = 1"
  by (subst dec_of_nat.simps) simp

lemma length_dec_of_nat_le: "n < 10 ^ Suc k \<Longrightarrow> length (dec_of_nat n) \<le> Suc k"
proof (induction k arbitrary: n)
  case 0
  then show ?case by (simp add: length_dec_of_nat_1)
next
  case (Suc k)
  then have "n div 10 < 10 ^ Suc k" by (simp add: div_less_iff_less_mult)
  from Suc.IH [OF this] show ?case
    by (cases "n < 10") (auto simp: length_dec_of_nat_1 length_dec_of_nat_Suc)
qed

lemma length_dec_of_nat_2: "n < 100 \<Longrightarrow> length (dec_of_nat n) \<le> 2"
  using length_dec_of_nat_le [of n 1] by simp

lemma length_dec_of_nat_3: "n < 1000 \<Longrightarrow> length (dec_of_nat n) \<le> 3"
  using length_dec_of_nat_le [of n 2] by simp

lemma length_dec_of_nat_4:
  assumes "1000 \<le> n" "n < 10000"
  shows "length (dec_of_nat n) = 4"
proof -
  have "100 \<le> n div 10" "10 \<le> n div 10 div 10" "n div 10 div 10 div 10 < 10"
    "1 \<le> n div 10 div 10 div 10"
    using assms by (auto simp: less_eq_div_iff_mult_less_eq div_less_iff_less_mult)
  with assms show ?thesis by (simp add: length_dec_of_nat_Suc length_dec_of_nat_1)
qed

lemma nat_of_dec_pad: "nat_of_dec 0 (pad_left n s) = nat_of_dec 0 s"
proof -
  have "nat_of_dec 0 (replicate k CHR ''0'' @ s) = nat_of_dec 0 s" for k
    by (induction k) (auto simp: digit_val_def)
  then show ?thesis by (simp add: pad_left_def)
qed

lemma pad_left_digits: "\<forall>c \<in> set s. is_digit c \<Longrightarrow> \<forall>c \<in> set (pad_left n s). is_digit c"
  by (auto simp: pad_left_def is_digit_def)

lemma pad_dec_digits: "\<forall>c \<in> set (pad_left n (dec_of_nat m)). is_digit c"
  by (rule pad_left_digits [OF dec_of_nat_digits])

lemma length_pad_left: "length s \<le> n \<Longrightarrow> length (pad_left n s) = n"
  by (simp add: pad_left_def)

lemma get_num_digits:
  assumes "\<forall>c \<in> set ds. is_digit c" "length ds = len" "0 < len" "nat_of_dec 0 ds = v" "lo \<le> v" "v \<le> hi"
  shows "get_num len lo hi (ds @ s) = Some (int v, s)"
proof -
  have tw: "takeWhile is_digit ds = ds"
    using assms(1) by (auto simp: takeWhile_eq_all_conv)
  show ?thesis using assms(2-) by (auto simp: get_num_def Let_def tw)
qed

lemma get_num_pad2:
  "n < 100 \<Longrightarrow> lo \<le> n \<Longrightarrow> n \<le> hi \<Longrightarrow>
   get_num 2 lo hi (pad_left 2 (dec_of_nat n) @ s) = Some (int n, s)"
  by (rule get_num_digits)
    (use pad_dec_digits in \<open>auto simp: length_pad_left length_dec_of_nat_2
      nat_of_dec_pad nat_of_dec_of_nat\<close>)

lemma get_num_year:
  "1000 \<le> n \<Longrightarrow> n < 10000 \<Longrightarrow> get_num 4 0 9999 (dec_of_nat n @ s) = Some (int n, s)"
  by (rule get_num_digits)
    (simp_all add: dec_of_nat_digits length_dec_of_nat_4 nat_of_dec_of_nat)

lemma not_space_digits:
  assumes "\<forall>c \<in> set ds. is_digit c" "ds \<noteq> []"
  shows "dropWhile is_space (ds @ s) = ds @ s"
proof -
  obtain c cs where "ds = c # cs" using assms(2) by (cases ds) auto
  moreover from this assms(1) have "\<not> is_space c" by (auto simp: is_digit_def is_space_def)
  ultimately show ?thesis by simp
qed

lemma stoi_millis:
  assumes "n < 1000"
  shows "stoi (pad_left 3 (dec_of_nat n) @ ''Z'') = Some (int n)"
proof (rule stoi_digits)
  show "\<forall>c \<in> set (pad_left 3 (dec_of_nat n)). is_digit c"
    by (rule pad_dec_digits)
  show "pad_left 3 (dec_of_nat n) \<noteq> []" by (simp add: pad_left_def)
  show "nat_of_dec 0 (pad_left 3 (dec_of_nat n)) = n" by (simp add: nat_of_dec_pad nat_of_dec_of_nat)
qed (use assms in \<open>simp_all add: is_digit_def\<close>)

lemma iso_prefix_no_dot:
  "\<forall>c \<in> set ds. is_digit c \<Longrightarrow>
   dropWhile (\<lambda>c. c \<noteq> CHR ''.'') (ds @ s) = dropWhile (\<lambda>c. c \<noteq> CHR ''.'') s"
  by (rule dropWhile_append2) (auto simp: is_digit_def)

lemma tdiv_nonneg: "0 \<le> a \<Longrightarrow> 0 < b \<Longrightarrow> tdiv a b = a div b"
  by (cases "a = 0") (auto simp: tdiv_def sgn_if)

lemma trem_nonneg: "0 \<le> a \<Longrightarrow> 0 < b \<Longrightarrow> trem a b = a mod b"
  by (simp add: trem_def tdiv_nonneg minus_div_mult_eq_mod)

lemma year_range:
  assumes "0 \<le> t" "t < 9223372037"
  shows "1900 \<le> tm_year (gmtime t) \<and> tm_year (gmtime t) \<le> 2300"
proof -
  have "0 \<le> t div 86400 \<and> t div 86400 < 106752"
    by (rule div_range) (use assms in simp_all)
  then have "0 \<le> t div 86400 * 400 div 146097 \<and> t div 86400 * 400 div 146097 < 300"
    by (intro div_range) auto
  then show ?thesis
    unfolding gmtime_fields(7) year_of_def by (auto simp: Let_def)
qed

text \<open>Time points from 1970 on survive with millisecond precision.\<close>

definition millis_of :: "time_point \<Rightarrow> time_point" where
  "millis_of tp = word_of_int (sint tp div 1000000 * 1000000)"

lemma from_to_iso8601:
  assumes "0 \<le> sint tp"
  shows "from_iso8601 (to_iso8601 tp) = millis_of tp"
proof -
  define t where "t = sint tp div 1000000000"
  define m where "m = sint tp div 1000000 mod 1000"
  have lt: "sint tp < 9223372036854775808" using sint_lt [of tp] by simp
  have t: "0 \<le> t \<and> t < 9223372037"
    unfolding t_def by (rule div_range) (use assms lt in simp_all)
  have m: "0 \<le> m \<and> m < 1000" by (simp add: m_def)
  have sum: "t * 1000000000 + m * 1000000 = sint tp div 1000000 * 1000000"
  proof -
    have "t = sint tp div 1000000 div 1000"
      by (simp add: t_def zdiv_zmult2_eq [symmetric])
    then have "t * 1000 + m = sint tp div 1000000"
      by (simp add: m_def)
    then show ?thesis by (simp add: algebra_simps flip: mult.assoc)
  qed
  let ?g = "gmtime t"
  note f = gmtime_fields [of t]
  note y = year_range [of t]
  obtain Y M D h mi sec where g: "?g = \<lparr>tm_year = int Y, tm_mon = M, tm_day = int D,
      tm_hour = int h, tm_min = int mi, tm_sec = int sec\<rparr>"
    and r: "1000 \<le> Y" "Y < 10000" "1 \<le> M" "M \<le> 12" "1 \<le> D" "D \<le> 31" "h \<le> 23" "mi \<le> 59" "sec \<le> 60"
  proof
    show "?g = \<lparr>tm_year = int (nat (tm_year ?g)), tm_mon = tm_mon ?g, tm_day = int (nat (tm_day ?g)),
      tm_hour = int (nat (tm_hour ?g)), tm_min = int (nat (tm_min ?g)), tm_sec = int (nat (tm_sec ?g))\<rparr>"
      using f y t by simp
  qed (use f y t in auto)
  obtain n where n: "m = int n" "n < 1000" using m by (metis nat_less_iff nat_0_le of_nat_numeral)
  have iso: "to_iso8601 tp = dec_of_nat Y @ CHR ''-'' # pad_left 2 (dec_of_nat M) @ CHR ''-'' #
      pad_left 2 (dec_of_nat D) @ CHR ''T'' # pad_left 2 (dec_of_nat h) @ CHR '':'' #
      pad_left 2 (dec_of_nat mi) @ CHR '':'' # pad_left 2 (dec_of_nat sec) @ CHR ''.'' #
      pad_left 3 (dec_of_nat n) @ ''Z''"
    using n m assms
    by (simp add: to_iso8601_def tdiv_nonneg trem_nonneg pos_imp_zdiv_nonneg_iff
        t_def [symmetric] m_def [symmetric] g dec_of_int_def)
  have time: "get_time (to_iso8601 tp) = Some ?g"
    unfolding iso g using r
    by (simp add: get_time_def not_space_digits dec_of_nat_digits get_num_year get_num_pad2)
  have dot: "dropWhile (\<lambda>c. c \<noteq> CHR ''.'') (to_iso8601 tp) = CHR ''.'' # pad_left 3 (dec_of_nat n) @ ''Z''"
    unfolding iso
    by (simp add: iso_prefix_no_dot [OF dec_of_nat_digits] iso_prefix_no_dot [OF pad_dec_digits])
  show ?thesis
    using n f(1) sum
    by (simp add: from_iso8601_def time dot stoi_millis millis_of_def
        del: of_int_add of_int_mult)
qed

end
