(* ===== verification/Serialization.thy ===== *)
theory Serialization
  imports Workspace_Model Base64 Json_Value Iso8601
begin

text \<open>
  \<^verbatim>\<open>core/serialization.hpp\<close> and \<^verbatim>\<open>core/serialization.cpp\<close>: the JSON form of the workspace
  model.  \<open>*_to_json\<close> and \<open>*_from_json\<close> are the overloads of \<^verbatim>\<open>to_json\<close> and \<^verbatim>\<open>from_json\<close>;
  a decoder returns \<^const>\<open>None\<close> where the code throws, and starts from a default value, as every
  call in the code does.  The last sections give the round trips, through the normal form
  \<open>norm_*\<close> that names exactly what the format does not keep.
\<close>

section \<open>Enumerations\<close>

fun tab_kind_to_string :: "tab_kind \<Rightarrow> string" where
  "tab_kind_to_string Note = ''note''"
| "tab_kind_to_string Terminal = ''terminal''"

definition tab_kind_from_string :: "string \<Rightarrow> tab_kind" where
  "tab_kind_from_string s = (if s = ''note'' then Note else Terminal)"

fun interrupted_source_to_string :: "interrupted_source \<Rightarrow> string" where
  "interrupted_source_to_string CtrlC = ''ctrl_c''"
| "interrupted_source_to_string ProcessExit = ''process_exit''"
| "interrupted_source_to_string UnknownSource = ''unknown''"

definition interrupted_source_from_string :: "string \<Rightarrow> interrupted_source" where
  "interrupted_source_from_string s =
     (if s = ''ctrl_c'' then CtrlC
      else if s = ''process_exit'' then ProcessExit
      else UnknownSource)"

section \<open>Panes\<close>

definition interrupted_command_to_json :: "interrupted_command \<Rightarrow> json" where
  "interrupted_command_to_json c = JObject
     [(''command'', JString (ic_command c)),
      (''source'', JString (interrupted_source_to_string (ic_source c))),
      (''timestamp_us'', JInt (sint (ic_timestamp_us c)))]"

definition interrupted_command_from_json :: "json \<Rightarrow> interrupted_command option" where
  "interrupted_command_from_json j = do {
     command \<leftarrow> jvalue get_string j ''command'' '''';
     timestamp_us \<leftarrow> jvalue get_i64 j ''timestamp_us'' 0;
     source \<leftarrow> jvalue get_string j ''source'' ''unknown'';
     Some \<lparr>ic_command = command, ic_timestamp_us = timestamp_us,
           ic_source = interrupted_source_from_string source\<rparr>
   }"

definition command_record_to_json :: "command_record \<Rightarrow> json" where
  "command_record_to_json r = JObject
     ([(''command'', JString (cr_command r))] @
      (if cr_pinned r then [(''pinned'', JBool True)] else []) @
      [(''timestamp_us'', JInt (sint (cr_timestamp_us r)))])"

definition command_record_from_json :: "json \<Rightarrow> command_record option" where
  "command_record_from_json j =
     (if is_string j then do {
        s \<leftarrow> get_string j;
        Some \<lparr>cr_command = s, cr_timestamp_us = 0, cr_pinned = False\<rparr>
      } else do {
        command \<leftarrow> jvalue get_string j ''command'' '''';
        timestamp_us \<leftarrow> jvalue get_i64 j ''timestamp_us'' 0;
        pinned \<leftarrow> jvalue get_bool j ''pinned'' False;
        Some \<lparr>cr_command = command, cr_timestamp_us = timestamp_us, cr_pinned = pinned\<rparr>
      })"

definition pane_state_to_json :: "pane_state \<Rightarrow> json" where
  "pane_state_to_json s = JObject
     ([(''cols'', JInt (uint (ps_cols s))),
       (''command_history'', JArray (map command_record_to_json (ps_command_history s))),
       (''cwd'', JString (ps_cwd s))] @
      jopt ''interrupted_command'' interrupted_command_to_json (ps_interrupted_command s) @
      [(''rows'', JInt (uint (ps_rows s))),
       (''shell'', JString (ps_shell s)),
       (''snapshot_data'', JString (base64_encode (ps_snapshot_data s)))])"

definition interrupted_member_from_json :: "json \<Rightarrow> interrupted_command option" where
  "interrupted_member_from_json ic =
     (if is_string ic then do {
        s \<leftarrow> get_string ic;
        Some \<lparr>ic_command = s, ic_timestamp_us = 0, ic_source = UnknownSource\<rparr>
      } else interrupted_command_from_json ic)"

definition pane_state_from_json :: "json \<Rightarrow> pane_state option" where
  "pane_state_from_json j = do {
     cwd \<leftarrow> jvalue get_string j ''cwd'' '''';
     shell \<leftarrow> jvalue get_string j ''shell'' '''';
     cols \<leftarrow> jvalue get_u32 j ''cols'' 0;
     rows \<leftarrow> jvalue get_u32 j ''rows'' 0;
     history \<leftarrow> (case jat j ''command_history'' of
                   Some h \<Rightarrow> get_vector command_record_from_json h
                 | None \<Rightarrow> Some []);
     data \<leftarrow> (if jcontains j ''snapshot_data'' then do {
                b64 \<leftarrow> jvalue get_string j ''snapshot_data'' '''';
                Some (base64_decode b64)
              } else Some []);
     ic \<leftarrow> (case jat j ''interrupted_command'' of
              Some ic \<Rightarrow> map_option Some (interrupted_member_from_json ic)
            | None \<Rightarrow> Some None);
     Some \<lparr>ps_cwd = cwd, ps_shell = shell, ps_cols = cols, ps_rows = rows, ps_environment = [],
           ps_command_history = history, ps_snapshot_data = data, ps_interrupted_command = ic\<rparr>
   }"

definition pane_to_json :: "pane \<Rightarrow> json" where
  "pane_to_json p = JObject [(''id'', JString (id_str (p_id p))), (''state'', pane_state_to_json (p_state p))]"

definition pane_from_json :: "json \<Rightarrow> pane option" where
  "pane_from_json j = do {
     i \<leftarrow> jvalue get_string j ''id'' '''';
     s \<leftarrow> (case jat j ''state'' of
             Some s \<Rightarrow> pane_state_from_json s
           | None \<Rightarrow> Some empty_pane_state);
     Some \<lparr>p_id = Id i, p_state = s\<rparr>
   }"

section \<open>The pane tree\<close>

fun orientation :: "split_kind \<Rightarrow> string" where
  "orientation SplitHorizontal = ''horizontal''"
| "orientation SplitVertical = ''vertical''"

fun pane_tree_to_json :: "pane_tree \<Rightarrow> json" where
  "pane_tree_to_json (Leaf (Some p)) = JObject [(''kind'', JString ''pane''), (''pane'', pane_to_json p)]"
| "pane_tree_to_json (Leaf None) = JObject [(''kind'', JString ''empty'')]"
| "pane_tree_to_json (Split k a b r) = JObject
     [(''first'', pane_tree_to_json a),
      (''kind'', JString ''split''),
      (''orientation'', JString (orientation k)),
      (''ratio'', JFloat r),
      (''second'', pane_tree_to_json b)]"

fun pane_tree_from_json :: "json \<Rightarrow> pane_tree option" where
  "pane_tree_from_json (JObject kvs) = do {
     kind \<leftarrow> jvalue get_string (JObject kvs) ''kind'' ''pane'';
     if kind = ''pane'' \<and> jcontains (JObject kvs) ''pane'' then do {
       jp \<leftarrow> jat (JObject kvs) ''pane'';
       p \<leftarrow> pane_from_json jp;
       Some (leaf p)
     } else if kind = ''empty'' then Some (leaf empty_pane)
     else do {
       orient \<leftarrow> jvalue get_string (JObject kvs) ''orientation'' ''horizontal'';
       ratio \<leftarrow> jvalue get_double (JObject kvs) ''ratio'' (Fin (1 / 2));
       first \<leftarrow> (case map_of kvs ''first'' of
                   Some f \<Rightarrow> pane_tree_from_json f
                 | None \<Rightarrow> Some (leaf empty_pane));
       second \<leftarrow> (case map_of kvs ''second'' of
                    Some s \<Rightarrow> pane_tree_from_json s
                  | None \<Rightarrow> Some (leaf empty_pane));
       Some (Split (if orient = ''vertical'' then SplitVertical else SplitHorizontal) first second ratio)
     }
   }"
| "pane_tree_from_json _ = None"

section \<open>Tabs and windows\<close>

definition note_tab_state_to_json :: "note_tab_state \<Rightarrow> json" where
  "note_tab_state_to_json s = JObject
     [(''content'', JString (nt_content s)),
      (''cursor'', JInt (sint (nt_cursor s))),
      (''document_id'', JString (nt_document_id s)),
      (''modified'', JBool (nt_modified s)),
      (''path'', JString (nt_path s)),
      (''preview_enabled'', JBool (nt_preview_enabled s)),
      (''scroll'', JFloat (nt_scroll s)),
      (''split_ratio'', JFloat (nt_split_ratio s)),
      (''sync_scroll'', JBool (nt_sync_scroll s)),
      (''title'', JString (nt_title s))]"

definition note_tab_state_from_json :: "json \<Rightarrow> note_tab_state option" where
  "note_tab_state_from_json j = do {
     document_id \<leftarrow> jvalue get_string j ''document_id'' '''';
     path \<leftarrow> jvalue get_string j ''path'' '''';
     title \<leftarrow> jvalue get_string j ''title'' '''';
     content \<leftarrow> jvalue get_string j ''content'' '''';
     modified \<leftarrow> jvalue get_bool j ''modified'' False;
     cursor \<leftarrow> jvalue get_i32 j ''cursor'' 0;
     scroll \<leftarrow> jvalue get_double j ''scroll'' (Fin 0);
     preview_enabled \<leftarrow> jvalue get_bool j ''preview_enabled'' False;
     split_ratio \<leftarrow> jvalue get_double j ''split_ratio'' (Fin (1 / 2));
     sync_scroll \<leftarrow> jvalue get_bool j ''sync_scroll'' False;
     Some \<lparr>nt_document_id = document_id, nt_path = path, nt_title = title, nt_content = content,
           nt_modified = modified, nt_cursor = cursor, nt_scroll = scroll,
           nt_preview_enabled = preview_enabled, nt_split_ratio = split_ratio,
           nt_sync_scroll = sync_scroll\<rparr>
   }"

definition tab_to_json :: "tab \<Rightarrow> json" where
  "tab_to_json t = JObject
     ([(''id'', JString (id_str (t_id t))),
       (''kind'', JString (tab_kind_to_string (t_kind t)))] @
      jopt ''note_state'' note_tab_state_to_json (t_note_state t) @
      [(''pane_tree'', pane_tree_to_json (t_pane_tree t)),
       (''title'', JString (t_title t))])"

definition tab_from_json :: "json \<Rightarrow> tab option" where
  "tab_from_json j = do {
     i \<leftarrow> jvalue get_string j ''id'' '''';
     title \<leftarrow> jvalue get_string j ''title'' '''';
     kind \<leftarrow> jvalue get_string j ''kind'' ''terminal'';
     tree \<leftarrow> (case jat j ''pane_tree'' of
                Some pt \<Rightarrow> pane_tree_from_json pt
              | None \<Rightarrow> Some empty_tree);
     note \<leftarrow> (case jat j ''note_state'' of
                Some n \<Rightarrow> (if n = JNull then Some None
                            else map_option Some (note_tab_state_from_json n))
              | None \<Rightarrow> Some None);
     Some \<lparr>t_id = Id i, t_title = title, t_kind = tab_kind_from_string kind,
           t_note_state = note, t_pane_tree = tree\<rparr>
   }"

definition window_to_json :: "window \<Rightarrow> json" where
  "window_to_json w = JObject
     ([(''created_at'', JInt (sint (w_created_at w)))] @
      jopt ''focus_pane_id'' (\<lambda>i. JString (id_str i)) (w_focus_pane_id w) @
      jopt ''focus_tab_id'' (\<lambda>i. JString (id_str i)) (w_focus_tab_id w) @
      [(''height'', JInt (uint (w_height w))),
       (''id'', JString (id_str (w_id w))),
       (''label'', JString (w_label w)),
       (''last_active'', JInt (sint (w_last_active w))),
       (''tabs'', JArray (map tab_to_json (w_tabs w))),
       (''width'', JInt (uint (w_width w))),
       (''x'', JInt (sint (w_x w))),
       (''y'', JInt (sint (w_y w)))])"

text \<open>\<^verbatim>\<open>if (j.contains(k)) x = Id{j.value(k, std::string{})}\<close>\<close>

definition opt_id_from_json :: "json \<Rightarrow> string \<Rightarrow> 'tag id option option" where
  "opt_id_from_json j k =
     (if jcontains j k then map_option (\<lambda>s. Some (Id s)) (jvalue get_string j k '''') else Some None)"

definition window_from_json :: "json \<Rightarrow> window option" where
  "window_from_json j = do {
     i \<leftarrow> jvalue get_string j ''id'' '''';
     label \<leftarrow> (case jat j ''label'' of
                 Some l \<Rightarrow> get_string l
               | None \<Rightarrow> (case jat j ''title'' of Some t \<Rightarrow> get_string t | None \<Rightarrow> Some ''''));
     x \<leftarrow> jvalue get_i32 j ''x'' 0;
     y \<leftarrow> jvalue get_i32 j ''y'' 0;
     width \<leftarrow> jvalue get_u32 j ''width'' 0;
     height \<leftarrow> jvalue get_u32 j ''height'' 0;
     created_at \<leftarrow> jvalue get_i64 j ''created_at'' 0;
     last_active \<leftarrow> jvalue get_i64 j ''last_active'' 0;
     tabs \<leftarrow> (case jat j ''tabs'' of
                Some ts \<Rightarrow> get_vector tab_from_json ts
              | None \<Rightarrow> Some []);
     focus_tab \<leftarrow> opt_id_from_json j ''focus_tab_id'';
     focus_pane \<leftarrow> opt_id_from_json j ''focus_pane_id'';
     Some \<lparr>w_id = Id i, w_label = label, w_x = x, w_y = y, w_width = width, w_height = height,
           w_created_at = created_at, w_last_active = last_active, w_tabs = tabs,
           w_focus_tab_id = focus_tab, w_focus_pane_id = focus_pane\<rparr>
   }"

section \<open>User interface state\<close>

definition directory_tree_state_to_json :: "directory_tree_state \<Rightarrow> json" where
  "directory_tree_state_to_json s = JObject
     [(''anchor_offset'', JFloat (dt_anchor_offset s)),
      (''current_dir'', JString (dt_current_dir s)),
      (''expanded'', JArray (map JString (dt_expanded s))),
      (''filter'', JString (dt_filter s)),
      (''scroll_anchor'', JString (dt_scroll_anchor s)),
      (''selected'', JString (dt_selected s))]"

definition directory_tree_state_from_json :: "json \<Rightarrow> directory_tree_state option" where
  "directory_tree_state_from_json j = do {
     current_dir \<leftarrow> jvalue get_string j ''current_dir'' '''';
     selected \<leftarrow> jvalue get_string j ''selected'' '''';
     filter_text \<leftarrow> jvalue get_string j ''filter'' '''';
     scroll_anchor \<leftarrow> jvalue get_string j ''scroll_anchor'' '''';
     anchor_offset \<leftarrow> jvalue get_double j ''anchor_offset'' (Fin 0);
     expanded \<leftarrow> (case jat j ''expanded'' of
                    Some es \<Rightarrow> those (map get_string (jiter es))
                  | None \<Rightarrow> Some []);
     Some \<lparr>dt_current_dir = current_dir, dt_expanded = expanded, dt_selected = selected,
           dt_filter = filter_text, dt_scroll_anchor = scroll_anchor,
           dt_anchor_offset = anchor_offset\<rparr>
   }"

definition ui_state_to_json :: "ui_state \<Rightarrow> json" where
  "ui_state_to_json u = JObject
     [(''directory_tree'', directory_tree_state_to_json (ui_directory_tree u))]"

definition ui_state_from_json :: "json \<Rightarrow> ui_state option" where
  "ui_state_from_json j =
     (case jat j ''directory_tree'' of
        Some d \<Rightarrow> map_option (\<lambda>s. \<lparr>ui_directory_tree = s\<rparr>) (directory_tree_state_from_json d)
      | None \<Rightarrow> Some empty_ui)"

section \<open>Workspaces\<close>

definition workspace_to_json :: "workspace \<Rightarrow> json" where
  "workspace_to_json w = JObject
     ([(''created_at'', JString (to_iso8601 (ws_created_at w)))] @
      jopt ''focus_window_id'' (\<lambda>i. JString (id_str i)) (ws_focus_window_id w) @
      [(''generation'', JInt (uint (ws_generation w))),
       (''id'', JString (id_str (ws_id w))),
       (''last_saved_at'', JString (to_iso8601 (ws_last_saved_at w))),
       (''name'', JString (ws_name w)),
       (''schema_version'', JInt (sint (ws_schema_version w))),
       (''snapshots'', JArray (map (\<lambda>i. JString (id_str i)) (ws_snapshot_ids w))),
       (''tags'', JArray (map JString (ws_tags w))),
       (''ui'', ui_state_to_json (ws_ui w)),
       (''windows'', JArray (map window_to_json (ws_windows w))),
       (''working_directory'', JString (ws_working_directory w))])"

text \<open>\<^verbatim>\<open>value("generation", 0u)\<close> reads an unsigned 32-bit number, which is then widened.\<close>

definition workspace_from_json :: "json \<Rightarrow> workspace option" where
  "workspace_from_json j = do {
     i \<leftarrow> jvalue get_string j ''id'' '''';
     name \<leftarrow> jvalue get_string j ''name'' '''';
     working_directory \<leftarrow> jvalue get_string j ''working_directory'' '''';
     created_at \<leftarrow> jvalue get_string j ''created_at'' '''';
     last_saved_at \<leftarrow> jvalue get_string j ''last_saved_at'' '''';
     schema_version \<leftarrow> jvalue get_i32 j ''schema_version'' kSchemaVersion;
     generation \<leftarrow> jvalue get_u32 j ''generation'' 0;
     tags \<leftarrow> jvalue (get_vector get_string) j ''tags'' [];
     windows \<leftarrow> (case jat j ''windows'' of
                   Some ws \<Rightarrow> get_vector window_from_json ws
                 | None \<Rightarrow> Some []);
     ui \<leftarrow> (case jat j ''ui'' of Some u \<Rightarrow> ui_state_from_json u | None \<Rightarrow> Some empty_ui);
     snapshots \<leftarrow> (case jat j ''snapshots'' of
                     Some ss \<Rightarrow> those (map (\<lambda>s. map_option Id (get_string s)) (jiter ss))
                   | None \<Rightarrow> Some []);
     focus \<leftarrow> opt_id_from_json j ''focus_window_id'';
     Some \<lparr>ws_id = Id i, ws_name = name, ws_working_directory = working_directory,
           ws_created_at = from_iso8601 created_at, ws_last_saved_at = from_iso8601 last_saved_at,
           ws_tags = tags, ws_schema_version = schema_version, ws_generation = ucast generation,
           ws_windows = windows, ws_focus_window_id = focus, ws_snapshot_ids = snapshots,
           ws_ui = ui\<rparr>
   }"

definition closed_window_snapshot_to_json :: "closed_window_snapshot \<Rightarrow> json" where
  "closed_window_snapshot_to_json s = JObject
     [(''closed_at'', JString (to_iso8601 (cw_closed_at s))),
      (''generation'', JInt (uint (cw_generation s))),
      (''id'', JString (id_str (cw_id s))),
      (''label'', JString (cw_label s)),
      (''state_json'', JString (cw_workspace_state_json s)),
      (''window_id'', JString (id_str (cw_window_id s))),
      (''workspace_id'', JString '''')]"

definition closed_window_snapshot_from_json :: "json \<Rightarrow> closed_window_snapshot option" where
  "closed_window_snapshot_from_json j = do {
     i \<leftarrow> jvalue get_string j ''id'' '''';
     window_id \<leftarrow> jvalue get_string j ''window_id'' '''';
     label \<leftarrow> jvalue get_string j ''label'' '''';
     closed_at \<leftarrow> jvalue get_string j ''closed_at'' '''';
     state_json \<leftarrow> jvalue get_string j ''state_json'' '''';
     generation \<leftarrow> jvalue get_u64 j ''generation'' 0;
     Some \<lparr>cw_id = Id i, cw_window_id = Id window_id, cw_label = label,
           cw_closed_at = from_iso8601 closed_at, cw_workspace_state_json = state_json,
           cw_generation = generation\<rparr>
   }"

section \<open>Migration\<close>

text \<open>
  References into a document, written through: \<open>jmod k f j\<close> is \<^verbatim>\<open>f(j.at(k))\<close>, \<open>jeach f j\<close> is
  \<^verbatim>\<open>for (auto& e : j) f(e)\<close>.
\<close>

definition jmod :: "string \<Rightarrow> (json \<Rightarrow> json option) \<Rightarrow> json \<Rightarrow> json option" where
  "jmod k f j = do { v \<leftarrow> jat j k; v' \<leftarrow> f v; jput k v' j }"

fun jeach :: "(json \<Rightarrow> json option) \<Rightarrow> json \<Rightarrow> json option" where
  "jeach f (JArray js) = map_option JArray (those (map f js))"
| "jeach f (JObject kvs) = map_option (\<lambda>vs. JObject (zip (map fst kvs) vs)) (those (map (\<lambda>kv. f (snd kv)) kvs))"
| "jeach f JNull = Some JNull"
| "jeach f j = f j"

definition jmod_if :: "string \<Rightarrow> (json \<Rightarrow> json option) \<Rightarrow> json \<Rightarrow> json option" where
  "jmod_if k f j = (if jcontains j k then jmod k f j else Some j)"

definition migrate_pane_state_json :: "json \<Rightarrow> json option" where
  "migrate_pane_state_json st =
     (case jat st ''interrupted_command'' of
        Some (JString s) \<Rightarrow>
          jput ''interrupted_command''
            (JObject [(''command'', JString s), (''source'', JString ''unknown''),
                      (''timestamp_us'', JInt 0)]) st
      | _ \<Rightarrow> Some st)"

definition migrate_tab_json :: "json \<Rightarrow> json option" where
  "migrate_tab_json t = do {
     t \<leftarrow> (if \<not> jcontains t ''kind'' then jput ''kind'' (JString ''terminal'') t else Some t);
     t \<leftarrow> (if \<not> jcontains t ''note_state'' then jput ''note_state'' JNull t else Some t);
     jmod_if ''pane_tree'' (jmod_if ''pane'' (jmod_if ''state'' migrate_pane_state_json)) t
   }"

definition migrate_window_json :: "json \<Rightarrow> json option" where
  "migrate_window_json win = jmod_if ''tabs'' (jeach migrate_tab_json) win"

definition migrate_workspace_json :: "json \<Rightarrow> json option" where
  "migrate_workspace_json j = do {
     v \<leftarrow> jvalue get_i32 j ''schema_version'' kSchemaVersion;
     j \<leftarrow> jput ''schema_version'' (JInt (sint v)) j;
     g \<leftarrow> jvalue get_u32 j ''generation'' 0;
     j \<leftarrow> jput ''generation'' (JInt (uint g)) j;
     j \<leftarrow> (if \<not> jcontains j ''ui'' then jput ''ui'' (JObject []) j else Some j);
     jmod_if ''windows'' (jeach migrate_window_json) j
   }"

section \<open>Normal forms\<close>

text \<open>
  What the format does not keep: the environment of a pane, the difference between an empty
  leaf and a leaf with a default pane, the high half of the generation, and the part of the
  workspace's times below a millisecond.
\<close>

definition norm_pane_state :: "pane_state \<Rightarrow> pane_state" where
  "norm_pane_state s = s\<lparr>ps_environment := []\<rparr>"

definition norm_pane :: "pane \<Rightarrow> pane" where
  "norm_pane p = p\<lparr>p_state := norm_pane_state (p_state p)\<rparr>"

fun norm_tree :: "pane_tree \<Rightarrow> pane_tree" where
  "norm_tree (Leaf None) = leaf empty_pane"
| "norm_tree (Leaf (Some p)) = leaf (norm_pane p)"
| "norm_tree (Split k a b r) = Split k (norm_tree a) (norm_tree b) r"

definition norm_tab :: "tab \<Rightarrow> tab" where
  "norm_tab t = t\<lparr>t_pane_tree := norm_tree (t_pane_tree t)\<rparr>"

definition norm_window :: "window \<Rightarrow> window" where
  "norm_window w = w\<lparr>w_tabs := map norm_tab (w_tabs w)\<rparr>"

definition norm_workspace :: "workspace \<Rightarrow> workspace" where
  "norm_workspace w = w\<lparr>ws_windows := map norm_window (ws_windows w),
     ws_generation := ucast (ucast (ws_generation w) :: u32),
     ws_created_at := millis_of (ws_created_at w),
     ws_last_saved_at := millis_of (ws_last_saved_at w)\<rparr>"

section \<open>Round trips\<close>

lemma tab_kind_roundtrip [simp]: "tab_kind_from_string (tab_kind_to_string k) = k"
  by (cases k) (simp_all add: tab_kind_from_string_def)

lemma interrupted_source_roundtrip [simp]:
  "interrupted_source_from_string (interrupted_source_to_string s) = s"
  by (cases s) (simp_all add: interrupted_source_from_string_def)

lemma interrupted_command_roundtrip [simp]:
  "interrupted_command_from_json (interrupted_command_to_json c) = Some c"
  by (simp add: interrupted_command_from_json_def interrupted_command_to_json_def)

lemma interrupted_member_roundtrip [simp]:
  "interrupted_member_from_json (interrupted_command_to_json c) = Some c"
  by (simp add: interrupted_member_from_json_def)
    (simp add: interrupted_command_to_json_def)

lemma command_record_roundtrip [simp]:
  "command_record_from_json (command_record_to_json r) = Some r"
  by (simp add: command_record_from_json_def command_record_to_json_def)

lemma get_vector_id [simp]:
  "(\<And>x. dec (enc x) = Some x) \<Longrightarrow> get_vector dec (JArray (map enc xs)) = Some xs"
  using get_vector_map [of xs dec enc "\<lambda>x. x"] by simp

lemma pane_state_roundtrip:
  "pane_state_from_json (pane_state_to_json s) = Some (norm_pane_state s)"
  by (cases "ps_interrupted_command s")
    (simp_all add: map_add_def pane_state_from_json_def pane_state_to_json_def norm_pane_state_def
      base64_decode_encode del: get_vector.simps)

lemma pane_roundtrip: "pane_from_json (pane_to_json p) = Some (norm_pane p)"
  by (simp add: pane_from_json_def pane_to_json_def pane_state_roundtrip norm_pane_def)

lemma pane_tree_roundtrip: "pane_tree_from_json (pane_tree_to_json t) = Some (norm_tree t)"
proof (induction t rule: pane_tree_to_json.induct)
  case (3 k a b r)
  then show ?case by (cases k) simp_all
qed (simp_all add: pane_roundtrip)

lemma note_tab_state_roundtrip [simp]:
  "note_tab_state_from_json (note_tab_state_to_json s) = Some s"
  by (simp add: note_tab_state_from_json_def note_tab_state_to_json_def)

lemma note_tab_state_not_null [simp]: "note_tab_state_to_json s \<noteq> JNull"
  by (simp add: note_tab_state_to_json_def)

lemma tab_roundtrip: "tab_from_json (tab_to_json t) = Some (norm_tab t)"
  by (cases "t_note_state t")
    (simp_all add: map_add_def tab_from_json_def tab_to_json_def pane_tree_roundtrip norm_tab_def)

lemma opt_id_obj [simp]:
  "opt_id_from_json (JObject kvs) k =
     (case map_of kvs k of None \<Rightarrow> Some None | Some v \<Rightarrow> map_option (\<lambda>s. Some (Id s)) (get_string v))"
  by (simp add: opt_id_from_json_def split: option.splits)

lemma window_roundtrip: "window_from_json (window_to_json w) = Some (norm_window w)"
proof -
  have "get_vector tab_from_json (JArray (map tab_to_json (w_tabs w))) = Some (map norm_tab (w_tabs w))"
    by (rule get_vector_map) (rule tab_roundtrip)
  then show ?thesis
    by (cases "w_focus_tab_id w"; cases "w_focus_pane_id w")
      (simp_all add: map_add_def window_from_json_def window_to_json_def norm_window_def del: get_vector.simps)
qed

lemma directory_tree_state_roundtrip [simp]:
  "directory_tree_state_from_json (directory_tree_state_to_json s) = Some s"
  using those_Some [of "dt_expanded s" "\<lambda>x. get_string (JString x)" "\<lambda>x. x"]
  by (simp add: directory_tree_state_from_json_def directory_tree_state_to_json_def comp_def)

lemma ui_state_roundtrip [simp]: "ui_state_from_json (ui_state_to_json u) = Some u"
  by (simp add: ui_state_from_json_def ui_state_to_json_def)

lemma snapshots_roundtrip:
  "those (map ((\<lambda>s. map_option Id (get_string s)) \<circ> (\<lambda>i. JString (id_str i))) xs) = Some xs"
  by (induction xs) simp_all

lemma workspace_roundtrip_norm:
  assumes "0 \<le> sint (ws_created_at w)" "0 \<le> sint (ws_last_saved_at w)"
  shows "workspace_from_json (workspace_to_json w) = Some (norm_workspace w)"
proof -
  have "get_vector window_from_json (JArray (map window_to_json (ws_windows w))) =
      Some (map norm_window (ws_windows w))"
    by (rule get_vector_map) (rule window_roundtrip)
  then show ?thesis
    using assms
    by (cases "ws_focus_window_id w")
      (simp_all add: map_add_def workspace_from_json_def workspace_to_json_def from_to_iso8601 snapshots_roundtrip
        norm_workspace_def del: get_vector.simps)
qed

lemma closed_window_snapshot_roundtrip_norm:
  assumes "0 \<le> sint (cw_closed_at s)"
  shows "closed_window_snapshot_from_json (closed_window_snapshot_to_json s) =
    Some (s\<lparr>cw_closed_at := millis_of (cw_closed_at s)\<rparr>)"
  using assms
  by (simp add: closed_window_snapshot_from_json_def closed_window_snapshot_to_json_def from_to_iso8601)

section \<open>Migration keeps the meaning\<close>

lemma jmod_if_obj:
  assumes "\<And>v. map_of kvs k = Some v \<Longrightarrow> \<exists>v'. f v = Some v' \<and> dec v' = dec v"
  shows "\<exists>kvs'. jmod_if k f (JObject kvs) = Some (JObject kvs') \<and>
    (\<forall>k'. k' \<noteq> k \<longrightarrow> map_of kvs' k' = map_of kvs k') \<and>
    map_option dec (map_of kvs' k) = map_option dec (map_of kvs k)"
proof (cases "map_of kvs k")
  case None
  then show ?thesis by (simp add: jmod_if_def)
next
  case (Some v)
  from assms [OF this] obtain v' where "f v = Some v'" "dec v' = dec v" by blast
  with Some show ?thesis by (auto simp: jmod_if_def jmod_def map_of_put_member)
qed

lemma jmod_if_non_obj: "(\<And>kvs. j \<noteq> JObject kvs) \<Longrightarrow> jmod_if k f j = Some j"
  by (cases j) (auto simp: jmod_if_def jcontains_def)

lemma jvalue_non_obj: "(\<And>kvs. j \<noteq> JObject kvs) \<Longrightarrow> jvalue g j k d = None"
  by (cases j) (auto simp: jvalue_def)

lemma migrate_pane_state_ok:
  "\<exists>st'. migrate_pane_state_json st = Some st' \<and> pane_state_from_json st' = pane_state_from_json st"
proof (cases "\<exists>kvs s. st = JObject kvs \<and> map_of kvs ''interrupted_command'' = Some (JString s)")
  case True
  then show ?thesis
    by (auto simp: migrate_pane_state_json_def pane_state_from_json_def map_of_put_member
        interrupted_member_from_json_def interrupted_command_from_json_def
        interrupted_source_from_string_def)
next
  case False
  then have "migrate_pane_state_json st = Some st"
    by (cases st) (auto simp: migrate_pane_state_json_def jat_def split: option.splits json.splits)
  then show ?thesis by simp
qed

lemma migrate_pane_ok:
  "\<exists>j'. jmod_if ''state'' migrate_pane_state_json j = Some j' \<and> pane_from_json j' = pane_from_json j"
proof (cases "\<exists>kvs. j = JObject kvs")
  case True
  then obtain kvs where j: "j = JObject kvs" by blast
  obtain kvs' where "jmod_if ''state'' migrate_pane_state_json j = Some (JObject kvs')"
    "map_of kvs' ''id'' = map_of kvs ''id''"
    "map_option pane_state_from_json (map_of kvs' ''state'') = map_option pane_state_from_json (map_of kvs ''state'')"
    using jmod_if_obj [OF migrate_pane_state_ok, where kvs = kvs and k = "''state''"] unfolding j by auto
  then show ?thesis
    by (cases "map_of kvs ''state''") (auto simp: j pane_from_json_def)
qed (auto simp: jmod_if_non_obj)

lemma migrate_pane_tree_ok:
  "\<exists>j'. jmod_if ''pane'' (jmod_if ''state'' migrate_pane_state_json) j = Some j' \<and>
     pane_tree_from_json j' = pane_tree_from_json j"
proof (cases "\<exists>kvs. j = JObject kvs")
  case True
  then obtain kvs where j: "j = JObject kvs" by blast
  obtain kvs' where "jmod_if ''pane'' (jmod_if ''state'' migrate_pane_state_json) j = Some (JObject kvs')"
    and k: "\<And>k'. k' \<noteq> ''pane'' \<Longrightarrow> map_of kvs' k' = map_of kvs k'"
    and p: "map_option pane_from_json (map_of kvs' ''pane'') = map_option pane_from_json (map_of kvs ''pane'')"
    using jmod_if_obj [OF migrate_pane_ok, where kvs = kvs and k = "''pane''"] unfolding j by auto
  moreover have "pane_tree_from_json (JObject kvs') = pane_tree_from_json (JObject kvs)"
    using p by (cases "map_of kvs ''pane''") (auto simp: k cong: if_cong)
  ultimately show ?thesis by (auto simp: j)
qed (auto simp: jmod_if_non_obj)

lemma migrate_tab_ok:
  assumes "tab_from_json t = Some x"
  shows "\<exists>t'. migrate_tab_json t = Some t' \<and> tab_from_json t' = Some x"
proof -
  from assms obtain kvs where t: "t = JObject kvs"
    by (cases t) (simp_all add: tab_from_json_def jvalue_def)
  define kvs1 where "kvs1 = (if map_of kvs ''kind'' = None then put_member ''kind'' (JString ''terminal'') kvs else kvs)"
  define kvs2 where "kvs2 = (if map_of kvs ''note_state'' = None then put_member ''note_state'' JNull kvs1 else kvs1)"
  have t2: "tab_from_json (JObject kvs2) = Some x"
    using assms by (auto simp: t kvs2_def kvs1_def tab_from_json_def map_of_put_member)
  obtain kvs' where k': "jmod_if ''pane_tree'' (jmod_if ''pane'' (jmod_if ''state'' migrate_pane_state_json)) (JObject kvs2)
      = Some (JObject kvs')"
    and k: "\<And>k'. k' \<noteq> ''pane_tree'' \<Longrightarrow> map_of kvs' k' = map_of kvs2 k'"
    and p: "map_option pane_tree_from_json (map_of kvs' ''pane_tree'') =
      map_option pane_tree_from_json (map_of kvs2 ''pane_tree'')"
    using jmod_if_obj [OF migrate_pane_tree_ok, where kvs = kvs2 and k = "''pane_tree''"] by auto
  have "tab_from_json (JObject kvs') = tab_from_json (JObject kvs2)"
    using p by (cases "map_of kvs2 ''pane_tree''") (auto simp: tab_from_json_def k)
  moreover have "migrate_tab_json t = Some (JObject kvs')"
    using k' by (cases "map_of kvs ''kind''"; cases "map_of kvs ''note_state''")
      (simp_all add: migrate_tab_json_def t kvs1_def kvs2_def map_of_put_member)
  ultimately show ?thesis using t2 by simp
qed

lemma jeach_ok:
  assumes "get_vector dec j = Some xs"
    and "\<And>t x. dec t = Some x \<Longrightarrow> \<exists>t'. f t = Some t' \<and> dec t' = Some x"
  shows "\<exists>j'. jeach f j = Some j' \<and> get_vector dec j' = Some xs"
proof -
  from assms(1) obtain js where j: "j = JArray js" and "those (map dec js) = Some xs"
    by (cases j) simp_all
  from this(2) have "\<exists>js'. those (map f js) = Some js' \<and> those (map dec js') = Some xs"
  proof (induction js arbitrary: xs)
    case (Cons t js)
    then obtain y ys where d: "dec t = Some y" "those (map dec js) = Some ys" "xs = y # ys"
      by (auto split: option.splits)
    from assms(2) [OF d(1)] Cons.IH [OF d(2)] obtain t' js' where
      "f t = Some t'" "dec t' = Some y" "those (map f js) = Some js'" "those (map dec js') = Some ys" by blast
    with d(3) show ?case by (intro exI [of _ "t' # js'"]) simp
  qed simp
  then show ?thesis by (auto simp: j)
qed

lemma migrate_window_ok:
  assumes "window_from_json w = Some x"
  shows "\<exists>w'. migrate_window_json w = Some w' \<and> window_from_json w' = Some x"
proof -
  from assms obtain kvs where w: "w = JObject kvs"
    by (cases w) (simp_all add: window_from_json_def jvalue_def)
  show ?thesis
  proof (cases "map_of kvs ''tabs''")
    case None
    then show ?thesis using assms by (simp add: migrate_window_json_def jmod_if_def w)
  next
    case (Some ts)
    then obtain tabs where tabs: "get_vector tab_from_json ts = Some tabs"
      using assms by (auto simp: window_from_json_def w bind_eq_Some_conv)
    from jeach_ok [where f = migrate_tab_json, OF this migrate_tab_ok] obtain ts' where
      "jeach migrate_tab_json ts = Some ts'" "get_vector tab_from_json ts' = Some tabs" by blast
    with Some tabs assms show ?thesis
      by (cases "map_of kvs ''label''")
        (simp_all add: migrate_window_json_def jmod_if_def jmod_def w window_from_json_def map_of_put_member)
  qed
qed

lemma migrate_workspace_meaning:
  assumes "workspace_from_json j = Some ws"
  shows "\<exists>j'. migrate_workspace_json j = Some j' \<and> workspace_from_json j' = Some ws"
proof -
  from assms obtain kvs where j: "j = JObject kvs"
    by (cases j) (simp_all add: workspace_from_json_def jvalue_def)
  from assms obtain v g where v: "jvalue get_i32 j ''schema_version'' kSchemaVersion = Some v"
    and g: "jvalue get_u32 j ''generation'' 0 = Some g"
    by (auto simp: workspace_from_json_def bind_eq_Some_conv)
  define kvs1 where "kvs1 = put_member ''generation'' (JInt (uint g)) (put_member ''schema_version'' (JInt (sint v)) kvs)"
  define kvs2 where "kvs2 = (if map_of kvs ''ui'' = None then put_member ''ui'' (JObject []) kvs1 else kvs1)"
  have m: "migrate_workspace_json j = jmod_if ''windows'' (jeach migrate_window_json) (JObject kvs2)"
    using v g by (simp add: migrate_workspace_json_def j kvs1_def kvs2_def map_of_put_member)
  have d: "workspace_from_json (JObject kvs2) = Some ws"
    using assms v g
    by (cases "map_of kvs ''ui''")
      (simp_all add: j kvs1_def kvs2_def workspace_from_json_def map_of_put_member ui_state_from_json_def)
  show ?thesis
  proof (cases "map_of kvs2 ''windows''")
    case None
    then show ?thesis using d by (simp add: m jmod_if_def)
  next
    case (Some wj)
    then obtain wins where wins: "get_vector window_from_json wj = Some wins"
      using d by (auto simp: workspace_from_json_def bind_eq_Some_conv)
    from jeach_ok [where f = migrate_window_json, OF this migrate_window_ok] obtain wj' where
      "jeach migrate_window_json wj = Some wj'" "get_vector window_from_json wj' = Some wins" by blast
    with Some wins d show ?thesis
      by (simp add: m jmod_if_def jmod_def workspace_from_json_def map_of_put_member)
  qed
qed

section \<open>Through text\<close>

fun finite_tree :: "pane_tree \<Rightarrow> bool" where
  "finite_tree (Leaf _) \<longleftrightarrow> True"
| "finite_tree (Split _ a b r) \<longleftrightarrow> dbl_finite r \<and> finite_tree a \<and> finite_tree b"

definition finite_tab :: "tab \<Rightarrow> bool" where
  "finite_tab t \<longleftrightarrow> finite_tree (t_pane_tree t) \<and>
     (case t_note_state t of None \<Rightarrow> True
      | Some n \<Rightarrow> dbl_finite (nt_scroll n) \<and> dbl_finite (nt_split_ratio n))"

definition finite_workspace :: "workspace \<Rightarrow> bool" where
  "finite_workspace ws \<longleftrightarrow> (\<forall>w \<in> set (ws_windows ws). \<forall>t \<in> set (w_tabs w). finite_tab t) \<and>
     dbl_finite (dt_anchor_offset (ui_directory_tree (ws_ui ws)))"

lemma map_jopt [simp]: "map (map_prod id as_text) (jopt k enc x) = jopt k (as_text \<circ> enc) x"
  by (simp add: jopt_def split: option.splits)

lemma jopt_cong: "(\<And>y. x = Some y \<Longrightarrow> enc y = enc' y) \<Longrightarrow> jopt k enc x = jopt k enc' x"
  by (simp add: jopt_def split: option.splits)

lemma as_text_interrupted_command [simp]:
  "as_text (interrupted_command_to_json c) = interrupted_command_to_json c"
  by (simp add: interrupted_command_to_json_def)

lemma as_text_pane [simp]: "as_text (pane_to_json p) = pane_to_json p"
  by (simp add: pane_to_json_def pane_state_to_json_def command_record_to_json_def comp_def)

lemma as_text_tree: "finite_tree t \<Longrightarrow> as_text (pane_tree_to_json t) = pane_tree_to_json t"
  by (induction t rule: pane_tree_to_json.induct) simp_all

lemma as_text_tab: "finite_tab t \<Longrightarrow> as_text (tab_to_json t) = tab_to_json t"
  by (cases "t_note_state t")
    (simp_all add: tab_to_json_def finite_tab_def as_text_tree note_tab_state_to_json_def jopt_def)

lemma as_text_window:
  "\<forall>t \<in> set (w_tabs w). finite_tab t \<Longrightarrow> as_text (window_to_json w) = window_to_json w"
  by (simp add: window_to_json_def as_text_tab comp_def)

lemma as_text_workspace:
  "finite_workspace ws \<Longrightarrow> as_text (workspace_to_json ws) = workspace_to_json ws"
  by (simp add: workspace_to_json_def finite_workspace_def as_text_window ui_state_to_json_def
      directory_tree_state_to_json_def comp_def)

lemma tree_not_finite_lost:
  assumes "\<not> finite_tree t"
  shows "pane_tree_from_json (as_text (pane_tree_to_json t)) = None"
  using assms
proof (induction t rule: pane_tree_to_json.induct)
  case (3 k a b r)
  have "get_double JNull = None" by simp
  with 3 show ?case by (cases "dbl_finite r"; cases "finite_tree a") (auto simp: Option.bind_eq_None_conv)
qed simp_all

end
