(* ===== verification/Storage_Api.thy ===== *)
theory Storage_Api
  imports Serialization
begin

text \<open>
  The abstract class \<^verbatim>\<open>Storage\<close> of \<^verbatim>\<open>core/workspace_core.hpp\<close>: a record of operations on a
  store of type \<open>'s\<close>.  An operation that reads the clock or generates an identifier takes it
  as an argument.  \<^const>\<open>None\<close> is an exception: of \<^verbatim>\<open>save_workspace\<close> and \<^verbatim>\<open>save_snapshot\<close>,
  which then have not touched the store, and of \<^verbatim>\<open>checkpoint\<close>, as its result.  The locale \<open>storage_contract\<close> states
  what the engine relies on; \<open>Sqlite_Storage\<close> discharges it.
\<close>

record history_annotation =
  ha_fingerprint :: string
  ha_command :: string
  ha_timestamp_us :: "i64 option"
  ha_pane_id :: string
  ha_window_id :: string
  ha_pinned :: bool
  ha_comment :: string
  ha_created_at :: i64
  ha_updated_at :: i64

record 's storage =
  list_workspaces :: "'s \<Rightarrow> workspace list"
  load_workspace :: "'s \<Rightarrow> workspace_id \<Rightarrow> workspace option"
  save_workspace :: "workspace \<Rightarrow> 's \<Rightarrow> 's option"
  delete_workspace :: "workspace_id \<Rightarrow> 's \<Rightarrow> 's"
  list_snapshots :: "'s \<Rightarrow> workspace_id \<Rightarrow> snapshot list"
  load_snapshot :: "'s \<Rightarrow> workspace_id \<Rightarrow> snapshot_id \<Rightarrow> json option"
  save_snapshot :: "workspace_id \<Rightarrow> snapshot \<Rightarrow> json \<Rightarrow> 's \<Rightarrow> 's option"
  delete_snapshot :: "workspace_id \<Rightarrow> snapshot_id \<Rightarrow> 's \<Rightarrow> 's"
  store_scrollback :: "time_point \<Rightarrow> pane_id \<Rightarrow> string \<Rightarrow> 's \<Rightarrow> 's"
  load_scrollback :: "'s \<Rightarrow> pane_id \<Rightarrow> string"
  store_pane_blob :: "time_point \<Rightarrow> pane_id \<Rightarrow> bytes \<Rightarrow> 's \<Rightarrow> 's"
  load_pane_blob :: "'s \<Rightarrow> pane_id \<Rightarrow> bytes"
  store_closed_window :: "closed_window_snapshot \<Rightarrow> 's \<Rightarrow> 's"
  list_closed_windows :: "'s \<Rightarrow> workspace_id \<Rightarrow> closed_window_snapshot list"
  load_closed_window :: "'s \<Rightarrow> workspace_id \<Rightarrow> snapshot_id \<Rightarrow> closed_window_snapshot option"
  delete_closed_window :: "workspace_id \<Rightarrow> snapshot_id \<Rightarrow> 's \<Rightarrow> 's"
  store_history_annotation :: "workspace_id \<Rightarrow> history_annotation \<Rightarrow> 's \<Rightarrow> 's"
  load_history_annotation :: "'s \<Rightarrow> workspace_id \<Rightarrow> string \<Rightarrow> history_annotation option"
  list_history_annotations :: "'s \<Rightarrow> workspace_id \<Rightarrow> string \<Rightarrow> history_annotation list"
  delete_history_annotation :: "workspace_id \<Rightarrow> string \<Rightarrow> 's \<Rightarrow> 's"
  storage_checkpoint :: "time_point \<Rightarrow> snapshot_id \<Rightarrow> workspace_id \<Rightarrow> json \<Rightarrow> i32 \<Rightarrow> i64 \<Rightarrow> string \<Rightarrow>
    (pane_id \<times> bytes) list \<Rightarrow> 's \<Rightarrow> bool option \<times> 's"

section \<open>The contract\<close>

text \<open>
  What the engine and the session rely on, for a store that is \<open>healthy\<close> (open, between
  transactions, no fault pending), a workspace that is \<open>storable\<close> (its JSON survives as text) and
  identifiers told apart by \<open>key\<close>: reads return what was written last, in the normal form of the
  serialisation, and writes leave other records alone.
\<close>

locale storage_contract =
  fixes S :: "'s storage"
    and healthy :: "'s \<Rightarrow> bool"
    and storable :: "workspace \<Rightarrow> bool"
    and key :: "string \<Rightarrow> string"
    and snapshot_free :: "'s \<Rightarrow> workspace_id \<Rightarrow> snapshot_id \<Rightarrow> bool"
  assumes save_law: "healthy s \<Longrightarrow> storable ws \<Longrightarrow> \<exists>s'. save_workspace S ws s = Some s' \<and> healthy s' \<and>
      load_workspace S s' (ws_id ws) = Some (norm_workspace ws) \<and>
      (\<forall>i. key (id_str i) \<noteq> key (id_str (ws_id ws)) \<longrightarrow> load_workspace S s' i = load_workspace S s i) \<and>
      load_pane_blob S s' = load_pane_blob S s"
    and delete_law: "healthy s \<Longrightarrow> healthy (delete_workspace S i s) \<and>
      load_workspace S (delete_workspace S i s) i = None \<and>
      (\<forall>j. key (id_str j) \<noteq> key (id_str i) \<longrightarrow>
         load_workspace S (delete_workspace S i s) j = load_workspace S s j)"
    and blob_law: "healthy s \<Longrightarrow> data \<noteq> [] \<Longrightarrow> healthy (store_pane_blob S now p data s) \<and>
      load_pane_blob S (store_pane_blob S now p data s) p = data \<and>
      (\<forall>q. key (id_str q) \<noteq> key (id_str p) \<longrightarrow>
         load_pane_blob S (store_pane_blob S now p data s) q = load_pane_blob S s q)"
    and scrollback_law: "healthy s \<Longrightarrow> healthy (store_scrollback S now p text s) \<and>
      load_scrollback S (store_scrollback S now p text s) p = key text \<and>
      (\<forall>q. key (id_str q) \<noteq> key (id_str p) \<longrightarrow>
         load_scrollback S (store_scrollback S now p text s) q = load_scrollback S s q)"
    and checkpoint_law: "healthy s \<Longrightarrow> storable ws \<Longrightarrow> snapshot_free s (ws_id ws) snap \<Longrightarrow>
      (\<forall>(p, data) \<in> set blobs. data \<noteq> []) \<Longrightarrow>
      distinct (map (\<lambda>(p, data). key (id_str p)) blobs) \<Longrightarrow>
      \<exists>s'. storage_checkpoint S now snap (ws_id ws) (workspace_to_json ws) v g reason blobs s = (Some True, s') \<and>
        healthy s' \<and> load_workspace S s' (ws_id ws) = Some (norm_workspace ws) \<and>
        (\<forall>(p, data) \<in> set blobs. load_pane_blob S s' p = data) \<and>
        (\<forall>p. key (id_str p) \<notin> set (map (\<lambda>(p, data). key (id_str p)) blobs) \<longrightarrow>
           load_pane_blob S s' p = load_pane_blob S s p)"

end
