(* ===== verification/Workspace_Core.thy ===== *)
theory Workspace_Core
  imports Serialization Storage_Api
begin

text \<open>
  \<^verbatim>\<open>WorkspaceCore\<close> (\<^verbatim>\<open>core/workspace_core.hpp\<close>, \<^verbatim>\<open>core/workspace_core.cpp\<close>): the engine that
  owns the open workspace.  Its state is the open workspace, the dirty flag and the events sent
  to the callback (a log, oldest first).  Generated identifiers and clock readings are
  arguments; an operation that throws returns \<^const>\<open>Inl\<close>.  The loops over windows and tabs
  that return at a match are \<open>visit_windows\<close> and \<open>visit_tabs\<close>.
\<close>

section \<open>State and events\<close>

datatype event_type = WorkspaceOpened | WorkspaceClosed | WindowAdded | WindowRemoved
  | WindowRenamed | TabAdded | TabRemoved | PaneSplit | PaneRemoved | PaneResized
  | SnapshotCreated | StateDirty

record workspace_event =
  ev_type :: event_type
  ev_workspace :: workspace_id
  ev_window :: "window_id option"
  ev_tab :: "tab_id option"
  ev_pane :: "pane_id option"

record core =
  ws_current :: "workspace option"
  ws_dirty :: bool
  ev_log :: "workspace_event list"

datatype core_error = NoOpenWorkspace | WindowNotFound | TabNotFound | StorageThrew

definition initial_core :: core where
  "initial_core = \<lparr>ws_current = None, ws_dirty = False, ev_log = []\<rparr>"

definition emit :: "event_type \<Rightarrow> workspace_id \<Rightarrow> window_id option \<Rightarrow> tab_id option \<Rightarrow> pane_id option \<Rightarrow>
    core \<Rightarrow> core" where
  "emit ty ws w t p c = c\<lparr>ev_log := ev_log c @
     [\<lparr>ev_type = ty, ev_workspace = ws, ev_window = w, ev_tab = t, ev_pane = p\<rparr>]\<rparr>"

definition mark_dirty :: "core \<Rightarrow> core" where
  "mark_dirty c =
     (let c = c\<lparr>ws_dirty := True\<rparr>
      in case ws_current c of
           Some ws \<Rightarrow> emit StateDirty (ws_id ws) None None None c
         | None \<Rightarrow> c)"

section \<open>Loops that stop at a match\<close>

fun visit_tabs :: "(tab \<Rightarrow> ('r \<times> tab) option) \<Rightarrow> tab list \<Rightarrow> ('r \<times> tab list) option" where
  "visit_tabs f [] = None"
| "visit_tabs f (t # ts) =
     (case f t of
        Some (r, t') \<Rightarrow> Some (r, t' # ts)
      | None \<Rightarrow> map_option (\<lambda>(r, ts'). (r, t # ts')) (visit_tabs f ts))"

fun visit_windows :: "(window \<Rightarrow> ('r \<times> window) option) \<Rightarrow> window list \<Rightarrow> ('r \<times> window list) option" where
  "visit_windows f [] = None"
| "visit_windows f (w # ws) =
     (case f w of
        Some (r, w') \<Rightarrow> Some (r, w' # ws)
      | None \<Rightarrow> map_option (\<lambda>(r, ws'). (r, w # ws')) (visit_windows f ws))"

text \<open>
  \<^verbatim>\<open>for (w : windows) for (t : w.tabs) { if (t.id != tab) continue; body }\<close>: the body sees the
  window and the tab, and gives a result, the new tab and the change to the window's fields.
\<close>

definition visit_tab :: "tab_id \<Rightarrow> (window \<Rightarrow> tab \<Rightarrow> 'r \<times> tab \<times> (window \<Rightarrow> window)) \<Rightarrow>
    window \<Rightarrow> ('r \<times> window) option" where
  "visit_tab i body w =
     (case visit_tabs (\<lambda>t. if t_id t \<noteq> i then None
                           else let (r, t', g) = body w t in Some ((r, g), t')) (w_tabs w) of
        None \<Rightarrow> None
      | Some ((r, g), ts) \<Rightarrow> Some (r, g (w\<lparr>w_tabs := ts\<rparr>)))"

definition visit_window :: "window_id \<Rightarrow> (window \<Rightarrow> 'r \<times> window) \<Rightarrow> window \<Rightarrow> ('r \<times> window) option" where
  "visit_window i body w = (if w_id w = i then Some (body w) else None)"

section \<open>Workspaces\<close>

definition create_workspace :: "'s storage \<Rightarrow> time_point \<Rightarrow> workspace_id \<Rightarrow> string \<Rightarrow> core \<times> 's \<Rightarrow>
    core_error + workspace_id \<times> core \<times> 's" where
  "create_workspace S now fresh name = (\<lambda>(c, s).
     let ws = Workspace_create now (if name = '''' then ''untitled'' else name) fresh
     in case save_workspace S ws s of
          None \<Rightarrow> Inl StorageThrew
        | Some s' \<Rightarrow>
            let c = c\<lparr>ws_current := Some ws\<rparr>
            in Inr (fresh, emit WorkspaceOpened fresh None None None c, s'))"

text \<open>The pane's own blob replaces the one of the JSON, unless it is empty.\<close>

definition overlay_blob :: "('s \<Rightarrow> pane_id \<Rightarrow> bytes) \<Rightarrow> 's \<Rightarrow> pane \<Rightarrow> pane" where
  "overlay_blob load s p =
     (let snap = load s (p_id p)
      in if snap \<noteq> [] then p\<lparr>p_state := (p_state p)\<lparr>ps_snapshot_data := snap\<rparr>\<rparr> else p)"

definition map_tab_panes :: "(pane \<Rightarrow> pane) \<Rightarrow> tab \<Rightarrow> tab" where
  "map_tab_panes g t = t\<lparr>t_pane_tree := map_panes g (t_pane_tree t)\<rparr>"

definition map_window_panes :: "(pane \<Rightarrow> pane) \<Rightarrow> window \<Rightarrow> window" where
  "map_window_panes g w = w\<lparr>w_tabs := map (map_tab_panes g) (w_tabs w)\<rparr>"

definition map_workspace_panes :: "(pane \<Rightarrow> pane) \<Rightarrow> workspace \<Rightarrow> workspace" where
  "map_workspace_panes g ws = ws\<lparr>ws_windows := map (map_window_panes g) (ws_windows ws)\<rparr>"

definition open_workspace :: "'s storage \<Rightarrow> workspace_id \<Rightarrow> core \<times> 's \<Rightarrow> bool \<times> core" where
  "open_workspace S i = (\<lambda>(c, s).
     case load_workspace S s i of
       None \<Rightarrow> (False, c)
     | Some loaded \<Rightarrow>
         let ws = map_workspace_panes (overlay_blob (load_pane_blob S) s) loaded;
             c = c\<lparr>ws_current := Some ws\<rparr>
         in (True, emit WorkspaceOpened (ws_id ws) None None None c))"

definition close_workspace :: "core \<Rightarrow> bool \<times> core" where
  "close_workspace c =
     (case ws_current c of
        None \<Rightarrow> (False, c)
      | Some ws \<Rightarrow> (True, (emit WorkspaceClosed (ws_id ws) None None None c)\<lparr>ws_current := None\<rparr>))"

definition rename_workspace :: "workspace_id \<Rightarrow> string \<Rightarrow> core \<Rightarrow> bool \<times> core" where
  "rename_workspace i name c =
     (case ws_current c of
        None \<Rightarrow> (False, c)
      | Some ws \<Rightarrow>
          if ws_id ws \<noteq> i then (False, c)
          else (True, mark_dirty (c\<lparr>ws_current := Some (ws\<lparr>ws_name := name\<rparr>)\<rparr>)))"

definition core_delete_workspace :: "'s storage \<Rightarrow> workspace_id \<Rightarrow> core \<times> 's \<Rightarrow> bool \<times> 's" where
  "core_delete_workspace S i = (\<lambda>(c, s).
     if (case ws_current c of Some ws \<Rightarrow> ws_id ws = i | None \<Rightarrow> False) then (False, s)
     else (True, delete_workspace S i s))"

section \<open>Windows\<close>

definition add_window :: "time_point \<Rightarrow> window_id \<Rightarrow> string \<Rightarrow> core \<Rightarrow> core_error + window_id \<times> core" where
  "add_window now fresh title c =
     (case ws_current c of
        None \<Rightarrow> Inl NoOpenWorkspace
      | Some ws \<Rightarrow>
          let win = Window_create now (if title = '''' then ''window'' else title) fresh;
              ws = ws\<lparr>ws_windows := ws_windows ws @ [win], ws_focus_window_id := Some fresh\<rparr>
          in Inr (fresh, emit WindowAdded (ws_id ws) (Some fresh) None None
                           (mark_dirty (c\<lparr>ws_current := Some ws\<rparr>))))"

definition remove_window :: "window_id \<Rightarrow> core \<Rightarrow> bool \<times> core" where
  "remove_window i c =
     (case ws_current c of
        None \<Rightarrow> (False, c)
      | Some ws \<Rightarrow>
          let ws = ws\<lparr>ws_windows := filter (\<lambda>w. w_id w \<noteq> i) (ws_windows ws)\<rparr>;
              ws = (if ws_focus_window_id ws = Some i then ws\<lparr>ws_focus_window_id := None\<rparr> else ws)
          in (True, emit WindowRemoved (ws_id ws) (Some i) None None
                      (mark_dirty (c\<lparr>ws_current := Some ws\<rparr>))))"

definition rename_window :: "window_id \<Rightarrow> string \<Rightarrow> core \<Rightarrow> bool \<times> core" where
  "rename_window i title c =
     (case ws_current c of
        None \<Rightarrow> (False, c)
      | Some ws \<Rightarrow>
          case visit_windows (visit_window i (\<lambda>w. ((), w\<lparr>w_label := title\<rparr>))) (ws_windows ws) of
            None \<Rightarrow> (False, c)
          | Some (_, wins) \<Rightarrow>
              (True, emit WindowRenamed (ws_id ws) (Some i) None None
                       (mark_dirty (c\<lparr>ws_current := Some (ws\<lparr>ws_windows := wins\<rparr>)\<rparr>))))"

definition focus_window :: "window_id \<Rightarrow> core \<Rightarrow> bool \<times> core" where
  "focus_window i c =
     (case ws_current c of
        None \<Rightarrow> (False, c)
      | Some ws \<Rightarrow>
          if \<exists>w \<in> set (ws_windows ws). w_id w = i
          then (True, mark_dirty (c\<lparr>ws_current := Some (ws\<lparr>ws_focus_window_id := Some i\<rparr>)\<rparr>))
          else (False, c))"

section \<open>Tabs\<close>

definition push_tab :: "tab \<Rightarrow> window \<Rightarrow> window" where
  "push_tab t w = w\<lparr>w_tabs := w_tabs w @ [t], w_focus_tab_id := Some (t_id t)\<rparr>"

text \<open>What \<^verbatim>\<open>add_tab\<close> and \<^verbatim>\<open>add_note_tab\<close> do with the tab they build.\<close>

definition insert_tab :: "window_id \<Rightarrow> tab \<Rightarrow> core \<Rightarrow> core_error + tab_id \<times> core" where
  "insert_tab i t c =
     (case ws_current c of
        None \<Rightarrow> Inl NoOpenWorkspace
      | Some ws \<Rightarrow>
          case visit_windows (visit_window i (\<lambda>w. ((), push_tab t w))) (ws_windows ws) of
            None \<Rightarrow> Inl WindowNotFound
          | Some (_, wins) \<Rightarrow>
              Inr (t_id t, emit TabAdded (ws_id ws) (Some i) (Some (t_id t)) None
                             (mark_dirty (c\<lparr>ws_current := Some (ws\<lparr>ws_windows := wins\<rparr>)\<rparr>))))"

definition add_tab :: "tab_id \<Rightarrow> window_id \<Rightarrow> string \<Rightarrow> pane_tree \<Rightarrow> core \<Rightarrow> core_error + tab_id \<times> core" where
  "add_tab fresh i title initial_pane =
     insert_tab i ((Tab_create (if title = '''' then ''tab'' else title) fresh)
       \<lparr>t_pane_tree := initial_pane\<rparr>)"

definition add_note_tab :: "tab_id \<Rightarrow> window_id \<Rightarrow> string \<Rightarrow> note_tab_state \<Rightarrow> core \<Rightarrow>
    core_error + tab_id \<times> core" where
  "add_note_tab fresh i title state =
     insert_tab i ((Tab_create (if title = '''' then ''note'' else title) fresh)
       \<lparr>t_kind := Note, t_note_state := Some state\<rparr>)"

definition set_tab_note_state :: "window_id \<Rightarrow> tab_id \<Rightarrow> note_tab_state \<Rightarrow> core \<Rightarrow> bool \<times> core" where
  "set_tab_note_state i tab state c =
     (case ws_current c of
        None \<Rightarrow> (False, c)
      | Some ws \<Rightarrow>
          case visit_windows (\<lambda>w. if w_id w \<noteq> i then None
                 else visit_tab tab (\<lambda>w t. if t_kind t \<noteq> Note then (False, t, id)
                                           else (True, t\<lparr>t_note_state := Some state\<rparr>, id)) w)
                 (ws_windows ws) of
            Some (True, wins) \<Rightarrow> (True, mark_dirty (c\<lparr>ws_current := Some (ws\<lparr>ws_windows := wins\<rparr>)\<rparr>))
          | _ \<Rightarrow> (False, c))"

definition remove_tab :: "window_id \<Rightarrow> tab_id \<Rightarrow> core \<Rightarrow> bool \<times> core" where
  "remove_tab i tab c =
     (case ws_current c of
        None \<Rightarrow> (False, c)
      | Some ws \<Rightarrow>
          case visit_windows (visit_window i (\<lambda>w.
                 let w = w\<lparr>w_tabs := filter (\<lambda>t. t_id t \<noteq> tab) (w_tabs w)\<rparr>
                 in ((), if w_focus_tab_id w = Some tab then w\<lparr>w_focus_tab_id := None\<rparr> else w)))
                 (ws_windows ws) of
            None \<Rightarrow> (False, c)
          | Some (_, wins) \<Rightarrow>
              (True, emit TabRemoved (ws_id ws) (Some i) (Some tab) None
                       (mark_dirty (c\<lparr>ws_current := Some (ws\<lparr>ws_windows := wins\<rparr>)\<rparr>))))"

definition focus_tab :: "window_id \<Rightarrow> tab_id \<Rightarrow> core \<Rightarrow> bool \<times> core" where
  "focus_tab i tab c =
     (case ws_current c of
        None \<Rightarrow> (False, c)
      | Some ws \<Rightarrow>
          case visit_windows (visit_window i (\<lambda>w. ((), w\<lparr>w_focus_tab_id := Some tab\<rparr>))) (ws_windows ws) of
            None \<Rightarrow> (False, c)
          | Some (_, wins) \<Rightarrow>
              (True, mark_dirty (c\<lparr>ws_current := Some (ws\<lparr>ws_windows := wins\<rparr>)\<rparr>)))"

section \<open>Panes\<close>

text \<open>
  \<^verbatim>\<open>find_pane(tree, id)\<close> and then \<^verbatim>\<open>*focus = split(kind, existing, new)\<close>; an unset focus is
  looked up as the empty identifier, and so is the second attempt on a split, which holds no
  pane of its own.
\<close>

definition split_tree :: "split_kind \<Rightarrow> dbl \<Rightarrow> pane \<Rightarrow> pane_id option \<Rightarrow> pane_tree \<Rightarrow> pane_tree" where
  "split_tree k r new_pane focus t =
     (case t of
        Leaf (Some p) \<Rightarrow> Split k t (leaf new_pane) r
      | _ \<Rightarrow>
          let i = (case focus of Some f \<Rightarrow> f | None \<Rightarrow> empty_id);
              target = (if find_pane t i \<noteq> None then Some i
                        else if find_pane t empty_id \<noteq> None then Some empty_id else None)
          in case target of
               None \<Rightarrow> t
             | Some i \<Rightarrow> at_pane i (\<lambda>existing. Split k existing (leaf new_pane) r) t)"

definition split_pane :: "pane_id \<Rightarrow> tab_id \<Rightarrow> split_kind \<Rightarrow> dbl \<Rightarrow> core \<Rightarrow> core_error + pane_id \<times> core" where
  "split_pane fresh tab k r c =
     (case ws_current c of
        None \<Rightarrow> Inl NoOpenWorkspace
      | Some ws \<Rightarrow>
          case visit_windows (visit_tab tab (\<lambda>w t.
                 (w_id w,
                  t\<lparr>t_pane_tree := split_tree k r \<lparr>p_id = fresh, p_state = empty_pane_state\<rparr>
                      (w_focus_pane_id w) (t_pane_tree t)\<rparr>,
                  \<lambda>w. w\<lparr>w_focus_pane_id := Some fresh\<rparr>))) (ws_windows ws) of
            None \<Rightarrow> Inl TabNotFound
          | Some (wid, wins) \<Rightarrow>
              Inr (fresh, emit PaneSplit (ws_id ws) (Some wid) (Some tab) (Some fresh)
                            (mark_dirty (c\<lparr>ws_current := Some (ws\<lparr>ws_windows := wins\<rparr>)\<rparr>))))"

definition remove_pane :: "tab_id \<Rightarrow> pane_id \<Rightarrow> core \<Rightarrow> bool \<times> core" where
  "remove_pane tab pane c =
     (case ws_current c of
        None \<Rightarrow> (False, c)
      | Some ws \<Rightarrow>
          case visit_windows (visit_tab tab (\<lambda>w t.
                 let (removed, tree) = remove_pane_from_tree (t_pane_tree t) pane
                 in if \<not> removed then (None, t, id)
                    else (Some (w_id w), t\<lparr>t_pane_tree := tree\<rparr>,
                          \<lambda>w. if w_focus_pane_id w = Some pane then w\<lparr>w_focus_pane_id := None\<rparr> else w)))
                 (ws_windows ws) of
            Some (Some wid, wins) \<Rightarrow>
              (True, emit PaneRemoved (ws_id ws) (Some wid) (Some tab) (Some pane)
                       (mark_dirty (c\<lparr>ws_current := Some (ws\<lparr>ws_windows := wins\<rparr>)\<rparr>)))
          | _ \<Rightarrow> (False, c))"

text \<open>
  \<^verbatim>\<open>focus_pane\<close> looks only in windows whose focused tab is the given one, and goes on to the
  next tab and window when the pane is not found.
\<close>

definition focus_pane :: "tab_id \<Rightarrow> pane_id \<Rightarrow> core \<Rightarrow> bool \<times> core" where
  "focus_pane tab pane c =
     (case ws_current c of
        None \<Rightarrow> (False, c)
      | Some ws \<Rightarrow>
          case visit_windows (\<lambda>w.
                 if w_focus_tab_id w \<noteq> Some tab then None
                 else if \<exists>t \<in> set (w_tabs w). t_id t = tab \<and> find_pane (t_pane_tree t) pane \<noteq> None
                 then Some ((), w\<lparr>w_focus_pane_id := Some pane\<rparr>) else None) (ws_windows ws) of
            None \<Rightarrow> (False, c)
          | Some (_, wins) \<Rightarrow>
              (True, mark_dirty (c\<lparr>ws_current := Some (ws\<lparr>ws_windows := wins\<rparr>)\<rparr>)))"

definition set_pane_ratio :: "tab_id \<Rightarrow> pane_id \<Rightarrow> dbl \<Rightarrow> core \<Rightarrow> bool \<times> core" where
  "set_pane_ratio tab pane ratio c =
     (case ws_current c of
        None \<Rightarrow> (False, c)
      | Some ws \<Rightarrow>
          case visit_windows (visit_tab tab (\<lambda>w t.
                 if dbl_less ratio (Fin 0) \<or> dbl_less (Fin 1) ratio then (None, t, id)
                 else let (found, tree) = set_split_ratio (t_pane_tree t) pane ratio
                      in if \<not> found then (None, t, id)
                         else (Some (w_id w), t\<lparr>t_pane_tree := tree\<rparr>, id))) (ws_windows ws) of
            Some (Some wid, wins) \<Rightarrow>
              (True, emit PaneResized (ws_id ws) (Some wid) (Some tab) (Some pane)
                       (mark_dirty (c\<lparr>ws_current := Some (ws\<lparr>ws_windows := wins\<rparr>)\<rparr>)))
          | _ \<Rightarrow> (False, c))"

section \<open>Command history\<close>

text \<open>
  The operations on one pane's state.  \<open>body\<close> gives \<^const>\<open>None\<close> where the code returns without
  changing anything, with the value it then returns in \<open>quiet\<close>.
\<close>

definition on_pane_state :: "tab_id \<Rightarrow> pane_id \<Rightarrow> (pane_state \<Rightarrow> (bool \<times> pane_state) option) \<Rightarrow> bool \<Rightarrow>
    workspace \<Rightarrow> core \<Rightarrow> bool \<times> core" where
  "on_pane_state tab pane body quiet ws c =
     (case visit_windows (visit_tab tab (\<lambda>w t.
             case find_pane (t_pane_tree t) pane of
               None \<Rightarrow> ((False, False), t, id)
             | Some p \<Rightarrow>
                 (case body (p_state p) of
                    None \<Rightarrow> ((quiet, False), t, id)
                  | Some (r, st) \<Rightarrow>
                      ((r, True), t\<lparr>t_pane_tree := upd_pane_state pane (\<lambda>_. st) (t_pane_tree t)\<rparr>, id))))
             (ws_windows ws) of
        None \<Rightarrow> (False, c)
      | Some ((r, changed), wins) \<Rightarrow>
          (r, if changed then mark_dirty (c\<lparr>ws_current := Some (ws\<lparr>ws_windows := wins\<rparr>)\<rparr>) else c))"

definition push_history :: "command_record \<Rightarrow> command_record list \<Rightarrow> command_record list option" where
  "push_history r hist =
     (if hist \<noteq> [] \<and> cr_command (last hist) = cr_command r then None
      else let hist = hist @ [r]
           in Some (if length hist > kMaxCommandHistoryPerPane
                    then drop (length hist - kMaxCommandHistoryPerPane) hist else hist))"

definition add_command_to_pane :: "tab_id \<Rightarrow> pane_id \<Rightarrow> command_record \<Rightarrow> core \<Rightarrow> bool \<times> core" where
  "add_command_to_pane tab pane r c =
     (case ws_current c of
        None \<Rightarrow> (False, c)
      | Some ws \<Rightarrow>
          if cr_command r = '''' then (False, c)
          else on_pane_state tab pane
                 (\<lambda>st. map_option (\<lambda>h. (True, st\<lparr>ps_command_history := h\<rparr>))
                         (push_history r (ps_command_history st))) True ws c)"

definition clear_command_history :: "core \<Rightarrow> bool \<times> core" where
  "clear_command_history c =
     (case ws_current c of
        None \<Rightarrow> (False, c)
      | Some ws \<Rightarrow>
          (True, mark_dirty (c\<lparr>ws_current := Some (map_workspace_panes
             (\<lambda>p. p\<lparr>p_state := (p_state p)\<lparr>ps_command_history := []\<rparr>\<rparr>) ws)\<rparr>)))"

definition get_pane_command_history :: "tab_id \<Rightarrow> pane_id \<Rightarrow> core \<Rightarrow> command_record list" where
  "get_pane_command_history tab pane c =
     (case ws_current c of
        None \<Rightarrow> []
      | Some ws \<Rightarrow>
          case find (\<lambda>t. t_id t = tab) (all_tabs ws) of
            None \<Rightarrow> []
          | Some t \<Rightarrow> (case find_pane (t_pane_tree t) pane of
                         None \<Rightarrow> []
                       | Some p \<Rightarrow> ps_command_history (p_state p)))"

text \<open>The loop from \<^verbatim>\<open>rbegin()\<close>: the newest record with the command.\<close>

definition pin_newest :: "string \<Rightarrow> bool \<Rightarrow> command_record list \<Rightarrow> command_record list" where
  "pin_newest command pinned hist =
     rev (upd_first (\<lambda>r. cr_command r = command) (\<lambda>r. r\<lparr>cr_pinned := pinned\<rparr>) (rev hist))"

definition set_command_pinned :: "tab_id \<Rightarrow> pane_id \<Rightarrow> string \<Rightarrow> bool \<Rightarrow> core \<Rightarrow> bool \<times> core" where
  "set_command_pinned tab pane command pinned c =
     (case ws_current c of
        None \<Rightarrow> (False, c)
      | Some ws \<Rightarrow>
          if command = '''' then (False, c)
          else on_pane_state tab pane
                 (\<lambda>st. if \<exists>r \<in> set (ps_command_history st). cr_command r = command
                       then Some (True, st\<lparr>ps_command_history :=
                                   pin_newest command pinned (ps_command_history st)\<rparr>)
                       else None) False ws c)"

section \<open>Runtime state, checkpoint, snapshots\<close>

definition overlay_runtime :: "terminal_runtime_snapshot \<Rightarrow> pane_state \<Rightarrow> pane_state" where
  "overlay_runtime snap st = st\<lparr>ps_cwd := rs_cwd snap, ps_shell := rs_shell snap,
     ps_cols := rs_cols snap, ps_rows := rs_rows snap, ps_snapshot_data := rs_snapshot_data snap,
     ps_interrupted_command := rs_interrupted_command snap,
     ps_command_history := (if rs_command_history snap \<noteq> [] then rs_command_history snap
                            else ps_command_history st)\<rparr>"

definition apply_runtime_state :: "tab_id \<Rightarrow> pane_id \<Rightarrow> terminal_runtime_snapshot \<Rightarrow> core \<Rightarrow> core" where
  "apply_runtime_state tab pane snap c =
     (case ws_current c of
        None \<Rightarrow> c
      | Some ws \<Rightarrow> snd (on_pane_state tab pane (\<lambda>st. Some (True, overlay_runtime snap st)) False ws c))"

definition pane_blobs :: "workspace \<Rightarrow> (pane_id \<times> bytes) list" where
  "pane_blobs ws =
     [(p_id p, ps_snapshot_data (p_state p)). p \<leftarrow> all_panes ws, ps_snapshot_data (p_state p) \<noteq> []]"

text \<open>
  An exception of the storage's \<^verbatim>\<open>checkpoint\<close> leaves \<^verbatim>\<open>checkpoint\<close> with the new generation
  already counted: the result is \<^const>\<open>None\<close> then, beside the states it leaves.  The early return of
  an engine without a storage has no counterpart: an engine of this development has one, the argument.
\<close>

definition core_checkpoint :: "'s storage \<Rightarrow> time_point \<Rightarrow> snapshot_id \<Rightarrow> string \<Rightarrow> core \<times> 's \<Rightarrow>
    bool option \<times> core \<times> 's" where
  "core_checkpoint S now fresh reason = (\<lambda>(c, s).
     case ws_current c of
       None \<Rightarrow> (Some False, c, s)
     | Some ws \<Rightarrow>
         let ws = ws\<lparr>ws_last_saved_at := now, ws_generation := ws_generation ws + 1\<rparr>;
             c = c\<lparr>ws_current := Some ws\<rparr>
         in case storage_checkpoint S now fresh (ws_id ws) (workspace_to_json ws)
                   (ws_schema_version ws) (ws_generation ws) reason (pane_blobs ws) s of
              (ok, s') \<Rightarrow> (ok, if ok = Some True then c\<lparr>ws_dirty := False\<rparr> else c, s'))"

definition create_snapshot :: "'s storage \<Rightarrow> (json \<Rightarrow> string option) \<Rightarrow> time_point \<Rightarrow> snapshot_id \<Rightarrow>
    core \<times> 's \<Rightarrow> core_error + snapshot_id \<times> core \<times> 's" where
  "create_snapshot S dump now fresh = (\<lambda>(c, s).
     case ws_current c of
       None \<Rightarrow> Inl NoOpenWorkspace
     | Some ws \<Rightarrow>
         let state = workspace_to_json ws
         in case dump state of
              None \<Rightarrow> Inl StorageThrew
            | Some ser \<Rightarrow>
                let snap = \<lparr>sn_id = fresh, sn_timestamp = now, sn_size_bytes = of_nat (length ser),
                            sn_revision = of_nat (length (list_snapshots S s (ws_id ws))) + 1\<rparr>
                in case save_snapshot S (ws_id ws) snap state s of
                     None \<Rightarrow> Inl StorageThrew
                   | Some s' \<Rightarrow>
                       let ws = ws\<lparr>ws_snapshot_ids := ws_snapshot_ids ws @ [fresh]\<rparr>
                       in Inr (fresh, emit SnapshotCreated (ws_id ws) None None None
                                        (mark_dirty (c\<lparr>ws_current := Some ws\<rparr>)), s'))"

definition restore_snapshot :: "'s storage \<Rightarrow> snapshot_id \<Rightarrow> core \<times> 's \<Rightarrow> core_error + bool \<times> core" where
  "restore_snapshot S snap = (\<lambda>(c, s).
     case ws_current c of
       None \<Rightarrow> Inr (False, c)
     | Some ws \<Rightarrow>
         case load_snapshot S s (ws_id ws) snap of
           None \<Rightarrow> Inr (False, c)
         | Some state \<Rightarrow>
             (case workspace_from_json state of
                None \<Rightarrow> Inl StorageThrew
              | Some restored \<Rightarrow> Inr (True, c\<lparr>ws_current := Some restored\<rparr>)))"

definition persist :: "'s storage \<Rightarrow> core \<times> 's \<Rightarrow> core_error + bool \<times> core \<times> 's" where
  "persist S = (\<lambda>(c, s).
     case ws_current c of
       None \<Rightarrow> Inr (False, c, s)
     | Some ws \<Rightarrow>
         if ws_dirty c
         then (case save_workspace S ws s of
                 None \<Rightarrow> Inl StorageThrew
               | Some s' \<Rightarrow> Inr (True, c\<lparr>ws_dirty := False\<rparr>, s'))
         else Inr (True, c, s))"

end
