(* ===== verification/Core_Invariants.thy ===== *)
theory Core_Invariants
  imports Workspace_Core
begin

text \<open>
  Every operation of the engine keeps the open workspace well-formed, given that generated
  identifiers are new and that trees and histories handed in from outside are well-formed.  The
  step relation \<open>core_step\<close> collects the operations that do not load; they keep a well-formed state
  well-formed.
\<close>

definition wf_core :: "core \<Rightarrow> bool" where
  "wf_core c \<longleftrightarrow> (case ws_current c of None \<Rightarrow> True | Some ws \<Rightarrow> wf_workspace ws)"

section \<open>The loops\<close>

lemma visit_tabs_SomeD:
  "visit_tabs f ts = Some (r, ts') \<Longrightarrow> \<exists>pre t t' post. ts = pre @ t # post \<and> f t = Some (r, t') \<and>
     ts' = pre @ t' # post \<and> (\<forall>u \<in> set pre. f u = None)"
proof (induction ts arbitrary: ts')
  case (Cons t ts)
  show ?case
  proof (cases "f t")
    case None
    with Cons.prems obtain us where "visit_tabs f ts = Some (r, us)" "ts' = t # us" by auto
    with Cons.IH [of us] None obtain pre u u' post where
      "ts = pre @ u # post" "f u = Some (r, u')" "us = pre @ u' # post" "\<forall>v \<in> set pre. f v = None"
      by blast
    with None \<open>ts' = t # us\<close> show ?thesis
      by (intro exI [of _ "t # pre"] exI [of _ u] exI [of _ u'] exI [of _ post]) simp
  next
    case (Some x)
    with Cons.prems show ?thesis
      by (intro exI [of _ "[]"] exI [of _ t] exI [of _ "snd x"] exI [of _ ts]) (cases x; simp)
  qed
qed simp

lemma visit_tabs_None_iff: "visit_tabs f ts = None \<longleftrightarrow> (\<forall>t \<in> set ts. f t = None)"
  by (induction ts) (auto split: option.splits)

lemma visit_windows_SomeD:
  "visit_windows f ws = Some (r, ws') \<Longrightarrow> \<exists>pre w w' post. ws = pre @ w # post \<and> f w = Some (r, w') \<and>
     ws' = pre @ w' # post \<and> (\<forall>u \<in> set pre. f u = None)"
proof (induction ws arbitrary: ws')
  case (Cons w ws)
  show ?case
  proof (cases "f w")
    case None
    with Cons.prems obtain us where "visit_windows f ws = Some (r, us)" "ws' = w # us" by auto
    with Cons.IH [of us] None obtain pre u u' post where
      "ws = pre @ u # post" "f u = Some (r, u')" "us = pre @ u' # post" "\<forall>v \<in> set pre. f v = None"
      by blast
    with None \<open>ws' = w # us\<close> show ?thesis
      by (intro exI [of _ "w # pre"] exI [of _ u] exI [of _ u'] exI [of _ post]) simp
  next
    case (Some x)
    with Cons.prems show ?thesis
      by (intro exI [of _ "[]"] exI [of _ w] exI [of _ "snd x"] exI [of _ ws]) (cases x; simp)
  qed
qed simp

lemma visit_windows_None_iff: "visit_windows f ws = None \<longleftrightarrow> (\<forall>w \<in> set ws. f w = None)"
  by (induction ws) (auto split: option.splits)

lemma visit_window_SomeD:
  "visit_window i body w = Some (r, w') \<Longrightarrow> w_id w = i \<and> body w = (r, w')"
  by (simp add: visit_window_def split: if_splits)

lemma visit_tab_None_iff: "visit_tab i body w = None \<longleftrightarrow> (\<forall>t \<in> set (w_tabs w). t_id t \<noteq> i)"
proof -
  have "visit_tab i body w = None \<longleftrightarrow>
      visit_tabs (\<lambda>t. if t_id t \<noteq> i then None else let (r, t', g) = body w t in Some ((r, g), t')) (w_tabs w) = None"
    by (simp add: visit_tab_def split: option.splits prod.splits)
  moreover have "(if t_id t \<noteq> i then None else let (r, t', g) = body w t in Some ((r, g), t')) = None
      \<longleftrightarrow> t_id t \<noteq> i" for t by (simp split: prod.splits)
  ultimately show ?thesis by (simp only: visit_tabs_None_iff)
qed

lemma visit_tab_SomeD:
  assumes "visit_tab i body w = Some (r, w')"
  shows "\<exists>pre t t' g post. w_tabs w = pre @ t # post \<and> t_id t = i \<and> body w t = (r, t', g) \<and>
    w' = g (w\<lparr>w_tabs := pre @ t' # post\<rparr>) \<and> i \<notin> t_id ` set pre"
proof -
  let ?f = "\<lambda>t. if t_id t \<noteq> i then None else let (r, t', g) = body w t in Some ((r, g), t')"
  from assms obtain g ts where v: "visit_tabs ?f (w_tabs w) = Some ((r, g), ts)"
    and w': "w' = g (w\<lparr>w_tabs := ts\<rparr>)"
    by (auto simp: visit_tab_def split: option.splits prod.splits)
  from visit_tabs_SomeD [OF v] obtain pre t t' post where
    s: "w_tabs w = pre @ t # post" "?f t = Some ((r, g), t')" "ts = pre @ t' # post"
      "\<forall>u \<in> set pre. ?f u = None" by blast
  from s(2) have "t_id t = i" "body w t = (r, t', g)" by (auto split: if_splits prod.splits)
  moreover from s(4) have "i \<notin> t_id ` set pre" by (auto split: prod.splits)
  ultimately show ?thesis using s w' by blast
qed

section \<open>Replacing a window or a tab\<close>

lemma all_tabs_split:
  "ws_windows ws = pre @ w # post \<Longrightarrow>
   all_tabs ws = concat (map w_tabs pre) @ w_tabs w @ concat (map w_tabs post)"
  by (simp add: all_tabs_def)

lemma all_panes_split:
  "ws_windows ws = pre @ w # post \<Longrightarrow>
   all_panes ws = concat (map window_panes pre) @ window_panes w @ concat (map window_panes post)"
  by (simp add: all_panes_def)

lemma window_panes_split:
  "w_tabs w = pre @ t # post \<Longrightarrow>
   window_panes w = concat (map tab_panes pre) @ tab_panes t @ concat (map tab_panes post)"
  by (simp add: window_panes_def)

lemma distinct_replace:
  assumes "distinct (xs @ ys @ zs)" "distinct ys'" "set ys' \<subseteq> set ys \<union> - set (xs @ ys @ zs)"
  shows "distinct (xs @ ys' @ zs)"
proof -
  have "set ys' \<inter> set xs = {}" "set ys' \<inter> set zs = {}"
    using assms(1,3) by auto
  then show ?thesis using assms(1,2) by auto
qed

abbreviation tab_ids :: "tab list \<Rightarrow> tab_id list" where
  "tab_ids \<equiv> map t_id"

abbreviation pane_ids :: "pane list \<Rightarrow> pane_id list" where
  "pane_ids \<equiv> map p_id"

lemma wf_replace_window:
  assumes wf: "wf_workspace ws" and ws: "ws_windows ws = pre @ w # post" and id: "w_id w' = w_id w"
    and t: "distinct (tab_ids (w_tabs w'))" "\<forall>t \<in> set (w_tabs w'). wf_tab t"
      "set (tab_ids (w_tabs w')) \<subseteq> set (tab_ids (w_tabs w)) \<union> - set (tab_ids (all_tabs ws))"
    and p: "distinct (pane_ids (window_panes w'))"
      "set (pane_ids (window_panes w')) \<subseteq>
         set (pane_ids (window_panes w)) \<union> - set (pane_ids (all_panes ws))"
  shows "wf_workspace (ws\<lparr>ws_windows := pre @ w' # post\<rparr>)"
proof -
  let ?ws = "ws\<lparr>ws_windows := pre @ w' # post\<rparr>"
  have at: "all_tabs ?ws = concat (map w_tabs pre) @ w_tabs w' @ concat (map w_tabs post)"
    by (simp add: all_tabs_def)
  have ap: "all_panes ?ws = concat (map window_panes pre) @ window_panes w' @ concat (map window_panes post)"
    by (simp add: all_panes_def)
  have "distinct (tab_ids (all_tabs ?ws))"
    unfolding at map_append
  proof (rule distinct_replace)
    show "distinct (tab_ids (concat (map w_tabs pre)) @ tab_ids (w_tabs w) @
        tab_ids (concat (map w_tabs post)))"
      using wf by (simp only: wf_workspace_def all_tabs_split [OF ws] map_append)
  qed (use t in \<open>simp_all only: all_tabs_split [OF ws] map_append\<close>)
  moreover have "distinct (pane_ids (all_panes ?ws))"
    unfolding ap map_append
  proof (rule distinct_replace)
    show "distinct (pane_ids (concat (map window_panes pre)) @ pane_ids (window_panes w) @
        pane_ids (concat (map window_panes post)))"
      using wf by (simp only: wf_workspace_def all_panes_split [OF ws] map_append)
  qed (use p in \<open>simp_all only: all_panes_split [OF ws] map_append\<close>)
  moreover have "\<forall>t \<in> set (all_tabs ?ws). wf_tab t"
  proof -
    have "\<forall>t \<in> set (all_tabs ws). wf_tab t" using wf by (simp add: wf_workspace_def)
    then show ?thesis using t(2) by (simp add: at all_tabs_split [OF ws] ball_Un)
  qed
  ultimately show ?thesis
    using wf id by (simp add: wf_workspace_def ws)
qed

lemma wf_replace_tab:
  assumes wf: "wf_workspace ws" and ws: "ws_windows ws = pre @ w # post"
    and w: "w_tabs w = tpre @ t # tpost" and id: "w_id w' = w_id w"
    and w': "w_tabs w' = tpre @ t' # tpost" and t': "t_id t' = t_id t" "wf_tab t'"
    and p: "distinct (pane_ids (tab_panes t'))"
      "set (pane_ids (tab_panes t')) \<subseteq> set (pane_ids (tab_panes t)) \<union> - set (pane_ids (all_panes ws))"
  shows "wf_workspace (ws\<lparr>ws_windows := pre @ w' # post\<rparr>)"
proof (rule wf_replace_window [OF wf ws id])
  have d: "distinct (tab_ids (w_tabs w))" "distinct (pane_ids (window_panes w))"
    using wf by (simp_all add: wf_workspace_def all_tabs_split [OF ws] all_panes_split [OF ws])
  have same: "tab_ids (w_tabs w') = tab_ids (w_tabs w)" using t'(1) by (simp add: w w')
  show "distinct (tab_ids (w_tabs w'))" using d(1) by (simp only: same)
  show "set (tab_ids (w_tabs w')) \<subseteq> set (tab_ids (w_tabs w)) \<union> - set (tab_ids (all_tabs ws))"
    by (simp only: same Un_upper1)
  have "set (w_tabs w) \<subseteq> set (all_tabs ws)" unfolding all_tabs_split [OF ws] by auto
  then have "\<forall>t \<in> set (w_tabs w). wf_tab t" using wf by (auto simp: wf_workspace_def)
  then show "\<forall>t \<in> set (w_tabs w'). wf_tab t" using t'(2) by (simp add: w w')
  have sub: "set (pane_ids (window_panes w)) \<subseteq> set (pane_ids (all_panes ws))"
    unfolding all_panes_split [OF ws] by auto
  show "distinct (pane_ids (window_panes w'))"
    unfolding window_panes_split [OF w'] map_append
  proof (rule distinct_replace)
    show "distinct (pane_ids (concat (map tab_panes tpre)) @ pane_ids (tab_panes t) @
        pane_ids (concat (map tab_panes tpost)))"
      using d(2) by (simp only: window_panes_split [OF w] map_append)
    show "set (pane_ids (tab_panes t')) \<subseteq> set (pane_ids (tab_panes t)) \<union>
        - set (pane_ids (concat (map tab_panes tpre)) @ pane_ids (tab_panes t) @
               pane_ids (concat (map tab_panes tpost)))"
      using p(2) sub unfolding window_panes_split [OF w] map_append by blast
  qed (rule p(1))
  show "set (pane_ids (window_panes w')) \<subseteq>
      set (pane_ids (window_panes w)) \<union> - set (pane_ids (all_panes ws))"
    unfolding window_panes_split [OF w] window_panes_split [OF w'] map_append set_append
    using p(2) by blast
qed

lemma wf_core_mark_dirty [simp]: "wf_core (mark_dirty c) = wf_core c"
  by (simp add: wf_core_def mark_dirty_def emit_def Let_def split: option.splits)

lemma wf_core_emit [simp]: "wf_core (emit ty ws w t p c) = wf_core c"
  by (simp add: wf_core_def emit_def)

lemma wf_core_set [simp]: "wf_core (c\<lparr>ws_current := Some ws\<rparr>) = wf_workspace ws"
  by (simp add: wf_core_def)

lemma wf_coreD: "wf_core c \<Longrightarrow> ws_current c = Some ws \<Longrightarrow> wf_workspace ws"
  by (simp add: wf_core_def)

lemma wf_tab_of: "wf_workspace ws \<Longrightarrow> t \<in> set (all_tabs ws) \<Longrightarrow> wf_tab t"
  by (simp add: wf_workspace_def)

lemma tab_panes_distinct:
  assumes "wf_workspace ws" "t \<in> set (all_tabs ws)"
  shows "distinct (map p_id (tab_panes t))"
proof -
  obtain us vs where "all_tabs ws = us @ t # vs" using assms(2) by (meson split_list)
  with assms(1) show ?thesis by (simp add: wf_workspace_def all_panes_tabs)
qed

section \<open>Operations\<close>

lemma set_concat_filter: "set (concat (map f (filter P xs))) \<subseteq> set (concat (map f xs))"
  by auto

lemma distinct_concat_filter:
  "distinct (map g (concat (map f xs))) \<Longrightarrow> distinct (map g (concat (map f (filter P xs))))"
proof (induction xs)
  case (Cons x xs)
  have "g ` set (concat (map f (filter P xs))) \<subseteq> g ` set (concat (map f xs))"
    by (rule image_mono [OF set_concat_filter])
  with Cons show ?case by (cases "P x") (auto simp del: set_concat)
qed simp

lemma wf_workspace_fields:
  "wf_workspace (ws\<lparr>ws_name := n\<rparr>) = wf_workspace ws"
  "wf_workspace (ws\<lparr>ws_last_saved_at := tp\<rparr>) = wf_workspace ws"
  "wf_workspace (ws\<lparr>ws_generation := g\<rparr>) = wf_workspace ws"
  "wf_workspace (ws\<lparr>ws_snapshot_ids := ss\<rparr>) = wf_workspace ws"
  "wf_workspace (ws\<lparr>ws_last_saved_at := tp, ws_generation := g\<rparr>) = wf_workspace ws"
  by (simp_all add: wf_workspace_def all_tabs_def all_panes_def)

lemma wf_replace_same_tabs:
  assumes "wf_workspace ws" "ws_windows ws = pre @ w # post" "w_id w' = w_id w" "w_tabs w' = w_tabs w"
  shows "wf_workspace (ws\<lparr>ws_windows := pre @ w' # post\<rparr>)"
proof (rule wf_replace_window [OF assms(1-3)])
  have d: "distinct (tab_ids (all_tabs ws))" "distinct (pane_ids (all_panes ws))"
    "\<forall>t \<in> set (all_tabs ws). wf_tab t"
    using assms(1) by (simp_all add: wf_workspace_def)
  have wp: "window_panes w' = window_panes w" by (simp add: window_panes_def assms(4))
  show "distinct (tab_ids (w_tabs w'))" using d(1) by (simp add: assms(4) all_tabs_split [OF assms(2)])
  show "distinct (pane_ids (window_panes w'))" using d(2) by (simp add: wp all_panes_split [OF assms(2)])
  show "\<forall>t \<in> set (w_tabs w'). wf_tab t" using d(3) by (simp add: assms(4) all_tabs_split [OF assms(2)] ball_Un)
qed (simp_all add: assms(4) window_panes_def)

lemma wf_visit_same_tabs:
  assumes "wf_workspace ws" "visit_windows f (ws_windows ws) = Some (r, wins)"
    and "\<And>w r w'. f w = Some (r, w') \<Longrightarrow> w_id w' = w_id w \<and> w_tabs w' = w_tabs w"
  shows "wf_workspace (ws\<lparr>ws_windows := wins\<rparr>)"
proof -
  from visit_windows_SomeD [OF assms(2)] obtain pre w w' post where
    "ws_windows ws = pre @ w # post" "f w = Some (r, w')" "wins = pre @ w' # post" by blast
  with wf_replace_same_tabs [OF assms(1)] assms(3) show ?thesis by auto
qed

text \<open>A body that rewrites one tab: its pane identifiers are old ones of the tab or new.\<close>

definition tab_step_ok :: "workspace \<Rightarrow> tab \<Rightarrow> tab \<Rightarrow> bool" where
  "tab_step_ok ws t t' \<longleftrightarrow> t_id t' = t_id t \<and> wf_tab t' \<and> distinct (pane_ids (tab_panes t')) \<and>
     set (pane_ids (tab_panes t')) \<subseteq> set (pane_ids (tab_panes t)) \<union> - set (pane_ids (all_panes ws))"

lemma tab_step_ok_refl: "wf_workspace ws \<Longrightarrow> t \<in> set (all_tabs ws) \<Longrightarrow> tab_step_ok ws t t"
  using wf_tab_of tab_panes_distinct by (auto simp: tab_step_ok_def)

lemma wf_visit_tab:
  assumes wf: "wf_workspace ws" and v: "visit_windows (visit_tab i body) (ws_windows ws) = Some (r, wins)"
    and ok: "\<And>w t r t' g. w \<in> set (ws_windows ws) \<Longrightarrow> t \<in> set (w_tabs w) \<Longrightarrow> t_id t = i \<Longrightarrow>
      body w t = (r, t', g) \<Longrightarrow>
      tab_step_ok ws t t' \<and> (\<forall>v. w_id (g v) = w_id v \<and> w_tabs (g v) = w_tabs v)"
  shows "wf_workspace (ws\<lparr>ws_windows := wins\<rparr>)"
proof -
  from visit_windows_SomeD [OF v] obtain pre w w' post where
    ws: "ws_windows ws = pre @ w # post" "visit_tab i body w = Some (r, w')" "wins = pre @ w' # post"
    by blast
  from visit_tab_SomeD [OF this(2)] obtain tpre t t' g tpost where
    w: "w_tabs w = tpre @ t # tpost" "t_id t = i" "body w t = (r, t', g)"
      "w' = g (w\<lparr>w_tabs := tpre @ t' # tpost\<rparr>)" by blast
  from ok [OF _ _ w(2,3)] have o: "tab_step_ok ws t t'" "\<forall>v. w_id (g v) = w_id v \<and> w_tabs (g v) = w_tabs v"
    by (simp_all add: ws(1) w(1))
  show ?thesis
    unfolding ws(3)
    by (rule wf_replace_tab [OF wf ws(1) w(1), where t' = t']) (use o in \<open>simp_all add: w(4) tab_step_ok_def\<close>)
qed

lemma mem_all_tabs: "w \<in> set (ws_windows ws) \<Longrightarrow> t \<in> set (w_tabs w) \<Longrightarrow> t \<in> set (all_tabs ws)"
  by (auto simp: all_tabs_def)

lemma rename_workspace_wf: "wf_core c \<Longrightarrow> wf_core (snd (rename_workspace i n c))"
  by (auto simp: rename_workspace_def wf_workspace_fields dest: wf_coreD split: option.splits)

lemma close_workspace_wf: "wf_core c \<Longrightarrow> wf_core (snd (close_workspace c))"
  by (auto simp: close_workspace_def wf_core_def split: option.splits)

lemma create_workspace_wf:
  "create_workspace S now fresh name (c, s) = Inr (i, c', s') \<Longrightarrow> wf_core c'"
  by (auto simp: create_workspace_def Let_def Workspace_create_def empty_workspace_def
      wf_workspace_def all_tabs_def all_panes_def split: option.splits)

lemma add_window_wf:
  assumes "wf_core c" "add_window now fresh title c = Inr (i, c')"
    and "\<And>ws. ws_current c = Some ws \<Longrightarrow> fresh \<notin> w_id ` set (ws_windows ws)"
  shows "wf_core c'"
  using assms
  by (auto simp: add_window_def Let_def Window_create_def empty_window_def wf_workspace_def
      all_tabs_def all_panes_def window_panes_def dest!: wf_coreD split: option.splits)

lemma remove_window_wf:
  assumes "wf_core c"
  shows "wf_core (snd (remove_window i c))"
proof (cases "ws_current c")
  case None
  then show ?thesis using assms by (simp add: remove_window_def)
next
  case (Some ws)
  note wf = wf_coreD [OF assms Some]
  let ?ws = "ws\<lparr>ws_windows := filter (\<lambda>w. w_id w \<noteq> i) (ws_windows ws)\<rparr>"
  have "distinct (tab_ids (all_tabs ?ws))" "distinct (pane_ids (all_panes ?ws))"
    using wf by (simp_all add: wf_workspace_def all_tabs_def all_panes_def distinct_concat_filter)
  moreover have "\<forall>t \<in> set (all_tabs ?ws). wf_tab t"
    using wf by (auto simp: wf_workspace_def all_tabs_def)
  moreover have "distinct (map w_id (filter (\<lambda>w. w_id w \<noteq> i) (ws_windows ws)))"
    using wf by (simp add: wf_workspace_def distinct_map_filter)
  ultimately have "wf_workspace (?ws\<lparr>ws_focus_window_id := None\<rparr>)"
    "ws_focus_window_id ws \<noteq> Some i \<Longrightarrow> wf_workspace ?ws"
    using wf by (auto simp: wf_workspace_def all_tabs_def all_panes_def)
  then show ?thesis using Some by (simp add: remove_window_def Let_def)
qed

lemma rename_window_wf:
  assumes "wf_core c"
  shows "wf_core (snd (rename_window i title c))"
proof (cases "ws_current c")
  case None
  then show ?thesis using assms by (simp add: rename_window_def)
next
  case (Some ws)
  let ?f = "visit_window i (\<lambda>w. ((), w\<lparr>w_label := title\<rparr>))"
  show ?thesis
  proof (cases "visit_windows ?f (ws_windows ws)")
    case None
    then show ?thesis using assms Some by (simp add: rename_window_def)
  next
    case (Some x)
    then obtain wins where v: "visit_windows ?f (ws_windows ws) = Some ((), wins)" by (cases x) simp
    have "wf_workspace (ws\<lparr>ws_windows := wins\<rparr>)"
      by (rule wf_visit_same_tabs [OF wf_coreD [OF assms \<open>ws_current c = Some ws\<close>] v])
        (auto simp: visit_window_def split: if_splits)
    then show ?thesis using \<open>ws_current c = Some ws\<close> v by (simp add: rename_window_def)
  qed
qed

lemma focus_window_wf:
  assumes "wf_core c"
  shows "wf_core (snd (focus_window i c))"
proof (cases "ws_current c")
  case None
  then show ?thesis using assms by (simp add: focus_window_def)
next
  case (Some ws)
  have "wf_workspace (ws\<lparr>ws_focus_window_id := Some i\<rparr>)" if "i \<in> w_id ` set (ws_windows ws)"
    using wf_coreD [OF assms Some] that
    by (simp add: wf_workspace_def all_tabs_def all_panes_def)
  then show ?thesis using assms Some by (auto simp: focus_window_def)
qed

lemma insert_tab_wf:
  assumes "wf_core c" "insert_tab i t c = Inr (j, c')" "wf_tab t" "distinct (pane_ids (tab_panes t))"
    and fresh: "\<And>ws. ws_current c = Some ws \<Longrightarrow> t_id t \<notin> set (tab_ids (all_tabs ws)) \<and>
      set (pane_ids (tab_panes t)) \<inter> set (pane_ids (all_panes ws)) = {}"
  shows "wf_core c'"
proof -
  from assms(2) obtain ws wins where ws: "ws_current c = Some ws"
    and v: "visit_windows (visit_window i (\<lambda>w. ((), push_tab t w))) (ws_windows ws) = Some ((), wins)"
    and c': "c' = emit TabAdded (ws_id ws) (Some i) (Some (t_id t)) None
       (mark_dirty (c\<lparr>ws_current := Some (ws\<lparr>ws_windows := wins\<rparr>)\<rparr>))"
    by (auto simp: insert_tab_def split: option.splits)
  note wf = wf_coreD [OF assms(1) ws]
  from visit_windows_SomeD [OF v] obtain pre w post where
    w: "ws_windows ws = pre @ w # post" "wins = pre @ push_tab t w # post"
    by (auto dest: visit_window_SomeD)
  have d: "distinct (tab_ids (w_tabs w))" "distinct (pane_ids (window_panes w))"
    "\<forall>t \<in> set (w_tabs w). wf_tab t"
    using wf by (simp_all add: wf_workspace_def all_tabs_split [OF w(1)] all_panes_split [OF w(1)] ball_Un)
  have sub: "set (tab_ids (w_tabs w)) \<subseteq> set (tab_ids (all_tabs ws))"
    "set (pane_ids (window_panes w)) \<subseteq> set (pane_ids (all_panes ws))"
    unfolding all_tabs_split [OF w(1)] all_panes_split [OF w(1)] by auto
  have panes: "window_panes (push_tab t w) = window_panes w @ tab_panes t"
    by (simp add: window_panes_def push_tab_def)
  have tabs: "w_tabs (push_tab t w) = w_tabs w @ [t]" by (simp add: push_tab_def)
  have "wf_workspace (ws\<lparr>ws_windows := pre @ push_tab t w # post\<rparr>)"
  proof (rule wf_replace_window [OF wf w(1)])
    show "distinct (tab_ids (w_tabs (push_tab t w)))"
      using d(1) sub(1) fresh [OF ws] unfolding tabs by auto
    show "set (tab_ids (w_tabs (push_tab t w))) \<subseteq> set (tab_ids (w_tabs w)) \<union> - set (tab_ids (all_tabs ws))"
      using fresh [OF ws] unfolding tabs by simp
    have "set (pane_ids (window_panes w)) \<inter> set (pane_ids (tab_panes t)) = {}"
      using sub(2) fresh [OF ws] by blast
    then show "distinct (pane_ids (window_panes (push_tab t w)))"
      using d(2) assms(4) unfolding panes map_append distinct_append by simp
    show "set (pane_ids (window_panes (push_tab t w))) \<subseteq>
        set (pane_ids (window_panes w)) \<union> - set (pane_ids (all_panes ws))"
      using fresh [OF ws] unfolding panes map_append set_append by blast
  qed (use d(3) assms(3) in \<open>simp_all add: push_tab_def\<close>)
  then show ?thesis by (simp add: c' w(2))
qed

lemma set_tab_note_state_wf:
  assumes "wf_core c"
  shows "wf_core (snd (set_tab_note_state i tab st c))"
proof (cases "ws_current c")
  case None
  then show ?thesis using assms by (simp add: set_tab_note_state_def)
next
  case (Some ws)
  note wf = wf_coreD [OF assms Some]
  let ?body = "\<lambda>w t. if t_kind t \<noteq> Note then (False, t, id) else (True, t\<lparr>t_note_state := Some st\<rparr>, id)"
  let ?f = "\<lambda>w. if w_id w \<noteq> i then None else visit_tab tab ?body w"
  have "wf_workspace (ws\<lparr>ws_windows := wins\<rparr>)"
    if "visit_windows ?f (ws_windows ws) = Some (r, wins)" for r wins
  proof -
    from visit_windows_SomeD [OF that] obtain pre w w' post where
      w: "ws_windows ws = pre @ w # post" "?f w = Some (r, w')" "wins = pre @ w' # post" by blast
    then have "visit_tab tab ?body w = Some (r, w')" by (simp split: if_splits)
    from visit_tab_SomeD [OF this] obtain tpre t t' g tpost where
      t: "w_tabs w = tpre @ t # tpost" "?body w t = (r, t', g)" "w' = g (w\<lparr>w_tabs := tpre @ t' # tpost\<rparr>)"
      by blast
    have mem: "t \<in> set (all_tabs ws)" by (simp add: all_tabs_split [OF w(1)] t(1))
    have tp: "tab_panes t' = tab_panes t" "t_id t' = t_id t" "wf_tab t'" "g = id"
      using t(2) wf_tab_of [OF wf mem] by (auto simp: wf_tab_def tab_panes_def split: if_splits)
    show ?thesis
      unfolding w(3)
      by (rule wf_replace_tab [OF wf w(1) t(1), where t' = t'])
        (use tp tab_panes_distinct [OF wf mem] in \<open>simp_all add: t(3)\<close>)
  qed
  then show ?thesis
    using assms Some by (auto simp: set_tab_note_state_def split: option.splits prod.splits bool.splits)
qed

lemma remove_tab_wf:
  assumes "wf_core c"
  shows "wf_core (snd (remove_tab i tab c))"
proof (cases "ws_current c")
  case None
  then show ?thesis using assms by (simp add: remove_tab_def)
next
  case (Some ws)
  note wf = wf_coreD [OF assms Some]
  let ?body = "\<lambda>w. let w = w\<lparr>w_tabs := filter (\<lambda>t. t_id t \<noteq> tab) (w_tabs w)\<rparr>
     in ((), if w_focus_tab_id w = Some tab then w\<lparr>w_focus_tab_id := None\<rparr> else w)"
  have "wf_workspace (ws\<lparr>ws_windows := wins\<rparr>)"
    if v: "visit_windows (visit_window i ?body) (ws_windows ws) = Some (u, wins)" for u wins
  proof -
    from visit_windows_SomeD [OF v] obtain pre w w' post where
      w: "ws_windows ws = pre @ w # post" "visit_window i ?body w = Some (u, w')" "wins = pre @ w' # post"
      by blast
    have w': "w_id w' = w_id w" "w_tabs w' = filter (\<lambda>t. t_id t \<noteq> tab) (w_tabs w)"
      using visit_window_SomeD [OF w(2)] by (auto simp: Let_def split: if_splits)
    have d: "distinct (tab_ids (w_tabs w))" "distinct (pane_ids (window_panes w))"
      "\<forall>t \<in> set (w_tabs w). wf_tab t"
      using wf by (simp_all add: wf_workspace_def all_tabs_split [OF w(1)] all_panes_split [OF w(1)] ball_Un)
    have "set (window_panes w') \<subseteq> set (window_panes w)"
      unfolding window_panes_def w'(2) by (rule set_concat_filter)
    then have p: "set (pane_ids (window_panes w')) \<subseteq> set (pane_ids (window_panes w))"
      unfolding set_map by (rule image_mono)
    have "set (tab_ids (w_tabs w')) \<subseteq> set (tab_ids (w_tabs w))" by (auto simp: w'(2))
    moreover have "distinct (pane_ids (window_panes w'))"
      using d(2) unfolding window_panes_def w'(2) by (rule distinct_concat_filter)
    ultimately show ?thesis
      unfolding w(3) using d(1,3) p
      by (intro wf_replace_window [OF wf w(1) w'(1)]) (auto simp: w'(2) distinct_map_filter)
  qed
  then show ?thesis
    using assms Some by (auto simp: remove_tab_def split: option.splits)
qed

lemma focus_tab_wf:
  assumes "wf_core c"
  shows "wf_core (snd (focus_tab i tab c))"
proof (cases "ws_current c")
  case None
  then show ?thesis using assms by (simp add: focus_tab_def)
next
  case (Some ws)
  let ?f = "visit_window i (\<lambda>w. ((), w\<lparr>w_focus_tab_id := Some tab\<rparr>))"
  show ?thesis
  proof (cases "visit_windows ?f (ws_windows ws)")
    case None
    then show ?thesis using assms Some by (simp add: focus_tab_def)
  next
    case (Some x)
    then obtain wins where v: "visit_windows ?f (ws_windows ws) = Some ((), wins)" by (cases x) simp
    have "wf_workspace (ws\<lparr>ws_windows := wins\<rparr>)"
      by (rule wf_visit_same_tabs [OF wf_coreD [OF assms \<open>ws_current c = Some ws\<close>] v])
        (auto simp: visit_window_def split: if_splits)
    then show ?thesis using \<open>ws_current c = Some ws\<close> v by (simp add: focus_tab_def)
  qed
qed

lemma focus_pane_wf:
  assumes "wf_core c"
  shows "wf_core (snd (focus_pane tab pane c))"
proof (cases "ws_current c")
  case None
  then show ?thesis using assms by (simp add: focus_pane_def)
next
  case (Some ws)
  let ?f = "\<lambda>w. if w_focus_tab_id w \<noteq> Some tab then None
       else if \<exists>t \<in> set (w_tabs w). t_id t = tab \<and> find_pane (t_pane_tree t) pane \<noteq> None
       then Some ((), w\<lparr>w_focus_pane_id := Some pane\<rparr>) else None"
  show ?thesis
  proof (cases "visit_windows ?f (ws_windows ws)")
    case None
    then show ?thesis using assms Some by (simp add: focus_pane_def)
  next
    case (Some x)
    then obtain wins where v: "visit_windows ?f (ws_windows ws) = Some ((), wins)" by (cases x) simp
    have "wf_workspace (ws\<lparr>ws_windows := wins\<rparr>)"
      by (rule wf_visit_same_tabs [OF wf_coreD [OF assms \<open>ws_current c = Some ws\<close>] v])
        (auto simp: visit_window_def split: if_splits)
    then show ?thesis using \<open>ws_current c = Some ws\<close> v by (simp add: focus_pane_def)
  qed
qed

section \<open>Splitting\<close>

fun insert_after :: "pane_id \<Rightarrow> pane \<Rightarrow> pane list \<Rightarrow> pane list" where
  "insert_after i np [] = []"
| "insert_after i np (p # ps) = (if p_id p = i then p # np # ps else p # insert_after i np ps)"

lemma insert_after_append:
  "insert_after i np (ps @ qs) =
     (if i \<in> p_id ` set ps then insert_after i np ps @ qs else ps @ insert_after i np qs)"
  by (induction ps) auto

lemma set_insert_after:
  "set (insert_after i np ps) = (if i \<in> p_id ` set ps then insert np (set ps) else set ps)"
  by (induction ps) auto

lemma distinct_insert_after:
  "distinct (pane_ids ps) \<Longrightarrow> p_id np \<notin> p_id ` set ps \<Longrightarrow> distinct (pane_ids (insert_after i np ps))"
proof (induction ps)
  case (Cons p ps)
  then have "p_id p \<notin> p_id ` set (insert_after i np ps)"
    by (auto simp: set_insert_after split: if_splits)
  with Cons show ?case by auto
qed simp

lemma collect_at_pane_split:
  "collect_panes (at_pane i (\<lambda>e. Split k e (leaf np) r) t) = insert_after i np (collect_panes t)"
proof (induction t)
  case (Leaf p)
  then show ?case by (cases p) (auto simp: leaf_def)
next
  case (Split k' a b r')
  have "find_pane a i \<noteq> None \<longleftrightarrow> i \<in> p_id ` set (collect_panes a)"
    by (simp add: find_pane_None_iff)
  with Split show ?case by (simp add: insert_after_append del: not_None_eq)
qed

text \<open>The leaf that \<^const>\<open>split_tree\<close> divides, if any.\<close>

definition split_target :: "pane_id option \<Rightarrow> pane_tree \<Rightarrow> pane_id option" where
  "split_target focus t =
     (case t of
        Leaf (Some p) \<Rightarrow> Some (p_id p)
      | _ \<Rightarrow> find (\<lambda>i. find_pane t i \<noteq> None) [case focus of Some f \<Rightarrow> f | None \<Rightarrow> empty_id, empty_id])"

lemma collect_split_tree:
  "collect_panes (split_tree k r np focus t) =
     (case split_target focus t of None \<Rightarrow> collect_panes t | Some i \<Rightarrow> insert_after i np (collect_panes t))"
proof (cases t)
  case (Leaf p)
  then show ?thesis by (cases p) (simp_all add: split_tree_def split_target_def leaf_def)
next
  case (Split k' a b r')
  show ?thesis
    unfolding Split split_tree_def split_target_def Let_def
    by (simp add: collect_at_pane_split del: at_pane.simps find_pane.simps collect_panes.simps)
qed

lemma full_at_split: "full t \<Longrightarrow> full (at_pane i (\<lambda>e. Split k e (leaf np) r) t)"
  by (induction t rule: full.induct) (auto simp: leaf_def split: option.splits)

lemma wf_split_tree: "wf_tree t \<Longrightarrow> wf_tree (split_tree k r np focus t)"
proof (cases t)
  case (Leaf p)
  then show "wf_tree t \<Longrightarrow> ?thesis" by (cases p) (simp_all add: split_tree_def wf_tree_def leaf_def)
next
  case (Split k' a b r')
  assume "wf_tree t"
  then have "full t" by (simp add: Split wf_tree_def)
  then show ?thesis
    unfolding Split split_tree_def Let_def
    by (simp add: wf_tree_def full_at_split del: at_pane.simps find_pane.simps full.simps)
qed

lemma split_target_in: "split_target focus t = Some i \<Longrightarrow> i \<in> p_id ` set (collect_panes t)"
proof (cases t)
  case (Leaf p)
  then show "split_target focus t = Some i \<Longrightarrow> ?thesis"
    by (cases p) (auto simp: split_target_def split: if_splits)
next
  case (Split k' a b r')
  assume "split_target focus t = Some i"
  then have "find_pane t i \<noteq> None"
    unfolding split_target_def Split by (auto simp del: find_pane.simps split: if_splits)
  then show ?thesis by (auto simp: find_pane_None_iff)
qed

lemma split_tab_ok:
  assumes wf: "wf_workspace ws" and t: "t \<in> set (all_tabs ws)"
    and fresh: "p_id np \<notin> p_id ` set (all_panes ws)" and np: "wf_pane np"
  shows "tab_step_ok ws t (t\<lparr>t_pane_tree := split_tree k r np focus (t_pane_tree t)\<rparr>)"
proof -
  let ?t = "t\<lparr>t_pane_tree := split_tree k r np focus (t_pane_tree t)\<rparr>"
  have sub: "set (tab_panes t) \<subseteq> set (all_panes ws)" using t by (auto simp: all_panes_tabs)
  have set: "set (tab_panes ?t) \<subseteq> insert np (set (tab_panes t))"
    by (auto simp: tab_panes_def collect_split_tree set_insert_after split: option.splits if_splits)
  have "p_id np \<notin> p_id ` set (tab_panes t)" using sub fresh by blast
  then have "distinct (pane_ids (tab_panes ?t))"
    using tab_panes_distinct [OF wf t]
    by (auto simp: tab_panes_def collect_split_tree distinct_insert_after split: option.splits)
  moreover have "wf_tab ?t"
    using wf_tab_of [OF wf t] set np by (auto simp: wf_tab_def wf_split_tree)
  ultimately show ?thesis
    using set fresh by (auto simp: tab_step_ok_def)
qed

lemma split_pane_wf:
  assumes "wf_core c" "split_pane fresh tab k r c = Inr (i, c')"
    and fresh: "\<And>ws. ws_current c = Some ws \<Longrightarrow> fresh \<notin> p_id ` set (all_panes ws)"
  shows "wf_core c'"
proof -
  let ?body = "\<lambda>w t. (w_id w,
      t\<lparr>t_pane_tree := split_tree k r \<lparr>p_id = fresh, p_state = empty_pane_state\<rparr>
          (w_focus_pane_id w) (t_pane_tree t)\<rparr>, \<lambda>w. w\<lparr>w_focus_pane_id := Some fresh\<rparr>)"
  from assms(2) obtain ws wid wins where ws: "ws_current c = Some ws"
    and v: "visit_windows (visit_tab tab ?body) (ws_windows ws) = Some (wid, wins)"
    and c': "c' = emit PaneSplit (ws_id ws) (Some wid) (Some tab) (Some fresh)
       (mark_dirty (c\<lparr>ws_current := Some (ws\<lparr>ws_windows := wins\<rparr>)\<rparr>))"
    by (auto simp: split_pane_def split: option.splits)
  note wf = wf_coreD [OF assms(1) ws]
  have "wf_pane \<lparr>p_id = fresh, p_state = empty_pane_state\<rparr>"
    by (simp add: wf_pane_def empty_pane_state_def)
  then have "wf_workspace (ws\<lparr>ws_windows := wins\<rparr>)"
    using fresh [OF ws]
    by (intro wf_visit_tab [OF wf v]) (auto intro!: split_tab_ok [OF wf] mem_all_tabs)
  then show ?thesis by (simp add: c')
qed

section \<open>Removing and resizing\<close>

lemma remove_tab_ok:
  assumes wf: "wf_workspace ws" and t: "t \<in> set (all_tabs ws)"
    and r: "remove_pane_from_tree (t_pane_tree t) i = (b, tree)"
  shows "tab_step_ok ws t (t\<lparr>t_pane_tree := tree\<rparr>)"
proof -
  let ?t = "t\<lparr>t_pane_tree := tree\<rparr>"
  have panes: "tab_panes ?t = remove_first (\<lambda>p. p_id p = i) (tab_panes t)"
    using remove_pane_collect [of "t_pane_tree t" i] by (simp add: tab_panes_def r)
  note d = tab_panes_distinct [OF wf t]
  have f: "remove_first (\<lambda>p. p_id p = i) (tab_panes t) = filter (\<lambda>p. p_id p \<noteq> i) (tab_panes t)"
    using remove_first_is_filter [OF d] .
  have "wf_tree tree"
    using remove_pane_wf [of "t_pane_tree t" i] wf_tab_of [OF wf t] by (simp add: wf_tab_def r)
  then have "wf_tab ?t"
    using wf_tab_of [OF wf t] by (auto simp: wf_tab_def panes f)
  then show ?thesis
    using d by (auto simp: tab_step_ok_def panes f distinct_map_filter)
qed

lemma remove_pane_wf_core:
  assumes "wf_core c"
  shows "wf_core (snd (remove_pane tab pane c))"
proof (cases "ws_current c")
  case None
  then show ?thesis using assms by (simp add: remove_pane_def)
next
  case (Some ws)
  note wf = wf_coreD [OF assms Some]
  let ?body = "\<lambda>w t. let (removed, tree) = remove_pane_from_tree (t_pane_tree t) pane
     in if \<not> removed then (None, t, id)
        else (Some (w_id w), t\<lparr>t_pane_tree := tree\<rparr>,
              \<lambda>w. if w_focus_pane_id w = Some pane then w\<lparr>w_focus_pane_id := None\<rparr> else w)"
  have "wf_workspace (ws\<lparr>ws_windows := wins\<rparr>)"
    if "visit_windows (visit_tab tab ?body) (ws_windows ws) = Some (x, wins)" for x wins
    using remove_tab_ok [OF wf] tab_step_ok_refl [OF wf]
    by (intro wf_visit_tab [OF wf that])
      (auto simp: mem_all_tabs split: prod.splits if_splits)
  then show ?thesis
    using assms Some by (auto simp: remove_pane_def simp del: Let_def split: option.splits)
qed

lemma ratio_tab_ok:
  assumes wf: "wf_workspace ws" and t: "t \<in> set (all_tabs ws)"
    and r: "set_split_ratio (t_pane_tree t) i q = (b, tree)"
  shows "tab_step_ok ws t (t\<lparr>t_pane_tree := tree\<rparr>)"
proof -
  have c: "collect_panes tree = collect_panes (t_pane_tree t)"
    using set_split_ratio_collect [of "t_pane_tree t" i q] by (simp add: r)
  have "wf_tree tree"
    using set_split_ratio_wf [of "t_pane_tree t" i q] wf_tab_of [OF wf t] by (simp add: wf_tab_def r)
  then show ?thesis
    using tab_panes_distinct [OF wf t] wf_tab_of [OF wf t]
    by (simp add: tab_step_ok_def wf_tab_def tab_panes_def c)
qed

lemma set_pane_ratio_wf:
  assumes "wf_core c"
  shows "wf_core (snd (set_pane_ratio tab pane ratio c))"
proof (cases "ws_current c")
  case None
  then show ?thesis using assms by (simp add: set_pane_ratio_def)
next
  case (Some ws)
  note wf = wf_coreD [OF assms Some]
  let ?body = "\<lambda>w t. if dbl_less ratio (Fin 0) \<or> dbl_less (Fin 1) ratio then (None, t, id)
     else let (found, tree) = set_split_ratio (t_pane_tree t) pane ratio
          in if \<not> found then (None, t, id) else (Some (w_id w), t\<lparr>t_pane_tree := tree\<rparr>, id)"
  have "wf_workspace (ws\<lparr>ws_windows := wins\<rparr>)"
    if "visit_windows (visit_tab tab ?body) (ws_windows ws) = Some (x, wins)" for x wins
    using ratio_tab_ok [OF wf] tab_step_ok_refl [OF wf]
    by (intro wf_visit_tab [OF wf that])
      (auto simp: mem_all_tabs split: prod.splits if_splits)
  then show ?thesis
    using assms Some by (auto simp: set_pane_ratio_def simp del: Let_def split: option.splits)
qed

section \<open>Pane states\<close>

lemma state_tab_ok:
  assumes wf: "wf_workspace ws" and t: "t \<in> set (all_tabs ws)"
    and st: "length (ps_command_history st) \<le> kMaxCommandHistoryPerPane"
  shows "tab_step_ok ws t (t\<lparr>t_pane_tree := upd_pane_state i (\<lambda>_. st) (t_pane_tree t)\<rparr>)"
proof -
  let ?t = "t\<lparr>t_pane_tree := upd_pane_state i (\<lambda>_. st) (t_pane_tree t)\<rparr>"
  have ids: "pane_ids (tab_panes ?t) = pane_ids (tab_panes t)" by (simp add: tab_panes_def)
  have "wf_pane p" if p: "p \<in> set (tab_panes ?t)" for p
  proof -
    from p have "p \<in> set (tab_panes t) \<or> (\<exists>q \<in> set (tab_panes t). p = q\<lparr>p_state := st\<rparr>)"
      using set_upd_first [of p "\<lambda>p. p_id p = i" "\<lambda>p. p\<lparr>p_state := st\<rparr>"]
      by (auto simp: tab_panes_def collect_upd_pane_state)
    then show ?thesis
      using wf_tab_of [OF wf t] st by (auto simp: wf_tab_def wf_pane_def)
  qed
  then have "wf_tab ?t"
    using wf_tab_of [OF wf t] by (simp add: wf_tab_def wf_tree_upd_pane_state)
  then show ?thesis
    using tab_panes_distinct [OF wf t] ids
    by (auto simp: tab_step_ok_def simp del: set_map simp flip: set_map)
qed

lemma on_pane_state_wf:
  assumes "wf_core c" "ws_current c = Some ws"
    and body: "\<And>p st r. p \<in> set (all_panes ws) \<Longrightarrow> wf_pane p \<Longrightarrow> body (p_state p) = Some (r, st) \<Longrightarrow>
      length (ps_command_history st) \<le> kMaxCommandHistoryPerPane"
  shows "wf_core (snd (on_pane_state tab pane body quiet ws c))"
proof -
  note wf = wf_coreD [OF assms(1,2)]
  let ?body = "\<lambda>w t. case find_pane (t_pane_tree t) pane of
       None \<Rightarrow> ((False, False), t, id)
     | Some p \<Rightarrow> (case body (p_state p) of
           None \<Rightarrow> ((quiet, False), t, id)
         | Some (r, st) \<Rightarrow>
             ((r, True), t\<lparr>t_pane_tree := upd_pane_state pane (\<lambda>_. st) (t_pane_tree t)\<rparr>, id))"
  have "wf_workspace (ws\<lparr>ws_windows := wins\<rparr>)"
    if v: "visit_windows (visit_tab tab ?body) (ws_windows ws) = Some (x, wins)" for x wins
  proof (rule wf_visit_tab [OF wf v])
    fix w t r t' and g :: "window \<Rightarrow> window"
    assume w: "w \<in> set (ws_windows ws)" "t \<in> set (w_tabs w)" and b: "?body w t = (r, t', g)"
    note t = mem_all_tabs [OF w]
    show "tab_step_ok ws t t' \<and> (\<forall>v. w_id (g v) = w_id v \<and> w_tabs (g v) = w_tabs v)"
    proof (cases "\<exists>p r st. find_pane (t_pane_tree t) pane = Some p \<and> body (p_state p) = Some (r, st)")
      case True
      then obtain p q st where p: "find_pane (t_pane_tree t) pane = Some p" "body (p_state p) = Some (q, st)"
        by blast
      have "p \<in> set (tab_panes t)" using find_pane_SomeD [OF p(1)] by (simp add: tab_panes_def)
      moreover from this have "p \<in> set (all_panes ws)" using t by (auto simp: all_panes_tabs)
      ultimately have "length (ps_command_history st) \<le> kMaxCommandHistoryPerPane"
        using body [OF _ _ p(2)] wf_tab_of [OF wf t] by (simp add: wf_tab_def)
      then show ?thesis using b p state_tab_ok [OF wf t] by auto
    next
      case False
      then have "t' = t \<and> g = id" using b by (auto split: option.splits prod.splits)
      then show ?thesis using tab_step_ok_refl [OF wf t] by simp
    qed
  qed
  then show ?thesis
    using assms(1) by (auto simp: on_pane_state_def split: option.splits)
qed

lemma push_history_length:
  "push_history r hist = Some h \<Longrightarrow> length h \<le> kMaxCommandHistoryPerPane"
  by (auto simp: push_history_def Let_def split: if_splits)

lemma add_command_wf:
  assumes "wf_core c"
  shows "wf_core (snd (add_command_to_pane tab pane r c))"
  using assms
  by (auto simp: add_command_to_pane_def push_history_length intro!: on_pane_state_wf
      split: option.splits)

lemma length_pin_newest [simp]: "length (pin_newest command b h) = length h"
  by (simp add: pin_newest_def)

lemma set_command_pinned_wf:
  assumes "wf_core c"
  shows "wf_core (snd (set_command_pinned tab pane command b c))"
  using assms
  by (auto simp: set_command_pinned_def wf_pane_def intro!: on_pane_state_wf
      split: option.splits if_splits)

lemma apply_runtime_state_wf:
  assumes "wf_core c" "length (rs_command_history snap) \<le> kMaxCommandHistoryPerPane"
  shows "wf_core (apply_runtime_state tab pane snap c)"
  using assms
  by (auto simp: apply_runtime_state_def overlay_runtime_def wf_pane_def intro!: on_pane_state_wf
      split: option.splits)

section \<open>Whole-workspace changes\<close>

lemma tab_panes_map [simp]: "tab_panes (map_tab_panes g t) = map g (tab_panes t)"
  by (simp add: tab_panes_def map_tab_panes_def)

lemma all_tabs_map [simp]:
  "all_tabs (map_workspace_panes g ws) = map (map_tab_panes g) (all_tabs ws)"
  by (simp add: all_tabs_def map_workspace_panes_def map_window_panes_def map_concat comp_def)

lemma all_panes_map [simp]: "all_panes (map_workspace_panes g ws) = map g (all_panes ws)"
  by (simp add: all_panes_tabs map_concat comp_def)

lemma wf_map_workspace_panes:
  assumes "wf_workspace ws" "\<And>p. p_id (g p) = p_id p"
    and "\<And>p. p \<in> set (all_panes ws) \<Longrightarrow> wf_pane p \<Longrightarrow> wf_pane (g p)"
  shows "wf_workspace (map_workspace_panes g ws)"
proof -
  have ids: "tab_ids (map (map_tab_panes g) ts) = tab_ids ts" "pane_ids (map g ps) = pane_ids ps" for ts ps
    by (simp_all add: map_tab_panes_def assms(2) comp_def)
  have w: "map w_id (ws_windows (map_workspace_panes g ws)) = map w_id (ws_windows ws)"
    by (simp add: map_workspace_panes_def map_window_panes_def comp_def)
  have "wf_tab (map_tab_panes g t)" if t: "t \<in> set (all_tabs ws)" for t
  proof -
    have "set (tab_panes t) \<subseteq> set (all_panes ws)" using t by (auto simp: all_panes_tabs)
    then show ?thesis
      using wf_tab_of [OF assms(1) t] assms(3) by (auto simp: wf_tab_def map_tab_panes_def tab_panes_def)
  qed
  moreover have "distinct (tab_ids (all_tabs (map_workspace_panes g ws)))"
    "distinct (pane_ids (all_panes (map_workspace_panes g ws)))"
    using assms(1) unfolding all_tabs_map all_panes_map ids by (simp_all add: wf_workspace_def)
  moreover have "w_id ` set (ws_windows (map_workspace_panes g ws)) = w_id ` set (ws_windows ws)"
    using w by (metis set_map)
  ultimately show ?thesis
    using assms(1) w by (auto simp: wf_workspace_def) (simp_all add: map_workspace_panes_def)
qed

lemma clear_command_history_wf: "wf_core c \<Longrightarrow> wf_core (snd (clear_command_history c))"
  by (auto simp: clear_command_history_def wf_pane_def intro!: wf_map_workspace_panes
      dest: wf_coreD split: option.splits)

lemma open_workspace_wf:
  assumes "wf_core c" "\<And>ws. load_workspace S s i = Some ws \<Longrightarrow> wf_workspace ws"
  shows "wf_core (snd (open_workspace S i (c, s)))"
  using assms
  by (auto simp: open_workspace_def Let_def overlay_blob_def wf_pane_def intro!: wf_map_workspace_panes
      split: option.splits)

lemma checkpoint_wf:
  assumes "wf_core c" "core_checkpoint S now fresh reason (c, s) = (ok, c', s')"
  shows "wf_core c'"
  using assms
  by (auto simp: core_checkpoint_def Let_def wf_core_def wf_workspace_fields
      split: option.splits prod.splits if_splits)

lemma create_snapshot_wf:
  assumes "wf_core c" "create_snapshot S dump now fresh (c, s) = Inr (i, c', s')"
  shows "wf_core c'"
  using assms
  by (auto simp: create_snapshot_def Let_def wf_workspace_fields dest: wf_coreD split: option.splits)

lemma restore_snapshot_wf:
  assumes "wf_core c" "restore_snapshot S snap (c, s) = Inr (ok, c')"
    and "\<And>ws j r. ws_current c = Some ws \<Longrightarrow> load_snapshot S s (ws_id ws) snap = Some j \<Longrightarrow>
      workspace_from_json j = Some r \<Longrightarrow> wf_workspace r"
  shows "wf_core c'"
  using assms by (auto simp: restore_snapshot_def split: option.splits)

lemma persist_wf:
  assumes "wf_core c" "persist S (c, s) = Inr (ok, c', s')"
  shows "wf_core c'"
  using assms by (auto simp: persist_def wf_core_def split: option.splits if_splits)

section \<open>Reachable states\<close>

text \<open>
  One step of the program: an operation of the engine on the engine's state and the store.
  Generated identifiers are new; trees and histories handed in are well-formed.  The operations that
  take a workspace from the store, \<^const>\<open>open_workspace\<close> and \<^const>\<open>restore_snapshot\<close>, are no
  steps: nothing checks what they read, and \<open>Core_Reload\<close> says when it is well-formed.
\<close>

definition fresh_window :: "window_id \<Rightarrow> core \<Rightarrow> bool" where
  "fresh_window i c \<longleftrightarrow>
     (case ws_current c of None \<Rightarrow> True | Some ws \<Rightarrow> i \<notin> set (map w_id (ws_windows ws)))"

definition fresh_tab :: "tab \<Rightarrow> core \<Rightarrow> bool" where
  "fresh_tab t c \<longleftrightarrow> wf_tab t \<and> distinct (pane_ids (tab_panes t)) \<and>
     (case ws_current c of None \<Rightarrow> True
      | Some ws \<Rightarrow> t_id t \<notin> set (tab_ids (all_tabs ws)) \<and>
          set (pane_ids (tab_panes t)) \<inter> set (pane_ids (all_panes ws)) = {})"

definition fresh_pane :: "pane_id \<Rightarrow> core \<Rightarrow> bool" where
  "fresh_pane i c \<longleftrightarrow>
     (case ws_current c of None \<Rightarrow> True | Some ws \<Rightarrow> i \<notin> set (pane_ids (all_panes ws)))"

inductive core_step :: "'s storage \<Rightarrow> core \<times> 's \<Rightarrow> core \<times> 's \<Rightarrow> bool" for S where
  create: "create_workspace S now i name (c, s) = Inr (i, c', s') \<Longrightarrow> core_step S (c, s) (c', s')"
| close: "core_step S (c, s) (snd (close_workspace c), s)"
| rename: "core_step S (c, s) (snd (rename_workspace i name c), s)"
| delete: "core_step S (c, s) (c, snd (core_delete_workspace S i (c, s)))"
| add_window: "fresh_window i c \<Longrightarrow> add_window now i title c = Inr (i, c') \<Longrightarrow> core_step S (c, s) (c', s)"
| remove_window: "core_step S (c, s) (snd (remove_window i c), s)"
| rename_window: "core_step S (c, s) (snd (rename_window i title c), s)"
| focus_window: "core_step S (c, s) (snd (focus_window i c), s)"
| add_tab: "fresh_tab (empty_tab\<lparr>t_id := j, t_pane_tree := tree\<rparr>) c \<Longrightarrow>
     add_tab j i title tree c = Inr (j, c') \<Longrightarrow> core_step S (c, s) (c', s)"
| add_note_tab: "fresh_tab (empty_tab\<lparr>t_id := j\<rparr>) c \<Longrightarrow>
     add_note_tab j i title state c = Inr (j, c') \<Longrightarrow> core_step S (c, s) (c', s)"
| set_note: "core_step S (c, s) (snd (set_tab_note_state i j state c), s)"
| remove_tab: "core_step S (c, s) (snd (remove_tab i j c), s)"
| focus_tab: "core_step S (c, s) (snd (focus_tab i j c), s)"
| split: "fresh_pane p c \<Longrightarrow> split_pane p j k r c = Inr (p, c') \<Longrightarrow> core_step S (c, s) (c', s)"
| remove_pane: "core_step S (c, s) (snd (remove_pane j p c), s)"
| focus_pane: "core_step S (c, s) (snd (focus_pane j p c), s)"
| ratio: "core_step S (c, s) (snd (set_pane_ratio j p r c), s)"
| add_command: "core_step S (c, s) (snd (add_command_to_pane j p rec c), s)"
| clear_history: "core_step S (c, s) (snd (clear_command_history c), s)"
| pin: "core_step S (c, s) (snd (set_command_pinned j p command b c), s)"
| runtime: "length (rs_command_history snap) \<le> kMaxCommandHistoryPerPane \<Longrightarrow>
     core_step S (c, s) (apply_runtime_state j p snap c, s)"
| checkpoint: "core_checkpoint S now i reason (c, s) = (ok, c', s') \<Longrightarrow> core_step S (c, s) (c', s')"
| snapshot: "create_snapshot S dump now i (c, s) = Inr (i, c', s') \<Longrightarrow> core_step S (c, s) (c', s')"
| persist: "persist S (c, s) = Inr (ok, c', s') \<Longrightarrow> core_step S (c, s) (c', s')"

inductive_cases core_stepE: "core_step S (c, s) (c', s')"

lemma fresh_windowD: "fresh_window i c \<Longrightarrow> ws_current c = Some ws \<Longrightarrow> i \<notin> w_id ` set (ws_windows ws)"
  by (simp add: fresh_window_def)

lemma fresh_tabD:
  assumes "fresh_tab t c" "ws_current c = Some ws"
  shows "t_id t \<notin> set (tab_ids (all_tabs ws)) \<and> set (pane_ids (tab_panes t)) \<inter> set (pane_ids (all_panes ws)) = {}"
  using assms by (simp add: fresh_tab_def)

lemma fresh_paneD: "fresh_pane i c \<Longrightarrow> ws_current c = Some ws \<Longrightarrow> i \<notin> p_id ` set (all_panes ws)"
  by (simp add: fresh_pane_def)

lemma insert_fresh_tab_wf:
  assumes "wf_core c" "insert_tab i t c = Inr (j, c')" "fresh_tab t c"
  shows "wf_core c'"
  by (rule insert_tab_wf [OF assms(1,2) _ _ fresh_tabD [OF assms(3)]])
    (use assms(3) in \<open>simp_all add: fresh_tab_def\<close>)

lemma add_tab_wf:
  assumes "wf_core c" "fresh_tab (empty_tab\<lparr>t_id := j, t_pane_tree := tree\<rparr>) c"
    "add_tab j i title tree c = Inr (j', c')"
  shows "wf_core c'"
proof -
  let ?t = "(Tab_create (if title = '''' then ''tab'' else title) j)\<lparr>t_pane_tree := tree\<rparr>"
  have "fresh_tab ?t c"
    using assms(2)
    by (auto simp: fresh_tab_def Tab_create_def empty_tab_def wf_tab_def tab_panes_def split: option.splits)
  then show ?thesis
    by (rule insert_fresh_tab_wf [OF assms(1) assms(3) [unfolded add_tab_def]])
qed

lemma add_note_tab_wf:
  assumes "wf_core c" "fresh_tab (empty_tab\<lparr>t_id := j\<rparr>) c" "add_note_tab j i title st c = Inr (j', c')"
  shows "wf_core c'"
proof -
  let ?t = "(Tab_create (if title = '''' then ''note'' else title) j)\<lparr>t_kind := Note, t_note_state := Some st\<rparr>"
  have "fresh_tab ?t c"
    using assms(2)
    by (auto simp: fresh_tab_def Tab_create_def empty_tab_def wf_tab_def tab_panes_def split: option.splits)
  then show ?thesis
    by (rule insert_fresh_tab_wf [OF assms(1) assms(3) [unfolded add_note_tab_def]])
qed

lemmas core_ops_wf =
  close_workspace_wf rename_workspace_wf remove_window_wf rename_window_wf focus_window_wf
  set_tab_note_state_wf remove_tab_wf focus_tab_wf remove_pane_wf_core focus_pane_wf
  set_pane_ratio_wf add_command_wf clear_command_history_wf set_command_pinned_wf
  apply_runtime_state_wf open_workspace_wf

lemma core_step_preserves: "core_step S x y \<Longrightarrow> wf_core (fst x) \<Longrightarrow> wf_core (fst y)"
proof (induction rule: core_step.induct)
  case (create now i name c s c' s')
  then show ?case by (auto dest: create_workspace_wf)
next
  case (add_window i c now title c' s)
  then show ?case using add_window_wf [of c now i title i c'] fresh_windowD by auto
next
  case (split p c j k r c' s)
  then show ?case using split_pane_wf [of c p j k r p c'] fresh_paneD by auto
next
  case (add_tab j tree c i title c' s)
  then show ?case using add_tab_wf by auto
next
  case (add_note_tab j c i title state c' s)
  then show ?case using add_note_tab_wf by auto
qed (auto simp: core_ops_wf dest: checkpoint_wf create_snapshot_wf persist_wf)

lemma core_steps_preserve: "(core_step S)\<^sup>*\<^sup>* x y \<Longrightarrow> wf_core (fst x) \<Longrightarrow> wf_core (fst y)"
  by (induction rule: rtranclp_induct) (auto dest: core_step_preserves)

lemma wf_initial [simp]: "wf_core initial_core"
  by (simp add: wf_core_def initial_core_def)

end
