(* ===== verification/Core_Lookup.thy ===== *)
theory Core_Lookup
  imports Core_Invariants
begin

text \<open>
  The engine's tab and pane operations seen through lookups: what the first tab with an identifier
  is before and after the loops that rewrite it.
\<close>

fun find_tab_in :: "tab_id \<Rightarrow> window list \<Rightarrow> (window \<times> tab) option" where
  "find_tab_in i [] = None"
| "find_tab_in i (w # ws) =
     (case find (\<lambda>t. t_id t = i) (w_tabs w) of Some t \<Rightarrow> Some (w, t) | None \<Rightarrow> find_tab_in i ws)"

definition find_tab :: "tab_id \<Rightarrow> core \<Rightarrow> (window \<times> tab) option" where
  "find_tab i c = (case ws_current c of None \<Rightarrow> None | Some ws \<Rightarrow> find_tab_in i (ws_windows ws))"

text \<open>The tab with an identifier, and its panes in depth-first order.\<close>

definition the_tab :: "tab_id \<Rightarrow> core \<Rightarrow> tab option" where
  "the_tab i c = map_option snd (find_tab i c)"

definition the_panes :: "tab_id \<Rightarrow> core \<Rightarrow> pane list option" where
  "the_panes i c = map_option tab_panes (the_tab i c)"

lemma find_tab_in_all: "map_option snd (find_tab_in i ws) = find (\<lambda>t. t_id t = i) (concat (map w_tabs ws))"
  by (induction ws) (auto simp: find_append split: option.splits)

lemma find_tab_inD: "find_tab_in i ws = Some (w, t) \<Longrightarrow> w \<in> set ws \<and> t \<in> set (w_tabs w) \<and> t_id t = i"
  by (induction ws) (auto split: option.splits dest: find_Some_set)

lemma find_upd_first_same:
  "find P xs = Some x \<Longrightarrow> P y \<Longrightarrow> find P (upd_first P (\<lambda>_. y) xs) = Some y"
  by (induction xs) (auto split: if_splits)

lemma find_upd_first_other:
  "(\<And>z. P z \<Longrightarrow> \<not> Q z) \<Longrightarrow> \<not> Q y \<Longrightarrow> find Q (upd_first P (\<lambda>_. y) xs) = find Q xs"
  by (induction xs) auto

lemma visit_tab_hit:
  assumes "find (\<lambda>t. t_id t = i) (w_tabs w) = Some t" "body w t = (r, t', g)"
  shows "visit_tab i body w = Some (r, g (w\<lparr>w_tabs := upd_first (\<lambda>t. t_id t = i) (\<lambda>_. t') (w_tabs w)\<rparr>))"
proof -
  have "find (\<lambda>t. t_id t = i) ts = Some t \<Longrightarrow>
      visit_tabs (\<lambda>t. if t_id t \<noteq> i then None else let (r, t', g) = body w t in Some ((r, g), t')) ts =
        Some ((r, g), upd_first (\<lambda>t. t_id t = i) (\<lambda>_. t') ts)" for ts
    using assms(2) by (induction ts) (auto split: if_splits)
  from this [OF assms(1)] show ?thesis by (simp add: visit_tab_def)
qed

lemma visit_hit:
  assumes "find_tab_in i ws = Some (w, t)" "body w t = (r, t', g)" "t_id t' = i" "\<And>v. w_tabs (g v) = w_tabs v"
  shows "\<exists>ws' ts. visit_windows (visit_tab i body) ws = Some (r, ws') \<and>
    find_tab_in i ws' = Some (g (w\<lparr>w_tabs := ts\<rparr>), t') \<and>
    (\<forall>j. j \<noteq> i \<longrightarrow> map_option snd (find_tab_in j ws') = map_option snd (find_tab_in j ws))"
  using assms(1)
proof (induction ws)
  case (Cons u ws)
  show ?case
  proof (cases "find (\<lambda>t. t_id t = i) (w_tabs u)")
    case None
    then have "visit_tab i body u = None" by (auto simp: visit_tab_None_iff find_None_iff_set)
    moreover from None Cons.prems have "find_tab_in i ws = Some (w, t)" by simp
    from Cons.IH [OF this] obtain ws' ts where
      "visit_windows (visit_tab i body) ws = Some (r, ws')" "find_tab_in i ws' = Some (g (w\<lparr>w_tabs := ts\<rparr>), t')"
      "\<forall>j. j \<noteq> i \<longrightarrow> map_option snd (find_tab_in j ws') = map_option snd (find_tab_in j ws)" by blast
    ultimately show ?thesis
      using None by (intro exI [of _ "u # ws'"] exI [of _ ts]) (auto split: option.splits)
  next
    case (Some x)
    with Cons.prems have x: "x = t" "w = u" by auto
    let ?ts = "upd_first (\<lambda>t. t_id t = i) (\<lambda>_. t') (w_tabs u)"
    have f: "find (\<lambda>t. t_id t = i) ?ts = Some t'" using find_upd_first_same [OF Some] assms(3) by simp
    have "j \<noteq> i \<Longrightarrow> find (\<lambda>t. t_id t = j) ?ts = find (\<lambda>t. t_id t = j) (w_tabs u)" for j
      using assms(3) by (intro find_upd_first_other) auto
    note f = f this
    show ?thesis
      using visit_tab_hit [of i u t body] Some assms(2,4) x f
      by (intro exI [of _ "g (u\<lparr>w_tabs := ?ts\<rparr>) # ws"] exI [of _ ?ts]) (auto split: option.splits)
  qed
qed simp

lemma visit_miss: "find_tab_in i ws = None \<Longrightarrow> visit_windows (visit_tab i body) ws = None"
proof (induction ws)
  case (Cons u ws)
  then have "find (\<lambda>t. t_id t = i) (w_tabs u) = None" "find_tab_in i ws = None"
    by (auto split: option.splits)
  moreover from this have "visit_tab i body u = None" by (auto simp: visit_tab_None_iff find_None_iff_set)
  ultimately show ?case using Cons.IH by simp
qed simp

lemma find_tab_SomeD: "find_tab i c = Some (w, t) \<Longrightarrow> \<exists>ws. ws_current c = Some ws \<and>
    find_tab_in i (ws_windows ws) = Some (w, t)"
  by (auto simp: find_tab_def split: option.splits)

lemma find_tab_emit [simp]: "find_tab i (emit ty ws w t p c) = find_tab i c"
  by (simp add: find_tab_def emit_def)

lemma find_tab_dirty [simp]: "find_tab i (mark_dirty c) = find_tab i c"
  by (simp add: find_tab_def mark_dirty_def Let_def emit_def split: option.splits)

lemma find_tab_set [simp]: "find_tab i (c\<lparr>ws_current := Some ws\<rparr>) = find_tab_in i (ws_windows ws)"
  by (simp add: find_tab_def)

lemma dirty_mark_dirty [simp]: "ws_dirty (mark_dirty c)"
  by (simp add: mark_dirty_def Let_def emit_def split: option.splits)

lemma dirty_emit [simp]: "ws_dirty (emit ty ws w t p c) = ws_dirty c"
  by (simp add: emit_def)

lemma history_the_tab: "get_pane_command_history tab pane c =
    (case the_tab tab c of None \<Rightarrow> [] | Some t \<Rightarrow> (case find_pane (t_pane_tree t) pane of
       None \<Rightarrow> [] | Some p \<Rightarrow> ps_command_history (p_state p)))"
  by (simp add: get_pane_command_history_def the_tab_def find_tab_def all_tabs_def find_tab_in_all [symmetric]
      split: option.splits)

section \<open>Operations on the panes of a tab\<close>

lemma split_pane_found:
  assumes "find_tab tab c = Some (w, t)"
  shows "\<exists>c' w' t'. split_pane fresh tab k r c = Inr (fresh, c') \<and> ws_dirty c' \<and>
    find_tab tab c' = Some (w', t') \<and> w_id w' = w_id w \<and> w_focus_pane_id w' = Some fresh \<and>
    t_pane_tree t' = split_tree k r \<lparr>p_id = fresh, p_state = empty_pane_state\<rparr> (w_focus_pane_id w) (t_pane_tree t) \<and>
    (\<forall>j. j \<noteq> tab \<longrightarrow> the_tab j c' = the_tab j c)"
proof -
  obtain ws where ws: "ws_current c = Some ws" "find_tab_in tab (ws_windows ws) = Some (w, t)"
    using find_tab_SomeD [OF assms] by blast
  let ?t = "t\<lparr>t_pane_tree := split_tree k r \<lparr>p_id = fresh, p_state = empty_pane_state\<rparr>
    (w_focus_pane_id w) (t_pane_tree t)\<rparr>"
  let ?body = "\<lambda>w t. (w_id w,
      t\<lparr>t_pane_tree := split_tree k r \<lparr>p_id = fresh, p_state = empty_pane_state\<rparr>
          (w_focus_pane_id w) (t_pane_tree t)\<rparr>, \<lambda>w. w\<lparr>w_focus_pane_id := Some fresh\<rparr>)"
  have "t_id t = tab" using find_tab_inD [OF ws(2)] by simp
  then obtain wins ts where v: "visit_windows (visit_tab tab ?body) (ws_windows ws) = Some (w_id w, wins)"
    "find_tab_in tab wins = Some (w\<lparr>w_tabs := ts, w_focus_pane_id := Some fresh\<rparr>, ?t)"
    "\<forall>j. j \<noteq> tab \<longrightarrow> map_option snd (find_tab_in j wins) = map_option snd (find_tab_in j (ws_windows ws))"
    using visit_hit [OF ws(2), of ?body] by auto
  have c: "find_tab j c = find_tab_in j (ws_windows ws)" for j by (simp add: find_tab_def ws)
  show ?thesis
    using ws v by (simp add: split_pane_def the_tab_def c)
qed

lemma core_remove_pane_found:
  assumes "find_tab tab c = Some (w, t)" "remove_pane_from_tree (t_pane_tree t) pane = (True, tree)"
  shows "\<exists>c' w' t'. remove_pane tab pane c = (True, c') \<and> ws_dirty c' \<and> find_tab tab c' = Some (w', t') \<and>
    w_id w' = w_id w \<and> t_pane_tree t' = tree \<and> (\<forall>j. j \<noteq> tab \<longrightarrow> the_tab j c' = the_tab j c)"
proof -
  obtain ws where ws: "ws_current c = Some ws" "find_tab_in tab (ws_windows ws) = Some (w, t)"
    using find_tab_SomeD [OF assms(1)] by blast
  let ?g = "\<lambda>w. if w_focus_pane_id w = Some pane then w\<lparr>w_focus_pane_id := None\<rparr> else w"
  let ?body = "\<lambda>w t. let (removed, tree) = remove_pane_from_tree (t_pane_tree t) pane
     in if \<not> removed then (None, t, id) else (Some (w_id w), t\<lparr>t_pane_tree := tree\<rparr>, ?g)"
  have "t_id t = tab" using find_tab_inD [OF ws(2)] by simp
  then have id: "t_id (t\<lparr>t_pane_tree := tree\<rparr>) = tab" by simp
  have b: "?body w t = (Some (w_id w), t\<lparr>t_pane_tree := tree\<rparr>, ?g)" by (simp add: assms(2))
  have g: "w_tabs (?g v) = w_tabs v" for v by simp
  obtain wins ts where v: "visit_windows (visit_tab tab ?body) (ws_windows ws) = Some (Some (w_id w), wins)"
    "find_tab_in tab wins = Some (?g (w\<lparr>w_tabs := ts\<rparr>), t\<lparr>t_pane_tree := tree\<rparr>)"
    "\<forall>j. j \<noteq> tab \<longrightarrow> map_option snd (find_tab_in j wins) = map_option snd (find_tab_in j (ws_windows ws))"
    using visit_hit [where body = ?body, OF ws(2) b id g] by blast
  have c: "find_tab j c = find_tab_in j (ws_windows ws)" for j by (simp add: find_tab_def ws)
  show ?thesis
    unfolding remove_pane_def ws(1) option.case v(1) prod.case
    using v(2,3) by (simp add: the_tab_def c)
qed

lemma set_pane_ratio_result:
  "fst (set_pane_ratio tab pane q c) \<longleftrightarrow> \<not> dbl_less q (Fin 0) \<and> \<not> dbl_less (Fin 1) q \<and>
     (\<exists>t. the_tab tab c = Some t \<and> fst (set_split_ratio (t_pane_tree t) pane q))"
  "fst (set_pane_ratio tab pane q c) \<Longrightarrow> the_tab tab c = Some t \<Longrightarrow>
     \<exists>t'. the_tab tab (snd (set_pane_ratio tab pane q c)) = Some t' \<and>
       t_pane_tree t' = snd (set_split_ratio (t_pane_tree t) pane q)"
proof -
  let ?body = "\<lambda>w t. if dbl_less q (Fin 0) \<or> dbl_less (Fin 1) q then (None, t, id)
     else let (found, tree) = set_split_ratio (t_pane_tree t) pane q
          in if \<not> found then (None, t, id) else (Some (w_id w), t\<lparr>t_pane_tree := tree\<rparr>, id)"
  have "(fst (set_pane_ratio tab pane q c) \<longleftrightarrow> \<not> dbl_less q (Fin 0) \<and> \<not> dbl_less (Fin 1) q \<and>
     (\<exists>t. the_tab tab c = Some t \<and> fst (set_split_ratio (t_pane_tree t) pane q))) \<and>
    (fst (set_pane_ratio tab pane q c) \<longrightarrow> (\<forall>t. the_tab tab c = Some t \<longrightarrow>
     (\<exists>t'. the_tab tab (snd (set_pane_ratio tab pane q c)) = Some t' \<and>
       t_pane_tree t' = snd (set_split_ratio (t_pane_tree t) pane q))))"
  proof (cases "ws_current c")
    case None
    then show ?thesis by (simp add: set_pane_ratio_def the_tab_def find_tab_def)
  next
    case (Some ws)
    have c: "find_tab j c = find_tab_in j (ws_windows ws)" for j by (simp add: find_tab_def Some)
    show ?thesis
    proof (cases "find_tab_in tab (ws_windows ws)")
      case None
      have "visit_windows (visit_tab tab ?body) (ws_windows ws) = None" by (rule visit_miss [OF None])
      then have "set_pane_ratio tab pane q c = (False, c)"
        unfolding set_pane_ratio_def Some option.case by (simp only: option.case)
      then show ?thesis by (simp add: the_tab_def c None)
    next
      case (Some wt)
      obtain w t where wt: "find_tab_in tab (ws_windows ws) = Some (w, t)" using Some by (cases wt) auto
      have id: "t_id t = tab" using find_tab_inD [OF wt] by simp
      define res where "res = fst (?body w t)"
      define t' where "t' = fst (snd (?body w t))"
      have b: "?body w t = (res, t', id)" "t_id t' = tab"
        "res \<noteq> None \<longleftrightarrow> \<not> dbl_less q (Fin 0) \<and> \<not> dbl_less (Fin 1) q \<and> fst (set_split_ratio (t_pane_tree t) pane q)"
        "res \<noteq> None \<Longrightarrow> t_pane_tree t' = snd (set_split_ratio (t_pane_tree t) pane q)"
        using id by (simp_all add: res_def t'_def split_beta split: if_splits)
      from visit_hit [where body = ?body, OF wt b(1,2)] obtain wins ts where
        v: "visit_windows (visit_tab tab ?body) (ws_windows ws) = Some (res, wins)"
          "find_tab_in tab wins = Some (w\<lparr>w_tabs := ts\<rparr>, t')" by auto
      have e: "set_pane_ratio tab pane q c = (case res of None \<Rightarrow> (False, c) | Some wid \<Rightarrow>
          (True, emit PaneResized (ws_id ws) (Some wid) (Some tab) (Some pane)
             (mark_dirty (c\<lparr>ws_current := Some (ws\<lparr>ws_windows := wins\<rparr>)\<rparr>))))"
        unfolding set_pane_ratio_def \<open>ws_current c = Some ws\<close> option.case v(1) prod.case by (cases res) simp_all
      show ?thesis
        unfolding e using v(2) b(3,4) wt by (cases res) (simp_all add: the_tab_def c)
    qed
  qed
  then show "fst (set_pane_ratio tab pane q c) \<longleftrightarrow> \<not> dbl_less q (Fin 0) \<and> \<not> dbl_less (Fin 1) q \<and>
     (\<exists>t. the_tab tab c = Some t \<and> fst (set_split_ratio (t_pane_tree t) pane q))"
   "fst (set_pane_ratio tab pane q c) \<Longrightarrow> the_tab tab c = Some t \<Longrightarrow>
     \<exists>t'. the_tab tab (snd (set_pane_ratio tab pane q c)) = Some t' \<and>
       t_pane_tree t' = snd (set_split_ratio (t_pane_tree t) pane q)" by blast+
qed

text \<open>An operation on a pane's state, when the tab and the pane exist.\<close>

lemma on_pane_state_found:
  assumes "ws_current c = Some ws" "the_tab tab c = Some t" "find_pane (t_pane_tree t) pane = Some p"
  shows "case body (p_state p) of
      None \<Rightarrow> on_pane_state tab pane body quiet ws c = (quiet, c)
    | Some (r, st) \<Rightarrow> fst (on_pane_state tab pane body quiet ws c) = r \<and>
        ws_dirty (snd (on_pane_state tab pane body quiet ws c)) \<and>
        (\<exists>t'. the_tab tab (snd (on_pane_state tab pane body quiet ws c)) = Some t' \<and>
          t_pane_tree t' = upd_pane_state pane (\<lambda>_. st) (t_pane_tree t))"
proof -
  let ?body = "\<lambda>w t. case find_pane (t_pane_tree t) pane of
       None \<Rightarrow> ((False, False), t, id)
     | Some p \<Rightarrow> (case body (p_state p) of
           None \<Rightarrow> ((quiet, False), t, id)
         | Some (r, st) \<Rightarrow>
             ((r, True), t\<lparr>t_pane_tree := upd_pane_state pane (\<lambda>_. st) (t_pane_tree t)\<rparr>, id))"
  obtain w where w: "find_tab_in tab (ws_windows ws) = Some (w, t)"
    using assms(1,2) by (auto simp: the_tab_def find_tab_def)
  have id: "t_id t = tab" using find_tab_inD [OF w] by simp
  show ?thesis
  proof (cases "body (p_state p)")
    case None
    then have "?body w t = ((quiet, False), t, id)" by (simp add: assms(3))
    from visit_hit [where body = ?body, OF w this id] obtain wins where
      "visit_windows (visit_tab tab ?body) (ws_windows ws) = Some ((quiet, False), wins)" by auto
    then show ?thesis using None by (simp add: on_pane_state_def)
  next
    case (Some x)
    obtain r st where x: "x = (r, st)" by fastforce
    let ?t = "t\<lparr>t_pane_tree := upd_pane_state pane (\<lambda>_. st) (t_pane_tree t)\<rparr>"
    have "?body w t = ((r, True), ?t, id)" by (simp add: assms(3) Some x)
    from visit_hit [where body = ?body, OF w this] id obtain wins ts where
      "visit_windows (visit_tab tab ?body) (ws_windows ws) = Some ((r, True), wins)"
      "find_tab_in tab wins = Some (w\<lparr>w_tabs := ts\<rparr>, ?t)" by auto
    then show ?thesis by (simp add: on_pane_state_def Some x the_tab_def)
  qed
qed

lemma find_upd_state:
  assumes "find_pane tr pane = Some p"
  shows "find_pane (upd_pane_state pane (\<lambda>_. st) tr) pane = Some (p\<lparr>p_state := st\<rparr>)"
proof -
  have "find (\<lambda>p. p_id p = pane) xs = Some p \<Longrightarrow>
      find (\<lambda>p. p_id p = pane) (upd_first (\<lambda>p. p_id p = pane) (\<lambda>p. p\<lparr>p_state := st\<rparr>) xs) = Some (p\<lparr>p_state := st\<rparr>)" for xs
    by (induction xs) (auto split: if_splits)
  then show ?thesis using assms by (simp add: find_pane_collect collect_upd_pane_state)
qed

end
