(* ===== verification/Sqlite_Storage.thy ===== *)
theory Sqlite_Storage
  imports Serialization Storage_Api
begin

text \<open>
  \<^verbatim>\<open>storage/sqlite/sqlite_db.hpp\<close>, \<^verbatim>\<open>sqlite_db.cpp\<close>, \<^verbatim>\<open>storage/storage.hpp\<close> and
  \<^verbatim>\<open>storage/storage.cpp\<close>: the SQLite implementation of the store.  SQLite is a library outside
  the repository; of it the model has the documented meaning of the statements the code runs
  (insert, upsert, delete, select, transactions, \<^verbatim>\<open>NOT NULL\<close> and primary keys) on tables that
  are lists of rows, and an oracle of faults: \<open>db_faults\<close> says of the next statements that
  write whether SQLite reports an error.  JSON text is a pair of parameters \<open>dump\<close>, \<open>parse\<close>.
\<close>

section \<open>Statements\<close>

text \<open>\<^verbatim>\<open>sqlite3_bind_text(..., s.c_str(), -1, ...)\<close> binds the text up to the first NUL (\<^const>\<open>cstr\<close>).\<close>

definition sql_upsert :: "('r \<Rightarrow> 'k) \<Rightarrow> ('r \<Rightarrow> 'r \<Rightarrow> 'r) \<Rightarrow> 'r \<Rightarrow> 'r list \<Rightarrow> 'r list" where
  "sql_upsert key merge row t =
     (if \<exists>r \<in> set t. key r = key row then upd_first (\<lambda>r. key r = key row) (\<lambda>r. merge r row) t
      else t @ [row])"

definition sql_insert :: "('r \<Rightarrow> 'k) \<Rightarrow> 'r \<Rightarrow> 'r list \<Rightarrow> 'r list option" where
  "sql_insert key row t = (if \<exists>r \<in> set t. key r = key row then None else Some (t @ [row]))"

definition sql_delete :: "('r \<Rightarrow> bool) \<Rightarrow> 'r list \<Rightarrow> 'r list" where
  "sql_delete P t = filter (\<lambda>r. \<not> P r) t"

section \<open>Schema\<close>

record workspace_row =
  wr_id :: string
  wr_name :: string
  wr_working_directory :: string
  wr_created_at :: string
  wr_last_saved_at :: string
  wr_json :: string

record snapshot_row =
  sr_id :: string
  sr_workspace_id :: string
  sr_timestamp :: string
  sr_revision :: i32
  sr_size_bytes :: i64
  sr_state_json :: string
  sr_schema_version :: i32
  sr_generation :: i64
  sr_reason :: string

record scrollback_row =
  sb_pane_id :: string
  sb_content :: string
  sb_updated_at :: string

record terminal_row =
  tr_pane_id :: string
  tr_content :: bytes
  tr_version :: int
  tr_updated_at :: string

record closed_row =
  cl_id :: string
  cl_workspace_id :: string
  cl_window_id :: string
  cl_label :: string
  cl_closed_at :: string
  cl_state_json :: string
  cl_generation :: i64

record tables =
  tb_workspaces :: "workspace_row list"
  tb_snapshots :: "snapshot_row list"
  tb_scrollbacks :: "scrollback_row list"
  tb_terminal_snapshots :: "terminal_row list"
  tb_closed_windows :: "closed_row list"
  tb_history_annotations :: "history_annotation list"

definition empty_tables :: tables where
  "empty_tables = \<lparr>tb_workspaces = [], tb_snapshots = [], tb_scrollbacks = [],
     tb_terminal_snapshots = [], tb_closed_windows = [], tb_history_annotations = []\<rparr>"

section \<open>The connection\<close>

text \<open>
  \<open>db_journal\<close> holds the tables at \<^verbatim>\<open>BEGIN\<close> while a transaction is open; \<open>durable\<close> is what a
  crash leaves.  \<open>db_lock\<close> counts the calls of \<^verbatim>\<open>lock\<close> on the recursive mutex minus those of
  \<^verbatim>\<open>unlock\<close>; unlocking a mutex one does not hold (a count below zero) is undefined behaviour.
  \<open>db_busy\<close> says of the next commits that fail whether they were refused as busy, which leaves the
  transaction open; any other error of a commit makes SQLite roll back.
\<close>

record sqlite =
  db_tables :: tables
  db_journal :: "tables option"
  db_faults :: "bool list"
  db_busy :: "bool list"
  db_lock :: int
  sq_ok :: bool

definition initialize_db :: "bool \<Rightarrow> bool \<Rightarrow> tables \<Rightarrow> sqlite" where
  "initialize_db opened schema_created ts =
     \<lparr>db_tables = ts, db_journal = None, db_faults = [], db_busy = [], db_lock = 0, sq_ok = opened \<and> schema_created\<rparr>"

definition durable :: "sqlite \<Rightarrow> tables" where
  "durable d = (case db_journal d of Some t \<Rightarrow> t | None \<Rightarrow> db_tables d)"

definition next_fault :: "sqlite \<Rightarrow> bool \<times> sqlite" where
  "next_fault d = (case db_faults d of [] \<Rightarrow> (False, d) | f # fs \<Rightarrow> (f, d\<lparr>db_faults := fs\<rparr>))"

text \<open>\<^verbatim>\<open>sqlite3_step(stmt) == SQLITE_DONE\<close> for a statement that writes.\<close>

definition run_stmt :: "(tables \<Rightarrow> tables option) \<Rightarrow> sqlite \<Rightarrow> bool \<times> sqlite" where
  "run_stmt stmt d =
     (let (fault, d) = next_fault d
      in if fault then (False, d)
         else case stmt (db_tables d) of
                None \<Rightarrow> (False, d)
              | Some t \<Rightarrow> (True, d\<lparr>db_tables := t\<rparr>))"

fun run_stmts :: "(tables \<Rightarrow> tables option) list \<Rightarrow> sqlite \<Rightarrow> bool \<times> sqlite" where
  "run_stmts [] d = (True, d)"
| "run_stmts (s # ss) d =
     (case run_stmt s d of (ok, d) \<Rightarrow> if ok then run_stmts ss d else (False, d))"

definition lock :: "sqlite \<Rightarrow> sqlite" where
  "lock d = d\<lparr>db_lock := db_lock d + 1\<rparr>"

definition unlock :: "sqlite \<Rightarrow> sqlite" where
  "unlock d = d\<lparr>db_lock := db_lock d - 1\<rparr>"

section \<open>Transactions\<close>

record transaction =
  tx_ok :: bool
  tx_committed :: bool

definition tx_begin :: "sqlite \<Rightarrow> transaction \<times> sqlite" where
  "tx_begin d =
     (let (fault, d) = next_fault (lock d)
      in if fault \<or> db_journal d \<noteq> None then (\<lparr>tx_ok = False, tx_committed = False\<rparr>, d)
         else (\<lparr>tx_ok = True, tx_committed = False\<rparr>, d\<lparr>db_journal := Some (db_tables d)\<rparr>))"

definition failed_commit :: "sqlite \<Rightarrow> sqlite" where
  "failed_commit d =
     (case db_busy d of
        True # bs \<Rightarrow> d\<lparr>db_busy := bs\<rparr>
      | False # bs \<Rightarrow> d\<lparr>db_busy := bs, db_tables := durable d, db_journal := None\<rparr>
      | [] \<Rightarrow> d\<lparr>db_tables := durable d, db_journal := None\<rparr>)"

definition tx_commit :: "transaction \<times> sqlite \<Rightarrow> bool \<times> transaction \<times> sqlite" where
  "tx_commit = (\<lambda>(tx, d).
     if \<not> tx_ok tx \<or> tx_committed tx then (False, tx, d)
     else let (fault, d) = next_fault d
          in if fault then (False, tx\<lparr>tx_ok := False\<rparr>, failed_commit d)
             else (True, tx\<lparr>tx_committed := True\<rparr>, unlock (d\<lparr>db_journal := None\<rparr>)))"

definition tx_rollback :: "transaction \<times> sqlite \<Rightarrow> transaction \<times> sqlite" where
  "tx_rollback = (\<lambda>(tx, d).
     if \<not> tx_ok tx \<or> tx_committed tx then (tx, d)
     else (tx\<lparr>tx_ok := False\<rparr>, unlock (d\<lparr>db_tables := durable d, db_journal := None\<rparr>)))"

definition tx_destroy :: "transaction \<times> sqlite \<Rightarrow> sqlite" where
  "tx_destroy = (\<lambda>(tx, d).
     let (tx, d) = (if tx_ok tx \<and> \<not> tx_committed tx then tx_rollback (tx, d) else (tx, d))
     in unlock d)"

section \<open>Checkpoint\<close>

definition workspace_upsert :: "workspace_row \<Rightarrow> tables \<Rightarrow> tables option" where
  "workspace_upsert row ts = Some (ts\<lparr>tb_workspaces := sql_upsert wr_id
     (\<lambda>old new. old\<lparr>wr_name := wr_name new, wr_working_directory := wr_working_directory new,
        wr_last_saved_at := wr_last_saved_at new, wr_json := wr_json new\<rparr>) row (tb_workspaces ts)\<rparr>)"

text \<open>No bytes are bound as \<^verbatim>\<open>NULL\<close>, which the column refuses.\<close>

definition blob_upsert :: "time_point \<Rightarrow> pane_id \<Rightarrow> bytes \<Rightarrow> tables \<Rightarrow> tables option" where
  "blob_upsert now pane data ts =
     (if data = [] then None
      else Some (ts\<lparr>tb_terminal_snapshots := sql_upsert tr_pane_id
             (\<lambda>old new. old\<lparr>tr_content := tr_content new, tr_version := tr_version new,
                tr_updated_at := tr_updated_at new\<rparr>)
             \<lparr>tr_pane_id = cstr (id_str pane), tr_content = data, tr_version = 1,
              tr_updated_at = to_iso8601 now\<rparr> (tb_terminal_snapshots ts)\<rparr>))"

definition snapshot_insert :: "snapshot_row \<Rightarrow> tables \<Rightarrow> tables option" where
  "snapshot_insert row ts =
     map_option (\<lambda>t. ts\<lparr>tb_snapshots := t\<rparr>)
       (sql_insert (\<lambda>r. (sr_workspace_id r, sr_id r)) row (tb_snapshots ts))"

definition count_snapshots :: "string \<Rightarrow> tables \<Rightarrow> nat" where
  "count_snapshots wid ts = length (filter (\<lambda>r. sr_workspace_id r = wid) (tb_snapshots ts))"

definition checkpoint_workspace_row :: "time_point \<Rightarrow> workspace_id \<Rightarrow> string \<Rightarrow> string \<Rightarrow> string \<Rightarrow> string \<Rightarrow>
    workspace_row" where
  "checkpoint_workspace_row now wid text name wd created =
     \<lparr>wr_id = cstr (id_str wid), wr_name = cstr name, wr_working_directory = cstr wd,
      wr_created_at = cstr created, wr_last_saved_at = to_iso8601 now, wr_json = cstr text\<rparr>"

text \<open>The row's revision is the number of the workspace's snapshots plus one.\<close>

definition checkpoint_snapshot_row :: "time_point \<Rightarrow> snapshot_id \<Rightarrow> workspace_id \<Rightarrow> string \<Rightarrow> i32 \<Rightarrow> i64 \<Rightarrow>
    string \<Rightarrow> tables \<Rightarrow> snapshot_row" where
  "checkpoint_snapshot_row now snap_id wid text schema_version generation reason ts =
     \<lparr>sr_id = cstr (id_str snap_id), sr_workspace_id = cstr (id_str wid),
      sr_timestamp = to_iso8601 now,
      sr_revision = of_nat (count_snapshots (cstr (id_str wid)) ts) + 1,
      sr_size_bytes = of_nat (length text), sr_state_json = cstr text,
      sr_schema_version = schema_version, sr_generation = generation, sr_reason = cstr reason\<rparr>"

text \<open>
  The statements of a checkpoint under its transaction: the first that fails rolls back;
  otherwise commit.  The destructor runs on every path.
\<close>

definition tx_run :: "(tables \<Rightarrow> tables option) list \<Rightarrow> transaction \<times> sqlite \<Rightarrow> bool \<times> sqlite" where
  "tx_run stmts = (\<lambda>(tx, d).
     let (written, d) = run_stmts stmts d
     in if \<not> written then (False, tx_destroy (tx_rollback (tx, d)))
        else let (ok, txd) = tx_commit (tx, d) in (ok, tx_destroy txd))"

definition sqlite_checkpoint :: "(json \<Rightarrow> string option) \<Rightarrow> time_point \<Rightarrow> snapshot_id \<Rightarrow> workspace_id \<Rightarrow>
    json \<Rightarrow> i32 \<Rightarrow> i64 \<Rightarrow> string \<Rightarrow> (pane_id \<times> bytes) list \<Rightarrow> sqlite \<Rightarrow> bool option \<times> sqlite" where
  "sqlite_checkpoint dump now snap_id wid state schema_version generation reason snapshots d =
     (if \<not> sq_ok d then (Some False, d)
      else
        let (tx, d) = tx_begin d
        in if \<not> tx_ok tx then (Some False, tx_destroy (tx, d))
           else case (do { text \<leftarrow> dump state;
                           name \<leftarrow> jvalue get_string state ''name'' '''';
                           wd \<leftarrow> jvalue get_string state ''working_directory'' '''';
                           created \<leftarrow> jvalue get_string state ''created_at'' '''';
                           Some (text, name, wd, created) }) of
                  None \<Rightarrow> (None, tx_destroy (tx, d))
                | Some (text, name, wd, created) \<Rightarrow>
                    let (ok, d) = tx_run
                          ([workspace_upsert (checkpoint_workspace_row now wid text name wd created)] @
                           map (\<lambda>(pane, data). blob_upsert now pane data) snapshots @
                           [\<lambda>ts. snapshot_insert (checkpoint_snapshot_row now snap_id wid text
                                     schema_version generation reason ts) ts]) (tx, d)
                    in (Some ok, d))"

section \<open>Workspaces\<close>

text \<open>\<^verbatim>\<open>json::parse(text).get<Workspace>()\<close>, any exception caught.\<close>

definition decode_workspace :: "(string \<Rightarrow> json option) \<Rightarrow> string \<Rightarrow> workspace option" where
  "decode_workspace parse text = do { j \<leftarrow> parse text; workspace_from_json j }"

definition sqlite_list_workspaces :: "(string \<Rightarrow> json option) \<Rightarrow> sqlite \<Rightarrow> workspace list" where
  "sqlite_list_workspaces parse d =
     List.map_filter (\<lambda>r. decode_workspace parse (wr_json r)) (sort_key wr_created_at (tb_workspaces (db_tables d)))"

definition sqlite_load_workspace :: "(string \<Rightarrow> json option) \<Rightarrow> sqlite \<Rightarrow> workspace_id \<Rightarrow> workspace option" where
  "sqlite_load_workspace parse d i =
     (case find (\<lambda>r. wr_id r = cstr (id_str i)) (tb_workspaces (db_tables d)) of
        None \<Rightarrow> None
      | Some r \<Rightarrow> decode_workspace parse (wr_json r))"

definition sqlite_save_workspace :: "(json \<Rightarrow> string option) \<Rightarrow> workspace \<Rightarrow> sqlite \<Rightarrow> sqlite option" where
  "sqlite_save_workspace dump ws d =
     (case dump (workspace_to_json ws) of
        None \<Rightarrow> None
      | Some text \<Rightarrow>
          Some (unlock (snd (run_stmt (workspace_upsert
            \<lparr>wr_id = cstr (id_str (ws_id ws)), wr_name = cstr (ws_name ws),
             wr_working_directory = cstr (ws_working_directory ws),
             wr_created_at = to_iso8601 (ws_created_at ws),
             wr_last_saved_at = to_iso8601 (ws_last_saved_at ws), wr_json = cstr text\<rparr>) (lock d)))))"

definition sqlite_delete_workspace :: "workspace_id \<Rightarrow> sqlite \<Rightarrow> sqlite" where
  "sqlite_delete_workspace i d = unlock (snd (run_stmt
     (\<lambda>ts. Some (ts\<lparr>tb_workspaces := sql_delete (\<lambda>r. wr_id r = cstr (id_str i)) (tb_workspaces ts)\<rparr>)) (lock d)))"

section \<open>Snapshots\<close>

text \<open>The column \<^verbatim>\<open>timestamp\<close> is selected for the order and not read into the result.\<close>

definition sqlite_list_snapshots :: "sqlite \<Rightarrow> workspace_id \<Rightarrow> snapshot list" where
  "sqlite_list_snapshots d i =
     map (\<lambda>r. \<lparr>sn_id = Id (sr_id r), sn_timestamp = 0, sn_size_bytes = sr_size_bytes r,
               sn_revision = sr_revision r\<rparr>)
       (sort_key sr_timestamp (filter (\<lambda>r. sr_workspace_id r = cstr (id_str i)) (tb_snapshots (db_tables d))))"

definition sqlite_load_snapshot :: "(string \<Rightarrow> json option) \<Rightarrow> sqlite \<Rightarrow> workspace_id \<Rightarrow> snapshot_id \<Rightarrow> json option" where
  "sqlite_load_snapshot parse d i snap =
     (case find (\<lambda>r. sr_workspace_id r = cstr (id_str i) \<and> sr_id r = cstr (id_str snap))
             (tb_snapshots (db_tables d)) of
        None \<Rightarrow> None
      | Some r \<Rightarrow> parse (sr_state_json r))"

definition sqlite_save_snapshot :: "(json \<Rightarrow> string option) \<Rightarrow> workspace_id \<Rightarrow> snapshot \<Rightarrow> json \<Rightarrow> sqlite \<Rightarrow> sqlite option" where
  "sqlite_save_snapshot dump i snap state d =
     (case dump state of
        None \<Rightarrow> None
      | Some ser \<Rightarrow>
          Some (unlock (snd (run_stmt (snapshot_insert
            \<lparr>sr_id = cstr (id_str (sn_id snap)), sr_workspace_id = cstr (id_str i),
             sr_timestamp = to_iso8601 (sn_timestamp snap), sr_revision = sn_revision snap,
             sr_size_bytes = sn_size_bytes snap, sr_state_json = cstr ser,
             sr_schema_version = 1, sr_generation = 0, sr_reason = ''manual''\<rparr>) (lock d)))))"

definition sqlite_delete_snapshot :: "workspace_id \<Rightarrow> snapshot_id \<Rightarrow> sqlite \<Rightarrow> sqlite" where
  "sqlite_delete_snapshot i snap d = unlock (snd (run_stmt
     (\<lambda>ts. Some (ts\<lparr>tb_snapshots := sql_delete
        (\<lambda>r. sr_workspace_id r = cstr (id_str i) \<and> sr_id r = cstr (id_str snap)) (tb_snapshots ts)\<rparr>)) (lock d)))"

section \<open>Text and binary blobs\<close>

definition sqlite_store_scrollback :: "time_point \<Rightarrow> pane_id \<Rightarrow> string \<Rightarrow> sqlite \<Rightarrow> sqlite" where
  "sqlite_store_scrollback now pane content d = unlock (snd (run_stmt
     (\<lambda>ts. Some (ts\<lparr>tb_scrollbacks := sql_upsert sb_pane_id
        (\<lambda>old new. old\<lparr>sb_content := sb_content new, sb_updated_at := sb_updated_at new\<rparr>)
        \<lparr>sb_pane_id = cstr (id_str pane), sb_content = cstr content, sb_updated_at = to_iso8601 now\<rparr>
        (tb_scrollbacks ts)\<rparr>)) (lock d)))"

definition sqlite_load_scrollback :: "sqlite \<Rightarrow> pane_id \<Rightarrow> string" where
  "sqlite_load_scrollback d pane =
     (case find (\<lambda>r. sb_pane_id r = cstr (id_str pane)) (tb_scrollbacks (db_tables d)) of
        None \<Rightarrow> ''''
      | Some r \<Rightarrow> sb_content r)"

definition sqlite_store_snapshot :: "time_point \<Rightarrow> pane_id \<Rightarrow> bytes \<Rightarrow> sqlite \<Rightarrow> sqlite" where
  "sqlite_store_snapshot now pane data d = unlock (snd (run_stmt (blob_upsert now pane data) (lock d)))"

definition sqlite_load_pane_snapshot :: "sqlite \<Rightarrow> pane_id \<Rightarrow> bytes" where
  "sqlite_load_pane_snapshot d pane =
     (case find (\<lambda>r. tr_pane_id r = cstr (id_str pane)) (tb_terminal_snapshots (db_tables d)) of
        None \<Rightarrow> []
      | Some r \<Rightarrow> tr_content r)"

section \<open>Closed windows\<close>

text \<open>The second parameter, the row's \<^verbatim>\<open>workspace_id\<close>, is bound to the state's JSON.\<close>

definition sqlite_store_closed_window :: "closed_window_snapshot \<Rightarrow> sqlite \<Rightarrow> sqlite" where
  "sqlite_store_closed_window snap d = unlock (snd (run_stmt
     (\<lambda>ts. map_option (\<lambda>t. ts\<lparr>tb_closed_windows := t\<rparr>)
        (sql_insert (\<lambda>r. (cl_workspace_id r, cl_id r))
          \<lparr>cl_id = cstr (id_str (cw_id snap)),
           cl_workspace_id = (if cw_workspace_state_json snap = '''' then ''''
                              else cstr (cw_workspace_state_json snap)),
           cl_window_id = cstr (id_str (cw_window_id snap)), cl_label = cstr (cw_label snap),
           cl_closed_at = to_iso8601 (cw_closed_at snap),
           cl_state_json = cstr (cw_workspace_state_json snap), cl_generation = cw_generation snap\<rparr>
          (tb_closed_windows ts))) (lock d)))"

definition closed_of_row :: "closed_row \<Rightarrow> closed_window_snapshot" where
  "closed_of_row r = \<lparr>cw_id = Id (cl_id r), cw_window_id = Id (cl_window_id r), cw_label = cl_label r,
     cw_closed_at = from_iso8601 (cl_closed_at r), cw_workspace_state_json = cl_state_json r,
     cw_generation = cl_generation r\<rparr>"

definition sqlite_list_closed_windows :: "sqlite \<Rightarrow> workspace_id \<Rightarrow> closed_window_snapshot list" where
  "sqlite_list_closed_windows d i =
     map closed_of_row (rev (sort_key cl_closed_at
       (rev (filter (\<lambda>r. cl_workspace_id r = cstr (id_str i)) (tb_closed_windows (db_tables d))))))"

definition sqlite_load_closed_window :: "sqlite \<Rightarrow> workspace_id \<Rightarrow> snapshot_id \<Rightarrow> closed_window_snapshot option" where
  "sqlite_load_closed_window d i snap =
     map_option (\<lambda>r. (closed_of_row r)\<lparr>cw_id := snap\<rparr>)
       (find (\<lambda>r. cl_workspace_id r = cstr (id_str i) \<and> cl_id r = cstr (id_str snap))
          (tb_closed_windows (db_tables d)))"

definition sqlite_delete_closed_window :: "workspace_id \<Rightarrow> snapshot_id \<Rightarrow> sqlite \<Rightarrow> sqlite" where
  "sqlite_delete_closed_window i snap d = unlock (snd (run_stmt
     (\<lambda>ts. Some (ts\<lparr>tb_closed_windows := sql_delete
        (\<lambda>r. cl_workspace_id r = cstr (id_str i) \<and> cl_id r = cstr (id_str snap)) (tb_closed_windows ts)\<rparr>)) (lock d)))"

section \<open>History annotations\<close>

definition annotation_row :: "history_annotation \<Rightarrow> history_annotation" where
  "annotation_row a = a\<lparr>ha_fingerprint := cstr (ha_fingerprint a), ha_command := cstr (ha_command a),
     ha_pane_id := cstr (ha_pane_id a), ha_window_id := cstr (ha_window_id a),
     ha_comment := cstr (ha_comment a)\<rparr>"

definition sqlite_store_history_annotation :: "workspace_id \<Rightarrow> history_annotation \<Rightarrow> sqlite \<Rightarrow> sqlite" where
  "sqlite_store_history_annotation i ann d = unlock (snd (run_stmt
     (\<lambda>ts. Some (ts\<lparr>tb_history_annotations := sql_upsert ha_fingerprint
        (\<lambda>old new. new\<lparr>ha_created_at := ha_created_at old\<rparr>) (annotation_row ann)
        (tb_history_annotations ts)\<rparr>)) (lock d)))"

definition sqlite_load_history_annotation :: "sqlite \<Rightarrow> workspace_id \<Rightarrow> string \<Rightarrow> history_annotation option" where
  "sqlite_load_history_annotation d i fingerprint =
     find (\<lambda>r. ha_fingerprint r = cstr fingerprint) (tb_history_annotations (db_tables d))"

definition sqlite_list_history_annotations :: "sqlite \<Rightarrow> workspace_id \<Rightarrow> string \<Rightarrow> history_annotation list" where
  "sqlite_list_history_annotations d i pane_id =
     sort_key (\<lambda>a. - sint (ha_updated_at a))
       (filter (\<lambda>a. pane_id = '''' \<or> ha_pane_id a = cstr pane_id) (tb_history_annotations (db_tables d)))"

definition sqlite_delete_history_annotation :: "workspace_id \<Rightarrow> string \<Rightarrow> sqlite \<Rightarrow> sqlite" where
  "sqlite_delete_history_annotation i fingerprint d = unlock (snd (run_stmt
     (\<lambda>ts. Some (ts\<lparr>tb_history_annotations := sql_delete (\<lambda>r. ha_fingerprint r = cstr fingerprint)
        (tb_history_annotations ts)\<rparr>)) (lock d)))"

definition sqlite_storage :: "(json \<Rightarrow> string option) \<Rightarrow> (string \<Rightarrow> json option) \<Rightarrow> sqlite storage" where
  "sqlite_storage dump parse = \<lparr>
     list_workspaces = sqlite_list_workspaces parse,
     load_workspace = sqlite_load_workspace parse,
     save_workspace = sqlite_save_workspace dump,
     delete_workspace = sqlite_delete_workspace,
     list_snapshots = sqlite_list_snapshots,
     load_snapshot = sqlite_load_snapshot parse,
     save_snapshot = sqlite_save_snapshot dump,
     delete_snapshot = sqlite_delete_snapshot,
     store_scrollback = sqlite_store_scrollback,
     load_scrollback = sqlite_load_scrollback,
     store_pane_blob = sqlite_store_snapshot,
     load_pane_blob = sqlite_load_pane_snapshot,
     store_closed_window = sqlite_store_closed_window,
     list_closed_windows = sqlite_list_closed_windows,
     load_closed_window = sqlite_load_closed_window,
     delete_closed_window = sqlite_delete_closed_window,
     store_history_annotation = sqlite_store_history_annotation,
     load_history_annotation = sqlite_load_history_annotation,
     list_history_annotations = sqlite_list_history_annotations,
     delete_history_annotation = sqlite_delete_history_annotation,
     storage_checkpoint = sqlite_checkpoint dump\<rparr>"

section \<open>Tables\<close>

lemma find_upsert:
  assumes "\<And>old new. key (merge old new) = key old"
  shows "find (\<lambda>r. key r = k) (sql_upsert key merge row t) =
    (if k = key row then Some (case find (\<lambda>r. key r = k) t of None \<Rightarrow> row | Some old \<Rightarrow> merge old row)
     else find (\<lambda>r. key r = k) t)"
proof -
  have *: "find (\<lambda>r. key r = k) (upd_first (\<lambda>r. key r = key row) (\<lambda>r. merge r row) t) =
      (if k = key row then map_option (\<lambda>old. merge old row) (find (\<lambda>r. key r = k) t)
       else find (\<lambda>r. key r = k) t)"
    using assms by (induction t) auto
  then show ?thesis
  proof (cases "\<exists>r \<in> set t. key r = key row")
    case True
    then obtain old where "find (\<lambda>r. key r = key row) t = Some old"
      using find_None_iff_set [of "\<lambda>r. key r = key row" t] by (cases "find (\<lambda>r. key r = key row) t") auto
    with True * show ?thesis by (simp add: sql_upsert_def)
  next
    case False
    then have "find (\<lambda>r. key r = key row) t = None" by (simp add: find_None_iff_set)
    with False show ?thesis
      by (cases "find (\<lambda>r. key r = k) t") (auto simp: sql_upsert_def find_append)
  qed
qed

lemma find_delete: "find (\<lambda>r. key r = k) (sql_delete (\<lambda>r. key r = j) t) =
    (if k = j then None else find (\<lambda>r. key r = k) t)"
  unfolding sql_delete_def by (induction t) auto

definition idle :: "sqlite \<Rightarrow> bool" where
  "idle d \<longleftrightarrow> sq_ok d \<and> db_faults d = [] \<and> db_journal d = None"

lemma run_stmt_idle:
  "db_faults d = [] \<Longrightarrow> run_stmt stmt d =
     (case stmt (db_tables d) of None \<Rightarrow> (False, d) | Some t \<Rightarrow> (True, d\<lparr>db_tables := t\<rparr>))"
  by (simp add: run_stmt_def next_fault_def)

lemma lock_simps [simp]:
  "db_tables (lock d) = db_tables d" "db_faults (lock d) = db_faults d"
  "db_journal (lock d) = db_journal d" "sq_ok (lock d) = sq_ok d"
  "db_tables (unlock d) = db_tables d" "db_faults (unlock d) = db_faults d"
  "db_journal (unlock d) = db_journal d" "sq_ok (unlock d) = sq_ok d"
  "db_lock (lock d) = db_lock d + 1" "db_lock (unlock d) = db_lock d - 1"
  "durable (lock d) = durable d" "durable (unlock d) = durable d"
  by (simp_all add: lock_def unlock_def durable_def split: option.splits)

section \<open>Reads after writes\<close>

text \<open>A workspace whose JSON js reads back: no infinite ratio, valid js without NUL.\<close>

definition storable :: "(json \<Rightarrow> string option) \<Rightarrow> (string \<Rightarrow> json option) \<Rightarrow> workspace \<Rightarrow> bool" where
  "storable dump parse ws \<longleftrightarrow>
     (case dump (workspace_to_json ws) of
        None \<Rightarrow> False
      | Some js \<Rightarrow> cstr js = js \<and> parse js = Some (as_text (workspace_to_json ws))) \<and>
     finite_workspace ws \<and> 0 \<le> sint (ws_created_at ws) \<and> 0 \<le> sint (ws_last_saved_at ws)"

lemma storable_decode:
  assumes "storable dump parse ws" "dump (workspace_to_json ws) = Some js"
  shows "cstr js = js \<and> decode_workspace parse js = Some (norm_workspace ws)"
  using assms by (simp add: storable_def decode_workspace_def as_text_workspace workspace_roundtrip_norm)

lemma storable_dump: "storable dump parse ws \<Longrightarrow> \<exists>js. dump (workspace_to_json ws) = Some js"
  by (auto simp: storable_def split: option.splits)

lemma find_workspace_upsert:
  "find (\<lambda>r. wr_id r = k) (tb_workspaces (the (workspace_upsert row ts))) =
     (if k = wr_id row then
        Some (case find (\<lambda>r. wr_id r = k) (tb_workspaces ts) of
                None \<Rightarrow> row
              | Some old \<Rightarrow> row\<lparr>wr_id := wr_id old, wr_created_at := wr_created_at old\<rparr>)
      else find (\<lambda>r. wr_id r = k) (tb_workspaces ts))"
  by (auto simp: workspace_upsert_def find_upsert split: option.splits)

lemma load_after_upsert:
  assumes "db_tables d' = the (workspace_upsert row (db_tables d))"
  shows "sqlite_load_workspace parse d' i =
    (if cstr (id_str i) = wr_id row then decode_workspace parse (wr_json row)
     else sqlite_load_workspace parse d i)"
  using assms by (auto simp: sqlite_load_workspace_def find_workspace_upsert split: option.splits)

lemma sqlite_save_law:
  assumes "idle d" "storable dump parse ws"
  shows "\<exists>d'. sqlite_save_workspace dump ws d = Some d' \<and> idle d' \<and>
    sqlite_load_workspace parse d' (ws_id ws) = Some (norm_workspace ws) \<and>
    (\<forall>i. cstr (id_str i) \<noteq> cstr (id_str (ws_id ws)) \<longrightarrow>
       sqlite_load_workspace parse d' i = sqlite_load_workspace parse d i) \<and>
    sqlite_load_pane_snapshot d' = sqlite_load_pane_snapshot d"
proof -
  obtain js where js: "dump (workspace_to_json ws) = Some js"
    using storable_dump [OF assms(2)] by blast
  note dec = storable_decode [OF assms(2) js]
  define row where "row = \<lparr>wr_id = cstr (id_str (ws_id ws)), wr_name = cstr (ws_name ws),
     wr_working_directory = cstr (ws_working_directory ws),
     wr_created_at = to_iso8601 (ws_created_at ws),
     wr_last_saved_at = to_iso8601 (ws_last_saved_at ws), wr_json = cstr js\<rparr>"
  define d' where "d' = unlock (snd (run_stmt (workspace_upsert row) (lock d)))"
  have d': "sqlite_save_workspace dump ws d = Some d'" "idle d'"
    "db_tables d' = the (workspace_upsert row (db_tables d))"
    "wr_id row = cstr (id_str (ws_id ws))" "wr_json row = cstr js"
    using assms(1)
    by (simp_all add: sqlite_save_workspace_def js d'_def row_def idle_def run_stmt_idle workspace_upsert_def)
  moreover have "sqlite_load_pane_snapshot d' = sqlite_load_pane_snapshot d"
    by (simp add: fun_eq_iff sqlite_load_pane_snapshot_def d'(3) workspace_upsert_def)
  ultimately show ?thesis
    using dec by (simp add: load_after_upsert [OF d'(3)])
qed

lemma sqlite_delete_law:
  assumes "idle d"
  shows "idle (sqlite_delete_workspace i d) \<and>
    sqlite_load_workspace parse (sqlite_delete_workspace i d) i = None \<and>
    (\<forall>j. cstr (id_str j) \<noteq> cstr (id_str i) \<longrightarrow>
       sqlite_load_workspace parse (sqlite_delete_workspace i d) j = sqlite_load_workspace parse d j)"
  using assms
  by (simp add: idle_def sqlite_delete_workspace_def run_stmt_idle sqlite_load_workspace_def find_delete)

lemma load_blob_after_upsert:
  assumes "blob_upsert now p data (db_tables d) = Some ts" "db_tables d' = ts"
  shows "sqlite_load_pane_snapshot d' q =
    (if cstr (id_str q) = cstr (id_str p) then data else sqlite_load_pane_snapshot d q)"
proof -
  have "find (\<lambda>r. tr_pane_id r = k) (tb_terminal_snapshots ts) =
      (if k = cstr (id_str p) then Some (case find (\<lambda>r. tr_pane_id r = k) (tb_terminal_snapshots (db_tables d)) of
           None \<Rightarrow> \<lparr>tr_pane_id = cstr (id_str p), tr_content = data, tr_version = 1, tr_updated_at = to_iso8601 now\<rparr>
         | Some old \<Rightarrow> old\<lparr>tr_content := data, tr_version := 1, tr_updated_at := to_iso8601 now\<rparr>)
       else find (\<lambda>r. tr_pane_id r = k) (tb_terminal_snapshots (db_tables d)))" for k
    using assms(1) by (auto simp: blob_upsert_def find_upsert split: if_splits option.splits)
  then show ?thesis
    using assms(2) by (simp add: sqlite_load_pane_snapshot_def split: option.splits)
qed

lemma sqlite_blob_law:
  assumes "idle d" "data \<noteq> []"
  shows "idle (sqlite_store_snapshot now p data d) \<and>
    sqlite_load_pane_snapshot (sqlite_store_snapshot now p data d) p = data \<and>
    (\<forall>q. cstr (id_str q) \<noteq> cstr (id_str p) \<longrightarrow>
       sqlite_load_pane_snapshot (sqlite_store_snapshot now p data d) q = sqlite_load_pane_snapshot d q)"
proof -
  obtain ts where ts: "blob_upsert now p data (db_tables d) = Some ts"
    using assms(2) by (simp add: blob_upsert_def)
  have t: "db_tables (sqlite_store_snapshot now p data d) = ts" "idle (sqlite_store_snapshot now p data d)"
    using assms(1) ts by (simp_all add: sqlite_store_snapshot_def idle_def run_stmt_idle)
  then show ?thesis using load_blob_after_upsert [OF ts t(1)] by simp
qed

lemma sqlite_scrollback_law:
  assumes "idle d"
  shows "idle (sqlite_store_scrollback now p js d) \<and>
    sqlite_load_scrollback (sqlite_store_scrollback now p js d) p = cstr js \<and>
    (\<forall>q. cstr (id_str q) \<noteq> cstr (id_str p) \<longrightarrow>
       sqlite_load_scrollback (sqlite_store_scrollback now p js d) q = sqlite_load_scrollback d q)"
  using assms
  by (auto simp: idle_def sqlite_store_scrollback_def run_stmt_idle sqlite_load_scrollback_def
      find_upsert split: option.splits)

section \<open>Checkpoints\<close>

lemma run_stmts_blobs:
  assumes "db_faults d = []" "\<forall>(p, data) \<in> set blobs. data \<noteq> []"
    and "distinct (map (\<lambda>(p, data). cstr (id_str p)) blobs)"
  shows "\<exists>d'. run_stmts (map (\<lambda>(p, data). blob_upsert now p data) blobs) d = (True, d') \<and>
    db_faults d' = [] \<and> db_journal d' = db_journal d \<and> sq_ok d' = sq_ok d \<and> db_lock d' = db_lock d \<and>
    tb_workspaces (db_tables d') = tb_workspaces (db_tables d) \<and>
    tb_snapshots (db_tables d') = tb_snapshots (db_tables d) \<and>
    (\<forall>(p, data) \<in> set blobs. sqlite_load_pane_snapshot d' p = data) \<and>
    (\<forall>q. cstr (id_str q) \<notin> set (map (\<lambda>(p, data). cstr (id_str p)) blobs) \<longrightarrow>
       sqlite_load_pane_snapshot d' q = sqlite_load_pane_snapshot d q)"
  using assms
proof (induction blobs arbitrary: d)
  case (Cons b blobs)
  obtain p data where b: "b = (p, data)" by (cases b)
  obtain ts where ts: "blob_upsert now p data (db_tables d) = Some ts"
    using Cons.prems(2) by (simp add: b blob_upsert_def)
  have other: "tb_workspaces ts = tb_workspaces (db_tables d)" "tb_snapshots ts = tb_snapshots (db_tables d)"
    using ts by (auto simp: blob_upsert_def split: if_splits)
  let ?d = "d\<lparr>db_tables := ts\<rparr>"
  have step: "run_stmt (blob_upsert now p data) d = (True, ?d)"
    using Cons.prems(1) ts by (simp add: run_stmt_idle)
  note load = load_blob_after_upsert [OF ts, where d' = ?d]
  obtain d' where IH: "run_stmts (map (\<lambda>(p, data). blob_upsert now p data) blobs) ?d = (True, d')"
    "db_faults d' = []" "db_journal d' = db_journal d" "sq_ok d' = sq_ok d" "db_lock d' = db_lock d"
    "tb_workspaces (db_tables d') = tb_workspaces (db_tables d)"
    "tb_snapshots (db_tables d') = tb_snapshots (db_tables d)"
    "\<forall>(p, data) \<in> set blobs. sqlite_load_pane_snapshot d' p = data"
    "\<forall>q. cstr (id_str q) \<notin> set (map (\<lambda>(p, data). cstr (id_str p)) blobs) \<longrightarrow>
       sqlite_load_pane_snapshot d' q = sqlite_load_pane_snapshot ?d q"
    using Cons.IH [of ?d] Cons.prems other by auto
  have "cstr (id_str p) \<notin> set (map (\<lambda>(p, data). cstr (id_str p)) blobs)"
    using Cons.prems(3) by (simp add: b)
  with IH(9) have "sqlite_load_pane_snapshot d' p = data" by (simp add: load)
  with IH load step show ?case
    by (intro exI [of _ d']) (auto simp: b)
qed simp

lemma run_stmts_append:
  "run_stmts (ss @ ss') d = (case run_stmts ss d of (ok, d') \<Rightarrow> if ok then run_stmts ss' d' else (False, d'))"
  by (induction ss d rule: run_stmts.induct) (auto split: prod.splits)

definition snapshot_free :: "sqlite \<Rightarrow> workspace_id \<Rightarrow> snapshot_id \<Rightarrow> bool" where
  "snapshot_free d i snap \<longleftrightarrow>
     \<not> (\<exists>r \<in> set (tb_snapshots (db_tables d)). (sr_workspace_id r, sr_id r) = (cstr (id_str i), cstr (id_str snap)))"

lemma sqlite_checkpoint_law:
  assumes "idle d" "storable dump parse ws" "snapshot_free d (ws_id ws) i"
    and "\<forall>(p, data) \<in> set blobs. data \<noteq> []" "distinct (map (\<lambda>(p, data). cstr (id_str p)) blobs)"
  shows "\<exists>d'. sqlite_checkpoint dump now i (ws_id ws) (workspace_to_json ws) v g reason blobs d = (Some True, d') \<and>
    idle d' \<and> sqlite_load_workspace parse d' (ws_id ws) = Some (norm_workspace ws) \<and>
    (\<forall>(p, data) \<in> set blobs. sqlite_load_pane_snapshot d' p = data) \<and>
    (\<forall>p. cstr (id_str p) \<notin> set (map (\<lambda>(p, data). cstr (id_str p)) blobs) \<longrightarrow>
       sqlite_load_pane_snapshot d' p = sqlite_load_pane_snapshot d p)"
proof -
  obtain js where js: "dump (workspace_to_json ws) = Some js"
    using storable_dump [OF assms(2)] by blast
  note dec = storable_decode [OF assms(2) js]
  have members: "jvalue get_string (workspace_to_json ws) ''name'' '''' = Some (ws_name ws)"
    "jvalue get_string (workspace_to_json ws) ''working_directory'' '''' = Some (ws_working_directory ws)"
    "jvalue get_string (workspace_to_json ws) ''created_at'' '''' = Some (to_iso8601 (ws_created_at ws))"
    by (cases "ws_focus_window_id ws"; simp add: workspace_to_json_def map_add_def)+
  define row where "row = checkpoint_workspace_row now (ws_id ws) js (ws_name ws)
     (ws_working_directory ws) (to_iso8601 (ws_created_at ws))"
  define d1 where "d1 = (lock d)\<lparr>db_journal := Some (db_tables d)\<rparr>"
  have tx: "tx_begin d = (\<lparr>tx_ok = True, tx_committed = False\<rparr>, d1)"
    using assms(1) by (simp add: tx_begin_def next_fault_def idle_def d1_def)
  define d2 where "d2 = d1\<lparr>db_tables := the (workspace_upsert row (db_tables d))\<rparr>"
  have w: "run_stmt (workspace_upsert row) d1 = (True, d2)"
    using assms(1) by (simp add: d1_def d2_def idle_def run_stmt_idle workspace_upsert_def)
  have d2: "db_faults d2 = []" "sq_ok d2" "db_journal d2 = Some (db_tables d)"
    "tb_snapshots (db_tables d2) = tb_snapshots (db_tables d)"
    "tb_terminal_snapshots (db_tables d2) = tb_terminal_snapshots (db_tables d)"
    using assms(1) by (simp_all add: d1_def d2_def idle_def workspace_upsert_def)
  obtain d3 where d3: "run_stmts (map (\<lambda>(p, data). blob_upsert now p data) blobs) d2 = (True, d3)"
    "db_faults d3 = []" "db_journal d3 = db_journal d2" "sq_ok d3 = sq_ok d2"
    "tb_workspaces (db_tables d3) = tb_workspaces (db_tables d2)"
    "tb_snapshots (db_tables d3) = tb_snapshots (db_tables d2)"
    "\<forall>(p, data) \<in> set blobs. sqlite_load_pane_snapshot d3 p = data"
    "\<forall>q. cstr (id_str q) \<notin> set (map (\<lambda>(p, data). cstr (id_str p)) blobs) \<longrightarrow>
       sqlite_load_pane_snapshot d3 q = sqlite_load_pane_snapshot d2 q"
    using run_stmts_blobs [OF d2(1) assms(4,5)] by blast
  define srow where "srow = checkpoint_snapshot_row now i (ws_id ws) js v g reason"
  obtain ts where ts: "snapshot_insert (srow (db_tables d3)) (db_tables d3) = Some ts"
    "tb_workspaces ts = tb_workspaces (db_tables d2)"
    "tb_terminal_snapshots ts = tb_terminal_snapshots (db_tables d3)"
    using assms(3) d2(4) d3(5,6)
    by (auto simp: snapshot_insert_def sql_insert_def srow_def checkpoint_snapshot_row_def snapshot_free_def)
  define d4 where "d4 = d3\<lparr>db_tables := ts\<rparr>"
  have s: "run_stmt (\<lambda>ts. snapshot_insert (srow ts) ts) d3 = (True, d4)"
    using d3(2) ts(1) by (simp add: d4_def run_stmt_idle)
  have all: "run_stmts ([workspace_upsert row] @ map (\<lambda>(p, data). blob_upsert now p data) blobs @
      [\<lambda>ts. snapshot_insert (srow ts) ts]) d1 = (True, d4)"
    by (simp add: w run_stmts_append d3(1) s)
  define d5 where "d5 = unlock (unlock (d4\<lparr>db_journal := None\<rparr>))"
  have res: "sqlite_checkpoint dump now i (ws_id ws) (workspace_to_json ws) v g reason blobs d = (Some True, d5)"
    using assms(1) all
    by (simp add: sqlite_checkpoint_def idle_def tx js members row_def [symmetric] srow_def [symmetric]
        tx_run_def tx_commit_def next_fault_def d4_def d3(2) tx_destroy_def d5_def del: run_stmts.simps append.simps)
  have t5: "db_tables d5 = ts" "idle d5"
    using d2(2) d3(2,4) by (simp_all add: d5_def d4_def idle_def)
  have "sqlite_load_workspace parse d5 j = sqlite_load_workspace parse d2 j" for j
    by (simp add: sqlite_load_workspace_def t5 ts)
  then have "sqlite_load_workspace parse d5 (ws_id ws) = Some (norm_workspace ws)"
    using load_after_upsert [of d2 row d] dec by (simp add: d2_def row_def checkpoint_workspace_row_def)
  moreover have "sqlite_load_pane_snapshot d5 = sqlite_load_pane_snapshot d3"
    "sqlite_load_pane_snapshot d2 = sqlite_load_pane_snapshot d"
    by (simp_all add: fun_eq_iff sqlite_load_pane_snapshot_def t5 ts d2)
  ultimately show ?thesis using res t5(2) d3(7,8) by auto
qed

interpretation sqlite: storage_contract "sqlite_storage dump parse" idle "storable dump parse" cstr snapshot_free
  for dump parse
proof unfold_locales
  fix s :: sqlite and ws and i :: workspace_id and data :: bytes and now p js v g reason blobs
  fix snap :: snapshot_id
  let ?S = "sqlite_storage dump parse"
  show "idle s \<Longrightarrow> storable dump parse ws \<Longrightarrow> \<exists>s'. save_workspace ?S ws s = Some s' \<and> idle s' \<and>
      load_workspace ?S s' (ws_id ws) = Some (norm_workspace ws) \<and>
      (\<forall>i. cstr (id_str i) \<noteq> cstr (id_str (ws_id ws)) \<longrightarrow> load_workspace ?S s' i = load_workspace ?S s i) \<and>
      load_pane_blob ?S s' = load_pane_blob ?S s"
    unfolding sqlite_storage_def storage.simps by (rule sqlite_save_law)
  show "idle s \<Longrightarrow> idle (delete_workspace ?S i s) \<and> load_workspace ?S (delete_workspace ?S i s) i = None \<and>
      (\<forall>j. cstr (id_str j) \<noteq> cstr (id_str i) \<longrightarrow>
         load_workspace ?S (delete_workspace ?S i s) j = load_workspace ?S s j)"
    unfolding sqlite_storage_def storage.simps by (rule sqlite_delete_law)
  show "idle s \<Longrightarrow> data \<noteq> [] \<Longrightarrow> idle (store_pane_blob ?S now p data s) \<and>
      load_pane_blob ?S (store_pane_blob ?S now p data s) p = data \<and>
      (\<forall>q. cstr (id_str q) \<noteq> cstr (id_str p) \<longrightarrow>
         load_pane_blob ?S (store_pane_blob ?S now p data s) q = load_pane_blob ?S s q)"
    unfolding sqlite_storage_def storage.simps by (rule sqlite_blob_law)
  show "idle s \<Longrightarrow> idle (store_scrollback ?S now p js s) \<and>
      load_scrollback ?S (store_scrollback ?S now p js s) p = cstr js \<and>
      (\<forall>q. cstr (id_str q) \<noteq> cstr (id_str p) \<longrightarrow>
         load_scrollback ?S (store_scrollback ?S now p js s) q = load_scrollback ?S s q)"
    unfolding sqlite_storage_def storage.simps by (rule sqlite_scrollback_law)
  show "idle s \<Longrightarrow> storable dump parse ws \<Longrightarrow> snapshot_free s (ws_id ws) snap \<Longrightarrow>
      \<forall>(p, data) \<in> set blobs. data \<noteq> [] \<Longrightarrow> distinct (map (\<lambda>(p, data). cstr (id_str p)) blobs) \<Longrightarrow>
      \<exists>s'. storage_checkpoint ?S now snap (ws_id ws) (workspace_to_json ws) v g reason blobs s = (Some True, s') \<and>
        idle s' \<and> load_workspace ?S s' (ws_id ws) = Some (norm_workspace ws) \<and>
        (\<forall>(p, data) \<in> set blobs. load_pane_blob ?S s' p = data) \<and>
        (\<forall>p. cstr (id_str p) \<notin> set (map (\<lambda>(p, data). cstr (id_str p)) blobs) \<longrightarrow>
           load_pane_blob ?S s' p = load_pane_blob ?S s p)"
    unfolding sqlite_storage_def storage.simps by (rule sqlite_checkpoint_law)
qed

section \<open>All or nothing\<close>

lemma run_stmt_journal: "run_stmt stmt d = (ok, d') \<Longrightarrow> db_journal d' = db_journal d \<and> db_lock d' = db_lock d"
  by (auto simp: run_stmt_def next_fault_def split: list.splits option.splits prod.splits if_splits)

lemma run_stmts_journal: "run_stmts ss d = (ok, d') \<Longrightarrow> db_journal d' = db_journal d \<and> db_lock d' = db_lock d"
proof (induction ss arbitrary: d)
  case (Cons s ss)
  obtain b d1 where r: "run_stmt s d = (b, d1)" by (cases "run_stmt s d")
  with Cons show ?case using run_stmt_journal [OF r] by (auto split: if_splits)
qed simp

lemma tx_begin_cases:
  assumes "tx_begin d = (tx, d')"
  shows "durable d' = durable d \<and> db_lock d' = db_lock d + 1 \<and> \<not> tx_committed tx \<and>
    (tx_ok tx \<longrightarrow> db_journal d = None \<and> db_journal d' = Some (db_tables d) \<and> db_tables d' = db_tables d)"
  using assms
  by (auto simp: tx_begin_def next_fault_def durable_def lock_def split: list.splits option.splits if_splits)

text \<open>
  Whatever faults SQLite reports, a checkpoint that does not return \<^verbatim>\<open>true\<close> leaves the durable
  tables as they were: a failed begin, a failed statement and an exception roll back, and after
  a failed commit the transaction is rolled back or stays open, to be lost with the connection.
\<close>

lemma failed_commit_durable [simp]: "durable (failed_commit d) = durable d" "db_lock (failed_commit d) = db_lock d"
  by (auto simp: failed_commit_def durable_def split: list.split bool.split option.split)

lemma durable_fields [simp]: "durable (unlock d) = durable d" "durable (d\<lparr>db_faults := fs\<rparr>) = durable d"
  by (simp_all add: durable_def unlock_def split: option.split)

lemma checkpoint_atomic:
  assumes "sqlite_checkpoint dump now snap i state v g reason blobs d = (res, d')" "res \<noteq> Some True"
  shows "durable d' = durable d"
proof (cases "sq_ok d")
  case False
  then show ?thesis using assms by (simp add: sqlite_checkpoint_def)
next
  case ok: True
  obtain tx d1 where tx: "tx_begin d = (tx, d1)" by (cases "tx_begin d")
  note b = tx_begin_cases [OF tx]
  show ?thesis
  proof (cases "tx_ok tx")
    case False
    then show ?thesis using assms ok b by (auto simp: sqlite_checkpoint_def tx tx_destroy_def)
  next
    case True
    with b have j: "db_journal d1 = Some (db_tables d)" "durable d = db_tables d" "\<not> tx_committed tx"
      by (auto simp: durable_def)
    have rb: "durable (tx_destroy (tx_rollback (tx, e))) = durable d" "durable (tx_destroy (tx, e)) = durable d"
      if "db_journal e = Some (db_tables d)" for e
      using that True j by (auto simp: tx_destroy_def tx_rollback_def durable_def unlock_def)
    show ?thesis
    proof (cases "do { js \<leftarrow> dump state; name \<leftarrow> jvalue get_string state ''name'' '''';
        wd \<leftarrow> jvalue get_string state ''working_directory'' '''';
        created \<leftarrow> jvalue get_string state ''created_at'' ''''; Some (js, name, wd, created) }")
      case None
      then show ?thesis using assms ok True j rb by (auto simp: sqlite_checkpoint_def tx)
    next
      case (Some q)
      with assms(1) ok True obtain ss ok where
        "tx_run ss (tx, d1) = (ok, d')" "res = Some ok"
        unfolding sqlite_checkpoint_def tx by (auto split: prod.splits)
      moreover obtain written e where e: "run_stmts ss d1 = (written, e)" by (cases "run_stmts ss d1")
      moreover note run_stmts_journal [OF e]
      ultimately show ?thesis
        using assms(2) j rb [of e] True
        by (auto simp: tx_run_def tx_commit_def next_fault_def tx_destroy_def durable_fields
            split: if_splits list.splits) (simp_all add: durable_def)
    qed
  qed
qed

end
