(* ===== verification/Core_Persistence.thy ===== *)
theory Core_Persistence
  imports Core_Invariants Sqlite_Storage
begin

text \<open>
  What the engine achieves through the store.  The lemmas are proved once against the contract
  of \<open>Storage_Api\<close>; the last section reads them off for the SQLite store.
\<close>

section \<open>Against the contract\<close>

text \<open>What a checkpoint writes: the open workspace with a new time and the next generation.\<close>

definition stamped :: "time_point \<Rightarrow> workspace \<Rightarrow> workspace" where
  "stamped now ws = ws\<lparr>ws_last_saved_at := now, ws_generation := ws_generation ws + 1\<rparr>"

lemma stamped_simps [simp]:
  "ws_id (stamped now ws) = ws_id ws" "ws_windows (stamped now ws) = ws_windows ws"
  "all_panes (stamped now ws) = all_panes ws" "pane_blobs (stamped now ws) = pane_blobs ws"
  "ws_generation (stamped now ws) = ws_generation ws + 1" "ws_last_saved_at (stamped now ws) = now"
  by (simp_all add: stamped_def pane_blobs_def all_panes_def)

lemma pane_blobs_ne: "\<forall>(p, data) \<in> set (pane_blobs ws). data \<noteq> []"
  by (auto simp: pane_blobs_def)

lemma pane_blobs_mem:
  "p \<in> set (all_panes ws) \<Longrightarrow> ps_snapshot_data (p_state p) \<noteq> [] \<Longrightarrow>
   (p_id p, ps_snapshot_data (p_state p)) \<in> set (pane_blobs ws)"
  by (auto simp: pane_blobs_def)

lemma tab_panes_norm: "t_pane_tree t \<noteq> Leaf None \<Longrightarrow> wf_tree (t_pane_tree t) \<Longrightarrow>
    tab_panes (norm_tab t) = map norm_pane (tab_panes t)"
proof -
  have "full tr \<Longrightarrow> collect_panes (norm_tree tr) = map norm_pane (collect_panes tr)" for tr
    by (induction tr rule: norm_tree.induct) (auto simp: leaf_def)
  then show "t_pane_tree t \<noteq> Leaf None \<Longrightarrow> wf_tree (t_pane_tree t) \<Longrightarrow> ?thesis"
    by (simp add: tab_panes_def norm_tab_def wf_tree_def)
qed

lemma collect_norm_tree:
  "p \<in> set (collect_panes (norm_tree tr)) \<Longrightarrow>
     (\<exists>q \<in> set (collect_panes tr). p = norm_pane q) \<or> p = empty_pane"
  by (induction tr rule: norm_tree.induct) (auto simp: leaf_def)

lemma all_panes_norm:
  "p \<in> set (all_panes (norm_workspace ws)) \<Longrightarrow>
     (\<exists>q \<in> set (all_panes ws). p = norm_pane q) \<or> p = empty_pane"
  by (fastforce simp: all_panes_def norm_workspace_def norm_window_def window_panes_def tab_panes_def
      norm_tab_def dest: collect_norm_tree)

lemma map_workspace_panes_id:
  assumes "\<And>p. p \<in> set (all_panes ws) \<Longrightarrow> g p = p"
  shows "map_workspace_panes g ws = ws"
proof -
  have tree: "(\<And>p. p \<in> set (collect_panes t) \<Longrightarrow> g p = p) \<Longrightarrow> map_panes g t = t" for t
    by (induction g t rule: map_panes.induct) auto
  have "map_tab_panes g t = t" if "w \<in> set (ws_windows ws)" "t \<in> set (w_tabs w)" for w t
    using that assms tree [of "t_pane_tree t"]
    by (fastforce simp: map_tab_panes_def all_panes_def window_panes_def tab_panes_def)
  then have "map_window_panes g w = w" if "w \<in> set (ws_windows ws)" for w
    using that by (simp add: map_window_panes_def map_idI)
  then show ?thesis by (simp add: map_workspace_panes_def map_idI)
qed

context storage_contract
begin

lemma create_then_open:
  assumes "healthy s" "storable (Workspace_create now (if name = '''' then ''untitled'' else name) i)"
  shows "\<exists>c' s'. create_workspace S now i name (c, s) = Inr (i, c', s') \<and> healthy s' \<and>
    (\<exists>c''. open_workspace S i (c0, s') = (True, c'') \<and>
       map_option ws_name (ws_current c'') = Some (if name = '''' then ''untitled'' else name) \<and>
       map_option ws_windows (ws_current c'') = Some [])"
proof -
  let ?ws = "Workspace_create now (if name = '''' then ''untitled'' else name) i"
  have i: "ws_id ?ws = i" by (simp add: Workspace_create_def)
  obtain s' where s': "save_workspace S ?ws s = Some s'" "healthy s'"
    "load_workspace S s' i = Some (norm_workspace ?ws)"
    using save_law [OF assms] unfolding i by blast
  have "create_workspace S now i name (c, s) =
      Inr (i, emit WorkspaceOpened i None None None (c\<lparr>ws_current := Some ?ws\<rparr>), s')"
    using s'(1) by (simp add: create_workspace_def Let_def)
  with s' show ?thesis
    by (auto simp: open_workspace_def Let_def emit_def map_workspace_panes_def norm_workspace_def
        Workspace_create_def empty_workspace_def)
qed

lemma persist_then_open:
  assumes "healthy s" "storable ws" "ws_current c = Some ws" "ws_dirty c"
  shows "\<exists>s'. persist S (c, s) = Inr (True, c\<lparr>ws_dirty := False\<rparr>, s') \<and> healthy s' \<and>
    (\<exists>c'. open_workspace S (ws_id ws) (c0, s') = (True, c') \<and>
       ws_current c' = Some (map_workspace_panes (overlay_blob (load_pane_blob S) s) (norm_workspace ws)))"
proof -
  obtain s' where s': "save_workspace S ws s = Some s'" "healthy s'"
    "load_workspace S s' (ws_id ws) = Some (norm_workspace ws)" "load_pane_blob S s' = load_pane_blob S s"
    using save_law [OF assms(1,2)] by blast
  then have "overlay_blob (load_pane_blob S) s' = overlay_blob (load_pane_blob S) s"
    by (simp add: overlay_blob_def [abs_def])
  with s' show ?thesis
    using assms(3,4) by (auto simp: persist_def open_workspace_def Let_def emit_def)
qed

lemma delete_forgets:
  assumes "healthy s" "ws_current c = None \<or> ws_id (the (ws_current c)) \<noteq> i"
  shows "\<exists>s'. core_delete_workspace S i (c, s) = (True, s') \<and> healthy s' \<and>
    open_workspace S i (c0, s') = (False, c0)"
  using assms delete_law [OF assms(1), of i]
  by (auto simp: core_delete_workspace_def open_workspace_def split: option.splits)

text \<open>
  After a checkpoint, opening gives the workspace as it was, in the normal form, provided the
  store holds no older blob for a pane whose snapshot is now empty.
\<close>

lemma checkpoint_then_open:
  assumes "healthy s" "storable (stamped now ws)" "ws_current c = Some ws" "snapshot_free s (ws_id ws) snap"
    and "distinct (map (\<lambda>(p, data). key (id_str p)) (pane_blobs ws))"
    and empty: "\<And>p. p \<in> set (all_panes (norm_workspace ws)) \<Longrightarrow> ps_snapshot_data (p_state p) = [] \<Longrightarrow>
      key (id_str (p_id p)) \<notin> set (map (\<lambda>(p, data). key (id_str p)) (pane_blobs ws)) \<and>
      load_pane_blob S s (p_id p) = []"
  shows "\<exists>c' s'. core_checkpoint S now snap reason (c, s) = (Some True, c', s') \<and> healthy s' \<and>
    \<not> ws_dirty c' \<and> ws_current c' = Some (stamped now ws) \<and>
    (\<exists>c''. open_workspace S (ws_id ws) (c0, s') = (True, c'') \<and>
       ws_current c'' = Some (norm_workspace (stamped now ws)))"
proof -
  let ?ws = "stamped now ws"
  obtain s' where s': "storage_checkpoint S now snap (ws_id ?ws) (workspace_to_json ?ws)
      (ws_schema_version ?ws) (ws_generation ?ws) reason (pane_blobs ?ws) s = (Some True, s')"
    "healthy s'" "load_workspace S s' (ws_id ?ws) = Some (norm_workspace ?ws)"
    "\<forall>(p, data) \<in> set (pane_blobs ws). load_pane_blob S s' p = data"
    "\<forall>p. key (id_str p) \<notin> set (map (\<lambda>(p, data). key (id_str p)) (pane_blobs ws)) \<longrightarrow>
       load_pane_blob S s' p = load_pane_blob S s p"
    using checkpoint_law [OF assms(1,2), of snap "pane_blobs ws"] assms(4,5) pane_blobs_ne
    unfolding stamped_simps by blast
  have "overlay_blob (load_pane_blob S) s' p = p" if p: "p \<in> set (all_panes (norm_workspace ?ws))" for p
  proof (cases "ps_snapshot_data (p_state p) = []")
    case True
    have "all_panes (norm_workspace ?ws) = all_panes (norm_workspace ws)"
      by (simp add: all_panes_def norm_workspace_def)
    then have "load_pane_blob S s' (p_id p) = []" using empty [OF _ True] p s'(5) by simp
    then show ?thesis by (simp add: overlay_blob_def)
  next
    case False
    then obtain q where q: "q \<in> set (all_panes ws)" "p = norm_pane q"
      using all_panes_norm [OF p] by (auto simp: empty_pane_def empty_pane_state_def)
    then have "load_pane_blob S s' (p_id p) = ps_snapshot_data (p_state p)"
      using s'(4) pane_blobs_mem [OF q(1)] False by (auto simp: norm_pane_def norm_pane_state_def)
    then show ?thesis by (simp add: overlay_blob_def Let_def)
  qed
  then have "map_workspace_panes (overlay_blob (load_pane_blob S) s') (norm_workspace ?ws) = norm_workspace ?ws"
    by (rule map_workspace_panes_id)
  moreover have "core_checkpoint S now snap reason (c, s) =
      (Some True, c\<lparr>ws_current := Some ?ws, ws_dirty := False\<rparr>, s')"
    using s'(1) assms(3) by (simp add: core_checkpoint_def Let_def stamped_def)
  ultimately show ?thesis
    using s'(2,3) by (auto simp: open_workspace_def Let_def emit_def)
qed

end

end
