(* ===== verification/Core_Properties.thy ===== *)
theory Core_Properties
  imports Core_Lookup Core_Persistence
begin

text \<open>
  Properties of the engine \<^verbatim>\<open>WorkspaceCore\<close>: what its operations do to the open workspace, and
  what every sequence of them keeps.
\<close>

section \<open>Edits\<close>

text \<open>The operations that change the open workspace in place, without the store.\<close>

inductive core_edit :: "core \<Rightarrow> core \<Rightarrow> bool" where
  "core_edit c (snd (rename_workspace i name c))"
| "add_window now i title c = Inr (i, c') \<Longrightarrow> core_edit c c'"
| "core_edit c (snd (remove_window i c))"
| "core_edit c (snd (rename_window i title c))"
| "core_edit c (snd (focus_window i c))"
| "add_tab j i title tree c = Inr (j, c') \<Longrightarrow> core_edit c c'"
| "add_note_tab j i title state c = Inr (j, c') \<Longrightarrow> core_edit c c'"
| "core_edit c (snd (set_tab_note_state i j state c))"
| "core_edit c (snd (remove_tab i j c))"
| "core_edit c (snd (focus_tab i j c))"
| "split_pane p j k r c = Inr (p, c') \<Longrightarrow> core_edit c c'"
| "core_edit c (snd (remove_pane j p c))"
| "core_edit c (snd (focus_pane j p c))"
| "core_edit c (snd (set_pane_ratio j p r c))"
| "core_edit c (snd (add_command_to_pane j p rec c))"
| "core_edit c (snd (clear_command_history c))"
| "core_edit c (snd (set_command_pinned j p command b c))"
| "core_edit c (apply_runtime_state j p snap c)"

text \<open>A change is followed at once by a \<^const>\<open>StateDirty\<close> event, and other events after it.\<close>

definition dirtied :: "core \<Rightarrow> core \<Rightarrow> bool" where
  "dirtied c c' \<longleftrightarrow> c' = c \<or> ws_dirty c' \<and>
     (\<exists>e es. ev_log c' = ev_log c @ e # es \<and> ev_type e = StateDirty)"

lemma dirtied_refl [simp]: "dirtied c c"
  by (simp add: dirtied_def)

lemma dirtied_mark [simp]: "dirtied c (mark_dirty (c\<lparr>ws_current := Some ws\<rparr>))"
  by (simp add: dirtied_def mark_dirty_def Let_def emit_def)

lemma dirtied_mark_emit [simp]: "dirtied c (emit ty i w t p (mark_dirty (c\<lparr>ws_current := Some ws\<rparr>)))"
  by (simp add: dirtied_def mark_dirty_def Let_def emit_def)

lemma dirtied_on_pane [simp]: "dirtied c (snd (on_pane_state tab pane body quiet ws c))"
  by (simp add: on_pane_state_def split: option.splits)

lemma dirtied_insert: "insert_tab i t c = Inr (j, c') \<Longrightarrow> dirtied c c'"
  by (auto simp: insert_tab_def split: option.splits)

lemma core_edit_dirtied: "core_edit c c' \<Longrightarrow> dirtied c c'"
proof (induction rule: core_edit.induct)
  case (6 j i title tree c c')
  then show ?case using dirtied_insert by (simp add: add_tab_def)
next
  case (7 j i title state c c')
  then show ?case using dirtied_insert by (simp add: add_note_tab_def)
next
  case (2 now i title c c')
  then show ?case by (auto simp: add_window_def Let_def split: option.splits)
next
  case (11 p j k r c c')
  then show ?case by (auto simp: split_pane_def split: option.splits)
qed (simp_all add: rename_workspace_def remove_window_def rename_window_def focus_window_def
    set_tab_note_state_def remove_tab_def focus_tab_def focus_pane_def remove_pane_def
    set_pane_ratio_def add_command_to_pane_def clear_command_history_def set_command_pinned_def
    apply_runtime_state_def Let_def split: option.split bool.split prod.split)

section \<open>A small workspace\<close>

text \<open>Used to instantiate the properties: one window, one tab, two panes side by side.\<close>

definition demo_pane :: "string \<Rightarrow> pane" where
  "demo_pane s = \<lparr>p_id = Id s, p_state = empty_pane_state\<rparr>"

definition demo_tab :: tab where
  "demo_tab = empty_tab\<lparr>t_id := Id ''t'',
     t_pane_tree := Split SplitVertical (leaf (demo_pane ''p'')) (leaf (demo_pane ''q'')) (Fin (1/2))\<rparr>"

definition demo_core :: "pane_id option \<Rightarrow> core" where
  "demo_core focus = \<lparr>ws_current = Some (empty_workspace\<lparr>ws_id := Id ''w'',
       ws_windows := [empty_window\<lparr>w_id := Id ''v'', w_tabs := [demo_tab], w_focus_pane_id := focus\<rparr>]\<rparr>),
     ws_dirty = False, ev_log = []\<rparr>"

lemma find_tab_demo: "find_tab (Id ''t'') (demo_core f) =
    Some (empty_window\<lparr>w_id := Id ''v'', w_tabs := [demo_tab], w_focus_pane_id := f\<rparr>, demo_tab)"
  by (simp add: find_tab_def demo_core_def demo_tab_def)

lemma the_tab_demo: "the_tab (Id ''t'') (demo_core f) = Some demo_tab"
  by (simp add: the_tab_def find_tab_demo)

lemma tab_panes_demo: "tab_panes demo_tab = [demo_pane ''p'', demo_pane ''q'']"
  by (simp add: demo_tab_def tab_panes_def leaf_def)

section \<open>Properties\<close>

text \<open>C1: From any well-formed state, as that without a workspace at start, every sequence of engine operations but opening
  a stored workspace and restoring a snapshot, with whatever store, ends in a state whose open workspace, if any, is
  well-formed: unique window, tab and pane identifiers, full pane trees, histories within their cap, note tabs with
  their state, a focused window that exists.  Identifiers are new at their use, a tree handed to a new tab is full or
  empty with identifiers of its own, and a captured history is within the cap.\<close>

theorem reachable_well_formed: "wf_core c0 \<Longrightarrow> (core_step S)\<^sup>*\<^sup>* (c0, s) (c, s') \<Longrightarrow> wf_core c"
  using core_steps_preserve [of S "(c0, s)" "(c, s')"] by simp

lemma reachable_well_formed_witness:
  "\<exists>c s. (core_step (sqlite_storage (\<lambda>_. Some ''x'') (\<lambda>_. None)))\<^sup>*\<^sup>*
       (initial_core, initialize_db True True empty_tables) (c, s) \<and>
     wf_core c \<and> map_option (map w_label \<circ> ws_windows) (ws_current c) = Some [''window'']"
proof -
  let ?S = "sqlite_storage (\<lambda>_. Some ''x'') (\<lambda>_. None)" and ?d = "initialize_db True True empty_tables"
  obtain c s where c: "create_workspace ?S 0 (Id ''w'') '''' (initial_core, ?d) = Inr (Id ''w'', c, s)"
    "map_option ws_windows (ws_current c) = Some []"
    by (simp add: create_workspace_def sqlite_storage_def sqlite_save_workspace_def initialize_db_def
        run_stmt_def next_fault_def workspace_upsert_def lock_def unlock_def Let_def emit_def Workspace_create_def
        empty_workspace_def)
  then obtain ws where ws: "ws_current c = Some ws" "ws_windows ws = []" by auto
  obtain c' where c': "add_window 0 (Id ''v'') '''' c = Inr (Id ''v'', c')"
    "map_option (map w_label \<circ> ws_windows) (ws_current c') = Some [''window'']"
    using ws by (simp add: add_window_def Let_def mark_dirty_def emit_def Window_create_def empty_window_def)
  have "fresh_window (Id ''v'') c" by (simp add: fresh_window_def ws)
  then have "core_step ?S (c, s) (c', s)" using c'(1) by (rule core_step.add_window)
  then have r: "(core_step ?S)\<^sup>*\<^sup>* (initial_core, ?d) (c', s)"
    using core_step.create [OF c(1)] by (meson rtranclp.rtrancl_into_rtrancl rtranclp.rtrancl_refl)
  show ?thesis using r reachable_well_formed [OF wf_initial r] c'(2) by blast
qed

text \<open>C7: A sequence of edits that changed anything left the engine dirty, so that the next \<^verbatim>\<open>persist\<close>
  writes the workspace; and every change was announced by a state-dirty event.\<close>

theorem edits_mark_dirty:
  "core_edit\<^sup>*\<^sup>* c c' \<Longrightarrow> c' = c \<or> ws_dirty c' \<and>
     (\<exists>es. ev_log c' = ev_log c @ es \<and> StateDirty \<in> ev_type ` set es)"
proof (induction rule: rtranclp_induct)
  case (step d d')
  from core_edit_dirtied [OF step(2)] step.IH show ?case unfolding dirtied_def by force
qed simp

lemma edits_mark_dirty_witness:
  "\<exists>c'. core_edit\<^sup>*\<^sup>* (demo_core None) c' \<and> c' \<noteq> demo_core None \<and> ws_dirty c'"
proof -
  let ?c = "snd (rename_workspace (Id ''w'') ''n'' (demo_core None))"
  have r: "core_edit\<^sup>*\<^sup>* (demo_core None) ?c" by (rule r_into_rtranclp) (rule core_edit.intros)
  have ne: "?c \<noteq> demo_core None"
    by (simp add: rename_workspace_def demo_core_def mark_dirty_def Let_def emit_def)
  show ?thesis using edits_mark_dirty [OF r] ne r by blast
qed

text \<open>C4: Splitting a tab whose focused pane is in its tree, or whose tree is one pane, puts the new, empty pane
  directly behind that pane in depth-first order, focuses it, leaves the other tabs alone and marks the workspace
  dirty.\<close>

theorem split_pane_inserts:
  assumes "find_tab tab c = Some (w, t)" "split_target (w_focus_pane_id w) (t_pane_tree t) = Some target"
  shows "\<exists>c' w'. split_pane fresh tab k r c = Inr (fresh, c') \<and> ws_dirty c' \<and>
    the_panes tab c' = Some (insert_after target \<lparr>p_id = fresh, p_state = empty_pane_state\<rparr> (tab_panes t)) \<and>
    map_option fst (find_tab tab c') = Some w' \<and> w_focus_pane_id w' = Some fresh \<and>
    (\<forall>j. j \<noteq> tab \<longrightarrow> the_tab j c' = the_tab j c)"
  using split_pane_found [OF assms(1), of fresh k r] assms(2)
  by (fastforce simp: the_panes_def the_tab_def tab_panes_def collect_split_tree)

lemma split_pane_inserts_witness:
  "\<exists>c'. split_pane (Id ''n'') (Id ''t'') SplitHorizontal (Fin (1/2)) (demo_core (Some (Id ''p''))) = Inr (Id ''n'', c') \<and>
     the_panes (Id ''t'') c' = Some [demo_pane ''p'', demo_pane ''n'', demo_pane ''q'']"
proof -
  have "split_target (Some (Id ''p'')) (t_pane_tree demo_tab) = Some (Id ''p'')"
    by (simp add: split_target_def demo_tab_def leaf_def demo_pane_def)
  from split_pane_inserts [OF find_tab_demo, of "Some (Id ''p'')" "Id ''p''" "Id ''n''" SplitHorizontal "Fin (1/2)"] this
  show ?thesis by (auto simp: tab_panes_demo demo_pane_def)
qed

text \<open>When the window's focus names no pane of a tab that is split, \<^verbatim>\<open>split_pane\<close> still answers with the new
  pane's identifier and focuses it, although the pane is in no tree: the tab's panes are what they were.\<close>

theorem split_pane_loses_pane:
  assumes "find_tab tab c = Some (w, t)" "split_target (w_focus_pane_id w) (t_pane_tree t) = None"
  shows "\<exists>c'. split_pane fresh tab k r c = Inr (fresh, c') \<and> the_panes tab c' = Some (tab_panes t)"
  using split_pane_found [OF assms(1), of fresh k r] assms(2)
  by (fastforce simp: the_panes_def the_tab_def tab_panes_def collect_split_tree)

lemma split_pane_loses_pane_witness:
  "\<exists>c'. split_pane (Id ''n'') (Id ''t'') SplitHorizontal (Fin (1/2)) (demo_core None) = Inr (Id ''n'', c') \<and>
     the_panes (Id ''t'') c' = Some [demo_pane ''p'', demo_pane ''q'']"
proof -
  have "split_target None (t_pane_tree demo_tab) = None"
    by (simp add: split_target_def demo_tab_def leaf_def demo_pane_def empty_id_def)
  with split_pane_loses_pane [OF find_tab_demo, of None "Id ''n''" SplitHorizontal "Fin (1/2)"]
  show ?thesis by (simp add: tab_panes_demo)
qed

text \<open>C5: Removing a pane succeeds exactly when the tab holds it; then the pane is gone from the tab's tree, the
  other panes keep their order, no empty leaf stays behind, and the other tabs are untouched.\<close>

theorem remove_pane_removes:
  assumes "find_tab tab c = Some (w, t)" "wf_tree (t_pane_tree t)" "pane \<in> p_id ` set (tab_panes t)"
  shows "\<exists>c' t'. remove_pane tab pane c = (True, c') \<and> ws_dirty c' \<and> the_tab tab c' = Some t' \<and>
    tab_panes t' = remove_first (\<lambda>p. p_id p = pane) (tab_panes t) \<and> wf_tree (t_pane_tree t') \<and>
    (\<forall>j. j \<noteq> tab \<longrightarrow> the_tab j c' = the_tab j c)"
proof -
  obtain tree where tree: "remove_pane_from_tree (t_pane_tree t) pane = (True, tree)"
    using assms(3) Pane_Tree.remove_pane_found [of "t_pane_tree t" pane]
    by (cases "remove_pane_from_tree (t_pane_tree t) pane") (simp add: tab_panes_def)
  have "collect_panes tree = remove_first (\<lambda>p. p_id p = pane) (tab_panes t)" "wf_tree tree"
    using remove_pane_collect [of "t_pane_tree t" pane] remove_pane_wf [OF assms(2), of pane] tree
    by (simp_all add: tab_panes_def)
  with core_remove_pane_found [OF assms(1) tree] show ?thesis
    by (fastforce simp: the_tab_def tab_panes_def)
qed

lemma remove_pane_removes_witness:
  "\<exists>c' t'. remove_pane (Id ''t'') (Id ''p'') (demo_core None) = (True, c') \<and> the_tab (Id ''t'') c' = Some t' \<and>
     tab_panes t' = [demo_pane ''q'']"
proof -
  have "wf_tree (t_pane_tree demo_tab)" "Id ''p'' \<in> p_id ` set (tab_panes demo_tab)"
    by (simp_all add: demo_tab_def wf_tree_def leaf_def tab_panes_def demo_pane_def)
  with remove_pane_removes [OF find_tab_demo, of "Id ''p''" None] show ?thesis
    by (auto simp add: tab_panes_demo demo_pane_def)
qed

text \<open>A new ratio is accepted exactly when it does not compare below 0 or above 1 (so a NaN is) and the tab is
  split and holds the pane; the panes of the tab stay as they are.\<close>

theorem set_pane_ratio_iff:
  "(fst (set_pane_ratio tab pane q c) \<longleftrightarrow> \<not> dbl_less q (Fin 0) \<and> \<not> dbl_less (Fin 1) q \<and>
     (\<exists>t. the_tab tab c = Some t \<and> \<not> is_leaf (t_pane_tree t) \<and> pane \<in> p_id ` set (tab_panes t))) \<and>
   (fst (set_pane_ratio tab pane q c) \<longrightarrow> the_panes tab (snd (set_pane_ratio tab pane q c)) = the_panes tab c)"
proof -
  note r = set_pane_ratio_result [of tab pane q c]
  have "fst (set_pane_ratio tab pane q c) \<longleftrightarrow> \<not> dbl_less q (Fin 0) \<and> \<not> dbl_less (Fin 1) q \<and>
     (\<exists>t. the_tab tab c = Some t \<and> \<not> is_leaf (t_pane_tree t) \<and> pane \<in> p_id ` set (tab_panes t))"
    unfolding r(1) set_split_ratio_iff tab_panes_def ..
  moreover have "the_panes tab (snd (set_pane_ratio tab pane q c)) = the_panes tab c"
    if ok: "fst (set_pane_ratio tab pane q c)"
  proof -
    from ok r(1) obtain t where t: "the_tab tab c = Some t" by blast
    from r(2) [OF ok t] t show ?thesis by (auto simp: the_panes_def tab_panes_def)
  qed
  ultimately show ?thesis by blast
qed

lemma set_pane_ratio_iff_witness:
  "fst (set_pane_ratio (Id ''t'') (Id ''q'') NaN (demo_core None)) \<and>
   the_panes (Id ''t'') (snd (set_pane_ratio (Id ''t'') (Id ''q'') NaN (demo_core None))) =
     Some [demo_pane ''p'', demo_pane ''q'']"
  using set_pane_ratio_iff [of "Id ''t''" "Id ''q''" NaN "demo_core None"]
  by (simp add: the_tab_demo the_panes_def tab_panes_demo demo_pane_def) (simp add: demo_tab_def)

section \<open>Command history\<close>

lemma history_after:
  assumes "ws_current c = Some ws" "the_tab tab c = Some t" "find_pane (t_pane_tree t) pane = Some p"
    and "body (p_state p) = Some (r, st)"
  shows "fst (on_pane_state tab pane body quiet ws c) = r \<and> ws_dirty (snd (on_pane_state tab pane body quiet ws c)) \<and>
    get_pane_command_history tab pane (snd (on_pane_state tab pane body quiet ws c)) = ps_command_history st"
proof -
  note on_pane_state_found [OF assms(1-3), of body quiet]
  with assms(4) obtain t' where "fst (on_pane_state tab pane body quiet ws c) = r"
    "ws_dirty (snd (on_pane_state tab pane body quiet ws c))"
    "the_tab tab (snd (on_pane_state tab pane body quiet ws c)) = Some t'"
    "t_pane_tree t' = upd_pane_state pane (\<lambda>_. st) (t_pane_tree t)" by auto
  then show ?thesis by (simp add: history_the_tab find_upd_state [OF assms(3)])
qed

lemma the_tab_open: "the_tab tab c = Some t \<Longrightarrow> \<exists>ws. ws_current c = Some ws"
  by (auto simp: the_tab_def find_tab_def split: option.splits)

lemma pin_newest_split:
  assumes "\<forall>x \<in> set post. cr_command x \<noteq> command" "cr_command r = command"
  shows "pin_newest command b (pre @ r # post) = pre @ r\<lparr>cr_pinned := b\<rparr> # post"
proof -
  have "upd_first P f (xs @ y # ys) = xs @ f y # ys" if "\<forall>x \<in> set xs. \<not> P x" "P y" for P f xs y ys
    using that by (induction xs) auto
  from this [of "rev post" "\<lambda>x. cr_command x = command" r] assms show ?thesis
    by (simp add: pin_newest_def)
qed

text \<open>Recording a command in a pane that exists succeeds; a command equal to the pane's last one leaves the
  history as it is, any other is appended, and only the newest 1000 records stay.\<close>

theorem add_command_history:
  assumes "the_tab tab c = Some t" "find_pane (t_pane_tree t) pane = Some p" "cr_command r \<noteq> ''''"
  shows "fst (add_command_to_pane tab pane r c) \<and>
    get_pane_command_history tab pane (snd (add_command_to_pane tab pane r c)) =
      (let h = ps_command_history (p_state p)
       in if h \<noteq> [] \<and> cr_command (last h) = cr_command r then h
          else drop (length h + 1 - kMaxCommandHistoryPerPane) (h @ [r]))"
proof -
  obtain ws where ws: "ws_current c = Some ws" using the_tab_open [OF assms(1)] by blast
  let ?h = "ps_command_history (p_state p)"
  let ?body = "\<lambda>st. map_option (\<lambda>h. (True, st\<lparr>ps_command_history := h\<rparr>)) (push_history r (ps_command_history st))"
  have e: "add_command_to_pane tab pane r c = on_pane_state tab pane ?body True ws c"
    using assms(3) ws by (simp add: add_command_to_pane_def)
  show ?thesis
  proof (cases "?h \<noteq> [] \<and> cr_command (last ?h) = cr_command r")
    case True
    then have "?body (p_state p) = None" by (simp add: push_history_def)
    with on_pane_state_found [OF ws assms(1,2), of ?body True]
    have "on_pane_state tab pane ?body True ws c = (True, c)" by simp
    then show ?thesis using True assms(1,2) by (simp add: e history_the_tab)
  next
    case False
    then have "push_history r ?h = Some (drop (length ?h + 1 - kMaxCommandHistoryPerPane) (?h @ [r]))"
      by (auto simp: push_history_def Let_def)
    then show ?thesis
      using history_after [OF ws assms(1,2), of ?body] False by (auto simp: e Let_def)
  qed
qed

lemma add_command_history_witness:
  "get_pane_command_history (Id ''t'') (Id ''p'')
     (snd (add_command_to_pane (Id ''t'') (Id ''p'') \<lparr>cr_command = ''ls'', cr_timestamp_us = 5, cr_pinned = False\<rparr>
        (demo_core None))) = [\<lparr>cr_command = ''ls'', cr_timestamp_us = 5, cr_pinned = False\<rparr>]"
proof -
  have "find_pane (t_pane_tree demo_tab) (Id ''p'') = Some (demo_pane ''p'')"
    by (simp add: demo_tab_def leaf_def demo_pane_def)
  from add_command_history [OF the_tab_demo this, of "\<lparr>cr_command = ''ls'', cr_timestamp_us = 5, cr_pinned = False\<rparr>" None]
  show ?thesis by (simp add: demo_pane_def empty_pane_state_def kMaxCommandHistoryPerPane_def)
qed

text \<open>Pinning changes the flag of the newest record with the command in the pane's history and nothing else in
  it; with no such record, or no such pane, it reports failure and changes nothing.\<close>

theorem set_command_pinned_newest:
  assumes "the_tab tab c = Some t" "find_pane (t_pane_tree t) pane = Some p" "command \<noteq> ''''"
  shows "(\<forall>pre r post. ps_command_history (p_state p) = pre @ r # post \<longrightarrow> cr_command r = command \<longrightarrow>
      (\<forall>x \<in> set post. cr_command x \<noteq> command) \<longrightarrow>
      fst (set_command_pinned tab pane command b c) \<and>
      get_pane_command_history tab pane (snd (set_command_pinned tab pane command b c)) =
        pre @ r\<lparr>cr_pinned := b\<rparr> # post) \<and>
    ((\<forall>x \<in> set (ps_command_history (p_state p)). cr_command x \<noteq> command) \<longrightarrow>
      set_command_pinned tab pane command b c = (False, c))"
proof -
  obtain ws where ws: "ws_current c = Some ws" using the_tab_open [OF assms(1)] by blast
  let ?body = "\<lambda>st. if \<exists>r \<in> set (ps_command_history st). cr_command r = command
       then Some (True, st\<lparr>ps_command_history := pin_newest command b (ps_command_history st)\<rparr>) else None"
  have e: "set_command_pinned tab pane command b c = on_pane_state tab pane ?body False ws c"
    using assms(3) ws by (simp add: set_command_pinned_def)
  have "fst (set_command_pinned tab pane command b c) \<and>
      get_pane_command_history tab pane (snd (set_command_pinned tab pane command b c)) =
        pre @ r\<lparr>cr_pinned := b\<rparr> # post"
    if h: "ps_command_history (p_state p) = pre @ r # post" "cr_command r = command"
      "\<forall>x \<in> set post. cr_command x \<noteq> command" for pre r post
  proof -
    have "?body (p_state p) =
        Some (True, (p_state p)\<lparr>ps_command_history := pin_newest command b (ps_command_history (p_state p))\<rparr>)"
      using h(1,2) by simp
    from history_after [OF ws assms(1,2), of ?body, OF this]
    show ?thesis using pin_newest_split [OF h(3,2)] by (simp add: e h(1))
  qed
  moreover have "set_command_pinned tab pane command b c = (False, c)"
    if "\<forall>x \<in> set (ps_command_history (p_state p)). cr_command x \<noteq> command"
  proof -
    have "?body (p_state p) = None" using that by auto
    with on_pane_state_found [OF ws assms(1,2), of ?body False] show ?thesis by (simp add: e)
  qed
  ultimately show ?thesis by blast
qed

lemma set_command_pinned_newest_witness:
  "set_command_pinned (Id ''t'') (Id ''p'') ''ls'' True (demo_core None) = (False, demo_core None)"
proof -
  have "find_pane (t_pane_tree demo_tab) (Id ''p'') = Some (demo_pane ''p'')"
    by (simp add: demo_tab_def leaf_def demo_pane_def)
  from set_command_pinned_newest [OF the_tab_demo this, of "''ls''" True None]
  show ?thesis by (simp add: demo_pane_def empty_pane_state_def)
qed

end
