(* ===== verification/Autosave.thy ===== *)
theory Autosave
  imports Prelude
begin

text \<open>
  \<^verbatim>\<open>core/autosave.hpp\<close> and \<^verbatim>\<open>core/autosave.cpp\<close>: the edge-triggered autosave scheduler.  The map
  of pending resources is an association list without repeated keys, in the container's
  unspecified order.  Clock readings are arguments, in nanoseconds; one call reads the clock
  once.  The workspace provider is a function on the scheduler and the rest of the program,
  because it may note new activity while it runs.
\<close>

datatype autosave_kind = KTerminal | KNote | KWorkspace

record entry =
  en_kind :: autosave_kind
  en_last :: int

record autosaver =
  pending :: "(string \<times> entry) list"
  terminal_debounce :: int  \<comment> \<open>milliseconds\<close>
  note_idle :: int

definition new_autosaver :: autosaver where
  "new_autosaver = \<lparr>pending = [], terminal_debounce = 2000, note_idle = 10000\<rparr>"

definition kWorkspaceKey :: string where
  "kWorkspaceKey = ''__remin_workspace__''"

definition note_activity :: "autosave_kind \<Rightarrow> string \<Rightarrow> int \<Rightarrow> autosaver \<Rightarrow> autosaver" where
  "note_activity k key now a =
     a\<lparr>pending := (key, \<lparr>en_kind = k, en_last = now\<rparr>) # filter (\<lambda>(k', _). k' \<noteq> key) (pending a)\<rparr>"

definition note_terminal_activity :: "pane_id \<Rightarrow> int \<Rightarrow> autosaver \<Rightarrow> autosaver" where
  "note_terminal_activity pane = note_activity KTerminal (id_str pane)"

definition note_note_activity :: "string \<Rightarrow> int \<Rightarrow> autosaver \<Rightarrow> autosaver" where
  "note_note_activity noteId = note_activity KNote noteId"

definition note_workspace_activity :: "int \<Rightarrow> autosaver \<Rightarrow> autosaver" where
  "note_workspace_activity = note_activity KWorkspace kWorkspaceKey"

definition threshold :: "autosaver \<Rightarrow> autosave_kind \<Rightarrow> int" where
  "threshold a k = (if k = KNote then note_idle a else terminal_debounce a)"

definition due_entry :: "int \<Rightarrow> autosaver \<Rightarrow> entry \<Rightarrow> bool" where
  "due_entry now a e =
     (let t = threshold a (en_kind e)
      in if t \<le> 0 then False else t * 1000000 \<le> now - en_last e)"

definition due :: "int \<Rightarrow> autosaver \<Rightarrow> bool" where
  "due now a \<longleftrightarrow> (\<exists>(key, e) \<in> set (pending a). due_entry now a e)"

definition write_entry :: "string \<Rightarrow> entry \<Rightarrow> bool" where
  "write_entry key e = (case en_kind e of KTerminal \<Rightarrow> True | KNote \<Rightarrow> True | KWorkspace \<Rightarrow> True)"

type_synonym 'w provider = "autosaver \<times> 'w \<Rightarrow> autosaver \<times> 'w"

definition flush :: "int \<Rightarrow> 'w provider option \<Rightarrow> autosaver \<times> 'w \<Rightarrow> bool \<times> autosaver \<times> 'w" where
  "flush now provider = (\<lambda>(a, w).
     let ready = filter (\<lambda>(key, e). due_entry now a e) (pending a);
         workspace_due = (\<exists>(key, e) \<in> set ready. en_kind e = KWorkspace);
         wrote = (\<exists>(key, e) \<in> set ready. en_kind e = KWorkspace \<or> write_entry key e);
         (a, w) = (case provider of
                     Some p \<Rightarrow> if workspace_due then p (a, w) else (a, w)
                   | None \<Rightarrow> (a, w))
     in (wrote, a\<lparr>pending := filter (\<lambda>(key, _). key \<notin> set (map fst ready)) (pending a)\<rparr>, w))"

definition flush_now :: "'w provider option \<Rightarrow> autosaver \<times> 'w \<Rightarrow> bool \<times> autosaver \<times> 'w" where
  "flush_now provider = (\<lambda>(a, w).
     let (wrote, a, w) = (case provider of
                            Some p \<Rightarrow> (case p (a, w) of (a, w) \<Rightarrow> (True, a, w))
                          | None \<Rightarrow> (False, a, w))
     in (wrote, a\<lparr>pending := []\<rparr>, w))"

section \<open>Lemmas\<close>

definition wf_autosaver :: "autosaver \<Rightarrow> bool" where
  "wf_autosaver a \<longleftrightarrow> distinct (map fst (pending a))"

text \<open>The last activity of a resource, as \<^verbatim>\<open>pending_[key]\<close> holds it.\<close>

definition last_activity :: "autosaver \<Rightarrow> string \<Rightarrow> entry option" where
  "last_activity a = map_of (pending a)"

lemma map_of_filter_key: "map_of (filter (\<lambda>(k, _). P k) xs) k = (if P k then map_of xs k else None)"
  by (induction xs) auto

lemma distinct_filter_keys: "distinct (map fst xs) \<Longrightarrow> distinct (map fst (filter P xs))"
  by (rule distinct_map_filter)

lemma note_activity_wf: "wf_autosaver a \<Longrightarrow> wf_autosaver (note_activity k key now a)"
  by (auto simp: wf_autosaver_def note_activity_def distinct_filter_keys)

lemma last_activity_note:
  "last_activity (note_activity k key now a) key' =
     (if key' = key then Some \<lparr>en_kind = k, en_last = now\<rparr> else last_activity a key')"
  using map_of_filter_key [of "\<lambda>k'. k' \<noteq> key" "pending a" key']
  by (simp add: last_activity_def note_activity_def)

lemma write_entry_True [simp]: "write_entry key e"
  by (simp add: write_entry_def split: autosave_kind.splits)

lemma flush_due: "fst (flush now provider (a, w)) \<longleftrightarrow> due now a"
  by (auto simp: flush_def due_def Let_def split: prod.splits)

text \<open>A provider that does not touch the scheduler.\<close>

definition keeps_scheduler :: "'w provider option \<Rightarrow> bool" where
  "keeps_scheduler provider \<longleftrightarrow> (\<forall>p a w. provider = Some p \<longrightarrow> fst (p (a, w)) = a)"

lemma flush_pending:
  assumes "keeps_scheduler provider"
  shows "fst (snd (flush now provider (a, w))) = a\<lparr>pending :=
    filter (\<lambda>(key, _). key \<notin> fst ` set (filter (\<lambda>(key, e). due_entry now a e) (pending a))) (pending a)\<rparr>"
proof (cases provider)
  case None
  then show ?thesis by (simp add: flush_def Let_def)
next
  case (Some p)
  with assms obtain w' where "p (a, w) = (a, w')"
    unfolding keeps_scheduler_def by (metis prod.collapse)
  with Some show ?thesis by (simp add: flush_def Let_def)
qed

lemma due_entry_cong: "terminal_debounce a = terminal_debounce b \<Longrightarrow> note_idle a = note_idle b \<Longrightarrow>
    due_entry now a e = due_entry now b e"
  by (simp add: due_entry_def threshold_def)

lemma flush_last_activity:
  assumes "wf_autosaver a" "keeps_scheduler provider"
  shows "last_activity (fst (snd (flush now provider (a, w)))) key =
    (case last_activity a key of
       Some e \<Rightarrow> if due_entry now a e then None else Some e
     | None \<Rightarrow> None)"
proof -
  let ?ready = "fst ` set (filter (\<lambda>(key, e). due_entry now a e) (pending a))"
  have r: "key \<in> ?ready \<longleftrightarrow> (\<exists>e. (key, e) \<in> set (pending a) \<and> due_entry now a e)" by force
  have "(key, e) \<in> set (pending a) \<longleftrightarrow> map_of (pending a) key = Some e" for e
    using assms(1) by (simp add: wf_autosaver_def)
  with r have "key \<in> ?ready \<longleftrightarrow> (\<exists>e. map_of (pending a) key = Some e \<and> due_entry now a e)" by simp
  then show ?thesis
    unfolding flush_pending [OF assms(2)]
    by (simp add: last_activity_def map_of_filter_key split: option.splits)
qed

lemma flush_wf:
  assumes "wf_autosaver a" "keeps_scheduler provider"
  shows "wf_autosaver (fst (snd (flush now provider (a, w))))"
  using assms by (simp add: flush_pending wf_autosaver_def distinct_filter_keys)

lemma due_iff_last:
  "wf_autosaver a \<Longrightarrow> due now a \<longleftrightarrow> (\<exists>key e. last_activity a key = Some e \<and> due_entry now a e)"
  by (auto simp: due_def last_activity_def wf_autosaver_def)

lemma flush_not_due:
  assumes "wf_autosaver a" "keeps_scheduler provider"
  shows "\<not> due now (fst (snd (flush now provider (a, w))))"
proof -
  let ?a = "fst (snd (flush now provider (a, w)))"
  have "due_entry now ?a e = due_entry now a e" for e
    by (rule due_entry_cong) (simp_all add: flush_pending [OF assms(2)])
  then show ?thesis
    unfolding due_iff_last [OF flush_wf [OF assms]] flush_last_activity [OF assms]
    by (auto split: option.splits if_splits)
qed

end
