(* ===== verification/Session_Controller.thy ===== *)
theory Session_Controller
  imports Core_Persistence Autosave
begin

text \<open>
  \<^verbatim>\<open>gui/session/session_controller.hpp\<close> and \<^verbatim>\<open>.cpp\<close>: the layer between the windows and the
  engine.  It keeps the window new tabs go to, and stores notes and settings in the text blobs of
  the store under reserved keys.  The engine is always there; the store may be absent, as the
  code's guards allow, and is then \<^const>\<open>None\<close>.
\<close>

section \<open>Windows\<close>

definition my_window :: "nat \<Rightarrow> string" where
  "my_window n = ''My Window '' @ dec_of_nat n"

text \<open>\<^verbatim>\<open>while (taken("My Window " + std::to_string(n))) ++n;\<close>\<close>

function next_label :: "string list \<Rightarrow> nat \<Rightarrow> nat" where
  "next_label labels n = (if my_window n \<in> set labels then next_label labels (n + 1) else n)"
  by pat_completeness auto

lemma my_window_inject [simp]: "my_window m = my_window n \<longleftrightarrow> m = n"
  by (simp add: my_window_def)

lemma finite_taken: "finite {m. n \<le> m \<and> my_window m \<in> set labels}"
proof -
  have "inj my_window" by (simp add: inj_def)
  then have "finite (my_window -` set labels)" by (simp add: finite_vimageI)
  then show ?thesis by (rule rev_finite_subset) auto
qed

termination next_label
proof (relation "measure (\<lambda>(labels, n). card {m. n \<le> m \<and> my_window m \<in> set labels})")
  fix labels n assume "my_window n \<in> set labels"
  then have "n \<in> {m. n \<le> m \<and> my_window m \<in> set labels}"
    "n \<notin> {m. n + 1 \<le> m \<and> my_window m \<in> set labels}"
    "{m. n + 1 \<le> m \<and> my_window m \<in> set labels} \<subseteq> {m. n \<le> m \<and> my_window m \<in> set labels}"
    by simp_all auto
  then have "{m. n + 1 \<le> m \<and> my_window m \<in> set labels} \<subset> {m. n \<le> m \<and> my_window m \<in> set labels}"
    by (metis psubsetI)
  from psubset_card_mono [OF finite_taken this]
  show "((labels, n + 1), labels, n) \<in> measure (\<lambda>(labels, n). card {m. n \<le> m \<and> my_window m \<in> set labels})"
    by simp
qed simp

declare next_label.simps [simp del]

definition default_window_label :: "workspace option \<Rightarrow> string" where
  "default_window_label ws =
     my_window (case ws of Some ws \<Rightarrow> next_label (map w_label (ws_windows ws)) 1 | None \<Rightarrow> 1)"

record session =
  current_window :: window_id

definition ensure_window :: "time_point \<Rightarrow> window_id \<Rightarrow> session \<times> core \<Rightarrow> window_id \<times> session \<times> core" where
  "ensure_window now fresh = (\<lambda>(ses, c).
     case ws_current c of
       None \<Rightarrow> (current_window ses, ses, c)
     | Some ws \<Rightarrow>
         let found = (\<lambda>i. \<exists>w \<in> set (ws_windows ws). w_id w = i);
             use = (\<lambda>i c. (i, ses\<lparr>current_window := i\<rparr>, c))
         in if \<not> id_empty (current_window ses) \<and> found (current_window ses)
            then (current_window ses, ses, c)
            else case ws_focus_window_id ws of
                   Some i \<Rightarrow>
                     if found i then use i c
                     else if ws_windows ws \<noteq> [] then use (w_id (hd (ws_windows ws))) c
                     else (case add_window now fresh (default_window_label (Some ws)) c of
                             Inr (i, c) \<Rightarrow> use i c | Inl _ \<Rightarrow> use empty_id c)
                 | None \<Rightarrow>
                     if ws_windows ws \<noteq> [] then use (w_id (hd (ws_windows ws))) c
                     else (case add_window now fresh (default_window_label (Some ws)) c of
                             Inr (i, c) \<Rightarrow> use i c | Inl _ \<Rightarrow> use empty_id c))"

definition session_add_window :: "time_point \<Rightarrow> window_id \<Rightarrow> string \<Rightarrow> session \<times> core \<Rightarrow>
    core_error + window_id \<times> session \<times> core" where
  "session_add_window now fresh title = (\<lambda>(ses, c).
     case add_window now fresh title c of
       Inl e \<Rightarrow> Inl e
     | Inr (i, c) \<Rightarrow> Inr (i, if \<not> id_empty i then ses\<lparr>current_window := i\<rparr> else ses, c))"

definition session_rename_workspace :: "string \<Rightarrow> core \<Rightarrow> bool \<times> core" where
  "session_rename_workspace name c =
     (case ws_current c of None \<Rightarrow> (False, c) | Some ws \<Rightarrow> rename_workspace (ws_id ws) name c)"

section \<open>Tabs and notes\<close>

record terminal_tab =
  tt_window :: window_id
  tt_tab :: tab_id
  tt_root_pane :: pane_id

text \<open>The last tab the loops of \<^verbatim>\<open>new_terminal_tab\<close> match decides the root pane.\<close>

definition root_pane_of :: "window_id \<Rightarrow> tab_id \<Rightarrow> workspace \<Rightarrow> pane_id" where
  "root_pane_of win tab ws =
     (case [p_id p. w \<leftarrow> ws_windows ws, w_id w = win, t \<leftarrow> w_tabs w, t_id t = tab,
                    p \<leftarrow> (case t_pane_tree t of Leaf (Some p) \<Rightarrow> [p] | _ \<Rightarrow> [])] of
        [] \<Rightarrow> empty_id
      | ps \<Rightarrow> last ps)"

definition new_terminal_tab :: "time_point \<Rightarrow> window_id \<Rightarrow> tab_id \<Rightarrow> pane_id \<Rightarrow> string \<Rightarrow> session \<times> core \<Rightarrow>
    core_error + terminal_tab \<times> session \<times> core" where
  "new_terminal_tab now fresh_w fresh_t fresh_p title sc =
     (let (win, ses, c) = ensure_window now fresh_w sc
      in if id_empty win
         then Inr (\<lparr>tt_window = win, tt_tab = empty_id, tt_root_pane = empty_id\<rparr>, ses, c)
         else case add_tab fresh_t win title (leaf \<lparr>p_id = fresh_p, p_state = empty_pane_state\<rparr>) c of
                Inl e \<Rightarrow> Inl e
              | Inr (tab, c) \<Rightarrow>
                  Inr (\<lparr>tt_window = win, tt_tab = tab,
                        tt_root_pane = (case ws_current c of
                                          Some ws \<Rightarrow> root_pane_of win tab ws | None \<Rightarrow> empty_id)\<rparr>, ses, c))"

definition new_note :: "time_point \<Rightarrow> window_id \<Rightarrow> tab_id \<Rightarrow> pane_id \<Rightarrow> session \<times> core \<Rightarrow>
    core_error + string \<times> session \<times> core" where
  "new_note now fresh_w fresh_t fresh_note sc =
     (let noteId = id_str fresh_note;
          (win, ses, c) = ensure_window now fresh_w sc
      in if id_empty win then Inr ('''', ses, c)
         else
           let st = empty_note_tab_state\<lparr>nt_document_id := noteId,
                      nt_title := (if noteId = '''' then ''note'' else noteId)\<rparr>
           in case add_note_tab fresh_t win (nt_title st) st c of
                Inl e \<Rightarrow> Inl e
              | Inr (_, c) \<Rightarrow> Inr (noteId, ses, c))"

definition note_tab_binding :: "string \<Rightarrow> core \<Rightarrow> (window_id \<times> tab_id) option" where
  "note_tab_binding noteId c =
     (if noteId = '''' then None
      else case ws_current c of
             None \<Rightarrow> None
           | Some ws \<Rightarrow>
               (case [(w_id w, t_id t). w \<leftarrow> ws_windows ws, t \<leftarrow> w_tabs w,
                        t_kind t = Note \<and> map_option nt_document_id (t_note_state t) = Some noteId] of
                  [] \<Rightarrow> None
                | b # _ \<Rightarrow> Some b))"

type_synonym 's store = "('s storage \<times> 's) option"

definition load_text :: "'s store \<Rightarrow> string \<Rightarrow> string option" where
  "load_text st k = map_option (\<lambda>(S, s). load_scrollback S s (Id k)) st"

definition save_text :: "time_point \<Rightarrow> string \<Rightarrow> string \<Rightarrow> 's store \<Rightarrow> 's store" where
  "save_text now k v = map_option (\<lambda>(S, s). (S, store_scrollback S now (Id k) v s))"

definition load_note :: "'s store \<Rightarrow> string \<Rightarrow> string" where
  "load_note st noteId = (case load_text st noteId of Some v \<Rightarrow> v | None \<Rightarrow> '''')"

definition kPathPrefix :: string where
  "kPathPrefix = ''note-path:''"

definition note_path :: "'s store \<Rightarrow> string \<Rightarrow> string" where
  "note_path st noteId = (case load_text st (kPathPrefix @ noteId) of Some v \<Rightarrow> v | None \<Rightarrow> '''')"

definition set_note_path :: "time_point \<Rightarrow> string \<Rightarrow> string \<Rightarrow> 's store \<Rightarrow> 's store" where
  "set_note_path now noteId path = save_text now (kPathPrefix @ noteId) path"

definition kTempPrefix :: string where
  "kTempPrefix = ''remin-note-''"

text \<open>The environment variables \<^verbatim>\<open>XDG_RUNTIME_DIR\<close> and \<^verbatim>\<open>HOME\<close> are arguments.\<close>

definition note_temp_path :: "string option \<Rightarrow> string option \<Rightarrow> string \<Rightarrow> string" where
  "note_temp_path tmp home noteId =
     (let dir = (case tmp of
                   Some t \<Rightarrow> if t \<noteq> '''' then Some (t @ ''/remin'') else None
                 | None \<Rightarrow> None);
          dir = (case dir of
                   Some d \<Rightarrow> d
                 | None \<Rightarrow> (case home of
                     Some h \<Rightarrow> if h \<noteq> '''' then h @ ''/.local/share/remin/tmp'' else ''/tmp/remin''
                   | None \<Rightarrow> ''/tmp/remin''))
      in dir @ ''/'' @ kTempPrefix @ noteId @ ''.md'')"

section \<open>Settings\<close>

definition flag_text :: "bool \<Rightarrow> string" where
  "flag_text b = (if b then ''1'' else ''0'')"

definition autosave_temp_enabled :: "'s store \<Rightarrow> bool" where
  "autosave_temp_enabled st =
     (case load_text st ''settings:autosave-temp'' of None \<Rightarrow> True | Some v \<Rightarrow> v = ''1'')"

definition set_autosave_temp_enabled :: "time_point \<Rightarrow> bool \<Rightarrow> 's store \<Rightarrow> 's store" where
  "set_autosave_temp_enabled now b = save_text now ''settings:autosave-temp'' (flag_text b)"

definition auto_reload_enabled :: "'s store \<Rightarrow> bool" where
  "auto_reload_enabled st =
     (case load_text st ''settings:autoreload'' of None \<Rightarrow> False | Some v \<Rightarrow> v = ''1'')"

definition set_auto_reload_enabled :: "time_point \<Rightarrow> bool \<Rightarrow> 's store \<Rightarrow> 's store" where
  "set_auto_reload_enabled now b = save_text now ''settings:autoreload'' (flag_text b)"

definition auto_show_panel_enabled :: "'s store \<Rightarrow> bool" where
  "auto_show_panel_enabled st =
     (case load_text st ''settings:autoshow-panel'' of None \<Rightarrow> False | Some v \<Rightarrow> v = ''1'')"

definition set_auto_show_panel_enabled :: "time_point \<Rightarrow> bool \<Rightarrow> 's store \<Rightarrow> 's store" where
  "set_auto_show_panel_enabled now b = save_text now ''settings:autoshow-panel'' (flag_text b)"

definition persist_open_windows :: "'s store \<Rightarrow> bool" where
  "persist_open_windows st =
     (case load_text st ''settings:persist-open-windows'' of None \<Rightarrow> True | Some v \<Rightarrow> v = '''' \<or> v = ''1'')"

definition set_persist_open_windows :: "time_point \<Rightarrow> bool \<Rightarrow> 's store \<Rightarrow> 's store" where
  "set_persist_open_windows now b = save_text now ''settings:persist-open-windows'' (flag_text b)"

definition window_history_enabled :: "'s store \<Rightarrow> bool" where
  "window_history_enabled st =
     (case load_text st ''settings:window-history'' of None \<Rightarrow> True | Some v \<Rightarrow> v = '''' \<or> v = ''1'')"

definition set_window_history_enabled :: "time_point \<Rightarrow> bool \<Rightarrow> 's store \<Rightarrow> 's store" where
  "set_window_history_enabled now b = save_text now ''settings:window-history'' (flag_text b)"

definition theme_dark :: "'s store \<Rightarrow> bool" where
  "theme_dark st = (case load_text st ''settings:theme-dark'' of None \<Rightarrow> False | Some v \<Rightarrow> v = ''1'')"

definition set_theme_dark :: "time_point \<Rightarrow> bool \<Rightarrow> 's store \<Rightarrow> 's store" where
  "set_theme_dark now b = save_text now ''settings:theme-dark'' (flag_text b)"

definition markdown_css_path :: "'s store \<Rightarrow> string" where
  "markdown_css_path st = (case load_text st ''settings:markdown-css'' of None \<Rightarrow> '''' | Some v \<Rightarrow> v)"

definition set_markdown_css_path :: "time_point \<Rightarrow> string \<Rightarrow> 's store \<Rightarrow> 's store" where
  "set_markdown_css_path now path = save_text now ''settings:markdown-css'' path"

datatype unsaved_close = Ask | Keep | Skip

definition unsaved_close_behavior :: "'s store \<Rightarrow> unsaved_close" where
  "unsaved_close_behavior st =
     (case load_text st ''settings:unsaved-close'' of
        None \<Rightarrow> Ask
      | Some v \<Rightarrow> if v = ''keep'' then Keep else if v = ''skip'' then Skip else Ask)"

definition unsaved_close_text :: "unsaved_close \<Rightarrow> string" where
  "unsaved_close_text b =
     (if b = Keep then ''keep'' else if b = Skip then ''skip'' else ''ask'')"

definition set_unsaved_close_behavior :: "time_point \<Rightarrow> unsaved_close \<Rightarrow> 's store \<Rightarrow> 's store" where
  "set_unsaved_close_behavior now b = save_text now ''settings:unsaved-close'' (unsaved_close_text b)"

text \<open>A profile is its foreground and background; two empty texts mean there is none.\<close>

definition load_profile :: "string \<Rightarrow> string \<Rightarrow> 's store \<Rightarrow> (string \<times> string) option" where
  "load_profile fg_key bg_key st =
     (case (load_text st fg_key, load_text st bg_key) of
        (Some fg, Some bg) \<Rightarrow> if fg = '''' \<and> bg = '''' then None else Some (fg, bg)
      | _ \<Rightarrow> None)"

definition color_profile :: "'s store \<Rightarrow> (string \<times> string) option" where
  "color_profile = load_profile ''settings:color-profile-fg'' ''settings:color-profile-bg''"

definition set_color_profile :: "time_point \<Rightarrow> string \<times> string \<Rightarrow> 's store \<Rightarrow> 's store" where
  "set_color_profile now p st =
     save_text now ''settings:color-profile-bg'' (snd p) (save_text now ''settings:color-profile-fg'' (fst p) st)"

definition terminal_colors :: "'s store \<Rightarrow> (string \<times> string) option" where
  "terminal_colors = load_profile ''settings:terminal-fg'' ''settings:terminal-bg''"

definition set_terminal_colors :: "time_point \<Rightarrow> string \<Rightarrow> string \<Rightarrow> 's store \<Rightarrow> 's store" where
  "set_terminal_colors now fg bg st =
     save_text now ''settings:terminal-bg'' bg (save_text now ''settings:terminal-fg'' fg st)"

section \<open>Command history\<close>

definition kHistoryKey :: string where
  "kHistoryKey = ''settings:command-history''"

definition migrate_legacy_command_history :: "time_point \<Rightarrow> core \<times> 's store \<Rightarrow> core \<times> 's store" where
  "migrate_legacy_command_history now = (\<lambda>(c, st).
     case load_text st kHistoryKey of
       None \<Rightarrow> (c, st)
     | Some existing \<Rightarrow>
         if existing = '''' then (c, st)
         else case ws_current c of
                None \<Rightarrow> (c, st)
              | Some ws \<Rightarrow>
                  (case [(t_id t, p_id p). t \<leftarrow> all_tabs ws, p \<leftarrow> tab_panes t,
                           ps_command_history (p_state p) = []] of
                     [] \<Rightarrow> (c, st)
                   | (tab, pane) # _ \<Rightarrow>
                       (foldl (\<lambda>c line. snd (add_command_to_pane tab pane
                                 \<lparr>cr_command = line, cr_timestamp_us = 0, cr_pinned = False\<rparr> c))
                          c (filter (\<lambda>l. l \<noteq> '''') (getlines existing)),
                        save_text now kHistoryKey '''' st)))"

definition history_entries_of :: "pane_id \<Rightarrow> core \<Rightarrow> history_entry list" where
  "history_entries_of pane c =
     (case ws_current c of
        None \<Rightarrow> []
      | Some ws \<Rightarrow> filter (\<lambda>e. id_empty pane \<or> he_pane e = pane) (aggregate_command_history ws))"

definition get_command_history :: "pane_id \<Rightarrow> core \<Rightarrow> string list" where
  "get_command_history pane c = map (\<lambda>e. cr_command (he_record e)) (history_entries_of pane c)"

definition get_command_history_records :: "pane_id \<Rightarrow> core \<Rightarrow> command_record list" where
  "get_command_history_records pane c = rev (map he_record (history_entries_of pane c))"

definition session_set_command_pinned :: "pane_id \<Rightarrow> string \<Rightarrow> bool \<Rightarrow> core \<Rightarrow> bool \<times> core" where
  "session_set_command_pinned pane command pinned c =
     (if id_empty pane \<or> command = '''' then (False, c)
      else case ws_current c of
             None \<Rightarrow> (False, c)
           | Some ws \<Rightarrow>
               (case find (\<lambda>e. he_pane e = pane \<and> cr_command (he_record e) = command)
                       (aggregate_command_history ws) of
                  None \<Rightarrow> (False, c)
                | Some e \<Rightarrow> set_command_pinned (he_tab e) (he_pane e) command pinned c))"

section \<open>Checkpoints\<close>

text \<open>The window's capture of its widgets runs first, when one is registered.\<close>

definition capture_all_runtime_state :: "(core \<Rightarrow> core) option \<Rightarrow> core \<Rightarrow> core" where
  "capture_all_runtime_state capture c = (case capture of Some f \<Rightarrow> f c | None \<Rightarrow> c)"

definition session_checkpoint :: "'s storage \<Rightarrow> time_point \<Rightarrow> snapshot_id \<Rightarrow> string \<Rightarrow> (core \<Rightarrow> core) option \<Rightarrow>
    core \<times> 's \<Rightarrow> bool option \<times> core \<times> 's" where
  "session_checkpoint S now fresh reason capture = (\<lambda>(c, s).
     core_checkpoint S now fresh reason (capture_all_runtime_state capture c, s))"

definition checkpoint_recovery :: "'s storage \<Rightarrow> time_point \<Rightarrow> snapshot_id \<Rightarrow> (core \<Rightarrow> core) option \<Rightarrow>
    core \<times> 's \<Rightarrow> bool option \<times> core \<times> 's" where
  "checkpoint_recovery S now fresh = session_checkpoint S now fresh ''recovery''"

definition checkpoint_manual :: "'s storage \<Rightarrow> time_point \<Rightarrow> snapshot_id \<Rightarrow> (core \<Rightarrow> core) option \<Rightarrow>
    core \<times> 's \<Rightarrow> bool option \<times> core \<times> 's" where
  "checkpoint_manual S now fresh = session_checkpoint S now fresh ''manual''"

section \<open>Lemmas\<close>

lemma next_label_free: "my_window (next_label labels n) \<notin> set labels"
proof (induction labels n rule: next_label.induct)
  case (1 labels n)
  then show ?case by (subst next_label.simps) simp
qed

lemma next_label_least: "n \<le> m \<Longrightarrow> m < next_label labels n \<Longrightarrow> my_window m \<in> set labels"
proof (induction labels n rule: next_label.induct)
  case (1 labels n)
  have "my_window n \<in> set labels"
    using 1(2,3) next_label.simps [of labels n] by (auto split: if_splits)
  moreover from this have "next_label labels n = next_label labels (n + 1)"
    by (subst next_label.simps) simp
  ultimately show ?case using 1 by (cases "m = n") auto
qed

lemma next_label_ge: "n \<le> next_label labels n"
proof (induction labels n rule: next_label.induct)
  case (1 labels n)
  then show ?case by (subst next_label.simps) auto
qed

text \<open>\<^const>\<open>ensure_window\<close> always answers with a window of the open workspace, and pins it.\<close>

lemma ensure_window_in:
  assumes "ws_current c = Some ws" "ensure_window now fresh (ses, c) = (i, ses', c')"
  shows "\<exists>ws'. ws_current c' = Some ws' \<and> (\<exists>w \<in> set (ws_windows ws'). w_id w = i) \<and>
    current_window ses' = i \<and> (ws_windows ws \<noteq> [] \<longrightarrow> c' = c)"
  using assms
  by (auto simp: ensure_window_def Let_def add_window_def Window_create_def empty_window_def
      mark_dirty_def emit_def split: option.splits if_splits)

text \<open>Text under a key, told apart from other keys, when no NUL is involved.\<close>

locale text_store = storage_contract +
  assumes key_plain: "CHR 0x00 \<notin> set v \<Longrightarrow> key v = v"
begin

definition healthy_store :: "'a store \<Rightarrow> bool" where
  "healthy_store st \<longleftrightarrow> (case st of Some (S', s) \<Rightarrow> S' = S \<and> healthy s | None \<Rightarrow> False)"

lemma load_save_text:
  assumes "healthy_store st" "CHR 0x00 \<notin> set v"
  shows "load_text (save_text now k v st) k = Some v \<and> healthy_store (save_text now k v st)"
proof -
  obtain s where "st = Some (S, s)" "healthy s"
    using assms(1) by (auto simp: healthy_store_def split: option.splits)
  with scrollback_law [of s now "Id k" v] key_plain [OF assms(2)] show ?thesis
    by (simp add: load_text_def save_text_def healthy_store_def)
qed

lemma load_save_other:
  assumes "healthy_store st" "CHR 0x00 \<notin> set k" "CHR 0x00 \<notin> set k'" "k' \<noteq> k"
  shows "load_text (save_text now k v st) k' = load_text st k'"
proof -
  obtain s where "st = Some (S, s)" "healthy s"
    using assms(1) by (auto simp: healthy_store_def split: option.splits)
  with scrollback_law [of s now "Id k" v] key_plain [OF assms(2)] key_plain [OF assms(3)] assms(4)
  show ?thesis by (simp add: load_text_def save_text_def)
qed

end

lemma cstr_plain: "CHR 0x00 \<notin> set v \<Longrightarrow> cstr v = v"
  by (auto simp: cstr_def takeWhile_eq_all_conv)

interpretation sqlite_text: text_store "sqlite_storage dump parse" idle "storable dump parse" cstr snapshot_free
  for dump parse
  by unfold_locales (rule cstr_plain)

end
