(* ===== verification/Storage_Properties.thy ===== *)
theory Storage_Properties
  imports Core_Persistence Session_Controller
begin

text \<open>
  Properties of the engine, the session and the SQLite store together: what a checkpoint, a save
  and a delete leave for the next start, and what goes wrong with the store's mutex and with
  closed windows.
\<close>

section \<open>Properties\<close>

definition plain_workspace :: workspace where
  "plain_workspace = empty_workspace\<lparr>ws_id := Id ''w'', ws_name := ''n''\<rparr>"

definition plain_core :: core where
  "plain_core = \<lparr>ws_current = Some plain_workspace, ws_dirty = True, ev_log = []\<rparr>"

definition plain_db :: sqlite where
  "plain_db = initialize_db True True empty_tables"

lemma idle_plain [simp]: "idle plain_db"
  by (simp add: idle_def plain_db_def initialize_db_def)

lemma plain_storable:
  "ws = stamped 0 plain_workspace \<or> ws = plain_workspace \<Longrightarrow>
   storable (\<lambda>_. Some ''x'') (\<lambda>_. Some (as_text (workspace_to_json ws))) ws"
  by (auto simp: storable_def cstr_def finite_workspace_def stamped_def plain_workspace_def empty_workspace_def
      empty_ui_def)

lemma plain_core_simps [simp]: "ws_current plain_core = Some plain_workspace" "ws_dirty plain_core"
  by (simp_all add: plain_core_def)

text \<open>C2: A checkpoint on a healthy store succeeds, clears the dirty flag, counts a generation, and the next start
  opens the workspace as it was, up to what the format does not keep.  The panes' identifiers must differ up to a
  NUL, the snapshot identifier must be new, and no older blob may be stored for a pane whose snapshot is now
  empty.\<close>

theorem checkpoint_survives:
  assumes "idle d" "storable dump parse (stamped now ws)" "ws_current c = Some ws" "snapshot_free d (ws_id ws) snap"
    and "distinct (map (\<lambda>(p, data). cstr (id_str p)) (pane_blobs ws))"
    and "\<And>p. p \<in> set (all_panes (norm_workspace ws)) \<Longrightarrow> ps_snapshot_data (p_state p) = [] \<Longrightarrow>
      cstr (id_str (p_id p)) \<notin> set (map (\<lambda>(p, data). cstr (id_str p)) (pane_blobs ws)) \<and>
      load_pane_blob (sqlite_storage dump parse) d (p_id p) = []"
  shows "\<exists>c' d'. core_checkpoint (sqlite_storage dump parse) now snap reason (c, d) = (Some True, c', d') \<and>
    idle d' \<and> \<not> ws_dirty c' \<and> ws_current c' = Some (stamped now ws) \<and>
    (\<exists>c''. open_workspace (sqlite_storage dump parse) (ws_id ws) (c0, d') = (True, c'') \<and>
       ws_current c'' = Some (norm_workspace (stamped now ws)))"
  by (rule sqlite.checkpoint_then_open [OF assms])

lemma checkpoint_survives_witness:
  "\<exists>S c' d'. core_checkpoint S 0 (Id ''s'') ''manual'' (plain_core, plain_db) = (Some True, c', d') \<and> \<not> ws_dirty c' \<and>
    (\<exists>c''. open_workspace S (Id ''w'') (initial_core, d') = (True, c'') \<and>
       map_option ws_name (ws_current c'') = Some ''n'')"
proof -
  let ?parse = "\<lambda>_. Some (as_text (workspace_to_json (stamped 0 plain_workspace)))"
  have s: "storable (\<lambda>_. Some ''x'') ?parse (stamped 0 plain_workspace)" by (rule plain_storable) simp
  have f: "snapshot_free plain_db (ws_id plain_workspace) (Id ''s'')"
    by (simp add: snapshot_free_def plain_db_def initialize_db_def empty_tables_def)
  have b: "pane_blobs plain_workspace = []" "all_panes (norm_workspace plain_workspace) = []"
    by (simp_all add: pane_blobs_def all_panes_def plain_workspace_def empty_workspace_def norm_workspace_def)
  have "ws_id plain_workspace = Id ''w''" "ws_name (norm_workspace (stamped 0 plain_workspace)) = ''n''"
    by (simp_all add: plain_workspace_def norm_workspace_def stamped_def)
  with checkpoint_survives [OF idle_plain s plain_core_simps(1) f, of "''manual''" initial_core] b show ?thesis
    by fastforce
qed

text \<open>C3: A checkpoint that does not succeed, because beginning, a statement, the commit or the serialisation
  failed, leaves the durable tables as they were, and the engine as dirty as it was.\<close>

theorem checkpoint_all_or_nothing:
  assumes "core_checkpoint (sqlite_storage dump parse) now snap reason (c, d) = (res, c', d')" "res \<noteq> Some True"
  shows "durable d' = durable d \<and> ws_dirty c' = ws_dirty c"
proof (cases "ws_current c")
  case None
  then show ?thesis using assms by (simp add: core_checkpoint_def)
next
  case (Some ws)
  let ?ws = "ws\<lparr>ws_last_saved_at := now, ws_generation := ws_generation ws + 1\<rparr>"
  obtain ok e where e: "sqlite_checkpoint dump now snap (ws_id ?ws) (workspace_to_json ?ws)
      (ws_schema_version ?ws) (ws_generation ?ws) reason (pane_blobs ?ws) d = (ok, e)"
    by (meson surj_pair)
  have "res = ok" "d' = e" "c' = (if ok = Some True then c\<lparr>ws_current := Some ?ws, ws_dirty := False\<rparr>
      else c\<lparr>ws_current := Some ?ws\<rparr>)"
    using assms(1) e by (auto simp: core_checkpoint_def Some Let_def sqlite_storage_def split: if_splits)
  with assms(2) checkpoint_atomic [OF e] show ?thesis by auto
qed

lemma checkpoint_all_or_nothing_witness:
  "\<exists>c' d'. core_checkpoint (sqlite_storage (\<lambda>_. None) (\<lambda>_. None)) 0 (Id ''s'') ''r'' (plain_core, plain_db) = (None, c', d') \<and>
     durable d' = durable plain_db"
proof -
  obtain c' d' where r: "core_checkpoint (sqlite_storage (\<lambda>_. None) (\<lambda>_. None)) 0 (Id ''s'') ''r'' (plain_core, plain_db) =
      (None, c', d')"
    by (simp add: core_checkpoint_def Let_def sqlite_storage_def sqlite_checkpoint_def tx_begin_def next_fault_def
        plain_db_def initialize_db_def lock_def)
  with checkpoint_all_or_nothing [OF r] show ?thesis by blast
qed

text \<open>Saving a dirty workspace and opening it again gives the workspace back, up to what the format does not
  keep, with each pane's snapshot as the store holds it.\<close>

theorem persist_survives:
  assumes "idle d" "storable dump parse ws" "ws_current c = Some ws" "ws_dirty c"
  shows "\<exists>d'. persist (sqlite_storage dump parse) (c, d) = Inr (True, c\<lparr>ws_dirty := False\<rparr>, d') \<and> idle d' \<and>
    (\<exists>c'. open_workspace (sqlite_storage dump parse) (ws_id ws) (c0, d') = (True, c') \<and>
       ws_current c' = Some (map_workspace_panes (overlay_blob sqlite_load_pane_snapshot d) (norm_workspace ws)))"
  using sqlite.persist_then_open [OF assms] by (simp add: sqlite_storage_def)

lemma persist_survives_witness:
  "\<exists>S d'. persist S (plain_core, plain_db) = Inr (True, plain_core\<lparr>ws_dirty := False\<rparr>, d') \<and>
    (\<exists>c'. open_workspace S (Id ''w'') (initial_core, d') = (True, c') \<and>
       map_option ws_name (ws_current c') = Some ''n'')"
proof -
  have s: "storable (\<lambda>_. Some ''x'') (\<lambda>_. Some (as_text (workspace_to_json plain_workspace))) plain_workspace"
    by (rule plain_storable) simp
  have "ws_id plain_workspace = Id ''w''" "\<And>g. ws_name (map_workspace_panes g (norm_workspace plain_workspace)) = ''n''"
    by (simp_all add: plain_workspace_def norm_workspace_def map_workspace_panes_def)
  with persist_survives [OF idle_plain s plain_core_simps, of initial_core] show ?thesis by fastforce
qed

text \<open>A new workspace can be opened again under the name it was given; deleting a workspace that is not open makes
  it impossible to open.\<close>

theorem create_delete_open:
  assumes "idle d" "storable dump parse (Workspace_create now (if name = '''' then ''untitled'' else name) i)"
    and "ws_current ca = None \<or> ws_id (the (ws_current ca)) \<noteq> i"
  shows "\<exists>c d'. create_workspace (sqlite_storage dump parse) now i name (initial_core, d) = Inr (i, c, d') \<and>
    (\<exists>c'. open_workspace (sqlite_storage dump parse) i (cb, d') = (True, c') \<and>
       map_option ws_name (ws_current c') = Some (if name = '''' then ''untitled'' else name)) \<and>
    core_delete_workspace (sqlite_storage dump parse) i (c, d') = (False, d') \<and>
    (\<exists>d''. core_delete_workspace (sqlite_storage dump parse) i (ca, d') = (True, d'') \<and>
       open_workspace (sqlite_storage dump parse) i (cb, d'') = (False, cb))"
proof -
  let ?S = "sqlite_storage dump parse"
  obtain c d' where c: "create_workspace ?S now i name (initial_core, d) = Inr (i, c, d')" "idle d'"
    "\<exists>c'. open_workspace ?S i (cb, d') = (True, c') \<and>
       map_option ws_name (ws_current c') = Some (if name = '''' then ''untitled'' else name)"
    using sqlite.create_then_open [OF assms(1,2), of initial_core cb] by blast
  have "map_option ws_id (ws_current c) = Some i"
    using c(1) by (auto simp: create_workspace_def Let_def emit_def Workspace_create_def split: option.splits)
  then have "core_delete_workspace ?S i (c, d') = (False, d')"
    by (auto simp: core_delete_workspace_def split: option.splits)
  then show ?thesis using c sqlite.delete_forgets [OF c(2) assms(3), of dump parse cb] by blast
qed

lemma create_delete_open_witness:
  "\<exists>S c d'. create_workspace S 0 (Id ''w'') ''n'' (initial_core, plain_db) = Inr (Id ''w'', c, d') \<and>
    (\<exists>d''. core_delete_workspace S (Id ''w'') (initial_core, d') = (True, d'') \<and>
       open_workspace S (Id ''w'') (initial_core, d'') = (False, initial_core))"
proof -
  have w: "Workspace_create 0 (if ''n'' = '''' then ''untitled'' else ''n'') (Id ''w'') = plain_workspace"
    by (simp add: Workspace_create_def plain_workspace_def empty_workspace_def)
  have s: "storable (\<lambda>_. Some ''x'') (\<lambda>_. Some (as_text (workspace_to_json plain_workspace))) plain_workspace"
    by (rule plain_storable) simp
  have "ws_current initial_core = None" by (simp add: initial_core_def)
  with create_delete_open [OF idle_plain s [folded w], where ca = initial_core and cb = initial_core]
  show ?thesis by blast
qed

text \<open>C11: A workspace whose times are not before 1970 is read back from its JSON up to the environment of its panes,
  the empty leaf, the high half of the generation and times below a millisecond; so reading back what was read
  changes nothing more.\<close>

theorem workspace_json_roundtrip:
  assumes "0 \<le> sint (ws_created_at ws)" "0 \<le> sint (ws_last_saved_at ws)"
  shows "workspace_from_json (workspace_to_json ws) = Some (norm_workspace ws)"
  by (rule workspace_roundtrip_norm [OF assms])

lemma workspace_json_roundtrip_witness:
  "workspace_from_json (workspace_to_json plain_workspace) = Some (norm_workspace plain_workspace)"
  by (rule workspace_json_roundtrip) (simp_all add: plain_workspace_def empty_workspace_def)

text \<open>C22: Migrating the JSON of a workspace that can be read never fails and never changes what is read from it.\<close>

theorem migration_keeps_meaning:
  assumes "workspace_from_json j = Some ws"
  shows "\<exists>j'. migrate_workspace_json j = Some j' \<and> workspace_from_json j' = Some ws"
  by (rule migrate_workspace_meaning [OF assms])

lemma migration_keeps_meaning_witness:
  "\<exists>j. migrate_workspace_json (workspace_to_json plain_workspace) = Some j \<and>
     workspace_from_json j = Some (norm_workspace plain_workspace)"
proof -
  have "workspace_from_json (workspace_to_json plain_workspace) = Some (norm_workspace plain_workspace)"
    by (rule workspace_roundtrip_norm) (simp_all add: plain_workspace_def empty_workspace_def)
  then show ?thesis by (rule migration_keeps_meaning)
qed

section \<open>The store's mutex and open transactions\<close>

text \<open>A successful checkpoint unlocks the database's mutex once more than it locked it: \<^verbatim>\<open>commit\<close> unlocks, and
  the destructor unlocks again.\<close>

theorem checkpoint_unlocks_twice:
  assumes "sqlite_checkpoint dump now snap i state v g reason blobs d = (Some True, d')"
  shows "db_lock d' = db_lock d - 1"
proof -
  have ok: "sq_ok d" using assms by (auto simp: sqlite_checkpoint_def split: if_splits)
  obtain tx d1 where tx: "tx_begin d = (tx, d1)" by (cases "tx_begin d")
  then have b: "db_lock d1 = db_lock d + 1" "\<not> tx_committed tx" using tx_begin_cases by auto
  from assms ok obtain ss where ss: "tx_ok tx" "tx_run ss (tx, d1) = (True, d')"
    by (auto simp: sqlite_checkpoint_def tx Let_def split: if_splits option.splits prod.splits)
  obtain written e where e: "run_stmts ss d1 = (written, e)" by (cases "run_stmts ss d1")
  with ss b run_stmts_journal [OF e] show ?thesis
    by (auto simp: tx_run_def tx_commit_def next_fault_def tx_destroy_def unlock_def split: if_splits list.splits)
qed

lemma checkpoint_unlocks_twice_witness:
  "\<exists>d'. sqlite_checkpoint (\<lambda>_. Some ''x'') 0 (Id ''s'') (Id ''w'') (JObject []) 1 1 ''r'' [] plain_db = (Some True, d') \<and>
     db_lock d' = -1"
proof -
  obtain d' where r: "sqlite_checkpoint (\<lambda>_. Some ''x'') 0 (Id ''s'') (Id ''w'') (JObject []) 1 1 ''r'' [] plain_db =
      (Some True, d')"
    by (simp add: sqlite_checkpoint_def tx_begin_def next_fault_def plain_db_def initialize_db_def lock_def
        tx_run_def run_stmt_def workspace_upsert_def snapshot_insert_def sql_insert_def empty_tables_def
        checkpoint_snapshot_row_def tx_commit_def unlock_def tx_destroy_def)
  from checkpoint_unlocks_twice [OF r] r show ?thesis by (simp add: plain_db_def initialize_db_def)
qed

text \<open>Checkpoints one after the other on a connection, and what each returns.\<close>

record checkpoint_call =
  cc_now :: time_point
  cc_snapshot :: snapshot_id
  cc_workspace :: workspace_id
  cc_state :: json
  cc_version :: i32
  cc_generation :: i64
  cc_reason :: string
  cc_blobs :: "(pane_id \<times> bytes) list"

fun checkpoints :: "(json \<Rightarrow> string option) \<Rightarrow> checkpoint_call list \<Rightarrow> sqlite \<Rightarrow> bool option list \<times> sqlite" where
  "checkpoints dump [] d = ([], d)"
| "checkpoints dump (k # ks) d =
     (let (r, d) = sqlite_checkpoint dump (cc_now k) (cc_snapshot k) (cc_workspace k) (cc_state k) (cc_version k)
            (cc_generation k) (cc_reason k) (cc_blobs k) d;
          (rs, d) = checkpoints dump ks d
      in (r # rs, d))"

lemma open_transaction_refuses:
  assumes "db_journal d = Some t" "sq_ok d"
  shows "\<exists>e. sqlite_checkpoint dump now snap i state v g reason blobs d = (Some False, e) \<and> db_journal e = Some t \<and> sq_ok e"
proof -
  obtain tx e where b: "tx_begin d = (tx, e)" by (cases "tx_begin d")
  with assms have "\<not> tx_ok tx" "db_journal e = Some t" "sq_ok e"
    by (auto simp: tx_begin_def next_fault_def lock_def split: list.splits if_splits)
  with assms b show ?thesis by (auto simp: sqlite_checkpoint_def tx_destroy_def unlock_def)
qed

lemma open_transaction_refuses_all:
  "db_journal d = Some t \<Longrightarrow> sq_ok d \<Longrightarrow>
   \<exists>e. checkpoints dump ks d = (replicate (length ks) (Some False), e) \<and> db_journal e = Some t"
proof (induction ks arbitrary: d)
  case (Cons k ks)
  then show ?case
    using open_transaction_refuses [OF Cons.prems, of dump "cc_now k" "cc_snapshot k" "cc_workspace k" "cc_state k"
        "cc_version k" "cc_generation k" "cc_reason k" "cc_blobs k"] by (fastforce simp: Let_def)
qed simp

text \<open>C40: A \<^verbatim>\<open>COMMIT\<close> that SQLite refuses as busy leaves the transaction open after the destructor has run, and from then on
  every checkpoint on the connection, however many are tried, fails and leaves it open.\<close>

theorem failed_commit_wedges:
  assumes "tx_ok tx" "\<not> tx_committed tx" "db_journal d = Some t" "sq_ok d" "db_busy d = True # bs"
    "tx_commit (tx, d) = (False, tx', d')"
  shows "\<exists>e. checkpoints dump ks (tx_destroy (tx', d')) = (replicate (length ks) (Some False), e) \<and> db_journal e = Some t"
proof -
  have "db_journal (tx_destroy (tx', d')) = Some t" "sq_ok (tx_destroy (tx', d'))"
    using assms by (auto simp: tx_commit_def failed_commit_def next_fault_def tx_destroy_def unlock_def split: list.splits if_splits)
  then show ?thesis by (rule open_transaction_refuses_all)
qed

lemma failed_commit_wedges_witness:
  "\<exists>d e. db_journal d = Some empty_tables \<and> checkpoints (\<lambda>_. Some ''x'') (replicate 2
      \<lparr>cc_now = 0, cc_snapshot = Id ''s'', cc_workspace = Id ''w'', cc_state = JObject [], cc_version = 1, cc_generation = 1,
       cc_reason = ''r'', cc_blobs = []\<rparr>) d = ([Some False, Some False], e)"
proof -
  let ?tx = "\<lparr>tx_ok = True, tx_committed = False\<rparr>" and
    ?d = "plain_db\<lparr>db_journal := Some empty_tables, db_faults := [True], db_busy := [True]\<rparr>"
  let ?k = "\<lparr>cc_now = 0, cc_snapshot = Id ''s'', cc_workspace = Id ''w'', cc_state = JObject [], cc_version = 1, cc_generation = 1,
       cc_reason = ''r'', cc_blobs = []\<rparr>"
  obtain tx' d' where c: "tx_commit (?tx, ?d) = (False, tx', d')"
    by (simp add: tx_commit_def next_fault_def)
  then have "db_journal (tx_destroy (tx', d')) = Some empty_tables"
    by (auto simp: tx_commit_def next_fault_def failed_commit_def tx_destroy_def unlock_def)
  moreover have "\<exists>e. checkpoints (\<lambda>_. Some ''x'') (replicate 2 ?k) (tx_destroy (tx', d')) = (replicate (length (replicate 2 ?k)) (Some False), e) \<and>
      db_journal e = Some empty_tables"
    by (rule failed_commit_wedges [OF _ _ _ _ _ c]) (simp_all add: plain_db_def initialize_db_def)
  ultimately show ?thesis by (auto simp: numeral_2_eq_2)
qed

text \<open>A closed window is filed under the text of its state instead of its workspace: the list of any workspace
  whose identifier is not that text stays as it was.\<close>

theorem closed_window_misfiled:
  assumes "cstr (id_str i) \<noteq> cstr (cw_workspace_state_json snap)"
  shows "sqlite_list_closed_windows (sqlite_store_closed_window snap d) i = sqlite_list_closed_windows d i"
proof -
  have "filter (\<lambda>r. cl_workspace_id r = cstr (id_str i)) (tb_closed_windows (db_tables (sqlite_store_closed_window snap d))) =
      filter (\<lambda>r. cl_workspace_id r = cstr (id_str i)) (tb_closed_windows (db_tables d))"
    using assms
    by (auto simp: sqlite_store_closed_window_def run_stmt_def next_fault_def sql_insert_def cstr_def lock_def unlock_def
        split: list.splits option.splits)
  then show ?thesis by (simp add: sqlite_list_closed_windows_def)
qed

lemma closed_window_misfiled_witness:
  "sqlite_list_closed_windows (sqlite_store_closed_window \<lparr>cw_id = Id ''c'', cw_window_id = Id ''v'', cw_label = ''l'',
      cw_closed_at = 0, cw_workspace_state_json = ''{}'', cw_generation = 1\<rparr> plain_db) (Id ''w'') =
   sqlite_list_closed_windows plain_db (Id ''w'')"
  by (rule closed_window_misfiled) (simp add: cstr_def)

end
