(* ===== verification/Workspace_Lock.thy ===== *)
theory Workspace_Lock
  imports Prelude
begin

text \<open>
  \<^verbatim>\<open>core/workspace_lock.hpp\<close> and \<^verbatim>\<open>core/workspace_lock.cpp\<close>: the advisory lock on a workspace.
  Of the operating system the model has \<^verbatim>\<open>open\<close>, \<^verbatim>\<open>flock(LOCK_EX | LOCK_NB)\<close> and \<^verbatim>\<open>close\<close>: an
  open file description is a number, and a file's exclusive lock belongs to at most one.
  Whether \<^verbatim>\<open>open\<close> succeeds is an argument.
\<close>

record lock_os =
  next_fd :: nat
  lock_files :: "string list"
  lock_owner :: "string \<rightharpoonup> nat"

record workspace_lock =
  wl_fd :: "nat option"
  wl_path :: string

definition new_lock :: workspace_lock where
  "new_lock = \<lparr>wl_fd = None, wl_path = ''''\<rparr>"

definition held :: "workspace_lock \<Rightarrow> bool" where
  "held l \<longleftrightarrow> wl_fd l \<noteq> None"

definition lock_path :: "string \<Rightarrow> workspace_id \<Rightarrow> string" where
  "lock_path dir i = dir @ ''/'' @ id_str i @ ''.lock''"

text \<open>\<^verbatim>\<open>flock\<close> takes the lock when it is free; the description closed holds it no longer.\<close>

definition flock :: "string \<Rightarrow> nat \<Rightarrow> lock_os \<Rightarrow> bool \<times> lock_os" where
  "flock path fd os =
     (case lock_owner os path of
        None \<Rightarrow> (True, os\<lparr>lock_owner := (lock_owner os)(path \<mapsto> fd)\<rparr>)
      | Some fd' \<Rightarrow> (fd' = fd, os))"

definition close_fd :: "string \<Rightarrow> nat \<Rightarrow> lock_os \<Rightarrow> lock_os" where
  "close_fd path fd os =
     (if lock_owner os path = Some fd then os\<lparr>lock_owner := (lock_owner os)(path := None)\<rparr> else os)"

definition acquire :: "bool \<Rightarrow> string \<Rightarrow> workspace_id \<Rightarrow> workspace_lock \<times> lock_os \<Rightarrow>
    bool \<times> workspace_lock \<times> lock_os" where
  "acquire can_open dir wsid = (\<lambda>(l, os).
     if held l then (True, l, os)
     else
       let l = l\<lparr>wl_path := lock_path dir wsid\<rparr>
       in if \<not> can_open then (False, l, os)
          else
            let fd = next_fd os;
                os = os\<lparr>next_fd := fd + 1, lock_files := lock_path dir wsid # lock_files os\<rparr>;
                (ok, os) = flock (wl_path l) fd os
            in if \<not> ok then (False, l, close_fd (wl_path l) fd os)
               else (True, l\<lparr>wl_fd := Some fd\<rparr>, os))"

text \<open>The query does not create the file: without one, \<^verbatim>\<open>open\<close> fails and nothing is locked.\<close>

definition is_locked :: "bool \<Rightarrow> string \<Rightarrow> workspace_id \<Rightarrow> lock_os \<Rightarrow> bool \<times> lock_os" where
  "is_locked can_open dir wsid os =
     (let path = lock_path dir wsid
      in if \<not> can_open \<or> path \<notin> set (lock_files os) then (False, os)
         else
           let fd = next_fd os;
               (ok, os) = flock path fd (os\<lparr>next_fd := fd + 1\<rparr>)
           in (\<not> ok, close_fd path fd os))"

definition release :: "workspace_lock \<times> lock_os \<Rightarrow> workspace_lock \<times> lock_os" where
  "release = (\<lambda>(l, os).
     case wl_fd l of
       None \<Rightarrow> (l, os)
     | Some fd \<Rightarrow> (l\<lparr>wl_fd := None\<rparr>, close_fd (wl_path l) fd os))"

section \<open>Invariant\<close>

text \<open>
  Every descriptor that owns a lock was given out, owners are different for different files,
  and a file that is locked exists.
\<close>

definition wf_os :: "lock_os \<Rightarrow> bool" where
  "wf_os os \<longleftrightarrow> (\<forall>p fd. lock_owner os p = Some fd \<longrightarrow> fd < next_fd os \<and> p \<in> set (lock_files os))"

definition owns :: "lock_os \<Rightarrow> workspace_lock \<Rightarrow> bool" where
  "owns os l \<longleftrightarrow> (case wl_fd l of None \<Rightarrow> True | Some fd \<Rightarrow> lock_owner os (wl_path l) = Some fd)"

lemma acquire_cases:
  assumes "acquire can_open dir i (l, os) = (ok, l', os')" "wf_os os" "\<not> held l"
  shows "wf_os os' \<and> owns os' l' \<and> (ok \<longleftrightarrow> held l') \<and>
    (ok \<longrightarrow> wl_path l' = lock_path dir i \<and> lock_owner os (lock_path dir i) = None \<and>
       lock_owner os' = (lock_owner os)(lock_path dir i \<mapsto> next_fd os)) \<and>
    (\<not> ok \<longrightarrow> lock_owner os' = lock_owner os)"
  using assms
  by (auto simp: acquire_def Let_def flock_def close_fd_def wf_os_def owns_def held_def less_Suc_eq
      split: option.splits if_splits)

lemma is_locked_cases:
  assumes "wf_os os"
  shows "fst (is_locked True dir i os) \<longleftrightarrow> lock_owner os (lock_path dir i) \<noteq> None"
    and "lock_owner (snd (is_locked b dir i os)) = lock_owner os"
  using assms
  by (auto simp: is_locked_def Let_def flock_def close_fd_def wf_os_def fun_eq_iff split: option.splits)

lemma release_cases:
  assumes "owns os l" "held l"
  shows "lock_owner (snd (release (l, os))) = (lock_owner os)(wl_path l := None) \<and>
    \<not> held (fst (release (l, os)))"
  using assms by (auto simp: release_def owns_def held_def close_fd_def split: option.splits)

end
