(* ===== verification/Workspace_Session.thy ===== *)
theory Workspace_Session
  imports Session_Controller Autosave Workspace_Lock
begin

text \<open>
  \<^verbatim>\<open>gui/session/workspace_session.hpp\<close> and \<^verbatim>\<open>.cpp\<close>: the start of a GUI session.  It makes the
  data directory, opens the store, creates or opens the default workspace and takes its lock.
  The environment variables, the outcome of opening the database and the lock file, the clock
  and the new identifier are arguments.
\<close>

definition data_dir :: "string option \<Rightarrow> string option \<Rightarrow> string" where
  "data_dir xdg home =
     (case xdg of
        Some (c # cs) \<Rightarrow> c # cs
      | _ \<Rightarrow> (case home of Some h \<Rightarrow> h @ ''/.local/share'' | None \<Rightarrow> ''/tmp'')) @ ''/remin''"

text \<open>The paths given to \<^verbatim>\<open>mkdir(2)\<close>, in order.\<close>

fun mkdir_calls :: "string \<Rightarrow> string \<Rightarrow> string list" where
  "mkdir_calls cur [] = []"
| "mkdir_calls cur (c # rest) =
     (let cur = cur @ [c]
      in if c = CHR ''/'' \<or> rest = [] then cur # mkdir_calls cur rest else mkdir_calls cur rest)"

definition mkdir_p :: "string \<Rightarrow> string list" where
  "mkdir_p path = mkdir_calls '''' path"

record 's gui_session =
  gs_ok :: bool
  gs_error :: string
  gs_core :: core
  gs_store :: 's
  gs_lock :: workspace_lock
  gs_autosaver :: autosaver

text \<open>The callback of the core: a change notes workspace activity.\<close>

definition on_workspace_event :: "int \<Rightarrow> workspace_event \<Rightarrow> autosaver \<Rightarrow> autosaver" where
  "on_workspace_event now ev a =
     (if ev_type ev = StateDirty then note_workspace_activity now a else a)"

definition open_default :: "'s storage \<Rightarrow> time_point \<Rightarrow> workspace_id \<Rightarrow> core \<times> 's \<Rightarrow>
    core_error + string \<times> core \<times> 's" where
  "open_default S now fresh = (\<lambda>(c, s).
     case list_workspaces S s of
       [] \<Rightarrow> (case create_workspace S now fresh ''default'' (c, s) of
                Inl e \<Rightarrow> Inl e
              | Inr (i, c, s) \<Rightarrow> Inr (if id_empty i then ''failed to create a workspace'' else '''', c, s))
     | ws # _ \<Rightarrow> (let (ok, c) = open_workspace S (ws_id ws) (c, s)
                  in Inr (if ok then '''' else ''failed to open workspace'', c, s)))"

text \<open>
  The constructor.  The error of a database that does not open is \<open>db_error\<close>; an exception of
  the store leaves the constructor.
\<close>

definition start_session :: "'s storage \<Rightarrow> string option \<Rightarrow> time_point \<Rightarrow> workspace_id \<Rightarrow> bool \<Rightarrow> string \<Rightarrow>
    's \<times> lock_os \<Rightarrow> core_error + 's gui_session \<times> lock_os" where
  "start_session S db_error now fresh can_open dir = (\<lambda>(s, os).
     let gs = \<lparr>gs_ok = False, gs_error = '''', gs_core = initial_core, gs_store = s,
               gs_lock = new_lock, gs_autosaver = new_autosaver\<rparr>
     in case db_error of
          Some e \<Rightarrow> Inr (gs\<lparr>gs_error := ''cannot open database: '' @ e\<rparr>, os)
        | None \<Rightarrow>
            (case open_default S now fresh (gs_core gs, s) of
               Inl e \<Rightarrow> Inl e
             | Inr (err, c, s) \<Rightarrow>
                 let gs = gs\<lparr>gs_core := c, gs_store := s\<rparr>
                 in if err \<noteq> '''' then Inr (gs\<lparr>gs_error := err\<rparr>, os)
                    else
                      let (ok, l, os) = acquire can_open (dir @ ''/locks'') (ws_id (the (ws_current c)))
                                          (gs_lock gs, os)
                      in Inr (if ok then gs\<lparr>gs_lock := l, gs_ok := True\<rparr>
                              else gs\<lparr>gs_lock := l,
                                     gs_error := ''workspace is already open in another Remin instance''\<rparr>, os)))"

section \<open>Lemmas\<close>

lemma open_default_current:
  assumes "open_default S now fresh (c, s) = Inr ('''', c', s')"
  shows "\<exists>ws. ws_current c' = Some ws"
  using assms
  by (auto simp: open_default_def create_workspace_def open_workspace_def emit_def Let_def
      split: list.splits option.splits sum.splits if_splits)

lemma acquire_new:
  assumes "acquire b dir i (new_lock, os) = (ok, l, os')" "wf_os os"
  shows "wf_os os'" "ok \<longleftrightarrow> held l" "owns os' l"
    "ok \<Longrightarrow> wl_path l = lock_path dir i \<and> lock_owner os (lock_path dir i) = None"
    "\<not> ok \<Longrightarrow> lock_owner os' = lock_owner os"
  using acquire_cases [OF assms(1,2)] by (auto simp: new_lock_def held_def)

lemma start_session_owns:
  assumes "start_session S db_error now fresh can_open dir (s, os) = Inr (gs, os')" "wf_os os" "gs_ok gs"
  shows "\<exists>ws fd. ws_current (gs_core gs) = Some ws \<and> wl_fd (gs_lock gs) = Some fd \<and>
    wl_path (gs_lock gs) = lock_path (dir @ ''/locks'') (ws_id ws) \<and>
    lock_owner os (lock_path (dir @ ''/locks'') (ws_id ws)) = None \<and>
    lock_owner os' (lock_path (dir @ ''/locks'') (ws_id ws)) = Some fd \<and> wf_os os'"
proof (cases db_error)
  case None
  then obtain err c s' where o: "open_default S now fresh (initial_core, s) = Inr (err, c, s')"
    using assms(1) by (auto simp: start_session_def Let_def split: sum.splits)
  with None assms(1,3) have err: "err = ''''"
    by (auto simp: start_session_def Let_def split: if_splits)
  obtain ws where ws: "ws_current c = Some ws" using open_default_current [OF o [unfolded err]] by blast
  obtain ok l os2 where a: "acquire can_open (dir @ ''/locks'') (ws_id ws) (new_lock, os) = (ok, l, os2)"
    by (metis prod_cases3)
  have "gs_core gs = c" "gs_lock gs = l" "os' = os2" "ok"
    using assms(1,3) None o err ws a by (auto simp: start_session_def Let_def split: if_splits)
  with acquire_new [OF a assms(2)] ws show ?thesis
    by (auto simp: held_def owns_def)
qed (use assms in \<open>auto simp: start_session_def Let_def\<close>)

text \<open>A session on a store whose first workspace is locked is refused, and the lock stays.\<close>

lemma start_session_refused:
  assumes "list_workspaces S s = ws # rest" "load_workspace S s (ws_id ws) = Some ws'" "ws_id ws' = ws_id ws"
    and "wf_os os" "lock_owner os (lock_path (dir @ ''/locks'') (ws_id ws)) \<noteq> None"
  shows "\<exists>gs os'. start_session S None now fresh can_open dir (s, os) = Inr (gs, os') \<and> \<not> gs_ok gs \<and>
    gs_error gs = ''workspace is already open in another Remin instance'' \<and>
    lock_owner os' = lock_owner os"
proof -
  obtain c where c: "open_workspace S (ws_id ws) (initial_core, s) = (True, c)"
    "map_option ws_id (ws_current c) = Some (ws_id ws)"
    using assms(2,3) by (simp add: open_workspace_def Let_def emit_def map_workspace_panes_def)
  then have i: "ws_id (the (ws_current c)) = ws_id ws" by (cases "ws_current c") auto
  obtain ok l os2 where a: "acquire can_open (dir @ ''/locks'') (ws_id ws) (new_lock, os) = (ok, l, os2)"
    by (metis prod_cases3)
  then have "\<not> ok" "lock_owner os2 = lock_owner os"
    using acquire_new [OF a assms(4)] assms(5) by auto
  with a c(1) i assms(1) show ?thesis
    by (simp add: start_session_def open_default_def Let_def)
qed

lemma mkdir_calls_prefix:
  "p \<in> set (mkdir_calls cur path) \<longleftrightarrow>
     (\<exists>a b. path = a @ b \<and> a \<noteq> [] \<and> p = cur @ a \<and> (last a = CHR ''/'' \<or> b = []))"
proof (induction path arbitrary: cur)
  case (Cons c path)
  have "(\<exists>a b. c # path = a @ b \<and> a \<noteq> [] \<and> p = cur @ a \<and> (last a = CHR ''/'' \<or> b = [])) \<longleftrightarrow>
      (p = cur @ [c] \<and> (c = CHR ''/'' \<or> path = [])) \<or>
      (\<exists>a b. path = a @ b \<and> a \<noteq> [] \<and> p = cur @ c # a \<and> (last a = CHR ''/'' \<or> b = []))"
    by (auto simp: Cons_eq_append_conv) metis+
  then show ?case by (auto simp: Let_def Cons.IH)
qed auto

lemma mkdir_calls_sorted: "sorted_wrt (\<lambda>p q. length p < length q) (mkdir_calls cur path)"
proof (induction path arbitrary: cur)
  case (Cons c path)
  then show ?case by (auto simp: Let_def mkdir_calls_prefix)
qed simp

lemma mkdir_p_last: "path \<noteq> '''' \<Longrightarrow> last (mkdir_p path) = path"
proof -
  have "path \<noteq> [] \<Longrightarrow> mkdir_calls cur path \<noteq> [] \<and> last (mkdir_calls cur path) = cur @ path" for cur
  proof (induction path arbitrary: cur)
    case (Cons c path)
    then show ?case by (cases "path = []") (auto simp: Let_def)
  qed simp
  then show "path \<noteq> '''' \<Longrightarrow> ?thesis" by (simp add: mkdir_p_def)
qed

end
