(* ===== verification/Request_Dispatcher.thy ===== *)
theory Request_Dispatcher
  imports Core_Persistence
begin

text \<open>
  \<^verbatim>\<open>cli/commands/request_dispatcher.cpp\<close>: the JSON requests of the command line and of the
  socket.  A request ends in a response, in an exception with its message, or in undefined
  behaviour: \<^verbatim>\<open>params[k]\<close> on a constant object without the member \<open>k\<close>, which the JSON library
  only asserts.  \<open>json_what\<close> is the message of the library's exceptions.
\<close>

datatype 'a read = Value 'a | Throws | Undefined_Read

text \<open>\<^verbatim>\<open>params[k].get<std::string>()\<close> on a \<^verbatim>\<open>const json\<close>\<close>

definition index_string :: "json \<Rightarrow> string \<Rightarrow> string read" where
  "index_string j k =
     (case j of
        JObject kvs \<Rightarrow> (case map_of kvs k of
            None \<Rightarrow> Undefined_Read
          | Some v \<Rightarrow> (case get_string v of Some s \<Rightarrow> Value s | None \<Rightarrow> Throws))
      | _ \<Rightarrow> Throws)"

datatype reply = Response json | Exception string | Undefined

definition respond :: "bool \<Rightarrow> (string \<times> json) list \<Rightarrow> reply" where
  "respond ok rest = Response (JObject ((''ok'', JBool ok) # rest))"

definition result_member :: "string \<Rightarrow> json \<Rightarrow> (string \<times> json) list" where
  "result_member k v = [(''result'', JObject [(k, v)])]"

definition core_what :: "string \<Rightarrow> core_error \<Rightarrow> string" where
  "core_what json_what e =
     (case e of
        NoOpenWorkspace \<Rightarrow> ''no open workspace''
      | WindowNotFound \<Rightarrow> ''window not found''
      | TabNotFound \<Rightarrow> ''tab not found''
      | StorageThrew \<Rightarrow> json_what)"

record request_env =
  re_now :: time_point
  re_workspace :: workspace_id
  re_window :: window_id
  re_snapshot :: snapshot_id
  re_json_what :: string

definition do_list :: "core \<Rightarrow> reply" where
  "do_list c =
     (case ws_current c of
        None \<Rightarrow> respond True (result_member ''open'' (JBool False))
      | Some ws \<Rightarrow> respond True [(''result'', JObject [(''name'', JString (ws_name ws)), (''open'', JBool True)])])"

definition do_create :: "'s storage \<Rightarrow> request_env \<Rightarrow> json \<Rightarrow> core \<times> 's \<Rightarrow> reply \<times> core \<times> 's" where
  "do_create S env params cs =
     (case jvalue get_string params ''name'' ''untitled'' of
        None \<Rightarrow> (Exception (re_json_what env), cs)
      | Some name \<Rightarrow>
          (case create_workspace S (re_now env) (re_workspace env) name cs of
             Inl e \<Rightarrow> (Exception (core_what (re_json_what env) e), cs)
           | Inr (i, cs') \<Rightarrow> (respond True (result_member ''workspace_id'' (JString (id_str i))), cs')))"

definition do_open :: "'s storage \<Rightarrow> request_env \<Rightarrow> json \<Rightarrow> core \<times> 's \<Rightarrow> reply \<times> core \<times> 's" where
  "do_open S env params cs =
     (case index_string params ''workspace_id'' of
        Undefined_Read \<Rightarrow> (Undefined, cs)
      | Throws \<Rightarrow> (Exception (re_json_what env), cs)
      | Value i \<Rightarrow>
          let (ok, c) = open_workspace S (Id i) cs
          in (respond ok (result_member ''opened'' (JBool ok)), c, snd cs))"

definition two_strings :: "json \<Rightarrow> string \<Rightarrow> string \<Rightarrow> (string \<times> string) read" where
  "two_strings j k k' =
     (case index_string j k of
        Undefined_Read \<Rightarrow> Undefined_Read
      | Throws \<Rightarrow> Throws
      | Value a \<Rightarrow> (case index_string j k' of
                      Undefined_Read \<Rightarrow> Undefined_Read
                    | Throws \<Rightarrow> Throws
                    | Value b \<Rightarrow> Value (a, b)))"

definition do_rename_workspace :: "request_env \<Rightarrow> json \<Rightarrow> core \<Rightarrow> reply \<times> core" where
  "do_rename_workspace env params c =
     (case two_strings params ''workspace_id'' ''name'' of
        Undefined_Read \<Rightarrow> (Undefined, c)
      | Throws \<Rightarrow> (Exception (re_json_what env), c)
      | Value (i, name) \<Rightarrow> (let (ok, c) = rename_workspace (Id i) name c in (respond ok [], c)))"

definition do_rename_window :: "request_env \<Rightarrow> json \<Rightarrow> core \<Rightarrow> reply \<times> core" where
  "do_rename_window env params c =
     (case two_strings params ''window_id'' ''name'' of
        Undefined_Read \<Rightarrow> (Undefined, c)
      | Throws \<Rightarrow> (Exception (re_json_what env), c)
      | Value (i, name) \<Rightarrow> (let (ok, c) = rename_window (Id i) name c in (respond ok [], c)))"

definition do_add_window :: "request_env \<Rightarrow> json \<Rightarrow> core \<Rightarrow> reply \<times> core" where
  "do_add_window env params c =
     (case jvalue get_string params ''title'' ''window'' of
        None \<Rightarrow> (Exception (re_json_what env), c)
      | Some title \<Rightarrow>
          (case add_window (re_now env) (re_window env) title c of
             Inl e \<Rightarrow> (Exception (core_what (re_json_what env) e), c)
           | Inr (i, c') \<Rightarrow> (respond True (result_member ''window_id'' (JString (id_str i))), c')))"

definition do_snapshot :: "'s storage \<Rightarrow> (json \<Rightarrow> string option) \<Rightarrow> request_env \<Rightarrow> core \<times> 's \<Rightarrow> reply \<times> core \<times> 's" where
  "do_snapshot S dump env cs =
     (case create_snapshot S dump (re_now env) (re_snapshot env) cs of
        Inl e \<Rightarrow> (Exception (core_what (re_json_what env) e), cs)
      | Inr (i, cs') \<Rightarrow> (respond True (result_member ''snapshot_id'' (JString (id_str i))), cs'))"

definition dispatch :: "'s storage \<Rightarrow> (json \<Rightarrow> string option) \<Rightarrow> request_env \<Rightarrow> json \<Rightarrow> core \<times> 's \<Rightarrow>
    reply \<times> core \<times> 's" where
  "dispatch S dump env req = (\<lambda>(c, s).
     case (jvalue get_string req ''method'' '''', jvalue Some req ''params'' (JObject [])) of
       (Some m, Some params) \<Rightarrow>
         if m = ''workspace.list'' then (do_list c, c, s)
         else if m = ''workspace.create'' then do_create S env params (c, s)
         else if m = ''workspace.open'' then do_open S env params (c, s)
         else if m = ''workspace.close'' then (let (ok, c) = close_workspace c in (respond ok [], c, s))
         else if m = ''workspace.rename'' then
           (let (r, c) = do_rename_workspace env params c in (r, c, s))
         else if m = ''window.add'' then (let (r, c) = do_add_window env params c in (r, c, s))
         else if m = ''window.rename'' then (let (r, c) = do_rename_window env params c in (r, c, s))
         else if m = ''snapshot.create'' then do_snapshot S dump env (c, s)
         else (Response (JObject [(''error'', JString (''unknown method: '' @ m)), (''ok'', JBool False)]), c, s)
     | _ \<Rightarrow> (Exception (re_json_what env), c, s))"

definition error_response :: "string \<Rightarrow> json" where
  "error_response what = JObject [(''error'', JString what), (''ok'', JBool False)]"

text \<open>
  \<^verbatim>\<open>handle\<close>: parse, dispatch, print; every exception, of the printing too, becomes an error
  response.  The outer option is undefined behaviour, the inner one a response that cannot be
  printed.
\<close>

definition handle :: "'s storage \<Rightarrow> (json \<Rightarrow> string option) \<Rightarrow> (string \<Rightarrow> json option) \<Rightarrow> request_env \<Rightarrow> string \<Rightarrow>
    core \<times> 's \<Rightarrow> string option option \<times> core \<times> 's" where
  "handle S dump parse env request cs =
     (case parse request of
        None \<Rightarrow> (Some (dump (error_response (re_json_what env))), cs)
      | Some req \<Rightarrow>
          (case dispatch S dump env req cs of
             (Undefined, cs') \<Rightarrow> (None, cs')
           | (Exception what, cs') \<Rightarrow> (Some (dump (error_response what)), cs')
           | (Response r, cs') \<Rightarrow>
               (Some (case dump r of
                        Some text \<Rightarrow> Some text
                      | None \<Rightarrow> dump (error_response (re_json_what env))), cs')))"

section \<open>Lemmas\<close>

definition well_formed_request :: "json \<Rightarrow> bool" where
  "well_formed_request req \<longleftrightarrow>
     (case (jvalue get_string req ''method'' '''', jvalue Some req ''params'' (JObject [])) of
        (Some m, Some params) \<Rightarrow>
          (m = ''workspace.open'' \<longrightarrow> index_string params ''workspace_id'' \<noteq> Undefined_Read) \<and>
          (m = ''workspace.rename'' \<longrightarrow> two_strings params ''workspace_id'' ''name'' \<noteq> Undefined_Read) \<and>
          (m = ''window.rename'' \<longrightarrow> two_strings params ''window_id'' ''name'' \<noteq> Undefined_Read)
      | _ \<Rightarrow> True)"

text \<open>
  What a request must have: the members each handler indexes, as strings, and where a handler falls back to a default,
  an object whose member of that name, if it is there, is a string.
\<close>

definition indexed_members :: "string \<Rightarrow> string list" where
  "indexed_members m =
     (if m = ''workspace.open'' then [''workspace_id'']
      else if m = ''workspace.rename'' then [''workspace_id'', ''name'']
      else if m = ''window.rename'' then [''window_id'', ''name'']
      else [])"

definition defaulted_members :: "string \<Rightarrow> string list" where
  "defaulted_members m = (if m = ''workspace.create'' then [''name''] else if m = ''window.add'' then [''title''] else [])"

definition complete_request :: "json \<Rightarrow> bool" where
  "complete_request req =
     (case (jvalue get_string req ''method'' '''', jvalue Some req ''params'' (JObject [])) of
        (Some m, Some params) \<Rightarrow>
          list_all (\<lambda>k. case index_string params k of Value s \<Rightarrow> True | _ \<Rightarrow> False) (indexed_members m) \<and>
          list_all (\<lambda>k. jvalue get_string params k '''' \<noteq> None) (defaulted_members m)
      | _ \<Rightarrow> False)"

lemma complete_well_formed: "complete_request req \<Longrightarrow> well_formed_request req"
  by (auto simp: complete_request_def well_formed_request_def indexed_members_def two_strings_def
      split: option.splits read.splits if_splits)

lemma reply_defined:
  "fst (do_create S env params cs) \<noteq> Undefined" "fst (do_add_window env params c) \<noteq> Undefined"
  "fst (do_snapshot S dump env cs) \<noteq> Undefined" "do_list c \<noteq> Undefined"
  by (auto simp: do_create_def do_add_window_def do_snapshot_def do_list_def respond_def
      split: option.splits sum.splits prod.splits)

lemma do_open_undefined: "fst (do_open S env params cs) = Undefined \<longleftrightarrow>
    index_string params ''workspace_id'' = Undefined_Read"
  by (auto simp: do_open_def respond_def split: read.splits prod.splits)

lemma do_rename_undefined:
  "fst (do_rename_workspace env params c) = Undefined \<longleftrightarrow>
     two_strings params ''workspace_id'' ''name'' = Undefined_Read"
  "fst (do_rename_window env params c) = Undefined \<longleftrightarrow>
     two_strings params ''window_id'' ''name'' = Undefined_Read"
  by (auto simp: do_rename_workspace_def do_rename_window_def respond_def split: read.splits prod.splits)

text \<open>The reply and the core after a request with the method \<open>m\<close>.\<close>

lemma dispatch_fst:
  assumes "jvalue get_string req ''method'' '''' = Some m" "jvalue Some req ''params'' (JObject []) = Some params"
  shows "fst (dispatch S dump env req (c, s)) =
     (if m = ''workspace.list'' then do_list c
      else if m = ''workspace.create'' then fst (do_create S env params (c, s))
      else if m = ''workspace.open'' then fst (do_open S env params (c, s))
      else if m = ''workspace.close'' then respond (fst (close_workspace c)) []
      else if m = ''workspace.rename'' then fst (do_rename_workspace env params c)
      else if m = ''window.add'' then fst (do_add_window env params c)
      else if m = ''window.rename'' then fst (do_rename_window env params c)
      else if m = ''snapshot.create'' then fst (do_snapshot S dump env (c, s))
      else Response (JObject [(''error'', JString (''unknown method: '' @ m)), (''ok'', JBool False)]))"
  using assms
  by (simp only: dispatch_def prod.case option.case fst_conv snd_conv if_distrib [of fst] split_beta Let_def)

lemma dispatch_snd:
  assumes "jvalue get_string req ''method'' '''' = Some m" "jvalue Some req ''params'' (JObject []) = Some params"
  shows "snd (dispatch S dump env req (c, s)) =
     (if m = ''workspace.list'' then (c, s)
      else if m = ''workspace.create'' then snd (do_create S env params (c, s))
      else if m = ''workspace.open'' then snd (do_open S env params (c, s))
      else if m = ''workspace.close'' then (snd (close_workspace c), s)
      else if m = ''workspace.rename'' then (snd (do_rename_workspace env params c), s)
      else if m = ''window.add'' then (snd (do_add_window env params c), s)
      else if m = ''window.rename'' then (snd (do_rename_window env params c), s)
      else if m = ''snapshot.create'' then snd (do_snapshot S dump env (c, s))
      else (c, s))"
  using assms
  by (simp only: dispatch_def prod.case option.case fst_conv snd_conv if_distrib [of snd] split_beta Let_def)

lemma dispatch_undefined_iff:
  "fst (dispatch S dump env req (c, s)) = Undefined \<longleftrightarrow> \<not> well_formed_request req"
proof (cases "jvalue get_string req ''method'' ''''")
  case None
  then show ?thesis by (simp add: dispatch_def well_formed_request_def)
next
  case (Some m)
  show ?thesis
  proof (cases "jvalue Some req ''params'' (JObject [])")
    case None
    then show ?thesis by (simp add: dispatch_def well_formed_request_def Some)
  next
    case (Some params)
    note mp = \<open>jvalue get_string req ''method'' '''' = Some m\<close> Some
    show ?thesis
      by (simp add: dispatch_fst [OF mp] well_formed_request_def mp respond_def reply_defined
          do_open_undefined do_rename_undefined)
  qed
qed

text \<open>Every request keeps the core well-formed, when the identifiers and the stored states are.\<close>

lemma do_open_wf:
  "wf_core c \<Longrightarrow> (\<And>i ws. load_workspace S s i = Some ws \<Longrightarrow> wf_workspace ws) \<Longrightarrow>
    wf_core (fst (snd (do_open S env params (c, s))))"
  by (auto simp: do_open_def split_beta Let_def intro: open_workspace_wf split: read.splits)

lemma do_create_wf: "wf_core c \<Longrightarrow> wf_core (fst (snd (do_create S env params (c, s))))"
  by (auto simp: do_create_def split: option.splits sum.splits prod.splits dest: create_workspace_wf)

lemma do_add_window_wf:
  "wf_core c \<Longrightarrow> fresh_window (re_window env) c \<Longrightarrow> wf_core (snd (do_add_window env params c))"
  by (auto simp: do_add_window_def split: option.splits sum.splits prod.splits
      dest: add_window_wf fresh_windowD)

lemma do_snapshot_wf: "wf_core c \<Longrightarrow> wf_core (fst (snd (do_snapshot S dump env (c, s))))"
  by (auto simp: do_snapshot_def split: sum.splits prod.splits dest: create_snapshot_wf)

lemma do_rename_wf:
  "wf_core c \<Longrightarrow> wf_core (snd (do_rename_workspace env params c))"
  "wf_core c \<Longrightarrow> wf_core (snd (do_rename_window env params c))"
  by (simp_all add: do_rename_workspace_def do_rename_window_def split_beta rename_workspace_wf
      rename_window_wf split: read.splits)

end
