(* ===== verification/Policy.thy ===== *)
theory Policy
  imports Json_Value
begin

text \<open>
  \<^verbatim>\<open>core/persistence_policy.hpp\<close> and \<^verbatim>\<open>core/persistence_policy.cpp\<close>: the persistence policy and
  its JSON form.  \<open>policy_from_string\<close> keeps the members read before an exception.
\<close>

record policy =
  default_recovery :: bool
  closed_window_history :: bool
  input_checkpoint :: bool

definition default_policy :: policy where
  "default_policy = \<lparr>default_recovery = True, closed_window_history = True, input_checkpoint = True\<rparr>"

definition policy_to_json :: "policy \<Rightarrow> json" where
  "policy_to_json p = JObject [(''closed_window_history'', JBool (closed_window_history p)),
     (''default_recovery'', JBool (default_recovery p)), (''input_checkpoint'', JBool (input_checkpoint p))]"

definition policy_to_string :: "(json \<Rightarrow> string option) \<Rightarrow> policy \<Rightarrow> string option" where
  "policy_to_string dump p = dump (policy_to_json p)"

text \<open>\<^verbatim>\<open>if (j.contains(k)) p.x = j[k].get<bool>()\<close>; a failure stops the rest.\<close>

fun read_flags :: "json \<Rightarrow> (string \<times> (bool \<Rightarrow> policy \<Rightarrow> policy)) list \<Rightarrow> policy \<Rightarrow> policy" where
  "read_flags j [] p = p"
| "read_flags j ((k, set_flag) # fs) p =
     (case jat j k of
        None \<Rightarrow> read_flags j fs p
      | Some v \<Rightarrow> (case get_bool v of
                      None \<Rightarrow> p
                    | Some b \<Rightarrow> read_flags j fs (set_flag b p)))"

definition policy_from_string :: "(string \<Rightarrow> json option) \<Rightarrow> string \<Rightarrow> policy" where
  "policy_from_string parse s =
     (if s = '''' then default_policy
      else case parse s of
             None \<Rightarrow> default_policy
           | Some j \<Rightarrow> read_flags j
               [(''default_recovery'', \<lambda>b p. p\<lparr>default_recovery := b\<rparr>),
                (''closed_window_history'', \<lambda>b p. p\<lparr>closed_window_history := b\<rparr>),
                (''input_checkpoint'', \<lambda>b p. p\<lparr>input_checkpoint := b\<rparr>)] default_policy)"

lemma policy_roundtrip_lemma:
  assumes "policy_to_string dump p = Some s" "s \<noteq> ''''" "parse s = Some (policy_to_json p)"
  shows "policy_from_string parse s = p"
  using assms by (simp add: policy_from_string_def policy_to_json_def)

end
