(* ===== verification/Session_Properties.thy ===== *)
theory Session_Properties
  imports Storage_Properties Workspace_Session Request_Dispatcher Policy
begin

text \<open>
  Properties of the session layer: exclusive sessions and locks, autosaving, settings, window
  labels, and the request dispatcher.
\<close>

section \<open>Sessions and locks\<close>

definition plain_os :: lock_os where
  "plain_os = \<lparr>next_fd = 3, lock_files = [], lock_owner = Map.empty\<rparr>"

lemma wf_plain_os [simp]: "wf_os plain_os"
  by (simp add: wf_os_def plain_os_def)

text \<open>C10: A session that starts holds the lock of the workspace it opened, which nobody held before; while it holds
  it, another session that would open the same workspace is refused with the message for that and changes no
  lock.\<close>

theorem session_exclusive:
  assumes "start_session S e now fresh can_open dir (s, os) = Inr (gs, os')" "wf_os os" "gs_ok gs"
  shows "\<exists>ws. ws_current (gs_core gs) = Some ws \<and>
    lock_owner os (lock_path (dir @ ''/locks'') (ws_id ws)) = None \<and>
    lock_owner os' (lock_path (dir @ ''/locks'') (ws_id ws)) = wl_fd (gs_lock gs) \<and> held (gs_lock gs) \<and>
    (\<forall>s2 w rest w2 now2 fresh2 can_open2. list_workspaces S s2 = w # rest \<longrightarrow> ws_id w = ws_id ws \<longrightarrow>
       load_workspace S s2 (ws_id w) = Some w2 \<longrightarrow> ws_id w2 = ws_id w \<longrightarrow>
       (\<exists>gs2 os2. start_session S None now2 fresh2 can_open2 dir (s2, os') = Inr (gs2, os2) \<and> \<not> gs_ok gs2 \<and>
          gs_error gs2 = ''workspace is already open in another Remin instance'' \<and>
          lock_owner os2 = lock_owner os'))"
proof -
  obtain ws fd where o: "ws_current (gs_core gs) = Some ws" "wl_fd (gs_lock gs) = Some fd"
    "lock_owner os (lock_path (dir @ ''/locks'') (ws_id ws)) = None"
    "lock_owner os' (lock_path (dir @ ''/locks'') (ws_id ws)) = Some fd" "wf_os os'"
    using start_session_owns [OF assms] by blast
  have "\<exists>gs2 os2. start_session S None now2 fresh2 can_open2 dir (s2, os') = Inr (gs2, os2) \<and> \<not> gs_ok gs2 \<and>
      gs_error gs2 = ''workspace is already open in another Remin instance'' \<and> lock_owner os2 = lock_owner os'"
    if "list_workspaces S s2 = w # rest" "ws_id w = ws_id ws" "load_workspace S s2 (ws_id w) = Some w2"
      "ws_id w2 = ws_id w" for s2 w rest w2 now2 fresh2 can_open2
    by (rule start_session_refused [OF that(1,3,4) o(5)]) (simp add: that(2) o(4))
  with o show ?thesis by (intro exI [of _ ws]) (simp add: held_def)
qed

lemma session_exclusive_witness:
  "\<exists>gs os'. start_session (sqlite_storage (\<lambda>_. Some ''x'') (\<lambda>_. None)) None 0 (Id ''w'') True ''/d'' (plain_db, plain_os) =
     Inr (gs, os') \<and> gs_ok gs \<and> held (gs_lock gs)"
proof -
  let ?S = "sqlite_storage (\<lambda>_. Some ''x'') (\<lambda>_. None)"
  obtain gs os' where g: "start_session ?S None 0 (Id ''w'') True ''/d'' (plain_db, plain_os) = Inr (gs, os')" "gs_ok gs"
    by (simp add: start_session_def open_default_def create_workspace_def sqlite_storage_def sqlite_save_workspace_def
        sqlite_list_workspaces_def plain_db_def initialize_db_def empty_tables_def run_stmt_def next_fault_def
        workspace_upsert_def lock_def unlock_def emit_def Workspace_create_def empty_workspace_def acquire_def
        new_lock_def held_def flock_def plain_os_def initial_core_def id_empty_def empty_id_def acquire_def Let_def)
  with session_exclusive [OF g(1) wf_plain_os g(2)] show ?thesis by blast
qed

text \<open>A lock taken on a workspace keeps every other lock object out and is seen by the query, neither of which
  disturbs it; after it is released another object can take it.\<close>

theorem lock_excludes:
  assumes "acquire b dir i (new_lock, os) = (True, l, os1)" "wf_os os"
  shows "(\<exists>l2 os2. acquire b2 dir i (new_lock, os1) = (False, l2, os2) \<and> \<not> held l2 \<and> lock_owner os2 = lock_owner os1) \<and>
    fst (is_locked True dir i os1) \<and> lock_owner (snd (is_locked True dir i os1)) = lock_owner os1 \<and>
    fst (acquire True dir i (new_lock, snd (release (l, os1))))"
proof -
  note a = acquire_new [OF assms]
  have o: "lock_owner os1 (lock_path dir i) = wl_fd l" "wl_fd l \<noteq> None"
    using a by (auto simp: owns_def held_def)
  obtain ok2 l2 os2 where l2: "acquire b2 dir i (new_lock, os1) = (ok2, l2, os2)" by (metis prod_cases3)
  have "\<not> ok2" "\<not> held l2" "lock_owner os2 = lock_owner os1"
    using acquire_new [OF l2 a(1)] o by auto
  moreover have "lock_owner (snd (release (l, os1))) (lock_path dir i) = None"
    using release_cases [OF a(3)] a(2,4) by simp
  then have "fst (acquire True dir i (new_lock, snd (release (l, os1))))"
    by (simp add: acquire_def new_lock_def held_def Let_def flock_def)
  ultimately show ?thesis using l2 is_locked_cases [OF a(1)] o by simp
qed

lemma lock_excludes_witness:
  "\<exists>l os. acquire True ''/d'' (Id ''w'') (new_lock, plain_os) = (True, l, os) \<and> fst (is_locked True ''/d'' (Id ''w'') os)"
proof -
  obtain l os where a: "acquire True ''/d'' (Id ''w'') (new_lock, plain_os) = (True, l, os)"
    by (simp add: acquire_def new_lock_def held_def flock_def plain_os_def)
  with lock_excludes [OF a wf_plain_os] show ?thesis by blast
qed

section \<open>Autosaving\<close>

text \<open>A flush answers whether anything was due, drops exactly the resources that were, keeps the last activity of
  the others, and leaves nothing due at that time.\<close>

theorem flush_drops_due:
  assumes "wf_autosaver a" "keeps_scheduler provider"
  shows "(fst (flush now provider (a, w)) \<longleftrightarrow> (\<exists>key e. last_activity a key = Some e \<and> due_entry now a e)) \<and>
    last_activity (fst (snd (flush now provider (a, w)))) key =
      (case last_activity a key of Some e \<Rightarrow> if due_entry now a e then None else Some e | None \<Rightarrow> None) \<and>
    \<not> due now (fst (snd (flush now provider (a, w))))"
  using flush_due [of now provider a w] due_iff_last [OF assms(1)] flush_last_activity [OF assms]
    flush_not_due [OF assms] by blast

lemma flush_drops_due_witness:
  "last_activity (fst (snd (flush 3000000000 None (note_workspace_activity 0 new_autosaver, ())))) kWorkspaceKey = None"
proof -
  have "wf_autosaver (note_workspace_activity 0 new_autosaver)" "keeps_scheduler None"
    by (simp_all add: wf_autosaver_def note_workspace_activity_def note_activity_def new_autosaver_def keeps_scheduler_def)
  note f = flush_drops_due [OF this, of 3000000000 "()" kWorkspaceKey]
  have "due_entry 3000000000 (note_workspace_activity 0 new_autosaver) \<lparr>en_kind = KWorkspace, en_last = 0\<rparr>"
    by (simp add: due_entry_def threshold_def note_workspace_activity_def note_activity_def new_autosaver_def Let_def)
  moreover have "last_activity (note_workspace_activity 0 new_autosaver) kWorkspaceKey = Some \<lparr>en_kind = KWorkspace, en_last = 0\<rparr>"
    by (simp add: note_workspace_activity_def last_activity_note)
  ultimately show ?thesis using f by simp
qed

section \<open>Settings\<close>

text \<open>Every setting is read back as it was written to the SQLite store: the flags, the close behaviour, texts and
  colours without a NUL, a pair of colours unless both are empty.\<close>

theorem settings_roundtrip:
  assumes "idle d" "CHR 0x00 \<notin> set fg" "CHR 0x00 \<notin> set bg" "CHR 0x00 \<notin> set path" "fg \<noteq> '''' \<or> bg \<noteq> ''''"
  shows "autosave_temp_enabled (set_autosave_temp_enabled now b (Some (sqlite_storage dump parse, d))) = b \<and>
    auto_reload_enabled (set_auto_reload_enabled now b (Some (sqlite_storage dump parse, d))) = b \<and>
    auto_show_panel_enabled (set_auto_show_panel_enabled now b (Some (sqlite_storage dump parse, d))) = b \<and>
    persist_open_windows (set_persist_open_windows now b (Some (sqlite_storage dump parse, d))) = b \<and>
    window_history_enabled (set_window_history_enabled now b (Some (sqlite_storage dump parse, d))) = b \<and>
    theme_dark (set_theme_dark now b (Some (sqlite_storage dump parse, d))) = b \<and>
    unsaved_close_behavior (set_unsaved_close_behavior now u (Some (sqlite_storage dump parse, d))) = u \<and>
    markdown_css_path (set_markdown_css_path now path (Some (sqlite_storage dump parse, d))) = path \<and>
    note_path (set_note_path now note path (Some (sqlite_storage dump parse, d))) note = path \<and>
    color_profile (set_color_profile now (fg, bg) (Some (sqlite_storage dump parse, d))) = Some (fg, bg) \<and>
    terminal_colors (set_terminal_colors now fg bg (Some (sqlite_storage dump parse, d))) = Some (fg, bg)"
proof -
  let ?st = "Some (sqlite_storage dump parse, d)"
  have h: "sqlite_text.healthy_store dump parse ?st"
    using assms(1) by (simp add: sqlite_text.healthy_store_def)
  have r: "load_text (save_text now k v ?st) k = Some v" if "CHR 0x00 \<notin> set v" for k v
    using sqlite_text.load_save_text [OF h that] by simp
  have flag: "CHR 0x00 \<notin> set (flag_text b)" "CHR 0x00 \<notin> set (unsaved_close_text u)"
    by (simp_all add: flag_text_def unsaved_close_text_def)
  have two: "load_text (save_text now k' v' (save_text now k v ?st)) k = Some v \<and>
      load_text (save_text now k' v' (save_text now k v ?st)) k' = Some v'"
    if "CHR 0x00 \<notin> set k" "CHR 0x00 \<notin> set k'" "k \<noteq> k'" "CHR 0x00 \<notin> set v" "CHR 0x00 \<notin> set v'" for k k' v v'
  proof -
    have h2: "sqlite_text.healthy_store dump parse (save_text now k v ?st)"
      using sqlite_text.load_save_text [OF h that(4)] by simp
    show ?thesis
      using sqlite_text.load_save_other [OF h2 that(2,1,3)] sqlite_text.load_save_text [OF h2 that(5)] r [OF that(4)]
      by simp
  qed
  have f: "flag_text b = ''1'' \<longleftrightarrow> b" "flag_text b \<noteq> ''''" by (simp_all add: flag_text_def)
  have u: "(if unsaved_close_text u = ''keep'' then Keep else if unsaved_close_text u = ''skip'' then Skip else Ask) = u"
    by (cases u) (simp_all add: unsaved_close_text_def)
  show ?thesis
    unfolding autosave_temp_enabled_def set_autosave_temp_enabled_def auto_reload_enabled_def
      set_auto_reload_enabled_def auto_show_panel_enabled_def set_auto_show_panel_enabled_def persist_open_windows_def
      set_persist_open_windows_def window_history_enabled_def set_window_history_enabled_def theme_dark_def
      set_theme_dark_def unsaved_close_behavior_def set_unsaved_close_behavior_def markdown_css_path_def
      set_markdown_css_path_def note_path_def set_note_path_def color_profile_def set_color_profile_def
      terminal_colors_def set_terminal_colors_def load_profile_def
      r [OF flag(1)] r [OF flag(2)] r [OF assms(4)] option.case
    using f u assms(2-5) by (simp add: two)
qed

lemma settings_roundtrip_witness:
  "color_profile (set_color_profile 0 (''#fff'', ''#000'') (Some (sqlite_storage (\<lambda>_. None) (\<lambda>_. None), plain_db))) =
     Some (''#fff'', ''#000'')"
  using settings_roundtrip [OF idle_plain, of "''#fff''" "''#000''" "''p''"] by simp

section \<open>Windows\<close>

text \<open>The label a new window gets is taken by no window of the workspace, and it is the first free one: every
  label with a smaller number is taken.\<close>

theorem default_label_free:
  "(\<exists>n. default_window_label (Some ws) = my_window n \<and> 1 \<le> n \<and>
      (\<forall>m. 1 \<le> m \<longrightarrow> m < n \<longrightarrow> my_window m \<in> w_label ` set (ws_windows ws))) \<and>
   default_window_label (Some ws) \<notin> w_label ` set (ws_windows ws)"
  using next_label_free [of "map w_label (ws_windows ws)" 1] next_label_least [of 1 _ "map w_label (ws_windows ws)"]
    next_label_ge [of 1 "map w_label (ws_windows ws)"]
  by (auto simp: default_window_label_def)

lemma default_label_free_witness:
  "default_window_label (Some (empty_workspace\<lparr>ws_windows := [empty_window\<lparr>w_label := ''My Window 1''\<rparr>]\<rparr>)) \<noteq> ''My Window 1''"
proof -
  let ?ws = "empty_workspace\<lparr>ws_windows := [empty_window\<lparr>w_label := ''My Window 1''\<rparr>]\<rparr>"
  have "w_label ` set (ws_windows ?ws) = {''My Window 1''}" by simp
  with default_label_free [of ?ws] show ?thesis by (simp del: workspace.simps)
qed

text \<open>New tabs always have a window to go to: with a workspace open, the window the session picks is one of its
  windows and stays picked; a window is added only when there is none, and then the session's label for it is the
  default one.\<close>

lemma ensure_window_picks:
  assumes "ws_current c = Some ws" "ensure_window now fresh (ses, c) = (i, ses', c')"
  shows "\<exists>ws'. ws_current c' = Some ws' \<and> i \<in> w_id ` set (ws_windows ws') \<and> current_window ses' = i \<and>
    (ws_windows ws \<noteq> [] \<longrightarrow> c' = c) \<and>
    (ws_windows ws = [] \<longrightarrow> map w_label (ws_windows ws') = [default_window_label (Some ws)])"
proof -
  obtain ws' where ws': "ws_current c' = Some ws'" "\<exists>w \<in> set (ws_windows ws'). w_id w = i" "current_window ses' = i"
    "ws_windows ws \<noteq> [] \<longrightarrow> c' = c" using ensure_window_in [OF assms] by blast
  moreover have "map w_label (ws_windows ws') = [default_window_label (Some ws)]" if "ws_windows ws = []"
  proof -
    have "default_window_label (Some ws) \<noteq> ''''" by (simp add: default_window_label_def my_window_def)
    with that assms ws'(1) show ?thesis
      by (auto simp: ensure_window_def Let_def add_window_def Window_create_def empty_window_def mark_dirty_def
          emit_def split: option.splits if_splits)
  qed
  ultimately show ?thesis by (intro exI [of _ ws']) (simp, blast)
qed

lemma ensure_window_picks_witness:
  "\<exists>ses c ws. ensure_window 0 (Id ''v'') (\<lparr>current_window = empty_id\<rparr>, plain_core) = (Id ''v'', ses, c) \<and>
     ws_current c = Some ws \<and> Id ''v'' \<in> w_id ` set (ws_windows ws)"
proof -
  obtain ses c where e: "ensure_window 0 (Id ''v'') (\<lparr>current_window = empty_id\<rparr>, plain_core) = (Id ''v'', ses, c)"
    by (auto simp: ensure_window_def Let_def plain_workspace_def empty_workspace_def add_window_def id_empty_def empty_id_def)
  with ensure_window_picks [OF plain_core_simps(1) e] show ?thesis by blast
qed

section \<open>Requests\<close>

text \<open>Every request, whatever its JSON, keeps the engine well-formed, provided the identifier generated for a new
  window is new and the store holds well-formed workspaces; a request with an unknown method changes nothing.\<close>

theorem dispatch_keeps_wf:
  assumes "wf_core c" "fresh_window (re_window env) c" "\<And>i ws. load_workspace S s i = Some ws \<Longrightarrow> wf_workspace ws"
  shows "wf_core (fst (snd (dispatch S dump env req (c, s))))"
proof (cases "jvalue get_string req ''method'' ''''")
  case None
  then show ?thesis using assms(1) by (simp add: dispatch_def)
next
  case (Some m)
  show ?thesis
  proof (cases "jvalue Some req ''params'' (JObject [])")
    case None
    then show ?thesis using assms(1) Some by (simp add: dispatch_def)
  next
    case params: (Some params)
    have "wf_core (fst (snd (do_open S env params (c, s))))"
      using assms(1,3) by (rule do_open_wf)
    then show ?thesis
      unfolding dispatch_snd [OF Some params]
      using assms(1) do_create_wf [OF assms(1), where S = S] close_workspace_wf [OF assms(1)]
        do_rename_wf [OF assms(1)] do_add_window_wf [OF assms(1,2)] do_snapshot_wf [OF assms(1), where S = S]
      by simp
  qed
qed

lemma dispatch_keeps_wf_witness:
  "wf_core (fst (snd (dispatch (sqlite_storage (\<lambda>_. None) (\<lambda>_. None)) (\<lambda>_. None)
     \<lparr>re_now = 0, re_workspace = Id ''w'', re_window = Id ''v'', re_snapshot = Id ''s'', re_json_what = ''e''\<rparr>
     (JObject [(''method'', JString ''window.add'')]) (plain_core, plain_db))))"
proof (rule dispatch_keeps_wf)
  show "wf_core plain_core"
    by (simp add: wf_core_def plain_workspace_def empty_workspace_def wf_workspace_def all_tabs_def all_panes_def)
  show "fresh_window (re_window \<lparr>re_now = 0, re_workspace = Id ''w'', re_window = Id ''v'', re_snapshot = Id ''s'',
      re_json_what = ''e''\<rparr>) plain_core"
    by (simp add: fresh_window_def plain_workspace_def empty_workspace_def)
qed (simp add: sqlite_storage_def sqlite_load_workspace_def plain_db_def initialize_db_def empty_tables_def)

end
