(* ===== verification/History_Parser.thy ===== *)
theory History_Parser
  imports Pane_Tree
begin

text \<open>
  \<^verbatim>\<open>core/terminal/history_parser.cpp\<close>: Bash history files, plain (a command a line) or with
  time stamps (\<^verbatim>\<open>#seconds\<close> before each command, which may span lines).  \<^const>\<open>None\<close> is the
  exception that \<^verbatim>\<open>stoll\<close> throws for a time stamp beyond 64 bits.
\<close>

definition is_timestamp_line :: "string \<Rightarrow> bool" where
  "is_timestamp_line line =
     (case line of
        [] \<Rightarrow> False
      | c # ds \<Rightarrow> c = CHR ''#'' \<and> (\<forall>d \<in> set ds. is_digit d) \<and> length line > 1)"

definition make_record :: "string \<Rightarrow> i64 \<Rightarrow> command_record" where
  "make_record cmd ts = \<lparr>cr_command = cmd, cr_timestamp_us = ts, cr_pinned = False\<rparr>"

text \<open>The command so far, if any, as a record; seconds become microseconds, in 64 bits.\<close>

definition emit_command :: "string \<Rightarrow> i64 \<Rightarrow> command_record list" where
  "emit_command cmd ts = (if cmd \<noteq> [] then [make_record cmd (ts * 1000000)] else [])"

fun parse_timestamped :: "string list \<Rightarrow> i64 \<Rightarrow> string \<Rightarrow> command_record list option" where
  "parse_timestamped [] ts cmd = Some (emit_command cmd ts)"
| "parse_timestamped (line # lines) ts cmd =
     (let trimmed = trim line
      in if is_timestamp_line trimmed
         then (case stoll (tl trimmed) of
                 None \<Rightarrow> None
               | Some t \<Rightarrow> map_option (\<lambda>rs. emit_command cmd ts @ rs)
                             (parse_timestamped lines (word_of_int t) ''''))
         else if trimmed \<noteq> [] \<or> cmd \<noteq> []
         then parse_timestamped lines ts (if cmd \<noteq> [] then cmd @ newline # line else line)
         else parse_timestamped lines ts cmd)"

definition parse_plain :: "string list \<Rightarrow> command_record list" where
  "parse_plain lines = map (\<lambda>cmd. make_record cmd 0) (filter (\<lambda>cmd. cmd \<noteq> []) (map trim lines))"

definition parse_history_buffer :: "string \<Rightarrow> command_record list option" where
  "parse_history_buffer content =
     (if content = [] then Some []
      else
        let lines = getlines content;
            first_nonempty = (case find (\<lambda>l. trim l \<noteq> []) lines of Some l \<Rightarrow> l | None \<Rightarrow> '''')
        in if is_timestamp_line (trim first_nonempty) then parse_timestamped lines 0 ''''
           else Some (parse_plain lines))"

definition parse_history_file :: "string option \<Rightarrow> command_record list option" where
  "parse_history_file file = (case file of None \<Rightarrow> Some [] | Some content \<Rightarrow> parse_history_buffer content)"

section \<open>Lines\<close>

lemma getlines_line:
  assumes "newline \<notin> set l"
  shows "getlines (l @ newline # s) = l # getlines s"
proof -
  have t: "takeWhile (\<lambda>x. x \<noteq> newline) (l @ newline # s) = l"
    "dropWhile (\<lambda>x. x \<noteq> newline) (l @ newline # s) = newline # s"
    using assms by (subst takeWhile_append2 dropWhile_append2; auto)+
  show ?thesis
  proof (cases "l @ newline # s")
    case (Cons c r)
    then have "getlines (l @ newline # s) =
        takeWhile (\<lambda>x. x \<noteq> newline) (l @ newline # s) # getlines (tl (dropWhile (\<lambda>x. x \<noteq> newline) (l @ newline # s)))"
      by (simp only: getlines.simps(2))
    then show ?thesis unfolding t by simp
  qed simp
qed

fun unlines :: "string list \<Rightarrow> string" where
  "unlines [] = []"
| "unlines (l # ls) = l @ newline # unlines ls"

lemma getlines_unlines: "\<forall>l \<in> set ls. newline \<notin> set l \<Longrightarrow> getlines (unlines ls) = ls"
  by (induction ls) (simp_all add: getlines_line)

lemma unlines_Nil [simp]: "unlines ls = [] \<longleftrightarrow> ls = []"
  by (cases ls) simp_all

lemma unlines_append: "unlines (xs @ ys) = unlines xs @ unlines ys"
  by (induction xs) auto

lemma getlines_unlines_append:
  "\<forall>l \<in> set ls. newline \<notin> set l \<Longrightarrow> getlines (unlines ls @ s) = ls @ getlines s"
  by (induction ls) (simp_all add: getlines_line)

section \<open>Plain files\<close>

lemma parse_plain_append: "parse_plain (xs @ ys) = parse_plain xs @ parse_plain ys"
  by (simp add: parse_plain_def)

definition plain_lines :: "string list \<Rightarrow> bool" where
  "plain_lines ls \<longleftrightarrow> (\<forall>l \<in> set ls. newline \<notin> set l) \<and>
     (case find (\<lambda>l. trim l \<noteq> []) ls of Some l \<Rightarrow> \<not> is_timestamp_line (trim l) | None \<Rightarrow> True)"

lemma parse_plain_buffer:
  assumes "plain_lines ls"
  shows "parse_history_buffer (unlines ls) = Some (parse_plain ls)"
proof -
  have t: "\<not> is_timestamp_line (trim [])" by (simp add: is_timestamp_line_def trim_def)
  have g: "getlines (unlines ls) = ls" using assms by (simp add: plain_lines_def getlines_unlines)
  show ?thesis
    using assms t
    by (cases "ls = []")
      (simp_all add: parse_history_buffer_def g Let_def plain_lines_def parse_plain_def split: option.splits)
qed

section \<open>Time-stamped files\<close>

text \<open>
  A time-stamped history as Bash writes it: for each record its time in seconds and the lines of
  its command.
\<close>

type_synonym stamped_record = "nat \<times> string list"

definition command_lines_ok :: "string list \<Rightarrow> bool" where
  "command_lines_ok ls \<longleftrightarrow> ls \<noteq> [] \<and> trim (hd ls) \<noteq> [] \<and>
     (\<forall>l \<in> set ls. newline \<notin> set l \<and> \<not> is_timestamp_line (trim l))"

fun join_lines :: "string list \<Rightarrow> string" where
  "join_lines [] = []"
| "join_lines [l] = l"
| "join_lines (l # ls) = l @ newline # join_lines ls"

definition stamp_line :: "nat \<Rightarrow> string" where
  "stamp_line t = CHR ''#'' # dec_of_nat t"

definition render_history :: "stamped_record list \<Rightarrow> string" where
  "render_history rs = unlines (concat (map (\<lambda>(t, ls). stamp_line t # ls) rs))"

definition record_of :: "stamped_record \<Rightarrow> command_record" where
  "record_of = (\<lambda>(t, ls). make_record (join_lines ls) (word_of_int (int t) * 1000000))"

lemma dropWhile_hd: "\<not> P (hd xs) \<Longrightarrow> dropWhile P xs = xs"
  by (cases xs) simp_all

lemma trim_id: "s \<noteq> [] \<Longrightarrow> \<not> is_space (hd s) \<Longrightarrow> \<not> is_space (last s) \<Longrightarrow> trim s = s"
  by (simp add: trim_def dropWhile_hd hd_rev)

lemma digit_not_space: "is_digit c \<Longrightarrow> \<not> is_space c"
  by (auto simp: is_digit_def is_space_def)

lemma trim_stamp_line [simp]: "trim (stamp_line t) = stamp_line t"
proof (rule trim_id)
  show "\<not> is_space (last (stamp_line t))"
    using dec_of_nat_digits [of t] last_in_set [OF dec_of_nat_not_Nil [of t]]
    by (simp add: stamp_line_def digit_not_space)
qed (simp_all add: stamp_line_def is_space_def)

lemma is_timestamp_stamp [simp]: "is_timestamp_line (stamp_line t)"
  using dec_of_nat_digits [of t] dec_of_nat_not_Nil [of t]
  by (simp add: is_timestamp_line_def stamp_line_def)

lemma stoll_stamp: "t < 2 ^ 63 \<Longrightarrow> stoll (tl (stamp_line t)) = Some (int t)"
  using sto_int_digits [of "dec_of_nat t" t "- (2 ^ 63)" "2 ^ 63 - 1" "[]"]
  by (simp add: stoll_def stamp_line_def dec_of_nat_digits nat_of_dec_of_nat)

lemma stamp_no_newline: "newline \<notin> set (stamp_line t)"
  using dec_of_nat_digits [of t] by (auto simp: stamp_line_def newline_def is_digit_def)

fun fold_lines :: "string \<Rightarrow> string list \<Rightarrow> string" where
  "fold_lines cmd [] = cmd"
| "fold_lines cmd (l # ls) = fold_lines (if cmd \<noteq> [] then cmd @ newline # l else l) ls"

lemma parse_command_lines:
  assumes "\<forall>l \<in> set ls. \<not> is_timestamp_line (trim l)" "cmd \<noteq> []"
  shows "parse_timestamped (ls @ rest) ts cmd = parse_timestamped rest ts (fold_lines cmd ls)"
  using assms by (induction ls arbitrary: cmd) (simp_all add: Let_def)

lemma join_Cons: "join_lines (l # ls) = (if ls = [] then l else l @ newline # join_lines ls)"
  by (cases ls) simp_all

lemma fold_join: "cmd \<noteq> [] \<Longrightarrow> fold_lines cmd ls = (if ls = [] then cmd else cmd @ newline # join_lines ls)"
  by (induction ls arbitrary: cmd) (auto simp: join_Cons simp del: join_lines.simps)

lemma parse_command:
  assumes "command_lines_ok ls"
  shows "parse_timestamped (ls @ rest) ts '''' = parse_timestamped rest ts (join_lines ls) \<and> join_lines ls \<noteq> []"
proof -
  from assms obtain l ls' where ls: "ls = l # ls'" "trim l \<noteq> []" "\<not> is_timestamp_line (trim l)"
    and rest: "\<forall>l \<in> set ls'. \<not> is_timestamp_line (trim l)"
    by (cases ls) (auto simp: command_lines_ok_def)
  from ls(2) have ne: "l \<noteq> []" by (auto simp: trim_def)
  have "join_lines ls = (if ls' = [] then l else l @ newline # join_lines ls')"
    by (cases ls') (simp_all add: ls)
  then have j: "join_lines ls = fold_lines l ls'" using ne by (simp add: fold_join)
  moreover have "join_lines ls \<noteq> []" using ne by (cases ls') (simp_all add: ls)
  moreover have "parse_timestamped (ls @ rest) ts '''' = parse_timestamped (ls' @ rest) ts l"
    using ls by (simp add: Let_def)
  ultimately show ?thesis using parse_command_lines [OF rest ne] by simp
qed

lemma parse_stamped_records:
  assumes "\<forall>(t, ls) \<in> set rs. t < 2 ^ 63 \<and> command_lines_ok ls"
  shows "parse_timestamped (concat (map (\<lambda>(t, ls). stamp_line t # ls) rs)) ts cmd =
    Some (emit_command cmd ts @ map record_of rs)"
  using assms
proof (induction rs arbitrary: ts cmd)
  case (Cons r rs)
  obtain t ls where r: "r = (t, ls)" by (cases r)
  with Cons.prems have t: "t < 2 ^ 63" and ls: "command_lines_ok ls" by auto
  let ?rest = "concat (map (\<lambda>(t, ls). stamp_line t # ls) rs)"
  have "parse_timestamped (ls @ ?rest) (word_of_int (int t)) '''' =
      Some (emit_command (join_lines ls) (word_of_int (int t)) @ map record_of rs)"
    using parse_command [OF ls] Cons by simp
  moreover have "emit_command (join_lines ls) (word_of_int (int t)) = [record_of (t, ls)]"
    using parse_command [OF ls] by (simp add: emit_command_def record_of_def)
  ultimately show ?case
    by (simp add: r stoll_stamp [OF t])
qed simp

lemma parse_render_history:
  assumes "\<forall>(t, ls) \<in> set rs. t < 2 ^ 63 \<and> command_lines_ok ls"
  shows "parse_history_buffer (render_history rs) = Some (map record_of rs)"
proof (cases rs)
  case Nil
  then show ?thesis by (simp add: parse_history_buffer_def render_history_def)
next
  case (Cons r rs')
  obtain t ls where r: "r = (t, ls)" by (cases r)
  let ?lines = "concat (map (\<lambda>(t, ls). stamp_line t # ls) rs)"
  have "\<forall>l \<in> set ?lines. newline \<notin> set l"
    using assms stamp_no_newline by (fastforce simp: command_lines_ok_def)
  then have g: "getlines (render_history rs) = ?lines"
    by (simp add: render_history_def getlines_unlines)
  have "render_history rs \<noteq> []" by (simp add: Cons r render_history_def)
  moreover have "find (\<lambda>l. trim l \<noteq> []) ?lines = Some (stamp_line t)"
    by (simp add: Cons r) (simp add: stamp_line_def)
  ultimately show ?thesis
    using parse_stamped_records [OF assms, of 0 "''''"]
    by (simp add: parse_history_buffer_def g emit_command_def)
qed

text \<open>A time stamp beyond 64 bits makes the whole parse throw.\<close>

lemma parse_stamp_overflow:
  assumes "2 ^ 63 \<le> t"
  shows "parse_history_buffer (unlines (stamp_line t # ls)) = None"
proof -
  have "stoll (tl (stamp_line t)) = None"
  proof -
    have "takeWhile is_digit (dec_of_nat t) = dec_of_nat t"
      using dec_of_nat_digits [of t] by (simp add: takeWhile_eq_all_conv)
    moreover obtain c cs where c: "dec_of_nat t = c # cs"
      using dec_of_nat_not_Nil [of t] by (cases "dec_of_nat t") auto
    moreover have "is_digit c" using dec_of_nat_digits [of t] c by simp
    then have "\<not> is_space c" "c \<noteq> CHR ''-''" "c \<noteq> CHR ''+''"
      by (auto simp: is_digit_def is_space_def)
    moreover have "nat_of_dec 0 (c # cs) = t" using nat_of_dec_of_nat [of t] c by simp
    ultimately show ?thesis
      using assms by (simp add: stoll_def sto_int_def stamp_line_def Let_def del: nat_of_dec.simps)
  qed
  moreover have "getlines (unlines (stamp_line t # ls)) = stamp_line t # getlines (unlines ls)"
    using stamp_no_newline by (simp add: getlines_line)
  moreover have "trim (stamp_line t) \<noteq> []" by (simp, simp add: stamp_line_def)
  ultimately show ?thesis
    by (simp add: parse_history_buffer_def Let_def del: trim_stamp_line) simp
qed

end
