(* ===== verification/History_Tracker.thy ===== *)
theory History_Tracker
  imports History_Parser Storage_Api
begin

text \<open>
  \<^verbatim>\<open>gui/terminal/pane_history_tracker.hpp\<close> and \<^verbatim>\<open>.cpp\<close>: the in-memory history of a pane, kept
  in step with the shell's history file.  A look at the file gives its size, its time of change
  and its content; the looks of one call are its arguments.  \<open>std::mutex\<close> is not recursive: a
  thread that locks it again never returns.  Every operation gives an outcome that says whether
  it returned, threw or blocked.
\<close>

datatype 'a outcome = Returned 'a | Threw | Blocked

record cached_entry =
  ce_record :: command_record
  ce_pinned :: bool

record tracker =
  cache :: "cached_entry list"
  last_known_size :: u64
  last_known_mtime :: u64
  mutex_held :: bool
  initial_load_done :: bool

definition new_tracker :: tracker where
  "new_tracker = \<lparr>cache = [], last_known_size = 0, last_known_mtime = 0, mutex_held = False,
     initial_load_done = False\<rparr>"

record file_view =
  fv_content :: string
  fv_size :: u64
  fv_mtime :: u64

text \<open>\<^verbatim>\<open>std::lock_guard\<close>: lock, run, unlock on every way out.\<close>

definition with_lock :: "(tracker \<Rightarrow> ('a \<times> tracker) outcome) \<Rightarrow> tracker \<Rightarrow> ('a \<times> tracker) outcome" where
  "with_lock f tr =
     (if mutex_held tr then Blocked
      else case f (tr\<lparr>mutex_held := True\<rparr>) of
             Returned (x, tr') \<Rightarrow> Returned (x, tr'\<lparr>mutex_held := False\<rparr>)
           | Threw \<Rightarrow> Threw
           | Blocked \<Rightarrow> Blocked)"

definition unpinned :: "command_record \<Rightarrow> cached_entry" where
  "unpinned r = \<lparr>ce_record = r, ce_pinned = False\<rparr>"

definition initial_load :: "file_view \<Rightarrow> tracker \<Rightarrow> (unit \<times> tracker) outcome" where
  "initial_load fv = with_lock (\<lambda>tr.
     case (if fv_content fv = '''' then Some [] else parse_history_buffer (fv_content fv)) of
       None \<Rightarrow> Threw
     | Some recs \<Rightarrow>
         Returned ((), tr\<lparr>cache := map unpinned recs, last_known_size := fv_size fv,
                         last_known_mtime := fv_mtime fv, initial_load_done := True\<rparr>))"

text \<open>Append, skipping a record that repeats the last command.\<close>

fun merge_records :: "cached_entry list \<Rightarrow> command_record list \<Rightarrow> cached_entry list" where
  "merge_records c [] = c"
| "merge_records c (r # rs) =
     (if c \<noteq> [] \<and> cr_command (ce_record (last c)) = cr_command r
      then merge_records (if cr_pinned r then butlast c @ [(last c)\<lparr>ce_pinned := True\<rparr>] else c) rs
      else merge_records (c @ [unpinned r]) rs)"

definition parse_and_merge :: "string \<Rightarrow> tracker \<Rightarrow> tracker option" where
  "parse_and_merge new_content tr =
     (if new_content = '''' then Some tr
      else case parse_history_buffer new_content of
             None \<Rightarrow> None
           | Some recs \<Rightarrow> Some (tr\<lparr>cache := merge_records (cache tr) recs\<rparr>))"

datatype sync_plan = Stop | FullReload | Incremental string

text \<open>
  The first critical section of \<^verbatim>\<open>sync\<close>, which calls \<^verbatim>\<open>initial_load\<close> with the mutex held when
  nothing was loaded yet.  \<open>fv\<close> is the look at the file that \<^verbatim>\<open>sync\<close> starts with.
\<close>

definition sync_decide :: "file_view \<Rightarrow> tracker \<Rightarrow> (sync_plan \<times> tracker) outcome" where
  "sync_decide fv = with_lock (\<lambda>tr.
     if \<not> initial_load_done tr
     then (case initial_load fv tr of
             Returned (_, tr) \<Rightarrow> Returned (Stop, tr)
           | Threw \<Rightarrow> Threw
           | Blocked \<Rightarrow> Blocked)
     else if fv_size fv = last_known_size tr \<and> fv_mtime fv = last_known_mtime tr
     then Returned (Stop, tr)
     else if fv_size fv < last_known_size tr then Returned (FullReload, tr)
     else if fv_size fv > last_known_size tr then
       (if of_nat (length (fv_content fv)) > last_known_size tr
        then Returned (Incremental (drop (unat (last_known_size tr)) (fv_content fv)), tr)
        else Returned (FullReload, tr))
     else Returned (Stop, tr))"

definition sync :: "file_view \<Rightarrow> tracker \<Rightarrow> (bool \<times> tracker) outcome" where
  "sync fv tr =
     (case sync_decide fv tr of
        Threw \<Rightarrow> Threw
      | Blocked \<Rightarrow> Blocked
      | Returned (plan, tr) \<Rightarrow>
          (case plan of
             Stop \<Rightarrow> Returned (False, tr)
           | FullReload \<Rightarrow>
               (case initial_load fv tr of
                  Returned (_, tr') \<Rightarrow> Returned (length (cache tr') \<noteq> length (cache tr), tr')
                | Threw \<Rightarrow> Threw
                | Blocked \<Rightarrow> Blocked)
           | Incremental new_content \<Rightarrow>
               if new_content = '''' then Returned (False, tr)
               else with_lock (\<lambda>tr.
                 case parse_and_merge new_content tr of
                   None \<Rightarrow> Threw
                 | Some tr' \<Rightarrow>
                     Returned (length (cache tr') \<noteq> length (cache tr),
                       tr'\<lparr>last_known_size := fv_size fv, last_known_mtime := fv_mtime fv\<rparr>)) tr))"

definition returned_record :: "cached_entry \<Rightarrow> command_record" where
  "returned_record e = (if ce_pinned e then (ce_record e)\<lparr>cr_pinned := True\<rparr> else ce_record e)"

definition commands_asc :: "tracker \<Rightarrow> command_record list" where
  "commands_asc tr = map returned_record (cache tr)"

definition commands_desc :: "tracker \<Rightarrow> command_record list" where
  "commands_desc tr = map returned_record (rev (cache tr))"

text \<open>The loops from \<^verbatim>\<open>cache_.rbegin()\<close>.\<close>

definition set_newest :: "string \<Rightarrow> bool \<Rightarrow> cached_entry list \<Rightarrow> cached_entry list" where
  "set_newest command pinned c =
     rev (upd_first (\<lambda>e. cr_command (ce_record e) = command) (\<lambda>e. e\<lparr>ce_pinned := pinned\<rparr>) (rev c))"

definition pin_command :: "string \<Rightarrow> bool \<Rightarrow> tracker \<Rightarrow> tracker" where
  "pin_command command pinned tr =
     (if command = '''' then tr else tr\<lparr>cache := set_newest command pinned (cache tr)\<rparr>)"

definition is_pinned :: "string \<Rightarrow> tracker \<Rightarrow> bool" where
  "is_pinned command tr =
     (if command = '''' then False
      else case find (\<lambda>e. cr_command (ce_record e) = command) (rev (cache tr)) of
             None \<Rightarrow> False
           | Some e \<Rightarrow> ce_pinned e)"

definition apply_annotations :: "history_annotation list \<Rightarrow> tracker \<Rightarrow> tracker" where
  "apply_annotations anns tr =
     tr\<lparr>cache := foldl (\<lambda>c a. if ha_pinned a then set_newest (ha_command a) True c else c) (cache tr) anns\<rparr>"

section \<open>Lemmas\<close>

lemma initial_load_free:
  assumes "\<not> mutex_held tr" "parse_history_buffer (fv_content fv) = Some recs"
  shows "initial_load fv tr = Returned ((), tr\<lparr>cache := map unpinned recs,
    last_known_size := fv_size fv, last_known_mtime := fv_mtime fv, initial_load_done := True,
    mutex_held := False\<rparr>)"
  using assms by (cases tr) (auto simp: initial_load_def with_lock_def parse_history_buffer_def)

lemma sync_unloaded_blocks:
  assumes "\<not> initial_load_done tr"
  shows "sync fv tr = Blocked"
  using assms by (simp add: sync_def sync_decide_def with_lock_def initial_load_def)

lemma merge_append:
  "merge_records c (rs @ rs') = merge_records (merge_records c rs) rs'"
  by (induction c rs rule: merge_records.induct) auto

text \<open>Adjacent repeats in a list of records, and what \<open>merge_records\<close> keeps of them.\<close>

fun dedupe_adjacent :: "string option \<Rightarrow> command_record list \<Rightarrow> command_record list" where
  "dedupe_adjacent prev [] = []"
| "dedupe_adjacent prev (r # rs) =
     (if prev = Some (cr_command r) then dedupe_adjacent prev rs
      else r # dedupe_adjacent (Some (cr_command r)) rs)"

lemma merge_dedupe:
  assumes "\<forall>r \<in> set rs. \<not> cr_pinned r"
  shows "merge_records c rs = c @ map unpinned
    (dedupe_adjacent (if c = [] then None else Some (cr_command (ce_record (last c)))) rs)"
  using assms
proof (induction rs arbitrary: c)
  case (Cons r rs)
  then show ?case by (cases "c \<noteq> [] \<and> cr_command (ce_record (last c)) = cr_command r")
      (auto simp: unpinned_def)
qed simp

lemma find_set_newest: "command \<noteq> '''' \<Longrightarrow>
  find (\<lambda>e. cr_command (ce_record e) = command) (rev (set_newest command pinned c)) =
    map_option (\<lambda>e. e\<lparr>ce_pinned := pinned\<rparr>) (find (\<lambda>e. cr_command (ce_record e) = command) (rev c))"
proof -
  have "find (\<lambda>e. cr_command (ce_record e) = command) (upd_first
      (\<lambda>e. cr_command (ce_record e) = command) (\<lambda>e. e\<lparr>ce_pinned := pinned\<rparr>) xs) =
    map_option (\<lambda>e. e\<lparr>ce_pinned := pinned\<rparr>) (find (\<lambda>e. cr_command (ce_record e) = command) xs)" for xs
    by (induction xs) auto
  then show ?thesis by (simp add: set_newest_def)
qed

lemma make_record_unpinned: "parse_history_buffer s = Some rs \<Longrightarrow> r \<in> set rs \<Longrightarrow> \<not> cr_pinned r"
proof -
  have "parse_timestamped ls ts cmd = Some rs \<Longrightarrow> \<forall>r \<in> set rs. \<not> cr_pinned r" for ls ts cmd rs
    by (induction ls ts cmd arbitrary: rs rule: parse_timestamped.induct)
      (auto simp: emit_command_def make_record_def Let_def split: if_splits option.splits)
  then show "parse_history_buffer s = Some rs \<Longrightarrow> r \<in> set rs \<Longrightarrow> \<not> cr_pinned r"
    by (fastforce simp: parse_history_buffer_def parse_plain_def make_record_def Let_def split: if_splits)
qed

text \<open>
  A tracker that has loaded a prefix of the file and syncs with the grown file merges exactly
  the records of the new part.
\<close>

lemma sync_growth:
  assumes "initial_load_done tr" "\<not> mutex_held tr" "last_known_size tr = of_nat (length old)"
    and "fv_content fv = old @ new" "fv_size fv = of_nat (length (old @ new))" "new \<noteq> ''''"
    and "length (old @ new) < 2 ^ 64" "parse_history_buffer new = Some recs"
  shows "\<exists>tr'. sync fv tr = Returned (length (cache tr') \<noteq> length (cache tr), tr') \<and>
    cache tr' = merge_records (cache tr) recs \<and> last_known_size tr' = fv_size fv \<and>
    last_known_mtime tr' = fv_mtime fv \<and> initial_load_done tr' \<and> \<not> mutex_held tr'"
proof -
  have u: "unat (of_nat (length old) :: u64) = length old"
    "unat (of_nat (length (old @ new)) :: u64) = length (old @ new)"
    by (rule of_nat_inverse [OF refl]; use assms(7) in simp)+
  then have lt: "(of_nat (length old) :: u64) < of_nat (length (old @ new))"
    unfolding word_less_nat_alt using assms(6) by simp
  then have f: "last_known_size tr < fv_size fv" "of_nat (length (fv_content fv)) = fv_size fv"
    "drop (unat (last_known_size tr)) (fv_content fv) = new"
    using assms(3-5) u by (simp_all only: append_eq_conv_conj) simp
  then have "\<not> fv_size fv < last_known_size tr" "fv_size fv \<noteq> last_known_size tr" by auto
  with f have "sync_decide fv tr = Returned (Incremental new, tr\<lparr>mutex_held := False\<rparr>)"
    using assms(1,2) by (simp add: sync_decide_def with_lock_def)
  then show ?thesis
    using assms(1,2,6,8) by (simp add: sync_def with_lock_def parse_and_merge_def)
qed

end
