(* ===== verification/Commands_Page.thy ===== *)
theory Commands_Page
  imports History_Tracker
begin

text \<open>
  The list of the Commands panel (\<^verbatim>\<open>gui/window/commands_page.hpp\<close>, \<^verbatim>\<open>.cpp\<close>): the rows taken
  from the focused pane's tracker, their order, the search filter and the pin action.  The
  widgets are left out; a rebuilt list is the list of the commands and labels it shows.
\<close>

record command_row =
  row_command :: string
  row_display :: string
  row_timestamp_us :: i64
  row_pinned :: bool
  row_pane_id :: string
  row_window_id :: string

record commands_page =
  page_pane_id :: string
  page_window_id :: string
  page_search :: string
  page_rows :: "command_row list"
  rebuild_scheduled :: bool

text \<open>\<^verbatim>\<open>size_t\<close> arithmetic: with a limit below 3, \<^verbatim>\<open>max_len - 3\<close> wraps and nothing is cut.\<close>

definition truncate_for_display :: "string \<Rightarrow> u64 \<Rightarrow> string" where
  "truncate_for_display cmd max_len =
     (if length cmd \<le> unat max_len then cmd else take (unat (max_len - 3)) cmd @ ''...'')"

definition row_of :: "commands_page \<Rightarrow> command_record \<Rightarrow> command_row" where
  "row_of pg r = \<lparr>row_command = cr_command r, row_display = truncate_for_display (cr_command r) 80,
     row_timestamp_us = cr_timestamp_us r, row_pinned = cr_pinned r,
     row_pane_id = page_pane_id pg, row_window_id = page_window_id pg\<rparr>"

definition schedule_rebuild :: "commands_page \<Rightarrow> commands_page" where
  "schedule_rebuild pg = pg\<lparr>rebuild_scheduled := True\<rparr>"

definition refresh :: "tracker option \<Rightarrow> commands_page \<Rightarrow> commands_page" where
  "refresh tr pg = schedule_rebuild
     (pg\<lparr>page_rows := (case tr of None \<Rightarrow> [] | Some tr \<Rightarrow> map (row_of pg) (commands_desc tr))\<rparr>)"

definition set_pane_context :: "string \<Rightarrow> string \<Rightarrow> commands_page \<Rightarrow> commands_page" where
  "set_pane_context pane_id window_id pg = pg\<lparr>page_pane_id := pane_id, page_window_id := window_id\<rparr>"

definition apply_search_filter :: "string \<Rightarrow> commands_page \<Rightarrow> commands_page" where
  "apply_search_filter text pg = schedule_rebuild (pg\<lparr>page_search := text\<rparr>)"

text \<open>\<^verbatim>\<open>std::stable_sort\<close> with pinned rows before the others.\<close>

definition sort_rows :: "command_row list \<Rightarrow> command_row list" where
  "sort_rows rows = sort_key (\<lambda>r. if row_pinned r then 0 else (1 :: nat)) rows"

definition row_matches :: "string \<Rightarrow> command_row \<Rightarrow> bool" where
  "row_matches search r \<longleftrightarrow>
     search = '''' \<or> contains (map to_lower search) (map to_lower (row_command r))"

text \<open>The rebuilt list, and the page with its rows now in the shown order.\<close>

definition rebuild_list :: "commands_page \<Rightarrow> command_row list \<times> commands_page" where
  "rebuild_list pg =
     (let rows = (if page_rows pg = [] then [] else sort_rows (page_rows pg))
      in (filter (row_matches (page_search pg)) rows, pg\<lparr>page_rows := rows, rebuild_scheduled := False\<rparr>))"

text \<open>The item Pin or Unpin of the context menu, for the command of the row clicked.\<close>

definition toggle_pin :: "string \<Rightarrow> tracker option \<Rightarrow> commands_page \<Rightarrow> tracker option \<times> commands_page" where
  "toggle_pin command tr pg =
     (let is_pinned = (case find (\<lambda>r. row_command r = command) (page_rows pg) of
                         None \<Rightarrow> False | Some r \<Rightarrow> row_pinned r);
          tr = map_option (pin_command command (\<not> is_pinned)) tr
      in (tr, refresh tr pg))"

section \<open>Lemmas\<close>

lemma insort_partition:
  assumes "\<forall>r \<in> set ps. row_pinned r" "\<forall>r \<in> set us. \<not> row_pinned r"
  shows "insort_key (\<lambda>r. if row_pinned r then 0 else (1 :: nat)) x (ps @ us) =
    (if row_pinned x then x # ps @ us else ps @ x # us)"
  using assms by (induction ps) (auto simp: neq_Nil_conv, cases us, auto)

lemma sort_rows_partition: "sort_rows rows = filter row_pinned rows @ filter (\<lambda>r. \<not> row_pinned r) rows"
  by (induction rows) (auto simp: sort_rows_def insort_partition)

lemma visible_rows:
  "fst (rebuild_list pg) =
     filter (row_matches (page_search pg)) (filter row_pinned (page_rows pg)) @
     filter (row_matches (page_search pg)) (filter (\<lambda>r. \<not> row_pinned r) (page_rows pg))"
  by (simp add: rebuild_list_def sort_rows_partition Let_def)

lemma sort_rows_idem: "sort_rows (sort_rows rows) = sort_rows rows"
  by (simp add: sort_rows_partition)

lemma contains_append: "contains needle s \<longleftrightarrow> (\<exists>a b. s = a @ needle @ b)"
proof (induction s)
  case (Cons c s)
  have "contains needle (c # s) \<longleftrightarrow> (\<exists>b. c # s = needle @ b) \<or> (\<exists>a b. s = a @ needle @ b)"
    by (auto simp: Cons.IH starts_with_def) (metis append_take_drop_id)
  also have "\<dots> \<longleftrightarrow> (\<exists>a b. c # s = a @ needle @ b)"
    by (metis append_Cons append_Nil list.inject neq_Nil_conv)
  finally show ?case .
qed simp

lemma truncate_length: "3 \<le> unat n \<Longrightarrow> length (truncate_for_display cmd n) \<le> unat n"
  by (simp add: truncate_for_display_def unat_sub_if_size min_def) linarith

end
