(* ===== verification/Terminal_Cwd.thy ===== *)
theory Terminal_Cwd
  imports Prelude
begin

text \<open>
  \<^verbatim>\<open>core/terminal/cwd.hpp\<close>: the working directory of a pane, read from the URI the shell
  reports, and the orders of preference at capture and restore.  The file system's answers
  (\<^verbatim>\<open>canonical\<close>, \<^verbatim>\<open>is_directory\<close>) are arguments.
\<close>

definition hex_value :: "char \<Rightarrow> int" where
  "hex_value c =
     (if CHR ''0'' \<le> c \<and> c \<le> CHR ''9'' then int (of_char c) - 48
      else if CHR ''a'' \<le> c \<and> c \<le> CHR ''f'' then int (of_char c) - 97 + 10
      else if CHR ''A'' \<le> c \<and> c \<le> CHR ''F'' then int (of_char c) - 65 + 10
      else - 1)"

fun percent_decode :: "string \<Rightarrow> string" where
  "percent_decode [] = []"
| "percent_decode (c # h # l # s) =
     (if c = CHR ''%'' \<and> 0 \<le> hex_value h \<and> 0 \<le> hex_value l
      then char_of (nat (hex_value h) * 16 + nat (hex_value l)) # percent_decode s
      else c # percent_decode (h # l # s))"
| "percent_decode (c # s) = c # percent_decode s"

definition kPrefix :: string where
  "kPrefix = ''file://''"

definition osc7_file_uri_to_path :: "string \<Rightarrow> string" where
  "osc7_file_uri_to_path uri =
     (if \<not> starts_with kPrefix uri then ''''
      else
        let rest = drop (length kPrefix) uri;
            authority = takeWhile (\<lambda>c. c \<noteq> CHR ''/'') rest;
            path = dropWhile (\<lambda>c. c \<noteq> CHR ''/'') rest
        in if path = [] then ''''
           else if percent_decode authority \<noteq> '''' then ''''
           else percent_decode path)"

definition read_proc_cwd :: "(string \<Rightarrow> string option) \<Rightarrow> int \<Rightarrow> string" where
  "read_proc_cwd canonical pid =
     (if pid \<le> 0 then ''''
      else case canonical (''/proc/'' @ dec_of_int pid @ ''/cwd'') of None \<Rightarrow> '''' | Some p \<Rightarrow> p)"

definition pick_capture_cwd :: "string \<Rightarrow> string \<Rightarrow> string \<Rightarrow> string \<Rightarrow> string" where
  "pick_capture_cwd osc7_path proc_cwd cached home =
     (if osc7_path \<noteq> '''' then osc7_path
      else if proc_cwd \<noteq> '''' then proc_cwd
      else if cached \<noteq> '''' then cached
      else home)"

definition pick_restore_cwd :: "(string \<Rightarrow> bool) \<Rightarrow> string \<Rightarrow> string \<Rightarrow> string" where
  "pick_restore_cwd is_directory captured home =
     (if captured \<noteq> '''' \<and> is_directory captured then captured
      else if home \<noteq> '''' \<and> is_directory home then home
      else '''')"

section \<open>Decoding what a shell encodes\<close>

text \<open>The usual encoder: every byte but letters, digits and a few marks as \<^verbatim>\<open>%XX\<close>.\<close>

definition hex_digit :: "nat \<Rightarrow> char" where
  "hex_digit d = (if d < 10 then char_of (48 + d) else char_of (55 + d))"

definition encode_char :: "(char \<Rightarrow> bool) \<Rightarrow> char \<Rightarrow> string" where
  "encode_char keep c =
     (if keep c then [c] else [CHR ''%'', hex_digit (of_char c div 16), hex_digit (of_char c mod 16)])"

definition percent_encode :: "(char \<Rightarrow> bool) \<Rightarrow> string \<Rightarrow> string" where
  "percent_encode keep s = concat (map (encode_char keep) s)"

lemma hex_value_digit:
  assumes "d < 16"
  shows "hex_value (hex_digit d) = int d"
proof -
  have "d \<in> set [0..<16]" using assms by simp
  then show ?thesis
    by (simp add: upt_rec hex_digit_def) (elim disjE; simp add: hex_value_def less_eq_char_def of_char_of)
qed

lemma percent_decode_other: "c \<noteq> CHR ''%'' \<Longrightarrow> percent_decode (c # s) = c # percent_decode s"
  by (cases "(c # s)" rule: percent_decode.cases) auto

lemma percent_decode_encode_lemma:
  assumes "\<not> keep CHR ''%''"
  shows "percent_decode (percent_encode keep s) = s"
proof (induction s)
  case (Cons c s)
  have c: "of_char c < (256 :: nat)" by simp
  then have "of_char c div 16 < (16 :: nat)" by (simp add: div_less_iff_less_mult)
  with Cons show ?case
  proof (cases "keep c")
    case True
    with assms have "c \<noteq> CHR ''%''" by auto
    with True Cons show ?thesis by (simp add: percent_encode_def encode_char_def percent_decode_other)
  next
    case False
    have "nat (int (of_char c div 16)) * 16 + nat (int (of_char c mod 16)) = (of_char c :: nat)"
      by simp
    then have "char_of (nat (int (of_char c div 16)) * 16 + nat (int (of_char c mod 16))) = c"
      by (simp only: char_of_char)
    with False Cons \<open>of_char c div 16 < (16 :: nat)\<close> show ?thesis
      by (simp add: percent_encode_def encode_char_def hex_value_digit)
  qed
qed (simp add: percent_encode_def)

lemma osc7_local:
  assumes "\<not> keep CHR ''%''" "keep CHR ''/''"
  shows "osc7_file_uri_to_path (kPrefix @ percent_encode keep (CHR ''/'' # p)) = CHR ''/'' # p"
proof -
  have "percent_encode keep (CHR ''/'' # p) = CHR ''/'' # percent_encode keep p"
    using assms(2) by (simp add: percent_encode_def encode_char_def)
  moreover have "percent_decode (percent_encode keep (CHR ''/'' # p)) = CHR ''/'' # p"
    using assms(1) by (rule percent_decode_encode_lemma)
  ultimately show ?thesis
    by (simp add: osc7_file_uri_to_path_def starts_with_def Let_def)
qed

lemma percent_decode_ne: "s \<noteq> [] \<Longrightarrow> percent_decode s \<noteq> []"
  by (cases s rule: percent_decode.cases) auto

lemma osc7_remote:
  assumes "CHR ''/'' \<notin> set host" "host \<noteq> ''''"
  shows "osc7_file_uri_to_path (kPrefix @ host @ CHR ''/'' # p) = ''''"
proof -
  have "takeWhile (\<lambda>c. c \<noteq> CHR ''/'') (host @ CHR ''/'' # p) = host"
    using assms(1) by (subst takeWhile_append2) auto
  then show ?thesis
    using percent_decode_ne [OF assms(2)]
    by (simp add: osc7_file_uri_to_path_def starts_with_def Let_def)
qed

end
