(* ===== verification/Identifiers.thy ===== *)
theory Identifiers
  imports Prelude
begin

unbundle bit_operations_syntax

text \<open>
  \<^verbatim>\<open>Id::generate\<close> of \<^verbatim>\<open>core/id.hpp\<close> and \<^verbatim>\<open>sha256_hex\<close> of \<^verbatim>\<open>core/crypto.cpp\<close>.  An identifier
  is two draws of a \<^verbatim>\<open>std::mt19937_64\<close> engine, printed in hexadecimal without padding and
  joined; the engine is seeded with one 32-bit value of \<^verbatim>\<open>std::random_device\<close>, the argument.
  A \<^verbatim>\<open>uniform_int_distribution\<close> over all 64-bit values passes the engine's output on.
\<close>

section \<open>Hexadecimal printing\<close>

definition hex_char :: "nat \<Rightarrow> char" where
  "hex_char d = char_of (if d < 10 then 48 + d else 87 + d)"

fun hex_of_nat :: "nat \<Rightarrow> string" where
  "hex_of_nat n = (if n < 16 then [hex_char n] else hex_of_nat (n div 16) @ [hex_char (n mod 16)])"

declare hex_of_nat.simps [simp del]

section \<open>The engine\<close>

text \<open>\<^verbatim>\<open>seed(v)\<close>: the state words by the recurrence of the standard.\<close>

fun mt_seed :: "u64 \<Rightarrow> nat \<Rightarrow> u64" where
  "mt_seed v 0 = v"
| "mt_seed v (Suc i) =
     (let x = mt_seed v i in 6364136223846793005 * (x XOR drop_bit 62 x) + of_nat (Suc i))"

definition mt_twist :: "u64 \<Rightarrow> u64 \<Rightarrow> u64 \<Rightarrow> u64" where
  "mt_twist x0 x1 xm =
     (let y = (x0 AND 0xFFFFFFFF80000000) OR (x1 AND 0x7FFFFFFF)
      in xm XOR drop_bit 1 y XOR (if bit y 0 then 0xB5026F5AA96619E9 else 0))"

definition mt_temper :: "u64 \<Rightarrow> u64" where
  "mt_temper x =
     (let x = x XOR (drop_bit 29 x AND 0x5555555555555555);
          x = x XOR (push_bit 17 x AND 0x71D67FFFEDA60000);
          x = x XOR (push_bit 37 x AND 0xFFF7EEE000000000)
      in x XOR drop_bit 43 x)"

text \<open>Draw \<open>i\<close>, for \<open>i\<close> below 156: the state words it combines are still those of the seed.\<close>

definition mt_draw :: "u32 \<Rightarrow> nat \<Rightarrow> u64" where
  "mt_draw seed i =
     (let x = mt_seed (ucast seed) in mt_temper (mt_twist (x i) (x (i + 1)) (x (i + 156))))"

section \<open>Identifiers and digests\<close>

definition id_of_draws :: "u64 \<Rightarrow> u64 \<Rightarrow> 'tag id" where
  "id_of_draws a b = Id (hex_of_nat (unat a) @ hex_of_nat (unat b))"

definition id_generate :: "u32 \<Rightarrow> 'tag id" where
  "id_generate seed = id_of_draws (mt_draw seed 0) (mt_draw seed 1)"

text \<open>\<open>sha256\<close> is the library's digest, 32 bytes; each is printed with two digits.\<close>

definition hex_byte :: "u8 \<Rightarrow> string" where
  "hex_byte b = (let s = hex_of_nat (unat b) in replicate (2 - length s) (CHR ''0'') @ s)"

definition sha256_hex :: "(string \<Rightarrow> bytes) \<Rightarrow> string \<Rightarrow> string" where
  "sha256_hex sha256 input = concat (map hex_byte (sha256 input))"

section \<open>Lemmas\<close>

lemma hex_of_nat_not_Nil [simp]: "hex_of_nat n \<noteq> []" "[] \<noteq> hex_of_nat n"
  by (subst hex_of_nat.simps, simp)+

lemma unat_u8: "unat (x :: u8) < 256"
  using unsigned_less [of x] by simp

lemma unat_u64: "unat (x :: u64) < 2 ^ 64"
  using unsigned_less [of x] by simp

lemma hex_char_inject: "a < 16 \<Longrightarrow> b < 16 \<Longrightarrow> hex_char a = hex_char b \<longleftrightarrow> a = b"
proof -
  assume "a < 16" "b < 16"
  then show ?thesis
    using char_of_eq_iff [of "if a < 10 then 48 + a else 87 + a" "hex_char b"]
    by (auto simp: hex_char_def take_bit_eq_mod of_char_of split: if_splits)
qed

lemma hex_char_set: "d < 16 \<Longrightarrow> hex_char d \<in> set ''0123456789abcdef''"
proof -
  assume "d < 16"
  then have "d \<in> set [0..<16]" by simp
  moreover have "\<forall>d \<in> set [0..<16]. hex_char d \<in> set ''0123456789abcdef''" by code_simp
  ultimately show ?thesis by blast
qed

lemma hex_of_nat_set: "set (hex_of_nat n) \<subseteq> set ''0123456789abcdef''"
proof (induction n rule: hex_of_nat.induct)
  case (1 n)
  show ?case
  proof (cases "n < 16")
    case True
    then show ?thesis using hex_char_set by (subst hex_of_nat.simps) simp
  next
    case False
    then have "set (hex_of_nat (n div 16)) \<subseteq> set ''0123456789abcdef''" using 1 by simp
    moreover have "hex_char (n mod 16) \<in> set ''0123456789abcdef''" by (rule hex_char_set) simp
    ultimately show ?thesis using False by (subst hex_of_nat.simps) simp
  qed
qed

lemma hex_of_nat_inject [simp]: "hex_of_nat m = hex_of_nat n \<longleftrightarrow> m = n"
proof (induction m arbitrary: n rule: hex_of_nat.induct)
  case (1 m)
  show ?case
  proof (cases "m < 16 \<or> n < 16")
    case True
    then show ?thesis
      by (subst (1 2) hex_of_nat.simps) (auto simp: hex_char_inject)
  next
    case False
    then have "hex_of_nat m = hex_of_nat n \<longleftrightarrow> m div 16 = n div 16 \<and> m mod 16 = n mod 16"
      using 1 [of "n div 16"] by (subst (1 2) hex_of_nat.simps) (simp add: hex_char_inject)
    also have "\<dots> \<longleftrightarrow> m = n" by (metis div_mult_mod_eq)
    finally show ?thesis .
  qed
qed

lemma length_hex_of_nat: "16 ^ k \<le> n \<Longrightarrow> n < 16 ^ Suc k \<Longrightarrow> length (hex_of_nat n) = Suc k"
proof (induction k arbitrary: n)
  case 0
  then show ?case by (subst hex_of_nat.simps) simp
next
  case (Suc k)
  moreover have "1 \<le> (16 :: nat) ^ k" by simp
  then have "16 * 1 \<le> (16 :: nat) ^ Suc k" unfolding power_Suc by (rule mult_le_mono2)
  with Suc.prems(1) have "\<not> n < 16" by linarith
  ultimately have "16 ^ k \<le> n div 16" "n div 16 < 16 ^ Suc k" "\<not> n < 16"
    by (auto simp: less_eq_div_iff_mult_less_eq div_less_iff_less_mult mult.commute)
  then show ?case using Suc.IH [of "n div 16"] by (subst hex_of_nat.simps) simp
qed

lemma length_hex_of_nat_le: "n < 16 ^ Suc k \<Longrightarrow> length (hex_of_nat n) \<le> Suc k"
proof (induction k arbitrary: n)
  case 0
  then show ?case by (subst hex_of_nat.simps) simp
next
  case (Suc k)
  then have "n div 16 < 16 ^ Suc k" by (simp add: div_less_iff_less_mult mult.commute)
  then show ?case using Suc.IH [of "n div 16"] by (subst hex_of_nat.simps) simp
qed

lemma id_of_draws_plain: "CHR 0x00 \<notin> set (id_str (id_of_draws a b))"
  using hex_of_nat_set [of "unat a"] hex_of_nat_set [of "unat b"] by (auto simp: id_of_draws_def)

lemma length_id_of_draws: "2 \<le> length (id_str (id_of_draws a b)) \<and> length (id_str (id_of_draws a b)) \<le> 32"
proof -
  have u: "unat (x :: u64) < 16 ^ Suc 15" for x using unat_u64 [of x] by simp
  have "1 \<le> length (hex_of_nat n)" for n by (cases "hex_of_nat n") simp_all
  from this [of "unat a"] this [of "unat b"] show ?thesis
    using length_hex_of_nat_le [OF u [of a]] length_hex_of_nat_le [OF u [of b]]
    by (simp add: id_of_draws_def)
qed

lemma length_hex_u64: "2 ^ 60 \<le> unat (x :: u64) \<Longrightarrow> length (hex_of_nat (unat x)) = 16"
  using length_hex_of_nat [of 15 "unat x"] unat_u64 [of x] by simp

lemma id_of_draws_inject:
  assumes "2 ^ 60 \<le> unat a \<and> 2 ^ 60 \<le> unat a' \<or> 2 ^ 60 \<le> unat b \<and> 2 ^ 60 \<le> unat b'"
  shows "id_of_draws a b = id_of_draws a' b' \<longleftrightarrow> a = a' \<and> b = b'"
proof -
  have "length (hex_of_nat (unat a)) = length (hex_of_nat (unat a')) \<or>
      length (hex_of_nat (unat b)) = length (hex_of_nat (unat b'))"
    using assms length_hex_u64 by metis
  then show ?thesis
    by (auto simp: id_of_draws_def append_eq_append_conv word_unat_eq_iff)
qed

lemma hex_char_0: "hex_char 0 = CHR ''0''"
  by code_simp

lemma hex_byte_eq: "hex_byte b = [hex_char (unat b div 16), hex_char (unat b mod 16)]"
proof -
  define n where "n = unat b"
  have n: "n < 256" using unat_u8 [of b] by (simp add: n_def)
  have "hex_byte b = (let s = hex_of_nat n in replicate (2 - length s) (CHR ''0'') @ s)"
    by (simp add: hex_byte_def n_def)
  also have "\<dots> = [hex_char (n div 16), hex_char (n mod 16)]"
  proof (cases "n < 16")
    case True
    then show ?thesis by (subst (1) hex_of_nat.simps) (simp add: hex_char_0)
  next
    case False
    moreover have "n div 16 < 16" using n by simp
    ultimately show ?thesis by (simp add: hex_of_nat.simps [of n] hex_of_nat.simps [of "n div 16"])
  qed
  finally show ?thesis by (simp add: n_def)
qed

lemma hex_byte_inject: "hex_byte a = hex_byte b \<longleftrightarrow> a = b"
proof -
  have "unat x div 16 < 16" for x :: u8 using unat_u8 [of x] by simp
  then have "hex_byte a = hex_byte b \<longleftrightarrow>
      unat a div 16 = unat b div 16 \<and> unat a mod 16 = unat b mod 16"
    by (simp add: hex_byte_eq hex_char_inject)
  also have "\<dots> \<longleftrightarrow> unat a = unat b" by (metis div_mult_mod_eq)
  finally show ?thesis by (simp add: word_unat_eq_iff)
qed

lemma concat_hex_bytes: "concat (map hex_byte xs) = concat (map hex_byte ys) \<longleftrightarrow> xs = ys"
proof (induction xs arbitrary: ys)
  case Nil
  then show ?case by (cases ys) (simp_all add: hex_byte_eq)
next
  case (Cons x xs)
  have "hex_byte x @ u = hex_byte y @ v \<longleftrightarrow> x = y \<and> u = v" for y u v
    using hex_byte_inject [of x y] by (auto simp: hex_byte_eq)
  then show ?case using Cons.IH
    by (cases ys) (simp_all, simp add: hex_byte_eq)
qed

end
