(* ===== verification/Terminal_Properties.thy ===== *)
theory Terminal_Properties
  imports Commands_Page Terminal_Cwd Identifiers Base64 Iso8601
begin

text \<open>
  Properties of the terminal side: shell history files, the pane's history tracker, the commands
  page, working directories; and of the encodings: base64, time stamps, identifiers.
\<close>

section \<open>History\<close>

text \<open>A time-stamped history file, with commands of one or more lines none of which looks like a time stamp, is
  parsed into exactly its commands, in order, with their times in microseconds; a time stamp beyond 64 bits makes the
  parse throw.\<close>

theorem history_parse_render:
  "(\<forall>(t, ls) \<in> set rs. t < 2 ^ 63 \<and> command_lines_ok ls) \<Longrightarrow>
   parse_history_buffer (render_history rs) = Some (map record_of rs)"
  by (rule parse_render_history)

lemma history_parse_render_witness:
  "parse_history_buffer (render_history [(5, [''ls -l'']), (7, [''echo a'', ''b''])]) =
     Some (map record_of [(5, [''ls -l'']), (7, [''echo a'', ''b''])])"
proof (rule history_parse_render)
  have "command_lines_ok [''ls -l'']" "command_lines_ok [''echo a'', ''b'']" by code_simp+
  then show "\<forall>(t, ls) \<in> set [(5 :: nat, [''ls -l'']), (7, [''echo a'', ''b''])]. t < 2 ^ 63 \<and> command_lines_ok ls"
    by simp
qed

text \<open>C21: When the history file has grown since the tracker last looked, \<^verbatim>\<open>sync\<close> appends the records of the new
  part, unpinned, dropping those that repeat the command before them, keeps everything it had, and takes over the
  file's size and time.\<close>

theorem sync_appends_new:
  assumes "initial_load_done tr" "\<not> mutex_held tr" "last_known_size tr = of_nat (length old)"
    and "fv_content fv = old @ new" "fv_size fv = of_nat (length (old @ new))" "new \<noteq> ''''"
    and "length (old @ new) < 2 ^ 64" "parse_history_buffer new = Some recs"
  shows "\<exists>tr'. sync fv tr = Returned (length (cache tr') \<noteq> length (cache tr), tr') \<and>
    cache tr' = cache tr @ map unpinned (dedupe_adjacent
      (if cache tr = [] then None else Some (cr_command (ce_record (last (cache tr))))) recs) \<and>
    last_known_size tr' = fv_size fv \<and> last_known_mtime tr' = fv_mtime fv \<and> \<not> mutex_held tr'"
proof -
  have "\<forall>r \<in> set recs. \<not> cr_pinned r" using make_record_unpinned [OF assms(8)] by blast
  with sync_growth [OF assms] show ?thesis by (auto simp: merge_dedupe)
qed

lemma sync_appends_new_witness:
  "\<exists>tr'. sync \<lparr>fv_content = ''ls'' @ newline # ''pwd'' @ [newline], fv_size = 7, fv_mtime = 9\<rparr>
      (new_tracker\<lparr>last_known_size := 3, initial_load_done := True,
         cache := [unpinned (make_record ''ls'' 0)]\<rparr>) = Returned (True, tr') \<and>
    map (cr_command \<circ> ce_record) (cache tr') = [''ls'', ''pwd'']"
proof -
  have p: "parse_history_buffer (''pwd'' @ [newline]) = Some [make_record ''pwd'' 0]" by code_simp
  let ?tr = "new_tracker\<lparr>last_known_size := 3, initial_load_done := True, cache := [unpinned (make_record ''ls'' 0)]\<rparr>"
  have "\<exists>tr'. sync \<lparr>fv_content = ''ls'' @ newline # ''pwd'' @ [newline], fv_size = 7, fv_mtime = 9\<rparr> ?tr =
      Returned (length (cache tr') \<noteq> length (cache ?tr), tr') \<and>
    cache tr' = cache ?tr @ map unpinned (dedupe_adjacent
      (if cache ?tr = [] then None else Some (cr_command (ce_record (last (cache ?tr))))) [make_record ''pwd'' 0]) \<and>
    last_known_size tr' = 7 \<and> last_known_mtime tr' = 9 \<and> \<not> mutex_held tr'"
    using sync_appends_new [where tr = ?tr and old = "''ls'' @ [newline]" and new = "''pwd'' @ [newline]" and
        fv = "\<lparr>fv_content = ''ls'' @ newline # ''pwd'' @ [newline], fv_size = 7, fv_mtime = 9\<rparr>", OF _ _ _ _ _ _ _ p]
    by (simp add: new_tracker_def)
  then show ?thesis by (auto simp: make_record_def unpinned_def)
qed

text \<open>A tracker that has not loaded its file yet blocks in \<^verbatim>\<open>sync\<close>: \<^verbatim>\<open>initial_load\<close> locks the mutex that
  \<^verbatim>\<open>sync\<close> already holds.\<close>

theorem sync_before_load_blocks:
  assumes "\<not> initial_load_done tr"
  shows "sync fv tr = Blocked"
  using assms by (rule sync_unloaded_blocks)

lemma sync_before_load_blocks_witness: "sync \<lparr>fv_content = ''ls'', fv_size = 2, fv_mtime = 1\<rparr> new_tracker = Blocked"
  by (rule sync_before_load_blocks) (simp add: new_tracker_def)

text \<open>The commands page shows the pinned commands that match the search, then the others that match, each newest
  first, and every label keeps to 80 characters.\<close>

theorem page_shows_rows:
  "fst (rebuild_list (refresh (Some tr) pg)) = map (row_of pg)
     (filter (\<lambda>r. row_matches (page_search pg) (row_of pg r)) (filter cr_pinned (commands_desc tr)) @
      filter (\<lambda>r. row_matches (page_search pg) (row_of pg r)) (filter (\<lambda>r. \<not> cr_pinned r) (commands_desc tr))) \<and>
   (\<forall>r \<in> set (fst (rebuild_list (refresh (Some tr) pg))). length (row_display r) \<le> 80)"
proof -
  have e: "fst (rebuild_list (refresh (Some tr) pg)) = map (row_of pg)
     (filter (\<lambda>r. row_matches (page_search pg) (row_of pg r)) (filter cr_pinned (commands_desc tr)) @
      filter (\<lambda>r. row_matches (page_search pg) (row_of pg r)) (filter (\<lambda>r. \<not> cr_pinned r) (commands_desc tr)))"
  proof -
    have p: "row_pinned (row_of pg r) = cr_pinned r" for r by (simp add: row_of_def)
    show ?thesis
      unfolding visible_rows by (simp add: refresh_def schedule_rebuild_def filter_map comp_def p)
  qed
  have "length (row_display (row_of pg r)) \<le> 80" for r
    using truncate_length [of 80 "cr_command r"] by (simp add: row_of_def)
  then show ?thesis unfolding e by auto
qed

lemma page_shows_rows_witness:
  "map row_command (fst (rebuild_list (refresh (Some (new_tracker\<lparr>cache :=
      [\<lparr>ce_record = make_record ''ls'' 0, ce_pinned = True\<rparr>, unpinned (make_record ''pwd'' 0)]\<rparr>))
     \<lparr>page_pane_id = '''', page_window_id = '''', page_search = '''', page_rows = [], rebuild_scheduled = False\<rparr>))) =
   [''ls'', ''pwd'']"
  unfolding page_shows_rows [THEN conjunct1]
  by (simp add: commands_desc_def returned_record_def unpinned_def make_record_def row_matches_def row_of_def)

section \<open>Working directories\<close>

text \<open>The path a shell reports with OSC 7, percent-encoded by any encoder that keeps slashes and escapes percent
  signs, is decoded to itself when the URI is local, and to nothing when it names a host.\<close>

theorem osc7_roundtrip:
  assumes "\<not> keep CHR ''%''" "keep CHR ''/''" "CHR ''/'' \<notin> set host" "host \<noteq> ''''"
  shows "osc7_file_uri_to_path (kPrefix @ percent_encode keep (CHR ''/'' # p)) = CHR ''/'' # p \<and>
    osc7_file_uri_to_path (kPrefix @ host @ percent_encode keep (CHR ''/'' # p)) = ''''"
proof -
  have "percent_encode keep (CHR ''/'' # p) = CHR ''/'' # percent_encode keep p"
    using assms(2) by (simp add: percent_encode_def encode_char_def)
  then show ?thesis using osc7_local [OF assms(1,2)] osc7_remote [OF assms(3,4)] by metis
qed

lemma osc7_roundtrip_witness:
  "osc7_file_uri_to_path (kPrefix @ percent_encode (\<lambda>c. c = CHR ''/'') (CHR ''/'' # ''a b%'')) = CHR ''/'' # ''a b%''"
  using osc7_roundtrip [of "\<lambda>c. c = CHR ''/''" "''h''" "''a b%''"] by simp

section \<open>Encodings\<close>

text \<open>Any bytes encoded in base64 decode to themselves, and the text has four characters for each three bytes,
  rounded up.\<close>

theorem base64_roundtrip:
  "base64_decode (base64_encode d) = d \<and> length (base64_encode d) = (length d + 2) div 3 * 4"
  by (simp add: base64_decode_encode length_base64_encode)

text \<open>A time not before 1970 is read back from its ISO-8601 text to the millisecond.\<close>

theorem iso8601_roundtrip:
  assumes "0 \<le> sint tp"
  shows "from_iso8601 (to_iso8601 tp) = millis_of tp"
  using assms by (rule from_to_iso8601)

lemma iso8601_roundtrip_witness: "from_iso8601 (to_iso8601 1500000000123456789) = millis_of 1500000000123456789"
  by (rule iso8601_roundtrip) (simp add: sint_sbintrunc')

text \<open>A generated identifier is between 2 and 32 hexadecimal digits; since its two halves are not padded, it tells
  its draws apart only given a full-length half: identifiers of different draws can be equal.\<close>

theorem id_generate_form:
  "2 \<le> length (id_str (id_generate seed)) \<and> length (id_str (id_generate seed)) \<le> 32 \<and>
   set (id_str (id_generate seed)) \<subseteq> set ''0123456789abcdef'' \<and>
   (\<exists>a b a' b'. (a, b) \<noteq> (a', b') \<and> id_of_draws a b = (id_of_draws a' b' :: pane_id))"
proof -
  have "id_of_draws 1 16 = (id_of_draws 17 0 :: pane_id)" by code_simp
  moreover have "((1, 16) :: u64 \<times> u64) \<noteq> (17, 0)" by simp
  ultimately have "\<exists>a b a' b'. (a, b) \<noteq> (a', b') \<and> id_of_draws a b = (id_of_draws a' b' :: pane_id)" by blast
  then show ?thesis
    using length_id_of_draws [of "mt_draw seed 0" "mt_draw seed 1"]
      hex_of_nat_set [of "unat (mt_draw seed 0)"] hex_of_nat_set [of "unat (mt_draw seed 1)"]
    by (simp add: id_generate_def) (auto simp: id_of_draws_def)
qed

end
