(* ===== verification/Markdown_Ast.thy ===== *)
theory Markdown_Ast
  imports Identifiers
begin

text \<open>
  \<^verbatim>\<open>gui/markdown/markdown_ast.hpp\<close> and \<^verbatim>\<open>.cpp\<close>: from the callbacks of the CommonMark parser md4c
  to the node tree, entities, headings and their anchors.  The parser is a library outside the
  repository; its callbacks are the argument of \<open>parse_events\<close>, a list of events.
\<close>

section \<open>Nodes\<close>

datatype node_type = NRoot | NHeading | NParagraph | NBlockQuote | NCodeBlock | NHtmlBlock
  | NThematicBreak | NList | NListItem | NTable | NTableRow | NTableCell | NLink | NImage
  | NEmphasis | NStrong | NDel | NCodeSpan | NText | NSoftBreak | NHardBreak | NHtmlSpan | NToc

datatype cell_align = AlignNone | AlignLeft | AlignCenter | AlignRight

record node_data =
  n_type :: node_type
  n_level :: int
  n_text :: string
  n_info :: string
  n_title :: string
  n_ordered :: bool
  n_start :: i32
  n_tight :: bool
  n_task :: bool
  n_checked :: bool
  n_header :: bool
  n_align :: cell_align
  n_aligns :: "cell_align list"

definition node_default :: node_data where
  "node_default = \<lparr>n_type = NText, n_level = 0, n_text = '''', n_info = '''', n_title = '''',
     n_ordered = False, n_start = 1, n_tight = True, n_task = False, n_checked = False,
     n_header = False, n_align = AlignNone, n_aligns = []\<rparr>"

datatype node = Node (nd: node_data) (kids: "node list")

section \<open>Entities\<close>

fun hex_val :: "char \<Rightarrow> nat option" where
  "hex_val c =
     (if is_digit c then Some (digit_val c)
      else if CHR ''a'' \<le> c \<and> c \<le> CHR ''f'' then Some (of_char c - 87)
      else if CHR ''A'' \<le> c \<and> c \<le> CHR ''F'' then Some (of_char c - 55)
      else None)"

definition digit_of_base :: "bool \<Rightarrow> char \<Rightarrow> nat option" where
  "digit_of_base hex c = (if hex then hex_val c else if is_digit c then Some (digit_val c) else None)"

fun digits_value :: "bool \<Rightarrow> nat \<Rightarrow> string \<Rightarrow> nat" where
  "digits_value hex acc [] = acc"
| "digits_value hex acc (c # cs) =
     (case digit_of_base hex c of
        Some d \<Rightarrow> digits_value hex ((if hex then 16 else 10) * acc + d) cs
      | None \<Rightarrow> acc)"

text \<open>
  \<^verbatim>\<open>std::stoul(s, nullptr, 16 or 10)\<close>: white space, a sign, in base 16 an optional \<^verbatim>\<open>0x\<close>
  before a digit, then the digits; a minus negates the unsigned value.
\<close>

definition stoul :: "bool \<Rightarrow> string \<Rightarrow> u64 option" where
  "stoul hex s =
     (let s = dropWhile is_space s;
          (neg, s) = (case s of c # r \<Rightarrow> if c = CHR ''-'' then (True, r)
                                         else if c = CHR ''+'' then (False, r) else (False, s)
                              | [] \<Rightarrow> (False, s));
          s = (case s of a # x # d # r \<Rightarrow>
                 if hex \<and> a = CHR ''0'' \<and> x \<in> {CHR ''x'', CHR ''X''} \<and> hex_val d \<noteq> None
                 then d # r else s
               | _ \<Rightarrow> s)
      in if s = [] \<or> digit_of_base hex (hd s) = None \<or> digits_value hex 0 s \<ge> 2 ^ 64 then None
         else Some (if neg then - of_nat (digits_value hex 0 s) else of_nat (digits_value hex 0 s)))"

text \<open>The UTF-8 bytes of a code point, or none; surrogates are encoded like the others.\<close>

definition utf8_encode :: "u64 \<Rightarrow> bytes" where
  "utf8_encode code =
     (if code \<le> 0x7F then [ucast code]
      else if code \<le> 0x7FF then [0xC0 OR ucast (drop_bit 6 code), 0x80 OR (ucast code AND 0x3F)]
      else if code \<le> 0xFFFF then
        [0xE0 OR ucast (drop_bit 12 code), 0x80 OR (ucast (drop_bit 6 code) AND 0x3F),
         0x80 OR (ucast code AND 0x3F)]
      else
        [0xF0 OR ucast (drop_bit 18 code), 0x80 OR (ucast (drop_bit 12 code) AND 0x3F),
         0x80 OR (ucast (drop_bit 6 code) AND 0x3F), 0x80 OR (ucast code AND 0x3F)])"

definition string_of_bytes :: "bytes \<Rightarrow> string" where
  "string_of_bytes bs = map (\<lambda>b. char_of (unat b)) bs"

definition decode_numeric_entity :: "string \<Rightarrow> bool \<Rightarrow> string" where
  "decode_numeric_entity digits hex =
     (case stoul hex digits of
        None \<Rightarrow> ''''
      | Some code \<Rightarrow> if code = 0 \<or> code > 0x10FFFF then '''' else string_of_bytes (utf8_encode code))"

definition kNamed :: "(string \<times> bytes) list" where
  "kNamed = [(''amp'', [38]), (''lt'', [60]), (''gt'', [62]), (''quot'', [34]), (''apos'', [39]),
     (''nbsp'', [0xC2, 0xA0]), (''copy'', [0xC2, 0xA9]), (''reg'', [0xC2, 0xAE]),
     (''hellip'', [0xE2, 0x80, 0xA6]), (''mdash'', [0xE2, 0x80, 0x94]), (''ndash'', [0xE2, 0x80, 0x93]),
     (''lsquo'', [0xE2, 0x80, 0x98]), (''rsquo'', [0xE2, 0x80, 0x99]), (''ldquo'', [0xE2, 0x80, 0x9C]),
     (''rdquo'', [0xE2, 0x80, 0x9D]), (''times'', [0xC3, 0x97]), (''divide'', [0xC3, 0xB7]),
     (''plusmn'', [0xC2, 0xB1]), (''middot'', [0xC2, 0xB7])]"

definition decode_entity :: "string \<Rightarrow> string" where
  "decode_entity raw =
     (if length raw < 3 \<or> hd raw \<noteq> CHR ''&'' \<or> last raw \<noteq> CHR '';'' then raw
      else
        let body = butlast (tl raw)
        in if hd body = CHR ''#'' then
             let hex = (1 < length body \<and> body ! 1 \<in> {CHR ''x'', CHR ''X''});
                 decoded = decode_numeric_entity (if hex then drop 2 body else drop 1 body) hex
             in if decoded = '''' then raw else decoded
           else case map_of kNamed body of
                  Some bs \<Rightarrow> string_of_bytes bs
                | None \<Rightarrow> raw)"

section \<open>Anchors\<close>

text \<open>One step of the loop; \<open>slug\<close> is the text so far.\<close>

definition slug_step :: "char \<Rightarrow> string \<Rightarrow> string" where
  "slug_step c slug =
     (if is_alnum c \<or> c \<in> {CHR ''-'', CHR ''_'', CHR ''.'', CHR ''~''} then slug @ [to_lower c]
      else if slug \<noteq> [] \<and> last slug \<noteq> CHR ''-'' \<and> c \<in> {CHR '' '', CHR 0x09, CHR ''/''}
      then slug @ [CHR ''-''] else slug)"

definition strip_dashes :: "string \<Rightarrow> string" where
  "strip_dashes s = rev (dropWhile (\<lambda>c. c = CHR ''-'') (rev s))"

definition slugify_heading :: "string \<Rightarrow> string" where
  "slugify_heading s =
     (let slug = strip_dashes (fold slug_step s '''')
      in if slug = '''' then ''section'' else slug)"

section \<open>The builder\<close>

text \<open>
  The arena: nodes are numbered in the order of \<^verbatim>\<open>pool\<close>, and a pointer is a number.  The top of
  the stack is the head of the list.
\<close>

record arena_node =
  an_data :: node_data
  an_children :: "nat list"

record builder =
  b_pool :: "arena_node list"
  b_stack :: "nat list"
  b_root :: "nat option"

definition empty_builder :: builder where
  "empty_builder = \<lparr>b_pool = [], b_stack = [], b_root = None\<rparr>"

definition b_top :: "builder \<Rightarrow> nat option" where
  "b_top b = (case b_stack b of [] \<Rightarrow> None | n # _ \<Rightarrow> Some n)"

definition b_parent :: "builder \<Rightarrow> nat option" where
  "b_parent b = (case b_stack b of [] \<Rightarrow> b_root b | n # _ \<Rightarrow> Some n)"

definition b_add :: "node_data \<Rightarrow> nat option \<Rightarrow> builder \<Rightarrow> builder" where
  "b_add d parent b =
     (let n = length (b_pool b); pool = b_pool b @ [\<lparr>an_data = d, an_children = []\<rparr>]
      in b\<lparr>b_pool := (case parent of
             None \<Rightarrow> pool
           | Some p \<Rightarrow> pool[p := (pool ! p)\<lparr>an_children := an_children (pool ! p) @ [n]\<rparr>])\<rparr>)"

definition b_leaf :: "node_data \<Rightarrow> builder \<Rightarrow> builder" where
  "b_leaf d b = b_add d (b_parent b) b"

definition b_open :: "node_data \<Rightarrow> builder \<Rightarrow> builder" where
  "b_open d b = (let n = length (b_pool b); b = b_leaf d b in b\<lparr>b_stack := n # b_stack b\<rparr>)"

definition b_close :: "builder \<Rightarrow> builder" where
  "b_close b = b\<lparr>b_stack := tl (b_stack b)\<rparr>"

definition verbatim_type :: "node_type \<Rightarrow> bool" where
  "verbatim_type t \<longleftrightarrow> t = NCodeBlock \<or> t = NCodeSpan \<or> t = NHtmlBlock"

definition b_verbatim :: "builder \<Rightarrow> bool" where
  "b_verbatim b = (case b_top b of None \<Rightarrow> False | Some n \<Rightarrow> verbatim_type (n_type (an_data (b_pool b ! n))))"

definition upd_data :: "nat \<Rightarrow> (node_data \<Rightarrow> node_data) \<Rightarrow> builder \<Rightarrow> builder" where
  "upd_data n f b = b\<lparr>b_pool := (b_pool b)[n := (b_pool b ! n)\<lparr>an_data := f (an_data (b_pool b ! n))\<rparr>]\<rparr>"

definition append_text :: "string \<Rightarrow> builder \<Rightarrow> builder" where
  "append_text s b =
     (case b_top b of None \<Rightarrow> b | Some n \<Rightarrow> upd_data n (\<lambda>d. d\<lparr>n_text := n_text d @ s\<rparr>) b)"

section \<open>Callbacks\<close>

text \<open>
  The block, span and text types of md4c with the fields of their details the code reads; an
  option is a detail the code tests for null.
\<close>

datatype md_align = MD_ALIGN_DEFAULT | MD_ALIGN_LEFT | MD_ALIGN_CENTER | MD_ALIGN_RIGHT

datatype md_block = MD_DOC | MD_QUOTE | MD_UL | MD_OL "(u32 \<times> bool) option"
  | MD_LI "(bool \<times> char) option" | MD_HR | MD_H u32 | MD_CODE "string option" | MD_HTML | MD_P
  | MD_TABLE | MD_THEAD | MD_TBODY | MD_TR | MD_TH "md_align option" | MD_TD "md_align option"

datatype md_span = MD_EM | MD_STRONG | MD_A "(string \<times> string) option"
  | MD_IMG "(string \<times> string) option" | MD_SPAN_CODE | MD_DEL | MD_OTHER_SPAN

datatype md_text = MD_NORMAL | MD_NULLCHAR | MD_BR | MD_SOFTBR | MD_ENTITY | MD_TEXT_CODE | MD_TEXT_HTML
  | MD_LATEXMATH

definition to_cell_align :: "md_align \<Rightarrow> cell_align" where
  "to_cell_align a = (case a of MD_ALIGN_LEFT \<Rightarrow> AlignLeft | MD_ALIGN_CENTER \<Rightarrow> AlignCenter
     | MD_ALIGN_RIGHT \<Rightarrow> AlignRight | MD_ALIGN_DEFAULT \<Rightarrow> AlignNone)"

text \<open>The node a block opens; \<^verbatim>\<open>MD_BLOCK_HR\<close> adds a leaf, the rest open nothing.\<close>

definition block_data :: "md_block \<Rightarrow> node_data option" where
  "block_data t =
     (case t of
        MD_H level \<Rightarrow> Some (node_default\<lparr>n_type := NHeading, n_level := sint level\<rparr>)
      | MD_P \<Rightarrow> Some (node_default\<lparr>n_type := NParagraph\<rparr>)
      | MD_QUOTE \<Rightarrow> Some (node_default\<lparr>n_type := NBlockQuote\<rparr>)
      | MD_UL \<Rightarrow> Some (node_default\<lparr>n_type := NList\<rparr>)
      | MD_OL ol \<Rightarrow> Some (node_default\<lparr>n_type := NList, n_ordered := True,
          n_start := (case ol of Some (start, _) \<Rightarrow> if start > 0 then start else 1 | None \<Rightarrow> 1),
          n_tight := (case ol of Some (_, tight) \<Rightarrow> tight | None \<Rightarrow> False)\<rparr>)
      | MD_LI li \<Rightarrow> Some (case li of
            None \<Rightarrow> node_default\<lparr>n_type := NListItem\<rparr>
          | Some (task, mark) \<Rightarrow> node_default\<lparr>n_type := NListItem, n_task := task,
              n_checked := mark \<in> {CHR ''x'', CHR ''X''}\<rparr>)
      | MD_CODE lang \<Rightarrow> Some (node_default\<lparr>n_type := NCodeBlock,
          n_info := (case lang of Some l \<Rightarrow> l | None \<Rightarrow> '''')\<rparr>)
      | MD_HTML \<Rightarrow> Some (node_default\<lparr>n_type := NHtmlBlock\<rparr>)
      | MD_TABLE \<Rightarrow> Some (node_default\<lparr>n_type := NTable\<rparr>)
      | MD_TR \<Rightarrow> Some (node_default\<lparr>n_type := NTableRow\<rparr>)
      | MD_TH a \<Rightarrow> Some (node_default\<lparr>n_type := NTableCell, n_header := True,
          n_align := (case a of Some a \<Rightarrow> to_cell_align a | None \<Rightarrow> AlignNone)\<rparr>)
      | MD_TD a \<Rightarrow> Some (node_default\<lparr>n_type := NTableCell,
          n_align := (case a of Some a \<Rightarrow> to_cell_align a | None \<Rightarrow> AlignNone)\<rparr>)
      | MD_HR \<Rightarrow> None | MD_THEAD \<Rightarrow> None | MD_TBODY \<Rightarrow> None | MD_DOC \<Rightarrow> None)"

definition on_enter_block :: "md_block \<Rightarrow> builder \<Rightarrow> builder" where
  "on_enter_block t b =
     (case t of
        MD_DOC \<Rightarrow>
          (case b_root b of
             Some _ \<Rightarrow> b
           | None \<Rightarrow> let n = length (b_pool b)
                     in b\<lparr>b_pool := b_pool b @ [\<lparr>an_data = node_default\<lparr>n_type := NRoot\<rparr>, an_children = []\<rparr>],
                          b_root := Some n, b_stack := [n]\<rparr>)
      | MD_HR \<Rightarrow> b_leaf (node_default\<lparr>n_type := NThematicBreak\<rparr>) b
      | _ \<Rightarrow> (case block_data t of Some d \<Rightarrow> b_open d b | None \<Rightarrow> b))"

text \<open>The alignment of a column is the first of its cells' that is not none.\<close>

definition table_aligns :: "cell_align list list \<Rightarrow> cell_align list" where
  "table_aligns rows =
     (let ncols = foldl max 0 (map length rows)
      in map (\<lambda>c. case find (\<lambda>row. c < length row \<and> row ! c \<noteq> AlignNone) rows of
                    Some row \<Rightarrow> row ! c | None \<Rightarrow> AlignNone) [0..<ncols])"

text \<open>\<^const>\<open>None\<close>: a table left with no open node, whose null pointer the code follows.\<close>

definition on_leave_block :: "md_block \<Rightarrow> builder \<Rightarrow> builder option" where
  "on_leave_block t b =
     (case t of
        MD_THEAD \<Rightarrow> Some b
      | MD_TBODY \<Rightarrow> Some b
      | MD_TABLE \<Rightarrow>
          (case b_top b of
             None \<Rightarrow> None
           | Some n \<Rightarrow>
               let pool = b_pool b;
                   rows = map (\<lambda>r. map (\<lambda>c. n_align (an_data (pool ! c))) (an_children (pool ! r)))
                            (an_children (pool ! n))
               in Some (b_close (upd_data n (\<lambda>d. d\<lparr>n_aligns := table_aligns rows\<rparr>) b)))
      | _ \<Rightarrow> Some (b_close b))"

definition span_data :: "md_span \<Rightarrow> node_data option" where
  "span_data t =
     (case t of
        MD_EM \<Rightarrow> Some (node_default\<lparr>n_type := NEmphasis\<rparr>)
      | MD_STRONG \<Rightarrow> Some (node_default\<lparr>n_type := NStrong\<rparr>)
      | MD_DEL \<Rightarrow> Some (node_default\<lparr>n_type := NDel\<rparr>)
      | MD_SPAN_CODE \<Rightarrow> Some (node_default\<lparr>n_type := NCodeSpan\<rparr>)
      | MD_A a \<Rightarrow> Some (case a of
            None \<Rightarrow> node_default\<lparr>n_type := NLink\<rparr>
          | Some (href, title) \<Rightarrow> node_default\<lparr>n_type := NLink, n_text := href, n_title := title\<rparr>)
      | MD_IMG a \<Rightarrow> Some (case a of
            None \<Rightarrow> node_default\<lparr>n_type := NImage\<rparr>
          | Some (src, title) \<Rightarrow> node_default\<lparr>n_type := NImage, n_text := src, n_title := title\<rparr>)
      | MD_OTHER_SPAN \<Rightarrow> None)"

definition on_enter_span :: "md_span \<Rightarrow> builder \<Rightarrow> builder" where
  "on_enter_span t b = (case span_data t of Some d \<Rightarrow> b_open d b | None \<Rightarrow> b)"

definition on_leave_span :: "builder \<Rightarrow> builder" where
  "on_leave_span b = b_close b"

definition text_leaf :: "node_type \<Rightarrow> string \<Rightarrow> node_data" where
  "text_leaf t s = node_default\<lparr>n_type := t, n_text := s\<rparr>"

definition replacement_char :: string where
  "replacement_char = string_of_bytes [0xEF, 0xBF, 0xBD]"

definition on_text :: "md_text \<Rightarrow> string \<Rightarrow> builder \<Rightarrow> builder" where
  "on_text t chunk b =
     (case t of
        MD_NORMAL \<Rightarrow> if b_verbatim b then append_text chunk b else b_leaf (text_leaf NText chunk) b
      | MD_ENTITY \<Rightarrow>
          if b_verbatim b then append_text (decode_entity chunk) b
          else b_leaf (text_leaf NText (decode_entity chunk)) b
      | MD_BR \<Rightarrow> b_leaf (node_default\<lparr>n_type := NHardBreak\<rparr>) b
      | MD_SOFTBR \<Rightarrow> b_leaf (node_default\<lparr>n_type := NSoftBreak\<rparr>) b
      | MD_TEXT_HTML \<Rightarrow> if b_verbatim b then append_text chunk b else b_leaf (text_leaf NHtmlSpan chunk) b
      | _ \<Rightarrow>
          if \<not> b_verbatim b
          then b_leaf (text_leaf NText (if chunk = '''' then replacement_char else chunk)) b
          else append_text chunk b)"

datatype md_event = EnterBlock md_block | LeaveBlock md_block | EnterSpan md_span | LeaveSpan md_span
  | TextEvent md_text string

definition on_event :: "md_event \<Rightarrow> builder \<Rightarrow> builder option" where
  "on_event e b =
     (case e of
        EnterBlock t \<Rightarrow> Some (on_enter_block t b)
      | LeaveBlock t \<Rightarrow> on_leave_block t b
      | EnterSpan t \<Rightarrow> Some (on_enter_span t b)
      | LeaveSpan t \<Rightarrow> Some (on_leave_span b)
      | TextEvent t chunk \<Rightarrow> Some (on_text t chunk b))"

fun run_events :: "md_event list \<Rightarrow> builder \<Rightarrow> builder option" where
  "run_events [] b = Some b"
| "run_events (e # es) b = (case on_event e b of Some b \<Rightarrow> run_events es b | None \<Rightarrow> None)"

section \<open>Parsing\<close>

definition trim_blank :: "string \<Rightarrow> string" where
  "trim_blank s =
     (let blank = (\<lambda>c. c \<in> {CHR '' '', CHR 0x09, CHR 0x0A, CHR 0x0D})
      in rev (dropWhile blank (rev (dropWhile blank s))))"

definition is_toc_child :: "arena_node list \<Rightarrow> nat \<Rightarrow> bool" where
  "is_toc_child pool c \<longleftrightarrow>
     n_type (an_data (pool ! c)) = NParagraph \<and>
     (case an_children (pool ! c) of
        [only] \<Rightarrow> n_type (an_data (pool ! only)) = NText \<and>
                  trim_blank (n_text (an_data (pool ! only))) = ''[[TOC]]''
      | _ \<Rightarrow> False)"

definition mark_toc_nodes :: "builder \<Rightarrow> builder" where
  "mark_toc_nodes b =
     (case b_root b of
        None \<Rightarrow> b
      | Some r \<Rightarrow> b\<lparr>b_pool := foldl (\<lambda>pool c.
            if is_toc_child pool c
            then pool[c := \<lparr>an_data = node_default\<lparr>n_type := NToc\<rparr>, an_children = []\<rparr>] else pool)
          (b_pool b) (an_children (b_pool b ! r))\<rparr>)"

text \<open>\<^verbatim>\<open>to_value\<close> with fuel; the number of nodes of the arena is enough.\<close>

fun to_value :: "nat \<Rightarrow> arena_node list \<Rightarrow> nat \<Rightarrow> node option" where
  "to_value 0 pool a = None"
| "to_value (Suc fuel) pool a =
     map_option (Node (an_data (pool ! a))) (those (map (to_value fuel pool) (an_children (pool ! a))))"

definition parse_events :: "md_event list \<Rightarrow> node option" where
  "parse_events es =
     (case run_events es empty_builder of
        None \<Rightarrow> None
      | Some b \<Rightarrow>
          let b = mark_toc_nodes b
          in case b_root b of
               None \<Rightarrow> Some (Node (node_default\<lparr>n_type := NRoot\<rparr>) [])
             | Some r \<Rightarrow> to_value (length (b_pool b)) (b_pool b) r)"

section \<open>Headings\<close>

fun heading_plain :: "node \<Rightarrow> string" where
  "heading_plain (Node d cs) =
     (if n_type d = NText \<or> n_type d = NCodeSpan then n_text d
      else if n_type d = NSoftBreak \<or> n_type d = NHardBreak then '' ''
      else if n_type d = NImage then (if n_title d = '''' then n_text d else n_title d)
      else concat (map heading_plain cs))"

text \<open>The normalization loop, on \<open>clean\<close> and \<open>pending_space\<close>.\<close>

definition clean_step :: "char \<Rightarrow> string \<times> bool \<Rightarrow> string \<times> bool" where
  "clean_step ch = (\<lambda>(clean, pending).
     if ch \<in> {CHR '' '', CHR 0x09, CHR 0x0A} then (clean, clean \<noteq> [])
     else ((if pending then clean @ '' '' else clean) @ [ch], False))"

definition normalize_space :: "string \<Rightarrow> string" where
  "normalize_space s = fst (fold clean_step s ('''', False))"

record heading =
  h_level :: int
  h_text :: string
  h_anchor :: string

fun collect_headings :: "node \<Rightarrow> heading list" where
  "collect_headings (Node d cs) =
     (if n_type d = NHeading
      then [\<lparr>h_level = n_level d, h_text = normalize_space (concat (map heading_plain cs)), h_anchor = ''''\<rparr>]
      else concat (map collect_headings cs))"

text \<open>
  The anchor of a title: its slug, with the number of the occurrence from the second on.
  \<open>counts\<close> is the map of how often a slug was used.
\<close>

definition make_anchor :: "string \<Rightarrow> (string \<Rightarrow> nat) \<Rightarrow> string \<times> (string \<Rightarrow> nat)" where
  "make_anchor title counts =
     (let base = slugify_heading title; used = counts base
      in (if used > 0 then base @ ''-'' @ dec_of_nat (used + 1) else base, counts(base := used + 1)))"

fun assign_anchors :: "(string \<Rightarrow> nat) \<Rightarrow> heading list \<Rightarrow> heading list" where
  "assign_anchors counts [] = []"
| "assign_anchors counts (h # hs) =
     (let (a, counts) = make_anchor (h_text h) counts in h\<lparr>h_anchor := a\<rparr> # assign_anchors counts hs)"

definition headings :: "node \<Rightarrow> heading list" where
  "headings doc = assign_anchors (\<lambda>_. 0) (collect_headings doc)"

section \<open>Meaning of a well-nested document\<close>

text \<open>
  A document as md4c reports it: blocks and spans that contain others, and text.  \<open>events_of\<close> is
  the traversal, \<open>ast_of\<close> the nodes it stands for: thematic breaks and line breaks are leaves,
  table sections vanish, a verbatim block or span has the text of its chunks.
\<close>

datatype doc = DBlock md_block "doc list" | DSpan md_span "doc list" | DText md_text string

fun events_of :: "doc \<Rightarrow> md_event list" where
  "events_of (DBlock t ds) = EnterBlock t # concat (map events_of ds) @ [LeaveBlock t]"
| "events_of (DSpan t ds) = EnterSpan t # concat (map events_of ds) @ [LeaveSpan t]"
| "events_of (DText t s) = [TextEvent t s]"

definition text_chunk :: "md_text \<Rightarrow> string \<Rightarrow> string" where
  "text_chunk t s = (if t = MD_ENTITY then decode_entity s else s)"

definition text_node :: "md_text \<Rightarrow> string \<Rightarrow> node_data" where
  "text_node t s =
     (case t of
        MD_BR \<Rightarrow> node_default\<lparr>n_type := NHardBreak\<rparr>
      | MD_SOFTBR \<Rightarrow> node_default\<lparr>n_type := NSoftBreak\<rparr>
      | MD_TEXT_HTML \<Rightarrow> text_leaf NHtmlSpan s
      | MD_NORMAL \<Rightarrow> text_leaf NText s
      | MD_ENTITY \<Rightarrow> text_leaf NText (decode_entity s)
      | _ \<Rightarrow> text_leaf NText (if s = '''' then replacement_char else s))"

fun doc_text :: "doc list \<Rightarrow> string" where
  "doc_text [] = ''''"
| "doc_text (DText t s # ds) = text_chunk t s @ doc_text ds"
| "doc_text (_ # ds) = doc_text ds"

definition container :: "node_data option \<Rightarrow> doc list \<Rightarrow> node list \<Rightarrow> node list" where
  "container d ds ns =
     (case d of
        None \<Rightarrow> ns
      | Some d \<Rightarrow> if verbatim_type (n_type d) then [Node (d\<lparr>n_text := doc_text ds\<rparr>) []]
                  else if n_type d = NTable
                  then [Node (d\<lparr>n_aligns := table_aligns (map (\<lambda>r. map (n_align \<circ> nd) (kids r)) ns)\<rparr>) ns]
                  else [Node d ns])"

fun ast_of :: "doc \<Rightarrow> node list" where
  "ast_of (DBlock t ds) =
     (if t = MD_HR then [Node (node_default\<lparr>n_type := NThematicBreak\<rparr>) []]
      else container (block_data t) ds (concat (map ast_of ds)))"
| "ast_of (DSpan t ds) = container (span_data t) ds (concat (map ast_of ds))"
| "ast_of (DText t s) = [Node (text_node t s) []]"

definition chunk_only :: "doc \<Rightarrow> bool" where
  "chunk_only d \<longleftrightarrow> (\<exists>t s. d = DText t s \<and> t \<noteq> MD_BR \<and> t \<noteq> MD_SOFTBR)"

text \<open>No thematic break and no unknown span inside; verbatim content is text.\<close>

definition verbatim_data :: "node_data option \<Rightarrow> bool" where
  "verbatim_data d \<longleftrightarrow> (case d of None \<Rightarrow> False | Some d \<Rightarrow> verbatim_type (n_type d))"

fun nested_ok :: "doc \<Rightarrow> bool" where
  "nested_ok (DBlock t ds) \<longleftrightarrow> t \<noteq> MD_HR \<and> t \<noteq> MD_DOC \<and>
     (if verbatim_data (block_data t) then list_all chunk_only ds else list_all nested_ok ds)"
| "nested_ok (DSpan t ds) \<longleftrightarrow> t \<noteq> MD_OTHER_SPAN \<and>
     (if verbatim_data (span_data t) then list_all chunk_only ds else list_all nested_ok ds)"
| "nested_ok (DText t s) \<longleftrightarrow> True"

definition top_ok :: "doc \<Rightarrow> bool" where
  "top_ok d \<longleftrightarrow> nested_ok d \<or> d = DBlock MD_HR []"

end
