(* ===== verification/Markdown_Html.thy ===== *)
theory Markdown_Html
  imports Markdown_Ast
begin

text \<open>
  \<^verbatim>\<open>gui/markdown/markdown_html.hpp\<close> and \<^verbatim>\<open>.cpp\<close>: the HTML of a parsed document.  The blocks append
  to one output, which a raw HTML block looks back at; the output and the counts of the anchors
  used so far are the state of the traversal.
\<close>

section \<open>Escaping\<close>

definition esc_text_char :: "char \<Rightarrow> string" where
  "esc_text_char c =
     (if c = CHR ''&'' then ''&amp;'' else if c = CHR ''<'' then ''&lt;''
      else if c = CHR ''>'' then ''&gt;'' else [c])"

definition esc_text :: "string \<Rightarrow> string" where
  "esc_text s = concat (map esc_text_char s)"

definition esc_attr_char :: "char \<Rightarrow> string" where
  "esc_attr_char c =
     (if c = CHR ''&'' then ''&amp;'' else if c = CHR ''<'' then ''&lt;''
      else if c = CHR ''>'' then ''&gt;'' else if c = CHR 0x22 then ''&quot;''
      else if c = CHR 0x27 then ''&#39;'' else [c])"

definition esc_attr :: "string \<Rightarrow> string" where
  "esc_attr s = concat (map esc_attr_char s)"

section \<open>Inline content\<close>

record html_options =
  toc_max_depth :: int
  resolve_asset :: "(string \<Rightarrow> string) option"

fun inline_plain_text :: "node \<Rightarrow> string" where
  "inline_plain_text (Node d cs) =
     (if n_type d = NText \<or> n_type d = NCodeSpan then n_text d
      else if n_type d = NSoftBreak \<or> n_type d = NHardBreak then '' ''
      else if n_type d = NImage then (if n_title d = '''' then n_text d else n_title d)
      else concat (map inline_plain_text cs))"

abbreviation quoted :: "string \<Rightarrow> string" where
  "quoted s \<equiv> CHR 0x22 # s @ [CHR 0x22]"

definition title_attr :: "string \<Rightarrow> string" where
  "title_attr t = (if t = '''' then '''' else '' title='' @ quoted (esc_attr t))"

fun render_inline :: "html_options \<Rightarrow> node \<Rightarrow> string" where
  "render_inline opts (Node d cs) =
     (case n_type d of
        NText \<Rightarrow> esc_text (n_text d)
      | NCodeSpan \<Rightarrow> ''<code>'' @ esc_text (n_text d) @ ''</code>''
      | NEmphasis \<Rightarrow> ''<em>'' @ concat (map (render_inline opts) cs) @ ''</em>''
      | NStrong \<Rightarrow> ''<strong>'' @ concat (map (render_inline opts) cs) @ ''</strong>''
      | NDel \<Rightarrow> ''<del>'' @ concat (map (render_inline opts) cs) @ ''</del>''
      | NLink \<Rightarrow> ''<a href='' @ quoted (esc_attr (n_text d)) @ title_attr (n_title d) @ ''>'' @
          concat (map (render_inline opts) cs) @ ''</a>''
      | NImage \<Rightarrow> ''<img src='' @ quoted (esc_attr (case resolve_asset opts of
            Some f \<Rightarrow> f (n_text d) | None \<Rightarrow> n_text d)) @
          '' alt='' @ quoted (esc_attr (inline_plain_text (Node d cs))) @ title_attr (n_title d) @ ''>''
      | NSoftBreak \<Rightarrow> '' ''
      | NHardBreak \<Rightarrow> ''<br>'' @ [newline]
      | NHtmlSpan \<Rightarrow> n_text d
      | _ \<Rightarrow> concat (map (render_inline opts) cs))"

definition render_inlines :: "html_options \<Rightarrow> node list \<Rightarrow> string" where
  "render_inlines opts cs = concat (map (render_inline opts) cs)"

definition cell_align_attr :: "cell_align \<Rightarrow> string" where
  "cell_align_attr a =
     (case a of AlignLeft \<Rightarrow> '' align='' @ quoted ''left'' | AlignCenter \<Rightarrow> '' align='' @ quoted ''center''
      | AlignRight \<Rightarrow> '' align='' @ quoted ''right'' | AlignNone \<Rightarrow> '''')"

definition is_inline_node :: "node_type \<Rightarrow> bool" where
  "is_inline_node t \<longleftrightarrow> t \<in> {NText, NCodeSpan, NEmphasis, NStrong, NDel, NLink, NImage, NSoftBreak,
     NHardBreak, NHtmlSpan}"

section \<open>Table of contents\<close>

text \<open>The parent of an entry is the nearest earlier one of a lower level.\<close>

definition toc_parent :: "int list \<Rightarrow> nat \<Rightarrow> nat option" where
  "toc_parent levels i = find (\<lambda>j. levels ! j < levels ! i) (rev [0..<i])"

definition toc_children :: "int list \<Rightarrow> nat \<Rightarrow> nat list" where
  "toc_children levels p = filter (\<lambda>i. toc_parent levels i = Some p) [0..<length levels]"

definition toc_roots :: "int list \<Rightarrow> nat list" where
  "toc_roots levels = filter (\<lambda>i. toc_parent levels i = None) [0..<length levels]"

definition bump :: "nat \<Rightarrow> nat list \<Rightarrow> nat list" where
  "bump depth counters =
     (let cs = (if length counters \<le> depth then counters @ replicate (depth + 1 - length counters) 0
                else counters)
      in cs[depth := cs ! depth + 1])"

fun join_dots :: "nat list \<Rightarrow> string" where
  "join_dots [] = ''''"
| "join_dots [n] = dec_of_nat n"
| "join_dots (n # ns) = dec_of_nat n @ ''.'' @ join_dots ns"

text \<open>\<^verbatim>\<open>emit_toc\<close> with fuel; the children of an entry come after it, so their number is enough.\<close>

fun emit_toc :: "nat \<Rightarrow> heading list \<Rightarrow> nat \<Rightarrow> nat \<Rightarrow> nat list \<Rightarrow> nat list \<times> string" where
  "emit_toc 0 hs i depth counters = (counters, '''')"
| "emit_toc (Suc fuel) hs i depth counters =
     (let counters = bump depth counters;
          num = join_dots (take (depth + 1) counters);
          h = hs ! i;
          cs = toc_children (map h_level hs) i;
          (counters, inner) = fold (\<lambda>c (counters, out).
              let (counters, s) = emit_toc fuel hs c (depth + 1) counters in (counters, out @ s))
            cs (counters, '''')
      in (counters,
          ''<li><span class='' @ quoted ''toc-row'' @ ''><a href='' @ quoted (CHR ''#'' # esc_attr (h_anchor h)) @ ''>'' @
          esc_text (num @ ''. '' @ h_text h) @ ''</a></span>'' @
          (if cs = [] then '''' else ''<ol>'' @ inner @ ''</ol>'') @ ''</li>''))"

definition toc_entries :: "heading list \<Rightarrow> string" where
  "toc_entries hs = snd (fold (\<lambda>r (counters, out).
       let (counters, s) = emit_toc (length hs) hs r 0 counters in (counters, out @ s))
     (toc_roots (map h_level hs)) ([], ''''))"

definition render_toc_html :: "heading list \<Rightarrow> int \<Rightarrow> string" where
  "render_toc_html hs max_depth =
     ''<nav class='' @ quoted ''toc'' @ ''><p class='' @ quoted ''toc-title'' @ ''>Contents</p><ol>'' @ [newline] @
     toc_entries (filter (\<lambda>h. h_level h \<le> max_depth) hs) @
     ''</ol></nav>'' @ [newline]"

section \<open>Blocks\<close>

type_synonym html_state = "string \<times> (string \<Rightarrow> nat)"

definition put :: "string \<Rightarrow> html_state \<Rightarrow> html_state" where
  "put s = (\<lambda>(out, counts). (out @ s, counts))"

definition open_heading :: "node_data \<Rightarrow> node list \<Rightarrow> html_state \<Rightarrow> html_state" where
  "open_heading d cs = (\<lambda>(out, counts).
     let (anchor, counts) = make_anchor (inline_plain_text (Node d cs)) counts
     in (out @ ''<h'' @ dec_of_int (n_level d) @ '' id='' @ quoted (esc_attr anchor) @ ''>'', counts))"

definition put_html_block :: "string \<Rightarrow> html_state \<Rightarrow> html_state" where
  "put_html_block s = (\<lambda>(out, counts).
     let out = out @ s in (if out = '''' \<or> last out \<noteq> newline then out @ [newline] else out, counts))"

definition render_row :: "html_options \<Rightarrow> string \<Rightarrow> cell_align list \<Rightarrow> node \<Rightarrow> string" where
  "render_row opts tag aligns row = concat (map (\<lambda>(col, cell).
       ''<'' @ tag @ cell_align_attr (if col < length aligns then aligns ! col else AlignNone) @ ''>'' @
       render_inlines opts (kids cell) @ ''</'' @ tag @ ''>'' @ [newline]) (enumerate 0 (kids row)))"

definition render_table :: "html_options \<Rightarrow> cell_align list \<Rightarrow> node list \<Rightarrow> string" where
  "render_table opts aligns rows =
     ''<table>'' @ [newline] @
     (case rows of
        [] \<Rightarrow> ''''
      | row # _ \<Rightarrow> ''<thead>'' @ [newline] @ ''<tr>'' @ [newline] @ render_row opts ''th'' aligns row @
                   ''</tr>'' @ [newline] @ ''</thead>'' @ [newline]) @
     (if length rows > 1
      then ''<tbody>'' @ [newline] @
           concat (map (\<lambda>row. ''<tr>'' @ [newline] @ render_row opts ''td'' aligns row @ ''</tr>'' @ [newline]) (tl rows)) @
           ''</tbody>'' @ [newline]
      else '''') @
     ''</table>'' @ [newline]"

definition list_open :: "node_data \<Rightarrow> string" where
  "list_open d = (if n_ordered d then ''<ol start='' @ quoted (dec_of_int (sint (n_start d))) @ ''>'' @ [newline]
                  else ''<ul>'' @ [newline])"

definition list_close :: "node_data \<Rightarrow> string" where
  "list_close d = (if n_ordered d then ''</ol>'' else ''</ul>'') @ [newline]"

definition item_open :: "node_data \<Rightarrow> string" where
  "item_open d =
     (let task = (n_type d = NListItem \<and> n_task d)
      in ''<li'' @ (if task then '' class='' @ quoted ''task-list-item'' else '''') @ ''>'' @
         (if task then ''<input type='' @ quoted ''checkbox'' @
            (if n_checked d then '' checked disabled> '' else '' disabled> '') else ''''))"

text \<open>
  \<^verbatim>\<open>render_block\<close>, its loops over blocks and list items, and the loop over the content of an item,
  whose first paragraph is rendered without its tags.
\<close>

function (sequential) render_block :: "html_options \<Rightarrow> heading list \<Rightarrow> node \<Rightarrow> html_state \<Rightarrow> html_state" and
    render_blocks :: "html_options \<Rightarrow> heading list \<Rightarrow> node list \<Rightarrow> html_state \<Rightarrow> html_state" and
    render_items :: "html_options \<Rightarrow> heading list \<Rightarrow> node list \<Rightarrow> html_state \<Rightarrow> html_state" and
    render_item :: "html_options \<Rightarrow> heading list \<Rightarrow> bool \<Rightarrow> node list \<Rightarrow> html_state \<Rightarrow> html_state" where
  "render_block opts hs (Node d cs) st =
     (case n_type d of
        NHeading \<Rightarrow> put (render_inlines opts cs @ ''</h'' @ dec_of_int (n_level d) @ ''>'' @ [newline]) (open_heading d cs st)
      | NParagraph \<Rightarrow> put (''<p>'' @ render_inlines opts cs @ ''</p>'' @ [newline]) st
      | NBlockQuote \<Rightarrow> put (''</blockquote>'' @ [newline]) (render_blocks opts hs cs (put (''<blockquote>'' @ [newline]) st))
      | NCodeBlock \<Rightarrow> put (''<pre><code class='' @ quoted (''language-'' @ esc_attr (n_info d)) @ ''>'' @
          esc_text (n_text d) @ ''</code></pre>'' @ [newline]) st
      | NHtmlBlock \<Rightarrow> put_html_block (n_text d) st
      | NThematicBreak \<Rightarrow> put (''<hr>'' @ [newline]) st
      | NList \<Rightarrow> put (list_close d) (render_items opts hs cs (put (list_open d) st))
      | NTable \<Rightarrow> put (render_table opts (n_aligns d) cs) st
      | NToc \<Rightarrow> put (render_toc_html hs (toc_max_depth opts)) st
      | _ \<Rightarrow> render_blocks opts hs cs st)"
| "render_blocks opts hs [] st = st"
| "render_blocks opts hs (n # ns) st = render_blocks opts hs ns (render_block opts hs n st)"
| "render_items opts hs [] st = st"
| "render_items opts hs (Node d cs # ns) st =
     render_items opts hs ns (put (''</li>'' @ [newline]) (render_item opts hs True cs (put (item_open d) st)))"
| "render_item opts hs first [] st = st"
| "render_item opts hs first (n # ns) st =
     render_item opts hs False ns
       (if n_type (nd n) = NParagraph \<and> first then put (render_inlines opts (kids n)) st
        else if n_type (nd n) \<noteq> NParagraph \<and> is_inline_node (n_type (nd n)) then put (render_inline opts n) st
        else render_block opts hs n st)"
  by pat_completeness auto
termination
  by (relation "measure (\<lambda>x. case x of
        Inl (Inl (_, _, n, _)) \<Rightarrow> size n
      | Inl (Inr (_, _, ns, _)) \<Rightarrow> size_list size ns
      | Inr (Inl (_, _, ns, _)) \<Rightarrow> size_list size ns
      | Inr (Inr (_, _, _, ns, _)) \<Rightarrow> size_list size ns)") auto

definition render_html_body :: "html_options \<Rightarrow> node \<Rightarrow> string" where
  "render_html_body opts doc = fst (render_blocks opts (headings doc) (kids doc) ('''', \<lambda>_. 0))"

end
