(* ===== verification/Markdown_Build.thy ===== *)
theory Markdown_Build
  imports Markdown_Ast
begin

text \<open>
  The builder's stack machine against the meaning of a well-nested document: the callbacks of a
  document's traversal build its tree.  \<open>rep\<close> relates a number in the arena to a tree, \<open>grows\<close>
  says that some trees were appended to an open node and nothing else changed.
\<close>

section \<open>Trees in the arena\<close>

fun rep :: "arena_node list \<Rightarrow> node \<Rightarrow> nat \<Rightarrow> bool" and
    reps :: "arena_node list \<Rightarrow> node list \<Rightarrow> nat list \<Rightarrow> bool" where
  "rep pool (Node d cs) i \<longleftrightarrow> i < length pool \<and> an_data (pool ! i) = d \<and>
     (\<forall>j \<in> set (an_children (pool ! i)). i < j) \<and> reps pool cs (an_children (pool ! i))"
| "reps pool [] js \<longleftrightarrow> js = []"
| "reps pool (c # cs) js \<longleftrightarrow> (case js of [] \<Rightarrow> False | j # js' \<Rightarrow> rep pool c j \<and> reps pool cs js')"

lemma rep_frame:
  "rep pool c i \<Longrightarrow> \<forall>j. lo \<le> j \<and> j < length pool \<longrightarrow> pool' ! j = pool ! j \<Longrightarrow>
     length pool \<le> length pool' \<Longrightarrow> lo \<le> i \<Longrightarrow> rep pool' c i"
  "reps pool cs js \<Longrightarrow> \<forall>j. lo \<le> j \<and> j < length pool \<longrightarrow> pool' ! j = pool ! j \<Longrightarrow>
     length pool \<le> length pool' \<Longrightarrow> \<forall>j \<in> set js. lo \<le> j \<Longrightarrow> reps pool' cs js"
proof (induction pool c i and pool cs js rule: rep_reps.induct)
  case (1 pool d cs i)
  then have "pool' ! i = pool ! i" "\<forall>j \<in> set (an_children (pool ! i)). lo \<le> j"
    by fastforce+
  with 1 show ?case by simp
qed (auto split: list.splits)

lemma reps_append: "reps pool cs js \<Longrightarrow> reps pool cs' js' \<Longrightarrow> reps pool (cs @ cs') (js @ js')"
  by (induction cs arbitrary: js) (auto split: list.splits)

lemma rep_parts: "rep pool c i \<Longrightarrow> an_data (pool ! i) = nd c \<and> reps pool (kids c) (an_children (pool ! i))"
  by (cases c) simp

lemma reps_map: "reps pool cs js \<Longrightarrow> (\<And>c i. rep pool c i \<Longrightarrow> f i = g c) \<Longrightarrow> map f js = map g cs"
  by (induction cs arbitrary: js) (auto split: list.splits)

lemma rep_to_value:
  "rep pool c i \<Longrightarrow> length pool \<le> fuel + i \<Longrightarrow> to_value fuel pool i = Some c"
  "reps pool cs js \<Longrightarrow> \<forall>j \<in> set js. length pool \<le> fuel + j \<Longrightarrow> those (map (to_value fuel pool) js) = Some cs"
proof (induction pool c i and pool cs js arbitrary: fuel and fuel rule: rep_reps.induct)
  case (1 pool d cs i)
  then obtain fuel' where f: "fuel = Suc fuel'" by (cases fuel) auto
  with 1 have "\<forall>j \<in> set (an_children (pool ! i)). length pool \<le> fuel' + j" by fastforce
  with 1 f show ?case by simp
qed (auto split: list.splits)

section \<open>Growth below an open node\<close>

definition grows :: "builder \<Rightarrow> nat \<Rightarrow> builder \<Rightarrow> node list \<Rightarrow> bool" where
  "grows b p b' ns \<longleftrightarrow> b_stack b' = b_stack b \<and> b_root b' = b_root b \<and>
     length (b_pool b) \<le> length (b_pool b') \<and>
     (\<forall>j < length (b_pool b). j \<noteq> p \<longrightarrow> b_pool b' ! j = b_pool b ! j) \<and>
     an_data (b_pool b' ! p) = an_data (b_pool b ! p) \<and>
     (\<exists>js. an_children (b_pool b' ! p) = an_children (b_pool b ! p) @ js \<and>
        (\<forall>j \<in> set js. length (b_pool b) \<le> j) \<and> reps (b_pool b') ns js)"

lemma grows_refl: "grows b p b []"
  by (simp add: grows_def)

lemma grows_trans:
  assumes "grows b p b1 xs" "grows b1 p b2 ys" "p < length (b_pool b)"
  shows "grows b p b2 (xs @ ys)"
proof -
  obtain js1 where 1: "an_children (b_pool b1 ! p) = an_children (b_pool b ! p) @ js1"
    "\<forall>j \<in> set js1. length (b_pool b) \<le> j" "reps (b_pool b1) xs js1"
    using assms(1) by (auto simp: grows_def)
  obtain js2 where 2: "an_children (b_pool b2 ! p) = an_children (b_pool b1 ! p) @ js2"
    "\<forall>j \<in> set js2. length (b_pool b1) \<le> j" "reps (b_pool b2) ys js2"
    using assms(2) by (auto simp: grows_def)
  have le: "length (b_pool b) \<le> length (b_pool b1)" using assms(1) by (simp add: grows_def)
  have "reps (b_pool b2) xs js1"
    by (rule rep_frame(2) [OF 1(3) _ _ 1(2)]) (use assms(2,3) in \<open>auto simp: grows_def\<close>)
  from reps_append [OF this 2(3)] show ?thesis
    using assms(1,2) 1(1,2) 2(1,2) le by (auto simp: grows_def)
qed

lemma grows_context:
  assumes "grows b p b' ns" "b_parent b = Some p"
  shows "b_parent b' = Some p" "b_verbatim b' = b_verbatim b" "p < length (b_pool b) \<Longrightarrow> p < length (b_pool b')"
  using assms
  by (auto simp: grows_def b_parent_def b_verbatim_def b_top_def split: list.splits)

lemma b_leaf_pool:
  assumes "b_parent b = Some p" "p < length (b_pool b)"
  shows "b_pool (b_leaf d b) = (b_pool b)[p := (b_pool b ! p)\<lparr>an_children :=
      an_children (b_pool b ! p) @ [length (b_pool b)]\<rparr>] @ [\<lparr>an_data = d, an_children = []\<rparr>]"
    "b_stack (b_leaf d b) = b_stack b" "b_root (b_leaf d b) = b_root b"
  using assms by (simp_all add: b_leaf_def b_add_def Let_def nth_append list_update_append)

lemma grows_leaf:
  assumes "b_parent b = Some p" "p < length (b_pool b)"
  shows "grows b p (b_leaf d b) [Node d []]"
  using assms by (auto simp: grows_def b_leaf_pool nth_append nth_list_update)

lemma b_open_context:
  assumes "b_parent b = Some p" "p < length (b_pool b)"
  shows "b_parent (b_open d b) = Some (length (b_pool b))" "b_top (b_open d b) = Some (length (b_pool b))"
    "length (b_pool b) < length (b_pool (b_open d b))"
    "b_verbatim (b_open d b) = verbatim_type (n_type d)" "an_data (b_pool (b_open d b) ! length (b_pool b)) = d"
  using assms by (simp_all add: b_open_def Let_def b_parent_def b_top_def b_verbatim_def b_leaf_pool nth_append)

lemma upd_data_id: "upd_data n (\<lambda>d. d) b = b"
  by (simp add: upd_data_def)

text \<open>Open a node, grow below it, rewrite its data, close it.\<close>

lemma grows_open:
  assumes b: "b_parent b = Some p" "p < length (b_pool b)"
    and g: "grows (b_open d b) (length (b_pool b)) b2 ns"
  shows "grows b p (b_close (upd_data (length (b_pool b)) f b2)) [Node (f d) ns]"
proof -
  let ?n = "length (b_pool b)" and ?b1 = "b_open d b" and ?b3 = "upd_data (length (b_pool b)) f b2"
  have p1: "b_pool ?b1 = (b_pool b)[p := (b_pool b ! p)\<lparr>an_children := an_children (b_pool b ! p) @ [?n]\<rparr>]
      @ [\<lparr>an_data = d, an_children = []\<rparr>]" "b_stack ?b1 = ?n # b_stack b" "b_root ?b1 = b_root b"
    using b by (simp_all add: b_open_def Let_def b_leaf_pool)
  obtain js where js: "an_children (b_pool b2 ! ?n) = js" "\<forall>j \<in> set js. Suc ?n \<le> j" "reps (b_pool b2) ns js"
    using g by (auto simp: grows_def p1(1) nth_append)
  have b2: "b_stack b2 = ?n # b_stack b" "b_root b2 = b_root b" "?n < length (b_pool b2)"
    "\<forall>j < ?n. b_pool b2 ! j = b_pool ?b1 ! j" "an_data (b_pool b2 ! ?n) = d"
    using g by (auto simp: grows_def p1 nth_append)
  have "reps (b_pool ?b3) ns js"
    by (rule rep_frame(2) [OF js(3) _ _ js(2)]) (auto simp: upd_data_def)
  then have "rep (b_pool ?b3) (Node (f d) ns) ?n"
    using js(1,2) b2(3,5) by (auto simp: upd_data_def Suc_le_eq)
  then show ?thesis
    using b b2 by (auto simp: grows_def b_close_def upd_data_def p1(1) nth_append nth_list_update)
qed

lemma grows_open': "b_parent b = Some p \<Longrightarrow> p < length (b_pool b) \<Longrightarrow>
    grows (b_open d b) (length (b_pool b)) b2 ns \<Longrightarrow> grows b p (b_close b2) [Node d ns]"
  using grows_open [of b p d b2 ns "\<lambda>d. d"] by (simp add: upd_data_id)

section \<open>Traversals\<close>

lemma run_events_append:
  "run_events (es @ fs) b = (case run_events es b of Some b' \<Rightarrow> run_events fs b' | None \<Rightarrow> None)"
  by (induction es arbitrary: b) (auto split: option.splits)

lemma upd_data_twice: "n < length (b_pool b) \<Longrightarrow> upd_data n f (upd_data n g b) = upd_data n (f \<circ> g) b"
  by (simp add: upd_data_def)

lemma run_verbatim:
  assumes "list_all chunk_only ds" "b_top b = Some n" "n < length (b_pool b)" "b_verbatim b"
  shows "run_events (concat (map events_of ds)) b = Some (upd_data n (\<lambda>d. d\<lparr>n_text := n_text d @ doc_text ds\<rparr>) b)"
  using assms
proof (induction ds arbitrary: b)
  case Nil
  then show ?case by (simp add: upd_data_def)
next
  case (Cons d ds)
  then obtain t s where d: "d = DText t s" "t \<noteq> MD_BR" "t \<noteq> MD_SOFTBR" by (auto simp: chunk_only_def)
  let ?b = "append_text (text_chunk t s) b"
  have t: "on_text t s b = ?b"
    using d(2,3) Cons.prems(4) by (cases t) (simp_all add: on_text_def text_chunk_def)
  have top: "b_top ?b = Some n" "n < length (b_pool ?b)" "b_verbatim ?b"
    using Cons.prems by (simp_all add: append_text_def upd_data_def b_top_def b_verbatim_def)
  have "run_events (concat (map events_of ds)) ?b =
      Some (upd_data n (\<lambda>d. d\<lparr>n_text := n_text d @ doc_text ds\<rparr>) ?b)"
    using Cons.IH [OF _ top] Cons.prems(1) by simp
  moreover have "upd_data n (\<lambda>d. d\<lparr>n_text := n_text d @ doc_text ds\<rparr>) ?b =
      upd_data n (\<lambda>d. d\<lparr>n_text := n_text d @ doc_text (DText t s # ds)\<rparr>) b"
    using Cons.prems(2,3) by (simp add: append_text_def upd_data_twice comp_def)
  ultimately show ?case using t by (simp add: d(1) on_event_def)
qed

text \<open>The content of an opened node: \<open>run\<close> gives what its events lead to.\<close>

definition builds :: "builder \<Rightarrow> nat \<Rightarrow> md_event list \<Rightarrow> node list \<Rightarrow> bool" where
  "builds b p es ns \<longleftrightarrow> (\<exists>b'. run_events es b = Some b' \<and> grows b p b' ns)"

lemma builds_append:
  assumes "builds b p es xs" "b_parent b = Some p" "p < length (b_pool b)" "\<not> b_verbatim b"
    "\<And>b'. b_parent b' = Some p \<Longrightarrow> p < length (b_pool b') \<Longrightarrow> \<not> b_verbatim b' \<Longrightarrow> builds b' p fs ys"
  shows "builds b p (es @ fs) (xs @ ys)"
  using assms grows_context [OF _ assms(2)]
  by (auto simp: builds_def run_events_append) (metis grows_trans)

lemma builds_concat:
  assumes "\<And>d b. d \<in> set ds \<Longrightarrow> b_parent b = Some p \<Longrightarrow> p < length (b_pool b) \<Longrightarrow> \<not> b_verbatim b \<Longrightarrow>
      builds b p (events_of d) (ast_of d)"
    and "b_parent b = Some p" "p < length (b_pool b)" "\<not> b_verbatim b"
  shows "builds b p (concat (map events_of ds)) (concat (map ast_of ds))"
  using assms
proof (induction ds arbitrary: b)
  case (Cons d ds)
  then show ?case by (auto intro!: builds_append)
qed (simp add: builds_def grows_refl)

lemma builds_node:
  assumes "on_event start b = Some (b_open d b)" "\<And>b'. on_event stop b' = Some (b_close b')"
    and "b_parent b = Some p" "p < length (b_pool b)"
    and "builds (b_open d b) (length (b_pool b)) es ns"
  shows "builds b p (start # es @ [stop]) [Node d ns]"
  using assms grows_open' [OF assms(3,4)] by (auto simp: builds_def run_events_append)

lemma builds_verbatim:
  assumes "on_event start b = Some (b_open d b)" "\<And>b'. on_event stop b' = Some (b_close b')"
    and b: "b_parent b = Some p" "p < length (b_pool b)"
    and "verbatim_type (n_type d)" "n_text d = ''''" "list_all chunk_only ds"
  shows "builds b p (start # concat (map events_of ds) @ [stop]) [Node (d\<lparr>n_text := doc_text ds\<rparr>) []]"
proof -
  let ?n = "length (b_pool b)"
  let ?f = "\<lambda>d :: node_data. d\<lparr>n_text := n_text d @ doc_text ds\<rparr>"
  have "run_events (concat (map events_of ds)) (b_open d b) = Some (upd_data ?n ?f (b_open d b))"
    using run_verbatim [OF assms(7) b_open_context(2,3) [OF b]] b_open_context(4) [OF b] assms(5) by simp
  moreover have "grows b p (b_close (upd_data ?n ?f (b_open d b))) [Node (?f d) []]"
    by (rule grows_open [OF b grows_refl])
  moreover have "?f d = d\<lparr>n_text := doc_text ds\<rparr>" using assms(6) by simp
  ultimately show ?thesis using assms(1,2) by (simp add: builds_def run_events_append)
qed

lemma builds_table:
  assumes b: "b_parent b = Some p" "p < length (b_pool b)"
    and "builds (b_open d b) (length (b_pool b)) es ns" "on_event start b = Some (b_open d b)"
  shows "builds b p (start # es @ [LeaveBlock MD_TABLE])
    [Node (d\<lparr>n_aligns := table_aligns (map (\<lambda>r. map (n_align \<circ> nd) (kids r)) ns)\<rparr>) ns]"
proof -
  let ?n = "length (b_pool b)"
  obtain b2 where b2: "run_events es (b_open d b) = Some b2" "grows (b_open d b) ?n b2 ns"
    using assms(3) by (auto simp: builds_def)
  have "b_top b2 = Some ?n" and stack: "b_stack (b_open d b) = ?n # b_stack b"
    using b2(2) b by (simp_all add: grows_def b_top_def b_open_def Let_def b_leaf_pool)
  moreover have "an_children (b_pool (b_open d b) ! ?n) = []"
    using b by (simp add: b_open_def Let_def b_leaf_pool nth_append)
  then have "reps (b_pool b2) ns (an_children (b_pool b2 ! ?n))" using b2(2) by (auto simp: grows_def)
  then have "map (\<lambda>r. map (\<lambda>c. n_align (an_data (b_pool b2 ! c))) (an_children (b_pool b2 ! r)))
        (an_children (b_pool b2 ! ?n)) = map (\<lambda>r. map (n_align \<circ> nd) (kids r)) ns"
    by (rule reps_map) (auto dest!: rep_parts intro: reps_map dest: rep_parts)
  ultimately have "on_event (LeaveBlock MD_TABLE) b2 = Some (b_close (upd_data ?n
      (\<lambda>d. d\<lparr>n_aligns := table_aligns (map (\<lambda>r. map (n_align \<circ> nd) (kids r)) ns)\<rparr>) b2))"
    by (simp add: on_event_def on_leave_block_def Let_def)
  then show ?thesis
    using grows_open [OF b b2(2)] b2(1) assms(4) by (simp add: builds_def run_events_append)
qed

lemma block_data_text: "block_data t = Some d \<Longrightarrow> n_text d = ''''"
  by (cases t) (auto simp: block_data_def node_default_def split: option.splits prod.splits)

lemma span_data_text: "span_data t = Some d \<Longrightarrow> verbatim_type (n_type d) \<Longrightarrow> n_text d = ''''"
  by (cases t) (auto simp: span_data_def node_default_def verbatim_type_def split: option.splits prod.splits)

lemma block_data_table: "block_data t = Some d \<Longrightarrow> n_type d = NTable \<longleftrightarrow> t = MD_TABLE"
  by (cases t) (auto simp: block_data_def node_default_def split: option.splits prod.splits)

lemma span_data_table: "span_data t = Some d \<Longrightarrow> n_type d \<noteq> NTable"
  by (cases t) (auto simp: span_data_def node_default_def split: option.splits prod.splits)

lemma block_data_None: "block_data t = None \<longleftrightarrow> t \<in> {MD_HR, MD_THEAD, MD_TBODY, MD_DOC}"
  by (cases t) (simp_all add: block_data_def)

lemma enter_block: "block_data t = Some d \<Longrightarrow> on_event (EnterBlock t) b = Some (b_open d b)"
  by (cases t) (simp_all add: on_event_def on_enter_block_def block_data_def)

lemma leave_block: "block_data t = Some d \<Longrightarrow> t \<noteq> MD_TABLE \<Longrightarrow> on_event (LeaveBlock t) b = Some (b_close b)"
  by (cases t) (simp_all add: on_event_def on_leave_block_def block_data_def)

lemma builds_open_content:
  assumes "\<And>e b p. e \<in> set ds \<Longrightarrow> nested_ok e \<Longrightarrow> b_parent b = Some p \<Longrightarrow> p < length (b_pool b) \<Longrightarrow>
      \<not> b_verbatim b \<Longrightarrow> builds b p (events_of e) (ast_of e)"
    and "list_all nested_ok ds" "b_parent b = Some p" "p < length (b_pool b)" "\<not> verbatim_type (n_type d)"
  shows "builds (b_open d b) (length (b_pool b)) (concat (map events_of ds)) (concat (map ast_of ds))"
proof (rule builds_concat)
  show "builds b' (length (b_pool b)) (events_of e) (ast_of e)"
    if "e \<in> set ds" "b_parent b' = Some (length (b_pool b))" "length (b_pool b) < length (b_pool b')"
      "\<not> b_verbatim b'" for e b'
    using assms(1) [OF that(1) _ that(2,3,4)] assms(2) that(1) by (simp add: list_all_iff)
qed (use b_open_context [OF assms(3,4)] assms(5) in simp_all)

lemma builds_block:
  assumes IH: "\<And>e b p. e \<in> set ds \<Longrightarrow> nested_ok e \<Longrightarrow> b_parent b = Some p \<Longrightarrow> p < length (b_pool b) \<Longrightarrow>
      \<not> b_verbatim b \<Longrightarrow> builds b p (events_of e) (ast_of e)"
    and ok: "nested_ok (DBlock t ds)"
    and b: "b_parent b = Some p" "p < length (b_pool b)" "\<not> b_verbatim b"
  shows "builds b p (events_of (DBlock t ds)) (ast_of (DBlock t ds))"
proof (cases "block_data t")
  case None
  then have t: "t = MD_THEAD \<or> t = MD_TBODY" using ok by (auto simp: block_data_None)
  then have "list_all nested_ok ds" using ok by (auto simp: verbatim_data_def block_data_def)
  then have "builds b p (concat (map events_of ds)) (concat (map ast_of ds))"
    using b by (intro builds_concat IH) (auto simp: list_all_iff)
  then show ?thesis
    using t by (auto simp: builds_def run_events_append on_event_def on_enter_block_def
        on_leave_block_def block_data_def container_def)
next
  case (Some d)
  have hr: "t \<noteq> MD_HR" using ok by simp
  show ?thesis
  proof (cases "verbatim_type (n_type d)")
    case True
    then have "t \<noteq> MD_TABLE" using block_data_table [OF Some] by (auto simp: verbatim_type_def)
    with True show ?thesis
      using ok hr Some b builds_verbatim [OF enter_block [OF Some] leave_block [OF Some] b(1,2) True block_data_text [OF Some]]
      by (simp add: container_def verbatim_data_def)
  next
    case False
    then have content: "builds (b_open d b) (length (b_pool b)) (concat (map events_of ds)) (concat (map ast_of ds))"
      using ok Some b by (intro builds_open_content IH) (simp_all add: verbatim_data_def)
    show ?thesis
    proof (cases "t = MD_TABLE")
      case True
      then show ?thesis
        using builds_table [OF b(1,2) content enter_block [OF Some]] False hr Some block_data_table [OF Some]
        by (simp add: container_def)
    next
      case False
      then show ?thesis
        using builds_node [OF enter_block [OF Some] leave_block [OF Some False] b(1,2) content]
          \<open>\<not> verbatim_type (n_type d)\<close> hr Some block_data_table [OF Some]
        by (simp add: container_def)
    qed
  qed
qed

lemma builds_span:
  assumes IH: "\<And>e b p. e \<in> set ds \<Longrightarrow> nested_ok e \<Longrightarrow> b_parent b = Some p \<Longrightarrow> p < length (b_pool b) \<Longrightarrow>
      \<not> b_verbatim b \<Longrightarrow> builds b p (events_of e) (ast_of e)"
    and ok: "nested_ok (DSpan t ds)"
    and b: "b_parent b = Some p" "p < length (b_pool b)" "\<not> b_verbatim b"
  shows "builds b p (events_of (DSpan t ds)) (ast_of (DSpan t ds))"
proof -
  obtain d where d: "span_data t = Some d" using ok by (cases t) (simp_all add: span_data_def)
  have ev: "on_event (EnterSpan t) b = Some (b_open d b)" "\<And>b. on_event (LeaveSpan t) b = Some (b_close b)"
    using d by (simp_all add: on_event_def on_enter_span_def on_leave_span_def)
  show ?thesis
  proof (cases "verbatim_type (n_type d)")
    case True
    then show ?thesis
      using ok d builds_verbatim [OF ev b(1,2) True span_data_text [OF d True]]
      by (simp add: container_def verbatim_data_def)
  next
    case False
    then have "builds (b_open d b) (length (b_pool b)) (concat (map events_of ds)) (concat (map ast_of ds))"
      using ok d b by (intro builds_open_content IH) (simp_all add: verbatim_data_def)
    from builds_node [OF ev b(1,2) this] show ?thesis
      using False d span_data_table [OF d] by (simp add: container_def)
  qed
qed

lemma builds_doc:
  "nested_ok d \<Longrightarrow> b_parent b = Some p \<Longrightarrow> p < length (b_pool b) \<Longrightarrow> \<not> b_verbatim b \<Longrightarrow>
    builds b p (events_of d) (ast_of d)"
proof (induction d arbitrary: b p)
  case (DBlock t ds)
  then show ?case by (intro builds_block) blast+
next
  case (DSpan t ds)
  then show ?case by (intro builds_span) blast+
next
  case (DText t s)
  then have "on_text t s b = b_leaf (text_node t s) b"
    by (cases t) (simp_all add: on_text_def text_node_def)
  then show ?case
    using grows_leaf [OF DText(2,3)] by (simp add: builds_def on_event_def)
qed

section \<open>The arena is a forest\<close>

text \<open>
  Whatever the events: pointers are valid, a child has a greater number than its parent, and no
  node has two parents.
\<close>

definition child :: "arena_node list \<Rightarrow> nat \<Rightarrow> nat \<Rightarrow> bool" where
  "child pool p c \<longleftrightarrow> p < length pool \<and> c \<in> set (an_children (pool ! p))"

definition wf_pool :: "arena_node list \<Rightarrow> bool" where
  "wf_pool pool \<longleftrightarrow> (\<forall>p c. child pool p c \<longrightarrow> p < c \<and> c < length pool) \<and>
     (\<forall>p q c. child pool p c \<longrightarrow> child pool q c \<longrightarrow> p = q) \<and>
     (\<forall>a \<in> set pool. distinct (an_children a))"

definition wf_builder :: "builder \<Rightarrow> bool" where
  "wf_builder b \<longleftrightarrow> wf_pool (b_pool b) \<and> (\<forall>n \<in> set (b_stack b). n < length (b_pool b)) \<and>
     (\<forall>r. b_root b = Some r \<longrightarrow> r < length (b_pool b))"

lemma child_snoc: "child (pool @ [\<lparr>an_data = d, an_children = []\<rparr>]) p c = child pool p c"
  by (auto simp: child_def nth_append)

lemma child_data: "child (pool[n := (pool ! n)\<lparr>an_data := d\<rparr>]) p c = child pool p c"
  by (cases "n < length pool") (auto simp: child_def nth_list_update split: if_splits)

lemma child_drop: "child (pool[n := \<lparr>an_data = d, an_children = []\<rparr>]) p c \<longleftrightarrow> child pool p c \<and> p \<noteq> n"
  by (cases "n < length pool") (auto simp: child_def nth_list_update split: if_splits)

lemma child_add: "q < length pool \<Longrightarrow>
    child (pool[q := (pool ! q)\<lparr>an_children := an_children (pool ! q) @ [n]\<rparr>]) p c \<longleftrightarrow>
      child pool p c \<or> p = q \<and> c = n"
  by (auto simp: child_def nth_list_update)

lemma wf_poolD: "wf_pool pool \<Longrightarrow> child pool p c \<Longrightarrow> p < c \<and> c < length pool"
  by (simp add: wf_pool_def)

lemma wf_pool_snoc: "wf_pool pool \<Longrightarrow> wf_pool (pool @ [\<lparr>an_data = d, an_children = []\<rparr>])"
  unfolding wf_pool_def child_snoc by (simp add: less_Suc_eq)

lemma wf_pool_data: "wf_pool pool \<Longrightarrow> wf_pool (pool[n := (pool ! n)\<lparr>an_data := d\<rparr>])"
proof (cases "n < length pool")
  case True
  then show "wf_pool pool \<Longrightarrow> ?thesis"
    by (auto simp: wf_pool_def child_data dest!: set_update_subset_insert [THEN subsetD])
qed (simp add: list_update_beyond)

lemma wf_pool_child:
  assumes "wf_pool pool" "p < length pool" "c < length pool" "p < c" "\<And>q. \<not> child pool q c"
  shows "wf_pool (pool[p := (pool ! p)\<lparr>an_children := an_children (pool ! p) @ [c]\<rparr>])"
proof -
  have "c \<notin> set (an_children (pool ! p))" using assms(2) assms(5) [of p] by (simp add: child_def)
  then show ?thesis
    using assms unfolding wf_pool_def child_add [OF assms(2)] length_list_update
    by (auto dest!: set_update_subset_insert [THEN subsetD])
qed

lemma wf_pool_drop: "wf_pool pool \<Longrightarrow> wf_pool (pool[n := \<lparr>an_data = d, an_children = []\<rparr>])"
  unfolding wf_pool_def child_drop length_list_update
  by (auto dest!: set_update_subset_insert [THEN subsetD])

lemma wf_leaf: "wf_builder b \<Longrightarrow> wf_builder (b_leaf d b) \<and> length (b_pool (b_leaf d b)) = Suc (length (b_pool b)) \<and>
    b_stack (b_leaf d b) = b_stack b"
proof -
  assume b: "wf_builder b"
  let ?pool = "b_pool b @ [\<lparr>an_data = d, an_children = []\<rparr>]" and ?n = "length (b_pool b)"
  have s: "wf_pool ?pool" using b by (intro wf_pool_snoc) (simp add: wf_builder_def)
  have fresh: "\<not> child ?pool q ?n" for q
    using b wf_poolD [of "b_pool b" q ?n] by (auto simp: child_snoc wf_builder_def)
  show ?thesis
  proof (cases "b_parent b")
    case None
    then show ?thesis using b s by (auto simp: b_leaf_def b_add_def wf_builder_def less_Suc_eq)
  next
    case (Some p)
    then have p: "p < ?n" using b by (auto simp: wf_builder_def b_parent_def split: list.splits)
    have "wf_pool (?pool[p := (?pool ! p)\<lparr>an_children := an_children (?pool ! p) @ [?n]\<rparr>])"
      using p by (intro wf_pool_child [OF s _ _ _ fresh]) simp_all
    then show ?thesis using b Some by (auto simp: b_leaf_def b_add_def Let_def wf_builder_def less_Suc_eq)
  qed
qed

lemma wf_open: "wf_builder b \<Longrightarrow> wf_builder (b_open d b)"
  using wf_leaf [of b d] by (auto simp: b_open_def Let_def wf_builder_def less_Suc_eq)

lemma wf_close: "wf_builder b \<Longrightarrow> wf_builder (b_close b)"
  by (cases "b_stack b") (auto simp: b_close_def wf_builder_def)

lemma wf_upd_data: "wf_builder b \<Longrightarrow> wf_builder (upd_data n f b)"
  by (simp add: wf_builder_def upd_data_def wf_pool_data)

lemma wf_on_text: "wf_builder b \<Longrightarrow> wf_builder (on_text t s b)"
  by (cases t) (auto simp: on_text_def append_text_def wf_leaf wf_upd_data split: option.splits)

lemma wf_enter_doc: "wf_builder b \<Longrightarrow> wf_builder (on_enter_block MD_DOC b)"
  using wf_pool_snoc [of "b_pool b"]
  by (auto simp: on_enter_block_def Let_def wf_builder_def split: option.splits)

lemma wf_event: "on_event e b = Some b' \<Longrightarrow> wf_builder b \<Longrightarrow> wf_builder b'"
proof (cases e)
  case (EnterBlock t)
  assume a: "on_event e b = Some b'" "wf_builder b"
  show ?thesis
  proof (cases "t = MD_DOC")
    case True
    then show ?thesis using a EnterBlock wf_enter_doc [of b] by (simp add: on_event_def)
  next
    case False
    then show ?thesis using a EnterBlock
      by (cases t) (auto simp: on_event_def on_enter_block_def wf_leaf wf_open split: option.splits)
  qed
next
  case (LeaveBlock t)
  then show "on_event e b = Some b' \<Longrightarrow> wf_builder b \<Longrightarrow> ?thesis"
    by (cases t) (auto simp: on_event_def on_leave_block_def Let_def wf_close wf_upd_data split: option.splits)
qed (auto simp: on_event_def on_enter_span_def on_leave_span_def wf_open wf_close wf_on_text split: option.splits)

lemma wf_run: "run_events es b = Some b' \<Longrightarrow> wf_builder b \<Longrightarrow> wf_builder b'"
  by (induction es arbitrary: b) (auto split: option.splits dest: wf_event)

lemma wf_empty_builder: "wf_builder empty_builder"
  by (simp add: wf_builder_def wf_pool_def empty_builder_def child_def)

lemma those_map_Some: "(\<forall>x \<in> set xs. x \<noteq> None) \<Longrightarrow> \<exists>ys. those xs = Some ys"
  by (induction xs) auto

lemma to_value_total: "wf_pool pool \<Longrightarrow> i < length pool \<Longrightarrow> length pool \<le> fuel + i \<Longrightarrow>
    \<exists>n. to_value fuel pool i = Some n"
proof (induction fuel arbitrary: i)
  case (Suc fuel)
  have "\<forall>x \<in> set (map (to_value fuel pool) (an_children (pool ! i))). x \<noteq> None"
  proof
    fix x assume "x \<in> set (map (to_value fuel pool) (an_children (pool ! i)))"
    then obtain c where c: "c \<in> set (an_children (pool ! i))" "x = to_value fuel pool c" by auto
    then have "i < c" "c < length pool"
      using Suc.prems wf_poolD [of pool i c] by (simp_all add: child_def)
    then show "x \<noteq> None" using Suc.IH [of c] Suc.prems c(2) by auto
  qed
  from those_map_Some [OF this] show ?case by auto
qed simp

lemma wf_mark_toc: "wf_builder b \<Longrightarrow> wf_builder (mark_toc_nodes b)"
proof -
  have "wf_pool (foldl (\<lambda>pool c. if is_toc_child pool c
      then pool[c := \<lparr>an_data = node_default\<lparr>n_type := NToc\<rparr>, an_children = []\<rparr>] else pool) pool cs) \<and>
    length (foldl (\<lambda>pool c. if is_toc_child pool c
      then pool[c := \<lparr>an_data = node_default\<lparr>n_type := NToc\<rparr>, an_children = []\<rparr>] else pool) pool cs) = length pool"
    if "wf_pool pool" for pool cs
    using that by (induction cs arbitrary: pool) (auto simp: wf_pool_drop)
  then show "wf_builder b \<Longrightarrow> ?thesis"
    by (auto simp: mark_toc_nodes_def wf_builder_def split: option.splits)
qed

lemma parse_total: "run_events es empty_builder \<noteq> None \<Longrightarrow> \<exists>n. parse_events es = Some n"
proof -
  assume "run_events es empty_builder \<noteq> None"
  then obtain b where b: "run_events es empty_builder = Some b" by auto
  have "wf_builder (mark_toc_nodes b)" by (intro wf_mark_toc wf_run [OF b] wf_empty_builder)
  then show ?thesis
    using b to_value_total by (auto simp: parse_events_def Let_def wf_builder_def split: option.splits)
qed

section \<open>Whole documents\<close>

fun is_toc_node :: "node \<Rightarrow> bool" where
  "is_toc_node (Node d [Node e _]) \<longleftrightarrow> n_type d = NParagraph \<and> n_type e = NText \<and>
     trim_blank (n_text e) = ''[[TOC]]''"
| "is_toc_node _ \<longleftrightarrow> False"

definition mark_toc :: "node \<Rightarrow> node" where
  "mark_toc n = (if is_toc_node n then Node (node_default\<lparr>n_type := NToc\<rparr>) [] else n)"

lemma grows_restack: "grows b p b' ns \<Longrightarrow> grows (b\<lparr>b_stack := s\<rparr>) p (b'\<lparr>b_stack := s\<rparr>) ns"
  by (simp add: grows_def)

text \<open>At the top level a thematic break takes the root off the stack, where it is not missed.\<close>

lemma run_top:
  assumes "top_ok d" "b_root b = Some r" "r < length (b_pool b)" "b_stack b \<in> {[r], []}"
    "\<not> verbatim_type (n_type (an_data (b_pool b ! r)))"
  shows "\<exists>b'. run_events (events_of d) b = Some b' \<and> grows b r (b'\<lparr>b_stack := b_stack b\<rparr>) (ast_of d) \<and>
    b_stack b' \<in> {[r], []}"
proof -
  have p: "b_parent b = Some r" "\<not> b_verbatim b"
    using assms by (auto simp: b_parent_def b_verbatim_def b_top_def)
  show ?thesis
  proof (cases "nested_ok d")
    case True
    then obtain b' where "run_events (events_of d) b = Some b'" "grows b r b' (ast_of d)"
      using builds_doc [OF True p(1) assms(3) p(2)] by (auto simp: builds_def)
    moreover from this have st: "b_stack b' = b_stack b" by (simp add: grows_def)
    moreover from this have "b'\<lparr>b_stack := b_stack b\<rparr> = b'" by (cases b') simp
    ultimately show ?thesis using assms(4) by (metis (no_types))
  next
    case False
    then have d: "d = DBlock MD_HR []" using assms(1) by (simp add: top_ok_def)
    let ?b = "b_leaf (node_default\<lparr>n_type := NThematicBreak\<rparr>) b"
    have "grows b r ?b [Node (node_default\<lparr>n_type := NThematicBreak\<rparr>) []]"
      by (rule grows_leaf [OF p(1) assms(3)])
    moreover have "b_stack ?b = b_stack b" by (simp add: b_leaf_pool [OF p(1) assms(3)])
    ultimately have "grows b r ((b_close ?b)\<lparr>b_stack := b_stack b\<rparr>) (ast_of d)"
      by (simp add: b_close_def d grows_def)
    then show ?thesis
      using assms(4) \<open>b_stack ?b = b_stack b\<close>
      by (auto simp: d on_event_def on_enter_block_def on_leave_block_def b_close_def)
  qed
qed

lemma run_tops:
  assumes "list_all top_ok ds" "b_root b = Some r" "r < length (b_pool b)" "b_stack b \<in> {[r], []}"
    "\<not> verbatim_type (n_type (an_data (b_pool b ! r)))"
  shows "\<exists>b'. run_events (concat (map events_of ds)) b = Some b' \<and>
    grows b r (b'\<lparr>b_stack := b_stack b\<rparr>) (concat (map ast_of ds))"
  using assms
proof (induction ds arbitrary: b)
  case Nil
  then show ?case by (auto simp: grows_refl)
next
  case (Cons d ds)
  obtain b1 where b1: "run_events (events_of d) b = Some b1"
    "grows b r (b1\<lparr>b_stack := b_stack b\<rparr>) (ast_of d)" "b_stack b1 \<in> {[r], []}"
    using run_top [OF _ Cons.prems(2-5), of d] Cons.prems(1) by auto
  have "b_root b1 = Some r" "r < length (b_pool b1)" "an_data (b_pool b1 ! r) = an_data (b_pool b ! r)"
    using b1(2) Cons.prems by (auto simp: grows_def)
  then obtain b2 where b2: "run_events (concat (map events_of ds)) b1 = Some b2"
    "grows b1 r (b2\<lparr>b_stack := b_stack b1\<rparr>) (concat (map ast_of ds))"
    using Cons.IH [of b1] b1(3) Cons.prems by auto
  have "grows (b1\<lparr>b_stack := b_stack b\<rparr>) r (b2\<lparr>b_stack := b_stack b\<rparr>) (concat (map ast_of ds))"
    using grows_restack [OF b2(2), of "b_stack b"] by simp
  from grows_trans [OF b1(2) this Cons.prems(3)] show ?case
    using b1(1) b2(1) by (simp add: run_events_append)
qed

text \<open>Marking one child leaves its siblings' trees.\<close>

lemma rep_drop:
  "rep pool n i \<Longrightarrow> i \<noteq> c \<Longrightarrow> \<forall>q. child pool q c \<longrightarrow> q = r \<Longrightarrow> r < i \<Longrightarrow>
     rep (pool[c := x]) n i"
  "reps pool ns js \<Longrightarrow> c \<notin> set js \<Longrightarrow> \<forall>q. child pool q c \<longrightarrow> q = r \<Longrightarrow>
     \<forall>j \<in> set js. r < j \<Longrightarrow> reps (pool[c := x]) ns js"
proof (induction pool n i and pool ns js rule: rep_reps.induct)
  case (1 pool d cs i)
  then have "c \<notin> set (an_children (pool ! i))" "\<forall>j \<in> set (an_children (pool ! i)). r < j"
    by (auto simp: child_def)
  with 1 show ?case by simp
qed (auto split: list.splits)

text \<open>Marking the table-of-contents paragraphs among the children of the root, in order.\<close>

abbreviation mark_child :: "arena_node list \<Rightarrow> nat \<Rightarrow> arena_node list" where
  "mark_child pool c \<equiv> (if is_toc_child pool c
     then pool[c := \<lparr>an_data = node_default\<lparr>n_type := NToc\<rparr>, an_children = []\<rparr>] else pool)"

lemma is_toc_rep: "rep pool n c \<Longrightarrow> is_toc_child pool c \<longleftrightarrow> is_toc_node n"
  by (cases n rule: is_toc_node.cases)
    (auto simp: is_toc_child_def dest!: rep_parts split: list.splits)

lemma mark_child_rep: "rep pool n c \<Longrightarrow> rep (mark_child pool c) (mark_toc n) c"
  using is_toc_rep [of pool n c] by (cases n) (auto simp: mark_toc_def)

lemma wf_mark_child: "wf_pool pool \<Longrightarrow> wf_pool (mark_child pool c)"
  by (simp add: wf_pool_drop)

lemma foldl_mark_reps:
  assumes "reps pool ns js" "wf_pool pool" "distinct js" "\<forall>j \<in> set js. child pool r j"
    and "reps pool ms ks" "\<forall>k \<in> set ks. child pool r k" "set ks \<inter> set js = {}"
  shows "reps (foldl mark_child pool js) (map mark_toc ns) js \<and> reps (foldl mark_child pool js) ms ks \<and>
    foldl mark_child pool js ! r = pool ! r \<and> length (foldl mark_child pool js) = length pool"
  using assms
proof (induction js arbitrary: pool ns ms ks)
  case Nil
  then show ?case by (cases ns) auto
next
  case (Cons c js)
  obtain n ns' where ns: "ns = n # ns'" "rep pool n c" "reps pool ns' js"
    using Cons.prems(1) by (cases ns) auto
  let ?pool = "mark_child pool c"
  have c: "child pool r c" "r < c" using Cons.prems(2,4) wf_poolD [of pool r c] by auto
  have only: "\<forall>q. child pool q c \<longrightarrow> q = r" using Cons.prems(2) c(1) by (auto simp: wf_pool_def)
  have after: "\<forall>j. child pool r j \<longrightarrow> r < j" using Cons.prems(2) by (auto dest: wf_poolD)
  have "reps ?pool ns' js" "reps ?pool ms ks"
    using rep_drop(2) [OF _ _ only] ns(3) Cons.prems(3-7) after by auto
  moreover have "rep ?pool (mark_toc n) c" by (rule mark_child_rep [OF ns(2)])
  moreover have ch: "child ?pool r j \<longleftrightarrow> child pool r j" for j
    using c(2) by (auto simp: child_drop)
  ultimately have "reps (foldl mark_child ?pool js) (map mark_toc ns') js \<and>
      reps (foldl mark_child ?pool js) (mark_toc n # ms) (c # ks) \<and>
      foldl mark_child ?pool js ! r = ?pool ! r \<and> length (foldl mark_child ?pool js) = length ?pool"
    using Cons.prems(2-7) c(1) by (intro Cons.IH wf_mark_child) auto
  then show ?case using ns(1) c(2) by simp
qed

lemma parse_document_marked:
  assumes "list_all top_ok ds"
  shows "parse_events (events_of (DBlock MD_DOC ds)) =
    Some (Node (node_default\<lparr>n_type := NRoot\<rparr>) (map mark_toc (concat (map ast_of ds))))"
proof -
  let ?ns = "concat (map ast_of ds)"
  define b0 where "b0 = on_enter_block MD_DOC empty_builder"
  have b0: "b_root b0 = Some 0" "b_pool b0 = [\<lparr>an_data = node_default\<lparr>n_type := NRoot\<rparr>, an_children = []\<rparr>]"
    "b_stack b0 = [0]"
    by (simp_all add: b0_def on_enter_block_def empty_builder_def)
  obtain b where b: "run_events (concat (map events_of ds)) b0 = Some b"
    "grows b0 0 (b\<lparr>b_stack := b_stack b0\<rparr>) ?ns"
    using run_tops [OF assms b0(1)] b0 by (auto simp: verbatim_type_def)
  have run: "run_events (events_of (DBlock MD_DOC ds)) empty_builder = Some (b_close b)"
    using b(1) by (simp add: run_events_append on_event_def b0_def on_leave_block_def)
  have wf: "wf_pool (b_pool b)"
    using wf_run [OF run wf_empty_builder] by (simp add: wf_builder_def b_close_def)
  obtain js where js: "an_children (b_pool b ! 0) = js" "reps (b_pool b) ?ns js"
    "an_data (b_pool b ! 0) = node_default\<lparr>n_type := NRoot\<rparr>" "b_root b = Some 0" "0 < length (b_pool b)"
    using b(2) b0 by (fastforce simp: grows_def Suc_le_eq)
  have "distinct js" using wf js(1,5) by (auto simp: wf_pool_def)
  have ch: "\<forall>j \<in> set js. child (b_pool b) 0 j" using js(1,5) by (simp add: child_def)
  let ?pool = "foldl mark_child (b_pool b) js"
  have m: "reps ?pool (map mark_toc ?ns) js" "?pool ! 0 = b_pool b ! 0" "length ?pool = length (b_pool b)"
    using foldl_mark_reps [OF js(2) wf \<open>distinct js\<close> ch, of "[]" "[]"] by auto
  have "\<forall>j \<in> set js. 0 < j" using ch wf by (auto dest: wf_poolD)
  then have "rep ?pool (Node (node_default\<lparr>n_type := NRoot\<rparr>) (map mark_toc ?ns)) 0"
    using m js by simp
  then show ?thesis
    using run js(1,4) rep_to_value(1) [of ?pool _ 0 "length ?pool"]
    by (simp add: parse_events_def mark_toc_nodes_def b_close_def Let_def)
qed

end
