(* ===== verification/Markdown_Render.thy ===== *)
theory Markdown_Render
  imports Markdown_Html Markdown_Build
begin

text \<open>
  Lemmas on slugs, entities and the HTML renderer: escaping, the agreement of the table of
  contents with the anchors of the rendered headings, and the fuel of \<^const>\<open>emit_toc\<close>.
\<close>

section \<open>Escaping\<close>

lemma esc_attr_char_append: "esc_attr_char c @ u = esc_attr_char d @ v \<longleftrightarrow> c = d \<and> u = v"
  by (auto simp: esc_attr_char_def split: if_splits)

lemma esc_text_char_append: "esc_text_char c @ u = esc_text_char d @ v \<longleftrightarrow> c = d \<and> u = v"
  by (auto simp: esc_text_char_def split: if_splits)

lemma esc_attr_char_not_Nil: "esc_attr_char c \<noteq> []"
  by (simp add: esc_attr_char_def)

lemma esc_text_char_not_Nil: "esc_text_char c \<noteq> []"
  by (simp add: esc_text_char_def)

lemma esc_attr_inject: "esc_attr s = esc_attr t \<longleftrightarrow> s = t"
proof (induction s arbitrary: t)
  case Nil
  then show ?case by (cases t) (simp_all add: esc_attr_def esc_attr_char_not_Nil)
next
  case (Cons c s)
  then show ?case
    by (cases t) (simp_all add: esc_attr_def esc_attr_char_not_Nil esc_attr_char_append)
qed

lemma esc_text_inject: "esc_text s = esc_text t \<longleftrightarrow> s = t"
proof (induction s arbitrary: t)
  case Nil
  then show ?case by (cases t) (simp_all add: esc_text_def esc_text_char_not_Nil)
next
  case (Cons c s)
  then show ?case
    by (cases t) (simp_all add: esc_text_def esc_text_char_not_Nil esc_text_char_append)
qed

lemma esc_attr_safe: "set (esc_attr s) \<inter> {CHR ''<'', CHR ''>'', CHR 0x22, CHR 0x27} = {}"
  by (induction s) (auto simp: esc_attr_def esc_attr_char_def)

lemma esc_text_safe: "set (esc_text s) \<inter> {CHR ''<'', CHR ''>''} = {}"
  by (induction s) (auto simp: esc_text_def esc_text_char_def)

section \<open>Slugs\<close>

lemma slug_blank: "c \<in> {CHR '' '', CHR 0x09} \<Longrightarrow> slug_step c s = slug_step CHR '' '' s"
  by (auto simp: slug_step_def is_alnum_def is_alpha_def is_lower_def is_upper_def is_digit_def)

lemma slug_space: "slug_step CHR '' '' s = (if s \<noteq> [] \<and> last s \<noteq> CHR ''-'' then s @ ''-'' else s)"
  by (auto simp: slug_step_def is_alnum_def is_alpha_def is_lower_def is_upper_def is_digit_def)

lemma strip_slug_space: "strip_dashes (slug_step CHR '' '' s) = strip_dashes s"
  by (simp add: slug_space strip_dashes_def)

lemma normalize_slug:
  assumes "CHR 0x0A \<notin> set s"
  shows "case fold clean_step s ('''', False) of (clean, pending) \<Rightarrow> (pending \<longrightarrow> clean \<noteq> []) \<and>
    fold slug_step s '''' = fold slug_step (clean @ (if pending then '' '' else '''')) ''''"
  using assms
proof (induction s rule: rev_induct)
  case (snoc ch s)
  obtain clean pending where st: "fold clean_step s ('''', False) = (clean, pending)" by fastforce
  have IH: "pending \<longrightarrow> clean \<noteq> []"
    "fold slug_step s '''' = fold slug_step (clean @ (if pending then '' '' else '''')) ''''"
    using snoc st by auto
  have F: "fold clean_step (s @ [ch]) ('''', False) = clean_step ch (clean, pending)"
    "fold slug_step (s @ [ch]) '''' = slug_step ch (fold slug_step s '''')"
    by (simp_all add: st)
  have idem: "slug_step CHR '' '' (slug_step CHR '' '' x) = slug_step CHR '' '' x" for x
    by (simp add: slug_space)
  show ?case
  proof (cases "ch \<in> {CHR '' '', CHR 0x09}")
    case True
    then have "clean_step ch (clean, pending) = (clean, clean \<noteq> [])" by (auto simp: clean_step_def)
    then show ?thesis
      unfolding F slug_blank [OF True] using IH idem
      by (cases "clean = []") (auto simp: slug_space)
  next
    case False
    then have "clean_step ch (clean, pending) = (clean @ (if pending then '' '' else '''') @ [ch], False)"
      using snoc.prems by (auto simp: clean_step_def)
    then show ?thesis unfolding F using IH by auto
  qed
qed simp

lemma slugify_normalize: "CHR 0x0A \<notin> set s \<Longrightarrow> slugify_heading (normalize_space s) = slugify_heading s"
proof -
  assume s: "CHR 0x0A \<notin> set s"
  obtain clean pending where st: "fold clean_step s ('''', False) = (clean, pending)" by fastforce
  have "fold slug_step s '''' = fold slug_step (clean @ (if pending then '' '' else '''')) ''''"
    using normalize_slug [OF s] by (simp add: st)
  then have "strip_dashes (fold slug_step s '''') = strip_dashes (fold slug_step clean '''')"
    by (cases pending) (simp_all add: strip_slug_space)
  then show ?thesis by (simp add: slugify_heading_def normalize_space_def st)
qed

text \<open>What a slug is made of, and that it is its own slug.\<close>

definition slug_char :: "char \<Rightarrow> bool" where
  "slug_char c \<longleftrightarrow> is_lower c \<or> is_digit c \<or> c \<in> {CHR ''-'', CHR ''_'', CHR ''.'', CHR ''~''}"

lemma lower_of_upper: "is_upper c \<Longrightarrow> is_lower (char_of (of_char c + 32 :: nat))"
  by (auto simp: is_upper_def is_lower_def less_eq_char_def of_char_of)

lemma not_upper: "is_lower c \<or> is_digit c \<or> c \<in> {CHR ''-'', CHR ''_'', CHR ''.'', CHR ''~''} \<Longrightarrow> \<not> is_upper c"
  by (auto simp: is_upper_def is_lower_def is_digit_def less_eq_char_def)

lemma to_lower_slug:
  assumes "is_alnum c \<or> c \<in> {CHR ''-'', CHR ''_'', CHR ''.'', CHR ''~''}"
  shows "slug_char (to_lower c)"
proof (cases "is_upper c")
  case True
  then show ?thesis unfolding slug_char_def to_lower_def using lower_of_upper [OF True] by simp
next
  case False
  then have "to_lower c = c" unfolding to_lower_def by simp
  with assms False show ?thesis unfolding slug_char_def is_alnum_def is_alpha_def by auto
qed

lemma slug_char_step: 
  assumes "slug_char c" shows "slug_step c s = s @ [c]"
proof -
  have "\<not> is_upper c" using assms not_upper unfolding slug_char_def by blast
  then have "to_lower c = c" unfolding to_lower_def by simp
  moreover have "is_alnum c \<or> c \<in> {CHR ''-'', CHR ''_'', CHR ''.'', CHR ''~''}"
    using assms unfolding slug_char_def is_alnum_def is_alpha_def by blast
  ultimately show ?thesis unfolding slug_step_def by simp
qed

lemma slug_fold_chars: "set s \<subseteq> Collect slug_char \<Longrightarrow> set (fold slug_step t s) \<subseteq> Collect slug_char"
proof (induction t arbitrary: s)
  case (Cons c t)
  have "slug_char CHR ''-''" unfolding slug_char_def by simp
  then have "set (slug_step c s) \<subseteq> Collect slug_char"
    using Cons.prems to_lower_slug [of c] unfolding slug_step_def by (simp split: if_splits)
  then show ?case using Cons.IH by simp
qed simp
lemma slug_fold_id: "set t \<subseteq> Collect slug_char \<Longrightarrow> fold slug_step t s = s @ t"
  by (induction t arbitrary: s) (simp_all add: slug_char_step)

lemma strip_dashes_set: "set (strip_dashes s) \<subseteq> set s"
  by (auto simp: strip_dashes_def dest: set_dropWhileD)

lemma strip_dashes_last: "strip_dashes s \<noteq> '''' \<Longrightarrow> last (strip_dashes s) \<noteq> CHR ''-''"
  using hd_dropWhile [of "\<lambda>c. c = CHR ''-''" "rev s"] unfolding strip_dashes_def by (simp only: last_rev rev_is_Nil_conv not_False_eq_True)


lemma strip_dashes_id: "s \<noteq> '''' \<Longrightarrow> last s \<noteq> CHR ''-'' \<Longrightarrow> strip_dashes s = s"
  by (cases s rule: rev_cases) (simp_all add: strip_dashes_def)

lemma slugify_props:
  "set (slugify_heading s) \<subseteq> Collect slug_char" "slugify_heading s \<noteq> ''''"
  "last (slugify_heading s) \<noteq> CHR ''-''"
proof -
  have "set (strip_dashes (fold slug_step s '''')) \<subseteq> Collect slug_char"
    using strip_dashes_set slug_fold_chars [of "''''" s] by fastforce
  moreover have "set ''section'' \<subseteq> Collect slug_char" by (simp add: slug_char_def is_lower_def)
  ultimately show "set (slugify_heading s) \<subseteq> Collect slug_char" "slugify_heading s \<noteq> ''''"
    "last (slugify_heading s) \<noteq> CHR ''-''"
    using strip_dashes_last [of "fold slug_step s ''''"] by (auto simp: slugify_heading_def Let_def)
qed

lemma slugify_idem: "slugify_heading (slugify_heading s) = slugify_heading s"
  using slugify_props [of s] strip_dashes_id [of "slugify_heading s"]
  by (simp add: slugify_heading_def [of "slugify_heading s"] slug_fold_id)

section \<open>Anchors of the rendered headings\<close>

fun anchors :: "(string \<Rightarrow> nat) \<Rightarrow> string list \<Rightarrow> string list \<times> (string \<Rightarrow> nat)" where
  "anchors counts [] = ([], counts)"
| "anchors counts (t # ts) =
     (let (a, counts) = make_anchor t counts; (as, counts) = anchors counts ts in (a # as, counts))"

lemma anchors_append:
  "anchors counts (ts @ us) =
     (let (as, counts) = anchors counts ts; (bs, counts) = anchors counts us in (as @ bs, counts))"
  by (induction ts arbitrary: counts) (auto simp: split_beta Let_def)

lemma anchors_slugs: "map slugify_heading ts = map slugify_heading us \<Longrightarrow> anchors counts ts = anchors counts us"
proof (induction ts arbitrary: us counts)
  case (Cons t ts)
  then obtain u us' where "us = u # us'" "slugify_heading t = slugify_heading u"
    "map slugify_heading ts = map slugify_heading us'" by (cases us) auto
  then show ?case using Cons.IH by (simp add: make_anchor_def)
qed simp

lemma assign_anchors_eq: "map h_anchor (assign_anchors counts hs) = fst (anchors counts (map h_text hs))"
  by (induction hs arbitrary: counts) (auto simp: split_beta Let_def)

text \<open>The texts of the headings below a node, and documents whose headings are all blocks.\<close>

fun titles :: "node \<Rightarrow> string list" where
  "titles (Node d cs) =
     (if n_type d = NHeading then [inline_plain_text (Node d cs)] else concat (map titles cs))"

lemma plain_text_eq: "heading_plain n = inline_plain_text n"
proof (induction n)
  case (Node d cs)
  then have "map heading_plain cs = map inline_plain_text cs" by simp
  then show ?case by (simp only: heading_plain.simps inline_plain_text.simps)
qed

lemma collect_titles: "map h_text (collect_headings n) = map normalize_space (titles n)"
proof (induction n)
  case (Node d cs)
  have "map heading_plain cs = map inline_plain_text cs" by (simp add: plain_text_eq cong: map_cong)
  from arg_cong [OF this, of concat]
  have "concat (map heading_plain cs) = concat (map inline_plain_text cs)" .
  moreover have "map (map h_text \<circ> collect_headings) cs = map (map normalize_space \<circ> titles) cs"
    using Node by simp
  from arg_cong [OF this, of concat]
  have "concat (map (map h_text \<circ> collect_headings) cs) = concat (map (map normalize_space \<circ> titles) cs)" .
  ultimately show ?case by (simp add: map_concat)
qed

function (sequential) block_ok :: "node \<Rightarrow> bool" and item_ok :: "bool \<Rightarrow> node list \<Rightarrow> bool" where
  "block_ok (Node d cs) \<longleftrightarrow>
     (if n_type d = NHeading then True
      else if n_type d \<in> {NParagraph, NCodeBlock, NHtmlBlock, NThematicBreak, NTable, NToc}
      then concat (map titles cs) = []
      else if n_type d = NList
      then list_all (\<lambda>li. n_type (nd li) \<noteq> NHeading \<and> item_ok True (kids li)) cs
      else list_all block_ok cs)"
| "item_ok first [] \<longleftrightarrow> True"
| "item_ok first (n # ns) \<longleftrightarrow>
     (if n_type (nd n) = NParagraph \<and> first \<or> n_type (nd n) \<noteq> NParagraph \<and> is_inline_node (n_type (nd n))
      then titles n = [] else block_ok n) \<and> item_ok False ns"
  by pat_completeness auto
termination
proof (relation "measure (\<lambda>x. case x of Inl n \<Rightarrow> size n | Inr (_, ns) \<Rightarrow> size_list size ns)")
  have k: "size_list size (kids n) < size n" for n by (cases n) simp
  have m: "n \<in> set ns \<Longrightarrow> size n \<le> size_list size ns" for n :: node and ns
    by (induction ns) auto
  show "((Inr (True, kids z)), Inl (Node d cs)) \<in> measure (\<lambda>x. case x of Inl n \<Rightarrow> size n | Inr (_, ns) \<Rightarrow> size_list size ns)"
    if "z \<in> set cs" for d cs z using k [of z] m [OF that] by simp
qed (auto simp: less_Suc_eq_le size_list_estimation')

definition id_attr :: "string \<Rightarrow> string" where
  "id_attr a = '' id='' @ quoted (esc_attr a) @ ''>''"

text \<open>From \<open>st\<close> to \<open>st'\<close> the anchors of \<open>ts\<close> were made and written.\<close>

definition tells :: "string list \<Rightarrow> html_state \<Rightarrow> html_state \<Rightarrow> bool" where
  "tells ts st st' \<longleftrightarrow> snd st' = snd (anchors (snd st) ts) \<and>
     (\<exists>ext. fst st' = fst st @ ext \<and> (\<forall>a \<in> set (fst (anchors (snd st) ts)). \<exists>u v. ext = u @ id_attr a @ v))"

lemma tells_put: "tells [] st (put s st)"
  by (auto simp: tells_def put_def split: prod.splits)

lemma tells_html_block: "tells [] st (put_html_block s st)"
  by (auto simp: tells_def put_html_block_def Let_def split: prod.splits)

lemma tells_none:
  "\<forall>n \<in> set cs. titles n = [] \<Longrightarrow> tells (concat (map titles cs)) st (put s st)"
  "\<forall>n \<in> set cs. titles n = [] \<Longrightarrow> tells (concat (map titles cs)) st (put_html_block s st)"
proof -
  assume "\<forall>n \<in> set cs. titles n = []"
  then have "concat (map titles cs) = []" by simp
  then show "tells (concat (map titles cs)) st (put s st)" "tells (concat (map titles cs)) st (put_html_block s st)"
    using tells_put tells_html_block by (simp_all only:)
qed

lemma tells_refl: "tells [] st st"
  by (simp add: tells_def)

lemma tells_trans:
  assumes "tells ts st st1" "tells us st1 st2"
  shows "tells (ts @ us) st st2"
proof -
  obtain e1 where 1: "snd st1 = snd (anchors (snd st) ts)" "fst st1 = fst st @ e1"
    "\<forall>a \<in> set (fst (anchors (snd st) ts)). \<exists>u v. e1 = u @ id_attr a @ v"
    using assms(1) by (auto simp: tells_def)
  obtain e2 where 2: "snd st2 = snd (anchors (snd st1) us)" "fst st2 = fst st1 @ e2"
    "\<forall>a \<in> set (fst (anchors (snd st1) us)). \<exists>u v. e2 = u @ id_attr a @ v"
    using assms(2) by (auto simp: tells_def)
  have "anchors (snd st) (ts @ us) =
      (fst (anchors (snd st) ts) @ fst (anchors (snd st1) us), snd (anchors (snd st1) us))"
    by (simp add: anchors_append split_beta Let_def 1(1))
  moreover have "\<exists>u v. e1 @ e2 = u @ id_attr a @ v"
    if "a \<in> set (fst (anchors (snd st) ts)) \<union> set (fst (anchors (snd st1) us))" for a
    using that 1(3) 2(3) by (metis UnE append.assoc)
  ultimately show ?thesis using 1(2) 2(1,2) by (auto simp: tells_def)
qed

lemma tells_put_after: "tells ts st st' \<Longrightarrow> tells ts st (put s st')"
  using tells_trans [OF _ tells_put, of ts st st' s] by simp

lemma tells_put_before: "tells ts (put s st) st' \<Longrightarrow> tells ts st st'"
  using tells_trans [OF tells_put, of ts s st st'] by simp

lemma tells_heading: "tells [inline_plain_text (Node d cs)] st (open_heading d cs st)"
proof -
  obtain out counts where st: "st = (out, counts)" by fastforce
  obtain a counts' where a: "make_anchor (inline_plain_text (Node d cs)) counts = (a, counts')" by fastforce
  have "open_heading d cs st = (out @ (''<h'' @ dec_of_int (n_level d)) @ id_attr a @ '''', counts')"
    by (simp add: open_heading_def st a id_attr_def del: inline_plain_text.simps)
  then show ?thesis
    by (auto simp: tells_def st a simp del: inline_plain_text.simps
        intro: exI [of _ "''<h'' @ dec_of_int (n_level d)"])
qed

lemma render_tells:
  "block_ok n \<Longrightarrow> tells (titles n) st (render_block opts hs n st)"
  "list_all block_ok ns \<Longrightarrow> tells (concat (map titles ns)) st (render_blocks opts hs ns st)"
  "list_all (\<lambda>li. n_type (nd li) \<noteq> NHeading \<and> item_ok True (kids li)) ns \<Longrightarrow>
     tells (concat (map titles ns)) st (render_items opts hs ns st)"
  "item_ok first ns \<Longrightarrow> tells (concat (map titles ns)) st (render_item opts hs first ns st)"
proof (induction opts hs n st and opts hs ns st and opts hs ns st and opts hs first ns st
    rule: render_block_render_blocks_render_items_render_item.induct)
  case (1 opts hs d cs st)
  show ?case
  proof (cases "n_type d")
    case NHeading
    then show ?thesis
      using tells_put_after [OF tells_heading [of d cs st]] by (simp del: inline_plain_text.simps)
  qed (use 1 in \<open>auto intro: tells_none tells_put_after tells_put_before\<close>)
next
  case (3 opts hs n ns st)
  then show ?case by (auto intro: tells_trans)
next
  case (5 opts hs d cs ns st)
  then have "tells (concat (map titles cs)) st (put (''</li>'' @ [newline])
      (render_item opts hs True cs (put (item_open d) st)))"
    by (auto intro: tells_put_after tells_put_before)
  with 5 show ?case by (auto intro: tells_trans)
next
  case (7 opts hs first n ns st)
  let ?st = "if n_type (nd n) = NParagraph \<and> first then put (render_inlines opts (kids n)) st
        else if n_type (nd n) \<noteq> NParagraph \<and> is_inline_node (n_type (nd n)) then put (render_inline opts n) st
        else render_block opts hs n st"
  have "tells (titles n) st ?st" using 7 by (auto intro: tells_put)
  moreover have "tells (concat (map titles ns)) ?st (render_item opts hs False ns ?st)"
    using 7 by simp
  ultimately show ?case by (simp only: render_item.simps concat.simps list.map tells_trans)
qed (simp_all add: tells_refl)

end
