(* ===== verification/Markdown_Toc.thy ===== *)
theory Markdown_Toc
  imports Markdown_Render
begin

text \<open>
  The table of contents (\<^verbatim>\<open>emit_toc\<close> and \<^verbatim>\<open>render_toc_html\<close> of \<^verbatim>\<open>gui/markdown/markdown_html.cpp\<close>):
  the fuel the model gives the recursion is enough, and every entry is reached from a root.
\<close>

section \<open>The forest of entries\<close>

lemma toc_parent_less: "toc_parent levels i = Some p \<Longrightarrow> p < i"
  by (auto simp: toc_parent_def dest: find_Some_set)

lemma toc_children_iff:
  "c \<in> set (toc_children levels i) \<longleftrightarrow> c < length levels \<and> toc_parent levels c = Some i"
  by (auto simp: toc_children_def)

lemma toc_children_greater: "c \<in> set (toc_children levels i) \<Longrightarrow> i < c \<and> c < length levels"
  using toc_parent_less by (auto simp: toc_children_iff)

abbreviation toc_below :: "int list \<Rightarrow> nat \<Rightarrow> nat \<Rightarrow> bool" where
  "toc_below levels \<equiv> (\<lambda>i c. c \<in> set (toc_children levels i))\<^sup>*\<^sup>*"

lemma toc_below_step:
  assumes "toc_below levels i j" "j \<noteq> i"
  shows "\<exists>c. c \<in> set (toc_children levels i) \<and> toc_below levels c j"
  using assms(1)
proof (cases rule: converse_rtranclpE)
  case base
  with assms(2) show ?thesis by simp
next
  case (step c)
  then show ?thesis by (intro exI [of _ c] conjI)
qed

lemma toc_reached: "j < length levels \<Longrightarrow> \<exists>r \<in> set (toc_roots levels). toc_below levels r j"
proof (induction j rule: less_induct)
  case (less j)
  show ?case
  proof (cases "toc_parent levels j")
    case None
    then show ?thesis using less.prems by (auto simp: toc_roots_def)
  next
    case (Some p)
    then have p: "p < j" "j \<in> set (toc_children levels p)"
      using toc_parent_less less.prems by (auto simp: toc_children_iff)
    then obtain r where "r \<in> set (toc_roots levels)" "toc_below levels r p"
      using less.IH [OF p(1)] less.prems by auto
    with p(2) show ?thesis by (meson rtranclp.rtrancl_into_rtrancl)
  qed
qed

section \<open>Fuel\<close>

text \<open>One more unit of fuel than entries from \<open>i\<close> on changes nothing.\<close>

lemma fold_cong_set: "(\<And>x s. x \<in> set xs \<Longrightarrow> f x s = g x s) \<Longrightarrow> fold f xs s = fold g xs s"
  by (rule fold_cong) auto

lemma emit_toc_fuel:
  assumes "i < length hs" "length hs \<le> fuel + i" "length hs \<le> fuel' + i"
  shows "emit_toc fuel hs i depth counters = emit_toc fuel' hs i depth counters"
  using assms
proof (induction fuel arbitrary: fuel' i depth counters)
  case (Suc fuel)
  obtain f' where f': "fuel' = Suc f'" using Suc.prems by (cases fuel') auto
  have "emit_toc fuel hs c (depth + 1) counters = emit_toc f' hs c (depth + 1) counters"
    if "c \<in> set (toc_children (map h_level hs) i)" for c counters
    using toc_children_greater [OF that] Suc.prems by (intro Suc.IH) (auto simp: f')
  then have "fold (\<lambda>c (counters, out).
        let (counters, s) = emit_toc fuel hs c (depth + 1) counters in (counters, out @ s)) (toc_children (map h_level hs) i) st =
      fold (\<lambda>c (counters, out).
        let (counters, s) = emit_toc f' hs c (depth + 1) counters in (counters, out @ s)) (toc_children (map h_level hs) i) st" for st
    by (intro fold_cong_set) (auto split: prod.splits)
  then show ?case by (simp only: f' emit_toc.simps Let_def)
qed auto

section \<open>Every entry is written\<close>

definition toc_link :: "heading \<Rightarrow> string" where
  "toc_link h = ''<a href='' @ quoted (CHR ''#'' # esc_attr (h_anchor h)) @ ''>''"

definition has_part :: "string \<Rightarrow> string \<Rightarrow> bool" where
  "has_part s t \<longleftrightarrow> (\<exists>u v. t = u @ s @ v)"

lemma has_part_append: "has_part s t \<Longrightarrow> has_part s (u @ t @ v)"
  unfolding has_part_def by (metis append.assoc)

lemma has_part_append1: "has_part s t \<Longrightarrow> has_part s (u @ t)"
  using has_part_append [of s t u "[]"] by simp

lemma has_part_append2: "has_part s t \<Longrightarrow> has_part s (t @ v)"
  using has_part_append [of s t "[]" v] by simp

lemma fold_out_grows:
  assumes "\<And>x counters. \<exists>c' s. f x counters = (c', s)"
  shows "\<exists>counters' ext. fold (\<lambda>x (counters, out). let (counters, s) = f x counters in (counters, out @ s)) xs (counters, out) =
    (counters', out @ ext)"
proof (induction xs arbitrary: counters out)
  case (Cons x xs)
  then show ?case by (simp add: split_beta Let_def) (metis append.assoc)
qed simp

lemma fold_has_part:
  assumes "x \<in> set xs" "\<And>counters. has_part t (snd (f x counters))"
  shows "has_part t (snd (fold (\<lambda>x (counters, out). let (counters, s) = f x counters in (counters, out @ s)) xs (counters, out)))"
proof -
  obtain ys zs where xs: "xs = ys @ x # zs" using split_list [OF assms(1)] by blast
  let ?g = "\<lambda>x (counters, out). let (counters, s) = f x counters in (counters, out @ s)"
  obtain c1 o1 where 1: "fold ?g ys (counters, out) = (c1, o1)" by fastforce
  obtain c2 s where 2: "f x c1 = (c2, s)" by fastforce
  obtain c3 e where 3: "fold ?g zs (c2, o1 @ s) = (c3, (o1 @ s) @ e)"
    using fold_out_grows [of f zs c2 "o1 @ s"] by (metis surj_pair)
  have "fold ?g xs (counters, out) = (c3, (o1 @ s) @ e)"
    using 1 2 3 by (simp add: xs)
  moreover have "has_part t s" using assms(2) [of c1] 2 by simp
  ultimately show ?thesis by (simp add: has_part_append)
qed

lemma emit_toc_has_part:
  assumes "toc_below (map h_level hs) i j" "i < length hs" "length hs \<le> fuel + i"
  shows "has_part (toc_link (hs ! j)) (snd (emit_toc fuel hs i depth counters))"
  using assms
proof (induction fuel arbitrary: i depth counters)
  case (Suc fuel)
  let ?cs = "toc_children (map h_level hs) i" and ?n = "bump depth counters"
  let ?num = "join_dots (take (depth + 1) ?n)"
  let ?inner = "snd (fold (\<lambda>c (counters, out).
      let (counters, s) = emit_toc fuel hs c (depth + 1) counters in (counters, out @ s)) ?cs (?n, ''''))"
  have e: "snd (emit_toc (Suc fuel) hs i depth counters) =
      ''<li><span class='' @ quoted ''toc-row'' @ ''>'' @ toc_link (hs ! i) @ esc_text (?num @ ''. '' @ h_text (hs ! i)) @
      ''</a></span>'' @ (if ?cs = [] then '''' else ''<ol>'' @ ?inner @ ''</ol>'') @ ''</li>''"
    by (simp only: emit_toc.simps split_beta Let_def toc_link_def snd_conv fst_conv append_Cons append_Nil append_assoc)
  show ?case
  proof (cases "j = i")
    case True
    have "has_part (toc_link (hs ! i)) (toc_link (hs ! i))" unfolding has_part_def by (metis append_Nil append_Nil2)
    then show ?thesis
      unfolding e True by (intro has_part_append1 has_part_append2)
  next
    case False
    then obtain c where c: "c \<in> set ?cs" "toc_below (map h_level hs) c j"
      using toc_below_step [OF Suc.prems(1)] by blast
    have "c < length hs" "length hs \<le> fuel + c"
      using toc_children_greater [OF c(1)] Suc.prems(3) by simp_all
    then have "has_part (toc_link (hs ! j)) (snd (emit_toc fuel hs c (depth + 1) counters))" for counters
      by (rule Suc.IH [OF c(2)])
    then have "has_part (toc_link (hs ! j)) ?inner" using c(1) by (rule fold_has_part [rotated])
    then obtain u v where uv: "?inner = u @ toc_link (hs ! j) @ v" by (auto simp only: has_part_def)
    have "?cs \<noteq> []" using c(1) by auto
    then show ?thesis
      unfolding e has_part_def uv
      by (intro exI [of _ "''<li><span class='' @ quoted ''toc-row'' @ ''>'' @ toc_link (hs ! i) @
          esc_text (?num @ ''. '' @ h_text (hs ! i)) @ ''</a></span><ol>'' @ u"] exI [of _ "v @ ''</ol></li>''"]) simp
  qed
qed auto

lemma toc_entries_has_part:
  assumes "h \<in> set hs"
  shows "has_part (toc_link h) (toc_entries hs)"
proof -
  obtain j where j: "j < length hs" "hs ! j = h" using assms by (auto simp: in_set_conv_nth)
  then obtain r where r: "r \<in> set (toc_roots (map h_level hs))" "toc_below (map h_level hs) r j"
    using toc_reached [of j "map h_level hs"] by auto
  then have "r < length hs" by (simp add: toc_roots_def)
  then have "has_part (toc_link h) (snd (emit_toc (length hs) hs r 0 counters))" for counters
    using emit_toc_has_part [OF r(2)] j(2) by simp
  then show ?thesis unfolding toc_entries_def by (rule fold_has_part [OF r(1)])
qed

section \<open>Anchors of the body\<close>

lemma heading_anchor_in_body:
  assumes "list_all block_ok (kids doc)" "n_type (nd doc) \<noteq> NHeading"
    and "\<forall>t \<in> set (concat (map titles (kids doc))). newline \<notin> set t" "h \<in> set (headings doc)"
  shows "has_part (id_attr (h_anchor h)) (render_html_body opts doc)"
proof -
  obtain d cs where doc: "doc = Node d cs" by (cases doc)
  let ?ts = "concat (map titles cs)"
  have "titles doc = ?ts" using assms(2) by (simp add: doc)
  then have t: "map h_text (collect_headings doc) = map normalize_space ?ts" by (simp only: collect_titles)
  have s: "map slugify_heading (map normalize_space ?ts) = map slugify_heading ?ts"
    using assms(3) slugify_normalize by (auto simp: doc newline_def)
  have a: "map h_anchor (headings doc) = fst (anchors (\<lambda>_. 0) ?ts)"
    unfolding headings_def assign_anchors_eq t by (rule arg_cong [OF anchors_slugs [OF s], of fst])
  have "h_anchor h \<in> set (fst (anchors (\<lambda>_. 0) ?ts))"
    unfolding a [symmetric] using assms(4) by simp
  moreover have "tells ?ts ('''', \<lambda>_. 0) (render_blocks opts (headings doc) cs ('''', \<lambda>_. 0))"
    using assms(1) by (intro render_tells(2)) (simp add: doc)
  then obtain ext where "fst (render_blocks opts (headings doc) cs ('''', \<lambda>_. 0)) = ext"
    "\<forall>a \<in> set (fst (anchors (\<lambda>_. 0) ?ts)). has_part (id_attr a) ext"
    unfolding tells_def fst_conv snd_conv has_part_def by auto
  ultimately show ?thesis
    unfolding render_html_body_def doc by simp
qed

end
