(* ===== verification/Document_Properties.thy ===== *)
theory Document_Properties
  imports Markdown_Toc
begin

text \<open>
  Properties of the Markdown documents: the tree built from the parser's events, the HTML, its
  anchors and the table of contents.
\<close>

section \<open>The tree\<close>

text \<open>C8: For a document whose blocks and spans are well nested, with thematic breaks at the top level only, the
  callbacks build exactly the tree the document stands for: every block and span a node with its contents, verbatim
  text collected, table columns aligned, line breaks as leaves, and a lone \<^verbatim>\<open>[[TOC]]\<close> paragraph turned into a
  table of contents.\<close>

theorem parse_document:
  assumes "list_all top_ok ds"
  shows "parse_events (events_of (DBlock MD_DOC ds)) =
    Some (Node (node_default\<lparr>n_type := NRoot\<rparr>) (map mark_toc (concat (map ast_of ds))))"
  using assms by (rule parse_document_marked)

lemma parse_document_witness:
  "parse_events (events_of (DBlock MD_DOC [DBlock (MD_H 1) [DText MD_NORMAL ''Hi''], DBlock MD_HR [],
      DBlock MD_P [DSpan MD_EM [DText MD_NORMAL ''a''], DText MD_SOFTBR '''']])) =
   Some (Node (node_default\<lparr>n_type := NRoot\<rparr>)
     [Node (node_default\<lparr>n_type := NHeading, n_level := 1\<rparr>) [Node (text_leaf NText ''Hi'') []],
      Node (node_default\<lparr>n_type := NThematicBreak\<rparr>) [],
      Node (node_default\<lparr>n_type := NParagraph\<rparr>)
        [Node (node_default\<lparr>n_type := NEmphasis\<rparr>) [Node (text_leaf NText ''a'') []],
         Node (node_default\<lparr>n_type := NSoftBreak\<rparr>) []]])"
  by (subst parse_document)
    (simp_all add: top_ok_def verbatim_data_def block_data_def span_data_def verbatim_type_def container_def
      text_node_def mark_toc_def node_default_def text_leaf_def)

text \<open>A thematic break inside a block quote ends the quote in the tree: its own leave event closes the node above
  it, so what follows in the quote becomes a child of the document.\<close>

theorem break_ends_quote:
  "parse_events (events_of (DBlock MD_DOC [DBlock MD_QUOTE [DBlock MD_HR [], DBlock MD_P [DText MD_NORMAL s]]])) =
   Some (Node (node_default\<lparr>n_type := NRoot\<rparr>)
     [Node (node_default\<lparr>n_type := NBlockQuote\<rparr>) [Node (node_default\<lparr>n_type := NThematicBreak\<rparr>) []],
      mark_toc (Node (node_default\<lparr>n_type := NParagraph\<rparr>) [Node (text_leaf NText s) []])])"
  by (simp add: parse_events_def on_event_def on_enter_block_def on_leave_block_def on_text_def empty_builder_def
      b_verbatim_def b_top_def b_close_def b_open_def b_leaf_def b_add_def b_parent_def block_data_def Let_def
      verbatim_type_def text_leaf_def node_default_def mark_toc_nodes_def is_toc_child_def mark_toc_def)

section \<open>HTML\<close>

text \<open>Escaping loses nothing and lets nothing through: different texts have different escapes, and no escape holds
  an angle bracket, nor in an attribute a quote.\<close>

theorem escapes_safe:
  "(esc_text s = esc_text t \<longleftrightarrow> s = t) \<and> (esc_attr s = esc_attr t \<longleftrightarrow> s = t) \<and>
   set (esc_text s) \<inter> {CHR ''<'', CHR ''>''} = {} \<and>
   set (esc_attr s) \<inter> {CHR ''<'', CHR ''>'', CHR 0x22, CHR 0x27} = {}"
  using esc_text_inject esc_attr_inject esc_text_safe esc_attr_safe by simp

text \<open>A heading's slug is never empty, does not end in a dash, has only lower-case letters, digits and the marks of
  a slug, and is its own slug; blanks between words count as one.\<close>

theorem slug_canonical:
  "slugify_heading s \<noteq> '''' \<and> last (slugify_heading s) \<noteq> CHR ''-'' \<and>
   (\<forall>c \<in> set (slugify_heading s). slug_char c) \<and> slugify_heading (slugify_heading s) = slugify_heading s \<and>
   (CHR 0x0A \<notin> set s \<longrightarrow> slugify_heading (normalize_space s) = slugify_heading s)"
  using slugify_props [of s] slugify_idem slugify_normalize by auto

lemma slug_canonical_witness: "slugify_heading (normalize_space ''a  b'') = slugify_heading ''a  b''"
  using slug_canonical [of "''a  b''"] by simp

section \<open>Table of contents\<close>

text \<open>C9: Every heading of the document up to the depth of the table of contents is linked there, and the target of the
  link is an identifier in the body, provided headings are blocks of their own, as Markdown has them, and their texts
  hold no newline.\<close>

theorem toc_links_resolve:
  assumes "list_all block_ok (kids doc)" "n_type (nd doc) \<noteq> NHeading"
    and "\<forall>t \<in> set (concat (map titles (kids doc))). newline \<notin> set t" "h \<in> set (headings doc)" "h_level h \<le> depth"
  shows "has_part (toc_link h) (render_toc_html (headings doc) depth) \<and>
    has_part (id_attr (h_anchor h)) (render_html_body opts doc)"
proof -
  have "has_part (toc_link h) (toc_entries (filter (\<lambda>h. h_level h \<le> depth) (headings doc)))"
    using assms(4,5) by (intro toc_entries_has_part) simp
  then have "has_part (toc_link h) (render_toc_html (headings doc) depth)"
    unfolding render_toc_html_def by (intro has_part_append1 has_part_append2)
  then show ?thesis using heading_anchor_in_body [OF assms(1-4)] by simp
qed

definition demo_doc :: node where
  "demo_doc = Node (node_default\<lparr>n_type := NRoot\<rparr>)
     [Node (node_default\<lparr>n_type := NHeading, n_level := 1\<rparr>) [Node (text_leaf NText ''Hi'') []]]"

lemma toc_links_resolve_witness:
  "has_part (toc_link \<lparr>h_level = 1, h_text = ''Hi'', h_anchor = ''hi''\<rparr>) (render_toc_html (headings demo_doc) 6) \<and>
   has_part (id_attr ''hi'') (render_html_body \<lparr>toc_max_depth = 6, resolve_asset = None\<rparr> demo_doc)"
proof -
  have h: "headings demo_doc = [\<lparr>h_level = 1, h_text = ''Hi'', h_anchor = ''hi''\<rparr>]" by code_simp
  have t: "list_all block_ok (kids demo_doc)" "n_type (nd demo_doc) \<noteq> NHeading"
    "\<forall>t \<in> set (concat (map titles (kids demo_doc))). newline \<notin> set t"
    by (simp_all add: demo_doc_def node_default_def text_leaf_def newline_def)
  from toc_links_resolve [OF t, of "\<lparr>h_level = 1, h_text = ''Hi'', h_anchor = ''hi''\<rparr>" 6] show ?thesis
    by (simp add: h)
qed

text \<open>The fuel of the table of contents is enough: once there is as much of it as entries from \<open>i\<close> on, more makes
  no difference, so the recursion of \<^verbatim>\<open>emit_toc\<close> ends.\<close>

theorem emit_toc_terminates:
  assumes "i < length hs" "length hs \<le> fuel + i"
  shows "emit_toc fuel hs i depth counters = emit_toc (length hs) hs i depth counters"
  by (rule emit_toc_fuel) (use assms in simp_all)

lemma emit_toc_terminates_witness:
  "emit_toc 5 [\<lparr>h_level = 1, h_text = ''a'', h_anchor = ''a''\<rparr>] 0 0 [] =
   emit_toc 1 [\<lparr>h_level = 1, h_text = ''a'', h_anchor = ''a''\<rparr>] 0 0 []"
  using emit_toc_terminates [of 0 "[\<lparr>h_level = 1, h_text = ''a'', h_anchor = ''a''\<rparr>]" 5 0 "[]"]
  by (simp del: emit_toc.simps)

text \<open>Numbers below the first level run on from one chapter to the next, since the counters of deeper levels are
  never reset: the section of a second chapter is 2.2, not 2.1.\<close>

theorem toc_numbers_run_on:
  "contains ''2.2. d'' (toc_entries
      [\<lparr>h_level = 1, h_text = ''a'', h_anchor = ''a''\<rparr>, \<lparr>h_level = 2, h_text = ''b'', h_anchor = ''b''\<rparr>,
       \<lparr>h_level = 1, h_text = ''c'', h_anchor = ''c''\<rparr>, \<lparr>h_level = 2, h_text = ''d'', h_anchor = ''d''\<rparr>]) \<and>
   \<not> contains ''2.1. d'' (toc_entries
      [\<lparr>h_level = 1, h_text = ''a'', h_anchor = ''a''\<rparr>, \<lparr>h_level = 2, h_text = ''b'', h_anchor = ''b''\<rparr>,
       \<lparr>h_level = 1, h_text = ''c'', h_anchor = ''c''\<rparr>, \<lparr>h_level = 2, h_text = ''d'', h_anchor = ''d''\<rparr>])"
  by code_simp

end
