(* ===== verification/Floating.thy ===== *)
theory Floating
  imports Prelude "HOL-Library.Log_Nat"
begin

text \<open>
  The arithmetic of \<^verbatim>\<open>double\<close> and \<^verbatim>\<open>float\<close> that the style sheet, the layout and the paginator
  use: the exact result rounded to nearest, ties to even (IEEE 754 binary64 and binary32).  The
  two zeros are one value, since the code never divides by a zero or prints one.
\<close>

section \<open>Rounding\<close>

text \<open>The binary exponent of a positive number.\<close>

definition ilog2 :: "rat \<Rightarrow> int" where
  "ilog2 x = (let (a, b) = quotient_of x; k = bitlen a - bitlen b
              in if 2 powi k \<le> x then k else k - 1)"

definition round_even :: "rat \<Rightarrow> int" where
  "round_even x = (let f = \<lfloor>x\<rfloor>; d = x - of_int f
                   in if d < 1 / 2 then f else if 1 / 2 < d then f + 1
                      else if even f then f else f + 1)"

text \<open>The exponent of the last of \<open>p\<close> bits, at least \<open>emin\<close>.\<close>

definition ulp_exp :: "int \<Rightarrow> int \<Rightarrow> rat \<Rightarrow> int" where
  "ulp_exp p emin x = max (ilog2 x + 1 - p) emin"

definition round_mag :: "int \<Rightarrow> int \<Rightarrow> rat \<Rightarrow> rat" where
  "round_mag p emin x = (let e = ulp_exp p emin x in of_int (round_even (x / 2 powi e)) * 2 powi e)"

definition round_bin :: "int \<Rightarrow> int \<Rightarrow> int \<Rightarrow> rat \<Rightarrow> dbl" where
  "round_bin p emin emax x =
     (if x = 0 then Fin 0
      else let r = round_mag p emin \<bar>x\<bar>
           in if 2 powi emax \<le> r then (if x < 0 then NegInf else PosInf)
              else Fin (if x < 0 then - r else r))"

definition round64 :: "rat \<Rightarrow> dbl" where
  "round64 = round_bin 53 (- 1074) 1024"

definition round32 :: "rat \<Rightarrow> dbl" where
  "round32 = round_bin 24 (- 149) 128"

section \<open>Operations\<close>

definition dbl_le :: "dbl \<Rightarrow> dbl \<Rightarrow> bool" where
  "dbl_le a b \<longleftrightarrow> dbl_less a b \<or> a = b \<and> a \<noteq> NaN"

fun dbl_neg :: "dbl \<Rightarrow> dbl" where
  "dbl_neg (Fin a) = Fin (- a)"
| "dbl_neg PosInf = NegInf"
| "dbl_neg NegInf = PosInf"
| "dbl_neg NaN = NaN"

fun dbl_add :: "dbl \<Rightarrow> dbl \<Rightarrow> dbl" where
  "dbl_add (Fin a) (Fin b) = round64 (a + b)"
| "dbl_add NaN _ = NaN"
| "dbl_add _ NaN = NaN"
| "dbl_add PosInf NegInf = NaN"
| "dbl_add NegInf PosInf = NaN"
| "dbl_add PosInf _ = PosInf"
| "dbl_add _ PosInf = PosInf"
| "dbl_add NegInf _ = NegInf"
| "dbl_add _ NegInf = NegInf"

definition dbl_sub :: "dbl \<Rightarrow> dbl \<Rightarrow> dbl" where
  "dbl_sub a b = dbl_add a (dbl_neg b)"

fun dbl_sign :: "dbl \<Rightarrow> int" where
  "dbl_sign (Fin a) = (if a < 0 then - 1 else if a = 0 then 0 else 1)"
| "dbl_sign PosInf = 1"
| "dbl_sign NegInf = - 1"
| "dbl_sign NaN = 0"

definition inf_of_sign :: "int \<Rightarrow> dbl" where
  "inf_of_sign s = (if s = 0 then NaN else if s < 0 then NegInf else PosInf)"

definition mul_by :: "(rat \<Rightarrow> dbl) \<Rightarrow> dbl \<Rightarrow> dbl \<Rightarrow> dbl" where
  "mul_by rnd a b =
     (case (a, b) of
        (Fin x, Fin y) \<Rightarrow> rnd (x * y)
      | _ \<Rightarrow> if a = NaN \<or> b = NaN then NaN else inf_of_sign (dbl_sign a * dbl_sign b))"

text \<open>Division by a number that is not zero.\<close>

definition div_by :: "(rat \<Rightarrow> dbl) \<Rightarrow> dbl \<Rightarrow> dbl \<Rightarrow> dbl" where
  "div_by rnd a b =
     (case (a, b) of
        (Fin x, Fin y) \<Rightarrow> rnd (x / y)
      | (NaN, _) \<Rightarrow> NaN
      | (_, NaN) \<Rightarrow> NaN
      | (Fin _, _) \<Rightarrow> Fin 0
      | (_, Fin y) \<Rightarrow> inf_of_sign (dbl_sign a * dbl_sign b)
      | _ \<Rightarrow> NaN)"

abbreviation dbl_mul :: "dbl \<Rightarrow> dbl \<Rightarrow> dbl" where
  "dbl_mul \<equiv> mul_by round64"

abbreviation dbl_div :: "dbl \<Rightarrow> dbl \<Rightarrow> dbl" where
  "dbl_div \<equiv> div_by round64"

abbreviation flt_mul :: "dbl \<Rightarrow> dbl \<Rightarrow> dbl" where
  "flt_mul \<equiv> mul_by round32"

abbreviation flt_div :: "dbl \<Rightarrow> dbl \<Rightarrow> dbl" where
  "flt_div \<equiv> div_by round32"

text \<open>\<^verbatim>\<open>static_cast<float>\<close>\<close>

fun to_flt :: "dbl \<Rightarrow> dbl" where
  "to_flt (Fin a) = round32 a"
| "to_flt d = d"

text \<open>\<^verbatim>\<open>std::max\<close>, \<^verbatim>\<open>std::min\<close> and \<^verbatim>\<open>std::clamp\<close>, which compare with \<open><\<close> only\<close>

definition dbl_max :: "dbl \<Rightarrow> dbl \<Rightarrow> dbl" where
  "dbl_max a b = (if dbl_less a b then b else a)"

definition dbl_clamp :: "dbl \<Rightarrow> dbl \<Rightarrow> dbl \<Rightarrow> dbl" where
  "dbl_clamp v lo hi = (if dbl_less v lo then lo else if dbl_less hi v then hi else v)"

text \<open>
  \<^verbatim>\<open>static_cast<int>\<close> of a number: towards zero.  It is undefined for a NaN or beyond 32 bits;
  \<open>undef\<close> is what the machine gives there.
\<close>

definition int_of_dbl :: "i32 \<Rightarrow> dbl \<Rightarrow> i32" where
  "int_of_dbl undef d =
     (case d of
        Fin x \<Rightarrow> (let n = (if x < 0 then - \<lfloor>- x\<rfloor> else \<lfloor>x\<rfloor>)
                  in if - (2 ^ 31) \<le> n \<and> n < 2 ^ 31 then word_of_int n else undef)
      | _ \<Rightarrow> undef)"

section \<open>Laws of rounding\<close>

lemma quotient_of_pos: "0 < x \<Longrightarrow> quotient_of x = (a, b) \<Longrightarrow> 0 < a \<and> 0 < b \<and> x = of_int a / of_int b"
  using quotient_of_div [of x a b] quotient_of_denom_pos [of x a b]
  by (auto simp: zero_less_divide_iff)

lemma bitlen_powi:
  assumes "0 < a"
  shows "2 powi (bitlen a - 1) \<le> (of_int a :: rat)" "(of_int a :: rat) < 2 powi bitlen a"
proof -
  have b: "2 ^ nat (bitlen a - 1) \<le> a" "a < 2 ^ nat (bitlen a)" "0 < bitlen a"
    using bitlen_bounds [OF assms] assms by (auto simp: bitlen_alt_def)
  have "(of_int (2 ^ nat (bitlen a - 1)) :: rat) \<le> of_int a" "(of_int a :: rat) < of_int (2 ^ nat (bitlen a))"
    using b(1,2) by (simp_all only: of_int_le_iff of_int_less_iff)
  then show "2 powi (bitlen a - 1) \<le> (of_int a :: rat)" "(of_int a :: rat) < 2 powi bitlen a"
    using b(3) by (simp_all add: power_int_def)
qed

lemma ilog2_bounds:
  assumes "0 < x"
  shows "2 powi ilog2 x \<le> x" "x < 2 powi (ilog2 x + 1)"
proof -
  obtain a b where q: "quotient_of x = (a, b)" by fastforce
  note ab = quotient_of_pos [OF assms q]
  let ?k = "bitlen a - bitlen b"
  have "of_int a < (2 :: rat) powi bitlen a" "2 powi (bitlen b - 1) \<le> (of_int b :: rat)"
    "2 powi (bitlen a - 1) \<le> (of_int a :: rat)" "of_int b < (2 :: rat) powi bitlen b"
    using bitlen_powi ab by blast+
  then have "x < 2 powi bitlen a / 2 powi (bitlen b - 1)" "2 powi (bitlen a - 1) / 2 powi bitlen b < x"
    using ab frac_less [of "of_int a" "2 powi bitlen a" "2 powi (bitlen b - 1)" "of_int b"]
      frac_less2 [of "2 powi (bitlen a - 1)" "of_int a" "of_int b" "2 powi bitlen b"] by simp_all
  then have "x < 2 powi (?k + 1)" "2 powi (?k - 1) \<le> x"
    by (simp_all flip: power_int_diff add: algebra_simps less_imp_le)
  then show "2 powi ilog2 x \<le> x" "x < 2 powi (ilog2 x + 1)"
    by (auto simp: ilog2_def q Let_def)
qed

lemma powi_mono: "m \<le> n \<Longrightarrow> (2 :: rat) powi m \<le> 2 powi n"
  by (rule power_int_increasing) simp_all

lemma powi_less_cancel: "(2 :: rat) powi m < 2 powi n \<Longrightarrow> m < n"
  using powi_mono [of n m] by linarith

lemma ilog2_unique:
  assumes "2 powi k \<le> x" "x < 2 powi (k + 1)"
  shows "ilog2 x = k"
proof -
  have "(0 :: rat) < 2 powi k" by simp
  then have x: "0 < x" using assms(1) by linarith
  have "(2 :: rat) powi k < 2 powi (ilog2 x + 1)" "(2 :: rat) powi ilog2 x < 2 powi (k + 1)"
    using ilog2_bounds [OF x] assms by linarith+
  then have "k < ilog2 x + 1" "ilog2 x < k + 1" using powi_less_cancel by blast+
  then show ?thesis by simp
qed

lemma ilog2_mono: "0 < x \<Longrightarrow> x \<le> y \<Longrightarrow> ilog2 x \<le> ilog2 y"
  using ilog2_bounds [of x] ilog2_bounds [of y] powi_less_cancel [of "ilog2 x" "ilog2 y + 1"] by linarith

lemma round_even_of_int [simp]: "round_even (of_int n) = n"
  by (simp add: round_even_def)

lemma round_even_mono:
  assumes "x \<le> y"
  shows "round_even x \<le> round_even y"
proof (cases "\<lfloor>x\<rfloor> = \<lfloor>y\<rfloor>")
  case True
  with assms show ?thesis by (auto simp: round_even_def Let_def)
next
  case False
  then have "\<lfloor>x\<rfloor> + 1 \<le> \<lfloor>y\<rfloor>" using floor_mono [OF assms] by linarith
  moreover have "round_even x \<le> \<lfloor>x\<rfloor> + 1" "\<lfloor>y\<rfloor> \<le> round_even y" by (auto simp: round_even_def Let_def)
  ultimately show ?thesis by linarith
qed

lemma round_even_ge: "of_int n \<le> x \<Longrightarrow> n \<le> round_even x"
  using round_even_mono [of "of_int n" x] by simp

lemma round_even_le: "x \<le> of_int n \<Longrightarrow> round_even x \<le> n"
  using round_even_mono [of x "of_int n"] by simp

text \<open>A power of two that the format can hold is on the grid of both sides of it.\<close>

lemma powi_int: "0 \<le> k \<Longrightarrow> (2 :: rat) powi k = of_int (2 ^ nat k)"
  by (simp add: power_int_def)

lemma powi_quot: "e \<le> k \<Longrightarrow> (of_int (2 ^ nat (k - e)) :: rat) = 2 powi k / 2 powi e"
  by (subst powi_int [symmetric]) (simp_all add: power_int_diff)

lemma round_mag_ge:
  assumes "2 powi k \<le> x" "ulp_exp p emin x \<le> k"
  shows "2 powi k \<le> round_mag p emin x"
proof -
  let ?e = "ulp_exp p emin x"
  have "of_int (2 ^ nat (k - ?e)) \<le> x / 2 powi ?e"
    unfolding powi_quot [OF assms(2)] using assms(1) by (intro divide_right_mono) simp_all
  then have "2 ^ nat (k - ?e) \<le> round_even (x / 2 powi ?e)" by (rule round_even_ge)
  then have "(of_int (2 ^ nat (k - ?e)) :: rat) \<le> of_int (round_even (x / 2 powi ?e))"
    by (simp only: of_int_le_iff)
  then have "2 powi k / 2 powi ?e * 2 powi ?e \<le> of_int (round_even (x / 2 powi ?e)) * (2 :: rat) powi ?e"
    unfolding powi_quot [OF assms(2)] by (intro mult_right_mono) simp_all
  then show ?thesis by (simp add: round_mag_def Let_def)
qed

lemma round_mag_le:
  assumes "x \<le> 2 powi k" "ulp_exp p emin x \<le> k"
  shows "round_mag p emin x \<le> 2 powi k"
proof -
  let ?e = "ulp_exp p emin x"
  have "x / 2 powi ?e \<le> of_int (2 ^ nat (k - ?e))"
    unfolding powi_quot [OF assms(2)] using assms(1) by (intro divide_right_mono) simp_all
  then have "round_even (x / 2 powi ?e) \<le> 2 ^ nat (k - ?e)" by (rule round_even_le)
  then have "(of_int (round_even (x / 2 powi ?e)) :: rat) \<le> of_int (2 ^ nat (k - ?e))"
    by (simp only: of_int_le_iff)
  then have "of_int (round_even (x / 2 powi ?e)) * (2 :: rat) powi ?e \<le> 2 powi k / 2 powi ?e * 2 powi ?e"
    unfolding powi_quot [OF assms(2)] by (intro mult_right_mono) simp_all
  then show ?thesis by (simp add: round_mag_def Let_def)
qed

lemma round_mag_mono:
  assumes "0 < x" "x \<le> y" "1 \<le> p"
  shows "round_mag p emin x \<le> round_mag p emin y"
proof (cases "ulp_exp p emin x = ulp_exp p emin y")
  case True
  then show ?thesis
    using assms by (simp add: round_mag_def Let_def round_even_mono divide_right_mono)
next
  case False
  note m = ilog2_mono [OF assms(1,2)]
  then have e: "ulp_exp p emin x < ulp_exp p emin y" "ulp_exp p emin y = ilog2 y + 1 - p" "ilog2 x + 1 \<le> ilog2 y"
    using False by (auto simp: ulp_exp_def max_def split: if_splits)
  have "x \<le> 2 powi (ilog2 x + 1)" using ilog2_bounds(2) [OF assms(1)] by simp
  also have "\<dots> \<le> 2 powi ilog2 y" using e(3) by (rule powi_mono)
  finally have "round_mag p emin x \<le> 2 powi ilog2 y" using e assms(3) by (intro round_mag_le) auto
  also have "\<dots> \<le> round_mag p emin y"
    using ilog2_bounds(1) [of y] assms e by (intro round_mag_ge) auto
  finally show ?thesis .
qed

lemma round_mag_nonneg: "0 < x \<Longrightarrow> 0 \<le> round_mag p emin x"
  using round_even_mono [of 0 "x / 2 powi ulp_exp p emin x"] round_even_of_int [of 0]
  by (simp add: round_mag_def Let_def)

text \<open>Rounding again changes nothing.\<close>

lemma round_mag_grid:
  assumes "0 < x" "1 \<le> p"
  shows "round_mag p emin (round_mag p emin x) = round_mag p emin x"
proof (cases "round_mag p emin x = 0")
  case True
  then show ?thesis by (simp add: round_mag_def Let_def round_even_def)
next
  case False
  let ?e = "ulp_exp p emin x" and ?r = "round_mag p emin x"
  have r: "0 < ?r" using False round_mag_nonneg [OF assms(1), of p emin] by linarith
  have "?r \<le> 2 powi (max (ilog2 x + 1) ?e)"
    using ilog2_bounds(2) [OF assms(1)] powi_mono [of "ilog2 x + 1" "max (ilog2 x + 1) ?e"]
    by (intro round_mag_le) auto
  show ?thesis
  proof (cases "?r = 2 powi (max (ilog2 x + 1) ?e)")
    case True
    then have "ilog2 ?r = max (ilog2 x + 1) ?e" by (intro ilog2_unique) (simp_all add: power_int_add)
    then have "ulp_exp p emin ?r \<le> max (ilog2 x + 1) ?e" using assms(2) by (auto simp: ulp_exp_def)
    with True show ?thesis
      using round_mag_le [of ?r "max (ilog2 x + 1) ?e" p emin] round_mag_ge [of "max (ilog2 x + 1) ?e" ?r p emin]
      by simp
  next
    case False
    with \<open>?r \<le> _\<close> have "?r < 2 powi (max (ilog2 x + 1) ?e)" by simp
    then have "ilog2 ?r < max (ilog2 x + 1) ?e"
      using ilog2_bounds(1) [OF r] powi_less_cancel by (meson le_less_trans)
    then have e: "ulp_exp p emin ?r \<le> ?e" using assms(2) unfolding ulp_exp_def by linarith
    have "?r / 2 powi ulp_exp p emin ?r = of_int (round_even (x / 2 powi ?e) * 2 ^ nat (?e - ulp_exp p emin ?r))"
      using powi_quot [OF e] by (simp add: round_mag_def Let_def)
    then have "of_int (round_even (?r / 2 powi ulp_exp p emin ?r)) = ?r / 2 powi ulp_exp p emin ?r"
      by (simp only: round_even_of_int)
    then show ?thesis by (simp add: round_mag_def [of p emin ?r] Let_def)
  qed
qed

lemma round_bin_pos:
  assumes "0 < x" "x \<le> y" "1 \<le> p"
  shows "dbl_le (round_bin p emin emax x) (round_bin p emin emax y)"
  using round_mag_mono [OF assms, of emin] assms(1,2)
  by (auto simp: round_bin_def Let_def dbl_le_def)

lemma round_bin_neg: "round_bin p emin emax (- x) = dbl_neg (round_bin p emin emax x)"
  by (auto simp: round_bin_def Let_def)

lemma dbl_le_neg: "dbl_le (dbl_neg a) (dbl_neg b) \<longleftrightarrow> dbl_le b a"
  by (cases a; cases b) (auto simp: dbl_le_def)

lemma round_bin_sign:
  "0 \<le> x \<Longrightarrow> dbl_le (Fin 0) (round_bin p emin emax x)"
  using round_mag_nonneg [of x p emin] by (auto simp: round_bin_def Let_def dbl_le_def)

lemma dbl_le_trans: "dbl_le a b \<Longrightarrow> dbl_le b c \<Longrightarrow> dbl_le a c"
  by (cases a; cases b; cases c) (auto simp: dbl_le_def)

lemma round_bin_mono:
  assumes "x \<le> y" "1 \<le> p"
  shows "dbl_le (round_bin p emin emax x) (round_bin p emin emax y)"
proof -
  consider "0 < x" | "y < 0" | "x \<le> 0" "0 \<le> y" by linarith
  then show ?thesis
  proof cases
    case 1
    then show ?thesis using assms by (intro round_bin_pos)
  next
    case 2
    then have "dbl_le (round_bin p emin emax (- y)) (round_bin p emin emax (- x))"
      using assms by (intro round_bin_pos) simp_all
    then show ?thesis by (simp add: round_bin_neg dbl_le_neg)
  next
    case 3
    then have "dbl_le (round_bin p emin emax x) (Fin 0)"
      using round_bin_sign [of "- x" p emin emax] dbl_le_neg [of "Fin 0" "round_bin p emin emax x"]
      by (simp add: round_bin_neg)
    then show ?thesis using dbl_le_trans round_bin_sign [OF 3(2)] by blast
  qed
qed

lemma round_bin_again: "1 \<le> p \<Longrightarrow> round_bin p emin emax x = Fin r \<Longrightarrow> round_bin p emin emax r = Fin r"
  using round_mag_grid [of "\<bar>x\<bar>" p emin] round_mag_nonneg [of "\<bar>x\<bar>" p emin]
  by (auto simp: round_bin_def Let_def split: if_splits)

section \<open>Doubles\<close>

definition is_double :: "dbl \<Rightarrow> bool" where
  "is_double d \<longleftrightarrow> (\<forall>x. d = Fin x \<longrightarrow> round64 x = Fin x)"

lemma is_double_round64 [simp]: "is_double (round64 x)"
  by (auto simp: is_double_def round64_def intro: round_bin_again)

lemma is_double_special [simp]: "is_double PosInf" "is_double NegInf" "is_double NaN" "is_double (Fin 0)"
  by (simp_all add: is_double_def round64_def round_bin_def)

lemma is_double_neg [simp]: "is_double d \<Longrightarrow> is_double (dbl_neg d)"
  by (cases d) (auto simp: is_double_def round64_def round_bin_neg)

lemma is_double_add [simp]: "is_double (dbl_add a b)"
  by (cases "(a, b)" rule: dbl_add.cases) simp_all

lemma is_double_sub [simp]: "is_double (dbl_sub a b)"
  by (simp add: dbl_sub_def)

lemma dbl_le_refl [simp]: "dbl_le a a \<longleftrightarrow> a \<noteq> NaN"
  by (cases a) (auto simp: dbl_le_def)

lemma dbl_le_not_NaN: "dbl_le a b \<Longrightarrow> a \<noteq> NaN \<and> b \<noteq> NaN"
  by (cases a; cases b) (auto simp: dbl_le_def)

lemma dbl_not_less: "a \<noteq> NaN \<Longrightarrow> b \<noteq> NaN \<Longrightarrow> \<not> dbl_less a b \<longleftrightarrow> dbl_le b a"
  by (cases a; cases b) (auto simp: dbl_le_def)

lemma round64_mono: "x \<le> y \<Longrightarrow> dbl_le (round64 x) (round64 y)"
  by (simp add: round64_def round_bin_mono)

text \<open>Adding what is not negative does not decrease.\<close>

lemma dbl_add_ge:
  assumes "is_double a" "dbl_le (Fin 0) a" "dbl_le (Fin 0) b"
  shows "dbl_le a (dbl_add a b)"
proof (cases "\<exists>x y. a = Fin x \<and> b = Fin y")
  case True
  then obtain x y where e: "a = Fin x" "b = Fin y" by blast
  with assms have "round64 x = Fin x" "0 \<le> y" by (auto simp: is_double_def dbl_le_def)
  then show ?thesis using round64_mono [of x "x + y"] e by simp
next
  case False
  then show ?thesis using assms by (cases a; cases b) (auto simp: dbl_le_def)
qed

lemma round64_sign [simp]: "0 \<le> x \<Longrightarrow> dbl_le (Fin 0) (round64 x)"
  by (simp add: round64_def round_bin_sign)

lemma dbl_le_Fin [simp]: "dbl_le (Fin x) (Fin y) \<longleftrightarrow> x \<le> y"
  by (auto simp: dbl_le_def)

lemma dbl_le_special [simp]: "dbl_le a PosInf \<longleftrightarrow> a \<noteq> NaN" "\<not> dbl_le NaN b" "\<not> dbl_le b NaN" "\<not> dbl_le (Fin x) NegInf"
  by (cases a; cases b; auto simp: dbl_le_def)+

lemma dbl_add_nonneg: "dbl_le (Fin 0) a \<Longrightarrow> dbl_le (Fin 0) b \<Longrightarrow> dbl_le (Fin 0) (dbl_add a b)"
  by (cases a; cases b) simp_all

text \<open>A power of two is a double; what is not larger is not rounded to an infinity.\<close>

lemma ilog2_powi [simp]: "ilog2 (2 powi k) = k"
  by (rule ilog2_unique) (simp_all add: power_int_add)

lemma round_mag_powi:
  assumes "0 \<le> x" "x \<le> 2 powi k" "x \<noteq> 0" "0 \<le> k"
  shows "round_mag 53 (- 1074) x \<le> 2 powi k"
proof -
  have "ilog2 x \<le> k" using ilog2_mono [of x "2 powi k"] assms by simp
  then show ?thesis using assms(2,4) by (intro round_mag_le) (auto simp: ulp_exp_def)
qed

lemma round64_finite:
  assumes "0 \<le> x" "x \<le> 2 powi k" "0 \<le> k" "k < 1024"
  shows "dbl_finite (round64 x)"
proof (cases "x = 0")
  case False
  have "round_mag 53 (- 1074) x \<le> 2 powi k" using assms False by (intro round_mag_powi) simp_all
  also have "\<dots> < 2 powi (1024 :: int)" using assms(4) by (intro power_int_strict_increasing) simp_all
  finally have "\<not> 2 powi (1024 :: int) \<le> round_mag 53 (- 1074) \<bar>x\<bar>" using assms(1) by (simp only: abs_of_nonneg not_le)
  then show ?thesis
    using False unfolding round64_def round_bin_def Let_def by (simp only: if_False dbl_finite.simps)
qed (simp add: round64_def round_bin_def)

lemma round64_powi:
  assumes "0 \<le> k" "k < 1024"
  shows "round64 (2 powi k) = Fin (2 powi k)"
proof -
  have "round_mag 53 (- 1074) (2 powi k) = 2 powi k"
    using assms by (intro antisym round_mag_powi round_mag_ge) (simp_all add: ulp_exp_def)
  moreover have "(2 :: rat) powi k < 2 powi 1024" using assms(2) by (intro power_int_strict_increasing) simp_all
  ultimately show ?thesis by (simp add: round64_def round_bin_def Let_def linorder_not_less)
qed

text \<open>Whole numbers that the mantissa can hold are not rounded.\<close>

lemma round_bin_of_int:
  assumes "\<bar>n\<bar> < 2 ^ p" "emin \<le> 0" "int p \<le> emax"
  shows "round_bin (int p) emin emax (of_int n) = Fin (of_int n)"
proof -
  have pos: "round_bin (int p) emin emax (of_int m) = Fin (of_int m)" if m: "0 < m" "m < 2 ^ p" for m :: int
  proof -
    let ?e = "ulp_exp (int p) emin (of_int m)"
    have lt: "(of_int m :: rat) < 2 powi int p"
      using m(2) powi_int [of "int p"] by (simp only: of_int_less_iff nat_int)
    have "ilog2 (of_int m) < int p"
      by (rule powi_less_cancel [OF le_less_trans [OF ilog2_bounds(1) lt]]) (use m in simp)
    then have e: "?e \<le> 0" using assms(2) by (simp add: ulp_exp_def)
    have q: "of_int m / (2 :: rat) powi ?e = of_int (m * 2 ^ nat (0 - ?e))"
      using powi_quot [OF e] by (simp only: of_int_mult) simp
    have "round_even (of_int m / 2 powi ?e) = m * 2 ^ nat (0 - ?e)" by (simp only: q round_even_of_int)
    then have "round_mag (int p) emin (of_int m) = of_int m / 2 powi ?e * 2 powi ?e"
      by (simp only: round_mag_def Let_def q)
    then have "round_mag (int p) emin (of_int m) = of_int m" by simp
    moreover have "(of_int m :: rat) < 2 powi emax" using lt powi_mono [OF assms(3)] by linarith
    ultimately show ?thesis using m(1) by (simp add: round_bin_def Let_def not_le)
  qed
  consider "n = 0" | "0 < n" | "0 < - n" by linarith
  then show ?thesis
  proof cases
    case 3
    then have "round_bin (int p) emin emax (of_int (- n)) = Fin (of_int (- n))" using assms(1) by (intro pos) simp_all
    then show ?thesis using round_bin_neg [of "int p" emin emax "of_int (- n)"] by simp
  qed (use assms(1) pos in \<open>simp_all add: round_bin_def\<close>)
qed

text \<open>
  What bounds and comparisons rest on, for both formats: rounding is monotone and exact on whole numbers
  below \<open>lim\<close>.
\<close>

locale rounding =
  fixes rnd :: "rat \<Rightarrow> dbl" and lim :: int
  assumes rnd_mono: "x \<le> y \<Longrightarrow> dbl_le (rnd x) (rnd y)"
    and rnd_whole: "\<bar>n\<bar> < lim \<Longrightarrow> rnd (of_int n) = Fin (of_int n)"
begin

text \<open>Rounding moves by at most one, and keeps apart what is more than two apart.\<close>

lemma near:
  assumes "\<bar>x\<bar> < of_int (lim - 2)"
  shows "\<exists>s. rnd x = Fin s \<and> \<bar>s - x\<bar> \<le> 1"
proof -
  define n where "n = \<lfloor>x\<rfloor>"
  have n: "of_int n \<le> x" "x < of_int (n + 1)" unfolding n_def by linarith+
  then have "(of_int n :: rat) < of_int (lim - 2)" "(of_int (- (lim - 2)) :: rat) < of_int (n + 1)"
    using assms by (simp_all add: abs_less_iff)
  then have "n < lim - 2" "- (lim - 2) < n + 1" by (simp_all only: of_int_less_iff)
  then have "rnd (of_int n) = Fin (of_int n)" "rnd (of_int (n + 1)) = Fin (of_int (n + 1))" by (intro rnd_whole; simp)+
  then have "dbl_le (Fin (of_int n)) (rnd x)" "dbl_le (rnd x) (Fin (of_int (n + 1)))"
    using rnd_mono [OF n(1)] rnd_mono [OF less_imp_le [OF n(2)]] by simp_all
  then show ?thesis using n by (cases "rnd x") (auto simp: dbl_le_def)
qed

lemma gap:
  assumes "a + 2 < b" "\<bar>a\<bar> < of_int (lim - 2)" "\<bar>b\<bar> < of_int (lim - 2)"
  shows "dbl_less (rnd a) (rnd b)"
  using near [OF assms(2)] near [OF assms(3)] assms(1) by auto

end

interpretation double: rounding round64 "2 ^ 53"
proof
  show "dbl_le (round64 x) (round64 y)" if "x \<le> y" for x y using that by (rule round64_mono)
  show "round64 (of_int n) = Fin (of_int n)" if "\<bar>n\<bar> < 2 ^ 53" for n
    using round_bin_of_int [of n 53 "- 1074" 1024] that by (simp add: round64_def)
qed

interpretation float: rounding round32 "2 ^ 24"
proof
  show "dbl_le (round32 x) (round32 y)" if "x \<le> y" for x y using that by (simp add: round32_def round_bin_mono)
  show "round32 (of_int n) = Fin (of_int n)" if "\<bar>n\<bar> < 2 ^ 24" for n
    using round_bin_of_int [of n 24 "- 149" 128] that by (simp add: round32_def)
qed

lemmas round64_of_int = double.rnd_whole

lemma round64_near: "\<bar>x\<bar> \<le> 2 ^ 50 \<Longrightarrow> \<exists>s. round64 x = Fin s \<and> \<bar>s - x\<bar> \<le> 1"
  by (rule double.near) simp

lemma round64_gap: "a + 2 < b \<Longrightarrow> \<bar>a\<bar> \<le> 2 ^ 50 \<Longrightarrow> \<bar>b\<bar> \<le> 2 ^ 50 \<Longrightarrow> dbl_less (round64 a) (round64 b)"
  by (rule double.gap) simp_all

end
