(* ===== verification/Text_Numbers.thy ===== *)
theory Text_Numbers
  imports Floating Markdown_Ast
begin

text \<open>
  The text conversions of the C library that the style sheet and the inline HTML use:
  \<^verbatim>\<open>strtod\<close>, \<^verbatim>\<open>strtol\<close> and \<^verbatim>\<open>sscanf\<close> with \<^verbatim>\<open>%x\<close> and \<^verbatim>\<open>%f\<close>, as the C standard has them.
  A conversion gives the number and the rest of the text, or \<open>None\<close> when there is no number.
  The decimal point is a parameter: it follows the locale, which GTK sets from the environment.
\<close>

section \<open>Numbers in a text\<close>

datatype num = NRat rat | NInf bool | NNan

definition is_xdigit :: "char \<Rightarrow> bool" where
  "is_xdigit c \<longleftrightarrow> hex_val c \<noteq> None"

fun take_sign :: "string \<Rightarrow> bool \<times> string" where
  "take_sign [] = (False, [])"
| "take_sign (c # s) = (if c = CHR ''-'' then (True, s) else if c = CHR ''+'' then (False, s) else (False, c # s))"

text \<open>Digits, and after the decimal point more of them; at least one on either side.\<close>

definition take_digits :: "char \<Rightarrow> (char \<Rightarrow> bool) \<Rightarrow> string \<Rightarrow> (string \<times> string \<times> string) option" where
  "take_digits dp isd s =
     (let i = takeWhile isd s; r = dropWhile isd s;
          (f, r) = (case r of
                      [] \<Rightarrow> ([], [])
                    | c # r' \<Rightarrow>
                        if c = dp \<and> (i \<noteq> [] \<or> takeWhile isd r' \<noteq> [])
                        then (takeWhile isd r', dropWhile isd r') else ([], r))
      in if i = [] \<and> f = [] then None else Some (i, f, r))"

text \<open>An exponent: the letter, a sign and digits, or nothing.\<close>

definition take_exponent :: "string \<Rightarrow> string \<Rightarrow> (int \<times> string) option" where
  "take_exponent letters s =
     (case s of
        [] \<Rightarrow> None
      | c # r \<Rightarrow>
          let (neg, r) = take_sign r; d = takeWhile is_digit r
          in if c \<in> set letters \<and> d \<noteq> []
             then Some ((if neg then - int (digits_value False 0 d) else int (digits_value False 0 d)), dropWhile is_digit r)
             else None)"

definition signed :: "bool \<Rightarrow> rat \<Rightarrow> rat" where
  "signed neg q = (if neg then - q else q)"

text \<open>
  The longest number at the start, the rest, and the characters that would make a longer text
  the beginning of a number.
\<close>

definition scan_decimal :: "char \<Rightarrow> string \<Rightarrow> (rat \<times> string \<times> string) option" where
  "scan_decimal dp s =
     (case take_digits dp is_digit s of
        None \<Rightarrow> None
      | Some (i, f, r) \<Rightarrow>
          let m = of_nat (digits_value False 0 (i @ f))
          in case take_exponent ''eE'' r of
               Some (e, r) \<Rightarrow> Some (m * 10 powi (e - int (length f)), r, [])
             | None \<Rightarrow> Some (m * 10 powi (- int (length f)), r,
                         ''eE'' @ (if i = ''0'' \<and> starts_with i s \<and> drop 1 s = r then ''xX'' else [])))"

definition scan_hex :: "char \<Rightarrow> string \<Rightarrow> (rat \<times> string \<times> string) option" where
  "scan_hex dp s =
     (if starts_with ''0x'' (map to_lower s) then
        (case take_digits dp is_xdigit (drop 2 s) of
           None \<Rightarrow> None
         | Some (i, f, r) \<Rightarrow>
             let m = of_nat (digits_value True 0 (i @ f))
             in case take_exponent ''pP'' r of
                  Some (e, r) \<Rightarrow> Some (m * 2 powi (e - 4 * int (length f)), r, [])
                | None \<Rightarrow> Some (m * 2 powi (- 4 * int (length f)), r, ''pP''))
      else None)"

text \<open>\<^verbatim>\<open>nan\<close> may be followed by letters, digits and underscores in parentheses.\<close>

definition nan_tail :: "string \<Rightarrow> string" where
  "nan_tail r =
     (if starts_with ''('' r then
        let t = dropWhile (\<lambda>c. is_alnum c \<or> c = CHR ''_'') (tl r)
        in if starts_with '')'' t then tl t else r
      else r)"

definition scan_number :: "char \<Rightarrow> string \<Rightarrow> (num \<times> string \<times> string) option" where
  "scan_number dp s =
     (let (neg, s) = take_sign (dropWhile is_space s); l = map to_lower s
      in if starts_with ''infinity'' l then Some (NInf neg, drop 8 s, [])
         else if starts_with ''inf'' l then Some (NInf neg, drop 3 s, ''iI'')
         else if starts_with ''nan'' l then Some (NNan, nan_tail (drop 3 s), if nan_tail (drop 3 s) = drop 3 s then ''('' else [])
         else case scan_hex dp s of
                Some (q, rest) \<Rightarrow> Some (NRat (signed neg q), rest)
              | None \<Rightarrow> map_option (\<lambda>(q, rest). (NRat (signed neg q), rest)) (scan_decimal dp s))"

fun dbl_of_num :: "(rat \<Rightarrow> dbl) \<Rightarrow> num \<Rightarrow> dbl" where
  "dbl_of_num rnd (NRat q) = rnd q"
| "dbl_of_num rnd (NInf neg) = (if neg then NegInf else PosInf)"
| "dbl_of_num rnd NNan = NaN"

section \<open>The conversions\<close>

definition strtod :: "char \<Rightarrow> string \<Rightarrow> (dbl \<times> string) option" where
  "strtod dp s =
     (case scan_number dp (cstr s) of
        None \<Rightarrow> None
      | Some (n, rest, _) \<Rightarrow> Some (dbl_of_num round64 n, rest))"

text \<open>\<^verbatim>\<open>strtol\<close> to base 10, which stops at the ends of 64 bits\<close>

definition strtol :: "string \<Rightarrow> (int \<times> string) option" where
  "strtol s =
     (let (neg, r) = take_sign (dropWhile is_space (cstr s)); d = takeWhile is_digit r;
          n = int (digits_value False 0 d)
      in if d = [] then None
         else Some (max (- (2 ^ 63)) (min (2 ^ 63 - 1) (if neg then - n else n)), dropWhile is_digit r))"

text \<open>\<^verbatim>\<open>%f\<close> takes the longest text that can begin a number; it fails when that text is none.\<close>

definition scan_f :: "char \<Rightarrow> string \<Rightarrow> (dbl \<times> string) option" where
  "scan_f dp s =
     (case scan_number dp s of
        None \<Rightarrow> None
      | Some (n, rest, ext) \<Rightarrow>
          if rest \<noteq> [] \<and> hd rest \<in> set ext then None
          else Some (dbl_of_num round32 n, rest))"

text \<open>\<^verbatim>\<open>sscanf(s, "%f,%f,%f", ...) == 3\<close>\<close>

definition skip_comma :: "string \<Rightarrow> string option" where
  "skip_comma s = (if starts_with '','' s then Some (tl s) else None)"

definition scan_fff :: "char \<Rightarrow> string \<Rightarrow> (dbl \<times> dbl \<times> dbl) option" where
  "scan_fff dp s = do {
     (a, s) \<leftarrow> scan_f dp (cstr s);
     s \<leftarrow> skip_comma s;
     (b, s) \<leftarrow> scan_f dp s;
     s \<leftarrow> skip_comma s;
     (c, s) \<leftarrow> scan_f dp s;
     Some (a, b, c)
   }"

text \<open>\<^verbatim>\<open>sscanf(s, "%x", &n) == 1\<close>: a sign and the prefix \<^verbatim>\<open>0x\<close> are allowed, and the rest may be anything.\<close>

definition scan_x :: "string \<Rightarrow> u32 option" where
  "scan_x s =
     (let (neg, r) = take_sign (dropWhile is_space (cstr s));
          r = (if starts_with ''0x'' (map to_lower r) then drop 2 r else r);
          d = takeWhile is_xdigit r; n = of_nat (digits_value True 0 d)
      in if d = [] then None else Some (if neg then - n else n))"

text \<open>\<^verbatim>\<open>sscanf(s, "%1x%1x%1x", ...) == 3\<close> for a text of three characters\<close>

definition scan_xxx :: "string \<Rightarrow> (nat \<times> nat \<times> nat) option" where
  "scan_xxx s =
     (case map hex_val s of
        [Some a, Some b, Some c] \<Rightarrow> Some (a, b, c)
      | _ \<Rightarrow> None)"

end
