(* ===== verification/Markdown_Style.thy ===== *)
theory Markdown_Style
  imports Text_Numbers
begin

text \<open>
  \<^verbatim>\<open>gui/markdown/markdown_style.hpp\<close> and \<^verbatim>\<open>.cpp\<close>: colours, the palette, the style sheet with its
  text and box styles, the built-in style and the parser of the CSS-like text that changes it.
  The parameter \<open>dp\<close> is the decimal point of the locale.
\<close>

section \<open>Data\<close>

record color =
  col_r :: dbl
  col_g :: dbl
  col_b :: dbl
  col_a :: dbl
  col_valid :: bool

definition no_color :: color where
  "no_color = \<lparr>col_r = Fin 0, col_g = Fin 0, col_b = Fin 0, col_a = Fin 1, col_valid = False\<rparr>"

text \<open>\<^verbatim>\<open>Color{r, g, b, 1.0f, true}\<close> with the literals in hundredths\<close>

definition rgb100 :: "rat \<Rightarrow> rat \<Rightarrow> rat \<Rightarrow> color" where
  "rgb100 r g b = \<lparr>col_r = round32 (r / 100), col_g = round32 (g / 100), col_b = round32 (b / 100),
     col_a = Fin 1, col_valid = True\<rparr>"

record palette =
  pal_text :: color
  pal_text_muted :: color
  pal_accent :: color
  pal_bg :: color
  pal_surface :: color
  pal_border :: color
  pal_code_bg :: color
  pal_quote_bg :: color
  pal_error :: color
  pal_warning :: color
  pal_ok :: color
  pal_info :: color

definition default_palette :: palette where
  "default_palette = \<lparr>
     pal_text = rgb100 13 15 17, pal_text_muted = rgb100 42 44 48, pal_accent = rgb100 25 32 95,
     pal_bg = rgb100 100 100 100, pal_surface = rgb100 98 98 98, pal_border = rgb100 80 83 88,
     pal_code_bg = rgb100 95 95 97, pal_quote_bg = rgb100 96 97 99, pal_error = rgb100 72 15 16,
     pal_warning = rgb100 72 45 5, pal_ok = rgb100 12 55 26, pal_info = rgb100 12 38 65\<rparr>"

datatype style_selector = SelDocument | SelH1 | SelH2 | SelH3 | SelH4 | SelH5 | SelH6 | SelParagraph
  | SelCode | SelPre | SelBlockquote | SelLink | SelList | SelListItem | SelTable | SelTableHeader
  | SelTableCell | SelTableRow | SelHr | SelToc | SelTocTitle | SelTocLink | SelImage

record text_style =
  ts_font_family :: string
  ts_font_size :: dbl
  ts_weight :: i32
  ts_italic :: bool
  ts_italic_set :: bool
  ts_strike :: bool
  ts_strike_set :: bool
  ts_underline :: bool
  ts_underline_set :: bool
  ts_color :: color
  ts_background :: color

definition no_text_style :: text_style where
  "no_text_style = \<lparr>ts_font_family = '''', ts_font_size = Fin 0, ts_weight = 0, ts_italic = False,
     ts_italic_set = False, ts_strike = False, ts_strike_set = False, ts_underline = False,
     ts_underline_set = False, ts_color = no_color, ts_background = no_color\<rparr>"

record box_style =
  bx_margin_top :: dbl
  bx_margin_bottom :: dbl
  bx_margin_left :: dbl
  bx_margin_right :: dbl
  bx_padding :: dbl
  bx_border_left_width :: dbl
  bx_border_width :: dbl
  bx_border_color :: color
  bx_background :: color
  bx_any_set :: bool

definition no_box_style :: box_style where
  "no_box_style = \<lparr>bx_margin_top = Fin 0, bx_margin_bottom = Fin 0, bx_margin_left = Fin 0,
     bx_margin_right = Fin 0, bx_padding = Fin 0, bx_border_left_width = Fin 0, bx_border_width = Fin 0,
     bx_border_color = no_color, bx_background = no_color, bx_any_set = False\<rparr>"

text \<open>The two arrays over the selectors are functions of the selector.\<close>

record style_sheet =
  st_page_width :: dbl
  st_page_height :: dbl
  st_page_margin :: dbl
  st_page_size :: string
  st_base_font :: string
  st_base_font_pt :: dbl
  st_line_height :: dbl
  st_text_color :: color
  st_bg_color :: color
  st_hr_color :: color
  st_link_color :: color
  st_text :: "style_selector \<Rightarrow> text_style"
  st_box :: "style_selector \<Rightarrow> box_style"

definition new_style_sheet :: style_sheet where
  "new_style_sheet = \<lparr>st_page_width = round64 595.28, st_page_height = round64 841.89,
     st_page_margin = round64 56.69, st_page_size = ''a4'', st_base_font = ''sans'',
     st_base_font_pt = Fin 11, st_line_height = Fin 1.5, st_text_color = no_color, st_bg_color = no_color,
     st_hr_color = no_color, st_link_color = no_color, st_text = (\<lambda>_. no_text_style),
     st_box = (\<lambda>_. no_box_style)\<rparr>"

definition content_width :: "style_sheet \<Rightarrow> dbl" where
  "content_width s = dbl_sub (st_page_width s) (dbl_mul (Fin 2) (st_page_margin s))"

section \<open>Resolved values\<close>

definition font_for :: "style_sheet \<Rightarrow> style_selector \<Rightarrow> string" where
  "font_for s x = (let t = st_text s x in if ts_font_family t = '''' then st_base_font s else ts_font_family t)"

definition font_size_for :: "style_sheet \<Rightarrow> style_selector \<Rightarrow> dbl" where
  "font_size_for s x =
     (let t = st_text s x in if dbl_less (Fin 0) (ts_font_size t) then ts_font_size t else st_base_font_pt s)"

definition color_for :: "style_sheet \<Rightarrow> style_selector \<Rightarrow> color" where
  "color_for s x =
     (let t = st_text s x
      in if col_valid (ts_color t) then ts_color t
         else if x = SelLink then st_link_color s else st_text_color s)"

definition italic_for :: "style_sheet \<Rightarrow> style_selector \<Rightarrow> bool" where
  "italic_for s x = (let t = st_text s x in if ts_italic_set t then ts_italic t else False)"

definition strike_for :: "style_sheet \<Rightarrow> style_selector \<Rightarrow> bool" where
  "strike_for s x = (let t = st_text s x in if ts_strike_set t then ts_strike t else False)"

definition underline_for :: "style_sheet \<Rightarrow> style_selector \<Rightarrow> bool" where
  "underline_for s x = (let t = st_text s x in if ts_underline_set t then ts_underline t else x = SelLink)"

definition bg_color_for :: "style_sheet \<Rightarrow> style_selector \<Rightarrow> color" where
  "bg_color_for s x = ts_background (st_text s x)"

definition box_for :: "style_sheet \<Rightarrow> style_selector \<Rightarrow> box_style" where
  "box_for s x = st_box s x"

section \<open>Colours\<close>

definition lower :: "string \<Rightarrow> string" where
  "lower = map to_lower"

definition byte_of :: "nat \<Rightarrow> u32 \<Rightarrow> rat" where
  "byte_of n v = of_nat (unat (drop_bit n v AND 0xFF))"

text \<open>A channel out of 255, in single precision\<close>

definition channel :: "dbl \<Rightarrow> dbl" where
  "channel d = flt_div d (Fin 255)"

definition find_char :: "char \<Rightarrow> string \<Rightarrow> nat option" where
  "find_char c s = (if c \<in> set s then Some (length (takeWhile (\<lambda>x. x \<noteq> c) s)) else None)"

definition rgb_color :: "dbl \<Rightarrow> dbl \<Rightarrow> dbl \<Rightarrow> color" where
  "rgb_color r g b = \<lparr>col_r = channel r, col_g = channel g, col_b = channel b, col_a = Fin 1, col_valid = True\<rparr>"

definition parse_hex :: "string \<Rightarrow> color option" where
  "parse_hex v =
     (if v = [] \<or> hd v \<noteq> CHR ''#'' then None
      else let h = tl v
           in if length h = 6 then
                map_option (\<lambda>n. rgb_color (Fin (byte_of 16 n)) (Fin (byte_of 8 n)) (Fin (byte_of 0 n))) (scan_x h)
              else if length h = 3 then
                map_option (\<lambda>(a, b, c). rgb_color (Fin (of_nat (17 * a))) (Fin (of_nat (17 * b))) (Fin (of_nat (17 * c))))
                  (scan_xxx h)
              else None)"

definition parse_rgb :: "char \<Rightarrow> string \<Rightarrow> color option" where
  "parse_rgb dp v =
     (if \<not> starts_with ''rgb'' v then None
      else case (find_char CHR ''('' v, find_char CHR '')'' v) of
             (Some a, Some b) \<Rightarrow>
               if b < a then None
               else let inside = take (b - a - 1) (drop (a + 1) v)
                    in if starts_with ''a'' inside then None
                       else map_option (\<lambda>(r, g, bl). rgb_color r g bl) (scan_fff dp inside)
           | _ \<Rightarrow> None)"

definition kNamed :: "(string \<times> color) list" where
  "kNamed = [
     (''black'', rgb100 0 0 0), (''white'', rgb100 100 100 100), (''red'', rgb100 75 16 16),
     (''green'', rgb100 13 55 26), (''blue'', rgb100 23 35 95), (''orange'', rgb100 75 45 4),
     (''gray'', rgb100 42 44 48), (''grey'', rgb100 42 44 48), (''yellow'', rgb100 90 75 15)]"

definition named_color :: "string \<Rightarrow> color" where
  "named_color name = (case map_of kNamed (lower name) of Some c \<Rightarrow> c | None \<Rightarrow> no_color)"

definition darkened :: "color \<Rightarrow> dbl \<Rightarrow> color" where
  "darkened c f =
     (if \<not> col_valid c then c
      else c\<lparr>col_r := flt_mul (col_r c) f, col_g := flt_mul (col_g c) f, col_b := flt_mul (col_b c) f\<rparr>)"

definition palette_token :: "palette \<Rightarrow> string \<Rightarrow> color option" where
  "palette_token p tok = map_of [
     (''text'', pal_text p), (''text-muted'', pal_text_muted p), (''accent'', pal_accent p), (''bg'', pal_bg p),
     (''surface'', pal_surface p), (''border'', pal_border p), (''code-bg'', pal_code_bg p),
     (''quote-bg'', pal_quote_bg p), (''red'', pal_error p), (''orange'', pal_warning p),
     (''amber'', pal_warning p), (''green'', pal_ok p), (''blue'', pal_info p)] tok"

definition parse_color :: "char \<Rightarrow> palette \<Rightarrow> string \<Rightarrow> color option" where
  "parse_color dp p raw =
     (let v = trim (lower raw)
      in if v = '''' then None
         else case parse_hex v of
                Some c \<Rightarrow> Some c
              | None \<Rightarrow>
                  (case parse_rgb dp v of
                     Some c \<Rightarrow> Some c
                   | None \<Rightarrow>
                       if hd v = CHR ''@'' then palette_token p (tl v)
                       else let named = named_color v
                            in if col_valid named then Some named else None))"

section \<open>Selectors and lengths\<close>

definition selector_names :: "(string \<times> style_selector) list" where
  "selector_names = [
     (''*'', SelDocument), (''document'', SelDocument), (''h1'', SelH1), (''h2'', SelH2), (''h3'', SelH3),
     (''h4'', SelH4), (''h5'', SelH5), (''h6'', SelH6), (''p'', SelParagraph), (''paragraph'', SelParagraph),
     (''code'', SelCode), (''pre'', SelPre), (''pre > code'', SelPre), (''blockquote'', SelBlockquote),
     (''a'', SelLink), (''a:link'', SelLink), (''link'', SelLink), (''ul'', SelList), (''ol'', SelList),
     (''list'', SelList), (''li'', SelListItem), (''list-item'', SelListItem), (''table'', SelTable),
     (''th'', SelTableHeader), (''thead th'', SelTableHeader), (''td'', SelTableCell), (''tbody td'', SelTableCell),
     (''tr'', SelTableRow), (''hr'', SelHr), (''.toc'', SelToc), (''.toc-title'', SelTocTitle),
     (''.toc-link'', SelTocLink), (''img'', SelImage), (''image'', SelImage)]"

definition selector_from_name :: "string \<Rightarrow> style_selector option" where
  "selector_from_name raw = map_of selector_names (lower (trim raw))"

definition is_page_selector :: "string \<Rightarrow> bool" where
  "is_page_selector raw \<longleftrightarrow> lower (trim raw) \<in> {''page'', ''@page''}"

definition pt_from_unit :: "char \<Rightarrow> string \<Rightarrow> dbl \<Rightarrow> dbl" where
  "pt_from_unit dp value fallback =
     (case strtod dp (trim value) of
        None \<Rightarrow> fallback
      | Some (n, rest) \<Rightarrow>
          let u = lower (trim rest)
          in if u = ''pt'' \<or> u = '''' then n
             else if u = ''mm'' then dbl_mul n (round64 2.83464566929134)
             else if u = ''cm'' then dbl_mul n (round64 28.3464566929134)
             else if u = ''in'' then dbl_mul n (Fin 72)
             else if u = ''px'' then dbl_mul n (Fin 0.75)
             else fallback)"

section \<open>The built-in style\<close>

definition h_style :: "rat \<Rightarrow> text_style" where
  "h_style pt = no_text_style\<lparr>ts_font_size := Fin pt, ts_weight := 700\<rparr>"

definition h_box :: "rat \<Rightarrow> rat \<Rightarrow> box_style" where
  "h_box mt mb = no_box_style\<lparr>bx_margin_top := Fin mt, bx_margin_bottom := Fin mb, bx_any_set := True\<rparr>"

definition default_text :: "palette \<Rightarrow> style_selector \<Rightarrow> text_style" where
  "default_text p x =
     (case x of
        SelH1 \<Rightarrow> h_style 21 | SelH2 \<Rightarrow> h_style 16.5 | SelH3 \<Rightarrow> h_style 13.5
      | SelH4 \<Rightarrow> h_style 12 | SelH5 \<Rightarrow> h_style 11 | SelH6 \<Rightarrow> h_style 11
      | SelCode \<Rightarrow> no_text_style\<lparr>ts_font_family := ''monospace'', ts_font_size := Fin 10,
          ts_background := pal_code_bg p\<rparr>
      | SelPre \<Rightarrow> no_text_style\<lparr>ts_font_family := ''monospace'', ts_font_size := Fin 10,
          ts_background := darkened (pal_code_bg p) (round32 0.97)\<rparr>
      | SelBlockquote \<Rightarrow> no_text_style\<lparr>ts_font_size := Fin 11, ts_background := pal_quote_bg p\<rparr>
      | SelLink \<Rightarrow> no_text_style\<lparr>ts_color := pal_accent p, ts_underline := True\<rparr>
      | SelTableHeader \<Rightarrow> no_text_style\<lparr>ts_weight := 700, ts_background := pal_surface p\<rparr>
      | SelTocTitle \<Rightarrow> no_text_style\<lparr>ts_weight := 700\<rparr>
      | SelTocLink \<Rightarrow> no_text_style\<lparr>ts_color := pal_text p\<rparr>
      | _ \<Rightarrow> no_text_style)"

definition default_box :: "palette \<Rightarrow> style_selector \<Rightarrow> box_style" where
  "default_box p x =
     (case x of
        SelH1 \<Rightarrow> h_box 18 9 | SelH2 \<Rightarrow> h_box 14 7 | SelH3 \<Rightarrow> h_box 12 5
      | SelH4 \<Rightarrow> h_box 10 4 | SelH5 \<Rightarrow> h_box 9 3 | SelH6 \<Rightarrow> h_box 9 3
      | SelPre \<Rightarrow> (h_box 8 8)\<lparr>bx_padding := Fin 8\<rparr>
      | SelBlockquote \<Rightarrow> (h_box 6 6)\<lparr>bx_padding := Fin 8, bx_border_left_width := Fin 3,
          bx_border_color := pal_border p\<rparr>
      | SelParagraph \<Rightarrow> h_box 4 4
      | SelListItem \<Rightarrow> h_box 1 1
      | SelList \<Rightarrow> h_box 4 4
      | SelTableHeader \<Rightarrow> (h_box 0 0)\<lparr>bx_padding := Fin 3\<rparr>
      | SelTableCell \<Rightarrow> (h_box 0 0)\<lparr>bx_padding := Fin 3\<rparr>
      | SelTable \<Rightarrow> (h_box 8 8)\<lparr>bx_border_width := Fin 1, bx_border_color := pal_border p\<rparr>
      | SelToc \<Rightarrow> h_box 6 12
      | _ \<Rightarrow> no_box_style)"

definition default_style :: "palette \<Rightarrow> style_sheet" where
  "default_style p = new_style_sheet\<lparr>st_base_font := ''sans'', st_base_font_pt := Fin 11,
     st_line_height := round64 1.55, st_text_color := pal_text p, st_bg_color := pal_bg p,
     st_hr_color := pal_border p, st_link_color := pal_accent p,
     st_text := default_text p, st_box := default_box p\<rparr>"

definition light_palette :: palette where
  "light_palette = default_palette\<lparr>
     pal_text := rgb100 13 15 17, pal_text_muted := rgb100 42 44 48, pal_accent := rgb100 25 34 92,
     pal_bg := rgb100 100 100 100, pal_surface := rgb100 97 98 98, pal_border := rgb100 80 83 88,
     pal_code_bg := rgb100 94 94 96, pal_quote_bg := rgb100 96 97 99\<rparr>"

definition dark_palette :: palette where
  "dark_palette = default_palette\<lparr>
     pal_text := rgb100 91 92 94, pal_text_muted := rgb100 62 64 68, pal_accent := rgb100 56 62 98,
     pal_bg := rgb100 10 11 13, pal_surface := rgb100 15 16 18, pal_border := rgb100 28 30 34,
     pal_code_bg := rgb100 17 18 20, pal_quote_bg := rgb100 14 15 17\<rparr>"

end
