(* ===== verification/Style_Parser.thy ===== *)
theory Style_Parser
  imports Markdown_Style
begin

text \<open>
  The parser of style sheet text (\<^verbatim>\<open>apply_style\<close> of \<^verbatim>\<open>gui/markdown/markdown_style.cpp\<close>): rules with
  groups of selectors, declarations, and page rules.  It changes a style sheet rule by rule.
\<close>

section \<open>Text\<close>

text \<open>The parts before and after the first \<open>c\<close>\<close>

definition cut_at :: "char \<Rightarrow> string \<Rightarrow> (string \<times> string) option" where
  "cut_at c s = (if c \<in> set s then Some (takeWhile (\<lambda>x. x \<noteq> c) s, tl (dropWhile (\<lambda>x. x \<noteq> c) s)) else None)"

fun split_on :: "char \<Rightarrow> string \<Rightarrow> string list" where
  "split_on c [] = [[]]"
| "split_on c (x # s) =
     (if x = c then [] # split_on c s
      else (case split_on c s of p # ps \<Rightarrow> (x # p) # ps | [] \<Rightarrow> [[x]]))"

text \<open>The declarations of a body: names in lower case and values, both without the blanks around them.\<close>

definition css_decl :: "(string \<Rightarrow> string) \<Rightarrow> string \<Rightarrow> (string \<times> string) option" where
  "css_decl tr decl =
     (case cut_at CHR '':'' decl of
        None \<Rightarrow> None
      | Some (name, value) \<Rightarrow>
          if tr name = '''' \<or> tr value = '''' then None else Some (lower (tr name), tr value))"

definition css_decls :: "(string \<Rightarrow> string) \<Rightarrow> string \<Rightarrow> (string \<times> string) list" where
  "css_decls tr body = List.map_filter (css_decl tr) (split_on CHR '';'' body)"

text \<open>The rules of a text: what stands before a \<^verbatim>\<open>{\<close>, and what stands before the \<^verbatim>\<open>}\<close> after it.\<close>

lemma cut_at_length: "cut_at c s = Some (a, b) \<Longrightarrow> length b < length s"
proof -
  assume a: "cut_at c s = Some (a, b)"
  then have "c \<in> set s" "b = tl (dropWhile (\<lambda>x. x \<noteq> c) s)" by (simp_all add: cut_at_def split: if_splits)
  moreover from this have "dropWhile (\<lambda>x. x \<noteq> c) s \<noteq> []" by (auto simp: dropWhile_eq_Nil_conv)
  ultimately show "length b < length s"
    using length_dropWhile_le [of "\<lambda>x. x \<noteq> c" s] by (cases "dropWhile (\<lambda>x. x \<noteq> c) s") auto
qed

function css_rules :: "string \<Rightarrow> (string \<times> string) list" where
  "css_rules css =
     (case cut_at CHR ''{'' css of
        None \<Rightarrow> []
      | Some (sel, rest) \<Rightarrow>
          (case cut_at CHR ''}'' rest of
             None \<Rightarrow> []
           | Some (body, rest) \<Rightarrow> (sel, body) # css_rules rest))"
  by pat_completeness auto
termination
  by (relation "measure length") (auto dest!: cut_at_length)

declare css_rules.simps [simp del]

section \<open>Declarations\<close>

definition set_box_value :: "char \<Rightarrow> string \<Rightarrow> string \<Rightarrow> box_style \<Rightarrow> box_style" where
  "set_box_value dp name val b =
     (let n = lower name; v = pt_from_unit dp val (Fin 0);
          b = (if n = ''margin'' then
                 b\<lparr>bx_margin_top := v, bx_margin_bottom := v, bx_margin_left := v, bx_margin_right := v\<rparr>
               else if n = ''margin-top'' then b\<lparr>bx_margin_top := v\<rparr>
               else if n = ''margin-bottom'' then b\<lparr>bx_margin_bottom := v\<rparr>
               else if n = ''margin-left'' then b\<lparr>bx_margin_left := v\<rparr>
               else if n = ''margin-right'' then b\<lparr>bx_margin_right := v\<rparr>
               else if n = ''padding'' then b\<lparr>bx_padding := v\<rparr>
               else if n = ''border'' then
                 b\<lparr>bx_border_width := v,
                   bx_border_left_width := if dbl_less (Fin 0) v then v else bx_border_left_width b\<rparr>
               else if n = ''border-left'' \<or> n = ''border-left-width'' then b\<lparr>bx_border_left_width := v\<rparr>
               else if n = ''border-width'' then b\<lparr>bx_border_width := v\<rparr>
               else b)
      in b\<lparr>bx_any_set := True\<rparr>)"

definition set_line_height :: "char \<Rightarrow> string \<Rightarrow> style_sheet \<Rightarrow> style_sheet" where
  "set_line_height dp value s =
     (let lh = pt_from_unit dp value (Fin (- 1))
      in if dbl_less (Fin 0) lh then s\<lparr>st_line_height := dbl_max (Fin 1) lh\<rparr>
         else let lv = trim value
              in if lv \<noteq> '''' \<and> is_digit (hd lv)
                 then (case strtod dp lv of
                         Some (n, _) \<Rightarrow> if dbl_less (Fin 0) n then s\<lparr>st_line_height := n\<rparr> else s
                       | None \<Rightarrow> s)
                 else s)"

text \<open>The declarations that only the document has; \<open>None\<close> when the code goes on to the others.\<close>

definition document_declaration :: "char \<Rightarrow> palette \<Rightarrow> string \<Rightarrow> string \<Rightarrow> style_sheet \<Rightarrow> style_sheet option" where
  "document_declaration dp p name value s =
     (if name = ''color'' then map_option (\<lambda>c. s\<lparr>st_text_color := c\<rparr>) (parse_color dp p value)
      else if name = ''background'' \<or> name = ''background-color'' then
        map_option (\<lambda>c. s\<lparr>st_bg_color := c\<rparr>) (parse_color dp p value)
      else if name = ''font-family'' then Some (s\<lparr>st_base_font := value\<rparr>)
      else if name = ''font-size'' then Some (s\<lparr>st_base_font_pt := pt_from_unit dp value (st_base_font_pt s)\<rparr>)
      else if name = ''line-height'' then Some (set_line_height dp value s)
      else None)"

definition set_weight :: "string \<Rightarrow> text_style \<Rightarrow> text_style" where
  "set_weight lv t =
     (if lv = ''bold'' then t\<lparr>ts_weight := 700\<rparr>
      else if lv = ''normal'' then t\<lparr>ts_weight := 400\<rparr>
      else case strtol lv of
             Some (n, _) \<Rightarrow> t\<lparr>ts_weight := word_of_int n\<rparr>
           | None \<Rightarrow> t)"

definition set_decoration :: "string \<Rightarrow> text_style \<Rightarrow> text_style" where
  "set_decoration lv t =
     (if lv = ''underline'' then t\<lparr>ts_underline := True, ts_underline_set := True\<rparr>
      else if lv = ''strikethrough'' \<or> lv = ''line-through'' then t\<lparr>ts_strike := True, ts_strike_set := True\<rparr>
      else if lv = ''none'' then
        t\<lparr>ts_underline := False, ts_strike := False, ts_underline_set := True, ts_strike_set := True\<rparr>
      else t)"

definition text_declaration :: "char \<Rightarrow> palette \<Rightarrow> string \<Rightarrow> string \<Rightarrow> text_style \<Rightarrow> text_style option" where
  "text_declaration dp p name value t =
     (if name = ''color'' then
        Some (case parse_color dp p value of Some c \<Rightarrow> t\<lparr>ts_color := c\<rparr> | None \<Rightarrow> t)
      else if name = ''background'' \<or> name = ''background-color'' then
        Some (case parse_color dp p value of Some c \<Rightarrow> t\<lparr>ts_background := c\<rparr> | None \<Rightarrow> t)
      else if name = ''font-family'' then Some (t\<lparr>ts_font_family := value\<rparr>)
      else if name = ''font-size'' then Some (t\<lparr>ts_font_size := pt_from_unit dp value (ts_font_size t)\<rparr>)
      else if name = ''font-weight'' then Some (set_weight (lower value) t)
      else if name = ''font-style'' then Some (t\<lparr>ts_italic := (lower value = ''italic''), ts_italic_set := True\<rparr>)
      else if name = ''text-decoration'' then Some (set_decoration (lower value) t)
      else None)"

definition set_box :: "char \<Rightarrow> style_selector \<Rightarrow> string \<Rightarrow> string \<Rightarrow> style_sheet \<Rightarrow> style_sheet" where
  "set_box dp sel name value s = s\<lparr>st_box := (st_box s)(sel := set_box_value dp name value (st_box s sel))\<rparr>"

definition apply_declaration :: "char \<Rightarrow> palette \<Rightarrow> style_selector \<Rightarrow> string \<times> string \<Rightarrow> style_sheet \<Rightarrow> style_sheet" where
  "apply_declaration dp p sel = (\<lambda>(name, value) s.
     case (if sel = SelDocument then document_declaration dp p name value s else None) of
       Some s' \<Rightarrow> s'
     | None \<Rightarrow>
         if sel = SelHr then
           (case (if name = ''color'' then parse_color dp p value else None) of
              Some c \<Rightarrow> s\<lparr>st_hr_color := c\<rparr>
            | None \<Rightarrow> set_box dp sel name value s)
         else case text_declaration dp p name value (st_text s sel) of
                Some t \<Rightarrow> s\<lparr>st_text := (st_text s)(sel := t)\<rparr>
              | None \<Rightarrow> set_box dp sel name value s)"

definition parse_declarations :: "char \<Rightarrow> palette \<Rightarrow> style_selector \<Rightarrow> string \<Rightarrow> style_sheet \<Rightarrow> style_sheet" where
  "parse_declarations dp p sel body s = fold (apply_declaration dp p sel) (css_decls trim body) s"

definition page_declaration :: "char \<Rightarrow> string \<times> string \<Rightarrow> style_sheet \<Rightarrow> style_sheet" where
  "page_declaration dp = (\<lambda>(name, value) s.
     if name = ''size'' then
       (let v = lower value
        in if v = ''a4'' then
             s\<lparr>st_page_width := round64 595.28, st_page_height := round64 841.89, st_page_size := ''a4''\<rparr>
           else if v = ''letter'' then
             s\<lparr>st_page_width := Fin 612, st_page_height := Fin 792, st_page_size := ''letter''\<rparr>
           else s)
     else if name = ''width'' then s\<lparr>st_page_width := pt_from_unit dp value (st_page_width s)\<rparr>
     else if name = ''height'' then s\<lparr>st_page_height := pt_from_unit dp value (st_page_height s)\<rparr>
     else if name = ''margin'' then s\<lparr>st_page_margin := pt_from_unit dp value (st_page_margin s)\<rparr>
     else s)"

definition apply_page_rule :: "char \<Rightarrow> string \<Rightarrow> style_sheet \<Rightarrow> style_sheet" where
  "apply_page_rule dp body s = fold (page_declaration dp) (css_decls trim body) s"

section \<open>Rules\<close>

definition apply_part :: "char \<Rightarrow> palette \<Rightarrow> string \<Rightarrow> string \<Rightarrow> style_sheet \<Rightarrow> style_sheet" where
  "apply_part dp p body part s =
     (if is_page_selector (trim part) then apply_page_rule dp body s
      else case selector_from_name (trim part) of
             Some sel \<Rightarrow> parse_declarations dp p sel body s
           | None \<Rightarrow> s)"

definition apply_rule :: "char \<Rightarrow> palette \<Rightarrow> string \<times> string \<Rightarrow> style_sheet \<Rightarrow> style_sheet" where
  "apply_rule dp p = (\<lambda>(sels, body) s. fold (apply_part dp p body) (split_on CHR '','' sels) s)"

definition apply_style :: "char \<Rightarrow> palette \<Rightarrow> string \<Rightarrow> style_sheet \<Rightarrow> style_sheet" where
  "apply_style dp p css base = fold (apply_rule dp p) (css_rules css) base"

section \<open>Lemmas\<close>

lemma cut_at_append: "c \<notin> set a \<Longrightarrow> cut_at c (a @ c # b) = Some (a, b)"
  by (induction a) (auto simp: cut_at_def split: if_splits)

definition rule_text :: "string \<times> string \<Rightarrow> string" where
  "rule_text = (\<lambda>(sels, body). sels @ ''{'' @ body @ ''}'')"

definition plain_rule :: "string \<times> string \<Rightarrow> bool" where
  "plain_rule = (\<lambda>(sels, body). CHR ''{'' \<notin> set sels \<and> CHR ''}'' \<notin> set body)"

lemma css_rules_text:
  assumes "list_all plain_rule rs"
  shows "css_rules (concat (map rule_text rs) @ css) = rs @ css_rules css"
  using assms
proof (induction rs)
  case (Cons r rs)
  obtain sels body where r: "r = (sels, body)" by fastforce
  with Cons.prems have p: "CHR ''{'' \<notin> set sels" "CHR ''}'' \<notin> set body" by (simp_all add: plain_rule_def)
  have "css_rules (sels @ CHR ''{'' # (body @ CHR ''}'' # (concat (map rule_text rs) @ css))) =
    (sels, body) # css_rules (concat (map rule_text rs) @ css)"
    by (subst css_rules.simps) (simp only: cut_at_append [OF p(1)] cut_at_append [OF p(2)] option.case prod.case)
  with Cons show ?case by (simp add: r rule_text_def)
qed simp

text \<open>A rule changes only what its selectors name, and no rule but a page rule changes the page.\<close>

definition page_geometry :: "style_sheet \<Rightarrow> dbl \<times> dbl \<times> dbl \<times> string" where
  "page_geometry s = (st_page_width s, st_page_height s, st_page_margin s, st_page_size s)"

definition base_style :: "style_sheet \<Rightarrow> string \<times> dbl \<times> dbl \<times> color \<times> color" where
  "base_style s = (st_base_font s, st_base_font_pt s, st_line_height s, st_text_color s, st_bg_color s)"

text \<open>The selectors a group names; a page selector names none.\<close>

definition named_selectors :: "string \<Rightarrow> style_selector set" where
  "named_selectors sels = {x. \<exists>part \<in> set (split_on CHR '','' sels).
     \<not> is_page_selector (trim part) \<and> selector_from_name (trim part) = Some x}"

definition names_page :: "string \<Rightarrow> bool" where
  "names_page sels \<longleftrightarrow> (\<exists>part \<in> set (split_on CHR '','' sels). is_page_selector (trim part))"

definition agree :: "style_selector set \<Rightarrow> bool \<Rightarrow> style_sheet \<Rightarrow> style_sheet \<Rightarrow> bool" where
  "agree X page s s' \<longleftrightarrow> (\<forall>x. x \<notin> X \<longrightarrow> st_text s' x = st_text s x \<and> st_box s' x = st_box s x) \<and>
     (\<not> page \<longrightarrow> page_geometry s' = page_geometry s) \<and> (SelDocument \<notin> X \<longrightarrow> base_style s' = base_style s) \<and>
     (SelHr \<notin> X \<longrightarrow> st_hr_color s' = st_hr_color s) \<and> st_link_color s' = st_link_color s"

lemma agree_refl [simp]: "agree X page s s"
  by (simp add: agree_def)

lemma agree_trans: "agree X page s s' \<Longrightarrow> agree X page s' s'' \<Longrightarrow> agree X page s s''"
  by (simp add: agree_def)

lemma agree_mono: "agree X page s s' \<Longrightarrow> X \<subseteq> Y \<Longrightarrow> (page \<Longrightarrow> page') \<Longrightarrow> agree Y page' s s'"
  unfolding agree_def by blast

lemma agree_fold:
  assumes "\<And>x s. x \<in> set xs \<Longrightarrow> agree X page s (f x s)"
  shows "agree X page s (fold f xs s)"
  using assms
proof (induction xs arbitrary: s)
  case (Cons x xs)
  then show ?case using agree_trans [of X page s "f x s"] by simp
qed simp

lemma agree_box [simp]: "agree {sel} page s (set_box dp sel name value s)"
  by (auto simp: agree_def set_box_def page_geometry_def base_style_def)

lemma document_declaration_agree: "document_declaration dp p name value s = Some s' \<Longrightarrow> agree {SelDocument} page s s'"
  by (auto simp: document_declaration_def agree_def page_geometry_def set_line_height_def Let_def
      split: if_splits option.splits)

lemma apply_declaration_agree: "agree {sel} page s (apply_declaration dp p sel d s)"
proof -
  obtain nm v where d: "d = (nm, v)" by fastforce
  show ?thesis
  proof (cases "if sel = SelDocument then document_declaration dp p nm v s else None")
    case (Some s')
    then have "sel = SelDocument" "document_declaration dp p nm v s = Some s'" by (simp_all split: if_splits)
    with Some show ?thesis by (simp add: apply_declaration_def d document_declaration_agree)
  next
    case None
    then show ?thesis
      by (auto simp: apply_declaration_def d agree_def page_geometry_def base_style_def set_box_def split: option.splits)
  qed
qed

lemma parse_declarations_agree: "agree {sel} page s (parse_declarations dp p sel body s)"
  unfolding parse_declarations_def by (rule agree_fold) (rule apply_declaration_agree)

lemma page_declaration_agree: "agree X True s (page_declaration dp d s)"
  by (cases d) (auto simp: page_declaration_def agree_def base_style_def Let_def)

lemma apply_page_rule_agree: "agree X True s (apply_page_rule dp body s)"
  unfolding apply_page_rule_def by (rule agree_fold) (rule page_declaration_agree)

lemma apply_rule_agree: "agree (named_selectors sels) (names_page sels) s (apply_rule dp p (sels, body) s)"
  unfolding apply_rule_def prod.case
proof (rule agree_fold)
  fix part s
  assume part: "part \<in> set (split_on CHR '','' sels)"
  show "agree (named_selectors sels) (names_page sels) s (apply_part dp p body part s)"
  proof (cases "is_page_selector (trim part)")
    case True
    then have "names_page sels" using part by (auto simp: names_page_def)
    with True show ?thesis by (simp add: apply_part_def apply_page_rule_agree)
  next
    case False
    show ?thesis
    proof (cases "selector_from_name (trim part)")
      case None
      with False show ?thesis by (simp add: apply_part_def)
    next
      case (Some sel)
      then have "sel \<in> named_selectors sels" using False part by (auto simp: named_selectors_def)
      with False Some show ?thesis
        using agree_mono [OF parse_declarations_agree [of sel "names_page sels" s dp p body]]
        by (simp add: apply_part_def)
    qed
  qed
qed

end
