(* ===== verification/Inline_Html.thy ===== *)
theory Inline_Html
  imports Style_Parser
begin

text \<open>
  \<^verbatim>\<open>gui/markdown/markdown_inline_html.hpp\<close> and \<^verbatim>\<open>.cpp\<close>: colours and declarations of a \<^verbatim>\<open>style\<close>
  attribute, the style of a tag, the tokenizer of one tag and the renderer of a raw HTML block.
  \<open>dp\<close> is the decimal point of the locale and \<open>undef\<close> the machine's conversion of a NaN to an integer.
  A loop that does not end is the value \<open>None\<close>.
\<close>

section \<open>Characters\<close>

definition html_space :: "char \<Rightarrow> bool" where
  "html_space c \<longleftrightarrow> c \<in> {CHR '' '', CHR 0x09, CHR 0x0A, CHR 0x0D, CHR 0x0C}"

definition html_trim :: "string \<Rightarrow> string" where
  "html_trim s = rev (dropWhile html_space (rev (dropWhile html_space s)))"

definition is_name_char :: "char \<Rightarrow> bool" where
  "is_name_char c \<longleftrightarrow> is_alnum c \<or> c = CHR ''-'' \<or> c = CHR ''_''"

section \<open>Colours\<close>

definition named_colors :: "(string \<times> u32) list" where
  "named_colors = [
     (''aliceblue'', 0xf0f8ff), (''antiquewhite'', 0xfaebd7), (''aqua'', 0x00ffff), (''aquamarine'', 0x7fffd4),
     (''azure'', 0xf0ffff), (''beige'', 0xf5f5dc), (''bisque'', 0xffe4c4), (''black'', 0x000000),
     (''blanchedalmond'', 0xffebcd), (''blue'', 0x0000ff), (''blueviolet'', 0x8a2be2), (''brown'', 0xa52a2a),
     (''burlywood'', 0xdeb887), (''cadetblue'', 0x5f9ea0), (''chartreuse'', 0x7fff00), (''chocolate'', 0xd2691e),
     (''coral'', 0xff7f50), (''cornflowerblue'', 0x6495ed), (''cornsilk'', 0xfff8dc), (''crimson'', 0xdc143c),
     (''cyan'', 0x00ffff), (''darkblue'', 0x00008b), (''darkcyan'', 0x008b8b), (''darkgoldenrod'', 0xb8860b),
     (''darkgray'', 0xa9a9a9), (''darkgreen'', 0x006400), (''darkgrey'', 0xa9a9a9), (''darkkhaki'', 0xbdb76b),
     (''darkmagenta'', 0x8b008b), (''darkolivegreen'', 0x556b2f), (''darkorange'', 0xff8c00),
     (''darkorchid'', 0x9932cc), (''darkred'', 0x8b0000), (''darksalmon'', 0xe9967a), (''darkseagreen'', 0x8fbc8f),
     (''darkslateblue'', 0x483d8b), (''darkslategray'', 0x2f4f4f), (''darkslategrey'', 0x2f4f4f),
     (''darkturquoise'', 0x00ced1), (''darkviolet'', 0x9400d3), (''deeppink'', 0xff1493),
     (''deepskyblue'', 0x00bfff), (''dimgray'', 0x696969), (''dimgrey'', 0x696969), (''dodgerblue'', 0x1e90ff),
     (''firebrick'', 0xb22222), (''floralwhite'', 0xfffaf0), (''forestgreen'', 0x228b22), (''fuchsia'', 0xff00ff),
     (''gainsboro'', 0xdcdcdc), (''ghostwhite'', 0xf8f8ff), (''gold'', 0xffd700), (''goldenrod'', 0xdaa520),
     (''gray'', 0x808080), (''green'', 0x008000), (''greenyellow'', 0xadff2f), (''grey'', 0x808080),
     (''honeydew'', 0xf0fff0), (''hotpink'', 0xff69b4), (''indianred'', 0xcd5c5c), (''indigo'', 0x4b0082),
     (''ivory'', 0xfffff0), (''khaki'', 0xf0e68c), (''lavender'', 0xe6e6fa), (''lavenderblush'', 0xfff0f5),
     (''lawngreen'', 0x7cfc00), (''lemonchiffon'', 0xfffacd), (''lightblue'', 0xadd8e6), (''lightcoral'', 0xf08080),
     (''lightcyan'', 0xe0ffff), (''lightgoldenrodyellow'', 0xfafad2), (''lightgray'', 0xd3d3d3),
     (''lightgreen'', 0x90ee90), (''lightgrey'', 0xd3d3d3), (''lightpink'', 0xffb6c1), (''lightsalmon'', 0xffa07a),
     (''lightseagreen'', 0x20b2aa), (''lightskyblue'', 0x87cefa), (''lightslategray'', 0x778899),
     (''lightslategrey'', 0x778899), (''lightsteelblue'', 0xb0c4de), (''lightyellow'', 0xffffe0),
     (''lime'', 0x00ff00), (''limegreen'', 0x32cd32), (''linen'', 0xfaf0e6), (''magenta'', 0xff00ff),
     (''maroon'', 0x800000), (''mediumaquamarine'', 0x66cdaa), (''mediumblue'', 0x0000cd),
     (''mediumorchid'', 0xba55d3), (''mediumpurple'', 0x9370db), (''mediumseagreen'', 0x3cb371),
     (''mediumslateblue'', 0x7b68ee), (''mediumspringgreen'', 0x00fa9a), (''mediumturquoise'', 0x48d1cc),
     (''mediumvioletred'', 0xc71585), (''midnightblue'', 0x191970), (''mintcream'', 0xf5fffa),
     (''mistyrose'', 0xffe4e1), (''moccasin'', 0xffe4b5), (''navajowhite'', 0xffdead), (''navy'', 0x000080),
     (''oldlace'', 0xfdf5e6), (''olive'', 0x808000), (''olivedrab'', 0x6b8e23), (''orange'', 0xffa500),
     (''orangered'', 0xff4500), (''orchid'', 0xda70d6), (''palegoldenrod'', 0xeee8aa), (''palegreen'', 0x98fb98),
     (''paleturquoise'', 0xafeeee), (''palevioletred'', 0xdb7093), (''papayawhip'', 0xffefd5),
     (''peachpuff'', 0xffdab9), (''peru'', 0xcd853f), (''pink'', 0xffc0cb), (''plum'', 0xdda0dd),
     (''powderblue'', 0xb0e0e6), (''purple'', 0x800080), (''rebeccapurple'', 0x663399), (''red'', 0xff0000),
     (''rosybrown'', 0xbc8f8f), (''royalblue'', 0x4169e1), (''saddlebrown'', 0x8b4513), (''salmon'', 0xfa8072),
     (''sandybrown'', 0xf4a460), (''seagreen'', 0x2e8b57), (''seashell'', 0xfff5ee), (''sienna'', 0xa0522d),
     (''silver'', 0xc0c0c0), (''skyblue'', 0x87ceeb), (''slateblue'', 0x6a5acd), (''slategray'', 0x708090),
     (''slategrey'', 0x708090), (''snow'', 0xfffafa), (''springgreen'', 0x00ff7f), (''steelblue'', 0x4682b4),
     (''tan'', 0xd2b48c), (''teal'', 0x008080), (''thistle'', 0xd8bfd8), (''tomato'', 0xff6347),
     (''turquoise'', 0x40e0d0), (''violet'', 0xee82ee), (''wheat'', 0xf5deb3), (''white'', 0xffffff),
     (''whitesmoke'', 0xf5f5f5), (''yellow'', 0xffff00), (''yellowgreen'', 0x9acd32)]"

definition color_from_rgb :: "int \<Rightarrow> int \<Rightarrow> int \<Rightarrow> dbl \<Rightarrow> color" where
  "color_from_rgb r g b a = \<lparr>col_r = channel (round32 (of_int r)), col_g = channel (round32 (of_int g)),
     col_b = channel (round32 (of_int b)), col_a = a, col_valid = True\<rparr>"

text \<open>\<^verbatim>\<open>strtod\<close> that has to end at the end of the text: without a number only the empty text does.\<close>

definition strtod_all :: "char \<Rightarrow> string \<Rightarrow> dbl option" where
  "strtod_all dp s =
     (case strtod dp s of
        None \<Rightarrow> if cstr s = '''' then Some (Fin 0) else None
      | Some (n, rest) \<Rightarrow> if rest = '''' then Some n else None)"

definition parse_channel :: "char \<Rightarrow> i32 \<Rightarrow> string \<Rightarrow> int option" where
  "parse_channel dp undef s =
     (let v = html_trim s
      in if v = '''' then None
         else if last v = CHR ''%'' then
           map_option (\<lambda>pct. sint (int_of_dbl undef
               (dbl_div (dbl_mul (dbl_clamp pct (Fin 0) (Fin 100)) (Fin 255)) (Fin 100)))) (strtod_all dp (butlast v))
         else map_option (\<lambda>n. sint (int_of_dbl undef (dbl_clamp n (Fin 0) (Fin 255)))) (strtod_all dp v))"

definition parse_alpha_channel :: "char \<Rightarrow> string \<Rightarrow> dbl option" where
  "parse_alpha_channel dp s =
     (let v = html_trim s
      in if v = '''' then None
         else if last v = CHR ''%'' then
           map_option (\<lambda>pct. to_flt (dbl_div (dbl_clamp pct (Fin 0) (Fin 100)) (Fin 100))) (strtod_all dp (butlast v))
         else map_option (\<lambda>n. to_flt (dbl_clamp n (Fin 0) (Fin 1))) (strtod_all dp v))"

definition strip_function :: "string \<Rightarrow> string \<Rightarrow> string" where
  "strip_function v fn =
     (if \<not> starts_with fn (lower v) then ''''
      else case cut_at CHR ''('' v of
             None \<Rightarrow> ''''
           | Some (_, inner) \<Rightarrow>
               if CHR '')'' \<in> set inner
               then rev (tl (dropWhile (\<lambda>c. c \<noteq> CHR '')'') (rev inner))) else '''')"

definition hex_digits :: "string \<Rightarrow> nat list option" where
  "hex_digits h = those (map hex_val h)"

definition hex_color :: "string \<Rightarrow> color" where
  "hex_color h =
     (let h = (if length h = 3 \<or> length h = 4 then concat (map (\<lambda>c. [c, c]) h) else h)
      in case hex_digits h of
           Some [a, b, c, d, e, f] \<Rightarrow>
             color_from_rgb (int (16 * a + b)) (int (16 * c + d)) (int (16 * e + f)) (Fin 1)
         | Some [a, b, c, d, e, f, g, h] \<Rightarrow>
             color_from_rgb (int (16 * a + b)) (int (16 * c + d)) (int (16 * e + f)) (channel (Fin (of_nat (16 * g + h))))
         | _ \<Rightarrow> no_color)"

definition color_parts :: "string \<Rightarrow> string list" where
  "color_parts inner = map html_trim (split_on CHR '','' (map (\<lambda>c. if c = CHR ''/'' then CHR '','' else c) inner))"

definition rgb_function :: "char \<Rightarrow> i32 \<Rightarrow> bool \<Rightarrow> string list \<Rightarrow> color option" where
  "rgb_function dp undef has_alpha parts =
     (if length parts \<noteq> (if has_alpha then 4 else 3) then None
      else do {
        r \<leftarrow> parse_channel dp undef (parts ! 0);
        g \<leftarrow> parse_channel dp undef (parts ! 1);
        b \<leftarrow> parse_channel dp undef (parts ! 2);
        a \<leftarrow> (if has_alpha then parse_alpha_channel dp (parts ! 3) else Some (Fin 1));
        Some (color_from_rgb r g b a)
      })"

definition parse_css_color :: "char \<Rightarrow> i32 \<Rightarrow> string \<Rightarrow> color" where
  "parse_css_color dp undef val =
     (let v = lower (html_trim val)
      in if v = '''' then no_color
         else case map_of named_colors v of
                Some n \<Rightarrow> color_from_rgb (uint (drop_bit 16 n AND 0xFF)) (uint (drop_bit 8 n AND 0xFF)) (uint (n AND 0xFF)) (Fin 1)
              | None \<Rightarrow>
                  if hd v = CHR ''#'' then hex_color (tl v)
                  else let inner = strip_function v ''rgba''; has_alpha = (inner \<noteq> '''');
                           inner = (if has_alpha then inner else strip_function v ''rgb'')
                       in if inner = '''' then no_color
                          else case rgb_function dp undef has_alpha (color_parts inner) of
                                 Some c \<Rightarrow> c
                               | None \<Rightarrow> no_color)"

section \<open>Declarations\<close>

record inline_css =
  ic_has_color :: bool
  ic_color :: color
  ic_has_bg :: bool
  ic_background :: color
  ic_weight :: i32
  ic_italic_set :: bool
  ic_italic :: bool
  ic_underline_set :: bool
  ic_underline :: bool
  ic_strike_set :: bool
  ic_strike :: bool
  ic_size_pt :: dbl
  ic_size_pct :: dbl
  ic_font_family :: string

definition no_css :: inline_css where
  "no_css = \<lparr>ic_has_color = False, ic_color = no_color, ic_has_bg = False, ic_background = no_color,
     ic_weight = 0, ic_italic_set = False, ic_italic = False, ic_underline_set = False, ic_underline = False,
     ic_strike_set = False, ic_strike = False, ic_size_pt = Fin 0, ic_size_pct = Fin 0, ic_font_family = ''''\<rparr>"

definition css_weight :: "string \<Rightarrow> inline_css \<Rightarrow> inline_css" where
  "css_weight w out =
     (if w = ''bold'' \<or> w = ''bolder'' then out\<lparr>ic_weight := 700\<rparr>
      else if w = ''normal'' \<or> w = ''lighter'' then out\<lparr>ic_weight := 400\<rparr>
      else case strtol w of
             Some (n, rest) \<Rightarrow> if rest = '''' \<and> 100 \<le> n \<and> n \<le> 900 then out\<lparr>ic_weight := word_of_int n\<rparr> else out
           | None \<Rightarrow> out)"

definition css_decoration :: "string \<Rightarrow> inline_css \<Rightarrow> inline_css" where
  "css_decoration tv out =
     (let out = (if contains ''underline'' tv then out\<lparr>ic_underline_set := True, ic_underline := True\<rparr> else out);
          out = (if contains ''line-through'' tv then out\<lparr>ic_strike_set := True, ic_strike := True\<rparr> else out)
      in if tv = ''none'' then out\<lparr>ic_underline_set := True, ic_underline := False, ic_strike_set := True,
                                  ic_strike := False\<rparr>
         else out)"

definition css_size :: "char \<Rightarrow> string \<Rightarrow> inline_css \<Rightarrow> inline_css" where
  "css_size dp val out =
     (if val \<noteq> '''' \<and> last val = CHR ''%'' then
        (case strtod dp (butlast val) of
           Some (pct, rest) \<Rightarrow>
             if rest = '''' then out\<lparr>ic_size_pct := dbl_clamp (dbl_div pct (Fin 100)) (round64 0.05) (Fin 4)\<rparr> else out
         | None \<Rightarrow> out)
      else
        (case strtod dp val of
           Some (n, rest) \<Rightarrow>
             let u = lower (html_trim rest)
             in if (u = ''pt'' \<or> u = '''') \<and> dbl_less (Fin 0) n then out\<lparr>ic_size_pt := n\<rparr>
                else if u = ''px'' \<and> dbl_less (Fin 0) n then out\<lparr>ic_size_pt := dbl_mul n (Fin 0.75)\<rparr>
                else out
         | None \<Rightarrow> out))"

definition unquote :: "string \<Rightarrow> string" where
  "unquote f =
     (if 2 \<le> length f \<and> (hd f = CHR 0x22 \<and> last f = CHR 0x22 \<or> hd f = CHR 0x27 \<and> last f = CHR 0x27)
      then butlast (tl f) else f)"

definition css_property :: "char \<Rightarrow> i32 \<Rightarrow> string \<times> string \<Rightarrow> inline_css \<Rightarrow> inline_css" where
  "css_property dp undef = (\<lambda>(prop, val) out.
     if prop = ''color'' then
       (let c = parse_css_color dp undef val in if col_valid c then out\<lparr>ic_has_color := True, ic_color := c\<rparr> else out)
     else if prop = ''background-color'' then
       (let c = parse_css_color dp undef val in if col_valid c then out\<lparr>ic_has_bg := True, ic_background := c\<rparr> else out)
     else if prop = ''font-weight'' then css_weight (lower val) out
     else if prop = ''font-style'' then
       out\<lparr>ic_italic_set := True, ic_italic := (lower val = ''italic'' \<or> lower val = ''oblique'')\<rparr>
     else if prop = ''text-decoration'' then css_decoration (lower val) out
     else if prop = ''font-size'' then css_size dp val out
     else if prop = ''font-family'' then out\<lparr>ic_font_family := unquote val\<rparr>
     else out)"

definition parse_css_declaration :: "char \<Rightarrow> i32 \<Rightarrow> string \<Rightarrow> inline_css" where
  "parse_css_declaration dp undef css = fold (css_property dp undef) (css_decls html_trim css) no_css"

section \<open>The style of a tag\<close>

definition tag_defaults :: "string \<Rightarrow> style_sheet \<Rightarrow> inline_css" where
  "tag_defaults name s =
     (if name = ''b'' \<or> name = ''strong'' then no_css\<lparr>ic_weight := 700\<rparr>
      else if name = ''i'' \<or> name = ''em'' then no_css\<lparr>ic_italic_set := True, ic_italic := True\<rparr>
      else if name = ''u'' then no_css\<lparr>ic_underline_set := True, ic_underline := True\<rparr>
      else if name = ''s'' \<or> name = ''del'' then no_css\<lparr>ic_strike_set := True, ic_strike := True\<rparr>
      else if name = ''code'' then
        (let out = no_css\<lparr>ic_font_family := ''monospace''\<rparr>; cbg = ts_background (st_text s SelCode);
             out = (if col_valid cbg then out\<lparr>ic_has_bg := True, ic_background := cbg\<rparr> else out);
             fp = ts_font_size (st_text s SelCode)
         in if dbl_less (Fin 0) fp then out\<lparr>ic_size_pt := fp\<rparr> else out)
      else if name = ''mark'' then
        no_css\<lparr>ic_has_bg := True, ic_background := color_from_rgb 0xff 0xf3 0xbf (Fin 1)\<rparr>
      else no_css)"

definition merge_css :: "inline_css \<Rightarrow> inline_css \<Rightarrow> inline_css" where
  "merge_css css out =
     (let out = (if ic_has_color css then out\<lparr>ic_has_color := True, ic_color := ic_color css\<rparr> else out);
          out = (if ic_has_bg css then out\<lparr>ic_has_bg := True, ic_background := ic_background css\<rparr> else out);
          out = (if 0 <s ic_weight css then out\<lparr>ic_weight := ic_weight css\<rparr> else out);
          out = (if ic_italic_set css then out\<lparr>ic_italic_set := True, ic_italic := ic_italic css\<rparr> else out);
          out = (if ic_underline_set css then out\<lparr>ic_underline_set := True, ic_underline := ic_underline css\<rparr> else out);
          out = (if ic_strike_set css then out\<lparr>ic_strike_set := True, ic_strike := ic_strike css\<rparr> else out);
          out = (if dbl_less (Fin 0) (ic_size_pt css) then out\<lparr>ic_size_pt := ic_size_pt css\<rparr>
                 else if dbl_less (Fin 0) (ic_size_pct css) then out\<lparr>ic_size_pt := Fin 0, ic_size_pct := ic_size_pct css\<rparr>
                 else out)
      in if ic_font_family css \<noteq> '''' then out\<lparr>ic_font_family := ic_font_family css\<rparr> else out)"

definition style_from_tag :: "char \<Rightarrow> i32 \<Rightarrow> string \<Rightarrow> string \<Rightarrow> style_sheet \<Rightarrow> inline_css" where
  "style_from_tag dp undef name css s = merge_css (parse_css_declaration dp undef css) (tag_defaults name s)"

end
