(* ===== verification/Html_Blocks.thy ===== *)
theory Html_Blocks
  imports Inline_Html
begin

text \<open>
  The tokenizer of one tag (\<^verbatim>\<open>parse_html_tag\<close>) and the renderer of a raw HTML block
  (\<^verbatim>\<open>render_html_block_runs\<close>) of \<^verbatim>\<open>gui/markdown/markdown_inline_html.cpp\<close>, and the styled text
  of \<^verbatim>\<open>markdown_layout.hpp\<close> it makes.
\<close>

section \<open>Tags\<close>

record html_tag =
  tag_name :: string
  tag_style :: string
  tag_closing :: bool
  tag_self_closing :: bool
  tag_consumed :: nat

text \<open>The characters before the \<^verbatim>\<open>>\<close> that ends the tag, quoted values skipped, and whether a \<^verbatim>\<open>/>\<close> was seen.\<close>

fun scan_tag_end :: "char option \<Rightarrow> bool \<Rightarrow> nat \<Rightarrow> string \<Rightarrow> (nat \<times> bool) option" where
  "scan_tag_end quote self k [] = None"
| "scan_tag_end (Some q) self k (c # s) = scan_tag_end (if c = q then None else Some q) self (k + 1) s"
| "scan_tag_end None self k (c # s) =
     (if c = CHR 0x22 \<or> c = CHR 0x27 then scan_tag_end (Some c) self (k + 1) s
      else if c = CHR ''/'' \<and> starts_with ''>'' s then scan_tag_end None True (k + 1) s
      else if c = CHR ''>'' then Some (k, self)
      else scan_tag_end None self (k + 1) s)"

text \<open>The value after an attribute's name, and the rest\<close>

definition attr_value :: "string \<Rightarrow> string \<times> string" where
  "attr_value s =
     (let r = dropWhile html_space s
      in if starts_with ''='' r then
           (let r = dropWhile html_space (tl r)
            in if r \<noteq> [] \<and> (hd r = CHR 0x22 \<or> hd r = CHR 0x27)
               then (let q = hd r; rest = dropWhile (\<lambda>c. c \<noteq> q) (tl r)
                     in (takeWhile (\<lambda>c. c \<noteq> q) (tl r), if rest \<noteq> [] then tl rest else []))
               else (takeWhile (\<lambda>c. \<not> html_space c) r, dropWhile (\<lambda>c. \<not> html_space c) r))
         else ('''', r))"

definition attr_char :: "char \<Rightarrow> bool" where
  "attr_char c \<longleftrightarrow> \<not> html_space c \<and> c \<noteq> CHR ''=''"

text \<open>
  The loop over the attributes.  At an equals sign the name is empty and the position stays where
  it is: the loop turns for ever, which is \<open>None\<close>.
\<close>

partial_function (option) style_loop :: "string \<Rightarrow> string option" where
  "style_loop attrs =
     (let s = dropWhile html_space attrs
      in if s = [] then Some ''''
         else let nm = lower (takeWhile attr_char s); r = dropWhile attr_char s
              in if nm = '''' then style_loop r
                 else let (v, r) = attr_value r
                      in if nm = ''style'' then Some v else style_loop r)"

text \<open>\<open>None\<close> when it does not return, \<open>Some None\<close> for \<^verbatim>\<open>std::nullopt\<close>\<close>

definition parse_html_tag :: "string \<Rightarrow> html_tag option option" where
  "parse_html_tag raw =
     (if length raw < 2 \<or> hd raw \<noteq> CHR ''<'' then Some None
      else if raw ! 1 = CHR ''!'' \<or> raw ! 1 = CHR ''?'' then Some None
      else
        let closing = (raw ! 1 = CHR ''/'');
            s = (if closing then drop 2 raw else drop 1 raw);
            name = takeWhile is_name_char s; r = dropWhile is_name_char s
        in if name = '''' then Some None
           else case scan_tag_end None False 0 r of
                  None \<Rightarrow> Some None
                | Some (k, self) \<Rightarrow>
                    map_option (\<lambda>st. Some \<lparr>tag_name = lower name, tag_style = st, tag_closing = closing,
                        tag_self_closing = self, tag_consumed = length raw - length r + k + 1\<rparr>)
                      (style_loop (take k r)))"

definition kBlock :: "string list" where
  "kBlock = [''div'', ''section'', ''article'', ''aside'', ''header'', ''footer'', ''nav'', ''main'',
     ''p'', ''h1'', ''h2'', ''h3'', ''h4'', ''h5'', ''h6'', ''ul'', ''ol'', ''li'', ''dl'', ''dt'', ''dd'',
     ''table'', ''thead'', ''tbody'', ''tr'', ''td'', ''th'', ''blockquote'', ''pre'', ''hr'', ''form'',
     ''figure'', ''figcaption'']"

definition is_block_level_tag :: "string \<Rightarrow> bool" where
  "is_block_level_tag name \<longleftrightarrow> lower name \<in> set kBlock"

section \<open>Styled text\<close>

record styled_text =
  sx_text :: string
  sx_font_family :: string
  sx_size_pt :: dbl
  sx_weight :: i32
  sx_italic :: bool
  sx_strike :: bool
  sx_underline :: bool
  sx_color :: color
  sx_background :: color
  sx_is_link :: bool
  sx_href :: string
  sx_anchor :: string

text \<open>The style of the current run, which both renderers keep and save on a stack\<close>

record run_style =
  rs_font :: string
  rs_size :: dbl
  rs_weight :: i32
  rs_italic :: bool
  rs_strike :: bool
  rs_underline :: bool
  rs_color :: color
  rs_bg :: color

definition base_run :: "string \<Rightarrow> dbl \<Rightarrow> color \<Rightarrow> run_style" where
  "base_run font sz col = \<lparr>rs_font = font, rs_size = sz, rs_weight = 400, rs_italic = False, rs_strike = False,
     rs_underline = False, rs_color = col, rs_bg = no_color\<rparr>"

definition styled :: "string \<Rightarrow> run_style \<Rightarrow> styled_text" where
  "styled t rs = \<lparr>sx_text = t, sx_font_family = rs_font rs, sx_size_pt = rs_size rs, sx_weight = rs_weight rs,
     sx_italic = rs_italic rs, sx_strike = rs_strike rs, sx_underline = rs_underline rs, sx_color = rs_color rs,
     sx_background = rs_bg rs, sx_is_link = False, sx_href = '''', sx_anchor = ''''\<rparr>"

definition apply_css :: "inline_css \<Rightarrow> run_style \<Rightarrow> run_style" where
  "apply_css cs rs = \<lparr>
     rs_font = (if ic_font_family cs \<noteq> '''' then ic_font_family cs else rs_font rs),
     rs_size = (if dbl_less (Fin 0) (ic_size_pt cs) then ic_size_pt cs
                else if dbl_less (Fin 0) (ic_size_pct cs) then dbl_mul (rs_size rs) (ic_size_pct cs) else rs_size rs),
     rs_weight = (if 0 <s ic_weight cs then ic_weight cs else rs_weight rs),
     rs_italic = (if ic_italic_set cs then ic_italic cs else rs_italic rs),
     rs_strike = (if ic_strike_set cs then ic_strike cs else rs_strike rs),
     rs_underline = (if ic_underline_set cs then ic_underline cs else rs_underline rs),
     rs_color = (if ic_has_color cs then ic_color cs else rs_color rs),
     rs_bg = (if ic_has_bg cs then ic_background cs else rs_bg rs)\<rparr>"

section \<open>Raw HTML blocks\<close>

record html_run =
  hr_runs :: "styled_text list"
  hr_stack :: "(string \<times> run_style) list"
  hr_style :: run_style
  hr_text_pushed :: bool
  hr_tag_parsed :: bool
  hr_wrapper :: "string option"
  hr_in_li :: bool
  hr_first_li :: bool
  hr_ol_count :: i32

record html_env =
  he_dp :: char
  he_undef :: i32
  he_sheet :: style_sheet
  he_font :: string
  he_size :: dbl
  he_color :: color

definition html_start :: "html_env \<Rightarrow> html_run" where
  "html_start env = \<lparr>hr_runs = [], hr_stack = [], hr_style = base_run (he_font env) (he_size env) (he_color env),
     hr_text_pushed = False, hr_tag_parsed = False, hr_wrapper = None, hr_in_li = False, hr_first_li = True,
     hr_ol_count = 1\<rparr>"

text \<open>Blanks collapse to one space between words; one is kept at the end, none at the start.\<close>

fun collapse :: "bool \<Rightarrow> bool \<Rightarrow> string \<Rightarrow> string" where
  "collapse pending any [] = (if pending \<and> any then '' '' else '''')"
| "collapse pending any (c # s) =
     (if html_space c then collapse True any s
      else (if pending \<and> any then '' '' else '''') @ c # collapse False True s)"

definition emit_text :: "string \<Rightarrow> html_run \<Rightarrow> html_run" where
  "emit_text raw st =
     (let t = collapse False False raw
      in if t = '''' then st
         else st\<lparr>hr_runs := hr_runs st @ [styled t (hr_style st)], hr_text_pushed := True\<rparr>)"

definition plain_run :: "html_env \<Rightarrow> string \<Rightarrow> styled_text" where
  "plain_run env t = styled t (base_run (he_font env) (he_size env) (he_color env))"

definition newline_run :: "html_env \<Rightarrow> styled_text" where
  "newline_run env = plain_run env [newline]"

definition bullet :: string where
  "bullet = [CHR 0xE2, CHR 0x80, CHR 0xA2, CHR '' '']"

definition push_run :: "styled_text \<Rightarrow> html_run \<Rightarrow> html_run" where
  "push_run r st = st\<lparr>hr_runs := hr_runs st @ [r]\<rparr>"

definition list_marker :: "html_env \<Rightarrow> html_run \<Rightarrow> html_run" where
  "list_marker env st =
     (if hr_wrapper st = Some ''ol''
      then (push_run (plain_run env (dec_of_int (sint (hr_ol_count st)) @ ''. '')) st)\<lparr>hr_ol_count := hr_ol_count st + 1\<rparr>
      else push_run (plain_run env bullet) st)"

definition push_scope :: "string \<Rightarrow> html_run \<Rightarrow> html_run" where
  "push_scope name st = st\<lparr>hr_stack := (name, hr_style st) # hr_stack st\<rparr>"

definition pop_scope :: "html_run \<Rightarrow> html_run" where
  "pop_scope st =
     (case hr_stack st of
        [] \<Rightarrow> st
      | (_, rs) # sc \<Rightarrow> st\<lparr>hr_stack := sc, hr_style := rs\<rparr>)"

definition close_li :: "html_run \<Rightarrow> html_run" where
  "close_li st = (if hr_in_li st then (pop_scope st)\<lparr>hr_in_li := False\<rparr> else st)"

definition style_scope :: "html_env \<Rightarrow> html_tag \<Rightarrow> html_run \<Rightarrow> html_run" where
  "style_scope env tag st =
     (let st = push_scope (tag_name tag) st
      in st\<lparr>hr_style := apply_css (style_from_tag (he_dp env) (he_undef env) (tag_name tag) (tag_style tag) (he_sheet env))
             (hr_style st)\<rparr>)"

text \<open>A block-level tag; \<open>None\<close> when the chunk cannot be rendered.\<close>

definition block_tag :: "html_env \<Rightarrow> html_tag \<Rightarrow> html_run \<Rightarrow> html_run option" where
  "block_tag env tag st =
     (let in_list = (hr_wrapper st = Some ''ul'' \<or> hr_wrapper st = Some ''ol'');
          is_list = (tag_name tag = ''ul'' \<or> tag_name tag = ''ol'')
      in if in_list \<and> tag_name tag = ''li'' then
           Some (if tag_closing tag then close_li st
                 else let st = (if hr_first_li st then st else push_run (newline_run env) st);
                          st = list_marker env (st\<lparr>hr_first_li := False\<rparr>)
                      in (push_scope ''li'' st)\<lparr>hr_in_li := True\<rparr>)
         else if in_list \<and> tag_closing tag \<and> is_list then
           (if hr_wrapper st \<noteq> Some (tag_name tag) then None
            else Some ((pop_scope (close_li st))\<lparr>hr_wrapper := None, hr_ol_count := 1\<rparr>))
         else if in_list \<and> \<not> tag_closing tag \<and> is_list then None
         else if tag_closing tag then
           (if hr_wrapper st \<noteq> Some (tag_name tag) then None
            else Some ((pop_scope (if in_list then close_li st else st))
                         \<lparr>hr_wrapper := None, hr_ol_count := 1, hr_first_li := True\<rparr>))
         else if tag_self_closing tag \<or> hr_wrapper st \<noteq> None \<or> hr_tag_parsed st \<or> hr_text_pushed st then None
         else let st = (if is_list then st\<lparr>hr_ol_count := 1, hr_first_li := True\<rparr> else st)
              in Some ((style_scope env tag st)\<lparr>hr_wrapper := Some (tag_name tag)\<rparr>))"

definition inline_tag :: "html_env \<Rightarrow> html_tag \<Rightarrow> html_run \<Rightarrow> html_run" where
  "inline_tag env tag st =
     (if tag_closing tag then
        (case hr_stack st of
           (nm, _) # _ \<Rightarrow> if nm = tag_name tag then pop_scope st else st
         | [] \<Rightarrow> st)
      else if tag_self_closing tag \<or> tag_name tag = ''br'' then
        (if tag_name tag = ''br'' then push_run (newline_run env) st else st)
      else style_scope env tag st)"

definition html_tag_step :: "html_env \<Rightarrow> html_tag \<Rightarrow> html_run \<Rightarrow> html_run option" where
  "html_tag_step env tag st =
     map_option (\<lambda>st. st\<lparr>hr_tag_parsed := True\<rparr>)
       (if is_block_level_tag (tag_name tag) then block_tag env tag st else Some (inline_tag env tag st))"

text \<open>The text after the first occurrence of \<open>needle\<close>\<close>

fun after :: "string \<Rightarrow> string \<Rightarrow> string option" where
  "after needle [] = None"
| "after needle (c # s) = (if starts_with needle (c # s) then Some (drop (length needle) (c # s)) else after needle s)"

datatype html_next = Hangs | Fails | Ends html_run | Goes html_run string

text \<open>One turn of the main loop: the text before the next \<^verbatim>\<open><\<close>, and what begins there\<close>

definition html_markup :: "html_env \<Rightarrow> html_run \<Rightarrow> string \<Rightarrow> html_next" where
  "html_markup env st t =
     (if starts_with ''<!--'' t then
        (case after ''-->'' (drop 4 t) of None \<Rightarrow> Ends st | Some r \<Rightarrow> Goes st r)
      else if 1 < length t \<and> (t ! 1 = CHR ''!'' \<or> t ! 1 = CHR ''?'') then
        (case after ''>'' (drop 2 t) of None \<Rightarrow> Goes (emit_text ''<'' st) (tl t) | Some r \<Rightarrow> Goes st r)
      else case parse_html_tag t of
             None \<Rightarrow> Hangs
           | Some None \<Rightarrow> Goes (emit_text ''<'' st) (tl t)
           | Some (Some tag) \<Rightarrow>
               (case html_tag_step env tag st of
                  None \<Rightarrow> Fails
                | Some st \<Rightarrow> Goes st (drop (tag_consumed tag) t)))"

definition html_turn :: "html_env \<Rightarrow> html_run \<Rightarrow> string \<Rightarrow> html_next" where
  "html_turn env st s =
     (let st = emit_text (takeWhile (\<lambda>c. c \<noteq> CHR ''<'') s) st; t = dropWhile (\<lambda>c. c \<noteq> CHR ''<'') s
      in if t = [] then Ends st else html_markup env st t)"

section \<open>The attribute loop\<close>

lemma length_dropWhile_tl: "length (dropWhile P (tl r)) \<le> length r"
  using length_dropWhile_le [of P "tl r"] by simp

lemma attr_value_length: "length (snd (attr_value s)) \<le> length s"
proof -
  let ?r = "dropWhile html_space s"
  let ?r1 = "dropWhile html_space (tl ?r)"
  have r: "length ?r1 \<le> length s" "length ?r \<le> length s"
    using length_dropWhile_tl [of html_space ?r] length_dropWhile_le [of html_space s] by simp_all
  have "length (dropWhile P (tl ?r1)) \<le> length s" "length (dropWhile P ?r1) \<le> length s" for P
    using length_dropWhile_tl [of P ?r1] length_dropWhile_le [of P ?r1] r by simp_all
  then have q: "length (tl (dropWhile P (tl ?r1))) \<le> length s" "length (dropWhile P ?r1) \<le> length s" for P
    by (simp_all add: le_diff_conv le_SucI)
  then show ?thesis using r by (simp add: attr_value_def Let_def)
qed

lemma dropWhile_shorter: "takeWhile P s \<noteq> [] \<Longrightarrow> length (dropWhile P s) < length s"
  by (cases s) (auto simp: le_imp_less_Suc length_dropWhile_le split: if_splits)

text \<open>The same search with the endless turn written out\<close>

function style_search :: "string \<Rightarrow> string option" where
  "style_search attrs =
     (let s = dropWhile html_space attrs
      in if s = [] then Some ''''
         else if takeWhile attr_char s = [] then None
         else if lower (takeWhile attr_char s) = ''style'' then Some (fst (attr_value (dropWhile attr_char s)))
         else style_search (snd (attr_value (dropWhile attr_char s))))"
  by pat_completeness auto
termination
proof (relation "measure length", simp)
  fix attrs s :: string
  assume s: "s = dropWhile html_space attrs" "takeWhile attr_char s \<noteq> []"
  have "length (snd (attr_value (dropWhile attr_char s))) \<le> length (dropWhile attr_char s)" by (rule attr_value_length)
  also have "\<dots> < length s" using s(2) by (rule dropWhile_shorter)
  also have "\<dots> \<le> length attrs" using s(1) by (simp add: length_dropWhile_le)
  finally show "(snd (attr_value (dropWhile attr_char s)), attrs) \<in> measure length" by simp
qed

declare style_search.simps [simp del]

lemma style_loop_stuck:
  assumes "style_loop s = Some v"
  shows "\<not> starts_with ''='' s"
proof (rule style_loop.raw_induct [where P = "\<lambda>s v. \<not> starts_with ''='' s", OF _ assms])
  fix f :: "string \<Rightarrow> string option" and s v
  assume IH: "\<And>x y. f x = Some y \<Longrightarrow> \<not> starts_with ''='' x"
    and eq: "(let s = dropWhile html_space s
      in if s = [] then Some ''''
         else let nm = lower (takeWhile attr_char s); r = dropWhile attr_char s
              in if nm = '''' then f r
                 else let (v, r) = attr_value r in if nm = ''style'' then Some v else f r) = Some v"
  show "\<not> starts_with ''='' s"
  proof
    assume e: "starts_with ''='' s"
    then have "dropWhile html_space s = s" "s \<noteq> []" "takeWhile attr_char s = []" "dropWhile attr_char s = s"
      by (cases s; simp add: starts_with_def html_space_def attr_char_def)+
    then have "f s = Some v" using eq by (simp add: Let_def lower_def)
    with IH e show False by blast
  qed
qed

lemma style_loop_search: "style_loop attrs = style_search attrs"
proof (induction attrs rule: style_search.induct)
  case (1 attrs)
  let ?s = "dropWhile html_space attrs"
  show ?case
  proof (cases "?s \<noteq> [] \<and> takeWhile attr_char ?s = []")
    case True
    then have "?s \<noteq> []" "\<not> html_space (hd ?s)" "\<not> attr_char (hd ?s)"
      using hd_dropWhile [of html_space attrs] by (auto simp: takeWhile_eq_Nil_iff)
    then have e: "starts_with ''='' ?s" "dropWhile attr_char ?s = ?s"
      by (cases ?s; simp add: attr_char_def starts_with_def)+
    then have "style_loop ?s = None" using style_loop_stuck by (cases "style_loop ?s") auto
    with True e show ?thesis
      by (subst style_loop.simps, subst style_search.simps) (simp add: Let_def lower_def)
  next
    case False
    then show ?thesis
      using "1.IH" [OF refl]
      by (subst style_loop.simps, subst style_search.simps) (auto simp: Let_def lower_def split_beta)
  qed
qed

text \<open>So it ends when no equals sign is met where a name should begin, as without any in the tag.\<close>

lemma style_search_plain: "CHR ''='' \<notin> set attrs \<Longrightarrow> style_search attrs \<noteq> None"
proof (induction attrs rule: style_search.induct)
  case (1 attrs)
  let ?s = "dropWhile html_space attrs"
  have sub: "set (snd (attr_value (dropWhile attr_char ?s))) \<subseteq> set attrs"
    if "CHR ''='' \<notin> set attrs"
  proof -
    have "set (dropWhile html_space (dropWhile attr_char ?s)) \<subseteq> set attrs"
      by (meson set_dropWhileD subset_iff)
    moreover have "\<not> starts_with ''='' r" if "set r \<subseteq> set attrs" for r
      using that \<open>CHR ''='' \<notin> set attrs\<close> by (cases r) (auto simp: starts_with_def)
    ultimately show ?thesis by (simp add: attr_value_def Let_def)
  qed
  have "takeWhile attr_char ?s \<noteq> []" if "?s \<noteq> []"
    using that hd_dropWhile [OF that] "1.prems" hd_in_set [OF that] set_dropWhileD [of "hd ?s" html_space attrs]
    by (auto simp: takeWhile_eq_Nil_iff attr_char_def)
  then show ?case
    using "1.IH" [OF refl] "1.prems" sub by (subst style_search.simps) (auto simp: Let_def)
qed

section \<open>The main loop\<close>

lemma parse_html_tag_cases:
  assumes "parse_html_tag raw = Some (Some tag)"
  obtains r k where "r = dropWhile is_name_char (if tag_closing tag then drop 2 raw else drop 1 raw)"
    "scan_tag_end None False 0 r = Some (k, tag_self_closing tag)" "style_search (take k r) = Some (tag_style tag)"
    "tag_consumed tag = length raw - length r + k + 1" "2 \<le> length raw" "hd raw = CHR ''<''"
  using assms
  by (fastforce simp: parse_html_tag_def Let_def style_loop_search split: if_splits option.splits prod.splits)

lemma scan_tag_end_bound: "scan_tag_end q self k s = Some (k', self') \<Longrightarrow> k \<le> k' \<and> k' < k + length s"
proof (induction q self k s rule: scan_tag_end.induct)
  case (2 q self k c s)
  then show ?case by (cases "c = q") auto
next
  case (3 self k c s)
  then show ?case by (auto split: if_splits)
qed simp

lemma tag_consumed_bound:
  assumes "parse_html_tag raw = Some (Some tag)"
  shows "0 < tag_consumed tag \<and> tag_consumed tag \<le> length raw"
proof -
  obtain r k where r: "r = dropWhile is_name_char (if tag_closing tag then drop 2 raw else drop 1 raw)"
    "scan_tag_end None False 0 r = Some (k, tag_self_closing tag)" "tag_consumed tag = length raw - length r + k + 1"
    using assms by (rule parse_html_tag_cases) blast
  have "length r \<le> length raw"
    using length_dropWhile_le [of is_name_char "drop 2 raw"] length_dropWhile_le [of is_name_char "drop 1 raw"] r(1)
    by (simp split: if_splits)
  then show ?thesis using scan_tag_end_bound [OF r(2)] r(3) by simp
qed

lemma after_length: "after needle s = Some r \<Longrightarrow> length r \<le> length s"
  by (induction s) (auto split: if_splits)

lemma html_markup_shorter:
  assumes "html_markup env st t = Goes st' s'" "t \<noteq> []"
  shows "length s' < length t"
proof -
  have d: "length r < length t" if "after needle (drop (Suc n) t) = Some r" for needle n r
    using after_length [OF that] assms(2) by (cases t) auto
  show ?thesis
    using assms d [of _ 3] d [of _ 1] tag_consumed_bound [of t]
    unfolding html_markup_def by (auto simp: numeral_eq_Suc split: if_splits option.splits)
qed

lemma html_turn_shorter:
  assumes "html_turn env st s = Goes st' s'"
  shows "length s' < length s"
proof -
  have "length s' < length (dropWhile (\<lambda>c. c \<noteq> CHR ''<'') s)"
    using assms html_markup_shorter unfolding html_turn_def Let_def by (metis html_next.distinct(11))
  then show ?thesis using length_dropWhile_le [of "\<lambda>c. c \<noteq> CHR ''<''" s] by linarith
qed

function html_loop :: "html_env \<Rightarrow> html_run \<Rightarrow> string \<Rightarrow> html_run option option" where
  "html_loop env st s =
     (if s = [] then Some (Some st)
      else case html_turn env st s of
             Hangs \<Rightarrow> None
           | Fails \<Rightarrow> Some None
           | Ends st \<Rightarrow> Some (Some st)
           | Goes st s \<Rightarrow> html_loop env st s)"
  by pat_completeness auto
termination
  by (relation "measure (\<lambda>(_, _, s). length s)") (auto dest: html_turn_shorter)

declare html_loop.simps [simp del]

text \<open>\<open>None\<close> when it does not return, \<open>Some None\<close> for \<^verbatim>\<open>false\<close>, else the runs it appends\<close>

definition render_html_block_runs :: "html_env \<Rightarrow> string \<Rightarrow> styled_text list option option" where
  "render_html_block_runs env html =
     (let s = html_trim html
      in if s = '''' then Some None
         else case html_loop env (html_start env) s of
                None \<Rightarrow> None
              | Some None \<Rightarrow> Some None
              | Some (Some st) \<Rightarrow> Some (if hr_runs st = [] then None else Some (hr_runs st)))"

end
