(* ===== verification/Markdown_Runs.thy ===== *)
theory Markdown_Runs
  imports Html_Blocks Markdown_Html
begin

text \<open>
  The inline half of the layout engine (\<^verbatim>\<open>RunBuilder\<close> of \<^verbatim>\<open>gui/markdown/markdown_layout.cpp\<close>): an
  inline node becomes styled runs.  The builder keeps the current style, the link and the anchor,
  and a stack of the styles that inline HTML tags saved.
\<close>

record run_builder =
  rb_style :: run_style
  rb_is_link :: bool
  rb_href :: string
  rb_anchor :: string
  rb_stack :: "run_style list"
  rb_out :: "styled_text list"

record run_env =
  ru_dp :: char
  ru_undef :: i32
  ru_sheet :: style_sheet

definition new_builder :: "string \<Rightarrow> dbl \<Rightarrow> color \<Rightarrow> styled_text list \<Rightarrow> run_builder" where
  "new_builder font sz col out = \<lparr>rb_style = base_run font sz col, rb_is_link = False, rb_href = '''', rb_anchor = '''',
     rb_stack = [], rb_out = out\<rparr>"

definition rb_apply :: "inline_css \<Rightarrow> run_builder \<Rightarrow> run_builder" where
  "rb_apply cs rb = rb\<lparr>rb_style := apply_css cs (rb_style rb)\<rparr>"

definition rb_push :: "string \<Rightarrow> run_builder \<Rightarrow> run_builder" where
  "rb_push t rb =
     (if t = '''' then rb
      else rb\<lparr>rb_out := rb_out rb @ [(styled t (rb_style rb))\<lparr>sx_is_link := rb_is_link rb, sx_href := rb_href rb,
             sx_anchor := rb_anchor rb\<rparr>]\<rparr>)"

definition set_italic :: "bool \<Rightarrow> run_builder \<Rightarrow> run_builder" where
  "set_italic b rb = rb\<lparr>rb_style := (rb_style rb)\<lparr>rs_italic := b\<rparr>\<rparr>"

definition rb_set_weight :: "i32 \<Rightarrow> run_builder \<Rightarrow> run_builder" where
  "rb_set_weight w rb = rb\<lparr>rb_style := (rb_style rb)\<lparr>rs_weight := w\<rparr>\<rparr>"

definition set_strike :: "bool \<Rightarrow> run_builder \<Rightarrow> run_builder" where
  "set_strike b rb = rb\<lparr>rb_style := (rb_style rb)\<lparr>rs_strike := b\<rparr>\<rparr>"

text \<open>A code span changes six members and restores four of them.\<close>

definition enter_code :: "style_sheet \<Rightarrow> run_builder \<Rightarrow> run_builder" where
  "enter_code s rb =
     (let code = st_text s SelCode; rs = rb_style rb
      in rb\<lparr>rb_style := rs\<lparr>
           rs_font := ''monospace'',
           rs_size := if dbl_less (Fin 0) (ts_font_size code) then ts_font_size code else rs_size rs,
           rs_color := if col_valid (ts_color code) then ts_color code else rs_color rs,
           rs_bg := if col_valid (ts_background code) then ts_background code else rs_bg rs,
           rs_underline := False, rs_strike := False\<rparr>\<rparr>)"

definition leave_code :: "run_style \<Rightarrow> run_builder \<Rightarrow> run_builder" where
  "leave_code rs rb = rb\<lparr>rb_style := (rb_style rb)\<lparr>rs_font := rs_font rs, rs_size := rs_size rs,
     rs_color := rs_color rs, rs_bg := rs_bg rs\<rparr>\<rparr>"

definition enter_link :: "style_sheet \<Rightarrow> string \<Rightarrow> run_builder \<Rightarrow> run_builder" where
  "enter_link s href rb = rb\<lparr>rb_style := (rb_style rb)\<lparr>rs_underline := True, rs_color := st_link_color s\<rparr>,
     rb_href := href, rb_is_link := True\<rparr>"

definition leave_link :: "run_builder \<Rightarrow> run_builder \<Rightarrow> run_builder" where
  "leave_link before rb = rb\<lparr>
     rb_style := (rb_style rb)\<lparr>rs_underline := rs_underline (rb_style before), rs_color := rs_color (rb_style before)\<rparr>,
     rb_href := rb_href before, rb_is_link := False\<rparr>"

definition close_tag :: "run_builder \<Rightarrow> run_builder" where
  "close_tag rb = (case rb_stack rb of [] \<Rightarrow> rb | rs # sc \<Rightarrow> rb\<lparr>rb_style := rs, rb_stack := sc\<rparr>)"

definition open_tag :: "run_env \<Rightarrow> html_tag \<Rightarrow> run_builder \<Rightarrow> run_builder" where
  "open_tag env tag rb =
     rb_apply (style_from_tag (ru_dp env) (ru_undef env) (tag_name tag) (tag_style tag) (ru_sheet env))
       (rb\<lparr>rb_stack := rb_style rb # rb_stack rb\<rparr>)"

text \<open>\<open>None\<close> when the tokenizer of an inline tag does not return\<close>

function (sequential) rb_emit :: "run_env \<Rightarrow> node \<Rightarrow> run_builder \<Rightarrow> run_builder option"
  and rb_emits :: "run_env \<Rightarrow> node list \<Rightarrow> run_builder \<Rightarrow> run_builder option" where
  "rb_emit env (Node d cs) rb =
     (case n_type d of
        NText \<Rightarrow> Some (rb_push (n_text d) rb)
      | NCodeSpan \<Rightarrow>
          map_option (leave_code (rb_style rb))
            (let rb = enter_code (ru_sheet env) rb
             in if n_text d = '''' then rb_emits env cs rb else Some (rb_push (n_text d) rb))
      | NEmphasis \<Rightarrow> map_option (set_italic (rs_italic (rb_style rb))) (rb_emits env cs (set_italic True rb))
      | NStrong \<Rightarrow> map_option (rb_set_weight (rs_weight (rb_style rb))) (rb_emits env cs (rb_set_weight 700 rb))
      | NDel \<Rightarrow> map_option (set_strike (rs_strike (rb_style rb))) (rb_emits env cs (set_strike True rb))
      | NLink \<Rightarrow> map_option (leave_link rb) (rb_emits env cs (enter_link (ru_sheet env) (n_text d) rb))
      | NSoftBreak \<Rightarrow> Some (rb_push '' '' rb)
      | NHardBreak \<Rightarrow> Some (rb_push [newline] rb)
      | NHtmlSpan \<Rightarrow>
          (case parse_html_tag (n_text d) of
             None \<Rightarrow> None
           | Some None \<Rightarrow> Some rb
           | Some (Some tag) \<Rightarrow>
               if tag_closing tag then Some (close_tag rb) else rb_emits env cs (open_tag env tag rb))
      | _ \<Rightarrow> rb_emits env cs rb)"
| "rb_emits env [] rb = Some rb"
| "rb_emits env (c # cs) rb = Option.bind (rb_emit env c rb) (rb_emits env cs)"
  by pat_completeness auto
termination
  by (relation "measure (\<lambda>x. case x of Inl (_, n, _) \<Rightarrow> size n | Inr (_, ns, _) \<Rightarrow> size_list size ns)") auto

section \<open>What is kept\<close>

lemma rb_push_simps [simp]:
  "rb_style (rb_push t rb) = rb_style rb" "rb_stack (rb_push t rb) = rb_stack rb" "rb_anchor (rb_push t rb) = rb_anchor rb"
  "rb_is_link (rb_push t rb) = rb_is_link rb" "rb_href (rb_push t rb) = rb_href rb"
  by (simp_all add: rb_push_def)

lemma rb_out_simps [simp]:
  "rb_out (leave_code rs rb) = rb_out rb" "rb_out (enter_code sh rb) = rb_out rb" "rb_out (set_italic b rb) = rb_out rb"
  "rb_out (rb_set_weight w rb) = rb_out rb" "rb_out (set_strike b rb) = rb_out rb" "rb_out (enter_link sh h rb) = rb_out rb"
  "rb_out (leave_link rb0 rb) = rb_out rb" "rb_out (close_tag rb) = rb_out rb" "rb_out (open_tag env tag rb) = rb_out rb"
  by (simp_all add: leave_code_def enter_code_def set_italic_def rb_set_weight_def set_strike_def enter_link_def
      leave_link_def close_tag_def open_tag_def rb_apply_def Let_def split: list.split)

text \<open>The text of runs, and the text an inline tree stands for\<close>

definition runs_text :: "styled_text list \<Rightarrow> string" where
  "runs_text rs = concat (map sx_text rs)"

lemma runs_text_push [simp]: "runs_text (rb_out (rb_push t rb)) = runs_text (rb_out rb) @ t"
  by (simp add: runs_text_def rb_push_def styled_def)

fun inline_text :: "node \<Rightarrow> string" where
  "inline_text (Node d cs) =
     (if n_type d = NText then n_text d
      else if n_type d = NCodeSpan \<and> n_text d \<noteq> '''' then n_text d
      else if n_type d = NSoftBreak then '' ''
      else if n_type d = NHardBreak then [newline]
      else if n_type d = NHtmlSpan then ''''
      else concat (map inline_text cs))"

text \<open>Trees in which inline HTML is a leaf, as md4c reports it\<close>

fun html_leaves :: "node \<Rightarrow> bool" where
  "html_leaves (Node d cs) \<longleftrightarrow> (n_type d = NHtmlSpan \<longrightarrow> cs = []) \<and> list_all html_leaves cs"

lemma rb_emits_text_step:
  assumes "\<And>n rb rb'. n \<in> set ns \<Longrightarrow> html_leaves n \<Longrightarrow> rb_emit env n rb = Some rb' \<Longrightarrow>
      runs_text (rb_out rb') = runs_text (rb_out rb) @ inline_text n"
    and "rb_emits env ns rb = Some rb'" "list_all html_leaves ns"
  shows "runs_text (rb_out rb') = runs_text (rb_out rb) @ concat (map inline_text ns)"
  using assms
proof (induction ns arbitrary: rb)
  case (Cons n ns)
  then obtain rb1 where rb1: "rb_emit env n rb = Some rb1" "rb_emits env ns rb1 = Some rb'"
    by (auto split: bind_splits)
  have "runs_text (rb_out rb1) = runs_text (rb_out rb) @ inline_text n"
    using Cons.prems(1) [OF _ _ rb1(1)] Cons.prems(3) by simp
  moreover have "runs_text (rb_out rb') = runs_text (rb_out rb1) @ concat (map inline_text ns)"
    by (rule Cons.IH) (use Cons.prems rb1(2) in auto)
  ultimately show ?case by simp
qed simp

lemma rb_emit_text:
  "html_leaves n \<Longrightarrow> rb_emit env n rb = Some rb' \<Longrightarrow> runs_text (rb_out rb') = runs_text (rb_out rb) @ inline_text n"
proof (induction n arbitrary: rb rb')
  case (Node d cs)
  have l: "list_all html_leaves cs" using Node.prems(1) by simp
  have IH: "runs_text (rb_out rb') = runs_text (rb_out rb) @ concat (map inline_text cs)"
    if "rb_emits env cs rb = Some rb'" for rb rb'
    using Node.IH that l by (rule rb_emits_text_step)
  show ?case
  proof (cases "n_type d = NHtmlSpan")
    case True
    then have "cs = []" using Node.prems(1) by simp
    with True show ?thesis using Node.prems(2)
      by (auto split: option.splits if_splits)
  next
    case False
    then show ?thesis
      using Node.prems(2) by (cases "n_type d"; auto simp: Let_def dest: IH split: if_splits)
  qed
qed
text \<open>Trees without inline HTML and code spans give back the style they found.\<close>

fun plain_inline :: "node \<Rightarrow> bool" where
  "plain_inline (Node d cs) \<longleftrightarrow> n_type d \<notin> {NHtmlSpan, NCodeSpan} \<and> list_all plain_inline cs"

lemma rb_emits_style_step:
  assumes "\<And>n rb. n \<in> set ns \<Longrightarrow> plain_inline n \<Longrightarrow> \<exists>rb'. rb_emit env n rb = Some rb' \<and> rb_style rb' = rb_style rb"
    and "list_all plain_inline ns"
  shows "\<exists>rb'. rb_emits env ns rb = Some rb' \<and> rb_style rb' = rb_style rb"
  using assms
proof (induction ns arbitrary: rb)
  case (Cons n ns)
  obtain rb1 where rb1: "rb_emit env n rb = Some rb1" "rb_style rb1 = rb_style rb"
    using Cons.prems(1) [of n rb] Cons.prems(2) by auto
  obtain rb2 where "rb_emits env ns rb1 = Some rb2" "rb_style rb2 = rb_style rb1"
    using Cons.IH [of rb1] Cons.prems by auto
  with rb1 show ?case by simp
qed simp

lemma rb_emit_style:
  "plain_inline n \<Longrightarrow> \<exists>rb'. rb_emit env n rb = Some rb' \<and> rb_style rb' = rb_style rb"
proof (induction n arbitrary: rb)
  case (Node d cs)
  have l: "list_all plain_inline cs" "n_type d \<noteq> NHtmlSpan" "n_type d \<noteq> NCodeSpan" using Node.prems by auto
  have IH: "\<exists>rb'. rb_emits env cs rb = Some rb' \<and> rb_style rb' = rb_style rb" for rb
    using Node.IH l(1) by (rule rb_emits_style_step)
  have w: "\<exists>rb'. map_option f (rb_emits env cs (g rb)) = Some rb' \<and> rb_style rb' = rb_style rb"
    if "\<And>rb'. rb_style rb' = rb_style (g rb) \<Longrightarrow> rb_style (f rb') = rb_style rb" for f g
    using IH [of "g rb"] that by auto
  show ?case
  proof (cases "n_type d")
    case NEmphasis
    have "\<exists>rb'. map_option (set_italic (rs_italic (rb_style rb))) (rb_emits env cs (set_italic True rb)) = Some rb' \<and>
        rb_style rb' = rb_style rb"
      by (rule w) (simp add: set_italic_def)
    with NEmphasis show ?thesis by simp
  next
    case NStrong
    have "\<exists>rb'. map_option (rb_set_weight (rs_weight (rb_style rb))) (rb_emits env cs (rb_set_weight 700 rb)) = Some rb' \<and>
        rb_style rb' = rb_style rb"
      by (rule w) (simp add: rb_set_weight_def)
    with NStrong show ?thesis by simp
  next
    case NDel
    have "\<exists>rb'. map_option (set_strike (rs_strike (rb_style rb))) (rb_emits env cs (set_strike True rb)) = Some rb' \<and>
        rb_style rb' = rb_style rb"
      by (rule w) (simp add: set_strike_def)
    with NDel show ?thesis by simp
  next
    case NLink
    have "\<exists>rb'. map_option (leave_link rb) (rb_emits env cs (enter_link (ru_sheet env) (n_text d) rb)) = Some rb' \<and>
        rb_style rb' = rb_style rb"
      by (rule w) (simp add: leave_link_def enter_link_def)
    with NLink show ?thesis by simp
  qed (use l IH in simp_all)
qed

end
