(* ===== verification/Markdown_Pango.thy ===== *)
theory Markdown_Pango
  imports Html_Blocks
begin

text \<open>
  What is handed to Pango for a list of runs, and the metrics read back
  (\<^verbatim>\<open>gui/markdown/markdown_pango.hpp\<close> and \<^verbatim>\<open>.cpp\<close>).  Pango itself, which breaks the lines and
  measures them, is a parameter.
\<close>

section \<open>Attributes of a text\<close>

datatype pango_style = PSize i32 | PFamily string | PWeight i32 | PItalic bool | PUnderline bool | PStrike bool
  | PForeground "16 word" "16 word" "16 word" | PBackground "16 word" "16 word" "16 word"

record pango_attr =
  pa_style :: pango_style
  pa_start :: u32
  pa_end :: u32

record pango_layout =
  pl_font :: string
  pl_font_size :: dbl
  pl_text :: string
  pl_attrs :: "pango_attr list"
  pl_width :: i32

definition pango_scale :: dbl where
  "pango_scale = Fin 1024"

definition pango_channel :: "i32 \<Rightarrow> dbl \<Rightarrow> 16 word" where
  "pango_channel undef c = ucast (int_of_dbl undef (flt_mul (dbl_clamp c (Fin 0) (Fin 1)) (Fin 65535)))"

definition pango_color :: "i32 \<Rightarrow> (16 word \<Rightarrow> 16 word \<Rightarrow> 16 word \<Rightarrow> pango_style) \<Rightarrow> color \<Rightarrow> pango_style list" where
  "pango_color undef mk c =
     (if col_valid c
      then [mk (pango_channel undef (col_r c)) (pango_channel undef (col_g c)) (pango_channel undef (col_b c))] else [])"

definition run_attrs :: "i32 \<Rightarrow> style_sheet \<Rightarrow> styled_text \<Rightarrow> pango_style list" where
  "run_attrs undef s r =
     [PSize (int_of_dbl undef (dbl_mul (sx_size_pt r) pango_scale)),
      PFamily (if sx_font_family r = '''' then st_base_font s else sx_font_family r),
      PWeight (sx_weight r), PItalic (sx_italic r), PUnderline (sx_underline r), PStrike (sx_strike r)]
     @ pango_color undef PForeground (sx_color r) @ pango_color undef PBackground (sx_background r)"

definition add_run :: "i32 \<Rightarrow> style_sheet \<Rightarrow> styled_text \<Rightarrow> string \<times> pango_attr list \<Rightarrow> string \<times> pango_attr list" where
  "add_run undef s r = (\<lambda>(text, attrs).
     if sx_text r = '''' then (text, attrs)
     else let first = of_nat (length text); text = text @ sx_text r; last = of_nat (length text)
          in (text, attrs @ map (\<lambda>p. \<lparr>pa_style = p, pa_start = first, pa_end = last\<rparr>) (run_attrs undef s r)))"

definition apply_styled_runs :: "i32 \<Rightarrow> styled_text list \<Rightarrow> dbl \<Rightarrow> style_sheet \<Rightarrow> pango_layout" where
  "apply_styled_runs undef runs width s =
     (let (text, attrs) = fold (add_run undef s) runs ('''', [])
      in \<lparr>pl_font = st_base_font s, pl_font_size = dbl_mul (st_base_font_pt s) pango_scale, pl_text = text,
          pl_attrs = attrs,
          pl_width = if dbl_less (Fin 0) width then int_of_dbl undef (dbl_mul width pango_scale) else - 1\<rparr>)"

section \<open>Metrics\<close>

text \<open>What Pango answers: the size, the baseline and the number of lines\<close>

record pango_extents =
  px_width :: i32
  px_height :: i32
  px_baseline :: i32
  px_lines :: i32

record metrics =
  pm_width :: dbl
  pm_height :: dbl
  pm_baseline :: dbl
  pm_line :: dbl
  pm_line_count :: i32

definition from_pango :: "i32 \<Rightarrow> dbl" where
  "from_pango k = dbl_div (Fin (of_int (sint k))) pango_scale"

definition measure_runs ::
  "(pango_layout \<Rightarrow> pango_extents) \<Rightarrow> i32 \<Rightarrow> styled_text list \<Rightarrow> dbl \<Rightarrow> style_sheet \<Rightarrow> metrics" where
  "measure_runs pango undef runs width s =
     (let x = pango (apply_styled_runs undef runs width s); lines = (if px_lines x <s 1 then 1 else px_lines x);
          h = from_pango (px_height x)
      in \<lparr>pm_width = from_pango (px_width x), pm_height = h, pm_baseline = from_pango (px_baseline x),
          pm_line = dbl_div h (Fin (of_int (sint lines))), pm_line_count = lines\<rparr>)"

section \<open>Lemmas\<close>

lemma from_pango_nonneg: "0 \<le> sint k \<Longrightarrow> dbl_le (Fin 0) (from_pango k)"
  by (simp add: from_pango_def pango_scale_def div_by_def del: of_int_sint)

text \<open>Pango counts in 32 bits, so that no text is wider than \<open>2 ^ 21\<close> points.\<close>

lemma from_pango_le:
  assumes "0 \<le> sint k"
  shows "dbl_le (from_pango k) (Fin (2 powi 21))"
proof -
  have "sint k < 2 ^ 31" using sint_lt [of k] by simp
  then have "sint k \<le> 2147483648" by simp
  then have "(of_int (sint k) :: rat) \<le> of_int 2147483648" by (simp only: of_int_le_iff)
  then have "(of_int (sint k) :: rat) / 1024 \<le> 2 powi 21" by (simp add: divide_le_eq power_int_def del: of_int_sint)
  then have "dbl_le (round64 (of_int (sint k) / 1024)) (round64 (2 powi 21))" by (rule round64_mono)
  moreover have "round64 (2 powi 21) = Fin (2 powi 21)" by (rule round64_powi) simp_all
  ultimately show ?thesis by (simp add: from_pango_def pango_scale_def div_by_def del: of_int_sint)
qed

lemma is_double_from_pango: "is_double (from_pango k)"
  by (simp add: from_pango_def pango_scale_def div_by_def)

text \<open>The text that is laid out is the text of the runs, and every run has its own attributes.\<close>

lemma fold_add_run:
  "fst (fold (add_run undef s) runs (t, as)) = t @ concat (map sx_text runs)"
proof (induction runs arbitrary: t as)
  case (Cons r runs)
  then show ?case by (simp add: add_run_def Let_def)
qed simp

lemma apply_styled_runs_text: "pl_text (apply_styled_runs undef runs w s) = concat (map sx_text runs)"
  using fold_add_run [of undef s runs "''''" "[]"] by (simp add: apply_styled_runs_def split_beta)

end
