(* ===== verification/Markdown_Layout.thy ===== *)
theory Markdown_Layout
  imports Markdown_Runs Markdown_Pango
begin

text \<open>
  The layout engine (\<^verbatim>\<open>gui/markdown/markdown_layout.hpp\<close> and \<^verbatim>\<open>.cpp\<close>): the tree of a document
  becomes a flow of blocks with positions and heights.  Pango's measuring of runs, the lookup of
  images and their sizes, and the page numbers of the table of contents are parameters.  \<open>None\<close> is
  an endless loop of the tag tokenizer.
\<close>

section \<open>Blocks\<close>

datatype block_kind = KP | KHeading | KQuote | KCode | KUlItem | KOlItem | KTaskItem | KTable | KHr
  | KImage | KTocRow | KPageBreak

record cell =
  ce_run :: "styled_text list"
  ce_height :: dbl
  ce_align :: cell_align
  ce_header :: bool

record table_row =
  tr_cells :: "cell list"
  tr_height :: dbl

record block =
  bl_kind :: block_kind
  bl_y :: dbl
  bl_height :: dbl
  bl_baseline :: dbl
  bl_margin_before :: dbl
  bl_margin_after :: dbl
  bl_level :: int
  bl_run :: "styled_text list"
  bl_bg :: color
  bl_has_bg :: bool
  bl_border :: color
  bl_border_left_w :: dbl
  bl_outer_border :: color
  bl_border_w :: dbl
  bl_color :: color
  bl_padding :: dbl
  bl_content_width :: dbl
  bl_is_code :: bool
  bl_code_lang :: string
  bl_badge_room :: dbl
  bl_marker :: string
  bl_image :: "(string \<times> dbl \<times> dbl) option"
  bl_is_table :: bool
  bl_rows :: "table_row list"
  bl_col_widths :: "dbl list"
  bl_table_center_x :: dbl
  bl_cell_pad :: dbl
  bl_toc_indent :: dbl
  bl_toc_number :: string
  bl_toc_text :: string
  bl_toc_anchor :: string
  bl_toc_page :: "int option"
  bl_page_num_w :: dbl
  bl_link_x :: dbl
  bl_link_w :: dbl
  bl_link_h :: dbl
  bl_link_href :: string
  bl_has_link_hit :: bool

definition new_block :: block where
  "new_block = \<lparr>bl_kind = KP, bl_y = Fin 0, bl_height = Fin 0, bl_baseline = Fin 0, bl_margin_before = Fin 0,
     bl_margin_after = Fin 0, bl_level = 0, bl_run = [], bl_bg = no_color, bl_has_bg = False, bl_border = no_color,
     bl_border_left_w = Fin 0, bl_outer_border = no_color, bl_border_w = Fin 0, bl_color = no_color,
     bl_padding = Fin 0, bl_content_width = Fin 0, bl_is_code = False, bl_code_lang = '''', bl_badge_room = Fin 0,
     bl_marker = '''', bl_image = None, bl_is_table = False, bl_rows = [], bl_col_widths = [],
     bl_table_center_x = Fin 0, bl_cell_pad = Fin 0, bl_toc_indent = Fin 0, bl_toc_number = '''', bl_toc_text = '''',
     bl_toc_anchor = '''', bl_toc_page = None, bl_page_num_w = Fin 0, bl_link_x = Fin 0, bl_link_w = Fin 0,
     bl_link_h = Fin 0, bl_link_href = '''', bl_has_link_hit = False\<rparr>"

definition block_keeps_with_next :: "block \<Rightarrow> bool" where
  "block_keeps_with_next b \<longleftrightarrow> bl_kind b = KHeading"

record layout_env =
  le_dp :: char
  le_undef :: i32
  le_sheet :: style_sheet
  le_width :: dbl
  le_measure :: "styled_text list \<Rightarrow> dbl \<Rightarrow> style_sheet \<Rightarrow> metrics"
  le_resolve_image :: "(string \<Rightarrow> string option) option"
  le_image_size :: "string \<Rightarrow> (int \<times> int) option"
  le_toc_pages :: "(string \<Rightarrow> int option) option"
  le_render_toc :: bool
  le_headings :: "heading list"

record layout_state =
  ls_blocks :: "block list"
  ls_y :: dbl
  ls_heading_seq :: nat
  ls_block_ctx :: "inline_css list"

definition layout_start :: layout_state where
  "layout_start = \<lparr>ls_blocks = [], ls_y = Fin 0, ls_heading_seq = 0, ls_block_ctx = []\<rparr>"

text \<open>\<^verbatim>\<open>b.y = y + b.margin_before; y = b.y + b.height + b.margin_after; push_block(b)\<close>\<close>

definition place :: "block \<Rightarrow> layout_state \<Rightarrow> layout_state" where
  "place b st =
     (let y = dbl_add (ls_y st) (bl_margin_before b)
      in st\<lparr>ls_blocks := ls_blocks st @ [b\<lparr>bl_y := y\<rparr>],
            ls_y := dbl_add (dbl_add y (bl_height b)) (bl_margin_after b)\<rparr>)"

section \<open>Runs of a block\<close>

definition run_env_of :: "layout_env \<Rightarrow> run_env" where
  "run_env_of env = \<lparr>ru_dp = le_dp env, ru_undef = le_undef env, ru_sheet = le_sheet env\<rparr>"

text \<open>A builder in the base style, under the open HTML wrappers\<close>

definition ctx_builder :: "layout_env \<Rightarrow> inline_css list \<Rightarrow> styled_text list \<Rightarrow> run_builder" where
  "ctx_builder env ctx runs =
     (let s = le_sheet env in fold rb_apply ctx (new_builder (st_base_font s) (st_base_font_pt s) (st_text_color s) runs))"

definition emit_children :: "layout_env \<Rightarrow> run_builder \<Rightarrow> node list \<Rightarrow> styled_text list option" where
  "emit_children env rb cs = map_option rb_out (rb_emits (run_env_of env) cs rb)"

definition plain_text :: "layout_env \<Rightarrow> string \<Rightarrow> color \<Rightarrow> styled_text" where
  "plain_text env t col = styled t (base_run (st_base_font (le_sheet env)) (st_base_font_pt (le_sheet env)) col)"

definition base_text :: "layout_env \<Rightarrow> string \<Rightarrow> styled_text" where
  "base_text env t = plain_text env t (st_text_color (le_sheet env))"

definition measured :: "layout_env \<Rightarrow> styled_text list \<Rightarrow> dbl \<Rightarrow> metrics" where
  "measured env runs w = le_measure env runs w (le_sheet env)"

definition heading_anchor :: "layout_env \<Rightarrow> node \<Rightarrow> nat \<Rightarrow> string" where
  "heading_anchor env n k =
     (if k < length (le_headings env) then h_anchor (le_headings env ! k) else slugify_heading (inline_plain_text n))"

definition marker_width :: "layout_env \<Rightarrow> string \<Rightarrow> dbl" where
  "marker_width env marker = pm_width (measured env [base_text env marker] (Fin (- 1)))"

text \<open>The destination the links of a run share, when they share one\<close>

definition uniform_href :: "styled_text list \<Rightarrow> string option" where
  "uniform_href runs =
     (case filter (\<lambda>h. h \<noteq> '''') (map sx_href (filter sx_is_link runs)) of
        [] \<Rightarrow> None
      | h # hs \<Rightarrow> if list_all (\<lambda>h'. h' = h) hs then Some h else None)"

section \<open>Blocks of their own\<close>

definition append_paragraph :: "layout_env \<Rightarrow> node list \<Rightarrow> layout_state \<Rightarrow> layout_state option" where
  "append_paragraph env cs st =
     map_option (\<lambda>runs.
       if runs = [] then st
       else let box = box_for (le_sheet env) SelParagraph; m = measured env runs (le_width env);
                b = new_block\<lparr>bl_kind := KP, bl_margin_before := bx_margin_top box, bl_margin_after := bx_margin_bottom box,
                      bl_run := runs, bl_content_width := le_width env, bl_height := pm_height m,
                      bl_baseline := pm_baseline m\<rparr>
            in place (case uniform_href runs of
                        Some h \<Rightarrow> b\<lparr>bl_has_link_hit := True, bl_link_href := h, bl_link_x := Fin 0,
                                   bl_link_w := bl_content_width b, bl_link_h := bl_height b\<rparr>
                      | None \<Rightarrow> b) st)
       (emit_children env (ctx_builder env (ls_block_ctx st) []) cs)"

definition heading_selector :: "int \<Rightarrow> style_selector" where
  "heading_selector level =
     (let k = max 0 (min 5 (level - 1))
      in if k = 0 then SelH1 else if k = 1 then SelH2 else if k = 2 then SelH3 else if k = 3 then SelH4
         else if k = 4 then SelH5 else SelH6)"

definition append_heading :: "layout_env \<Rightarrow> node \<Rightarrow> int \<Rightarrow> layout_state \<Rightarrow> layout_state option" where
  "append_heading env h level st =
     (let s = le_sheet env; sel = heading_selector level; box = box_for s sel;
          rb = fold rb_apply (ls_block_ctx st) (new_builder (font_for s sel) (font_size_for s sel) (color_for s sel) []);
          rb = rb_set_weight (if 0 <s ts_weight (st_text s sel) then ts_weight (st_text s sel) else 400) rb;
          anchor = heading_anchor env h (ls_heading_seq st);
          st = st\<lparr>ls_heading_seq := ls_heading_seq st + 1\<rparr>
      in map_option (\<lambda>runs.
           if runs = [] then st
           else let m = measured env runs (le_width env)
                in place (new_block\<lparr>bl_kind := KHeading, bl_level := level, bl_margin_before := bx_margin_top box,
                     bl_margin_after := bx_margin_bottom box, bl_run := runs, bl_content_width := le_width env,
                     bl_height := pm_height m, bl_baseline := pm_baseline m, bl_has_link_hit := True, bl_link_x := Fin 0,
                     bl_link_w := pm_width m, bl_link_h := pm_height m, bl_link_href := CHR ''#'' # anchor\<rparr>) st)
           (emit_children env (rb\<lparr>rb_anchor := anchor\<rparr>) (kids h)))"

definition emit_hr_block :: "layout_env \<Rightarrow> layout_state \<Rightarrow> layout_state" where
  "emit_hr_block env st =
     (let hbox = box_for (le_sheet env) SelHr
      in place (new_block\<lparr>bl_kind := KHr,
           bl_margin_before := if bx_any_set hbox then bx_margin_top hbox else Fin 10,
           bl_margin_after := if bx_any_set hbox then bx_margin_bottom hbox else Fin 10,
           bl_height := Fin 1.5, bl_color := st_hr_color (le_sheet env), bl_content_width := le_width env\<rparr>) st)"

definition image_block :: "layout_env \<Rightarrow> string \<Rightarrow> block \<Rightarrow> block option" where
  "image_block env src b =
     (if src = '''' then None
      else case (case le_resolve_image env of Some f \<Rightarrow> f src | None \<Rightarrow> None) of
             None \<Rightarrow> None
           | Some path \<Rightarrow>
               (case le_image_size env path of
                  None \<Rightarrow> None
                | Some (pw, ph) \<Rightarrow>
                    if pw \<le> 0 \<or> ph \<le> 0 then None
                    else let w = Fin (of_int pw); h = Fin (of_int ph);
                             sc = dbl_div (le_width env) w;
                             sc = (if dbl_le (Fin 1) sc then Fin 1 else sc)
                         in Some (b\<lparr>bl_image := Some (path, dbl_mul w sc, dbl_mul h sc), bl_height := dbl_mul h sc,
                                   bl_kind := KImage\<rparr>)))"

text \<open>The paragraphs of a quote, and of the quotes in it, with line breaks between them\<close>

fun quote_walk :: "layout_env \<Rightarrow> inline_css list \<Rightarrow> node \<Rightarrow> styled_text list \<times> bool \<Rightarrow> (styled_text list \<times> bool) option"
  and quote_walks :: "layout_env \<Rightarrow> inline_css list \<Rightarrow> node list \<Rightarrow> styled_text list \<times> bool \<Rightarrow>
    (styled_text list \<times> bool) option" where
  "quote_walk env ctx (Node d cs) (runs, first) =
     (if n_type d = NParagraph then
        map_option (\<lambda>runs. (runs, False))
          (emit_children env (ctx_builder env ctx (if first then runs else runs @ [base_text env [newline]])) cs)
      else if n_type d = NBlockQuote then quote_walks env ctx cs (runs, first)
      else Some (runs, first))"
| "quote_walks env ctx [] acc = Some acc"
| "quote_walks env ctx (c # cs) acc = Option.bind (quote_walk env ctx c acc) (quote_walks env ctx cs)"

definition append_quote :: "layout_env \<Rightarrow> node list \<Rightarrow> layout_state \<Rightarrow> layout_state option" where
  "append_quote env cs st =
     map_option (\<lambda>(runs, _).
       if runs = [] then st
       else let s = le_sheet env; box = box_for s SelBlockquote; bg = bg_color_for s SelBlockquote;
                inner = dbl_sub (le_width env) (dbl_mul (Fin 2) (bx_padding box)); m = measured env runs inner
            in place (new_block\<lparr>bl_kind := KQuote, bl_bg := bg, bl_border := bx_border_color box,
                 bl_has_bg := col_valid bg, bl_border_left_w := bx_border_left_width box, bl_padding := bx_padding box,
                 bl_margin_before := bx_margin_top box, bl_margin_after := bx_margin_bottom box, bl_run := runs,
                 bl_content_width := inner, bl_height := dbl_add (pm_height m) (dbl_mul (Fin 2) (bx_padding box)),
                 bl_baseline := dbl_add (pm_baseline m) (bx_padding box)\<rparr>) st)
       (quote_walks env (ls_block_ctx st) cs ([], True))"

definition kCodeBadgeLinePt :: dbl where
  "kCodeBadgeLinePt = dbl_mul (Fin 7.5) (round64 1.4)"

definition append_code :: "layout_env \<Rightarrow> node_data \<Rightarrow> layout_state \<Rightarrow> layout_state" where
  "append_code env d st =
     (let s = le_sheet env; box = box_for s SelPre; pad = bx_padding box;
          room = (if n_info d = '''' then Fin 0
                  else dbl_max (Fin 0) (dbl_sub (dbl_add (dbl_add (Fin 4) kCodeBadgeLinePt) (Fin 4)) pad));
          inner = dbl_sub (le_width env) (dbl_mul (Fin 2) pad);
          run = styled (n_text d) (base_run ''monospace'' (font_size_for s SelPre) (color_for s SelPre));
          m = measured env [run] inner
      in place (new_block\<lparr>bl_kind := KCode, bl_is_code := True, bl_code_lang := n_info d, bl_bg := bg_color_for s SelPre,
           bl_has_bg := col_valid (bg_color_for s SelPre), bl_outer_border := bx_border_color box,
           bl_border_w := bx_border_width box, bl_padding := pad, bl_margin_before := bx_margin_top box,
           bl_margin_after := bx_margin_bottom box, bl_badge_room := room, bl_run := [run], bl_content_width := inner,
           bl_height := dbl_add (dbl_add (dbl_add (pm_height m) pad) pad) room,
           bl_baseline := dbl_add (dbl_add (pm_baseline m) pad) room\<rparr>) st)"

section \<open>Lists\<close>

definition square_full :: string where
  "square_full = [CHR 0xE2, CHR 0x96, CHR 0xA0, CHR '' '']"

definition square_empty :: string where
  "square_empty = [CHR 0xE2, CHR 0x96, CHR 0xA1, CHR '' '']"

text \<open>The items of a nested list: only the paragraphs in them, each on a new line\<close>

fun sub_paragraphs :: "layout_env \<Rightarrow> inline_css list \<Rightarrow> node list \<Rightarrow> styled_text list \<Rightarrow> styled_text list option" where
  "sub_paragraphs env ctx [] runs = Some runs"
| "sub_paragraphs env ctx (n # ns) runs =
     (if n_type (nd n) = NParagraph
      then Option.bind (emit_children env (ctx_builder env ctx (runs @ [base_text env [newline]])) (kids n))
             (sub_paragraphs env ctx ns)
      else sub_paragraphs env ctx ns runs)"

text \<open>The children of an item; the flag is \<^verbatim>\<open>have_text\<close>.\<close>

fun item_runs :: "layout_env \<Rightarrow> inline_css list \<Rightarrow> node list \<Rightarrow> styled_text list \<times> bool \<Rightarrow> (styled_text list \<times> bool) option" where
  "item_runs env ctx [] acc = Some acc"
| "item_runs env ctx (n # ns) (runs, have) =
     (if n_type (nd n) = NParagraph then
        Option.bind (emit_children env (ctx_builder env ctx runs) (kids n)) (\<lambda>runs. item_runs env ctx ns (runs, True))
      else if n_type (nd n) = NList then
        Option.bind (sub_paragraphs env ctx (concat (map kids (kids n))) runs) (\<lambda>runs. item_runs env ctx ns (runs, have))
      else
        Option.bind (emit_children env (ctx_builder env ctx runs) [n]) (\<lambda>runs. item_runs env ctx ns (runs, True)))"

definition item_kind :: "node_data \<Rightarrow> node_data \<Rightarrow> block_kind" where
  "item_kind l d = (if n_task d then KTaskItem else if n_ordered l then KOlItem else KUlItem)"

definition item_marker :: "node_data \<Rightarrow> node_data \<Rightarrow> i32 \<Rightarrow> string" where
  "item_marker l d ordinal =
     (if n_task d then (if n_checked d then square_full else square_empty)
      else if n_ordered l then dec_of_int (sint ordinal) @ ''. '' else bullet)"

definition append_item :: "layout_env \<Rightarrow> node_data \<Rightarrow> node \<Rightarrow> i32 \<Rightarrow> layout_state \<Rightarrow> layout_state option" where
  "append_item env l li ordinal st =
     map_option (\<lambda>(runs, have).
       if runs = [] \<and> \<not> have then st
       else let box = box_for (le_sheet env) SelListItem; marker = item_marker l (nd li) ordinal;
                text_w = dbl_sub (le_width env) (marker_width env marker);
                w = (if dbl_less (Fin 0) text_w then text_w else le_width env);
                w = (if dbl_less (Fin 0) w then w else le_width env);
                m = measured env runs w
            in place (new_block\<lparr>bl_kind := item_kind l (nd li), bl_level := 1, bl_marker := marker,
                 bl_margin_before := bx_margin_top box, bl_margin_after := bx_margin_bottom box, bl_run := runs,
                 bl_content_width := w, bl_height := dbl_max (pm_height m) (Fin 12), bl_baseline := pm_baseline m\<rparr>) st)
       (item_runs env (ls_block_ctx st) (kids li) ([], False))"

text \<open>The ordinal counts the items that are numbered, also those that give no block.\<close>

fun append_items :: "layout_env \<Rightarrow> node_data \<Rightarrow> node list \<Rightarrow> i32 \<Rightarrow> layout_state \<Rightarrow> layout_state option" where
  "append_items env l [] ordinal st = Some st"
| "append_items env l (li # lis) ordinal st =
     (if n_type (nd li) \<noteq> NListItem then append_items env l lis ordinal st
      else Option.bind (append_item env l li ordinal st)
             (append_items env l lis (if item_kind l (nd li) = KOlItem then ordinal + 1 else ordinal)))"

section \<open>Tables\<close>

definition build_cell_run :: "layout_env \<Rightarrow> node \<Rightarrow> styled_text list option" where
  "build_cell_run env c =
     (let s = le_sheet env;
          rb = (if n_header (nd c)
                then rb_set_weight (if ts_weight (st_text s SelTableHeader) <s 700 then 700 else ts_weight (st_text s SelTableHeader))
                       (new_builder (font_for s SelTableHeader) (font_size_for s SelTableHeader) (color_for s SelTableHeader) [])
                else new_builder (st_base_font s) (font_size_for s SelTable) (color_for s SelTable) [])
      in emit_children env rb (kids c))"

definition break_words :: "styled_text \<Rightarrow> styled_text" where
  "break_words r = r\<lparr>sx_text := map (\<lambda>c. if c = CHR '' '' \<or> c = CHR 0x09 then newline else c) (sx_text r)\<rparr>"

definition widest_word_width :: "layout_env \<Rightarrow> styled_text list \<Rightarrow> dbl" where
  "widest_word_width env runs = pm_width (measured env (map break_words runs) (Fin (- 1)))"

type_synonym cell_input = "styled_text list \<times> cell_align \<times> bool"

definition row_cells :: "layout_env \<Rightarrow> node \<Rightarrow> cell_input list option" where
  "row_cells env row =
     those (map (\<lambda>c. map_option (\<lambda>runs. (runs, n_align (nd c), n_header (nd c))) (build_cell_run env c))
       (filter (\<lambda>c. n_type (nd c) = NTableCell) (kids row)))"

definition table_cells :: "layout_env \<Rightarrow> node list \<Rightarrow> cell_input list list option" where
  "table_cells env rows = those (map (row_cells env) (filter (\<lambda>r. n_type (nd r) = NTableRow) rows))"

definition dbl_sum :: "dbl list \<Rightarrow> dbl" where
  "dbl_sum xs = foldl dbl_add (Fin 0) xs"

definition col_max :: "(styled_text list \<Rightarrow> dbl) \<Rightarrow> cell_input list list \<Rightarrow> nat \<Rightarrow> dbl" where
  "col_max f rows c =
     foldl (\<lambda>w row. if c < length row then dbl_max w (f (fst (row ! c))) else w) (Fin 0) rows"

text \<open>The share of each column: natural widths, narrowest widths, or the narrowest and a part of the rest\<close>

definition share_widths :: "dbl \<Rightarrow> dbl list \<Rightarrow> dbl list \<Rightarrow> dbl list" where
  "share_widths content_w min_w max_w =
     (let sum_max = dbl_sum max_w; sum_min = dbl_sum min_w
      in if dbl_le sum_max content_w then max_w
         else if dbl_le content_w sum_min then min_w
         else let space = dbl_sub content_w sum_min; elastic = dbl_sub sum_max sum_min;
                  part = (if dbl_less (Fin 0) elastic then dbl_div space elastic else Fin 0)
              in map2 (\<lambda>mn mx. dbl_add mn (dbl_mul (dbl_sub mx mn) part)) min_w max_w)"

definition cpad :: dbl where
  "cpad = Fin 5"

definition column_widths :: "layout_env \<Rightarrow> cell_input list list \<Rightarrow> nat \<Rightarrow> dbl list" where
  "column_widths env rows n =
     (let pad = dbl_mul (Fin 2) cpad;
          max_w = map (\<lambda>c. dbl_add (col_max (\<lambda>r. pm_width (measured env r (Fin (- 1)))) rows c) pad) [0..<n];
          min_w = map (\<lambda>c. dbl_add (col_max (widest_word_width env) rows c) pad) [0..<n]
      in share_widths (le_width env) min_w max_w)"

definition layout_cell :: "layout_env \<Rightarrow> cell_input list \<Rightarrow> nat \<Rightarrow> dbl \<Rightarrow> cell" where
  "layout_cell env row c w =
     (let (runs, al, hd) = (if c < length row then row ! c else ([], AlignNone, False));
          m = measured env runs (dbl_sub w (dbl_mul (Fin 2) cpad))
      in \<lparr>ce_run = runs, ce_height = dbl_add (pm_height m) (dbl_mul (Fin 2) cpad), ce_align = al, ce_header = hd\<rparr>)"

definition layout_row :: "layout_env \<Rightarrow> dbl list \<Rightarrow> cell_input list \<Rightarrow> table_row" where
  "layout_row env ws row =
     (let cells = map (\<lambda>(c, w). layout_cell env row c w) (enumerate 0 ws)
      in \<lparr>tr_cells = cells,
          tr_height = (case cells of [] \<Rightarrow> Fin 0
                       | x # _ \<Rightarrow> foldl (\<lambda>h cell. dbl_max h (ce_height cell)) (ce_height x) cells)\<rparr>)"

definition append_table :: "layout_env \<Rightarrow> node list \<Rightarrow> layout_state \<Rightarrow> layout_state option" where
  "append_table env rows st =
     map_option (\<lambda>cells.
       let n = foldl max 0 (map length cells)
       in if cells = [] \<or> n = 0 then st
          else let s = le_sheet env; box = box_for s SelTable; ws = column_widths env cells n;
                   trs = map (layout_row env ws) cells; table_w = dbl_sum ws
               in place (new_block\<lparr>bl_kind := KTable, bl_is_table := True, bl_margin_before := bx_margin_top box,
                    bl_margin_after := bx_margin_bottom box, bl_outer_border := bx_border_color box,
                    bl_border_w := Fin 0, bl_bg := bg_color_for s SelTableHeader, bl_cell_pad := cpad, bl_col_widths := ws,
                    bl_rows := trs, bl_height := dbl_sum (map tr_height trs), bl_baseline := dbl_mul cpad (Fin 0.5),
                    bl_content_width := table_w,
                    bl_table_center_x := dbl_max (Fin 0) (dbl_div (dbl_sub (le_width env) table_w) (Fin 2))\<rparr>) st)
       (table_cells env rows)"

section \<open>Table of contents\<close>

text \<open>\<^verbatim>\<open>counters.resize(level); ++counters.back()\<close>\<close>

definition toc_counters :: "int \<Rightarrow> nat list \<Rightarrow> nat list" where
  "toc_counters level counters =
     (let k = nat level; c = take k counters @ replicate (k - length counters) 0
      in if c = [] then [] else butlast c @ [last c + 1])"

definition append_toc_row :: "layout_env \<Rightarrow> heading \<Rightarrow> nat list \<times> layout_state \<Rightarrow> nat list \<times> layout_state" where
  "append_toc_row env h = (\<lambda>(counters, st).
     let s = le_sheet env; counters = toc_counters (h_level h) counters; num = join_dots counters;
         box = box_for s SelToc; indent = dbl_mul (Fin (of_int (max 0 (h_level h - 1)))) (Fin 14);
         title = [base_text env (num @ ''. ''), plain_text env (h_text h) (color_for s SelTocLink)];
         page = (case le_toc_pages env of Some f \<Rightarrow> f (h_anchor h) | None \<Rightarrow> None);
         page_runs = (case page of Some pg \<Rightarrow> [base_text env (dec_of_int pg)] | None \<Rightarrow> []);
         avail = dbl_sub (le_width env) indent; m = measured env title avail
     in (counters, place (new_block\<lparr>bl_kind := KTocRow, bl_toc_anchor := h_anchor h, bl_toc_text := h_text h,
          bl_toc_indent := indent, bl_toc_number := num, bl_margin_before := bx_margin_top box,
          bl_margin_after := bx_margin_bottom box, bl_has_link_hit := True, bl_link_href := CHR ''#'' # h_anchor h,
          bl_toc_page := page, bl_run := title @ page_runs,
          bl_page_num_w := if page_runs = [] then Fin 0 else pm_width (measured env page_runs (Fin (- 1))),
          bl_content_width := avail, bl_height := pm_height m, bl_baseline := pm_baseline m\<rparr>) st))"

definition append_toc :: "layout_env \<Rightarrow> layout_state \<Rightarrow> layout_state" where
  "append_toc env st =
     (if le_render_toc env then snd (fold (append_toc_row env) (le_headings env) ([], st))
      else let box = box_for (le_sheet env) SelParagraph; run = [base_text env ''[[TOC]]'']; m = measured env run (le_width env)
           in place (new_block\<lparr>bl_kind := KP, bl_margin_before := bx_margin_top box, bl_margin_after := bx_margin_bottom box,
                bl_run := run, bl_content_width := le_width env, bl_height := pm_height m, bl_baseline := pm_baseline m\<rparr>) st)"

section \<open>Raw HTML\<close>

definition is_page_break_marker :: "string \<Rightarrow> bool" where
  "is_page_break_marker src =
     (let sp = (\<lambda>c. c \<in> {CHR '' '', CHR 0x09, CHR 0x0A, CHR 0x0D});
          s = rev (dropWhile sp (rev (dropWhile sp src))); l = lower s
      in s \<noteq> '''' \<and> hd s = CHR ''<'' \<and>
         (starts_with ''<div'' l \<or> starts_with ''<section'' l \<or> starts_with ''<p'' l \<or> starts_with ''<span'' l) \<and>
         (contains ''page-break-before:'' l \<or> contains ''break-before:'' l \<or>
          contains ''page-break-after:'' l \<or> contains ''break-after:'' l) \<and>
         (contains '': always'' l \<or> contains '': page'' l))"

definition append_page_break :: "layout_env \<Rightarrow> layout_state \<Rightarrow> layout_state" where
  "append_page_break env st =
     place (new_block\<lparr>bl_kind := KPageBreak, bl_margin_before := Fin 6, bl_margin_after := Fin 6, bl_height := Fin 2,
       bl_content_width := le_width env, bl_color := st_text_color (le_sheet env)\<rparr>) st"

definition html_env_of :: "layout_env \<Rightarrow> html_env" where
  "html_env_of env = \<lparr>he_dp = le_dp env, he_undef = le_undef env, he_sheet = le_sheet env,
     he_font = st_base_font (le_sheet env), he_size = st_base_font_pt (le_sheet env),
     he_color = st_text_color (le_sheet env)\<rparr>"

definition append_chunk :: "layout_env \<Rightarrow> string \<Rightarrow> layout_state \<Rightarrow> layout_state option" where
  "append_chunk env src st =
     map_option (\<lambda>res. case res of
         None \<Rightarrow> st
       | Some runs \<Rightarrow>
           let box = box_for (le_sheet env) SelParagraph; m = measured env runs (le_width env)
           in place (new_block\<lparr>bl_kind := KP, bl_margin_before := bx_margin_top box, bl_margin_after := bx_margin_bottom box,
                bl_run := runs, bl_content_width := le_width env, bl_height := pm_height m, bl_baseline := pm_baseline m\<rparr>) st)
       (render_html_block_runs (html_env_of env) src)"

definition append_html :: "layout_env \<Rightarrow> string \<Rightarrow> layout_state \<Rightarrow> layout_state option" where
  "append_html env src st =
     (if is_page_break_marker src then Some (append_page_break env st)
      else let t = html_trim src
           in case parse_html_tag t of
                None \<Rightarrow> None
              | Some p \<Rightarrow>
                  (case (case p of
                           Some tag \<Rightarrow> if tag_consumed tag = length t \<and> is_block_level_tag (tag_name tag) then Some tag else None
                         | None \<Rightarrow> None) of
                     Some tag \<Rightarrow>
                       Some (if tag_name tag = ''hr'' \<and> \<not> tag_closing tag then emit_hr_block env st
                             else if tag_closing tag then st\<lparr>ls_block_ctx := butlast (ls_block_ctx st)\<rparr>
                             else if \<not> tag_self_closing tag then
                               st\<lparr>ls_block_ctx := ls_block_ctx st @
                                    [style_from_tag (le_dp env) (le_undef env) (tag_name tag) (tag_style tag) (le_sheet env)]\<rparr>
                             else st)
                   | None \<Rightarrow> append_chunk env src st))"

section \<open>The document\<close>

definition image_paragraph :: "node list \<Rightarrow> bool" where
  "image_paragraph cs \<longleftrightarrow> length cs = 1 \<and> n_type (nd (hd cs)) = NImage"

function (sequential) layout_node :: "layout_env \<Rightarrow> node \<Rightarrow> layout_state \<Rightarrow> layout_state option"
  and layout_nodes :: "layout_env \<Rightarrow> node list \<Rightarrow> layout_state \<Rightarrow> layout_state option" where
  "layout_node env (Node d cs) st =
     (case n_type d of
        NHeading \<Rightarrow> append_heading env (Node d cs) (max 1 (n_level d)) st
      | NParagraph \<Rightarrow>
          if image_paragraph cs then
            Some (case image_block env (n_text (nd (hd cs))) (new_block\<lparr>bl_margin_before := Fin 6, bl_margin_after := Fin 6\<rparr>) of
                    Some b \<Rightarrow> place b st
                  | None \<Rightarrow> st)
          else append_paragraph env cs st
      | NBlockQuote \<Rightarrow> append_quote env cs st
      | NCodeBlock \<Rightarrow> Some (append_code env d st)
      | NThematicBreak \<Rightarrow> Some (emit_hr_block env st)
      | NList \<Rightarrow> append_items env d cs (n_start d) st
      | NTable \<Rightarrow> append_table env cs st
      | NToc \<Rightarrow> Some (append_toc env st)
      | NHtmlBlock \<Rightarrow> append_html env (n_text d) st
      | _ \<Rightarrow> layout_nodes env cs st)"
| "layout_nodes env [] st = Some st"
| "layout_nodes env (c # cs) st = Option.bind (layout_node env c st) (layout_nodes env cs)"
  by pat_completeness auto
termination
  by (relation "measure (\<lambda>x. case x of Inl (_, n, _) \<Rightarrow> size n | Inr (_, ns, _) \<Rightarrow> size_list size ns)") auto

definition layout_document :: "layout_env \<Rightarrow> node \<Rightarrow> layout_state option" where
  "layout_document env doc = layout_nodes (env\<lparr>le_headings := headings doc\<rparr>) (kids doc) layout_start"

end
