(* ===== verification/Pdf_Export.thy ===== *)
theory Pdf_Export
  imports Markdown_Layout
begin

text \<open>
  PDF export (\<^verbatim>\<open>gui/markdown/markdown_pdf_export.hpp\<close> and \<^verbatim>\<open>.cpp\<close>): the pages of a flow of blocks,
  the second layout that knows the page numbers, the texts of the header and footer bands and the
  outline.  \<^verbatim>\<open>Pdf_Draw\<close> has the drawing.
\<close>

section \<open>Pages\<close>

record page_slice =
  pg_first :: nat
  pg_last :: nat
  pg_start_y :: dbl

definition is_break :: "block \<Rightarrow> bool" where
  "is_break b \<longleftrightarrow> bl_kind b = KPageBreak"

text \<open>Where a block ends, counted from the top of the page\<close>

definition rel_bottom :: "dbl \<Rightarrow> block \<Rightarrow> dbl" where
  "rel_bottom y0 b = dbl_add (dbl_sub (bl_y b) y0) (bl_height b)"

text \<open>The inner loop: the last block of the page that begins at \<open>cursor\<close>\<close>

function fill_page :: "block list \<Rightarrow> dbl \<Rightarrow> dbl \<Rightarrow> nat \<Rightarrow> nat \<Rightarrow> nat \<Rightarrow> nat" where
  "fill_page blocks page_h y0 cursor candidate lst =
     (if length blocks \<le> candidate then lst
      else let b = blocks ! candidate
           in if is_break b then lst
              else if dbl_less page_h (rel_bottom y0 b) then (if candidate = cursor then candidate else lst)
              else let lst = candidate; candidate = candidate + 1
                   in if candidate < length blocks \<and> \<not> is_break (blocks ! candidate) \<and> bl_kind b = KHeading \<and>
                         dbl_less page_h (rel_bottom y0 (blocks ! candidate))
                      then (if cursor < lst then lst - 1 else lst)
                      else fill_page blocks page_h y0 cursor candidate lst)"
  by pat_completeness auto
termination
  by (relation "measure (\<lambda>(blocks, _, _, _, candidate, _). length blocks - candidate)") auto

declare fill_page.simps [simp del]

definition skip_breaks :: "block list \<Rightarrow> nat \<Rightarrow> nat" where
  "skip_breaks blocks cursor = cursor + length (takeWhile is_break (drop cursor blocks))"

lemma fill_page_ge: "cursor \<le> candidate \<Longrightarrow> cursor \<le> lst \<Longrightarrow> cursor \<le> fill_page blocks page_h y0 cursor candidate lst"
proof (induction blocks page_h y0 cursor candidate lst rule: fill_page.induct)
  case (1 blocks page_h y0 cursor candidate lst)
  then show ?case by (subst fill_page.simps) (auto simp: Let_def)
qed

function pages_from :: "block list \<Rightarrow> dbl \<Rightarrow> nat \<Rightarrow> page_slice list" where
  "pages_from blocks page_h cursor0 =
     (let cursor = skip_breaks blocks cursor0
      in if length blocks \<le> cursor then []
         else let y0 = bl_y (blocks ! cursor); lst = fill_page blocks page_h y0 cursor cursor cursor
              in \<lparr>pg_first = cursor, pg_last = lst, pg_start_y = y0\<rparr> # pages_from blocks page_h (lst + 1))"
  by pat_completeness auto
termination
proof (relation "measure (\<lambda>(blocks, _, cursor). length blocks - cursor)", simp)
  fix blocks page_h cursor0 cursor y0 lst
  assume c: "cursor = skip_breaks blocks cursor0" "\<not> length blocks \<le> cursor" "y0 = bl_y (blocks ! cursor)"
    "lst = fill_page blocks page_h y0 cursor cursor cursor"
  have "cursor0 \<le> cursor" "cursor \<le> lst" using c fill_page_ge by (auto simp: skip_breaks_def)
  then show "((blocks, page_h, lst + 1), blocks, page_h, cursor0) \<in> measure (\<lambda>(blocks, _, cursor). length blocks - cursor)"
    using c(2) by simp
qed

declare pages_from.simps [simp del]

definition paginate_blocks :: "block list \<Rightarrow> dbl \<Rightarrow> page_slice list" where
  "paginate_blocks blocks page_h =
     (let pages = pages_from blocks page_h 0
      in if pages = [] then [\<lparr>pg_first = 0, pg_last = 0, pg_start_y = Fin 0\<rparr>] else pages)"

section \<open>The two layouts\<close>

definition page_indices :: "block list \<Rightarrow> page_slice \<Rightarrow> nat list" where
  "page_indices blocks s = [pg_first s ..< min (pg_last s + 1) (length blocks)]"

text \<open>The anchors of the headings on a page, numbered; a later entry replaces an earlier one.\<close>

definition page_anchors :: "block list \<Rightarrow> page_slice \<Rightarrow> string list" where
  "page_anchors blocks s =
     List.map_filter (\<lambda>i. let b = blocks ! i
         in if bl_kind b = KHeading \<and> bl_link_href b \<noteq> '''' \<and> hd (bl_link_href b) = CHR ''#''
            then Some (tl (bl_link_href b)) else None) (page_indices blocks s)"

definition anchor_pages :: "block list \<Rightarrow> page_slice list \<Rightarrow> string \<Rightarrow> int option" where
  "anchor_pages blocks pages =
     fold (\<lambda>(k, s) m. fold (\<lambda>a m. m(a \<mapsto> int k + 1)) (page_anchors blocks s) m) (enumerate 0 pages) Map.empty"

definition no_anchors :: "block list \<Rightarrow> page_slice list \<Rightarrow> bool" where
  "no_anchors blocks pages \<longleftrightarrow> list_all (\<lambda>s. page_anchors blocks s = []) pages"

definition page_content_height :: "style_sheet \<Rightarrow> dbl" where
  "page_content_height s = dbl_sub (dbl_sub (st_page_height s) (st_page_margin s)) (st_page_margin s)"

definition pdf_content_width :: "style_sheet \<Rightarrow> dbl" where
  "pdf_content_width s = dbl_sub (dbl_sub (st_page_width s) (st_page_margin s)) (st_page_margin s)"

text \<open>
  The blocks and pages that are drawn; \<open>Some None\<close> is \<^verbatim>\<open>false\<close>, for a document without blocks.  The
  environment is the one of the first layout: no page numbers, a table of contents that is
  expanded, and the width between the margins.
\<close>

definition pdf_env :: "layout_env \<Rightarrow> layout_env" where
  "pdf_env env = env\<lparr>le_width := pdf_content_width (le_sheet env), le_toc_pages := None, le_render_toc := True\<rparr>"

definition pdf_pages :: "layout_env \<Rightarrow> node \<Rightarrow> (block list \<times> page_slice list) option option" where
  "pdf_pages env doc =
     (let env = pdf_env env; page_h = page_content_height (le_sheet env)
      in case layout_document env doc of
           None \<Rightarrow> None
         | Some st \<Rightarrow>
             let blocks = ls_blocks st; pages = paginate_blocks blocks page_h
             in if blocks = [] then Some None
                else if \<not> (\<exists>b \<in> set blocks. bl_kind b = KTocRow) \<or> no_anchors blocks pages then Some (Some (blocks, pages))
                else case layout_document (env\<lparr>le_toc_pages := Some (anchor_pages blocks pages)\<rparr>) doc of
                       None \<Rightarrow> None
                     | Some st \<Rightarrow>
                         if ls_blocks st = [] then Some None
                         else Some (Some (ls_blocks st, paginate_blocks (ls_blocks st) page_h)))"

section \<open>Bands\<close>

record page_meta =
  me_title :: string
  me_author :: string
  me_header_left :: string
  me_header_center :: string
  me_header_right :: string
  me_footer_left :: string
  me_footer_center :: string
  me_footer_right :: string

text \<open>All occurrences of a token that is not empty, from left to right\<close>

function replace_all :: "string \<Rightarrow> string \<Rightarrow> string \<Rightarrow> string" where
  "replace_all tok val s =
     (if s = [] \<or> tok = [] then s
      else if starts_with tok s then val @ replace_all tok val (drop (length tok) s)
      else hd s # replace_all tok val (tl s))"
  by pat_completeness auto
termination
  by (relation "measure (\<lambda>(_, _, s). length s)") (auto simp: diff_less)

declare replace_all.simps [simp del]

definition expand_tokens :: "string \<Rightarrow> string \<Rightarrow> string \<Rightarrow> int \<Rightarrow> int \<Rightarrow> page_meta \<Rightarrow> string" where
  "expand_tokens date time template page pages meta =
     fold (\<lambda>(tok, val). replace_all tok val)
       [(''{page}'', dec_of_int page), (''{pages}'', dec_of_int pages), (''{date}'', date), (''{time}'', time),
        (''{title}'', me_title meta), (''{author}'', me_author meta), (''{filename}'', me_title meta)] template"

definition page_bands :: "string \<Rightarrow> string \<Rightarrow> page_meta \<Rightarrow> nat \<Rightarrow> nat \<Rightarrow> string list" where
  "page_bands date time meta k n =
     map (\<lambda>t. expand_tokens date time t (int k + 1) (int n) meta)
       [me_header_left meta, me_header_center meta, me_header_right meta,
        me_footer_left meta, me_footer_center meta, me_footer_right meta]"

section \<open>Outline\<close>

text \<open>
  An entry with its parent, 0 for the root; the \<open>k\<close>-th entry that is added has the number \<open>k + 1\<close>.
  \<open>lasts\<close> holds the last entry of each level and is never cleared.
\<close>

record outline_entry =
  ou_parent :: nat
  ou_text :: string
  ou_dest :: string

definition add_outline :: "heading \<Rightarrow> nat list \<times> outline_entry list \<Rightarrow> nat list \<times> outline_entry list" where
  "add_outline h = (\<lambda>(lasts, es).
     let level = nat (max 1 (min 6 (h_level h)))
     in (lasts[level := length es + 1],
         es @ [\<lparr>ou_parent = lasts ! (level - 1), ou_text = cstr (h_text h),
          ou_dest = cstr (''dest='' @ [CHR 0x27] @ h_anchor h @ [CHR 0x27])\<rparr>]))"

definition pdf_outline :: "heading list \<Rightarrow> outline_entry list" where
  "pdf_outline hs = snd (fold add_outline hs (replicate 7 0, []))"

end
