(* ===== verification/Pdf_Pages.thy ===== *)
theory Pdf_Pages
  imports Pdf_Export
begin

text \<open>
  What the paginator guarantees: every block but the page breaks is on exactly one page, in order;
  what is on a page fits, and a heading is not parted from its block.
\<close>

section \<open>One page\<close>

definition fits :: "block list \<Rightarrow> dbl \<Rightarrow> dbl \<Rightarrow> nat \<Rightarrow> bool" where
  "fits blocks page_h y0 i \<longleftrightarrow> \<not> dbl_less page_h (rel_bottom y0 (blocks ! i))"

definition follows :: "block list \<Rightarrow> nat \<Rightarrow> bool" where
  "follows blocks i \<longleftrightarrow> i < length blocks \<and> \<not> is_break (blocks ! i)"

abbreviation heading_at :: "block list \<Rightarrow> nat \<Rightarrow> bool" where
  "heading_at blocks i \<equiv> bl_kind (blocks ! i) = KHeading"

text \<open>What the loop knows when it looks at \<open>candidate\<close>\<close>

definition filling :: "block list \<Rightarrow> dbl \<Rightarrow> dbl \<Rightarrow> nat \<Rightarrow> nat \<Rightarrow> nat \<Rightarrow> bool" where
  "filling blocks page_h y0 cursor candidate lst \<longleftrightarrow>
     follows blocks cursor \<and> cursor \<le> candidate \<and> candidate \<le> length blocks \<and>
     (if candidate = cursor then lst = cursor else lst = candidate - 1) \<and>
     (\<forall>i. cursor \<le> i \<longrightarrow> i < candidate \<longrightarrow> follows blocks i \<and> fits blocks page_h y0 i) \<and>
     (cursor < candidate \<longrightarrow> heading_at blocks lst \<longrightarrow> follows blocks candidate \<longrightarrow> fits blocks page_h y0 candidate)"

text \<open>What holds of the last block of the page\<close>

definition page_ok :: "block list \<Rightarrow> dbl \<Rightarrow> dbl \<Rightarrow> nat \<Rightarrow> nat \<Rightarrow> bool" where
  "page_ok blocks page_h y0 cursor lst \<longleftrightarrow>
     cursor \<le> lst \<and> (\<forall>i. cursor \<le> i \<longrightarrow> i \<le> lst \<longrightarrow> follows blocks i) \<and>
     (cursor < lst \<longrightarrow> (\<forall>i. cursor \<le> i \<longrightarrow> i \<le> lst \<longrightarrow> fits blocks page_h y0 i)) \<and>
     (heading_at blocks lst \<longrightarrow> follows blocks (lst + 1) \<longrightarrow> lst = cursor \<or> heading_at blocks (lst + 1)) \<and>
     (follows blocks (lst + 1) \<longrightarrow> fits blocks page_h y0 cursor \<longrightarrow> fits blocks page_h y0 (lst + 1) \<longrightarrow>
        heading_at blocks (lst + 1) \<and> follows blocks (lst + 2) \<and> \<not> fits blocks page_h y0 (lst + 2))"

lemma fill_page_ok:
  "filling blocks page_h y0 cursor candidate lst \<Longrightarrow>
    page_ok blocks page_h y0 cursor (fill_page blocks page_h y0 cursor candidate lst)"
proof (induction blocks page_h y0 cursor candidate lst rule: fill_page.induct)
  case (1 blocks page_h y0 cursor candidate lst)
  note pre = "1.prems"
  then have last: "lst = (if candidate = cursor then cursor else candidate - 1)" and cur: "follows blocks cursor"
    and le: "cursor \<le> candidate" "candidate \<le> length blocks"
    and all: "\<And>i. cursor \<le> i \<Longrightarrow> i < candidate \<Longrightarrow> follows blocks i \<and> fits blocks page_h y0 i"
    by (auto simp: filling_def)
  have stop: "page_ok blocks page_h y0 cursor lst"
    if "\<not> follows blocks candidate \<or> candidate \<noteq> cursor \<and> \<not> fits blocks page_h y0 candidate"
  proof -
    have ne: "cursor < candidate" using that cur le by (cases "candidate = cursor") auto
    then have l: "lst = candidate - 1" "lst + 1 = candidate" using last by auto
    have "\<not> heading_at blocks lst \<or> \<not> follows blocks candidate" using that pre ne by (auto simp: filling_def)
    with that l ne all le show ?thesis by (auto simp: page_ok_def)
  qed
  show ?case
  proof (cases "follows blocks candidate")
    case False
    then have "fill_page blocks page_h y0 cursor candidate lst = lst"
      by (subst fill_page.simps) (auto simp: follows_def Let_def)
    with stop False show ?thesis by simp
  next
    case here: True
    show ?thesis
    proof (cases "fits blocks page_h y0 candidate")
      case False
      then have e: "fill_page blocks page_h y0 cursor candidate lst = (if candidate = cursor then candidate else lst)"
        using here by (subst fill_page.simps) (simp add: follows_def fits_def Let_def)
      show ?thesis
      proof (cases "candidate = cursor")
        case True
        with False cur show ?thesis unfolding e by (auto simp: page_ok_def le_antisym)
      next
        case ne: False
        with False stop show ?thesis unfolding e by simp
      qed
    next
      case fit: True
      let ?look = "candidate + 1 < length blocks \<and> \<not> is_break (blocks ! (candidate + 1)) \<and> heading_at blocks candidate \<and>
        dbl_less page_h (rel_bottom y0 (blocks ! (candidate + 1)))"
      have e: "fill_page blocks page_h y0 cursor candidate lst =
        (if ?look then (if cursor < candidate then candidate - 1 else candidate)
         else fill_page blocks page_h y0 cursor (candidate + 1) candidate)"
        using here fit by (subst fill_page.simps) (simp add: follows_def fits_def Let_def)
      have all': "follows blocks i \<and> fits blocks page_h y0 i" if "cursor \<le> i" "i \<le> candidate" for i
        using that all here fit by (cases "i = candidate") auto
      show ?thesis
      proof (cases ?look)
        case True
        then have f: "follows blocks (candidate + 1)" "\<not> fits blocks page_h y0 (candidate + 1)"
          by (auto simp: follows_def fits_def)
        show ?thesis
        proof (cases "cursor < candidate")
          case True
          then have "candidate - 1 + 1 = candidate" "candidate - 1 + 2 = candidate + 1" by simp_all
          with True \<open>?look\<close> f all' here e show ?thesis unfolding page_ok_def by simp
        next
          case False
          then have "candidate = cursor" using le by simp
          with f \<open>?look\<close> all' e show ?thesis unfolding page_ok_def by (simp add: le_antisym)
        qed
      next
        case no: False
        have "filling blocks page_h y0 cursor (candidate + 1) candidate"
          unfolding filling_def
          using cur le here all' no by (auto simp: follows_def fits_def)
        then have "page_ok blocks page_h y0 cursor (fill_page blocks page_h y0 cursor (candidate + 1) candidate)"
          using here fit no by (intro "1.IH" [OF _ refl]) (simp_all add: follows_def fits_def)
        then show ?thesis using no unfolding e by (simp only: if_False)
      qed
    qed
  qed
qed

lemma fill_page_start:
  "follows blocks cursor \<Longrightarrow> page_ok blocks page_h y0 cursor (fill_page blocks page_h y0 cursor cursor cursor)"
  by (rule fill_page_ok) (auto simp: filling_def follows_def)

section \<open>All pages\<close>

lemma skip_breaks_props:
  assumes "cursor = skip_breaks blocks start"
  shows "start \<le> cursor" "\<And>i. start \<le> i \<Longrightarrow> i < cursor \<Longrightarrow> i < length blocks \<and> is_break (blocks ! i)"
    "cursor < length blocks \<Longrightarrow> follows blocks cursor"
proof -
  let ?t = "takeWhile is_break (drop start blocks)"
  show "start \<le> cursor" using assms by (simp add: skip_breaks_def)
  show "i < length blocks \<and> is_break (blocks ! i)" if "start \<le> i" "i < cursor" for i
  proof -
    have l: "i - start < length ?t" using that assms by (simp add: skip_breaks_def)
    have "is_break (?t ! (i - start))" using set_takeWhileD [OF nth_mem [OF l]] by simp
    moreover have "?t ! (i - start) = drop start blocks ! (i - start)" using l by (rule takeWhile_nth)
    moreover have "i - start < length (drop start blocks)"
      using l length_takeWhile_le [of is_break "drop start blocks"] by linarith
    ultimately show ?thesis using that by simp
  qed
  show "follows blocks cursor" if "cursor < length blocks"
  proof -
    have "length ?t < length (drop start blocks)" using that assms by (simp add: skip_breaks_def)
    then have "\<not> is_break (drop start blocks ! length ?t)" by (rule nth_length_takeWhile)
    then show ?thesis using that assms by (simp add: follows_def skip_breaks_def)
  qed
qed

lemma upt_split: "i \<le> j \<Longrightarrow> j \<le> k \<Longrightarrow> [i..<k] = [i..<j] @ [j..<k]"
  using upt_add_eq_append [of i j "k - j"] by simp

lemma filter_none: "(\<And>x. x \<in> set xs \<Longrightarrow> \<not> P x) \<Longrightarrow> filter P xs = []"
  by (simp add: filter_empty_conv)

lemma filter_all: "(\<And>x. x \<in> set xs \<Longrightarrow> P x) \<Longrightarrow> filter P xs = xs"
  by simp

definition slice_indices :: "page_slice \<Rightarrow> nat list" where
  "slice_indices s = [pg_first s ..< pg_last s + 1]"

lemma pages_from_cover:
  "concat (map slice_indices (pages_from blocks page_h start)) = filter (follows blocks) [start..<length blocks]"
proof (induction blocks page_h start rule: pages_from.induct)
  case (1 blocks page_h start)
  let ?c = "skip_breaks blocks start"
  note sk = skip_breaks_props [OF refl, where blocks = blocks and start = start]
  show ?case
  proof (cases "length blocks \<le> ?c")
    case True
    have "filter (follows blocks) [start..<length blocks] = []"
      using True sk(2) by (intro filter_none) (auto simp: follows_def)
    with True show ?thesis by (subst pages_from.simps) simp
  next
    case False
    let ?y0 = "bl_y (blocks ! ?c)"
    let ?l = "fill_page blocks page_h ?y0 ?c ?c ?c"
    have ok: "page_ok blocks page_h ?y0 ?c ?l" using sk(3) False by (intro fill_page_start) simp
    then have l: "?c \<le> ?l" "\<And>i. ?c \<le> i \<Longrightarrow> i \<le> ?l \<Longrightarrow> follows blocks i" by (auto simp: page_ok_def)
    then have n: "?l < length blocks" by (auto simp: follows_def)
    have "[start..<length blocks] = [start..<?c] @ [?c..<?l + 1] @ [?l + 1..<length blocks]"
      using upt_split [OF sk(1), of "length blocks"] upt_split [of ?c "?l + 1" "length blocks"] l(1) n by simp
    moreover have "filter (follows blocks) [start..<?c] = []"
      using sk(2) by (intro filter_none) (auto simp: follows_def)
    moreover have "filter (follows blocks) [?c..<?l + 1] = [?c..<?l + 1]"
      by (intro filter_all l(2)) (simp_all only: set_upt atLeastLessThan_iff less_Suc_eq_le add_Suc_right Suc_eq_plus1 [symmetric])
    ultimately have "filter (follows blocks) [start..<length blocks] =
        [?c..<?l + 1] @ filter (follows blocks) [?l + 1..<length blocks]"
      by (simp only: filter_append append_Nil)
    moreover have "concat (map slice_indices (pages_from blocks page_h (?l + 1))) =
        filter (follows blocks) [?l + 1..<length blocks]"
      using "1.IH" [OF refl False refl refl] .
    ultimately show ?thesis
      using False by (subst pages_from.simps) (simp add: Let_def slice_indices_def)
  qed
qed

lemma pages_from_ok:
  "s \<in> set (pages_from blocks page_h start) \<Longrightarrow>
    pg_start_y s = bl_y (blocks ! pg_first s) \<and> page_ok blocks page_h (pg_start_y s) (pg_first s) (pg_last s)"
proof (induction blocks page_h start rule: pages_from.induct)
  case (1 blocks page_h start)
  let ?c = "skip_breaks blocks start"
  show ?case
  proof (cases "length blocks \<le> ?c")
    case True
    then show ?thesis using "1.prems" by (subst (asm) pages_from.simps) simp
  next
    case False
    let ?y0 = "bl_y (blocks ! ?c)"
    let ?l = "fill_page blocks page_h ?y0 ?c ?c ?c"
    consider "s = \<lparr>pg_first = ?c, pg_last = ?l, pg_start_y = ?y0\<rparr>" | "s \<in> set (pages_from blocks page_h (?l + 1))"
      using "1.prems" False by (subst (asm) pages_from.simps) (auto simp: Let_def)
    then show ?thesis
    proof cases
      case 1
      then show ?thesis
        using skip_breaks_props(3) [OF refl, where blocks = blocks and start = start] False fill_page_start by simp
    next
      case 2
      then show ?thesis by (rule "1.IH" [OF refl False refl refl])
    qed
  qed
qed

lemma paginate_pages:
  assumes "\<exists>b \<in> set blocks. \<not> is_break b"
  shows "paginate_blocks blocks page_h = pages_from blocks page_h 0"
proof -
  obtain i where "i < length blocks" "\<not> is_break (blocks ! i)" using assms by (auto simp: in_set_conv_nth)
  then have "filter (follows blocks) [0..<length blocks] \<noteq> []" by (auto simp: follows_def filter_empty_conv)
  then have "pages_from blocks page_h 0 \<noteq> []" using pages_from_cover [of blocks page_h 0] by fastforce
  then show ?thesis by (simp add: paginate_blocks_def)
qed

end
