(* ===== verification/Layout_Flow.thy ===== *)
theory Layout_Flow
  imports Markdown_Layout
begin

text \<open>
  The flow of blocks: every step of the layout puts blocks at the end of the flow, and blocks with
  heights and margins that are not negative do not overlap.
\<close>

section \<open>Blocks that do not shrink the flow\<close>

abbreviation nonneg :: "dbl \<Rightarrow> bool" where
  "nonneg d \<equiv> dbl_le (Fin 0) d"

definition good_block :: "block \<Rightarrow> bool" where
  "good_block b \<longleftrightarrow> nonneg (bl_margin_before b) \<and> nonneg (bl_height b) \<and> nonneg (bl_margin_after b)"

definition bottom_of :: "block \<Rightarrow> dbl" where
  "bottom_of b = dbl_add (bl_y b) (bl_height b)"

definition flow_ok :: "layout_state \<Rightarrow> bool" where
  "flow_ok st \<longleftrightarrow> is_double (ls_y st) \<and> nonneg (ls_y st) \<and>
     (\<forall>b \<in> set (ls_blocks st). dbl_le (bottom_of b) (ls_y st)) \<and>
     sorted_wrt (\<lambda>a b. dbl_le (bottom_of a) (bl_y b)) (ls_blocks st)"

lemma flow_start: "flow_ok layout_start"
  by (simp add: flow_ok_def layout_start_def)

lemma flow_place:
  assumes "flow_ok st" "good_block b"
  shows "flow_ok (place b st)"
proof -
  let ?y1 = "dbl_add (ls_y st) (bl_margin_before b)"
  let ?y2 = "dbl_add ?y1 (bl_height b)"
  let ?y3 = "dbl_add ?y2 (bl_margin_after b)"
  have st: "is_double (ls_y st)" "nonneg (ls_y st)" and b: "nonneg (bl_margin_before b)" "nonneg (bl_height b)"
    "nonneg (bl_margin_after b)" using assms by (auto simp: flow_ok_def good_block_def)
  have 1: "dbl_le (ls_y st) ?y1" "nonneg ?y1" using st b by (simp_all add: dbl_add_ge dbl_add_nonneg)
  have 2: "dbl_le ?y1 ?y2" "nonneg ?y2" using 1 b by (simp_all add: dbl_add_ge dbl_add_nonneg)
  have 3: "dbl_le ?y2 ?y3" "nonneg ?y3" using 2 b by (simp_all add: dbl_add_ge dbl_add_nonneg)
  have old: "dbl_le (bottom_of a) ?y1" "dbl_le (bottom_of a) ?y3" if "a \<in> set (ls_blocks st)" for a
  proof -
    have "dbl_le (bottom_of a) (ls_y st)" using that assms(1) by (simp add: flow_ok_def)
    then show "dbl_le (bottom_of a) ?y1" using 1(1) dbl_le_trans by blast
    then show "dbl_le (bottom_of a) ?y3" using 2(1) 3(1) dbl_le_trans by blast
  qed
  show ?thesis
    using assms(1) old 3 by (simp add: flow_ok_def place_def Let_def sorted_wrt_append bottom_of_def)
qed

text \<open>A step that places blocks with a property, one after the other, and counts no heading\<close>

inductive placed :: "(block \<Rightarrow> bool) \<Rightarrow> layout_state \<Rightarrow> layout_state \<Rightarrow> bool" for P where
  same: "ls_blocks st' = ls_blocks st \<Longrightarrow> ls_y st' = ls_y st \<Longrightarrow> ls_heading_seq st' = ls_heading_seq st \<Longrightarrow>
    placed P st st'"
| put: "P b \<Longrightarrow> placed P st (place b st)"
| both: "placed P st st1 \<Longrightarrow> placed P st1 st2 \<Longrightarrow> placed P st st2"

lemma placed_refl [simp]: "placed P st st"
  by (rule placed.same) simp_all

lemma placed_flow:
  assumes "placed P st st'" "\<And>b. P b \<Longrightarrow> good_block b" "flow_ok st"
  shows "flow_ok st'"
  using assms(1,3)
proof (induction rule: placed.induct)
  case (same st' st)
  then show ?case by (simp add: flow_ok_def)
qed (simp_all add: flow_place assms(2))

lemma placed_map_option:
  assumes "map_option f x = Some st'" "\<And>r. x = Some r \<Longrightarrow> placed P st (f r)"
  shows "placed P st st'"
  using assms by auto

section \<open>Heights\<close>

lemma sign_nonneg: "nonneg d \<Longrightarrow> 0 \<le> dbl_sign d"
  by (cases d) auto

lemma round64_nonneg: "0 \<le> x \<Longrightarrow> nonneg (round64 x)"
  by simp

lemma dbl_mul_nonneg:
  assumes "nonneg a" "nonneg b" "dbl_finite a" "dbl_finite b"
  shows "nonneg (dbl_mul a b)"
  using assms by (cases a; cases b) (simp_all add: mul_by_def)

lemma dbl_max_nonneg: "nonneg b \<Longrightarrow> nonneg a \<Longrightarrow> nonneg (dbl_max a b)"
  by (simp add: dbl_max_def)

lemma dbl_max_zero: "nonneg (dbl_max (Fin 0) a)"
  by (cases a) (auto simp: dbl_max_def)

lemma dbl_sum_nonneg:
  assumes "\<And>x. x \<in> set xs \<Longrightarrow> nonneg x"
  shows "nonneg (dbl_sum xs)"
proof -
  have "nonneg (foldl dbl_add a xs)" if "nonneg a" for a
    using assms that by (induction xs arbitrary: a) (auto simp: dbl_add_nonneg)
  then show ?thesis by (simp add: dbl_sum_def)
qed

lemma foldl_max_nonneg: "nonneg a \<Longrightarrow> (\<And>x. x \<in> set xs \<Longrightarrow> nonneg (f x)) \<Longrightarrow> nonneg (foldl (\<lambda>h x. dbl_max h (f x)) a xs)"
  by (induction xs arbitrary: a) (auto simp: dbl_max_nonneg)

text \<open>A style sheet and a measure that the flow can rely on\<close>

definition good_box :: "box_style \<Rightarrow> bool" where
  "good_box x \<longleftrightarrow> nonneg (bx_margin_top x) \<and> nonneg (bx_margin_bottom x) \<and> nonneg (bx_padding x) \<and> dbl_finite (bx_padding x)"

definition good_env :: "layout_env \<Rightarrow> bool" where
  "good_env env \<longleftrightarrow> (\<forall>x. good_box (st_box (le_sheet env) x)) \<and> nonneg (le_width env) \<and>
     (\<forall>runs w. nonneg (pm_height (measured env runs w)))"

lemma good_env_box:
  assumes "good_env env"
  shows "nonneg (bx_margin_top (box_for (le_sheet env) x))" "nonneg (bx_margin_bottom (box_for (le_sheet env) x))"
    "nonneg (bx_padding (box_for (le_sheet env) x))" "dbl_finite (bx_padding (box_for (le_sheet env) x))"
  using assms by (simp_all add: good_env_def good_box_def box_for_def)

lemma good_env_measure: "good_env env \<Longrightarrow> nonneg (pm_height (measured env runs w))"
  by (simp add: good_env_def)

text \<open>What every append but that of a heading puts\<close>

definition calm :: "layout_env \<Rightarrow> block \<Rightarrow> bool" where
  "calm env b \<longleftrightarrow> (good_env env \<longrightarrow> good_block b) \<and> bl_kind b \<noteq> KHeading"

lemmas flow_simps = calm_def good_block_def new_block_def good_env_box good_env_measure

section \<open>Every append puts good blocks\<close>

lemma paragraph_placed:
  assumes "append_paragraph env cs st = Some st'"
  shows "placed (calm env) st st'"
  using assms unfolding append_paragraph_def
  by (rule placed_map_option)
    (auto simp: Let_def flow_simps split: option.split intro!: placed.put)

lemma hr_placed: "placed (calm env) st (emit_hr_block env st)"
  unfolding emit_hr_block_def Let_def
  by (rule placed.put) (simp add: flow_simps)

lemma quote_placed:
  assumes "append_quote env cs st = Some st'"
  shows "placed (calm env) st st'"
  using assms unfolding append_quote_def
  by (rule placed_map_option)
    (auto simp: Let_def flow_simps dbl_mul_nonneg intro!: placed.put dbl_add_nonneg)

lemma code_placed: "placed (calm env) st (append_code env d st)"
  unfolding append_code_def Let_def
  by (rule placed.put) (simp add: flow_simps dbl_add_nonneg dbl_max_zero)

lemma item_placed:
  assumes "append_item env l li k st = Some st'"
  shows "placed (calm env) st st'"
  using assms unfolding append_item_def
  by (rule placed_map_option)
    (auto simp: Let_def flow_simps item_kind_def dbl_max_nonneg intro!: placed.put)

lemma items_placed: "append_items env l lis k st = Some st' \<Longrightarrow> placed (calm env) st st'"
proof (induction lis arbitrary: k st)
  case (Cons li lis)
  then show ?case by (auto split: if_splits bind_splits intro: placed.both item_placed)
qed simp

lemma cpad_nonneg: "nonneg (dbl_mul (Fin 2) cpad)"
  by (simp add: cpad_def mul_by_def)

lemma cell_height: "good_env env \<Longrightarrow> nonneg (ce_height (layout_cell env row c w))"
  by (simp add: layout_cell_def Let_def split_beta good_env_measure dbl_add_nonneg cpad_nonneg)

lemma row_height:
  assumes "good_env env"
  shows "nonneg (tr_height (layout_row env ws row))"
proof -
  let ?cells = "map (\<lambda>(c, w). layout_cell env row c w) (enumerate 0 ws)"
  have all: "nonneg (ce_height x)" if "x \<in> set ?cells" for x
    using that by (auto simp: cell_height [OF assms])
  have h: "tr_height (layout_row env ws row) =
      (case ?cells of [] \<Rightarrow> Fin 0 | x # _ \<Rightarrow> foldl (\<lambda>h c. dbl_max h (ce_height c)) (ce_height x) ?cells)"
    by (simp add: layout_row_def Let_def)
  show ?thesis
  proof (cases ?cells)
    case Nil
    then show ?thesis unfolding h by simp
  next
    case (Cons x xs)
    have "nonneg (foldl (\<lambda>h c. dbl_max h (ce_height c)) (ce_height x) ?cells)"
      using all Cons by (intro foldl_max_nonneg) simp_all
    then show ?thesis unfolding h by (simp only: Cons list.case)
  qed
qed

lemma table_placed:
  assumes "append_table env rows st = Some st'"
  shows "placed (calm env) st st'"
  using assms unfolding append_table_def
  by (rule placed_map_option)
    (auto simp: Let_def flow_simps row_height intro!: placed.put dbl_sum_nonneg)

lemma toc_row_placed: "placed (calm env) (snd cst) (snd (append_toc_row env h cst))"
  unfolding append_toc_row_def Let_def split_beta snd_conv
  by (rule placed.put) (simp add: flow_simps)

lemma toc_rows_placed: "placed (calm env) (snd cst) (snd (fold (append_toc_row env) hs cst))"
proof (induction hs arbitrary: cst)
  case (Cons h hs)
  show ?case
    using placed.both [OF toc_row_placed [of env cst h] Cons.IH] by simp
qed simp

lemma toc_placed:
  "placed (calm env) st (append_toc env st)"
proof (cases "le_render_toc env")
  case True
  then show ?thesis using toc_rows_placed [of env "([], st)"] by (simp add: append_toc_def)
next
  case False
  then show ?thesis
    unfolding append_toc_def Let_def
    by (simp only: if_False) (rule placed.put, simp add: flow_simps)
qed

lemma div_nonneg: "nonneg w \<Longrightarrow> 0 < k \<Longrightarrow> nonneg (dbl_div w (Fin k))"
  by (cases w) (auto simp: div_by_def inf_of_sign_def)

lemma scale_nonneg: "nonneg x \<Longrightarrow> 0 < k \<Longrightarrow> nonneg (dbl_mul (Fin k) (if dbl_le (Fin 1) x then Fin 1 else x))"
  by (cases x) (auto intro!: dbl_mul_nonneg)

lemma image_kind: "image_block env src b0 = Some b \<Longrightarrow> bl_kind b = KImage"
  by (auto simp: image_block_def Let_def split: if_splits option.splits)

lemma image_good:
  assumes env: "good_env env"
    and "image_block env src (new_block\<lparr>bl_margin_before := Fin 6, bl_margin_after := Fin 6\<rparr>) = Some b"
  shows "good_block b"
proof -
  obtain path pw ph where p: "0 < pw" "0 < ph" and b: "b = (let sc = dbl_div (le_width env) (Fin (of_int pw));
        sc = (if dbl_le (Fin 1) sc then Fin 1 else sc)
      in new_block\<lparr>bl_margin_before := Fin 6, bl_margin_after := Fin 6,
        bl_image := Some (path, dbl_mul (Fin (of_int pw)) sc, dbl_mul (Fin (of_int ph)) sc),
        bl_height := dbl_mul (Fin (of_int ph)) sc, bl_kind := KImage\<rparr>)"
    using assms(2) by (auto simp: image_block_def Let_def not_le split: if_splits option.splits)
  have "nonneg (le_width env)" using env by (simp add: good_env_def)
  then have "nonneg (dbl_div (le_width env) (Fin (of_int pw)))" using p(1) by (intro div_nonneg) simp_all
  then have "nonneg (bl_height b)" unfolding b Let_def using p(2) by (simp add: scale_nonneg)
  then show ?thesis by (simp add: b Let_def good_block_def new_block_def)
qed

lemma page_break_placed: "placed (calm env) st (append_page_break env st)"
  unfolding append_page_break_def by (rule placed.put) (simp add: flow_simps)

lemma chunk_placed:
  assumes "append_chunk env src st = Some st'"
  shows "placed (calm env) st st'"
  using assms unfolding append_chunk_def
  by (rule placed_map_option)
    (auto simp: Let_def flow_simps split: option.split intro!: placed.put)

lemma html_placed:
  assumes "append_html env src st = Some st'"
  shows "placed (calm env) st st'"
proof (cases "is_page_break_marker src")
  case True
  then have "st' = append_page_break env st" using assms by (simp add: append_html_def)
  then show ?thesis by (simp only: page_break_placed)
next
  case False
  then show ?thesis
    using assms chunk_placed hr_placed
    by (auto simp: append_html_def Let_def split: option.splits if_splits intro: placed.same)
qed

text \<open>What a heading puts, if its children give any runs\<close>

definition heading_block :: "layout_env \<Rightarrow> node \<Rightarrow> int \<Rightarrow> nat \<Rightarrow> block \<Rightarrow> bool" where
  "heading_block env h level k b \<longleftrightarrow> (good_env env \<longrightarrow> good_block b) \<and> bl_kind b = KHeading \<and> bl_level b = level \<and>
     bl_link_href b = CHR ''#'' # heading_anchor env h k"

lemma heading_runs_empty: "rb_out (rb_set_weight w (fold rb_apply cs (new_builder f sz c []))\<lparr>rb_anchor := a\<rparr>) = []"
proof -
  have "rb_out (fold rb_apply cs rb) = rb_out rb" for rb
    by (induction cs arbitrary: rb) (simp_all add: rb_apply_def)
  then show ?thesis by (simp add: rb_set_weight_def new_builder_def)
qed

lemma heading_placed:
  assumes "append_heading env h level st = Some st'"
  obtains rb rb' where "rb_out rb = []" "rb_emits (run_env_of env) (kids h) rb = Some rb'"
    "if rb_out rb' = [] then st' = st\<lparr>ls_heading_seq := ls_heading_seq st + 1\<rparr>
     else \<exists>b. heading_block env h level (ls_heading_seq st) b \<and> st' = place b (st\<lparr>ls_heading_seq := ls_heading_seq st + 1\<rparr>)"
proof -
  obtain rb' where e: "rb_emits (run_env_of env) (kids h)
      (rb_set_weight (if 0 <s ts_weight (st_text (le_sheet env) (heading_selector level))
         then ts_weight (st_text (le_sheet env) (heading_selector level)) else 400)
       (fold rb_apply (ls_block_ctx st) (new_builder (font_for (le_sheet env) (heading_selector level))
         (font_size_for (le_sheet env) (heading_selector level)) (color_for (le_sheet env) (heading_selector level)) []))
        \<lparr>rb_anchor := heading_anchor env h (ls_heading_seq st)\<rparr>) = Some rb'"
    and st': "(if rb_out rb' = [] then st\<lparr>ls_heading_seq := ls_heading_seq st + 1\<rparr>
      else place (new_block\<lparr>bl_kind := KHeading, bl_level := level,
         bl_margin_before := bx_margin_top (box_for (le_sheet env) (heading_selector level)),
         bl_margin_after := bx_margin_bottom (box_for (le_sheet env) (heading_selector level)),
         bl_run := rb_out rb', bl_content_width := le_width env,
         bl_height := pm_height (measured env (rb_out rb') (le_width env)),
         bl_baseline := pm_baseline (measured env (rb_out rb') (le_width env)), bl_has_link_hit := True, bl_link_x := Fin 0,
         bl_link_w := pm_width (measured env (rb_out rb') (le_width env)),
         bl_link_h := pm_height (measured env (rb_out rb') (le_width env)),
         bl_link_href := CHR ''#'' # heading_anchor env h (ls_heading_seq st)\<rparr>)
        (st\<lparr>ls_heading_seq := ls_heading_seq st + 1\<rparr>)) = st'" (is "(if _ then ?s else place ?b ?s) = st'")
    using assms unfolding append_heading_def Let_def emit_children_def option.map_comp comp_def map_option_eq_Some by blast
  have b: "heading_block env h level (ls_heading_seq st) ?b" by (simp add: heading_block_def flow_simps)
  show thesis
  proof (rule that [OF heading_runs_empty e])
    show "if rb_out rb' = [] then st' = ?s
      else \<exists>b. heading_block env h level (ls_heading_seq st) b \<and> st' = place b ?s"
    proof (cases "rb_out rb' = []")
      case True
      with st' show ?thesis by (simp only: simp_thms if_True)
    next
      case False
      with st' have "st' = place ?b ?s" by (simp only: simp_thms if_False)
      with False b show ?thesis by (simp only: simp_thms if_False) (rule exI, rule conjI, assumption, rule refl)
    qed
  qed
qed

lemma layout_node_own:
  assumes "layout_node env (Node d cs) st = Some st'"
  shows "n_type d = NHeading \<and> append_heading env (Node d cs) (max 1 (n_level d)) st = Some st' \<or>
    n_type d \<noteq> NHeading \<and> layout_nodes env cs st = Some st' \<or> n_type d \<noteq> NHeading \<and> placed (calm env) st st'"
proof -
  have image: "placed (calm env) st (place b st)"
    if "image_block env src (new_block\<lparr>bl_margin_before := Fin 6, bl_margin_after := Fin 6\<rparr>) = Some b" for src b
    using image_good [OF _ that] image_kind [OF that] by (intro placed.put) (simp add: calm_def)
  show ?thesis
    using assms
    by (cases "n_type d")
      (auto simp: hr_placed code_placed toc_placed split: if_splits option.splits
        intro: paragraph_placed quote_placed items_placed table_placed html_placed image)
qed

section \<open>The flow of a document\<close>

lemma heading_flow:
  assumes "append_heading env h level st = Some st'" "good_env env" "flow_ok st"
  shows "flow_ok st'"
proof -
  have "flow_ok (st\<lparr>ls_heading_seq := k\<rparr>)" for k using assms(3) by (simp add: flow_ok_def)
  then show ?thesis
    using heading_placed [OF assms(1)] assms(2) by (metis flow_place heading_block_def)
qed

lemma layout_nodes_flow_step:
  assumes "\<And>n st st'. n \<in> set ns \<Longrightarrow> layout_node env n st = Some st' \<Longrightarrow> flow_ok st \<Longrightarrow> flow_ok st'"
    and "layout_nodes env ns st = Some st'" "flow_ok st"
  shows "flow_ok st'"
  using assms
proof (induction ns arbitrary: st)
  case (Cons n ns)
  then obtain st1 where "layout_node env n st = Some st1" "layout_nodes env ns st1 = Some st'" by (auto split: bind_splits)
  with Cons show ?case by (meson list.set_intros)
qed simp

lemma layout_node_flow:
  assumes "good_env env"
  shows "layout_node env n st = Some st' \<Longrightarrow> flow_ok st \<Longrightarrow> flow_ok st'"
proof (induction n arbitrary: st st')
  case (Node d cs)
  from layout_node_own [OF Node.prems(1)] show ?case
  proof (elim disjE conjE)
    assume "append_heading env (Node d cs) (max 1 (n_level d)) st = Some st'"
    then show ?thesis using assms Node.prems(2) by (rule heading_flow)
  next
    assume "layout_nodes env cs st = Some st'"
    with Node.IH show ?thesis using Node.prems(2) by (rule layout_nodes_flow_step)
  next
    assume "placed (calm env) st st'"
    then show ?thesis by (rule placed_flow) (use assms Node.prems(2) in \<open>simp_all add: calm_def\<close>)
  qed
qed

lemma layout_document_flow:
  assumes "good_env env" "layout_document env doc = Some st"
  shows "flow_ok st"
proof -
  have env: "good_env (env\<lparr>le_headings := headings doc\<rparr>)"
    using assms(1) by (simp add: good_env_def good_box_def measured_def)
  show ?thesis
    by (rule layout_nodes_flow_step [OF layout_node_flow [OF env] assms(2) [unfolded layout_document_def] flow_start])
qed

section \<open>The headings of a document whose headings are blocks of their own\<close>

definition heading_refs :: "layout_state \<Rightarrow> (int \<times> string) list" where
  "heading_refs st = map (\<lambda>b. (bl_level b, bl_link_href b)) (filter (\<lambda>b. bl_kind b = KHeading) (ls_blocks st))"

lemma placed_refs: "placed (calm env) st st' \<Longrightarrow> heading_refs st' = heading_refs st \<and> ls_heading_seq st' = ls_heading_seq st"
  by (induction rule: placed.induct) (simp_all add: heading_refs_def calm_def place_def Let_def)

lemma layout_node_quiet:
  "layout_node env n st = Some st' \<Longrightarrow> collect_headings n = [] \<Longrightarrow>
    heading_refs st' = heading_refs st \<and> ls_heading_seq st' = ls_heading_seq st"
proof (induction n arbitrary: st st')
  case (Node d cs)
  have nodes: "heading_refs st' = heading_refs st \<and> ls_heading_seq st' = ls_heading_seq st"
    if "layout_nodes env ns st = Some st'" "set ns \<subseteq> set cs" "\<forall>n \<in> set ns. collect_headings n = []" for ns st
    using that
  proof (induction ns arbitrary: st)
    case (Cons n ns)
    obtain st1 where s: "layout_node env n st = Some st1" "layout_nodes env ns st1 = Some st'"
      using Cons.prems(1) by (auto split: bind_splits)
    have "heading_refs st1 = heading_refs st \<and> ls_heading_seq st1 = ls_heading_seq st"
      using Node.IH [OF _ s(1)] Cons.prems(2,3) by simp
    with Cons.IH [OF s(2)] Cons.prems(2,3) show ?case by simp
  qed simp
  from layout_node_own [OF Node.prems(1)] show ?case
    using Node.prems(2) nodes [of cs] placed_refs by auto
qed

definition flat_headings :: "node \<Rightarrow> bool" where
  "flat_headings doc \<longleftrightarrow> n_type (nd doc) \<noteq> NHeading \<and>
     list_all (\<lambda>n. n_type (nd n) = NHeading \<or> collect_headings n = []) (kids doc)"

text \<open>The headings among blocks, as the layout numbers them from \<open>k\<close> on\<close>

fun own_headings :: "layout_env \<Rightarrow> nat \<Rightarrow> node list \<Rightarrow> (int \<times> string) list" where
  "own_headings env k [] = []"
| "own_headings env k (n # ns) =
     (if n_type (nd n) = NHeading
      then (max 1 (n_level (nd n)), CHR ''#'' # heading_anchor env n k) # own_headings env (k + 1) ns
      else own_headings env k ns)"

definition titled :: "node \<Rightarrow> bool" where
  "titled n \<longleftrightarrow> n_type (nd n) = NHeading \<longrightarrow> list_all html_leaves (kids n) \<and> concat (map inline_text (kids n)) \<noteq> ''''"

lemma layout_nodes_refs:
  assumes "layout_nodes env ns st = Some st'" "list_all (\<lambda>n. n_type (nd n) = NHeading \<or> collect_headings n = []) ns"
    "list_all titled ns"
  shows "heading_refs st' = heading_refs st @ own_headings env (ls_heading_seq st) ns"
  using assms
proof (induction ns arbitrary: st)
  case (Cons n ns)
  obtain st1 where s: "layout_node env n st = Some st1" "layout_nodes env ns st1 = Some st'"
    using Cons.prems(1) by (auto split: bind_splits)
  have IH: "heading_refs st' = heading_refs st1 @ own_headings env (ls_heading_seq st1) ns"
    using Cons.IH [OF s(2)] Cons.prems(2,3) by simp
  show ?case
  proof (cases "n_type (nd n) = NHeading")
    case False
    with Cons.prems(2) layout_node_quiet [OF s(1)] IH show ?thesis by simp
  next
    case True
    obtain d cs where n: "n = Node d cs" by (cases n)
    have "append_heading env n (max 1 (n_level d)) st = Some st1" using s(1) True by (simp add: n)
    then obtain rb rb' where rb: "rb_out rb = []" "rb_emits (run_env_of env) (kids n) rb = Some rb'"
      and st1: "if rb_out rb' = [] then st1 = st\<lparr>ls_heading_seq := ls_heading_seq st + 1\<rparr>
        else \<exists>b. heading_block env n (max 1 (n_level d)) (ls_heading_seq st) b \<and>
          st1 = place b (st\<lparr>ls_heading_seq := ls_heading_seq st + 1\<rparr>)"
      by (rule heading_placed)
    have t: "list_all html_leaves (kids n)" "concat (map inline_text (kids n)) \<noteq> ''''"
      using Cons.prems(3) True by (simp_all add: titled_def)
    have "runs_text (rb_out rb') = runs_text (rb_out rb) @ concat (map inline_text (kids n))"
      by (rule rb_emits_text_step [OF rb_emit_text rb(2) t(1)])
    then have "rb_out rb' \<noteq> []" using rb(1) t(2) by (auto simp: runs_text_def)
    then obtain b where "heading_block env n (max 1 (n_level d)) (ls_heading_seq st) b"
      "st1 = place b (st\<lparr>ls_heading_seq := ls_heading_seq st + 1\<rparr>)" using st1 by auto
    then have "heading_refs st1 = heading_refs st @ [(max 1 (n_level d), CHR ''#'' # heading_anchor env n (ls_heading_seq st))]"
      "ls_heading_seq st1 = ls_heading_seq st + 1"
      by (simp_all add: heading_refs_def place_def Let_def heading_block_def)
    with IH True show ?thesis by (simp add: n)
  qed
qed (simp add: heading_refs_def)

lemma own_headings_refs:
  assumes "le_headings env = pre @ hs" "map h_level hs = map h_level (concat (map collect_headings ns))"
    and "list_all (\<lambda>n. n_type (nd n) = NHeading \<or> collect_headings n = []) ns"
  shows "own_headings env (length pre) ns = map (\<lambda>h. (max 1 (h_level h), CHR ''#'' # h_anchor h)) hs"
  using assms
proof (induction ns arbitrary: pre hs)
  case (Cons n ns)
  obtain d cs where n: "n = Node d cs" by (cases n)
  show ?case
  proof (cases "n_type d = NHeading")
    case False
    with Cons.prems have "collect_headings n = []" by (simp add: n)
    with Cons False show ?thesis by (simp add: n)
  next
    case True
    then obtain h hs' where hs: "hs = h # hs'" "h_level h = n_level d"
      using Cons.prems(2) by (cases hs) (auto simp: n)
    have "own_headings env (length (pre @ [h])) ns = map (\<lambda>h. (max 1 (h_level h), CHR ''#'' # h_anchor h)) hs'"
      by (rule Cons.IH) (use Cons.prems hs True in \<open>simp_all add: n\<close>)
    then show ?thesis using True hs Cons.prems(1) by (simp add: n heading_anchor_def)
  qed
qed simp

lemma assign_levels: "map h_level (assign_anchors c hs) = map h_level hs"
  by (induction hs arbitrary: c) (simp_all add: Let_def split_beta)

lemma layout_document_refs:
  assumes "layout_document env doc = Some st" "flat_headings doc" "list_all titled (kids doc)"
  shows "heading_refs st = map (\<lambda>h. (max 1 (h_level h), CHR ''#'' # h_anchor h)) (headings doc)"
proof -
  let ?env = "env\<lparr>le_headings := headings doc\<rparr>"
  obtain d cs where doc: "doc = Node d cs" by (cases doc)
  have flat: "list_all (\<lambda>n. n_type (nd n) = NHeading \<or> collect_headings n = []) cs" "n_type d \<noteq> NHeading"
    using assms(2) by (simp_all add: flat_headings_def doc)
  have "heading_refs st = heading_refs layout_start @ own_headings ?env (ls_heading_seq layout_start) cs"
    using assms(1,3) flat by (intro layout_nodes_refs) (simp_all add: layout_document_def doc)
  also have "\<dots> = own_headings ?env (length ([] :: heading list)) cs" by (simp add: heading_refs_def layout_start_def)
  also have "\<dots> = map (\<lambda>h. (max 1 (h_level h), CHR ''#'' # h_anchor h)) (headings doc)"
    using flat by (intro own_headings_refs) (simp_all add: headings_def assign_levels doc)
  finally show ?thesis .
qed

end
