(* ===== verification/Toc_Pages.thy ===== *)
theory Toc_Pages
  imports Pdf_Pages Layout_Flow
begin

text \<open>
  The two layouts of the PDF export: the second one, which knows the page numbers, has the blocks
  of the first at the same places, so that the numbers in it are those of the pages it gets.
\<close>

section \<open>Blocks of the first and of the second layout\<close>

abbreviation with_pages :: "(string \<Rightarrow> int option) \<Rightarrow> layout_env \<Rightarrow> layout_env" where
  "with_pages f env \<equiv> env\<lparr>le_toc_pages := Some f\<rparr>"

definition same_block :: "(string \<Rightarrow> int option) \<Rightarrow> block \<Rightarrow> block \<Rightarrow> bool" where
  "same_block f b b' \<longleftrightarrow>
     (if bl_kind b = KTocRow
      then bl_kind b' = KTocRow \<and> bl_y b' = bl_y b \<and> bl_height b' = bl_height b \<and> bl_toc_page b = None \<and>
        bl_toc_page b' = f (bl_toc_anchor b')
      else b' = b)"

definition sim :: "(string \<Rightarrow> int option) \<Rightarrow> layout_state \<Rightarrow> layout_state \<Rightarrow> bool" where
  "sim f st st' \<longleftrightarrow> list_all2 (same_block f) (ls_blocks st) (ls_blocks st') \<and> ls_y st' = ls_y st \<and>
     ls_heading_seq st' = ls_heading_seq st \<and> ls_block_ctx st' = ls_block_ctx st"

lemma sim_ctx: "sim f st st' \<Longrightarrow> ls_block_ctx st' = ls_block_ctx st \<and> ls_heading_seq st' = ls_heading_seq st"
  by (simp add: sim_def)

lemma sim_start: "sim f layout_start layout_start"
  by (simp add: sim_def layout_start_def)

lemma sim_place:
  assumes "sim f st st'" "bl_kind b \<noteq> KTocRow"
  shows "sim f (place b st) (place b st')"
  using assms by (simp add: sim_def place_def Let_def same_block_def list_all2_appendI)

lemma sim_toc_row:
  assumes "sim f st st'" "bl_kind b = KTocRow" "bl_kind b' = KTocRow" "bl_height b' = bl_height b"
    "bl_margin_before b' = bl_margin_before b" "bl_margin_after b' = bl_margin_after b"
    "bl_toc_page b = None" "bl_toc_page b' = f (bl_toc_anchor b')"
  shows "sim f (place b st) (place b' st')"
  using assms by (simp add: sim_def place_def Let_def same_block_def list_all2_appendI)

lemma rel_map_option:
  assumes "\<And>r. x = Some r \<Longrightarrow> R (g r) (h r)"
  shows "rel_option R (map_option g x) (map_option h x)"
  using assms by (cases x) auto

lemma rel_bind:
  assumes "rel_option R x y" "\<And>a b. R a b \<Longrightarrow> rel_option R (g a) (h b)"
  shows "rel_option R (Option.bind x g) (Option.bind y h)"
  using assms by (cases x; cases y) auto

section \<open>Only the table of contents looks at the page numbers\<close>

named_theorems pages_simps \<open>what does not change when page numbers are given\<close>

lemma with_pages_fields [pages_simps]:
  "le_sheet (with_pages f env) = le_sheet env" "le_width (with_pages f env) = le_width env"
  by simp_all

lemma with_pages_simps [pages_simps]:
  "run_env_of (with_pages f env) = run_env_of env"
  "ctx_builder (with_pages f env) = ctx_builder env"
  "measured (with_pages f env) = measured env"
  "plain_text (with_pages f env) = plain_text env"
  "html_env_of (with_pages f env) = html_env_of env"
  "heading_anchor (with_pages f env) = heading_anchor env"
  "image_block (with_pages f env) = image_block env"
  by (simp_all add: run_env_of_def ctx_builder_def measured_def plain_text_def html_env_of_def heading_anchor_def
      image_block_def Let_def fun_eq_iff split: option.split)

lemma with_pages_runs [pages_simps]:
  "emit_children (with_pages f env) = emit_children env"
  "base_text (with_pages f env) = base_text env"
  "marker_width (with_pages f env) = marker_width env"
  "widest_word_width (with_pages f env) = widest_word_width env"
  by (simp_all add: emit_children_def base_text_def marker_width_def widest_word_width_def pages_simps fun_eq_iff)

lemma with_pages_walk [pages_simps]:
  "quote_walk (with_pages f env) ctx n acc = quote_walk env ctx n acc"
  "quote_walks (with_pages f env) ctx ns acc = quote_walks env ctx ns acc"
proof (induction env ctx n acc and env ctx ns acc rule: quote_walk_quote_walks.induct)
  case (3 env ctx c cs acc)
  then show ?case by (cases "quote_walk env ctx c acc") auto
qed (auto simp: pages_simps)

lemma with_pages_sub [pages_simps]: "sub_paragraphs (with_pages f env) ctx ns runs = sub_paragraphs env ctx ns runs"
  by (induction env ctx ns runs rule: sub_paragraphs.induct) (auto simp: pages_simps intro: Option.bind_cong)

lemma with_pages_items [pages_simps]: "item_runs (with_pages f env) ctx ns acc = item_runs env ctx ns acc"
  by (induction env ctx ns acc rule: item_runs.induct) (auto simp: pages_simps intro!: Option.bind_cong)

lemma with_pages_cells [pages_simps]:
  "table_cells (with_pages f env) = table_cells env"
  "column_widths (with_pages f env) = column_widths env"
  "layout_row (with_pages f env) = layout_row env"
proof -
  have "build_cell_run (with_pages f env) = build_cell_run env" "layout_cell (with_pages f env) = layout_cell env"
    by (simp_all add: build_cell_run_def layout_cell_def pages_simps fun_eq_iff)
  then show "table_cells (with_pages f env) = table_cells env"
    "column_widths (with_pages f env) = column_widths env" "layout_row (with_pages f env) = layout_row env"
    by (simp_all add: table_cells_def row_cells_def [abs_def] column_widths_def layout_row_def pages_simps fun_eq_iff)
qed

lemmas sim_simps = pages_simps Let_def split_beta new_block_def

lemma paragraph_sim: "sim f st st' \<Longrightarrow> rel_option (sim f) (append_paragraph env cs st) (append_paragraph (with_pages f env) cs st')"
  unfolding append_paragraph_def sim_ctx [THEN conjunct1] pages_simps
  by (rule rel_map_option) (auto simp: sim_simps intro!: sim_place split: option.split)

lemma hr_sim: "sim f st st' \<Longrightarrow> sim f (emit_hr_block env st) (emit_hr_block (with_pages f env) st')"
  by (auto simp: emit_hr_block_def sim_simps intro!: sim_place)

lemma quote_sim: "sim f st st' \<Longrightarrow> rel_option (sim f) (append_quote env cs st) (append_quote (with_pages f env) cs st')"
  unfolding append_quote_def sim_ctx [THEN conjunct1] pages_simps
  by (rule rel_map_option) (auto simp: sim_simps intro!: sim_place)

lemma code_sim: "sim f st st' \<Longrightarrow> sim f (append_code env d st) (append_code (with_pages f env) d st')"
  unfolding append_code_def pages_simps by (simp add: Let_def new_block_def sim_place)

lemma item_sim: "sim f st st' \<Longrightarrow> rel_option (sim f) (append_item env l li k st) (append_item (with_pages f env) l li k st')"
  unfolding append_item_def sim_ctx [THEN conjunct1] pages_simps
  by (rule rel_map_option) (auto simp: sim_simps item_kind_def intro!: sim_place)

lemma items_sim: "sim f st st' \<Longrightarrow> rel_option (sim f) (append_items env l lis k st) (append_items (with_pages f env) l lis k st')"
  by (induction lis arbitrary: k st st') (auto intro!: rel_bind item_sim)

lemma table_sim: "sim f st st' \<Longrightarrow> rel_option (sim f) (append_table env rows st) (append_table (with_pages f env) rows st')"
  unfolding append_table_def pages_simps
  by (rule rel_map_option) (auto simp: sim_simps intro!: sim_place)

lemma page_break_sim: "sim f st st' \<Longrightarrow> sim f (append_page_break env st) (append_page_break (with_pages f env) st')"
  by (simp add: append_page_break_def new_block_def sim_place)

lemma chunk_sim: "sim f st st' \<Longrightarrow> rel_option (sim f) (append_chunk env src st) (append_chunk (with_pages f env) src st')"
  unfolding append_chunk_def pages_simps
  by (rule rel_map_option) (auto simp: sim_simps intro!: sim_place split: option.split)

lemma heading_sim:
  assumes "sim f st st'"
  shows "rel_option (sim f) (append_heading env h l st) (append_heading (with_pages f env) h l st')"
proof -
  have seq: "sim f (st\<lparr>ls_heading_seq := k\<rparr>) (st'\<lparr>ls_heading_seq := k\<rparr>)" for k
    using assms by (simp add: sim_def)
  have ctx: "ls_block_ctx st' = ls_block_ctx st" "ls_heading_seq st' = ls_heading_seq st"
    using assms by (simp_all add: sim_ctx)
  show ?thesis
    unfolding append_heading_def Let_def pages_simps ctx
    by (rule rel_map_option)
      (auto simp: sim_simps intro!: sim_place seq)
qed

lemma toc_rows_sim:
  assumes "sim f (snd a) (snd a')" "fst a' = fst a" "le_toc_pages env = None"
  shows "sim f (snd (fold (append_toc_row env) hs a)) (snd (fold (append_toc_row (with_pages f env)) hs a'))"
  using assms
proof (induction hs arbitrary: a a')
  case (Cons h hs)
  have "sim f (snd (append_toc_row env h a)) (snd (append_toc_row (with_pages f env) h a'))"
    "fst (append_toc_row (with_pages f env) h a') = fst (append_toc_row env h a)"
    using Cons.prems
    by (auto simp: append_toc_row_def pages_simps Let_def split_beta new_block_def intro!: sim_toc_row)
  with Cons show ?case by simp
qed simp

lemma toc_sim: "sim f st st' \<Longrightarrow> le_toc_pages env = None \<Longrightarrow> sim f (append_toc env st) (append_toc (with_pages f env) st')"
  by (auto simp: append_toc_def Let_def pages_simps new_block_def intro!: toc_rows_sim sim_place)

lemma html_sim:
  assumes "sim f st st'"
  shows "rel_option (sim f) (append_html env src st) (append_html (with_pages f env) src st')"
proof -
  have ctx: "sim f (st\<lparr>ls_block_ctx := c\<rparr>) (st'\<lparr>ls_block_ctx := c\<rparr>)" for c
    using assms by (simp add: sim_def)
  show ?thesis
    using assms ctx
    by (auto simp: append_html_def Let_def sim_ctx [OF assms] page_break_sim hr_sim chunk_sim split: option.split)
qed

lemma layout_nodes_sim_step:
  assumes "\<And>n st st'. n \<in> set ns \<Longrightarrow> sim f st st' \<Longrightarrow> rel_option (sim f) (layout_node env n st) (layout_node (with_pages f env) n st')"
    and "sim f st st'"
  shows "rel_option (sim f) (layout_nodes env ns st) (layout_nodes (with_pages f env) ns st')"
  using assms by (induction ns arbitrary: st st') (auto intro!: rel_bind)

lemma layout_node_sim:
  assumes "le_toc_pages env = None"
  shows "sim f st st' \<Longrightarrow> rel_option (sim f) (layout_node env n st) (layout_node (with_pages f env) n st')"
proof (induction n arbitrary: st st')
  case (Node d cs)
  have IH: "rel_option (sim f) (layout_nodes env cs st) (layout_nodes (with_pages f env) cs st')"
    using Node.IH Node.prems by (rule layout_nodes_sim_step)
  have image: "sim f (case image_block env src b of Some b \<Rightarrow> place b st | None \<Rightarrow> st)
      (case image_block env src b of Some b \<Rightarrow> place b st' | None \<Rightarrow> st')" for src b
    using Node.prems by (auto split: option.split dest: image_kind intro!: sim_place)
  show ?case
    using Node.prems
    by (cases "n_type d")
      (simp_all add: IH image pages_simps hr_sim code_sim toc_sim assms paragraph_sim quote_sim items_sim table_sim
        html_sim heading_sim)
qed

lemma layout_document_sim:
  assumes "le_toc_pages env = None"
  shows "rel_option (sim f) (layout_document env doc) (layout_document (with_pages f env) doc)"
proof -
  have "rel_option (sim f) (layout_nodes (env\<lparr>le_headings := headings doc\<rparr>) (kids doc) layout_start)
      (layout_nodes (with_pages f (env\<lparr>le_headings := headings doc\<rparr>)) (kids doc) layout_start)"
    using assms by (intro layout_nodes_sim_step layout_node_sim sim_start) simp_all
  moreover have "with_pages f (env\<lparr>le_headings := headings doc\<rparr>) = with_pages f env\<lparr>le_headings := headings doc\<rparr>"
    by simp
  ultimately show ?thesis by (simp only: layout_document_def)
qed

section \<open>The pages of both layouts\<close>

definition same_geometry :: "block \<Rightarrow> block \<Rightarrow> bool" where
  "same_geometry b b' \<longleftrightarrow> bl_kind b' = bl_kind b \<and> bl_y b' = bl_y b \<and> bl_height b' = bl_height b \<and>
     (bl_kind b = KHeading \<longrightarrow> bl_link_href b' = bl_link_href b)"

lemma same_block_geometry: "same_block f b b' \<Longrightarrow> same_geometry b b'"
  by (auto simp: same_block_def same_geometry_def split: if_splits)

lemma geometry_nth:
  assumes "list_all2 same_geometry bs bs'"
  shows "length bs' = length bs"
    "i < length bs \<Longrightarrow> bl_kind (bs' ! i) = bl_kind (bs ! i) \<and> bl_y (bs' ! i) = bl_y (bs ! i) \<and>
       is_break (bs' ! i) = is_break (bs ! i) \<and> rel_bottom y0 (bs' ! i) = rel_bottom y0 (bs ! i)"
    "i < length bs \<Longrightarrow> bl_kind (bs ! i) = KHeading \<Longrightarrow> bl_link_href (bs' ! i) = bl_link_href (bs ! i)"
  using assms by (auto simp: list_all2_conv_all_nth same_geometry_def is_break_def rel_bottom_def)

lemma fill_page_same:
  "list_all2 same_geometry blocks blocks' \<Longrightarrow>
    fill_page blocks' page_h y0 cursor candidate lst = fill_page blocks page_h y0 cursor candidate lst"
proof (induction blocks page_h y0 cursor candidate lst rule: fill_page.induct)
  case (1 blocks page_h y0 cursor candidate lst)
  note g = geometry_nth [OF "1.prems"]
  show ?case
  proof (cases "candidate < length blocks")
    case True
    have nxt: "candidate + 1 < length blocks \<Longrightarrow> is_break (blocks' ! (candidate + 1)) = is_break (blocks ! (candidate + 1)) \<and>
        rel_bottom y0 (blocks' ! (candidate + 1)) = rel_bottom y0 (blocks ! (candidate + 1))"
      using g(2) by blast
    note IH = "1.IH" [OF _ refl _ _ refl refl _ "1.prems"]
    show ?thesis
      using True g(1) g(2) [OF True, of y0] nxt IH
      by (subst (1 2) fill_page.simps) (auto simp: Let_def simp del: add.commute)
  qed (subst (1 2) fill_page.simps, simp add: g(1))
qed

lemma skip_breaks_same:
  assumes "list_all2 same_geometry blocks blocks'"
  shows "skip_breaks blocks' k = skip_breaks blocks k"
proof -
  have "map is_break blocks' = map is_break blocks"
    using geometry_nth [OF assms] by (intro nth_equalityI) auto
  then have "map is_break (drop k blocks') = map is_break (drop k blocks)" by (metis drop_map)
  then have "length (takeWhile (\<lambda>x. x) (map is_break (drop k blocks'))) =
      length (takeWhile (\<lambda>x. x) (map is_break (drop k blocks)))" by simp
  then show ?thesis by (simp add: skip_breaks_def takeWhile_map comp_def)
qed

lemma pages_from_same:
  "list_all2 same_geometry blocks blocks' \<Longrightarrow> pages_from blocks' page_h k = pages_from blocks page_h k"
proof (induction blocks page_h k rule: pages_from.induct)
  case (1 blocks page_h k)
  note g = geometry_nth [OF "1.prems"] and sk = skip_breaks_same [OF "1.prems", of k]
  show ?case
  proof (cases "length blocks \<le> skip_breaks blocks k")
    case True
    then show ?thesis by (subst (1 2) pages_from.simps) (simp add: g(1) sk)
  next
    case False
    then have y: "bl_y (blocks' ! skip_breaks blocks k) = bl_y (blocks ! skip_breaks blocks k)" using g(2) by simp
    show ?thesis
      using False "1.IH" [OF refl False refl refl "1.prems"]
      by (subst (1 2) pages_from.simps) (simp add: g(1) sk y fill_page_same [OF "1.prems"] Let_def)
  qed
qed

lemma paginate_same: "list_all2 same_geometry blocks blocks' \<Longrightarrow> paginate_blocks blocks' page_h = paginate_blocks blocks page_h"
  by (simp add: paginate_blocks_def pages_from_same)

definition heading_ref :: "block \<Rightarrow> string option" where
  "heading_ref b =
     (if bl_kind b = KHeading \<and> bl_link_href b \<noteq> '''' \<and> hd (bl_link_href b) = CHR ''#''
      then Some (tl (bl_link_href b)) else None)"

lemma page_anchors_refs: "page_anchors blocks s = List.map_filter (\<lambda>i. heading_ref (blocks ! i)) (page_indices blocks s)"
  by (simp add: page_anchors_def heading_ref_def Let_def)

lemma page_anchors_same:
  assumes "list_all2 same_geometry blocks blocks'"
  shows "page_anchors blocks' s = page_anchors blocks s"
proof -
  note g = geometry_nth [OF assms]
  have "heading_ref (blocks' ! i) = heading_ref (blocks ! i)" if "i \<in> set (page_indices blocks s)" for i
    using that g(2,3) [of i] by (auto simp: page_indices_def heading_ref_def)
  moreover have "page_indices blocks' s = page_indices blocks s" by (simp add: page_indices_def g(1))
  ultimately show ?thesis
    unfolding page_anchors_refs List.map_filter_def by (auto intro!: map_cong filter_cong)
qed

lemma anchor_pages_same: "list_all2 same_geometry blocks blocks' \<Longrightarrow> anchor_pages blocks' pages = anchor_pages blocks pages"
  by (simp add: anchor_pages_def page_anchors_same)

section \<open>Page numbers\<close>

lemma fold_updates: "fold (\<lambda>a m. m(a \<mapsto> v)) as m x = (if x \<in> set as then Some v else m x)"
  by (induction as arbitrary: m) auto

text \<open>A page number of an anchor is that of a page with a heading of this anchor.\<close>

lemma anchor_fold_sound:
  "fold (\<lambda>(j, s) m. fold (\<lambda>a m. m(a \<mapsto> int j + 1)) (page_anchors blocks s) m) ps m a = Some k \<Longrightarrow> m a = None \<Longrightarrow>
    \<exists>j s. (j, s) \<in> set ps \<and> k = int j + 1 \<and> a \<in> set (page_anchors blocks s)"
  for ps :: "(nat \<times> page_slice) list"
proof (induction ps arbitrary: m rule: rev_induct)
  case (snoc p ps)
  obtain j s where p: "p = (j, s)" by fastforce
  then show ?case
  proof (cases "a \<in> set (page_anchors blocks s)")
    case True
    then show ?thesis using snoc.prems p by (auto simp: fold_updates simp del: fun_upd_apply)
  next
    case False
    then show ?thesis using snoc.prems p snoc.IH [of m] by (auto simp: fold_updates simp del: fun_upd_apply)
  qed
qed simp

lemma anchor_pages_sound:
  assumes "anchor_pages blocks pages a = Some k"
  shows "\<exists>j < length pages. k = int j + 1 \<and> a \<in> set (page_anchors blocks (pages ! j))"
  using anchor_fold_sound [OF assms [unfolded anchor_pages_def]] by (auto simp: in_set_enumerate_eq)

lemma anchor_pages_none:
  assumes "no_anchors blocks pages"
  shows "anchor_pages blocks pages a = None"
proof (cases "anchor_pages blocks pages a")
  case (Some k)
  then show ?thesis using anchor_pages_sound [OF Some] assms by (auto simp: no_anchors_def list_all_length)
qed

lemma page_anchorsD:
  assumes "a \<in> set (page_anchors blocks s)"
  shows "\<exists>i \<in> set (page_indices blocks s). bl_kind (blocks ! i) = KHeading \<and> bl_link_href (blocks ! i) = CHR ''#'' # a"
proof -
  obtain i where "i \<in> set (page_indices blocks s)" "heading_ref (blocks ! i) = Some a"
    using assms by (auto simp: page_anchors_refs List.map_filter_def)
  then show ?thesis by (cases "bl_link_href (blocks ! i)") (auto simp: heading_ref_def split: if_splits)
qed

lemma toc_page_numbers:
  assumes "pdf_pages env doc = Some (Some (blocks, pages))" "b \<in> set blocks" "bl_kind b = KTocRow"
  shows "bl_toc_page b = anchor_pages blocks pages (bl_toc_anchor b)"
proof -
  let ?env = "pdf_env env" and ?h = "page_content_height (le_sheet (pdf_env env))"
  have none: "le_toc_pages ?env = None" by (simp add: pdf_env_def)
  obtain st where st: "layout_document ?env doc = Some st"
    using assms(1) by (auto simp: pdf_pages_def Let_def split: option.splits)
  let ?p = "paginate_blocks (ls_blocks st) ?h"
  have related: "\<exists>st'. layout_document (with_pages f ?env) doc = Some st' \<and> list_all2 (same_block f) (ls_blocks st) (ls_blocks st')"
    for f
    using layout_document_sim [OF none, of f doc] by (auto simp: st sim_def option_rel_Some1)
  show ?thesis
  proof (cases "\<not> (\<exists>b \<in> set (ls_blocks st). bl_kind b = KTocRow) \<or> no_anchors (ls_blocks st) ?p")
    case True
    then have e: "blocks = ls_blocks st" "pages = ?p"
      using assms(1) st by (auto simp: pdf_pages_def Let_def split: if_splits)
    have "bl_toc_page b = None"
      using related [of "\<lambda>_. None"] assms(2,3) unfolding e(1)
      by (auto simp: list_all2_conv_all_nth in_set_conv_nth same_block_def split: if_splits)
    moreover have "no_anchors blocks pages" using True assms(2,3) e by blast
    ultimately show ?thesis by (simp add: anchor_pages_none)
  next
    case False
    let ?f = "anchor_pages (ls_blocks st) ?p"
    obtain st' where st': "layout_document (with_pages ?f ?env) doc = Some st'"
      "list_all2 (same_block ?f) (ls_blocks st) (ls_blocks st')" using related by blast
    have e: "blocks = ls_blocks st'" "pages = paginate_blocks (ls_blocks st') ?h"
      using assms(1) st st'(1) False by (auto simp: pdf_pages_def Let_def split: if_splits)
    have g: "list_all2 same_geometry (ls_blocks st) blocks"
      using st'(2) unfolding e(1) by (rule list_all2_mono) (rule same_block_geometry)
    have "pages = ?p" using paginate_same [OF g] e by simp
    then have "anchor_pages blocks pages = ?f" using anchor_pages_same [OF g] by simp
    moreover have "bl_toc_page b = ?f (bl_toc_anchor b)"
      using st'(2) assms(2,3) unfolding e(1)
      by (auto simp: list_all2_conv_all_nth in_set_conv_nth same_block_def split: if_splits)
    ultimately show ?thesis by simp
  qed
qed

text \<open>The export does not fail on its second layout.\<close>

lemma pdf_pages_returns:
  assumes "layout_document (pdf_env env) doc = Some st" "ls_blocks st \<noteq> []"
  shows "\<exists>blocks pages. pdf_pages env doc = Some (Some (blocks, pages)) \<and> list_all2 same_geometry (ls_blocks st) blocks"
proof -
  have none: "le_toc_pages (pdf_env env) = None" by (simp add: pdf_env_def)
  let ?p = "paginate_blocks (ls_blocks st) (page_content_height (le_sheet (pdf_env env)))"
  have self: "list_all2 same_geometry (ls_blocks st) (ls_blocks st)"
    by (simp add: list_all2_same same_geometry_def)
  obtain st' where st': "layout_document (with_pages (anchor_pages (ls_blocks st) ?p) (pdf_env env)) doc = Some st'"
    "list_all2 (same_block (anchor_pages (ls_blocks st) ?p)) (ls_blocks st) (ls_blocks st')"
    using layout_document_sim [OF none, of _ doc] by (auto simp: assms(1) sim_def option_rel_Some1)
  have g: "list_all2 same_geometry (ls_blocks st) (ls_blocks st')"
    using st'(2) by (rule list_all2_mono) (rule same_block_geometry)
  then have "ls_blocks st' \<noteq> []" using assms(2) by auto
  then show ?thesis
    using assms st'(1) g self by (simp add: pdf_pages_def Let_def)
qed

end
