(* ===== verification/Table_Widths.thy ===== *)
theory Table_Widths
  imports Layout_Flow
begin

text \<open>
  The widths of the columns of a table: no column is narrower than the widest word in it, also
  after the rounding of the shares.
\<close>

section \<open>Sums and differences\<close>

lemma dbl_le_PosInf [simp]: "dbl_le PosInf b \<longleftrightarrow> b = PosInf"
  by (cases b) (auto simp: dbl_le_def)

lemma round64_NaN [simp]: "round64 x \<noteq> NaN"
  by (simp add: round64_def round_bin_def Let_def)

lemma dbl_le_linear: "\<not> dbl_le a b \<Longrightarrow> a \<noteq> NaN \<Longrightarrow> b \<noteq> NaN \<Longrightarrow> dbl_le b a"
  by (cases a; cases b) (auto simp: dbl_le_def)

lemma dbl_add_mono:
  assumes "dbl_le a b" "nonneg a" "nonneg c"
  shows "dbl_le (dbl_add a c) (dbl_add b c)"
  using assms by (cases a; cases b; cases c) (auto simp: round64_mono dbl_le_not_NaN)

lemma foldl_max_ge:
  assumes "nonneg a" "\<And>x. x \<in> set xs \<Longrightarrow> nonneg (f x)"
  shows "dbl_le a (foldl (\<lambda>h x. dbl_max h (f x)) a xs) \<and>
    (\<forall>x \<in> set xs. dbl_le (f x) (foldl (\<lambda>h x. dbl_max h (f x)) a xs))"
  using assms
proof (induction xs arbitrary: a)
  case (Cons x xs)
  let ?m = "dbl_max a (f x)"
  have m: "nonneg ?m" "dbl_le a ?m" "dbl_le (f x) ?m"
    using Cons.prems(1) Cons.prems(2) [of x] by (cases a; cases "f x"; auto simp: dbl_max_def dbl_le_def)+
  show ?case
    using Cons.IH [OF m(1)] Cons.prems(2) m dbl_le_trans by (auto intro: dbl_le_trans)
qed (auto simp: dbl_le_not_NaN)

lemma foldl_max_mono:
  assumes "dbl_le a b" "\<And>x. x \<in> set xs \<Longrightarrow> dbl_le (f x) (g x)"
  shows "dbl_le (foldl (\<lambda>h x. dbl_max h (f x)) a xs) (foldl (\<lambda>h x. dbl_max h (g x)) b xs)"
  using assms
proof (induction xs arbitrary: a b)
  case (Cons x xs)
  have "dbl_le (dbl_max a (f x)) (dbl_max b (g x))"
    using Cons.prems(1) Cons.prems(2) [of x]
    by (cases a; cases b; cases "f x"; cases "g x") (auto simp: dbl_max_def dbl_le_def)
  then show ?case using Cons by simp
qed simp

lemma dbl_sub_nonneg: "dbl_le a b \<Longrightarrow> dbl_finite a \<Longrightarrow> nonneg (dbl_sub b a)"
  by (cases a; cases b) (auto simp: dbl_sub_def)

lemma dbl_sub_finite:
  assumes "is_double b" "dbl_finite b" "nonneg a" "dbl_le a b"
  shows "dbl_finite (dbl_sub b a)"
proof -
  obtain x y where xy: "a = Fin x" "b = Fin y" "0 \<le> x" "x \<le> y" using assms by (cases a; cases b) auto
  have "dbl_le (round64 (y - x)) (round64 y)" using xy by (intro round64_mono) simp
  moreover have "round64 y = Fin y" using assms(1) xy by (simp add: is_double_def)
  moreover have "nonneg (round64 (y - x))" using xy by simp
  ultimately show ?thesis using xy by (cases "round64 (y - x)") (auto simp: dbl_sub_def dbl_le_def)
qed

lemma round64_one: "round64 1 = Fin 1"
  using round64_powi [of 0] by simp

text \<open>The part of the rest that a column gets of what it can grow\<close>

lemma share_part:
  assumes "dbl_le c m" "dbl_le s c" "nonneg s" "dbl_less (Fin 0) (dbl_sub m s)" "dbl_finite c"
    "is_double c"
  shows "nonneg (dbl_div (dbl_sub c s) (dbl_sub m s)) \<and> dbl_finite (dbl_div (dbl_sub c s) (dbl_sub m s))"
proof -
  obtain x y where xy: "s = Fin x" "c = Fin y" "0 \<le> x" "x \<le> y" using assms by (cases s; cases c) auto
  have "dbl_finite (round64 (y - x))" "nonneg (round64 (y - x))"
    using dbl_sub_finite [OF assms(6,5,3,2)] xy by (simp_all add: dbl_sub_def)
  then obtain d where d: "round64 (y - x) = Fin d" "0 \<le> d" by (cases "round64 (y - x)") auto
  show ?thesis
  proof (cases m)
    case (Fin z)
    have le: "dbl_le (Fin d) (round64 (z - x))"
      using assms(1) xy Fin round64_mono [of "y - x" "z - x"] by (simp add: d)
    have pos: "dbl_less (Fin 0) (round64 (z - x))" using assms(4) xy Fin by (simp add: dbl_sub_def)
    show ?thesis
    proof (cases "round64 (z - x)")
      case e: (Fin e)
      then have "dbl_le (round64 (d / e)) (round64 1)" using le pos d(2) by (intro round64_mono) simp
      moreover have "nonneg (round64 (d / e))" using d(2) e pos by simp
      ultimately show ?thesis
        using d e xy Fin by (cases "round64 (d / e)") (auto simp: dbl_sub_def div_by_def round64_one)
    next
      case PosInf
      then show ?thesis using d xy Fin by (simp add: dbl_sub_def div_by_def)
    qed (use pos in auto)
  next
    case PosInf
    then show ?thesis using d xy by (simp add: dbl_sub_def div_by_def)
  qed (use assms xy in auto)
qed

section \<open>Columns\<close>

definition shareable :: "dbl \<Rightarrow> dbl \<Rightarrow> bool" where
  "shareable a b \<longleftrightarrow> is_double a \<and> is_double b \<and> nonneg a \<and> dbl_finite b \<and> dbl_le a b"

lemma shareable_nonneg: "shareable a b \<Longrightarrow> nonneg b"
  unfolding shareable_def using dbl_le_trans by blast

lemma shareable_column:
  assumes "shareable a b" "nonneg p" "dbl_finite p"
  shows "dbl_le a (dbl_add a (dbl_mul (dbl_sub b a) p))"
proof (rule dbl_add_ge)
  have a: "dbl_finite a" using assms(1) by (cases a; cases b) (auto simp: shareable_def)
  have "nonneg (dbl_sub b a)" using assms(1) a by (intro dbl_sub_nonneg) (simp_all add: shareable_def)
  moreover have "dbl_finite (dbl_sub b a)" using assms(1) by (intro dbl_sub_finite) (simp_all add: shareable_def)
  ultimately show "nonneg (dbl_mul (dbl_sub b a) p)" using assms(2,3) by (intro dbl_mul_nonneg)
qed (use assms(1) in \<open>simp_all add: shareable_def\<close>)

lemma shareable_pad:
  assumes "shareable a b" "dbl_finite (dbl_add b c)" "nonneg c"
  shows "shareable (dbl_add a c) (dbl_add b c)"
proof -
  have "nonneg b" using assms(1) by (rule shareable_nonneg)
  then show ?thesis using assms by (auto simp: shareable_def dbl_add_nonneg dbl_add_mono)
qed

lemma share_widths_ge:
  assumes "list_all2 shareable mn mx" "is_double c" "dbl_finite c"
  shows "list_all2 dbl_le mn (share_widths c mn mx)"
proof -
  have each: "shareable (mn ! i) (mx ! i)" if "i < length mn" for i using assms(1) that by (rule list_all2_nthD)
  have len: "length mx = length mn" using assms(1) by (simp add: list_all2_lengthD)
  have nn: "nonneg x" if "x \<in> set mn" for x using that each by (auto simp: in_set_conv_nth shareable_def)
  have s: "nonneg (dbl_sum mn)" using nn by (rule dbl_sum_nonneg)
  have c: "c \<noteq> NaN" using assms(3) by auto
  have m: "dbl_sum mx \<noteq> NaN"
  proof -
    have "nonneg x" if x: "x \<in> set mx" for x
    proof -
      obtain i where "i < length mn" "x = mx ! i" using x len by (auto simp: in_set_conv_nth)
      then show ?thesis using shareable_nonneg [OF each [of i]] by simp
    qed
    then have "nonneg (dbl_sum mx)" by (rule dbl_sum_nonneg)
    then show ?thesis by auto
  qed
  consider "dbl_le (dbl_sum mx) c" | "\<not> dbl_le (dbl_sum mx) c" "dbl_le c (dbl_sum mn)"
    | "\<not> dbl_le (dbl_sum mx) c" "\<not> dbl_le c (dbl_sum mn)" by blast
  then show ?thesis
  proof cases
    case 1
    then show ?thesis using each len by (auto simp: share_widths_def Let_def list_all2_conv_all_nth shareable_def)
  next
    case 2
    moreover have "NaN \<notin> set mn" using nn [of NaN] by auto
    ultimately show ?thesis by (auto simp: share_widths_def Let_def list_all2_same)
  next
    case 3
    let ?space = "dbl_sub c (dbl_sum mn)" and ?elastic = "dbl_sub (dbl_sum mx) (dbl_sum mn)"
    let ?part = "if dbl_less (Fin 0) ?elastic then dbl_div ?space ?elastic else Fin 0"
    have o: "dbl_le c (dbl_sum mx)" "dbl_le (dbl_sum mn) c"
      using 3 c m dbl_le_not_NaN [OF s] by (simp_all add: dbl_le_linear)
    have p: "nonneg ?part \<and> dbl_finite ?part" using share_part [OF o s _ assms(3,2)] by simp
    have "share_widths c mn mx = map2 (\<lambda>mn mx. dbl_add mn (dbl_mul (dbl_sub mx mn) ?part)) mn mx"
      using 3 by (simp add: share_widths_def Let_def)
    then show ?thesis using each len p by (simp add: list_all2_conv_all_nth shareable_column del: if_split)
  qed
qed

section \<open>Words in columns\<close>

text \<open>What Pango promises of natural widths, and that a line of words is as wide as the widest at least\<close>

definition good_widths :: "layout_env \<Rightarrow> bool" where
  "good_widths env \<longleftrightarrow> is_double (le_width env) \<and> dbl_finite (le_width env) \<and>
     (\<forall>runs. is_double (pm_width (measured env runs (Fin (- 1)))) \<and> nonneg (pm_width (measured env runs (Fin (- 1)))) \<and>
        dbl_le (pm_width (measured env runs (Fin (- 1)))) (Fin (2 powi 21)) \<and>
        is_double (widest_word_width env runs) \<and> nonneg (widest_word_width env runs) \<and>
        dbl_le (widest_word_width env runs) (pm_width (measured env runs (Fin (- 1)))))"

lemma padding: "nonneg (dbl_mul (Fin 2) cpad)" "dbl_le (dbl_mul (Fin 2) cpad) (Fin (2 powi 21))"
proof -
  have "dbl_le (round64 10) (round64 (2 powi 21))" by (rule round64_mono) (simp add: power_int_def)
  then show "nonneg (dbl_mul (Fin 2) cpad)" "dbl_le (dbl_mul (Fin 2) cpad) (Fin (2 powi 21))"
    using round64_powi [of 21] by (simp_all add: cpad_def mul_by_def)
qed

lemma padded_finite:
  assumes "nonneg a" "dbl_le a (Fin (2 powi 21))"
  shows "dbl_finite (dbl_add a (dbl_mul (Fin 2) cpad))"
proof -
  obtain x y where xy: "a = Fin x" "dbl_mul (Fin 2) cpad = Fin y" "0 \<le> x" "0 \<le> y" "x \<le> 2 powi 21" "y \<le> 2 powi 21"
    using assms padding by (cases a; cases "dbl_mul (Fin 2) cpad") auto
  then have "x + y \<le> 2 powi 22" by (simp add: power_int_def)
  then show ?thesis using xy by (simp add: round64_finite [where k = 22])
qed

lemma col_max_props:
  assumes "\<And>r. nonneg (f r)"
  shows "nonneg (col_max f rows c)"
    "row \<in> set rows \<Longrightarrow> c < length row \<Longrightarrow> dbl_le (f (fst (row ! c))) (col_max f rows c)"
proof -
  let ?g = "\<lambda>row. if c < length row then f (fst (row ! c)) else Fin 0"
  have e: "foldl (\<lambda>w row. if c < length row then dbl_max w (f (fst (row ! c))) else w) w rows =
      foldl (\<lambda>w row. dbl_max w (?g row)) w rows" if "nonneg w" for w
    using that
  proof (induction rows arbitrary: w)
    case (Cons row rows)
    have "dbl_max w (Fin 0) = w" using Cons.prems by (cases w) (auto simp: dbl_max_def)
    then show ?case using Cons assms by (simp add: dbl_max_nonneg)
  qed simp
  then have m: "col_max f rows c = foldl (\<lambda>w row. dbl_max w (?g row)) (Fin 0) rows" by (simp add: col_max_def)
  have g: "nonneg (?g row)" for row using assms by simp
  note ge = foldl_max_ge [of "Fin 0" rows ?g, OF _ g]
  show "nonneg (col_max f rows c)" unfolding m by (rule foldl_max_nonneg) (use assms in simp_all)
  show "dbl_le (f (fst (row ! c))) (col_max f rows c)" if "row \<in> set rows" "c < length row"
    using ge that unfolding m by fastforce
qed

lemma col_max_double:
  assumes "\<And>r. is_double (f r)"
  shows "is_double (col_max f rows c)"
proof -
  have "is_double (foldl (\<lambda>w row. if c < length row then dbl_max w (f (fst (row ! c))) else w) w rows)"
    if "is_double w" for w
    using that by (induction rows arbitrary: w) (auto simp: assms dbl_max_def)
  then show ?thesis by (simp add: col_max_def)
qed

lemma col_max_le:
  assumes "\<And>r. dbl_le (f r) (g r)"
  shows "dbl_le (col_max f rows c) (col_max g rows c)"
proof -
  have "dbl_le (foldl (\<lambda>w row. if c < length row then dbl_max w (f (fst (row ! c))) else w) v rows)
      (foldl (\<lambda>w row. if c < length row then dbl_max w (g (fst (row ! c))) else w) w rows)" if "dbl_le v w" for v w
    using that
  proof (induction rows arbitrary: v w)
    case (Cons row rows)
    have "dbl_le (dbl_max v (f r)) (dbl_max w (g r))" for r
      using Cons.prems assms [of r] by (cases v; cases w; cases "f r"; cases "g r") (auto simp: dbl_max_def dbl_le_def)
    then show ?case using Cons by simp
  qed simp
  then show ?thesis by (simp add: col_max_def)
qed

lemma col_max_bound:
  assumes "\<And>r. dbl_le (f r) b" "nonneg b"
  shows "dbl_le (col_max f rows c) b"
proof -
  have "dbl_le (foldl (\<lambda>w row. if c < length row then dbl_max w (f (fst (row ! c))) else w) w rows) b" if "dbl_le w b" for w
    using that by (induction rows arbitrary: w) (auto simp: assms(1) dbl_max_def)
  then show ?thesis using assms(2) by (simp add: col_max_def)
qed

text \<open>No word is wider than the column it is in, without the padding.\<close>

lemma column_widths_ge:
  assumes "good_widths env" "c < n" "row \<in> set rows" "c < length row"
  shows "dbl_le (dbl_add (widest_word_width env (fst (row ! c))) (dbl_mul (Fin 2) cpad)) (column_widths env rows n ! c)"
proof -
  let ?pad = "dbl_mul (Fin 2) cpad" and ?nat = "\<lambda>r. pm_width (measured env r (Fin (- 1)))"
  let ?word = "widest_word_width env"
  have w: "is_double (?nat r)" "nonneg (?nat r)" "dbl_le (?nat r) (Fin (2 powi 21))" "dbl_le (?word r) (?nat r)"
    "is_double (?word r)" "nonneg (?word r)" for r
    using assms(1) by (auto simp: good_widths_def)
  have share: "shareable (dbl_add (col_max ?word rows k) ?pad) (dbl_add (col_max ?nat rows k) ?pad)" for k
  proof (rule shareable_pad)
    have le: "dbl_le (col_max ?nat rows k) (Fin (2 powi 21))" "nonneg (col_max ?nat rows k)"
      using w by (auto intro!: col_max_bound col_max_props(1) simp: power_int_def)
    show "dbl_finite (dbl_add (col_max ?nat rows k) ?pad)" by (rule padded_finite [OF le(2,1)])
    show "shareable (col_max ?word rows k) (col_max ?nat rows k)"
      unfolding shareable_def
    proof (intro conjI)
      show "dbl_finite (col_max ?nat rows k)" using le by (cases "col_max ?nat rows k") auto
    qed (use w in \<open>simp_all add: col_max_double col_max_props(1) col_max_le\<close>)
  qed (rule padding)
  have "list_all2 dbl_le (map (\<lambda>k. dbl_add (col_max ?word rows k) ?pad) [0..<n]) (column_widths env rows n)"
    unfolding column_widths_def Let_def
    using assms(1) share by (intro share_widths_ge) (auto simp: list_all2_conv_all_nth good_widths_def)
  then have "dbl_le (dbl_add (col_max ?word rows c) ?pad) (column_widths env rows n ! c)"
    using assms(2) by (auto simp: list_all2_conv_all_nth)
  moreover have "dbl_le (?word (fst (row ! c))) (col_max ?word rows c)"
    using assms(3,4) w by (intro col_max_props(2)) simp_all
  then have "dbl_le (dbl_add (?word (fst (row ! c))) ?pad) (dbl_add (col_max ?word rows c) ?pad)"
    using w padding(1) by (intro dbl_add_mono) simp_all
  ultimately show ?thesis using dbl_le_trans by blast
qed

end
