(* ===== verification/Markdown_Document.thy ===== *)
theory Markdown_Document
  imports Markdown_Ast Json_Value Iso8601
begin

text \<open>
  \<^verbatim>\<open>gui/markdown/markdown_document.hpp\<close> and \<^verbatim>\<open>.cpp\<close>: a note's document with its print settings,
  pasted images and the lookup of assets.  JSON text is a pair of parameters; the asset directory
  is a list of names and contents in the order the system lists them, with the faults the system
  may report.
\<close>

section \<open>Print settings\<close>

record print_config =
  pc_header :: string
  pc_footer :: string
  pc_show_page_numbers :: bool
  pc_show_toc :: bool
  pc_max_toc_depth :: i32
  pc_font_family :: string
  pc_base_font_pt :: dbl

definition default_print_config :: print_config where
  "default_print_config = \<lparr>pc_header = '''', pc_footer = '''', pc_show_page_numbers = True, pc_show_toc = True,
     pc_max_toc_depth = 6, pc_font_family = '''', pc_base_font_pt = Fin 11\<rparr>"

definition print_config_to_json :: "print_config \<Rightarrow> json" where
  "print_config_to_json c = JObject [
     (''base_font_pt'', JFloat (pc_base_font_pt c)), (''font_family'', JString (pc_font_family c)),
     (''footer'', JString (pc_footer c)), (''header'', JString (pc_header c)),
     (''max_toc_depth'', JInt (sint (pc_max_toc_depth c))),
     (''show_page_numbers'', JBool (pc_show_page_numbers c)), (''show_toc'', JBool (pc_show_toc c))]"

definition print_config_to_string :: "(json \<Rightarrow> string option) \<Rightarrow> print_config \<Rightarrow> string option" where
  "print_config_to_string dump c = dump (print_config_to_json c)"

text \<open>\<^verbatim>\<open>if (j.contains(k)) cfg.x = j.at(k).get<T>()\<close>\<close>

definition read_member :: "(json \<Rightarrow> 'a option) \<Rightarrow> json \<Rightarrow> string \<Rightarrow> ('a \<Rightarrow> 'c \<Rightarrow> 'c) \<Rightarrow> 'c \<Rightarrow> 'c option" where
  "read_member get j k upd c =
     (if jcontains j k then map_option (\<lambda>v. upd v c) (Option.bind (jat j k) get) else Some c)"

definition print_config_of_json :: "json \<Rightarrow> print_config option" where
  "print_config_of_json j = do {
     c \<leftarrow> read_member get_string j ''header'' (\<lambda>v. pc_header_update (\<lambda>_. v)) default_print_config;
     c \<leftarrow> read_member get_string j ''footer'' (\<lambda>v. pc_footer_update (\<lambda>_. v)) c;
     c \<leftarrow> read_member get_bool j ''show_page_numbers'' (\<lambda>v. pc_show_page_numbers_update (\<lambda>_. v)) c;
     c \<leftarrow> read_member get_bool j ''show_toc'' (\<lambda>v. pc_show_toc_update (\<lambda>_. v)) c;
     c \<leftarrow> read_member get_i32 j ''max_toc_depth'' (\<lambda>v. pc_max_toc_depth_update (\<lambda>_. v)) c;
     c \<leftarrow> read_member get_string j ''font_family'' (\<lambda>v. pc_font_family_update (\<lambda>_. v)) c;
     read_member get_double j ''base_font_pt'' (\<lambda>v. pc_base_font_pt_update (\<lambda>_. v)) c
   }"

definition print_config_from_string :: "(string \<Rightarrow> json option) \<Rightarrow> string \<Rightarrow> print_config" where
  "print_config_from_string parse s =
     (if s = '''' then default_print_config
      else case Option.bind (parse s) print_config_of_json of
             Some c \<Rightarrow> c
           | None \<Rightarrow> default_print_config)"

section \<open>The document\<close>

record markdown_document =
  md_source :: string
  md_ast :: "node option"
  md_note_dir :: string
  md_asset_dir :: string
  md_css_path :: string
  md_print_config :: print_config

text \<open>\<open>md4c\<close> is the list of callbacks the parser makes for a source.\<close>

definition set_source :: "(string \<Rightarrow> md_event list) \<Rightarrow> string \<Rightarrow> markdown_document \<Rightarrow> markdown_document" where
  "set_source md4c s d = d\<lparr>md_source := s, md_ast := parse_events (md4c s)\<rparr>"

section \<open>Pasted images\<close>

type_synonym dir_entries = "(string \<times> string) list"

record dir_faults =
  df_create :: bool
  df_list :: bool
  df_open :: bool
  df_write :: "nat option"

definition no_faults :: dir_faults where
  "no_faults = \<lparr>df_create = False, df_list = False, df_open = False, df_write = None\<rparr>"

text \<open>\<^verbatim>\<open>^asset-(\d{3})\.png$\<close>\<close>

definition asset_number :: "string \<Rightarrow> nat option" where
  "asset_number name =
     (if length name = 13 \<and> take 6 name = ''asset-'' \<and> list_all is_digit (take 3 (drop 6 name)) \<and>
         drop 9 name = ''.png''
      then Some (nat_of_dec 0 (take 3 (drop 6 name))) else None)"

definition after_name :: "string \<Rightarrow> nat \<Rightarrow> nat" where
  "after_name name nxt =
     (case asset_number name of
        Some n \<Rightarrow> if nxt \<le> n then n + 1 else nxt
      | None \<Rightarrow> nxt)"

definition next_number :: "string list \<Rightarrow> nat" where
  "next_number names = fold after_name names 1"

definition asset_name :: "nat \<Rightarrow> string" where
  "asset_name n = ''asset-'' @ pad_left 3 (dec_of_nat n) @ ''.png''"

definition put_file :: "string \<Rightarrow> string \<Rightarrow> dir_entries \<Rightarrow> dir_entries" where
  "put_file name data es =
     (if name \<in> fst ` set es then map (\<lambda>(n, d). (n, if n = name then data else d)) es else es @ [(name, data)])"

text \<open>
  A directory that cannot be listed counts as empty: the iterator is its own end and the error is
  only looked at inside the loop.
\<close>

definition save_pasted_image :: "dir_faults \<Rightarrow> markdown_document \<Rightarrow> string \<Rightarrow> dir_entries \<Rightarrow> string option \<times> dir_entries" where
  "save_pasted_image f d png es =
     (if png = '''' \<or> 32 * 1024 * 1024 < length png then (None, es)
      else if md_asset_dir d = '''' then (None, es)
      else if df_create f then (None, es)
      else let name = asset_name (next_number (if df_list f then [] else map fst es))
           in if df_open f then (None, es)
              else case df_write f of
                     Some k \<Rightarrow> (None, put_file name (take k png) es)
                   | None \<Rightarrow> (Some name, put_file name png es))"

section \<open>Assets\<close>

text \<open>\<^verbatim>\<open>operator/\<close> of paths: an absolute right side replaces the left one.\<close>

definition path_join :: "string \<Rightarrow> string \<Rightarrow> string" where
  "path_join a b =
     (if starts_with ''/'' b then b
      else if a = '''' \<or> last a = CHR ''/'' then a @ b
      else a @ ''/'' @ b)"

record path_env =
  pe_exists :: "string \<Rightarrow> bool"
  pe_canonical :: "string \<Rightarrow> string"
  pe_cwd :: "string option"

definition resolve_asset_file :: "path_env \<Rightarrow> markdown_document \<Rightarrow> string \<Rightarrow> string option" where
  "resolve_asset_file e d ref =
     (let found = (\<lambda>p. if pe_exists e p then Some (pe_canonical e p) else None)
      in if ref = '''' \<or> contains ''://'' ref \<or> starts_with ''data:'' ref then None
         else if starts_with ''assets/'' ref then
           (if md_asset_dir d \<noteq> '''' then found (path_join (md_asset_dir d) (drop 7 ref))
            else if md_note_dir d \<noteq> '''' then found (path_join (path_join (md_note_dir d) ''assets'') (drop 7 ref))
            else None)
         else if 1 < length ref \<and> hd ref = CHR ''/'' then found ref
         else case (if md_note_dir d \<noteq> '''' then found (path_join (md_note_dir d) ref) else None) of
                Some p \<Rightarrow> Some p
              | None \<Rightarrow> (case pe_cwd e of
                            Some cwd \<Rightarrow> found (path_join cwd ref)
                          | None \<Rightarrow> None))"

section \<open>Lemmas\<close>

lemma print_config_roundtrip:
  assumes "print_config_to_string dump c = Some s" "s \<noteq> ''''" "parse s = Some (print_config_to_json c)"
  shows "print_config_from_string parse s = c"
  using assms by (simp add: print_config_from_string_def print_config_of_json_def print_config_to_json_def
      read_member_def jcontains_def jat_def default_print_config_def)

lemma after_name_ge: "nxt \<le> after_name name nxt"
  by (simp add: after_name_def split: option.split)

lemma next_number_mono: "k \<le> fold after_name names k"
proof (induction names arbitrary: k)
  case (Cons name names)
  show ?case using Cons.IH [of "after_name name k"] after_name_ge [of k name] by simp
qed simp

lemma next_number_greater:
  assumes "name \<in> set names" "asset_number name = Some n"
  shows "n < next_number names"
proof -
  obtain xs ys where e: "names = xs @ name # ys" using split_list [OF assms(1)] by blast
  have "n < after_name name (fold after_name xs 1)" using assms(2) by (simp add: after_name_def)
  also have "\<dots> \<le> fold after_name ys (after_name name (fold after_name xs 1))" by (rule next_number_mono)
  finally show ?thesis by (simp add: next_number_def e)
qed

lemma asset_number_name:
  assumes "n < 1000"
  shows "asset_number (asset_name n) = Some n"
proof -
  have l: "length (dec_of_nat n) \<le> 3" using assms by (rule length_dec_of_nat_3)
  then have "length (pad_left 3 (dec_of_nat n)) = 3" by (simp add: pad_left_def)
  moreover have "list_all is_digit (pad_left 3 (dec_of_nat n))"
    using pad_dec_digits by (simp add: list_all_iff)
  ultimately show ?thesis
    by (simp add: asset_number_def asset_name_def nat_of_dec_pad nat_of_dec_of_nat)
qed

lemma asset_name_fresh:
  assumes "next_number names < 1000"
  shows "asset_name (next_number names) \<notin> set names"
  using next_number_greater [of "asset_name (next_number names)" names] asset_number_name [OF assms] by auto

end
