(* ===== verification/Markdown_Css.thy ===== *)
theory Markdown_Css
  imports Markdown_Html
begin

text \<open>
  The style sheets of the HTML preview and the HTML page around a rendered body
  (\<^verbatim>\<open>gui/markdown/markdown_css.hpp\<close> and \<^verbatim>\<open>.cpp\<close>).  A file that is read is its content, if it can be
  opened.
\<close>

definition text_lines :: "string list \<Rightarrow> string" where
  "text_lines ls = concat (map (\<lambda>l. l @ [newline]) ls)"

definition kFallbackCss :: string where
  "kFallbackCss = text_lines
    [''body {'',
     ''  font-family: -apple-system, \"Segoe UI\", system-ui, sans-serif;'',
     ''  line-height: 1.6;'',
     ''  color: #1f2328;'',
     ''  max-width: 42rem;'',
     ''  margin: 0 auto;'',
     ''  padding: 1.5rem 2rem;'',
     ''}'',
     ''h1, h2, h3, h4, h5, h6 { line-height: 1.2; margin: 1.4em 0 0.5em; }'',
     ''code { background: #f0f1f3; border-radius: 4px; padding: 0.15em 0.35em; }'',
     ''pre { background: #e9eaec; border-radius: 2px; padding: 0.75em 1em; overflow: auto; }'',
     ''pre code { background: none; padding: 0; }'',
     ''blockquote { border-left: 4px solid #d0d7de; margin: 0; padding-left: 1em; color: #59636e; }'',
     ''table { border-collapse: collapse; width: 100%; }'',
     ''th, td { border: 1px solid #d0d7de; padding: 0.35em 0.6em; text-align: left; }'',
     ''th { background: #f6f8fa; }'',
     ''> body img { max-width: 100%; }'']"

definition kFallbackTemplateCss :: string where
  "kFallbackTemplateCss = text_lines
    [''/* Remin Markdown stylesheet template.'',
     '' *'',
     '' * The full, commented template ships with the installed app at'',
     '' *   share/remin/resources/styles/markdown-custom.example.css'',
     '' * (Settings > Markdown > \"New from template\" creates a copy for you).'',
     '' *'',
     '' * Quick reference for the note preview + PDF export (Remin subset):'',
     '' *   document { color:@text; font-family:sans; font-size:11pt; line-height:1.55; }'',
     '' *   h1 { font-size:21pt; font-weight:700; margin-top:18pt; margin-bottom:9pt; }'',
     '' *   pre  { font-family:monospace; font-size:10pt; background:@surface; padding:8pt; }'',
     '' *   hr   { color:@border; margin-top:10pt; margin-bottom:10pt; }'',
     '' *   page { size:a4; margin:18mm; }'',
     '' * Palette tokens: @text @text-muted @accent @bg @surface @border'',
     '' *                 @code-bg @quote-bg @red @orange @green @blue'',
     '' */'']"

definition builtin_preview_css :: "string option \<Rightarrow> string" where
  "builtin_preview_css file =
     (case file of
        None \<Rightarrow> kFallbackCss
      | Some css \<Rightarrow> if css = '''' then kFallbackCss else css)"

definition read_user_css :: "(string \<Rightarrow> string option) \<Rightarrow> string \<Rightarrow> string" where
  "read_user_css files path =
     (if path = '''' then '''' else case files path of None \<Rightarrow> '''' | Some css \<Rightarrow> css)"

definition markdown_template_css :: "string option \<Rightarrow> string" where
  "markdown_template_css file = (case file of Some css \<Rightarrow> css | None \<Rightarrow> kFallbackTemplateCss)"

definition build_html_document :: "string \<Rightarrow> string \<Rightarrow> string \<Rightarrow> string" where
  "build_html_document body css title =
     text_lines [''<!DOCTYPE html>'', ''<html>'', ''<head>'', ''<meta charset=\"utf-8\">'',
       ''<meta name=\"viewport\" content=\"width=device-width, initial-scale=1\">'',
       ''<title>'' @ (if title \<noteq> '''' then title else ''Preview'') @ ''</title>'', ''<style>'', css, ''</style>'',
       ''</head>'', ''<body>'', ''<main>'']
     @ body @ text_lines [''</main>'', ''</body>'', ''</html>'']"

end
