(* ===== verification/Preview_Properties.thy ===== *)
theory Preview_Properties
  imports Toc_Pages Table_Widths Markdown_Document Style_Parser Markdown_Css
begin

text \<open>
  Properties of the preview and of the PDF export: style sheets, inline HTML, the flow of blocks,
  tables, pages and the page numbers of the table of contents; and pasted images.
\<close>

section \<open>An environment\<close>

definition demo_pango :: "pango_layout \<Rightarrow> pango_extents" where
  "demo_pango l = \<lparr>px_width = 40960, px_height = 14336, px_baseline = 11264, px_lines = 1\<rparr>"

definition demo_env :: layout_env where
  "demo_env = \<lparr>le_dp = CHR ''.'', le_undef = 0, le_sheet = default_style light_palette, le_width = Fin 512,
     le_measure = measure_runs demo_pango 0, le_resolve_image = None, le_image_size = (\<lambda>_. None),
     le_toc_pages = None, le_render_toc = True, le_headings = []\<rparr>"

definition demo_note :: node where
  "demo_note = Node (node_default\<lparr>n_type := NRoot\<rparr>)
     [Node (node_default\<lparr>n_type := NHeading, n_level := 1\<rparr>) [Node (node_default\<lparr>n_type := NText, n_text := ''Hi''\<rparr>) []],
      Node (node_default\<lparr>n_type := NToc\<rparr>) [],
      Node (node_default\<lparr>n_type := NThematicBreak\<rparr>) []]"

lemma demo_measured: "pm_height (measured demo_env runs w) = from_pango 14336" "pm_width (measured demo_env runs w) = from_pango 40960"
  by (simp_all add: measured_def demo_env_def measure_runs_def demo_pango_def Let_def)

lemma demo_box: "good_box (st_box (default_style light_palette) x)"
  by (cases x) (simp_all add: default_style_def default_box_def good_box_def h_box_def no_box_style_def)

lemma demo_good: "good_env demo_env"
proof -
  have "nonneg (pm_height (measured demo_env runs w))" for runs w
    unfolding demo_measured by (rule from_pango_nonneg) simp
  then show ?thesis using demo_box by (simp add: good_env_def) (simp add: demo_env_def)
qed

lemma demo_headings: "headings demo_note = [\<lparr>h_level = 1, h_text = ''Hi'', h_anchor = ''hi''\<rparr>]"
  by code_simp

lemma demo_layout:
  assumes "le_render_toc env"
  shows "\<exists>st. layout_document env demo_note = Some st \<and> (\<exists>b \<in> set (ls_blocks st). bl_kind b = KTocRow)"
  using assms unfolding layout_document_def demo_headings
  by (simp add: demo_note_def append_heading_def append_toc_def append_toc_row_def emit_hr_block_def emit_children_def
      place_def layout_start_def new_block_def Let_def node_default_def)

section \<open>The flow\<close>

text \<open>C19: In the flow of a document no block begins above the bottom of an earlier one, and none ends below the height
  of the flow; this holds with the rounding of the sums, for style sheets with boxes that are not negative and texts
  and a page that have no negative extents.\<close>

theorem blocks_do_not_overlap:
  assumes "good_env env" "layout_document env doc = Some st"
  shows "sorted_wrt (\<lambda>a b. dbl_le (dbl_add (bl_y a) (bl_height a)) (bl_y b)) (ls_blocks st) \<and>
    (\<forall>b \<in> set (ls_blocks st). dbl_le (dbl_add (bl_y b) (bl_height b)) (ls_y st))"
  using layout_document_flow [OF assms] by (simp add: flow_ok_def bottom_of_def)

lemma blocks_do_not_overlap_witness:
  "\<exists>st. layout_document demo_env demo_note = Some st \<and> ls_blocks st \<noteq> [] \<and>
    sorted_wrt (\<lambda>a b. dbl_le (dbl_add (bl_y a) (bl_height a)) (bl_y b)) (ls_blocks st)"
proof -
  have "le_render_toc demo_env" by (simp add: demo_env_def)
  then obtain st where st: "layout_document demo_env demo_note = Some st" "ls_blocks st \<noteq> []"
    using demo_layout by fastforce
  with blocks_do_not_overlap [OF demo_good st(1)] show ?thesis by blast
qed

text \<open>C17: Every block but the page breaks is on exactly one page, in their order. What is on a page fits on it,
  unless it is a single block that is too high. A page does not end with a heading while its next block is another
  page's, unless that heading is alone on its page or a heading follows; and a page takes all that fits, but for a
  heading whose next block does not fit.\<close>

theorem pages_hold_blocks:
  assumes "\<exists>b \<in> set blocks. \<not> is_break b"
  shows "concat (map slice_indices (paginate_blocks blocks page_h)) = filter (follows blocks) [0..<length blocks] \<and>
    (\<forall>s \<in> set (paginate_blocks blocks page_h). pg_start_y s = bl_y (blocks ! pg_first s) \<and>
       page_ok blocks page_h (pg_start_y s) (pg_first s) (pg_last s))"
  unfolding paginate_pages [OF assms] using pages_from_cover pages_from_ok by blast

lemma pages_hold_blocks_witness:
  "concat (map slice_indices (paginate_blocks [new_block, new_block\<lparr>bl_kind := KPageBreak\<rparr>, new_block] (Fin 100))) = [0, 2]"
proof -
  have "\<exists>b \<in> set [new_block, new_block\<lparr>bl_kind := KPageBreak\<rparr>, new_block]. \<not> is_break b"
    by (simp add: is_break_def new_block_def)
  from pages_hold_blocks [OF this, of "Fin 100"] show ?thesis
    by (simp add: follows_def is_break_def new_block_def upt_rec nth_Cons')
qed

text \<open>C18: The page number in a row of the table of contents is that of the page of the exported document that has the
  heading with the row's anchor, although the numbers come from a layout without them.\<close>

theorem toc_pages_right:
  assumes "pdf_pages env doc = Some (Some (blocks, pages))" "b \<in> set blocks" "bl_kind b = KTocRow"
  shows "bl_toc_page b = anchor_pages blocks pages (bl_toc_anchor b) \<and>
    (\<forall>k. bl_toc_page b = Some k \<longrightarrow> (\<exists>j < length pages. k = int j + 1 \<and>
       (\<exists>i \<in> set (page_indices blocks (pages ! j)). bl_kind (blocks ! i) = KHeading \<and>
          bl_link_href (blocks ! i) = CHR ''#'' # bl_toc_anchor b)))"
  using toc_page_numbers [OF assms] anchor_pages_sound [of blocks pages "bl_toc_anchor b"] page_anchorsD by metis

lemma toc_pages_right_witness:
  "\<exists>blocks pages b. pdf_pages demo_env demo_note = Some (Some (blocks, pages)) \<and> b \<in> set blocks \<and>
    bl_kind b = KTocRow \<and> bl_toc_page b = anchor_pages blocks pages (bl_toc_anchor b)"
proof -
  obtain st b where st: "layout_document (pdf_env demo_env) demo_note = Some st" "b \<in> set (ls_blocks st)" "bl_kind b = KTocRow"
    using demo_layout [of "pdf_env demo_env"] by (auto simp: pdf_env_def)
  obtain blocks pages where p: "pdf_pages demo_env demo_note = Some (Some (blocks, pages))"
    "list_all2 same_geometry (ls_blocks st) blocks"
    using pdf_pages_returns [OF st(1)] st(2) by fastforce
  obtain b' where b': "b' \<in> set blocks" "bl_kind b' = KTocRow"
    using p(2) st(2,3) by (metis in_set_conv_nth list_all2_conv_all_nth same_geometry_def)
  show ?thesis
    using toc_pages_right [OF p(1) b'] p(1) b' by blast
qed

text \<open>C20: In a document whose headings are blocks of their own and have text, the heading blocks carry the levels and
  the anchors of the headings of the document, in order; so the links of the table of contents and of the outline
  lead to them.\<close>

theorem headings_keep_anchors:
  assumes "layout_document env doc = Some st" "flat_headings doc" "list_all titled (kids doc)"
  shows "map (\<lambda>b. (bl_level b, bl_link_href b)) (filter (\<lambda>b. bl_kind b = KHeading) (ls_blocks st)) =
    map (\<lambda>h. (max 1 (h_level h), CHR ''#'' # h_anchor h)) (headings doc)"
  using layout_document_refs [OF assms] by (simp add: heading_refs_def)

lemma headings_keep_anchors_witness:
  "\<exists>st. layout_document demo_env demo_note = Some st \<and>
    map (\<lambda>b. (bl_level b, bl_link_href b)) (filter (\<lambda>b. bl_kind b = KHeading) (ls_blocks st)) = [(1, ''#hi'')]"
proof -
  have "flat_headings demo_note" "list_all titled (kids demo_note)"
    by (simp_all add: flat_headings_def demo_note_def titled_def node_default_def)
  moreover obtain st where "layout_document demo_env demo_note = Some st"
    using demo_layout [of demo_env] by (auto simp: demo_env_def)
  ultimately show ?thesis using headings_keep_anchors [of demo_env demo_note st] by (simp add: demo_headings)
qed

text \<open>C23: No word of a table is wider than the column it is in, without the padding, whatever the shares of the
  columns are rounded to, provided a line is as wide as its widest word and not wider than 2097152.\<close>

theorem columns_hold_words:
  assumes "good_widths env" "c < n" "row \<in> set rows" "c < length row"
  shows "dbl_le (dbl_add (widest_word_width env (fst (row ! c))) (dbl_mul (Fin 2) cpad)) (column_widths env rows n ! c)"
  by (rule column_widths_ge [OF assms])

lemma columns_hold_words_witness:
  "dbl_le (dbl_add (from_pango 40960) (dbl_mul (Fin 2) cpad)) (column_widths demo_env [[([], AlignNone, False)]] 1 ! 0)"
proof -
  have w: "widest_word_width demo_env runs = from_pango 40960" for runs by (simp add: widest_word_width_def demo_measured)
  have "is_double (Fin 512)" using round64_powi [of 9] by (simp add: is_double_def)
  moreover have p: "0 \<le> sint (40960 :: i32)" by simp
  moreover have "from_pango 40960 \<noteq> NaN" using from_pango_nonneg [OF p] by auto
  ultimately have "good_widths demo_env"
    unfolding good_widths_def w demo_measured
    using from_pango_nonneg [OF p] from_pango_le [OF p] is_double_from_pango by (simp add: demo_env_def)
  then show ?thesis using columns_hold_words [of demo_env 0 1 "[([], AlignNone, False)]" "[[([], AlignNone, False)]]"]
    by (simp add: w)
qed

section \<open>Style sheets\<close>

text \<open>A style sheet text of rules is applied rule by rule in its order; a rule changes nothing but the selectors it
  names, the page geometry only when it names the page and the base style only when it names the document. So a
  selector that no rule names keeps the style it had.\<close>

theorem style_rules_local:
  assumes "list_all plain_rule rs"
  shows "apply_style dp p (concat (map rule_text rs)) base = fold (apply_rule dp p) rs base \<and>
    (\<forall>(sels, body) \<in> set rs. \<forall>s. agree (named_selectors sels) (names_page sels) s (apply_rule dp p (sels, body) s)) \<and>
    agree (\<Union>(named_selectors ` fst ` set rs)) (\<exists>r \<in> set rs. names_page (fst r)) base
      (apply_style dp p (concat (map rule_text rs)) base)"
proof -
  have "css_rules '''' = []" by (subst css_rules.simps) (simp add: cut_at_def)
  then have e: "apply_style dp p (concat (map rule_text rs)) base = fold (apply_rule dp p) rs base"
    using css_rules_text [OF assms, of "''''"] by (simp add: apply_style_def)
  have one: "agree (named_selectors (fst r)) (names_page (fst r)) s (apply_rule dp p r s)" for r s
    using apply_rule_agree [of "fst r" s dp p "snd r"] by simp
  have "agree (\<Union>(named_selectors ` fst ` set rs)) (\<exists>r \<in> set rs. names_page (fst r)) base (fold (apply_rule dp p) rs base)"
    by (rule agree_fold, rule agree_mono [OF one]) auto
  with e one show ?thesis by force
qed

lemma style_rules_local_witness:
  "st_text (apply_style CHR ''.'' light_palette ''h1 { color: red } p { margin: 2pt }'' (default_style light_palette)) SelH2 =
    st_text (default_style light_palette) SelH2"
proof -
  let ?rs = "[(''h1 '', '' color: red ''), ('' p '', '' margin: 2pt '')]"
  have "split_on CHR '','' ''h1 '' = [''h1 '']" "split_on CHR '','' '' p '' = ['' p '']"
    "selector_from_name (trim ''h1 '') = Some SelH1" "selector_from_name (trim '' p '') = Some SelParagraph" by code_simp+
  then have h2: "SelH2 \<notin> \<Union>(named_selectors ` fst ` set ?rs)" by (simp add: named_selectors_def)
  have "list_all plain_rule ?rs" by (simp add: plain_rule_def)
  moreover have "concat (map rule_text ?rs) = ''h1 { color: red } p { margin: 2pt }''" by (simp add: rule_text_def)
  moreover note h2
  ultimately show ?thesis
    using style_rules_local [of ?rs "CHR ''.''" light_palette "default_style light_palette"] by (simp add: agree_def)
qed

section \<open>Inline text\<close>

text \<open>The runs of inline content have its text, breaks included, in its order, and append it to the runs before;
  content without inline HTML and code spans leaves the style as it found it.\<close>

theorem runs_hold_text:
  assumes "list_all html_leaves ns" "rb_emits env ns rb = Some rb'"
  shows "runs_text (rb_out rb') = runs_text (rb_out rb) @ concat (map inline_text ns) \<and>
    (list_all plain_inline ns \<longrightarrow> rb_style rb' = rb_style rb)"
proof -
  have "rb_style rb' = rb_style rb" if "list_all plain_inline ns"
    using rb_emits_style_step [OF rb_emit_style that, of env rb] assms(2) by auto
  then show ?thesis using rb_emits_text_step [OF rb_emit_text assms(2,1)] by simp
qed

lemma runs_hold_text_witness:
  "\<exists>rb'. rb_emits (run_env_of demo_env) [Node (node_default\<lparr>n_type := NStrong\<rparr>) [Node (node_default\<lparr>n_type := NText, n_text := ''a''\<rparr>) []],
      Node (node_default\<lparr>n_type := NHardBreak\<rparr>) []] (new_builder ''sans'' (Fin 11) no_color []) = Some rb' \<and>
    runs_text (rb_out rb') = ''a'' @ [newline]"
proof -
  let ?ns = "[Node (node_default\<lparr>n_type := NStrong\<rparr>) [Node (node_default\<lparr>n_type := NText, n_text := ''a''\<rparr>) []],
      Node (node_default\<lparr>n_type := NHardBreak\<rparr>) []]"
  have ns: "list_all html_leaves ?ns" "list_all plain_inline ?ns" "concat (map inline_text ?ns) = ''a'' @ [newline]"
    by (simp_all add: node_default_def)
  obtain rb' where rb': "rb_emits (run_env_of demo_env) ?ns (new_builder ''sans'' (Fin 11) no_color []) = Some rb'"
    using rb_emits_style_step [OF rb_emit_style ns(2)] by blast
  have "runs_text (rb_out (new_builder ''sans'' (Fin 11) no_color [])) = ''''" by (simp add: runs_text_def new_builder_def)
  then have "runs_text (rb_out rb') = ''a'' @ [newline]"
    using runs_hold_text [OF ns(1) rb'] unfolding ns(3) by simp
  with rb' show ?thesis by blast
qed

text \<open>C39: The tag tokenizer returns for every text without an equals sign. It does not return, and neither does the
  layout of a document with such a block, when an equals sign stands where the name of an attribute should
  begin.\<close>

theorem tag_tokenizer_hangs:
  "(CHR ''='' \<notin> set raw \<longrightarrow> parse_html_tag raw \<noteq> None) \<and>
   parse_html_tag ''<div =>'' = None \<and>
   layout_document env (Node (node_default\<lparr>n_type := NRoot\<rparr>) [Node (node_default\<lparr>n_type := NHtmlBlock, n_text := ''<div =>''\<rparr>) []]) = None"
proof -
  have ret: "parse_html_tag raw \<noteq> None" if "CHR ''='' \<notin> set raw"
  proof -
    have "style_loop (take k (dropWhile is_name_char r)) \<noteq> None" if "set r \<subseteq> set raw" for k r
    proof -
      have "set (take k (dropWhile is_name_char r)) \<subseteq> set raw"
        using that by (meson set_dropWhileD set_take_subset subset_iff)
      then show ?thesis unfolding style_loop_search using \<open>CHR ''='' \<notin> set raw\<close> by (intro style_search_plain) blast
    qed
    moreover have "set (drop k raw) \<subseteq> set raw" for k by (rule set_drop_subset)
    ultimately show ?thesis by (auto simp: parse_html_tag_def Let_def split: option.split)
  qed
  have stuck: "style_search '' ='' = None" by (subst style_search.simps) (simp add: html_space_def attr_char_def)
  have "takeWhile is_name_char ''div =>'' = ''div''" "dropWhile is_name_char ''div =>'' = '' =>''"
    "scan_tag_end None False 0 '' =>'' = Some (2, False)" by code_simp+
  then have hang: "parse_html_tag ''<div =>'' = None"
    by (simp add: parse_html_tag_def Let_def style_loop_search stuck)
  have "\<not> is_page_break_marker ''<div =>''" by code_simp
  moreover have "html_trim ''<div =>'' = ''<div =>''" by code_simp
  ultimately show ?thesis using ret hang by (simp add: layout_document_def append_html_def node_default_def)
qed

lemma tag_tokenizer_hangs_witness: "parse_html_tag ''<b>'' \<noteq> None"
  using tag_tokenizer_hangs [of "''<b>''" demo_env] by simp

section \<open>Pasted images\<close>

text \<open>A pasted image is stored under a name that no file of the asset directory has, as long as their numbers
  leave one of three digits; the other files stay as they are. A directory with number 999 gets the same file
  again and again: the number 1000 is not seen by the next search.\<close>

theorem pasted_image_fresh:
  assumes "png \<noteq> ''''" "length png \<le> 32 * 1024 * 1024" "md_asset_dir d \<noteq> ''''"
    "next_number (map fst es) < 1000"
  shows "(\<exists>name. save_pasted_image no_faults d png es = (Some name, es @ [(name, png)]) \<and> name \<notin> fst ` set es) \<and>
    save_pasted_image no_faults d png [(''asset-999.png'', a), (''asset-1000.png'', b)] =
      (Some ''asset-1000.png'', [(''asset-999.png'', a), (''asset-1000.png'', png)])"
proof -
  have "next_number [''asset-999.png'', ''asset-1000.png''] = 1000" by code_simp
  moreover have "asset_name 1000 = ''asset-1000.png''" by code_simp
  moreover have "asset_name (next_number (map fst es)) \<notin> fst ` set es" using asset_name_fresh [OF assms(4)] by simp
  ultimately show ?thesis using assms(1-3) by (simp add: save_pasted_image_def no_faults_def put_file_def Let_def)
qed

lemma pasted_image_fresh_witness:
  "save_pasted_image no_faults \<lparr>md_source = '''', md_ast = None, md_note_dir = '''', md_asset_dir = ''/a'',
     md_css_path = '''', md_print_config = default_print_config\<rparr> ''x'' [(''asset-007.png'', ''y'')] =
    (Some ''asset-008.png'', [(''asset-007.png'', ''y''), (''asset-008.png'', ''x'')])"
proof -
  let ?d = "\<lparr>md_source = '''', md_ast = None, md_note_dir = '''', md_asset_dir = ''/a'', md_css_path = '''',
     md_print_config = default_print_config\<rparr>"
  have n: "next_number (map fst [(''asset-007.png'', ''y'')]) = 8" by code_simp
  have "asset_name 8 = ''asset-008.png''" by code_simp
  with n pasted_image_fresh [of "''x''" ?d "[(''asset-007.png'', ''y'')]"] show ?thesis
    by (auto simp: save_pasted_image_def no_faults_def Let_def)
qed

end
