(* ===== verification/Entry_Point.thy ===== *)
theory Entry_Point
  imports Request_Dispatcher Workspace_Session
begin

text \<open>
  \<^verbatim>\<open>app/main.cpp\<close>: the program's command line.  A run ends with an exit code, what was printed on
  the two streams, the directories it asked for and the store it leaves; an exception nobody
  catches and undefined behaviour are outcomes of their own.  The environment variables, the
  outcome of opening the database, and the GUI's exit code (absent in a build without it) are
  arguments.
\<close>

section \<open>Start\<close>

definition cli_data_dir :: "string option \<Rightarrow> string option \<Rightarrow> string" where
  "cli_data_dir xdg home =
     (let base = (case xdg of
                    Some (c # cs) \<Rightarrow> c # cs
                  | _ \<Rightarrow> (case home of Some h \<Rightarrow> h @ ''/.local/share'' | None \<Rightarrow> ''/tmp''))
      in base @ ''/remin'')"

text \<open>\<^verbatim>\<open>for (it = path.begin(); ...) { cur += *it; if (*it == '/' || it + 1 == end) mkdir(cur) }\<close>\<close>

fun cli_mkdir_calls :: "string \<Rightarrow> string \<Rightarrow> string list" where
  "cli_mkdir_calls cur [] = []"
| "cli_mkdir_calls cur (c # rest) =
     (if c = CHR ''/'' \<or> rest = [] then (cur @ [c]) # cli_mkdir_calls (cur @ [c]) rest
      else cli_mkdir_calls (cur @ [c]) rest)"

definition cli_mkdir_p :: "string \<Rightarrow> string list" where
  "cli_mkdir_p path = cli_mkdir_calls '''' path"

definition kUsage :: string where
  "kUsage = concat (map (\<lambda>l. l @ [newline]) [
     ''Remin '' @ [CHR 0xE2, CHR 0x80, CHR 0x94] @ '' Remember your work.'',
     '''',
     ''Usage: remin <command> [args...]'',
     '''',
     ''Commands:'',
     ''  gui                            Launch the GUI workspace app'',
     ''  workspace list                 Show the open workspace'',
     ''  workspace create <name>        Create and open a workspace'',
     ''  workspace open <id>            Open a workspace'',
     ''  workspace close                Close the current workspace'',
     ''  window add [title]             Add a window'',
     ''  window rename <id> <name>      Rename a window'',
     ''  snapshot create                Create a snapshot of the current workspace'',
     ''  help                           Show this help''])"

section \<open>Requests\<close>

text \<open>The default of \<open>params\<close> is \<^verbatim>\<open>{}\<close>, which is null.\<close>

definition make_request :: "string \<Rightarrow> json \<Rightarrow> json" where
  "make_request meth params = JObject [(''method'', JString meth), (''params'', params)]"

text \<open>The chain of tests on the words of the command; \<^const>\<open>None\<close> is an unknown command.\<close>

definition cli_request :: "string list \<Rightarrow> json option" where
  "cli_request args =
     (let cmd = args ! 0; n = length args
      in if cmd = ''workspace'' \<and> 2 \<le> n \<and> args ! 1 = ''list'' then Some (make_request ''workspace.list'' JNull)
         else if cmd = ''workspace'' \<and> 3 \<le> n \<and> args ! 1 = ''create'' then
           Some (make_request ''workspace.create'' (JObject [(''name'', JString (args ! 2))]))
         else if cmd = ''workspace'' \<and> 3 \<le> n \<and> args ! 1 = ''open'' then
           Some (make_request ''workspace.open'' (JObject [(''workspace_id'', JString (args ! 2))]))
         else if cmd = ''workspace'' \<and> 2 \<le> n \<and> args ! 1 = ''close'' then
           Some (make_request ''workspace.close'' JNull)
         else if cmd = ''window'' \<and> 3 \<le> n \<and> args ! 1 = ''add'' then
           Some (make_request ''window.add'' (JObject [(''title'', JString (args ! 2))]))
         else if cmd = ''window'' \<and> 4 \<le> n \<and> args ! 1 = ''rename'' then
           Some (make_request ''window.rename''
             (JObject [(''name'', JString (args ! 3)), (''window_id'', JString (args ! 2)),
                       (''workspace_id'', JString '''')]))
         else if cmd = ''window'' \<and> 2 \<le> n \<and> args ! 1 = ''add'' then
           Some (make_request ''window.add'' (JObject [(''title'', JString ''window'')]))
         else if cmd = ''snapshot'' \<and> 2 \<le> n \<and> args ! 1 = ''create'' then
           Some (make_request ''snapshot.create'' JNull)
         else None)"

section \<open>Runs\<close>

datatype cli_end = Exited int string string | Uncaught_Exception | Undefined_Behaviour

record cli_env =
  ce_xdg_data_home :: "string option"
  ce_home :: "string option"
  ce_db_error :: "string option"
  ce_gui :: "int option"
  ce_request :: request_env

text \<open>
  \<^verbatim>\<open>ensure_core\<close>: the directories it makes, and the message with which it exits when the database
  does not open.  The engine it builds has no open workspace.
\<close>

definition ensure_core :: "cli_env \<Rightarrow> string list \<times> cli_end option" where
  "ensure_core env =
     (cli_mkdir_p (cli_data_dir (ce_xdg_data_home env) (ce_home env)),
      map_option (\<lambda>e. Exited 1 '''' (''remin: storage error: '' @ e @ [newline])) (ce_db_error env))"

definition run_gui :: "cli_env \<Rightarrow> string list \<times> cli_end" where
  "run_gui env =
     (case ce_gui env of
        None \<Rightarrow> ([], Exited 1 '''' (''remin: built without GUI support'' @ [newline]))
      | Some code \<Rightarrow>
          (case ensure_core env of
             (dirs, Some e) \<Rightarrow> (dirs, e)
           | (dirs, None) \<Rightarrow> (dirs, Exited code '''' '''')))"

text \<open>\<^verbatim>\<open>std::cout << dispatcher.handle(req.dump()) << "\n"; return 0;\<close>\<close>

definition send_request :: "'s storage \<Rightarrow> (json \<Rightarrow> string option) \<Rightarrow> (string \<Rightarrow> json option) \<Rightarrow> request_env \<Rightarrow>
    json \<Rightarrow> 's \<Rightarrow> cli_end \<times> 's" where
  "send_request S dump parse env req s =
     (case dump req of
        None \<Rightarrow> (Uncaught_Exception, s)
      | Some text \<Rightarrow>
          (case handle S dump parse env text (initial_core, s) of
             (None, _, s) \<Rightarrow> (Undefined_Behaviour, s)
           | (Some None, _, s) \<Rightarrow> (Uncaught_Exception, s)
           | (Some (Some out), _, s) \<Rightarrow> (Exited 0 (out @ [newline]) '''', s)))"

definition run_command :: "'s storage \<Rightarrow> (json \<Rightarrow> string option) \<Rightarrow> (string \<Rightarrow> json option) \<Rightarrow> cli_env \<Rightarrow>
    string list \<Rightarrow> 's \<Rightarrow> cli_end \<times> string list \<times> 's" where
  "run_command S dump parse env args s =
     (if args = [] \<or> args ! 0 = ''help'' then (Exited 0 kUsage '''', [], s)
      else if args ! 0 = ''gui'' then (let (dirs, e) = run_gui env in (e, dirs, s))
      else
        case ensure_core env of
          (dirs, Some e) \<Rightarrow> (e, dirs, s)
        | (dirs, None) \<Rightarrow>
            (case cli_request args of
               None \<Rightarrow> (Exited 1 kUsage (''remin: unknown command '' @ [CHR 0x27] @ args ! 0 @ [CHR 0x27, newline]),
                        dirs, s)
             | Some req \<Rightarrow>
                 (let (e, s) = send_request S dump parse (ce_request env) req s in (e, dirs, s))))"

section \<open>Lemmas\<close>

lemma cli_mkdir_calls_same: "cli_mkdir_calls cur path = mkdir_calls cur path"
  by (induction path arbitrary: cur) (simp_all add: Let_def)

text \<open>The command line and the GUI session use the same directory and make it the same way.\<close>

lemma cli_data_dir_same: "cli_data_dir = data_dir" "cli_mkdir_p = mkdir_p"
  by (simp_all add: fun_eq_iff cli_data_dir_def data_dir_def cli_mkdir_p_def mkdir_p_def cli_mkdir_calls_same Let_def
      split: option.splits list.splits)

definition cli_methods :: "string list" where
  "cli_methods = [''workspace.list'', ''workspace.create'', ''workspace.open'', ''workspace.close'',
     ''window.add'', ''window.rename'', ''snapshot.create'']"

lemma cli_request_cases:
  assumes "cli_request args = Some req"
  obtains "req = make_request ''workspace.list'' JNull"
  | name where "req = make_request ''workspace.create'' (JObject [(''name'', JString name)])"
  | i where "req = make_request ''workspace.open'' (JObject [(''workspace_id'', JString i)])"
  | "req = make_request ''workspace.close'' JNull"
  | title where "req = make_request ''window.add'' (JObject [(''title'', JString title)])"
  | i name where "req = make_request ''window.rename''
      (JObject [(''name'', JString name), (''window_id'', JString i), (''workspace_id'', JString '''')])"
  | "req = make_request ''snapshot.create'' JNull"
  using assms unfolding cli_request_def Let_def by (simp split: if_splits) blast+

lemma make_request_reads:
  "jvalue get_string (make_request m p) ''method'' d = Some m"
  "jvalue Some (make_request m p) ''params'' d' = Some p"
  by (simp_all add: make_request_def jvalue_def)

lemma cli_request_typed:
  assumes "cli_request args = Some req"
  shows "complete_request req \<and> as_text req = req \<and>
    (\<exists>m \<in> set cli_methods. jvalue get_string req ''method'' '''' = Some m)"
  using assms
  by (cases rule: cli_request_cases)
    (simp_all add: complete_request_def make_request_reads,
      simp_all add: index_string_def indexed_members_def defaulted_members_def cli_methods_def jvalue_def make_request_def)

text \<open>What a request sent by the command line comes back as, when the JSON library prints and parses it faithfully.\<close>

definition faithful_codec :: "(json \<Rightarrow> string option) \<Rightarrow> (string \<Rightarrow> json option) \<Rightarrow> bool" where
  "faithful_codec dump parse \<longleftrightarrow> (\<forall>j t. dump j = Some t \<longrightarrow> parse t = Some (as_text j))"

lemma handle_cli:
  assumes "faithful_codec dump parse" "cli_request args = Some req" "dump req = Some text"
  shows "handle S dump parse env text cs =
     (case dispatch S dump env req cs of
        (Undefined, cs') \<Rightarrow> (None, cs')
      | (Exception what, cs') \<Rightarrow> (Some (dump (error_response what)), cs')
      | (Response r, cs') \<Rightarrow>
          (Some (case dump r of Some text \<Rightarrow> Some text | None \<Rightarrow> dump (error_response (re_json_what env))), cs'))"
  using assms cli_request_typed [OF assms(2)] by (simp add: handle_def faithful_codec_def)

lemma dispatch_cli:
  "dispatch S dump env (make_request ''workspace.list'' p) (c, s) = (do_list c, c, s)"
  "dispatch S dump env (make_request ''workspace.create'' p) (c, s) = do_create S env p (c, s)"
  "dispatch S dump env (make_request ''workspace.open'' p) (c, s) = do_open S env p (c, s)"
  "dispatch S dump env (make_request ''workspace.close'' p) (c, s) =
     (respond (fst (close_workspace c)) [], snd (close_workspace c), s)"
  "dispatch S dump env (make_request ''window.add'' p) (c, s) =
     (fst (do_add_window env p c), snd (do_add_window env p c), s)"
  "dispatch S dump env (make_request ''window.rename'' p) (c, s) =
     (fst (do_rename_window env p c), snd (do_rename_window env p c), s)"
  "dispatch S dump env (make_request ''snapshot.create'' p) (c, s) = do_snapshot S dump env (c, s)"
  by (simp_all add: dispatch_def make_request_reads split_beta Let_def)

text \<open>Commands that edit a workspace; none is ever open in the engine of a run.\<close>

definition edit_request :: "json \<Rightarrow> bool" where
  "edit_request req \<longleftrightarrow> jvalue get_string req ''method'' '''' \<in>
     Some ` {''workspace.close'', ''window.add'', ''window.rename'', ''snapshot.create''}"

lemma dispatch_edit:
  assumes "cli_request args = Some req" "edit_request req"
  shows "\<exists>r. dispatch S dump env req (initial_core, s) = (r, initial_core, s) \<and>
    (r = Exception ''no open workspace'' \<or> r = Response (JObject [(''ok'', JBool False)]))"
  using assms(1)
proof (cases rule: cli_request_cases)
  case (5 title)
  then show ?thesis
    by (simp add: dispatch_cli do_add_window_def jvalue_def add_window_def initial_core_def core_what_def)
next
  case (6 i name)
  then show ?thesis
    by (simp add: dispatch_cli do_rename_window_def two_strings_def index_string_def rename_window_def
        initial_core_def respond_def)
qed (use assms(2) in \<open>auto simp: edit_request_def make_request_reads dispatch_cli close_workspace_def initial_core_def
  respond_def do_snapshot_def create_snapshot_def core_what_def\<close>)

lemma dispatch_keeps_store:
  assumes "cli_request args = Some req" "jvalue get_string req ''method'' '''' \<noteq> Some ''workspace.create''"
  shows "snd (snd (dispatch S dump env req (initial_core, s))) = s"
  using assms(1)
proof (cases rule: cli_request_cases)
  case (3 i)
  then show ?thesis
    by (simp add: dispatch_cli do_open_def split_beta Let_def split: read.splits)
qed (use assms(2) in \<open>simp_all add: make_request_reads dispatch_cli do_snapshot_def create_snapshot_def
  initial_core_def\<close>)

lemma send_request_cli:
  assumes "faithful_codec dump parse" "cli_request args = Some req"
  shows "send_request S dump parse e req s =
      (case dump req of
         None \<Rightarrow> (Uncaught_Exception, s)
       | Some text \<Rightarrow>
           (case dispatch S dump e req (initial_core, s) of
              (Undefined, cs) \<Rightarrow> (Undefined_Behaviour, snd cs)
            | (Exception what, cs) \<Rightarrow>
                ((case dump (error_response what) of
                   None \<Rightarrow> Uncaught_Exception | Some out \<Rightarrow> Exited 0 (out @ [newline]) ''''), snd cs)
            | (Response r, cs) \<Rightarrow>
                ((case (case dump r of Some t \<Rightarrow> Some t | None \<Rightarrow> dump (error_response (re_json_what e))) of
                   None \<Rightarrow> Uncaught_Exception | Some out \<Rightarrow> Exited 0 (out @ [newline]) ''''), snd cs)))"
proof (cases "dump req")
  case (Some out)
  then show ?thesis
    by (simp add: send_request_def handle_cli [OF assms Some] split: prod.split reply.split option.split)
qed (simp add: send_request_def)

end
