(* ===== verification/Event_Loop.thy ===== *)
theory Event_Loop
  imports Prelude
begin

text \<open>
  \<^verbatim>\<open>terminal/pty/event_loop.cpp\<close>, \<^verbatim>\<open>terminal/pty/pty_linux.cpp\<close> and \<^verbatim>\<open>terminal/shell/shell.cpp\<close>: the
  loop over file descriptors, the calls a new terminal makes, and the choice of the shell.  A
  callback is a number; what it does to the loop and to the rest of the program is a parameter.  So
  are the answers of \<^verbatim>\<open>poll\<close>, and running the loop is a partial function: a loop that goes on
  for ever has no result.
\<close>

section \<open>The descriptors\<close>

record io_entry =
  ie_fd :: int
  ie_events :: int
  ie_cb :: "nat option"

record event_loop =
  el_entries :: "io_entry list"
  el_running :: bool

definition new_event_loop :: event_loop where
  "new_event_loop = \<lparr>el_entries = [], el_running = False\<rparr>"

definition remove_fd :: "int \<Rightarrow> event_loop \<Rightarrow> event_loop" where
  "remove_fd fd l = l\<lparr>el_entries := filter (\<lambda>e. ie_fd e \<noteq> fd) (el_entries l)\<rparr>"

definition add_fd :: "int \<Rightarrow> int \<Rightarrow> nat option \<Rightarrow> event_loop \<Rightarrow> event_loop" where
  "add_fd fd events cb l =
     (let l = remove_fd fd l
      in l\<lparr>el_entries := el_entries l @ [\<lparr>ie_fd = fd, ie_events = events, ie_cb = cb\<rparr>]\<rparr>)"

definition modify_fd :: "int \<Rightarrow> int \<Rightarrow> event_loop \<Rightarrow> event_loop" where
  "modify_fd fd events l =
     l\<lparr>el_entries := upd_first (\<lambda>e. ie_fd e = fd) (\<lambda>e. e\<lparr>ie_events := events\<rparr>) (el_entries l)\<rparr>"

definition stop_loop :: "event_loop \<Rightarrow> event_loop" where
  "stop_loop l = l\<lparr>el_running := False\<rparr>"

section \<open>Running\<close>

type_synonym 'w callbacks = "nat \<Rightarrow> int \<Rightarrow> int \<Rightarrow> event_loop \<times> 'w \<Rightarrow> event_loop \<times> 'w"

text \<open>
  \<^verbatim>\<open>for (i = 0; i < pfds.size() && running_; ++i)\<close>: the descriptor is that of the poll, the callback
  the one at the same place of the list as it is by then.
\<close>

fun dispatch_fds :: "'w callbacks \<Rightarrow> nat \<Rightarrow> (int \<times> int) list \<Rightarrow> event_loop \<times> 'w \<Rightarrow> event_loop \<times> 'w" where
  "dispatch_fds call i [] s = s"
| "dispatch_fds call i ((fd, revents) # pfds) s =
     (if \<not> el_running (fst s) then s
      else if revents = 0 then dispatch_fds call (i + 1) pfds s
      else if i < length (el_entries (fst s))
      then dispatch_fds call (i + 1) pfds
             (case ie_cb (el_entries (fst s) ! i) of Some cb \<Rightarrow> call cb fd revents s | None \<Rightarrow> s)
      else dispatch_fds call (i + 1) pfds s)"

definition poll_set :: "event_loop \<Rightarrow> (int \<times> int) list" where
  "poll_set l = map (\<lambda>e. (ie_fd e, ie_events e)) (el_entries l)"

text \<open>\<open>poll\<close> gives the return code, the \<^verbatim>\<open>revents\<close> and the rest of the program after the wait.\<close>

type_synonym 'w poll = "(int \<times> int) list \<Rightarrow> 'w \<Rightarrow> int \<times> int list \<times> 'w"

partial_function (option) run_loop :: "'w callbacks \<Rightarrow> 'w poll \<Rightarrow> event_loop \<times> 'w \<Rightarrow> (event_loop \<times> 'w) option" where
  "run_loop call poll s =
     (if el_running (fst s) \<and> el_entries (fst s) \<noteq> []
      then case poll (poll_set (fst s)) (snd s) of
             (rc, revents, w) \<Rightarrow>
               if rc < 0 then Some ((fst s)\<lparr>el_running := False\<rparr>, w)
               else if rc = 0 then run_loop call poll (fst s, w)
               else run_loop call poll
                      (dispatch_fds call 0 (zip (map fst (poll_set (fst s))) revents) (fst s, w))
      else Some s)"

definition run_event_loop :: "'w callbacks \<Rightarrow> 'w poll \<Rightarrow> event_loop \<times> 'w \<Rightarrow> (event_loop \<times> 'w) option" where
  "run_event_loop call poll s = run_loop call poll ((fst s)\<lparr>el_running := True\<rparr>, snd s)"

section \<open>A new terminal\<close>

text \<open>
  \<^verbatim>\<open>PtyProviderLinux::spawn\<close>: the window size as 16-bit numbers, the calls of the child up to
  \<^verbatim>\<open>execvpe\<close>, whose environment is the array \<^verbatim>\<open>envp\<close> and not the one \<^verbatim>\<open>setenv\<close> changes, and
  the session of the parent.  \<open>forked\<close> is the answer of \<^verbatim>\<open>forkpty\<close>.
\<close>

datatype child_call = Chdir string | Setenv string string | Execvpe string "string list" "string list" | Exit_Child int

definition winsize :: "int \<Rightarrow> int \<Rightarrow> 16 word \<times> 16 word" where
  "winsize cols rows = (word_of_int cols, word_of_int rows)"

definition env_override :: "string \<Rightarrow> child_call list" where
  "env_override kv =
     (if CHR ''='' \<in> set kv
      then [Setenv (cstr (takeWhile (\<lambda>c. c \<noteq> CHR ''='') kv)) (cstr (tl (dropWhile (\<lambda>c. c \<noteq> CHR ''='') kv)))]
      else [])"

definition child_calls :: "string \<Rightarrow> string \<Rightarrow> string list \<Rightarrow> child_call list" where
  "child_calls shell cwd env =
     (let sh = (if shell = '''' then ''/bin/sh'' else cstr shell)
      in (if cwd \<noteq> '''' then [Chdir (cstr cwd)] else [])
         @ [Setenv ''TERM'' ''xterm-256color'']
         @ concat (map env_override env)
         @ [Execvpe sh [sh] [], Exit_Child 127])"

record pty_session =
  py_master_fd :: int
  py_child_pid :: int
  py_slave_name :: string

definition spawn_pty :: "(int \<times> int) option \<Rightarrow> (int \<Rightarrow> string option) \<Rightarrow> pty_session option" where
  "spawn_pty forked ptsname =
     map_option (\<lambda>(master, pid). \<lparr>py_master_fd = master, py_child_pid = pid,
       py_slave_name = (case ptsname master of Some n \<Rightarrow> n | None \<Rightarrow> '''')\<rparr>) forked"

text \<open>\<open>SHELL\<close> and the shell of the user's passwd entry are arguments.\<close>

definition detect_default_shell :: "string option \<Rightarrow> string option \<Rightarrow> string" where
  "detect_default_shell sh pw =
     (case sh of
        Some (c # cs) \<Rightarrow> c # cs
      | _ \<Rightarrow> (case pw of Some (c # cs) \<Rightarrow> c # cs | _ \<Rightarrow> ''/bin/sh''))"

section \<open>Lemmas\<close>

definition wf_loop :: "event_loop \<Rightarrow> bool" where
  "wf_loop l \<longleftrightarrow> distinct (map ie_fd (el_entries l))"

lemma wf_loop_ops:
  "wf_loop new_event_loop"
  "wf_loop l \<Longrightarrow> wf_loop (remove_fd fd l)"
  "wf_loop l \<Longrightarrow> wf_loop (add_fd fd ev cb l)"
  "wf_loop l \<Longrightarrow> wf_loop (modify_fd fd ev l)"
  by (auto simp: wf_loop_def new_event_loop_def remove_fd_def add_fd_def modify_fd_def Let_def map_upd_first
      intro: distinct_map_filter)

text \<open>The calls of a round when no callback touches the list: each ready descriptor with its own callback.\<close>

fun call_ready :: "'w callbacks \<Rightarrow> (io_entry \<times> int) list \<Rightarrow> event_loop \<times> 'w \<Rightarrow> event_loop \<times> 'w" where
  "call_ready call [] s = s"
| "call_ready call ((e, revents) # es) s =
     call_ready call es
       (if revents \<noteq> 0 then (case ie_cb e of Some cb \<Rightarrow> call cb (ie_fd e) revents s | None \<Rightarrow> s) else s)"

definition keeps_entries :: "'w callbacks \<Rightarrow> bool" where
  "keeps_entries call \<longleftrightarrow> (\<forall>cb fd rev s. el_entries (fst (call cb fd rev s)) = el_entries (fst s) \<and>
     el_running (fst (call cb fd rev s)) = el_running (fst s))"

lemma dispatch_call_ready:
  assumes "keeps_entries call" "el_running (fst s)" "drop i (el_entries (fst s)) = es" "length revs = length es"
  shows "dispatch_fds call i (zip (map ie_fd es) revs) s = call_ready call (zip es revs) s"
  using assms(2-4)
proof (induction es arbitrary: i revs s)
  case (Cons e es)
  obtain r rs where revs: "revs = r # rs" "length rs = length es" using Cons.prems(3) by (cases revs) auto
  have i: "i < length (el_entries (fst s))" "el_entries (fst s) ! i = e" "drop (Suc i) (el_entries (fst s)) = es"
    using Cons.prems(2) by (metis drop_all list.distinct(1) not_le, metis nth_via_drop, simp add: drop_Suc tl_drop [symmetric])
  define s' where "s' = (if r \<noteq> 0 then (case ie_cb e of Some cb \<Rightarrow> call cb (ie_fd e) r s | None \<Rightarrow> s) else s)"
  have keep: "el_entries (fst s') = el_entries (fst s)" "el_running (fst s')"
    using assms(1) Cons.prems(1) by (cases s; auto simp: s'_def keeps_entries_def split: option.splits)+
  have "dispatch_fds call (Suc i) (zip (map ie_fd es) rs) s' = call_ready call (zip es rs) s'"
    by (rule Cons.IH) (use keep i revs in simp_all)
  then show ?case
    using Cons.prems(1) i revs by (cases "r = 0"; cases "ie_cb e") (simp_all add: s'_def)
qed simp

text \<open>A callback that takes its own descriptor out of the loop, in a program that logs the calls.\<close>

definition logging :: "(nat \<Rightarrow> bool) \<Rightarrow> (nat \<times> int) list callbacks" where
  "logging removes cb fd revents s =
     ((if removes cb then remove_fd fd (fst s) else fst s), snd s @ [(cb, fd)])"

lemma dispatch_after_removal:
  assumes "map ie_fd (el_entries l) = [x, y, z]" "distinct [x, y, z]" "map ie_cb (el_entries l) = [Some a, Some b, Some c]"
    and "el_running l" "removes a" "\<not> removes c" "r1 \<noteq> 0" "r2 \<noteq> 0"
  shows "snd (dispatch_fds (logging removes) 0 (zip (map ie_fd (el_entries l)) [r1, r2, r3]) (l, [])) = [(a, x), (c, y)]"
proof -
  obtain e f g where l: "el_entries l = [e, f, g]"
    using assms(1) by (cases "el_entries l" rule: list.exhaust; auto simp: Cons_eq_map_conv map_eq_Cons_conv)
  then show ?thesis
    using assms by (simp add: logging_def remove_fd_def)
qed

end
