(* ===== verification/Ipc_Socket.thy ===== *)
theory Ipc_Socket
  imports Prelude
begin

text \<open>
  \<^verbatim>\<open>ipc/server/ipc_server.cpp\<close> and \<^verbatim>\<open>ipc/client/ipc_client.cpp\<close>: the server's socket in the file
  system, and a request of the client over a connection.  The sockets bound in the file system and
  the descriptors that listen are the state of the system; the results of \<^verbatim>\<open>write\<close> and \<^verbatim>\<open>read\<close> on
  a connection are arguments.
\<close>

section \<open>The system's sockets\<close>

text \<open>\<open>bound\<close> maps a path to the descriptor whose socket is bound there; a path stays when its socket is closed.\<close>

record sockets =
  bound :: "string \<rightharpoonup> int"
  listening :: "int set"
  next_sock :: int

definition sock_unlink :: "string \<Rightarrow> sockets \<Rightarrow> sockets" where
  "sock_unlink p os = os\<lparr>bound := (bound os)(cstr p := None)\<rparr>"

definition sock_close :: "int \<Rightarrow> sockets \<Rightarrow> sockets" where
  "sock_close fd os = os\<lparr>listening := listening os - {fd}\<rparr>"

text \<open>\<^verbatim>\<open>strncpy(addr.sun_path, path.c_str(), sizeof(addr.sun_path) - 1)\<close>, with 108 bytes.\<close>

definition sun_path :: "string \<Rightarrow> string" where
  "sun_path p = take 107 (cstr p)"

section \<open>The server\<close>

definition default_socket_path :: "string option \<Rightarrow> string" where
  "default_socket_path runtime = (case runtime of Some (c # cs) \<Rightarrow> c # cs | _ \<Rightarrow> ''/tmp'') @ ''/remin.sock''"

record ipc_server =
  is_path :: string
  is_listen_fd :: int

definition new_ipc_server :: "string \<Rightarrow> ipc_server" where
  "new_ipc_server p = \<lparr>is_path = p, is_listen_fd = - 1\<rparr>"

text \<open>The flags tell which call the system refuses; \<^verbatim>\<open>bind\<close> also fails on a path in use.\<close>

record socket_faults =
  sf_socket :: bool
  sf_bind :: bool
  sf_listen :: bool

definition server_start :: "socket_faults \<Rightarrow> ipc_server \<times> sockets \<Rightarrow> bool \<times> ipc_server \<times> sockets" where
  "server_start f = (\<lambda>(v, os).
     let os = sock_unlink (is_path v) os
     in if sf_socket f then (False, v\<lparr>is_listen_fd := - 1\<rparr>, os)
        else
          let fd = next_sock os; os = os\<lparr>next_sock := fd + 1\<rparr>
          in if sf_bind f \<or> bound os (sun_path (is_path v)) \<noteq> None
             then (False, v\<lparr>is_listen_fd := - 1\<rparr>, sock_close fd os)
             else
               let os = os\<lparr>bound := (bound os)(sun_path (is_path v) \<mapsto> fd)\<rparr>
               in if sf_listen f then (False, v\<lparr>is_listen_fd := - 1\<rparr>, sock_close fd os)
                  else (True, v\<lparr>is_listen_fd := fd\<rparr>, os\<lparr>listening := insert fd (listening os)\<rparr>))"

definition server_stop :: "ipc_server \<times> sockets \<Rightarrow> ipc_server \<times> sockets" where
  "server_stop = (\<lambda>(v, os).
     let (v, os) = (if 0 \<le> is_listen_fd v then (v\<lparr>is_listen_fd := - 1\<rparr>, sock_close (is_listen_fd v) os) else (v, os))
     in (v, sock_unlink (is_path v) os))"

section \<open>The client\<close>

text \<open>Who answers a \<^verbatim>\<open>connect\<close> to a path.\<close>

definition connects_to :: "sockets \<Rightarrow> string \<Rightarrow> int option" where
  "connects_to os p =
     (case bound os (sun_path p) of
        Some fd \<Rightarrow> if fd \<in> listening os then Some fd else None
      | None \<Rightarrow> None)"

definition server_running :: "sockets \<Rightarrow> string \<Rightarrow> bool" where
  "server_running os p \<longleftrightarrow> connects_to os p \<noteq> None"

text \<open>\<open>wr k n\<close> is what the \<open>k\<close>-th \<^verbatim>\<open>write\<close> of \<open>n\<close> bytes returns.\<close>

function write_loop :: "(nat \<Rightarrow> nat \<Rightarrow> int) \<Rightarrow> nat \<Rightarrow> nat \<Rightarrow> bool" where
  "write_loop wr k remain =
     (if remain = 0 then True
      else if wr k remain \<le> 0 then False
      else write_loop wr (k + 1) (remain - nat (wr k remain)))"
  by pat_completeness auto
termination
  by (relation "measure (\<lambda>(wr, k, remain). remain)") auto

declare write_loop.simps [simp del]

text \<open>The chunks the reads return, up to an empty one or an error.\<close>

fun read_loop :: "string \<Rightarrow> string list \<Rightarrow> string" where
  "read_loop response [] = response"
| "read_loop response (c # cs) =
     (if c = '''' then response
      else if newline \<in> set (response @ c) then response @ c
      else read_loop (response @ c) cs)"

definition client_request :: "(nat \<Rightarrow> nat \<Rightarrow> int) \<Rightarrow> string list \<Rightarrow> bool \<Rightarrow> string \<Rightarrow> string option" where
  "client_request wr chunks conn request_json =
     (if \<not> conn then None
      else if \<not> write_loop wr 0 (length (request_json @ [newline])) then None
      else
        let response = read_loop '''' chunks
        in if response = '''' then None else Some (filter (\<lambda>c. c \<noteq> newline) response))"

section \<open>Lemmas\<close>

lemma read_loop_line:
  assumes "concat chunks = rest @ [newline]" "'''' \<notin> set chunks" "newline \<notin> set (response @ rest)"
  shows "read_loop response chunks = response @ rest @ [newline]"
  using assms
proof (induction chunks arbitrary: response rest)
  case (Cons c cs)
  show ?case
  proof (cases "newline \<in> set c")
    case True
    have "cs = []"
    proof (rule ccontr)
      assume "cs \<noteq> []"
      with Cons.prems(2) have "concat cs \<noteq> []" by (cases cs) auto
      then obtain ys where "concat cs = ys @ [newline]" "c @ ys = rest"
        using Cons.prems(1) by (cases "concat cs" rule: rev_cases) auto
      with True Cons.prems(3) show False by auto
    qed
    with Cons.prems True show ?thesis by auto
  next
    case False
    have "concat cs \<noteq> []"
      using Cons.prems(1) False by (cases "concat cs") auto
    then obtain ys where ys: "concat cs = ys @ [newline]" "c @ ys = rest"
      using Cons.prems(1) by (cases "concat cs" rule: rev_cases) auto
    have "read_loop (response @ c) cs = (response @ c) @ ys @ [newline]"
      by (rule Cons.IH) (use Cons.prems ys in auto)
    then show ?thesis using Cons.prems False ys by auto
  qed
qed simp

lemma write_loop_progress:
  assumes "\<And>k n. 0 < n \<Longrightarrow> 0 < wr k n"
  shows "write_loop wr k n"
  using assms
proof (induction wr k n rule: write_loop.induct)
  case (1 wr k n)
  show ?case
  proof (cases "n = 0")
    case False
    with 1(2) have "\<not> wr k n \<le> 0" by (simp add: not_le)
    with 1 False show ?thesis by (subst write_loop.simps) simp
  qed (simp add: write_loop.simps)
qed

text \<open>A path short enough for the address, without a NUL.\<close>

definition address :: "string \<Rightarrow> bool" where
  "address p \<longleftrightarrow> CHR 0x00 \<notin> set p \<and> length p \<le> 107"

lemma address_cstr [simp]: "address p \<Longrightarrow> cstr p = p"
  by (auto simp: address_def cstr_def takeWhile_eq_all_conv)

lemma address_sun [simp]: "address p \<Longrightarrow> sun_path p = p"
  by (simp add: sun_path_def address_def [of p])

lemma server_start_ok:
  assumes "address (is_path v)" "\<not> sf_socket f" "\<not> sf_bind f" "\<not> sf_listen f"
  shows "server_start f (v, os) = (True, v\<lparr>is_listen_fd := next_sock os\<rparr>,
    os\<lparr>bound := (bound os)(is_path v \<mapsto> next_sock os), listening := insert (next_sock os) (listening os),
       next_sock := next_sock os + 1\<rparr>)"
  using assms by (simp add: server_start_def sock_unlink_def Let_def)

end
