(* ===== verification/Program_Properties.thy ===== *)
theory Program_Properties
  imports Storage_Properties Entry_Point Event_Loop Ipc_Socket
begin

text \<open>
  Properties of the program's outer parts: the command line.
\<close>

section \<open>The command line\<close>

text \<open>C15: Every request the command line sends has a method the dispatcher knows, every member that the method's handler
  indexes is there as a string, and a member with a default is in an object and a string if it is there, so that no
  handler's reading fails; and no command ends in undefined behaviour, whatever its words are, provided the JSON
  library parses what it printed.\<close>

theorem cli_requests_typed:
  assumes "faithful_codec dump parse"
  shows "(\<forall>req. cli_request args = Some req \<longrightarrow> complete_request req \<and>
      (\<exists>m \<in> set cli_methods. jvalue get_string req ''method'' '''' = Some m)) \<and>
    fst (run_command S dump parse env args s) \<noteq> Undefined_Behaviour"
proof -
  have "fst (send_request S dump parse e req s) \<noteq> Undefined_Behaviour" if req: "cli_request args = Some req" for e req
  proof (cases "dump req")
    case (Some out)
    have "fst (dispatch S dump e req (initial_core, s)) \<noteq> Undefined"
      using cli_request_typed [OF req] complete_well_formed by (simp add: dispatch_undefined_iff)
    then show ?thesis
      using Some
      by (auto simp: send_request_def handle_cli [OF assms req Some] split: prod.splits reply.splits option.splits)
  qed (simp add: send_request_def)
  then have "fst (run_command S dump parse env args s) \<noteq> Undefined_Behaviour"
    by (simp add: run_command_def run_gui_def ensure_core_def split_beta Let_def split: option.splits)
  with cli_request_typed show ?thesis by blast
qed

definition open_x :: json where
  "open_x = make_request ''workspace.open'' (JObject [(''workspace_id'', JString ''x'')])"

lemma cli_requests_typed_witness:
  "cli_request [''workspace'', ''open'', ''x''] = Some open_x \<and> complete_request open_x \<and>
   fst (run_command (sqlite_storage (\<lambda>_. None) (\<lambda>_. None)) (\<lambda>j. if j = open_x then Some ''r'' else None)
     (\<lambda>t. if t = ''r'' then Some open_x else None)
     \<lparr>ce_xdg_data_home = None, ce_home = None, ce_db_error = None, ce_gui = None,
      ce_request = \<lparr>re_now = 0, re_workspace = Id ''w'', re_window = Id ''x'', re_snapshot = Id ''s'', re_json_what = ''e''\<rparr>\<rparr>
     [''workspace'', ''open'', ''x''] plain_db) \<noteq> Undefined_Behaviour"
proof -
  have r: "cli_request [''workspace'', ''open'', ''x''] = Some open_x" by code_simp
  have "as_text open_x = open_x" by (simp add: open_x_def make_request_def)
  then have f: "faithful_codec (\<lambda>j. if j = open_x then Some ''r'' else None) (\<lambda>t. if t = ''r'' then Some open_x else None)"
    by (simp add: faithful_codec_def)
  show ?thesis
    by (intro conjI r cli_requests_typed [OF f, THEN conjunct2] cli_requests_typed [OF f, THEN conjunct1, rule_format, OF r, THEN conjunct1])
qed

text \<open>A run of the command line can only change the store by creating a workspace.  Adding or renaming a window,
  closing the workspace and making a snapshot never work: each run starts with an engine in which no workspace is
  open, and all it can print is that failure.\<close>

theorem cli_only_creates:
  assumes "faithful_codec dump parse" "cli_request args = Some req"
  shows "(jvalue get_string req ''method'' '''' \<noteq> Some ''workspace.create'' \<longrightarrow>
      snd (snd (run_command S dump parse env args s)) = s) \<and>
    (edit_request req \<and> dump req \<noteq> None \<and> ce_db_error env = None \<longrightarrow>
      (\<exists>r \<in> {error_response ''no open workspace'', JObject [(''ok'', JBool False)]}.
         \<forall>t. dump r = Some t \<longrightarrow> fst (run_command S dump parse env args s) = Exited 0 (t @ [newline]) ''''))"
proof -
  have args: "args \<noteq> []" "args ! 0 \<noteq> ''help''" "args ! 0 \<noteq> ''gui''"
    using assms(2) by (auto simp: cli_request_def Let_def split: if_splits)
  have run: "run_command S dump parse env args s =
      (case ensure_core env of
         (dirs, Some e) \<Rightarrow> (e, dirs, s)
       | (dirs, None) \<Rightarrow> (let (e, s) = send_request S dump parse (ce_request env) req s in (e, dirs, s)))"
    using args assms(2) by (auto simp: run_command_def split: prod.splits option.splits)
  note send = send_request_cli [OF assms]
  have "snd (send_request S dump parse e req s) = s"
    if "jvalue get_string req ''method'' '''' \<noteq> Some ''workspace.create''" for e
    using dispatch_keeps_store [OF assms(2) that, of S dump e s]
    by (auto simp: send split: option.splits prod.splits reply.splits)
  moreover have "\<exists>r \<in> {error_response ''no open workspace'', JObject [(''ok'', JBool False)]}.
      \<forall>t. dump r = Some t \<longrightarrow> fst (send_request S dump parse e req s) = Exited 0 (t @ [newline]) ''''"
    if edit: "edit_request req" "dump req \<noteq> None" for e
  proof -
    obtain r where d: "dispatch S dump e req (initial_core, s) = (r, initial_core, s)"
      and r: "r = Exception ''no open workspace'' \<or> r = Response (JObject [(''ok'', JBool False)])"
      using dispatch_edit [OF assms(2) edit(1), of S dump e s] by (elim exE conjE)
    obtain q where q: "dump req = Some q" using edit(2) by blast
    from r show ?thesis
    proof
      assume "r = Exception ''no open workspace''"
      with d q show ?thesis by (intro bexI [of _ "error_response ''no open workspace''"]) (simp_all add: send)
    next
      assume "r = Response (JObject [(''ok'', JBool False)])"
      with d q show ?thesis by (intro bexI [of _ "JObject [(''ok'', JBool False)]"]) (simp_all add: send)
    qed
  qed
  moreover have "fst (run_command S dump parse env args s) =
      (case ce_db_error env of
         None \<Rightarrow> fst (send_request S dump parse (ce_request env) req s)
       | Some e \<Rightarrow> Exited 1 '''' (''remin: storage error: '' @ e @ [newline]))"
    "snd (snd (run_command S dump parse env args s)) =
      (case ce_db_error env of None \<Rightarrow> snd (send_request S dump parse (ce_request env) req s) | Some e \<Rightarrow> s)"
    by (simp_all add: run ensure_core_def split_beta Let_def split: option.split)
  ultimately show ?thesis
    by (cases "ce_db_error env") (simp_all del: bex_simps)
qed

definition probe_request :: json where
  "probe_request = make_request ''window.add'' (JObject [(''title'', JString ''t'')])"

definition probe_dump :: "json \<Rightarrow> string option" where
  "probe_dump j =
     (if j = probe_request then Some ''q''
      else if j = error_response ''no open workspace'' then Some ''r''
      else if j = JObject [(''ok'', JBool False)] then Some ''f'' else None)"

definition probe_parse :: "string \<Rightarrow> json option" where
  "probe_parse t =
     (if t = ''q'' then Some probe_request
      else if t = ''r'' then Some (error_response ''no open workspace'')
      else if t = ''f'' then Some (JObject [(''ok'', JBool False)]) else None)"

lemma probe_codec: "faithful_codec probe_dump probe_parse"
  by (simp add: faithful_codec_def probe_dump_def probe_parse_def probe_request_def make_request_def error_response_def)

lemma cli_only_creates_witness:
  "fst (run_command (sqlite_storage probe_dump probe_parse) probe_dump probe_parse
     \<lparr>ce_xdg_data_home = None, ce_home = None, ce_db_error = None, ce_gui = None,
      ce_request = \<lparr>re_now = 0, re_workspace = Id ''w'', re_window = Id ''x'', re_snapshot = Id ''s'', re_json_what = ''e''\<rparr>\<rparr>
     [''window'', ''add'', ''t''] plain_db) \<in> {Exited 0 (''r'' @ [newline]) '''', Exited 0 (''f'' @ [newline]) ''''}"
proof -
  have "cli_request [''window'', ''add'', ''t''] = Some probe_request"
    by (simp add: cli_request_def probe_request_def)
  moreover have "edit_request probe_request" "probe_dump probe_request = Some ''q''"
    by (simp_all add: edit_request_def probe_request_def make_request_reads probe_dump_def)
  moreover have "probe_dump (error_response ''no open workspace'') = Some ''r''"
    "probe_dump (JObject [(''ok'', JBool False)]) = Some ''f''"
    by (simp_all add: probe_dump_def probe_request_def make_request_def error_response_def)
  ultimately show ?thesis
    using cli_only_creates [OF probe_codec, of "[''window'', ''add'', ''t'']" probe_request
        "sqlite_storage probe_dump probe_parse"
        "\<lparr>ce_xdg_data_home = None, ce_home = None, ce_db_error = None, ce_gui = None,
          ce_request = \<lparr>re_now = 0, re_workspace = Id ''w'', re_window = Id ''x'', re_snapshot = Id ''s'',
            re_json_what = ''e''\<rparr>\<rparr>" plain_db]
    by auto
qed

section \<open>Sockets\<close>

text \<open>C37: A request whose writes make progress is answered with exactly the line the server sent, however the stream
  cuts it into reads.  When the socket calls succeed, a second server on the same path takes the clients of the first, and when the first one stops
  no client reaches any server, although the second still listens.\<close>

theorem ipc_line_and_takeover:
  assumes "\<And>k n. 0 < n \<Longrightarrow> 0 < wr k n" "concat chunks = line @ [newline]" "'''' \<notin> set chunks" "newline \<notin> set line"
    and "address p" "\<not> sf_socket f" "\<not> sf_bind f" "\<not> sf_listen f"
    and "server_start f (new_ipc_server p, os) = (ok1, v1, os1)" "server_start f (new_ipc_server p, os1) = (ok2, v2, os2)"
    and "0 \<le> next_sock os"
  shows "client_request wr chunks True req = Some line \<and>
    ok1 \<and> connects_to os1 p = Some (is_listen_fd v1) \<and>
    ok2 \<and> connects_to os2 p = Some (is_listen_fd v2) \<and> is_listen_fd v2 \<noteq> is_listen_fd v1 \<and>
    \<not> server_running (snd (server_stop (v1, os2))) p \<and> is_listen_fd v2 \<in> listening (snd (server_stop (v1, os2)))"
proof -
  have "filter (\<lambda>c. c \<noteq> newline) line = line" using assms(4) by (induction line) auto
  then have "client_request wr chunks True req = Some line"
    using write_loop_progress [OF assms(1)] read_loop_line [of chunks line "''''", OF assms(2,3)] assms(4)
    by (simp add: client_request_def)
  moreover have v1: "ok1" "v1 = (new_ipc_server p)\<lparr>is_listen_fd := next_sock os\<rparr>"
    "os1 = os\<lparr>bound := (bound os)(p \<mapsto> next_sock os), listening := insert (next_sock os) (listening os),
       next_sock := next_sock os + 1\<rparr>"
    using assms(9) server_start_ok [of "new_ipc_server p" f os] assms(5-8) by (simp_all add: new_ipc_server_def)
  moreover have "ok2" "v2 = (new_ipc_server p)\<lparr>is_listen_fd := next_sock os1\<rparr>"
    "os2 = os1\<lparr>bound := (bound os1)(p \<mapsto> next_sock os1), listening := insert (next_sock os1) (listening os1),
       next_sock := next_sock os1 + 1\<rparr>"
    using assms(10) server_start_ok [of "new_ipc_server p" f os1] assms(5-8) by (simp_all add: new_ipc_server_def)
  ultimately show ?thesis
    using assms(5,11)
    by (simp add: connects_to_def server_running_def server_stop_def sock_unlink_def sock_close_def new_ipc_server_def)
qed

lemma ipc_line_and_takeover_witness:
  "\<exists>v1 os1 v2 os2. server_start \<lparr>sf_socket = False, sf_bind = False, sf_listen = False\<rparr>
       (new_ipc_server ''/tmp/remin.sock'', \<lparr>bound = Map.empty, listening = {}, next_sock = 3\<rparr>) = (True, v1, os1) \<and>
     server_start \<lparr>sf_socket = False, sf_bind = False, sf_listen = False\<rparr> (new_ipc_server ''/tmp/remin.sock'', os1) =
       (True, v2, os2) \<and>
     \<not> server_running (snd (server_stop (v1, os2))) ''/tmp/remin.sock'' \<and>
     client_request (\<lambda>k n. 1) [''{}'', newline # ''''] True ''q'' = Some ''{}''"
proof -
  let ?f = "\<lparr>sf_socket = False, sf_bind = False, sf_listen = False\<rparr>"
  let ?os = "\<lparr>bound = Map.empty, listening = {}, next_sock = 3\<rparr>"
  obtain ok1 v1 os1 where s1: "server_start ?f (new_ipc_server ''/tmp/remin.sock'', ?os) = (ok1, v1, os1)"
    by (metis prod_cases3)
  obtain ok2 v2 os2 where s2: "server_start ?f (new_ipc_server ''/tmp/remin.sock'', os1) = (ok2, v2, os2)"
    by (metis prod_cases3)
  have "client_request (\<lambda>k n. 1) [''{}'', newline # ''''] True ''q'' = Some ''{}'' \<and> ok1 \<and>
      ok2 \<and> \<not> server_running (snd (server_stop (v1, os2))) ''/tmp/remin.sock''"
    using ipc_line_and_takeover [OF _ _ _ _ _ _ _ _ s1 s2, of "\<lambda>k n. 1" "[''{}'', newline # '''']" "''{}''" "''q''"]
    by (simp add: newline_def address_def)
  with s1 s2 show ?thesis
    by (intro exI [of _ v1] exI [of _ os1] exI [of _ v2] exI [of _ os2]) simp
qed

section \<open>Descriptors\<close>

text \<open>A round of the event loop hands every ready descriptor, in order, to its own callback, as long as callbacks
  leave the list alone.  Once a callback has removed its own descriptor, the next ready descriptor goes to the
  callback of the one after it, and the last is not served.\<close>

theorem event_loop_round:
  assumes "keeps_entries call" "el_running l" "length revs = length (el_entries l)"
    and "map ie_fd (el_entries m) = [x, y, z]" "distinct [x, y, z]" "map ie_cb (el_entries m) = [Some a, Some b, Some c]"
    and "el_running m" "removes a" "\<not> removes c" "r1 \<noteq> 0" "r2 \<noteq> 0"
  shows "dispatch_fds call 0 (zip (map fst (poll_set l)) revs) (l, w) = call_ready call (zip (el_entries l) revs) (l, w) \<and>
    snd (dispatch_fds (logging removes) 0 (zip (map fst (poll_set m)) [r1, r2, r3]) (m, [])) = [(a, x), (c, y)]"
  using dispatch_call_ready [OF assms(1), of "(l, w)" 0 "el_entries l" revs] dispatch_after_removal [OF assms(4-11), of r3]
    assms(2,3)
  by (simp add: poll_set_def comp_def)

lemma event_loop_round_witness:
  "let l = add_fd 7 1 (Some 2) (add_fd 6 1 (Some 1) (add_fd 5 1 (Some 0) (new_event_loop\<lparr>el_running := True\<rparr>)))
   in dispatch_fds (logging (\<lambda>_. False)) 0 (zip (map fst (poll_set l)) [1, 1, 1]) (l, []) =
        call_ready (logging (\<lambda>_. False)) (zip (el_entries l) [1, 1, 1]) (l, []) \<and>
      snd (dispatch_fds (logging (\<lambda>cb. cb = 0)) 0 (zip (map fst (poll_set l)) [1, 1, 1]) (l, [])) = [(0, 5), (2, 6)]"
  unfolding Let_def
  by (rule event_loop_round [where b = 1 and z = 7])
    (simp_all add: keeps_entries_def logging_def add_fd_def remove_fd_def new_event_loop_def)

end
