(* ===== verification/Paths.thy ===== *)
theory Paths
  imports Prelude
begin

text \<open>
  The lexical part of \<^verbatim>\<open>std::filesystem::path\<close> on POSIX, as far as the window, the panels and the
  resources use it.  A path is its native string.  Two paths are equal when their elements are, so
  repeated separators do not count, but a final separator does: it leaves an empty last element.
\<close>

section \<open>Elements\<close>

definition slash :: char where
  "slash = CHR ''/''"

text \<open>The names between the separators; the empty one after a final separator is kept.\<close>

function names :: "string \<Rightarrow> string list" where
  "names [] = []"
| "names (c # s) =
     (if c = slash then (if dropWhile (\<lambda>x. x = slash) s = [] then [''''] else names (dropWhile (\<lambda>x. x = slash) s))
      else takeWhile (\<lambda>x. x \<noteq> slash) (c # s) # names (dropWhile (\<lambda>x. x \<noteq> slash) s))"
  by pat_completeness auto
termination
  by (relation "measure length") (auto simp: le_imp_less_Suc length_dropWhile_le)

declare names.simps(2) [simp del]

definition is_absolute :: "string \<Rightarrow> bool" where
  "is_absolute p \<longleftrightarrow> starts_with [slash] p"

text \<open>The elements: the root directory, when there is one, and the names.\<close>

definition elements :: "string \<Rightarrow> string list" where
  "elements p =
     (if is_absolute p
      then [slash] # (let r = dropWhile (\<lambda>x. x = slash) p in if r = [] then [] else names r)
      else names p)"

definition path_eq :: "string \<Rightarrow> string \<Rightarrow> bool" where
  "path_eq p q \<longleftrightarrow> elements p = elements q"

section \<open>Parts of a path\<close>

definition filename :: "string \<Rightarrow> string" where
  "filename p = rev (takeWhile (\<lambda>x. x \<noteq> slash) (rev p))"

definition has_filename :: "string \<Rightarrow> bool" where
  "has_filename p \<longleftrightarrow> filename p \<noteq> ''''"

definition has_relative_path :: "string \<Rightarrow> bool" where
  "has_relative_path p \<longleftrightarrow> dropWhile (\<lambda>x. x = slash) p \<noteq> []"

text \<open>
  \<^verbatim>\<open>parent_path\<close>: everything up to the end of the last element but one; a path that is only a
  root is its own parent.
\<close>

definition parent_path :: "string \<Rightarrow> string" where
  "parent_path p =
     (if \<not> has_relative_path p then p
      else let r = dropWhile (\<lambda>x. x = slash) (dropWhile (\<lambda>x. x \<noteq> slash) (rev p))
           in if r = [] \<and> is_absolute p then [slash] else rev r)"

definition has_parent_path :: "string \<Rightarrow> bool" where
  "has_parent_path p \<longleftrightarrow> parent_path p \<noteq> ''''"

text \<open>\<^verbatim>\<open>operator/\<close>\<close>

definition path_div :: "string \<Rightarrow> string \<Rightarrow> string" where
  "path_div p q =
     (if is_absolute q \<or> p = '''' then q
      else if has_filename p then p @ [slash] @ q
      else p @ q)"

text \<open>\<^verbatim>\<open>extension\<close>: from the last period of the file name, unless it starts the name.\<close>

definition extension :: "string \<Rightarrow> string" where
  "extension p =
     (let f = filename p; e = takeWhile (\<lambda>x. x \<noteq> CHR ''.'') (rev f)
      in if f = ''.'' \<or> f = ''..'' \<or> length f \<le> Suc (length e) then '''' else CHR ''.'' # rev e)"

text \<open>\<^verbatim>\<open>lexically_normal\<close>: the flag says that a separator ends what is left.\<close>

fun normal_step :: "bool \<Rightarrow> string list \<times> bool \<Rightarrow> string \<Rightarrow> string list \<times> bool" where
  "normal_step abso (st, trail) e =
     (if e = '''' \<or> e = ''.'' then (st, True)
      else if e = ''..'' then
        (case st of
           [] \<Rightarrow> if abso then (st, True) else ([e], False)
         | t # ts \<Rightarrow> if t = ''..'' then (e # st, False) else (ts, True))
      else (e # st, False))"

definition join_names :: "string list \<Rightarrow> string" where
  "join_names ns = concat (map (\<lambda>(i, n). if i = 0 then n else slash # n) (enumerate 0 ns))"

definition lexically_normal :: "string \<Rightarrow> string" where
  "lexically_normal p =
     (if p = '''' then ''''
      else let abso = is_absolute p;
               (st, trail) = foldl (normal_step abso) ([], False) (if abso then tl (elements p) else elements p);
               body = join_names (rev st);
               text = (if abso then slash # body else body)
           in if st = [] then (if abso then [slash] else ''.'')
              else if trail \<and> hd st \<noteq> ''..'' then text @ [slash] else text)"

section \<open>Lemmas\<close>

text \<open>A name as a directory lists it.\<close>

definition plain_name :: "string \<Rightarrow> bool" where
  "plain_name n \<longleftrightarrow> n \<noteq> '''' \<and> slash \<notin> set n"

text \<open>An absolute path without a final or a repeated separator, or the root.\<close>

definition plain_dir :: "string \<Rightarrow> bool" where
  "plain_dir p \<longleftrightarrow> p = [slash] \<or> (is_absolute p \<and> has_filename p)"

lemma plain_name_join [simp]:
  assumes "plain_name n"
  shows "\<not> is_absolute n" "p \<noteq> '''' \<Longrightarrow> path_div p n = (if has_filename p then p @ slash # n else p @ n)"
proof -
  show "\<not> is_absolute n" using assms by (cases n) (auto simp: plain_name_def is_absolute_def starts_with_def)
  then show "p \<noteq> '''' \<Longrightarrow> path_div p n = (if has_filename p then p @ slash # n else p @ n)"
    by (simp add: path_div_def)
qed

lemma takeWhile_noslash [simp]:
  assumes "slash \<notin> set n"
  shows "takeWhile (\<lambda>x. x \<noteq> slash) n = n" "takeWhile (\<lambda>x. x \<noteq> slash) (n @ slash # r) = n"
    "takeWhile (\<lambda>x. x \<noteq> slash) (rev n) = rev n" "takeWhile (\<lambda>x. x \<noteq> slash) (rev n @ slash # r) = rev n"
  using assms by (auto simp: takeWhile_append takeWhile_eq_all_conv)

lemma is_absolute_append: "p \<noteq> '''' \<Longrightarrow> is_absolute (p @ q) = is_absolute p"
  by (cases p) (auto simp: is_absolute_def starts_with_def)

lemma filename_append: "slash \<notin> set n \<Longrightarrow> filename (p @ slash # n) = n"
  by (simp add: filename_def)

lemma filename_noslash: "slash \<notin> set n \<Longrightarrow> filename n = n"
  by (simp add: filename_def)

lemma has_filename_last: "has_filename p \<longleftrightarrow> p \<noteq> '''' \<and> last p \<noteq> slash"
  by (cases p rule: rev_cases) (auto simp: has_filename_def filename_def)

lemma filename_join:
  assumes "plain_name n" "plain_dir p"
  shows "filename (path_div p n) = n"
proof (cases "p = [slash]")
  case True
  then show ?thesis
    using assms by (simp add: plain_name_def filename_def path_div_def is_absolute_def has_filename_def)
next
  case False
  then have "has_filename p" using assms(2) by (auto simp: plain_dir_def)
  moreover from this have "p \<noteq> ''''" by (auto simp: has_filename_last)
  ultimately show ?thesis using assms(1) by (simp add: filename_append plain_name_def)
qed

lemma rev_dropWhile_last: "p \<noteq> '''' \<Longrightarrow> last p \<noteq> slash \<Longrightarrow> dropWhile (\<lambda>x. x = slash) (rev p) = rev p"
  by (cases p rule: rev_cases) auto

lemma has_relative_join: "plain_name n \<Longrightarrow> has_relative_path (p @ n)"
  unfolding has_relative_path_def plain_name_def by (cases n) (auto simp: dropWhile_append1)

lemma parent_join:
  assumes "plain_name n" "plain_dir p"
  shows "parent_path (path_div p n) = p"
proof (cases "p = [slash]")
  case True
  have "has_relative_path (slash # n)"
    using has_relative_join [OF assms(1), of "[slash]"] by simp
  moreover have "dropWhile (\<lambda>x. x \<noteq> slash) (rev n @ [slash]) = [slash]"
    using assms(1) by (subst dropWhile_append2) (auto simp: plain_name_def)
  ultimately show ?thesis
    using assms(1) by (simp add: True parent_path_def has_filename_def filename_def is_absolute_def starts_with_def)
next
  case False
  then have p: "is_absolute p" "p \<noteq> ''''" "last p \<noteq> slash"
    using assms(2) by (auto simp: plain_dir_def has_filename_last)
  have "dropWhile (\<lambda>x. x \<noteq> slash) (rev n @ slash # rev p) = slash # rev p"
    using assms(1) by (subst dropWhile_append2) (auto simp: plain_name_def)
  moreover have "has_relative_path (p @ slash # n)"
    using has_relative_join [OF assms(1), of "p @ [slash]"] by simp
  ultimately show ?thesis
    using assms(1) p
    by (simp add: has_filename_last parent_path_def rev_dropWhile_last Let_def)
qed

lemma plain_join:
  assumes "plain_name n" "plain_dir p"
  shows "plain_dir (path_div p n)"
proof -
  have "p \<noteq> ''''" "is_absolute p" using assms(2) by (auto simp: plain_dir_def is_absolute_def starts_with_def)
  moreover have "n \<noteq> ''''" "last n \<noteq> slash" using assms(1) by (auto simp: plain_name_def dest: last_in_set)
  ultimately show ?thesis
    using assms(1) by (simp add: plain_dir_def has_filename_last is_absolute_append)
qed

end
