(* ===== verification/Note_Tab.thy ===== *)
theory Note_Tab
  imports Storage_Properties Markdown_Document Markdown_Css Style_Parser Pdf_Export Paths Floating
begin

text \<open>
  \<^verbatim>\<open>gui/window/note_tab_view.hpp\<close> and \<^verbatim>\<open>.cpp\<close>, with \<^verbatim>\<open>write_note_file\<close> of the session
  controller: a note's tab.  Its state is the editor's buffer, the binding to a file, what the file
  watcher remembers and the preview split; the calls of the tab's callbacks are a log.  A dialog is
  split in two: what opens it, and the handler of its response.

  The text a buffer holds after being set to some content is a parameter \<open>holds\<close>: the toolkit
  takes UTF-8 only.  The disk maps paths to regular files with a modification time; other kinds of
  entries are not files here.  \<open>canon\<close> is \<^verbatim>\<open>weakly_canonical\<close>.
\<close>

section \<open>Files\<close>

record disk_file =
  f_content :: string
  f_mtime :: int

type_synonym disk = "string \<rightharpoonup> disk_file"

record write_faults =
  wf_mkdir :: bool
  wf_open :: bool
  wf_short :: "nat option"

definition no_write_faults :: write_faults where
  "no_write_faults = \<lparr>wf_mkdir = False, wf_open = False, wf_short = None\<rparr>"

text \<open>
  \<^verbatim>\<open>SessionController::write_note_file\<close>.  \<^verbatim>\<open>create_directories\<close> of an empty parent fails like a
  refused one; the stream's state is not looked at after writing, so a short write counts as done.
\<close>

definition write_note_file :: "write_faults \<Rightarrow> int \<Rightarrow> string \<Rightarrow> string \<Rightarrow> disk \<Rightarrow> bool \<times> disk" where
  "write_note_file f now path content d =
     (if wf_mkdir f \<or> parent_path path = '''' then (False, d)
      else if wf_open f then (False, d)
      else (True, d(path \<mapsto> \<lparr>f_content = (case wf_short f of Some k \<Rightarrow> take k content | None \<Rightarrow> content),
                             f_mtime = now\<rparr>)))"

section \<open>The tab\<close>

datatype note_call = Save_State_Changed | File_Saved string | File_Added string | Note_Activity | Flush_Now
  | Warn string | Render string

record note_view =
  nv_id :: string
  nv_title :: string
  nv_window :: window_id
  nv_tab :: tab_id
  nv_text :: string
  nv_modified :: bool
  nv_last_modified :: bool
  nv_cursor :: int
  nv_watched_path :: string
  nv_last_mtime :: int
  nv_last_size :: nat
  nv_triggered :: bool
  nv_timer :: bool
  nv_preview :: bool
  nv_sync_scroll :: bool
  nv_syncing :: bool
  nv_calls :: "note_call list"

definition call :: "note_call \<Rightarrow> note_view \<Rightarrow> note_view" where
  "call c v = v\<lparr>nv_calls := nv_calls v @ [c]\<rparr>"

text \<open>
  The buffer's modified flag, with the handler of \<^verbatim>\<open>modified-changed\<close>, which also runs from the
  debounced handler of \<^verbatim>\<open>changed\<close>.
\<close>

definition dirty_check :: "note_view \<Rightarrow> note_view" where
  "dirty_check v =
     (if nv_modified v \<noteq> nv_last_modified v
      then call Save_State_Changed (v\<lparr>nv_last_modified := nv_modified v\<rparr>) else v)"

definition set_modified :: "bool \<Rightarrow> note_view \<Rightarrow> note_view" where
  "set_modified b v = (if b \<noteq> nv_modified v then dirty_check (v\<lparr>nv_modified := b\<rparr>) else v)"

text \<open>
  \<^verbatim>\<open>NoteEditor::set_text\<close>: replacing the buffer's text is a change of the buffer, unless both are
  empty, and a change sets the modified flag and notes activity.
\<close>

definition utf8_chars :: "string \<Rightarrow> nat" where
  "utf8_chars s = length (filter (\<lambda>c. of_char c < (128 :: nat) \<or> 192 \<le> (of_char c :: nat)) s)"

text \<open>The cursor is left behind what was inserted, before anything the editor itself closed.\<close>

definition editor_set_text :: "(string \<Rightarrow> string) \<Rightarrow> string \<Rightarrow> note_view \<Rightarrow> note_view" where
  "editor_set_text holds content v =
     (if nv_text v = '''' \<and> holds content = '''' then v
      else set_modified True (call Note_Activity (v\<lparr>nv_text := holds content,
             nv_cursor := int (min (utf8_chars content) (utf8_chars (holds content)))\<rparr>)))"

text \<open>An edit by the user: the new text and cursor.\<close>

definition user_edit :: "string \<Rightarrow> int \<Rightarrow> note_view \<Rightarrow> note_view" where
  "user_edit t pos v = set_modified True (call Note_Activity (v\<lparr>nv_text := t, nv_cursor := pos\<rparr>))"

section \<open>Watching the file\<close>

text \<open>\<^verbatim>\<open>path\<close> is what \<^verbatim>\<open>note_path\<close> gives.\<close>

definition start_watcher :: "string \<Rightarrow> disk \<Rightarrow> note_view \<Rightarrow> note_view" where
  "start_watcher path d v =
     (if path = '''' then v
      else case d path of
             None \<Rightarrow> v
           | Some f \<Rightarrow> v\<lparr>nv_watched_path := path, nv_last_mtime := f_mtime f, nv_last_size := length (f_content f),
                         nv_triggered := False, nv_timer := True\<rparr>)"

definition reload_from_disk :: "(string \<Rightarrow> string) \<Rightarrow> disk \<Rightarrow> note_view \<Rightarrow> note_view" where
  "reload_from_disk holds d v =
     (case d (nv_watched_path v) of
        None \<Rightarrow> v
      | Some f \<Rightarrow>
          if f_content f = nv_text v then v
          else (editor_set_text holds (f_content f) v)\<lparr>nv_triggered := False\<rparr>)"

text \<open>\<^verbatim>\<open>prompt_reload\<close> opens a dialog when the tab is realized; its response is below.\<close>

definition prompt_reload_response :: "(string \<Rightarrow> string) \<Rightarrow> disk \<Rightarrow> bool \<Rightarrow> note_view \<Rightarrow> note_view" where
  "prompt_reload_response holds d ok v = (if ok then reload_from_disk holds d v else v)\<lparr>nv_triggered := False\<rparr>"

text \<open>The result tells whether the poll opened the prompt.\<close>

definition poll_file :: "(string \<Rightarrow> string) \<Rightarrow> string \<Rightarrow> bool \<Rightarrow> bool \<Rightarrow> disk \<Rightarrow> note_view \<Rightarrow> bool \<times> note_view" where
  "poll_file holds path auto_reload realized d v =
     (if path = '''' \<or> path \<noteq> nv_watched_path v then (False, start_watcher path d v)
      else case d path of
             None \<Rightarrow> (False, v)
           | Some f \<Rightarrow>
               if f_mtime f = nv_last_mtime v \<and> length (f_content f) = nv_last_size v then (False, v)
               else
                 let v = v\<lparr>nv_last_mtime := f_mtime f, nv_last_size := length (f_content f)\<rparr>
                 in if nv_triggered v then (False, v)
                    else
                      let v = v\<lparr>nv_triggered := True\<rparr>
                      in if auto_reload then (False, reload_from_disk holds d v) else (realized, v))"

definition file_matches_snapshot :: "disk \<Rightarrow> note_view \<Rightarrow> bool" where
  "file_matches_snapshot d v =
     (case d (nv_watched_path v) of
        None \<Rightarrow> False
      | Some f \<Rightarrow> f_mtime f = nv_last_mtime v \<and> length (f_content f) = nv_last_size v \<and> f_content f = nv_text v)"

section \<open>Saving\<close>

datatype save_result = Saved | Needs_Save_As

text \<open>
  \<^verbatim>\<open>save_now\<close>: a note without a path asks for one.  The flag is cleared and the host is told
  whether or not the file could be written.
\<close>

definition save_now :: "write_faults \<Rightarrow> int \<Rightarrow> string \<Rightarrow> disk \<Rightarrow> note_view \<Rightarrow> save_result \<times> disk \<times> note_view" where
  "save_now f now path d v =
     (if path = '''' then (Needs_Save_As, d, v)
      else
        let v = call Flush_Now v;
            (ok, d) = write_note_file f now path (nv_text v) d;
            v = (if ok then v else call (Warn path) v);
            v = call (File_Saved path) (call Save_State_Changed (set_modified False v))
        in (Saved, d, v))"

definition suggested_name :: "string \<Rightarrow> string \<Rightarrow> string" where
  "suggested_name ext title = (if title = ''note'' then ''note'' else title) @ ext"

text \<open>
  The response to \<^verbatim>\<open>save_as\<close>: the path is stored, the body written, the watcher restarted.  The
  first result tells whether \<^verbatim>\<open>on_done\<close> runs.
\<close>

definition save_as_response :: "write_faults \<Rightarrow> time_point \<Rightarrow> int \<Rightarrow> bool \<Rightarrow> string \<Rightarrow> 's store \<Rightarrow> disk \<Rightarrow> note_view \<Rightarrow>
    bool \<times> 's store \<times> disk \<times> note_view" where
  "save_as_response f now mt ok chosen st d v =
     (if \<not> ok \<or> chosen = '''' then (False, st, d, v)
      else
        let st = set_note_path now (nv_id v) chosen st;
            (written, d) = write_note_file f mt chosen (nv_text v) d;
            v = (if written then v else call (Warn chosen) v);
            v = set_modified False (v\<lparr>nv_title := filename chosen\<rparr>);
            v = start_watcher (note_path st (nv_id v)) d v;
            v = call (File_Saved chosen) (call Save_State_Changed v)
        in (True, st, d, v))"

section \<open>Opening\<close>

definition new_note_view :: "(string \<Rightarrow> string) \<Rightarrow> string \<Rightarrow> 's store \<Rightarrow> disk \<Rightarrow> note_view" where
  "new_note_view holds noteId st d =
     (let v = \<lparr>nv_id = noteId, nv_title = ''note'', nv_window = empty_id, nv_tab = empty_id, nv_text = '''',
               nv_modified = False, nv_last_modified = False, nv_cursor = 0, nv_watched_path = '''', nv_last_mtime = 0,
               nv_last_size = 0, nv_triggered = False, nv_timer = False, nv_preview = False, nv_sync_scroll = False, nv_syncing = False,
               nv_calls = []\<rparr>;
          saved = load_note st noteId;
          v = (if saved \<noteq> '''' \<and> holds saved \<noteq> '''' then call Note_Activity (v\<lparr>nv_text := holds saved\<rparr>) else v)
      in start_watcher (note_path st noteId) d v)"

definition load_file :: "(string \<Rightarrow> string) \<Rightarrow> time_point \<Rightarrow> string \<Rightarrow> 's store \<Rightarrow> disk \<Rightarrow> note_view \<Rightarrow> 's store \<times> note_view" where
  "load_file holds now path st d v =
     (case d path of
        None \<Rightarrow> (st, v)
      | Some f \<Rightarrow>
          let v = set_modified False (editor_set_text holds (f_content f) v);
              st = set_note_path now (nv_id v) path st;
              v = call Save_State_Changed (v\<lparr>nv_title := filename path\<rparr>);
              v = v\<lparr>nv_watched_path := path, nv_last_mtime := f_mtime f, nv_last_size := length (f_content f)\<rparr>
          in (st, start_watcher (note_path st (nv_id v)) d v))"

definition has_path :: "'s store \<Rightarrow> note_view \<Rightarrow> bool" where
  "has_path st v \<longleftrightarrow> note_path st (nv_id v) \<noteq> ''''"

definition note_file :: "(string \<Rightarrow> string option) \<Rightarrow> 's store \<Rightarrow> note_view \<Rightarrow> string" where
  "note_file canon st v =
     (let p = note_path st (nv_id v)
      in if p = '''' then p
         else case canon p of Some c \<Rightarrow> if c = '''' then p else c | None \<Rightarrow> p)"

text \<open>Save, discard and reload, or cancel.\<close>

datatype conflict_answer = Save_First | Discard | Cancel_Open

definition conflict_response :: "(string \<Rightarrow> string) \<Rightarrow> write_faults \<Rightarrow> int \<Rightarrow> conflict_answer \<Rightarrow> string \<Rightarrow> disk \<Rightarrow>
    note_view \<Rightarrow> disk \<times> note_view" where
  "conflict_response holds f now a path d v =
     (case a of
        Save_First \<Rightarrow>
          (case save_now f now path d v of (_, d, v) \<Rightarrow> (d, (reload_from_disk holds d v)\<lparr>nv_triggered := False\<rparr>))
      | Discard \<Rightarrow> (d, (reload_from_disk holds d v)\<lparr>nv_triggered := False\<rparr>)
      | Cancel_Open \<Rightarrow> (d, v\<lparr>nv_triggered := False\<rparr>))"

section \<open>The preview beside the editor\<close>

text \<open>
  A scrolled window's adjustment, its lower bound 0: setting the value clamps it.  Both handlers do
  nothing while the other one is setting a value, which is how a scroll does not echo.
\<close>

record adjustment =
  ad_value :: dbl
  ad_upper :: dbl
  ad_page :: dbl

definition ad_range :: "adjustment \<Rightarrow> dbl" where
  "ad_range a = dbl_sub (ad_upper a) (ad_page a)"

definition ad_set :: "dbl \<Rightarrow> adjustment \<Rightarrow> adjustment" where
  "ad_set x a = a\<lparr>ad_value := dbl_clamp x (Fin 0) (dbl_max (Fin 0) (ad_range a))\<rparr>"

definition clamp_fraction :: "dbl \<Rightarrow> dbl" where
  "clamp_fraction x =
     (let x = (if dbl_less x (Fin 0) then Fin 0 else x)
      in if dbl_less (Fin 1) x then Fin 1 else x)"

definition set_scroll_fraction :: "dbl \<Rightarrow> adjustment \<Rightarrow> adjustment" where
  "set_scroll_fraction fraction a =
     (if dbl_le (ad_range a) (Fin 0) then a else ad_set (dbl_mul fraction (ad_range a)) a)"

definition on_editor_scroll :: "note_view \<Rightarrow> adjustment \<times> adjustment \<Rightarrow> adjustment \<times> adjustment" where
  "on_editor_scroll v p =
     (case p of (sadj, padv) \<Rightarrow>
        if \<not> nv_sync_scroll v \<or> \<not> nv_preview v \<or> nv_syncing v then p
        else if dbl_le (ad_range sadj) (Fin 0) then p
        else (sadj, set_scroll_fraction (clamp_fraction (dbl_div (ad_value sadj) (ad_range sadj))) padv))"

definition on_preview_scroll :: "note_view \<Rightarrow> adjustment \<times> adjustment \<Rightarrow> adjustment \<times> adjustment" where
  "on_preview_scroll v p =
     (case p of (sadj, padv) \<Rightarrow>
        if \<not> nv_sync_scroll v \<or> \<not> nv_preview v \<or> nv_syncing v then p
        else if dbl_le (ad_range padv) (Fin 0) then p
        else (ad_set (dbl_mul (clamp_fraction (dbl_div (ad_value padv) (ad_range padv))) (ad_range sadj)) sadj, padv))"

text \<open>The user, or the program, scrolls one side: the value's change runs its handler.\<close>

definition scroll_editor :: "dbl \<Rightarrow> note_view \<Rightarrow> adjustment \<times> adjustment \<Rightarrow> adjustment \<times> adjustment" where
  "scroll_editor x v p =
     (let sadj = ad_set x (fst p)
      in if ad_value sadj = ad_value (fst p) then p else on_editor_scroll v (sadj, snd p))"

text \<open>
  What the preview is told when it opens: the directory of the note.  The text is given by an idle callback of
  the main loop (\<open>Note_Preview\<close>), the theme and the style sheet only by \<^verbatim>\<open>refresh_preview_settings\<close>.
\<close>

datatype preview_call = Pv_Note_Dir string | Pv_Style_Path string | Pv_Dark bool | Pv_Render string

definition note_root_dir :: "string \<Rightarrow> 's store \<Rightarrow> note_view \<Rightarrow> string" where
  "note_root_dir data_dir st v =
     (let path = note_path st (nv_id v)
      in if path \<noteq> '''' then parent_path path else path_div (path_div data_dir ''remin'') ''unsaved-notes'')"

definition toggle_preview :: "string \<Rightarrow> 's store \<Rightarrow> note_view \<Rightarrow> preview_call list \<times> note_view" where
  "toggle_preview data_dir st v =
     (if nv_preview v then ([], v\<lparr>nv_preview := False\<rparr>)
      else ([Pv_Note_Dir (note_root_dir data_dir st v)], v\<lparr>nv_preview := True\<rparr>))"

definition sync_toggled :: "bool \<Rightarrow> note_view \<Rightarrow> adjustment \<times> adjustment \<Rightarrow> note_view \<times> adjustment \<times> adjustment" where
  "sync_toggled on v p =
     (let v = v\<lparr>nv_sync_scroll := on\<rparr>
      in (v, if nv_sync_scroll v \<and> nv_preview v then on_editor_scroll v p else p))"

definition refresh_preview_settings :: "'s store \<Rightarrow> note_view \<Rightarrow> preview_call list" where
  "refresh_preview_settings st v =
     (if nv_preview v then [Pv_Style_Path (markdown_css_path st), Pv_Dark (theme_dark st), Pv_Render (nv_text v)]
      else [])"

section \<open>Checkpoint of a tab\<close>

record note_snapshot =
  ns_content :: string
  ns_cursor_offset :: int
  ns_scroll_fraction :: dbl
  ns_preview_enabled :: bool
  ns_split_ratio :: dbl
  ns_sync_scroll :: bool

definition capture_state :: "note_view \<Rightarrow> adjustment \<Rightarrow> dbl \<Rightarrow> note_snapshot" where
  "capture_state v sadj uninit =
     \<lparr>ns_content = nv_text v, ns_cursor_offset = nv_cursor v,
      ns_scroll_fraction = (if dbl_less (Fin 0) (ad_range sadj) then dbl_div (ad_value sadj) (ad_range sadj) else uninit),
      ns_preview_enabled = False, ns_split_ratio = Fin (1 / 2), ns_sync_scroll = nv_sync_scroll v\<rparr>"

text \<open>
  \<open>chars\<close> is the toolkit's number of characters of a text.  The adjustment is the editor's, whose
  range may not know the new text yet.
\<close>

definition restore_state :: "(string \<Rightarrow> string) \<Rightarrow> (string \<Rightarrow> int) \<Rightarrow> note_snapshot \<Rightarrow> note_view \<Rightarrow> adjustment \<times> adjustment \<Rightarrow>
    note_view \<times> adjustment \<times> adjustment" where
  "restore_state holds chars s v p =
     (let v = set_modified False (editor_set_text holds (ns_content s) v);
          v = (if 0 \<le> ns_cursor_offset s then v\<lparr>nv_cursor := min (ns_cursor_offset s) (chars (nv_text v))\<rparr> else v);
          x = ns_scroll_fraction s;
          p = (if dbl_le (Fin 0) x \<and> dbl_le x (Fin 1) \<and> dbl_less (Fin 0) (ad_range (fst p))
               then scroll_editor (dbl_mul x (ad_range (fst p))) v p else p);
          v = v\<lparr>nv_sync_scroll := ns_sync_scroll s\<rparr>
      in (v, if nv_sync_scroll v \<and> nv_preview v then on_editor_scroll v p else p))"

section \<open>Pasting and exporting\<close>

text \<open>
  A pasted image goes into the note's own directory.  \<open>at_cursor\<close> is what inserting text at the cursor
  makes of the buffer.
\<close>

definition on_image_paste :: "dir_faults \<Rightarrow> string \<Rightarrow> 's store \<Rightarrow> (string \<Rightarrow> note_view \<Rightarrow> note_view) \<Rightarrow> string \<Rightarrow>
    markdown_document \<Rightarrow> note_view \<Rightarrow> dir_entries \<Rightarrow> note_view \<times> dir_entries" where
  "on_image_paste f data_dir st at_cursor png doc v es =
     (let note_root = note_root_dir data_dir st v;
          doc = doc\<lparr>md_note_dir := note_root, md_asset_dir := note_root\<rparr>
      in case save_pasted_image f doc png es of
           (None, es) \<Rightarrow> (v, es)
         | (Some asset_ref, es) \<Rightarrow>
             let v = at_cursor (''![]('' @ asset_ref @ '')'') v;
                 v = call (File_Added (path_div note_root asset_ref)) v;
                 v = (if nv_preview v then call (Render (nv_text v)) v else v)
             in (v, es))"

definition image_mime :: "string \<Rightarrow> string" where
  "image_mime ext =
     (if ext = ''.jpg'' \<or> ext = ''.jpeg'' then ''image/jpeg''
      else if ext = ''.gif'' then ''image/gif''
      else if ext = ''.webp'' then ''image/webp''
      else if ext = ''.svg'' then ''image/svg+xml''
      else if ext = ''.bmp'' then ''image/bmp''
      else if ext = ''.ico'' then ''image/x-icon''
      else if ext = ''.avif'' then ''image/avif''
      else ''image/png'')"

text \<open>\<open>read\<close> opens a file for reading, \<open>b64\<close> is the library's encoder.\<close>

definition export_resolver :: "path_env \<Rightarrow> (string \<Rightarrow> string option) \<Rightarrow> (string \<Rightarrow> string) \<Rightarrow> markdown_document \<Rightarrow>
    string \<Rightarrow> string" where
  "export_resolver e read b64 doc ref =
     (case resolve_asset_file e doc ref of
        None \<Rightarrow> if starts_with ''/'' ref then ''file://'' @ ref else ref
      | Some p \<Rightarrow>
          (case read p of
             None \<Rightarrow> if starts_with ''/'' ref then ''file://'' @ ref else ref
           | Some bytes \<Rightarrow>
               if bytes = '''' then ref
               else ''data:'' @ image_mime (extension p) @ '';base64,'' @ b64 bytes))"

text \<open>The document written; a style sheet that cannot be read or is empty gives the built-in one.\<close>

definition export_html_text :: "path_env \<Rightarrow> (string \<Rightarrow> string option) \<Rightarrow> (string \<Rightarrow> string) \<Rightarrow> html_options \<Rightarrow>
    string \<Rightarrow> string \<Rightarrow> 's store \<Rightarrow> markdown_document \<Rightarrow> node \<Rightarrow> note_view \<Rightarrow> string" where
  "export_html_text e read b64 opts builtin data_dir st doc ast v =
     (let note_root = note_root_dir data_dir st v;
          doc = doc\<lparr>md_note_dir := note_root, md_asset_dir := path_div note_root ''assets''\<rparr>;
          body = render_html_body (opts\<lparr>resolve_asset := Some (export_resolver e read b64 doc)\<rparr>) ast;
          css_path = markdown_css_path st;
          css = (if css_path = '''' then builtin else case read css_path of Some t \<Rightarrow> t | None \<Rightarrow> '''')
      in build_html_document body (if css = '''' then builtin else css) (nv_title v))"

text \<open>What the PDF export is given besides the text: its meta data and its style.\<close>

definition note_pdf_meta :: "note_view \<Rightarrow> page_meta" where
  "note_pdf_meta v =
     \<lparr>me_title = nv_title v, me_author = ''remin'', me_header_left = '''', me_header_center = '''',
      me_header_right = '''', me_footer_left = ''{title}'', me_footer_center = '''',
      me_footer_right = ''{page} / {pages}''\<rparr>"

definition note_pdf_style :: "char \<Rightarrow> (string \<Rightarrow> string option) \<Rightarrow> 's store \<Rightarrow> style_sheet" where
  "note_pdf_style dp read st =
     (let css_path = markdown_css_path st;
          pal = (if theme_dark st then dark_palette else light_palette);
          style = default_style pal
      in if css_path = '''' then style
         else case read css_path of Some t \<Rightarrow> apply_style dp pal t style | None \<Rightarrow> style)"

section \<open>Runs of a tab\<close>

text \<open>
  What can happen to a note: the user edits it, another program writes a file, the watcher's timer
  fires, the reload dialog or that of opening an edited note again is answered, the three ways to bind or write its
  file, and the restoring of its state at the start, which replaces the text and shows it as unmodified.
\<close>

datatype note_op = User_Edit string int | Elsewhere string string int | Poll bool bool | Reload_Answer bool
  | Save write_faults int | Save_As write_faults time_point int bool string | Load time_point string
  | Conflict write_faults int conflict_answer | Restore "string \<Rightarrow> int" note_snapshot "adjustment \<times> adjustment"

type_synonym 's note_world = "'s store \<times> disk \<times> note_view"

fun note_step :: "(string \<Rightarrow> string) \<Rightarrow> note_op \<Rightarrow> 's note_world \<Rightarrow> 's note_world" where
  "note_step holds (User_Edit t pos) (st, d, v) = (st, d, user_edit t pos v)"
| "note_step holds (Elsewhere p t mt) (st, d, v) = (st, d(p \<mapsto> \<lparr>f_content = t, f_mtime = mt\<rparr>), v)"
| "note_step holds (Poll auto realized) (st, d, v) =
     (st, d, snd (poll_file holds (note_path st (nv_id v)) auto realized d v))"
| "note_step holds (Reload_Answer ok) (st, d, v) = (st, d, prompt_reload_response holds d ok v)"
| "note_step holds (Save f mt) (st, d, v) = (st, snd (save_now f mt (note_path st (nv_id v)) d v))"
| "note_step holds (Save_As f now mt ok p) (st, d, v) = snd (save_as_response f now mt ok p st d v)"
| "note_step holds (Load now p) (st, d, v) = (case load_file holds now p st d v of (st, v) \<Rightarrow> (st, d, v))"
| "note_step holds (Conflict f mt a) (st, d, v) = (st, conflict_response holds f mt a (note_path st (nv_id v)) d v)"
| "note_step holds (Restore chars s adj) (st, d, v) = (st, d, fst (restore_state holds chars s v adj))"

definition note_run :: "(string \<Rightarrow> string) \<Rightarrow> note_op list \<Rightarrow> 's note_world \<Rightarrow> 's note_world" where
  "note_run holds ops w = fold (note_step holds) ops w"

section \<open>What the pieces keep\<close>

text \<open>The dot of the tab's label: the modified flag as it was last announced.\<close>

abbreviation in_step :: "note_view \<Rightarrow> bool" where
  "in_step v \<equiv> nv_last_modified v = nv_modified v"

named_theorems note_simps "what the steps of a note do to its fields"

lemma call_fields [note_simps]: "nv_text (call c v) = nv_text v" "nv_modified (call c v) = nv_modified v"
  "nv_last_modified (call c v) = nv_last_modified v" "nv_watched_path (call c v) = nv_watched_path v"
  "nv_last_mtime (call c v) = nv_last_mtime v" "nv_last_size (call c v) = nv_last_size v"
  "nv_triggered (call c v) = nv_triggered v" "nv_id (call c v) = nv_id v"
  "nv_calls (call c v) = nv_calls v @ [c]"
  by (simp_all add: call_def)

lemma set_modified_fields [note_simps]: "nv_text (set_modified b v) = nv_text v" "nv_modified (set_modified b v) = b"
  "nv_watched_path (set_modified b v) = nv_watched_path v" "nv_last_mtime (set_modified b v) = nv_last_mtime v"
  "nv_last_size (set_modified b v) = nv_last_size v" "nv_triggered (set_modified b v) = nv_triggered v"
  "nv_id (set_modified b v) = nv_id v"
  by (simp_all add: set_modified_def dirty_check_def note_simps)

lemma set_modified_in_step [note_simps]: "in_step v \<Longrightarrow> in_step (set_modified b v)"
  by (simp add: set_modified_def dirty_check_def note_simps)

lemma editor_set_text_fields [note_simps]: "nv_text (editor_set_text holds c v) = holds c"
  "nv_watched_path (editor_set_text holds c v) = nv_watched_path v"
  "nv_last_mtime (editor_set_text holds c v) = nv_last_mtime v" "nv_last_size (editor_set_text holds c v) = nv_last_size v"
  "nv_triggered (editor_set_text holds c v) = nv_triggered v" "nv_id (editor_set_text holds c v) = nv_id v"
  by (simp_all add: editor_set_text_def note_simps)

lemma editor_set_text_modified [note_simps]:
  "nv_modified (editor_set_text holds c v) \<longleftrightarrow> nv_modified v \<or> nv_text v \<noteq> '''' \<or> holds c \<noteq> ''''"
  "in_step v \<Longrightarrow> in_step (editor_set_text holds c v)"
  by (simp_all add: editor_set_text_def note_simps)

lemma start_watcher_fields [note_simps]: "nv_text (start_watcher p d v) = nv_text v"
  "nv_modified (start_watcher p d v) = nv_modified v" "nv_last_modified (start_watcher p d v) = nv_last_modified v"
  "nv_id (start_watcher p d v) = nv_id v"
  by (simp_all add: start_watcher_def split: option.splits)

lemma reload_fields [note_simps]: "nv_watched_path (reload_from_disk holds d v) = nv_watched_path v"
  "nv_last_mtime (reload_from_disk holds d v) = nv_last_mtime v" "nv_last_size (reload_from_disk holds d v) = nv_last_size v"
  "nv_id (reload_from_disk holds d v) = nv_id v" "in_step v \<Longrightarrow> in_step (reload_from_disk holds d v)"
  by (simp_all add: reload_from_disk_def note_simps split: option.splits)

lemma poll_in_step: "in_step v \<Longrightarrow> in_step (snd (poll_file holds p auto realized d v))"
  by (simp add: poll_file_def Let_def note_simps split: option.splits)

lemma save_now_in_step:
  assumes "in_step v"
  shows "in_step (snd (snd (save_now f mt p d v)))"
  using assms by (simp add: save_now_def Let_def note_simps split: prod.splits)

lemma save_as_in_step:
  assumes "in_step v"
  shows "in_step (snd (snd (snd (save_as_response f now mt ok p st d v))))"
  using assms by (simp add: save_as_response_def Let_def note_simps split: prod.splits)

lemma load_file_in_step: "in_step v \<Longrightarrow> in_step (snd (load_file holds now p st d v))"
  by (simp add: load_file_def Let_def note_simps split: option.splits)

lemma restore_state_fields [note_simps]:
  "nv_text (fst (restore_state holds chars s v p)) = holds (ns_content s)"
  "\<not> nv_modified (fst (restore_state holds chars s v p))" "nv_id (fst (restore_state holds chars s v p)) = nv_id v"
  "in_step v \<Longrightarrow> in_step (fst (restore_state holds chars s v p))"
  by (simp_all add: restore_state_def Let_def note_simps split: prod.splits)

lemma conflict_in_step: "in_step v \<Longrightarrow> in_step (snd (conflict_response holds f mt a p d v))"
  using save_now_in_step [of v f mt p d]
  by (auto simp: conflict_response_def note_simps split: conflict_answer.split prod.splits)

lemma note_step_in_step:
  assumes "in_step (snd (snd w))"
  shows "in_step (snd (snd (note_step holds op w)))"
proof (cases w)
  case (fields st d v)
  with assms have v: "in_step v" by simp
  show ?thesis
  proof (cases op)
    case (User_Edit t pos)
    then show ?thesis using v fields by (simp add: user_edit_def note_simps)
  next
    case (Reload_Answer ok)
    then show ?thesis using v fields by (simp add: prompt_reload_response_def note_simps)
  next
    case (Load now p)
    then show ?thesis using v fields load_file_in_step [of v holds now p st d] by (auto split: prod.splits)
  qed (use v fields poll_in_step save_now_in_step save_as_in_step conflict_in_step in \<open>simp_all add: note_simps\<close>)
qed

lemma note_run_in_step:
  assumes "in_step (snd (snd w))"
  shows "in_step (snd (snd (note_run holds ops w)))"
  using assms unfolding note_run_def
proof (induction ops arbitrary: w)
  case (Cons op ops)
  then show ?case using Cons.IH [OF note_step_in_step [OF Cons.prems, of holds op]] by simp
qed simp

text \<open>In every run of a fresh note's tab, over any store and disk and with any failures of its
  writes, the dot shown in the tab's label is that of the buffer's modified flag.
\<close>

theorem note_dot_in_step:
  "in_step (snd (snd (note_run holds ops (st', d', new_note_view holds n st d))))"
proof (rule note_run_in_step)
  show "in_step (snd (snd (st', d', new_note_view holds n st d)))"
    by (simp add: new_note_view_def note_simps Let_def)
qed

lemma write_note_file_ok:
  assumes "parent_path p \<noteq> ''''"
  shows "write_note_file no_write_faults mt p t d = (True, d(p \<mapsto> \<lparr>f_content = t, f_mtime = mt\<rparr>))"
  using assms by (simp add: write_note_file_def no_write_faults_def)

lemma save_now_ok:
  assumes "p \<noteq> ''''" "parent_path p \<noteq> ''''"
  shows "save_now no_write_faults mt p d v =
    (Saved, d(p \<mapsto> \<lparr>f_content = nv_text v, f_mtime = mt\<rparr>),
     call (File_Saved p) (call Save_State_Changed (set_modified False (call Flush_Now v))))"
  using assms by (simp add: save_now_def write_note_file_ok Let_def note_simps)

text \<open>Saving a note without a path asks for one and touches nothing.  With a path, a save without
  failures leaves exactly the buffer in the file and the note clean.  But a save that cannot create
  the directory or open the file leaves the disk as it was and yet marks the note clean and tells the
  host that the file was saved; the only trace is a warning.
\<close>

theorem save_now_outcomes:
  "save_now f mt '''' d v = (Needs_Save_As, d, v) \<and>
   (p \<noteq> '''' \<and> parent_path p \<noteq> '''' \<longrightarrow>
     (\<exists>v'. save_now no_write_faults mt p d v = (Saved, d(p \<mapsto> \<lparr>f_content = nv_text v, f_mtime = mt\<rparr>), v') \<and>
           \<not> nv_modified v' \<and> nv_text v' = nv_text v \<and> File_Saved p \<in> set (nv_calls v'))) \<and>
   (p \<noteq> '''' \<and> (wf_mkdir f \<or> wf_open f \<or> parent_path p = '''') \<longrightarrow>
     (\<exists>v'. save_now f mt p d v = (Saved, d, v') \<and> \<not> nv_modified v' \<and>
           Warn p \<in> set (nv_calls v') \<and> File_Saved p \<in> set (nv_calls v')))"
proof (intro conjI impI)
  show "save_now f mt '''' d v = (Needs_Save_As, d, v)" by (simp add: save_now_def)
next
  assume "p \<noteq> '''' \<and> parent_path p \<noteq> ''''"
  then show "\<exists>v'. save_now no_write_faults mt p d v = (Saved, d(p \<mapsto> \<lparr>f_content = nv_text v, f_mtime = mt\<rparr>), v') \<and>
      \<not> nv_modified v' \<and> nv_text v' = nv_text v \<and> File_Saved p \<in> set (nv_calls v')"
    by (simp add: save_now_ok note_simps)
next
  assume p: "p \<noteq> '''' \<and> (wf_mkdir f \<or> wf_open f \<or> parent_path p = '''')"
  define w where "w = call (File_Saved p) (call Save_State_Changed (set_modified False (call (Warn p) (call Flush_Now v))))"
  have "write_note_file f mt p (nv_text v) d = (False, d)"
    using p by (auto simp: write_note_file_def)
  then have "save_now f mt p d v = (Saved, d, w)"
    using p by (simp add: save_now_def w_def note_simps Let_def)
  moreover have "\<not> nv_modified w" "File_Saved p \<in> set (nv_calls w)" by (simp_all add: w_def note_simps)
  moreover have "Warn p \<in> set (nv_calls w)"
    by (simp add: w_def call_def set_modified_def dirty_check_def)
  ultimately show "\<exists>v'. save_now f mt p d v = (Saved, d, v') \<and> \<not> nv_modified v' \<and>
      Warn p \<in> set (nv_calls v') \<and> File_Saved p \<in> set (nv_calls v')" by blast
qed

section \<open>The watcher\<close>

definition polls :: "(string \<Rightarrow> string) \<Rightarrow> string \<Rightarrow> disk list \<Rightarrow> note_view \<Rightarrow> note_view" where
  "polls holds path ds v = fold (\<lambda>d v. snd (poll_file holds path True True d v)) ds v"

lemma poll_triggered:
  assumes "nv_triggered v" "nv_watched_path v = path" "path \<noteq> ''''"
  shows "nv_triggered (snd (poll_file holds path auto realized d v)) \<and>
         nv_watched_path (snd (poll_file holds path auto realized d v)) = path \<and>
         nv_text (snd (poll_file holds path auto realized d v)) = nv_text v"
  using assms by (simp add: poll_file_def Let_def split: option.splits)

lemma polls_triggered:
  assumes "nv_triggered v" "nv_watched_path v = path" "path \<noteq> ''''"
  shows "nv_triggered (polls holds path ds v) \<and> nv_text (polls holds path ds v) = nv_text v"
  using assms unfolding polls_def
proof (induction ds arbitrary: v)
  case (Cons d ds)
  note poll = poll_triggered [OF Cons.prems, of holds True True d]
  show ?case using Cons.IH [of "snd (poll_file holds path True True d v)"] poll Cons.prems by simp
qed simp

text \<open>A poll that finds a new version, when none is pending.\<close>

lemma poll_new_version:
  assumes "nv_watched_path v = path" "path \<noteq> ''''" "d path = Some f" "\<not> nv_triggered v"
    "(f_mtime f, length (f_content f)) \<noteq> (nv_last_mtime v, nv_last_size v)"
  shows "snd (poll_file holds path True realized d v) =
    reload_from_disk holds d (v\<lparr>nv_last_mtime := f_mtime f, nv_last_size := length (f_content f), nv_triggered := True\<rparr>)"
  using assms by (auto simp: poll_file_def Let_def)

text \<open>With automatic reload on, a note's own save stops its watcher.  The next poll sees the new
  modification time, finds the file equal to the buffer and returns early with the change still
  pending, so that whatever is written to the file afterwards is never loaded, however often it is
  polled.
\<close>

theorem own_save_deafens_watcher:
  assumes "nv_watched_path v = path" "path \<noteq> ''''" "parent_path path \<noteq> ''''" "\<not> nv_triggered v"
    "mt \<noteq> nv_last_mtime v" "save_now no_write_faults mt path d v = (Saved, d', v')"
  shows "nv_text (polls holds path (d' # ds) v') = nv_text v"
proof -
  have d': "d' path = Some \<lparr>f_content = nv_text v, f_mtime = mt\<rparr>" and
    v': "v' = call (File_Saved path) (call Save_State_Changed (set_modified False (call Flush_Now v)))"
    using assms(6) save_now_ok [OF assms(2,3), of mt d v] by auto
  define u where "u = snd (poll_file holds path True True d' v')"
  have u: "u = reload_from_disk holds d'
      (v'\<lparr>nv_last_mtime := mt, nv_last_size := length (nv_text v), nv_triggered := True\<rparr>)"
    unfolding u_def using poll_new_version [of v' path d' "\<lparr>f_content = nv_text v, f_mtime = mt\<rparr>" holds True]
      d' assms by (simp add: v' note_simps)
  have "nv_triggered u" "nv_watched_path u = path" "nv_text u = nv_text v"
    unfolding u using d' assms by (simp_all add: reload_from_disk_def v' note_simps)
  from polls_triggered [OF this(1,2) assms(2), of holds ds] this(3)
  show ?thesis by (simp add: polls_def u_def)
qed

definition demo_note :: note_view where
  "demo_note = user_edit ''b'' 1 (start_watcher ''/n/a'' [''/n/a'' \<mapsto> \<lparr>f_content = ''a'', f_mtime = 1\<rparr>]
      (new_note_view id ''x'' (None :: unit store) Map.empty))"

theorem own_save_deafens_watcher_witness:
  "nv_text (polls id ''/n/a'' [[''/n/a'' \<mapsto> \<lparr>f_content = ''b'', f_mtime = 2\<rparr>],
                                   [''/n/a'' \<mapsto> \<lparr>f_content = ''c'', f_mtime = 3\<rparr>]]
           (snd (snd (save_now no_write_faults 2 ''/n/a'' [''/n/a'' \<mapsto> \<lparr>f_content = ''a'', f_mtime = 1\<rparr>] demo_note)))) = ''b''"
proof -
  let ?v = demo_note
  have v: "nv_watched_path ?v = ''/n/a''" "\<not> nv_triggered ?v" "nv_last_mtime ?v = 1" "nv_text ?v = ''b''"
    by (simp_all add: demo_note_def user_edit_def new_note_view_def start_watcher_def load_note_def load_text_def
        note_path_def set_modified_def dirty_check_def call_def)
  have p: "parent_path ''/n/a'' \<noteq> ''''" by code_simp
  have s: "save_now no_write_faults 2 ''/n/a'' [''/n/a'' \<mapsto> \<lparr>f_content = ''a'', f_mtime = 1\<rparr>] ?v =
    (Saved, [''/n/a'' \<mapsto> \<lparr>f_content = ''b'', f_mtime = 2\<rparr>],
     snd (snd (save_now no_write_faults 2 ''/n/a'' [''/n/a'' \<mapsto> \<lparr>f_content = ''a'', f_mtime = 1\<rparr>] ?v)))"
    using p v by (simp add: save_now_ok)
  show ?thesis
    using own_save_deafens_watcher [OF v(1) _ p v(2) _ s, of id "[[''/n/a'' \<mapsto> \<lparr>f_content = ''c'', f_mtime = 3\<rparr>]]"] v
    by simp
qed

text \<open>
  Versions of a file, as the polls meet them: each seen version differs from the one before in its
  time or size and in its content.
\<close>

fun new_versions :: "(string \<Rightarrow> string) \<Rightarrow> string \<Rightarrow> int \<times> nat \<Rightarrow> string \<Rightarrow> disk list \<Rightarrow> bool" where
  "new_versions holds path k t [] \<longleftrightarrow> True"
| "new_versions holds path k t (d # ds) \<longleftrightarrow>
     (case d path of
        None \<Rightarrow> new_versions holds path k t ds
      | Some f \<Rightarrow> (f_mtime f, length (f_content f)) \<noteq> k \<and> f_content f \<noteq> t \<and> holds (f_content f) = f_content f \<and>
          new_versions holds path (f_mtime f, length (f_content f)) (f_content f) ds)"

fun latest :: "string \<Rightarrow> string \<Rightarrow> disk list \<Rightarrow> string" where
  "latest path t [] = t"
| "latest path t (d # ds) = latest path (case d path of None \<Rightarrow> t | Some f \<Rightarrow> f_content f) ds"

lemma poll_loads:
  assumes "nv_watched_path v = path" "path \<noteq> ''''" "d path = Some f" "\<not> nv_triggered v"
    "(f_mtime f, length (f_content f)) \<noteq> (nv_last_mtime v, nv_last_size v)"
    "f_content f \<noteq> nv_text v" "holds (f_content f) = f_content f"
  shows "let u = snd (poll_file holds path True realized d v)
         in nv_watched_path u = path \<and> \<not> nv_triggered u \<and> nv_text u = f_content f \<and> nv_modified u \<and>
            nv_last_mtime u = f_mtime f \<and> nv_last_size u = length (f_content f)"
  unfolding poll_new_version [where v = v and path = path and d = d, OF assms(1-5)] using assms
  by (auto simp: reload_from_disk_def note_simps)

lemma poll_no_file:
  assumes "nv_watched_path v = path" "path \<noteq> ''''" "d path = None"
  shows "snd (poll_file holds path True realized d v) = v"
  using assms by (simp add: poll_file_def)

text \<open>With automatic reload on and no save of its own, the watcher follows the file: after any
  sequence of polls, each meeting no file or a new version, the buffer holds the latest version seen,
  and the watcher is ready for the next.  The loaded text is marked as an unsaved edit.
\<close>

theorem watcher_follows_file:
  assumes "nv_watched_path v = path" "path \<noteq> ''''" "\<not> nv_triggered v"
    "new_versions holds path (nv_last_mtime v, nv_last_size v) (nv_text v) ds"
  shows "nv_text (polls holds path ds v) = latest path (nv_text v) ds \<and> \<not> nv_triggered (polls holds path ds v) \<and>
         (nv_modified (polls holds path ds v) \<longleftrightarrow> nv_modified v \<or> (\<exists>d \<in> set ds. d path \<noteq> None))"
  using assms unfolding polls_def
proof (induction ds arbitrary: v)
  case (Cons d ds)
  let ?u = "snd (poll_file holds path True True d v)"
  show ?case
  proof (cases "d path")
    case None
    then show ?thesis using Cons poll_no_file [where v = v and path = path and d = d, OF Cons.prems(1,2) None, of holds True] by simp
  next
    case (Some f)
    have u: "nv_watched_path ?u = path" "\<not> nv_triggered ?u" "nv_text ?u = f_content f" "nv_modified ?u"
      "nv_last_mtime ?u = f_mtime f" "nv_last_size ?u = length (f_content f)"
      using poll_loads [where v = v and path = path and d = d, OF Cons.prems(1,2) Some Cons.prems(3), of holds True] Cons.prems(4) Some
      by (simp_all add: Let_def)
    show ?thesis using Cons.IH [OF u(1) Cons.prems(2) u(2)] u Cons.prems(4) Some by simp
  qed
qed simp

theorem watcher_follows_file_witness:
  "nv_text (polls id ''/n/a'' [[''/n/a'' \<mapsto> \<lparr>f_content = ''c'', f_mtime = 2\<rparr>], Map.empty,
                              [''/n/a'' \<mapsto> \<lparr>f_content = ''dd'', f_mtime = 3\<rparr>]] demo_note) = ''dd''"
proof -
  have v: "nv_watched_path demo_note = ''/n/a''" "\<not> nv_triggered demo_note" "nv_last_mtime demo_note = 1"
    "nv_text demo_note = ''b''"
    by (simp_all add: demo_note_def user_edit_def new_note_view_def start_watcher_def load_note_def load_text_def
        note_path_def set_modified_def dirty_check_def call_def)
  show ?thesis
    using watcher_follows_file [OF v(1) _ v(2), of id "[[''/n/a'' \<mapsto> \<lparr>f_content = ''c'', f_mtime = 2\<rparr>], Map.empty,
                              [''/n/a'' \<mapsto> \<lparr>f_content = ''dd'', f_mtime = 3\<rparr>]]"] v
    by simp
qed

section \<open>A clean note is on disk\<close>

text \<open>
  A run without failures in which no other program writes and no state is restored: the texts typed can be held by the buffer,
  the chosen paths have a directory, and no path has a NUL character, which the store would cut.
\<close>

definition good_path :: "string \<Rightarrow> bool" where
  "good_path p \<longleftrightarrow> p \<noteq> '''' \<and> parent_path p \<noteq> '''' \<and> CHR 0x00 \<notin> set p"

fun quiet :: "(string \<Rightarrow> string) \<Rightarrow> note_op \<Rightarrow> bool" where
  "quiet holds (User_Edit t pos) \<longleftrightarrow> holds t = t"
| "quiet holds (Elsewhere p t mt) \<longleftrightarrow> False"
| "quiet holds (Save f mt) \<longleftrightarrow> f = no_write_faults"
| "quiet holds (Save_As f now mt ok p) \<longleftrightarrow> f = no_write_faults \<and> (p = '''' \<or> good_path p)"
| "quiet holds (Load now p) \<longleftrightarrow> good_path p"
| "quiet holds (Conflict f mt a) \<longleftrightarrow> f = no_write_faults"
| "quiet holds (Restore chars s adj) \<longleftrightarrow> False"
| "quiet holds _ \<longleftrightarrow> True"

definition held :: "(string \<Rightarrow> string) \<Rightarrow> disk \<Rightarrow> note_view \<Rightarrow> bool" where
  "held holds d v \<longleftrightarrow> holds (nv_text v) = nv_text v \<and> (\<forall>p f. d p = Some f \<longrightarrow> holds (f_content f) = f_content f)"

text \<open>The buffer is dirty, or its note has no path, or the file holds exactly the buffer.\<close>

definition on_disk :: "'s store \<Rightarrow> disk \<Rightarrow> note_view \<Rightarrow> bool" where
  "on_disk st d v \<longleftrightarrow>
     nv_modified v \<or> note_path st (nv_id v) = '''' \<or>
     map_option f_content (d (note_path st (nv_id v))) = Some (nv_text v)"

abbreviation bound :: "'s store \<Rightarrow> note_view \<Rightarrow> bool" where
  "bound st v \<equiv> note_path st (nv_id v) = '''' \<or> good_path (note_path st (nv_id v))"

lemma held_put:
  assumes "held holds d v"
  shows "held holds (d(p \<mapsto> \<lparr>f_content = nv_text v, f_mtime = mt\<rparr>)) v"
  using assms by (simp add: held_def)

lemma held_text: "held holds d v \<Longrightarrow> nv_text v' = nv_text v \<Longrightarrow> held holds d v'"
  by (simp add: held_def)

lemma on_disk_reload:
  assumes "on_disk st d v"
  shows "on_disk st d (reload_from_disk holds d v)"
  using assms by (auto simp: on_disk_def reload_from_disk_def note_simps split: option.splits)

lemma on_disk_cong:
  assumes "on_disk st d v" "nv_text u = nv_text v" "nv_modified u = nv_modified v" "nv_id u = nv_id v"
  shows "on_disk st d u"
  using assms by (simp add: on_disk_def)

lemma held_reload:
  assumes "held holds d v"
  shows "held holds d (reload_from_disk holds d v)"
  using assms by (auto simp: held_def reload_from_disk_def note_simps split: option.splits)

lemma poll_is_reload:
  "\<exists>u. (nv_text u = nv_text v \<and> nv_modified u = nv_modified v \<and> nv_id u = nv_id v) \<and>
     (snd (poll_file holds p auto realized d v) = u \<or> snd (poll_file holds p auto realized d v) = reload_from_disk holds d u)"
proof (cases "p = '''' \<or> p \<noteq> nv_watched_path v")
  case True
  then show ?thesis
    by (intro exI [of _ "start_watcher p d v"]) (simp add: poll_file_def note_simps)
next
  case False
  show ?thesis
  proof (cases "d p")
    case None
    then show ?thesis using False by (intro exI [of _ v]) (auto simp: poll_file_def)
  next
    case (Some f)
    let ?w = "v\<lparr>nv_last_mtime := f_mtime f, nv_last_size := length (f_content f)\<rparr>"
    consider "f_mtime f = nv_last_mtime v \<and> length (f_content f) = nv_last_size v"
      | "\<not> (f_mtime f = nv_last_mtime v \<and> length (f_content f) = nv_last_size v)" "nv_triggered v"
      | "\<not> (f_mtime f = nv_last_mtime v \<and> length (f_content f) = nv_last_size v)" "\<not> nv_triggered v" by blast
    then show ?thesis
    proof cases
      case 1
      then show ?thesis using False Some by (intro exI [of _ v]) (auto simp: poll_file_def)
    next
      case 2
      then show ?thesis using False Some by (intro exI [of _ ?w]) (auto simp: poll_file_def Let_def)
    next
      case 3
      then show ?thesis using False Some
        by (intro exI [of _ "?w\<lparr>nv_triggered := True\<rparr>"]) (auto simp add: poll_file_def Let_def)
    qed
  qed
qed

lemma note_path_set:
  assumes "sqlite_text.healthy_store dump parse st" "CHR 0x00 \<notin> set p"
  shows "note_path (set_note_path now n p st) n = p \<and> sqlite_text.healthy_store dump parse (set_note_path now n p st)"
  using sqlite_text.load_save_text [OF assms, of now "kPathPrefix @ n"]
  by (simp add: note_path_def set_note_path_def)

text \<open>What a quiet run keeps.\<close>

definition saved_note :: "(json \<Rightarrow> string option) \<Rightarrow> (string \<Rightarrow> json option) \<Rightarrow> (string \<Rightarrow> string) \<Rightarrow>
    sqlite note_world \<Rightarrow> bool" where
  "saved_note dump parse holds w \<longleftrightarrow>
     (case w of (st, d, v) \<Rightarrow>
        sqlite_text.healthy_store dump parse st \<and> held holds d v \<and> on_disk st d v \<and> bound st v)"

lemma good_pathD: "good_path p \<Longrightarrow> p \<noteq> '''' \<and> parent_path p \<noteq> '''' \<and> CHR 0x00 \<notin> set p"
  by (simp add: good_path_def)

lemma saved_note_put:
  assumes "sqlite_text.healthy_store dump parse st" "held holds d v" "good_path p" "note_path st (nv_id u) = p"
    "nv_text u = nv_text v"
  shows "saved_note dump parse holds (st, d(p \<mapsto> \<lparr>f_content = nv_text v, f_mtime = mt\<rparr>), u)"
  using assms held_text [OF held_put [OF assms(2)] assms(5)]
  by (simp add: saved_note_def on_disk_def)

lemma saved_note_save:
  assumes "saved_note dump parse holds (st, d, v)"
  shows "saved_note dump parse holds (st, snd (save_now no_write_faults mt (note_path st (nv_id v)) d v))"
proof (cases "note_path st (nv_id v) = ''''")
  case True
  then show ?thesis using assms by (simp add: save_now_def)
next
  case False
  with assms have g: "good_path (note_path st (nv_id v))" by (simp add: saved_note_def)
  then have "save_now no_write_faults mt (note_path st (nv_id v)) d v =
      (Saved, d(note_path st (nv_id v) \<mapsto> \<lparr>f_content = nv_text v, f_mtime = mt\<rparr>),
       call (File_Saved (note_path st (nv_id v))) (call Save_State_Changed (set_modified False (call Flush_Now v))))"
    using good_pathD by (intro save_now_ok) blast+
  moreover have "sqlite_text.healthy_store dump parse st" "held holds d v"
    using assms by (simp_all add: saved_note_def)
  note saved_note_put [OF this g, of "call (File_Saved (note_path st (nv_id v)))
      (call Save_State_Changed (set_modified False (call Flush_Now v)))" mt]
  ultimately show ?thesis by (simp add: note_simps)
qed

lemma saved_note_save_as:
  assumes "saved_note dump parse holds (st, d, v)" "p = '''' \<or> good_path p"
  shows "saved_note dump parse holds (snd (save_as_response no_write_faults now mt ok p st d v))"
proof (cases "\<not> ok \<or> p = ''''")
  case True
  then show ?thesis using assms by (auto simp: save_as_response_def)
next
  case False
  with assms(2) have g: "good_path p" by blast
  have h: "sqlite_text.healthy_store dump parse st" "held holds d v" using assms(1) by (simp_all add: saved_note_def)
  let ?st = "set_note_path now (nv_id v) p st"
  have st: "note_path ?st (nv_id v) = p" "sqlite_text.healthy_store dump parse ?st"
    using note_path_set [OF h(1), of p now "nv_id v"] good_pathD [OF g] by simp_all
  have "\<exists>u. snd (save_as_response no_write_faults now mt ok p st d v) =
      (?st, d(p \<mapsto> \<lparr>f_content = nv_text v, f_mtime = mt\<rparr>), u) \<and> nv_id u = nv_id v \<and> nv_text u = nv_text v"
    using False good_pathD [OF g]
    by (simp add: save_as_response_def write_note_file_ok Let_def note_simps)
  then obtain u where u: "snd (save_as_response no_write_faults now mt ok p st d v) =
      (?st, d(p \<mapsto> \<lparr>f_content = nv_text v, f_mtime = mt\<rparr>), u)" "nv_id u = nv_id v" "nv_text u = nv_text v" by blast
  show ?thesis unfolding u(1) using st u(2) by (intro saved_note_put [OF st(2) h(2) g _ u(3)]) simp
qed

lemma saved_note_load:
  assumes "saved_note dump parse holds (st, d, v)" "good_path p"
  shows "saved_note dump parse holds (note_step holds (Load now p) (st, d, v))"
proof (cases "d p")
  case None
  then show ?thesis using assms by (simp add: load_file_def)
next
  case (Some f)
  have h: "sqlite_text.healthy_store dump parse st" "held holds d v" using assms(1) by (simp_all add: saved_note_def)
  let ?st = "set_note_path now (nv_id v) p st"
  have st: "note_path ?st (nv_id v) = p" "sqlite_text.healthy_store dump parse ?st"
    using note_path_set [OF h(1), of p now "nv_id v"] good_pathD [OF assms(2)] by simp_all
  have "\<exists>u. note_step holds (Load now p) (st, d, v) = (?st, d, u) \<and> nv_id u = nv_id v \<and>
      nv_text u = holds (f_content f)"
    using Some by (simp add: load_file_def Let_def note_simps)
  then obtain u where u: "note_step holds (Load now p) (st, d, v) = (?st, d, u)" "nv_id u = nv_id v"
    "nv_text u = holds (f_content f)" by blast
  moreover have "holds (f_content f) = f_content f" using h(2) Some by (simp add: held_def)
  ultimately show ?thesis using st h(2) Some assms(2)
    by (simp add: saved_note_def on_disk_def held_def)
qed

lemma saved_note_reload:
  assumes "saved_note dump parse holds (st, d, v)"
  shows "saved_note dump parse holds (st, d, (reload_from_disk holds d v)\<lparr>nv_triggered := False\<rparr>)"
  using assms on_disk_reload [of st d v holds] held_reload [of holds d v]
  by (simp add: saved_note_def on_disk_def held_def note_simps)

lemma saved_note_step:
  assumes "saved_note dump parse holds w" "quiet holds op"
  shows "saved_note dump parse holds (note_step holds op w)"
proof (cases w)
  case (fields st d v)
  with assms(1) have s: "saved_note dump parse holds (st, d, v)" by simp
  then have h: "sqlite_text.healthy_store dump parse st" "held holds d v" "on_disk st d v" "bound st v"
    by (simp_all add: saved_note_def)
  have like: "saved_note dump parse holds (st, d, u)" "saved_note dump parse holds (st, d, reload_from_disk holds d u)"
    if u: "nv_text u = nv_text v" "nv_modified u = nv_modified v" "nv_id u = nv_id v" for u
  proof -
    note u2 = on_disk_cong [OF h(3) u] held_text [OF h(2) u(1)]
    show "saved_note dump parse holds (st, d, u)" using u2 h u(3) by (simp add: saved_note_def)
    show "saved_note dump parse holds (st, d, reload_from_disk holds d u)"
      using on_disk_reload [OF u2(1)] held_reload [OF u2(2)] h u(3) by (simp add: saved_note_def note_simps)
  qed
  show ?thesis
  proof (cases op)
    case (User_Edit t pos)
    then show ?thesis using h assms(2) fields
      by (simp add: saved_note_def user_edit_def on_disk_def held_def note_simps)
  next
    case (Poll auto realized)
    obtain u where "nv_text u = nv_text v" "nv_modified u = nv_modified v" "nv_id u = nv_id v"
      and "snd (poll_file holds (note_path st (nv_id v)) auto realized d v) = u \<or>
           snd (poll_file holds (note_path st (nv_id v)) auto realized d v) = reload_from_disk holds d u"
      using poll_is_reload [of v holds "note_path st (nv_id v)" auto realized d] by blast
    then show ?thesis using like [of u] Poll fields by auto
  next
    case (Reload_Answer ok)
    have "on_disk st d (u\<lparr>nv_triggered := False\<rparr>) \<longleftrightarrow> on_disk st d u"
      "held holds d (u\<lparr>nv_triggered := False\<rparr>) \<longleftrightarrow> held holds d u" for u :: note_view
      by (simp_all add: on_disk_def held_def)
    then show ?thesis using like [of v] Reload_Answer fields s
      by (simp add: prompt_reload_response_def saved_note_def)
  next
    case (Save f mt)
    then show ?thesis using saved_note_save [OF s] assms(2) fields by simp
  next
    case (Save_As f now mt ok p)
    then show ?thesis using saved_note_save_as [OF s] assms(2) fields by simp
  next
    case (Load now p)
    then show ?thesis using saved_note_load [OF s] assms(2) fields by (simp del: note_step.simps)
  next
    case (Conflict f mt a)
    obtain r d' v' where n: "save_now no_write_faults mt (note_path st (nv_id v)) d v = (r, d', v')" by (metis prod_cases3)
    have "saved_note dump parse holds (st, d', v')" using saved_note_save [OF s, of mt] n by simp
    then have sv: "saved_note dump parse holds (st, d', (reload_from_disk holds d' v')\<lparr>nv_triggered := False\<rparr>)"
      by (rule saved_note_reload)
    have "saved_note dump parse holds (st, d, (reload_from_disk holds d v)\<lparr>nv_triggered := False\<rparr>)"
      "saved_note dump parse holds (st, d, v\<lparr>nv_triggered := False\<rparr>)"
      using saved_note_reload [OF s] s by (simp_all add: saved_note_def on_disk_def held_def)
    with sv show ?thesis using Conflict fields assms(2) n
      by (simp add: conflict_response_def split: conflict_answer.split)
  qed (use assms(2) in simp_all)
qed

lemma fresh_note_saved:
  assumes "sqlite_text.healthy_store dump parse st" "note_path st n = ''''" "\<And>t. holds (holds t) = holds t" "holds '''' = ''''"
    "\<And>p f. d p = Some f \<Longrightarrow> holds (f_content f) = f_content f"
  shows "saved_note dump parse holds (st, d, new_note_view holds n st d)"
  using assms by (auto simp: saved_note_def held_def on_disk_def new_note_view_def start_watcher_def Let_def note_simps)

text \<open>C13: A note that shows no dot is on disk.  Over the SQLite store, take the tab of a note that has no path yet, and any
  run of edits, saves, loads, polls and answers in which no other program writes, no write fails, no saved state is
  restored and the paths have a directory and no NUL; the files' contents are text the buffer can hold.  If in the
  end the note is not marked modified and has a path, the file of that path has exactly what is in the buffer.
\<close>

theorem clean_note_is_on_disk:
  assumes "sqlite_text.healthy_store dump parse st0" "note_path st0 n = ''''" "\<And>t. holds (holds t) = holds t" "holds '''' = ''''"
    "\<And>p f. d0 p = Some f \<Longrightarrow> holds (f_content f) = f_content f" "\<forall>op \<in> set ops. quiet holds op"
    "note_run holds ops (st0, d0, new_note_view holds n st0 d0) = (st, d, v)" "\<not> nv_modified v" "note_path st (nv_id v) \<noteq> ''''"
  shows "map_option f_content (d (note_path st (nv_id v))) = Some (nv_text v)"
proof -
  have "saved_note dump parse holds (note_run holds ops w)" if "saved_note dump parse holds w" for w
    using that assms(6) unfolding note_run_def
  proof (induction ops arbitrary: w)
    case (Cons op ops)
    then show ?case using saved_note_step [OF Cons.prems(1), of op] by simp
  qed simp
  moreover have "saved_note dump parse holds (st0, d0, new_note_view holds n st0 d0)"
    using assms(1-5) by (rule fresh_note_saved)
  ultimately have "saved_note dump parse holds (st, d, v)" using assms(7) by metis
  with assms(8,9) show ?thesis by (simp add: saved_note_def on_disk_def)
qed

text \<open>A file opened, edited and saved.\<close>

definition demo_disk :: disk where
  "demo_disk = [''/n/a'' \<mapsto> \<lparr>f_content = ''a'', f_mtime = 1\<rparr>]"

definition demo_store :: "sqlite store" where
  "demo_store = Some (sqlite_storage (\<lambda>_. None) (\<lambda>_. None), plain_db)"

lemma demo_healthy: "sqlite_text.healthy_store (\<lambda>_. None) (\<lambda>_. None) demo_store"
  using idle_plain by (simp add: demo_store_def sqlite_text.healthy_store_def)

lemma demo_path: "good_path ''/n/a''" "parent_path ''/n/a'' \<noteq> ''''"
proof -
  show p: "parent_path ''/n/a'' \<noteq> ''''" by code_simp
  then show "good_path ''/n/a''" by (simp add: good_path_def)
qed

text \<open>A new note is opened from a file, edited and saved.\<close>

theorem clean_note_is_on_disk_witness:
  "\<exists>st d v. note_run id [Load 0 ''/n/a'', User_Edit ''b'' 1, Save no_write_faults 2]
      (demo_store, demo_disk, new_note_view id ''x'' demo_store demo_disk) = (st, d, v) \<and>
    nv_text v = ''b'' \<and> map_option f_content (d ''/n/a'') = Some ''b''"
proof -
  let ?ops = "[Load 0 ''/n/a'', User_Edit ''b'' 1, Save no_write_faults 2]"
  let ?v = "new_note_view id ''x'' demo_store demo_disk"
  let ?st = "set_note_path 0 ''x'' ''/n/a'' demo_store"
  have p: "note_path demo_store ''x'' = ''''" by code_simp
  have st: "note_path ?st ''x'' = ''/n/a''"
    using note_path_set [OF demo_healthy, of "''/n/a''" 0 "''x''"] by simp
  obtain st d v where r: "note_run id ?ops (demo_store, demo_disk, ?v) = (st, d, v)" by (metis prod_cases3)
  have x: "nv_id ?v = ''x''" by (simp add: new_note_view_def Let_def note_simps)
  have e: "\<not> nv_modified v" "nv_text v = ''b''" "nv_id v = ''x''" "st = ?st"
    using r st x demo_path
    by (auto simp: note_run_def user_edit_def note_simps load_file_def demo_disk_def save_now_ok Let_def)
  have q: "\<forall>op \<in> set ?ops. quiet id op" using demo_path by simp
  have "map_option f_content (d (note_path st (nv_id v))) = Some (nv_text v)"
    by (rule clean_note_is_on_disk [OF demo_healthy p _ _ _ q r]) (use e st in simp_all)
  with r e st show ?thesis by simp
qed

end
