(* ===== verification/Terminal_Pane.thy ===== *)
theory Terminal_Pane
  imports History_Tracker Terminal_Cwd Paths
begin

text \<open>
  \<^verbatim>\<open>gui/terminal/terminal_pane.hpp\<close> and \<^verbatim>\<open>.cpp\<close> and \<^verbatim>\<open>gui/terminal/history_file_watcher.cpp\<close>: one
  terminal, and the thread that watches the directory of the shells' history files.  The terminal
  widget is the library's; what the pane asks of it (spawning a shell, sizing, restoring a snapshot,
  feeding text) is a log, and what it answers (its size, its snapshot, its directory) is an argument.
\<close>

unbundle bit_operations_syntax

section \<open>A pane\<close>

type_synonym environment = "string \<rightharpoonup> string"

datatype vte_call = Vte_Spawn string string environment | Vte_Set_Size u32 u32 | Vte_Restore bytes | Vte_Feed string

record tpane =
  tp_shell :: string
  tp_cwd :: string
  tp_history_file :: string
  tp_cached_cwd :: string
  tp_tracker :: "tracker option"
  tp_envp :: "environment option"
  tp_pid :: int
  tp_pgid :: int
  tp_interrupted :: "interrupted_command option"
  tp_vte :: "vte_call list"

definition vte_call :: "vte_call \<Rightarrow> tpane \<Rightarrow> tpane" where
  "vte_call x p = p\<lparr>tp_vte := tp_vte p @ [x]\<rparr>"

definition spawn_env :: "environment \<Rightarrow> string \<Rightarrow> environment" where
  "spawn_env env hist =
     (if hist = '''' then env
      else
        let prompt = (case env ''PROMPT_COMMAND'' of
                        Some e \<Rightarrow> if e \<noteq> '''' then ''history -a; '' @ e else ''history -a''
                      | None \<Rightarrow> ''history -a'')
        in env(''HISTFILE'' \<mapsto> hist, ''PROMPT_COMMAND'' \<mapsto> prompt))"

text \<open>The environment is built at the first spawn and kept.\<close>

definition spawn_shell :: "environment \<Rightarrow> string \<Rightarrow> tpane \<Rightarrow> tpane" where
  "spawn_shell env cwd p =
     (let e = (case tp_envp p of Some e \<Rightarrow> e | None \<Rightarrow> spawn_env env (tp_history_file p));
          p = vte_call (Vte_Spawn (tp_shell p) cwd e) (p\<lparr>tp_envp := Some e\<rparr>)
      in if cwd \<noteq> '''' then p\<lparr>tp_cwd := cwd\<rparr> else p)"

definition or_home :: "environment \<Rightarrow> string \<Rightarrow> string" where
  "or_home env cwd = (if cwd \<noteq> '''' then cwd else case env ''HOME'' of Some h \<Rightarrow> h | None \<Rightarrow> '''')"

definition new_tpane :: "environment \<Rightarrow> string \<Rightarrow> string \<Rightarrow> string \<Rightarrow> bool \<Rightarrow> tpane" where
  "new_tpane env shell cwd hist defer_spawn =
     (let p = \<lparr>tp_shell = shell, tp_cwd = or_home env cwd, tp_history_file = hist, tp_cached_cwd = or_home env cwd,
               tp_tracker = (if hist \<noteq> '''' then Some new_tracker else None), tp_envp = None, tp_pid = 0,
               tp_pgid = 0, tp_interrupted = None, tp_vte = []\<rparr>
      in if defer_spawn then p else spawn_shell env (tp_cwd p) p)"

text \<open>The shell runs, or could not be started (\<open>- 1\<close>); \<open>getpgid\<close> is the system's.\<close>

definition on_spawned :: "(int \<Rightarrow> int) \<Rightarrow> int \<Rightarrow> tpane \<Rightarrow> tpane" where
  "on_spawned getpgid pid p = p\<lparr>tp_pid := pid, tp_pgid := getpgid pid\<rparr>"

definition load_history :: "file_view \<Rightarrow> tpane \<Rightarrow> tpane outcome" where
  "load_history fv p =
     (case tp_tracker p of
        None \<Rightarrow> Returned p
      | Some tr \<Rightarrow>
          (case initial_load fv tr of
             Returned (_, tr) \<Rightarrow> Returned (p\<lparr>tp_tracker := Some tr\<rparr>)
           | Threw \<Rightarrow> Threw
           | Blocked \<Rightarrow> Blocked))"

definition initialize_fresh :: "environment \<Rightarrow> file_view \<Rightarrow> tpane \<Rightarrow> tpane outcome" where
  "initialize_fresh env fv p =
     (let p = p\<lparr>tp_cwd := or_home env (tp_cwd p)\<rparr>
      in load_history fv (spawn_shell env (tp_cwd p) p))"

section \<open>Checkpoint and restore\<close>

text \<open>
  What the terminal answers: its size, its snapshot and the directory it was told.  \<open>canonical\<close> reads
  a link of \<^verbatim>\<open>/proc\<close>.
\<close>

record vte_view =
  vv_cols :: int
  vv_rows :: int
  vv_snapshot :: "bytes option"
  vv_uri :: "string option"

definition resolve_capture_cwd :: "environment \<Rightarrow> (string \<Rightarrow> string option) \<Rightarrow> vte_view \<Rightarrow> tpane \<Rightarrow> string" where
  "resolve_capture_cwd env canonical vv p =
     pick_capture_cwd (case vv_uri vv of Some u \<Rightarrow> osc7_file_uri_to_path u | None \<Rightarrow> '''')
       (read_proc_cwd canonical (tp_pid p)) (tp_cached_cwd p)
       (case env ''HOME'' of Some h \<Rightarrow> h | None \<Rightarrow> '''')"

definition runtime_capture :: "environment \<Rightarrow> (string \<Rightarrow> string option) \<Rightarrow> vte_view \<Rightarrow> tpane \<Rightarrow>
    terminal_runtime_snapshot \<times> tpane" where
  "runtime_capture env canonical vv p =
     (let cwd = resolve_capture_cwd env canonical vv p
      in (\<lparr>rs_cwd = cwd, rs_shell = tp_shell p, rs_cols = word_of_int (vv_cols vv), rs_rows = word_of_int (vv_rows vv),
           rs_snapshot_data = (case vv_snapshot vv of Some d \<Rightarrow> d | None \<Rightarrow> []), rs_command_history = [],
           rs_interrupted_command = tp_interrupted p\<rparr>,
          if cwd \<noteq> '''' then p\<lparr>tp_cached_cwd := cwd\<rparr> else p))"

definition crlf :: string where
  "crlf = [CHR 0x0D, CHR 0x0A]"

definition restore_screen :: "(bytes \<Rightarrow> bool) \<Rightarrow> pane_state \<Rightarrow> tpane \<Rightarrow> tpane" where
  "restore_screen restores s p =
     (let p = (if 0 < ps_cols s \<and> 0 < ps_rows s then vte_call (Vte_Set_Size (ps_cols s) (ps_rows s)) p else p);
          p = (if ps_snapshot_data s = [] then p
               else
                 let p = vte_call (Vte_Restore (ps_snapshot_data s)) p
                 in if restores (ps_snapshot_data s) then vte_call (Vte_Feed crlf) p else p);
          p = (if ps_shell s \<noteq> '''' then p\<lparr>tp_shell := ps_shell s\<rparr> else p)
      in p\<lparr>tp_cached_cwd := ps_cwd s\<rparr>)"

definition runtime_restore :: "environment \<Rightarrow> (string \<Rightarrow> bool) \<Rightarrow> (bytes \<Rightarrow> bool) \<Rightarrow> file_view \<Rightarrow> pane_state \<Rightarrow>
    tpane \<Rightarrow> tpane outcome" where
  "runtime_restore env is_directory restores fv s p =
     (if ps_snapshot_data s = [] \<and> ps_cols s = 0 \<and> ps_rows s = 0 \<and> ps_cwd s = '''' \<and> ps_shell s = ''''
      then initialize_fresh env fv p
      else
        let home = (case env ''HOME'' of Some h \<Rightarrow> h | None \<Rightarrow> '''')
        in load_history fv (spawn_shell env (pick_restore_cwd is_directory (ps_cwd s) home)
             (restore_screen restores s p)))"

section \<open>Input\<close>

text \<open>The result tells whether the history callback is due.\<close>

definition sync_history :: "file_view \<Rightarrow> tpane \<Rightarrow> (bool \<times> tpane) outcome" where
  "sync_history fv p =
     (case tp_tracker p of
        None \<Rightarrow> Returned (False, p)
      | Some tr \<Rightarrow>
          (case sync fv tr of
             Returned (changed, tr) \<Rightarrow> Returned (changed, p\<lparr>tp_tracker := Some tr\<rparr>)
           | Threw \<Rightarrow> Threw
           | Blocked \<Rightarrow> Blocked))"

definition on_commit :: "file_view \<Rightarrow> i64 \<Rightarrow> string \<Rightarrow> tpane \<Rightarrow> (bool \<times> tpane) outcome" where
  "on_commit fv now_us t p =
     (if t = '''' then Returned (False, p)
      else case sync_history fv p of
             Returned (changed, p) \<Rightarrow>
               Returned (changed,
                 if CHR 0x03 \<in> set t then
                   (case tp_tracker p of
                      None \<Rightarrow> p
                    | Some tr \<Rightarrow>
                        (case commands_desc tr of
                           [] \<Rightarrow> p
                         | cmd # _ \<Rightarrow> p\<lparr>tp_interrupted := Some \<lparr>ic_command = cr_command cmd,
                              ic_timestamp_us = now_us, ic_source = CtrlC\<rparr>\<rparr>))
                 else p)
           | Threw \<Rightarrow> Threw
           | Blocked \<Rightarrow> Blocked)"

datatype pane_key = Key_Copy | Key_Paste | Key_Nothing | Key_Unhandled

text \<open>A key with its modifiers; \<open>Key_Nothing\<close> is handled without an effect.\<close>

definition on_key :: "bool \<Rightarrow> bool \<Rightarrow> char \<Rightarrow> bool \<Rightarrow> pane_key" where
  "on_key ctrl shift key has_selection =
     (if \<not> ctrl \<or> \<not> shift then Key_Unhandled
      else if key = CHR ''C'' \<or> key = CHR ''c'' then (if has_selection then Key_Copy else Key_Nothing)
      else if key = CHR ''V'' \<or> key = CHR ''v'' then Key_Paste
      else Key_Unhandled)"

section \<open>Shutdown\<close>

text \<open>
  What \<^verbatim>\<open>waitpid\<close> answers at each round before the deadline: the child runs, is reaped, is no child,
  or the call fails otherwise.
\<close>

datatype wait_answer = Running | Reaped | No_Child | Wait_Failed

datatype signal = Hup int | Kill int

fun wait_loop :: "wait_answer list \<Rightarrow> bool" where
  "wait_loop [] \<longleftrightarrow> False"
| "wait_loop (a # rest) \<longleftrightarrow> a = Reaped \<or> a = No_Child \<or> wait_loop rest"

definition terminate_and_wait :: "wait_answer list \<Rightarrow> tpane \<Rightarrow> bool \<times> signal list \<times> tpane" where
  "terminate_and_wait answers p =
     (if tp_pgid p \<le> 0 then (True, [], p)
      else
        let q = p\<lparr>tp_pid := 0, tp_pgid := 0\<rparr>
        in if wait_loop answers then (True, [Hup (- tp_pgid p)], q)
           else (False, [Hup (- tp_pgid p), Kill (- tp_pgid p)], q))"

section \<open>The watcher of the history directory\<close>

record hist_watcher =
  hw_running :: bool
  hw_dir :: string
  hw_pane_to_file :: "string \<rightharpoonup> string"
  hw_file_to_pane :: "string \<rightharpoonup> string"

definition new_hist_watcher :: hist_watcher where
  "new_hist_watcher = \<lparr>hw_running = False, hw_dir = '''', hw_pane_to_file = Map.empty, hw_file_to_pane = Map.empty\<rparr>"

definition hw_start :: "bool \<Rightarrow> bool \<Rightarrow> string \<Rightarrow> hist_watcher \<Rightarrow> bool \<times> hist_watcher" where
  "hw_start init_fails watch_fails dir w =
     (if hw_running w then (True, w)
      else if init_fails \<or> watch_fails then (False, w\<lparr>hw_dir := dir\<rparr>)
      else (True, w\<lparr>hw_dir := dir, hw_running := True\<rparr>))"

definition hw_stop :: "hist_watcher \<Rightarrow> hist_watcher" where
  "hw_stop w = w\<lparr>hw_running := False\<rparr>"

definition register_pane :: "string \<Rightarrow> string \<Rightarrow> hist_watcher \<Rightarrow> hist_watcher" where
  "register_pane pane histfile_path w =
     w\<lparr>hw_pane_to_file := (hw_pane_to_file w)(pane \<mapsto> filename histfile_path),
       hw_file_to_pane := (hw_file_to_pane w)(filename histfile_path \<mapsto> pane)\<rparr>"

definition unregister_pane :: "string \<Rightarrow> hist_watcher \<Rightarrow> hist_watcher" where
  "unregister_pane pane w =
     (case hw_pane_to_file w pane of
        None \<Rightarrow> w
      | Some f \<Rightarrow> w\<lparr>hw_file_to_pane := (hw_file_to_pane w)(f := None),
                   hw_pane_to_file := (hw_pane_to_file w)(pane := None)\<rparr>)"

definition ends_with :: "string \<Rightarrow> string \<Rightarrow> bool" where
  "ends_with suf s \<longleftrightarrow> length suf \<le> length s \<and> drop (length s - length suf) s = suf"

definition is_history_name :: "string \<Rightarrow> bool" where
  "is_history_name f \<longleftrightarrow> starts_with ''pane-'' f \<and> 5 < length f \<and> ends_with ''.hist'' f"

text \<open>\<^verbatim>\<open>IN_MODIFY | IN_CLOSE_WRITE | IN_MOVED_TO | IN_CREATE\<close>\<close>

definition kInterestingMask :: u32 where
  "kInterestingMask = 0x2 OR 0x8 OR 0x80 OR 0x100"

definition handle_event :: "string \<Rightarrow> u32 \<Rightarrow> hist_watcher \<Rightarrow> string option" where
  "handle_event f evmask w =
     (if evmask AND kInterestingMask = 0 then None
      else case hw_file_to_pane w f of
             Some pane \<Rightarrow> if pane \<noteq> '''' then Some pane else None
           | None \<Rightarrow> None)"

text \<open>One read of events, as pairs of a mask and a name: the panes called back, in order.\<close>

definition hw_events :: "(u32 \<times> string) list \<Rightarrow> hist_watcher \<Rightarrow> string list" where
  "hw_events evs w =
     List.map_filter (\<lambda>(evmask, f). if f \<noteq> '''' \<and> is_history_name f then handle_event f evmask w else None) evs"

section \<open>Shells\<close>

fun is_spawn :: "vte_call \<Rightarrow> bool" where
  "is_spawn (Vte_Spawn _ _ _) \<longleftrightarrow> True"
| "is_spawn _ \<longleftrightarrow> False"

definition shells :: "tpane \<Rightarrow> vte_call list" where
  "shells p = filter is_spawn (tp_vte p)"

text \<open>How a tab makes a pane that has nothing to restore, and one that has.\<close>

definition make_fresh_pane :: "environment \<Rightarrow> file_view \<Rightarrow> string \<Rightarrow> string \<Rightarrow> tpane outcome" where
  "make_fresh_pane env fv shell hist = initialize_fresh env fv (new_tpane env shell '''' hist False)"

definition make_restored_pane :: "environment \<Rightarrow> (string \<Rightarrow> bool) \<Rightarrow> (bytes \<Rightarrow> bool) \<Rightarrow> file_view \<Rightarrow> string \<Rightarrow> string \<Rightarrow>
    pane_state \<Rightarrow> tpane outcome" where
  "make_restored_pane env is_directory restores fv shell hist s =
     runtime_restore env is_directory restores fv s (new_tpane env shell (ps_cwd s) hist True)"

lemma spawn_shell_vte: "\<exists>e. tp_vte (spawn_shell env cwd p) = tp_vte p @ [Vte_Spawn (tp_shell p) cwd e]"
  by (simp add: spawn_shell_def vte_call_def Let_def)

lemma load_history_vte: "load_history fv p = Returned q \<Longrightarrow> tp_vte q = tp_vte p"
  by (auto simp: load_history_def split: option.splits outcome.splits prod.splits)

lemma spawn_shell_fields [simp]: "tp_shell (spawn_shell env cwd p) = tp_shell p"
  "tp_history_file (spawn_shell env cwd p) = tp_history_file p" "tp_tracker (spawn_shell env cwd p) = tp_tracker p"
  "tp_envp (spawn_shell env cwd p) = Some (case tp_envp p of Some e \<Rightarrow> e | None \<Rightarrow> spawn_env env (tp_history_file p))"
  by (simp_all add: spawn_shell_def vte_call_def Let_def)

lemma spawn_shell_log: "tp_vte (spawn_shell env cwd p) =
    tp_vte p @ [Vte_Spawn (tp_shell p) cwd (case tp_envp p of Some e \<Rightarrow> e | None \<Rightarrow> spawn_env env (tp_history_file p))]"
  by (simp add: spawn_shell_def vte_call_def Let_def)

lemma or_home_idem [simp]: "or_home env (or_home env x) = or_home env x"
  by (simp add: or_home_def split: option.splits)

lemma fresh_pane_log:
  assumes "make_fresh_pane env fv shell hist = Returned p"
  shows "tp_vte p = [Vte_Spawn shell (or_home env '''') (spawn_env env hist),
                     Vte_Spawn shell (or_home env '''') (spawn_env env hist)]"
proof -
  let ?p = "new_tpane env shell '''' hist False"
  have p: "tp_vte ?p = [Vte_Spawn shell (or_home env '''') (spawn_env env hist)]" "tp_shell ?p = shell"
    "tp_cwd ?p = or_home env ''''" "tp_envp ?p = Some (spawn_env env hist)"
    by (simp_all add: new_tpane_def spawn_shell_log Let_def) (simp add: spawn_shell_def vte_call_def Let_def)
  have "tp_vte p = tp_vte (spawn_shell env (or_home env '''') (?p\<lparr>tp_cwd := or_home env ''''\<rparr>))"
    using assms load_history_vte unfolding make_fresh_pane_def initialize_fresh_def Let_def by (simp add: p)
  then show ?thesis by (simp add: spawn_shell_log p)
qed

lemma restore_screen_no_shell:
  "\<not> list_ex is_spawn (tp_vte p) \<Longrightarrow> \<not> list_ex is_spawn (tp_vte (restore_screen restores s p))"
  by (simp add: restore_screen_def vte_call_def Let_def)

lemma restored_pane_log:
  assumes "make_restored_pane env is_directory restores fv shell hist s = Returned p"
  shows "\<exists>before sh cwd e. tp_vte p = before @ [Vte_Spawn sh cwd e] \<and> \<not> list_ex is_spawn before"
proof -
  let ?p = "new_tpane env shell (ps_cwd s) hist True"
  have p: "tp_vte ?p = []" by (simp add: new_tpane_def Let_def)
  show ?thesis
  proof (cases "ps_snapshot_data s = [] \<and> ps_cols s = 0 \<and> ps_rows s = 0 \<and> ps_cwd s = '''' \<and> ps_shell s = ''''")
    case True
    then have "tp_vte p = tp_vte (spawn_shell env (or_home env (tp_cwd ?p)) (?p\<lparr>tp_cwd := or_home env (tp_cwd ?p)\<rparr>))"
      using assms load_history_vte unfolding make_restored_pane_def runtime_restore_def initialize_fresh_def Let_def by simp
    then show ?thesis by (simp add: spawn_shell_log p)
  next
    case False
    let ?cwd = "pick_restore_cwd is_directory (ps_cwd s) (case env ''HOME'' of Some h \<Rightarrow> h | None \<Rightarrow> '''')"
    have "tp_vte p = tp_vte (spawn_shell env ?cwd (restore_screen restores s ?p))"
      using assms unfolding make_restored_pane_def runtime_restore_def Let_def if_not_P [OF False]
      by (rule load_history_vte)
    then show ?thesis using restore_screen_no_shell [of ?p restores s] p by (simp add: spawn_shell_log)
  qed
qed

lemma fresh_pane_returns:
  assumes "fv_content fv = ''''" "hist \<noteq> ''''"
  shows "\<exists>p. make_fresh_pane env fv shell hist = Returned p"
proof -
  let ?q = "spawn_shell env (or_home env '''') (new_tpane env shell '''' hist False\<lparr>tp_cwd := or_home env ''''\<rparr>)"
  have c: "tp_cwd (new_tpane env shell '''' hist False) = or_home env ''''"
    by (simp add: new_tpane_def Let_def) (simp add: spawn_shell_def vte_call_def Let_def)
  have "tp_tracker ?q = Some new_tracker" using assms(2) by (simp add: new_tpane_def Let_def)
  then have "\<exists>p. load_history fv ?q = Returned p"
    using assms(1) by (simp add: load_history_def initial_load_def with_lock_def new_tracker_def)
  then show ?thesis by (simp add: make_fresh_pane_def initialize_fresh_def c Let_def)
qed

text \<open>A restored pane replays what was captured and then starts exactly one shell.  A pane of a new
  tab or split starts two: the constructor spawns one and \<^verbatim>\<open>initialize_fresh\<close> another, the same shell
  in the same directory with the same history file, in one terminal.
\<close>

theorem fresh_pane_runs_two_shells:
  "(make_restored_pane env is_directory restores fv shell hist s = Returned q \<longrightarrow>
      length (shells q) = 1 \<and> is_spawn (last (tp_vte q))) \<and>
   (make_fresh_pane env fv shell hist = Returned p \<longrightarrow>
      (\<exists>e. shells p = [Vte_Spawn shell (or_home env '''') e, Vte_Spawn shell (or_home env '''') e] \<and>
           (hist \<noteq> '''' \<longrightarrow> e ''HISTFILE'' = Some hist)))"
proof (intro conjI impI)
  assume "make_restored_pane env is_directory restores fv shell hist s = Returned q"
  from restored_pane_log [OF this] obtain before sh cwd e where
    q: "tp_vte q = before @ [Vte_Spawn sh cwd e]" "\<not> list_ex is_spawn before" by (elim exE conjE)
  then have "filter is_spawn before = []" by (simp add: list_ex_iff filter_empty_conv)
  with q show "length (shells q) = 1" by (simp add: shells_def)
  show "is_spawn (last (tp_vte q))" using q by simp
next
  assume "make_fresh_pane env fv shell hist = Returned p"
  from fresh_pane_log [OF this]
  show "\<exists>e. shells p = [Vte_Spawn shell (or_home env '''') e, Vte_Spawn shell (or_home env '''') e] \<and>
      (hist \<noteq> '''' \<longrightarrow> e ''HISTFILE'' = Some hist)"
    by (simp add: shells_def spawn_env_def Let_def)
qed

theorem fresh_pane_runs_two_shells_witness:
  "\<exists>p. make_fresh_pane [''HOME'' \<mapsto> ''/h''] \<lparr>fv_content = '''', fv_size = 0, fv_mtime = 0\<rparr> ''/bin/sh'' ''/h/p.hist'' = Returned p \<and>
     length (shells p) = 2"
proof -
  let ?env = "[''HOME'' \<mapsto> ''/h''] :: environment" and ?fv = "\<lparr>fv_content = '''', fv_size = 0, fv_mtime = 0\<rparr>"
  obtain p where p: "make_fresh_pane ?env ?fv ''/bin/sh'' ''/h/p.hist'' = Returned p"
    using fresh_pane_returns [of ?fv "''/h/p.hist''" ?env "''/bin/sh''"] by auto
  with fresh_pane_runs_two_shells [of ?env "\<lambda>_. True" "\<lambda>_. True" ?fv "''/bin/sh''" "''/h/p.hist''" empty_pane_state p p]
  show ?thesis by auto
qed

section \<open>The watcher calls back the registered panes\<close>

datatype watch_op = Register string | Unregister string

definition history_name :: "string \<Rightarrow> string" where
  "history_name pane = ''pane-'' @ pane @ ''.hist''"

definition watch_step :: "string \<Rightarrow> watch_op \<Rightarrow> hist_watcher \<Rightarrow> hist_watcher" where
  "watch_step dir op w =
     (case op of
        Register pane \<Rightarrow> register_pane pane (dir @ ''/'' @ history_name pane) w
      | Unregister pane \<Rightarrow> unregister_pane pane w)"

text \<open>The abstract watcher is the set of registered panes.\<close>

definition watched :: "watch_op \<Rightarrow> string set \<Rightarrow> string set" where
  "watched op s = (case op of Register pane \<Rightarrow> insert pane s | Unregister pane \<Rightarrow> s - {pane})"

fun op_pane :: "watch_op \<Rightarrow> string" where
  "op_pane (Register p) = p"
| "op_pane (Unregister p) = p"

definition hw_refines :: "hist_watcher \<Rightarrow> string set \<Rightarrow> bool" where
  "hw_refines w s \<longleftrightarrow>
     (\<forall>p. hw_pane_to_file w p = (if p \<in> s then Some (history_name p) else None)) \<and>
     (\<forall>p. hw_file_to_pane w (history_name p) = (if p \<in> s then Some p else None))"

lemma history_name_inj [simp]: "history_name p = history_name q \<longleftrightarrow> p = q"
  by (simp add: history_name_def)

lemma history_name_file: "slash \<notin> set p \<Longrightarrow> filename (dir @ ''/'' @ history_name p) = history_name p"
  using filename_append [of "history_name p" dir] by (simp add: history_name_def slash_def)

lemma watch_step_refines:
  assumes "hw_refines w s" "slash \<notin> set (op_pane op)"
  shows "hw_refines (watch_step dir op w) (watched op s)"
proof (cases op)
  case (Register p)
  then show ?thesis using assms history_name_file [of p dir]
    by (auto simp: hw_refines_def watch_step_def watched_def register_pane_def)
next
  case (Unregister p)
  then show ?thesis using assms
    by (auto simp: hw_refines_def watch_step_def watched_def unregister_pane_def)
qed

lemma history_name_ok: "is_history_name (history_name p) \<and> history_name p \<noteq> ''''"
  by (simp add: is_history_name_def history_name_def starts_with_def ends_with_def)

text \<open>C36: The watcher of the history directory implements the set of registered panes, whose identifiers have no slash: after any
  sequence of registrations and removals, a change of a pane's history file calls back that pane if it
  is registered and none otherwise, and other kinds of events call back nobody.
\<close>

theorem history_watch_refines:
  assumes "\<forall>op \<in> set ops. slash \<notin> set (op_pane op)" "pane \<noteq> ''''"
  shows "hw_events [(evmask, history_name pane)] (fold (watch_step dir) ops new_hist_watcher) =
    (if evmask AND kInterestingMask \<noteq> 0 \<and> pane \<in> fold watched ops {} then [pane] else [])"
proof -
  have "hw_refines (fold (watch_step dir) ops w) (fold watched ops s)" if "hw_refines w s" for w s
    using that assms(1)
  proof (induction ops arbitrary: w s)
    case (Cons op ops)
    then show ?case using watch_step_refines [OF Cons.prems(1), of op dir] by simp
  qed simp
  then have "hw_refines (fold (watch_step dir) ops new_hist_watcher) (fold watched ops {})"
    by (simp add: hw_refines_def new_hist_watcher_def)
  then show ?thesis using history_name_ok [of pane] assms(2)
    by (simp add: hw_events_def handle_event_def hw_refines_def map_filter_simps)
qed

theorem history_watch_refines_witness:
  "hw_events [(8, history_name ''a'')] (fold (watch_step ''/d'') [Register ''a'', Register ''b'', Unregister ''b'']
     new_hist_watcher) = [''a''] \<and>
   hw_events [(8, history_name ''b'')] (fold (watch_step ''/d'') [Register ''a'', Register ''b'', Unregister ''b'']
     new_hist_watcher) = []"
  using history_watch_refines [of "[Register ''a'', Register ''b'', Unregister ''b'']" "''a''" 8 "''/d''"]
    history_watch_refines [of "[Register ''a'', Register ''b'', Unregister ''b'']" "''b''" 8 "''/d''"]
  by (simp add: watched_def kInterestingMask_def slash_def)

text \<open>
  Shutting a pane down: a pane without a process is left alone; else its group is hung up once, killed
  only when the shell outlives the deadline, and nothing is left to signal.
\<close>

lemma terminate_signals:
  "terminate_and_wait answers p = (ok, sigs, q) \<Longrightarrow>
     (if tp_pgid p \<le> 0 then ok \<and> sigs = [] \<and> q = p
      else tp_pgid q = 0 \<and> (ok \<longleftrightarrow> Reaped \<in> set answers \<or> No_Child \<in> set answers) \<and>
           sigs = Hup (- tp_pgid p) # (if ok then [] else [Kill (- tp_pgid p)]) \<and>
           fst (snd (terminate_and_wait again q)) = [])"
proof -
  have "wait_loop answers \<longleftrightarrow> Reaped \<in> set answers \<or> No_Child \<in> set answers"
    by (induction answers) auto
  then show "terminate_and_wait answers p = (ok, sigs, q) \<Longrightarrow> ?thesis"
    by (auto simp: terminate_and_wait_def Let_def split: if_splits)
qed

end
