(* ===== verification/Terminal_Tab.thy ===== *)
theory Terminal_Tab
  imports Terminal_Pane Core_Lookup Floating Session_Controller
begin

text \<open>
  \<^verbatim>\<open>gui/window/terminal_tab_view.hpp\<close> and \<^verbatim>\<open>.cpp\<close>: a terminal tab shows the tree of panes the engine
  keeps for it.  The tab owns one terminal per pane, rebuilds its widgets from the engine's tree after
  each change, and tells the engine of splits, closed panes, the focus and moved dividers.
\<close>

section \<open>The tab\<close>

datatype orientation = Vertical | Horizontal

text \<open>A divider keeps its ratio and the pane its moves are reported for.\<close>

datatype widget = W_Box | W_Pane string | W_Paned orientation widget widget dbl string

datatype tab_call = Pane_Focus | Close_Tab_Request | History_Added

record term_view =
  tv_window :: window_id
  tv_tab :: tab_id
  tv_root :: pane_id
  tv_title :: string
  tv_shell :: string
  tv_panes :: "(string \<times> tpane) list"
  tv_controllers :: "string list"
  tv_active :: pane_id
  tv_marked :: "string list"
  tv_tree :: "widget option"
  tv_watcher :: hist_watcher
  tv_seeded :: "(string \<times> string) list"
  tv_calls :: "tab_call list"

fun then_do :: "'a outcome \<Rightarrow> ('a \<Rightarrow> 'b outcome) \<Rightarrow> 'b outcome" where
  "then_do (Returned x) f = f x"
| "then_do Threw f = Threw"
| "then_do Blocked f = Blocked"

text \<open>\<^verbatim>\<open>std::map::emplace\<close>: a key that is there keeps its value.\<close>

definition emplace :: "string \<Rightarrow> tpane \<Rightarrow> (string \<times> tpane) list \<Rightarrow> (string \<times> tpane) list" where
  "emplace k p m = (if map_of m k \<noteq> None then m else insort_key fst (k, p) m)"

definition term_pane :: "pane_id \<Rightarrow> term_view \<Rightarrow> tpane option" where
  "term_pane i v = map_of (tv_panes v) (id_str i)"

definition tab_call :: "tab_call \<Rightarrow> term_view \<Rightarrow> term_view" where
  "tab_call x v = v\<lparr>tv_calls := tv_calls v @ [x]\<rparr>"

definition focus_or_root :: "term_view \<Rightarrow> pane_id" where
  "focus_or_root v = (if id_empty (tv_active v) then tv_root v else tv_active v)"

definition focused_pane :: "term_view \<Rightarrow> tpane option" where
  "focused_pane v = term_pane (focus_or_root v) v"

definition pane_history_file :: "string \<Rightarrow> pane_id \<Rightarrow> string" where
  "pane_history_file data_dir pane = data_dir @ ''/history'' @ ''/pane-'' @ id_str pane @ ''.hist''"

text \<open>The file written for a restored pane's shell, if any.\<close>

definition seed_shell_history :: "command_record list \<Rightarrow> string option" where
  "seed_shell_history commands =
     (if commands = [] then None else Some (concat (map (\<lambda>r. cr_command r @ [newline]) commands)))"

section \<open>Building the widgets\<close>

text \<open>
  The world around a tab: the environment, the data directory, the history files as the panes find
  them, and which directories exist and snapshots can be restored.
\<close>

record tab_env =
  te_env :: environment
  te_data_dir :: string
  te_file :: "string \<Rightarrow> file_view"
  te_is_directory :: "string \<Rightarrow> bool"
  te_restores :: "bytes \<Rightarrow> bool"

text \<open>A pane that has no terminal yet gets one, in the map and with the watcher.\<close>

definition add_fresh_pane :: "tab_env \<Rightarrow> pane_id \<Rightarrow> term_view \<Rightarrow> term_view outcome" where
  "add_fresh_pane e pid v =
     (let hist = pane_history_file (te_data_dir e) pid
      in then_do (make_fresh_pane (te_env e) (te_file e hist) (tv_shell v) hist)
           (\<lambda>p. Returned (v\<lparr>tv_panes := emplace (id_str pid) p (tv_panes v),
                           tv_watcher := register_pane (id_str pid) hist (tv_watcher v)\<rparr>)))"

definition add_controllers :: "pane_id \<Rightarrow> term_view \<Rightarrow> term_view" where
  "add_controllers pid v =
     (if id_str pid \<in> set (tv_controllers v) then v
      else v\<lparr>tv_controllers := id_str pid # tv_controllers v\<rparr>)"

definition mark_pane :: "pane_id \<Rightarrow> term_view \<Rightarrow> term_view" where
  "mark_pane pid v = v\<lparr>tv_marked := List.insert (id_str pid) (tv_marked v)\<rparr>"

fun split_orientation :: "split_kind \<Rightarrow> orientation" where
  "split_orientation SplitHorizontal = Vertical"
| "split_orientation SplitVertical = Horizontal"

fun first_leaf :: "pane_tree \<Rightarrow> pane option" where
  "first_leaf (Leaf p) = p"
| "first_leaf (Split _ a _ _) = first_leaf a"

definition first_child_pane :: "pane_tree \<Rightarrow> string" where
  "first_child_pane a = (case first_leaf a of Some p \<Rightarrow> id_str (p_id p) | None \<Rightarrow> '''')"

text \<open>\<^verbatim>\<open>set_paned_ratio\<close>\<close>

definition paned_ratio :: "dbl \<Rightarrow> dbl" where
  "paned_ratio r = dbl_clamp r (Fin 0) (Fin 1)"

fun build_node :: "tab_env \<Rightarrow> pane_tree \<Rightarrow> term_view \<Rightarrow> (widget \<times> term_view) outcome" where
  "build_node e (Leaf None) v = Returned (W_Box, v)"
| "build_node e (Leaf (Some p)) v =
     then_do (if term_pane (p_id p) v = None then add_fresh_pane e (p_id p) v else Returned v)
       (\<lambda>v. let v = add_controllers (p_id p) v;
                v = (if id_empty (tv_active v) \<and> p_id p = tv_root v then mark_pane (p_id p) v else v)
            in Returned (W_Pane (id_str (p_id p)), v))"
| "build_node e (Split k a b r) v =
     then_do (build_node e a v) (\<lambda>(wa, v).
       then_do (build_node e b v) (\<lambda>(wb, v).
         Returned (W_Paned (split_orientation k) wa wb (paned_ratio r) (first_child_pane a), v)))"

text \<open>The tab's tree as the engine has it: the last match, in windows with the tab's window id.\<close>

definition core_tree :: "term_view \<Rightarrow> core \<Rightarrow> pane_tree option" where
  "core_tree v c =
     (case ws_current c of
        None \<Rightarrow> None
      | Some ws \<Rightarrow>
          foldl (\<lambda>acc t. if t_id t = tv_tab v then Some (t_pane_tree t) else acc) None
            (concat (map w_tabs (filter (\<lambda>w. w_id w = tv_window v) (ws_windows ws)))))"

definition rebuild :: "tab_env \<Rightarrow> core \<Rightarrow> term_view \<Rightarrow> term_view outcome" where
  "rebuild e c v =
     (let v = v\<lparr>tv_active := empty_id, tv_tree := None\<rparr>
      in case core_tree v c of
           None \<Rightarrow> Returned v
         | Some t \<Rightarrow> then_do (build_node e t v) (\<lambda>(w, v). Returned (v\<lparr>tv_tree := Some w\<rparr>)))"

definition new_term_view :: "tab_env \<Rightarrow> string \<Rightarrow> window_id \<Rightarrow> tab_id \<Rightarrow> pane_id \<Rightarrow> term_view" where
  "new_term_view e shell w t root_pane =
     \<lparr>tv_window = w, tv_tab = t, tv_root = root_pane, tv_title = ''terminal'', tv_shell = shell, tv_panes = [],
      tv_controllers = [], tv_active = empty_id, tv_marked = [], tv_tree = None,
      tv_watcher = snd (hw_start False False (te_data_dir e @ ''/history'') new_hist_watcher),
      tv_seeded = [], tv_calls = []\<rparr>"

section \<open>Operations\<close>

text \<open>The split of the engine throws when the tab is gone; nothing above catches it.\<close>

definition split_view :: "tab_env \<Rightarrow> pane_id \<Rightarrow> split_kind \<Rightarrow> core \<Rightarrow> term_view \<Rightarrow> (pane_id \<times> core \<times> term_view) outcome" where
  "split_view e fresh kind c v =
     (case split_pane fresh (tv_tab v) kind (Fin (1 / 2)) c of
        Inl _ \<Rightarrow> Threw
      | Inr (new_pane, c) \<Rightarrow>
          if id_empty new_pane then Returned (empty_id, c, v)
          else then_do (add_fresh_pane e new_pane v)
            (\<lambda>v. then_do (rebuild e c (v\<lparr>tv_active := new_pane\<rparr>))
               (\<lambda>v. Returned (new_pane, c, tab_call Pane_Focus v))))"

definition close_focused_pane :: "tab_env \<Rightarrow> core \<Rightarrow> term_view \<Rightarrow> (bool \<times> core \<times> term_view) outcome" where
  "close_focused_pane e c v =
     (if (case ws_current c of
            None \<Rightarrow> False
          | Some ws \<Rightarrow> \<exists>w \<in> set (ws_windows ws). w_id w = tv_window v \<and>
              (\<exists>t \<in> set (w_tabs w). t_id t = tv_tab v \<and> is_leaf (t_pane_tree t)))
      then Returned (True, c, tab_call Close_Tab_Request v)
      else
        let target = focus_or_root v
        in case remove_pane (tv_tab v) target c of
             (False, c) \<Rightarrow> Returned (False, c, v)
           | (True, c) \<Rightarrow>
               let v = v\<lparr>tv_watcher := unregister_pane (id_str target) (tv_watcher v),
                         tv_panes := filter (\<lambda>(k, _). k \<noteq> id_str target) (tv_panes v),
                         tv_active := tv_root v\<rparr>
               in if term_pane (tv_root v) v = None \<and> tv_panes v = [] then Returned (False, c, v)
                  else
                    let v = (if term_pane (tv_root v) v = None then v\<lparr>tv_active := Id (fst (hd (tv_panes v)))\<rparr> else v)
                    in then_do (rebuild e c v) (\<lambda>v. Returned (True, c, v)))"

text \<open>A click on a pane, with any button.\<close>

definition click_pane :: "pane_id \<Rightarrow> core \<Rightarrow> term_view \<Rightarrow> core \<times> term_view" where
  "click_pane wid c v =
     (let v = (if \<not> id_empty (tv_active v) \<and> term_pane (tv_active v) v \<noteq> None
               then v\<lparr>tv_marked := remove1 (id_str (tv_active v)) (tv_marked v)\<rparr> else v);
          v = v\<lparr>tv_active := wid\<rparr>;
          (_, c) = focus_pane (tv_tab v) wid c;
          v = tab_call Pane_Focus v
      in (c, if term_pane wid v \<noteq> None then mark_pane wid v else v))"

definition activate_pane :: "pane_id \<Rightarrow> term_view \<Rightarrow> term_view" where
  "activate_pane pane v = v\<lparr>tv_active := pane\<rparr>"

definition add_history :: "pane_id \<Rightarrow> command_record \<Rightarrow> core \<Rightarrow> term_view \<Rightarrow> core \<times> term_view" where
  "add_history pane r c v =
     (if cr_command r = '''' then (c, v)
      else (snd (add_command_to_pane (tv_tab v) pane r c), tab_call History_Added v))"

text \<open>
  \<^verbatim>\<open>restore_pane_tree\<close>: every leaf gets a terminal that replays its saved state, its shell's history
  file written first.  A tab made for restoring has no root pane.
\<close>

definition add_restored_pane :: "tab_env \<Rightarrow> pane \<Rightarrow> term_view \<Rightarrow> term_view outcome" where
  "add_restored_pane e p v =
     (let hist = pane_history_file (te_data_dir e) (p_id p);
          v = (case seed_shell_history (ps_command_history (p_state p)) of
                 Some t \<Rightarrow> v\<lparr>tv_seeded := tv_seeded v @ [(hist, t)]\<rparr>
               | None \<Rightarrow> v)
      in then_do (make_restored_pane (te_env e) (te_is_directory e) (te_restores e) (te_file e hist) (tv_shell v) hist
                    (p_state p))
           (\<lambda>q. let v = v\<lparr>tv_panes := emplace (id_str (p_id p)) q (tv_panes v),
                           tv_watcher := register_pane (id_str (p_id p)) hist (tv_watcher v)\<rparr>;
                    v = add_controllers (p_id p) v
                in Returned (if id_empty (tv_active v) \<and> p_id p = tv_root v
                             then tab_call Pane_Focus ((mark_pane (p_id p) v)\<lparr>tv_active := p_id p\<rparr>) else v)))"

fun build_and_restore :: "tab_env \<Rightarrow> pane_tree \<Rightarrow> term_view \<Rightarrow> (widget \<times> term_view) outcome" where
  "build_and_restore e (Leaf None) v = Returned (W_Box, v)"
| "build_and_restore e (Leaf (Some p)) v =
     then_do (add_restored_pane e p v) (\<lambda>v. Returned (W_Pane (id_str (p_id p)), v))"
| "build_and_restore e (Split k a b r) v =
     then_do (build_and_restore e a v) (\<lambda>(wa, v).
       then_do (build_and_restore e b v) (\<lambda>(wb, v).
         Returned (W_Paned (split_orientation k) wa wb (paned_ratio r) (first_child_pane a), v)))"

definition restore_pane_tree :: "tab_env \<Rightarrow> pane_tree \<Rightarrow> term_view \<Rightarrow> term_view outcome" where
  "restore_pane_tree e t v =
     then_do (build_and_restore e t (v\<lparr>tv_panes := [], tv_controllers := [], tv_active := empty_id, tv_tree := None\<rparr>))
       (\<lambda>(w, v). Returned (v\<lparr>tv_tree := Some w\<rparr>))"

text \<open>The menu of a pane: its items, with whether they can be chosen.\<close>

datatype pane_action = Copy_Selection | Paste_Clipboard | Select_All | Split_Pane split_kind | Clear_Scrollback
  | Close_Pane | Color_Profile

definition ellipsis :: string where
  "ellipsis = [CHR 0xE2, CHR 0x80, CHR 0xA6]"

definition pane_menu :: "term_view \<Rightarrow> (string \<Rightarrow> bool) \<Rightarrow> (string \<times> pane_action option \<times> bool) list" where
  "pane_menu v has_selection =
     [(''Copy (Ctrl+Shift+C)'', Some Copy_Selection,
         term_pane (tv_active v) v \<noteq> None \<and> has_selection (id_str (tv_active v))),
      (''Paste (Ctrl+Shift+V)'', Some Paste_Clipboard, True), (''Select All'', Some Select_All, True), (''---'', None, True),
      (''Split Horizontally (Alt+H)'', Some (Split_Pane SplitHorizontal), True),
      (''Split Vertically (Alt+V)'', Some (Split_Pane SplitVertical), True), (''---'', None, True),
      (''Clear Scrollback'', Some Clear_Scrollback, True), (''Close Pane (Alt+K)'', Some Close_Pane, True),
      (''Color Profile'' @ ellipsis, Some Color_Profile, True)]"

section \<open>Dividers\<close>

text \<open>\<^verbatim>\<open>extent\<close> is the divider's size along its orientation.\<close>

definition restore_paned_ratio :: "i32 \<Rightarrow> dbl \<Rightarrow> i32 \<Rightarrow> i32 option" where
  "restore_paned_ratio undef boxed extent =
     (if sint extent \<le> 0 then None else Some (int_of_dbl undef (dbl_mul boxed (Fin (of_int (sint extent))))))"

definition sync_ratio :: "tab_id \<Rightarrow> i32 \<Rightarrow> i32 \<Rightarrow> string \<Rightarrow> core \<Rightarrow> core" where
  "sync_ratio tab pos extent first_child c =
     (if sint extent \<le> 0 then c
      else
        let ratio = dbl_clamp (dbl_div (Fin (of_int (sint pos))) (Fin (of_int (sint extent)))) (Fin 0) (Fin 1)
        in if first_child \<noteq> '''' then snd (set_pane_ratio tab (Id first_child) ratio c) else c)"

section \<open>Rebuilding\<close>

text \<open>The widgets a tree is shown as.\<close>

fun widget_of :: "pane_tree \<Rightarrow> widget" where
  "widget_of (Leaf None) = W_Box"
| "widget_of (Leaf (Some p)) = W_Pane (id_str (p_id p))"
| "widget_of (Split k a b r) =
     W_Paned (split_orientation k) (widget_of a) (widget_of b) (paned_ratio r) (first_child_pane a)"

abbreviation leaf_names :: "pane_tree \<Rightarrow> string set" where
  "leaf_names t \<equiv> (\<lambda>p. id_str (p_id p)) ` set (collect_panes t)"

lemma then_do_Returned: "then_do x f = Returned y \<longleftrightarrow> (\<exists>z. x = Returned z \<and> f z = Returned y)"
  by (cases x) auto

lemma map_of_insort: "map_of m k = None \<Longrightarrow> map_of (insort_key fst (k, p) m) j = (if j = k then Some p else map_of m j)"
  by (induction m) auto

lemma map_of_emplace: "map_of (emplace k p m) j = (if j = k \<and> map_of m k = None then Some p else map_of m j)"
  by (auto simp: emplace_def map_of_insort)

lemma add_fresh_pane_result:
  assumes "add_fresh_pane e pid v = Returned v'" "term_pane pid v = None"
  shows "tv_active v' = tv_active v \<and> tv_root v' = tv_root v \<and> tv_controllers v' = tv_controllers v \<and>
    tv_window v' = tv_window v \<and> tv_tab v' = tv_tab v \<and> tv_marked v' = tv_marked v \<and>
    (\<exists>p. map_of (tv_panes v') = (map_of (tv_panes v))(id_str pid \<mapsto> p))"
  using assms by (auto simp: add_fresh_pane_def then_do_Returned Let_def map_of_emplace term_pane_def fun_eq_iff)

text \<open>What building leaves as it was, and what it adds.\<close>

definition extends_panes :: "string set \<Rightarrow> term_view \<Rightarrow> term_view \<Rightarrow> bool" where
  "extends_panes ks v v' \<longleftrightarrow>
     tv_active v' = tv_active v \<and> tv_root v' = tv_root v \<and> tv_window v' = tv_window v \<and> tv_tab v' = tv_tab v \<and>
     set (tv_controllers v') = set (tv_controllers v) \<union> ks \<and>
     (\<forall>k. map_of (tv_panes v) k \<noteq> None \<longrightarrow> map_of (tv_panes v') k = map_of (tv_panes v) k) \<and>
     (\<forall>k. map_of (tv_panes v') k \<noteq> None \<longleftrightarrow> map_of (tv_panes v) k \<noteq> None \<or> k \<in> ks)"

lemma extends_trans:
  assumes "extends_panes ks v v'" "extends_panes ls v' v''"
  shows "extends_panes (ks \<union> ls) v v''"
  using assms unfolding extends_panes_def by (metis Un_assoc Un_iff)

lemma extends_mark: "extends_panes ks v u \<Longrightarrow> extends_panes ks v (mark_pane i u)"
  by (simp add: extends_panes_def mark_pane_def)

lemma core_tree_cong: "tv_tab u = tv_tab v \<Longrightarrow> tv_window u = tv_window v \<Longrightarrow> core_tree u c = core_tree v c"
  by (simp only: core_tree_def)

lemma build_leaf:
  assumes "build_node e (Leaf (Some p)) v = Returned (w, v')"
  shows "w = W_Pane (id_str (p_id p)) \<and> extends_panes {id_str (p_id p)} v v'"
proof -
  obtain u where u: "(if term_pane (p_id p) v = None then add_fresh_pane e (p_id p) v else Returned v) = Returned u"
    and w: "w = W_Pane (id_str (p_id p))"
    and v': "v' = (let u = add_controllers (p_id p) u
                   in if id_empty (tv_active u) \<and> p_id p = tv_root u then mark_pane (p_id p) u else u)"
    using assms by (auto simp: then_do_Returned Let_def)
  have "extends_panes {id_str (p_id p)} v (add_controllers (p_id p) u)"
  proof (cases "term_pane (p_id p) v = None")
    case True
    with u have "add_fresh_pane e (p_id p) v = Returned u" by simp
    from add_fresh_pane_result [OF this True] True show ?thesis
      by (auto simp: extends_panes_def add_controllers_def term_pane_def split: if_splits)
  next
    case False
    with u have "u = v" by simp
    with False show ?thesis by (auto simp: extends_panes_def add_controllers_def term_pane_def)
  qed
  then have "extends_panes {id_str (p_id p)} v v'"
    using extends_mark by (cases "id_empty (tv_active (add_controllers (p_id p) u)) \<and> p_id p = tv_root (add_controllers (p_id p) u)")
      (simp_all add: v' Let_def del: id_empty_def)
  with w show ?thesis by simp
qed

lemma build_node_result:
  assumes "build_node e t v = Returned (w, v')"
  shows "w = widget_of t \<and> extends_panes (leaf_names t) v v'"
  using assms
proof (induction t arbitrary: v w v')
  case (Leaf p)
  show ?case
  proof (cases p)
    case None
    then show ?thesis using Leaf by (auto simp: extends_panes_def)
  next
    case (Some q)
    then show ?thesis using build_leaf [of e q v w v'] Leaf by simp
  qed
next
  case (Split k a b r)
  obtain wa va where a: "build_node e a v = Returned (wa, va)"
    and rest: "then_do (build_node e b va) (\<lambda>(wb, v). Returned (W_Paned (split_orientation k) wa wb (paned_ratio r)
       (first_child_pane a), v)) = Returned (w, v')"
    using Split.prems by (auto simp: then_do_Returned)
  obtain wb where b: "build_node e b va = Returned (wb, v')"
    and w: "w = W_Paned (split_orientation k) wa wb (paned_ratio r) (first_child_pane a)"
    using rest by (auto simp: then_do_Returned)
  show ?case
    using Split.IH(1) [OF a] Split.IH(2) [OF b] extends_trans [of "leaf_names a" v va "leaf_names b" v'] w
    by (simp add: image_Un)
qed

lemma rebuild_result:
  assumes "rebuild e c v = Returned v'" "core_tree v c = Some t"
  shows "tv_tree v' = Some (widget_of t) \<and> tv_active v' = empty_id \<and>
    (\<forall>k. map_of (tv_panes v) k \<noteq> None \<longrightarrow> map_of (tv_panes v') k = map_of (tv_panes v) k) \<and>
    (\<forall>k. map_of (tv_panes v') k \<noteq> None \<longleftrightarrow> map_of (tv_panes v) k \<noteq> None \<or> k \<in> leaf_names t) \<and>
    leaf_names t \<subseteq> set (tv_controllers v')"
proof -
  let ?v = "v\<lparr>tv_active := empty_id, tv_tree := None\<rparr>"
  have "core_tree ?v c = Some t" using assms(2) core_tree_cong [of ?v v c] by simp
  then obtain w u where u: "build_node e t ?v = Returned (w, u)" "v' = u\<lparr>tv_tree := Some w\<rparr>"
    using assms(1) by (auto simp: rebuild_def then_do_Returned Let_def)
  from build_node_result [OF u(1)] u(2) show ?thesis by (auto simp: extends_panes_def)
qed

text \<open>C14: Rebuilding a tab makes its widgets the picture of the engine's tree: the same splits with their
  ratios clamped, a terminal for every leaf and a click handler on each.  Terminals that were there are
  kept as they are, only missing ones are made, and the tab forgets which pane was active.\<close>

theorem rebuild_mirrors_core:
  assumes "rebuild e c v = Returned v'" "core_tree v c = Some t"
  shows "tv_tree v' = Some (widget_of t) \<and> tv_active v' = empty_id \<and>
    (\<forall>k. map_of (tv_panes v) k \<noteq> None \<longrightarrow> map_of (tv_panes v') k = map_of (tv_panes v) k) \<and>
    (\<forall>k. map_of (tv_panes v') k \<noteq> None \<longleftrightarrow> map_of (tv_panes v) k \<noteq> None \<or> k \<in> leaf_names t) \<and>
    leaf_names t \<subseteq> set (tv_controllers v')"
  by (rule rebuild_result [OF assms])

section \<open>Focus after a split\<close>

lemma foldl_unique:
  assumes "t \<in> set ts" "distinct (map t_id ts)"
  shows "foldl (\<lambda>acc u. if t_id u = t_id t then Some (t_pane_tree u) else acc) a ts = Some (t_pane_tree t)"
  using assms
proof (induction ts arbitrary: a)
  case (Cons u ts)
  have none: "foldl (\<lambda>acc x. if t_id x = t_id t then Some (t_pane_tree x) else acc) b xs = b"
    if "t_id t \<notin> t_id ` set xs" for b xs
    using that by (induction xs arbitrary: b) (auto simp: image_iff)
  show ?case
  proof (cases "t = u")
    case True
    with Cons.prems none [of ts] show ?thesis by simp
  next
    case False
    with Cons.prems have "t \<in> set ts" by simp
    with Cons show ?thesis by simp
  qed
qed simp

lemma filter_unique: "w \<in> set ws \<Longrightarrow> distinct (map w_id ws) \<Longrightarrow> filter (\<lambda>u. w_id u = w_id w) ws = [w]"
proof (induction ws)
  case (Cons u ws)
  then show ?case by (cases "u = w") (auto simp: filter_empty_conv image_iff)
qed simp

lemma core_tree_find:
  assumes "wf_core c" "find_tab (tv_tab v) c = Some (w, t)" "w_id w = tv_window v"
  shows "core_tree v c = Some (t_pane_tree t)"
proof -
  obtain ws where ws: "ws_current c = Some ws" "find_tab_in (tv_tab v) (ws_windows ws) = Some (w, t)"
    using find_tab_SomeD [OF assms(2)] by blast
  from find_tab_inD [OF this(2)] have t: "w \<in> set (ws_windows ws)" "t \<in> set (w_tabs w)" "t_id t = tv_tab v" by blast+
  have d: "distinct (map w_id (ws_windows ws))" "distinct (map t_id (all_tabs ws))"
    using wf_coreD [OF assms(1) ws(1)] by (simp_all add: wf_workspace_def)
  have "distinct (map t_id (w_tabs w))"
    using d(2) t(1) unfolding all_tabs_def map_concat by (auto simp: distinct_concat_iff)
  from foldl_unique [OF t(2) this, of None] filter_unique [OF t(1) d(1)] show ?thesis
    by (simp add: core_tree_def ws(1) assms(3) [symmetric] t(3) [symmetric])
qed

text \<open>The parts of a split and of a close that matter.\<close>

lemma split_view_parts:
  assumes "split_view e fresh k c v = Returned (i, c1, v1)" "\<not> id_empty fresh"
  shows "i = fresh \<and> split_pane fresh (tv_tab v) k (Fin (1/2)) c = Inr (fresh, c1) \<and>
    (\<exists>u u'. add_fresh_pane e fresh v = Returned u \<and> rebuild e c1 (u\<lparr>tv_active := fresh\<rparr>) = Returned u' \<and>
      v1 = tab_call Pane_Focus u')"
proof -
  obtain j d where s: "split_pane fresh (tv_tab v) k (Fin (1/2)) c = Inr (j, d)"
    using assms(1) by (cases "split_pane fresh (tv_tab v) k (Fin (1/2)) c") (auto simp: split_view_def)
  then have "j = fresh" by (auto simp: split_pane_def split: option.splits)
  with s assms show ?thesis by (auto simp: split_view_def then_do_Returned)
qed

lemma rebuild_keeps:
  assumes "rebuild e c v = Returned v'"
  shows "tv_window v' = tv_window v \<and> tv_tab v' = tv_tab v \<and> tv_root v' = tv_root v \<and> tv_active v' = empty_id"
proof (cases "core_tree v c")
  case None
  then have "core_tree (v\<lparr>tv_active := empty_id, tv_tree := None\<rparr>) c = None"
    using core_tree_cong [of "v\<lparr>tv_active := empty_id, tv_tree := None\<rparr>" v c] by simp
  with assms show ?thesis by (auto simp: rebuild_def Let_def)
next
  case (Some t)
  then have "core_tree (v\<lparr>tv_active := empty_id, tv_tree := None\<rparr>) c = Some t"
    using core_tree_cong [of "v\<lparr>tv_active := empty_id, tv_tree := None\<rparr>" v c] by simp
  then obtain w u where "build_node e t (v\<lparr>tv_active := empty_id, tv_tree := None\<rparr>) = Returned (w, u)"
    "v' = u\<lparr>tv_tree := Some w\<rparr>"
    using assms by (auto simp: rebuild_def then_do_Returned Let_def)
  with build_node_result [OF this(1)] show ?thesis by (simp add: extends_panes_def)
qed

lemma unique_tab:
  assumes "wf_core c" "find_tab tab c = Some (w, t)" "ws_current c = Some ws"
    "w' \<in> set (ws_windows ws)" "w_id w' = w_id w" "t' \<in> set (w_tabs w')" "t_id t' = tab"
  shows "t' = t"
proof -
  have "find_tab_in tab (ws_windows ws) = Some (w, t)" using assms(2,3) by (simp add: find_tab_def)
  from find_tab_inD [OF this] have t: "w \<in> set (ws_windows ws)" "t \<in> set (w_tabs w)" "t_id t = tab" by blast+
  have d: "distinct (map w_id (ws_windows ws))" "distinct (map t_id (all_tabs ws))"
    using wf_coreD [OF assms(1,3)] by (simp_all add: wf_workspace_def)
  have "w' = w" using d(1) t(1) assms(4,5) by (auto simp: distinct_map dest: inj_onD)
  then show ?thesis using d(2) t assms(4,6,7)
    by (auto simp: all_tabs_def distinct_map dest!: inj_onD)
qed

lemma map_of_filter_other: "map_of (filter (\<lambda>(k, _). k \<noteq> x) m) j = (if j = x then None else map_of m j)"
  by (induction m) auto

lemma close_after_remove:
  assumes "close_focused_pane e c v = Returned (ok, c', v')" "focus_or_root v = target"
    "remove_pane (tv_tab v) target c = (True, c1)" "core_tree v c1 = Some tree"
    "\<And>ws w t. ws_current c = Some ws \<Longrightarrow> w \<in> set (ws_windows ws) \<Longrightarrow> w_id w = tv_window v \<Longrightarrow>
      t \<in> set (w_tabs w) \<Longrightarrow> t_id t = tv_tab v \<Longrightarrow> \<not> is_leaf (t_pane_tree t)"
    "map_of (tv_panes v) other \<noteq> None" "other \<noteq> id_str target"
  shows "ok \<and> c' = c1 \<and> tv_active v' = empty_id \<and> tv_tree v' = Some (widget_of tree) \<and>
    (\<forall>k. map_of (tv_panes v') k \<noteq> None \<longleftrightarrow>
      k \<noteq> id_str target \<and> map_of (tv_panes v) k \<noteq> None \<or> k \<in> leaf_names tree)"
proof -
  let ?u = "v\<lparr>tv_watcher := unregister_pane (id_str target) (tv_watcher v),
    tv_panes := filter (\<lambda>(k, _). k \<noteq> id_str target) (tv_panes v), tv_active := tv_root v\<rparr>"
  let ?w = "if term_pane (tv_root v) ?u = None then ?u\<lparr>tv_active := Id (fst (hd (tv_panes ?u)))\<rparr> else ?u"
  have ne: "tv_panes ?u \<noteq> []"
    using assms(6,7) map_of_filter_other [of "id_str target" "tv_panes v" other] by auto
  have leaf: "\<not> (case ws_current c of None \<Rightarrow> False
     | Some ws \<Rightarrow> \<exists>w \<in> set (ws_windows ws). w_id w = tv_window v \<and>
         (\<exists>t \<in> set (w_tabs w). t_id t = tv_tab v \<and> is_leaf (t_pane_tree t)))"
    using assms(5) by (auto split: option.splits)
  have "close_focused_pane e c v = then_do (rebuild e c1 ?w) (\<lambda>v. Returned (True, c1, v))"
    unfolding close_focused_pane_def if_not_P [OF leaf] assms(2) Let_def assms(3)
    using ne by simp
  with assms(1) have r: "rebuild e c1 ?w = Returned v'" "ok" "c' = c1" by (auto simp: then_do_Returned)
  have "core_tree ?w c1 = Some tree"
    using assms(4) core_tree_cong [of ?w v c1] by simp
  from rebuild_result [OF r(1) this] r(2,3) map_of_filter_other [of "id_str target" "tv_panes v"]
  show ?thesis by auto
qed

text \<open>After a split of a tab's only pane the engine's focus is on the new pane but the tab has
  forgotten which pane is active, so that \<^verbatim>\<open>close_focused_pane\<close>, with no click in between, closes
  the old pane with the user's session and keeps the new, empty one.\<close>

theorem close_after_split_closes_old:
  assumes "wf_core c" "fresh_pane fresh c" "find_tab (tv_tab v) c = Some (w, t)" "w_id w = tv_window v"
    "t_pane_tree t = Leaf (Some p)" "p_id p = tv_root v" "\<not> id_empty fresh" "fresh \<noteq> tv_root v"
    "split_view e fresh k c v = Returned (i, c1, v1)" "close_focused_pane e c1 v1 = Returned (ok, c2, v2)"
  shows "i = fresh \<and> ok \<and> map_option (w_focus_pane_id \<circ> fst) (find_tab (tv_tab v) c1) = Some (Some fresh) \<and>
    the_panes (tv_tab v) c2 = Some [\<lparr>p_id = fresh, p_state = empty_pane_state\<rparr>] \<and>
    term_pane (tv_root v) v2 = None \<and> tv_tree v2 = Some (W_Pane (id_str fresh))"
proof -
  let ?new = "\<lparr>p_id = fresh, p_state = empty_pane_state\<rparr>" and ?tab = "tv_tab v"
  obtain u u' where sp: "split_pane fresh ?tab k (Fin (1/2)) c = Inr (fresh, c1)" "i = fresh"
    and u: "add_fresh_pane e fresh v = Returned u" "rebuild e c1 (u\<lparr>tv_active := fresh\<rparr>) = Returned u'"
    and v1: "v1 = tab_call Pane_Focus u'"
    using split_view_parts [OF assms(9,7)] by (elim conjE exE)
  have wf1: "wf_core c1"
    using split_pane_wf [OF assms(1) sp(1)] fresh_paneD [OF assms(2)] by blast
  obtain c' w1 t1 where f: "split_pane fresh ?tab k (Fin (1/2)) c = Inr (fresh, c')" "find_tab ?tab c' = Some (w1, t1)"
    "w_id w1 = w_id w" "w_focus_pane_id w1 = Some fresh"
    "t_pane_tree t1 = split_tree k (Fin (1/2)) ?new (w_focus_pane_id w) (t_pane_tree t)"
    using split_pane_found [OF assms(3), of fresh k "Fin (1/2)"] by (elim exE conjE)
  have c1: "c' = c1" using f(1) sp(1) by simp
  have t1: "t_pane_tree t1 = Split k (Leaf (Some p)) (leaf ?new) (Fin (1/2))"
    using f(5) by (simp add: split_tree_def assms(5))
  obtain c'' w2 t2 where r: "remove_pane ?tab (tv_root v) c1 = (True, c'')" "find_tab ?tab c'' = Some (w2, t2)"
    "w_id w2 = w_id w1" "t_pane_tree t2 = leaf ?new"
    using core_remove_pane_found [OF f(2) [unfolded c1], of "tv_root v" "leaf ?new"] assms(6)
    by (auto simp: t1 leaf_def child_alive_def)
  have keep: "tv_tab v1 = tv_tab v" "tv_window v1 = tv_window v" "tv_root v1 = tv_root v" "tv_active v1 = empty_id"
    using rebuild_keeps [OF u(2)] u(1) v1 by (auto simp: tab_call_def add_fresh_pane_def then_do_Returned Let_def)
  have "core_tree (u\<lparr>tv_active := fresh\<rparr>) c1 = Some (t_pane_tree t1)"
    using f(2,3) c1 keep rebuild_keeps [OF u(2)] u(1) assms(4)
    by (intro core_tree_find [OF wf1, of _ w1]) (auto simp: tab_call_def add_fresh_pane_def then_do_Returned Let_def)
  from rebuild_result [OF u(2) this] have new: "map_of (tv_panes v1) (id_str fresh) \<noteq> None"
    by (simp add: v1 tab_call_def t1 leaf_def)
  have tree: "core_tree v1 c'' = Some (leaf ?new)"
    using core_tree_find [of c'' v1 w2 t2] remove_pane_wf_core [OF wf1, of ?tab "tv_root v"] r keep f(3) assms(4) by simp
  have foc: "focus_or_root v1 = tv_root v" by (simp add: focus_or_root_def keep id_empty_def empty_id_def)
  have split: "\<not> is_leaf (t_pane_tree t')" if "ws_current c1 = Some ws" "w' \<in> set (ws_windows ws)"
    "w_id w' = tv_window v1" "t' \<in> set (w_tabs w')" "t_id t' = tv_tab v1" for ws w' t'
    using unique_tab [OF wf1, of ?tab w1 t1 ws w' t'] f(2,3) c1 that keep assms(4) t1 by simp
  have ne: "id_str fresh \<noteq> id_str (tv_root v)" using assms(8) by (cases fresh; cases "tv_root v") simp
  have rm: "remove_pane (tv_tab v1) (tv_root v) c1 = (True, c'')" using r(1) keep(1) by simp
  have "ok \<and> c2 = c'' \<and> tv_active v2 = empty_id \<and> tv_tree v2 = Some (widget_of (leaf ?new)) \<and>
    (\<forall>k. map_of (tv_panes v2) k \<noteq> None \<longleftrightarrow>
      k \<noteq> id_str (tv_root v) \<and> map_of (tv_panes v1) k \<noteq> None \<or> k \<in> leaf_names (leaf ?new))"
    by (rule close_after_remove [OF assms(10) foc rm tree split new ne])
  then show ?thesis
    using sp(2) f(2,4) c1 r(2,4) ne
    by (auto simp: the_panes_def the_tab_def tab_panes_def leaf_def term_pane_def)
qed

definition demo_one_pane :: core where
  "demo_one_pane = \<lparr>ws_current = Some (empty_workspace\<lparr>ws_id := Id ''w'',
       ws_windows := [empty_window\<lparr>w_id := Id ''v'', w_tabs := [empty_tab\<lparr>t_id := Id ''t'',
         t_pane_tree := leaf \<lparr>p_id = Id ''p'', p_state = empty_pane_state\<rparr>\<rparr>]\<rparr>]\<rparr>),
     ws_dirty = False, ev_log = []\<rparr>"

definition demo_tab_env :: tab_env where
  "demo_tab_env = \<lparr>te_env = (\<lambda>_. None), te_data_dir = ''/d'',
     te_file = (\<lambda>_. \<lparr>fv_content = '''', fv_size = 0, fv_mtime = 0\<rparr>), te_is_directory = (\<lambda>_. True),
     te_restores = (\<lambda>_. True)\<rparr>"

fun is_returned :: "'a outcome \<Rightarrow> bool" where
  "is_returned (Returned _) \<longleftrightarrow> True"
| "is_returned _ \<longleftrightarrow> False"

lemma is_returnedD: "is_returned x \<Longrightarrow> \<exists>y. x = Returned y"
  by (cases x) auto

abbreviation demo_term_view :: term_view where
  "demo_term_view \<equiv> new_term_view demo_tab_env ''sh'' (Id ''v'') (Id ''t'') (Id ''p'')"

lemma demo_one_pane_facts: "wf_core demo_one_pane" "fresh_pane (Id ''n'') demo_one_pane"
  "\<exists>w t. find_tab (Id ''t'') demo_one_pane = Some (w, t) \<and> w_id w = Id ''v'' \<and>
     t_pane_tree t = Leaf (Some \<lparr>p_id = Id ''p'', p_state = empty_pane_state\<rparr>)"
  by (simp_all add: demo_one_pane_def wf_core_def wf_workspace_def all_tabs_def all_panes_def window_panes_def
      tab_panes_def leaf_def wf_tab_def wf_tree_def wf_pane_def empty_pane_state_def empty_tab_def empty_window_def
      empty_workspace_def fresh_pane_def find_tab_def)

lemma demo_split_returns: "is_returned (then_do (split_view demo_tab_env (Id ''n'') SplitVertical demo_one_pane demo_term_view)
    (\<lambda>(_, c, v). close_focused_pane demo_tab_env c v))"
  by code_simp

theorem close_after_split_closes_old_witness:
  "\<exists>i c1 v1 ok c2 v2. split_view demo_tab_env (Id ''n'') SplitVertical demo_one_pane demo_term_view = Returned (i, c1, v1) \<and>
     close_focused_pane demo_tab_env c1 v1 = Returned (ok, c2, v2) \<and> tv_tree v2 = Some (W_Pane ''n'') \<and>
     term_pane (Id ''p'') v2 = None"
proof -
  obtain i c1 v1 ok c2 v2 where r: "split_view demo_tab_env (Id ''n'') SplitVertical demo_one_pane demo_term_view = Returned (i, c1, v1)"
    "close_focused_pane demo_tab_env c1 v1 = Returned (ok, c2, v2)"
    using is_returnedD [OF demo_split_returns] by (auto simp: then_do_Returned)
  obtain w t where t: "find_tab (Id ''t'') demo_one_pane = Some (w, t)" "w_id w = Id ''v''"
    "t_pane_tree t = Leaf (Some \<lparr>p_id = Id ''p'', p_state = empty_pane_state\<rparr>)" using demo_one_pane_facts(3) by blast
  have v: "tv_tab demo_term_view = Id ''t''" "tv_window demo_term_view = Id ''v''" "tv_root demo_term_view = Id ''p''"
    by (simp_all add: new_term_view_def)
  from close_after_split_closes_old [OF demo_one_pane_facts(1,2) _ _ t(3) _ _ _ r, of w] t(1,2) v
  have "tv_tree v2 = Some (W_Pane ''n'')" "term_pane (Id ''p'') v2 = None" by (simp_all add: empty_id_def)
  with r show ?thesis by blast
qed

theorem rebuild_mirrors_core_witness:
  "\<exists>v. rebuild demo_tab_env demo_one_pane demo_term_view = Returned v \<and> tv_tree v = Some (W_Pane ''p'') \<and>
     term_pane (Id ''p'') v \<noteq> None"
proof -
  have "is_returned (rebuild demo_tab_env demo_one_pane demo_term_view)" by code_simp
  then obtain v where v: "rebuild demo_tab_env demo_one_pane demo_term_view = Returned v" using is_returnedD by blast
  have "core_tree demo_term_view demo_one_pane = Some (leaf \<lparr>p_id = Id ''p'', p_state = empty_pane_state\<rparr>)"
    by (simp add: core_tree_def demo_one_pane_def new_term_view_def empty_workspace_def empty_window_def empty_tab_def)
  from rebuild_mirrors_core [OF v this] v show ?thesis by (simp add: leaf_def term_pane_def)
qed

section \<open>Moving a divider\<close>

text \<open>A node of a tree by its path, \<open>False\<close> for the first child.\<close>

fun node_at :: "bool list \<Rightarrow> pane_tree \<Rightarrow> pane_tree option" where
  "node_at [] t = Some t"
| "node_at (d # ds) (Split k a b r) = node_at ds (if d then b else a)"
| "node_at (d # ds) (Leaf p) = None"

fun put_ratio :: "bool list \<Rightarrow> dbl \<Rightarrow> pane_tree \<Rightarrow> pane_tree" where
  "put_ratio [] q (Split k a b r) = Split k a b q"
| "put_ratio (d # ds) q (Split k a b r) = (if d then Split k a (put_ratio ds q b) r else Split k (put_ratio ds q a) b r)"
| "put_ratio _ q (Leaf p) = Leaf p"

text \<open>From a split down its first children to the split whose first child is a leaf.\<close>

fun spine :: "pane_tree \<Rightarrow> bool list" where
  "spine (Split k a b r) = (if is_leaf a then [] else False # spine a)"
| "spine (Leaf p) = []"

abbreviation tree_ids :: "pane_tree \<Rightarrow> pane_id set" where
  "tree_ids t \<equiv> p_id ` set (collect_panes t)"

lemma first_leaf_in: "first_leaf t = Some p \<Longrightarrow> p \<in> set (collect_panes t)"
  by (induction t) auto

lemma is_pane_ids: "is_pane i t \<Longrightarrow> i \<in> tree_ids t \<and> is_leaf t"
  by (cases "(i, t)" rule: is_pane.cases) auto

lemma set_split_ratio_outside:
  assumes "i \<notin> tree_ids t"
  shows "set_split_ratio t i q = (False, t)"
  using assms
proof (induction t)
  case (Split k a b r)
  then have "\<not> is_pane i a" "\<not> is_pane i b" by (auto dest: is_pane_ids)
  with Split show ?case by (simp add: image_Un)
qed simp

lemma set_split_ratio_spine:
  assumes "distinct (map p_id (collect_panes (Split k a b r)))" "first_leaf a = Some p"
  shows "set_split_ratio (Split k a b r) (p_id p) q = (True, put_ratio (spine (Split k a b r)) q (Split k a b r))"
  using assms
proof (induction a arbitrary: k b r)
  case (Leaf x)
  then show ?case by simp
next
  case (Split k' a' b' r')
  have "p \<in> set (collect_panes a')" using Split.prems(2) first_leaf_in [of a' p] by simp
  then have b: "\<not> is_pane (p_id p) b" using Split.prems(1) is_pane_ids [of "p_id p" b] by auto
  have "set_split_ratio (Split k' a' b' r') (p_id p) q =
      (True, put_ratio (spine (Split k' a' b' r')) q (Split k' a' b' r'))"
    using Split.prems by (intro Split.IH(1)) auto
  with b show ?case by simp
qed

text \<open>What the tab reports when the divider of a split is moved: the engine stores the new ratio
  at the split reached by going down first children, which is the moved one exactly when its first
  child is a single pane.  Moving the divider of a split whose first child is split again changes the
  inner split's ratio and leaves its own as it was.\<close>

theorem divider_of_nested_split:
  assumes "distinct (map p_id (collect_panes t))" "node_at path t = Some (Split k a b r)" "first_leaf a = Some p"
  shows "set_split_ratio t (p_id p) q = (True, put_ratio (path @ spine (Split k a b r)) q t) \<and>
    (spine (Split k a b r) = [] \<longleftrightarrow> is_leaf a)"
  using assms
proof (induction path t rule: node_at.induct)
  case (1 t)
  then show ?case using set_split_ratio_spine [of k a b r p q] by simp
next
  case (2 d ds k' x y r')
  let ?c = "if d then y else x" and ?o = "if d then x else y"
  have c: "distinct (map p_id (collect_panes ?c))" "node_at ds ?c = Some (Split k a b r)"
    using 2(2,3) by (auto split: if_splits)
  have IH: "set_split_ratio ?c (p_id p) q = (True, put_ratio (ds @ spine (Split k a b r)) q ?c)"
    using 2(1) [OF c 2(4)] by (cases d) auto
  have "node_at es u = Some v \<Longrightarrow> tree_ids v \<subseteq> tree_ids u" for es u v
    by (induction es u rule: node_at.induct) (auto split: if_splits)
  from this [OF c(2)] first_leaf_in [OF 2(4)] have p: "p_id p \<in> tree_ids ?c" by auto
  have "\<not> is_pane (p_id p) ?c"
  proof
    assume "is_pane (p_id p) ?c"
    then have "is_leaf ?c" by (auto dest: is_pane_ids)
    with c(2) show False by (cases ?c; cases ds) auto
  qed
  moreover from p 2(2) have o: "p_id p \<notin> tree_ids ?o" by (cases d) auto
  then have "\<not> is_pane (p_id p) ?o" by (auto dest: is_pane_ids)
  ultimately have n: "\<not> is_pane (p_id p) x" "\<not> is_pane (p_id p) y" by (cases d; simp)+
  note ox = set_split_ratio_outside [OF o, of q]
  show ?case
  proof (cases d)
    case True
    then show ?thesis using IH ox n by simp
  next
    case False
    then show ?thesis using IH n by simp
  qed
next
  case (3 d ds p)
  then show ?case by simp
qed

theorem divider_of_nested_split_witness:
  "let x = \<lambda>s. Leaf (Some \<lparr>p_id = Id s, p_state = empty_pane_state\<rparr>)
   in set_split_ratio (Split SplitVertical (Split SplitHorizontal (x ''a'') (x ''b'') (Fin 0)) (x ''c'') (Fin 0)) (Id ''a'') (Fin 1) =
      (True, Split SplitVertical (Split SplitHorizontal (x ''a'') (x ''b'') (Fin 1)) (x ''c'') (Fin 0))"
proof -
  let ?p = "\<lambda>s. \<lparr>p_id = Id s, p_state = empty_pane_state\<rparr>"
  let ?a = "Split SplitHorizontal (Leaf (Some (?p ''a''))) (Leaf (Some (?p ''b''))) (Fin 0)"
  have "distinct (map p_id (collect_panes (Split SplitVertical ?a (Leaf (Some (?p ''c''))) (Fin 0))))" by simp
  from divider_of_nested_split [OF this, of "[]" SplitVertical ?a "Leaf (Some (?p ''c''))" "Fin 0" "?p ''a''" "Fin 1"]
  show ?thesis by (simp add: Let_def)
qed

end
