(* ===== verification/Main_Window.thy ===== *)
theory Main_Window
  imports Note_Tab Terminal_Tab
begin

text \<open>
  \<^verbatim>\<open>gui/window/main_window.hpp\<close> and the tabs of \<^verbatim>\<open>main_window.cpp\<close>: the list of tabs with its two
  lists of terminal and note tabs, the stack of pages that shows one of them, the row of labels, and
  their part of opening, closing, splitting, restoring and checkpoints.  A tab is known by its pointer,
  a number here.

  The stack is the toolkit's.  Which page it shows after the visible one was removed, and whether it
  shows a page added when none is visible, are parameters; setting the visible page to another one runs
  the window's handler, as does the toolkit's own choice.  Callbacks of the toolkit run while the window
  is in the middle of an operation, and so do they here.
\<close>

section \<open>State\<close>

datatype gui_tab = Terminal_Gui term_view | Note_Gui note_view

record main_window =
  mw_window :: window_id
  mw_tabs :: "(nat \<times> gui_tab) list"
  mw_term_tabs :: "nat list"
  mw_note_tabs :: "nat list"
  mw_active :: int
  mw_stack :: "(string \<times> nat) list"
  mw_visible :: "nat option"
  mw_bar :: "(nat \<times> string \<times> bool) list"
  mw_next :: nat
  mw_connected :: bool

definition new_main_window :: main_window where
  "new_main_window = \<lparr>mw_window = empty_id, mw_tabs = [], mw_term_tabs = [], mw_note_tabs = [], mw_active = - 1,
     mw_stack = [], mw_visible = None, mw_bar = [], mw_next = 0, mw_connected = False\<rparr>"

record stack_behaviour =
  sb_next :: "nat list \<Rightarrow> nat option"
  sb_first :: bool

fun gui_kind :: "gui_tab \<Rightarrow> tab_kind" where
  "gui_kind (Terminal_Gui _) = Terminal"
| "gui_kind (Note_Gui _) = Note"

fun gui_title :: "gui_tab \<Rightarrow> string" where
  "gui_title (Terminal_Gui v) = tv_title v"
| "gui_title (Note_Gui v) = nv_title v"

fun gui_ids :: "gui_tab \<Rightarrow> window_id \<times> tab_id" where
  "gui_ids (Terminal_Gui v) = (tv_window v, tv_tab v)"
| "gui_ids (Note_Gui v) = (nv_window v, nv_tab v)"

fun set_gui_title :: "string \<Rightarrow> gui_tab \<Rightarrow> gui_tab" where
  "set_gui_title s (Terminal_Gui v) = Terminal_Gui (v\<lparr>tv_title := s\<rparr>)"
| "set_gui_title s (Note_Gui v) = Note_Gui (v\<lparr>nv_title := s\<rparr>)"

definition index_of :: "nat \<Rightarrow> (nat \<times> gui_tab) list \<Rightarrow> nat option" where
  "index_of p ts = (let i = length (takeWhile (\<lambda>(q, _). q \<noteq> p) ts) in if i < length ts then Some i else None)"

definition upd_tab :: "nat \<Rightarrow> (gui_tab \<Rightarrow> gui_tab) \<Rightarrow> main_window \<Rightarrow> main_window" where
  "upd_tab p f w = w\<lparr>mw_tabs := map (\<lambda>(q, t). (q, if q = p then f t else t)) (mw_tabs w)\<rparr>"

section \<open>The row of labels\<close>

definition unsaved_dot :: string where
  "unsaved_dot = [CHR 0xE2, CHR 0x97, CHR 0x8F, CHR '' '']"

fun tab_label :: "'s store \<Rightarrow> gui_tab \<Rightarrow> string" where
  "tab_label st (Terminal_Gui v) = tv_title v"
| "tab_label st (Note_Gui v) =
     (if nv_modified v then unsaved_dot else '''') @ nv_title v @ (if has_path st v then '''' else ''  (temp)'')"

text \<open>
  \<^verbatim>\<open>update_tab_bar\<close>: a row longer than the tabs is thrown away, labels are added for the tabs that have
  none, and every label is refreshed.  A label stays bound to the tab it was built for.
\<close>

definition update_tab_bar :: "'s store \<Rightarrow> main_window \<Rightarrow> main_window" where
  "update_tab_bar st w =
     (let bar = (if length (mw_tabs w) < length (mw_bar w) then [] else mw_bar w);
          views = map fst bar @ map fst (drop (length bar) (mw_tabs w))
      in w\<lparr>mw_bar := map (\<lambda>i. (views ! i, tab_label st (snd (mw_tabs w ! i)), int i = mw_active w))
             [0..<length (mw_tabs w)]\<rparr>)"

section \<open>The stack\<close>

text \<open>
  The handler of a change of the visible page, the lambda which the constructor connects last.  It returns at once when
  no page is visible; the method \<^verbatim>\<open>on_tab_switched\<close> resembles it, but nothing calls that.
\<close>

definition on_visible_changed :: "'s store \<Rightarrow> main_window \<Rightarrow> main_window" where
  "on_visible_changed st w =
     (if \<not> mw_connected w then w
      else case mw_visible w of
        None \<Rightarrow> w
      | Some p \<Rightarrow>
          update_tab_bar st
            (case index_of p (mw_tabs w) of Some i \<Rightarrow> w\<lparr>mw_active := int i\<rparr> | None \<Rightarrow> w))"

definition stack_show :: "'s store \<Rightarrow> nat \<Rightarrow> main_window \<Rightarrow> main_window" where
  "stack_show st p w =
     (if mw_visible w = Some p \<or> p \<notin> snd ` set (mw_stack w) then w
      else on_visible_changed st (w\<lparr>mw_visible := Some p\<rparr>))"

definition stack_add :: "stack_behaviour \<Rightarrow> 's store \<Rightarrow> string \<Rightarrow> nat \<Rightarrow> main_window \<Rightarrow> main_window" where
  "stack_add sb st name p w =
     (let w = w\<lparr>mw_stack := mw_stack w @ [(name, p)]\<rparr>
      in if mw_visible w = None \<and> sb_first sb then on_visible_changed st (w\<lparr>mw_visible := Some p\<rparr>) else w)"

definition next_page :: "stack_behaviour \<Rightarrow> nat list \<Rightarrow> nat option" where
  "next_page sb ps = (case sb_next sb ps of Some p \<Rightarrow> if p \<in> set ps then Some p else None | None \<Rightarrow> None)"

definition stack_remove :: "stack_behaviour \<Rightarrow> 's store \<Rightarrow> nat \<Rightarrow> main_window \<Rightarrow> main_window" where
  "stack_remove sb st p w =
     (let w = w\<lparr>mw_stack := filter (\<lambda>(_, q). q \<noteq> p) (mw_stack w)\<rparr>
      in if mw_visible w = Some p
         then on_visible_changed st (w\<lparr>mw_visible := next_page sb (map snd (mw_stack w))\<rparr>) else w)"

text \<open>\<^verbatim>\<open>while (auto* child = content_stack_->get_first_child()) content_stack_->remove(*child)\<close>\<close>

definition clear_stack :: "stack_behaviour \<Rightarrow> 's store \<Rightarrow> main_window \<Rightarrow> main_window" where
  "clear_stack sb st w = foldl (\<lambda>w p. stack_remove sb st p w) w (map snd (mw_stack w))"

definition page_name :: "nat \<Rightarrow> string" where
  "page_name i = dec_of_nat i"

definition fill_stack :: "stack_behaviour \<Rightarrow> 's store \<Rightarrow> main_window \<Rightarrow> main_window" where
  "fill_stack sb st w = foldl (\<lambda>w (i, p). stack_add sb st (page_name i) p w) w (enumerate 0 (map fst (mw_tabs w)))"

section \<open>Adding a tab\<close>

text \<open>A new tab at the end of the lists; its page is named by its index.\<close>

definition push_view :: "stack_behaviour \<Rightarrow> 's store \<Rightarrow> gui_tab \<Rightarrow> main_window \<Rightarrow> main_window" where
  "push_view sb st t w =
     (let p = mw_next w;
          w = w\<lparr>mw_tabs := mw_tabs w @ [(p, t)], mw_next := p + 1\<rparr>;
          w = (case gui_kind t of
                 Terminal \<Rightarrow> w\<lparr>mw_term_tabs := mw_term_tabs w @ [p]\<rparr>
               | Note \<Rightarrow> w\<lparr>mw_note_tabs := mw_note_tabs w @ [p]\<rparr>)
      in stack_add sb st (page_name (length (mw_tabs w) - 1)) p w)"

definition add_view :: "stack_behaviour \<Rightarrow> 's store \<Rightarrow> gui_tab \<Rightarrow> main_window \<Rightarrow> main_window" where
  "add_view sb st t w =
     (let idx = length (mw_tabs w);
          p = mw_next w;
          w = push_view sb st t w;
          w = w\<lparr>mw_active := int idx\<rparr>
      in update_tab_bar st (stack_show st p w))"

section \<open>Removing a tab\<close>

definition page_named :: "string \<Rightarrow> main_window \<Rightarrow> nat option" where
  "page_named name w = map_option snd (find (\<lambda>(n, _). n = name) (mw_stack w))"

text \<open>The part of \<^verbatim>\<open>finish_close_tab\<close> that concerns the window; the core forgets the tab in between.\<close>

definition drop_view :: "stack_behaviour \<Rightarrow> 's store \<Rightarrow> nat \<Rightarrow> main_window \<Rightarrow> main_window" where
  "drop_view sb st i w =
     (let (p, t) = mw_tabs w ! i;
          w = (case page_named (page_name i) w of Some q \<Rightarrow> stack_remove sb st q w | None \<Rightarrow> w);
          w = (case gui_kind t of
                 Terminal \<Rightarrow> w\<lparr>mw_term_tabs := remove1 p (mw_term_tabs w)\<rparr>
               | Note \<Rightarrow> w\<lparr>mw_note_tabs := remove1 p (mw_note_tabs w)\<rparr>);
          w = (if int i < mw_active w then w\<lparr>mw_active := mw_active w - 1\<rparr>
               else if int i = mw_active w then w\<lparr>mw_active := - 1\<rparr> else w);
          w = w\<lparr>mw_tabs := take i (mw_tabs w) @ drop (i + 1) (mw_tabs w)\<rparr>;
          w = fill_stack sb st (clear_stack sb st w);
          w = (if mw_active w < 0 \<or> int (length (mw_tabs w)) \<le> mw_active w
               then w\<lparr>mw_active := int (length (mw_tabs w)) - 1\<rparr> else w);
          w = (if 0 \<le> mw_active w then stack_show st (fst (mw_tabs w ! nat (mw_active w))) w else w)
      in update_tab_bar st w)"

section \<open>The lists, the stack and the labels agree\<close>

abbreviation ptrs :: "main_window \<Rightarrow> nat list" where
  "ptrs w \<equiv> map fst (mw_tabs w)"

definition tabs_ok :: "main_window \<Rightarrow> bool" where
  "tabs_ok w \<longleftrightarrow> distinct (ptrs w) \<and> (\<forall>p \<in> set (ptrs w). p < mw_next w) \<and>
     mw_term_tabs w = map fst (filter (\<lambda>(_, t). gui_kind t = Terminal) (mw_tabs w)) \<and>
     mw_note_tabs w = map fst (filter (\<lambda>(_, t). gui_kind t = Note) (mw_tabs w))"

definition pages :: "main_window \<Rightarrow> (string \<times> nat) list" where
  "pages w = map (\<lambda>(i, p). (page_name i, p)) (enumerate 0 (ptrs w))"

definition window_ok :: "main_window \<Rightarrow> bool" where
  "window_ok w \<longleftrightarrow> tabs_ok w \<and> mw_stack w = pages w \<and> map fst (mw_bar w) = ptrs w \<and>
     (if mw_tabs w = [] then mw_active w = - 1 \<and> mw_visible w = None
      else 0 \<le> mw_active w \<and> mw_active w < int (length (mw_tabs w)) \<and>
           mw_visible w = Some (ptrs w ! nat (mw_active w)))"

text \<open>In the middle of an operation: the labels are those of a prefix of the tabs, or too many.\<close>

definition bar_pre :: "main_window \<Rightarrow> bool" where
  "bar_pre w \<longleftrightarrow> length (mw_tabs w) < length (mw_bar w) \<or> map fst (mw_bar w) = take (length (mw_bar w)) (ptrs w)"

text \<open>What changes of the stack leave alone.\<close>

definition keeps :: "main_window \<Rightarrow> main_window \<Rightarrow> bool" where
  "keeps w w' \<longleftrightarrow> mw_tabs w' = mw_tabs w \<and> mw_term_tabs w' = mw_term_tabs w \<and> mw_note_tabs w' = mw_note_tabs w \<and>
     mw_next w' = mw_next w \<and> mw_window w' = mw_window w \<and> mw_connected w' = mw_connected w \<and> (bar_pre w \<longrightarrow> bar_pre w')"

lemma keeps_refl [simp]: "keeps w w"
  by (simp add: keeps_def)

lemma keeps_trans: "keeps w w' \<Longrightarrow> keeps w' w'' \<Longrightarrow> keeps w w''"
  by (auto simp: keeps_def)

lemma update_tab_bar_fields [simp]: "mw_tabs (update_tab_bar st w) = mw_tabs w"
  "mw_active (update_tab_bar st w) = mw_active w" "mw_visible (update_tab_bar st w) = mw_visible w"
  "mw_stack (update_tab_bar st w) = mw_stack w" "mw_term_tabs (update_tab_bar st w) = mw_term_tabs w"
  "mw_note_tabs (update_tab_bar st w) = mw_note_tabs w" "mw_next (update_tab_bar st w) = mw_next w"
  "mw_window (update_tab_bar st w) = mw_window w" "mw_connected (update_tab_bar st w) = mw_connected w"
  by (simp_all add: update_tab_bar_def Let_def)

lemma update_tab_bar_ptrs:
  assumes "bar_pre w"
  shows "map fst (mw_bar (update_tab_bar st w)) = ptrs w"
proof -
  let ?bar = "if length (mw_tabs w) < length (mw_bar w) then [] else mw_bar w"
  have "map fst ?bar @ map fst (drop (length ?bar) (mw_tabs w)) = ptrs w"
    using assms append_take_drop_id [of "length (mw_bar w)" "ptrs w"]
    by (auto simp: bar_pre_def drop_map)
  moreover have "map fst (mw_bar (update_tab_bar st w)) =
      map (\<lambda>i. (map fst ?bar @ map fst (drop (length ?bar) (mw_tabs w))) ! i) [0..<length (mw_tabs w)]"
    by (simp only: update_tab_bar_def Let_def) (simp add: comp_def)
  ultimately show ?thesis using map_nth [of "ptrs w"] by simp
qed

lemma update_tab_bar_length: "length (mw_bar (update_tab_bar st w)) = length (mw_tabs w)"
  by (simp add: update_tab_bar_def Let_def)

lemma keeps_update [simp]: "keeps w (update_tab_bar st w)"
  using update_tab_bar_ptrs [of w st] by (simp add: keeps_def bar_pre_def update_tab_bar_length)

lemma keeps_upd [simp]: "keeps w (w\<lparr>mw_active := a\<rparr>)" "keeps w (w\<lparr>mw_visible := v\<rparr>)" "keeps w (w\<lparr>mw_stack := s\<rparr>)"
  by (simp_all add: keeps_def bar_pre_def)

lemma keeps_handler: "keeps w (on_visible_changed st w)"
  unfolding on_visible_changed_def
  by (auto intro: keeps_trans [OF keeps_upd(1) keeps_update] split: option.splits)

lemma keeps_handler': "keeps u w \<Longrightarrow> keeps u (on_visible_changed st w)"
  by (rule keeps_trans [OF _ keeps_handler])

lemma keeps_stack: "keeps w (stack_show st p w)" "keeps w (stack_add sb st name p w)" "keeps w (stack_remove sb st p w)"
  unfolding stack_show_def stack_add_def stack_remove_def Let_def
  by (auto intro!: keeps_handler' intro: keeps_trans [OF keeps_upd(3) keeps_upd(2)])

lemma handler_fields [simp]: "mw_stack (on_visible_changed st w) = mw_stack w"
  "mw_visible (on_visible_changed st w) = mw_visible w"
  "mw_tabs (on_visible_changed st w) = mw_tabs w"
  by (simp_all add: on_visible_changed_def split: option.splits)

lemma index_of_nth:
  assumes "distinct (map fst ts)" "i < length ts"
  shows "index_of (fst (ts ! i)) ts = Some i"
proof -
  have "takeWhile (\<lambda>(q, _). q \<noteq> fst (ts ! i)) ts = take i ts"
  proof (rule takeWhile_eq_take_P_nth)
    show "j < length ts \<Longrightarrow> j < i \<Longrightarrow> (case ts ! j of (q, _) \<Rightarrow> q \<noteq> fst (ts ! i))" for j
      using assms by (auto simp: distinct_conv_nth case_prod_beta)
    show "i < length ts \<Longrightarrow> \<not> (case ts ! i of (q, _) \<Rightarrow> q \<noteq> fst (ts ! i))" by (simp add: case_prod_beta)
  qed
  with assms(2) show ?thesis by (simp add: index_of_def)
qed

lemma handler_active:
  assumes "distinct (ptrs w)" "i < length (mw_tabs w)" "mw_visible w = Some (fst (mw_tabs w ! i))"
    "mw_connected w \<or> mw_active w = int i"
  shows "mw_active (on_visible_changed st w) = int i"
  using index_of_nth [OF assms(1,2)] assms(3,4) by (auto simp: on_visible_changed_def)

section \<open>Emptying and filling the stack\<close>

lemma keeps_foldl: "(\<And>x w. keeps w (f w x)) \<Longrightarrow> keeps w (foldl f w xs)"
  by (induction xs arbitrary: w) (auto intro: keeps_trans)

lemma keeps_clear: "keeps w (clear_stack sb st w)"
  unfolding clear_stack_def by (rule keeps_foldl) (rule keeps_stack)

lemma keeps_fill: "keeps w (fill_stack sb st w)"
  unfolding fill_stack_def by (rule keeps_foldl) (auto intro: keeps_stack)

lemma next_page_in: "next_page sb ps = Some p \<Longrightarrow> p \<in> set ps"
  by (simp add: next_page_def split: option.splits if_splits)

lemma stack_remove_stack: "mw_stack (stack_remove sb st p w) = filter (\<lambda>(_, q). q \<noteq> p) (mw_stack w)"
  by (simp add: stack_remove_def Let_def)

lemma stack_remove_visible:
  "mw_visible (stack_remove sb st p w) =
     (if mw_visible w = Some p then next_page sb (map snd (filter (\<lambda>(_, q). q \<noteq> p) (mw_stack w))) else mw_visible w)"
  by (simp add: stack_remove_def Let_def)

definition visible_in_stack :: "main_window \<Rightarrow> bool" where
  "visible_in_stack w \<longleftrightarrow> (\<forall>p. mw_visible w = Some p \<longrightarrow> p \<in> snd ` set (mw_stack w))"

lemma stack_remove_visible_in:
  assumes "visible_in_stack w"
  shows "visible_in_stack (stack_remove sb st p w)"
  using assms next_page_in [of sb "map snd (filter (\<lambda>(_, q). q \<noteq> p) (mw_stack w))"]
  by (fastforce simp: visible_in_stack_def stack_remove_visible stack_remove_stack)

lemma clear_stack_empties:
  assumes "visible_in_stack w"
  shows "mw_stack (clear_stack sb st w) = [] \<and> mw_visible (clear_stack sb st w) = None"
proof -
  have "visible_in_stack w \<Longrightarrow> (\<forall>x \<in> set (mw_stack w). snd x \<in> set ps) \<Longrightarrow>
      mw_stack (foldl (\<lambda>w p. stack_remove sb st p w) w ps) = [] \<and>
      visible_in_stack (foldl (\<lambda>w p. stack_remove sb st p w) w ps)" for ps
  proof (induction ps arbitrary: w)
    case Nil
    then have "mw_stack w = []" by (cases "mw_stack w") auto
    with Nil show ?case by simp
  next
    case (Cons p ps)
    have "\<forall>x \<in> set (mw_stack (stack_remove sb st p w)). snd x \<in> set ps"
      using Cons.prems(2) by (auto simp: stack_remove_stack)
    from Cons.IH [OF stack_remove_visible_in [OF Cons.prems(1)] this] show ?case by simp
  qed
  from this [OF assms, of "map snd (mw_stack w)"] show ?thesis
    by (auto simp: clear_stack_def visible_in_stack_def)
qed

lemma stack_add_stack: "mw_stack (stack_add sb st n p w) = mw_stack w @ [(n, p)]"
  by (simp add: stack_add_def Let_def)

lemma stack_add_visible:
  "mw_visible (stack_add sb st n p w) = (if mw_visible w = None \<and> sb_first sb then Some p else mw_visible w)"
  by (simp add: stack_add_def Let_def)

lemma stack_add_active: "mw_visible w \<noteq> None \<or> \<not> sb_first sb \<Longrightarrow> mw_active (stack_add sb st n p w) = mw_active w"
  by (auto simp: stack_add_def Let_def)

lemma fill_stack_stack: "mw_stack w = [] \<Longrightarrow> mw_stack (fill_stack sb st w) = pages w"
proof -
  have "mw_stack (foldl (\<lambda>w (i, p). stack_add sb st (page_name i) p w) w es) =
      mw_stack w @ map (\<lambda>(i, p). (page_name i, p)) es" for es
    by (induction es arbitrary: w) (auto simp: stack_add_stack)
  then show "mw_stack w = [] \<Longrightarrow> mw_stack (fill_stack sb st w) = pages w"
    by (simp add: fill_stack_def pages_def)
qed

lemma fold_add_shown:
  assumes "mw_visible w = Some q"
  shows "mw_visible (foldl (\<lambda>w (i, p). stack_add sb st (page_name i) p w) w es) = Some q \<and>
    mw_active (foldl (\<lambda>w (i, p). stack_add sb st (page_name i) p w) w es) = mw_active w"
  using assms
proof (induction es arbitrary: w)
  case (Cons x es)
  obtain i p where x: "x = (i, p)" by (cases x)
  have "mw_visible (stack_add sb st (page_name i) p w) = Some q"
    "mw_active (stack_add sb st (page_name i) p w) = mw_active w"
    using Cons.prems by (simp_all add: stack_add_visible stack_add_active)
  with Cons.IH [OF this(1)] show ?case by (simp add: x)
qed simp

lemma fill_stack_first:
  assumes "mw_visible w = None" "sb_first sb" "mw_tabs w \<noteq> []" "distinct (ptrs w)" "mw_connected w"
  shows "mw_visible (fill_stack sb st w) = Some (fst (mw_tabs w ! 0)) \<and> mw_active (fill_stack sb st w) = 0"
proof -
  obtain p t ts where ts: "mw_tabs w = (p, t) # ts" using assms(3) by (cases "mw_tabs w") auto
  let ?w = "stack_add sb st (page_name 0) p w"
  let ?u = "w\<lparr>mw_stack := mw_stack w @ [(page_name 0, p)], mw_visible := Some p\<rparr>"
  have w: "?w = on_visible_changed st ?u" using assms(1,2) by (simp add: stack_add_def Let_def)
  have "mw_active (on_visible_changed st ?u) = int 0"
    by (rule handler_active) (use assms(4,5) ts in simp_all)
  then have v: "mw_visible ?w = Some p" "mw_active ?w = 0" unfolding w by simp_all
  have "fill_stack sb st w = foldl (\<lambda>w (i, p). stack_add sb st (page_name i) p w) ?w (enumerate 1 (map fst ts))"
    by (simp add: fill_stack_def ts)
  with fold_add_shown [OF v(1), of sb st "enumerate 1 (map fst ts)"] v show ?thesis by (simp add: ts)
qed

lemma fill_stack_quiet:
  assumes "mw_visible w = None" "\<not> sb_first sb"
  shows "mw_visible (fill_stack sb st w) = None \<and> mw_active (fill_stack sb st w) = mw_active w"
proof -
  have "mw_visible w = None \<Longrightarrow> mw_visible (foldl (\<lambda>w (i, p). stack_add sb st (page_name i) p w) w es) = None \<and>
    mw_active (foldl (\<lambda>w (i, p). stack_add sb st (page_name i) p w) w es) = mw_active w" for es
  proof (induction es arbitrary: w)
    case (Cons x es)
    then show ?case using assms(2) by (cases x) (simp add: stack_add_visible stack_add_active)
  qed simp
  with assms(1) show ?thesis by (simp add: fill_stack_def)
qed

section \<open>Adding and removing keep the window consistent\<close>

lemma stack_show_at:
  assumes "distinct (ptrs w)" "i < length (mw_tabs w)" "mw_active w = int i"
    "fst (mw_tabs w ! i) \<in> snd ` set (mw_stack w)"
  shows "mw_visible (stack_show st (fst (mw_tabs w ! i)) w) = Some (fst (mw_tabs w ! i)) \<and>
    mw_active (stack_show st (fst (mw_tabs w ! i)) w) = int i"
proof (cases "mw_visible w = Some (fst (mw_tabs w ! i))")
  case True
  then show ?thesis using assms(3) by (simp add: stack_show_def)
next
  case False
  let ?u = "w\<lparr>mw_visible := Some (fst (mw_tabs w ! i))\<rparr>"
  have "mw_active (on_visible_changed st ?u) = int i"
    by (rule handler_active) (use assms in simp_all)
  with False assms(4) show ?thesis by (simp add: stack_show_def)
qed

lemma stack_show_stack [simp]: "mw_stack (stack_show st p w) = mw_stack w"
  by (simp add: stack_show_def)

lemma keeps_pages: "keeps w w' \<Longrightarrow> pages w' = pages w"
  by (simp add: keeps_def pages_def)

lemma keeps_tabs_ok: "keeps w w' \<Longrightarrow> tabs_ok w' = tabs_ok w"
  by (simp add: keeps_def tabs_ok_def)

lemma pages_ptrs: "map snd (pages w) = ptrs w"
  using map_snd_enumerate [of 0 "ptrs w"] by (simp add: pages_def comp_def case_prod_beta)

lemma pages_in: "i < length (mw_tabs w) \<Longrightarrow> fst (mw_tabs w ! i) \<in> snd ` set (pages w)"
  using pages_ptrs [of w] nth_mem [of i "ptrs w"] by (metis length_map list.set_map nth_map)

text \<open>An operation on the stack that ends with the page of tab \<open>i\<close> being shown and the labels refreshed.\<close>

lemma window_ok_shown:
  assumes "tabs_ok w" "bar_pre w" "mw_stack w = pages w" "i < length (mw_tabs w)" "mw_active w = int i"
  shows "window_ok (update_tab_bar st (stack_show st (fst (mw_tabs w ! i)) w)) \<and>
    mw_active (update_tab_bar st (stack_show st (fst (mw_tabs w ! i)) w)) = int i \<and>
    mw_tabs (update_tab_bar st (stack_show st (fst (mw_tabs w ! i)) w)) = mw_tabs w"
proof -
  let ?u = "stack_show st (fst (mw_tabs w ! i)) w"
  have k: "keeps w ?u" by (rule keeps_stack)
  have d: "distinct (ptrs w)" using assms(1) by (simp add: tabs_ok_def)
  have s: "mw_visible ?u = Some (fst (mw_tabs w ! i))" "mw_active ?u = int i"
    using stack_show_at [OF d assms(4,5), of st] pages_in [OF assms(4)] assms(3) by simp_all
  have t: "mw_tabs ?u = mw_tabs w" "bar_pre ?u" using k assms(2) by (simp_all add: keeps_def)
  have "tabs_ok (update_tab_bar st ?u)" "pages (update_tab_bar st ?u) = pages w"
    using keeps_tabs_ok [OF keeps_trans [OF k keeps_update]] keeps_pages [OF keeps_trans [OF k keeps_update]] assms(1)
    by blast+
  then show ?thesis
    using update_tab_bar_ptrs [OF t(2), of st] s t(1) assms(3,4) by (auto simp: window_ok_def)
qed

definition bar_prefix :: "main_window \<Rightarrow> bool" where
  "bar_prefix w \<longleftrightarrow> length (mw_bar w) \<le> length (mw_tabs w) \<and> map fst (mw_bar w) = take (length (mw_bar w)) (ptrs w)"

lemma bar_prefix_pre: "bar_prefix w \<Longrightarrow> bar_pre w"
  by (simp add: bar_prefix_def bar_pre_def)

lemma bar_prefix_whole: assumes "map fst (mw_bar w) = ptrs w" shows "bar_prefix w"
proof -
  have "length (mw_bar w) = length (mw_tabs w)" using arg_cong [OF assms, of length] by simp
  then show ?thesis by (simp add: bar_prefix_def assms)
qed

lemma bar_prefix_update: "bar_pre w \<Longrightarrow> bar_prefix (update_tab_bar st w)"
  using update_tab_bar_ptrs [of w st] by (simp add: bar_prefix_def update_tab_bar_length)

lemma bar_prefix_add:
  assumes "bar_prefix w"
  shows "bar_prefix (stack_add sb st name p w)"
proof -
  have "bar_prefix (on_visible_changed st u)" if "bar_prefix u" for u
  proof (cases "if mw_connected u then mw_visible u else None")
    case None
    then show ?thesis using that by (simp add: on_visible_changed_def split: if_splits)
  next
    case (Some q)
    have "bar_pre (case index_of q (mw_tabs u) of Some i \<Rightarrow> u\<lparr>mw_active := int i\<rparr> | None \<Rightarrow> u)"
      using bar_prefix_pre [OF that] by (simp add: bar_pre_def split: option.split)
    then show ?thesis using bar_prefix_update Some by (simp add: on_visible_changed_def split: if_splits)
  qed
  moreover have "bar_prefix (w\<lparr>mw_stack := s, mw_visible := v\<rparr>)" "bar_prefix (w\<lparr>mw_stack := s\<rparr>)" for s v
    using assms by (simp_all add: bar_prefix_def)
  ultimately show ?thesis by (simp add: stack_add_def Let_def)
qed

lemma push_view_frame:
  assumes "tabs_ok w" "bar_prefix w" "mw_stack w = pages w"
  shows "let w' = push_view sb st t w in
    tabs_ok w' \<and> bar_prefix w' \<and> mw_stack w' = pages w' \<and> mw_tabs w' = mw_tabs w @ [(mw_next w, t)] \<and>
    mw_window w' = mw_window w \<and> mw_connected w' = mw_connected w"
proof -
  let ?v = "w\<lparr>mw_tabs := mw_tabs w @ [(mw_next w, t)], mw_next := mw_next w + 1\<rparr>"
  let ?u = "case gui_kind t of Terminal \<Rightarrow> ?v\<lparr>mw_term_tabs := mw_term_tabs w @ [mw_next w]\<rparr>
      | Note \<Rightarrow> ?v\<lparr>mw_note_tabs := mw_note_tabs w @ [mw_next w]\<rparr>"
  have p: "push_view sb st t w = stack_add sb st (page_name (length (mw_tabs w))) (mw_next w) ?u"
    by (simp add: push_view_def Let_def split: tab_kind.split)
  have u: "mw_tabs ?u = mw_tabs w @ [(mw_next w, t)]" "mw_stack ?u = mw_stack w" "mw_bar ?u = mw_bar w"
    "mw_window ?u = mw_window w" "mw_connected ?u = mw_connected w"
    by (simp_all split: tab_kind.split)
  have ok: "tabs_ok ?u"
    using assms(1) by (cases "gui_kind t") (auto simp: tabs_ok_def dest: bspec)
  have "bar_prefix ?u" using assms(2) by (simp add: bar_prefix_def u)
  then have bar: "bar_prefix (push_view sb st t w)" unfolding p by (rule bar_prefix_add)
  have k: "keeps ?u (push_view sb st t w)" unfolding p by (rule keeps_stack)
  have pg: "pages ?u = pages w @ [(page_name (length (mw_tabs w)), mw_next w)]"
    by (simp add: pages_def u enumerate_append_eq)
  show ?thesis
    unfolding Let_def using k ok bar keeps_tabs_ok [OF k] keeps_pages [OF k] pg assms(3)
    by (simp add: keeps_def u p stack_add_stack)
qed

theorem add_view_ok:
  assumes "window_ok w"
  shows "window_ok (add_view sb st t w) \<and> mw_tabs (add_view sb st t w) = mw_tabs w @ [(mw_next w, t)] \<and>
    mw_active (add_view sb st t w) = int (length (mw_tabs w))"
proof -
  have w: "tabs_ok w" "bar_prefix w" "mw_stack w = pages w"
    using assms bar_prefix_whole [of w] by (simp_all add: window_ok_def)
  let ?u = "(push_view sb st t w)\<lparr>mw_active := int (length (mw_tabs w))\<rparr>"
  have k: "keeps (push_view sb st t w) ?u" by (rule keeps_upd)
  have u: "tabs_ok ?u" "bar_pre ?u" "mw_stack ?u = pages ?u" "mw_tabs ?u = mw_tabs w @ [(mw_next w, t)]"
    using push_view_frame [OF w, of sb st t] keeps_tabs_ok [OF k] keeps_pages [OF k] k bar_prefix_pre
    by (simp_all add: Let_def keeps_def)
  have "add_view sb st t w = update_tab_bar st (stack_show st (fst (mw_tabs ?u ! length (mw_tabs w))) ?u)"
    using u(4) by (simp add: add_view_def Let_def)
  with window_ok_shown [OF u(1-3), of "length (mw_tabs w)" st] u(4) show ?thesis by simp
qed

lemma add_view_window: "mw_window (add_view sb st t w) = mw_window w \<and> mw_connected (add_view sb st t w) = mw_connected w"
proof -
  let ?v = "w\<lparr>mw_tabs := mw_tabs w @ [(mw_next w, t)], mw_next := mw_next w + 1\<rparr>"
  let ?u = "case gui_kind t of Terminal \<Rightarrow> ?v\<lparr>mw_term_tabs := mw_term_tabs w @ [mw_next w]\<rparr>
      | Note \<Rightarrow> ?v\<lparr>mw_note_tabs := mw_note_tabs w @ [mw_next w]\<rparr>"
  have p: "push_view sb st t w = stack_add sb st (page_name (length (mw_tabs w))) (mw_next w) ?u"
    by (simp add: push_view_def Let_def split: tab_kind.split)
  have "mw_window (push_view sb st t w) = mw_window w" "mw_connected (push_view sb st t w) = mw_connected w"
    using keeps_stack(2) [of ?u sb st "page_name (length (mw_tabs w))" "mw_next w"]
    by (simp_all add: p keeps_def split: tab_kind.splits)
  then show ?thesis
    using keeps_stack(1) [of "(push_view sb st t w)\<lparr>mw_active := int (length (mw_tabs w))\<rparr>" st "mw_next w"]
    by (simp add: add_view_def Let_def keeps_def)
qed

text \<open>Removing: which tabs are left.\<close>

definition without :: "nat \<Rightarrow> 'a list \<Rightarrow> 'a list" where
  "without i xs = take i xs @ drop (i + 1) xs"

lemma page_name_inject [simp]: "page_name i = page_name j \<longleftrightarrow> i = j"
  by (simp add: page_name_def)

lemma page_named_nth:
  assumes "mw_stack w = pages w" "i < length (mw_tabs w)"
  shows "page_named (page_name i) w = Some (fst (mw_tabs w ! i))"
proof -
  have "find (\<lambda>(n, _). n = page_name i) (map (\<lambda>(i, p). (page_name i, p)) (enumerate k xs)) =
      (if k \<le> i \<and> i < k + length xs then Some (page_name i, xs ! (i - k)) else None)" for k and xs :: "nat list"
    by (induction xs arbitrary: k) (auto simp: nth_Cons')
  from this [of 0 "ptrs w"] assms show ?thesis by (simp add: page_named_def pages_def)
qed

lemma without_filter:
  assumes "distinct (map fst ts)" "i < length ts"
  shows "map fst (filter P (without i ts)) = (if P (ts ! i) then remove1 (fst (ts ! i)) (map fst (filter P ts)) else map fst (filter P ts))"
proof -
  have ts: "ts = take i ts @ ts ! i # drop (i + 1) ts" using id_take_nth_drop [OF assms(2)] by simp
  have "fst (ts ! i) \<notin> fst ` set (take i ts)"
    using assms(1) by (subst (asm) ts) auto
  then have "fst (ts ! i) \<notin> set (map fst (filter P (take i ts)))" by auto
  moreover have "map fst (filter P ts) =
      map fst (filter P (take i ts)) @ (if P (ts ! i) then [fst (ts ! i)] else []) @ map fst (filter P (drop (i + 1) ts))"
    by (subst ts) simp
  ultimately show ?thesis by (simp add: without_def remove1_append)
qed

lemma tabs_ok_without:
  assumes "tabs_ok w" "i < length (mw_tabs w)" "mw_tabs w ! i = (p, t)"
    "mw_tabs u = without i (mw_tabs w)" "mw_next u = mw_next w"
    "mw_term_tabs u = (if gui_kind t = Terminal then remove1 p (mw_term_tabs w) else mw_term_tabs w)"
    "mw_note_tabs u = (if gui_kind t = Note then remove1 p (mw_note_tabs w) else mw_note_tabs w)"
  shows "tabs_ok u"
proof -
  have d: "distinct (ptrs w)" using assms(1) by (simp add: tabs_ok_def)
  have "ptrs u = without i (ptrs w)" by (simp add: assms(4) without_def take_map drop_map)
  then have "distinct (ptrs u)" "set (ptrs u) \<subseteq> set (ptrs w)"
    using d set_take_disj_set_drop_if_distinct [OF d, of i "i + 1"] set_take_subset [of i "ptrs w"] set_drop_subset [of "i + 1" "ptrs w"]
    by (auto simp: without_def)
  moreover note without_filter [OF d assms(2), of "\<lambda>(_, t). gui_kind t = Terminal"]
    without_filter [OF d assms(2), of "\<lambda>(_, t). gui_kind t = Note"]
  moreover have "mw_term_tabs w = map fst (filter (\<lambda>(_, t). gui_kind t = Terminal) (mw_tabs w))"
    "mw_note_tabs w = map fst (filter (\<lambda>(_, t). gui_kind t = Note) (mw_tabs w))"
    and low: "\<forall>p \<in> set (ptrs w). p < mw_next w" using assms(1) by (simp_all add: tabs_ok_def)
  moreover have "\<forall>p \<in> set (ptrs u). p < mw_next w" using low \<open>set (ptrs u) \<subseteq> set (ptrs w)\<close> by blast
  ultimately show ?thesis
    unfolding tabs_ok_def assms(4-7) assms(3) by simp
qed

lemma handler_bar_length:
  "length (mw_bar w) = length (mw_tabs w) \<Longrightarrow> length (mw_bar (on_visible_changed st w)) = length (mw_tabs w)"
  by (simp add: on_visible_changed_def update_tab_bar_length split: option.splits)

lemma stack_remove_bar_length:
  "length (mw_bar w) = length (mw_tabs w) \<Longrightarrow> length (mw_bar (stack_remove sb st p w)) = length (mw_tabs w)"
  using handler_bar_length [of "w\<lparr>mw_stack := filter (\<lambda>(_, q). q \<noteq> p) (mw_stack w),
    mw_visible := next_page sb (map snd (filter (\<lambda>(_, q). q \<noteq> p) (mw_stack w)))\<rparr>" st]
  by (simp add: stack_remove_def Let_def)

lemma drop_view_stages:
  assumes "window_ok w" "i < length (mw_tabs w)"
  shows "\<exists>u. tabs_ok u \<and> bar_pre u \<and> mw_tabs u = without i (mw_tabs w) \<and> mw_window u = mw_window w \<and>
    mw_connected u = mw_connected w \<and> visible_in_stack u \<and>
    (let v = fill_stack sb st (clear_stack sb st u);
         v = (if mw_active v < 0 \<or> int (length (mw_tabs v)) \<le> mw_active v
              then v\<lparr>mw_active := int (length (mw_tabs v)) - 1\<rparr> else v);
         v = (if 0 \<le> mw_active v then stack_show st (fst (mw_tabs v ! nat (mw_active v))) v else v)
     in drop_view sb st i w = update_tab_bar st v)"
proof -
  obtain p t where pt: "mw_tabs w ! i = (p, t)" by (cases "mw_tabs w ! i")
  have w: "tabs_ok w" "map fst (mw_bar w) = ptrs w" "mw_stack w = pages w"
    using assms(1) by (simp_all add: window_ok_def)
  let ?a = "stack_remove sb st p w"
  let ?b = "case gui_kind t of Terminal \<Rightarrow> ?a\<lparr>mw_term_tabs := remove1 p (mw_term_tabs ?a)\<rparr>
      | Note \<Rightarrow> ?a\<lparr>mw_note_tabs := remove1 p (mw_note_tabs ?a)\<rparr>"
  let ?c = "if int i < mw_active ?b then ?b\<lparr>mw_active := mw_active ?b - 1\<rparr>
      else if int i = mw_active ?b then ?b\<lparr>mw_active := - 1\<rparr> else ?b"
  let ?u = "?c\<lparr>mw_tabs := take i (mw_tabs ?c) @ drop (i + 1) (mw_tabs ?c)\<rparr>"
  have k: "keeps w ?a" by (rule keeps_stack)
  have len: "length (mw_bar w) = length (mw_tabs w)" using arg_cong [OF w(2), of length] by simp
  have pre: "bar_pre w" using w(2) by (simp add: bar_pre_def len)
  have a: "mw_tabs ?a = mw_tabs w" "mw_term_tabs ?a = mw_term_tabs w" "mw_note_tabs ?a = mw_note_tabs w"
    "mw_next ?a = mw_next w" "mw_window ?a = mw_window w" "mw_connected ?a = mw_connected w" "bar_pre ?a"
    using k pre by (simp_all add: keeps_def)
  have u: "mw_tabs ?u = without i (mw_tabs w)" "mw_next ?u = mw_next w" "mw_window ?u = mw_window w"
    "mw_term_tabs ?u = (if gui_kind t = Terminal then remove1 p (mw_term_tabs w) else mw_term_tabs w)"
    "mw_note_tabs ?u = (if gui_kind t = Note then remove1 p (mw_note_tabs w) else mw_note_tabs w)"
    "mw_bar ?u = mw_bar ?a" "mw_stack ?u = mw_stack ?a" "mw_visible ?u = mw_visible ?a" "mw_connected ?u = mw_connected w"
    by (auto simp: a without_def split: tab_kind.splits)
  have "visible_in_stack w"
  proof -
    have "mw_tabs w \<noteq> []" using assms(2) by auto
    then have "nat (mw_active w) < length (mw_tabs w)" "mw_visible w = Some (fst (mw_tabs w ! nat (mw_active w)))"
      using assms(1) by (simp_all add: window_ok_def nat_less_iff)
    with pages_in [of "nat (mw_active w)" w] w(3) show ?thesis by (simp add: visible_in_stack_def)
  qed
  then have vis: "visible_in_stack ?u"
    using stack_remove_visible_in [of w sb st p] unfolding visible_in_stack_def u(7,8) by blast
  have bar: "bar_pre ?u"
    using stack_remove_bar_length [OF len, of sb st p] assms(2) unfolding bar_pre_def u(1) u(6)
    by (intro disjI1) (simp add: without_def)
  have ok: "tabs_ok ?u"
    by (rule tabs_ok_without [OF w(1) assms(2) pt u(1,2,4,5)])
  have "let v = fill_stack sb st (clear_stack sb st ?u);
         v = (if mw_active v < 0 \<or> int (length (mw_tabs v)) \<le> mw_active v
              then v\<lparr>mw_active := int (length (mw_tabs v)) - 1\<rparr> else v);
         v = (if 0 \<le> mw_active v then stack_show st (fst (mw_tabs v ! nat (mw_active v))) v else v)
     in drop_view sb st i w = update_tab_bar st v"
    unfolding drop_view_def Let_def pt prod.case page_named_nth [OF w(3) assms(2)] option.case fst_conv by (rule refl)
  with vis bar ok u(1,3,9) show ?thesis by (intro exI [of _ ?u] conjI)
qed

text \<open>
  Which tab is shown after one was closed: the first when the stack shows the first page added to it,
  else the one the window chose.
\<close>

theorem drop_view_ok:
  assumes "window_ok w" "i < length (mw_tabs w)"
  shows "window_ok (drop_view sb st i w) \<and> mw_tabs (drop_view sb st i w) = without i (mw_tabs w) \<and>
    mw_window (drop_view sb st i w) = mw_window w \<and>
    mw_connected (drop_view sb st i w) = mw_connected w \<and>
    (sb_first sb \<longrightarrow> mw_connected w \<longrightarrow> 1 < length (mw_tabs w) \<longrightarrow> mw_active (drop_view sb st i w) = 0)"
proof -
  obtain u where u: "tabs_ok u" "bar_pre u" "mw_tabs u = without i (mw_tabs w)" "mw_window u = mw_window w"
    "visible_in_stack u" "mw_connected u = mw_connected w"
    and d: "let v = fill_stack sb st (clear_stack sb st u);
         v = (if mw_active v < 0 \<or> int (length (mw_tabs v)) \<le> mw_active v
              then v\<lparr>mw_active := int (length (mw_tabs v)) - 1\<rparr> else v);
         v = (if 0 \<le> mw_active v then stack_show st (fst (mw_tabs v ! nat (mw_active v))) v else v)
     in drop_view sb st i w = update_tab_bar st v"
    using drop_view_stages [OF assms, of sb st] by (elim exE conjE)
  let ?c = "clear_stack sb st u"
  let ?f = "fill_stack sb st ?c"
  let ?g = "if mw_active ?f < 0 \<or> int (length (mw_tabs ?f)) \<le> mw_active ?f
     then ?f\<lparr>mw_active := int (length (mw_tabs ?f)) - 1\<rparr> else ?f"
  note c = clear_stack_empties [OF u(5), of sb st]
  have kc: "keeps u ?c" and kf: "keeps ?c ?f" by (rule keeps_clear, rule keeps_fill)
  have kg: "keeps u ?g" using keeps_trans [OF kc kf] keeps_trans [OF keeps_trans [OF kc kf] keeps_upd(1)] by auto
  have g: "mw_tabs ?g = mw_tabs u" "bar_pre ?g" "mw_window ?g = mw_window u" "mw_connected ?g = mw_connected u"
    using kg u(2) by (simp_all add: keeps_def)
  have ok: "tabs_ok ?g" using keeps_tabs_ok [OF kg] u(1) by blast
  have "mw_stack ?f = pages ?c" using c by (intro fill_stack_stack) simp
  then have st: "mw_stack ?g = pages ?g" using keeps_pages [OF kc] keeps_pages [OF kg] by auto
  show ?thesis
  proof (cases "mw_tabs u = []")
    case True
    have "mw_tabs ?f = []" "mw_tabs ?c = []" using True kc kf by (simp_all add: keeps_def)
    then have e: "mw_active ?g = - 1" "mw_visible ?g = None" "?f = ?c"
      using c by (auto simp: fill_stack_def)
    then have "drop_view sb st i w = update_tab_bar st ?g" using d by (simp only: Let_def) simp
    moreover have "window_ok (update_tab_bar st ?g)"
      using update_tab_bar_ptrs [OF g(2), of st] ok st e keeps_tabs_ok [OF keeps_update, of st ?g]
        keeps_pages [OF keeps_update, of st ?g] True g(1) by (auto simp: window_ok_def)
    moreover have "length (mw_tabs w) = 1"
      using arg_cong [OF u(3), of length] True assms(2) by (simp add: without_def)
    ultimately show ?thesis using g u(3,4,6) by simp
  next
    case False
    then have "0 < length (mw_tabs u)" by simp
    moreover have ft: "mw_tabs ?f = mw_tabs u" using kc kf by (simp add: keeps_def)
    ultimately have a: "0 \<le> mw_active ?g" "nat (mw_active ?g) < length (mw_tabs ?g)"
      by (auto simp: nat_less_iff)
    from a d have e: "drop_view sb st i w = update_tab_bar st (stack_show st (fst (mw_tabs ?g ! nat (mw_active ?g))) ?g)"
      by (simp only: Let_def if_True)
    have n: "mw_active ?g = int (nat (mw_active ?g))" using a(1) by simp
    have win: "mw_window (stack_show st p ?g) = mw_window ?g" for p
      using keeps_stack(1) [of ?g st p] by (simp add: keeps_def)
    have con: "mw_connected (stack_show st p ?g) = mw_connected ?g" for p
      using keeps_stack(1) [of ?g st p] by (simp add: keeps_def)
    have zero: "mw_active ?g = 0" if "sb_first sb" "mw_connected w"
    proof -
      have "distinct (ptrs ?c)" "mw_tabs ?c \<noteq> []" "mw_connected ?c"
        using kc u(1,6) False that(2) by (simp_all add: keeps_def tabs_ok_def)
      with fill_stack_first [of ?c sb st] c that have "mw_active ?f = 0" by simp
      then show ?thesis using False ft by simp
    qed
    define v where v: "v = ?g"
    note shown = window_ok_shown [OF ok g(2) st a(2) n, of st, folded v]
    have "mw_tabs v = without i (mw_tabs w)" "mw_window v = mw_window w" "mw_active v = int (nat (mw_active v))"
      "mw_connected v = mw_connected w" "sb_first sb \<Longrightarrow> mw_connected w \<Longrightarrow> mw_active v = 0"
      using g(1,3,4) u(3,4,6) n zero unfolding v by (blast intro: trans)+
    then show ?thesis unfolding e [folded v] using shown win [folded v] con [folded v]
      by (cases "sb_first sb"; cases "mw_connected w") simp_all
  qed
qed

end
