(* ===== verification/Window_Tabs.thy ===== *)
theory Window_Tabs
  imports Main_Window
begin

text \<open>
  The main window's operations on tabs (\<^verbatim>\<open>main_window.cpp\<close>) over everything they touch: the session,
  the engine, the store, the disk and the window.  An exception that leaves a handler is \<open>Threw\<close>;
  dialogs are an operation that asks and one that answers.
\<close>

section \<open>The program around a window\<close>

record 's gui =
  g_session :: session
  g_core :: core
  g_store :: "'s store"
  g_disk :: disk
  g_win :: main_window

text \<open>
  What does not change during an operation: the toolkit's stack, the terminals' surroundings, what a
  text buffer holds and its number of characters, \<^verbatim>\<open>weakly_canonical\<close>, the failures of writes and the
  adjustments of a fresh note's editor and preview.
\<close>

record gui_env =
  ge_stack :: stack_behaviour
  ge_tab :: tab_env
  ge_shell :: string
  ge_holds :: "string \<Rightarrow> string"
  ge_chars :: "string \<Rightarrow> int"
  ge_canon :: "string \<Rightarrow> string option"
  ge_fault :: write_faults
  ge_adj :: "adjustment \<times> adjustment"

text \<open>What an operation takes from clocks and generators.\<close>

record fresh =
  fr_now :: time_point
  fr_mtime :: int
  fr_window :: window_id
  fr_tab :: tab_id
  fr_pane :: pane_id

definition upd_win :: "(main_window \<Rightarrow> main_window) \<Rightarrow> 's gui \<Rightarrow> 's gui" where
  "upd_win f g = g\<lparr>g_win := f (g_win g)\<rparr>"

definition active_view :: "main_window \<Rightarrow> (nat \<times> gui_tab) option" where
  "active_view w =
     (if 0 \<le> mw_active w \<and> mw_active w < int (length (mw_tabs w)) then Some (mw_tabs w ! nat (mw_active w)) else None)"

section \<open>Opening\<close>

definition window_new_terminal :: "gui_env \<Rightarrow> fresh \<Rightarrow> 's gui \<Rightarrow> 's gui outcome" where
  "window_new_terminal e fr g =
     (case new_terminal_tab (fr_now fr) (fr_window fr) (fr_tab fr) (fr_pane fr) ''terminal'' (g_session g, g_core g) of
        Inl _ \<Rightarrow> Threw
      | Inr (info, ses, c) \<Rightarrow>
          let g = g\<lparr>g_session := ses, g_core := c\<rparr>
          in if id_empty (tt_tab info) then Returned g
             else then_do (rebuild (ge_tab e) c
                      (new_term_view (ge_tab e) (ge_shell e) (tt_window info) (tt_tab info) (tt_root_pane info)))
               (\<lambda>v. Returned (upd_win (\<lambda>w. add_view (ge_stack e) (g_store g) (Terminal_Gui v)
                       (w\<lparr>mw_window := tt_window info\<rparr>)) g)))"

definition bound_note_view :: "gui_env \<Rightarrow> string \<Rightarrow> 's gui \<Rightarrow> note_view" where
  "bound_note_view e noteId g =
     (let v = new_note_view (ge_holds e) noteId (g_store g) (g_disk g)
      in case note_tab_binding noteId (g_core g) of
           Some (w, t) \<Rightarrow> v\<lparr>nv_window := w, nv_tab := t\<rparr>
         | None \<Rightarrow> v)"

definition window_new_note :: "gui_env \<Rightarrow> fresh \<Rightarrow> 's gui \<Rightarrow> 's gui outcome" where
  "window_new_note e fr g =
     (case new_note (fr_now fr) (fr_window fr) (fr_tab fr) (fr_pane fr) (g_session g, g_core g) of
        Inl _ \<Rightarrow> Threw
      | Inr (noteId, ses, c) \<Rightarrow>
          let g = g\<lparr>g_session := ses, g_core := c\<rparr>
          in Returned (if noteId = '''' then g
               else upd_win (add_view (ge_stack e) (g_store g) (Note_Gui (bound_note_view e noteId g))) g))"

definition note_key :: "gui_env \<Rightarrow> string \<Rightarrow> string" where
  "note_key e path = (case ge_canon e path of Some c \<Rightarrow> c | None \<Rightarrow> path)"

fun shows_file :: "gui_env \<Rightarrow> 's store \<Rightarrow> string \<Rightarrow> gui_tab \<Rightarrow> bool" where
  "shows_file e st key (Note_Gui v) \<longleftrightarrow> note_file (ge_canon e) st v = key"
| "shows_file e st key (Terminal_Gui v) \<longleftrightarrow> False"

fun tab_modified :: "gui_tab \<Rightarrow> bool" where
  "tab_modified (Note_Gui v) \<longleftrightarrow> nv_modified v"
| "tab_modified (Terminal_Gui v) \<longleftrightarrow> False"

definition focus_view :: "'s store \<Rightarrow> nat \<Rightarrow> main_window \<Rightarrow> main_window" where
  "focus_view st i w =
     update_tab_bar st ((stack_show st (fst (mw_tabs w ! i)) w)\<lparr>mw_active := int i\<rparr>)"

text \<open>
  A file that is open is only brought to front; the first result tells whether the user is asked about
  unsaved edits.
\<close>

definition open_note_from_path :: "gui_env \<Rightarrow> fresh \<Rightarrow> string \<Rightarrow> 's gui \<Rightarrow> (bool \<times> 's gui) outcome" where
  "open_note_from_path e fr path g =
     (let tabs = mw_tabs (g_win g);
          i = length (takeWhile (\<lambda>(_, t). \<not> shows_file e (g_store g) (note_key e path) t) tabs)
      in if i < length tabs
         then Returned (tab_modified (snd (tabs ! i)), upd_win (focus_view (g_store g) i) g)
         else case new_note (fr_now fr) (fr_window fr) (fr_tab fr) (fr_pane fr) (g_session g, g_core g) of
                Inl _ \<Rightarrow> Threw
              | Inr (noteId, ses, c) \<Rightarrow>
                  let g = g\<lparr>g_session := ses, g_core := c\<rparr>
                  in if noteId = '''' then Returned (False, g)
                     else
                       let p = mw_next (g_win g);
                           v = bound_note_view e noteId g;
                           g = upd_win (add_view (ge_stack e) (g_store g) (Note_Gui v)) g;
                           (st, v) = load_file (ge_holds e) (fr_now fr) path (g_store g) (g_disk g) v;
                           g = g\<lparr>g_store := st\<rparr>
                       in Returned (False,
                            upd_win (\<lambda>w. update_tab_bar st (upd_tab p (\<lambda>_. Note_Gui v) w)) g))"

section \<open>Closing\<close>

definition finish_close_tab :: "gui_env \<Rightarrow> nat \<Rightarrow> 's gui \<Rightarrow> 's gui" where
  "finish_close_tab e i g =
     (if length (mw_tabs (g_win g)) \<le> i then g
      else
        let (wid, tid) = gui_ids (snd (mw_tabs (g_win g) ! i));
            g = (if \<not> id_empty wid \<and> \<not> id_empty tid then g\<lparr>g_core := snd (remove_tab wid tid (g_core g))\<rparr> else g)
        in upd_win (drop_view (ge_stack e) (g_store g) i) g)"

text \<open>What a close comes to: done, a question, or the dialog for a path.\<close>

datatype close_outcome = Close_Done | Close_Ask nat | Close_Needs_Path nat

definition close_keep_note :: "gui_env \<Rightarrow> int \<Rightarrow> nat \<Rightarrow> nat \<Rightarrow> note_view \<Rightarrow> 's gui \<Rightarrow> close_outcome \<times> 's gui" where
  "close_keep_note e mt i p v g =
     (if has_path (g_store g) v
      then
        let (_, d, v) = save_now (ge_fault e) mt (note_path (g_store g) (nv_id v)) (g_disk g) v;
            g = upd_win (\<lambda>w. update_tab_bar (g_store g) (upd_tab p (\<lambda>_. Note_Gui v) w)) (g\<lparr>g_disk := d\<rparr>)
        in (Close_Done, finish_close_tab e i g)
      else (Close_Needs_Path p, g))"

definition close_tab :: "gui_env \<Rightarrow> int \<Rightarrow> int \<Rightarrow> 's gui \<Rightarrow> close_outcome \<times> 's gui" where
  "close_tab e mt i g =
     (if i < 0 \<or> int (length (mw_tabs (g_win g))) \<le> i then (Close_Done, g)
      else case mw_tabs (g_win g) ! nat i of
             (p, Note_Gui v) \<Rightarrow>
               if nv_modified v then
                 (case unsaved_close_behavior (g_store g) of
                    Keep \<Rightarrow> close_keep_note e mt (nat i) p v g
                  | Ask \<Rightarrow> (Close_Ask p, g)
                  | Skip \<Rightarrow> (Close_Done, finish_close_tab e (nat i) g))
               else (Close_Done, finish_close_tab e (nat i) g)
           | (p, Terminal_Gui v) \<Rightarrow> (Close_Done, finish_close_tab e (nat i) g))"

text \<open>The answer to the question, when the tab may have moved or gone.\<close>

definition close_answer :: "gui_env \<Rightarrow> int \<Rightarrow> bool \<Rightarrow> nat \<Rightarrow> 's gui \<Rightarrow> close_outcome \<times> 's gui" where
  "close_answer e mt keep p g =
     (case index_of p (mw_tabs (g_win g)) of
        None \<Rightarrow> (Close_Done, g)
      | Some i \<Rightarrow>
          (case snd (mw_tabs (g_win g) ! i) of
             Note_Gui v \<Rightarrow>
               if keep then close_keep_note e mt i p v g else (Close_Done, finish_close_tab e i g)
           | Terminal_Gui v \<Rightarrow> (Close_Done, finish_close_tab e i g)))"

text \<open>The answer to the dialog for a path; the tab is closed when a path was chosen.\<close>

definition close_save_as :: "gui_env \<Rightarrow> fresh \<Rightarrow> bool \<Rightarrow> string \<Rightarrow> nat \<Rightarrow> note_view \<Rightarrow> 's gui \<Rightarrow> 's gui" where
  "close_save_as e fr ok chosen p v g =
     (let (finished, st, d, v) = save_as_response (ge_fault e) (fr_now fr) (fr_mtime fr) ok chosen (g_store g) (g_disk g) v;
          g = upd_win (\<lambda>w. update_tab_bar st (upd_tab p (\<lambda>_. Note_Gui v) w)) (g\<lparr>g_store := st, g_disk := d\<rparr>)
      in if finished then (case index_of p (mw_tabs (g_win g)) of Some i \<Rightarrow> finish_close_tab e i g | None \<Rightarrow> g) else g)"

section \<open>Other operations\<close>

text \<open>A click on a label.\<close>

definition click_label :: "nat \<Rightarrow> 's gui \<Rightarrow> 's gui" where
  "click_label p g =
     (case index_of p (mw_tabs (g_win g)) of
        Some i \<Rightarrow> upd_win (stack_show (g_store g) (fst (mw_tabs (g_win g) ! i))) g
      | None \<Rightarrow> g)"

definition rename_tab :: "string \<Rightarrow> int \<Rightarrow> 's gui \<Rightarrow> 's gui" where
  "rename_tab name i g =
     (let ok = name \<noteq> '''' \<and> 0 \<le> i \<and> i < int (length (mw_tabs (g_win g)))
      in upd_win (\<lambda>w. update_tab_bar (g_store g)
             (if ok then upd_tab (fst (mw_tabs w ! nat i)) (set_gui_title name) w else w)) g)"

definition rename_window_response :: "string \<Rightarrow> 's gui \<Rightarrow> 's gui" where
  "rename_window_response name g = g\<lparr>g_core := snd (session_rename_workspace name (g_core g))\<rparr>"

text \<open>
  Splitting the active terminal.  An exception of the engine is caught; one from making the terminal is
  caught as well, after the engine has split, and is left as \<open>Threw\<close> here.
\<close>

definition split_tab :: "gui_env \<Rightarrow> pane_id \<Rightarrow> split_kind \<Rightarrow> nat \<Rightarrow> term_view \<Rightarrow> 's gui \<Rightarrow> 's gui outcome" where
  "split_tab e fresh k p v g =
     then_do (split_view (ge_tab e) fresh k (g_core g) v)
       (\<lambda>(_, c, v). Returned (upd_win (upd_tab p (\<lambda>_. Terminal_Gui v)) (g\<lparr>g_core := c\<rparr>)))"

text \<open>The engine's exception when the tab is gone.\<close>

definition split_throws :: "pane_id \<Rightarrow> split_kind \<Rightarrow> term_view \<Rightarrow> 's gui \<Rightarrow> bool" where
  "split_throws fresh k v g \<longleftrightarrow> isl (split_pane fresh (tv_tab v) k (Fin (1 / 2)) (g_core g))"

definition split_active :: "gui_env \<Rightarrow> pane_id \<Rightarrow> split_kind \<Rightarrow> 's gui \<Rightarrow> 's gui outcome" where
  "split_active e fresh k g =
     (case active_view (g_win g) of
        Some (p, Terminal_Gui v) \<Rightarrow> if split_throws fresh k v g then Returned g else split_tab e fresh k p v g
      | _ \<Rightarrow> Returned g)"

text \<open>The splits of a grid, row by row.\<close>

definition grid_splits :: "nat \<Rightarrow> nat \<Rightarrow> split_kind list" where
  "grid_splits rows cols =
     concat (map (\<lambda>r. concat (map (\<lambda>c.
       if r = 0 \<and> c = 0 then [] else if c = 0 then [SplitHorizontal] else [SplitVertical]) [0..<cols])) [0..<rows])"

text \<open>An exception of the engine ends the loop; the tab is looked up by its pointer once.\<close>

fun split_each :: "gui_env \<Rightarrow> nat \<Rightarrow> (pane_id \<times> split_kind) list \<Rightarrow> 's gui \<Rightarrow> 's gui outcome" where
  "split_each e p [] g = Returned g"
| "split_each e p ((fresh, k) # ks) g =
     (case map_of (mw_tabs (g_win g)) p of
        Some (Terminal_Gui v) \<Rightarrow>
          if split_throws fresh k v g then Returned g else then_do (split_tab e fresh k p v g) (split_each e p ks)
      | _ \<Rightarrow> Returned g)"

text \<open>
  The answer to the dialog: the tab is the one that is active by then.  For a note tab, or when no tab
  is left, the code's cast and index are undefined; nothing happens here.
\<close>

definition custom_split_response :: "gui_env \<Rightarrow> nat \<Rightarrow> nat \<Rightarrow> pane_id list \<Rightarrow> 's gui \<Rightarrow> 's gui outcome" where
  "custom_split_response e rows cols freshs g =
     (if rows < 1 \<or> cols < 1 \<or> 10 < rows \<or> 10 < cols then Returned g
      else case active_view (g_win g) of
             Some (p, _) \<Rightarrow> split_each e p (zip freshs (grid_splits rows cols)) g
           | None \<Rightarrow> Returned g)"

definition close_active_pane :: "gui_env \<Rightarrow> int \<Rightarrow> 's gui \<Rightarrow> (close_outcome \<times> 's gui) outcome" where
  "close_active_pane e mt g =
     (case active_view (g_win g) of
        Some (p, Terminal_Gui v) \<Rightarrow>
          then_do (close_focused_pane (ge_tab e) (g_core g) v) (\<lambda>(_, c, v').
            let asked = length (filter (\<lambda>x. x = Close_Tab_Request) (tv_calls v)) <
                        length (filter (\<lambda>x. x = Close_Tab_Request) (tv_calls v'));
                g = upd_win (upd_tab p (\<lambda>_. Terminal_Gui v')) (g\<lparr>g_core := c\<rparr>)
            in Returned (if asked
                 then (case index_of p (mw_tabs (g_win g)) of
                         Some i \<Rightarrow> close_tab e mt (int i) g | None \<Rightarrow> (Close_Done, g))
                 else (Close_Done, g)))
      | _ \<Rightarrow> Returned (Close_Done, g))"

section \<open>Checkpoints\<close>

text \<open>
  What the widgets answer during a capture: each terminal by the pointer of its tab and its pane, the
  links of \<^verbatim>\<open>/proc\<close>, each editor's adjustment and the value of an uninitialized variable, the tree
  panel's state, and the window's size.
\<close>

record capture_env =
  ce_vte :: "nat \<Rightarrow> string \<Rightarrow> vte_view"
  ce_canonical :: "string \<Rightarrow> string option"
  ce_adj :: "nat \<Rightarrow> adjustment"
  ce_uninit :: dbl
  ce_directory :: "directory_tree_state option"
  ce_width :: i32
  ce_height :: i32
  ce_now :: time_point

definition capture_pane :: "gui_env \<Rightarrow> capture_env \<Rightarrow> nat \<Rightarrow> string \<Rightarrow> core \<times> term_view \<Rightarrow> core \<times> term_view" where
  "capture_pane e ce p k = (\<lambda>(c, v).
     case map_of (tv_panes v) k of
       None \<Rightarrow> (c, v)
     | Some q \<Rightarrow>
         let (snap, q) = runtime_capture (te_env (ge_tab e)) (ce_canonical ce) (ce_vte ce p k) q
         in (apply_runtime_state (tv_tab v) (Id k) snap c,
             v\<lparr>tv_panes := map (\<lambda>(j, x). (j, if j = k then q else x)) (tv_panes v)\<rparr>))"

definition note_tab_state_of :: "gui_env \<Rightarrow> capture_env \<Rightarrow> 's store \<Rightarrow> nat \<Rightarrow> note_view \<Rightarrow> note_tab_state" where
  "note_tab_state_of e ce st p v =
     (let s = capture_state v (ce_adj ce p) (ce_uninit ce)
      in \<lparr>nt_document_id = nv_id v, nt_path = note_file (ge_canon e) st v, nt_title = nv_title v,
          nt_content = ns_content s, nt_modified = nv_modified v, nt_cursor = word_of_int (ns_cursor_offset s),
          nt_scroll = ns_scroll_fraction s, nt_preview_enabled = ns_preview_enabled s,
          nt_split_ratio = ns_split_ratio s, nt_sync_scroll = ns_sync_scroll s\<rparr>)"

text \<open>The title loop writes the workspace through its pointer, every match.\<close>

definition set_core_title :: "window_id \<Rightarrow> tab_id \<Rightarrow> string \<Rightarrow> core \<Rightarrow> core" where
  "set_core_title w t title c =
     c\<lparr>ws_current := map_option (\<lambda>ws. ws\<lparr>ws_windows := map (\<lambda>x. if w_id x \<noteq> w then x else
         x\<lparr>w_tabs := map (\<lambda>y. if t_id y = t then y\<lparr>t_title := title\<rparr> else y) (w_tabs x)\<rparr>) (ws_windows ws)\<rparr>)
       (ws_current c)\<rparr>"

definition capture_note :: "gui_env \<Rightarrow> capture_env \<Rightarrow> 's store \<Rightarrow> nat \<Rightarrow> note_view \<Rightarrow> core \<Rightarrow> core" where
  "capture_note e ce st p v c =
     (if id_empty (nv_window v) \<or> id_empty (nv_tab v) then c
      else set_core_title (nv_window v) (nv_tab v) (nv_title v)
        (snd (set_tab_note_state (nv_window v) (nv_tab v) (note_tab_state_of e ce st p v) c)))"

definition capture_geometry :: "capture_env \<Rightarrow> main_window \<Rightarrow> window \<Rightarrow> window" where
  "capture_geometry ce w x =
     (let x = (if 0 < sint (ce_width ce) then x\<lparr>w_width := ce_width ce\<rparr> else x);
          x = (if 0 < sint (ce_height ce) then x\<lparr>w_height := ce_height ce\<rparr> else x);
          x = (case active_view w of
                 Some (_, Terminal_Gui v) \<Rightarrow>
                   (let x = x\<lparr>w_focus_tab_id := Some (tv_tab v)\<rparr>
                    in if \<not> id_empty (tv_active v) then x\<lparr>w_focus_pane_id := Some (tv_active v)\<rparr> else x)
               | Some (_, Note_Gui v) \<Rightarrow> x\<lparr>w_focus_tab_id := Some (nv_tab v)\<rparr>
               | None \<Rightarrow> x)
      in x\<lparr>w_last_active := ce_now ce\<rparr>)"

definition capture_window :: "capture_env \<Rightarrow> main_window \<Rightarrow> core \<Rightarrow> core" where
  "capture_window ce w c =
     c\<lparr>ws_current := map_option (\<lambda>ws.
         let ws = (case ce_directory ce of
                     Some dt \<Rightarrow> ws\<lparr>ws_ui := (ws_ui ws)\<lparr>ui_directory_tree := dt\<rparr>\<rparr> | None \<Rightarrow> ws)
         in ws\<lparr>ws_windows := map (\<lambda>x. if w_id x \<noteq> mw_window w then x else capture_geometry ce w x) (ws_windows ws),
               ws_focus_window_id := Some (mw_window w)\<rparr>) (ws_current c)\<rparr>"

text \<open>Terminals first, in the order of \<^verbatim>\<open>term_tabs_\<close>, then the notes in the order of \<^verbatim>\<open>note_tabs_\<close>.\<close>

definition capture_terminal :: "gui_env \<Rightarrow> capture_env \<Rightarrow> nat \<Rightarrow> core \<times> main_window \<Rightarrow> core \<times> main_window" where
  "capture_terminal e ce p = (\<lambda>(c, w).
     case map_of (mw_tabs w) p of
       Some (Terminal_Gui v) \<Rightarrow>
         (let (c, v) = fold (capture_pane e ce p) (map fst (tv_panes v)) (c, v)
          in (c, upd_tab p (\<lambda>_. Terminal_Gui v) w))
     | _ \<Rightarrow> (c, w))"

definition capture_runtime :: "gui_env \<Rightarrow> capture_env \<Rightarrow> 's gui \<Rightarrow> 's gui" where
  "capture_runtime e ce g =
     (if ws_current (g_core g) = None then g
      else
        let (c, w) = fold (capture_terminal e ce) (mw_term_tabs (g_win g)) (g_core g, g_win g);
            c = fold (\<lambda>p c. case map_of (mw_tabs w) p of
                              Some (Note_Gui v) \<Rightarrow> capture_note e ce (g_store g) p v c | _ \<Rightarrow> c) (mw_note_tabs w) c
        in g\<lparr>g_core := capture_window ce w c, g_win := w\<rparr>)"

text \<open>\<open>None\<close> is the exception of \<^verbatim>\<open>dump\<close> on text that is not UTF-8.\<close>

definition capture_closed_window :: "gui_env \<Rightarrow> capture_env \<Rightarrow> (json \<Rightarrow> string option) \<Rightarrow> snapshot_id \<Rightarrow> 's gui \<Rightarrow>
    (closed_window_snapshot option \<times> 's gui) option" where
  "capture_closed_window e ce dump fresh g =
     (case ws_current (g_core g) of
        None \<Rightarrow> Some (None, g)
      | Some _ \<Rightarrow>
          (let g = capture_runtime e ce g
           in case ws_current (g_core g) of
                None \<Rightarrow> Some (None, g)
              | Some ws \<Rightarrow>
                  (case find (\<lambda>x. w_id x = mw_window (g_win g)) (ws_windows ws) of
                     None \<Rightarrow> Some (None, g)
                   | Some x \<Rightarrow>
                       map_option (\<lambda>s. (Some \<lparr>cw_id = fresh, cw_window_id = mw_window (g_win g), cw_label = w_label x,
                           cw_closed_at = ce_now ce, cw_workspace_state_json = s, cw_generation = ws_generation ws\<rparr>, g))
                         (dump (workspace_to_json ws)))))"

text \<open>The close handler ends every shell before the last capture; \<open>answers\<close> is what waiting for each answers.\<close>

definition terminate_view :: "(string \<Rightarrow> wait_answer list) \<Rightarrow> gui_tab \<Rightarrow> gui_tab" where
  "terminate_view answers t =
     (case t of
        Terminal_Gui v \<Rightarrow>
          Terminal_Gui (v\<lparr>tv_panes := map (\<lambda>(k, q). (k, snd (snd (terminate_and_wait (answers k) q)))) (tv_panes v)\<rparr>)
      | Note_Gui v \<Rightarrow> Note_Gui v)"

definition close_request_capture :: "gui_env \<Rightarrow> capture_env \<Rightarrow> (nat \<Rightarrow> string \<Rightarrow> wait_answer list) \<Rightarrow> 's gui \<Rightarrow> 's gui" where
  "close_request_capture e ce answers g =
     capture_runtime e ce (upd_win (\<lambda>w. w\<lparr>mw_tabs := map (\<lambda>(p, t). (p, terminate_view (answers p) t)) (mw_tabs w)\<rparr>) g)"

section \<open>Restoring\<close>

definition restored_note :: "gui_env \<Rightarrow> window_id \<Rightarrow> tab \<Rightarrow> note_tab_state \<Rightarrow> 's gui \<Rightarrow> note_view" where
  "restored_note e w t s g =
     (let v = new_note_view (ge_holds e) (nt_document_id s) (g_store g) (g_disk g);
          v = v\<lparr>nv_window := w, nv_tab := t_id t\<rparr>;
          v = (if nt_title s \<noteq> '''' then v\<lparr>nv_title := nt_title s\<rparr> else v)
      in fst (restore_state (ge_holds e) (ge_chars e)
           \<lparr>ns_content = nt_content s, ns_cursor_offset = sint (nt_cursor s), ns_scroll_fraction = nt_scroll s,
            ns_preview_enabled = nt_preview_enabled s, ns_split_ratio = nt_split_ratio s,
            ns_sync_scroll = nt_sync_scroll s\<rparr> v (ge_adj e)))"

text \<open>A note tab without a state or a document is not restored.\<close>

definition restore_tab :: "gui_env \<Rightarrow> window_id \<Rightarrow> tab \<Rightarrow> 's gui \<Rightarrow> 's gui outcome" where
  "restore_tab e w t g =
     (case t_kind t of
        Terminal \<Rightarrow>
          then_do (restore_pane_tree (ge_tab e) (t_pane_tree t) (new_term_view (ge_tab e) (ge_shell e) w (t_id t) empty_id))
            (\<lambda>v. Returned (upd_win (push_view (ge_stack e) (g_store g) (Terminal_Gui v)) g))
      | Note \<Rightarrow>
          Returned (case t_note_state t of
              None \<Rightarrow> g
            | Some s \<Rightarrow>
                if nt_document_id s = '''' then g
                else upd_win (push_view (ge_stack e) (g_store g) (Note_Gui (restored_note e w t s g))) g))"

fun restore_tabs :: "gui_env \<Rightarrow> window_id \<Rightarrow> tab list \<Rightarrow> 's gui \<Rightarrow> 's gui outcome" where
  "restore_tabs e w [] g = Returned g"
| "restore_tabs e w (t # ts) g = then_do (restore_tab e w t g) (restore_tabs e w ts)"

definition shown_window :: "workspace \<Rightarrow> window" where
  "shown_window ws =
     (case ws_focus_window_id ws of
        Some i \<Rightarrow> (case find (\<lambda>x. w_id x = i) (ws_windows ws) of Some x \<Rightarrow> x | None \<Rightarrow> hd (ws_windows ws))
      | None \<Rightarrow> hd (ws_windows ws))"

text \<open>
  The tab to show is looked for among the saved tabs by position, and the pane to focus goes to the
  terminal tab whose position among the terminal tabs is that of the shown tab.
\<close>

definition restored_focus :: "window \<Rightarrow> nat \<Rightarrow> nat" where
  "restored_focus x n =
     (case w_focus_tab_id x of
        None \<Rightarrow> 0
      | Some f \<Rightarrow>
          let i = length (takeWhile (\<lambda>t. t_id t \<noteq> f) (w_tabs x))
          in if i < length (w_tabs x) \<and> i < n then i else 0)"

definition activate_restored :: "gui_env \<Rightarrow> window \<Rightarrow> 's gui \<Rightarrow> 's gui" where
  "activate_restored e x g =
     (let w = g_win g;
          w = (if mw_tabs w = [] then w
               else let i = restored_focus x (length (mw_tabs w))
                    in stack_show (g_store g) (fst (mw_tabs w ! i)) (w\<lparr>mw_active := int i\<rparr>));
          w = (if 0 \<le> mw_active w \<and> mw_active w < int (length (mw_term_tabs w))
               then (case w_focus_pane_id x of
                       Some f \<Rightarrow> upd_tab (mw_term_tabs w ! nat (mw_active w))
                         (\<lambda>t. case t of Terminal_Gui v \<Rightarrow> Terminal_Gui (activate_pane f v) | Note_Gui v \<Rightarrow> Note_Gui v) w
                     | None \<Rightarrow> w)
               else w)
      in g\<lparr>g_win := update_tab_bar (g_store g) w\<rparr>)"

definition restore_workspace :: "gui_env \<Rightarrow> 's gui \<Rightarrow> 's gui outcome" where
  "restore_workspace e g =
     (case ws_current (g_core g) of
        None \<Rightarrow> Returned g
      | Some ws \<Rightarrow>
          if \<not> persist_open_windows (g_store g)
          then Returned (upd_win (\<lambda>w. w\<lparr>mw_window := empty_id\<rparr>)
                 (g\<lparr>g_core := (g_core g)\<lparr>ws_current := Some (ws\<lparr>ws_windows := [], ws_focus_window_id := None\<rparr>)\<rparr>\<rparr>))
          else if ws_windows ws = [] then Returned g
          else
            let x = shown_window ws;
                g = upd_win (\<lambda>w. w\<lparr>mw_window := w_id x\<rparr>) (g\<lparr>g_session := (g_session g)\<lparr>current_window := w_id x\<rparr>\<rparr>)
            in if w_tabs x = [] then Returned g
               else then_do (restore_tabs e (w_id x) (w_tabs x) g) (\<lambda>g. Returned (activate_restored e x g)))"

text \<open>
  The constructor: what was saved, or a terminal when nothing was; only then the handler of the visible
  page is connected and the labels are refreshed.
\<close>

definition open_window :: "gui_env \<Rightarrow> fresh \<Rightarrow> 's gui \<Rightarrow> 's gui outcome" where
  "open_window e fr g =
     then_do (restore_workspace e (g\<lparr>g_win := new_main_window\<rparr>))
       (\<lambda>g. then_do (if mw_tabs (g_win g) = [] then window_new_terminal e fr g else Returned g)
         (\<lambda>g. Returned (upd_win (\<lambda>w. update_tab_bar (g_store g) (w\<lparr>mw_connected := True\<rparr>)) g)))"

end
