(* ===== verification/Core_Outline.thy ===== *)
theory Core_Outline
  imports Core_Lookup
begin

text \<open>
  Which windows the engine has and which tabs are in them, in order, and what its operations do to
  that: most leave it alone, adding a tab appends it and removing one takes it out.
\<close>

definition window_outline :: "window \<Rightarrow> window_id \<times> tab_id list" where
  "window_outline w = (w_id w, map t_id (w_tabs w))"

definition core_outline :: "core \<Rightarrow> (window_id \<times> tab_id list) list" where
  "core_outline c = (case ws_current c of None \<Rightarrow> [] | Some ws \<Rightarrow> map window_outline (ws_windows ws))"

text \<open>The tabs of the first window with an id.\<close>

definition core_tabs :: "window_id \<Rightarrow> core \<Rightarrow> tab_id list option" where
  "core_tabs i c = map_of (core_outline c) i"

lemma core_outline_remove_window:
  "ws_current c \<noteq> None \<Longrightarrow> core_tabs j (snd (remove_window i c)) = (if j = i then None else core_tabs j c)"
proof -
  have *: "map_of (map window_outline (filter (\<lambda>w. w_id w \<noteq> i) ws)) j =
      (if j = i then None else map_of (map window_outline ws) j)" for ws
    by (induction ws) (auto simp: window_outline_def [abs_def])
  show "ws_current c \<noteq> None \<Longrightarrow> ?thesis"
    by (auto simp: core_tabs_def core_outline_def remove_window_def Let_def emit_def mark_dirty_def * map_of_eq_None_iff window_outline_def split: option.split)
qed

lemma core_outline_emit [simp]: "core_outline (emit ty ws w t p c) = core_outline c"
  by (simp add: core_outline_def emit_def)

lemma core_outline_dirty [simp]: "core_outline (mark_dirty c) = core_outline c"
  by (simp add: core_outline_def mark_dirty_def Let_def emit_def split: option.splits)

lemma core_outline_set [simp]: "core_outline (c\<lparr>ws_current := Some ws\<rparr>) = map window_outline (ws_windows ws)"
  by (simp add: core_outline_def)

lemma core_outline_at: "ws_current c = Some ws \<Longrightarrow> core_outline c = map window_outline (ws_windows ws)"
  by (simp add: core_outline_def)

lemma window_outline_fields [simp]: "window_outline (w\<lparr>w_focus_pane_id := x\<rparr>) = window_outline w"
  "window_outline (w\<lparr>w_focus_tab_id := y\<rparr>) = window_outline w"
  by (simp_all add: window_outline_def)

lemma visit_keeps_outline:
  assumes "visit_windows f ws = Some (r, ws')" "\<And>w r w'. f w = Some (r, w') \<Longrightarrow> window_outline w' = window_outline w"
  shows "map window_outline ws' = map window_outline ws"
  using visit_windows_SomeD [OF assms(1)] assms(2) by fastforce

lemma visit_tab_outline:
  assumes "visit_tab i body w = Some (r, w')"
    "\<And>t r t' g. body w t = (r, t', g) \<Longrightarrow> t_id t = i \<Longrightarrow> t_id t' = i \<and> (\<forall>v. window_outline (g v) = window_outline v)"
  shows "window_outline w' = window_outline w"
proof -
  obtain pre t t' g post where v: "w_tabs w = pre @ t # post" "t_id t = i" "body w t = (r, t', g)"
    "w' = g (w\<lparr>w_tabs := pre @ t' # post\<rparr>)"
    using visit_tab_SomeD [OF assms(1)] by blast
  from assms(2) [OF v(3,2)] v show ?thesis by (simp add: window_outline_def)
qed

lemma visit_tab_keeps_outline:
  assumes "visit_windows (visit_tab i body) ws = Some (r, ws')"
    "\<And>w t r t' g. body w t = (r, t', g) \<Longrightarrow> t_id t = i \<Longrightarrow> t_id t' = i \<and> (\<forall>v. window_outline (g v) = window_outline v)"
  shows "map window_outline ws' = map window_outline ws"
  by (rule visit_keeps_outline [OF assms(1)], erule visit_tab_outline) (rule assms(2))

lemma split_pane_outline:
  assumes "split_pane fresh tab k r c = Inr (i, c')"
  shows "core_outline c' = core_outline c"
proof -
  obtain ws x wins where ws: "ws_current c = Some ws"
    and v: "visit_windows (visit_tab tab (\<lambda>w t. (w_id w, t\<lparr>t_pane_tree := split_tree k r \<lparr>p_id = fresh, p_state = empty_pane_state\<rparr>
      (w_focus_pane_id w) (t_pane_tree t)\<rparr>, \<lambda>w. w\<lparr>w_focus_pane_id := Some fresh\<rparr>))) (ws_windows ws) = Some (x, wins)"
    and c': "c' = emit PaneSplit (ws_id ws) (Some x) (Some tab) (Some fresh) (mark_dirty (c\<lparr>ws_current := Some (ws\<lparr>ws_windows := wins\<rparr>)\<rparr>))"
    using assms by (auto simp: split_pane_def split: option.splits prod.splits)
  have "map window_outline wins = map window_outline (ws_windows ws)"
    by (rule visit_tab_keeps_outline [OF v]) auto
  then show ?thesis by (simp add: c' core_outline_at [OF ws])
qed

lemma remove_pane_outline: "core_outline (snd (remove_pane tab pane c)) = core_outline c"
proof -
  let ?b = "\<lambda>w t. let (removed, tree) = remove_pane_from_tree (t_pane_tree t) pane
     in if \<not> removed then (None, t, id)
        else (Some (w_id w), t\<lparr>t_pane_tree := tree\<rparr>,
              \<lambda>w. if w_focus_pane_id w = Some pane then w\<lparr>w_focus_pane_id := None\<rparr> else w)"
  have "map window_outline wins = map window_outline wss"
    if "visit_windows (visit_tab tab ?b) wss = Some (x, wins)" for wss x wins
    by (rule visit_tab_keeps_outline [OF that]) (auto split: prod.splits if_splits)
  then show ?thesis
    by (auto simp: remove_pane_def core_outline_at split: option.splits)
qed

lemma focus_pane_outline: "core_outline (snd (focus_pane tab pane c)) = core_outline c"
proof -
  let ?f = "\<lambda>w. if w_focus_tab_id w \<noteq> Some tab then None
     else if \<exists>t \<in> set (w_tabs w). t_id t = tab \<and> find_pane (t_pane_tree t) pane \<noteq> None
     then Some ((), w\<lparr>w_focus_pane_id := Some pane\<rparr>) else None"
  have "map window_outline wins = map window_outline wss" if "visit_windows ?f wss = Some (x, wins)" for wss x wins
    by (rule visit_keeps_outline [OF that]) (auto split: if_splits)
  then show ?thesis by (auto simp: focus_pane_def core_outline_at split: option.splits)
qed

lemma on_pane_state_outline:
  assumes "ws_current c = Some ws"
  shows "core_outline (snd (on_pane_state tab pane body quiet ws c)) = core_outline c"
proof -
  let ?b = "\<lambda>(w :: window) t. case find_pane (t_pane_tree t) pane of
               None \<Rightarrow> ((False, False), t, id)
             | Some p \<Rightarrow>
                 (case body (p_state p) of
                    None \<Rightarrow> ((quiet, False), t, id)
                  | Some (r, st) \<Rightarrow>
                      ((r, True), t\<lparr>t_pane_tree := upd_pane_state pane (\<lambda>_. st) (t_pane_tree t)\<rparr>, id))"
  have "map window_outline wins = map window_outline wss"
    if "visit_windows (visit_tab tab ?b) wss = Some (x, wins)" for wss x wins
    by (rule visit_tab_keeps_outline [OF that]) (auto split: option.splits prod.splits)
  then show ?thesis by (auto simp: on_pane_state_def core_outline_at assms split: option.splits)
qed

lemma apply_runtime_outline: "core_outline (apply_runtime_state tab pane snap c) = core_outline c"
  by (auto simp: apply_runtime_state_def on_pane_state_outline split: option.splits)

lemma add_command_outline: "core_outline (snd (add_command_to_pane tab pane r c)) = core_outline c"
  by (auto simp: add_command_to_pane_def on_pane_state_outline split: option.splits)

lemma set_tab_note_state_outline: "core_outline (snd (set_tab_note_state i tab state c)) = core_outline c"
proof -
  let ?f = "\<lambda>w. if w_id w \<noteq> i then None
     else visit_tab tab (\<lambda>w t. if t_kind t \<noteq> Note then (False, t, id)
                               else (True, t\<lparr>t_note_state := Some state\<rparr>, id)) w"
  have "map window_outline wins = map window_outline wss" if v: "visit_windows ?f wss = Some (x, wins)" for wss x wins
  proof (rule visit_keeps_outline [OF v])
    fix w r w' assume "?f w = Some (r, w')"
    then have "visit_tab tab (\<lambda>w t. if t_kind t \<noteq> Note then (False, t, id)
        else (True, t\<lparr>t_note_state := Some state\<rparr>, id)) w = Some (r, w')" by (simp split: if_splits)
    then show "window_outline w' = window_outline w" by (rule visit_tab_outline) (auto split: if_splits)
  qed
  then show ?thesis
    by (auto simp: set_tab_note_state_def core_outline_at split: option.splits bool.splits)
qed

lemma rename_workspace_outline: "core_outline (snd (rename_workspace i name c)) = core_outline c"
  by (auto simp: rename_workspace_def core_outline_at split: option.splits)

text \<open>The two operations that change it.\<close>

lemma map_of_visit_window:
  assumes "visit_windows (visit_window i (\<lambda>w. ((), h w))) ws = Some (r, ws')"
    "\<And>w. w_id (h w) = w_id w" "\<And>w. map t_id (w_tabs (h w)) = g (map t_id (w_tabs w))"
  shows "map_of (map window_outline ws') i = map_option g (map_of (map window_outline ws) i)"
proof -
  obtain pre w w' post where v: "ws = pre @ w # post" "visit_window i (\<lambda>w. ((), h w)) w = Some (r, w')"
    "ws' = pre @ w' # post" "\<forall>u \<in> set pre. visit_window i (\<lambda>w. ((), h w)) u = None"
    using visit_windows_SomeD [OF assms(1)] by blast
  have w: "w_id w = i" "w' = h w" using v(2) by (auto simp: visit_window_def split: if_splits)
  have "map_of (map window_outline pre) i = None"
    using v(4) by (induction pre) (auto simp: visit_window_def window_outline_def)
  then show ?thesis
    using assms(2,3) w by (simp add: v(1,3) map_add_def window_outline_def)
qed

lemma insert_tab_outline:
  assumes "insert_tab i t c = Inr (j, c')"
  shows "j = t_id t \<and> core_tabs i c' = map_option (\<lambda>ts. ts @ [t_id t]) (core_tabs i c)"
proof -
  obtain ws x wins where ws: "ws_current c = Some ws"
    and v: "visit_windows (visit_window i (\<lambda>w. ((), push_tab t w))) (ws_windows ws) = Some (x, wins)"
    and r: "j = t_id t" "c' = emit TabAdded (ws_id ws) (Some i) (Some (t_id t)) None
        (mark_dirty (c\<lparr>ws_current := Some (ws\<lparr>ws_windows := wins\<rparr>)\<rparr>))"
    using assms by (auto simp: insert_tab_def split: option.splits)
  have "map_of (map window_outline wins) i = map_option (\<lambda>ts. ts @ [t_id t]) (map_of (map window_outline (ws_windows ws)) i)"
    by (rule map_of_visit_window [OF v]) (simp_all add: push_tab_def)
  then show ?thesis using r by (simp add: core_tabs_def core_outline_at [OF ws])
qed

lemma remove_tab_outline:
  "core_tabs i (snd (remove_tab i tab c)) = map_option (filter (\<lambda>t. t \<noteq> tab)) (core_tabs i c)"
proof (cases "ws_current c")
  case None
  then show ?thesis by (simp add: remove_tab_def core_tabs_def core_outline_def)
next
  case (Some ws)
  define h :: "window \<Rightarrow> window" where "h = (\<lambda>w. let w = w\<lparr>w_tabs := filter (\<lambda>t. t_id t \<noteq> tab) (w_tabs w)\<rparr>
     in if w_focus_tab_id w = Some tab then w\<lparr>w_focus_tab_id := None\<rparr> else w)"
  have r: "remove_tab i tab c =
      (case visit_windows (visit_window i (\<lambda>w. ((), h w))) (ws_windows ws) of
         None \<Rightarrow> (False, c)
       | Some (_, wins) \<Rightarrow> (True, emit TabRemoved (ws_id ws) (Some i) (Some tab) None
                       (mark_dirty (c\<lparr>ws_current := Some (ws\<lparr>ws_windows := wins\<rparr>)\<rparr>))))"
    by (simp add: remove_tab_def Some h_def Let_def)
  have h: "w_id (h w) = w_id w" "map t_id (w_tabs (h w)) = filter (\<lambda>t. t \<noteq> tab) (map t_id (w_tabs w))" for w
    by (simp_all add: h_def Let_def filter_map comp_def)
  show ?thesis
  proof (cases "visit_windows (visit_window i (\<lambda>w. ((), h w))) (ws_windows ws)")
    case None
    then have "\<forall>w \<in> set (ws_windows ws). w_id w \<noteq> i"
      by (simp add: visit_windows_None_iff visit_window_def split: if_splits)
    then have "map_of (map window_outline (ws_windows ws)) i = None"
      by (auto simp: map_of_eq_None_iff window_outline_def)
    with None show ?thesis by (simp add: r core_tabs_def core_outline_at [OF Some])
  next
    case (Some x)
    obtain u wins where x: "x = (u, wins)" by (cases x)
    with Some have "visit_windows (visit_window i (\<lambda>w. ((), h w))) (ws_windows ws) = Some (u, wins)" by simp
    from map_of_visit_window [OF this h] Some x core_outline_at [OF \<open>ws_current c = Some ws\<close>] show ?thesis
      by (simp add: r core_tabs_def)
  qed
qed

lemma core_tabs_window:
  assumes "core_tabs i c = Some ts"
  shows "\<exists>ws w. ws_current c = Some ws \<and> w \<in> set (ws_windows ws) \<and> w_id w = i \<and> ts = map t_id (w_tabs w)"
  using assms by (auto simp: core_tabs_def core_outline_def window_outline_def dest!: map_of_SomeD split: option.splits)

end
