(* ===== verification/History_Panel.thy ===== *)
theory History_Panel
  imports Commands_Page Workspace_Core Sqlite_Storage Identifiers
begin

text \<open>
  The history panel of the sidebar in \<^verbatim>\<open>gui/window/main_window.cpp\<close>: whose commands the Commands page shows, what a
  pin leaves in the store, and the Windows list.  The theorems compose the page, the engine's histories,
  the store and the tracker of the next start.  The clock, the digest and \<^verbatim>\<open>strftime\<close> are parameters.
\<close>

section \<open>Pins\<close>

definition terminal_panes :: "workspace \<Rightarrow> pane list" where
  "terminal_panes ws =
     concat (map (\<lambda>w. concat (map (\<lambda>t. if t_kind t = Terminal then tab_panes t else []) (w_tabs w))) (ws_windows ws))"

text \<open>The time of the first record of the command in the engine's history of the pane, or 0.\<close>

definition first_timestamp :: "workspace \<Rightarrow> pane_id \<Rightarrow> string \<Rightarrow> i64" where
  "first_timestamp ws pane command =
     foldl (\<lambda>ts p.
         if p_id p = pane
         then (case find (\<lambda>r. cr_command r = command) (ps_command_history (p_state p)) of
                 Some r \<Rightarrow> cr_timestamp_us r | None \<Rightarrow> ts)
         else ts) 0 (terminal_panes ws)"

definition fingerprint :: "(string \<Rightarrow> bytes) \<Rightarrow> string \<Rightarrow> i64 \<Rightarrow> pane_id \<Rightarrow> string" where
  "fingerprint sha256 command ts pane = sha256_hex sha256 (command @ dec_of_int (sint ts) @ id_str pane)"

definition pin_annotation :: "(string \<Rightarrow> bytes) \<Rightarrow> i64 \<Rightarrow> workspace \<Rightarrow> pane_id \<Rightarrow> window_id \<Rightarrow> string \<Rightarrow> bool \<Rightarrow>
    history_annotation option \<Rightarrow> history_annotation" where
  "pin_annotation sha256 now ws pane window command pinned existing =
     (let ts = first_timestamp ws pane command
      in case existing of
           Some a \<Rightarrow> a\<lparr>ha_pinned := pinned, ha_updated_at := now\<rparr>
         | None \<Rightarrow> \<lparr>ha_fingerprint = fingerprint sha256 command ts pane, ha_command = command, ha_timestamp_us = Some ts,
             ha_pane_id = id_str pane, ha_window_id = id_str window, ha_pinned = pinned, ha_comment = '''',
             ha_created_at = now, ha_updated_at = now\<rparr>)"

text \<open>The callback the window gives the page, for the pane that had the focus then.\<close>

definition pin_callback :: "'s storage \<Rightarrow> (string \<Rightarrow> bytes) \<Rightarrow> i64 \<Rightarrow> pane_id \<Rightarrow> window_id \<Rightarrow> string \<Rightarrow> bool \<Rightarrow> core \<Rightarrow> 's \<Rightarrow> 's" where
  "pin_callback S sha256 now pane window command pinned c s =
     (case ws_current c of
        None \<Rightarrow> s
      | Some ws \<Rightarrow>
          let fp = fingerprint sha256 command (first_timestamp ws pane command) pane
          in store_history_annotation S (ws_id ws)
               (pin_annotation sha256 now ws pane window command pinned (load_history_annotation S s (ws_id ws) fp)) s)"

section \<open>Whose commands are shown\<close>

record history_target =
  ht_tracker :: "pane_id option"
  ht_pane :: "pane_id option"
  ht_context :: "string \<times> string"

text \<open>
  The terminal tab in front, if any: its focused pane, whether a tracker and a widget of that pane
  exist.  A pane without a widget leaves the one of before as the target of insertions.
\<close>

definition update_history_sidebar :: "window_id \<Rightarrow> (pane_id \<times> bool \<times> bool) option \<Rightarrow> history_target \<Rightarrow> history_target" where
  "update_history_sidebar window front ht =
     (case front of
        None \<Rightarrow> ht\<lparr>ht_tracker := None, ht_pane := None\<rparr>
      | Some (pane, tracked, present) \<Rightarrow>
          ht\<lparr>ht_tracker := (if tracked then Some pane else None),
             ht_pane := (if present then Some pane else ht_pane ht),
             ht_context := (id_str pane, id_str window)\<rparr>)"

section \<open>The windows list\<close>

datatype list_item = Search_Box | Window_Row window_id string string | Closed_Header | Closed_Row snapshot_id string string

definition shown_time :: "(time_point \<Rightarrow> string) \<Rightarrow> time_point \<Rightarrow> string" where
  "shown_time fmt t = (if t = 0 then ''N/A'' else fmt t)"

definition label_matches :: "string \<Rightarrow> string \<Rightarrow> bool" where
  "label_matches search label \<longleftrightarrow> search = '''' \<or> contains (map to_lower search) (map to_lower label)"

definition pane_count :: "window \<Rightarrow> nat" where
  "pane_count w = sum_list (map (\<lambda>t. if t_kind t = Terminal then length (tab_panes t) else 0) (w_tabs w))"

text \<open>A row is told by its label and its tooltip.\<close>

definition newline_char :: char where
  "newline_char = CHR 0x0A"

definition window_row :: "(time_point \<Rightarrow> string) \<Rightarrow> window \<Rightarrow> list_item" where
  "window_row fmt w = Window_Row (w_id w) (w_label w)
     (''Window: '' @ w_label w @ [newline_char] @
      ''Created: '' @ shown_time fmt (w_created_at w) @ [newline_char] @
      ''Last active: '' @ shown_time fmt (w_last_active w) @ [newline_char] @
      ''Tabs: '' @ dec_of_nat (length (w_tabs w)) @ [newline_char] @ ''Panes: '' @ dec_of_nat (pane_count w))"

definition closed_row :: "(time_point \<Rightarrow> string) \<Rightarrow> closed_window_snapshot \<Rightarrow> list_item" where
  "closed_row fmt s = Closed_Row (cw_id s) (cw_label s)
     (''Closed Window: '' @ cw_label s @ [newline_char] @ ''Closed: '' @ fmt (cw_closed_at s) @ [newline_char] @
      ''Generation: '' @ dec_of_nat (unat (cw_generation s)))"

definition list_rows :: "(time_point \<Rightarrow> string) \<Rightarrow> string \<Rightarrow> window list \<Rightarrow> closed_window_snapshot list \<Rightarrow> list_item list" where
  "list_rows fmt search ws gone =
     map (window_row fmt) (filter (\<lambda>w. label_matches search (w_label w)) ws) @
     (if gone = [] then [] else Closed_Header # map (closed_row fmt) (filter (\<lambda>s. label_matches search (cw_label s)) gone))"

text \<open>The loop that removes the rows takes the first item until that is the search box.\<close>

definition clear_rows :: "list_item list \<Rightarrow> list_item list" where
  "clear_rows items = dropWhile (\<lambda>x. x \<noteq> Search_Box) items"

definition do_update_windows_list :: "'s storage \<Rightarrow> (time_point \<Rightarrow> string) \<Rightarrow> string \<Rightarrow> core \<Rightarrow> 's \<Rightarrow> list_item list \<Rightarrow> list_item list" where
  "do_update_windows_list S fmt search c s items =
     (case ws_current c of
        None \<Rightarrow> items
      | Some ws \<Rightarrow> clear_rows items @ list_rows fmt search (ws_windows ws) (list_closed_windows S s (ws_id ws)))"

text \<open>The answer to the question the item Delete of a row asks; the workspace is the one of the question.\<close>

definition delete_answer :: "'s storage \<Rightarrow> bool \<Rightarrow> workspace_id \<Rightarrow> window_id + snapshot_id \<Rightarrow> core \<times> 's \<Rightarrow> core \<times> 's" where
  "delete_answer S ok ws row = (\<lambda>(c, s).
     if \<not> ok then (c, s)
     else case row of
            Inl window \<Rightarrow> (snd (remove_window window c), s)
          | Inr snap \<Rightarrow> (c, delete_closed_window S ws snap s))"

section \<open>Annotations and pins\<close>

lemma find_set_newest_other:
  assumes "command \<noteq> other"
  shows "find (\<lambda>e. cr_command (ce_record e) = command) (rev (set_newest other b c)) = find (\<lambda>e. cr_command (ce_record e) = command) (rev c)"
proof -
  have "find (\<lambda>e. cr_command (ce_record e) = command) (upd_first (\<lambda>e. cr_command (ce_record e) = other) (\<lambda>e. e\<lparr>ce_pinned := b\<rparr>) xs)
    = find (\<lambda>e. cr_command (ce_record e) = command) xs" for xs
    using assms by (induction xs) auto
  then show ?thesis by (simp add: set_newest_def)
qed

definition newest :: "string \<Rightarrow> cached_entry list \<Rightarrow> cached_entry option" where
  "newest command c = find (\<lambda>e. cr_command (ce_record e) = command) (rev c)"

lemma newest_annotated:
  assumes "command \<noteq> ''''"
  shows "newest command (foldl (\<lambda>c a. if ha_pinned a then set_newest (ha_command a) True c else c) c anns) =
    map_option (\<lambda>e. if \<exists>a \<in> set anns. ha_pinned a \<and> ha_command a = command then e\<lparr>ce_pinned := True\<rparr> else e) (newest command c)"
proof (induction anns arbitrary: c)
  case Nil
  then show ?case by (cases "newest command c") simp_all
next
  case (Cons a anns)
  have "newest command (set_newest command True c) = map_option (\<lambda>e. e\<lparr>ce_pinned := True\<rparr>) (newest command c)"
    unfolding newest_def using find_set_newest [OF assms] .
  moreover have "ha_command a \<noteq> command \<Longrightarrow> newest command (set_newest (ha_command a) True c) = newest command c"
    unfolding newest_def by (rule find_set_newest_other) simp
  ultimately show ?case
    by (cases "newest command c"; cases "ha_command a = command") (auto simp: Cons.IH)
qed

lemma pinned_after:
  assumes "command \<noteq> ''''" "newest command (cache tr) = Some e"
  shows "is_pinned command (apply_annotations anns tr) \<longleftrightarrow> ce_pinned e \<or> (\<exists>a \<in> set anns. ha_pinned a \<and> ha_command a = command)"
  using newest_annotated [OF assms(1), of "cache tr" anns] assms
  by (auto simp: is_pinned_def apply_annotations_def newest_def)

section \<open>What a pin leaves in the store\<close>

abbreviation annotations :: "sqlite \<Rightarrow> history_annotation list" where
  "annotations d \<equiv> tb_history_annotations (db_tables d)"

definition keyed :: "sqlite \<Rightarrow> bool" where
  "keyed d \<longleftrightarrow> idle d \<and> distinct (map ha_fingerprint (annotations d))"

definition row_at :: "string \<Rightarrow> sqlite \<Rightarrow> history_annotation option" where
  "row_at fp d = find (\<lambda>a. ha_fingerprint a = fp) (annotations d)"

lemma keyed_row: "keyed d \<Longrightarrow> a \<in> set (annotations d) \<longleftrightarrow> row_at (ha_fingerprint a) d = Some a"
  using find_Some_set [of "\<lambda>x. ha_fingerprint x = ha_fingerprint a" "annotations d" a]
  by (auto simp: keyed_def row_at_def distinct_map_find)

lemma upserted:
  assumes "\<And>old. key (merge old row) = key row" "distinct (map key t)"
  shows "distinct (map key (sql_upsert key merge row t))"
    "find (\<lambda>r. key r = k) (sql_upsert key merge row t) =
      (if k = key row then Some (case find (\<lambda>r. key r = k) t of None \<Rightarrow> row | Some old \<Rightarrow> merge old row)
       else find (\<lambda>r. key r = k) t)"
proof -
  let ?u = "upd_first (\<lambda>r. key r = key row) (\<lambda>r. merge r row)"
  have "map key (?u xs) = map key xs" for xs by (induction xs) (auto simp: assms(1))
  then show "distinct (map key (sql_upsert key merge row t))"
    using assms(2) by (auto simp: sql_upsert_def)
  have u: "find (\<lambda>r. key r = k) (?u xs) =
    (if k = key row then map_option (\<lambda>old. merge old row) (find (\<lambda>r. key r = k) xs) else find (\<lambda>r. key r = k) xs)" for xs
    by (induction xs) (auto simp: assms(1))
  show "find (\<lambda>r. key r = k) (sql_upsert key merge row t) =
      (if k = key row then Some (case find (\<lambda>r. key r = k) t of None \<Rightarrow> row | Some old \<Rightarrow> merge old row)
       else find (\<lambda>r. key r = k) t)"
  proof (cases "\<exists>r \<in> set t. key r = key row")
    case True
    then obtain old where "find (\<lambda>r. key r = key row) t = Some old"
      by (cases "find (\<lambda>r. key r = key row) t") (auto simp: find_None_iff)
    with True u show ?thesis by (auto simp: sql_upsert_def)
  next
    case False
    then have "find (\<lambda>r. key r = key row) t = None" by (auto simp: find_None_iff)
    with False show ?thesis by (auto simp: sql_upsert_def find_append split: option.splits)
  qed
qed

lemma stored_annotation:
  assumes "keyed d"
  shows "keyed (sqlite_store_history_annotation i a d)"
    "row_at fp (sqlite_store_history_annotation i a d) =
      (if fp = cstr (ha_fingerprint a)
       then Some (case row_at fp d of None \<Rightarrow> annotation_row a | Some old \<Rightarrow> (annotation_row a)\<lparr>ha_created_at := ha_created_at old\<rparr>)
       else row_at fp d)"
proof -
  let ?m = "\<lambda>old new. new\<lparr>ha_created_at := ha_created_at old\<rparr>"
  have d: "annotations (sqlite_store_history_annotation i a d) = sql_upsert ha_fingerprint ?m (annotation_row a) (annotations d)"
    "idle (sqlite_store_history_annotation i a d)" "distinct (map ha_fingerprint (annotations d))"
    using assms by (simp_all add: keyed_def idle_def sqlite_store_history_annotation_def run_stmt_idle)
  have k: "ha_fingerprint (annotation_row a) = cstr (ha_fingerprint a)" "ha_fingerprint (?m old (annotation_row a)) = cstr (ha_fingerprint a)" for old
    by (simp_all add: annotation_row_def)
  show "row_at fp (sqlite_store_history_annotation i a d) =
      (if fp = cstr (ha_fingerprint a)
       then Some (case row_at fp d of None \<Rightarrow> annotation_row a | Some old \<Rightarrow> (annotation_row a)\<lparr>ha_created_at := ha_created_at old\<rparr>)
       else row_at fp d)"
    unfolding row_at_def d(1) using upserted(2) [of ha_fingerprint ?m "annotation_row a" "annotations d" fp] d(3) k by simp
  show "keyed (sqlite_store_history_annotation i a d)"
    using upserted(1) [of ha_fingerprint ?m "annotation_row a" "annotations d"] d k by (simp add: keyed_def)
qed

lemma fingerprint_plain: "CHR 0x00 \<notin> set (fingerprint sha256 command ts pane)"
proof -
  have "CHR 0x00 \<notin> set (hex_byte b)" for b
    using hex_of_nat_set [of "unat b"] by (auto simp: hex_byte_def Let_def)
  then show ?thesis by (simp add: fingerprint_def sha256_hex_def)
qed

definition plain_string :: "string \<Rightarrow> bool" where
  "plain_string s \<longleftrightarrow> CHR 0x00 \<notin> set s"

lemma cstr_plain_string: "plain_string v \<Longrightarrow> cstr v = v"
  by (auto simp: plain_string_def cstr_def takeWhile_eq_all_conv)

text \<open>The store after the callback, for a command and a pane whose texts the store keeps.\<close>

lemma pin_callback_row:
  fixes dump :: "json \<Rightarrow> string option" and parse :: "string \<Rightarrow> json option"
  defines "S \<equiv> sqlite_storage dump parse"
  assumes "keyed d" "ws_current c = Some ws" "plain_string command" "plain_string (id_str pane)"
    and fp: "fp = fingerprint sha256 command (first_timestamp ws pane command) pane"
    and mine: "\<And>a. row_at fp d = Some a \<Longrightarrow> ha_command a = command \<and> ha_pane_id a = id_str pane"
  shows "keyed (pin_callback S sha256 now pane window command pinned c d)"
    "\<exists>a. row_at fp (pin_callback S sha256 now pane window command pinned c d) = Some a \<and> ha_command a = command \<and>
       ha_pane_id a = id_str pane \<and> ha_pinned a = pinned"
    "k \<noteq> fp \<Longrightarrow> row_at k (pin_callback S sha256 now pane window command pinned c d) = row_at k d"
proof -
  have f: "cstr fp = fp" using cstr_plain_string fingerprint_plain by (simp add: fp plain_string_def)
  let ?a = "pin_annotation sha256 now ws pane window command pinned (row_at fp d)"
  have d': "pin_callback S sha256 now pane window command pinned c d = sqlite_store_history_annotation (ws_id ws) ?a d"
    using assms(3) f by (simp add: S_def pin_callback_def Let_def fp [symmetric] sqlite_storage_def sqlite_load_history_annotation_def row_at_def)
  have fa: "ha_fingerprint b = fp" if "row_at fp d = Some b" for b
    using that find_Some_set [of "\<lambda>x. ha_fingerprint x = fp" "annotations d" b] by (simp add: row_at_def)
  have a: "ha_fingerprint ?a = fp" "ha_command ?a = command" "ha_pane_id ?a = id_str pane" "ha_pinned ?a = pinned"
    using mine fa by (cases "row_at fp d"; simp add: pin_annotation_def Let_def fp)+
  note s = stored_annotation [OF assms(2), where i = "ws_id ws" and a = ?a]
  show "keyed (pin_callback S sha256 now pane window command pinned c d)" unfolding d' by (rule s(1))
  show "\<exists>a. row_at fp (pin_callback S sha256 now pane window command pinned c d) = Some a \<and> ha_command a = command \<and>
       ha_pane_id a = id_str pane \<and> ha_pinned a = pinned"
    unfolding d' s(2) using a f assms(4,5) by (cases "row_at fp d") (simp_all add: annotation_row_def cstr_plain_string)
  show "k \<noteq> fp \<Longrightarrow> row_at k (pin_callback S sha256 now pane window command pinned c d) = row_at k d"
    unfolding d' s(2) using a(1) f by simp
qed

section \<open>Properties\<close>

text \<open>The tracker of the next start, with the annotations of its pane applied.\<close>

definition restarted :: "'s storage \<Rightarrow> 's \<Rightarrow> workspace_id \<Rightarrow> pane_id \<Rightarrow> tracker \<Rightarrow> tracker" where
  "restarted S s ws pane tr = apply_annotations (list_history_annotations S s ws (id_str pane)) tr"

lemma restarted_pins:
  assumes "keyed d" "command \<noteq> ''''" "newest command (cache tr) = Some e" "\<not> ce_pinned e" "plain_string (id_str pane)" "id_str pane \<noteq> ''''"
  shows "is_pinned command (restarted (sqlite_storage dump parse) d i pane tr) \<longleftrightarrow>
    (\<exists>fp a. row_at fp d = Some a \<and> ha_pinned a \<and> ha_command a = command \<and> ha_pane_id a = id_str pane)"
proof -
  have "set (list_history_annotations (sqlite_storage dump parse) d i (id_str pane)) =
      {a \<in> set (annotations d). ha_pane_id a = id_str pane}"
    using assms(5,6) by (auto simp: sqlite_storage_def sqlite_list_history_annotations_def cstr_plain_string)
  moreover have "a \<in> set (annotations d) \<longleftrightarrow> (\<exists>fp. row_at fp d = Some a)" for a
    using keyed_row [OF assms(1), of a] find_Some_set [of _ "annotations d" a] by (auto simp: row_at_def)
  ultimately show ?thesis
    using pinned_after [OF assms(2,3)] assms(4) by (auto simp: restarted_def)
qed

text \<open>C28: A pin made on the Commands page survives a restart: the tracker that reads the pane's history file
  anew and gets the annotations of the store has the command pinned, at its newest run.  The command is still in that
  file, and no other annotation of the store has the digest of its key.\<close>

theorem pin_survives:
  assumes "keyed d" "ws_current c = Some ws" "command \<noteq> ''''" "plain_string command" "plain_string (id_str pane)" "id_str pane \<noteq> ''''"
    and "\<And>a. row_at (fingerprint sha256 command (first_timestamp ws pane command) pane) d = Some a \<Longrightarrow>
      ha_command a = command \<and> ha_pane_id a = id_str pane"
    and "newest command (cache tr) = Some e"
  shows "is_pinned command (restarted (sqlite_storage dump parse)
    (pin_callback (sqlite_storage dump parse) sha256 now pane window command True c d) i pane tr)"
proof (cases "ce_pinned e")
  case True
  then show ?thesis using pinned_after [OF assms(3,8)] by (simp add: restarted_def)
next
  case False
  note p = pin_callback_row [OF assms(1,2,4,5) refl assms(7), where pinned = True and now = now and window = window
      and dump = dump and parse = parse]
  show ?thesis using restarted_pins [OF p(1) assms(3,8) False assms(5,6)] p(2) by blast
qed

text \<open>Unpinning a command keeps it unpinned after a restart exactly when the first record of the command in
  the engine's history of the pane has the same time as when it was pinned.  The time is part of the key of
  the annotation: when the record was not yet there, or the history has dropped it since, a second
  annotation is made and the first one pins the command again.\<close>

theorem unpin_needs_same_time:
  assumes "keyed d" "ws_current c = Some ws" "ws_current c' = Some ws'" "command \<noteq> ''''" "plain_string command"
    and "plain_string (id_str pane)" "id_str pane \<noteq> ''''"
    and "\<And>fp a. row_at fp d = Some a \<Longrightarrow> ha_command a \<noteq> command"
    and "row_at (fingerprint sha256 command (first_timestamp ws pane command) pane) d = None"
      "row_at (fingerprint sha256 command (first_timestamp ws' pane command) pane) d = None"
    and "fingerprint sha256 command (first_timestamp ws pane command) pane =
        fingerprint sha256 command (first_timestamp ws' pane command) pane \<Longrightarrow>
      first_timestamp ws pane command = first_timestamp ws' pane command"
    and "newest command (cache tr) = Some e" "\<not> ce_pinned e"
  shows "is_pinned command (restarted (sqlite_storage dump parse)
      (pin_callback (sqlite_storage dump parse) sha256 later pane window' command False c'
        (pin_callback (sqlite_storage dump parse) sha256 now pane window command True c d)) i pane tr)
    \<longleftrightarrow> first_timestamp ws pane command \<noteq> first_timestamp ws' pane command"
proof -
  let ?S = "sqlite_storage dump parse"
  define f where "f = fingerprint sha256 command (first_timestamp ws pane command) pane"
  define f' where "f' = fingerprint sha256 command (first_timestamp ws' pane command) pane"
  define d1 where "d1 = pin_callback ?S sha256 now pane window command True c d"
  define d2 where "d2 = pin_callback ?S sha256 later pane window' command False c' d1"
  have none: "row_at f d = None" "row_at f' d = None" using assms(9,10) by (simp_all add: f_def f'_def)
  have p: "keyed d1" "\<exists>a. row_at f d1 = Some a \<and> ha_command a = command \<and> ha_pane_id a = id_str pane \<and> ha_pinned a"
    "k \<noteq> f \<Longrightarrow> row_at k d1 = row_at k d" for k
    unfolding d1_def using pin_callback_row [OF assms(1,2,5,6) f_def, where pinned = True] none by auto
  have mine: "ha_command a = command \<and> ha_pane_id a = id_str pane" if "row_at f' d1 = Some a" for a
    using that p none(2) by (cases "f' = f") auto
  have q: "keyed d2" "\<exists>a. row_at f' d2 = Some a \<and> ha_command a = command \<and> ha_pane_id a = id_str pane \<and> \<not> ha_pinned a"
    "k \<noteq> f' \<Longrightarrow> row_at k d2 = row_at k d1" for k
    unfolding d2_def using pin_callback_row [OF p(1) assms(3,5,6) f'_def mine, where pinned = False] by auto
  have "(\<exists>fp a. row_at fp d2 = Some a \<and> ha_pinned a \<and> ha_command a = command \<and> ha_pane_id a = id_str pane) \<longleftrightarrow> f \<noteq> f'"
  proof
    assume "\<exists>fp a. row_at fp d2 = Some a \<and> ha_pinned a \<and> ha_command a = command \<and> ha_pane_id a = id_str pane"
    then obtain fp a where a: "row_at fp d2 = Some a" "ha_pinned a" "ha_command a = command" by blast
    have "fp \<noteq> f'" using a q(2) by auto
    then have "row_at fp d1 = Some a" using a(1) q(3) [of fp] by simp
    have "fp = f"
    proof (rule ccontr)
      assume "fp \<noteq> f"
      then have "row_at fp d = Some a" using p(3) [of fp] \<open>row_at fp d1 = Some a\<close> by simp
      then show False using assms(8) a(3) by blast
    qed
    with \<open>fp \<noteq> f'\<close> show "f \<noteq> f'" by simp
  next
    assume "f \<noteq> f'"
    then show "\<exists>fp a. row_at fp d2 = Some a \<and> ha_pinned a \<and> ha_command a = command \<and> ha_pane_id a = id_str pane"
      using p(2) q(3) [of f] by metis
  qed
  moreover have "f = f' \<longleftrightarrow> first_timestamp ws pane command = first_timestamp ws' pane command"
    using assms(11) by (auto simp: f_def f'_def)
  ultimately show ?thesis
    using restarted_pins [OF q(1) assms(4,12,13,6,7), of dump parse i] by (simp add: d1_def d2_def)
qed

text \<open>The rows of the Windows list are never removed: the search box is the first item, where the loop that
  removes them stops.  Each rebuild appends all rows again.\<close>

theorem windows_list_grows:
  assumes "ws_current c = Some ws"
  shows "(do_update_windows_list S fmt search c s ^^ n) [Search_Box] =
    Search_Box # concat (replicate n (list_rows fmt search (ws_windows ws) (list_closed_windows S s (ws_id ws))))"
proof (induction n)
  case (Suc n)
  have "concat (replicate n xs) @ xs = concat (replicate (Suc n) xs)" for xs :: "list_item list" and n
    by (induction n) simp_all
  then show ?case using assms Suc by (simp add: do_update_windows_list_def clear_rows_def del: replicate.simps)
qed simp


definition pin_db :: sqlite where
  "pin_db = initialize_db True True empty_tables"

definition pin_core :: "command_record list \<Rightarrow> core" where
  "pin_core hist = \<lparr>ws_current = Some (empty_workspace\<lparr>ws_windows := [empty_window\<lparr>w_tabs := [empty_tab\<lparr>
       t_pane_tree := Leaf (Some \<lparr>p_id = Id ''p'', p_state = empty_pane_state\<lparr>ps_command_history := hist\<rparr>\<rparr>)\<rparr>]\<rparr>]\<rparr>),
     ws_dirty = False, ev_log = []\<rparr>"

definition pin_record :: command_record where
  "pin_record = \<lparr>cr_command = ''ls'', cr_timestamp_us = 5, cr_pinned = False\<rparr>"

definition pin_tracker :: tracker where
  "pin_tracker = \<lparr>cache = [\<lparr>ce_record = pin_record, ce_pinned = False\<rparr>], last_known_size = 0, last_known_mtime = 0,
     mutex_held = False, initial_load_done = True\<rparr>"

definition pin_digest :: "string \<Rightarrow> bytes" where
  "pin_digest s = map of_char s"

definition pin_workspace :: "command_record list \<Rightarrow> workspace" where
  "pin_workspace hist = the (ws_current (pin_core hist))"

lemma pin_demo:
  "keyed pin_db" "annotations pin_db = []" "row_at fp pin_db = None" "ws_current (pin_core hist) = Some (pin_workspace hist)"
  "newest ''ls'' (cache pin_tracker) = Some \<lparr>ce_record = pin_record, ce_pinned = False\<rparr>"
  "plain_string ''ls''" "plain_string (id_str (Id ''p'' :: pane_id))" "id_str (Id ''p'' :: pane_id) \<noteq> ''''"
  "first_timestamp (pin_workspace []) (Id ''p'') ''ls'' = 0"
  "first_timestamp (pin_workspace [pin_record]) (Id ''p'') ''ls'' = 5"
proof -
  show a: "annotations pin_db = []" by code_simp
  then show "row_at fp pin_db = None" by (simp add: row_at_def)
  show "keyed pin_db" unfolding keyed_def a by code_simp
  show "ws_current (pin_core hist) = Some (pin_workspace hist)" by (simp add: pin_workspace_def pin_core_def)
  show "newest ''ls'' (cache pin_tracker) = Some \<lparr>ce_record = pin_record, ce_pinned = False\<rparr>"
    by (simp add: newest_def pin_tracker_def pin_record_def)
  show "plain_string ''ls''" "plain_string (id_str (Id ''p'' :: pane_id))" "id_str (Id ''p'' :: pane_id) \<noteq> ''''" by code_simp+
  show "first_timestamp (pin_workspace []) (Id ''p'') ''ls'' = 0"
    "first_timestamp (pin_workspace [pin_record]) (Id ''p'') ''ls'' = 5"
    by (simp_all add: first_timestamp_def terminal_panes_def pin_workspace_def pin_core_def tab_panes_def pin_record_def
      empty_tab_def empty_window_def empty_workspace_def)
qed

theorem pin_survives_witness:
  "is_pinned ''ls'' (restarted (sqlite_storage (\<lambda>_. None) (\<lambda>_. None))
    (pin_callback (sqlite_storage (\<lambda>_. None) (\<lambda>_. None)) pin_digest 1 (Id ''p'') (Id ''w'') ''ls'' True (pin_core []) pin_db)
    (Id ''x'') (Id ''p'') pin_tracker)"
  by (rule pin_survives [OF pin_demo(1) pin_demo(4) _ pin_demo(6,7,8) _ pin_demo(5)]) (simp_all add: pin_demo(3))

theorem unpin_needs_same_time_witness:
  "is_pinned ''ls'' (restarted (sqlite_storage (\<lambda>_. None) (\<lambda>_. None))
    (pin_callback (sqlite_storage (\<lambda>_. None) (\<lambda>_. None)) pin_digest 2 (Id ''p'') (Id ''w'') ''ls'' False (pin_core [pin_record])
      (pin_callback (sqlite_storage (\<lambda>_. None) (\<lambda>_. None)) pin_digest 1 (Id ''p'') (Id ''w'') ''ls'' True (pin_core []) pin_db))
    (Id ''x'') (Id ''p'') pin_tracker)"
proof -
  have f: "fingerprint pin_digest ''ls'' 0 (Id ''p'') \<noteq> fingerprint pin_digest ''ls'' 5 (Id ''p'')" by code_simp
  show ?thesis
    by (subst unpin_needs_same_time [OF pin_demo(1) pin_demo(4) pin_demo(4) _ pin_demo(6,7,8) _ _ _ _ pin_demo(5)])
      (use f in \<open>simp_all add: pin_demo(3,9,10)\<close>)
qed

theorem windows_list_grows_witness:
  "(do_update_windows_list (sqlite_storage (\<lambda>_. None) (\<lambda>_. None)) (\<lambda>_. ''t'') '''' (pin_core []) pin_db ^^ 2) [Search_Box] =
    Search_Box # concat (replicate 2 (list_rows (\<lambda>_. ''t'') '''' (ws_windows (pin_workspace []))
      (list_closed_windows (sqlite_storage (\<lambda>_. None) (\<lambda>_. None)) pin_db (ws_id (pin_workspace [])))))"
  by (rule windows_list_grows [OF pin_demo(4)])

end
