(* ===== verification/Window_Invariant.thy ===== *)
theory Window_Invariant
  imports Window_Tabs Core_Outline History_Panel
begin

text \<open>
  The main window over its whole life: its lists of tabs, its stack and its row of labels agree at every
  step, and the tabs it shows are the tabs the engine keeps for its window, in the same order.
\<close>

section \<open>Single steps of the window\<close>

abbreviation shown_ids :: "main_window \<Rightarrow> (window_id \<times> tab_id) list" where
  "shown_ids w \<equiv> map (gui_ids \<circ> snd) (mw_tabs w)"

text \<open>The same tabs, of the same kinds, on a consistent window.\<close>

definition same_tabs :: "main_window \<Rightarrow> main_window \<Rightarrow> bool" where
  "same_tabs w w' \<longleftrightarrow> window_ok w' \<and> mw_window w' = mw_window w \<and> shown_ids w' = shown_ids w \<and> ptrs w' = ptrs w \<and>
     mw_connected w' = mw_connected w"

lemma same_tabs_refl: "window_ok w \<Longrightarrow> same_tabs w w"
  by (simp add: same_tabs_def)

lemma same_tabs_trans: "same_tabs u v \<Longrightarrow> same_tabs v w \<Longrightarrow> same_tabs u w"
  by (simp add: same_tabs_def)

lemma window_ok_bar_pre: assumes "window_ok w" shows "bar_pre w"
proof -
  have b: "map fst (mw_bar w) = ptrs w" using assms by (simp add: window_ok_def)
  have "length (mw_bar w) = length (mw_tabs w)" using arg_cong [OF b, of length] by simp
  then show ?thesis by (simp add: bar_pre_def b)
qed

lemma update_same: assumes "window_ok w" shows "same_tabs w (update_tab_bar st w)"
proof -
  note k = keeps_update [of w st]
  show ?thesis
    using assms update_tab_bar_ptrs [OF window_ok_bar_pre [OF assms], of st] keeps_tabs_ok [OF k] keeps_pages [OF k]
    by (simp add: same_tabs_def window_ok_def)
qed

lemma same_tabs_update: assumes "same_tabs w w'" shows "same_tabs w (update_tab_bar st w')"
proof -
  have "window_ok w'" using assms by (simp add: same_tabs_def)
  from same_tabs_trans [OF assms update_same [OF this]] show ?thesis .
qed

lemma window_page_index:
  assumes "window_ok w" "p \<in> snd ` set (mw_stack w)"
  shows "\<exists>i < length (mw_tabs w). p = fst (mw_tabs w ! i)"
proof -
  have "p \<in> set (map snd (pages w))" using assms by (simp add: window_ok_def)
  then obtain i where "i < length (ptrs w)" "ptrs w ! i = p" unfolding pages_ptrs in_set_conv_nth by blast
  then show ?thesis by auto
qed

lemma show_same: assumes "window_ok w" "mw_connected w" shows "same_tabs w (stack_show st p w)"
proof (cases "mw_visible w = Some p \<or> p \<notin> snd ` set (mw_stack w)")
  case True
  then show ?thesis using assms by (simp add: stack_show_def same_tabs_refl)
next
  case False
  then obtain i where i: "i < length (mw_tabs w)" "p = fst (mw_tabs w ! i)"
    using window_page_index [OF assms(1)] by blast
  have w: "tabs_ok w" "mw_stack w = pages w" using assms(1) by (simp_all add: window_ok_def)
  let ?u = "w\<lparr>mw_visible := Some p\<rparr>"
  let ?v = "?u\<lparr>mw_active := int i\<rparr>"
  have idx: "index_of p (mw_tabs w) = Some i"
    using index_of_nth [of "mw_tabs w" i] w(1) i by (simp add: tabs_ok_def)
  have s: "stack_show st p w = update_tab_bar st ?v"
    using False idx assms(2) by (simp add: stack_show_def on_visible_changed_def)
  have k: "keeps w ?v" by (rule keeps_trans [OF keeps_upd(2) keeps_upd(1)])
  have "bar_pre ?v" using k window_ok_bar_pre [OF assms(1)] by (simp add: keeps_def)
  from update_tab_bar_ptrs [OF this, of st] have "map fst (mw_bar (update_tab_bar st ?v)) = ptrs w" by simp
  moreover have "tabs_ok (update_tab_bar st ?v)" "pages (update_tab_bar st ?v) = pages w"
    using keeps_tabs_ok [OF keeps_trans [OF k keeps_update]] keeps_pages [OF keeps_trans [OF k keeps_update]] w by blast+
  moreover have "mw_tabs w \<noteq> []" using i(1) by auto
  ultimately show ?thesis unfolding s same_tabs_def window_ok_def using i w(2) by simp
qed

lemma show_active:
  assumes "window_ok w" "i < length (mw_tabs w)" "mw_connected w"
  shows "mw_active (stack_show st (fst (mw_tabs w ! i)) w) = int i"
proof (cases "mw_visible w = Some (fst (mw_tabs w ! i))")
  case True
  have n: "mw_tabs w \<noteq> []" using assms(2) by auto
  then have "ptrs w ! nat (mw_active w) = ptrs w ! i" "nat (mw_active w) < length (ptrs w)" "distinct (ptrs w)" "0 \<le> mw_active w"
    using assms True by (simp_all add: window_ok_def tabs_ok_def nat_less_iff)
  then have "nat (mw_active w) = i" using assms(2) nth_eq_iff_index_eq [of "ptrs w" "nat (mw_active w)" i] by simp
  then show ?thesis using True \<open>0 \<le> mw_active w\<close> by (simp add: stack_show_def)
next
  case False
  have "fst (mw_tabs w ! i) \<in> snd ` set (mw_stack w)"
    using pages_in [OF assms(2)] assms(1) by (simp add: window_ok_def)
  with False have "stack_show st (fst (mw_tabs w ! i)) w = on_visible_changed st (w\<lparr>mw_visible := Some (fst (mw_tabs w ! i))\<rparr>)"
    by (simp add: stack_show_def)
  with handler_active [of "w\<lparr>mw_visible := Some (fst (mw_tabs w ! i))\<rparr>" i st] assms show ?thesis
    by (simp add: window_ok_def tabs_ok_def)
qed

lemma focus_view_same:
  assumes "window_ok w" "i < length (mw_tabs w)" "mw_connected w"
  shows "same_tabs w (focus_view st i w)"
proof -
  let ?u = "stack_show st (fst (mw_tabs w ! i)) w"
  have "?u\<lparr>mw_active := int i\<rparr> = ?u" using show_active [OF assms, of st] by simp
  then have "focus_view st i w = update_tab_bar st ?u" by (simp only: focus_view_def)
  moreover have u: "same_tabs w ?u" by (rule show_same [OF assms(1,3)])
  moreover have "same_tabs ?u (update_tab_bar st ?u)" using u by (intro update_same) (simp add: same_tabs_def)
  ultimately show ?thesis using same_tabs_trans by simp
qed

lemma filter_upd_kind:
  assumes "\<And>t. (p, t) \<in> set ts \<Longrightarrow> gui_kind (f t) = gui_kind t"
  shows "map fst (filter (\<lambda>(_, t). gui_kind t = k) (map (\<lambda>(q, t). (q, if q = p then f t else t)) ts)) =
    map fst (filter (\<lambda>(_, t). gui_kind t = k) ts)"
  using assms
proof (induction ts)
  case (Cons x ts)
  obtain q t where x: "x = (q, t)" by (cases x)
  have "gui_kind (if q = p then f t else t) = gui_kind t" using Cons.prems [of t] x by (cases "q = p") simp_all
  moreover have "map fst (filter (\<lambda>(_, t). gui_kind t = k) (map (\<lambda>(q, t). (q, if q = p then f t else t)) ts)) =
    map fst (filter (\<lambda>(_, t). gui_kind t = k) ts)" using Cons.prems by (intro Cons.IH) simp
  ultimately show ?case by (simp add: x)
qed simp

lemma upd_same:
  assumes "window_ok w" "\<And>t. (p, t) \<in> set (mw_tabs w) \<Longrightarrow> gui_kind (f t) = gui_kind t \<and> gui_ids (f t) = gui_ids t"
  shows "same_tabs w (upd_tab p f w)"
proof -
  have fst: "ptrs (upd_tab p f w) = ptrs w" by (simp add: upd_tab_def comp_def case_prod_beta)
  have len: "length (mw_tabs (upd_tab p f w)) = length (mw_tabs w)" by (simp add: upd_tab_def)
  have rest: "mw_term_tabs (upd_tab p f w) = mw_term_tabs w" "mw_note_tabs (upd_tab p f w) = mw_note_tabs w"
    "mw_next (upd_tab p f w) = mw_next w" "mw_stack (upd_tab p f w) = mw_stack w" "mw_bar (upd_tab p f w) = mw_bar w"
    "mw_active (upd_tab p f w) = mw_active w" "mw_visible (upd_tab p f w) = mw_visible w" "mw_connected (upd_tab p f w) = mw_connected w" "mw_window (upd_tab p f w) = mw_window w"
    by (simp_all add: upd_tab_def)
  have tabs: "mw_tabs (upd_tab p f w) = map (\<lambda>(q, t). (q, if q = p then f t else t)) (mw_tabs w)"
    by (simp add: upd_tab_def)
  have t: "tabs_ok (upd_tab p f w)"
    using assms(1) filter_upd_kind [of p "mw_tabs w" f] assms(2)
    unfolding window_ok_def tabs_ok_def rest fst unfolding tabs by simp
  have e: "mw_tabs (upd_tab p f w) = [] \<longleftrightarrow> mw_tabs w = []" by (simp add: upd_tab_def)
  have "window_ok (upd_tab p f w)"
    using assms(1) t unfolding window_ok_def rest pages_def fst len e by simp
  moreover have "shown_ids (upd_tab p f w) = shown_ids w"
    unfolding tabs using assms(2) by (auto simp: case_prod_beta intro!: map_cong)
  ultimately show ?thesis using fst rest by (simp add: same_tabs_def)
qed

lemma window_ok_window: "window_ok (w\<lparr>mw_window := i\<rparr>) = window_ok w"
  by (simp add: window_ok_def tabs_ok_def pages_def)

section \<open>The whole program around the window\<close>

text \<open>The tabs shown are those of the engine's window, with identifiers of their own.\<close>

definition mirrors_engine :: "'s gui \<Rightarrow> bool" where
  "mirrors_engine g \<longleftrightarrow>
     (let w = g_win g; i = mw_window w
      in \<not> id_empty i \<and> current_window (g_session g) = i \<and>
         (case core_tabs i (g_core g) of
            None \<Rightarrow> False
          | Some ts \<Rightarrow> distinct ts \<and> (\<forall>t \<in> set ts. \<not> id_empty t) \<and> shown_ids w = map (Pair i) ts))"

text \<open>Before and after the constructor has connected the handler of the visible page.\<close>

definition gui_at :: "bool \<Rightarrow> 's gui \<Rightarrow> bool" where
  "gui_at b g \<longleftrightarrow> window_ok (g_win g) \<and> mw_connected (g_win g) = b \<and> mirrors_engine g"

abbreviation gui_ok :: "'s gui \<Rightarrow> bool" where
  "gui_ok \<equiv> gui_at True"

text \<open>Operations that neither open nor close a tab.\<close>

definition same_gui :: "'s gui \<Rightarrow> 's gui \<Rightarrow> bool" where
  "same_gui g g' \<longleftrightarrow> same_tabs (g_win g) (g_win g') \<and> g_session g' = g_session g \<and> core_outline (g_core g') = core_outline (g_core g)"

lemma same_gui_trans: "same_gui f g \<Longrightarrow> same_gui g h \<Longrightarrow> same_gui f h"
  by (auto simp: same_gui_def intro: same_tabs_trans)

lemma same_gui_ok: "same_gui g g' \<Longrightarrow> gui_at b g \<Longrightarrow> gui_at b g'"
  unfolding same_gui_def same_tabs_def gui_at_def mirrors_engine_def core_tabs_def Let_def
  by (elim conjE) (simp split: option.splits)

lemma same_gui_refl: "window_ok (g_win g) \<Longrightarrow> same_gui g g"
  by (simp add: same_gui_def same_tabs_refl)

lemma same_gui_win: "same_tabs (g_win g) (f (g_win g)) \<Longrightarrow> same_gui g (upd_win f g)"
  by (simp add: same_gui_def upd_win_def)

lemma active_view_in: assumes "active_view w = Some (p, t)" shows "(p, t) \<in> set (mw_tabs w)"
proof -
  have "nat (mw_active w) < length (mw_tabs w)" "mw_tabs w ! nat (mw_active w) = (p, t)"
    using assms by (auto simp: active_view_def nat_less_iff split: if_splits)
  with nth_mem [of "nat (mw_active w)" "mw_tabs w"] show ?thesis by simp
qed

lemma window_tab_unique:
  assumes "window_ok w" "(p, t) \<in> set (mw_tabs w)" "(p, t') \<in> set (mw_tabs w)"
  shows "t' = t"
proof -
  have "distinct (ptrs w)" using assms(1) by (simp add: window_ok_def tabs_ok_def)
  from eq_key_imp_eq_value [OF this assms(3,2)] show ?thesis .
qed

lemma upd_to_same:
  assumes "window_ok w" "(p, t) \<in> set (mw_tabs w)" "gui_kind t' = gui_kind t" "gui_ids t' = gui_ids t"
  shows "same_tabs w (upd_tab p (\<lambda>_. t') w)"
  using window_tab_unique [OF assms(1,2)] assms(3,4) by (intro upd_same [OF assms(1)]) auto

lemma nth_tab_in: "i < length (mw_tabs w) \<Longrightarrow> mw_tabs w ! i = (p, t) \<Longrightarrow> (p, t) \<in> set (mw_tabs w)"
  using nth_mem [of i "mw_tabs w"] by simp

lemma index_of_SomeD:
  assumes "index_of p ts = Some i"
  shows "i < length ts \<and> fst (ts ! i) = p"
proof -
  let ?P = "\<lambda>(q, _). q \<noteq> p"
  have i: "i = length (takeWhile ?P ts)" "length (takeWhile ?P ts) < length ts"
    using assms by (auto simp: index_of_def Let_def split: if_splits)
  from nth_length_takeWhile [OF i(2)] i show ?thesis by (simp add: case_prod_beta)
qed

section \<open>Opening a tab\<close>

definition core_all_tabs :: "core \<Rightarrow> tab list" where
  "core_all_tabs c = (case ws_current c of None \<Rightarrow> [] | Some ws \<Rightarrow> all_tabs ws)"

text \<open>Identifiers made by the generators: not empty and not in use.\<close>

definition fresh_ids :: "fresh \<Rightarrow> core \<Rightarrow> bool" where
  "fresh_ids fr c \<longleftrightarrow> \<not> id_empty (fr_tab fr) \<and> \<not> id_empty (fr_pane fr) \<and> \<not> id_empty (fr_window fr) \<and>
     (\<forall>x \<in> set (core_outline c). fst x \<noteq> fr_window fr \<and> fr_tab fr \<notin> set (snd x)) \<and>
     (\<forall>t \<in> set (core_all_tabs c). map_option nt_document_id (t_note_state t) \<noteq> Some (id_str (fr_pane fr)))"

lemma ensure_window_current:
  assumes "\<not> id_empty (current_window ses)" "core_tabs (current_window ses) c = Some ts"
  shows "ensure_window now fw (ses, c) = (current_window ses, ses, c)"
  using core_tabs_window [OF assms(2)] assms(1) by (auto simp: ensure_window_def Let_def)

lemma new_terminal_tab_outline:
  assumes "new_terminal_tab now fw ft fp title (ses, c) = Inr (info, ses', c')"
    "\<not> id_empty (current_window ses)" "core_tabs (current_window ses) c = Some ts"
  shows "ses' = ses \<and> tt_window info = current_window ses \<and> tt_tab info = ft \<and>
    core_tabs (current_window ses) c' = Some (ts @ [ft])"
proof -
  obtain c1 tab where a: "add_tab ft (current_window ses) title (leaf \<lparr>p_id = fp, p_state = empty_pane_state\<rparr>) c = Inr (tab, c1)"
    and r: "ses' = ses" "c' = c1" "tt_window info = current_window ses" "tt_tab info = tab"
    using assms(1,2) ensure_window_current [OF assms(2,3), of now fw]
    by (auto simp: new_terminal_tab_def Let_def split: sum.splits simp del: id_empty_def)
  from insert_tab_outline [OF a [unfolded add_tab_def]] r assms(3) show ?thesis by (simp add: Tab_create_def)
qed

lemma note_binding_inserted:
  assumes "insert_tab i t c = Inr (j, c')" "t_kind t = Note" "map_option nt_document_id (t_note_state t) = Some n" "n \<noteq> []"
    "\<forall>t \<in> set (core_all_tabs c). map_option nt_document_id (t_note_state t) \<noteq> Some n"
  shows "note_tab_binding n c' = Some (i, t_id t)"
proof -
  obtain ws x wins where ws: "ws_current c = Some ws"
    and v: "visit_windows (visit_window i (\<lambda>w. ((), push_tab t w))) (ws_windows ws) = Some (x, wins)"
    and r: "c' = emit TabAdded (ws_id ws) (Some i) (Some (t_id t)) None
        (mark_dirty (c\<lparr>ws_current := Some (ws\<lparr>ws_windows := wins\<rparr>)\<rparr>))"
    using assms(1) by (auto simp: insert_tab_def split: option.splits)
  obtain pre w w' post where s: "ws_windows ws = pre @ w # post" "w_id w = i" "w' = push_tab t w" "wins = pre @ w' # post"
    using visit_windows_SomeD [OF v] by (auto simp: visit_window_def split: if_splits)
  define P :: "tab \<Rightarrow> bool" where "P = (\<lambda>t. t_kind t = Note \<and> map_option nt_document_id (t_note_state t) = Some n)"
  define B :: "window \<Rightarrow> (window_id \<times> tab_id) list" where "B = (\<lambda>w. concat (map (\<lambda>t. if P t then [(w_id w, t_id t)] else []) (w_tabs w)))"
  have cur: "ws_current c' = Some (ws\<lparr>ws_windows := wins\<rparr>)" by (simp add: r emit_def mark_dirty_def Let_def)
  have b: "note_tab_binding n c' = (case concat (map B wins) of [] \<Rightarrow> None | b # _ \<Rightarrow> Some b)"
    using assms(4) by (simp add: note_tab_binding_def cur B_def P_def)
  have none: "B u = []" if "u \<in> set (ws_windows ws)" for u
    using that assms(5) by (auto simp: B_def P_def core_all_tabs_def ws all_tabs_def)
  have P: "P t" using assms(2,3) by (simp add: P_def)
  have e: "w_id (push_tab t w) = w_id w" "w_tabs (push_tab t w) = w_tabs w @ [t]" by (simp_all add: push_tab_def)
  have "B w' = B w @ [(i, t_id t)]" using P s(2) unfolding B_def s(3) e by simp
  moreover have "concat (map B pre) = []" "concat (map B post) = []" "B w = []" using none by (auto simp: s(1))
  ultimately have "concat (map B wins) = [(i, t_id t)]" by (simp add: s(4) del: concat_eq_Nil_conv)
  with b show ?thesis by simp
qed

lemma new_note_outline:
  assumes "new_note now fw ft fp (ses, c) = Inr (n, ses', c')" "\<not> id_empty fp"
    "\<forall>t \<in> set (core_all_tabs c). map_option nt_document_id (t_note_state t) \<noteq> Some (id_str fp)"
    "\<not> id_empty (current_window ses)" "core_tabs (current_window ses) c = Some ts"
  shows "n = id_str fp \<and> ses' = ses \<and> core_tabs (current_window ses) c' = Some (ts @ [ft]) \<and>
    note_tab_binding n c' = Some (current_window ses, ft)"
proof -
  let ?st = "empty_note_tab_state\<lparr>nt_document_id := id_str fp, nt_title := (if id_str fp = '''' then ''note'' else id_str fp)\<rparr>"
  obtain c1 tab where a: "add_note_tab ft (current_window ses) (nt_title ?st) ?st c = Inr (tab, c1)"
    and r: "ses' = ses" "c' = c1" "n = id_str fp"
    using assms(1,4) ensure_window_current [OF assms(4,5), of now fw]
    by (auto simp: new_note_def Let_def split: sum.splits simp del: id_empty_def)
  have ne: "id_str fp \<noteq> []" using assms(2) by (cases fp) (simp add: empty_id_def)
  note i = a [unfolded add_note_tab_def]
  from insert_tab_outline [OF i] note_binding_inserted [OF i, of "id_str fp"] ne assms(3,5) r
  show ?thesis by (simp add: Tab_create_def)
qed

text \<open>What \<^const>\<open>add_view\<close> makes of a consistent window whose new tab the engine has added last.\<close>

lemma add_view_gui_ok:
  assumes "gui_at b g" "core_tabs (mw_window (g_win g)) c = Some (ts @ [i])"
    "core_tabs (mw_window (g_win g)) (g_core g) = Some ts" "i \<notin> set ts" "\<not> id_empty i"
    "gui_ids t = (mw_window (g_win g), i)"
    "g' = upd_win (add_view sb st t) (g\<lparr>g_core := c\<rparr>)"
  shows "gui_at b g' \<and> mw_tabs (g_win g') = mw_tabs (g_win g) @ [(mw_next (g_win g), t)] \<and> g_session g' = g_session g"
proof -
  have w: "window_ok (g_win g)" using assms(1) by (simp add: gui_at_def)
  note a = add_view_ok [OF w, of sb st t]
  have win: "mw_window (add_view sb st t (g_win g)) = mw_window (g_win g)" "mw_connected (add_view sb st t (g_win g)) = mw_connected (g_win g)"
    using add_view_window by blast+
  have m: "\<not> id_empty (mw_window (g_win g))" "current_window (g_session g) = mw_window (g_win g)"
    "distinct ts" "\<forall>t \<in> set ts. \<not> id_empty t" "shown_ids (g_win g) = map (Pair (mw_window (g_win g))) ts"
    using assms(1,3) by (simp_all add: gui_at_def mirrors_engine_def Let_def)
  have g': "g_win g' = add_view sb st t (g_win g)" "g_core g' = c" "g_session g' = g_session g"
    using assms(7) by (simp_all add: upd_win_def)
  have "mirrors_engine g'"
    unfolding mirrors_engine_def Let_def g' win using m a assms(2,4-6) by simp
  moreover have "mw_connected (g_win g') = b" using assms(1) win(2) by (simp add: g' gui_at_def)
  ultimately show ?thesis using a g' by (simp add: gui_at_def)
qed

lemma gui_ok_tabs:
  assumes "gui_at b g"
  shows "\<exists>ts. core_tabs (mw_window (g_win g)) (g_core g) = Some ts \<and> distinct ts \<and> (\<forall>t \<in> set ts. \<not> id_empty t) \<and>
    shown_ids (g_win g) = map (Pair (mw_window (g_win g))) ts \<and> current_window (g_session g) = mw_window (g_win g) \<and>
    \<not> id_empty (mw_window (g_win g)) \<and> window_ok (g_win g)"
  using assms by (auto simp: gui_at_def mirrors_engine_def Let_def split: option.splits simp del: id_empty_def)

lemma fresh_tab_new:
  assumes "fresh_ids fr c" "core_tabs i c = Some ts"
  shows "fr_tab fr \<notin> set ts \<and> \<not> id_empty (fr_tab fr)"
  using assms map_of_SomeD [of "core_outline c" i ts] by (auto simp: fresh_ids_def core_tabs_def simp del: id_empty_def)

lemma window_new_terminal_ok:
  assumes "gui_at b g" "fresh_ids fr (g_core g)" "window_new_terminal e fr g = Returned g'"
  shows "gui_at b g'"
proof -
  let ?i = "mw_window (g_win g)"
  obtain ts where ts: "core_tabs ?i (g_core g) = Some ts" "current_window (g_session g) = ?i" "\<not> id_empty ?i"
    using gui_ok_tabs [OF assms(1)] by blast
  note f = fresh_tab_new [OF assms(2) ts(1)]
  let ?new = "new_terminal_tab (fr_now fr) (fr_window fr) (fr_tab fr) (fr_pane fr) ''terminal'' (g_session g, g_core g)"
  obtain info ses c where n: "?new = Inr (info, ses, c)"
    using assms(3) by (cases ?new) (auto simp: window_new_terminal_def)
  have ts': "core_tabs (current_window (g_session g)) (g_core g) = Some ts" "\<not> id_empty (current_window (g_session g))"
    using ts by simp_all
  from new_terminal_tab_outline [OF n ts'(2,1)] ts(2)
  have i: "ses = g_session g" "tt_window info = ?i" "tt_tab info = fr_tab fr" "core_tabs ?i c = Some (ts @ [fr_tab fr])"
    by simp_all
  have ne: "\<not> id_empty (tt_tab info)" using f i(3) by simp
  obtain v where v: "rebuild (ge_tab e) c (new_term_view (ge_tab e) (ge_shell e) (tt_window info) (tt_tab info) (tt_root_pane info)) = Returned v"
    and g': "g' = upd_win (\<lambda>w. add_view (ge_stack e) (g_store g) (Terminal_Gui v) (w\<lparr>mw_window := tt_window info\<rparr>)) (g\<lparr>g_session := ses, g_core := c\<rparr>)"
    using assms(3) n ne by (auto simp: window_new_terminal_def Let_def then_do_Returned)
  have ids: "gui_ids (Terminal_Gui v) = (?i, fr_tab fr)"
    using rebuild_keeps [OF v] i by (simp add: new_term_view_def)
  have "g' = upd_win (add_view (ge_stack e) (g_store g) (Terminal_Gui v)) (g\<lparr>g_core := c\<rparr>)"
    by (simp add: g' upd_win_def i(1,2))
  from add_view_gui_ok [OF assms(1) i(4) ts(1) _ _ ids this] f show ?thesis by blast
qed

lemma bound_note_view_ids:
  assumes "note_tab_binding n (g_core g) = Some (w, t)"
  shows "gui_ids (Note_Gui (bound_note_view e n g)) = (w, t)"
  by (simp add: bound_note_view_def assms Let_def)

text \<open>The steps a new note shares with opening a file.\<close>

lemma new_note_gui_ok:
  assumes "gui_ok g" "fresh_ids fr (g_core g)"
    "new_note (fr_now fr) (fr_window fr) (fr_tab fr) (fr_pane fr) (g_session g, g_core g) = Inr (n, ses, c)"
    "g1 = g\<lparr>g_session := ses, g_core := c\<rparr>"
    "g2 = upd_win (add_view (ge_stack e) (g_store g1) (Note_Gui (bound_note_view e n g1))) g1"
  shows "gui_ok g2 \<and> n \<noteq> '''' \<and> g_session g1 = g_session g \<and>
    mw_tabs (g_win g2) = mw_tabs (g_win g) @ [(mw_next (g_win g), Note_Gui (bound_note_view e n g1))]"
proof -
  let ?i = "mw_window (g_win g)"
  obtain ts where ts: "core_tabs ?i (g_core g) = Some ts" "current_window (g_session g) = ?i" "\<not> id_empty ?i"
    using gui_ok_tabs [OF assms(1)] by blast
  note f = fresh_tab_new [OF assms(2) ts(1)]
  have ts': "core_tabs (current_window (g_session g)) (g_core g) = Some ts" "\<not> id_empty (current_window (g_session g))"
    using ts by simp_all
  have fr: "\<not> id_empty (fr_pane fr)"
    "\<forall>t \<in> set (core_all_tabs (g_core g)). map_option nt_document_id (t_note_state t) \<noteq> Some (id_str (fr_pane fr))"
    using assms(2) by (simp_all add: fresh_ids_def)
  note n = new_note_outline [OF assms(3) fr ts'(2,1)]
  have ne: "n \<noteq> ''''" using n fr(1) by (cases "fr_pane fr") (simp add: empty_id_def)
  have ids: "gui_ids (Note_Gui (bound_note_view e n g1)) = (?i, fr_tab fr)"
    by (rule bound_note_view_ids) (use n ts(2) in \<open>auto simp: assms(4)\<close>)
  have "g2 = upd_win (add_view (ge_stack e) (g_store g1) (Note_Gui (bound_note_view e n g1))) (g\<lparr>g_core := c\<rparr>)"
    using n by (simp add: assms(4,5))
  from add_view_gui_ok [OF assms(1) _ ts(1) _ _ ids this] n f ts(2) ne assms(4) show ?thesis by simp
qed

lemma window_new_note_ok:
  assumes "gui_ok g" "fresh_ids fr (g_core g)" "window_new_note e fr g = Returned g'"
  shows "gui_ok g'"
proof -
  let ?new = "new_note (fr_now fr) (fr_window fr) (fr_tab fr) (fr_pane fr) (g_session g, g_core g)"
  obtain n ses c where n: "?new = Inr (n, ses, c)"
    using assms(3) by (cases ?new) (auto simp: window_new_note_def)
  let ?g1 = "g\<lparr>g_session := ses, g_core := c\<rparr>"
  note ok = new_note_gui_ok [OF assms(1,2) n refl refl]
  have g': "g' = upd_win (add_view (ge_stack e) (g_store ?g1) (Note_Gui (bound_note_view e n ?g1))) ?g1"
    using assms(3) n ok [of e] by (simp add: window_new_note_def Let_def)
  show ?thesis unfolding g' using ok [of e] by blast
qed

lemma note_ids_kept:
  "gui_ids (Note_Gui (snd (load_file holds now path st d v))) = gui_ids (Note_Gui v)"
  "gui_ids (Note_Gui (snd (snd (save_now f mt path d v)))) = gui_ids (Note_Gui v)"
  "gui_ids (Note_Gui (snd (snd (snd (save_as_response f now mt ok chosen st d v))))) = gui_ids (Note_Gui v)"
  by (auto simp: load_file_def save_now_def save_as_response_def start_watcher_def call_def set_modified_def
      dirty_check_def editor_set_text_def Let_def split: option.splits prod.splits)

lemma open_note_from_path_ok:
  assumes "gui_ok g" "fresh_ids fr (g_core g)" "open_note_from_path e fr path g = Returned (b, g')"
  shows "gui_ok g'"
proof -
  let ?tabs = "mw_tabs (g_win g)"
  let ?j = "length (takeWhile (\<lambda>(_, t). \<not> shows_file e (g_store g) (note_key e path) t) ?tabs)"
  have w: "window_ok (g_win g)" "mw_connected (g_win g)" using assms(1) by (simp_all add: gui_at_def)
  show ?thesis
  proof (cases "?j < length ?tabs")
    case True
    then have g': "g' = upd_win (focus_view (g_store g) ?j) g"
      using assms(3) by (simp add: open_note_from_path_def Let_def)
    show ?thesis unfolding g' by (rule same_gui_ok [OF same_gui_win assms(1)]) (rule focus_view_same [OF w(1) True w(2)])
  next
    case False
    let ?new = "new_note (fr_now fr) (fr_window fr) (fr_tab fr) (fr_pane fr) (g_session g, g_core g)"
    obtain n ses c where n: "?new = Inr (n, ses, c)"
      using assms(3) False by (cases ?new) (auto simp: open_note_from_path_def Let_def)
    define g1 where "g1 = g\<lparr>g_session := ses, g_core := c\<rparr>"
    define v where "v = bound_note_view e n g1"
    define g2 where "g2 = upd_win (add_view (ge_stack e) (g_store g1) (Note_Gui v)) g1"
    have ok: "gui_ok g2" "n \<noteq> ''''" "mw_tabs (g_win g2) = ?tabs @ [(mw_next (g_win g), Note_Gui v)]"
      using new_note_gui_ok [OF assms(1,2) n g1_def, of g2 e] by (simp_all add: g2_def v_def)
    obtain st u where l: "load_file (ge_holds e) (fr_now fr) path (g_store g2) (g_disk g2) v = (st, u)"
      by (cases "load_file (ge_holds e) (fr_now fr) path (g_store g2) (g_disk g2) v")
    have e1: "mw_next (g_win g1) = mw_next (g_win g)" by (simp add: g1_def)
    have e2: "upd_win (add_view (ge_stack e) (g_store g) (Note_Gui v)) g1 = g2" by (simp add: g2_def g1_def)
    have g': "g' = upd_win (\<lambda>w. update_tab_bar st (upd_tab (mw_next (g_win g)) (\<lambda>_. Note_Gui u) w)) (g2\<lparr>g_store := st\<rparr>)"
      using assms(3) False n ok(2) l e1
      by (simp add: open_note_from_path_def Let_def g1_def [symmetric] v_def [symmetric] e2)
    have w2: "window_ok (g_win g2)" using ok(1) by (simp add: gui_at_def)
    have "same_tabs (g_win g2) (upd_tab (mw_next (g_win g)) (\<lambda>_. Note_Gui u) (g_win g2))"
      using note_ids_kept(1) [of "ge_holds e" "fr_now fr" path "g_store g2" "g_disk g2" v] l
      by (intro upd_to_same [OF w2, of _ "Note_Gui v"]) (simp_all add: ok(3))
    from same_tabs_trans [OF this update_same] this
    have "same_gui g2 g'" by (simp add: g' same_gui_def upd_win_def same_tabs_def)
    from same_gui_ok [OF this ok(1)] show ?thesis .
  qed
qed

section \<open>Closing a tab\<close>

lemma finish_close_ok:
  assumes "gui_ok g"
  shows "gui_ok (finish_close_tab e i g)"
proof (cases "i < length (mw_tabs (g_win g))")
  case False
  then show ?thesis using assms by (simp add: finish_close_tab_def)
next
  case True
  let ?w = "g_win g"
  let ?W = "mw_window ?w"
  obtain ts where ts: "core_tabs ?W (g_core g) = Some ts" "distinct ts" "\<forall>t \<in> set ts. \<not> id_empty t"
    "shown_ids ?w = map (Pair ?W) ts" "current_window (g_session g) = ?W" "\<not> id_empty ?W" "window_ok ?w"
    using gui_ok_tabs [OF assms] by blast
  have len: "length ts = length (mw_tabs ?w)" using arg_cong [OF ts(4), of length] by simp
  have ids: "gui_ids (snd (mw_tabs ?w ! i)) = (?W, ts ! i)"
    using arg_cong [OF ts(4), of "\<lambda>xs. xs ! i"] True len by simp
  have ne: "\<not> id_empty (ts ! i)" using ts(3) True len by (simp del: id_empty_def)
  define g1 where "g1 = g\<lparr>g_core := snd (remove_tab ?W (ts ! i) (g_core g))\<rparr>"
  have f: "finish_close_tab e i g = upd_win (drop_view (ge_stack e) (g_store g1) i) g1"
    using True ids ne ts(6) by (simp add: finish_close_tab_def g1_def del: id_empty_def)
  note d = drop_view_ok [OF ts(7) True, of "ge_stack e" "g_store g1"]
  have split: "ts = take i ts @ ts ! i # drop (i + 1) ts" using True len by (simp add: id_take_nth_drop)
  have "filter (\<lambda>t. t \<noteq> ts ! i) ts = without i ts"
  proof -
    have "ts ! i \<notin> set (take i ts)" "ts ! i \<notin> set (drop (i + 1) ts)"
      using ts(2) by (subst (asm) split, simp)+
    then have "filter (\<lambda>t. t \<noteq> ts ! i) (take i ts) = take i ts" "filter (\<lambda>t. t \<noteq> ts ! i) (drop (i + 1) ts) = drop (i + 1) ts"
      by (auto simp: filter_id_conv)
    then show ?thesis by (subst (2) split) (simp add: without_def)
  qed
  then have core: "core_tabs ?W (g_core g1) = Some (without i ts)"
    using remove_tab_outline [of ?W "ts ! i" "g_core g"] ts(1) by (simp add: g1_def)
  have sub: "distinct (without i ts)" "set (without i ts) \<subseteq> set ts"
    using ts(2) set_take_disj_set_drop_if_distinct [OF ts(2), of i "i + 1"] set_take_subset [of i ts] set_drop_subset [of "i + 1" ts]
    by (auto simp: without_def)
  have "shown_ids (drop_view (ge_stack e) (g_store g1) i ?w) = map (Pair ?W) (without i ts)"
  proof -
    have "shown_ids (drop_view (ge_stack e) (g_store g1) i ?w) = without i (shown_ids ?w)"
      using d by (simp add: without_def take_map drop_map)
    then show ?thesis by (simp add: ts(4) without_def take_map drop_map)
  qed
  then have "mirrors_engine (upd_win (drop_view (ge_stack e) (g_store g1) i) g1)"
    using d core sub ts(3,5,6) by (auto simp: mirrors_engine_def upd_win_def g1_def Let_def simp del: id_empty_def)
  moreover have "mw_connected (g_win g)" using assms by (simp add: gui_at_def)
  ultimately show ?thesis using d unfolding f gui_at_def by (simp add: upd_win_def g1_def)
qed

lemma close_keep_ok:
  assumes "gui_ok g" "(p, Note_Gui v) \<in> set (mw_tabs (g_win g))"
  shows "gui_ok (snd (close_keep_note e mt i p v g))"
proof (cases "has_path (g_store g) v")
  case False
  then show ?thesis using assms by (simp add: close_keep_note_def)
next
  case True
  obtain r d u where s: "save_now (ge_fault e) mt (note_path (g_store g) (nv_id v)) (g_disk g) v = (r, d, u)"
    by (cases "save_now (ge_fault e) mt (note_path (g_store g) (nv_id v)) (g_disk g) v")
  let ?g = "upd_win (\<lambda>w. update_tab_bar (g_store g) (upd_tab p (\<lambda>_. Note_Gui u) w)) (g\<lparr>g_disk := d\<rparr>)"
  have w: "window_ok (g_win g)" using assms(1) by (simp add: gui_at_def)
  have "same_tabs (g_win g) (upd_tab p (\<lambda>_. Note_Gui u) (g_win g))"
    using note_ids_kept(2) [of "ge_fault e" mt "note_path (g_store g) (nv_id v)" "g_disk g" v] s
    by (intro upd_to_same [OF w assms(2)]) simp_all
  from same_tabs_trans [OF this update_same] this have "same_gui g ?g" by (simp add: same_gui_def upd_win_def same_tabs_def)
  from finish_close_ok [OF same_gui_ok [OF this assms(1)]] show ?thesis
    using True s by (simp add: close_keep_note_def)
qed

lemma close_tab_ok:
  assumes "gui_ok g"
  shows "gui_ok (snd (close_tab e mt i g))"
proof (cases "i < 0 \<or> int (length (mw_tabs (g_win g))) \<le> i")
  case True
  then show ?thesis using assms by (simp add: close_tab_def)
next
  case False
  then have i: "nat i < length (mw_tabs (g_win g))" by (auto simp: nat_less_iff)
  obtain p t where pt: "mw_tabs (g_win g) ! nat i = (p, t)" by (cases "mw_tabs (g_win g) ! nat i")
  have m: "(p, t) \<in> set (mw_tabs (g_win g))" by (rule nth_tab_in [OF i pt])
  note ok = finish_close_ok [OF assms] and keep = close_keep_ok [OF assms]
  show ?thesis
  proof (cases t)
    case (Terminal_Gui v)
    then show ?thesis using False pt ok by (simp add: close_tab_def)
  next
    case (Note_Gui v)
    then show ?thesis using False pt ok keep m assms by (simp add: close_tab_def split: unsaved_close.split)
  qed
qed

lemma index_of_in: "index_of p ts = Some i \<Longrightarrow> (p, snd (ts ! i)) \<in> set ts"
  using index_of_SomeD [of p ts i] nth_mem [of i ts] by (cases "ts ! i") auto

lemma close_answer_ok:
  assumes "gui_ok g"
  shows "gui_ok (snd (close_answer e mt keep p g))"
proof (cases "index_of p (mw_tabs (g_win g))")
  case None
  then show ?thesis using assms by (simp add: close_answer_def)
next
  case (Some i)
  show ?thesis
  proof (cases "snd (mw_tabs (g_win g) ! i)")
    case (Terminal_Gui v)
    then show ?thesis using Some finish_close_ok [OF assms] by (simp add: close_answer_def)
  next
    case (Note_Gui v)
    then show ?thesis
      using Some finish_close_ok [OF assms] close_keep_ok [OF assms, of p v] index_of_in [OF Some]
      by (simp add: close_answer_def)
  qed
qed

lemma close_save_as_ok:
  assumes "gui_ok g" "(p, Note_Gui v) \<in> set (mw_tabs (g_win g))"
  shows "gui_ok (close_save_as e fr ok chosen p v g)"
proof -
  obtain fin st d u where s: "save_as_response (ge_fault e) (fr_now fr) (fr_mtime fr) ok chosen (g_store g) (g_disk g) v = (fin, st, d, u)"
    by (cases "save_as_response (ge_fault e) (fr_now fr) (fr_mtime fr) ok chosen (g_store g) (g_disk g) v")
  let ?g = "upd_win (\<lambda>w. update_tab_bar st (upd_tab p (\<lambda>_. Note_Gui u) w)) (g\<lparr>g_store := st, g_disk := d\<rparr>)"
  have w: "window_ok (g_win g)" using assms(1) by (simp add: gui_at_def)
  have "same_tabs (g_win g) (upd_tab p (\<lambda>_. Note_Gui u) (g_win g))"
    using note_ids_kept(3) [of "ge_fault e" "fr_now fr" "fr_mtime fr" ok chosen "g_store g" "g_disk g" v] s
    by (intro upd_to_same [OF w assms(2)]) simp_all
  from same_tabs_trans [OF this update_same] this have "same_gui g ?g" by (simp add: same_gui_def upd_win_def same_tabs_def)
  then have g: "gui_ok ?g" using assms(1) by (rule same_gui_ok)
  show ?thesis
    using g finish_close_ok [OF g] s by (simp add: close_save_as_def Let_def split: option.split)
qed

section \<open>Operations that open and close nothing\<close>

lemma click_label_ok: assumes "gui_ok g" shows "gui_ok (click_label p g)"
proof -
  have w: "window_ok (g_win g)" "mw_connected (g_win g)" using assms by (simp_all add: gui_at_def)
  have "gui_ok (upd_win (stack_show (g_store g) q) g)" for q
    by (rule same_gui_ok [OF same_gui_win assms]) (rule show_same [OF w])
  then show ?thesis using assms by (simp add: click_label_def split: option.split)
qed

lemma set_gui_title_keeps: "gui_kind (set_gui_title s t) = gui_kind t" "gui_ids (set_gui_title s t) = gui_ids t"
  by (cases t; simp)+

lemma rename_tab_ok: assumes "gui_ok g" shows "gui_ok (rename_tab name i g)"
proof -
  have w: "window_ok (g_win g)" using assms by (simp add: gui_at_def)
  let ?f = "\<lambda>w. if name \<noteq> '''' \<and> 0 \<le> i \<and> i < int (length (mw_tabs (g_win g)))
      then upd_tab (fst (mw_tabs w ! nat i)) (set_gui_title name) w else w"
  have "same_tabs (g_win g) (upd_tab q (set_gui_title name) (g_win g))" for q
    by (rule upd_same [OF w]) (simp add: set_gui_title_keeps)
  then have s: "same_tabs (g_win g) (?f (g_win g))" using same_tabs_refl [OF w] by simp
  have "same_tabs (g_win g) (update_tab_bar (g_store g) (?f (g_win g)))"
    by (rule same_tabs_update [OF s])
  then show ?thesis unfolding rename_tab_def Let_def by (rule same_gui_ok [OF same_gui_win assms])
qed

lemma rename_window_ok: assumes "gui_ok g" shows "gui_ok (rename_window_response name g)"
proof -
  have "core_outline (snd (session_rename_workspace name (g_core g))) = core_outline (g_core g)"
    by (simp add: session_rename_workspace_def rename_workspace_outline split: option.split)
  then have "same_gui g (rename_window_response name g)"
    using assms by (simp add: same_gui_def rename_window_response_def gui_at_def same_tabs_refl)
  then show ?thesis using assms by (rule same_gui_ok)
qed

lemma add_fresh_pane_keeps: "add_fresh_pane e pid v = Returned v' \<Longrightarrow> tv_window v' = tv_window v \<and> tv_tab v' = tv_tab v"
  by (auto simp: add_fresh_pane_def then_do_Returned Let_def)

lemma split_view_keeps:
  assumes "split_view e fresh k c v = Returned (i, c', v')"
  shows "core_outline c' = core_outline c \<and> tv_window v' = tv_window v \<and> tv_tab v' = tv_tab v"
proof -
  let ?s = "split_pane fresh (tv_tab v) k (Fin (1 / 2)) c"
  obtain j c1 where s: "?s = Inr (j, c1)" using assms by (cases ?s) (auto simp: split_view_def)
  have o: "core_outline c1 = core_outline c" by (rule split_pane_outline [OF s])
  show ?thesis
  proof (cases "id_empty j")
    case True
    then show ?thesis using assms s o by (simp add: split_view_def)
  next
    case False
    then obtain u u' where u: "add_fresh_pane e j v = Returned u" "rebuild e c1 (u\<lparr>tv_active := j\<rparr>) = Returned u'"
      "c' = c1" "v' = tab_call Pane_Focus u'"
      using assms s by (auto simp: split_view_def then_do_Returned simp del: id_empty_def)
    from rebuild_keeps [OF u(2)] add_fresh_pane_keeps [OF u(1)] u(3,4) o show ?thesis by (simp add: tab_call_def)
  qed
qed

lemma gui_split_tab_ok:
  assumes "gui_ok g" "(p, Terminal_Gui v) \<in> set (mw_tabs (g_win g))" "split_tab e fresh k p v g = Returned g'"
  shows "gui_ok g'"
proof -
  obtain i c u where s: "split_view (ge_tab e) fresh k (g_core g) v = Returned (i, c, u)"
    and g': "g' = upd_win (upd_tab p (\<lambda>_. Terminal_Gui u)) (g\<lparr>g_core := c\<rparr>)"
    using assms(3) by (auto simp: split_tab_def then_do_Returned)
  have w: "window_ok (g_win g)" using assms(1) by (simp add: gui_at_def)
  have "same_tabs (g_win g) (upd_tab p (\<lambda>_. Terminal_Gui u) (g_win g))"
    using split_view_keeps [OF s] by (intro upd_to_same [OF w assms(2)]) simp_all
  then have "same_gui g g'" using split_view_keeps [OF s] by (simp add: g' same_gui_def upd_win_def)
  then show ?thesis using assms(1) by (rule same_gui_ok)
qed

lemma split_active_ok: "gui_ok g \<Longrightarrow> split_active e fresh k g = Returned g' \<Longrightarrow> gui_ok g'"
  using active_view_in [of "g_win g"]
  by (auto simp: split_active_def intro: gui_split_tab_ok split: option.splits prod.splits gui_tab.splits if_splits)

lemma split_each_ok: "gui_ok g \<Longrightarrow> split_each e p ks g = Returned g' \<Longrightarrow> gui_ok g'"
proof (induction ks arbitrary: g)
  case (Cons x ks)
  obtain fresh k where x: "x = (fresh, k)" by (cases x)
  show ?case
  proof (cases "map_of (mw_tabs (g_win g)) p")
    case None
    with Cons x show ?thesis by simp
  next
    case (Some t)
    note m = map_of_SomeD [OF Some]
    show ?thesis
    proof (cases t)
      case (Terminal_Gui v)
      show ?thesis
      proof (cases "split_throws fresh k v g")
        case True
        with Some Terminal_Gui Cons x show ?thesis by simp
      next
        case False
        with Some Terminal_Gui Cons.prems(2) x obtain h where h: "split_tab e fresh k p v g = Returned h"
          "split_each e p ks h = Returned g'" by (auto simp: then_do_Returned)
        from Cons.IH [OF gui_split_tab_ok [OF Cons.prems(1) m [unfolded Terminal_Gui] h(1)] h(2)] show ?thesis .
      qed
    next
      case (Note_Gui v)
      with Some Cons x show ?thesis by simp
    qed
  qed
qed simp

lemma custom_split_ok: "gui_ok g \<Longrightarrow> custom_split_response e rows cols freshs g = Returned g' \<Longrightarrow> gui_ok g'"
  by (auto simp: custom_split_response_def intro: split_each_ok split: option.splits if_splits)

lemma close_focused_pane_keeps:
  assumes "close_focused_pane e c v = Returned (b, c', v')"
  shows "core_outline c' = core_outline c \<and> tv_window v' = tv_window v \<and> tv_tab v' = tv_tab v"
proof (cases "case ws_current c of None \<Rightarrow> False
     | Some ws \<Rightarrow> \<exists>w \<in> set (ws_windows ws). w_id w = tv_window v \<and>
         (\<exists>t \<in> set (w_tabs w). t_id t = tv_tab v \<and> is_leaf (t_pane_tree t))")
  case True
  with assms have "c' = c" "v' = tab_call Close_Tab_Request v" unfolding close_focused_pane_def if_P [OF True] by simp_all
  then show ?thesis by (simp add: tab_call_def)
next
  case False
  let ?t = "focus_or_root v"
  obtain removed c1 where r: "remove_pane (tv_tab v) ?t c = (removed, c1)" by (cases "remove_pane (tv_tab v) ?t c")
  have o: "core_outline c1 = core_outline c" using remove_pane_outline [of "tv_tab v" ?t c] r by simp
  let ?u = "v\<lparr>tv_watcher := unregister_pane (id_str ?t) (tv_watcher v),
    tv_panes := filter (\<lambda>(k, _). k \<noteq> id_str ?t) (tv_panes v), tv_active := tv_root v\<rparr>"
  let ?w = "if term_pane (tv_root v) ?u = None then ?u\<lparr>tv_active := Id (fst (hd (tv_panes ?u)))\<rparr> else ?u"
  have root: "tv_root ?u = tv_root v" by simp
  have c: "close_focused_pane e c v =
      (if \<not> removed then Returned (False, c1, v)
       else if term_pane (tv_root v) ?u = None \<and> tv_panes ?u = [] then Returned (False, c1, ?u)
       else then_do (rebuild e c1 ?w) (\<lambda>v. Returned (True, c1, v)))"
    unfolding close_focused_pane_def if_not_P [OF False] Let_def r
    by (cases removed; simp only: root prod.case bool.case not_True_eq_False not_False_eq_True if_True if_False)
  have w: "tv_window ?w = tv_window v" "tv_tab ?w = tv_tab v" by simp_all
  show ?thesis
  proof (cases "\<not> removed \<or> term_pane (tv_root v) ?u = None \<and> tv_panes ?u = []")
    case True
    then have "c' = c1" "v' = v \<or> v' = ?u" using assms unfolding c by (auto split: if_splits)
    then show ?thesis using o by auto
  next
    case False
    note f = conjunct1 [OF iffD1 [OF de_Morgan_disj False]] conjunct2 [OF iffD1 [OF de_Morgan_disj False]]
    have "then_do (rebuild e c1 ?w) (\<lambda>v. Returned (True, c1, v)) = Returned (b, c', v')"
      using assms unfolding c if_not_P [OF f(1)] if_not_P [OF f(2)] .
    then obtain z where z: "rebuild e c1 ?w = Returned z" "Returned (True, c1, z) = Returned (b, c', v')"
      unfolding then_do_Returned by (elim exE conjE)
    from z(2) have u: "v' = z" "c' = c1" by simp_all
    from rebuild_keeps [OF z(1)] show ?thesis unfolding u w using o by (elim conjE) (intro conjI)
  qed
qed

lemma close_active_pane_ok:
  assumes "gui_ok g" "close_active_pane e mt g = Returned (r, g')"
  shows "gui_ok g'"
proof (cases "\<exists>p v. active_view (g_win g) = Some (p, Terminal_Gui v)")
  case False
  then have "close_active_pane e mt g = Returned (Close_Done, g)"
    by (auto simp: close_active_pane_def split: option.split gui_tab.split)
  with assms show ?thesis by simp
next
  case True
  then obtain p v where a: "active_view (g_win g) = Some (p, Terminal_Gui v)" by blast
  note m = active_view_in [OF a]
  obtain b c u where s: "close_focused_pane (ge_tab e) (g_core g) v = Returned (b, c, u)"
    using assms(2) a by (auto simp: close_active_pane_def then_do_Returned)
  let ?g = "upd_win (upd_tab p (\<lambda>_. Terminal_Gui u)) (g\<lparr>g_core := c\<rparr>)"
  have w: "window_ok (g_win g)" using assms(1) by (simp add: gui_at_def)
  have "same_tabs (g_win g) (upd_tab p (\<lambda>_. Terminal_Gui u) (g_win g))"
    using close_focused_pane_keeps [OF s] by (intro upd_to_same [OF w m]) simp_all
  then have "same_gui g ?g" using close_focused_pane_keeps [OF s] by (simp add: same_gui_def upd_win_def)
  then have ok: "gui_ok ?g" using assms(1) by (rule same_gui_ok)
  have "g' = ?g \<or> (\<exists>i. g' = snd (close_tab e mt (int i) ?g))"
    using assms(2) a s by (auto simp: close_active_pane_def Let_def split: if_splits option.splits)
      (metis snd_conv)+
  then show ?thesis using ok close_tab_ok [OF ok] by auto
qed

section \<open>Checkpoints\<close>

lemma capture_pane_keeps:
  "core_outline (fst (capture_pane e ce p k x)) = core_outline (fst x) \<and>
   tv_window (snd (capture_pane e ce p k x)) = tv_window (snd x) \<and> tv_tab (snd (capture_pane e ce p k x)) = tv_tab (snd x)"
  by (auto simp: capture_pane_def apply_runtime_outline split: prod.splits option.splits)

lemma capture_panes_keep:
  "core_outline (fst (fold (capture_pane e ce p) ks x)) = core_outline (fst x) \<and>
   tv_window (snd (fold (capture_pane e ce p) ks x)) = tv_window (snd x) \<and>
   tv_tab (snd (fold (capture_pane e ce p) ks x)) = tv_tab (snd x)"
  by (induction ks arbitrary: x) (simp_all add: capture_pane_keeps)

lemma capture_terminal_keeps:
  assumes "window_ok (snd x)"
  shows "core_outline (fst (capture_terminal e ce p x)) = core_outline (fst x) \<and>
    same_tabs (snd x) (snd (capture_terminal e ce p x))"
proof -
  obtain c w where x: "x = (c, w)" by (cases x)
  show ?thesis
  proof (cases "\<exists>v. map_of (mw_tabs w) p = Some (Terminal_Gui v)")
    case False
    then have "capture_terminal e ce p x = x"
      by (auto simp: capture_terminal_def x split: option.split gui_tab.split)
    then show ?thesis using assms by (simp add: same_tabs_refl)
  next
    case True
    then obtain v where v: "map_of (mw_tabs w) p = Some (Terminal_Gui v)" by blast
    obtain c' v' where f: "fold (capture_pane e ce p) (map fst (tv_panes v)) (c, v) = (c', v')"
      by (cases "fold (capture_pane e ce p) (map fst (tv_panes v)) (c, v)")
    have "capture_terminal e ce p x = (c', upd_tab p (\<lambda>_. Terminal_Gui v') w)"
      by (simp add: capture_terminal_def x v f)
    moreover have "same_tabs w (upd_tab p (\<lambda>_. Terminal_Gui v') w)"
      using capture_panes_keep [of e ce p "map fst (tv_panes v)" "(c, v)"] f assms x map_of_SomeD [OF v]
      by (intro upd_to_same [of w p "Terminal_Gui v"]) simp_all
    ultimately show ?thesis using capture_panes_keep [of e ce p "map fst (tv_panes v)" "(c, v)"] f x by simp
  qed
qed

lemma capture_terminals_keep:
  assumes "window_ok (snd x)"
  shows "core_outline (fst (fold (capture_terminal e ce) ps x)) = core_outline (fst x) \<and>
    same_tabs (snd x) (snd (fold (capture_terminal e ce) ps x))"
  using assms
proof (induction ps arbitrary: x)
  case Nil
  then show ?case by (simp add: same_tabs_refl)
next
  case (Cons p ps)
  note k = capture_terminal_keeps [OF Cons.prems, of e ce p]
  then have "window_ok (snd (capture_terminal e ce p x))" by (simp add: same_tabs_def)
  from Cons.IH [OF this] k same_tabs_trans show ?case by (auto simp: same_tabs_def)
qed

lemma set_core_title_outline: "core_outline (set_core_title w t title c) = core_outline c"
  by (auto simp: set_core_title_def core_outline_def window_outline_def split: option.split)

lemma capture_note_outline: "core_outline (capture_note e ce st p v c) = core_outline c"
  by (simp add: capture_note_def set_core_title_outline set_tab_note_state_outline)

lemma capture_window_outline: "core_outline (capture_window ce w c) = core_outline c"
proof -
  have "window_outline (capture_geometry ce w x) = window_outline x" for x
    by (auto simp: capture_geometry_def window_outline_def Let_def split: option.split gui_tab.split)
  then show ?thesis
    by (auto simp: capture_window_def core_outline_def Let_def split: option.split)
qed

lemma capture_runtime_same:
  assumes "window_ok (g_win g)"
  shows "same_gui g (capture_runtime e ce g)"
proof (cases "ws_current (g_core g) = None")
  case True
  then show ?thesis using assms by (simp add: capture_runtime_def same_gui_refl)
next
  case False
  obtain c w where f: "fold (capture_terminal e ce) (mw_term_tabs (g_win g)) (g_core g, g_win g) = (c, w)"
    by (cases "fold (capture_terminal e ce) (mw_term_tabs (g_win g)) (g_core g, g_win g)")
  have k: "core_outline c = core_outline (g_core g)" "same_tabs (g_win g) w"
    using capture_terminals_keep [of "(g_core g, g_win g)" e ce "mw_term_tabs (g_win g)"] f assms by simp_all
  have n: "core_outline (fold (\<lambda>p c. case map_of (mw_tabs w) p of
      Some (Note_Gui v) \<Rightarrow> capture_note e ce (g_store g) p v c | _ \<Rightarrow> c) ps d) = core_outline d" for ps d
    by (induction ps arbitrary: d) (auto simp: capture_note_outline split: option.split gui_tab.split)
  show ?thesis using False k same_tabs_refl [OF assms]
    by (simp add: capture_runtime_def f same_gui_def capture_window_outline n)
qed

lemma capture_runtime_ok: "gui_ok g \<Longrightarrow> gui_ok (capture_runtime e ce g)"
  using capture_runtime_same [of g e ce] same_gui_ok gui_at_def by blast

lemma delete_other_ok:
  assumes "gui_ok g" "i \<noteq> mw_window (g_win g)" "delete_answer S ok ws (Inl i) (g_core g, s) = (c, s')"
  shows "gui_ok (g\<lparr>g_core := c\<rparr>)"
proof (cases "ok \<and> ws_current (g_core g) \<noteq> None")
  case True
  then have c: "core_tabs (mw_window (g_win g)) c = core_tabs (mw_window (g_win g)) (g_core g)"
    using assms(2,3) core_outline_remove_window [of "g_core g" "mw_window (g_win g)" i] by (auto simp: delete_answer_def)
  show ?thesis using assms(1) by (simp add: gui_at_def mirrors_engine_def c Let_def)
next
  case False
  then have "c = g_core g" using assms(3) by (auto simp: delete_answer_def remove_window_def split: if_splits)
  then show ?thesis using assms(1) by (simp add: gui_at_def mirrors_engine_def Let_def)
qed

text \<open>The row of the window on the screen has the item Delete as well; what it shows is then in no window of the engine.\<close>

theorem delete_shown_breaks:
  assumes "ws_current (g_core g) \<noteq> None"
    "delete_answer S True ws (Inl (mw_window (g_win g))) (g_core g, s) = (c, s')"
  shows "\<not> mirrors_engine (g\<lparr>g_core := c\<rparr>)"
  using assms(2) core_outline_remove_window [OF assms(1), of "mw_window (g_win g)" "mw_window (g_win g)"]
  by (auto simp: delete_answer_def mirrors_engine_def Let_def)

section \<open>The life of a window\<close>

text \<open>
  The handlers that touch the tabs, the engine's windows and the page shown.  In the list of windows any window but the
  one on the screen may be deleted (see \<open>delete_shown_breaks\<close>).
\<close>

inductive gui_step :: "gui_env \<Rightarrow> 's gui \<Rightarrow> 's gui \<Rightarrow> bool" for e where
  New_Terminal: "fresh_ids fr (g_core g) \<Longrightarrow> window_new_terminal e fr g = Returned g' \<Longrightarrow> gui_step e g g'"
| New_Note: "fresh_ids fr (g_core g) \<Longrightarrow> window_new_note e fr g = Returned g' \<Longrightarrow> gui_step e g g'"
| Open_File: "fresh_ids fr (g_core g) \<Longrightarrow> open_note_from_path e fr path g = Returned (asks, g') \<Longrightarrow> gui_step e g g'"
| Close_Tab: "close_tab e mt i g = (r, g') \<Longrightarrow> gui_step e g g'"
| Close_Answer: "close_answer e mt keep p g = (r, g') \<Longrightarrow> gui_step e g g'"
| Close_Save_As: "(p, Note_Gui v) \<in> set (mw_tabs (g_win g)) \<Longrightarrow> gui_step e g (close_save_as e fr ok chosen p v g)"
| Click_Label: "gui_step e g (click_label p g)"
| Rename_Tab: "gui_step e g (rename_tab name i g)"
| Rename_Window: "gui_step e g (rename_window_response name g)"
| Split_Active: "split_active e pane k g = Returned g' \<Longrightarrow> gui_step e g g'"
| Custom_Split: "custom_split_response e rows cols panes g = Returned g' \<Longrightarrow> gui_step e g g'"
| Close_Pane: "close_active_pane e mt g = Returned (r, g') \<Longrightarrow> gui_step e g g'"
| Capture: "gui_step e g (capture_runtime e ce g)"
| Delete_Other: "i \<noteq> mw_window (g_win g) \<Longrightarrow> g_store g = Some (S, s) \<Longrightarrow> delete_answer S ok ws (Inl i) (g_core g, s) = (c, s') \<Longrightarrow>
     gui_step e g (g\<lparr>g_core := c\<rparr>)"

inductive_cases gui_stepE: "gui_step e g g'"

lemma gui_step_ok: "gui_step e g g' \<Longrightarrow> gui_ok g \<Longrightarrow> gui_ok g'"
proof (induction rule: gui_step.induct)
  case (Close_Tab mt i g r g')
  then show ?case using close_tab_ok [of g e mt i] by simp
next
  case (Close_Answer mt keep p g r g')
  then show ?case using close_answer_ok [of g e mt keep p] by simp
qed (auto intro: window_new_terminal_ok window_new_note_ok open_note_from_path_ok close_save_as_ok click_label_ok
  rename_tab_ok rename_window_ok split_active_ok custom_split_ok close_active_pane_ok capture_runtime_ok delete_other_ok)

lemma gui_steps_ok: "(gui_step e)\<^sup>*\<^sup>* g g' \<Longrightarrow> gui_ok g \<Longrightarrow> gui_ok g'"
  by (induction rule: rtranclp_induct) (auto intro: gui_step_ok)

end
