(* ===== verification/Window_Life.thy ===== *)
theory Window_Life
  imports Window_Invariant
begin

text \<open>
  How a window comes to be: a saved one is restored tab by tab, and one with nothing saved starts with a
  terminal.  From there on the steps of the user keep the window consistent and in agreement with the
  engine.
\<close>

section \<open>Restoring\<close>

text \<open>A note tab is restored when it was saved with a document.\<close>

fun restorable :: "tab \<Rightarrow> bool" where
  "restorable t \<longleftrightarrow> t_kind t = Terminal \<or> (case t_note_state t of Some s \<Rightarrow> nt_document_id s \<noteq> '''' | None \<Rightarrow> False)"

declare restorable.simps [simp del]

text \<open>In the middle of restoring.\<close>

definition restoring :: "window_id \<Rightarrow> tab_id list \<Rightarrow> main_window \<Rightarrow> bool" where
  "restoring i ts w \<longleftrightarrow> tabs_ok w \<and> bar_prefix w \<and> mw_stack w = pages w \<and> mw_window w = i \<and> shown_ids w = map (Pair i) ts \<and>
     \<not> mw_connected w"

lemma restoring_push:
  assumes "restoring i ts w" "gui_ids t = (i, x)"
  shows "restoring i (ts @ [x]) (push_view sb st t w)"
  using push_view_frame [of w sb st t] assms by (simp add: restoring_def Let_def)

lemma add_restored_pane_keeps:
  "add_restored_pane e p v = Returned v' \<Longrightarrow> tv_window v' = tv_window v \<and> tv_tab v' = tv_tab v"
  by (auto simp: add_restored_pane_def then_do_Returned Let_def add_controllers_def mark_pane_def tab_call_def
      split: option.splits if_splits)

lemma build_and_restore_keeps:
  "build_and_restore e t v = Returned (x, v') \<Longrightarrow> tv_window v' = tv_window v \<and> tv_tab v' = tv_tab v"
proof (induction t arbitrary: v x v')
  case (Leaf p)
  then show ?case by (cases p) (auto simp: then_do_Returned dest: add_restored_pane_keeps)
next
  case (Split k a b r)
  then show ?case by (fastforce simp: then_do_Returned)
qed

lemma restore_pane_tree_keeps:
  assumes "restore_pane_tree e t v = Returned v'"
  shows "tv_window v' = tv_window v \<and> tv_tab v' = tv_tab v"
proof -
  obtain x u where "build_and_restore e t (v\<lparr>tv_panes := [], tv_controllers := [], tv_active := empty_id, tv_tree := None\<rparr>) = Returned (x, u)"
    "v' = u\<lparr>tv_tree := Some x\<rparr>"
    using assms by (auto simp: restore_pane_tree_def then_do_Returned)
  with build_and_restore_keeps [OF this(1)] show ?thesis by simp
qed

lemma restored_note_ids: "gui_ids (Note_Gui (restored_note e w t s g)) = (w, t_id t)"
  by (simp add: restored_note_def restore_state_def set_modified_def editor_set_text_def call_def dirty_check_def Let_def)

lemma restore_tab_step:
  assumes "restorable t" "restoring i ts (g_win g)" "restore_tab e i t g = Returned g'"
  shows "restoring i (ts @ [t_id t]) (g_win g') \<and> g_core g' = g_core g \<and> g_session g' = g_session g"
proof (cases "t_kind t")
  case Terminal
  then obtain v where v: "restore_pane_tree (ge_tab e) (t_pane_tree t) (new_term_view (ge_tab e) (ge_shell e) i (t_id t) empty_id) = Returned v"
    and g': "g' = upd_win (push_view (ge_stack e) (g_store g) (Terminal_Gui v)) g"
    using assms(3) by (auto simp: restore_tab_def then_do_Returned)
  have "gui_ids (Terminal_Gui v) = (i, t_id t)"
    using restore_pane_tree_keeps [OF v] by (simp add: new_term_view_def)
  from restoring_push [OF assms(2) this] show ?thesis by (simp add: g' upd_win_def)
next
  case Note
  then obtain s where s: "t_note_state t = Some s" "nt_document_id s \<noteq> ''''"
    using assms(1) by (auto simp: restorable.simps split: option.splits)
  have g': "g' = upd_win (push_view (ge_stack e) (g_store g) (Note_Gui (restored_note e i t s g))) g"
    using assms(3) Note s by (simp add: restore_tab_def)
  from restoring_push [OF assms(2) restored_note_ids] show ?thesis by (simp add: g' upd_win_def)
qed

lemma restore_tabs_all:
  assumes "\<forall>t \<in> set tabs. restorable t" "restoring i ts (g_win g)" "restore_tabs e i tabs g = Returned g'"
  shows "restoring i (ts @ map t_id tabs) (g_win g') \<and> g_core g' = g_core g \<and> g_session g' = g_session g"
  using assms
proof (induction tabs arbitrary: g ts)
  case (Cons t tabs)
  from Cons.prems(3) obtain h where h: "restore_tab e i t g = Returned h" "restore_tabs e i tabs h = Returned g'"
    by (auto simp: then_do_Returned)
  have r: "restoring i (ts @ [t_id t]) (g_win h) \<and> g_core h = g_core g \<and> g_session h = g_session g"
    by (rule restore_tab_step [OF _ Cons.prems(2) h(1)]) (use Cons.prems(1) in simp)
  with Cons.IH [OF _ _ h(2), of "ts @ [t_id t]"] Cons.prems(1) show ?case by simp
qed simp

text \<open>A window that lacks only its labels.\<close>

definition window_pre :: "main_window \<Rightarrow> bool" where
  "window_pre w \<longleftrightarrow> tabs_ok w \<and> bar_pre w \<and> mw_stack w = pages w \<and>
     (if mw_tabs w = [] then mw_active w = - 1 \<and> mw_visible w = None
      else 0 \<le> mw_active w \<and> mw_active w < int (length (mw_tabs w)) \<and>
           mw_visible w = Some (ptrs w ! nat (mw_active w)))"

lemma window_pre_update: assumes "window_pre w" shows "same_tabs (w\<lparr>mw_bar := b\<rparr>) (update_tab_bar st w)"
proof -
  note k = keeps_update [of w st]
  have "bar_pre w" using assms by (simp add: window_pre_def)
  from update_tab_bar_ptrs [OF this, of st] keeps_tabs_ok [OF k] keeps_pages [OF k] assms
  show ?thesis by (simp add: same_tabs_def window_ok_def window_pre_def)
qed

lemma window_pre_upd:
  assumes "window_pre w" "\<And>t. gui_kind (f t) = gui_kind t \<and> gui_ids (f t) = gui_ids t"
  shows "window_pre (upd_tab p f w) \<and> shown_ids (upd_tab p f w) = shown_ids w \<and> mw_window (upd_tab p f w) = mw_window w \<and>
    mw_connected (upd_tab p f w) = mw_connected w"
proof -
  let ?b = "map (\<lambda>p. (p, '''', False)) (ptrs w)"
  let ?v = "w\<lparr>mw_bar := ?b\<rparr>"
  have v: "window_ok ?v"
    using assms(1) by (simp add: window_pre_def window_ok_def tabs_ok_def pages_def comp_def)
  have s: "same_tabs ?v (upd_tab p f ?v)" by (rule upd_same [OF v]) (rule assms(2))
  define u where "u = upd_tab p f ?v"
  have e: "upd_tab p f w = u\<lparr>mw_bar := mw_bar w\<rparr>" by (simp add: upd_tab_def u_def)
  have f: "ptrs u = ptrs w" "shown_ids u = shown_ids w" "mw_window u = mw_window w" "window_ok u" "mw_connected u = mw_connected w"
    using s [folded u_def] by (simp_all add: same_tabs_def)
  have "length (mw_tabs u) = length (mw_tabs w)" by (simp add: upd_tab_def u_def)
  then have "bar_pre (u\<lparr>mw_bar := mw_bar w\<rparr>)" using assms(1) f(1) by (simp add: window_pre_def bar_pre_def)
  moreover have "tabs_ok (u\<lparr>mw_bar := mw_bar w\<rparr>) = tabs_ok u" "pages (u\<lparr>mw_bar := mw_bar w\<rparr>) = pages u"
    by (simp_all add: tabs_ok_def pages_def)
  ultimately show ?thesis
    using f unfolding e by (simp add: window_pre_def window_ok_def)
qed

lemma window_pre_shown:
  assumes "tabs_ok w" "bar_pre w" "mw_stack w = pages w" "i < length (mw_tabs w)" "mw_active w = int i"
  shows "window_pre (stack_show st (fst (mw_tabs w ! i)) w)"
proof -
  let ?u = "stack_show st (fst (mw_tabs w ! i)) w"
  have k: "keeps w ?u" by (rule keeps_stack)
  have d: "distinct (ptrs w)" using assms(1) by (simp add: tabs_ok_def)
  have s: "mw_visible ?u = Some (fst (mw_tabs w ! i))" "mw_active ?u = int i"
    using stack_show_at [OF d assms(4,5), of st] pages_in [OF assms(4)] assms(3) by simp_all
  have t: "mw_tabs ?u = mw_tabs w" "bar_pre ?u" using k assms(2) by (simp_all add: keeps_def)
  have "mw_tabs w \<noteq> []" using assms(4) by auto
  then show ?thesis
    using s t assms(1,3,4) keeps_tabs_ok [OF k] keeps_pages [OF k] by (simp add: window_pre_def)
qed

lemma activate_restored_ok:
  assumes "restoring i ts (g_win g)" "ts \<noteq> []"
  shows "window_ok (g_win (activate_restored e x g)) \<and> shown_ids (g_win (activate_restored e x g)) = map (Pair i) ts \<and>
    mw_window (g_win (activate_restored e x g)) = i \<and> g_core (activate_restored e x g) = g_core g \<and>
    g_session (activate_restored e x g) = g_session g \<and> \<not> mw_connected (g_win (activate_restored e x g))"
proof -
  let ?w = "g_win g"
  have w: "tabs_ok ?w" "bar_pre ?w" "mw_stack ?w = pages ?w" "mw_window ?w = i" "shown_ids ?w = map (Pair i) ts" "\<not> mw_connected ?w"
    using assms(1) bar_prefix_pre by (simp_all add: restoring_def)
  have ne: "mw_tabs ?w \<noteq> []" using w(5) assms(2) by auto
  let ?n = "restored_focus x (length (mw_tabs ?w))"
  have n: "?n < length (mw_tabs ?w)" using ne by (simp add: restored_focus_def Let_def split: option.split)
  let ?a = "?w\<lparr>mw_active := int ?n\<rparr>"
  let ?u = "stack_show (g_store g) (fst (mw_tabs ?w ! ?n)) ?a"
  have u: "window_pre ?u"
    using window_pre_shown [of ?a ?n "g_store g"] w n by (simp add: tabs_ok_def bar_pre_def pages_def)
  have k: "keeps ?w ?u" by (rule keeps_trans [OF keeps_upd(1) keeps_stack(1)])
  define f where "f = (\<lambda>q t. case t of Terminal_Gui v \<Rightarrow> Terminal_Gui (activate_pane q v) | Note_Gui v \<Rightarrow> Note_Gui v)"
  have f: "gui_kind (f q t) = gui_kind t \<and> gui_ids (f q t) = gui_ids t" for q t
    by (cases t) (simp_all add: f_def activate_pane_def)
  define v where "v = (if 0 \<le> mw_active ?u \<and> mw_active ?u < int (length (mw_term_tabs ?u))
      then (case w_focus_pane_id x of Some q \<Rightarrow> upd_tab (mw_term_tabs ?u ! nat (mw_active ?u)) (f q) ?u | None \<Rightarrow> ?u) else ?u)"
  have v: "window_pre v \<and> shown_ids v = shown_ids ?w \<and> mw_window v = i \<and> \<not> mw_connected v"
    using window_pre_upd [OF u f] u k w(4,6) unfolding v_def by (simp add: keeps_def split: option.split)
  have a: "activate_restored e x g = g\<lparr>g_win := update_tab_bar (g_store g) v\<rparr>"
    unfolding activate_restored_def Let_def if_not_P [OF ne] v_def f_def by (rule refl)
  from window_pre_update [of v "[]" "g_store g"] v w(5) show ?thesis by (simp add: a same_tabs_def)
qed

section \<open>Opening\<close>

lemma window_ok_empty: "window_ok (new_main_window\<lparr>mw_window := i\<rparr>)"
  by (simp add: window_ok_def tabs_ok_def pages_def new_main_window_def)

lemma core_tabs_unique:
  assumes "ws_current c = Some ws" "distinct (map w_id (ws_windows ws))" "x \<in> set (ws_windows ws)"
  shows "core_tabs (w_id x) c = Some (map t_id (w_tabs x))"
proof -
  have e: "map fst (map window_outline (ws_windows ws)) = map w_id (ws_windows ws)" by (simp add: window_outline_def)
  have "distinct (map fst (map window_outline (ws_windows ws)))" unfolding e by (rule assms(2))
  moreover have "(w_id x, map t_id (w_tabs x)) \<in> set (map window_outline (ws_windows ws))"
    using assms(3) by (auto simp: window_outline_def)
  ultimately show ?thesis by (simp add: core_tabs_def core_outline_def assms(1))
qed

text \<open>The first tab of a window that the engine is asked to make.\<close>

lemma first_terminal_ok:
  assumes "g_win g = new_main_window\<lparr>mw_window := i\<rparr>" "ws_current (g_core g) = Some ws" "ws_windows ws = []"
    "fresh_ids fr (g_core g)" "window_new_terminal e fr g = Returned g'"
  shows "gui_at False g'"
proof -
  let ?l = "default_window_label (Some ws)"
  have en: "ensure_window (fr_now fr) (fr_window fr) (g_session g, g_core g) =
      (case add_window (fr_now fr) (fr_window fr) ?l (g_core g) of
         Inr (i, c) \<Rightarrow> (i, (g_session g)\<lparr>current_window := i\<rparr>, c)
       | Inl _ \<Rightarrow> (empty_id, (g_session g)\<lparr>current_window := empty_id\<rparr>, g_core g))"
    using assms(2,3) by (simp add: ensure_window_def Let_def split: option.split)
  obtain c where c: "add_window (fr_now fr) (fr_window fr) ?l (g_core g) = Inr (fr_window fr, c)"
    and cc: "core_tabs (fr_window fr) c = Some []"
    using assms(2,3)
    by (simp add: add_window_def Let_def core_tabs_def window_outline_def Window_create_def empty_window_def)
  define h where "h = g\<lparr>g_session := (g_session g)\<lparr>current_window := fr_window fr\<rparr>, g_core := c,
    g_win := new_main_window\<lparr>mw_window := fr_window fr\<rparr>\<rparr>"
  have fr: "\<not> id_empty (fr_window fr)" "\<not> id_empty (fr_tab fr)" using assms(4) by (simp_all add: fresh_ids_def)
  have ok: "gui_at False h"
    using window_ok_empty cc fr(1) by (simp add: gui_at_def mirrors_engine_def h_def new_main_window_def del: id_empty_def)
  have same: "new_terminal_tab (fr_now fr) (fr_window fr) (fr_tab fr) (fr_pane fr) ''terminal'' (g_session h, g_core h) =
      new_terminal_tab (fr_now fr) (fr_window fr) (fr_tab fr) (fr_pane fr) ''terminal'' (g_session g, g_core g)"
    using ensure_window_current [of "g_session h" "g_core h" "[]" "fr_now fr" "fr_window fr"] en c cc fr(1)
    by (simp add: new_terminal_tab_def h_def del: id_empty_def)
  let ?new = "new_terminal_tab (fr_now fr) (fr_window fr) (fr_tab fr) (fr_pane fr) ''terminal'' (g_session g, g_core g)"
  obtain info ses d where n: "?new = Inr (info, ses, d)"
    using assms(5) by (cases ?new) (auto simp: window_new_terminal_def)
  have i: "ses = g_session h" "tt_window info = fr_window fr" "tt_tab info = fr_tab fr" "core_tabs (fr_window fr) d = Some [fr_tab fr]"
    using new_terminal_tab_outline [OF n [folded same], of "[]"] cc fr(1) by (simp_all add: h_def del: id_empty_def)
  have ne: "\<not> id_empty (tt_tab info)" using fr(2) i(3) by simp
  obtain v where v: "rebuild (ge_tab e) d (new_term_view (ge_tab e) (ge_shell e) (tt_window info) (tt_tab info) (tt_root_pane info)) = Returned v"
    and g': "g' = upd_win (\<lambda>w. add_view (ge_stack e) (g_store g) (Terminal_Gui v) (w\<lparr>mw_window := tt_window info\<rparr>)) (g\<lparr>g_session := ses, g_core := d\<rparr>)"
    using assms(5) n ne by (auto simp: window_new_terminal_def Let_def then_do_Returned)
  have ids: "gui_ids (Terminal_Gui v) = (fr_window fr, fr_tab fr)"
    using rebuild_keeps [OF v] i by (simp add: new_term_view_def)
  have "g' = upd_win (add_view (ge_stack e) (g_store g) (Terminal_Gui v)) (h\<lparr>g_core := d\<rparr>)"
    by (simp add: g' upd_win_def i(1,2) h_def assms(1))
  from add_view_gui_ok [OF ok _ _ _ _ _ this, of "[]" "fr_tab fr"] i(4) cc fr ids show ?thesis by (simp add: h_def)
qed

text \<open>
  What a window can be opened on: windows and tabs with identifiers of their own that are not empty, and note tabs
  with their documents.  Reading a saved workspace back keeps this.
\<close>

definition saved_ok :: "workspace \<Rightarrow> bool" where
  "saved_ok ws \<longleftrightarrow> distinct (map w_id (ws_windows ws)) \<and> distinct (map t_id (all_tabs ws)) \<and>
     (\<forall>x \<in> set (ws_windows ws). \<not> id_empty (w_id x) \<and>
     (\<forall>t \<in> set (w_tabs x). \<not> id_empty (t_id t) \<and> restorable t))"

lemma shown_window_in: "ws_windows ws \<noteq> [] \<Longrightarrow> shown_window ws \<in> set (ws_windows ws)"
  by (auto simp: shown_window_def find_Some_iff split: option.split)

lemma open_window_starts:
  assumes "ws_current (g_core g) = Some ws" "saved_ok ws" "fresh_ids fr (g_core g)"
    "restore_workspace e (g\<lparr>g_win := new_main_window\<rparr>) = Returned h"
    "(if mw_tabs (g_win h) = [] then window_new_terminal e fr h else Returned h) = Returned z"
  shows "gui_at False z"
proof -
  let ?g = "g\<lparr>g_win := new_main_window\<rparr>"
  note h = assms(4) and g' = assms(5)
  show ?thesis
  proof (cases "\<not> persist_open_windows (g_store g)")
    case True
    then have e: "h = upd_win (\<lambda>w. w\<lparr>mw_window := empty_id\<rparr>)
        (?g\<lparr>g_core := (g_core g)\<lparr>ws_current := Some (ws\<lparr>ws_windows := [], ws_focus_window_id := None\<rparr>)\<rparr>\<rparr>)"
      using h assms(1) by (simp add: restore_workspace_def)
    have fr: "fresh_ids fr (g_core h)" using assms(3) by (simp add: fresh_ids_def e upd_win_def core_all_tabs_def all_tabs_def)
    show ?thesis
      by (rule first_terminal_ok [of h empty_id "ws\<lparr>ws_windows := [], ws_focus_window_id := None\<rparr>" fr e])
        (use fr g' in \<open>simp_all add: e upd_win_def new_main_window_def\<close>)
  next
    case False
    show ?thesis
    proof (cases "ws_windows ws = []")
      case True
      then have e: "h = ?g" using h assms(1) False by (simp add: restore_workspace_def)
      show ?thesis
        by (rule first_terminal_ok [of h empty_id ws fr e]) (use assms(1,3) True g' in \<open>simp_all add: e new_main_window_def\<close>)
    next
      case ne: False
      let ?x = "shown_window ws"
      let ?i = "w_id ?x"
      note x = shown_window_in [OF ne]
      have wf: "distinct (map w_id (ws_windows ws))" "distinct (map t_id (all_tabs ws))"
        using assms(2) by (simp_all add: saved_ok_def)
      have dt: "distinct (map t_id (w_tabs ?x))"
        using wf(2) x unfolding all_tabs_def map_concat by (auto simp: distinct_concat_iff)
      have s: "\<not> id_empty ?i" "\<forall>t \<in> set (w_tabs ?x). \<not> id_empty (t_id t) \<and> restorable t"
        using assms(2) x by (simp_all add: saved_ok_def)
      note ct = core_tabs_unique [OF assms(1) wf(1) x]
      let ?g1 = "upd_win (\<lambda>w. w\<lparr>mw_window := ?i\<rparr>) (?g\<lparr>g_session := (g_session g)\<lparr>current_window := ?i\<rparr>\<rparr>)"
      have ok1: "gui_at False ?g1" if "w_tabs ?x = []"
        using window_ok_empty [of ?i] ct s(1) that
        by (simp add: gui_at_def mirrors_engine_def upd_win_def new_main_window_def del: id_empty_def)
      show ?thesis
      proof (cases "w_tabs ?x = []")
        case True
        then have e: "h = ?g1" using h assms(1) False ne by (simp add: restore_workspace_def Let_def)
        then have "window_new_terminal e fr h = Returned z" using g' by (simp add: upd_win_def new_main_window_def)
        moreover have "gui_at False h" unfolding e by (rule ok1 [OF True])
        moreover have "fresh_ids fr (g_core h)" using assms(3) unfolding e by (simp add: upd_win_def)
        ultimately show ?thesis using window_new_terminal_ok by blast
      next
        case tabs: False
        then obtain k where k: "restore_tabs e ?i (w_tabs ?x) ?g1 = Returned k" "h = activate_restored e ?x k"
          using h assms(1) False ne by (auto simp: restore_workspace_def Let_def then_do_Returned)
        have "restoring ?i [] (g_win ?g1)"
          by (simp add: restoring_def tabs_ok_def bar_prefix_def pages_def upd_win_def new_main_window_def)
        from restore_tabs_all [OF _ this k(1)] s(2)
        have r: "restoring ?i (map t_id (w_tabs ?x)) (g_win k)" "g_core k = g_core g"
          "g_session k = (g_session g)\<lparr>current_window := ?i\<rparr>" by (simp_all add: upd_win_def)
        note a = activate_restored_ok [OF r(1), of e ?x]
        then have a: "window_ok (g_win h)" "shown_ids (g_win h) = map (Pair ?i) (map t_id (w_tabs ?x))" "mw_window (g_win h) = ?i"
          "g_core h = g_core g" "g_session h = (g_session g)\<lparr>current_window := ?i\<rparr>" "\<not> mw_connected (g_win h)"
          using tabs unfolding r(2,3) k(2) [symmetric] by simp_all
        have "\<forall>t \<in> set (map t_id (w_tabs ?x)). \<not> id_empty t" using s(2) by (simp del: id_empty_def)
        then have "mirrors_engine h"
          unfolding mirrors_engine_def Let_def a(2-5) ct option.case using s(1) dt by (simp del: id_empty_def)
        with a(1,6) have "gui_at False h" by (simp add: gui_at_def)
        moreover have "mw_tabs (g_win h) \<noteq> []" using a(2) tabs by auto
        ultimately show ?thesis using g' by simp
      qed
    qed
  qed
qed

lemma open_window_ok:
  assumes "ws_current (g_core g) = Some ws" "saved_ok ws" "fresh_ids fr (g_core g)"
    "open_window e fr g = Returned g'"
  shows "gui_ok g'"
proof -
  obtain h z where h: "restore_workspace e (g\<lparr>g_win := new_main_window\<rparr>) = Returned h"
    and z: "(if mw_tabs (g_win h) = [] then window_new_terminal e fr h else Returned h) = Returned z"
    and g': "Returned (upd_win (\<lambda>w. update_tab_bar (g_store z) (w\<lparr>mw_connected := True\<rparr>)) z) = Returned g'"
    using assms(4) unfolding open_window_def then_do_Returned by (elim exE conjE)
  have ok: "gui_at False z" by (rule open_window_starts [OF assms(1-3) h z])
  then have "window_ok ((g_win z)\<lparr>mw_connected := True\<rparr>)"
    by (simp add: gui_at_def window_ok_def tabs_ok_def pages_def)
  from update_same [OF this, of "g_store z"] ok g' show ?thesis
    by (auto simp: gui_at_def mirrors_engine_def upd_win_def same_tabs_def Let_def simp del: id_empty_def split: option.splits)
qed

lemma window_agrees:
  assumes "ws_current (g_core g) = Some ws" "saved_ok ws" "fresh_ids fr (g_core g)"
    "open_window e fr g = Returned g0" "(gui_step e)\<^sup>*\<^sup>* g0 g1"
  shows "window_ok (g_win g1) \<and> mirrors_engine g1"
  using gui_steps_ok [OF assms(5) open_window_ok [OF assms(1-4)]] by (simp add: gui_at_def)

text \<open>C6: From the moment a window opens on a workspace whose windows and tabs have identifiers of their own and whose note
  tabs have their documents, whatever the user then does to tabs, panes and names, and whatever page the toolkit's
  stack chooses to show, the window's lists of terminal and note tabs are the
  sublists of its list of tabs, the stack holds exactly the tabs' pages under the names of their
  indices, the labels are bound to the tabs in order, the active index is that of the page being shown,
  and the tabs are those the engine has for the window, in the same order.  New identifiers are new at their use,
  and the window on the screen is not itself deleted from the list of windows: that would break it.\<close>

theorem window_agrees_with_engine:
  assumes "ws_current (g_core g) = Some ws" "saved_ok ws" "fresh_ids fr (g_core g)"
    "open_window e fr g = Returned g0" "(gui_step e)\<^sup>*\<^sup>* g0 g1"
  shows "window_ok (g_win g1) \<and> mirrors_engine g1"
  by (rule window_agrees [OF assms])

definition demo_gui_env :: gui_env where
  "demo_gui_env = \<lparr>ge_stack = \<lparr>sb_next = (\<lambda>_. None), sb_first = True\<rparr>, ge_tab = demo_tab_env, ge_shell = ''sh'',
     ge_holds = (\<lambda>s. s), ge_chars = (\<lambda>s. int (length s)), ge_canon = (\<lambda>_. None), ge_fault = no_write_faults,
     ge_adj = (\<lparr>ad_value = Fin 0, ad_upper = Fin 0, ad_page = Fin 0\<rparr>, \<lparr>ad_value = Fin 0, ad_upper = Fin 0, ad_page = Fin 0\<rparr>)\<rparr>"

definition demo_fresh :: "string \<Rightarrow> fresh" where
  "demo_fresh s = \<lparr>fr_now = 0, fr_mtime = 0, fr_window = Id (''w'' @ s), fr_tab = Id (''t'' @ s), fr_pane = Id (''p'' @ s)\<rparr>"

definition demo_gui :: "unit gui" where
  "demo_gui = \<lparr>g_session = \<lparr>current_window = empty_id\<rparr>,
     g_core = \<lparr>ws_current = Some (empty_workspace\<lparr>ws_id := Id ''w''\<rparr>), ws_dirty = False, ev_log = []\<rparr>,
     g_store = None, g_disk = (\<lambda>_. None), g_win = new_main_window\<rparr>"

lemma demo_gui_opens: "is_returned (then_do (open_window demo_gui_env (demo_fresh ''0'') demo_gui)
    (\<lambda>g. window_new_note demo_gui_env (demo_fresh ''1'') g))"
  by code_simp

end
