(* ===== verification/Window_Properties.thy ===== *)
theory Window_Properties
  imports Window_Life
begin

text \<open>
  What the main window's operations do where it matters: which tab is shown after a close, what a failed
  save on closing costs, where the restored focus goes, and the shape of a custom split.
\<close>

section \<open>The first pages\<close>

lemma demo_window_life:
  "case open_window demo_gui_env (demo_fresh ''0'') demo_gui of
     Returned g \<Rightarrow> fresh_ids (demo_fresh ''1'') (g_core g) \<and> is_returned (window_new_note demo_gui_env (demo_fresh ''1'') g)
   | _ \<Rightarrow> False"
  by code_simp

text \<open>The window with its terminal and a note opened after it.\<close>

lemma demo_window_steps:
  "\<exists>g0 g1. open_window demo_gui_env (demo_fresh ''0'') demo_gui = Returned g0 \<and>
     (gui_step demo_gui_env)\<^sup>*\<^sup>* g0 g1 \<and> window_new_note demo_gui_env (demo_fresh ''1'') g0 = Returned g1"
proof -
  obtain g0 where g0: "open_window demo_gui_env (demo_fresh ''0'') demo_gui = Returned g0"
    "fresh_ids (demo_fresh ''1'') (g_core g0)" "is_returned (window_new_note demo_gui_env (demo_fresh ''1'') g0)"
    using demo_window_life by (cases "open_window demo_gui_env (demo_fresh ''0'') demo_gui") auto
  then obtain g1 where g1: "window_new_note demo_gui_env (demo_fresh ''1'') g0 = Returned g1" using is_returnedD by blast
  from gui_step.New_Note [OF g0(2) g1] g0(1) g1 show ?thesis by blast
qed

lemma demo_gui_facts: "ws_current (g_core demo_gui) = Some (empty_workspace\<lparr>ws_id := Id ''w''\<rparr>)"
  "saved_ok (empty_workspace\<lparr>ws_id := Id ''w''\<rparr>)" "fresh_ids (demo_fresh ''0'') (g_core demo_gui)"
  by (simp_all add: demo_gui_def all_tabs_def all_panes_def saved_ok_def empty_workspace_def
      fresh_ids_def demo_fresh_def core_outline_def core_all_tabs_def empty_id_def)

theorem window_agrees_with_engine_witness:
  "\<exists>g0 g1. open_window demo_gui_env (demo_fresh ''0'') demo_gui = Returned g0 \<and>
     window_new_note demo_gui_env (demo_fresh ''1'') g0 = Returned g1 \<and> window_ok (g_win g1) \<and> mirrors_engine g1"
  using demo_window_steps window_agrees_with_engine [OF demo_gui_facts] by blast

section \<open>Closing\<close>

lemma map_without: "map f (without i xs) = without i (map f xs)"
  by (simp add: without_def take_map drop_map)

lemma distinct_without_nth: "distinct xs \<Longrightarrow> i < length xs \<Longrightarrow> xs ! i \<notin> set (without i xs)"
  using id_take_nth_drop [of i xs] by (metis (no_types, lifting) Suc_eq_plus1 Un_iff distinct_append disjoint_insert(1)
    distinct.simps(2) list.simps(15) set_append without_def)

lemma finish_close_shape:
  assumes "i < length (mw_tabs (g_win g))"
  shows "\<exists>c. finish_close_tab e i g = upd_win (drop_view (ge_stack e) (g_store g) i) (g\<lparr>g_core := c\<rparr>)"
proof -
  obtain x y where xy: "gui_ids (snd (mw_tabs (g_win g) ! i)) = (x, y)" by (cases "gui_ids (snd (mw_tabs (g_win g) ! i))")
  have "finish_close_tab e i g = upd_win (drop_view (ge_stack e) (g_store g) i)
      (g\<lparr>g_core := if \<not> id_empty x \<and> \<not> id_empty y then snd (remove_tab x y (g_core g)) else g_core g\<rparr>)"
    unfolding finish_close_tab_def if_not_P [OF iffD2 [OF not_le assms]] xy Let_def prod.case by simp
  then show ?thesis by blast
qed

lemma finish_close_result:
  assumes "window_ok (g_win g)" "i < length (mw_tabs (g_win g))"
  shows "window_ok (g_win (finish_close_tab e i g)) \<and>
    mw_tabs (g_win (finish_close_tab e i g)) = without i (mw_tabs (g_win g)) \<and>
    g_disk (finish_close_tab e i g) = g_disk g \<and> g_store (finish_close_tab e i g) = g_store g \<and>
    (sb_first (ge_stack e) \<longrightarrow> mw_connected (g_win g) \<longrightarrow> 1 < length (mw_tabs (g_win g)) \<longrightarrow> mw_active (g_win (finish_close_tab e i g)) = 0)"
proof -
  obtain c where c: "finish_close_tab e i g = upd_win (drop_view (ge_stack e) (g_store g) i) (g\<lparr>g_core := c\<rparr>)"
    using finish_close_shape [OF assms(2)] by blast
  from drop_view_ok [OF assms, of "ge_stack e" "g_store g"] show ?thesis by (simp add: c upd_win_def)
qed

text \<open>C16: When the toolkit's stack shows the first page it is given, closing any tab of several, the shown
  one or another, brings the first tab to the front: the handler of the visible page overwrites the
  index that \<^verbatim>\<open>finish_close_tab\<close> has just corrected, so neither the tab the user was in nor the last
  one, as the comment has it, is shown.\<close>

theorem close_shows_first:
  assumes "window_ok (g_win g)" "i < length (mw_tabs (g_win g))" "1 < length (mw_tabs (g_win g))" "sb_first (ge_stack e)"
    "mw_connected (g_win g)"
  shows "mw_active (g_win (finish_close_tab e i g)) = 0 \<and>
    mw_tabs (g_win (finish_close_tab e i g)) = without i (mw_tabs (g_win g)) \<and>
    mw_visible (g_win (finish_close_tab e i g)) = Some (fst (without i (mw_tabs (g_win g)) ! 0))"
proof -
  note f = finish_close_result [OF assms(1,2), of e]
  have "length (without i (mw_tabs (g_win g))) = length (mw_tabs (g_win g)) - 1"
    using assms(2) by (simp add: without_def)
  then have ne: "without i (mw_tabs (g_win g)) \<noteq> []" using assms(3) by auto
  from f assms(3-5) ne show ?thesis by (simp add: window_ok_def)
qed

text \<open>With the preference to keep unsaved notes, closing a modified note whose file cannot be written
  closes the tab all the same: the disk is as it was, the tab is gone from the window and nothing
  asks the user again.\<close>

theorem keep_closes_despite_failure:
  assumes "window_ok (g_win g)" "i < length (mw_tabs (g_win g))" "mw_tabs (g_win g) ! i = (p, Note_Gui v)" "nv_modified v"
    "unsaved_close_behavior (g_store g) = Keep" "has_path (g_store g) v"
    "wf_mkdir (ge_fault e) \<or> wf_open (ge_fault e) \<or> parent_path (note_path (g_store g) (nv_id v)) = ''''"
    "close_tab e mt (int i) g = (r, g')"
  shows "r = Close_Done \<and> g_disk g' = g_disk g \<and> g_store g' = g_store g \<and>
    map fst (mw_tabs (g_win g')) = without i (ptrs (g_win g)) \<and> p \<notin> set (map fst (mw_tabs (g_win g')))"
proof -
  let ?path = "note_path (g_store g) (nv_id v)"
  have w: "fst (write_note_file (ge_fault e) mt ?path t (g_disk g)) = False" "snd (write_note_file (ge_fault e) mt ?path t (g_disk g)) = g_disk g" for t
    using assms(7) by (auto simp: write_note_file_def)
  obtain a u where s: "save_now (ge_fault e) mt ?path (g_disk g) v = (a, g_disk g, u)"
  proof -
    have "fst (snd (save_now (ge_fault e) mt ?path (g_disk g) v)) = g_disk g"
      using w assms(6) by (simp add: save_now_def Let_def has_path_def case_prod_beta)
    then show ?thesis using that by (cases "save_now (ge_fault e) mt ?path (g_disk g) v") auto
  qed
  let ?h = "upd_win (\<lambda>w. update_tab_bar (g_store g) (upd_tab p (\<lambda>_. Note_Gui u) w)) (g\<lparr>g_disk := g_disk g\<rparr>)"
  have "gui_ids (Note_Gui u) = gui_ids (Note_Gui v)"
    using note_ids_kept(2) [of "ge_fault e" mt ?path "g_disk g" v] s by simp
  then have same: "same_tabs (g_win g) (upd_tab p (\<lambda>_. Note_Gui u) (g_win g))"
    using nth_tab_in [OF assms(2,3)] by (intro upd_to_same [OF assms(1), of p "Note_Gui v"]) simp_all
  have h: "window_ok (g_win ?h)" "ptrs (g_win ?h) = ptrs (g_win g)"
    using same_tabs_update [OF same, of "g_store g"] by (simp_all add: upd_win_def same_tabs_def)
  have len: "i < length (mw_tabs (g_win ?h))" using assms(2) arg_cong [OF h(2), of length] by simp
  have g': "r = Close_Done" "g' = finish_close_tab e i ?h"
    using assms(3-6,8) assms(2) s by (simp_all add: close_tab_def close_keep_note_def)
  note f = finish_close_result [OF h(1) len, of e, folded g'(2)]
  then have "mw_tabs (g_win g') = without i (mw_tabs (g_win ?h))" by blast
  then have t: "map fst (mw_tabs (g_win g')) = without i (ptrs (g_win g))"
    by (simp only: map_without h(2))
  have d: "distinct (ptrs (g_win g))" using assms(1) by (simp add: window_ok_def tabs_ok_def)
  have "p = ptrs (g_win g) ! i" using assms(2,3) by simp
  then have "p \<notin> set (without i (ptrs (g_win g)))"
    using distinct_without_nth [OF d, of i] assms(2) by simp
  then show ?thesis using g'(1) f t by (simp add: upd_win_def)
qed

definition demo_two_tabs :: "unit gui" where
  "demo_two_tabs =
     (case open_window demo_gui_env (demo_fresh ''0'') demo_gui of
        Returned g \<Rightarrow> (case window_new_note demo_gui_env (demo_fresh ''1'') g of Returned g \<Rightarrow> g | _ \<Rightarrow> g)
      | _ \<Rightarrow> demo_gui)"

lemma demo_two_tabs_ok: "window_ok (g_win demo_two_tabs) \<and> mw_connected (g_win demo_two_tabs) \<and> length (mw_tabs (g_win demo_two_tabs)) = 2"
proof -
  have "mw_connected (g_win demo_two_tabs) \<and> length (mw_tabs (g_win demo_two_tabs)) = 2" by code_simp
  moreover have "window_ok (g_win demo_two_tabs)"
    using demo_window_steps window_agrees [OF demo_gui_facts] by (auto simp: demo_two_tabs_def)
  ultimately show ?thesis by simp
qed

theorem close_shows_first_witness:
  "mw_active (g_win (finish_close_tab demo_gui_env 1 demo_two_tabs)) = 0 \<and>
   length (mw_tabs (g_win (finish_close_tab demo_gui_env 1 demo_two_tabs))) = 1"
  using close_shows_first [of demo_two_tabs 1 demo_gui_env] demo_two_tabs_ok
  by (simp add: demo_gui_env_def without_def)

definition demo_keep_store :: "sqlite store" where
  "demo_keep_store = set_note_path 0 ''x'' ''/n/a'' (set_unsaved_close_behavior 0 Keep demo_store)"

lemma demo_keep_store_reads: "unsaved_close_behavior demo_keep_store = Keep" "note_path demo_keep_store ''x'' = ''/n/a''"
proof -
  let ?st = "set_unsaved_close_behavior 0 Keep demo_store"
  have s: "load_text ?st ''settings:unsaved-close'' = Some ''keep''" "sqlite_text.healthy_store (\<lambda>_. None) (\<lambda>_. None) ?st"
    using sqlite_text.load_save_text [OF demo_healthy, of "''keep''" 0 "''settings:unsaved-close''"]
    by (simp_all add: set_unsaved_close_behavior_def unsaved_close_text_def)
  have "load_text demo_keep_store ''settings:unsaved-close'' = load_text ?st ''settings:unsaved-close''"
    unfolding demo_keep_store_def set_note_path_def
    by (rule sqlite_text.load_save_other [OF s(2)]) (simp_all add: kPathPrefix_def)
  then show "unsaved_close_behavior demo_keep_store = Keep" by (simp add: unsaved_close_behavior_def s(1))
  show "note_path demo_keep_store ''x'' = ''/n/a''"
    using note_path_set [OF s(2), of "''/n/a''" 0 "''x''"] by (simp add: demo_keep_store_def)
qed

definition demo_unsaved :: "sqlite gui" where
  "demo_unsaved = \<lparr>g_session = \<lparr>current_window = Id ''w''\<rparr>, g_core = demo_one_pane, g_store = demo_keep_store, g_disk = demo_disk,
     g_win = add_view \<lparr>sb_next = (\<lambda>_. None), sb_first = True\<rparr> demo_keep_store (Note_Gui demo_note) new_main_window\<rparr>"

text \<open>The directory of the file is gone.\<close>

theorem keep_closes_despite_failure_witness:
  "let (r, g) = close_tab (demo_gui_env\<lparr>ge_fault := no_write_faults\<lparr>wf_mkdir := True\<rparr>\<rparr>) 5 0 demo_unsaved
   in r = Close_Done \<and> g_disk g = demo_disk \<and> mw_tabs (g_win g) = [] \<and> nv_modified demo_note"
proof -
  let ?e = "demo_gui_env\<lparr>ge_fault := no_write_faults\<lparr>wf_mkdir := True\<rparr>\<rparr>"
  have w: "window_ok (g_win demo_unsaved)" "mw_tabs (g_win demo_unsaved) = [(0, Note_Gui demo_note)]"
    using add_view_ok [OF window_ok_empty [of empty_id], of "\<lparr>sb_next = (\<lambda>_. None), sb_first = True\<rparr>" demo_keep_store "Note_Gui demo_note"]
    by (simp_all add: demo_unsaved_def new_main_window_def)
  have v: "nv_modified demo_note" "nv_id demo_note = ''x''" by code_simp+
  obtain r g where r: "close_tab ?e 5 (int 0) demo_unsaved = (r, g)" by fastforce
  have "r = Close_Done \<and> g_disk g = g_disk demo_unsaved \<and> g_store g = g_store demo_unsaved \<and>
      map fst (mw_tabs (g_win g)) = without 0 (ptrs (g_win demo_unsaved)) \<and> 0 \<notin> set (map fst (mw_tabs (g_win g)))"
    by (rule keep_closes_despite_failure [OF w(1) _ _ v(1) _ _ _ r])
      (use w v demo_keep_store_reads in \<open>simp_all add: demo_unsaved_def has_path_def\<close>)
  then show ?thesis using r v w by (simp add: demo_unsaved_def without_def)
qed

section \<open>Unsaved text after a restart\<close>






section \<open>The focus of a restored window\<close>

lemma terminal_position:
  assumes "n < length ts" "snd (ts ! n) = Terminal_Gui v" "distinct (map fst ts)"
  shows "n < length (map fst (filter (\<lambda>(_, t). gui_kind t = Terminal) ts)) \<and>
      map fst (filter (\<lambda>(_, t). gui_kind t = Terminal) ts) ! n = fst (ts ! n) \<longleftrightarrow>
    (\<forall>j < n. gui_kind (snd (ts ! j)) = Terminal)"
proof -
  let ?P = "\<lambda>(_, t). gui_kind t = Terminal" and ?F = "\<lambda>xs. map fst (filter (\<lambda>(_, t). gui_kind t = Terminal) xs)"
  have ts: "ts = take n ts @ ts ! n # drop (Suc n) ts" using assms(1) by (rule id_take_nth_drop)
  have k: "?P (ts ! n)" using assms(2) by (simp add: case_prod_beta)
  have F: "?F ts = ?F (take n ts) @ fst (ts ! n) # ?F (drop (Suc n) ts)" using k by (subst ts) simp
  have d: "distinct (?F ts)" using assms(3) by (rule distinct_map_filter)
  let ?m = "length (?F (take n ts))"
  have m: "?m < length (?F ts)" "?F ts ! ?m = fst (ts ! n)" by (simp_all only: F length_append nth_append_length) simp
  have "n < length (?F ts) \<and> ?F ts ! n = fst (ts ! n) \<longleftrightarrow> ?m = n"
    using m nth_eq_iff_index_eq [OF d m(1), of n] by auto
  also have "\<dots> \<longleftrightarrow> filter ?P (take n ts) = take n ts"
    using assms(1) length_filter_less [of _ "take n ts" ?P]
    by (metis (no_types, lifting) filter_id_conv length_map length_take less_irrefl min.absorb2 order_less_imp_le)
  also have "\<dots> \<longleftrightarrow> (\<forall>j < n. gui_kind (snd (ts ! j)) = Terminal)"
    using assms(1) by (auto simp: filter_id_conv all_set_conv_all_nth case_prod_beta)
  finally show ?thesis .
qed

abbreviation shown_kinds :: "main_window \<Rightarrow> tab_kind list" where
  "shown_kinds w \<equiv> map (gui_kind \<circ> snd) (mw_tabs w)"

lemma restore_tabs_kinds:
  assumes "\<forall>t \<in> set tabs. restorable t" "restoring i ts (g_win g)" "restore_tabs e i tabs g = Returned g'"
  shows "shown_kinds (g_win g') = shown_kinds (g_win g) @ map t_kind tabs"
  using assms
proof (induction tabs arbitrary: g ts)
  case (Cons t tabs)
  from Cons.prems(3) obtain h where h: "restore_tab e i t g = Returned h" "restore_tabs e i tabs h = Returned g'"
    by (auto simp: then_do_Returned)
  have r: "restoring i (ts @ [t_id t]) (g_win h)"
    using restore_tab_step [OF _ Cons.prems(2) h(1)] Cons.prems(1) by simp
  have p: "mw_tabs (push_view (ge_stack e) (g_store g) y (g_win g)) = mw_tabs (g_win g) @ [(mw_next (g_win g), y)]" for y
    using push_view_frame [of "g_win g" "ge_stack e" "g_store g" y] Cons.prems(2) by (simp add: restoring_def Let_def)
  have "restorable t" using Cons.prems(1) by simp
  then have "shown_kinds (g_win h) = shown_kinds (g_win g) @ [t_kind t]"
    using h(1) p by (auto simp: restore_tab_def restorable.simps then_do_Returned upd_win_def split: tab_kind.splits option.splits)
  with Cons.IH [OF _ r h(2)] Cons.prems(1) show ?case by (simp add: comp_def)
qed simp

lemma restored_focus_at:
  assumes "n < length (w_tabs x)" "distinct (map t_id (w_tabs x))" "w_focus_tab_id x = Some (t_id (w_tabs x ! n))"
  shows "restored_focus x (length (w_tabs x)) = n"
proof -
  let ?P = "\<lambda>t. t_id t \<noteq> t_id (w_tabs x ! n)"
  have "takeWhile ?P (w_tabs x) = take n (w_tabs x)"
    using assms(1,2) by (intro takeWhile_eq_take_P_nth) (auto simp: distinct_conv_nth)
  then show ?thesis using assms(1,3) by (simp add: restored_focus_def)
qed

lemma nth_upd_tab:
  "n < length (mw_tabs w) \<Longrightarrow> mw_tabs (upd_tab p f w) ! n =
     (fst (mw_tabs w ! n), if fst (mw_tabs w ! n) = p then f (snd (mw_tabs w ! n)) else snd (mw_tabs w ! n))"
  by (simp add: upd_tab_def case_prod_beta)

text \<open>When a saved window is restored with its focus in a pane of terminal tab \<open>n\<close>, the tab is shown, but
  the pane gets the focus only when every tab before it is a terminal: \<^verbatim>\<open>term_tabs_\<close> is indexed by the
  position among all tabs, so with a note before it the focus goes to another terminal or nowhere.\<close>

theorem restored_focus_needs_terminals:
  assumes "\<forall>t \<in> set (w_tabs x). restorable t" "restoring i [] (g_win g)" "restore_tabs e i (w_tabs x) g = Returned h"
    "n < length (w_tabs x)" "distinct (map t_id (w_tabs x))" "w_focus_tab_id x = Some (t_id (w_tabs x ! n))"
    "w_focus_pane_id x = Some f" "t_kind (w_tabs x ! n) = Terminal"
  shows "mw_active (g_win (activate_restored e x h)) = int n \<and>
    (\<exists>v. snd (mw_tabs (g_win h) ! n) = Terminal_Gui v \<and>
      snd (mw_tabs (g_win (activate_restored e x h)) ! n) =
        Terminal_Gui (if \<forall>j < n. t_kind (w_tabs x ! j) = Terminal then activate_pane f v else v))"
proof -
  let ?w = "g_win h"
  note r = restore_tabs_all [OF assms(1-3)]
  have w: "tabs_ok ?w" "bar_pre ?w" "mw_stack ?w = pages ?w"
    using r bar_prefix_pre by (simp_all add: restoring_def)
  have "mw_tabs (g_win g) = []" using assms(2) by (simp add: restoring_def)
  then have kinds: "shown_kinds ?w = map t_kind (w_tabs x)" using restore_tabs_kinds [OF assms(1-3)] by simp
  have len: "length (mw_tabs ?w) = length (w_tabs x)" using arg_cong [OF kinds, of length] by simp
  have kind: "gui_kind (snd (mw_tabs ?w ! j)) = t_kind (w_tabs x ! j)" if "j < length (w_tabs x)" for j
    using arg_cong [OF kinds, of "\<lambda>ks. ks ! j"] that len by simp
  obtain v where v: "snd (mw_tabs ?w ! n) = Terminal_Gui v"
    using kind [OF assms(4)] assms(8) by (cases "snd (mw_tabs ?w ! n)") auto
  have d: "distinct (ptrs ?w)" using w(1) by (simp add: tabs_ok_def)
  let ?a = "?w\<lparr>mw_active := int n\<rparr>"
  let ?p = "fst (mw_tabs ?w ! n)"
  define u where "u = stack_show (g_store h) ?p ?a"
  have k: "keeps ?w u" unfolding u_def by (rule keeps_trans [OF keeps_upd(1) keeps_stack(1)])
  have u: "mw_tabs u = mw_tabs ?w" "mw_term_tabs u = mw_term_tabs ?w" "mw_active u = int n"
    using k stack_show_at [of ?a n "g_store h"] d pages_in [of n ?w] w(3) assms(4) len by (simp_all add: keeps_def u_def)
  define F where "F = (\<lambda>t. case t of Terminal_Gui v \<Rightarrow> Terminal_Gui (activate_pane f v) | Note_Gui v \<Rightarrow> Note_Gui v)"
  let ?z = "if n < length (mw_term_tabs ?w) then upd_tab (mw_term_tabs ?w ! n) F u else u"
  have ne: "mw_tabs ?w \<noteq> []" using assms(4) len by auto
  have a: "activate_restored e x h = h\<lparr>g_win := update_tab_bar (g_store h) ?z\<rparr>"
    unfolding activate_restored_def Let_def if_not_P [OF ne] len restored_focus_at [OF assms(4-6)] u_def [symmetric] u(2,3)
    by (simp add: assms(7) F_def)
  have terms: "mw_term_tabs ?w = map fst (filter (\<lambda>(_, t). gui_kind t = Terminal) (mw_tabs ?w))"
    using w(1) by (simp add: tabs_ok_def)
  have n: "n < length (mw_tabs ?w)" using assms(4) len by simp
  have pos: "n < length (mw_term_tabs ?w) \<and> mw_term_tabs ?w ! n = ?p \<longleftrightarrow> (\<forall>j < n. t_kind (w_tabs x ! j) = Terminal)"
    using terminal_position [OF n v d] kind assms(4) unfolding terms by auto
  have "snd (mw_tabs ?z ! n) = Terminal_Gui (if \<forall>j < n. t_kind (w_tabs x ! j) = Terminal then activate_pane f v else v)"
    unfolding pos [symmetric] using n u(1) v by (auto simp: nth_upd_tab F_def)
  moreover have "mw_active ?z = int n" using u(3) by (simp add: upd_tab_def)
  ultimately show ?thesis using v by (simp add: a)
qed

definition demo_saved_window :: window where
  "demo_saved_window = empty_window\<lparr>w_id := Id ''v'', w_focus_tab_id := Some (Id ''t2''), w_focus_pane_id := Some (Id ''q''),
     w_tabs := [empty_tab\<lparr>t_id := Id ''t1'', t_kind := Note, t_note_state := Some (empty_note_tab_state\<lparr>nt_document_id := ''x''\<rparr>)\<rparr>,
                empty_tab\<lparr>t_id := Id ''t2'', t_pane_tree := Split SplitVertical (leaf \<lparr>p_id = Id ''p'', p_state = empty_pane_state\<rparr>)
                   (leaf \<lparr>p_id = Id ''q'', p_state = empty_pane_state\<rparr>) (Fin (1 / 2))\<rparr>]\<rparr>"

definition demo_restoring :: "unit gui" where
  "demo_restoring = demo_gui\<lparr>g_win := new_main_window\<lparr>mw_window := Id ''v''\<rparr>\<rparr>"

lemma demo_restores: "is_returned (restore_tabs demo_gui_env (Id ''v'') (w_tabs demo_saved_window) demo_restoring)"
  by code_simp

text \<open>A note, and a terminal with the focus in its second pane: the pane does not get it back.\<close>

theorem restored_focus_needs_terminals_witness:
  "\<exists>h v. restore_tabs demo_gui_env (Id ''v'') (w_tabs demo_saved_window) demo_restoring = Returned h \<and>
     snd (mw_tabs (g_win h) ! 1) = Terminal_Gui v \<and>
     snd (mw_tabs (g_win (activate_restored demo_gui_env demo_saved_window h)) ! 1) = Terminal_Gui v"
proof -
  obtain h where h: "restore_tabs demo_gui_env (Id ''v'') (w_tabs demo_saved_window) demo_restoring = Returned h"
    using is_returnedD [OF demo_restores] by blast
  have t: "\<forall>t \<in> set (w_tabs demo_saved_window). restorable t"
    by (simp add: demo_saved_window_def restorable.simps empty_tab_def empty_note_tab_state_def)
  have r: "restoring (Id ''v'') [] (g_win demo_restoring)"
    by (simp add: restoring_def tabs_ok_def bar_prefix_def pages_def demo_restoring_def new_main_window_def)
  have x: "1 < length (w_tabs demo_saved_window)" "distinct (map t_id (w_tabs demo_saved_window))"
    "w_focus_tab_id demo_saved_window = Some (t_id (w_tabs demo_saved_window ! 1))"
    "w_focus_pane_id demo_saved_window = Some (Id ''q'')" "t_kind (w_tabs demo_saved_window ! 1) = Terminal"
    "\<not> (\<forall>j < 1. t_kind (w_tabs demo_saved_window ! j) = Terminal)"
    by (simp_all add: demo_saved_window_def empty_tab_def)
  from restored_focus_needs_terminals [OF t r h x(1-5)] x(6) h show ?thesis by auto
qed

section \<open>A custom split\<close>

abbreviation new_pane :: "pane_id \<Rightarrow> pane" where
  "new_pane i \<equiv> \<lparr>p_id = i, p_state = empty_pane_state\<rparr>"

text \<open>Panes in a row, each split off the one before it.\<close>

fun pane_chain :: "pane \<Rightarrow> (pane_id \<times> split_kind) list \<Rightarrow> pane_tree" where
  "pane_chain p [] = leaf p"
| "pane_chain p ((i, k) # xs) = Split k (leaf p) (pane_chain (new_pane i) xs) (Fin (1 / 2))"

definition chain_end :: "pane \<Rightarrow> (pane_id \<times> split_kind) list \<Rightarrow> pane_id" where
  "chain_end p xs = (if xs = [] then p_id p else fst (last xs))"

lemma find_pane_chain: "find_pane (pane_chain p xs) i \<noteq> None \<longleftrightarrow> i \<in> insert (p_id p) (fst ` set xs)"
  by (induction p xs rule: pane_chain.induct) (auto simp: leaf_def split: option.split)

lemma at_chain_end:
  assumes "distinct (p_id p # map fst xs)"
  shows "at_pane (chain_end p xs) (\<lambda>t. Split k t (leaf (new_pane i)) (Fin (1 / 2))) (pane_chain p xs) = pane_chain p (xs @ [(i, k)])"
  using assms
proof (induction p xs rule: pane_chain.induct)
  case (1 p)
  then show ?case by (simp add: leaf_def chain_end_def)
next
  case (2 p j l xs)
  have e: "chain_end p ((j, l) # xs) = chain_end (new_pane j) xs" by (simp add: chain_end_def)
  have m: "chain_end (new_pane j) xs \<in> insert j (fst ` set xs)" by (simp add: chain_end_def)
  have "chain_end (new_pane j) xs \<noteq> p_id p" by (rule notI) (use m 2(2) in simp)
  then show ?case using 2 by (simp add: e leaf_def)
qed

lemma split_chain:
  assumes "distinct (p_id p # map fst xs)"
  shows "split_tree k (Fin (1 / 2)) (new_pane i) (Some (chain_end p xs)) (pane_chain p xs) = pane_chain p (xs @ [(i, k)])"
proof (cases xs)
  case Nil
  then show ?thesis by (simp add: split_tree_def leaf_def)
next
  case (Cons x ys)
  have "chain_end p xs \<in> insert (p_id p) (fst ` set xs)" by (simp add: chain_end_def)
  then have f: "find_pane (pane_chain p xs) (chain_end p xs) \<noteq> None" by (simp only: find_pane_chain)
  obtain j l where x: "x = (j, l)" by (cases x)
  have "split_tree k (Fin (1 / 2)) (new_pane i) (Some (chain_end p xs)) (pane_chain p xs) =
      at_pane (chain_end p xs) (\<lambda>t. Split k t (leaf (new_pane i)) (Fin (1 / 2))) (pane_chain p xs)"
    using f unfolding split_tree_def Let_def by (simp add: Cons x split: pane_tree.split del: find_pane.simps at_pane.simps)
  then show ?thesis by (simp only: at_chain_end [OF assms])
qed

lemma map_of_upd_tab: "map_of (mw_tabs (upd_tab p f w)) q = map_option (if q = p then f else id) (map_of (mw_tabs w) q)"
proof -
  have "map_of (map (\<lambda>(q, t). (q, if q = p then f t else t)) ts) q = map_option (if q = p then f else id) (map_of ts q)" for ts
    by (induction ts) auto
  then show ?thesis by (simp add: upd_tab_def)
qed

text \<open>What the engine's tree is while the loop of a custom split runs.\<close>

lemma split_each_chain:
  assumes "map_of (mw_tabs (g_win g)) q = Some (Terminal_Gui v)" "window_ok (g_win g)"
    "find_tab (tv_tab v) (g_core g) = Some (w, t)" "w_focus_pane_id w = Some (chain_end p ys)" "t_pane_tree t = pane_chain p ys"
    "distinct (p_id p # map fst (ys @ xs))" "\<forall>x \<in> set xs. \<not> id_empty (fst x)" "split_each e q xs g = Returned g'"
  shows "map_option t_pane_tree (the_tab (tv_tab v) (g_core g')) = Some (pane_chain p (ys @ xs))"
  using assms
proof (induction xs arbitrary: g v w t ys)
  case Nil
  then show ?case by (simp add: the_tab_def)
next
  case (Cons x xs)
  obtain i k where x: "x = (i, k)" by (cases x)
  let ?h = "Fin (1 / 2)"
  obtain c w1 t1 where c: "split_pane i (tv_tab v) k ?h (g_core g) = Inr (i, c)" "find_tab (tv_tab v) c = Some (w1, t1)"
    "w_focus_pane_id w1 = Some i" "t_pane_tree t1 = split_tree k ?h (new_pane i) (w_focus_pane_id w) (t_pane_tree t)"
    using split_pane_found [OF Cons.prems(3), of i k ?h] by (elim exE conjE)
  have tree: "t_pane_tree t1 = pane_chain p (ys @ [(i, k)])"
    unfolding c(4) Cons.prems(4,5) by (rule split_chain) (use Cons.prems(6) in auto)
  have "\<not> split_throws i k v g" by (simp add: split_throws_def c(1))
  with Cons.prems(1,8) x obtain h where h: "split_tab e i k q v g = Returned h" "split_each e q xs h = Returned g'"
    by (auto simp: then_do_Returned)
  obtain j d u where s: "split_view (ge_tab e) i k (g_core g) v = Returned (j, d, u)"
    and h': "h = upd_win (upd_tab q (\<lambda>_. Terminal_Gui u)) (g\<lparr>g_core := d\<rparr>)"
    using h(1) by (auto simp: split_tab_def then_do_Returned)
  have "\<not> id_empty i" using Cons.prems(7) x by simp
  with split_view_parts [OF s] c(1) have d: "d = c" by simp
  have u: "tv_tab u = tv_tab v" using split_view_keeps [OF s] by simp
  have w: "window_ok (g_win h)"
    using upd_to_same [OF Cons.prems(2) map_of_SomeD [OF Cons.prems(1)], of "Terminal_Gui u"] split_view_keeps [OF s]
    by (simp add: h' upd_win_def same_tabs_def)
  have m: "map_of (mw_tabs (g_win h)) q = Some (Terminal_Gui u)"
    using Cons.prems(1) by (simp add: h' upd_win_def map_of_upd_tab)
  have "map_option t_pane_tree (the_tab (tv_tab u) (g_core g')) = Some (pane_chain p ((ys @ [(i, k)]) @ xs))"
    by (rule Cons.IH [OF m w _ _ tree _ _ h(2)])
      (use c(2,3) d u Cons.prems(6,7) x in \<open>simp_all add: h' upd_win_def chain_end_def\<close>)
  then show ?case by (simp add: u x)
qed

text \<open>The dialog promises a grid of rows by columns; what it makes of a tab with one pane is a chain, each
  new pane split off the one made before it: for two by two panes a column beside the rest, the rest split into
  a row and another pair of columns.\<close>

theorem custom_split_is_chain:
  assumes "window_ok (g_win g)" "active_view (g_win g) = Some (q, Terminal_Gui v)"
    "find_tab (tv_tab v) (g_core g) = Some (w, t)" "w_focus_pane_id w = Some (p_id p)" "t_pane_tree t = leaf p"
    "1 \<le> rows" "rows \<le> 10" "1 \<le> cols" "cols \<le> 10" "length panes = rows * cols - 1"
    "distinct (p_id p # panes)" "\<forall>i \<in> set panes. \<not> id_empty i"
    "custom_split_response e rows cols panes g = Returned g'"
  shows "map_option t_pane_tree (the_tab (tv_tab v) (g_core g')) = Some (pane_chain p (zip panes (grid_splits rows cols)))"
proof -
  have "distinct (ptrs (g_win g))" using assms(1) by (simp add: window_ok_def tabs_ok_def)
  then have m: "map_of (mw_tabs (g_win g)) q = Some (Terminal_Gui v)"
    using active_view_in [OF assms(2)] by simp
  have s: "split_each e q (zip panes (grid_splits rows cols)) g = Returned g'"
    using assms(2,6-9,13) by (simp add: custom_split_response_def)
  have d: "distinct (map fst (zip panes (grid_splits rows cols)))" "set (map fst (zip panes (grid_splits rows cols))) \<subseteq> set panes"
    using assms(11) by (auto simp: map_fst_zip_take dest: in_set_takeD)
  have "map_option t_pane_tree (the_tab (tv_tab v) (g_core g')) = Some (pane_chain p ([] @ zip panes (grid_splits rows cols)))"
    by (rule split_each_chain [OF m assms(1,3) _ _ _ _ s])
      (use assms(4,5,11,12) d in \<open>auto simp: chain_end_def dest: set_zip_leftD\<close>)
  then show ?thesis by simp
qed

definition demo_split_gui :: "unit gui" where
  "demo_split_gui = demo_two_tabs\<lparr>g_core := demo_one_pane\<lparr>ws_current := map_option (\<lambda>ws. ws\<lparr>ws_windows :=
       map (\<lambda>w. w\<lparr>w_focus_pane_id := Some (Id ''p'')\<rparr>) (ws_windows ws)\<rparr>) (ws_current demo_one_pane)\<rparr>,
     g_win := add_view \<lparr>sb_next = (\<lambda>_. None), sb_first = True\<rparr> (None :: unit store) (Terminal_Gui demo_term_view) new_main_window\<rparr>"

lemma demo_split_grid: "is_returned (custom_split_response demo_gui_env 2 2 [Id ''1'', Id ''2'', Id ''3''] demo_split_gui)"
  by code_simp

theorem custom_split_is_chain_witness:
  "\<exists>g. custom_split_response demo_gui_env 2 2 [Id ''1'', Id ''2'', Id ''3''] demo_split_gui = Returned g \<and>
     map_option t_pane_tree (the_tab (Id ''t'') (g_core g)) =
       Some (Split SplitVertical (leaf (new_pane (Id ''p'')))
              (Split SplitHorizontal (leaf (new_pane (Id ''1'')))
                (Split SplitVertical (leaf (new_pane (Id ''2''))) (leaf (new_pane (Id ''3''))) (Fin (1 / 2)))
                (Fin (1 / 2))) (Fin (1 / 2)))"
proof -
  let ?g = demo_split_gui
  obtain g where g: "custom_split_response demo_gui_env 2 2 [Id ''1'', Id ''2'', Id ''3''] ?g = Returned g"
    using is_returnedD [OF demo_split_grid] by blast
  have w: "window_ok (g_win ?g)" "active_view (g_win ?g) = Some (0, Terminal_Gui demo_term_view)"
    using add_view_ok [OF window_ok_empty [of empty_id], of "\<lparr>sb_next = (\<lambda>_. None), sb_first = True\<rparr>" "None :: unit store" "Terminal_Gui demo_term_view"]
    by (simp_all add: demo_split_gui_def new_main_window_def active_view_def)
  have tab: "tv_tab demo_term_view = Id ''t''" by (simp add: new_term_view_def)
  obtain x y where t: "find_tab (Id ''t'') (g_core ?g) = Some (x, y)" "w_focus_pane_id x = Some (Id ''p'')"
    "t_pane_tree y = leaf (new_pane (Id ''p''))"
    by (simp add: demo_split_gui_def demo_one_pane_def find_tab_def empty_workspace_def empty_window_def empty_tab_def)
  have s: "grid_splits 2 2 = [SplitVertical, SplitHorizontal, SplitVertical]" by code_simp
  have "map_option t_pane_tree (the_tab (tv_tab demo_term_view) (g_core g)) =
      Some (pane_chain (new_pane (Id ''p'')) (zip [Id ''1'', Id ''2'', Id ''3''] (grid_splits 2 2)))"
    by (rule custom_split_is_chain [OF w _ _ t(3) _ _ _ _ _ _ _ g, of x]) (use t tab in \<open>simp_all add: empty_id_def\<close>)
  with g tab s show ?thesis by (simp del: One_nat_def)
qed

end
