(* ===== verification/Note_Editor.thy ===== *)
theory Note_Editor
  imports Note_Tab Markdown_Ast
begin

text \<open>
  \<^verbatim>\<open>gui/note/note_editor.hpp\<close> and \<^verbatim>\<open>.cpp\<close>: the text of a note under edit, with its cursor, the search
  in it and what is highlighted, tags closed as they are typed, and pasting.

  The text is a list of code points, as the buffer's offsets count them; a line handed to a
  \<^verbatim>\<open>std::string\<close> is its UTF-8 bytes.  The search context of GtkSourceView is a parameter: it finds
  occurrences, wraps around, tells the position of an occurrence as far as it has scanned, and replaces.
\<close>

section \<open>The buffer\<close>

type_synonym codes = "nat list"

definition utf8_text :: "codes \<Rightarrow> string" where
  "utf8_text us = concat (map (\<lambda>u. string_of_bytes (utf8_encode (of_nat u))) us)"

definition codes_of :: "string \<Rightarrow> codes" where
  "codes_of s = map of_char s"

datatype editor_call = On_Change | On_Preview codes | Scroll_To_Cursor

record editor =
  ed_text :: codes
  ed_cursor :: nat
  ed_bound :: nat
  ed_needle :: codes
  ed_replace :: codes
  ed_occurrence :: int
  ed_match_start :: int
  ed_match_end :: int
  ed_tags :: "(nat \<times> nat) list"
  ed_current_tag :: "(nat \<times> nat) option"
  ed_highlight_pending :: bool
  ed_highlight_timer :: bool
  ed_preview_pending :: bool
  ed_preview_timer :: bool
  ed_scroll_pending :: bool
  ed_busy :: bool
  ed_paste :: bool
  ed_calls :: "editor_call list"

definition new_editor :: editor where
  "new_editor = \<lparr>ed_text = [], ed_cursor = 0, ed_bound = 0, ed_needle = [], ed_replace = [], ed_occurrence = - 1,
     ed_match_start = - 1, ed_match_end = - 1, ed_tags = [], ed_current_tag = None, ed_highlight_pending = False,
     ed_highlight_timer = False, ed_preview_pending = False, ed_preview_timer = False, ed_scroll_pending = False,
     ed_busy = False, ed_paste = False, ed_calls = []\<rparr>"

definition ed_call :: "editor_call \<Rightarrow> editor \<Rightarrow> editor" where
  "ed_call c ed = ed\<lparr>ed_calls := ed_calls ed @ [c]\<rparr>"

definition place_cursor :: "nat \<Rightarrow> editor \<Rightarrow> editor" where
  "place_cursor i ed = ed\<lparr>ed_cursor := i, ed_bound := i\<rparr>"

definition selection_of :: "editor \<Rightarrow> (nat \<times> nat) option" where
  "selection_of ed =
     (if ed_cursor ed = ed_bound ed then None
      else Some (min (ed_cursor ed) (ed_bound ed), max (ed_cursor ed) (ed_bound ed)))"

text \<open>Lines end at a newline, a carriage return not followed by one, or a paragraph separator.\<close>

definition starts_line :: "codes \<Rightarrow> nat \<Rightarrow> bool" where
  "starts_line t i \<longleftrightarrow> i = 0 \<or>
     (i \<le> length t \<and> (t ! (i - 1) \<in> {0x0A, 0x2029} \<or>
        (t ! (i - 1) = 0x0D \<and> \<not> (i < length t \<and> t ! i = 0x0A))))"

fun line_start :: "codes \<Rightarrow> nat \<Rightarrow> nat" where
  "line_start t 0 = 0"
| "line_start t (Suc i) = (if starts_line t (Suc i) then Suc i else line_start t i)"

section \<open>Closing a tag\<close>

definition rfind_char :: "char \<Rightarrow> string \<Rightarrow> nat option" where
  "rfind_char c s = (if c \<in> set s then Some (length s - 1 - length (takeWhile (\<lambda>d. d \<noteq> c) (rev s))) else None)"

definition void_elements :: "string list" where
  "void_elements = [''area'', ''base'', ''br'', ''col'', ''embed'', ''hr'', ''img'', ''input'', ''link'', ''meta'',
     ''param'', ''source'', ''track'', ''wbr'']"

definition tag_name_char :: "char \<Rightarrow> bool" where
  "tag_name_char c \<longleftrightarrow> is_alnum c \<or> c = CHR ''-'' \<or> c = CHR ''_''"

definition suggest_closing_html_tag :: "string \<Rightarrow> nat \<Rightarrow> string" where
  "suggest_closing_html_tag line cursor =
     (if cursor = 0 \<or> length line < cursor then ''''
      else case rfind_char (CHR ''<'') (take cursor line) of
             None \<Rightarrow> ''''
           | Some lt \<Rightarrow>
               let body = drop (lt + 1) (take cursor line)
               in if body = '''' \<or> hd body \<in> {CHR ''/'', CHR ''!''} \<or> CHR ''>'' \<in> set body then ''''
                  else
                    let rest = dropWhile (\<lambda>c. c = CHR '' '' \<or> c = CHR 0x09) body;
                        name = takeWhile tag_name_char rest
                    in if name = '''' \<or> \<not> is_alpha (hd name) then ''''
                       else
                         let name = map to_lower name
                         in if name \<in> set void_elements then '''' else ''</'' @ name @ ''>'')"

section \<open>Changes of the text\<close>

definition on_buffer_changed :: "editor \<Rightarrow> editor" where
  "on_buffer_changed ed = (ed_call On_Change ed)\<lparr>ed_occurrence := - 1, ed_match_start := - 1, ed_match_end := - 1,
     ed_highlight_pending := True, ed_highlight_timer := True, ed_preview_pending := True, ed_preview_timer := True\<rparr>"

text \<open>
  The buffer's two marks, the cursor and the other end of the selection, move with the text; at the
  place of an insertion they move behind it.
\<close>

definition mark_insert :: "nat \<Rightarrow> nat \<Rightarrow> nat \<Rightarrow> nat" where
  "mark_insert i n m = (if m < i then m else m + n)"

definition mark_delete :: "nat \<Rightarrow> nat \<Rightarrow> nat \<Rightarrow> nat" where
  "mark_delete a b m = (if m \<le> a then m else if m \<le> b then a else m - (b - a))"

definition put_text :: "nat \<Rightarrow> codes \<Rightarrow> editor \<Rightarrow> editor" where
  "put_text i us ed = ed\<lparr>ed_text := take i (ed_text ed) @ us @ drop i (ed_text ed),
     ed_cursor := mark_insert i (length us) (ed_cursor ed), ed_bound := mark_insert i (length us) (ed_bound ed)\<rparr>"

definition cut_text :: "nat \<Rightarrow> nat \<Rightarrow> editor \<Rightarrow> editor" where
  "cut_text a b ed = ed\<lparr>ed_text := take a (ed_text ed) @ drop b (ed_text ed),
     ed_cursor := mark_delete a b (ed_cursor ed), ed_bound := mark_delete a b (ed_bound ed)\<rparr>"

text \<open>
  The second handler of a change.  The cursor's distance from the start of the line is counted in
  characters and used as an index into the line's bytes.  The insertion is a change of its own, whose
  second handler finds the busy flag.
\<close>

definition closing_tag :: "codes \<Rightarrow> nat \<Rightarrow> string" where
  "closing_tag t i =
     (if i = 0 \<or> t ! (i - 1) \<noteq> 62 then ''''
      else
        let start = line_start t (i - 1)
        in suggest_closing_html_tag (utf8_text (take (i - 1 - start) (drop start t))) (i - 1 - start))"

definition auto_close :: "editor \<Rightarrow> editor" where
  "auto_close ed =
     (if ed_busy ed \<or> ed_paste ed then ed
      else
        let close = closing_tag (ed_text ed) (ed_cursor ed)
        in if close = '''' then ed
           else place_cursor (ed_cursor ed) (on_buffer_changed (put_text (ed_cursor ed) (codes_of close) ed)))"

definition changed :: "editor \<Rightarrow> editor" where
  "changed ed = auto_close (on_buffer_changed ed)"

text \<open>The buffer says nothing when nothing is inserted or deleted.\<close>

definition ed_insert :: "nat \<Rightarrow> codes \<Rightarrow> editor \<Rightarrow> editor" where
  "ed_insert i us ed = (if us = [] then ed else changed (put_text i us ed))"

definition ed_delete :: "nat \<Rightarrow> nat \<Rightarrow> editor \<Rightarrow> editor" where
  "ed_delete a b ed = (if a = b then ed else changed (cut_text a b ed))"

text \<open>Typing replaces the selection.\<close>

definition ed_type :: "codes \<Rightarrow> editor \<Rightarrow> editor" where
  "ed_type us ed =
     (let ed = (case selection_of ed of Some (a, b) \<Rightarrow> ed_delete a b ed | None \<Rightarrow> ed)
      in ed_insert (ed_cursor ed) us ed)"

definition ed_set_text :: "codes \<Rightarrow> editor \<Rightarrow> editor" where
  "ed_set_text t ed = (ed_insert 0 t (ed_delete 0 (length (ed_text ed)) ed))\<lparr>ed_preview_pending := False\<rparr>"

text \<open>
  The C function is told the number of characters where it takes a number of bytes, and takes nothing
  when a character would be cut.
\<close>

definition fitting_prefix :: "codes \<Rightarrow> codes" where
  "fitting_prefix us =
     (case find (\<lambda>k. length (utf8_text (take k us)) = length us) [0..<length us + 1] of
        Some k \<Rightarrow> take k us | None \<Rightarrow> [])"

definition insert_text_at_cursor :: "codes \<Rightarrow> editor \<Rightarrow> editor" where
  "insert_text_at_cursor us ed = ed_insert (ed_cursor ed) (fitting_prefix us) ed"

section \<open>Pasting and timers\<close>

definition on_paste_done :: "editor \<Rightarrow> editor" where
  "on_paste_done ed = ed\<lparr>ed_paste := True\<rparr>"

definition paste_timeout :: "editor \<Rightarrow> editor" where
  "paste_timeout ed = ed\<lparr>ed_paste := False\<rparr>"

text \<open>Whether a key is taken: only the paste of an image is.\<close>

definition editor_key :: "bool \<Rightarrow> bool \<Rightarrow> bool \<Rightarrow> bool \<Rightarrow> editor \<Rightarrow> bool \<times> editor" where
  "editor_key ctrl shift is_v has_image ed =
     (if \<not> ctrl \<or> shift \<or> \<not> is_v then (False, ed) else (has_image, on_paste_done ed))"

definition on_preview_tick :: "editor \<Rightarrow> editor" where
  "on_preview_tick ed =
     (if ed_preview_pending ed then ed_call (On_Preview (ed_text ed)) ed else ed)
       \<lparr>ed_preview_pending := False, ed_preview_timer := False\<rparr>"

definition on_scroll_changed :: "editor \<Rightarrow> editor" where
  "on_scroll_changed ed = (if ed_scroll_pending ed then ed else ed\<lparr>ed_scroll_pending := True\<rparr>)"

section \<open>Which tag is closed\<close>

lemma rfind_char_last: "c \<notin> set b \<Longrightarrow> rfind_char c (a @ c # b) = Some (length a)"
proof -
  assume "c \<notin> set b"
  then have "takeWhile (\<lambda>d. d \<noteq> c) (rev b @ c # rev a) = rev b"
    by (subst takeWhile_append2) auto
  then show ?thesis by (simp add: rfind_char_def)
qed

lemma suggest_take: "n \<le> length line \<Longrightarrow> suggest_closing_html_tag line n = suggest_closing_html_tag (take n line) n"
  unfolding suggest_closing_html_tag_def
  by (simp only: take_take min.idem length_take min.absorb2 less_irrefl not_less [symmetric] simp_thms)

lemma takeWhile_name:
  assumes "name \<noteq> ''''" "is_alpha (hd name)"
  shows "dropWhile (\<lambda>c. c = CHR '' '' \<or> c = CHR 0x09) name = name" "hd name \<notin> {CHR ''/'', CHR ''!''}"
  using assms by (cases name; auto simp: is_alpha_def is_lower_def is_upper_def less_eq_char_def)+

lemma suggest_open_tag:
  fixes lead body :: string
  assumes "body \<noteq> ''''" "is_alpha (hd body)" "CHR ''<'' \<notin> set body" "CHR ''>'' \<notin> set body"
    and "map to_lower (takeWhile tag_name_char body) \<notin> set void_elements"
  shows "suggest_closing_html_tag (lead @ CHR ''<'' # body) (length lead + 1 + length body) =
    ''</'' @ map to_lower (takeWhile tag_name_char body) @ ''>''"
proof -
  note n = takeWhile_name [OF assms(1,2)]
  have t: "takeWhile tag_name_char body \<noteq> ''''" "hd (takeWhile tag_name_char body) = hd body"
    using assms(1,2) by (cases body; simp add: tag_name_char_def is_alnum_def)+
  have l: "take (length lead + 1 + length body) (lead @ CHR ''<'' # body) = lead @ CHR ''<'' # body" by simp
  show ?thesis
    unfolding suggest_closing_html_tag_def l rfind_char_last [OF assms(3), of lead] option.case Let_def
    using assms n t by simp
qed


lemma utf8_text_append [simp]: "utf8_text (us @ vs) = utf8_text us @ utf8_text vs"
  by (simp add: utf8_text_def)

lemma utf8_text_ascii:
  assumes "\<forall>c \<in> set s. of_char c < (128 :: nat)"
  shows "utf8_text (codes_of s) = s"
  using assms
proof (induction s)
  case (Cons c s)
  have "unat (of_nat (of_char c) :: u64) = of_char c"
    using Cons.prems by (simp add: unat_of_nat)
  then have "(of_nat (of_char c) :: u64) \<le> 0x7F" using Cons.prems by (simp add: word_le_nat_alt)
  moreover have "unat (ucast (of_nat (of_char c) :: u64) :: 8 word) = (of_char c :: nat)"
    using Cons.prems by (simp add: unsigned_ucast_eq unat_of_nat take_bit_nat_eq_self)
  ultimately have "string_of_bytes (utf8_encode (of_nat (of_char c))) = [c]"
    by (simp add: utf8_encode_def string_of_bytes_def)
  with Cons show ?case by (simp add: utf8_text_def codes_of_def)
qed (simp add: utf8_text_def codes_of_def)

text \<open>A line that begins after \<open>before\<close> and has no end of its own.\<close>

definition line_code :: "nat \<Rightarrow> bool" where
  "line_code u \<longleftrightarrow> u \<notin> {0x0A, 0x0D, 0x2029}"

lemma line_start_at:
  assumes "before = [] \<or> last before = 0x0A" "\<forall>u \<in> set line. line_code u"
  shows "line_start (before @ line @ rest) (length before + length line) = length before"
proof -
  have "line_start (before @ line @ rest) (length before + n) = length before" if "n \<le> length line" for n
    using that
  proof (induction n)
    case 0
    have "starts_line (before @ line @ rest) (length before)"
      using assms(1) by (cases before rule: rev_cases) (auto simp: starts_line_def nth_append)
    then show ?case by (cases "length before") auto
  next
    case (Suc n)
    have "(before @ line @ rest) ! (length before + n) = line ! n"
      using Suc.prems by (simp add: nth_append)
    moreover have "line_code (line ! n)" using assms(2) Suc.prems by simp
    ultimately have "\<not> starts_line (before @ line @ rest) (Suc (length before + n))"
      by (simp add: starts_line_def line_code_def)
    with Suc show ?case by simp
  qed
  then show ?thesis by simp
qed

lemma closing_tag_at:
  assumes "before = [] \<or> last before = 0x0A" "\<forall>u \<in> set line. line_code u"
  shows "closing_tag (before @ line @ 62 # rest) (length before + length line + 1) =
    suggest_closing_html_tag (utf8_text line) (length line)"
proof -
  have "(before @ line @ 62 # rest) ! (length before + length line) = 62"
    by (simp add: nth_append)
  then show ?thesis
    unfolding closing_tag_def Let_def using line_start_at [OF assms, of "62 # rest"] by simp
qed

text \<open>
  The tag before the cursor.  \<open>extra\<close> is by how many bytes the line before the tag is longer than its
  characters: by so many characters the tag is cut before its name is read.
\<close>

lemma closing_tag_cut:
  fixes body :: string
  assumes "before = [] \<or> last before = 0x0A" "\<forall>u \<in> set (lead @ codes_of (CHR ''<'' # body)). line_code u"
    and "length (utf8_text lead) = length lead + extra" "\<forall>c \<in> set body. of_char c < (128 :: nat)"
    and "extra < length body" "is_alpha (hd body)" "CHR ''<'' \<notin> set body" "CHR ''>'' \<notin> set body"
    and "map to_lower (takeWhile tag_name_char (take (length body - extra) body)) \<notin> set void_elements"
  shows "closing_tag (before @ lead @ codes_of (CHR ''<'' # body) @ 62 # rest)
      (length before + length lead + length body + 2) =
    ''</'' @ map to_lower (takeWhile tag_name_char (take (length body - extra) body)) @ ''>''"
proof -
  let ?line = "lead @ codes_of (CHR ''<'' # body)" and ?cut = "take (length body - extra) body"
  have "\<forall>c \<in> set (CHR ''<'' # body). of_char c < (128 :: nat)" using assms(4) by simp
  then have bytes: "utf8_text ?line = utf8_text lead @ CHR ''<'' # body"
    by (simp only: utf8_text_append utf8_text_ascii)
  have len: "length ?line = length (utf8_text lead) + 1 + length ?cut"
    using assms(3,5) by (simp add: codes_of_def)
  have n: "length ?line \<le> length (utf8_text ?line)"
    unfolding bytes using assms(3) by (simp add: codes_of_def)
  have cut: "take (length ?line) (utf8_text ?line) = utf8_text lead @ CHR ''<'' # ?cut"
    unfolding bytes len by simp
  have b: "?cut \<noteq> ''''" "hd ?cut = hd body" "CHR ''<'' \<notin> set ?cut" "CHR ''>'' \<notin> set ?cut"
    using assms(5,7,8) by (auto dest: in_set_takeD)
  have "suggest_closing_html_tag (utf8_text ?line) (length ?line) =
      suggest_closing_html_tag (utf8_text lead @ CHR ''<'' # ?cut) (length (utf8_text lead) + 1 + length ?cut)"
    using suggest_take [OF n] unfolding cut unfolding len .
  also have "\<dots> = ''</'' @ map to_lower (takeWhile tag_name_char ?cut) @ ''>''"
    using b assms(6,9) by (intro suggest_open_tag) simp_all
  finally show ?thesis
    using closing_tag_at [OF assms(1,2), of rest] by (simp add: codes_of_def add.assoc)
qed


section \<open>What the user sees\<close>

lemma changed_closes:
  assumes "\<not> ed_busy ed" "\<not> ed_paste ed" "closing_tag (ed_text ed) (ed_cursor ed) = close" "close \<noteq> ''''"
  shows "ed_text (changed ed) = take (ed_cursor ed) (ed_text ed) @ codes_of close @ drop (ed_cursor ed) (ed_text ed) \<and>
    ed_cursor (changed ed) = ed_cursor ed \<and> ed_bound (changed ed) = ed_cursor ed"
  using assms
  by (simp add: changed_def auto_close_def on_buffer_changed_def ed_call_def put_text_def place_cursor_def Let_def)

lemma changed_plain:
  assumes "closing_tag (ed_text ed) (ed_cursor ed) = ''''"
  shows "changed ed = on_buffer_changed ed"
  using assms by (simp add: changed_def auto_close_def on_buffer_changed_def ed_call_def Let_def)

lemma ed_type_at:
  assumes "ed_bound ed = ed_cursor ed" "us \<noteq> []"
  shows "ed_type us ed = changed (put_text (ed_cursor ed) us ed)"
  using assms by (simp add: ed_type_def selection_of_def ed_insert_def)

text \<open>A line that is being typed, with the cursor at its end.\<close>

definition typing_at :: "codes \<Rightarrow> codes \<Rightarrow> codes \<Rightarrow> editor \<Rightarrow> bool" where
  "typing_at before line rest ed \<longleftrightarrow> \<not> ed_busy ed \<and> \<not> ed_paste ed \<and>
     ed_text ed = before @ line @ rest \<and> ed_cursor ed = length before + length line \<and> ed_bound ed = ed_cursor ed \<and>
     (before = [] \<or> last before = 0x0A) \<and> (\<forall>u \<in> set line. line_code u)"

text \<open>The text of a tag as it is opened: a name and what follows it.\<close>

definition open_tag :: "string \<Rightarrow> string \<Rightarrow> bool" where
  "open_tag name attrs \<longleftrightarrow> name \<noteq> '''' \<and> is_alpha (hd name) \<and> (\<forall>c \<in> set name. tag_name_char c) \<and>
     (attrs = '''' \<or> \<not> tag_name_char (hd attrs)) \<and> CHR ''<'' \<notin> set attrs \<and> CHR ''>'' \<notin> set attrs \<and>
     (\<forall>c \<in> set attrs. of_char c < (128 :: nat))"

lemma name_char_ascii: "tag_name_char c \<Longrightarrow> of_char c < (128 :: nat)"
  by (auto simp: tag_name_char_def is_alnum_def is_alpha_def is_lower_def is_upper_def is_digit_def less_eq_char_def)

lemma open_tag_body:
  assumes "open_tag name attrs"
  shows "CHR ''<'' \<notin> set (name @ attrs)" "CHR ''>'' \<notin> set (name @ attrs)"
    "\<forall>c \<in> set (name @ attrs). of_char c < (128 :: nat)" "is_alpha (hd (name @ attrs))"
    "takeWhile tag_name_char (name @ attrs) = name"
proof -
  have n: "CHR ''<'' \<notin> set name" "CHR ''>'' \<notin> set name"
    using assms by (auto simp: open_tag_def tag_name_char_def is_alnum_def is_alpha_def is_lower_def is_upper_def
      is_digit_def less_eq_char_def)
  show "CHR ''<'' \<notin> set (name @ attrs)" "CHR ''>'' \<notin> set (name @ attrs)" "is_alpha (hd (name @ attrs))"
    using assms n by (auto simp: open_tag_def)
  show "\<forall>c \<in> set (name @ attrs). of_char c < (128 :: nat)"
    using assms name_char_ascii by (auto simp: open_tag_def)
  show "takeWhile tag_name_char (name @ attrs) = name"
    using assms by (cases attrs) (auto simp: open_tag_def takeWhile_eq_all_conv takeWhile_append2)
qed

lemma typed_tag:
  fixes name attrs seen :: string
  assumes "typing_at before (lead @ codes_of (CHR ''<'' # name @ attrs)) rest ed" "open_tag name attrs"
    and "length (utf8_text lead) = length lead + extra" "extra < length name + length attrs"
    and "seen = map to_lower (takeWhile tag_name_char (take (length name + length attrs - extra) (name @ attrs)))"
    and "seen \<notin> set void_elements"
  shows "ed_text (ed_type [62] ed) = before @ lead @ codes_of (CHR ''<'' # name @ attrs) @ [62] @
      codes_of (''</'' @ seen @ ''>'') @ rest \<and>
    ed_cursor (ed_type [62] ed) = ed_cursor ed + 1 \<and> ed_bound (ed_type [62] ed) = ed_cursor ed + 1"
proof -
  let ?body = "name @ attrs" and ?line = "lead @ codes_of (CHR ''<'' # name @ attrs)"
  let ?ed = "put_text (ed_cursor ed) [62] ed"
  have t: "\<not> ed_busy ed" "\<not> ed_paste ed" "ed_text ed = before @ ?line @ rest" "ed_cursor ed = length before + length ?line"
    "ed_bound ed = ed_cursor ed" "before = [] \<or> last before = 0x0A" "\<forall>u \<in> set ?line. line_code u"
    using assms(1) unfolding typing_at_def by blast+
  have e: "ed_text ?ed = before @ ?line @ 62 # rest" "ed_cursor ?ed = length before + length lead + length ?body + 2"
    "\<not> ed_busy ?ed" "\<not> ed_paste ?ed"
    using t by (simp_all add: put_text_def mark_insert_def codes_of_def)
  have "closing_tag (ed_text ?ed) (ed_cursor ?ed) = ''</'' @ seen @ ''>''"
    using closing_tag_cut [OF t(6,7) assms(3) open_tag_body(3) [OF assms(2)] _ open_tag_body(4,1,2) [OF assms(2)], of rest]
      assms(4,5,6) unfolding e(1,2) by simp
  note c = changed_closes [OF e(3,4) this]
  show ?thesis
    unfolding ed_type_at [OF t(5) not_Cons_self2 [of 62 "[]"]]
    using c t(3,4) e(1,2) by (simp add: codes_of_def)
qed


lemma utf8_text_ascii_length:
  assumes "\<forall>u \<in> set lead. u < 128"
  shows "length (utf8_text lead) = length lead"
proof -
  have "codes_of (map char_of lead) = lead"
    using assms unfolding codes_of_def by (induction lead) (simp_all add: of_char_of)
  moreover have "\<forall>c \<in> set (map char_of lead). of_char c < (128 :: nat)"
    using assms by (auto simp: of_char_of)
  ultimately show ?thesis using utf8_text_ascii [of "map char_of lead"] by simp
qed

text \<open>C35: Typing the bracket that ends an opening tag inserts the closing one behind the cursor, in lower case,
  whatever ASCII attributes without angle brackets the tag has, when nothing is selected or being pasted, the line
  before the tag is plain ASCII and the element is not void.\<close>

theorem typing_closes_tag:
  assumes "typing_at before (lead @ codes_of (CHR ''<'' # name @ attrs)) rest ed" "open_tag name attrs"
    and "\<forall>u \<in> set lead. u < 128" "map to_lower name \<notin> set void_elements"
  shows "ed_text (ed_type [62] ed) = before @ lead @ codes_of (CHR ''<'' # name @ attrs) @ [62] @
      codes_of (''</'' @ map to_lower name @ ''>'') @ rest \<and>
    ed_cursor (ed_type [62] ed) = ed_cursor ed + 1 \<and> ed_bound (ed_type [62] ed) = ed_cursor ed + 1"
proof (rule typed_tag [OF assms(1,2)])
  show "length (utf8_text lead) = length lead + 0" using utf8_text_ascii_length [OF assms(3)] by simp
  show "0 < length name + length attrs" using assms(2) by (simp add: open_tag_def)
  show "map to_lower name \<notin> set void_elements" by (rule assms(4))
  show "map to_lower name =
      map to_lower (takeWhile tag_name_char (take (length name + length attrs - 0) (name @ attrs)))"
    using open_tag_body(5) [OF assms(2)] by simp
qed

text \<open>When characters before the tag take more than one byte, the tag is read with as many of its last
  characters cut off: the closing tag that is inserted is not that of the element.\<close>

theorem multibyte_line_wrong_tag:
  assumes "typing_at before (lead @ codes_of (CHR ''<'' # name)) rest ed" "open_tag name ''''"
    and "length (utf8_text lead) = length lead + extra" "0 < extra" "extra < length name"
    and "map to_lower (take (length name - extra) name) \<notin> set void_elements"
  shows "ed_text (ed_type [62] ed) = before @ lead @ codes_of (CHR ''<'' # name) @ [62] @
      codes_of (''</'' @ map to_lower (take (length name - extra) name) @ ''>'') @ rest \<and>
    map to_lower (take (length name - extra) name) \<noteq> map to_lower name"
proof
  let ?seen = "map to_lower (take (length name - extra) name)"
  have n: "\<forall>c \<in> set (take (length name - extra) name). tag_name_char c"
    using assms(2) by (auto simp: open_tag_def dest: in_set_takeD)
  have "typing_at before (lead @ codes_of (CHR ''<'' # name @ '''')) rest ed" using assms(1) by simp
  from typed_tag [OF this assms(2,3) _ _ assms(6)] assms(5)
  show "ed_text (ed_type [62] ed) = before @ lead @ codes_of (CHR ''<'' # name) @ [62] @
      codes_of (''</'' @ ?seen @ ''>'') @ rest"
    using n by (simp add: takeWhile_eq_all_conv [THEN iffD2])
  have "length ?seen \<noteq> length (map to_lower name)" using assms(4,5) by simp
  then show "?seen \<noteq> map to_lower name" by (rule contrapos_nn) (rule arg_cong)
qed

text \<open>The tag is also closed when a text is loaded: a note whose last line ends with an opening tag is
  shown with a closing tag that its file does not have.\<close>

theorem loading_appends_tag:
  assumes "t = before @ lead @ codes_of (CHR ''<'' # name @ attrs) @ [62]" "\<not> ed_busy ed" "\<not> ed_paste ed"
    and "ed_cursor ed \<le> length (ed_text ed)"
    and "before = [] \<or> last before = 0x0A" "\<forall>u \<in> set (lead @ codes_of (CHR ''<'' # name @ attrs)). line_code u"
    and "open_tag name attrs" "\<forall>u \<in> set lead. u < 128" "map to_lower name \<notin> set void_elements"
  shows "ed_text (ed_set_text t ed) = t @ codes_of (''</'' @ map to_lower name @ ''>'')"
proof -
  define e0 where "e0 = ed_delete 0 (length (ed_text ed)) ed"
  have e0: "ed_text e0 = []" "ed_cursor e0 = 0" "\<not> ed_busy e0" "\<not> ed_paste e0"
  proof -
    let ?c = "cut_text 0 (length (ed_text ed)) ed"
    have "ed_cursor ?c = 0" using assms(4) by (simp add: cut_text_def mark_delete_def)
    then have "changed ?c = on_buffer_changed ?c" by (intro changed_plain) (simp add: closing_tag_def)
    then show "ed_text e0 = []" "ed_cursor e0 = 0" "\<not> ed_busy e0" "\<not> ed_paste e0"
      using assms(2-4) by (auto simp: e0_def ed_delete_def on_buffer_changed_def ed_call_def cut_text_def mark_delete_def)
  qed
  let ?p = "put_text 0 t e0" and ?body = "name @ attrs"
  have t: "t = before @ lead @ codes_of (CHR ''<'' # ?body) @ 62 # []"
    "length t = length before + length lead + length ?body + 2"
    using assms(1) by (simp_all add: codes_of_def)
  have p: "ed_text ?p = t" "ed_cursor ?p = length t" "\<not> ed_busy ?p" "\<not> ed_paste ?p"
    using e0 by (simp_all add: put_text_def mark_insert_def)
  have "length (utf8_text lead) = length lead + 0" using utf8_text_ascii_length [OF assms(8)] by simp
  note c = closing_tag_cut [OF assms(5,6) this open_tag_body(3) [OF assms(7)] _ open_tag_body(4,1,2) [OF assms(7)], of "[]"]
  have "closing_tag t (length t) = ''</'' @ map to_lower name @ ''>''"
    unfolding t(2) unfolding t(1)
    using c assms(7,9) open_tag_body(5) [OF assms(7)] by (simp add: open_tag_def)
  with changed_closes [OF p(3,4)] p have "ed_text (changed ?p) = t @ codes_of (''</'' @ map to_lower name @ ''>'')"
    by simp
  moreover have "t \<noteq> []" using t(2) by auto
  ultimately show ?thesis by (simp add: ed_set_text_def e0_def [symmetric] ed_insert_def)
qed


section \<open>Searching\<close>

text \<open>
  The search context: the next occurrence from a position and whether the search wrapped around to
  find it, the one before a position, the place of an occurrence among all as far as it has looked
  (\<open>- 1\<close> where it has not, 0 for what is no occurrence), their number, and whether a stretch of text is
  one it would replace.  Each depends on the text to find and the text of the note.
\<close>

record searcher =
  sc_forward :: "codes \<Rightarrow> codes \<Rightarrow> nat \<Rightarrow> (nat \<times> nat \<times> bool) option"
  sc_backward :: "codes \<Rightarrow> codes \<Rightarrow> nat \<Rightarrow> (nat \<times> nat \<times> bool) option"
  sc_position :: "codes \<Rightarrow> codes \<Rightarrow> nat \<Rightarrow> nat \<Rightarrow> int"
  sc_count :: "codes \<Rightarrow> codes \<Rightarrow> int"
  sc_replaces :: "codes \<Rightarrow> codes \<Rightarrow> nat \<Rightarrow> nat \<Rightarrow> bool"

text \<open>The visible part of the view: its size and the positions at its first and last line.\<close>

record view_rect =
  vr_width :: int
  vr_height :: int
  vr_top :: nat
  vr_bottom :: nat

definition kOverscanLines :: nat where
  "kOverscanLines = 200"

definition backward_line :: "codes \<Rightarrow> nat \<Rightarrow> nat" where
  "backward_line t i = (let s = line_start t i in if s = 0 then 0 else line_start t (s - 1))"

definition forward_line :: "codes \<Rightarrow> nat \<Rightarrow> nat" where
  "forward_line t i = (case find (starts_line t) [i + 1..<length t + 1] of Some j \<Rightarrow> j | None \<Rightarrow> length t)"

text \<open>The walks stop where there is no line left, which is where a further step stays.\<close>

definition visible_offset_window :: "view_rect \<Rightarrow> codes \<Rightarrow> nat \<times> nat" where
  "visible_offset_window r t =
     (if vr_height r \<le> 0 \<or> vr_width r \<le> 0 then (0, length t)
      else ((backward_line t ^^ kOverscanLines) (vr_top r),
            min (length t) ((forward_line t ^^ kOverscanLines) (vr_bottom r))))"

text \<open>Where the loops look next; a match without characters is stepped over.\<close>

definition after_match :: "nat \<Rightarrow> nat \<Rightarrow> nat \<Rightarrow> nat" where
  "after_match len ms me = (if me = ms then min len (me + 1) else me)"

fun mark_matches :: "nat \<Rightarrow> (nat \<Rightarrow> (nat \<times> nat \<times> bool) option) \<Rightarrow> nat \<Rightarrow> nat \<Rightarrow> nat \<Rightarrow> nat \<Rightarrow> (nat \<times> nat) list \<Rightarrow>
    (nat \<times> nat) list option" where
  "mark_matches 0 fw len ws we probe tags = None"
| "mark_matches (Suc k) fw len ws we probe tags =
     (case fw probe of
        None \<Rightarrow> Some tags
      | Some (ms, me, wrapped) \<Rightarrow>
          if wrapped \<or> we < ms then Some tags
          else if me \<le> ws then mark_matches k fw len ws we me tags
          else mark_matches k fw len ws we (after_match len ms me) (tags @ [(ms, me)]))"

text \<open>\<open>None\<close> is a loop that goes on.\<close>

definition render_search_highlights :: "searcher \<Rightarrow> view_rect \<Rightarrow> editor \<Rightarrow> editor option" where
  "render_search_highlights sc r ed =
     (let ed = ed\<lparr>ed_tags := [], ed_current_tag := None\<rparr>; t = ed_text ed; (ws, we) = visible_offset_window r t
      in if ed_needle ed = [] then Some ed
         else map_option (\<lambda>tags. ed\<lparr>ed_tags := tags,
             ed_current_tag := (if 0 \<le> ed_match_start ed \<and> ed_match_start ed \<le> int we \<and> int ws \<le> ed_match_end ed
               then Some (nat (ed_match_start ed), nat (ed_match_end ed)) else None)\<rparr>)
           (mark_matches (length t + 2) (sc_forward sc (ed_needle ed) t) (length t) ws we ws []))"

definition on_highlight_tick :: "searcher \<Rightarrow> view_rect \<Rightarrow> editor \<Rightarrow> editor option" where
  "on_highlight_tick sc r ed =
     map_option (\<lambda>ed. ed\<lparr>ed_highlight_pending := False, ed_highlight_timer := False\<rparr>)
       (if ed_highlight_pending ed then render_search_highlights sc r ed else Some ed)"

definition on_scroll_tick :: "searcher \<Rightarrow> view_rect \<Rightarrow> editor \<Rightarrow> editor option" where
  "on_scroll_tick sc r ed = render_search_highlights sc r (ed\<lparr>ed_scroll_pending := False\<rparr>)"

definition set_search_text :: "searcher \<Rightarrow> view_rect \<Rightarrow> codes \<Rightarrow> editor \<Rightarrow> editor option" where
  "set_search_text sc r needle ed = render_search_highlights sc r
     (ed\<lparr>ed_needle := needle, ed_occurrence := - 1, ed_match_start := - 1, ed_match_end := - 1\<rparr>)"

definition update_current :: "searcher \<Rightarrow> editor \<Rightarrow> editor" where
  "update_current sc ed =
     (case selection_of ed of
        None \<Rightarrow> ed
      | Some (a, b) \<Rightarrow>
          let pos = sc_position sc (ed_needle ed) (ed_text ed) a b
          in ed\<lparr>ed_match_start := int a, ed_match_end := int b,
                ed_occurrence := (if 0 < pos then pos - 1 else ed_occurrence ed)\<rparr>)"

definition set_replace_text :: "codes \<Rightarrow> editor \<Rightarrow> editor" where
  "set_replace_text us ed = ed\<lparr>ed_replace := us\<rparr>"

definition match_count :: "searcher \<Rightarrow> editor \<Rightarrow> int" where
  "match_count sc ed = sc_count sc (ed_needle ed) (ed_text ed)"

fun count_matches :: "nat \<Rightarrow> (nat \<Rightarrow> (nat \<times> nat \<times> bool) option) \<Rightarrow> nat \<Rightarrow> int \<Rightarrow> nat \<Rightarrow> int \<Rightarrow> int option" where
  "count_matches 0 fw len limit probe n = None"
| "count_matches (Suc k) fw len limit probe n =
     (case fw probe of
        None \<Rightarrow> Some n
      | Some (ms, me, wrapped) \<Rightarrow>
          if wrapped \<or> limit < int ms then Some n
          else count_matches k fw len limit (after_match len ms me) (n + 1))"

definition current_search_position :: "searcher \<Rightarrow> editor \<Rightarrow> (int \<times> int) option" where
  "current_search_position sc ed =
     (let total = match_count sc ed
      in if total \<le> 0 then Some (0, 0)
         else if 0 \<le> ed_occurrence ed then Some (ed_occurrence ed + 1, total)
         else if ed_match_start ed < 0 \<or> ed_needle ed = [] then Some (0, total)
         else map_option (\<lambda>n. (n, total)) (count_matches (length (ed_text ed) + 2)
                (sc_forward sc (ed_needle ed) (ed_text ed)) (length (ed_text ed)) (ed_match_start ed) 0 0))"

text \<open>The match becomes the selection, with the cursor at its start.\<close>

definition go_to_match :: "searcher \<Rightarrow> view_rect \<Rightarrow> nat \<Rightarrow> nat \<Rightarrow> editor \<Rightarrow> editor option" where
  "go_to_match sc r ms me ed =
     render_search_highlights sc r
       (update_current sc (ed_call Scroll_To_Cursor (ed\<lparr>ed_cursor := ms, ed_bound := me\<rparr>)))"

definition do_search :: "searcher \<Rightarrow> view_rect \<Rightarrow> bool \<Rightarrow> editor \<Rightarrow> editor option" where
  "do_search sc r forward ed =
     (if ed_needle ed = [] then Some ed
      else
        let from = (case selection_of ed of Some (a, b) \<Rightarrow> if forward then b else a | None \<Rightarrow> ed_cursor ed);
            found = (if forward then sc_forward sc else sc_backward sc) (ed_needle ed) (ed_text ed) from
        in case found of
             Some (ms, me, _) \<Rightarrow> go_to_match sc r ms me ed
           | None \<Rightarrow>
               if ed_occurrence ed < 0 \<and> forward
               then (case sc_forward sc (ed_needle ed) (ed_text ed) 0 of
                       Some (ms, me, _) \<Rightarrow> go_to_match sc r ms me ed | None \<Rightarrow> Some ed)
               else Some ed)"

abbreviation search_next :: "searcher \<Rightarrow> view_rect \<Rightarrow> editor \<Rightarrow> editor option" where
  "search_next sc r \<equiv> do_search sc r True"

abbreviation search_previous :: "searcher \<Rightarrow> view_rect \<Rightarrow> editor \<Rightarrow> editor option" where
  "search_previous sc r \<equiv> do_search sc r False"

section \<open>Replacing\<close>

text \<open>
  The match to replace: the selection when it is an occurrence, else the next one from its start or the
  cursor.
\<close>

definition match_to_replace :: "searcher \<Rightarrow> editor \<Rightarrow> (nat \<times> nat) option" where
  "match_to_replace sc ed =
     (let n = ed_needle ed; t = ed_text ed;
          next = (\<lambda>p. map_option (\<lambda>(a, b, _). (a, b)) (sc_forward sc n t p))
      in case selection_of ed of
           Some (a, b) \<Rightarrow> if 0 < sc_position sc n t a b then Some (a, b) else next a
         | None \<Rightarrow> next (ed_cursor ed))"

text \<open>
  The library deletes the match and inserts the replacement at the same place of the buffer.  When a
  handler of the deletion changes the text, that place is no longer valid: \<open>None\<close>.
\<close>

definition replace_match :: "nat \<Rightarrow> nat \<Rightarrow> codes \<Rightarrow> editor \<Rightarrow> editor option" where
  "replace_match a b us ed =
     (let cut = ed_delete a b ed
      in if ed_text cut = take a (ed_text ed) @ drop b (ed_text ed) then Some (ed_insert a us cut) else None)"

definition do_replace :: "searcher \<Rightarrow> view_rect \<Rightarrow> editor \<Rightarrow> editor option" where
  "do_replace sc r ed =
     (if ed_replace ed = [] then Some ed
      else case match_to_replace sc ed of
             None \<Rightarrow> Some ed
           | Some (a, b) \<Rightarrow>
               if sc_position sc (ed_needle ed) (ed_text ed) a b = 0 \<or> \<not> sc_replaces sc (ed_needle ed) (ed_text ed) a b
               then Some ed
               else Option.bind (replace_match a b (ed_replace ed) ed) (do_search sc r True))"


section \<open>What a search context promises\<close>

definition apart :: "(nat \<times> nat) list \<Rightarrow> bool" where
  "apart xs \<longleftrightarrow> sorted_wrt (\<lambda>x y. snd x \<le> fst y) xs \<and> (\<forall>x \<in> set xs. fst x < snd x)"

definition inside :: "(nat \<times> nat) list \<Rightarrow> nat \<Rightarrow> bool" where
  "inside xs p \<longleftrightarrow> (\<exists>x \<in> set xs. fst x < p \<and> p < snd x)"

definition wrapped_to :: "(nat \<times> nat) list \<Rightarrow> (nat \<times> nat \<times> bool) option" where
  "wrapped_to xs = (case xs of [] \<Rightarrow> None | x # _ \<Rightarrow> Some (fst x, snd x, True))"

definition next_from :: "(nat \<times> nat) list \<Rightarrow> nat \<Rightarrow> (nat \<times> nat \<times> bool) option" where
  "next_from xs p = (case filter (\<lambda>x. p \<le> fst x) xs of [] \<Rightarrow> wrapped_to xs | x # _ \<Rightarrow> Some (fst x, snd x, False))"

definition previous_from :: "(nat \<times> nat) list \<Rightarrow> nat \<Rightarrow> (nat \<times> nat \<times> bool) option" where
  "previous_from xs p =
     (case rev (filter (\<lambda>x. snd x \<le> p) xs) of [] \<Rightarrow> wrapped_to (rev xs) | x # _ \<Rightarrow> Some (fst x, snd x, False))"

text \<open>
  The text has occurrences that do not overlap, in order.  From a place that is not within one, the
  context finds the next or the previous one and wraps around at the ends; from any place, what it
  finds without wrapping around lies ahead.  The places and the number it tells are those of its list,
  as far as it has looked.
\<close>

locale occurrence_search =
  fixes sc :: searcher and occ :: "codes \<Rightarrow> codes \<Rightarrow> (nat \<times> nat) list"
  assumes apart: "apart (occ n t)"
    and within: "x \<in> set (occ n t) \<Longrightarrow> snd x \<le> length t"
    and forward: "\<not> inside (occ n t) p \<Longrightarrow> sc_forward sc n t p = next_from (occ n t) p"
    and ahead: "sc_forward sc n t p = Some (a, b, False) \<Longrightarrow> p \<le> a \<and> a < b \<and> b \<le> length t"
    and backward: "\<not> inside (occ n t) p \<Longrightarrow> sc_backward sc n t p = previous_from (occ n t) p"
    and position: "sc_position sc n t a b \<in> {- 1, if (a, b) \<in> set (occ n t)
      then int (length (filter (\<lambda>x. fst x \<le> a) (occ n t))) else 0}"
    and count: "sc_count sc n t \<in> {- 1, int (length (occ n t))}"
    and replaces: "sc_replaces sc n t a b \<longleftrightarrow> (a, b) \<in> set (occ n t)"

lemma apart_ConsD:
  assumes "apart (x # xs)"
  shows "apart xs" "fst x < snd x" "y \<in> set xs \<Longrightarrow> snd x \<le> fst y"
  using assms by (auto simp: apart_def)

lemma apart_not_inside:
  assumes "apart (ys @ x # xs)"
  shows "\<not> inside (ys @ x # xs) (snd x)" "\<not> inside (ys @ x # xs) (fst x)"
  using assms by (fastforce simp: apart_def inside_def sorted_wrt_append)+

lemma apart_length:
  assumes "apart xs" "\<And>x. x \<in> set xs \<Longrightarrow> p \<le> fst x \<and> snd x \<le> n" "p \<le> n"
  shows "length xs + p \<le> n"
  using assms
proof (induction xs arbitrary: p)
  case (Cons x xs)
  have x: "p \<le> fst x" "snd x \<le> n" "fst x < snd x" using Cons.prems apart_ConsD(2) by auto
  have "length xs + snd x \<le> n"
    using Cons.prems x by (intro Cons.IH) (auto dest: apart_ConsD)
  with x show ?case by simp
qed simp

text \<open>A walk over the occurrences that has left \<open>ys\<close> behind and looks from \<open>p\<close> on.\<close>

definition walking :: "(nat \<Rightarrow> (nat \<times> nat \<times> bool) option) \<Rightarrow> (nat \<times> nat) list \<Rightarrow> (nat \<times> nat) list \<Rightarrow> nat \<Rightarrow> bool" where
  "walking fw ys xs p \<longleftrightarrow> apart (ys @ xs) \<and> (\<forall>q. \<not> inside (ys @ xs) q \<longrightarrow> fw q = next_from (ys @ xs) q) \<and>
     \<not> inside (ys @ xs) p \<and> (\<forall>y \<in> set ys. snd y \<le> p) \<and> (\<forall>x \<in> set xs. p \<le> fst x)"

lemma filter_walking:
  assumes "apart (ys @ xs)" "\<forall>y \<in> set ys. snd y \<le> p" "\<forall>x \<in> set xs. p \<le> fst x"
  shows "filter (\<lambda>x. p \<le> fst x) (ys @ xs) = xs"
proof -
  have "\<forall>y \<in> set ys. fst y < snd y" using assms(1) by (simp add: apart_def)
  with assms(2) have "\<forall>y \<in> set ys. fst y < p" by (meson order_less_le_trans)
  then have "filter (\<lambda>x. p \<le> fst x) ys = []" by (auto simp: filter_empty_conv)
  with assms(3) show ?thesis by (simp add: filter_id_conv)
qed

lemma walking_end: "walking fw ys [] p \<Longrightarrow> fw p = wrapped_to ys"
  using filter_walking [of ys "[]" p] by (simp add: walking_def next_from_def)

lemma walking_next:
  assumes "walking fw ys (x # xs) p"
  shows "fw p = Some (fst x, snd x, False)" "p \<le> fst x" "fst x < snd x" "walking fw (ys @ [x]) xs (snd x)"
proof -
  have w: "apart (ys @ x # xs)" "\<forall>q. \<not> inside (ys @ x # xs) q \<longrightarrow> fw q = next_from (ys @ x # xs) q"
    "\<not> inside (ys @ x # xs) p" "\<forall>y \<in> set ys. snd y \<le> p" "\<forall>y \<in> set (x # xs). p \<le> fst y"
    using assms by (simp_all add: walking_def)
  have "filter (\<lambda>x. p \<le> fst x) (ys @ x # xs) = x # xs" by (rule filter_walking [OF w(1,4,5)])
  with w(2,3) show "fw p = Some (fst x, snd x, False)" by (simp add: next_from_def)
  show x: "p \<le> fst x" "fst x < snd x" using w(1,5) by (simp_all add: apart_def)
  have "\<forall>y \<in> set (ys @ [x]). snd y \<le> snd x"
    using w(1) x by (fastforce simp: apart_def sorted_wrt_append)
  moreover have "\<forall>y \<in> set xs. snd x \<le> fst y" using w(1) by (simp add: apart_def sorted_wrt_append)
  ultimately show "walking fw (ys @ [x]) xs (snd x)"
    using w(1,2) apart_not_inside(1) [OF w(1)] by (simp add: walking_def)
qed

lemma walking_past:
  assumes "walking fw ys (x # xs) p" "m < fst x"
  shows "filter (\<lambda>x. fst x \<le> m) (x # xs) = []"
proof -
  have "\<forall>y \<in> set xs. snd x \<le> fst y" "fst x < snd x"
    using assms(1) by (simp_all add: walking_def apart_def sorted_wrt_append)
  with assms(2) show ?thesis by (fastforce simp: filter_empty_conv)
qed

lemma mark_matches_walking:
  assumes "walking fw ys xs p" "ws \<le> p" "length xs < k"
  shows "mark_matches k fw len ws we p tags = Some (tags @ filter (\<lambda>x. fst x \<le> we) xs)"
  using assms
proof (induction xs arbitrary: ys p tags k)
  case Nil
  then show ?case using walking_end [OF Nil.prems(1)] by (cases k) (auto simp: wrapped_to_def split: list.splits)
next
  case (Cons x xs)
  note n = walking_next [OF Cons.prems(1)]
  obtain k' where k: "k = Suc k'" "length xs < k'" using Cons.prems(3) by (cases k) auto
  have "mark_matches k' fw len ws we (snd x) (tags @ [x]) = Some ((tags @ [x]) @ filter (\<lambda>x. fst x \<le> we) xs)"
    using Cons.prems(2) n k by (intro Cons.IH [OF n(4)]) simp_all
  then show ?case
    using walking_past [OF Cons.prems(1), of we] n Cons.prems(2) by (simp add: k(1) after_match_def)
qed

lemma count_matches_walking:
  assumes "walking fw ys xs p" "length xs < k"
  shows "count_matches k fw len (int m) p n = Some (n + int (length (filter (\<lambda>x. fst x \<le> m) xs)))"
  using assms
proof (induction xs arbitrary: ys p n k)
  case Nil
  then show ?case using walking_end [OF Nil.prems(1)] by (cases k) (auto simp: wrapped_to_def split: list.splits)
next
  case (Cons x xs)
  note n = walking_next [OF Cons.prems(1)]
  obtain k' where k: "k = Suc k'" "length xs < k'" using Cons.prems(2) by (cases k) auto
  have "count_matches k' fw len (int m) (snd x) (n + 1) = Some ((n + 1) + int (length (filter (\<lambda>x. fst x \<le> m) xs)))"
    using k by (intro Cons.IH [OF n(4)])
  then show ?case
    using walking_past [OF Cons.prems(1), of m] n by (simp add: k(1) after_match_def)
qed


lemma mark_matches_ends:
  assumes "\<And>p a b. fw p = Some (a, b, False) \<Longrightarrow> p \<le> a \<and> a < b \<and> b \<le> len" "len - p < k"
  shows "mark_matches k fw len ws we p tags \<noteq> None"
  using assms(2)
proof (induction k arbitrary: p tags)
  case (Suc k)
  show ?case
  proof (cases "fw p")
    case None
    then show ?thesis by simp
  next
    case (Some m)
    obtain a b w where m: "m = (a, b, w)" by (cases m) auto
    show ?thesis
    proof (cases w)
      case False
      with assms(1) [of p a b] Some m have "p \<le> a" "a < b" "b \<le> len" by simp_all
      moreover from this Suc.prems have "len - b < k" by simp
      ultimately show ?thesis using Suc.IH [of b] Some m False by (simp add: after_match_def)
    qed (use Some m in simp)
  qed
qed simp

lemma apart_split:
  assumes "apart xs" "\<not> inside xs p"
  obtains ys zs where "xs = ys @ zs" "\<forall>y \<in> set ys. snd y \<le> p" "\<forall>z \<in> set zs. p \<le> fst z"
    "zs = filter (\<lambda>x. p \<le> fst x) xs"
proof -
  have "\<exists>ys zs. xs = ys @ zs \<and> (\<forall>y \<in> set ys. snd y \<le> p) \<and> (\<forall>z \<in> set zs. p \<le> fst z)"
    using assms
  proof (induction xs)
    case (Cons x xs)
    show ?case
    proof (cases "p \<le> fst x")
      case True
      have "\<forall>z \<in> set (x # xs). p \<le> fst z"
        using True apart_ConsD(2,3) [OF Cons.prems(1)] by fastforce
      then show ?thesis by (intro exI [of _ "[]"] exI [of _ "x # xs"]) simp
    next
      case False
      then have x: "snd x \<le> p" using Cons.prems(2) by (auto simp: inside_def)
      have "\<not> inside xs p" using Cons.prems(2) by (auto simp: inside_def)
      then obtain ys zs where "xs = ys @ zs" "\<forall>y \<in> set ys. snd y \<le> p" "\<forall>z \<in> set zs. p \<le> fst z"
        using Cons.IH [OF apart_ConsD(1) [OF Cons.prems(1)]] by blast
      then show ?thesis using x by (intro exI [of _ "x # ys"] exI [of _ zs]) simp
    qed
  qed simp
  then obtain ys zs where s: "xs = ys @ zs" "\<forall>y \<in> set ys. snd y \<le> p" "\<forall>z \<in> set zs. p \<le> fst z" by blast
  have "zs = filter (\<lambda>x. p \<le> fst x) xs"
    using filter_walking [OF assms(1) [unfolded s(1)] s(2,3)] s(1) by simp
  with s show thesis by (rule that)
qed

text \<open>The neighbours of an occurrence.\<close>

lemma apart_neighbours:
  assumes "apart xs" "i < length xs"
  shows "filter (\<lambda>x. snd (xs ! i) \<le> fst x) xs = drop (Suc i) xs"
    "filter (\<lambda>x. snd x \<le> fst (xs ! i)) xs = take i xs"
    "filter (\<lambda>x. fst x \<le> fst (xs ! i)) xs = take (Suc i) xs"
    "\<not> inside xs (snd (xs ! i))" "\<not> inside xs (fst (xs ! i))"
proof -
  let ?l = "take i xs" and ?x = "xs ! i" and ?r = "drop (Suc i) xs"
  have xs: "xs = ?l @ ?x # ?r" using assms(2) by (rule id_take_nth_drop)
  have a: "apart (?l @ ?x # ?r)" using assms(1) xs by simp
  have l: "\<forall>y \<in> set ?l. snd y \<le> fst ?x" and r: "\<forall>y \<in> set ?r. snd ?x \<le> fst y"
    and g: "fst ?x < snd ?x" "\<forall>y \<in> set ?l. fst y < snd y" "\<forall>y \<in> set ?r. fst y < snd y"
    using a by (auto simp: apart_def sorted_wrt_append)
  have l1: "filter (\<lambda>x. snd ?x \<le> fst x) ?l = []" "filter (\<lambda>x. snd x \<le> fst ?x) ?l = ?l" "filter (\<lambda>x. fst x \<le> fst ?x) ?l = ?l"
    using l g(1,2) by (fastforce simp: filter_empty_conv filter_id_conv)+
  have r1: "filter (\<lambda>x. snd ?x \<le> fst x) ?r = ?r" "filter (\<lambda>x. snd x \<le> fst ?x) ?r = []" "filter (\<lambda>x. fst x \<le> fst ?x) ?r = []"
    using r g(1,3) by (fastforce simp: filter_empty_conv filter_id_conv)+
  show "filter (\<lambda>x. snd ?x \<le> fst x) xs = ?r"
    using l1(1) r1(1) g(1) by (subst xs) simp
  show "filter (\<lambda>x. snd x \<le> fst ?x) xs = ?l"
    using l1(2) r1(2) g(1) by (subst xs) simp
  show "filter (\<lambda>x. fst x \<le> fst ?x) xs = take (Suc i) xs"
    using l1(3) r1(3) assms(2) by (subst xs) (simp add: take_Suc_conv_app_nth)
  show "\<not> inside xs (snd ?x)" "\<not> inside xs (fst ?x)" using apart_not_inside [OF a] xs by simp_all
qed


section \<open>Highlights and navigation\<close>

context occurrence_search
begin

lemma walking_from:
  assumes "\<not> inside (occ n t) p"
  shows "\<exists>ys. walking (sc_forward sc n t) ys (filter (\<lambda>x. p \<le> fst x) (occ n t)) p"
proof -
  obtain ys zs where s: "occ n t = ys @ zs" "\<forall>y \<in> set ys. snd y \<le> p" "\<forall>z \<in> set zs. p \<le> fst z"
    "zs = filter (\<lambda>x. p \<le> fst x) (occ n t)" by (rule apart_split [OF apart assms])
  have "walking (sc_forward sc n t) ys zs p"
    unfolding walking_def using apart [of n t] forward [of n t] assms s(1-3) by simp
  then show ?thesis using s(4) by blast
qed

lemma occurrences_few: "length (occ n t) \<le> length t"
  using apart_length [OF apart, of n t 0 "length t"] within [of _ n t] by simp

text \<open>Rendering ends and marks what begins in the window.\<close>

lemma render_ends: "render_search_highlights sc r ed \<noteq> None"
proof (cases "ed_needle ed = []")
  case False
  obtain ws we where w: "visible_offset_window r (ed_text ed) = (ws, we)" by (cases "visible_offset_window r (ed_text ed)")
  have "mark_matches (length (ed_text ed) + 2) (sc_forward sc (ed_needle ed) (ed_text ed)) (length (ed_text ed)) ws we ws [] \<noteq> None"
    by (rule mark_matches_ends) (auto dest: ahead)
  then show ?thesis using False w by (simp add: render_search_highlights_def Let_def)
qed (simp add: render_search_highlights_def Let_def split: prod.split)

lemma render_marks:
  assumes "visible_offset_window r (ed_text ed) = (ws, we)" "ed_needle ed \<noteq> []"
    "\<not> inside (occ (ed_needle ed) (ed_text ed)) ws" "render_search_highlights sc r ed = Some ed'"
  shows "ed_tags ed' = filter (\<lambda>x. ws \<le> fst x \<and> fst x \<le> we) (occ (ed_needle ed) (ed_text ed))"
proof -
  let ?occ = "occ (ed_needle ed) (ed_text ed)" and ?xs = "filter (\<lambda>x. ws \<le> fst x) (occ (ed_needle ed) (ed_text ed))"
  obtain ys where y: "walking (sc_forward sc (ed_needle ed) (ed_text ed)) ys ?xs ws"
    using walking_from [OF assms(3)] by blast
  have "length ?xs < length (ed_text ed) + 2"
    by (rule le_less_trans [OF le_trans [OF length_filter_le occurrences_few]]) simp
  from mark_matches_walking [OF y order_refl this]
  have "mark_matches (length (ed_text ed) + 2) (sc_forward sc (ed_needle ed) (ed_text ed)) (length (ed_text ed)) ws we ws [] =
      Some (filter (\<lambda>x. fst x \<le> we) ?xs)" by simp
  then show ?thesis using assms(1,2,4) by (auto simp: render_search_highlights_def Let_def conj_commute)
qed

lemma render_keeps:
  assumes "render_search_highlights sc r ed = Some ed'"
  shows "ed_text ed' = ed_text ed" "ed_needle ed' = ed_needle ed" "ed_cursor ed' = ed_cursor ed"
    "ed_bound ed' = ed_bound ed" "ed_occurrence ed' = ed_occurrence ed" "ed_match_start ed' = ed_match_start ed"
  using assms by (auto simp: render_search_highlights_def Let_def split: prod.splits if_splits)

text \<open>Going to the occurrence at place \<open>j\<close>.\<close>

lemma rank_of:
  assumes "j < length (occ n t)"
  shows "length (filter (\<lambda>x. fst x \<le> fst (occ n t ! j)) (occ n t)) = Suc j"
  using assms Suc_leI [OF assms] by (simp add: apart_neighbours(3) [OF apart assms] min_absorb2)

lemma position_of:
  assumes "j < length (occ n t)"
  shows "sc_position sc n t (fst (occ n t ! j)) (snd (occ n t ! j)) \<in> {- 1, int (Suc j)}"
  using position [of n t "fst (occ n t ! j)" "snd (occ n t ! j)"] assms unfolding rank_of [OF assms] by simp

definition label_of :: "editor \<Rightarrow> nat \<Rightarrow> int" where
  "label_of ed j =
     (let x = occ (ed_needle ed) (ed_text ed) ! j
      in if 0 < sc_position sc (ed_needle ed) (ed_text ed) (fst x) (snd x) \<or> ed_occurrence ed < 0
         then int (Suc j) else ed_occurrence ed + 1)"

lemma go_to_occurrence:
  assumes "j < length (occ (ed_needle ed) (ed_text ed))" "ed_needle ed \<noteq> []"
  obtains ed' where "go_to_match sc r (fst (occ (ed_needle ed) (ed_text ed) ! j)) (snd (occ (ed_needle ed) (ed_text ed) ! j)) ed = Some ed'"
    "ed_text ed' = ed_text ed" "ed_needle ed' = ed_needle ed"
    "(ed_cursor ed', ed_bound ed') = occ (ed_needle ed) (ed_text ed) ! j"
    "sc_count sc (ed_needle ed) (ed_text ed) = int (length (occ (ed_needle ed) (ed_text ed))) \<Longrightarrow>
       current_search_position sc ed' = Some (label_of ed j, int (length (occ (ed_needle ed) (ed_text ed))))"
proof -
  define n t where nt: "n = ed_needle ed" "t = ed_text ed"
  define a b where ab: "a = fst (occ n t ! j)" "b = snd (occ n t ! j)"
  define u where "u = update_current sc (ed_call Scroll_To_Cursor (ed\<lparr>ed_cursor := a, ed_bound := b\<rparr>))"
  have j: "j < length (occ n t)" "n \<noteq> []" using assms by (simp_all add: nt)
  then have "occ n t ! j \<in> set (occ n t)" by simp
  then have lt: "a < b" using apart [of n t] by (auto simp: apart_def ab)
  let ?pos = "sc_position sc n t a b"
  have u: "ed_text u = t" "ed_needle u = n" "ed_cursor u = a" "ed_bound u = b" "ed_match_start u = int a"
    "ed_occurrence u = (if 0 < ?pos then ?pos - 1 else ed_occurrence ed)"
    using lt by (simp_all add: u_def update_current_def selection_of_def ed_call_def Let_def nt min_def max_def)
  obtain ed' where r: "render_search_highlights sc r u = Some ed'" using render_ends [of r u] by auto
  note k = render_keeps [OF r]
  have pos: "?pos = - 1 \<or> ?pos = int (Suc j)" using position_of [OF j(1)] by (simp add: ab)
  have l: "label_of ed j = (if 0 < ?pos \<or> ed_occurrence ed < 0 then int (Suc j) else ed_occurrence ed + 1)"
    by (simp add: label_of_def Let_def nt ab)
  have label: "current_search_position sc ed' = Some (label_of ed j, int (length (occ n t)))"
    if c: "sc_count sc n t = int (length (occ n t))"
  proof (cases "0 < ?pos \<or> 0 \<le> ed_occurrence ed")
    case True
    have "match_count sc ed' = int (length (occ n t))" using c k u by (simp add: match_count_def)
    moreover have "0 < length (occ n t)" by (rule le_less_trans [OF le0 j(1)])
    moreover have "0 \<le> ed_occurrence ed'" "ed_occurrence ed' + 1 = label_of ed j"
      using True pos l k(5) u(6) by auto
    ultimately show ?thesis by (simp add: current_search_position_def Let_def)
  next
    case False
    have z: "\<not> inside (occ n t) 0" by (simp add: inside_def)
    then obtain ys where "walking (sc_forward sc n t) ys (filter (\<lambda>x. 0 \<le> fst x) (occ n t)) 0" using walking_from by blast
    then have y: "walking (sc_forward sc n t) ys (occ n t) 0" by simp
    have "count_matches (length t + 2) (sc_forward sc n t) (length t) (int a) 0 0 = Some (0 + int (length (filter (\<lambda>x. fst x \<le> a) (occ n t))))"
      using occurrences_few [of n t] by (intro count_matches_walking [OF y]) simp
    also have "length (filter (\<lambda>x. fst x \<le> a) (occ n t)) = Suc j"
      using rank_of [OF j(1)] by (simp add: ab)
    finally have m: "count_matches (length t + 2) (sc_forward sc n t) (length t) (int a) 0 0 = Some (int (Suc j))" by simp
    have e: "match_count sc ed' = int (length (occ n t))" "ed_occurrence ed' < 0" "ed_match_start ed' = int a"
      "ed_needle ed' = n" "ed_text ed' = t" using c k u False by (simp_all add: match_count_def)
    moreover have "0 < length (occ n t)" by (rule le_less_trans [OF le0 j(1)])
    ultimately have "current_search_position sc ed' = Some (int (Suc j), int (length (occ n t)))"
      unfolding current_search_position_def Let_def e m using j(2) by simp
    then show ?thesis using l False by simp
  qed
  show thesis
  proof (rule that)
    show "go_to_match sc r (fst (occ (ed_needle ed) (ed_text ed) ! j)) (snd (occ (ed_needle ed) (ed_text ed) ! j)) ed = Some ed'"
      using r by (simp add: go_to_match_def u_def ab nt)
    show "(ed_cursor ed', ed_bound ed') = occ (ed_needle ed) (ed_text ed) ! j" using k u by (simp add: ab nt)
  qed (use k u label in \<open>simp_all add: nt\<close>)
qed

text \<open>The occurrence the search goes to from the one at place \<open>i\<close>.\<close>

lemma search_from_occurrence:
  assumes "i < length (occ (ed_needle ed) (ed_text ed))" "ed_needle ed \<noteq> []"
    "(ed_cursor ed, ed_bound ed) = occ (ed_needle ed) (ed_text ed) ! i"
    "j = (if forwards then Suc i mod length (occ (ed_needle ed) (ed_text ed))
          else (if i = 0 then length (occ (ed_needle ed) (ed_text ed)) else i) - 1)"
  shows "j < length (occ (ed_needle ed) (ed_text ed)) \<and>
    do_search sc r forwards ed = go_to_match sc r (fst (occ (ed_needle ed) (ed_text ed) ! j)) (snd (occ (ed_needle ed) (ed_text ed) ! j)) ed"
proof -
  define n t where nt: "n = ed_needle ed" "t = ed_text ed"
  define xs where "xs = occ n t"
  have i: "i < length xs" "n \<noteq> []" using assms(1,2) by (simp_all add: nt xs_def)
  have a: "apart xs" unfolding xs_def by (rule apart)
  note nb = apart_neighbours [OF a i(1)]
  have m: "ed_cursor ed = fst (xs ! i)" "ed_bound ed = snd (xs ! i)"
    using assms(3) by (simp_all add: nt [symmetric] xs_def [symmetric] prod_eq_iff)
  have "xs ! i \<in> set xs" using i by simp
  then have lt: "fst (xs ! i) < snd (xs ! i)" using a by (simp add: apart_def)
  then have sel: "selection_of ed = Some (fst (xs ! i), snd (xs ! i))" by (simp add: selection_of_def m)
  have jj: "j = (if forwards then Suc i mod length xs else (if i = 0 then length xs else i) - 1)"
    using assms(4) by (simp add: nt xs_def)
  show ?thesis
  proof (cases forwards)
    case True
    have "sc_forward sc n t (snd (xs ! i)) = next_from xs (snd (xs ! i))"
      using forward nb(4) by (simp add: xs_def)
    also have "\<exists>w. next_from xs (snd (xs ! i)) = Some (fst (xs ! j), snd (xs ! j), w)"
    proof (cases "Suc i = length xs")
      case True
      then have "j = 0" using jj \<open>forwards\<close> by simp
      moreover have "filter (\<lambda>x. snd (xs ! i) \<le> fst x) xs = []" using nb(1) True by simp
      moreover have "wrapped_to xs = Some (fst (xs ! 0), snd (xs ! 0), True)"
        using i(1) by (cases xs) (simp_all add: wrapped_to_def)
      ultimately show ?thesis by (auto simp: next_from_def)
    next
      case False
      then have "Suc i < length xs" using i by simp
      then have "j = Suc i" "drop (Suc i) xs = xs ! Suc i # drop (Suc (Suc i)) xs"
        using jj \<open>forwards\<close> by (simp_all add: Cons_nth_drop_Suc)
      then show ?thesis using nb(1) by (auto simp: next_from_def)
    qed
    finally obtain w where f: "sc_forward sc n t (snd (xs ! i)) = Some (fst (xs ! j), snd (xs ! j), w)" by blast
    have "0 < length xs" by (rule le_less_trans [OF le0 i(1)])
    then have "j < length xs" using jj True by (simp del: length_greater_0_conv)
    then show ?thesis using f True i sel
      by (simp add: do_search_def nt [symmetric] xs_def [symmetric] split_beta Let_def)
  next
    case False
    have "sc_backward sc n t (fst (xs ! i)) = previous_from xs (fst (xs ! i))"
      using backward nb(5) by (simp add: xs_def)
    also have "\<exists>w. previous_from xs (fst (xs ! i)) = Some (fst (xs ! j), snd (xs ! j), w)"
    proof (cases i)
      case 0
      then have "j = length xs - 1" using jj False by simp
      moreover have "filter (\<lambda>x. snd x \<le> fst (xs ! i)) xs = []" using nb(2) 0 by simp
      moreover have "wrapped_to (rev xs) = Some (fst (xs ! (length xs - 1)), snd (xs ! (length xs - 1)), True)"
        using i(1) by (cases xs rule: rev_cases) (simp_all add: wrapped_to_def nth_append)
      ultimately show ?thesis by (auto simp: previous_from_def)
    next
      case (Suc k)
      then have "j = k" "take i xs = take k xs @ [xs ! k]"
        using jj False i by (simp_all add: take_Suc_conv_app_nth)
      then show ?thesis using nb(2) by (auto simp: previous_from_def)
    qed
    finally obtain w where f: "sc_backward sc n t (fst (xs ! i)) = Some (fst (xs ! j), snd (xs ! j), w)" by blast
    have "j < length xs" using jj False i by (auto split: if_splits)
    then show ?thesis using f False i sel
      by (simp add: do_search_def nt [symmetric] xs_def [symmetric] split_beta Let_def)
  qed
qed

end


section \<open>Plain text as the term\<close>

fun scan_text :: "codes \<Rightarrow> nat \<Rightarrow> nat \<Rightarrow> codes \<Rightarrow> (nat \<times> nat) list" where
  "scan_text n k skip [] = []"
| "scan_text n k (Suc skip) (u # us) = scan_text n (Suc k) skip us"
| "scan_text n k 0 (u # us) =
     (if take (length n) (u # us) = n then (k, k + length n) # scan_text n (Suc k) (length n - 1) us
      else scan_text n (Suc k) 0 us)"

definition literal_occurrences :: "codes \<Rightarrow> codes \<Rightarrow> (nat \<times> nat) list" where
  "literal_occurrences n t = (if n = [] then [] else scan_text n 0 0 t)"

lemma scan_text_range:
  assumes "n \<noteq> []" "x \<in> set (scan_text n k skip us)"
  shows "k + skip \<le> fst x \<and> fst x < snd x \<and> snd x \<le> k + length us"
  using assms(2)
proof (induction us arbitrary: k skip)
  case (Cons u us)
  show ?case
  proof (cases skip)
    case (Suc s)
    then show ?thesis using Cons.IH [of "Suc k" s] Cons.prems by simp
  next
    case 0
    show ?thesis
    proof (cases "take (length n) (u # us) = n")
      case False
      then show ?thesis using Cons.IH [of "Suc k" 0] Cons.prems 0 by simp
    next
      case True
      then have "length n \<le> Suc (length us)" by (metis length_Cons length_take min.cobounded1)
      moreover have "x = (k, k + length n) \<or> x \<in> set (scan_text n (Suc k) (length n - 1) us)"
        using Cons.prems 0 True by simp
      ultimately show ?thesis using Cons.IH [of "Suc k" "length n - 1"] 0 assms(1) by fastforce
    qed
  qed
qed simp

lemma scan_text_apart:
  assumes "n \<noteq> []"
  shows "apart (scan_text n k skip us)"
proof (induction us arbitrary: k skip)
  case (Cons u us)
  show ?case
  proof (cases "skip = 0 \<and> take (length n) (u # us) = n")
    case True
    have "k + length n \<le> fst x" if "x \<in> set (scan_text n (Suc k) (length n - 1) us)" for x
      using scan_text_range [OF assms that] assms by (cases n) simp_all
    with Cons.IH [of "Suc k" "length n - 1"] True assms show ?thesis by (simp add: apart_def)
  next
    case False
    then show ?thesis using Cons.IH by (cases skip) simp_all
  qed
qed (simp add: apart_def)

definition literal_search :: searcher where
  "literal_search = \<lparr>sc_forward = (\<lambda>n t. next_from (literal_occurrences n t)),
     sc_backward = (\<lambda>n t. previous_from (literal_occurrences n t)),
     sc_position = (\<lambda>n t a b. if (a, b) \<in> set (literal_occurrences n t)
       then int (length (filter (\<lambda>x. fst x \<le> a) (literal_occurrences n t))) else 0),
     sc_count = (\<lambda>n t. int (length (literal_occurrences n t))),
     sc_replaces = (\<lambda>n t a b. (a, b) \<in> set (literal_occurrences n t))\<rparr>"

lemma literal_range:
  assumes "x \<in> set (literal_occurrences n t)"
  shows "fst x < snd x \<and> snd x \<le> length t"
  using assms scan_text_range [of n x 0 0 t] by (auto simp: literal_occurrences_def split: if_splits)

lemma next_from_ahead:
  assumes "next_from xs p = Some (a, b, False)"
  shows "p \<le> a \<and> (a, b) \<in> set xs"
proof (cases "filter (\<lambda>x. p \<le> fst x) xs")
  case Nil
  with assms show ?thesis by (auto simp: next_from_def wrapped_to_def split: list.splits)
next
  case (Cons x ys)
  then have "x \<in> set (filter (\<lambda>x. p \<le> fst x) xs)" by simp
  then have "p \<le> fst x" "x \<in> set xs" by simp_all
  with Cons assms show ?thesis by (auto simp: next_from_def)
qed

interpretation literal: occurrence_search literal_search literal_occurrences
proof
  show "apart (literal_occurrences n t)" for n t
    using scan_text_apart by (simp add: literal_occurrences_def apart_def)
  show "p \<le> a \<and> a < b \<and> b \<le> length t" if "sc_forward literal_search n t p = Some (a, b, False)" for n t p a b
    using next_from_ahead that literal_range [of "(a, b)" n t] by (simp add: literal_search_def)
qed (auto simp: literal_search_def dest: literal_range)


context occurrence_search
begin

lemma cycles:
  assumes "ed_needle ed \<noteq> []" "xs = occ (ed_needle ed) (ed_text ed)" "i < length xs"
    "(ed_cursor ed, ed_bound ed) = xs ! i" "j = Suc i mod length xs"
  shows "\<exists>ed' ed''. search_next sc r ed = Some ed' \<and> ed_text ed' = ed_text ed \<and> (ed_cursor ed', ed_bound ed') = xs ! j \<and>
    search_previous sc r ed' = Some ed'' \<and> (ed_cursor ed'', ed_bound ed'') = xs ! i \<and>
    (match_count sc ed = int (length xs) \<longrightarrow> current_search_position sc ed' = Some (label_of ed j, int (length xs)))"
proof -
  have n: "do_search sc r True ed = go_to_match sc r (fst (xs ! j)) (snd (xs ! j)) ed" "j < length xs"
    using search_from_occurrence [of i ed j True r] assms by simp_all
  obtain ed' where e: "go_to_match sc r (fst (xs ! j)) (snd (xs ! j)) ed = Some ed'" "ed_text ed' = ed_text ed"
    "ed_needle ed' = ed_needle ed" "(ed_cursor ed', ed_bound ed') = xs ! j"
    "match_count sc ed = int (length xs) \<Longrightarrow> current_search_position sc ed' = Some (label_of ed j, int (length xs))"
    using go_to_occurrence [of j ed r] assms(1,2) n(2) unfolding match_count_def by metis
  have xs: "xs = occ (ed_needle ed') (ed_text ed')" using assms(2) e by simp
  have prev: "i = (if j = 0 then length xs else j) - 1"
  proof (cases "Suc i = length xs")
    case False
    then have "Suc i < length xs" using assms(3) by simp
    then show ?thesis using assms(5) by simp
  qed (use assms(5) in simp)
  have p: "do_search sc r False ed' = go_to_match sc r (fst (xs ! i)) (snd (xs ! i)) ed'"
    using search_from_occurrence [of j ed' i False r] xs n(2) e(3,4) assms(1) prev by simp
  obtain ed'' where "go_to_match sc r (fst (xs ! i)) (snd (xs ! i)) ed' = Some ed''" "(ed_cursor ed'', ed_bound ed'') = xs ! i"
    using go_to_occurrence [of i ed' r] xs assms(1,3) e(3) by metis
  with n e p show ?thesis by auto
qed

end

section \<open>Properties\<close>

text \<open>C34: Highlighting always ends, although the search wraps around for ever, and what it marks are exactly the
  occurrences that begin in the lines on the screen and the 200 before and behind them, provided that no
  occurrence crosses the start of these lines.\<close>

theorem render_marks_window:
  assumes "occurrence_search sc occ"
  shows "\<exists>ed'. render_search_highlights sc r ed = Some ed' \<and> ed_text ed' = ed_text ed \<and>
    (ed_needle ed \<noteq> [] \<and> visible_offset_window r (ed_text ed) = (ws, we) \<and> \<not> inside (occ (ed_needle ed) (ed_text ed)) ws \<longrightarrow>
      ed_tags ed' = filter (\<lambda>x. ws \<le> fst x \<and> fst x \<le> we) (occ (ed_needle ed) (ed_text ed)))"
proof -
  obtain ed' where r: "render_search_highlights sc r ed = Some ed'"
    using occurrence_search.render_ends [OF assms, of r ed] by auto
  with occurrence_search.render_marks [OF assms _ _ _ r] occurrence_search.render_keeps(1) [OF assms r]
  show ?thesis by blast
qed

text \<open>Searching forward visits the occurrences in turn and starts again behind the last, and searching backward
  returns.  The position shown is that of the selected occurrence when the library's scan has reached it, and
  also when no place was known before; but when it has not and the place of an earlier match is still
  remembered, that stale one is shown.\<close>

theorem search_cycles:
  assumes "occurrence_search sc occ" "ed_needle ed \<noteq> []" "xs = occ (ed_needle ed) (ed_text ed)" "i < length xs"
    "(ed_cursor ed, ed_bound ed) = xs ! i" "j = Suc i mod length xs"
  shows "\<exists>ed' ed''. search_next sc r ed = Some ed' \<and> ed_text ed' = ed_text ed \<and> (ed_cursor ed', ed_bound ed') = xs ! j \<and>
    search_previous sc r ed' = Some ed'' \<and> (ed_cursor ed'', ed_bound ed'') = xs ! i \<and>
    (match_count sc ed = int (length xs) \<longrightarrow>
      current_search_position sc ed' = Some
        (if 0 < sc_position sc (ed_needle ed) (ed_text ed) (fst (xs ! j)) (snd (xs ! j)) \<or> ed_occurrence ed < 0
         then int (Suc j) else ed_occurrence ed + 1, int (length xs)))"
  using occurrence_search.cycles [OF assms, of r]
  unfolding occurrence_search.label_of_def [OF assms(1)] Let_def assms(3) [symmetric] .


text \<open>Replacing a match that stands right behind an opening tag is undefined: the deletion is taken for the
  typing of the tag's bracket, the closing tag is inserted, and the library goes on to insert the
  replacement at a place of the buffer that is no longer valid.\<close>

theorem replace_after_tag_undefined:
  assumes "occurrence_search sc occ" "ed_text ed = before @ lead @ codes_of (CHR ''<'' # name @ attrs) @ 62 # found @ rest"
    and "a = length before + length lead + length name + length attrs + 2" "b = a + length found" "found \<noteq> []"
    and "ed_cursor ed = a" "ed_bound ed = b" "(a, b) \<in> set (occ (ed_needle ed) (ed_text ed))" "ed_replace ed \<noteq> []"
    and "\<not> ed_busy ed" "\<not> ed_paste ed"
    and "before = [] \<or> last before = 0x0A" "\<forall>u \<in> set (lead @ codes_of (CHR ''<'' # name @ attrs)). line_code u"
    and "open_tag name attrs" "\<forall>u \<in> set lead. u < 128" "map to_lower name \<notin> set void_elements"
    and "0 < sc_position sc (ed_needle ed) (ed_text ed) a b"
  shows "do_replace sc r ed = None"
proof -
  let ?c = "cut_text a b ed" and ?close = "''</'' @ map to_lower name @ ''>''"
  have sel: "match_to_replace sc ed = Some (a, b)"
    using assms(4-7,17) by (simp add: match_to_replace_def selection_of_def Let_def)
  have rep: "sc_replaces sc (ed_needle ed) (ed_text ed) a b"
    using occurrence_search.replaces [OF assms(1)] assms(8) by simp
  have t: "ed_text ?c = before @ lead @ codes_of (CHR ''<'' # name @ attrs) @ 62 # rest"
    unfolding cut_text_def assms(2-4) by (simp add: codes_of_def)
  have c: "ed_cursor ?c = a" "\<not> ed_busy ?c" "\<not> ed_paste ?c"
    using assms(6,10,11) by (simp_all add: cut_text_def mark_delete_def)
  have "length (utf8_text lead) = length lead + 0" using utf8_text_ascii_length [OF assms(15)] by simp
  note k = closing_tag_cut [OF assms(12,13) this open_tag_body(3) [OF assms(14)] _ open_tag_body(4,1,2) [OF assms(14)], of rest]
  have "closing_tag (before @ lead @ codes_of (CHR ''<'' # name @ attrs) @ 62 # rest) a = ?close"
    unfolding assms(3)
    using k assms(14,16) open_tag_body(5) [OF assms(14)] by (simp add: open_tag_def add.assoc)
  then have "closing_tag (ed_text ?c) (ed_cursor ?c) = ?close" by (simp only: t c(1))
  from changed_closes [OF c(2,3) this]
  have "length (ed_text (changed ?c)) = length (ed_text ?c) + length ?close"
    using assms(3) by (simp add: t c(1) codes_of_def)
  moreover have "ed_text ?c = take a (ed_text ed) @ drop b (ed_text ed)" by (simp add: cut_text_def)
  ultimately have "ed_text (changed ?c) \<noteq> take a (ed_text ed) @ drop b (ed_text ed)" by auto
  then have "replace_match a b (ed_replace ed) ed = None"
    using assms(4,5) by (simp add: replace_match_def ed_delete_def Let_def)
  then show ?thesis using sel rep assms(9,17) by (simp add: do_replace_def)
qed

section \<open>Examples\<close>

definition demo_typed :: "codes \<Rightarrow> editor" where
  "demo_typed t = new_editor\<lparr>ed_text := t, ed_cursor := length t, ed_bound := length t\<rparr>"

lemma demo_typing:
  assumes "\<forall>u \<in> set t. line_code u"
  shows "typing_at [] t [] (demo_typed t)"
  using assms by (simp add: typing_at_def demo_typed_def new_editor_def)

theorem typing_closes_tag_witness:
  "ed_text (ed_type [62] (demo_typed (codes_of ''x <Div id=1''))) = codes_of ''x <Div id=1></div>''"
proof -
  have "typing_at [] (codes_of ''x '' @ codes_of (CHR ''<'' # ''Div'' @ '' id=1'')) [] (demo_typed (codes_of ''x <Div id=1''))"
    using demo_typing [of "codes_of ''x <Div id=1''"] by (simp add: codes_of_def line_code_def)
  moreover have "open_tag ''Div'' '' id=1''" by code_simp
  moreover have "\<forall>u \<in> set (codes_of ''x ''). u < 128" "map to_lower ''Div'' \<notin> set void_elements" by code_simp+
  moreover have "codes_of ''x '' @ codes_of (CHR ''<'' # ''Div'' @ '' id=1'') @ [62] @ codes_of (''</'' @ map to_lower ''Div'' @ ''>'') =
      codes_of ''x <Div id=1></div>''" by code_simp
  ultimately show ?thesis using typing_closes_tag [of "[]" "codes_of ''x ''" "''Div''" "'' id=1''" "[]"] by simp
qed

theorem multibyte_line_wrong_tag_witness:
  "ed_text (ed_type [62] (demo_typed (0xE9 # codes_of ''<div''))) = 0xE9 # codes_of ''<div></di>''"
proof -
  have "typing_at [] ([0xE9] @ codes_of (CHR ''<'' # ''div'')) [] (demo_typed (0xE9 # codes_of ''<div''))"
    using demo_typing [of "0xE9 # codes_of ''<div''"] by (simp add: codes_of_def line_code_def)
  moreover have "open_tag ''div'' ''''" "map to_lower (take (length ''div'' - 1) ''div'') \<notin> set void_elements"
    "length (utf8_text [0xE9]) = length [0xE9 :: nat] + 1" by code_simp+
  moreover have "codes_of (CHR ''<'' # ''div'') @ [62] @ codes_of (''</'' @ map to_lower (take (length ''div'' - 1) ''div'') @ ''>'') =
      codes_of ''<div></di>''" by code_simp
  ultimately show ?thesis using multibyte_line_wrong_tag [of "[]" "[0xE9]" "''div''" "[]" _ 1] by simp
qed

theorem loading_appends_tag_witness:
  "ed_text (ed_set_text (codes_of ''<b>'') new_editor) = codes_of ''<b></b>''"
proof -
  have "codes_of ''<b>'' = [] @ [] @ codes_of (CHR ''<'' # ''b'' @ '''') @ [62]" "open_tag ''b'' ''''"
    "map to_lower ''b'' \<notin> set void_elements" by code_simp+
  moreover have "\<forall>u \<in> set ([] @ codes_of (CHR ''<'' # ''b'' @ '''')). line_code u" by (simp add: codes_of_def line_code_def)
  moreover have "codes_of ''<b>'' @ codes_of (''</'' @ map to_lower ''b'' @ ''>'') = codes_of ''<b></b>''" by code_simp
  ultimately show ?thesis
    using loading_appends_tag [of "codes_of ''<b>''" "[]" "[]" "''b''" "''''" new_editor] by (simp add: new_editor_def)
qed

text \<open>Two occurrences of a word, the first one selected.\<close>

definition demo_search :: editor where
  "demo_search = new_editor\<lparr>ed_text := codes_of ''ab ab'', ed_needle := codes_of ''ab'', ed_cursor := 0, ed_bound := 2\<rparr>"

definition demo_rect :: view_rect where
  "demo_rect = \<lparr>vr_width = 0, vr_height = 0, vr_top = 0, vr_bottom = 0\<rparr>"

lemma demo_occurrences: "literal_occurrences (ed_needle demo_search) (ed_text demo_search) = [(0, 2), (3, 5)]"
  by code_simp

theorem render_marks_window_witness:
  "\<exists>ed'. render_search_highlights literal_search demo_rect demo_search = Some ed' \<and> ed_tags ed' = [(0, 2), (3, 5)]"
proof -
  have "ed_needle demo_search \<noteq> []" "visible_offset_window demo_rect (ed_text demo_search) = (0, 5)" by code_simp+
  then show ?thesis
    using render_marks_window [OF literal.occurrence_search_axioms, of demo_rect demo_search 0 5] demo_occurrences
    by (auto simp: inside_def)
qed

theorem search_cycles_witness:
  "\<exists>ed'. search_next literal_search demo_rect demo_search = Some ed' \<and> (ed_cursor ed', ed_bound ed') = (3, 5) \<and>
    current_search_position literal_search ed' = Some (2, 2)"
proof -
  have "ed_needle demo_search \<noteq> []" "(ed_cursor demo_search, ed_bound demo_search) = [(0, 2), (3, 5)] ! 0"
    "match_count literal_search demo_search = int (length [(0 :: nat, 2 :: nat), (3, 5)])" "ed_occurrence demo_search < 0"
    by code_simp+
  then show ?thesis
    using search_cycles [OF literal.occurrence_search_axioms _ demo_occurrences [symmetric], of 0 1 demo_rect] by auto
qed

definition demo_replace :: editor where
  "demo_replace = new_editor\<lparr>ed_text := codes_of ''<b>x'', ed_needle := codes_of ''x'', ed_replace := codes_of ''y'',
     ed_cursor := 3, ed_bound := 4\<rparr>"

theorem replace_after_tag_undefined_witness: "do_replace literal_search demo_rect demo_replace = None"
proof -
  have "ed_text demo_replace = [] @ [] @ codes_of (CHR ''<'' # ''b'' @ '''') @ 62 # codes_of ''x'' @ []" "open_tag ''b'' ''''"
    "map to_lower ''b'' \<notin> set void_elements" "codes_of ''x'' \<noteq> []" "ed_replace demo_replace \<noteq> []"
    "(3, 4) \<in> set (literal_occurrences (ed_needle demo_replace) (ed_text demo_replace))"
    "0 < sc_position literal_search (ed_needle demo_replace) (ed_text demo_replace) 3 4" by code_simp+
  moreover have "\<forall>u \<in> set ([] @ codes_of (CHR ''<'' # ''b'' @ '''')). line_code u" by (simp add: codes_of_def line_code_def)
  ultimately show ?thesis
    using replace_after_tag_undefined [OF literal.occurrence_search_axioms, of demo_replace "[]" "[]" "''b''" "''''" "codes_of ''x''" "[]" 3 4]
    by (simp add: demo_replace_def new_editor_def codes_of_def)
qed

end
