(* ===== verification/Directory_Panel.thy ===== *)
theory Directory_Panel
  imports Paths Floating Workspace_Model
begin

text \<open>
  \<^verbatim>\<open>gui/window/directory_tree_panel.hpp\<close> and \<^verbatim>\<open>.cpp\<close>: the tree of files in the sidebar.  A row of the tree is
  its head, what the widget shows and the data attached to it, with the rows of its children box.

  The file system is a parameter, one for each moment it is looked at: the entries of a directory in
  the order the system lists them, and what exists.  What creating, renaming and deleting make of it is
  the system's answer.  The layout is a parameter too: where each row is, and the scrolled window's
  adjustment.
\<close>

section \<open>Files and rows\<close>

text \<open>The size of a file is missing when reading it or its time fails; listing a directory may fail too.\<close>

datatype entry_kind = Folder | Regular_File "nat option" | Other_Entry

record disk_env =
  de_list :: "string \<Rightarrow> (string \<times> entry_kind) list option"
  de_exists :: "string \<Rightarrow> bool"
  de_point :: char

record row_head =
  rh_path :: string
  rh_label :: string
  rh_selected :: bool
  rh_size :: "string option"
  rh_arrow :: "bool option"
  rh_full :: bool
  rh_box :: bool
  rh_shown :: bool

datatype row = Row (row_head: row_head) (row_kids: "row list")

fun rows_of :: "row \<Rightarrow> row list" where
  "rows_of (Row h ks) = Row h ks # concat (map rows_of ks)"

text \<open>\<^verbatim>\<open>collect_containers\<close>: a row before its children, shown or not.\<close>

definition collect_containers :: "row list \<Rightarrow> row list" where
  "collect_containers rs = concat (map rows_of rs)"

definition find_container :: "string \<Rightarrow> row list \<Rightarrow> row option" where
  "find_container path rs = find (\<lambda>r. rh_path (row_head r) = path) (collect_containers rs)"

fun map_heads :: "(row_head \<Rightarrow> row_head) \<Rightarrow> row \<Rightarrow> row" where
  "map_heads f (Row h ks) = Row (f h) (map (map_heads f) ks)"

text \<open>The row of a path is changed in place; a listing has no name twice, so there is at most one.\<close>

fun upd_row :: "string \<Rightarrow> (row \<Rightarrow> row) \<Rightarrow> row \<Rightarrow> row" where
  "upd_row path f (Row h ks) = (if rh_path h = path then f (Row h ks) else Row h (map (upd_row path f) ks))"

section \<open>Labels\<close>

text \<open>\<^verbatim>\<open>%.1f\<close> of a number that is not negative.\<close>

definition one_decimal :: "char \<Rightarrow> dbl \<Rightarrow> string" where
  "one_decimal point x =
     (case x of
        Fin r \<Rightarrow> let n = nat (round_even (10 * r)) in dec_of_nat (n div 10) @ [point] @ dec_of_nat (n mod 10)
      | _ \<Rightarrow> ''inf'')"

definition format_file_size :: "char \<Rightarrow> nat \<Rightarrow> string" where
  "format_file_size point bytes =
     (if bytes < 1024 then dec_of_nat bytes @ '' B''
      else if bytes < 1024 * 1024 then dec_of_nat (bytes div 1024) @ '' KB''
      else if bytes < 1024 * 1024 * 1024
        then one_decimal point (dbl_div (round64 (of_nat bytes)) (Fin (1024 * 1024))) @ '' MB''
      else one_decimal point (dbl_div (round64 (of_nat bytes)) (Fin (1024 * 1024 * 1024))) @ '' GB'')"

definition item_count :: "nat \<Rightarrow> string" where
  "item_count n = dec_of_nat n @ (if n = 1 then '' item'' else '' items'')"

definition matches_filter :: "string \<Rightarrow> string \<Rightarrow> bool" where
  "matches_filter flt name \<longleftrightarrow> flt = '''' \<or> contains (map to_lower flt) (map to_lower name)"

section \<open>Building rows\<close>

text \<open>Directories come first; names are compared byte by byte.\<close>

definition sort_entries :: "(string \<times> entry_kind) list \<Rightarrow> (string \<times> entry_kind) list" where
  "sort_entries es = sort_key fst (filter (\<lambda>(_, k). k = Folder) es) @ sort_key fst (filter (\<lambda>(_, k). k \<noteq> Folder) es)"

definition hidden_name :: "string \<Rightarrow> bool" where
  "hidden_name name \<longleftrightarrow> starts_with ''.'' name"

text \<open>What gets a row, and whether it is a directory's.\<close>

definition shown_entries :: "(string \<times> entry_kind) list \<Rightarrow> (string \<times> entry_kind) list" where
  "shown_entries es = filter (\<lambda>(name, k). \<not> hidden_name name \<and> k \<noteq> Other_Entry) (sort_entries es)"

definition is_open :: "string list \<Rightarrow> string \<Rightarrow> bool" where
  "is_open ex path \<longleftrightarrow> (\<exists>p \<in> set ex. path_eq p path)"

text \<open>
  A row and, below an expanded directory, the rows of its entries.  Links may lead back, so that the
  recursion is over what is expanded, not over the files; \<open>None\<close> is a recursion that goes deeper than
  the fuel.
\<close>

fun create_row :: "nat \<Rightarrow> disk_env \<Rightarrow> string list \<Rightarrow> string \<Rightarrow> string \<Rightarrow> entry_kind \<Rightarrow> string \<Rightarrow> row option" where
  "create_row 0 d ex sel name kind path = None"
| "create_row (Suc fuel) d ex sel name kind path =
     (let es = (case de_list d path of Some es \<Rightarrow> es | None \<Rightarrow> []);
          h = \<lparr>rh_path = path, rh_label = name, rh_selected = path_eq path sel, rh_size = None, rh_arrow = None,
               rh_full = False, rh_box = False, rh_shown = False\<rparr>
      in if name = ''..'' then Some (Row (h\<lparr>rh_label := ''Back ..''\<rparr>) [])
         else case kind of
           Folder \<Rightarrow>
             (let full = es \<noteq> []; shown = full \<and> is_open ex path;
                  h = h\<lparr>rh_size := Some (item_count (length es)), rh_arrow := Some shown, rh_full := full,
                        rh_box := True, rh_shown := shown\<rparr>
              in if shown
                 then map_option (Row h) (those (map (\<lambda>(n, k). create_row fuel d ex sel n k (path_div path n)) (shown_entries es)))
                 else Some (Row h []))
         | Regular_File sz \<Rightarrow> Some (Row (h\<lparr>rh_size := map_option (format_file_size (de_point d)) sz\<rparr>) [])
         | Other_Entry \<Rightarrow> Some (Row h []))"

definition populate_children :: "disk_env \<Rightarrow> string list \<Rightarrow> string \<Rightarrow> string \<Rightarrow> row list option" where
  "populate_children d ex sel dir =
     (case de_list d dir of
        None \<Rightarrow> Some []
      | Some es \<Rightarrow> those (map (\<lambda>(n, k). create_row (Suc (length ex)) d ex sel n k (path_div dir n)) (shown_entries es)))"

definition top_rows :: "disk_env \<Rightarrow> string list \<Rightarrow> string \<Rightarrow> string \<Rightarrow> string \<Rightarrow> row list option" where
  "top_rows d ex sel flt dir =
     (let parent = (if has_parent_path dir \<and> matches_filter flt ''..''
                    then [(''..'', Folder, parent_path dir)] else []);
          es = (case de_list d dir of Some es \<Rightarrow> es | None \<Rightarrow> []);
          entries = map (\<lambda>(n, k). (n, k, path_div dir n)) (filter (\<lambda>(n, _). matches_filter flt n) (shown_entries es))
      in those (map (\<lambda>(n, k, p). create_row (Suc (length ex)) d ex sel n k p) (parent @ entries)))"

section \<open>The panel\<close>

datatype panel_timer = Refresh_Timer | Reconcile_Timer string

record panel =
  pn_dir :: string
  pn_filter :: string
  pn_expanded :: "string list"
  pn_selected :: string
  pn_anchor :: string
  pn_offset :: dbl
  pn_force_top :: bool
  pn_first_show :: bool
  pn_rows :: "row list"
  pn_label :: string
  pn_monitored :: "string option"
  pn_timer :: "panel_timer option"
  pn_reveal :: "string option"

definition new_panel :: "string \<Rightarrow> panel" where
  "new_panel home = \<lparr>pn_dir = home, pn_filter = '''', pn_expanded = [], pn_selected = '''', pn_anchor = '''',
     pn_offset = Fin 0, pn_force_top = False, pn_first_show = True, pn_rows = [], pn_label = '''', pn_monitored = None,
     pn_timer = None, pn_reveal = None\<rparr>"

text \<open>The layout: the scrolled window, and where a row is, once it is laid out, and how high.\<close>

record tree_layout =
  le_scroll :: dbl
  le_page :: dbl
  le_upper :: dbl
  le_y :: "string \<Rightarrow> dbl option"
  le_height :: "string \<Rightarrow> dbl"
  le_mapped :: "string \<Rightarrow> bool"

text \<open>The last row that begins above the top of the window.\<close>

definition anchor_step :: "tree_layout \<Rightarrow> string \<times> dbl \<Rightarrow> string \<Rightarrow> string \<times> dbl" where
  "anchor_step l = (\<lambda>(best, best_y) path.
     case le_y l path of
       Some y \<Rightarrow> if dbl_le y (dbl_add (le_scroll l) (Fin (1 / 2))) \<and> dbl_le best_y y then (path, y) else (best, best_y)
     | None \<Rightarrow> (best, best_y))"

definition capture_scroll_anchor :: "tree_layout \<Rightarrow> panel \<Rightarrow> panel" where
  "capture_scroll_anchor l p =
     (let (best, y) = foldl (anchor_step l) ('''', Fin (- 1)) (map (rh_path \<circ> row_head) (collect_containers (pn_rows p)))
      in if best \<noteq> '''' then p\<lparr>pn_anchor := best, pn_offset := dbl_sub (le_scroll l) y\<rparr> else p\<lparr>pn_anchor := ''''\<rparr>)"

text \<open>Where the idle handler of a refresh scrolls to, if anywhere.\<close>

definition restore_scroll :: "tree_layout \<Rightarrow> panel \<Rightarrow> dbl option" where
  "restore_scroll l p =
     (if pn_anchor p = '''' then Some (Fin 0)
      else case find_container (pn_anchor p) (pn_rows p) of
             None \<Rightarrow> None
           | Some r \<Rightarrow> map_option (\<lambda>y. dbl_clamp (dbl_add y (pn_offset p)) (Fin 0)
               (dbl_max (Fin 0) (dbl_sub (le_upper l) (le_page l)))) (le_y l (rh_path (row_head r))))"

definition rebuild_top_level :: "disk_env \<Rightarrow> panel \<Rightarrow> panel option" where
  "rebuild_top_level d p =
     map_option (\<lambda>rs. p\<lparr>pn_rows := rs\<rparr>) (top_rows d (pn_expanded p) (pn_selected p) (pn_filter p) (pn_dir p))"

definition refresh_panel :: "disk_env \<Rightarrow> tree_layout \<Rightarrow> panel \<Rightarrow> panel option" where
  "refresh_panel d l p =
     map_option (\<lambda>p. if pn_force_top p then p\<lparr>pn_anchor := '''', pn_offset := Fin 0, pn_force_top := False\<rparr> else p)
       (rebuild_top_level d (capture_scroll_anchor l p))"

definition refresh_to_top :: "disk_env \<Rightarrow> tree_layout \<Rightarrow> panel \<Rightarrow> panel option" where
  "refresh_to_top d l p = refresh_panel d l (p\<lparr>pn_force_top := True\<rparr>)"

definition first_map :: "disk_env \<Rightarrow> tree_layout \<Rightarrow> panel \<Rightarrow> panel option" where
  "first_map d l p = (if pn_first_show p then refresh_to_top d l (p\<lparr>pn_first_show := False\<rparr>) else Some p)"

definition set_filter :: "disk_env \<Rightarrow> tree_layout \<Rightarrow> string \<Rightarrow> panel \<Rightarrow> panel option" where
  "set_filter d l flt p = refresh_panel d l (p\<lparr>pn_filter := flt\<rparr>)"

definition start_monitor :: "string \<Rightarrow> panel \<Rightarrow> panel" where
  "start_monitor dir p = p\<lparr>pn_monitored := Some dir\<rparr>"

definition set_root :: "disk_env \<Rightarrow> tree_layout \<Rightarrow> string \<Rightarrow> panel \<Rightarrow> panel option" where
  "set_root d l dir p =
     refresh_to_top d l (start_monitor dir
       (p\<lparr>pn_dir := dir, pn_expanded := [], pn_selected := '''', pn_anchor := '''', pn_label := dir\<rparr>))"

section \<open>Selection\<close>

definition apply_selection_visual :: "panel \<Rightarrow> panel" where
  "apply_selection_visual p =
     p\<lparr>pn_rows := map (map_heads (\<lambda>h. h\<lparr>rh_selected := (rh_path h = pn_selected p)\<rparr>)) (pn_rows p)\<rparr>"

definition set_selected :: "string \<Rightarrow> panel \<Rightarrow> panel" where
  "set_selected path p = apply_selection_visual (p\<lparr>pn_selected := path\<rparr>)"

definition expand_path :: "string \<Rightarrow> panel \<Rightarrow> panel" where
  "expand_path path p = (if is_open (pn_expanded p) path then p else p\<lparr>pn_expanded := pn_expanded p @ [path]\<rparr>)"

definition forget_path :: "string \<Rightarrow> panel \<Rightarrow> panel" where
  "forget_path path p = p\<lparr>pn_expanded := filter (\<lambda>q. \<not> path_eq q path) (pn_expanded p)\<rparr>"

text \<open>A click on the row of a directory; whether it has entries was found out when the row was made.\<close>

definition open_row :: "row list \<Rightarrow> row \<Rightarrow> row" where
  "open_row ks r = Row ((row_head r)\<lparr>rh_shown := True, rh_arrow := Some True\<rparr>) ks"

definition close_row :: "row \<Rightarrow> row" where
  "close_row r = Row ((row_head r)\<lparr>rh_shown := False, rh_arrow := Some False\<rparr>) (row_kids r)"

definition click_directory :: "disk_env \<Rightarrow> string \<Rightarrow> panel \<Rightarrow> panel option" where
  "click_directory d path p =
     (let p = set_selected path p
      in case find_container path (pn_rows p) of
           None \<Rightarrow> Some p
         | Some r \<Rightarrow>
             if \<not> rh_full (row_head r) then Some p
             else if is_open (pn_expanded p) path
             then Some ((forget_path path p)\<lparr>pn_rows := map (upd_row path close_row) (pn_rows p)\<rparr>)
             else let p = expand_path path p
                  in map_option (\<lambda>ks. p\<lparr>pn_rows := map (upd_row path (open_row ks)) (pn_rows p)\<rparr>)
                       (populate_children d (pn_expanded p) (pn_selected p) path))"

section \<open>Changes on the disk\<close>

definition recount :: "disk_env \<Rightarrow> string \<Rightarrow> row_head \<Rightarrow> row_head" where
  "recount d dir h =
     (if rh_size h = None then h
      else h\<lparr>rh_size := Some (item_count (length (case de_list d dir of Some es \<Rightarrow> es | None \<Rightarrow> [])))\<rparr>)"

definition reconcile_directory :: "disk_env \<Rightarrow> tree_layout \<Rightarrow> string \<Rightarrow> panel \<Rightarrow> panel option" where
  "reconcile_directory d l dir p =
     (if dir = '''' then Some p
      else if path_eq dir (pn_dir p) then refresh_panel d l p
      else case find_container dir (pn_rows p) of
             None \<Rightarrow> Some p
           | Some r \<Rightarrow>
               if \<not> rh_box (row_head r) then Some p
               else
                 let ex = is_open (pn_expanded p) dir;
                     upd = (\<lambda>ks r. Row (recount d dir ((row_head r)\<lparr>rh_arrow := Some ex, rh_shown := ex\<rparr>)) ks)
                 in map_option (\<lambda>f. apply_selection_visual (p\<lparr>pn_rows := map (upd_row dir f) (pn_rows p)\<rparr>))
                      (if ex then map_option upd (populate_children d (pn_expanded p) (pn_selected p) dir)
                       else Some (\<lambda>r. upd (row_kids r) r)))"

text \<open>The size of a row whose file was written; the row of a directory keeps its own.\<close>

definition update_file_row :: "disk_env \<Rightarrow> nat option \<Rightarrow> string \<Rightarrow> panel \<Rightarrow> panel" where
  "update_file_row d sz path p =
     (case find_container path (pn_rows p) of
        None \<Rightarrow> p
      | Some r \<Rightarrow>
          if rh_size (row_head r) = None then p
          else case sz of
                 None \<Rightarrow> p
               | Some n \<Rightarrow> p\<lparr>pn_rows := map (upd_row path (\<lambda>r. Row ((row_head r)\<lparr>rh_size := Some (format_file_size (de_point d) n)\<rparr>)
                     (row_kids r))) (pn_rows p)\<rparr>)"

definition on_note_saved :: "disk_env \<Rightarrow> tree_layout \<Rightarrow> nat option \<Rightarrow> string \<Rightarrow> panel \<Rightarrow> panel option" where
  "on_note_saved d l sz chosen p =
     (if chosen = '''' then Some p
      else if find_container chosen (pn_rows p) \<noteq> None then Some (update_file_row d sz chosen p)
      else if parent_path chosen \<noteq> '''' then reconcile_directory d l (parent_path chosen) p
      else Some p)"

text \<open>An event of the monitor replaces the timer of the one before; only the last directory is reconciled.\<close>

definition on_monitor_event :: "string option \<Rightarrow> panel \<Rightarrow> panel" where
  "on_monitor_event affected p =
     p\<lparr>pn_timer := Some (case affected of
         None \<Rightarrow> Refresh_Timer
       | Some path \<Rightarrow> if path = '''' then Refresh_Timer else Reconcile_Timer (parent_path path))\<rparr>"

definition on_debounce :: "disk_env \<Rightarrow> tree_layout \<Rightarrow> panel \<Rightarrow> panel option" where
  "on_debounce d l p =
     (let p' = p\<lparr>pn_timer := None\<rparr>
      in case pn_timer p of
           None \<Rightarrow> Some p
         | Some Refresh_Timer \<Rightarrow> refresh_panel d l p'
         | Some (Reconcile_Timer dir) \<Rightarrow> reconcile_directory d l dir p')"


section \<open>Creating, renaming and deleting\<close>

text \<open>
  The walk up from a directory to the root of the tree expands what it passes.  It goes by prefixes of
  the root's name with a separator.  A path that is its own parent is passed for ever: \<open>None\<close>.
\<close>

function expand_up :: "string \<Rightarrow> string \<Rightarrow> panel \<Rightarrow> panel option" where
  "expand_up base path p =
     (if path = '''' \<or> path_eq path base \<or> \<not> starts_with (base @ [slash]) path then Some p
      else if length path \<le> length (parent_path path) then None
      else expand_up base (parent_path path) (expand_path path p))"
  by pat_completeness auto
termination by (relation "measure (\<lambda>(_, path, _). length path)") auto

declare expand_up.simps [simp del]

definition reveal_after_create :: "disk_env \<Rightarrow> tree_layout \<Rightarrow> string \<Rightarrow> string \<Rightarrow> panel \<Rightarrow> panel option" where
  "reveal_after_create d l dir new p =
     Option.bind (expand_up (pn_dir p) dir p) (\<lambda>p.
       map_option (\<lambda>p. if new = '''' then p else p\<lparr>pn_reveal := Some new\<rparr>)
         (refresh_panel d l (set_selected new p)))"

text \<open>Where the idle handler scrolls to, if anywhere, to show the new row.\<close>

definition reveal_target :: "tree_layout \<Rightarrow> string \<Rightarrow> panel \<Rightarrow> dbl option" where
  "reveal_target l path p =
     (case find_container path (pn_rows p) of
        None \<Rightarrow> None
      | Some _ \<Rightarrow>
          (case le_y l path of
             None \<Rightarrow> None
           | Some y \<Rightarrow>
               let bottom = dbl_add y (le_height l path); end_of_page = dbl_add (le_scroll l) (le_page l)
               in if \<not> le_mapped l path \<or> (dbl_le (le_scroll l) y \<and> dbl_le bottom end_of_page) then None
                  else Some (dbl_clamp
                    (if dbl_less y (le_scroll l) then dbl_sub y (Fin 8)
                     else if dbl_less end_of_page bottom then dbl_add (dbl_sub bottom (le_page l)) (Fin 8)
                     else le_scroll l)
                    (Fin 0) (dbl_max (Fin 0) (dbl_sub (le_upper l) (le_page l))))))"

text \<open>
  What the answer to a dialog comes to: a message, with the dialog left open, an exception, or the
  panel.  \<open>made\<close> is the file system after the attempt; making a file fails silently, making a
  directory, renaming and deleting throw.
\<close>

datatype dialog_end = Complaint string | Dialog_Threw | Dialog_Done "panel option"

definition already_exists :: "string \<Rightarrow> string" where
  "already_exists name = ''A file or folder named \"'' @ name @ ''\" already exists in this folder.''"

definition create_file_response :: "disk_env \<Rightarrow> disk_env \<Rightarrow> tree_layout \<Rightarrow> string \<Rightarrow> string \<Rightarrow> panel \<Rightarrow> dialog_end" where
  "create_file_response d made l dir name p =
     (let new = path_div dir name
      in if name = '''' then Complaint ''File name cannot be empty.''
         else if de_exists d new then Complaint (already_exists name)
         else Dialog_Done (reveal_after_create made l dir new p))"

definition create_folder_response :: "disk_env \<Rightarrow> disk_env option \<Rightarrow> tree_layout \<Rightarrow> string \<Rightarrow> string \<Rightarrow> panel \<Rightarrow> dialog_end" where
  "create_folder_response d made l dir name p =
     (let new = path_div dir name
      in if name = '''' then Complaint ''Folder name cannot be empty.''
         else if de_exists d new then Complaint (already_exists name)
         else case made of None \<Rightarrow> Dialog_Threw | Some d' \<Rightarrow> Dialog_Done (reveal_after_create d' l dir new p))"

definition rename_state :: "string \<Rightarrow> string \<Rightarrow> panel \<Rightarrow> panel" where
  "rename_state path new p =
     (let p = (if is_open (pn_expanded p) path then expand_path new (forget_path path p) else p);
          p = (if path_eq (pn_selected p) path then p\<lparr>pn_selected := new\<rparr> else p)
      in if path_eq (pn_anchor p) path then p\<lparr>pn_anchor := new\<rparr> else p)"

definition rename_response :: "disk_env \<Rightarrow> disk_env option \<Rightarrow> tree_layout \<Rightarrow> string \<Rightarrow> string \<Rightarrow> panel \<Rightarrow> dialog_end" where
  "rename_response d made l path name p =
     (let new = path_div (parent_path path) name
      in if name = '''' then Complaint ''Name cannot be empty.''
         else if de_exists d new \<and> \<not> path_eq new path then Complaint (already_exists name)
         else case made of
                None \<Rightarrow> Dialog_Threw
              | Some d' \<Rightarrow> Dialog_Done (map_option (set_selected new)
                  (reconcile_directory d' l (parent_path path) (rename_state path new p))))"

definition below :: "string \<Rightarrow> string \<Rightarrow> bool" where
  "below path q \<longleftrightarrow> q = path \<or> starts_with (path @ [slash]) q"

definition delete_state :: "string \<Rightarrow> panel \<Rightarrow> panel" where
  "delete_state path p =
     (let p = p\<lparr>pn_expanded := filter (\<lambda>q. \<not> below path q) (pn_expanded p)\<rparr>;
          p = (if below path (pn_selected p) then p\<lparr>pn_selected := ''''\<rparr> else p)
      in if below path (pn_anchor p) then p\<lparr>pn_anchor := ''''\<rparr> else p)"

definition delete_response :: "disk_env option \<Rightarrow> tree_layout \<Rightarrow> string \<Rightarrow> panel \<Rightarrow> dialog_end" where
  "delete_response made l path p =
     (case made of
        None \<Rightarrow> Dialog_Threw
      | Some d' \<Rightarrow> Dialog_Done (map_option apply_selection_visual
          (reconcile_directory d' l (parent_path path) (delete_state path p))))"

section \<open>Menus and checkpoints\<close>

datatype row_action = New_File | New_Folder | Rename_Item | Delete_Item | Open_Item | Copy_Path

definition row_menu :: "bool \<Rightarrow> (string \<times> row_action) option list" where
  "row_menu is_dir =
     map Some (if is_dir then [(''New File'', New_File), (''New Folder'', New_Folder), (''Rename'', Rename_Item), (''Delete'', Delete_Item)]
               else [(''Open'', Open_Item), (''Rename'', Rename_Item), (''Delete'', Delete_Item)])
     @ [None, Some (''Copy Path'', Copy_Path)]"

text \<open>The expanded paths in the order of the set, which the next panel puts into a set again.\<close>

definition capture_panel :: "panel \<Rightarrow> directory_tree_state" where
  "capture_panel p = \<lparr>dt_current_dir = pn_dir p, dt_expanded = sort_key elements (pn_expanded p), dt_selected = pn_selected p,
     dt_filter = pn_filter p, dt_scroll_anchor = pn_anchor p, dt_anchor_offset = pn_offset p\<rparr>"

definition apply_panel :: "disk_env \<Rightarrow> tree_layout \<Rightarrow> directory_tree_state \<Rightarrow> panel \<Rightarrow> panel option" where
  "apply_panel d l s p =
     refresh_panel d l (p\<lparr>pn_dir := dt_current_dir s, pn_filter := dt_filter s,
       pn_expanded := foldl (\<lambda>ex q. if is_open ex q then ex else ex @ [q]) [] (dt_expanded s),
       pn_selected := dt_selected s, pn_anchor := dt_scroll_anchor s, pn_offset := dt_anchor_offset s\<rparr>)"


section \<open>Elements of joined paths\<close>

lemma dropWhile_slash_append:
  assumes "s \<noteq> ''''" "last s \<noteq> slash"
  shows "dropWhile (\<lambda>x. x = slash) (s @ r) = dropWhile (\<lambda>x. x = slash) s @ r"
    "dropWhile (\<lambda>x. x = slash) s \<noteq> ''''" "last (dropWhile (\<lambda>x. x = slash) s) = last s"
proof -
  have e: "last s \<in> set s" "\<not> (last s = slash)" using assms by simp_all
  then show "dropWhile (\<lambda>x. x = slash) (s @ r) = dropWhile (\<lambda>x. x = slash) s @ r"
    by (rule dropWhile_append1)
  show n: "dropWhile (\<lambda>x. x = slash) s \<noteq> ''''" using e by (auto simp: dropWhile_eq_Nil_conv)
  show "last (dropWhile (\<lambda>x. x = slash) s) = last s"
    using takeWhile_dropWhile_id [of "\<lambda>x. x = slash" s] n by (metis last_appendR)
qed

lemma names_noslash: "slash \<notin> set s \<Longrightarrow> s \<noteq> '''' \<Longrightarrow> names s = [s]"
proof (cases s)
  case (Cons c r)
  moreover assume "slash \<notin> set s"
  moreover from this have "\<forall>x \<in> set s. x \<noteq> slash" by auto
  ultimately show ?thesis by (simp add: names.simps(2) dropWhile_eq_Nil_conv [THEN iffD2] takeWhile_eq_all_conv [THEN iffD2])
qed simp

lemma names_snoc:
  assumes "p \<noteq> ''''" "last p \<noteq> slash" "plain_name n"
  shows "names (p @ slash # n) = names p @ [n]"
  using assms(1,2)
proof (induction p rule: names.induct)
  case (2 c s)
  have n: "slash \<notin> set n" "n \<noteq> ''''" using assms(3) by (simp_all add: plain_name_def)
  show ?case
  proof (cases "c = slash")
    case True
    then have s: "s \<noteq> ''''" "last s \<noteq> slash" using "2.prems" by (auto split: if_splits)
    note d = dropWhile_slash_append [OF s]
    have l: "last (dropWhile (\<lambda>x. x = slash) s) \<noteq> slash" using d(3) s(2) by simp
    have "names (dropWhile (\<lambda>x. x = slash) s @ slash # n) = names (dropWhile (\<lambda>x. x = slash) s) @ [n]"
      by (rule "2.IH"(1) [OF True d(2) d(2) l])
    then show ?thesis using True d by (simp add: names.simps(2) [of slash] del: dropWhile_eq_Nil_conv)
  next
    case False
    show ?thesis
    proof (cases "slash \<in> set s")
      case True
      then have t: "takeWhile (\<lambda>x. x \<noteq> slash) ((c # s) @ slash # n) = takeWhile (\<lambda>x. x \<noteq> slash) (c # s)"
        "dropWhile (\<lambda>x. x \<noteq> slash) (s @ slash # n) = dropWhile (\<lambda>x. x \<noteq> slash) s @ slash # n"
        "dropWhile (\<lambda>x. x \<noteq> slash) s \<noteq> ''''"
        by (auto simp: takeWhile_append1 dropWhile_append1 dropWhile_eq_Nil_conv)
      have l: "last (dropWhile (\<lambda>x. x \<noteq> slash) s) \<noteq> slash"
      proof -
        have "last (dropWhile (\<lambda>x. x \<noteq> slash) s) = last s"
          using takeWhile_dropWhile_id [of "\<lambda>x. x \<noteq> slash" s] t(3) by (metis last_appendR)
        moreover have "s \<noteq> ''''" using True by auto
        ultimately show ?thesis using "2.prems"(2) by simp
      qed
      show ?thesis using False t "2.IH"(2) [OF False t(3) l] by (simp add: names.simps(2) [of c])
    next
      case out: False
      then have "names (c # s) = [c # s]" using False by (intro names_noslash) auto
      moreover have "names ((c # s) @ slash # n) = [c # s, n]"
      proof -
        have "\<forall>x \<in> set s. x \<noteq> slash" "dropWhile (\<lambda>x. x = slash) n = n" using out n by (auto, cases n) auto
        then have "dropWhile (\<lambda>x. x \<noteq> slash) (s @ slash # n) = slash # n" "dropWhile (\<lambda>x. x = slash) n = n"
          by (auto simp: dropWhile_append)
        then show ?thesis using False out n names_noslash [OF n]
          by (simp add: names.simps(2) [of c] names.simps(2) [of slash])
      qed
      ultimately show ?thesis by simp
    qed
  qed
qed simp

lemma elements_join:
  assumes "plain_dir p" "plain_name n"
  shows "elements (path_div p n) = elements p @ [n]"
proof (cases "p = [slash]")
  case True
  have n: "slash \<notin> set n" "n \<noteq> ''''" using assms(2) by (simp_all add: plain_name_def)
  have "dropWhile (\<lambda>x. x = slash) n = n" using n by (cases n) auto
  then show ?thesis
    using n names_noslash [OF n] assms(2)
    by (simp add: True elements_def is_absolute_def starts_with_def has_filename_def filename_def)
next
  case False
  then have p: "is_absolute p" "p \<noteq> ''''" "last p \<noteq> slash" "has_filename p"
    using assms(1) by (auto simp: plain_dir_def has_filename_last)
  note d = dropWhile_slash_append [OF p(2,3)]
  have "names (dropWhile (\<lambda>x. x = slash) p @ slash # n) = names (dropWhile (\<lambda>x. x = slash) p) @ [n]"
    using d p(3) assms(2) by (intro names_snoc) simp_all
  then show ?thesis
    using p(1,2,4) d(1,2) assms(2) by (simp add: elements_def is_absolute_append Let_def del: dropWhile_eq_Nil_conv)
qed


section \<open>Rendering ends\<close>

lemma those_map_ends:
  assumes "\<And>x. x \<in> set xs \<Longrightarrow> f x \<noteq> None"
  shows "those (map f xs) \<noteq> None"
  using assms by (induction xs) (auto split: option.splits)


lemma those_Some_in:
  assumes "those (map f xs) = Some ys" "y \<in> set ys"
  shows "\<exists>x \<in> set xs. f x = Some y"
  using assms by (induction xs arbitrary: ys) (auto split: option.splits)

text \<open>How many expanded paths are at least as deep as a path.\<close>

definition deeper :: "string list \<Rightarrow> string \<Rightarrow> nat" where
  "deeper ex path = length (filter (\<lambda>q. length (elements path) \<le> length (elements q)) ex)"

definition plain_listing :: "disk_env \<Rightarrow> bool" where
  "plain_listing d \<longleftrightarrow> (\<forall>path es. de_list d path = Some es \<longrightarrow> (\<forall>(n, k) \<in> set es. plain_name n))"

lemma plain_listingD:
  assumes "plain_listing d" "(n, k) \<in> set (case de_list d path of Some es \<Rightarrow> es | None \<Rightarrow> [])"
  shows "plain_name n"
proof (cases "de_list d path")
  case (Some es)
  with assms(1) have "\<forall>(n, k) \<in> set es. plain_name n" unfolding plain_listing_def by blast
  with assms(2) Some show ?thesis by auto
qed (use assms(2) in simp)

lemma shown_in: "(n, k) \<in> set (shown_entries es) \<Longrightarrow> (n, k) \<in> set es"
  by (auto simp: shown_entries_def sort_entries_def)

lemma deeper_child:
  assumes "is_open ex path" "plain_dir path" "plain_name n"
  shows "deeper ex (path_div path n) < deeper ex path"
proof -
  obtain q where q: "q \<in> set ex" "elements q = elements path"
    using assms(1) by (auto simp: is_open_def path_eq_def)
  have e: "length (elements (path_div path n)) = Suc (length (elements path))"
    using elements_join [OF assms(2,3)] by simp
  have "length (filter (\<lambda>q. Suc m \<le> length (elements q)) xs) < length (filter (\<lambda>q. m \<le> length (elements q)) xs)"
    if "q \<in> set xs" "length (elements q) = m" for m xs
    using that
  proof (induction xs)
    case (Cons x xs)
    have le: "length (filter (\<lambda>q. Suc m \<le> length (elements q)) xs) \<le> length (filter (\<lambda>q. m \<le> length (elements q)) xs)"
      by (induction xs) auto
    show ?case
    proof (cases "x = q")
      case True
      then show ?thesis using le Cons.prems(2) by simp
    next
      case False
      then show ?thesis using Cons by auto
    qed
  qed simp
  from this [OF q(1), of "length (elements path)"] q(2) show ?thesis by (simp add: deeper_def e)
qed

lemma create_row_ends:
  assumes "plain_listing d" "plain_dir path" "deeper ex path < fuel"
  shows "create_row fuel d ex sel name kind path \<noteq> None"
  using assms(2,3)
proof (induction fuel arbitrary: name kind path)
  case (Suc fuel)
  let ?es = "case de_list d path of Some es \<Rightarrow> es | None \<Rightarrow> []"
  have "those (map (\<lambda>(n, k). create_row fuel d ex sel n k (path_div path n)) (shown_entries ?es)) \<noteq> None"
    if o: "is_open ex path"
  proof (rule those_map_ends)
    fix x
    assume x: "x \<in> set (shown_entries ?es)"
    obtain n k where nk: "x = (n, k)" by (cases x)
    have "(n, k) \<in> set ?es" using x nk shown_in by blast
    then have n: "plain_name n" by (rule plain_listingD [OF assms(1)])
    have "deeper ex (path_div path n) < fuel" using deeper_child [OF o Suc.prems(1) n] Suc.prems(2) by simp
    from Suc.IH [OF plain_join [OF n Suc.prems(1)] this]
    show "(case x of (n, k) \<Rightarrow> create_row fuel d ex sel n k (path_div path n)) \<noteq> None" by (simp add: nk)
  qed
  then show ?case by (cases kind) (auto simp: Let_def)
qed simp

lemma deeper_le: "deeper ex path \<le> length ex"
  by (simp add: deeper_def)

lemma populate_ends:
  assumes "plain_listing d" "plain_dir dir"
  shows "populate_children d ex sel dir \<noteq> None"
proof (cases "de_list d dir")
  case (Some es)
  have "those (map (\<lambda>(n, k). create_row (Suc (length ex)) d ex sel n k (path_div dir n)) (shown_entries es)) \<noteq> None"
  proof (rule those_map_ends)
    fix x
    assume x: "x \<in> set (shown_entries es)"
    obtain n k where nk: "x = (n, k)" by (cases x)
    then have "(n, k) \<in> set (case de_list d dir of Some es \<Rightarrow> es | None \<Rightarrow> [])" using shown_in [of n k es] x Some by simp
    then have "plain_name n" by (rule plain_listingD [OF assms(1)])
    then show "(case x of (n, k) \<Rightarrow> create_row (Suc (length ex)) d ex sel n k (path_div dir n)) \<noteq> None"
      using create_row_ends [OF assms(1) plain_join [OF _ assms(2)]] deeper_le [of ex] by (simp add: nk less_Suc_eq_le del: create_row.simps)
  qed
  then show ?thesis using Some by (simp add: populate_children_def del: create_row.simps)
qed (simp add: populate_children_def)


lemma top_ends:
  assumes "plain_listing d" "plain_dir dir"
  shows "top_rows d ex sel flt dir \<noteq> None"
proof -
  let ?es = "case de_list d dir of Some es \<Rightarrow> es | None \<Rightarrow> []"
  have "create_row (Suc (length ex)) d ex sel n k (path_div dir n) \<noteq> None" if "(n, k) \<in> set ?es" for n k
  proof -
    have "plain_name n" by (rule plain_listingD [OF assms(1) that])
    then show ?thesis
      using create_row_ends [OF assms(1) plain_join [OF _ assms(2)]] deeper_le [of ex] by (simp add: less_Suc_eq_le del: create_row.simps)
  qed
  moreover have "create_row (Suc (length ex)) d ex sel ''..'' k p \<noteq> None" for k p by (simp add: Let_def)
  ultimately show ?thesis
    unfolding top_rows_def Let_def by (intro those_map_ends) (auto dest: shown_in simp del: create_row.simps split: if_splits)
qed


section \<open>Marks of the selection\<close>

definition head_ok :: "string \<Rightarrow> row_head \<Rightarrow> bool" where
  "head_ok sel h \<longleftrightarrow> (rh_path h = sel \<longrightarrow> rh_selected h) \<and> (rh_selected h \<longrightarrow> path_eq (rh_path h) sel)"

definition heads :: "row list \<Rightarrow> row_head set" where
  "heads rs = row_head ` set (collect_containers rs)"

lemma heads_Row [simp]: "heads [Row h ks] = insert h (heads ks)"
  by (auto simp: heads_def collect_containers_def)

lemma heads_Nil [simp]: "heads [] = {}"
  by (simp add: heads_def collect_containers_def)

lemma heads_UN: "heads rs = (\<Union>r \<in> set rs. heads [r])"
  by (auto simp: heads_def collect_containers_def)

lemma heads_append: "heads (rs @ qs) = heads rs \<union> heads qs"
  by (auto simp: heads_def collect_containers_def)

definition marks :: "string \<Rightarrow> row list \<Rightarrow> bool" where
  "marks sel rs \<longleftrightarrow> (\<forall>h \<in> heads rs. head_ok sel h)"

lemma marks_UN: "marks sel rs \<longleftrightarrow> (\<forall>r \<in> set rs. marks sel [r])"
  unfolding marks_def by (subst heads_UN) blast

lemma create_row_shape:
  assumes "create_row (Suc fuel) d ex sel name kind path = Some r"
  shows "rh_path (row_head r) = path" "rh_selected (row_head r) = path_eq path sel"
    "row_kids r = [] \<or> (\<exists>es. those (map (\<lambda>(n, k). create_row fuel d ex sel n k (path_div path n)) es) = Some (row_kids r))"
    "name \<noteq> ''..'' \<Longrightarrow> kind = Folder \<Longrightarrow> de_list d path = Some es \<Longrightarrow> es \<noteq> [] \<Longrightarrow> is_open ex path \<Longrightarrow>
      those (map (\<lambda>(n, k). create_row fuel d ex sel n k (path_div path n)) (shown_entries es)) = Some (row_kids r) \<and>
      rh_shown (row_head r)"
  using assms by (auto simp: Let_def split: if_splits entry_kind.splits)

lemma create_row_marks:
  assumes "create_row fuel d ex sel name kind path = Some r"
  shows "marks sel [r]"
  using assms
proof (induction fuel arbitrary: name kind path r)
  case (Suc fuel)
  note shape = create_row_shape [OF Suc.prems]
  have "marks sel (row_kids r)"
    using shape(3)
  proof (elim disjE exE)
    fix es
    assume t: "those (map (\<lambda>(n, k). create_row fuel d ex sel n k (path_div path n)) es) = Some (row_kids r)"
    show "marks sel (row_kids r)"
    proof (subst marks_UN, rule ballI)
      fix q
      assume "q \<in> set (row_kids r)"
      with those_Some_in [OF t] obtain x where x: "(case x of (n, k) \<Rightarrow> create_row fuel d ex sel n k (path_div path n)) = Some q"
        by blast
      obtain n k where "x = (n, k)" by (cases x)
      with x have "create_row fuel d ex sel n k (path_div path n) = Some q" by simp
      then show "marks sel [q]" by (rule Suc.IH)
    qed
  qed (simp add: marks_def)
  moreover have "head_ok sel (row_head r)" using shape(1,2) by (auto simp: head_ok_def path_eq_def)
  ultimately show ?case by (cases r) (simp add: marks_def)
qed simp

lemma those_marks:
  assumes "those (map f xs) = Some rs" "\<And>x r. f x = Some r \<Longrightarrow> marks sel [r]"
  shows "marks sel rs"
  using those_Some_in [OF assms(1)] assms(2) by (subst marks_UN) blast

lemma populate_marks:
  assumes "populate_children d ex sel dir = Some ks"
  shows "marks sel ks"
proof (cases "de_list d dir")
  case None
  then show ?thesis using assms by (simp add: populate_children_def marks_def heads_def collect_containers_def)
next
  case (Some es)
  then have "those (map (\<lambda>(n, k). create_row (Suc (length ex)) d ex sel n k (path_div dir n)) (shown_entries es)) = Some ks"
    using assms by (simp add: populate_children_def del: create_row.simps)
  then show ?thesis by (rule those_marks) (auto intro: create_row_marks simp del: create_row.simps)
qed

lemma top_marks:
  assumes "top_rows d ex sel flt dir = Some rs"
  shows "marks sel rs"
  using assms unfolding top_rows_def Let_def
  by (rule those_marks) (auto intro: create_row_marks simp del: create_row.simps)

lemma heads_map_heads: "heads (map (map_heads f) rs) = f ` heads rs"
proof -
  have "heads [map_heads f r] = f ` heads [r]" for r
  proof (induction r)
    case (Row h ks)
    then have "(\<Union>r \<in> set ks. heads [map_heads f r]) = f ` (\<Union>r \<in> set ks. heads [r])" by auto
    then have "heads (map (map_heads f) ks) = f ` heads ks"
      by (subst heads_UN, subst (2) heads_UN) simp
    then show ?case by simp
  qed
  then show ?thesis by (subst heads_UN, subst (2) heads_UN) (auto simp: image_UN)
qed

lemma apply_marks: "marks (pn_selected p) (pn_rows (apply_selection_visual p))"
  by (auto simp: marks_def apply_selection_visual_def heads_map_heads head_ok_def path_eq_def)

lemma apply_marks_of [simp]: "pn_selected p = sel \<Longrightarrow> marks sel (pn_rows (apply_selection_visual p))"
  using apply_marks by blast

lemma apply_fields [simp]: "pn_selected (apply_selection_visual p) = pn_selected p"
  by (simp add: apply_selection_visual_def)

lemma upd_row_marks:
  assumes "marks sel rs" "\<And>r. marks sel [r] \<Longrightarrow> marks sel [f r]"
  shows "marks sel (map (upd_row path f) rs)"
proof -
  have "marks sel [r] \<Longrightarrow> marks sel [upd_row path f r]" for r
  proof (induction r)
    case (Row h ks)
    then have k: "head_ok sel h" "marks sel ks" by (simp_all add: marks_def)
    have "marks sel (map (upd_row path f) ks)"
      using Row.IH k(2) by (subst marks_UN) (auto simp: marks_UN [of sel ks])
    then show ?case using assms(2) [OF Row.prems] k(1) by (simp add: marks_def)
  qed
  then show ?thesis using assms(1) by (subst marks_UN) (auto simp: marks_UN [of sel rs])
qed

definition selection_shown :: "panel \<Rightarrow> bool" where
  "selection_shown p \<longleftrightarrow> marks (pn_selected p) (pn_rows p)"

lemma capture_fields [simp]: "pn_selected (capture_scroll_anchor l p) = pn_selected p"
  "pn_rows (capture_scroll_anchor l p) = pn_rows p" "pn_dir (capture_scroll_anchor l p) = pn_dir p"
  "pn_filter (capture_scroll_anchor l p) = pn_filter p" "pn_expanded (capture_scroll_anchor l p) = pn_expanded p"
  by (simp_all add: capture_scroll_anchor_def split: prod.splits)

lemma refresh_shape:
  assumes "refresh_panel d l p = Some p'"
  shows "top_rows d (pn_expanded p) (pn_selected p) (pn_filter p) (pn_dir p) = Some (pn_rows p')"
    "pn_selected p' = pn_selected p" "pn_expanded p' = pn_expanded p" "pn_dir p' = pn_dir p" "pn_filter p' = pn_filter p"
  using assms by (auto simp: refresh_panel_def rebuild_top_level_def split: if_splits)

lemma refresh_shown: "refresh_panel d l p = Some p' \<Longrightarrow> selection_shown p'"
  using refresh_shape [of d l p p'] top_marks by (simp add: selection_shown_def)

lemma set_selected_shown [simp]: "selection_shown (set_selected path p)"
  using apply_marks [of "p\<lparr>pn_selected := path\<rparr>"] by (simp add: selection_shown_def set_selected_def)

lemma reconcile_shown:
  assumes "reconcile_directory d l dir p = Some p'" "selection_shown p"
  shows "selection_shown p'"
  using assms refresh_shown
  by (auto simp: reconcile_directory_def selection_shown_def Let_def split: if_splits option.splits)

lemma expand_fields [simp]: "pn_selected (expand_path q p) = pn_selected p" "pn_rows (expand_path q p) = pn_rows p"
  "pn_dir (expand_path q p) = pn_dir p" "pn_filter (expand_path q p) = pn_filter p"
  by (simp_all add: expand_path_def)

lemma click_shown:
  assumes "click_directory d path p = Some p'"
  shows "selection_shown p'"
proof -
  let ?p = "set_selected path p"
  have s: "marks (pn_selected ?p) (pn_rows ?p)" using set_selected_shown by (simp add: selection_shown_def)
  have c: "marks sel [r] \<Longrightarrow> marks sel [close_row r]" for sel r
    by (cases r) (auto simp: marks_def close_row_def head_ok_def)
  have o: "marks sel ks \<Longrightarrow> marks sel [r] \<Longrightarrow> marks sel [open_row ks r]" for sel ks r
    by (cases r) (auto simp: marks_def open_row_def head_ok_def)
  show ?thesis
    using assms set_selected_shown [of path p] upd_row_marks [OF s c, where path = path]
      upd_row_marks [OF s o, where path = path] populate_marks
    by (auto simp: click_directory_def selection_shown_def Let_def forget_path_def split: if_splits option.splits)
qed

lemma update_file_shown: "selection_shown p \<Longrightarrow> selection_shown (update_file_row d sz path p)"
proof -
  have "marks sel [r] \<Longrightarrow> marks sel [Row ((row_head r)\<lparr>rh_size := s\<rparr>) (row_kids r)]" for sel r s
    by (cases r) (auto simp: marks_def head_ok_def)
  note u = upd_row_marks [OF _ this]
  show "selection_shown p \<Longrightarrow> selection_shown (update_file_row d sz path p)"
    by (auto simp: update_file_row_def selection_shown_def split: option.splits intro: u)
qed


section \<open>Steps\<close>

text \<open>What the user and the system do to the panel, each step with any file system and layout.\<close>

inductive panel_step :: "panel \<Rightarrow> panel \<Rightarrow> bool" where
  Step_Refresh: "refresh_panel d l p = Some p' \<Longrightarrow> panel_step p p'"
| Step_Reload: "refresh_to_top d l p = Some p' \<Longrightarrow> panel_step p p'"
| Step_Map: "first_map d l p = Some p' \<Longrightarrow> panel_step p p'"
| Step_Filter: "set_filter d l flt p = Some p' \<Longrightarrow> panel_step p p'"
| Step_Root: "set_root d l dir p = Some p' \<Longrightarrow> panel_step p p'"
| Step_Select: "panel_step p (set_selected path p)"
| Step_Directory: "click_directory d path p = Some p' \<Longrightarrow> panel_step p p'"
| Step_Saved: "on_note_saved d l sz path p = Some p' \<Longrightarrow> panel_step p p'"
| Step_Event: "panel_step p (on_monitor_event affected p)"
| Step_Debounce: "on_debounce d l p = Some p' \<Longrightarrow> panel_step p p'"
| Step_File: "create_file_response d made l dir name p = Dialog_Done (Some p') \<Longrightarrow> panel_step p p'"
| Step_Folder: "create_folder_response d made' l dir name p = Dialog_Done (Some p') \<Longrightarrow> panel_step p p'"
| Step_Rename: "rename_response d made' l path name p = Dialog_Done (Some p') \<Longrightarrow> panel_step p p'"
| Step_Delete: "delete_response made' l path p = Dialog_Done (Some p') \<Longrightarrow> panel_step p p'"
| Step_Apply: "apply_panel d l s p = Some p' \<Longrightarrow> panel_step p p'"

lemma reveal_shown: "reveal_after_create d l dir new p = Some p' \<Longrightarrow> selection_shown p'"
  using refresh_shown
  by (auto simp: reveal_after_create_def selection_shown_def Option.bind_eq_Some_conv split: if_splits)

lemma panel_step_shown:
  assumes "panel_step p p'" "selection_shown p"
  shows "selection_shown p'"
  using assms
proof (induction rule: panel_step.induct)
  case (Step_Map d l p p')
  then show ?case by (auto simp: first_map_def refresh_to_top_def dest: refresh_shown split: if_splits)
next
  case (Step_Saved d l sz path p p')
  then show ?case by (auto simp: on_note_saved_def dest: reconcile_shown update_file_shown split: if_splits)
next
  case (Step_Event p affected)
  then show ?case by (simp add: on_monitor_event_def selection_shown_def)
next
  case (Step_Debounce d l p p')
  then have "selection_shown (p\<lparr>pn_timer := None\<rparr>)" by (simp add: selection_shown_def)
  with Step_Debounce show ?case
    by (auto simp: on_debounce_def Let_def dest: refresh_shown reconcile_shown split: option.splits panel_timer.splits)
next
  case (Step_Delete made' l path p p')
  then show ?case by (auto simp: delete_response_def selection_shown_def split: option.splits)
qed (auto simp: refresh_to_top_def set_filter_def set_root_def apply_panel_def create_file_response_def
    create_folder_response_def rename_response_def Let_def dest: refresh_shown click_shown reveal_shown
    split: if_splits option.splits)

definition sample_disk :: disk_env where
  "sample_disk = \<lparr>de_list = (\<lambda>p. if p = ''/h'' then Some [(''src'', Folder), (''n'', Regular_File (Some 3))]
       else if p = ''/h/src'' then Some [(''a.md'', Regular_File (Some 5))] else None),
     de_exists = (\<lambda>_. False), de_point = CHR 0x2E\<rparr>"

definition sample_layout :: tree_layout where
  "sample_layout = \<lparr>le_scroll = Fin 0, le_page = Fin 100, le_upper = Fin 200, le_y = (\<lambda>_. None), le_height = (\<lambda>_. Fin 0),
     le_mapped = (\<lambda>_. True)\<rparr>"

lemma sample_plain: "plain_listing sample_disk"
  by (auto simp: plain_listing_def sample_disk_def plain_name_def slash_def split: if_splits)

lemma sample_home: "plain_dir ''/h''" "''/h'' \<noteq> [slash]"
  by code_simp+

text \<open>C24: Whatever happens to the panel and the files under it, the rows marked as selected are those of the selected
  path and no others: every row with that very path is marked, also one that is built later, and a marked row
  has an equal path.\<close>

theorem selection_marked:
  assumes "panel_step\<^sup>*\<^sup>* (new_panel home) p" "r \<in> set (collect_containers (pn_rows p))"
  shows "(rh_path (row_head r) = pn_selected p \<longrightarrow> rh_selected (row_head r)) \<and>
    (rh_selected (row_head r) \<longrightarrow> path_eq (rh_path (row_head r)) (pn_selected p))"
proof -
  have "selection_shown (new_panel home)" by (simp add: selection_shown_def new_panel_def marks_def)
  with assms(1) have "selection_shown p" by (induction rule: rtranclp_induct) (auto intro: panel_step_shown)
  with assms(2) show ?thesis by (auto simp: selection_shown_def marks_def head_ok_def heads_def)
qed

theorem selection_marked_witness:
  "\<exists>p. panel_step\<^sup>*\<^sup>* (new_panel ''/h'') p \<and> pn_selected p = ''/h/n'' \<and>
     (\<exists>r \<in> set (collect_containers (pn_rows p)). rh_path (row_head r) = ''/h/n'' \<and> rh_selected (row_head r))"
proof -
  let ?p = "set_selected ''/h/n'' (new_panel ''/h'')"
  let ?f = "refresh_panel sample_disk sample_layout ?p"
  have q: "?f \<noteq> None" "pn_selected (the ?f) = ''/h/n''"
    "\<exists>r \<in> set (collect_containers (pn_rows (the ?f))). rh_path (row_head r) = ''/h/n''"
    by code_simp+
  then have "?f = Some (the ?f)" by simp
  then have s: "panel_step\<^sup>*\<^sup>* (new_panel ''/h'') (the ?f)"
    by (rule converse_rtranclp_into_rtranclp [OF Step_Select r_into_rtranclp [of panel_step], OF Step_Refresh])
  obtain r where "r \<in> set (collect_containers (pn_rows (the ?f)))" "rh_path (row_head r) = ''/h/n''" using q(3) by blast
  then show ?thesis using selection_marked [OF s] q(2) s by (intro exI [of _ "the ?f"]) auto
qed

text \<open>C25: Rendering ends, however the links between directories lead back to each other: the depth of the rows is
  bounded by the number of expanded directories.\<close>

theorem rendering_ends:
  assumes "plain_listing d" "plain_dir (pn_dir p)"
  shows "refresh_panel d l p \<noteq> None \<and>
    (plain_dir path \<longrightarrow> click_directory d path p \<noteq> None \<and> reconcile_directory d l path p \<noteq> None)"
proof -
  have r: "refresh_panel d l q \<noteq> None" if "pn_dir q = pn_dir p" for q
    using top_ends [OF assms(1), of "pn_dir p"] assms(2) that by (auto simp: refresh_panel_def rebuild_top_level_def)
  moreover have "click_directory d path p \<noteq> None" if "plain_dir path"
    using populate_ends [OF assms(1) that] by (auto simp: click_directory_def Let_def split: option.splits)
  moreover have "reconcile_directory d l path p \<noteq> None" if "plain_dir path"
    using populate_ends [OF assms(1) that] r by (auto simp: reconcile_directory_def Let_def split: option.splits)
  ultimately show ?thesis by blast
qed


theorem rendering_ends_witness:
  "refresh_panel sample_disk sample_layout (new_panel ''/h'') \<noteq> None \<and>
   click_directory sample_disk ''/h'' (new_panel ''/h'') \<noteq> None"
proof -
  have "plain_dir (pn_dir (new_panel ''/h''))" using sample_home(1) by (simp add: new_panel_def)
  from rendering_ends [OF sample_plain this, of sample_layout "''/h''"] sample_home(1) show ?thesis by blast
qed

section \<open>A new item\<close>












end
