(* ===== verification/Find_Bar.thy ===== *)
theory Find_Bar
  imports Note_Editor Workspace_Model
begin

text \<open>
  The find bar, the keys, the sidebar's switches, the menus and the bars of \<^verbatim>\<open>gui/window/main_window.cpp\<close>.  The bar
  searches the tab in front: a terminal tab by the expression set in its focused pane, a note by its
  editor.  An operation that loops or is undefined in an editor is \<open>None\<close>.
\<close>

section \<open>What is searched\<close>

text \<open>A terminal tab has its panes, each with the text it searches for, and the focused one.\<close>

datatype surface = Terminal_Surface string "(string \<times> codes) list" | Note_Surface editor

record find_env =
  fe_searcher :: searcher
  fe_rect :: view_rect
  fe_regex :: "codes \<Rightarrow> bool"

record find_bar =
  fb_tabs :: "surface list"
  fb_active :: int
  fb_visible :: bool
  fb_replacing :: bool
  fb_find :: codes
  fb_replace :: codes
  fb_label :: string
  fb_label_shown :: bool

definition new_find_bar :: find_bar where
  "new_find_bar = \<lparr>fb_tabs = [], fb_active = - 1, fb_visible = False, fb_replacing = False, fb_find = [], fb_replace = [],
     fb_label = '''', fb_label_shown = False\<rparr>"

text \<open>A pane keeps its expression when the new one does not compile.\<close>

definition pane_search_text :: "find_env \<Rightarrow> codes \<Rightarrow> codes \<Rightarrow> codes" where
  "pane_search_text e us old = (if us = [] then [] else if fe_regex e us then us else old)"

fun search_surface :: "find_env \<Rightarrow> codes \<Rightarrow> surface \<Rightarrow> surface option" where
  "search_surface e us (Terminal_Surface f ps) =
     Some (Terminal_Surface f (map (\<lambda>(p, old). (p, if p = f then pane_search_text e us old else old)) ps))"
| "search_surface e us (Note_Surface ed) = map_option Note_Surface (set_search_text (fe_searcher e) (fe_rect e) us ed)"

fun clear_surface :: "find_env \<Rightarrow> surface \<Rightarrow> surface option" where
  "clear_surface e (Terminal_Surface f ps) = Some (Terminal_Surface f (map (\<lambda>(p, _). (p, [])) ps))"
| "clear_surface e (Note_Surface ed) = map_option Note_Surface (set_search_text (fe_searcher e) (fe_rect e) [] ed)"

definition clear_all_search_highlights :: "find_env \<Rightarrow> find_bar \<Rightarrow> find_bar option" where
  "clear_all_search_highlights e fb = map_option (\<lambda>ts. fb\<lparr>fb_tabs := ts\<rparr>) (those (map (clear_surface e) (fb_tabs fb)))"

definition front_surface :: "find_bar \<Rightarrow> surface option" where
  "front_surface fb =
     (if 0 \<le> fb_active fb \<and> fb_active fb < int (length (fb_tabs fb)) then Some (fb_tabs fb ! nat (fb_active fb)) else None)"

definition set_front :: "find_bar \<Rightarrow> surface \<Rightarrow> find_bar" where
  "set_front fb t = fb\<lparr>fb_tabs := (fb_tabs fb)[nat (fb_active fb) := t]\<rparr>"

section \<open>The bar\<close>

definition update_find_match_label :: "find_env \<Rightarrow> find_bar \<Rightarrow> find_bar option" where
  "update_find_match_label e fb =
     (if \<not> fb_visible fb then Some (fb\<lparr>fb_label_shown := False\<rparr>)
      else case front_surface fb of
             Some (Note_Surface ed) \<Rightarrow>
               if fb_find fb = [] then Some (fb\<lparr>fb_label_shown := False\<rparr>)
               else map_option (\<lambda>(cur, total).
                   fb\<lparr>fb_label := (if total \<le> 0 then ''No results''
                        else if 0 < cur then dec_of_int cur @ '' / '' @ dec_of_int total
                        else dec_of_int total @ '' matches''), fb_label_shown := True\<rparr>)
                 (current_search_position (fe_searcher e) ed)
           | _ \<Rightarrow> Some (fb\<lparr>fb_label_shown := False\<rparr>))"

text \<open>The entry's text has changed.\<close>

definition sync_find_text :: "find_env \<Rightarrow> find_bar \<Rightarrow> find_bar option" where
  "sync_find_text e fb =
     (case front_surface fb of
        None \<Rightarrow> Some fb
      | Some t \<Rightarrow>
          Option.bind (if fb_find fb = [] then clear_all_search_highlights e fb
                       else map_option (set_front fb) (search_surface e (fb_find fb) t))
            (update_find_match_label e))"

definition set_find_entry :: "find_env \<Rightarrow> codes \<Rightarrow> find_bar \<Rightarrow> find_bar option" where
  "set_find_entry e us fb = (if us = fb_find fb then Some fb else sync_find_text e (fb\<lparr>fb_find := us\<rparr>))"

text \<open>Notes have no bar of their own; what the window tells them is ignored.\<close>

definition show_find_bar :: "bool \<Rightarrow> find_bar \<Rightarrow> find_bar" where
  "show_find_bar replacing fb = fb\<lparr>fb_visible := True, fb_replacing := replacing\<rparr>"

definition hide_find_bar :: "find_env \<Rightarrow> find_bar \<Rightarrow> find_bar option" where
  "hide_find_bar e fb =
     map_option (\<lambda>fb. fb\<lparr>fb_replace := [], fb_visible := False, fb_replacing := False, fb_label_shown := False\<rparr>)
       (Option.bind (clear_all_search_highlights e fb) (set_find_entry e []))"

text \<open>A terminal's own search is the library's; it changes nothing that is kept here.\<close>

definition on_find :: "find_env \<Rightarrow> bool \<Rightarrow> find_bar \<Rightarrow> find_bar option" where
  "on_find e forward fb =
     (case front_surface fb of
        None \<Rightarrow> Some fb
      | Some (Terminal_Surface f ps) \<Rightarrow> map_option (set_front fb) (search_surface e (fb_find fb) (Terminal_Surface f ps))
      | Some (Note_Surface ed) \<Rightarrow>
          Option.bind (set_search_text (fe_searcher e) (fe_rect e) (fb_find fb) ed) (\<lambda>ed.
          Option.bind (do_search (fe_searcher e) (fe_rect e) forward ed) (\<lambda>ed.
            update_find_match_label e (set_front fb (Note_Surface ed)))))"

abbreviation on_find_next :: "find_env \<Rightarrow> find_bar \<Rightarrow> find_bar option" where
  "on_find_next e \<equiv> on_find e True"

abbreviation on_find_prev :: "find_env \<Rightarrow> find_bar \<Rightarrow> find_bar option" where
  "on_find_prev e \<equiv> on_find e False"

definition on_replace :: "find_env \<Rightarrow> find_bar \<Rightarrow> find_bar option" where
  "on_replace e fb =
     (case front_surface fb of
        Some (Note_Surface ed) \<Rightarrow>
          Option.bind (do_replace (fe_searcher e) (fe_rect e) (set_replace_text (fb_replace fb) ed)) (\<lambda>ed.
            update_find_match_label e (set_front fb (Note_Surface ed)))
      | _ \<Rightarrow> Some fb)"

section \<open>Keys\<close>

datatype key = Escape | Letter char | Other_Key

datatype key_action = Hide_Find | Show_Find bool | Open_History | Save_Note | New_Terminal | New_Note | Toggle_Sidebar |
  Close_Tab | Split_Tab split_kind | Close_Pane

definition is_letter :: "char \<Rightarrow> key \<Rightarrow> bool" where
  "is_letter c k \<longleftrightarrow> (case k of Letter d \<Rightarrow> to_lower d = c | _ \<Rightarrow> False)"

text \<open>What the window does with a key before the widgets see it; with \<open>None\<close> they do.\<close>

definition window_key :: "bool \<Rightarrow> bool \<Rightarrow> key \<Rightarrow> bool \<Rightarrow> bool \<Rightarrow> bool \<Rightarrow> key_action option" where
  "window_key bar_visible focus_in_bar k ctrl shift alt =
     (if k = Escape \<and> bar_visible \<and> focus_in_bar then Some Hide_Find
      else if ctrl \<and> is_letter (CHR ''f'') k then Some (Show_Find False)
      else if ctrl \<and> shift \<and> is_letter (CHR ''h'') k then Some Open_History
      else if ctrl \<and> is_letter (CHR ''h'') k then Some (Show_Find True)
      else if ctrl \<and> is_letter (CHR ''s'') k then Some Save_Note
      else if ctrl \<and> is_letter (CHR ''t'') k then Some New_Terminal
      else if ctrl \<and> shift \<and> is_letter (CHR ''n'') k then Some New_Note
      else if ctrl \<and> is_letter (CHR ''p'') k then Some Toggle_Sidebar
      else if ctrl \<and> is_letter (CHR ''w'') k then Some Close_Tab
      else if alt \<and> is_letter (CHR ''h'') k then Some (Split_Tab SplitHorizontal)
      else if alt \<and> is_letter (CHR ''v'') k then Some (Split_Tab SplitVertical)
      else if alt \<and> is_letter (CHR ''k'') k then Some Close_Pane
      else None)"

section \<open>The sidebar\<close>

datatype side_page = History_Page | Files_Page

datatype sub_page = Commands_Sub | Transcripts_Sub | Windows_Sub

datatype side_call = Show_Commands | Refresh_Tree | Tree_To_Top | Rebuild_Windows

record sidebar =
  sd_visible :: bool
  sd_position :: nat
  sd_icon :: string
  sd_tooltip :: string
  sd_page :: side_page
  sd_active_tab :: "side_page option"
  sd_sub :: sub_page
  sd_sub_label :: string
  sd_first_files :: bool
  sd_calls :: "side_call list"

definition side_do :: "side_call \<Rightarrow> sidebar \<Rightarrow> sidebar" where
  "side_do x sd = sd\<lparr>sd_calls := sd_calls sd @ [x]\<rparr>"

definition set_sidebar_mode :: "side_page \<Rightarrow> sidebar \<Rightarrow> sidebar" where
  "set_sidebar_mode pg sd =
     (let sd = sd\<lparr>sd_page := pg, sd_active_tab := Some pg\<rparr>
      in case pg of
           History_Page \<Rightarrow> side_do Show_Commands sd
         | Files_Page \<Rightarrow> if sd_first_files sd then side_do Tree_To_Top (sd\<lparr>sd_first_files := False\<rparr>) else side_do Refresh_Tree sd)"

fun sub_label :: "sub_page \<Rightarrow> string" where
  "sub_label Commands_Sub = ''Commands''"
| "sub_label Transcripts_Sub = ''Transcripts''"
| "sub_label Windows_Sub = ''Windows''"

text \<open>The label follows the stack when it shows another page.\<close>

definition set_history_sub_mode :: "sub_page \<Rightarrow> sidebar \<Rightarrow> sidebar" where
  "set_history_sub_mode pg sd =
     (let sd = (if sd_sub sd = pg then sd else sd\<lparr>sd_sub := pg, sd_sub_label := sub_label pg\<rparr>)
      in case pg of
           Commands_Sub \<Rightarrow> side_do Show_Commands sd
         | Transcripts_Sub \<Rightarrow> sd
         | Windows_Sub \<Rightarrow> side_do Rebuild_Windows sd)"

definition new_sidebar :: sidebar where
  "new_sidebar = set_history_sub_mode Commands_Sub (set_sidebar_mode History_Page (side_do Show_Commands
     \<lparr>sd_visible = False, sd_position = 0, sd_icon = ''sidebar-show-symbolic'', sd_tooltip = ''Toggle Sidebar (Ctrl+P)'',
      sd_page = History_Page, sd_active_tab = None, sd_sub = Commands_Sub, sd_sub_label = ''Commands'', sd_first_files = True,
      sd_calls = []\<rparr>))"

definition shown_button :: "bool \<Rightarrow> sidebar \<Rightarrow> sidebar" where
  "shown_button out sd =
     sd\<lparr>sd_icon := (if out then ''sidebar-hide-symbolic'' else ''sidebar-show-symbolic''),
        sd_tooltip := (if out then ''Hide Sidebar (Ctrl+P)'' else ''Show Sidebar (Ctrl+P)'')\<rparr>"

definition toggle_history_sidebar :: "sidebar \<Rightarrow> sidebar" where
  "toggle_history_sidebar sd =
     (if \<not> sd_visible sd
      then let sd = sd\<lparr>sd_visible := True, sd_position := 220\<rparr>
           in shown_button True (side_do (case sd_page sd of Files_Page \<Rightarrow> Refresh_Tree | History_Page \<Rightarrow> Show_Commands) sd)
      else shown_button False (sd\<lparr>sd_visible := False, sd_position := 0\<rparr>))"

definition open_history_panel :: "sidebar \<Rightarrow> sidebar" where
  "open_history_panel sd = set_sidebar_mode History_Page (if sd_visible sd then sd else toggle_history_sidebar sd)"

definition apply_initial_sidebar_state :: "bool \<Rightarrow> sidebar \<Rightarrow> sidebar" where
  "apply_initial_sidebar_state auto_show sd =
     (let sd = shown_button auto_show (sd\<lparr>sd_visible := auto_show, sd_position := (if auto_show then 220 else 0)\<rparr>)
      in if auto_show \<and> sd_page sd = Files_Page then side_do Refresh_Tree sd else sd)"

section \<open>Menus and bars\<close>

text \<open>A menu is a list of items, a label and an action; \<open>None\<close> separates sections.\<close>

definition ellipsis :: string where
  "ellipsis = [CHR 0xE2, CHR 0x80, CHR 0xA6]"

definition check_mark :: string where
  "check_mark = [CHR 0xE2, CHR 0x9C, CHR 0x93]"

definition menu_bar :: "(string \<times> (string \<times> string) option list) list" where
  "menu_bar =
     [(''Window'', [Some (''New Terminal Tab'', ''win.new''), Some (''New Note Tab'', ''win.new_note''), None,
        Some (''Rename Window'' @ ellipsis, ''win.rename''), Some (''Close Window'', ''win.close''), None, Some (''Quit'', ''app.quit'')]),
      (''Terminal'', [Some (''Split Horizontally (Alt+H)'', ''win.split_h''), Some (''Split Vertically (Alt+V)'', ''win.split_v''),
        Some (''Custom Split'' @ ellipsis, ''win.custom_split''), Some (''Close Pane (Alt+K)'', ''win.close_pane''), None,
        Some (''Find'' @ ellipsis, ''win.find''), Some (''Color Profile'' @ ellipsis, ''win.colors'')]),
      (''Note'', [Some (''Save'', ''win.save''), Some (''Save As'' @ ellipsis, ''win.save_as''), Some (''Toggle Preview'', ''win.preview''), None,
        Some (''Find / Replace'' @ ellipsis, ''win.find'')]),
      (''History'', [Some (''Show/Hide Panel'', ''win.toggle_history''), Some (''Clear History'', ''win.clear_history'')]),
      (''View'', [Some (''Toggle Dark Theme'', ''win.dark''), Some (''Reload Theme'', ''win.reload''), None,
        Some (''Auto-Reload Changed Files'', ''win.autoreload''), None, Some (''Settings'' @ ellipsis, ''win.settings'')])]"

text \<open>The actions of the window, and whether each takes a parameter; the application has none of its own.\<close>

definition window_actions :: "(string \<times> bool) list" where
  "window_actions = map (\<lambda>n. (''win.'' @ n, False))
     [''new'', ''new_note'', ''close'', ''rename'', ''split_h'', ''split_v'', ''custom_split'', ''close_pane'', ''find'', ''replace'',
      ''colors'', ''save'', ''save_as'', ''preview'', ''dark'', ''reload''] @ [(''win.autoreload'', True)] @
     map (\<lambda>n. (''win.'' @ n, False)) [''toggle_history'', ''clear_history'', ''settings'']"

text \<open>An item without a target can be chosen when its action exists and takes no parameter.\<close>

definition can_activate :: "string \<Rightarrow> bool" where
  "can_activate action \<longleftrightarrow> map_of window_actions action = Some False"

datatype tool = Tool_Split split_kind | Tool_Close_Pane | Tool_Find | Tool_Save | Tool_Save_As | Tool_Open | Tool_Preview | Tool_Replace

fun surface_kind :: "surface \<Rightarrow> tab_kind" where
  "surface_kind (Terminal_Surface _ _) = Terminal"
| "surface_kind (Note_Surface _) = Note"

definition update_toolbar :: "find_bar \<Rightarrow> tool list" where
  "update_toolbar fb =
     (case map_option surface_kind (front_surface fb) of
        None \<Rightarrow> []
      | Some Terminal \<Rightarrow> [Tool_Split SplitHorizontal, Tool_Split SplitVertical, Tool_Close_Pane, Tool_Find]
      | Some Note \<Rightarrow> [Tool_Save, Tool_Save_As, Tool_Open, Tool_Preview, Tool_Replace])"

definition update_status_bar :: "workspace option \<Rightarrow> find_bar \<Rightarrow> string" where
  "update_status_bar ws fb =
     (case ws of Some ws \<Rightarrow> ''Workspace: '' @ ws_name ws | None \<Rightarrow> '''') @
     (case map_option surface_kind (front_surface fb) of
        None \<Rightarrow> ''''
      | Some k \<Rightarrow> ''  |  '' @ (if k = Terminal then ''Terminal'' else ''Note''))"

text \<open>The badge of the autosaver and the timer that hides it.\<close>

record badge =
  bg_text :: string
  bg_class :: string
  bg_visible :: bool
  bg_timer :: bool

definition show_autosave_badge :: "bool \<Rightarrow> badge \<Rightarrow> badge" where
  "show_autosave_badge success b =
     \<lparr>bg_text = (if success then ''saved '' @ check_mark else ''save failed''), bg_class = (if success then ''autosave-ok'' else ''autosave-fail''),
      bg_visible = True, bg_timer = True\<rparr>"

definition badge_timeout :: "badge \<Rightarrow> badge" where
  "badge_timeout b = (if bg_timer b then b\<lparr>bg_visible := False, bg_timer := False\<rparr> else b)"

text \<open>The row of tabs scrolls when it is wider than the window by more than half a pixel.\<close>

definition tabs_overflow :: "dbl \<Rightarrow> dbl \<Rightarrow> bool" where
  "tabs_overflow upper page \<longleftrightarrow> dbl_less (dbl_add page (Fin (1 / 2))) upper"

section \<open>Searches\<close>

fun unsearched :: "surface \<Rightarrow> bool" where
  "unsearched (Terminal_Surface _ ps) \<longleftrightarrow> (\<forall>(_, us) \<in> set ps. us = [])"
| "unsearched (Note_Surface ed) \<longleftrightarrow> ed_needle ed = [] \<and> ed_tags ed = [] \<and> ed_current_tag ed = None"

lemma render_nothing: "ed_needle ed = [] \<Longrightarrow> render_search_highlights sc r ed = Some (ed\<lparr>ed_tags := [], ed_current_tag := None\<rparr>)"
  by (simp add: render_search_highlights_def Let_def split: prod.split)

lemma set_search_nothing: "\<exists>ed'. set_search_text sc r [] ed = Some ed' \<and> unsearched (Note_Surface ed')"
  by (simp add: set_search_text_def render_nothing)

lemma clear_surface_unsearched: "\<exists>t'. clear_surface e t = Some t' \<and> unsearched t'"
proof (cases t)
  case (Note_Surface ed)
  obtain ed' where "set_search_text (fe_searcher e) (fe_rect e) [] ed = Some ed'" "unsearched (Note_Surface ed')"
    using set_search_nothing by blast
  then show ?thesis using Note_Surface by simp
qed auto

lemma clear_all: "\<exists>ts. clear_all_search_highlights e fb = Some (fb\<lparr>fb_tabs := ts\<rparr>) \<and> (\<forall>t \<in> set ts. unsearched t) \<and>
    length ts = length (fb_tabs fb)"
proof -
  have "\<exists>ts'. those (map (clear_surface e) ts) = Some ts' \<and> (\<forall>t \<in> set ts'. unsearched t) \<and> length ts' = length ts" for ts
  proof (induction ts)
    case (Cons t ts)
    then show ?case using clear_surface_unsearched [of e t] by auto
  qed simp
  from this [of "fb_tabs fb"] show ?thesis by (auto simp: clear_all_search_highlights_def)
qed

lemma search_nothing:
  assumes "unsearched t" "search_surface e [] t = Some t'"
  shows "unsearched t'"
proof (cases t)
  case (Terminal_Surface f ps)
  then have "t' = Terminal_Surface f (map (\<lambda>(p, old). (p, if p = f then [] else old)) ps)"
    using assms(2) by (simp add: pane_search_text_def cong: if_cong)
  then show ?thesis using assms(1) Terminal_Surface by auto
next
  case (Note_Surface ed)
  then show ?thesis using assms(2) set_search_nothing [of "fe_searcher e" "fe_rect e" ed] by auto
qed

lemma front_label [simp]: "front_surface (fb\<lparr>fb_label := x, fb_label_shown := y\<rparr>) = front_surface fb"
  "fb_label (fb\<lparr>fb_label := x, fb_label_shown := y\<rparr>) = x" "fb_label_shown (fb\<lparr>fb_label := x, fb_label_shown := y\<rparr>) = y"
  by (simp_all add: front_surface_def)

definition same_tabs_bar :: "find_bar \<Rightarrow> find_bar \<Rightarrow> bool" where
  "same_tabs_bar fb fb' \<longleftrightarrow> fb_tabs fb' = fb_tabs fb \<and> fb_active fb' = fb_active fb \<and> fb_find fb' = fb_find fb"

lemma update_label_same:
  assumes "update_find_match_label e fb = Some fb'"
  shows "same_tabs_bar fb fb'"
proof (cases "front_surface fb")
  case None
  then show ?thesis using assms by (auto simp: update_find_match_label_def same_tabs_bar_def split: if_splits)
next
  case (Some t)
  then show ?thesis using assms
    by (cases t) (auto simp: update_find_match_label_def same_tabs_bar_def split: if_splits)
qed

text \<open>What happens to the bar and the tabs; the tab in front is always one of the tabs, if there are any.\<close>

inductive search_step :: "find_bar \<Rightarrow> find_bar \<Rightarrow> bool" where
  Bar_Entry: "set_find_entry e us fb = Some fb' \<Longrightarrow> search_step fb fb'"
| Bar_Show: "search_step fb (show_find_bar b fb)"
| Bar_Hide: "hide_find_bar e fb = Some fb' \<Longrightarrow> search_step fb fb'"
| Bar_Find: "on_find e forward fb = Some fb' \<Longrightarrow> search_step fb fb'"
| Bar_Tick: "front_surface fb = Some (Note_Surface ed) \<Longrightarrow> on_highlight_tick (fe_searcher (e :: find_env)) (fe_rect e) ed = Some ed' \<Longrightarrow>
    search_step fb (set_front fb (Note_Surface ed'))"
| Bar_Switch: "0 \<le> i \<Longrightarrow> i < int (length (fb_tabs fb)) \<Longrightarrow> search_step fb (fb\<lparr>fb_active := i\<rparr>)"
| Bar_Open: "unsearched t \<Longrightarrow> search_step fb (fb\<lparr>fb_tabs := fb_tabs fb @ [t], fb_active := int (length (fb_tabs fb))\<rparr>)"
| Bar_Close: "k < length (fb_tabs fb) \<Longrightarrow> search_step fb
    (fb\<lparr>fb_tabs := take k (fb_tabs fb) @ drop (k + 1) (fb_tabs fb), fb_active := (if length (fb_tabs fb) = 1 then - 1 else 0)\<rparr>)"

definition front_ok :: "find_bar \<Rightarrow> bool" where
  "front_ok fb \<longleftrightarrow> fb_tabs fb = [] \<or> (0 \<le> fb_active fb \<and> fb_active fb < int (length (fb_tabs fb)))"

definition bar_ok :: "find_bar \<Rightarrow> bool" where
  "bar_ok fb \<longleftrightarrow> front_ok fb \<and> (fb_find fb = [] \<longrightarrow> (\<forall>t \<in> set (fb_tabs fb). unsearched t))"

lemma front_in: "front_surface fb = Some t \<Longrightarrow> t \<in> set (fb_tabs fb)"
  by (auto simp: front_surface_def split: if_splits)

lemma front_none: "front_ok fb \<Longrightarrow> front_surface fb = None \<longleftrightarrow> fb_tabs fb = []"
  by (auto simp: front_ok_def front_surface_def)

lemma front_ok_cong: "length (fb_tabs fb') = length (fb_tabs fb) \<Longrightarrow> fb_active fb' = fb_active fb \<Longrightarrow> front_ok fb' = front_ok fb"
  unfolding front_ok_def by (metis length_0_conv)

lemma set_front_simps [simp]: "length (fb_tabs (set_front fb t)) = length (fb_tabs fb)" "fb_active (set_front fb t) = fb_active fb"
  "fb_find (set_front fb t) = fb_find fb"
  by (simp_all add: set_front_def)

lemma set_front_ok:
  assumes "bar_ok fb" "fb_find fb = [] \<Longrightarrow> unsearched t"
  shows "bar_ok (set_front fb t)"
  using assms set_update_subset_insert [of "fb_tabs fb" "nat (fb_active fb)" t] front_ok_cong [of "set_front fb t" fb]
  by (auto simp: bar_ok_def set_front_def)

lemma same_bar_ok: "same_tabs_bar fb fb' \<Longrightarrow> bar_ok fb' = bar_ok fb"
  by (simp add: same_tabs_bar_def bar_ok_def front_ok_def)

lemma cleared_ok:
  assumes "clear_all_search_highlights e fb = Some fb'" "front_ok fb"
  shows "bar_ok fb' \<and> fb_find fb' = fb_find fb"
proof -
  obtain ts where ts: "clear_all_search_highlights e fb = Some (fb\<lparr>fb_tabs := ts\<rparr>)" "\<forall>t \<in> set ts. unsearched t"
    "length ts = length (fb_tabs fb)" using clear_all [of e fb] by blast
  then have "fb' = fb\<lparr>fb_tabs := ts\<rparr>" using assms(1) by simp
  with ts assms(2) front_ok_cong [of "fb\<lparr>fb_tabs := ts\<rparr>" fb] show ?thesis by (simp add: bar_ok_def)
qed

lemma sync_ok:
  assumes "sync_find_text e fb = Some fb'" "front_ok fb"
  shows "bar_ok fb' \<and> fb_find fb' = fb_find fb"
proof (cases "front_surface fb")
  case None
  then show ?thesis using assms front_none [OF assms(2)] by (simp add: sync_find_text_def bar_ok_def)
next
  case (Some t)
  obtain fb1 where fb1: "(if fb_find fb = [] then clear_all_search_highlights e fb
      else map_option (set_front fb) (search_surface e (fb_find fb) t)) = Some fb1" "update_find_match_label e fb1 = Some fb'"
    using assms(1) Some by (auto simp: sync_find_text_def bind_eq_Some_conv simp del: search_surface.simps)
  have "bar_ok fb1 \<and> fb_find fb1 = fb_find fb"
  proof (cases "fb_find fb = []")
    case True
    then show ?thesis using fb1(1) cleared_ok [OF _ assms(2)] by simp
  next
    case False
    then have "map_option (set_front fb) (search_surface e (fb_find fb) t) = Some fb1" using fb1(1) by simp
    then obtain t' where "fb1 = set_front fb t'" by (cases "search_surface e (fb_find fb) t") auto
    then show ?thesis using False assms(2) front_ok_cong [of fb1 fb] by (simp add: bar_ok_def)
  qed
  with update_label_same [OF fb1(2)] same_bar_ok [of fb1 fb'] show ?thesis by (simp add: same_tabs_bar_def)
qed

lemma entry_ok:
  assumes "set_find_entry e us fb = Some fb'" "bar_ok fb"
  shows "bar_ok fb' \<and> fb_find fb' = us"
proof (cases "us = fb_find fb")
  case True
  then show ?thesis using assms by (simp add: set_find_entry_def)
next
  case False
  then have s: "sync_find_text e (fb\<lparr>fb_find := us\<rparr>) = Some fb'" using assms(1) by (simp add: set_find_entry_def)
  have "front_ok (fb\<lparr>fb_find := us\<rparr>)" using assms(2) by (simp add: bar_ok_def front_ok_def)
  from sync_ok [OF s this] show ?thesis by simp
qed

lemma find_ok:
  assumes "on_find e forward fb = Some fb'" "bar_ok fb"
  shows "bar_ok fb'"
proof (cases "front_surface fb")
  case None
  then show ?thesis using assms by (simp add: on_find_def)
next
  case (Some t)
  have t: "fb_find fb = [] \<Longrightarrow> unsearched t" using front_in [OF Some] assms(2) by (auto simp: bar_ok_def)
  show ?thesis
  proof (cases t)
    case (Terminal_Surface f ps)
    then obtain t' where "search_surface e (fb_find fb) t = Some t'" "fb' = set_front fb t'"
      using assms(1) Some by (auto simp: on_find_def)
    then show ?thesis using set_front_ok [OF assms(2)] search_nothing t by metis
  next
    case (Note_Surface ed)
    then obtain ed1 ed2 where e: "set_search_text (fe_searcher e) (fe_rect e) (fb_find fb) ed = Some ed1"
      "do_search (fe_searcher e) (fe_rect e) forward ed1 = Some ed2"
      "update_find_match_label e (set_front fb (Note_Surface ed2)) = Some fb'"
      using assms(1) Some by (auto simp: on_find_def bind_eq_Some_conv)
    have "unsearched (Note_Surface ed2)" if "fb_find fb = []"
    proof -
      have "unsearched (Note_Surface ed1)"
        using e(1) that set_search_nothing [of "fe_searcher e" "fe_rect e" ed] by auto
      then show ?thesis using e(2) by (simp add: do_search_def)
    qed
    then show ?thesis using set_front_ok [OF assms(2)] same_bar_ok [OF update_label_same [OF e(3)]] by blast
  qed
qed

lemma label_ends: "fb_find fb = [] \<Longrightarrow> \<exists>fb'. update_find_match_label e fb = Some fb' \<and> same_tabs_bar fb fb'"
  by (cases "front_surface fb"; cases "the (front_surface fb)") (auto simp: update_find_match_label_def same_tabs_bar_def)

lemma hide_ends: "\<exists>fb'. hide_find_bar e fb = Some fb' \<and> fb_find fb' = [] \<and> fb_replace fb' = [] \<and> \<not> fb_visible fb' \<and>
    \<not> fb_replacing fb' \<and> \<not> fb_label_shown fb' \<and> (\<forall>t \<in> set (fb_tabs fb'). unsearched t) \<and> fb_active fb' = fb_active fb \<and>
    length (fb_tabs fb') = length (fb_tabs fb)"
proof -
  obtain ts where ts: "clear_all_search_highlights e fb = Some (fb\<lparr>fb_tabs := ts\<rparr>)" "\<forall>t \<in> set ts. unsearched t"
    "length ts = length (fb_tabs fb)" using clear_all [of e fb] by blast
  let ?fb = "fb\<lparr>fb_tabs := ts\<rparr>"
  have "\<exists>fb'. set_find_entry e [] ?fb = Some fb' \<and> fb_find fb' = [] \<and> (\<forall>t \<in> set (fb_tabs fb'). unsearched t) \<and>
    fb_active fb' = fb_active fb \<and> length (fb_tabs fb') = length (fb_tabs fb)"
  proof (cases "fb_find fb = [] \<or> front_surface (?fb\<lparr>fb_find := []\<rparr>) = None")
    case True
    then show ?thesis using ts by (auto simp: set_find_entry_def sync_find_text_def)
  next
    case False
    let ?f = "?fb\<lparr>fb_find := []\<rparr>"
    obtain us where us: "clear_all_search_highlights e ?f = Some (?f\<lparr>fb_tabs := us\<rparr>)" "\<forall>t \<in> set us. unsearched t"
      "length us = length (fb_tabs ?f)" using clear_all [of e ?f] by blast
    obtain fb' where fb': "update_find_match_label e (?f\<lparr>fb_tabs := us\<rparr>) = Some fb'" "same_tabs_bar (?f\<lparr>fb_tabs := us\<rparr>) fb'"
      using label_ends [of "?f\<lparr>fb_tabs := us\<rparr>" e] by auto
    have "set_find_entry e [] ?fb = Some fb'"
      using False us(1) fb'(1) by (auto simp: set_find_entry_def sync_find_text_def)
    then show ?thesis using fb'(2) us ts(3) by (auto simp: same_tabs_bar_def)
  qed
  then show ?thesis using ts(1) by (auto simp: hide_find_bar_def)
qed

lemma search_step_ok:
  assumes "search_step fb fb'" "bar_ok fb"
  shows "bar_ok fb'"
  using assms
proof (induction rule: search_step.induct)
  case (Bar_Entry e us fb fb')
  then show ?case using entry_ok by blast
next
  case (Bar_Show fb b)
  then show ?case by (simp add: show_find_bar_def bar_ok_def front_ok_def)
next
  case (Bar_Hide e fb fb')
  then show ?case using hide_ends [of e fb] front_ok_cong [of fb' fb] by (auto simp: bar_ok_def)
next
  case (Bar_Find e forward fb fb')
  then show ?case using find_ok by blast
next
  case (Bar_Tick fb ed e ed')
  show ?case
  proof (rule set_front_ok [OF Bar_Tick(3)])
    assume "fb_find fb = []"
    then have "unsearched (Note_Surface ed)" using front_in [OF Bar_Tick(1)] Bar_Tick(3) by (auto simp: bar_ok_def)
    then show "unsearched (Note_Surface ed')"
      using Bar_Tick(2) by (auto simp: on_highlight_tick_def render_nothing split: if_splits)
  qed
next
  case (Bar_Switch i fb)
  then show ?case by (simp add: bar_ok_def front_ok_def)
next
  case (Bar_Open t fb)
  then show ?case by (simp add: bar_ok_def front_ok_def)
next
  case (Bar_Close k fb)
  then show ?case by (auto simp: bar_ok_def front_ok_def dest: in_set_takeD in_set_dropD)
qed

text \<open>When the find entry is empty, no tab is searched: no terminal pane has an expression and no note has a
  marked occurrence, whatever was searched before, in whatever tab.  Hiding the bar always gets there and
  leaves nothing of the search.\<close>

theorem empty_entry_unsearched:
  assumes "search_step\<^sup>*\<^sup>* new_find_bar fb"
  shows "(fb_find fb = [] \<longrightarrow> (\<forall>t \<in> set (fb_tabs fb). unsearched t)) \<and>
    (\<exists>fb'. hide_find_bar e fb = Some fb' \<and> \<not> fb_visible fb' \<and> fb_find fb' = [] \<and> fb_replace fb' = [] \<and>
       \<not> fb_label_shown fb' \<and> (\<forall>t \<in> set (fb_tabs fb'). unsearched t))"
proof -
  have "bar_ok new_find_bar" by (simp add: bar_ok_def front_ok_def new_find_bar_def)
  with assms have "bar_ok fb" by (induction rule: rtranclp_induct) (auto intro: search_step_ok)
  then show ?thesis using hide_ends [of e fb] by (auto simp: bar_ok_def)
qed

text \<open>C27: Enter in the find entry goes from an occurrence in the note in front to the next one, and the label tells
  its place and their number.  It does so once the library has counted them; before, the label says that
  there are no results.\<close>

theorem find_next_label:
  assumes occ: "occurrence_search (fe_searcher e) occ"
    and "front_surface fb = Some (Note_Surface ed)" "fb_visible fb" "fb_find fb \<noteq> []"
    and "xs = occ (fb_find fb) (ed_text ed)" "i < length xs" "(ed_cursor ed, ed_bound ed) = xs ! i" "j = Suc i mod length xs"
  shows "\<exists>fb' ed'. on_find_next e fb = Some fb' \<and> front_surface fb' = Some (Note_Surface ed') \<and> ed_text ed' = ed_text ed \<and>
    (ed_cursor ed', ed_bound ed') = xs ! j \<and> fb_label_shown fb' \<and>
    fb_label fb' = (if sc_count (fe_searcher e) (fb_find fb) (ed_text ed) = int (length xs)
      then dec_of_int (int (Suc j)) @ '' / '' @ dec_of_int (int (length xs)) else ''No results'')"
proof -
  let ?sc = "fe_searcher e" and ?r = "fe_rect e" and ?n = "fb_find fb"
  let ?ed0 = "ed\<lparr>ed_needle := ?n, ed_occurrence := - 1, ed_match_start := - 1, ed_match_end := - 1\<rparr>"
  obtain ed1 where s: "set_search_text ?sc ?r ?n ed = Some ed1"
    using occurrence_search.render_ends [OF occ, of ?r ?ed0] by (auto simp: set_search_text_def)
  note k = occurrence_search.render_keeps [OF occ s [unfolded set_search_text_def]]
  have e1: "ed_text ed1 = ed_text ed" "ed_needle ed1 = ?n" "(ed_cursor ed1, ed_bound ed1) = xs ! i" "ed_occurrence ed1 = - 1"
    using k assms(7) by simp_all
  have o: "occ (ed_needle ed1) (ed_text ed1) = xs" using e1 assms(5) by simp
  have d: "j < length xs \<and> do_search ?sc ?r True ed1 = go_to_match ?sc ?r (fst (xs ! j)) (snd (xs ! j)) ed1"
    using occurrence_search.search_from_occurrence [OF occ, of i ed1 j True ?r, unfolded o] assms(4,6,8) e1(2,3) by simp
  obtain ed' where g: "go_to_match ?sc ?r (fst (xs ! j)) (snd (xs ! j)) ed1 = Some ed'" "ed_text ed' = ed_text ed1"
    "ed_needle ed' = ed_needle ed1" "(ed_cursor ed', ed_bound ed') = xs ! j"
    "sc_count ?sc (ed_needle ed1) (ed_text ed1) = int (length xs) \<Longrightarrow>
       current_search_position ?sc ed' = Some (occurrence_search.label_of ?sc occ ed1 j, int (length xs))"
    using occurrence_search.go_to_occurrence [OF occ, of j ed1 ?r, unfolded o] d assms(4) e1(2) by metis
  have l: "occurrence_search.label_of ?sc occ ed1 j = int (Suc j)"
    using e1(4) by (simp add: occurrence_search.label_of_def [OF occ] Let_def)
  let ?fb = "set_front fb (Note_Surface ed')"
  have f: "front_surface ?fb = Some (Note_Surface ed')" "fb_visible ?fb"
    using assms(2,3) by (auto simp: front_surface_def set_front_def split: if_splits)
  have len: "0 < length xs" using d by auto
  have p: "current_search_position ?sc ed' =
      (if sc_count ?sc ?n (ed_text ed) = int (length xs) then Some (int (Suc j), int (length xs)) else Some (0, 0))"
  proof (cases "sc_count ?sc ?n (ed_text ed) = int (length xs)")
    case True
    then show ?thesis using g(5) l e1 by simp
  next
    case False
    then have "match_count ?sc ed' = - 1"
      using occurrence_search.count [OF occ, of ?n "ed_text ed"] g(2,3) e1 assms(5) by (simp add: match_count_def)
    then show ?thesis using False by (simp add: current_search_position_def)
  qed
  have u: "update_find_match_label e ?fb = Some (?fb\<lparr>fb_label := (if sc_count ?sc ?n (ed_text ed) = int (length xs)
      then dec_of_int (int (Suc j)) @ '' / '' @ dec_of_int (int (length xs)) else ''No results''), fb_label_shown := True\<rparr>)"
    using f assms(4) p len by (simp add: update_find_match_label_def)
  have "on_find_next e fb = update_find_match_label e ?fb"
    using assms(2) s d g(1) by (simp add: on_find_def)
  with u have "on_find_next e fb = Some (?fb\<lparr>fb_label := (if sc_count ?sc ?n (ed_text ed) = int (length xs)
      then dec_of_int (int (Suc j)) @ '' / '' @ dec_of_int (int (length xs)) else ''No results''), fb_label_shown := True\<rparr>)"
    by simp
  moreover have "ed_text ed' = ed_text ed" using g(2) e1(1) by simp
  ultimately show ?thesis using f(1) g(4) by (intro exI conjI) (assumption | simp only: front_label)+
qed

definition demo_find_env :: find_env where
  "demo_find_env = \<lparr>fe_searcher = literal_search, fe_rect = demo_rect, fe_regex = (\<lambda>_. True)\<rparr>"

definition demo_find_bar :: find_bar where
  "demo_find_bar = new_find_bar\<lparr>fb_tabs := [Terminal_Surface ''p'' [(''p'', [])], Note_Surface (demo_search\<lparr>ed_cursor := 0, ed_bound := 2\<rparr>)],
     fb_active := 1, fb_visible := True, fb_find := ed_needle demo_search\<rparr>"

theorem find_next_label_witness:
  "\<exists>fb'. on_find_next demo_find_env demo_find_bar = Some fb' \<and> fb_label fb' = ''2 / 2''"
proof -
  let ?ed = "demo_search\<lparr>ed_cursor := 0, ed_bound := 2\<rparr>"
  have f: "front_surface demo_find_bar = Some (Note_Surface ?ed)" "fb_visible demo_find_bar" "fb_find demo_find_bar \<noteq> []"
    "fb_find demo_find_bar = ed_needle demo_search"
    by (simp_all add: front_surface_def demo_find_bar_def new_find_bar_def demo_search_def codes_of_def)
  have x: "literal_occurrences (fb_find demo_find_bar) (ed_text ?ed) = [(0, 2), (3, 5)]"
    using demo_occurrences f(4) by simp
  have o: "occurrence_search (fe_searcher demo_find_env) literal_occurrences"
    using literal.occurrence_search_axioms by (simp add: demo_find_env_def)
  have c: "sc_count (fe_searcher demo_find_env) (fb_find demo_find_bar) (ed_text ?ed) = int (length [(0 :: nat, 2 :: nat), (3, 5)])"
    using x by (simp add: demo_find_env_def literal_search_def)
  have at: "(ed_cursor ?ed, ed_bound ?ed) = [(0, 2), (3, 5)] ! 0" "(1 :: nat) = Suc 0 mod length [(0 :: nat, 2 :: nat), (3, 5)]"
    "0 < length [(0 :: nat, 2 :: nat), (3, 5)]" by simp_all
  have d: "dec_of_int (int (Suc 1)) @ '' / '' @ dec_of_int (int (length [(0 :: nat, 2 :: nat), (3, 5)])) = ''2 / 2''" by code_simp
  from find_next_label [OF o f(1-3) x [symmetric] at(3) at(1) at(2)] c d show ?thesis by auto
qed

theorem empty_entry_unsearched_witness:
  "\<exists>fb. search_step\<^sup>*\<^sup>* new_find_bar fb \<and> fb_find fb = [] \<and> fb_tabs fb \<noteq> [] \<and> (\<forall>t \<in> set (fb_tabs fb). unsearched t)"
proof -
  let ?fb = "new_find_bar\<lparr>fb_tabs := [Terminal_Surface ''p'' [(''p'', [])]], fb_active := 0\<rparr>"
  have "search_step new_find_bar ?fb"
    using Bar_Open [of "Terminal_Surface ''p'' [(''p'', [])]" new_find_bar] by (simp add: new_find_bar_def)
  then have "search_step\<^sup>*\<^sup>* new_find_bar ?fb" by blast
  from empty_entry_unsearched [OF this] this show ?thesis by (intro exI [of _ ?fb]) (simp add: new_find_bar_def)
qed


text \<open>The button of the sidebar shows what it will do, and the highlighted tab and the label of the history button
  are those of the pages on the screen.\<close>

definition sidebar_ok :: "sidebar \<Rightarrow> bool" where
  "sidebar_ok sd \<longleftrightarrow> sd_position sd = (if sd_visible sd then 220 else 0) \<and>
     sd_icon sd = (if sd_visible sd then ''sidebar-hide-symbolic'' else ''sidebar-show-symbolic'') \<and>
     sd_active_tab sd = Some (sd_page sd) \<and> sd_sub_label sd = sub_label (sd_sub sd)"

datatype side_action = Side_Mode side_page | Side_Sub sub_page | Side_Toggle | Side_History | Side_Start bool

fun side_run :: "side_action \<Rightarrow> sidebar \<Rightarrow> sidebar" where
  "side_run (Side_Mode pg) sd = set_sidebar_mode pg sd"
| "side_run (Side_Sub pg) sd = set_history_sub_mode pg sd"
| "side_run Side_Toggle sd = toggle_history_sidebar sd"
| "side_run Side_History sd = open_history_panel sd"
| "side_run (Side_Start b) sd = apply_initial_sidebar_state b sd"

lemmas sidebar_ops = set_sidebar_mode_def set_history_sub_mode_def toggle_history_sidebar_def open_history_panel_def
  apply_initial_sidebar_state_def shown_button_def side_do_def Let_def

theorem sidebar_in_step: "sidebar_ok (foldl (\<lambda>sd a. side_run a sd) new_sidebar as)"
proof -
  have "sidebar_ok (side_run a sd)" if "sidebar_ok sd" for a sd
    using that by (cases a; cases "sd_page sd"; cases "sd_visible sd") (auto simp: sidebar_ops sidebar_ok_def split: side_page.split sub_page.split)
  then have "sidebar_ok sd \<Longrightarrow> sidebar_ok (foldl (\<lambda>sd a. side_run a sd) sd as)" for sd
    by (induction as arbitrary: sd) auto
  moreover have "sidebar_ok new_sidebar" by (simp add: new_sidebar_def sidebar_ops sidebar_ok_def)
  ultimately show ?thesis by blast
qed

text \<open>Of the items of the menus, two can never be chosen: the one for reloading changed files, whose action takes a
  parameter the item does not give, and Quit, whose action does not exist.\<close>

theorem menu_items_dead:
  "filter (\<lambda>a. \<not> can_activate a) (concat (map (\<lambda>(_, items). [a. Some (_, a) \<leftarrow> items]) menu_bar)) = [''app.quit'', ''win.autoreload'']"
  by code_simp

text \<open>The keys that do not reach the widgets when the find bar has no focus.\<close>

theorem keys_taken:
  "window_key v False k ctrl shift alt \<noteq> None \<longleftrightarrow>
    (\<exists>c. k = Letter c \<and> (ctrl \<and> (to_lower c \<in> set ''fhstpw'' \<or> shift \<and> to_lower c = CHR ''n'') \<or> alt \<and> to_lower c \<in> set ''hvk''))"
  by (cases k) (auto simp: window_key_def is_letter_def)

end
