(* ===== verification/Markdown_Draw.thy ===== *)
theory Markdown_Draw
  imports Layout_Flow
begin

text \<open>
  Drawing a flow of blocks (\<^verbatim>\<open>gui/markdown/markdown_draw.hpp\<close>, \<^verbatim>\<open>.cpp\<close>): the calls of Cairo and Pango one after
  the other, for the preview and for a page of the PDF.  Pango's extents, the reading of images, their
  scaling and the size of a badge's text are parameters.
\<close>

section \<open>What is drawn\<close>

text \<open>An image in memory as GdkPixbuf has it: rows of pixels of three or four bytes.\<close>

record pixbuf =
  pb_width :: int
  pb_height :: int
  pb_alpha :: bool
  pb_pixels :: "(u8 \<times> u8 \<times> u8 \<times> u8) list list"

text \<open>Angles are counted in quarters of a turn.\<close>

datatype draw_op = Op_Save | Op_Restore | Op_Source color | Op_Line_Width dbl | Op_Dash "dbl list" | Op_Move dbl dbl | Op_Line dbl dbl |
  Op_Arc dbl dbl dbl int int | Op_Close_Path | Op_Rect dbl dbl dbl dbl | Op_Fill | Op_Stroke | Op_Text pango_layout bool |
  Op_Badge string dbl string | Op_Translate dbl dbl | Op_Scale dbl dbl | Op_Surface "(u8 \<times> u8 \<times> u8 \<times> u8) list list" dbl dbl |
  Op_Paint | Op_Tag_Begin string string | Op_Tag_End string

record draw_env =
  dw_pango :: "pango_layout \<Rightarrow> pango_extents"
  dw_undef :: i32
  dw_sheet :: style_sheet
  dw_load :: "string \<Rightarrow> pixbuf option"
  dw_resize :: "pixbuf \<Rightarrow> int \<Rightarrow> int \<Rightarrow> pixbuf option"
  dw_badge :: "string \<Rightarrow> int \<times> int"
  dw_pdf :: bool

text \<open>\<^verbatim>\<open>std::min\<close>\<close>

definition dbl_min :: "dbl \<Rightarrow> dbl \<Rightarrow> dbl" where
  "dbl_min a b = (if dbl_less b a then b else a)"

definition rounded_rect :: "dbl \<Rightarrow> dbl \<Rightarrow> dbl \<Rightarrow> dbl \<Rightarrow> dbl \<Rightarrow> draw_op list" where
  "rounded_rect x y w h r =
     (let r = dbl_min r (dbl_div (dbl_min w h) (Fin 2))
      in [Op_Move (dbl_add x r) y, Op_Line (dbl_sub (dbl_add x w) r) y,
          Op_Arc (dbl_sub (dbl_add x w) r) (dbl_add y r) r (- 1) 0,
          Op_Line (dbl_add x w) (dbl_sub (dbl_add y h) r),
          Op_Arc (dbl_sub (dbl_add x w) r) (dbl_sub (dbl_add y h) r) r 0 1,
          Op_Line (dbl_add x r) (dbl_add y h),
          Op_Arc (dbl_add x r) (dbl_sub (dbl_add y h) r) r 1 2,
          Op_Line x (dbl_add y r),
          Op_Arc (dbl_add x r) (dbl_add y r) r 2 3, Op_Close_Path])"

text \<open>The bytes of a pixel for Cairo: blue, green and red multiplied by alpha, and alpha.\<close>

definition premultiply :: "u8 \<Rightarrow> u8 \<Rightarrow> u8" where
  "premultiply c a = ucast ((ucast c * ucast a :: u32) div 255)"

fun surface_pixel :: "bool \<Rightarrow> u8 \<times> u8 \<times> u8 \<times> u8 \<Rightarrow> u8 \<times> u8 \<times> u8 \<times> u8" where
  "surface_pixel alpha (r, g, b, a) =
     (if alpha then (premultiply b a, premultiply g a, premultiply r a, a) else (b, g, r, 255))"

definition pixbuf_to_surface :: "pixbuf \<Rightarrow> (u8 \<times> u8 \<times> u8 \<times> u8) list list option" where
  "pixbuf_to_surface pb =
     (if pb_width pb \<le> 0 \<or> pb_height pb \<le> 0 then None
      else Some (map (map (surface_pixel (pb_alpha pb))) (pb_pixels pb)))"

definition draw_pixbuf :: "draw_env \<Rightarrow> pixbuf \<Rightarrow> dbl \<Rightarrow> dbl \<Rightarrow> dbl \<Rightarrow> dbl \<Rightarrow> draw_op list" where
  "draw_pixbuf e pb x y w h =
     (if \<not> dw_pdf e
      then (case Option.bind (dw_resize e pb (sint (int_of_dbl (dw_undef e) (dbl_max (Fin 1) w)))
                   (sint (int_of_dbl (dw_undef e) (dbl_max (Fin 1) h)))) pixbuf_to_surface of
              None \<Rightarrow> []
            | Some s \<Rightarrow> [Op_Save, Op_Surface s x y, Op_Paint, Op_Restore])
      else (case pixbuf_to_surface pb of
              None \<Rightarrow> []
            | Some s \<Rightarrow> [Op_Save, Op_Translate x y,
                Op_Scale (dbl_div w (Fin (of_int (pb_width pb)))) (dbl_div h (Fin (of_int (pb_height pb)))),
                Op_Surface s (Fin 0) (Fin 0), Op_Paint, Op_Restore]))"

section \<open>Links\<close>

definition internal_anchor :: "block \<Rightarrow> string" where
  "internal_anchor b = (if 1 < length (bl_link_href b) \<and> hd (bl_link_href b) = CHR ''#'' then tl (bl_link_href b) else '''')"

definition attribute :: "string \<Rightarrow> string \<Rightarrow> string" where
  "attribute name v = name @ ''='' @ [CHR 0x27] @ v @ [CHR 0x27]"

definition tag_dest :: string where
  "tag_dest = ''cairo.dest''"

definition tag_link :: string where
  "tag_link = ''Link''"

definition open_link_tags :: "bool \<Rightarrow> block \<Rightarrow> draw_op list" where
  "open_link_tags emit b =
     (if \<not> emit \<or> \<not> bl_has_link_hit b then []
      else if bl_kind b = KHeading
      then (let anchor = internal_anchor b
            in if anchor \<noteq> '''' then [Op_Tag_Begin tag_dest (attribute ''name'' anchor)] else [])
      else if starts_with ''http'' (bl_link_href b) then [Op_Tag_Begin tag_link (attribute ''uri'' (bl_link_href b))]
      else if starts_with ''#'' (bl_link_href b) then [Op_Tag_Begin tag_link (attribute ''dest'' (tl (bl_link_href b)))]
      else [])"

definition close_link_tags :: "bool \<Rightarrow> block \<Rightarrow> draw_op list" where
  "close_link_tags emit b =
     (if \<not> emit \<or> \<not> bl_has_link_hit b then []
      else if bl_kind b = KHeading then (if internal_anchor b \<noteq> '''' then [Op_Tag_End tag_dest] else [])
      else if starts_with ''http'' (bl_link_href b) \<or> starts_with ''#'' (bl_link_href b) then [Op_Tag_End tag_link] else [])"

text \<open>A colour that is not set leaves the source as it is.\<close>

definition set_color :: "color \<Rightarrow> draw_op list" where
  "set_color c = (if col_valid c then [Op_Source c] else [])"

definition saved :: "draw_op list \<Rightarrow> draw_op list" where
  "saved ops = Op_Save # ops @ [Op_Restore]"

definition faded :: "rat \<Rightarrow> color \<Rightarrow> color" where
  "faded f c = c\<lparr>col_a := flt_mul (col_a c) (round32 f)\<rparr>"

definition show_text :: "draw_env \<Rightarrow> bool \<Rightarrow> styled_text list \<Rightarrow> dbl \<Rightarrow> dbl \<Rightarrow> dbl \<Rightarrow> draw_op list" where
  "show_text e justify runs width x y =
     saved [Op_Move x y, Op_Text (apply_styled_runs (dw_undef e) runs width (dw_sheet e)) justify]"

definition runs_width :: "draw_env \<Rightarrow> styled_text list \<Rightarrow> dbl \<Rightarrow> dbl" where
  "runs_width e runs width = pm_width (measure_runs (dw_pango e) (dw_undef e) runs width (dw_sheet e))"

fun text_x_for_align :: "cell_align \<Rightarrow> dbl \<Rightarrow> dbl \<Rightarrow> dbl \<Rightarrow> dbl \<Rightarrow> dbl" where
  "text_x_for_align AlignRight x w tw pad = dbl_sub (dbl_sub (dbl_add x w) pad) tw"
| "text_x_for_align AlignCenter x w tw pad = dbl_add x (dbl_div (dbl_sub w tw) (Fin 2))"
| "text_x_for_align _ x w tw pad = dbl_add x pad"

section \<open>Blocks\<close>

definition draw_box :: "block \<Rightarrow> draw_op list" where
  "draw_box b =
     (let x = (if bl_is_table b then bl_table_center_x b else Fin 0);
          w = dbl_add (bl_content_width b) (dbl_mul (Fin 2) (bl_padding b));
          outline = (if bl_kind b = KCode then rounded_rect x (bl_y b) w (bl_height b) (Fin 2) else [Op_Rect x (bl_y b) w (bl_height b)])
      in (if bl_has_bg b then saved (set_color (bl_bg b) @ outline @ [Op_Fill]) else []) @
         (if dbl_less (Fin 0) (bl_border_w b)
          then saved (set_color (bl_outer_border b) @ [Op_Line_Width (bl_border_w b)] @ outline @ [Op_Stroke]) else []) @
         (if dbl_less (Fin 0) (bl_border_left_w b)
          then saved (set_color (bl_border b) @ [Op_Line_Width (bl_border_left_w b), Op_Move (Fin 0) (bl_y b),
                 Op_Line (Fin 0) (dbl_add (bl_y b) (bl_height b)), Op_Stroke]) else []))"

definition draw_cell :: "draw_env \<Rightarrow> block \<Rightarrow> dbl \<Rightarrow> dbl \<Rightarrow> dbl \<Rightarrow> dbl \<Rightarrow> dbl \<Rightarrow> cell \<Rightarrow> draw_op list" where
  "draw_cell e b pad x y h w c =
     (if ce_header c then saved (set_color (bl_bg b) @ [Op_Rect x y w h, Op_Fill]) else []) @
     (if ce_run c \<noteq> []
      then (let inner = dbl_sub w (dbl_mul (Fin 2) pad)
            in show_text e False (ce_run c) inner (text_x_for_align (ce_align c) x w (runs_width e (ce_run c) inner) pad) (dbl_add y pad))
      else [])"

fun draw_cells :: "draw_env \<Rightarrow> block \<Rightarrow> dbl \<Rightarrow> dbl \<Rightarrow> dbl \<Rightarrow> dbl \<Rightarrow> cell list \<Rightarrow> dbl list \<Rightarrow> draw_op list" where
  "draw_cells e b pad x y h (c # cs) (w # ws) = draw_cell e b pad x y h w c @ draw_cells e b pad (dbl_add x w) y h cs ws"
| "draw_cells e b pad x y h _ _ = []"

fun draw_rows :: "draw_env \<Rightarrow> block \<Rightarrow> dbl \<Rightarrow> dbl \<Rightarrow> table_row list \<Rightarrow> draw_op list" where
  "draw_rows e b pad y [] = []"
| "draw_rows e b pad y (r # rs) =
     draw_cells e b pad (bl_table_center_x b) y (tr_height r) (tr_cells r) (bl_col_widths b) @
     draw_rows e b pad (dbl_add y (tr_height r)) rs"

definition line :: "dbl \<Rightarrow> dbl \<Rightarrow> dbl \<Rightarrow> dbl \<Rightarrow> draw_op list" where
  "line x1 y1 x2 y2 = [Op_Move x1 y1, Op_Line x2 y2]"

definition draw_grid :: "block \<Rightarrow> draw_op list" where
  "draw_grid b =
     (let x = bl_table_center_x b; right = dbl_add x (bl_content_width b);
          ys = foldl (\<lambda>ys r. ys @ [dbl_add (last ys) (tr_height r)]) [bl_y b] (bl_rows b);
          xs = foldl (\<lambda>xs w. xs @ [dbl_add (last xs) w]) [x] (bl_col_widths b)
      in saved (set_color (bl_outer_border b) @ [Op_Line_Width (Fin 1)] @
           concat (map (\<lambda>y. line x y right y) ys) @ concat (map (\<lambda>x. line x (bl_y b) x (last ys)) xs) @ [Op_Stroke] @
           (case bl_rows b of
              [] \<Rightarrow> []
            | r # _ \<Rightarrow> let y = dbl_add (bl_y b) (tr_height r) in Op_Line_Width (round64 1.6) # line x y right y @ [Op_Stroke])))"

definition draw_table :: "draw_env \<Rightarrow> block \<Rightarrow> draw_op list" where
  "draw_table e b =
     (let pad = (if dbl_less (Fin 0) (bl_cell_pad b) then bl_cell_pad b else Fin 3)
      in draw_rows e b pad (bl_y b) (bl_rows b) @ draw_grid b)"

definition draw_badge :: "draw_env \<Rightarrow> block \<Rightarrow> draw_op list" where
  "draw_badge e b =
     (let bw = dbl_add (Fin (of_int (fst (dw_badge e (bl_code_lang b))))) (dbl_mul (Fin 2) (Fin 4));
          x = dbl_sub (dbl_sub (dbl_add (bl_content_width b) (dbl_mul (Fin 2) (bl_padding b))) bw) (Fin 4)
      in saved (set_color (faded 0.6 (st_text_color (dw_sheet e))) @
           [Op_Move x (dbl_add (bl_y b) (Fin 4)), Op_Badge (st_base_font (dw_sheet e)) (Fin 7.5) (bl_code_lang b)]))"

text \<open>A row of the table of contents with a page number: title, leader and number.\<close>

definition draw_toc_row :: "draw_env \<Rightarrow> bool \<Rightarrow> block \<Rightarrow> draw_op list" where
  "draw_toc_row e emit b =
     (let wrap = dbl_sub (bl_content_width b) (bl_toc_indent b);
          title = butlast (bl_run b);
          right = dbl_add (bl_content_width b) (bl_toc_indent b);
          leader_right = dbl_sub (dbl_sub right (dbl_max (Fin 0) (bl_page_num_w b))) (Fin 6);
          leader_left = dbl_add (dbl_add (bl_toc_indent b) (runs_width e title wrap)) (Fin 6);
          leader_y = dbl_sub (dbl_add (bl_y b) (bl_baseline b)) (round64 0.6);
          number = [last (bl_run b)]
      in open_link_tags emit b @ show_text e False title wrap (bl_toc_indent b) (bl_y b) @ close_link_tags emit b @
         (if dbl_less (dbl_add leader_left (Fin 4)) leader_right
          then saved (set_color (faded 0.35 (st_text_color (dw_sheet e))) @
                 [Op_Line_Width (round64 0.9), Op_Dash [round64 1.4, round64 3.4]] @ line leader_left leader_y leader_right leader_y @ [Op_Stroke])
          else []) @
         show_text e False number (Fin (- 1)) (dbl_sub right (runs_width e number (Fin (- 1)))) (bl_y b))"

text \<open>An item's own indentation is never set by the layout; it is the default, 0.\<close>

definition marker_run :: "draw_env \<Rightarrow> block \<Rightarrow> styled_text" where
  "marker_run e b = styled (bl_marker b) (base_run (st_base_font (dw_sheet e)) (st_base_font_pt (dw_sheet e)) (color_for (dw_sheet e) SelListItem))"

definition draw_text_block :: "draw_env \<Rightarrow> bool \<Rightarrow> bool \<Rightarrow> block \<Rightarrow> draw_op list" where
  "draw_text_block e justify emit b =
     (let k = bl_kind b; item = k \<in> {KUlItem, KOlItem, KTaskItem};
          x = (if k = KCode \<or> k = KQuote then bl_padding b
               else if item then dbl_add (dbl_add (Fin 0) (runs_width e [marker_run e b] (Fin (- 1)))) (Fin 4)
               else if k = KTocRow then bl_toc_indent b else Fin 0);
          y = (if k = KCode \<or> k = KQuote
               then dbl_add (dbl_add (bl_y b) (bl_padding b)) (if k = KCode then bl_badge_room b else Fin 0) else bl_y b);
          wrap = (if k = KTocRow then dbl_sub (bl_content_width b) (bl_toc_indent b) else bl_content_width b)
      in (if k = KCode \<and> bl_code_lang b \<noteq> '''' then draw_badge e b else []) @
         (if item then show_text e False [marker_run e b] (Fin (- 1)) (Fin 0) (bl_y b) else []) @
         (if k = KTocRow \<and> bl_toc_page b \<noteq> None \<and> 2 \<le> length (bl_run b) then draw_toc_row e emit b
          else if bl_run b = [] \<or> dbl_le wrap (Fin 0) then []
          else open_link_tags emit b @ show_text e justify (bl_run b) wrap x y @ close_link_tags emit b))"

definition draw_block :: "draw_env \<Rightarrow> bool \<Rightarrow> bool \<Rightarrow> block \<Rightarrow> draw_op list" where
  "draw_block e justify emit b = draw_box b @
     (case bl_kind b of
        KHr \<Rightarrow> saved (set_color (bl_color b) @ [Op_Line_Width (Fin 1)] @ line (Fin 0) (bl_y b) (bl_content_width b) (bl_y b) @ [Op_Stroke])
      | KImage \<Rightarrow>
          (case bl_image b of
             None \<Rightarrow> []
           | Some (path, w, h) \<Rightarrow> (case dw_load e path of None \<Rightarrow> [] | Some pb \<Rightarrow> draw_pixbuf e pb (Fin 0) (bl_y b) w h))
      | KTable \<Rightarrow> draw_table e b
      | KPageBreak \<Rightarrow>
          (let y = dbl_add (bl_y b) (dbl_div (bl_height b) (Fin 2))
           in saved (set_color (faded 0.4 (bl_color b)) @ [Op_Line_Width (Fin 1), Op_Dash [Fin 3, Fin 3]] @
                line (Fin 0) y (bl_content_width b) y @ [Op_Stroke]))
      | _ \<Rightarrow> draw_text_block e justify emit b)"

definition draw_blocks_range :: "draw_env \<Rightarrow> block list \<Rightarrow> nat \<Rightarrow> nat \<Rightarrow> bool \<Rightarrow> bool \<Rightarrow> draw_op list" where
  "draw_blocks_range e blocks first behind justify emit = concat (map (draw_block e justify emit) (take (behind - first) (drop first blocks)))"

definition draw_flow :: "draw_env \<Rightarrow> block list \<Rightarrow> draw_op list" where
  "draw_flow e blocks = draw_blocks_range e blocks 0 (length blocks) False False"

section \<open>Hit regions\<close>

record hit_region =
  hit_x :: dbl
  hit_y :: dbl
  hit_w :: dbl
  hit_h :: dbl
  hit_href :: string

definition hit_region_of :: "block \<Rightarrow> hit_region" where
  "hit_region_of b =
     \<lparr>hit_x = (if bl_kind b = KTocRow then bl_toc_indent b else Fin 0),
      hit_y = dbl_add (bl_y b) (dbl_mul (bl_baseline b) (round64 0.3)),
      hit_w = (if bl_kind b = KTocRow then dbl_sub (bl_content_width b) (bl_toc_indent b)
              else if dbl_less (Fin 0) (bl_link_w b) then bl_link_w b else bl_content_width b),
      hit_h = bl_height b, hit_href = bl_link_href b\<rparr>"

definition collect_hit_regions :: "block list \<Rightarrow> hit_region list" where
  "collect_hit_regions blocks = map hit_region_of (filter (\<lambda>b. bl_has_link_hit b \<and> bl_link_href b \<noteq> '''') blocks)"

section \<open>Well-nested drawing\<close>

text \<open>What is open, the last first: a saved state or a tag.  \<open>None\<close> is an end without its beginning.\<close>

fun nesting :: "draw_op list \<Rightarrow> string option list \<Rightarrow> string option list option" where
  "nesting [] st = Some st"
| "nesting (Op_Save # ops) st = nesting ops (None # st)"
| "nesting (Op_Restore # ops) st = (case st of None # st \<Rightarrow> nesting ops st | _ \<Rightarrow> None)"
| "nesting (Op_Tag_Begin n _ # ops) st = nesting ops (Some n # st)"
| "nesting (Op_Tag_End n # ops) st = (case st of Some m # st \<Rightarrow> if m = n then nesting ops st else None | _ \<Rightarrow> None)"
| "nesting (_ # ops) st = nesting ops st"

definition nested :: "draw_op list \<Rightarrow> bool" where
  "nested ops \<longleftrightarrow> (\<forall>rest st. nesting (ops @ rest) st = nesting rest st)"

definition plain_op :: "draw_op \<Rightarrow> bool" where
  "plain_op x \<longleftrightarrow> (case x of Op_Save \<Rightarrow> False | Op_Restore \<Rightarrow> False | Op_Tag_Begin _ _ \<Rightarrow> False | Op_Tag_End _ \<Rightarrow> False | _ \<Rightarrow> True)"

named_theorems nests \<open>drawings that leave nothing open\<close>

lemma nested_Nil [nests]: "nested []"
  by (simp add: nested_def)

lemma nested_append [nests]: "nested a \<Longrightarrow> nested b \<Longrightarrow> nested (a @ b)"
  by (simp add: nested_def)

lemma nested_plain: "plain_op x \<Longrightarrow> nested ops \<Longrightarrow> nested (x # ops)"
  by (cases x) (simp_all add: nested_def plain_op_def)

lemma nested_saved [nests]: "nested ops \<Longrightarrow> nested (saved ops)"
  by (simp add: nested_def saved_def)

lemma nested_tagged: "nested ops \<Longrightarrow> nested (Op_Tag_Begin n a # ops @ [Op_Tag_End n])"
  by (simp add: nested_def)

lemma nested_concat [nests]: "(\<And>x. x \<in> set xs \<Longrightarrow> nested (f x)) \<Longrightarrow> nested (concat (map f xs))"
  by (induction xs) (auto intro: nests)

lemma nested_plains: "list_all plain_op ops \<Longrightarrow> nested ops"
  by (induction ops) (auto intro: nests nested_plain)

lemma plain_lists [simp]: "list_all plain_op (set_color c)" "list_all plain_op (rounded_rect x y w h r)" "list_all plain_op (line a b c' d)"
  "list_all plain_op (concat (map (\<lambda>v. line (p v) (q v) (r' v) (s v)) vs))"
proof -
  show "list_all plain_op (set_color c)" "list_all plain_op (rounded_rect x y w h r)" "list_all plain_op (line a b c' d)" for a b c' d
    by (simp_all add: set_color_def rounded_rect_def line_def Let_def plain_op_def)
  then show "list_all plain_op (concat (map (\<lambda>v. line (p v) (q v) (r' v) (s v)) vs))" by (induction vs) simp_all
qed

lemma plain_ops [simp]: "plain_op (Op_Source c)" "plain_op (Op_Line_Width x)" "plain_op (Op_Dash xs)" "plain_op (Op_Move x y)"
  "plain_op (Op_Line x y)" "plain_op (Op_Rect x y w h)" "plain_op Op_Fill" "plain_op Op_Stroke" "plain_op (Op_Text l j)"
  "plain_op (Op_Badge f z t)" "plain_op (Op_Translate x y)" "plain_op (Op_Scale x y)" "plain_op (Op_Surface px x y)" "plain_op Op_Paint"
  by (simp_all add: plain_op_def)

lemma nested_saved_plain [nests]: "list_all plain_op ops \<Longrightarrow> nested (saved ops)"
  by (intro nested_saved nested_plains)

lemma nested_show_text [nests]: "nested (show_text e j runs w x y)"
  unfolding show_text_def by (rule nested_saved_plain) simp

lemma link_tags: "nested ops \<Longrightarrow> nested (open_link_tags emit b @ ops @ close_link_tags emit b)"
  unfolding open_link_tags_def close_link_tags_def Let_def by (auto intro: nested_tagged [simplified])

lemma nested_pixbuf [nests]: "nested (draw_pixbuf e pb x y w h)"
proof -
  have "nested [Op_Save, Op_Surface s x y, Op_Paint, Op_Restore]" "nested [Op_Save, Op_Translate x y, Op_Scale u v, Op_Surface s a b, Op_Paint, Op_Restore]"
    for s x y u v a b by (simp_all add: nested_def)
  then show ?thesis by (auto simp: draw_pixbuf_def intro: nests split: option.split)
qed

lemma nested_box [nests]: "nested (draw_box b)"
  unfolding draw_box_def Let_def by (intro nested_append; simp add: nests)

lemma nested_cells [nests]: "nested (draw_cells e b pad x y h cs ws)"
proof (induction e b pad x y h cs ws rule: draw_cells.induct)
  case (1 e b pad x y h c cs w ws)
  have "nested (draw_cell e b pad x y h w c)"
    unfolding draw_cell_def Let_def by (intro nested_append; simp add: nests)
  with 1 show ?case by (auto intro: nests)
qed (simp_all add: nests)

lemma nested_table [nests]: "nested (draw_table e b)"
proof -
  have "nested (draw_rows e b pad y rs)" for pad y rs
    by (induction rs arbitrary: y) (auto intro: nests)
  moreover have "nested (draw_grid b)"
    unfolding draw_grid_def Let_def by (rule nested_saved_plain) (simp add: Let_def split: list.split)
  ultimately show ?thesis unfolding draw_table_def Let_def by (intro nested_append)
qed

lemma nested_toc_row [nests]: "nested (draw_toc_row e emit b)"
proof -
  have "nested (open_link_tags emit b @ title @ close_link_tags emit b @ leader @ number)"
    if "nested title" "nested leader" "nested number" for title leader number
    using nested_append [OF link_tags nested_append, OF that] by simp
  then show ?thesis unfolding draw_toc_row_def Let_def by (simp add: nests)
qed

lemma nested_text_block [nests]: "nested (draw_text_block e justify emit b)"
proof -
  have "nested (draw_badge e b)" unfolding draw_badge_def Let_def by (rule nested_saved_plain) simp
  then show ?thesis unfolding draw_text_block_def Let_def by (intro nested_append; simp add: nests link_tags)
qed

lemma nested_block [nests]: "nested (draw_block e justify emit b)"
  unfolding draw_block_def Let_def
  by (intro nested_append nested_box; cases "bl_kind b") (simp_all add: nests split: option.split)

text \<open>Whatever the blocks, the style and the images are, every state that drawing saves is restored and every link
  and destination that it begins is ended, in the reverse order: for the preview and for every page of the PDF.\<close>

theorem drawing_nested:
  "nesting (draw_blocks_range e blocks first behind justify emit) [] = Some []"
proof -
  have "nested (draw_blocks_range e blocks first behind justify emit)"
    unfolding draw_blocks_range_def by (intro nested_concat nested_block)
  then have "nesting (draw_blocks_range e blocks first behind justify emit @ []) [] = nesting [] []" unfolding nested_def by blast
  then show ?thesis by simp
qed

text \<open>The pixels of a surface are valid for Cairo: no colour exceeds its alpha, also with the rounding of the
  division, and an opaque pixel keeps its colours.\<close>

theorem pixels_premultiplied:
  assumes "surface_pixel alpha (r, g, b, a) = (b', g', r', a')"
  shows "b' \<le> a' \<and> g' \<le> a' \<and> r' \<le> a' \<and> (\<not> alpha \<or> a = 255 \<longrightarrow> (b', g', r', a') = (b, g, r, 255))"
proof -
  have m: "unat (premultiply c a) = unat c * unat a div 255" for c a :: u8
  proof -
    have v: "unat c \<le> 255" "unat a \<le> 255" using unsigned_less [of c, where 'a = nat] unsigned_less [of a, where 'a = nat] by simp_all
    from v have p: "unat c * unat a \<le> 255 * 255" by (rule mult_le_mono)
    then have "unat c * unat a div 255 \<le> 255" by simp
    moreover have "unat (ucast c * ucast a :: u32) = unat c * unat a"
      using p v by (simp add: unat_mult_lem [THEN iffD1] unat_word_ariths unsigned_ucast_eq take_bit_eq_mod)
    ultimately show ?thesis
      by (simp add: premultiply_def unat_div unsigned_ucast_eq take_bit_eq_mod)
  qed
  have le: "premultiply c a \<le> a" for c
  proof -
    have "unat c \<le> 255" using unsigned_less [of c, where 'a = nat] by simp
    then have "unat c * unat a div 255 \<le> 255 * unat a div 255" by (intro div_le_mono mult_le_mono) simp_all
    then show ?thesis by (simp add: word_le_nat_alt m)
  qed
  have full: "premultiply c 255 = c" for c
    by (rule unsigned_word_eqI [where 'a = nat]) (simp add: m)
  have top: "c \<le> 255" for c :: u8
    using unsigned_less [of c, where 'a = nat] by (simp add: word_le_nat_alt)
  show ?thesis using assms le full top by (auto split: if_splits)
qed

theorem pixels_premultiplied_witness:
  "surface_pixel True (200, 100, 255, 128) = (128, 50, 100, 128) \<and> (50 :: u8) \<le> 128"
proof -
  have e: "surface_pixel True (200, 100, 255, 128) = (128, 50, 100, 128)" by (simp add: premultiply_def)
  show ?thesis using e pixels_premultiplied [OF e] by simp
qed

end
