(* ===== verification/Markdown_Preview.thy ===== *)
theory Markdown_Preview
  imports Markdown_Draw Note_Tab Paths
begin

text \<open>
  The widget of the preview (\<^verbatim>\<open>gui/note/markdown_preview.hpp\<close>, \<^verbatim>\<open>.cpp\<close>): where a local image is found, the
  layout that is kept until something changes, the drawing, and links under the pointer.  The parser's events,
  files, Pango and the reading of images are parameters; scrolling is the window's adjustment.
\<close>

section \<open>State\<close>

record preview_env =
  pw_parse :: "string \<Rightarrow> md_event list"
  pw_read :: "string \<Rightarrow> string option"
  pw_home :: "string option"
  pw_regular :: "string \<Rightarrow> bool"
  pw_canonical :: "string \<Rightarrow> string option"
  pw_layout :: layout_env
  pw_draw :: draw_env

record preview =
  pv_source :: string
  pv_blocks :: "block list"
  pv_style :: style_sheet
  pv_palette :: palette
  pv_dark :: bool
  pv_dirty :: bool
  pv_last_width :: int
  pv_note_dir :: string
  pv_asset_dir :: string
  pv_css_path :: string
  pv_assets :: string
  pv_over_link :: bool
  pv_request :: i32

definition kPreviewMargin :: dbl where
  "kPreviewMargin = Fin 20"

definition new_preview :: preview where
  "new_preview = \<lparr>pv_source = '''', pv_blocks = [], pv_style = default_style light_palette, pv_palette = light_palette,
     pv_dark = False, pv_dirty = False, pv_last_width = 0, pv_note_dir = '''', pv_asset_dir = '''', pv_css_path = '''',
     pv_assets = '''', pv_over_link = False, pv_request = 0\<rparr>"

section \<open>Images\<close>

definition image_candidate :: "preview_env \<Rightarrow> string \<Rightarrow> string \<Rightarrow> string \<Rightarrow> string option" where
  "image_candidate e assets note_dir s =
     (if starts_with ''remin://images/'' s
      then map_option (\<lambda>home. path_div (path_div home ''remin-image'') (drop 15 s)) (pw_home e)
      else if starts_with ''assets/'' s
      then Some (path_div (if assets = '''' then path_div note_dir ''assets'' else assets) (drop 7 s))
      else if is_absolute s then Some s
      else if note_dir \<noteq> '''' then Some (path_div note_dir s) else Some s)"

definition resolve_local_image :: "preview_env \<Rightarrow> string \<Rightarrow> string \<Rightarrow> string \<Rightarrow> string option" where
  "resolve_local_image e assets note_dir s =
     (if s = '''' \<or> starts_with ''http'' s \<or> starts_with ''data:'' s then None
      else case image_candidate e assets note_dir s of
             None \<Rightarrow> None
           | Some c \<Rightarrow> if pw_regular e c then (case pw_canonical e c of Some k \<Rightarrow> Some k | None \<Rightarrow> Some c) else None)"

section \<open>What the note tab tells it\<close>

definition set_note_dir :: "string \<Rightarrow> string \<Rightarrow> preview \<Rightarrow> preview" where
  "set_note_dir note_dir asset_dir p =
     (let p = p\<lparr>pv_note_dir := note_dir, pv_asset_dir := asset_dir\<rparr>
      in if asset_dir \<noteq> '''' then p\<lparr>pv_assets := asset_dir\<rparr>
         else if note_dir \<noteq> '''' then p\<lparr>pv_assets := path_div note_dir ''assets''\<rparr> else p)"

definition set_style_path :: "string \<Rightarrow> preview \<Rightarrow> preview" where
  "set_style_path css_path p = p\<lparr>pv_css_path := css_path\<rparr>"

definition set_dark :: "bool \<Rightarrow> preview \<Rightarrow> preview" where
  "set_dark dark p =
     (let pal = (if dark then dark_palette else light_palette)
      in p\<lparr>pv_dark := dark, pv_palette := pal, pv_style := default_style pal, pv_dirty := True\<rparr>)"

definition render :: "string \<Rightarrow> preview \<Rightarrow> preview" where
  "render markdown p = p\<lparr>pv_source := markdown, pv_dirty := True\<rparr>"

primrec preview_call :: "preview_call \<Rightarrow> preview \<Rightarrow> preview" where
  "preview_call (Pv_Note_Dir d) = set_note_dir d ''''"
| "preview_call (Pv_Style_Path c) = set_style_path c"
| "preview_call (Pv_Dark d) = set_dark d"
| "preview_call (Pv_Render s) = render s"

section \<open>Layout and drawing\<close>

text \<open>The style sheet: the built-in one for the palette, with the user's when its file can be read.\<close>

definition sheet_for :: "preview_env \<Rightarrow> string \<Rightarrow> palette \<Rightarrow> style_sheet" where
  "sheet_for e css_path pal =
     (case if css_path = '''' then None else pw_read e css_path of
        None \<Rightarrow> default_style pal
      | Some css \<Rightarrow> apply_style (le_dp (pw_layout e)) pal css (default_style pal))"

definition content_height :: "block list \<Rightarrow> dbl" where
  "content_height bs =
     foldl (\<lambda>h b. if dbl_less h (dbl_add (bl_y b) (bl_height b)) then dbl_add (bl_y b) (bl_height b) else h) (Fin 0) bs"

definition layout_width :: "int \<Rightarrow> int" where
  "layout_width w = (if w \<le> 0 then 600 else w)"

definition layout_text :: "preview_env \<Rightarrow> style_sheet \<Rightarrow> string \<Rightarrow> string \<Rightarrow> int \<Rightarrow> string \<Rightarrow> block list option" where
  "layout_text e sheet assets note_dir w s =
     (let env = (pw_layout e)\<lparr>le_sheet := sheet,
            le_width := dbl_max (Fin 1) (dbl_sub (Fin (of_int w)) (dbl_mul (Fin 2) kPreviewMargin)),
            le_resolve_image := Some (resolve_local_image e assets note_dir), le_toc_pages := None, le_render_toc := False\<rparr>
      in case parse_events (pw_parse e s) of
           None \<Rightarrow> None
         | Some ast \<Rightarrow> map_option ls_blocks (layout_document env ast))"

text \<open>\<open>None\<close>: the layout does not return.\<close>

definition relayout_if_needed :: "preview_env \<Rightarrow> int \<Rightarrow> preview \<Rightarrow> preview option" where
  "relayout_if_needed e alloc p =
     (let w = layout_width alloc
      in if \<not> pv_dirty p \<and> pv_source p \<noteq> '''' \<and> w = pv_last_width p then Some p
         else let sheet = sheet_for e (pv_css_path p) (pv_palette p)
              in case layout_text e sheet (pv_assets p) (pv_note_dir p) w (pv_source p) of
                   None \<Rightarrow> None
                 | Some bs \<Rightarrow> Some (p\<lparr>pv_last_width := w, pv_style := sheet, pv_blocks := bs,
                     pv_request := int_of_dbl (dw_undef (pw_draw e)) (content_height bs) + 20, pv_dirty := False\<rparr>))"

definition rgb8 :: "int \<Rightarrow> int \<Rightarrow> int \<Rightarrow> color" where
  "rgb8 r g b = \<lparr>col_r = round32 (of_int r / 255), col_g = round32 (of_int g / 255), col_b = round32 (of_int b / 255),
     col_a = Fin 1, col_valid = True\<rparr>"

definition canvas_ops :: "preview_env \<Rightarrow> bool \<Rightarrow> style_sheet \<Rightarrow> block list \<Rightarrow> draw_op list" where
  "canvas_ops e dark sheet bs =
     [Op_Source (if dark then rgb8 30 30 46 else rgb8 255 255 255), Op_Paint] @
     (if bs \<noteq> []
      then saved (Op_Translate kPreviewMargin kPreviewMargin #
             draw_blocks_range ((pw_draw e)\<lparr>dw_sheet := sheet\<rparr>) bs 0 (length bs) False False)
      else [])"

definition on_canvas_draw :: "preview_env \<Rightarrow> int \<Rightarrow> preview \<Rightarrow> (preview \<times> draw_op list) option" where
  "on_canvas_draw e alloc p =
     map_option (\<lambda>p. (p, canvas_ops e (pv_dark p) (pv_style p) (pv_blocks p))) (relayout_if_needed e alloc p)"

section \<open>The pointer\<close>

text \<open>The pointer's place is the canvas's own, from the top of the whole content.\<close>

definition in_region :: "dbl \<Rightarrow> dbl \<Rightarrow> hit_region \<Rightarrow> bool" where
  "in_region fx fy r \<longleftrightarrow> dbl_le (hit_x r) fx \<and> dbl_le fx (dbl_add (hit_x r) (hit_w r)) \<and>
     dbl_le (hit_y r) fy \<and> dbl_le fy (dbl_add (hit_y r) (hit_h r))"

definition region_at :: "dbl \<Rightarrow> dbl \<Rightarrow> adjustment \<Rightarrow> preview \<Rightarrow> hit_region option" where
  "region_at x y adj p =
     List.find (in_region (dbl_sub x kPreviewMargin) (dbl_sub (dbl_add y (ad_value adj)) kPreviewMargin))
       (collect_hit_regions (pv_blocks p))"

definition has_anchor :: "string \<Rightarrow> block \<Rightarrow> bool" where
  "has_anchor target b \<longleftrightarrow> (\<exists>r \<in> set (bl_run b). sx_anchor r \<noteq> '''' \<and> sx_anchor r = target)"

text \<open>A press: the address that is launched, and the adjustment.\<close>

definition on_click :: "int \<Rightarrow> dbl \<Rightarrow> dbl \<Rightarrow> preview \<Rightarrow> adjustment \<Rightarrow> string option \<times> adjustment" where
  "on_click n x y p adj =
     (if n \<noteq> 1 then (None, adj)
      else case region_at x y adj p of
             None \<Rightarrow> (None, adj)
           | Some r \<Rightarrow>
               if starts_with ''http'' (hit_href r) then (Some (hit_href r), adj)
               else if starts_with ''#'' (hit_href r) \<and> 1 < length (hit_href r)
               then (case List.find (has_anchor (tl (hit_href r))) (pv_blocks p) of
                       None \<Rightarrow> (None, adj)
                     | Some b \<Rightarrow> (None, ad_set (dbl_add (bl_y b) (st_page_margin (pv_style p))) adj))
               else (None, adj))"

text \<open>The pointer moves; the flag is the cursor's shape.\<close>

definition on_motion :: "dbl \<Rightarrow> dbl \<Rightarrow> adjustment \<Rightarrow> preview \<Rightarrow> preview" where
  "on_motion x y adj p =
     (let over = region_at x y adj p \<noteq> None in if over \<noteq> pv_over_link p then p\<lparr>pv_over_link := over\<rparr> else p)"

definition first_visible_block :: "dbl \<Rightarrow> block list \<Rightarrow> nat" where
  "first_visible_block vis_top bs =
     (case List.find (\<lambda>i. dbl_le vis_top (dbl_add (bl_y (bs ! i)) (bl_height (bs ! i)))) [0 ..< length bs] of Some i \<Rightarrow> i | None \<Rightarrow> 0)"

definition last_visible_block :: "dbl \<Rightarrow> nat \<Rightarrow> block list \<Rightarrow> nat" where
  "last_visible_block vis_bottom first bs =
     (case List.find (\<lambda>i. dbl_le (bl_y (bs ! i)) vis_bottom) (rev [first ..< length bs]) of
        Some i \<Rightarrow> i | None \<Rightarrow> if bs = [] then 0 else length bs - 1)"

section \<open>What is drawn\<close>

text \<open>The picture that a text, a style sheet and a theme give at a width, with nothing kept from before.\<close>

definition theme_palette :: "bool \<Rightarrow> palette" where
  "theme_palette dark = (if dark then dark_palette else light_palette)"

definition assets_in :: "string \<Rightarrow> string" where
  "assets_in dir = (if dir = '''' then '''' else path_div dir ''assets'')"

fun picture :: "preview_env \<Rightarrow> string \<Rightarrow> string \<times> string \<times> bool \<Rightarrow> int \<Rightarrow> draw_op list option" where
  "picture e dir (s, css, dark) w =
     (let sheet = sheet_for e css (theme_palette dark)
      in map_option (canvas_ops e dark sheet) (layout_text e sheet (assets_in dir) dir (layout_width w) s))"

fun showing :: "preview_env \<Rightarrow> string \<Rightarrow> string \<times> string \<times> bool \<Rightarrow> preview \<Rightarrow> bool" where
  "showing e dir (s, css, dark) p \<longleftrightarrow>
     pv_source p = s \<and> pv_css_path p = css \<and> pv_dark p = dark \<and> pv_palette p = theme_palette dark \<and> pv_note_dir p = dir \<and>
     pv_assets p = assets_in dir \<and>
     (\<not> pv_dirty p \<and> s \<noteq> '''' \<longrightarrow> pv_style p = sheet_for e css (theme_palette dark) \<and>
        layout_text e (pv_style p) (assets_in dir) dir (pv_last_width p) s = Some (pv_blocks p))"

declare showing.simps [simp del] picture.simps [simp del]

lemma showing_relayout:
  assumes "showing e dir (s, css, dark) p" "relayout_if_needed e w p = Some p'"
  shows "showing e dir (s, css, dark) p' \<and> pv_style p' = sheet_for e css (theme_palette dark) \<and> pv_dark p' = dark \<and>
    layout_text e (pv_style p') (assets_in dir) dir (layout_width w) s = Some (pv_blocks p')"
  using assms by (auto simp: showing.simps relayout_if_needed_def Let_def split: if_splits option.splits)

lemma showing_cursor: "showing e dir x (p\<lparr>pv_over_link := b\<rparr>) = showing e dir x p"
  by (cases x) (simp add: showing.simps)

lemma showing_draws:
  assumes "showing e dir (s, css, dark) p"
  shows "map_option snd (on_canvas_draw e w p) = picture e dir (s, css, dark) w"
proof (cases "relayout_if_needed e w p")
  case None
  then show ?thesis using assms
    by (auto simp: showing.simps picture.simps on_canvas_draw_def relayout_if_needed_def Let_def split: if_splits option.splits)
next
  case (Some p')
  then show ?thesis using showing_relayout [OF assms Some] by (auto simp: picture.simps on_canvas_draw_def Let_def)
qed

section \<open>Links under the pointer\<close>

text \<open>The pointer of a scrolled view is taken for a place that is lower by the scroll.\<close>

lemma region_scrolled:
  assumes "collect_hit_regions (pv_blocks p) = [r]" "hit_y r = Fin a" "hit_h r = Fin h" "ad_value adj = Fin k"
    "a \<le> j - 20" "h + 4 < k" "0 \<le> a" "0 \<le> h" "j \<le> 2 ^ 48" "k \<le> 2 ^ 48"
  shows "region_at x (Fin j) adj p = None"
proof -
  have b: "\<bar>j + k\<bar> \<le> 2 ^ 50" using assms by simp
  obtain s where s: "round64 (j + k) = Fin s" "\<bar>s - (j + k)\<bar> \<le> 1" using round64_near [OF b] by blast
  have "dbl_less (round64 (a + h)) (round64 (s + - 20))"
  proof (rule round64_gap)
    show "a + h + 2 < s + - 20" using s(2) assms by linarith
    show "\<bar>a + h\<bar> \<le> 2 ^ 50" using assms by simp
    show "\<bar>s + - 20\<bar> \<le> 2 ^ 50" using s(2) assms by simp
  qed
  then have "\<not> dbl_le (round64 (s + - 20)) (round64 (a + h))"
    by (cases "round64 (s + - 20)"; cases "round64 (a + h)") (auto simp: dbl_le_def)
  then show ?thesis using assms s(1)
    by (simp add: region_at_def in_region_def kPreviewMargin_def dbl_sub_def)
qed

text \<open>Once the view is scrolled by more than a link's height, a press on the drawn link of a note with one link does
  nothing and the cursor is no hand: the scroll counts twice, though the pointer's place is the canvas's own.\<close>

theorem scrolled_press_misses:
  assumes "collect_hit_regions (pv_blocks p) = [r]" "hit_y r = Fin a" "hit_h r = Fin h" "ad_value adj = Fin k"
    "a \<le> j - 20" "j - 20 \<le> a + h" "h + 4 < k" "0 \<le> a" "0 \<le> h" "a + h \<le> 2 ^ 47" "k \<le> 2 ^ 48"
  shows "on_click n x (Fin j) p adj = (None, adj) \<and> \<not> pv_over_link (on_motion x (Fin j) adj p)"
proof -
  have "region_at x (Fin j) adj p = None" by (rule region_scrolled [OF assms(1-5,7)]) (use assms in simp_all)
  then show ?thesis by (simp add: on_click_def on_motion_def Let_def)
qed

text \<open>A note of one link, 20 high, in the built-in style.\<close>

definition demo_links :: "string \<Rightarrow> preview" where
  "demo_links href = new_preview\<lparr>pv_blocks := [new_block\<lparr>bl_content_width := Fin 100, bl_height := Fin 20,
     bl_run := [(styled ''a'' (base_run ''sans'' (Fin 11) no_color))\<lparr>sx_anchor := ''a''\<rparr>], bl_has_link_hit := True, bl_link_href := href\<rparr>]\<rparr>"

lemma demo_region: "href \<noteq> '''' \<Longrightarrow> collect_hit_regions (pv_blocks (demo_links href)) =
    [\<lparr>hit_x = Fin 0, hit_y = Fin 0, hit_w = Fin 100, hit_h = Fin 20, hit_href = href\<rparr>]"
proof -
  have "\<exists>z. round64 (3 / 10) = Fin z" using round64_near [of "3 / 10"] by auto
  then show "href \<noteq> '''' \<Longrightarrow> ?thesis"
    by (auto simp: collect_hit_regions_def hit_region_of_def demo_links_def new_preview_def new_block_def mul_by_def
        round64_of_int [of 0, simplified])
qed

theorem scrolled_press_misses_witness:
  "on_click 1 (Fin 50) (Fin 30) (demo_links ''http://a'') \<lparr>ad_value = Fin 0, ad_upper = Fin 900, ad_page = Fin 100\<rparr> =
     (Some ''http://a'', \<lparr>ad_value = Fin 0, ad_upper = Fin 900, ad_page = Fin 100\<rparr>) \<and>
   on_click 1 (Fin 50) (Fin 30) (demo_links ''http://a'') \<lparr>ad_value = Fin 25, ad_upper = Fin 900, ad_page = Fin 100\<rparr> =
     (None, \<lparr>ad_value = Fin 25, ad_upper = Fin 900, ad_page = Fin 100\<rparr>)"
  using scrolled_press_misses [OF demo_region, of "''http://a''" 0 20 "\<lparr>ad_value = Fin 25, ad_upper = Fin 900, ad_page = Fin 100\<rparr>" 25 30 1 "Fin 50"]
  by (simp add: on_click_def region_at_def demo_region in_region_def kPreviewMargin_def dbl_sub_def round64_of_int [of "30", simplified]
      round64_of_int [of "10", simplified] round64_of_int [of "20", simplified] round64_of_int [of "100", simplified] starts_with_def)

text \<open>A press on a link to a heading scrolls to the heading's place plus the margin of a page of the PDF, but the
  preview draws it only 20 below its place: with a margin of more than 22, as the built-in sheet has, the heading's
  top is above the view.\<close>

theorem jump_hides_target:
  assumes "region_at x y adj p = Some r" "hit_href r = CHR ''#'' # t" "t \<noteq> ''''"
    "List.find (has_anchor t) (pv_blocks p) = Some b" "bl_y b = Fin a" "st_page_margin (pv_style p) = Fin m"
    "0 \<le> a" "a \<le> 2 ^ 48" "22 < m" "m \<le> 2 ^ 48" "dbl_le (dbl_add (Fin a) (Fin m)) (ad_range adj)"
  shows "\<exists>adj'. on_click 1 x y p adj = (None, adj') \<and> ad_value adj' = dbl_add (bl_y b) (Fin m) \<and>
    dbl_less (dbl_add (bl_y b) kPreviewMargin) (ad_value adj')"
proof -
  let ?v = "dbl_add (Fin a) (Fin m)"
  have click: "on_click 1 x y p adj = (None, ad_set ?v adj)"
    using assms(1-6) by (cases t) (simp_all add: on_click_def starts_with_def)
  have "\<bar>a + m\<bar> \<le> 2 ^ 50" using assms by simp
  then obtain s where s: "round64 (a + m) = Fin s" "\<bar>s - (a + m)\<bar> \<le> 1" using round64_near by blast
  have "ad_value (ad_set ?v adj) = ?v"
  proof -
    have "0 \<le> s" "dbl_le (Fin s) (ad_range adj)" using s assms by simp_all
    then show ?thesis
      by (cases "ad_range adj") (auto simp: ad_set_def dbl_clamp_def dbl_max_def s(1) dbl_le_def)
  qed
  moreover have "dbl_less (round64 (a + 20)) (round64 (a + m))"
    by (rule round64_gap) (use assms in simp_all)
  ultimately show ?thesis using click assms(5) by (simp add: kPreviewMargin_def)
qed

theorem jump_hides_target_witness:
  "\<exists>adj'. on_click 1 (Fin 50) (Fin 30) (demo_links ''#a'') \<lparr>ad_value = Fin 0, ad_upper = Fin 900, ad_page = Fin 100\<rparr> = (None, adj') \<and>
     dbl_less (Fin 20) (ad_value adj')"
proof -
  let ?adj = "\<lparr>ad_value = Fin 0, ad_upper = Fin 900, ad_page = Fin 100\<rparr>"
  let ?p = "demo_links ''#a''"
  note whole = round64_of_int [of "30", simplified] round64_of_int [of "10", simplified] round64_of_int [of "20", simplified]
    round64_of_int [of "100", simplified] round64_of_int [of "800", simplified]
  have r: "region_at (Fin 50) (Fin 30) ?adj ?p =
      Some \<lparr>hit_x = Fin 0, hit_y = Fin 0, hit_w = Fin 100, hit_h = Fin 20, hit_href = ''#a''\<rparr>"
    by (simp add: region_at_def demo_region in_region_def kPreviewMargin_def dbl_sub_def whole)
  have b: "List.find (has_anchor ''a'') (pv_blocks ?p) = Some (hd (pv_blocks ?p))" "bl_y (hd (pv_blocks ?p)) = Fin 0"
    by (simp_all add: demo_links_def new_preview_def new_block_def has_anchor_def)
  obtain m where m: "round64 (5669 / 100) = Fin m" "\<bar>m - 5669 / 100\<bar> \<le> 1" using round64_near [of "5669 / 100"] by auto
  then have s: "st_page_margin (pv_style ?p) = Fin m"
    by (simp add: demo_links_def new_preview_def default_style_def new_style_sheet_def)
  have "round64 m = Fin m" using is_double_round64 [of "5669 / 100"] m(1) by (simp add: is_double_def)
  then have "dbl_le (dbl_add (Fin 0) (Fin m)) (ad_range ?adj)" using m(2) by (simp add: ad_range_def dbl_sub_def whole abs_le_iff)
  then show ?thesis
    using jump_hides_target [OF r _ _ b s] m(2) by (auto simp: b(2) kPreviewMargin_def whole abs_le_iff)
qed

end
