(* ===== verification/Application.thy ===== *)
theory Application
  imports Markdown_Preview Find_Bar Autosave Session_Properties
begin

text \<open>
  The application around the window: where the resources are (\<^verbatim>\<open>gui/resources.cpp\<close>), the theme at the start and
  the autosaver's tick (\<^verbatim>\<open>gui/application.cpp\<close>), the settings dialog (\<^verbatim>\<open>gui/window/settings_dialog.cpp\<close>), the
  window's actions on the theme and the menus (\<^verbatim>\<open>gui/ui/context_menu.cpp\<close>).  Whether Adwaita is dark under a
  scheme is the argument \<open>get_dark\<close>; a dialog for files is its answer.
\<close>

section \<open>Resources\<close>

record exe_env =
  xe_link :: "string option"
  xe_is_dir :: "string \<Rightarrow> bool"
  xe_variable :: "string option"
  xe_build_dir :: string

definition executable_dir :: "exe_env \<Rightarrow> string" where
  "executable_dir e =
     (case xe_link e of
        None \<Rightarrow> ''''
      | Some target \<Rightarrow> let p = take 4095 target in if p = '''' \<or> \<not> has_parent_path p then '''' else parent_path p)"

definition install_relative_dir :: "exe_env \<Rightarrow> string" where
  "install_relative_dir e =
     (let exe = executable_dir e; candidate = path_div (path_div (path_div (path_div exe ''..'') ''share'') ''remin'') ''resources''
      in if exe = '''' \<or> \<not> xe_is_dir e candidate then '''' else lexically_normal candidate)"

definition resource_dir :: "exe_env \<Rightarrow> string" where
  "resource_dir e =
     (case xe_variable e of
        Some v \<Rightarrow> if v \<noteq> '''' \<and> xe_is_dir e v then v
                  else if install_relative_dir e \<noteq> '''' then install_relative_dir e else xe_build_dir e
      | None \<Rightarrow> if install_relative_dir e \<noteq> '''' then install_relative_dir e else xe_build_dir e)"

definition resource_path :: "exe_env \<Rightarrow> string \<Rightarrow> string" where
  "resource_path e rel = resource_dir e @ slash # rel"

section \<open>Theme\<close>

datatype color_scheme = Scheme_Default | Force_Light | Prefer_Dark

text \<open>The scheme of the style manager and the style sheet that is loaded.\<close>

record theme =
  th_scheme :: color_scheme
  th_css :: "string option"

definition apply_theme_css :: "exe_env \<Rightarrow> bool \<Rightarrow> theme \<Rightarrow> theme" where
  "apply_theme_css e dark t =
     t\<lparr>th_css := Some (resource_path e ''styles/'' @ (if dark then ''dark'' else ''light'') @ ''.css'')\<rparr>"

text \<open>A change of the scheme runs the application's handler.\<close>

definition set_color_scheme :: "exe_env \<Rightarrow> (color_scheme \<Rightarrow> bool) \<Rightarrow> color_scheme \<Rightarrow> theme \<Rightarrow> theme" where
  "set_color_scheme e get_dark s t =
     (if s = th_scheme t then t else apply_theme_css e (get_dark s) (t\<lparr>th_scheme := s\<rparr>))"

definition scheme_for :: "bool \<Rightarrow> color_scheme" where
  "scheme_for dark = (if dark then Prefer_Dark else Force_Light)"

definition new_theme :: theme where
  "new_theme = \<lparr>th_scheme = Scheme_Default, th_css = None\<rparr>"

text \<open>The theme at the start; \<open>system_dark\<close> is the toolkit's own setting.\<close>

definition start_theme :: "exe_env \<Rightarrow> (color_scheme \<Rightarrow> bool) \<Rightarrow> bool \<Rightarrow> 's store \<Rightarrow> theme" where
  "start_theme e get_dark system_dark st =
     (let dark = theme_dark st; dark = (if \<not> dark then system_dark else dark)
      in apply_theme_css e dark (set_color_scheme e get_dark (scheme_for dark) new_theme))"

text \<open>The previews of the open notes.\<close>

definition refresh_note_previews :: "'s store \<Rightarrow> (note_view \<times> preview) list \<Rightarrow> (note_view \<times> preview) list" where
  "refresh_note_previews st = map (\<lambda>(v, p). (v, fold preview_call (refresh_preview_settings st v) p))"

definition dark_action :: "exe_env \<Rightarrow> (color_scheme \<Rightarrow> bool) \<Rightarrow> time_point \<Rightarrow> theme \<times> 's store \<times> (note_view \<times> preview) list \<Rightarrow>
    theme \<times> 's store \<times> (note_view \<times> preview) list" where
  "dark_action e get_dark now = (\<lambda>(t, st, ps).
     let dark = (th_scheme t \<noteq> Prefer_Dark); st = set_theme_dark now dark st
     in (set_color_scheme e get_dark (scheme_for dark) t, st, refresh_note_previews st ps))"

definition reload_action :: "exe_env \<Rightarrow> (color_scheme \<Rightarrow> bool) \<Rightarrow> theme \<Rightarrow> theme" where
  "reload_action e get_dark = set_color_scheme e get_dark Scheme_Default"

section \<open>The autosaver's tick\<close>

definition on_autosave_tick :: "int \<Rightarrow> 'w provider option \<Rightarrow> (autosaver \<times> 'w) \<times> badge \<Rightarrow> (autosaver \<times> 'w) \<times> badge" where
  "on_autosave_tick now provider = (\<lambda>((a, w), b).
     if due now a then (case flush now provider (a, w) of (ok, a, w) \<Rightarrow> ((a, w), show_autosave_badge ok b)) else ((a, w), b))"

text \<open>What the providers find: the first tab that answers, and the note's tab.\<close>

definition scrollback_of :: "('t \<Rightarrow> pane_id \<Rightarrow> string option) \<Rightarrow> 't list \<Rightarrow> pane_id \<Rightarrow> string option" where
  "scrollback_of capture tabs pane = Option.bind (List.find (\<lambda>t. capture t pane \<noteq> None) tabs) (\<lambda>t. capture t pane)"

definition note_text_of :: "note_view list \<Rightarrow> string \<Rightarrow> string option" where
  "note_text_of tabs i = map_option nv_text (List.find (\<lambda>v. nv_id v = i) tabs)"

section \<open>The settings dialog\<close>

record settings_dialog =
  sd_dark :: bool
  sd_autoreload :: bool
  sd_panel :: bool
  sd_persist :: bool
  sd_unsaved :: nat
  sd_css_label :: string

definition unsaved_index :: "unsaved_close \<Rightarrow> nat" where
  "unsaved_index b = (if b = Keep then 1 else if b = Skip then 2 else 0)"

definition unsaved_at :: "nat \<Rightarrow> unsaved_close" where
  "unsaved_at i = (if i = 1 then Keep else if i = 2 then Skip else Ask)"

definition css_label :: "'s store \<Rightarrow> string" where
  "css_label st = (let path = markdown_css_path st in if path = '''' then ''(built-in stylesheet)'' else path)"

definition open_settings :: "theme \<Rightarrow> 's store \<Rightarrow> settings_dialog" where
  "open_settings t st = \<lparr>sd_dark = (th_scheme t = Prefer_Dark), sd_autoreload = auto_reload_enabled st,
     sd_panel = auto_show_panel_enabled st, sd_persist = persist_open_windows st,
     sd_unsaved = unsaved_index (unsaved_close_behavior st), sd_css_label = css_label st\<rparr>"

text \<open>What the user does; a chosen file is the answer.\<close>

datatype settings_op = Switch_Dark bool | Switch_Autoreload bool | Switch_Panel bool | Switch_Persist bool | Choose_Unsaved nat |
  Browse_Css "string option" | Reset_Css | Template_Css "string option" bool

type_synonym 's settings_state = "settings_dialog \<times> theme \<times> 's store \<times> (string \<rightharpoonup> string)"

text \<open>The handlers.  A switch reports a change only.\<close>

definition switch_dark :: "exe_env \<Rightarrow> (color_scheme \<Rightarrow> bool) \<Rightarrow> time_point \<Rightarrow> bool \<Rightarrow> 's settings_state \<Rightarrow> 's settings_state" where
  "switch_dark e get_dark now b = (\<lambda>(d, t, st, files).
     if b = sd_dark d then (d, t, st, files)
     else (d\<lparr>sd_dark := b\<rparr>, set_color_scheme e get_dark (scheme_for b) t, set_theme_dark now b st, files))"

definition switch_autoreload :: "time_point \<Rightarrow> bool \<Rightarrow> 's settings_state \<Rightarrow> 's settings_state" where
  "switch_autoreload now b = (\<lambda>(d, t, st, files).
     if b = sd_autoreload d then (d, t, st, files) else (d\<lparr>sd_autoreload := b\<rparr>, t, set_auto_reload_enabled now b st, files))"

definition switch_panel :: "time_point \<Rightarrow> bool \<Rightarrow> 's settings_state \<Rightarrow> 's settings_state" where
  "switch_panel now b = (\<lambda>(d, t, st, files).
     if b = sd_panel d then (d, t, st, files) else (d\<lparr>sd_panel := b\<rparr>, t, set_auto_show_panel_enabled now b st, files))"

definition switch_persist :: "time_point \<Rightarrow> bool \<Rightarrow> 's settings_state \<Rightarrow> 's settings_state" where
  "switch_persist now b = (\<lambda>(d, t, st, files).
     if b = sd_persist d then (d, t, st, files) else (d\<lparr>sd_persist := b\<rparr>, t, set_persist_open_windows now b st, files))"

definition choose_unsaved :: "time_point \<Rightarrow> nat \<Rightarrow> 's settings_state \<Rightarrow> 's settings_state" where
  "choose_unsaved now i = (\<lambda>(d, t, st, files).
     if i = sd_unsaved d then (d, t, st, files)
     else (d\<lparr>sd_unsaved := i\<rparr>, t, set_unsaved_close_behavior now (unsaved_at i) st, files))"

text \<open>The style sheet is chosen and the label shows it.\<close>

definition choose_css :: "time_point \<Rightarrow> string \<Rightarrow> 's settings_state \<Rightarrow> 's settings_state" where
  "choose_css now path = (\<lambda>(d, t, st, files).
     let st = set_markdown_css_path now path st in (d\<lparr>sd_css_label := css_label st\<rparr>, t, st, files))"

definition on_markdown_css_changed :: "time_point \<Rightarrow> string option \<Rightarrow> 's settings_state \<Rightarrow> 's settings_state" where
  "on_markdown_css_changed now answer x =
     (case answer of None \<Rightarrow> x | Some path \<Rightarrow> if path = '''' then x else choose_css now path x)"

text \<open>\<open>opens\<close> says whether the file can be opened for writing.\<close>

definition on_markdown_css_template :: "exe_env \<Rightarrow> time_point \<Rightarrow> string option \<Rightarrow> bool \<Rightarrow> 's settings_state \<Rightarrow> 's settings_state" where
  "on_markdown_css_template e now answer opens = (\<lambda>(d, t, st, files).
     case answer of
       None \<Rightarrow> (d, t, st, files)
     | Some path \<Rightarrow>
         if path = '''' \<or> \<not> opens then (d, t, st, files)
         else choose_css now path (d, t, st, files(path \<mapsto>
                markdown_template_css (files (resource_path e ''styles/markdown-custom.example.css'')))))"

fun settings_step :: "exe_env \<Rightarrow> (color_scheme \<Rightarrow> bool) \<Rightarrow> time_point \<Rightarrow> settings_op \<Rightarrow> 's settings_state \<Rightarrow> 's settings_state" where
  "settings_step e get_dark now (Switch_Dark b) = switch_dark e get_dark now b"
| "settings_step e get_dark now (Switch_Autoreload b) = switch_autoreload now b"
| "settings_step e get_dark now (Switch_Panel b) = switch_panel now b"
| "settings_step e get_dark now (Switch_Persist b) = switch_persist now b"
| "settings_step e get_dark now (Choose_Unsaved i) = choose_unsaved now i"
| "settings_step e get_dark now (Browse_Css answer) = on_markdown_css_changed now answer"
| "settings_step e get_dark now Reset_Css = choose_css now ''''"
| "settings_step e get_dark now (Template_Css answer opens) = on_markdown_css_template e now answer opens"

fun settings_run :: "exe_env \<Rightarrow> (color_scheme \<Rightarrow> bool) \<Rightarrow> (time_point \<times> settings_op) list \<Rightarrow> 's settings_state \<Rightarrow> 's settings_state" where
  "settings_run e get_dark [] x = x"
| "settings_run e get_dark ((now, f) # fs) x = settings_run e get_dark fs (settings_step e get_dark now f x)"

section \<open>Context menus\<close>

record menu_item =
  mi_label :: string
  mi_sensitive :: bool

datatype menu_widget = Menu_Separator | Menu_Button string bool

definition menu_widget_of :: "menu_item \<Rightarrow> menu_widget" where
  "menu_widget_of i = (if mi_label i = ''---'' then Menu_Separator else Menu_Button (mi_label i) (mi_sensitive i))"

text \<open>The popover's entries and the point left of the click to which it points.\<close>

definition show_menu :: "i32 \<Rightarrow> dbl \<Rightarrow> dbl \<Rightarrow> menu_item list \<Rightarrow> menu_widget list \<times> (i32 \<times> i32 \<times> i32 \<times> i32)" where
  "show_menu undef x y items = (map menu_widget_of items, (int_of_dbl undef x - 1, int_of_dbl undef y, 1, 1))"

section \<open>The dialog shows what is stored\<close>

definition setting_keys :: "string list" where
  "setting_keys = [''settings:theme-dark'', ''settings:autoreload'', ''settings:autoshow-panel'', ''settings:persist-open-windows'',
     ''settings:unsaved-close'', ''settings:markdown-css'']"

definition good_op :: "settings_op \<Rightarrow> bool" where
  "good_op f \<longleftrightarrow> (case f of Choose_Unsaved i \<Rightarrow> i < 3 | Browse_Css (Some p) \<Rightarrow> CHR 0x00 \<notin> set p
     | Template_Css (Some p) _ \<Rightarrow> CHR 0x00 \<notin> set p | _ \<Rightarrow> True)"

lemmas handlers = switch_dark_def switch_autoreload_def switch_panel_def switch_persist_def choose_unsaved_def choose_css_def
  on_markdown_css_changed_def on_markdown_css_template_def

text \<open>Writing one setting leaves the others.\<close>

lemma setting_saved:
  assumes "sqlite_text.healthy_store dump parse st" "CHR 0x00 \<notin> set v" "k \<in> set setting_keys"
  shows "sqlite_text.healthy_store dump parse (save_text now k v st)" "load_text (save_text now k v st) k = Some v"
    "k' \<in> set setting_keys \<Longrightarrow> k' \<noteq> k \<Longrightarrow> load_text (save_text now k v st) k' = load_text st k'"
proof -
  have plain: "CHR 0x00 \<notin> set k" if "k \<in> set setting_keys" for k using that by (auto simp: setting_keys_def)
  show "sqlite_text.healthy_store dump parse (save_text now k v st)" "load_text (save_text now k v st) k = Some v"
    using sqlite_text.load_save_text [OF assms(1,2)] by simp_all
  show "k' \<in> set setting_keys \<Longrightarrow> k' \<noteq> k \<Longrightarrow> load_text (save_text now k v st) k' = load_text st k'"
    using sqlite_text.load_save_other [OF assms(1) plain [OF assms(3)] plain] by simp
qed

lemmas setting_reads = auto_reload_enabled_def auto_show_panel_enabled_def persist_open_windows_def unsaved_close_behavior_def
  markdown_css_path_def theme_dark_def

lemmas setting_writes = set_auto_reload_enabled_def set_auto_show_panel_enabled_def set_persist_open_windows_def
  set_unsaved_close_behavior_def set_markdown_css_path_def set_theme_dark_def

lemma flag_texts [simp]: "CHR 0x00 \<notin> set (flag_text b)" "CHR 0x00 \<notin> set (unsaved_close_text u)" "flag_text b = ''1'' \<longleftrightarrow> b" "flag_text b \<noteq> ''''"
  by (simp_all add: flag_text_def unsaved_close_text_def)

lemma settings_after:
  assumes "sqlite_text.healthy_store dump parse st"
  shows "open_settings t (set_theme_dark now b st) = open_settings t st"
    "open_settings t (set_auto_reload_enabled now b st) = (open_settings t st)\<lparr>sd_autoreload := b\<rparr>"
    "open_settings t (set_auto_show_panel_enabled now b st) = (open_settings t st)\<lparr>sd_panel := b\<rparr>"
    "open_settings t (set_persist_open_windows now b st) = (open_settings t st)\<lparr>sd_persist := b\<rparr>"
    "open_settings t (set_unsaved_close_behavior now u st) = (open_settings t st)\<lparr>sd_unsaved := unsaved_index u\<rparr>"
    "CHR 0x00 \<notin> set p \<Longrightarrow> open_settings t (set_markdown_css_path now p st) =
       (open_settings t st)\<lparr>sd_css_label := css_label (set_markdown_css_path now p st)\<rparr>"
proof -
  note saved = setting_saved [OF assms]
  have k: "''settings:theme-dark'' \<in> set setting_keys" "''settings:autoreload'' \<in> set setting_keys"
    "''settings:autoshow-panel'' \<in> set setting_keys" "''settings:persist-open-windows'' \<in> set setting_keys"
    "''settings:unsaved-close'' \<in> set setting_keys" "''settings:markdown-css'' \<in> set setting_keys"
    by (simp_all add: setting_keys_def)
  have u: "(if unsaved_close_text u = ''keep'' then Keep else if unsaved_close_text u = ''skip'' then Skip else Ask) = u"
    by (cases u) (simp_all add: unsaved_close_text_def)
  note dialog = open_settings_def css_label_def setting_reads setting_writes
  show "open_settings t (set_theme_dark now b st) = open_settings t st"
    unfolding dialog by (simp add: saved(2,3) [OF flag_texts(1) k(1)] k)
  show "open_settings t (set_auto_reload_enabled now b st) = (open_settings t st)\<lparr>sd_autoreload := b\<rparr>"
    unfolding dialog by (simp add: saved(2,3) [OF flag_texts(1) k(2)] k)
  show "open_settings t (set_auto_show_panel_enabled now b st) = (open_settings t st)\<lparr>sd_panel := b\<rparr>"
    unfolding dialog by (simp add: saved(2,3) [OF flag_texts(1) k(3)] k)
  show "open_settings t (set_persist_open_windows now b st) = (open_settings t st)\<lparr>sd_persist := b\<rparr>"
    unfolding dialog by (simp add: saved(2,3) [OF flag_texts(1) k(4)] k)
  show "open_settings t (set_unsaved_close_behavior now u st) = (open_settings t st)\<lparr>sd_unsaved := unsaved_index u\<rparr>"
    unfolding dialog by (simp add: saved(2,3) [OF flag_texts(2) k(5)] k u)
  show "open_settings t (set_markdown_css_path now p st) =
       (open_settings t st)\<lparr>sd_css_label := css_label (set_markdown_css_path now p st)\<rparr>" if "CHR 0x00 \<notin> set p"
    unfolding dialog by (simp add: saved(2,3) [OF that k(6)] k)
qed

lemma healthy_after:
  assumes "sqlite_text.healthy_store dump parse st"
  shows "sqlite_text.healthy_store dump parse (set_theme_dark now b st)" "sqlite_text.healthy_store dump parse (set_auto_reload_enabled now b st)"
    "sqlite_text.healthy_store dump parse (set_auto_show_panel_enabled now b st)"
    "sqlite_text.healthy_store dump parse (set_persist_open_windows now b st)"
    "sqlite_text.healthy_store dump parse (set_unsaved_close_behavior now u st)"
    "CHR 0x00 \<notin> set p \<Longrightarrow> sqlite_text.healthy_store dump parse (set_markdown_css_path now p st)"
  unfolding setting_writes using sqlite_text.load_save_text [OF assms] by simp_all

lemma unsaved_index_at: "i < 3 \<Longrightarrow> unsaved_index (unsaved_at i) = i"
  by (auto simp: unsaved_index_def unsaved_at_def)

lemma open_settings_scheme: "open_settings (set_color_scheme e get_dark (scheme_for b) t) st = (open_settings t st)\<lparr>sd_dark := b\<rparr>"
  by (simp add: open_settings_def set_color_scheme_def apply_theme_css_def scheme_for_def)

lemma settings_step_shows:
  assumes "sqlite_text.healthy_store dump parse st" "good_op f"
    "settings_step e get_dark now f (open_settings t st, t, st, files) = (d', t', st', files')"
  shows "sqlite_text.healthy_store dump parse st' \<and> open_settings t' st' = d'"
proof -
  note facts = settings_after [OF assms(1)] healthy_after [OF assms(1)] unsaved_index_at open_settings_scheme
  show ?thesis using assms
    by (cases f) (auto simp: facts handlers good_op_def Let_def split: option.splits if_splits)
qed

text \<open>C33: On a healthy store, however the settings dialog is used, with paths that hold no NUL, it shows what opening it again would show: every switch, the choice and the
  style sheet's label agree with the store and the theme.\<close>

theorem dialog_shows_settings:
  assumes "sqlite_text.healthy_store dump parse st" "list_all (\<lambda>(_, f). good_op f) ops"
    "settings_run e get_dark ops (open_settings t st, t, st, files) = (d', t', st', files')"
  shows "open_settings t' st' = d' \<and> sqlite_text.healthy_store dump parse st'"
  using assms
proof (induction ops arbitrary: t st files)
  case (Cons f ops)
  obtain now g where f: "f = (now, g)" by (cases f)
  obtain d1 t1 st1 files1 where s: "settings_step e get_dark now g (open_settings t st, t, st, files) = (d1, t1, st1, files1)"
    by (metis prod_cases4)
  have g: "good_op g" "list_all (\<lambda>(_, f). good_op f) ops" using Cons.prems(2) f by simp_all
  note st1 = settings_step_shows [OF Cons.prems(1) g(1) s]
  have "settings_run e get_dark ops (d1, t1, st1, files1) = (d', t', st', files')" using Cons.prems(3) f s by simp
  then show ?case using Cons.IH [OF _ g(2), of st1 t1 files1] st1 by simp
qed simp

theorem dialog_shows_settings_witness:
  "\<exists>d' t' st' files'. settings_run \<lparr>xe_link = None, xe_is_dir = (\<lambda>_. False), xe_variable = None, xe_build_dir = ''/r''\<rparr> (\<lambda>s. s = Prefer_Dark)
       [(1, Switch_Dark True), (2, Choose_Unsaved 2), (3, Template_Css (Some ''/a.css'') True)]
       (open_settings new_theme demo_store, new_theme, demo_store, Map.empty) = (d', t', st', files') \<and>
     open_settings t' st' = d' \<and> sd_dark d' \<and> sd_unsaved d' = 2"
proof -
  let ?e = "\<lparr>xe_link = None, xe_is_dir = (\<lambda>_. False), xe_variable = None, xe_build_dir = ''/r''\<rparr>"
  let ?ops = "[(1 :: time_point, Switch_Dark True), (2, Choose_Unsaved 2), (3, Template_Css (Some ''/a.css'') True)]"
  let ?x = "(open_settings new_theme demo_store, new_theme, demo_store, Map.empty)"
  obtain d' t' st' files' where r: "settings_run ?e (\<lambda>s. s = Prefer_Dark) ?ops ?x = (d', t', st', files')" by (metis prod_cases4)
  have "open_settings t' st' = d'" using dialog_shows_settings [OF demo_healthy _ r] by (simp add: good_op_def)
  moreover have "sd_dark d' \<and> sd_unsaved d' = 2"
    using r by (auto simp: handlers open_settings_def new_theme_def Let_def split: if_splits)
  ultimately show ?thesis using r by blast
qed

section \<open>The theme after a restart\<close>

text \<open>The theme chosen in the dialog is the one after a restart only when it is the dark one: a stored choice of the
  light theme counts as none, and a system that prefers dark makes the next start dark.\<close>

theorem restart_forgets_light:
  assumes "sqlite_text.healthy_store dump parse st" "b \<noteq> sd_dark (open_settings t st)"
    "settings_step e get_dark now (Switch_Dark b) (open_settings t st, t, st, files) = (d', t', st', files')"
  shows "th_scheme t' = scheme_for b \<and> th_scheme (start_theme e get_dark system_dark st') = scheme_for (b \<or> system_dark)"
proof -
  have s: "st' = set_theme_dark now b st" "t' = set_color_scheme e get_dark (scheme_for b) t" using assms(2,3) by (auto simp: switch_dark_def)
  have "load_text st' ''settings:theme-dark'' = Some (flag_text b)"
    using setting_saved(2) [OF assms(1) flag_texts(1)] by (simp add: s set_theme_dark_def setting_keys_def)
  then have "theme_dark st' = b" by (simp add: theme_dark_def)
  then show ?thesis
    by (simp add: s start_theme_def set_color_scheme_def apply_theme_css_def new_theme_def scheme_for_def Let_def)
qed

theorem restart_forgets_light_witness:
  "th_scheme (start_theme \<lparr>xe_link = None, xe_is_dir = (\<lambda>_. False), xe_variable = None, xe_build_dir = ''/r''\<rparr> (\<lambda>s. s = Prefer_Dark) True
     (set_theme_dark 1 False demo_store)) = Prefer_Dark"
proof -
  let ?e = "\<lparr>xe_link = None, xe_is_dir = (\<lambda>_. False), xe_variable = None, xe_build_dir = ''/r''\<rparr>"
  let ?t = "\<lparr>th_scheme = Prefer_Dark, th_css = None\<rparr>"
  have "settings_step ?e (\<lambda>s. s = Prefer_Dark) 1 (Switch_Dark False) (open_settings ?t demo_store, ?t, demo_store, Map.empty) =
      ((open_settings ?t demo_store)\<lparr>sd_dark := False\<rparr>, set_color_scheme ?e (\<lambda>s. s = Prefer_Dark) (scheme_for False) ?t,
       set_theme_dark 1 False demo_store, Map.empty)"
    by (simp add: open_settings_def switch_dark_def)
  from restart_forgets_light [OF demo_healthy _ this, of True] show ?thesis by (simp add: open_settings_def scheme_for_def)
qed

text \<open>The window's action on the theme keeps everything in step: afterwards the scheme, the loaded style sheet, the
  stored setting and every open preview are all dark or all light, the opposite of before.\<close>

theorem dark_action_in_step:
  assumes "sqlite_text.healthy_store dump parse st" "get_dark Prefer_Dark" "\<not> get_dark Force_Light"
    "dark_action e get_dark now (t, st, ps) = (t', st', ps')"
  shows "\<exists>dark. dark = (th_scheme t \<noteq> Prefer_Dark) \<and> th_scheme t' = scheme_for dark \<and> theme_dark st' = dark \<and>
    (th_scheme t' \<noteq> th_scheme t \<longrightarrow> th_css t' = Some (resource_path e ''styles/'' @ (if dark then ''dark'' else ''light'') @ ''.css'')) \<and>
    map fst ps' = map fst ps \<and>
    (\<forall>(v, p) \<in> set ps'. nv_preview v \<longrightarrow> pv_dark p = dark \<and> pv_palette p = theme_palette dark \<and> pv_source p = nv_text v \<and> pv_dirty p)"
proof -
  let ?dark = "th_scheme t \<noteq> Prefer_Dark"
  have s: "st' = set_theme_dark now ?dark st" "t' = set_color_scheme e get_dark (scheme_for ?dark) t" "ps' = refresh_note_previews st' ps"
    using assms(4) by (auto simp: dark_action_def Let_def)
  have "load_text st' ''settings:theme-dark'' = Some (flag_text ?dark)"
    using setting_saved(2) [OF assms(1) flag_texts(1)] by (simp add: s(1) set_theme_dark_def setting_keys_def)
  then have d: "theme_dark st' = ?dark" by (simp add: theme_dark_def)
  have p: "pv_dark p = ?dark \<and> pv_palette p = theme_palette ?dark \<and> pv_source p = nv_text v \<and> pv_dirty p"
    if "(v, p) \<in> set ps'" "nv_preview v" for v p
    using that d by (auto simp: s(3) refresh_note_previews_def refresh_preview_settings_def set_dark_def set_style_path_def render_def
        theme_palette_def Let_def)
  have "map fst ps' = map fst ps" by (simp add: s(3) refresh_note_previews_def case_prod_unfold)
  then show ?thesis using d p assms(2,3)
    by (auto simp: s(2) set_color_scheme_def apply_theme_css_def scheme_for_def)
qed

theorem dark_action_in_step_witness:
  "\<exists>t' st' ps'. dark_action \<lparr>xe_link = None, xe_is_dir = (\<lambda>_. False), xe_variable = None, xe_build_dir = ''/r''\<rparr> (\<lambda>s. s = Prefer_Dark) 1
       (new_theme, demo_store, [(demo_note\<lparr>nv_preview := True\<rparr>, new_preview)]) = (t', st', ps') \<and>
     theme_dark st' \<and> th_css t' = Some ''/r/styles/dark.css'' \<and> (\<forall>(v, p) \<in> set ps'. nv_preview v \<longrightarrow> pv_dark p)"
proof -
  let ?e = "\<lparr>xe_link = None, xe_is_dir = (\<lambda>_. False), xe_variable = None, xe_build_dir = ''/r''\<rparr>"
  obtain t' st' ps' where r: "dark_action ?e (\<lambda>s. s = Prefer_Dark) 1
      (new_theme, demo_store, [(demo_note\<lparr>nv_preview := True\<rparr>, new_preview)]) = (t', st', ps')" by (metis prod_cases3)
  have dir: "resource_path ?e ''styles/'' = ''/r/styles/''"
    by (simp add: resource_path_def resource_dir_def install_relative_dir_def executable_dir_def slash_def Let_def)
  show ?thesis using dark_action_in_step [OF demo_healthy _ _ r] r dir
    by (auto simp: new_theme_def scheme_for_def)
qed

text \<open>Choosing Reload gives up the scheme but not the stored setting: in a light system the window is light while the
  setting, and every preview that is refreshed, stays dark.\<close>

theorem reload_splits_theme:
  assumes "theme_dark st" "\<not> get_dark Scheme_Default" "th_scheme t = Prefer_Dark" "nv_preview v"
  shows "th_css (reload_action e get_dark t) = Some (resource_path e ''styles/light.css'') \<and>
    pv_dark (fold preview_call (refresh_preview_settings st v) p)"
  using assms by (simp add: reload_action_def set_color_scheme_def apply_theme_css_def resource_path_def refresh_preview_settings_def
      set_dark_def render_def set_style_path_def Let_def)

section \<open>The badge\<close>

text \<open>The badge of the autosaver never tells of a failure: whenever a tick finds something due it says that the state was
  saved, whatever the checkpoint made of it.\<close>

theorem badge_never_fails:
  assumes "due now a"
  shows "snd (on_autosave_tick now provider ((a, w), b)) =
    \<lparr>bg_text = ''saved '' @ check_mark, bg_class = ''autosave-ok'', bg_visible = True, bg_timer = True\<rparr>"
proof -
  have "fst (flush now provider (a, w))"
  proof -
    obtain key e where "(key, e) \<in> set (pending a)" "due_entry now a e" using assms by (auto simp: due_def)
    then show ?thesis
      by (auto simp: flush_def write_entry_def Let_def split: option.split prod.split autosave_kind.splits intro!: bexI [of _ "(key, e)"])
  qed
  then show ?thesis using assms
    by (auto simp: on_autosave_tick_def show_autosave_badge_def split: prod.split)
qed

theorem badge_never_fails_witness:
  "bg_text (snd (on_autosave_tick 3000000000 (Some (\<lambda>(a, _). (a, ''the checkpoint failed'')))
      ((note_workspace_activity 0 new_autosaver, ''''), \<lparr>bg_text = '''', bg_class = '''', bg_visible = False, bg_timer = False\<rparr>))) =
    ''saved '' @ check_mark"
proof -
  have "due 3000000000 (note_workspace_activity 0 new_autosaver)"
    by (simp add: due_def due_entry_def threshold_def note_workspace_activity_def note_activity_def new_autosaver_def Let_def)
  show ?thesis by (simp only: badge_never_fails [OF \<open>due _ _\<close>]) simp
qed

section \<open>Resources of an installed program\<close>

text \<open>An absolute path of names.\<close>

definition path_of :: "string list \<Rightarrow> string" where
  "path_of ns = concat (map (\<lambda>n. slash # n) ns)"

definition proper_name :: "string \<Rightarrow> bool" where
  "proper_name n \<longleftrightarrow> plain_name n \<and> n \<noteq> ''.'' \<and> n \<noteq> ''..''"

lemma path_of_simps [simp]: "path_of [] = ''''" "path_of (n # ns) = slash # n @ path_of ns" "path_of (ns @ ms) = path_of ns @ path_of ms"
  by (simp_all add: path_of_def)

lemma names_path: "plain_name n \<Longrightarrow> list_all plain_name ns \<Longrightarrow> names (n @ path_of ns) = n # ns"
proof (induction ns arbitrary: n)
  case Nil
  then obtain c cs where n: "n = c # cs" "c \<noteq> slash" "slash \<notin> set cs" by (cases n) (auto simp: plain_name_def)
  then have "names (dropWhile (\<lambda>x. x \<noteq> slash) cs) = []" by (subst dropWhile_eq_Nil_conv [THEN iffD2]) auto
  then show ?case using n by (simp add: names.simps(2) [of c])
next
  case (Cons m ms)
  obtain c cs where n: "n = c # cs" "c \<noteq> slash" "slash \<notin> set cs" using Cons.prems(1) by (cases n) (auto simp: plain_name_def)
  obtain d ds where m: "m = d # ds" "d \<noteq> slash" using Cons.prems(2) by (cases m) (auto simp: plain_name_def)
  have a: "names (slash # m @ path_of ms) = names (m @ path_of ms)"
    using m by (simp add: names.simps(2) [of slash])
  have "names (n @ path_of (m # ms)) = n # names (slash # m @ path_of ms)"
    using n by (simp add: names.simps(2) [of c] takeWhile_append dropWhile_append3 dropWhile_append)
  then show ?case using Cons.IH [of m] Cons.prems a by simp
qed

lemma elements_path: "list_all plain_name ns \<Longrightarrow> elements (path_of ns) = (if ns = [] then [] else [slash] # ns)"
proof (cases ns)
  case (Cons n ms)
  moreover assume "list_all plain_name ns"
  moreover from this Cons have "n \<noteq> ''''" "hd n \<noteq> slash" by (cases n; auto simp: plain_name_def)+
  ultimately show ?thesis using names_path [of n ms]
    by (cases n) (auto simp: elements_def is_absolute_def starts_with_def Let_def)
qed (simp add: elements_def is_absolute_def starts_with_def)

lemma normal_steps: "list_all proper_name ns \<Longrightarrow> foldl (normal_step b) (st, trail) ns = (rev ns @ st, trail \<and> ns = [])"
  by (induction ns arbitrary: st trail) (auto simp: proper_name_def plain_name_def)

lemma join_names_path: "ns \<noteq> [] \<Longrightarrow> slash # join_names ns = path_of ns"
proof -
  have "concat (map (\<lambda>(i, n). if i = 0 then n else slash # n) (enumerate (Suc k) ns)) = path_of ns" for k ns
    by (induction ns arbitrary: k) simp_all
  then show "ns \<noteq> [] \<Longrightarrow> ?thesis" by (cases ns) (simp_all add: join_names_def)
qed

text \<open>A program installed as \<open>prefix/bin/name\<close> finds its resources in \<open>prefix/share/remin/resources\<close>, whatever the prefix:
  the dots are resolved.\<close>

theorem installed_resources_found:
  assumes "list_all proper_name (prefix @ [name])" "xe_link e = Some (path_of (prefix @ [''bin'', name]))"
    "length (path_of (prefix @ [''bin'', name])) < 4096" "xe_variable e = None"
    "xe_is_dir e (path_of (prefix @ [''bin'', ''..'', ''share'', ''remin'', ''resources'']))"
  shows "resource_dir e = path_of (prefix @ [''share'', ''remin'', ''resources''])"
proof -
  let ?bin = "path_of (prefix @ [''bin''])"
  have pn: "list_all plain_name prefix" "plain_name name" using assms(1) by (auto simp: proper_name_def list_all_iff)
  have bin: "plain_dir ?bin" "?bin \<noteq> ''''" by (cases prefix; simp add: plain_dir_def is_absolute_def starts_with_def has_filename_last slash_def)+
  have parent: "parent_path (path_of (prefix @ [''bin'', name])) = ?bin"
    using parent_join [of name ?bin] pn(2) bin by (simp add: has_filename_last slash_def)
  have exe: "executable_dir e = ?bin"
    using assms(2,3) parent bin(2) by (simp add: executable_dir_def has_parent_path_def)
  have cand: "path_div (path_div (path_div (path_div ?bin ''..'') ''share'') ''remin'') ''resources'' =
      path_of (prefix @ [''bin'', ''..'', ''share'', ''remin'', ''resources''])"
    by (simp add: path_div_def is_absolute_def starts_with_def has_filename_last slash_def)
  have "lexically_normal (path_of (prefix @ [''bin'', ''..'', ''share'', ''remin'', ''resources''])) =
      path_of (prefix @ [''share'', ''remin'', ''resources''])"
  proof -
    have e: "elements (path_of (prefix @ [''bin'', ''..'', ''share'', ''remin'', ''resources''])) =
        [slash] # prefix @ [''bin'', ''..'', ''share'', ''remin'', ''resources'']"
      using pn(1) by (subst elements_path) (simp_all add: plain_name_def slash_def)
    have "is_absolute (path_of (prefix @ [''bin'', ''..'', ''share'', ''remin'', ''resources'']))"
      by (cases prefix) (simp_all add: is_absolute_def starts_with_def)
    moreover have "foldl (normal_step True) ([], False) (prefix @ [''bin'', ''..'', ''share'', ''remin'', ''resources'']) =
        (rev (prefix @ [''share'', ''remin'', ''resources'']), False)"
      using normal_steps [of prefix True "[]" False] assms(1) by simp
    ultimately show ?thesis using join_names_path [of "prefix @ [''share'', ''remin'', ''resources'']"]
      unfolding lexically_normal_def e by (auto simp: Let_def)
  qed
  then show ?thesis using assms(4,5) exe cand bin(2)
    by (simp add: resource_dir_def install_relative_dir_def Let_def)
qed

theorem installed_resources_found_witness:
  "resource_dir \<lparr>xe_link = Some ''/usr/bin/remin'', xe_is_dir = (\<lambda>_. True), xe_variable = None, xe_build_dir = ''/b''\<rparr> =
     ''/usr/share/remin/resources''"
proof -
  let ?e = "\<lparr>xe_link = Some ''/usr/bin/remin'', xe_is_dir = (\<lambda>_. True), xe_variable = None, xe_build_dir = ''/b''\<rparr>"
  have "list_all proper_name ([''usr''] @ [''remin''])" "xe_link ?e = Some (path_of ([''usr''] @ [''bin'', ''remin'']))"
    by (simp_all add: proper_name_def plain_name_def slash_def)
  from installed_resources_found [OF this] show ?thesis by (simp add: slash_def)
qed

end
