(* ===== verification/Pdf_Draw.thy ===== *)
theory Pdf_Draw
  imports Markdown_Draw Preview_Properties
begin

text \<open>
  Drawing the exported document (\<^verbatim>\<open>gui/markdown/markdown_pdf_export.cpp\<close>): the calls of Cairo for each page, its
  blocks, its header and its footer, and the outline.  Whether the file's surface can be made is an argument.
\<close>

section \<open>Bands\<close>

definition band_run :: "style_sheet \<Rightarrow> string \<Rightarrow> styled_text" where
  "band_run s t = styled t (base_run (st_base_font s) (Fin (17 / 2)) (st_text_color s))"

definition band_extents :: "draw_env \<Rightarrow> string \<Rightarrow> pango_extents" where
  "band_extents e t = dw_pango e (apply_styled_runs (dw_undef e) [band_run (dw_sheet e) t] (Fin (- 1)) (dw_sheet e))"

definition draw_side :: "draw_env \<Rightarrow> dbl \<Rightarrow> string \<Rightarrow> dbl \<Rightarrow> bool \<Rightarrow> draw_op list" where
  "draw_side e y t x center_align =
     (if t = '''' then []
      else let px = band_extents e t; tx = (if center_align then dbl_sub x (dbl_div (from_pango (px_width px)) (Fin 2)) else x)
           in saved [Op_Move tx (dbl_sub y (from_pango (px_baseline px))),
                Op_Text (apply_styled_runs (dw_undef e) [band_run (dw_sheet e) t] (Fin (- 1)) (dw_sheet e)) False])"

definition draw_band :: "draw_env \<Rightarrow> string \<Rightarrow> string \<Rightarrow> string \<Rightarrow> dbl \<Rightarrow> dbl \<Rightarrow> dbl \<Rightarrow> draw_op list" where
  "draw_band e left center right page_left page_right y =
     draw_side e y left page_left False @ draw_side e y center (dbl_div (dbl_add page_left page_right) (Fin 2)) True @
     draw_side e y right page_right True"

section \<open>Pages\<close>

definition page_content :: "draw_env \<Rightarrow> block list \<Rightarrow> page_slice \<Rightarrow> draw_op list" where
  "page_content e blocks s = draw_blocks_range e blocks (pg_first s) (pg_last s + 1) True True"

definition export_page :: "draw_env \<Rightarrow> string \<Rightarrow> string \<Rightarrow> page_meta \<Rightarrow> block list \<Rightarrow> nat \<Rightarrow> nat \<Rightarrow> page_slice \<Rightarrow> draw_op list" where
  "export_page e date time meta blocks n k s =
     (let sh = dw_sheet e; margin = st_page_margin sh; left = margin; right = dbl_sub (st_page_width sh) margin;
          top_anchor = dbl_mul margin (round64 0.55); bottom_anchor = dbl_sub (st_page_height sh) (dbl_mul margin (round64 0.55));
          bands = page_bands date time meta k n
      in saved (Op_Translate left (dbl_neg (dbl_sub (pg_start_y s) margin)) # page_content e blocks s) @
         draw_band e (bands ! 0) (bands ! 1) (bands ! 2) left right top_anchor @
         draw_band e (bands ! 3) (bands ! 4) (bands ! 5) left right bottom_anchor)"

text \<open>The pages and the outline; \<open>Some None\<close> is \<^verbatim>\<open>false\<close> and \<open>None\<close> a layout that does not return.\<close>

definition export_pdf :: "layout_env \<Rightarrow> draw_env \<Rightarrow> bool \<Rightarrow> string \<Rightarrow> string \<Rightarrow> page_meta \<Rightarrow> node \<Rightarrow>
    (draw_op list list \<times> outline_entry list) option option" where
  "export_pdf env e opens date time meta doc =
     (case pdf_pages env doc of
        None \<Rightarrow> None
      | Some None \<Rightarrow> Some None
      | Some (Some (blocks, pages)) \<Rightarrow>
          if \<not> opens then Some None
          else Some (Some (map (\<lambda>(k, s). export_page (e\<lparr>dw_sheet := le_sheet env\<rparr>) date time meta blocks (length pages) k s) (enumerate 0 pages),
                 pdf_outline (headings doc))))"

section \<open>Every page is complete\<close>

lemma nested_side [nests]: "nested (draw_side e y t x c)"
  unfolding draw_side_def Let_def by (simp add: nests)

lemma nested_band [nests]: "nested (draw_band e l c r x x' y)"
  unfolding draw_band_def by (intro nested_append nested_side)

lemma nested_page: "nested (export_page e date time meta blocks n k s)"
proof -
  have "nested (page_content e blocks s)" unfolding page_content_def draw_blocks_range_def by (intro nested_concat nested_block)
  then show ?thesis unfolding export_page_def Let_def by (intro nested_append nested_saved nested_plain nested_band) simp_all
qed

lemma page_content_indices:
  assumes "pg_last s < length blocks"
  shows "page_content e blocks s = concat (map (\<lambda>i. draw_block e True True (blocks ! i)) (slice_indices s))"
proof -
  have "take (pg_last s + 1 - pg_first s) (drop (pg_first s) blocks) = map ((!) blocks) (slice_indices s)"
    using assms unfolding slice_indices_def by (intro nth_equalityI) (simp_all del: upt_Suc)
  then show ?thesis by (simp add: page_content_def draw_blocks_range_def comp_def)
qed

text \<open>C29: An exported document has one list of drawing calls for each page, each of which leaves nothing open, and over all
  pages every block but the markers of page breaks is drawn exactly once and in order.\<close>

theorem export_draws_document:
  assumes "export_pdf env e opens date time meta doc = Some (Some (drawn, outline))"
    "pdf_pages env doc = Some (Some (blocks, pages))" "\<exists>b \<in> set blocks. \<not> is_break b"
  shows "length drawn = length pages \<and> (\<forall>ops \<in> set drawn. nesting ops [] = Some []) \<and>
    (\<forall>k < length pages. drawn ! k = export_page (e\<lparr>dw_sheet := le_sheet env\<rparr>) date time meta blocks (length pages) k (pages ! k)) \<and>
    concat (map (page_content (e\<lparr>dw_sheet := le_sheet env\<rparr>) blocks) pages) =
      concat (map (draw_block (e\<lparr>dw_sheet := le_sheet env\<rparr>) True True) (filter (\<lambda>b. \<not> is_break b) blocks))"
proof -
  let ?e = "e\<lparr>dw_sheet := le_sheet env\<rparr>" and ?d = "\<lambda>i. draw_block (e\<lparr>dw_sheet := le_sheet env\<rparr>) True True (blocks ! i)"
  have d: "drawn = map (\<lambda>(k, s). export_page ?e date time meta blocks (length pages) k s) (enumerate 0 pages)"
    using assms(1,2) by (auto simp: export_pdf_def split: if_splits)
  have n: "nesting ops [] = Some []" if "ops \<in> set drawn" for ops
  proof -
    have "nested ops" using that nested_page by (auto simp: d)
    then have "nesting (ops @ []) [] = nesting [] []" unfolding nested_def by blast
    then show ?thesis by simp
  qed
  have p: "pages = pages_from blocks (page_content_height (le_sheet (pdf_env env))) 0"
  proof -
    have "pages = paginate_blocks blocks (page_content_height (le_sheet (pdf_env env)))"
      using assms(2) by (auto simp: pdf_pages_def pdf_env_def Let_def split: option.splits if_splits)
    then show ?thesis using paginate_pages [OF assms(3)] by simp
  qed
  have cover: "concat (map slice_indices pages) = filter (follows blocks) [0..<length blocks]" unfolding p by (rule pages_from_cover)
  have f: "filter (follows blocks) [0..<length blocks] = filter (\<lambda>i. \<not> is_break (blocks ! i)) [0..<length blocks]"
    by (rule filter_cong) (auto simp: follows_def)
  have l: "pg_last s < length blocks" if "s \<in> set pages" "pg_first s \<le> pg_last s" for s
  proof -
    have "pg_last s \<in> set (concat (map slice_indices pages))" using that by (force simp: slice_indices_def)
    then show ?thesis by (simp add: cover follows_def)
  qed
  have c: "page_content ?e blocks s = concat (map ?d (slice_indices s))" if "s \<in> set pages" for s
  proof (cases "pg_first s \<le> pg_last s")
    case True
    then show ?thesis using l [OF that] page_content_indices by blast
  qed (simp add: page_content_def draw_blocks_range_def slice_indices_def)
  then have "concat (map (page_content ?e blocks) pages) = concat (map (\<lambda>s. concat (map ?d (slice_indices s))) pages)"
    by (intro arg_cong [of _ _ concat] map_cong) simp_all
  also have "\<dots> = concat (map ?d (concat (map slice_indices pages)))" by (induction pages) simp_all
  also have "\<dots> = concat (map (draw_block ?e True True) (map ((!) blocks) (filter (follows blocks) [0..<length blocks])))"
    by (simp add: cover comp_def)
  also have "map ((!) blocks) (filter (follows blocks) [0..<length blocks]) = filter (\<lambda>b. \<not> is_break b) (map ((!) blocks) [0..<length blocks])"
    by (simp add: f filter_map comp_def)
  finally show ?thesis using d n by (simp add: map_nth nth_enumerate_eq)
qed

theorem export_draws_document_witness:
  "\<forall>e. \<exists>blocks pages drawn outline. pdf_pages demo_env demo_note = Some (Some (blocks, pages)) \<and>
    export_pdf demo_env e True ''2024-01-01'' ''12:00'' \<lparr>me_title = ''t'', me_author = '''', me_header_left = '''', me_header_center = '''', me_header_right = '''',
       me_footer_left = '''', me_footer_center = ''{page}'', me_footer_right = ''''\<rparr> demo_note = Some (Some (drawn, outline)) \<and> length drawn = length pages \<and> blocks \<noteq> []"
proof
  fix e :: draw_env
  obtain st b where st: "layout_document (pdf_env demo_env) demo_note = Some st" "b \<in> set (ls_blocks st)" "bl_kind b = KTocRow"
    using demo_layout [of "pdf_env demo_env"] by (auto simp: pdf_env_def)
  obtain blocks pages where p: "pdf_pages demo_env demo_note = Some (Some (blocks, pages))"
    "list_all2 same_geometry (ls_blocks st) blocks"
    using pdf_pages_returns [OF st(1)] st(2) by fastforce
  obtain b' where b': "b' \<in> set blocks" "bl_kind b' = KTocRow"
    using p(2) st(2,3) by (metis in_set_conv_nth list_all2_conv_all_nth same_geometry_def)
  then have "\<exists>b \<in> set blocks. \<not> is_break b" by (intro bexI [of _ b']) (simp_all add: is_break_def)
  moreover obtain drawn outline where x: "export_pdf demo_env e True ''2024-01-01'' ''12:00'' \<lparr>me_title = ''t'', me_author = '''', me_header_left = '''', me_header_center = '''', me_header_right = '''',
       me_footer_left = '''', me_footer_center = ''{page}'', me_footer_right = ''''\<rparr> demo_note = Some (Some (drawn, outline))"
    by (simp add: export_pdf_def p(1))
  ultimately have "length drawn = length pages" using export_draws_document [OF x p(1)] by blast
  then show "\<exists>blocks pages drawn outline. pdf_pages demo_env demo_note = Some (Some (blocks, pages)) \<and>
      export_pdf demo_env e True ''2024-01-01'' ''12:00'' \<lparr>me_title = ''t'', me_author = '''', me_header_left = '''', me_header_center = '''', me_header_right = '''',
       me_footer_left = '''', me_footer_center = ''{page}'', me_footer_right = ''''\<rparr> demo_note = Some (Some (drawn, outline)) \<and>
      length drawn = length pages \<and> blocks \<noteq> []"
    using p(1) x b'(1) by (metis length_pos_if_in_set less_numeral_extra(3) list.size(3))
qed

text \<open>The right text of a header or footer does not end at the margin but is centred on it: when it is more than 8 points
  wide, it begins left of the margin and half of it stands beyond.\<close>

theorem right_band_overhangs:
  assumes "t \<noteq> ''''" "from_pango (px_width (band_extents e t)) = Fin q" "8 < q" "q \<le> 2 ^ 22" "0 \<le> x" "x \<le> 2 ^ 48"
  shows "\<exists>tx l rest. draw_side e y t (Fin x) True = Op_Save # Op_Move (Fin tx) l # rest \<and> tx < x \<and> x < tx + q"
proof -
  have b: "\<bar>q / 2\<bar> \<le> 2 ^ 50" using assms by simp
  obtain h where h: "round64 (q / 2) = Fin h" "\<bar>h - q / 2\<bar> \<le> 1" using round64_near [OF b] by blast
  have b': "\<bar>x - h\<bar> \<le> 2 ^ 50" using assms h(2) by simp
  obtain tx where tx: "round64 (x + - h) = Fin tx" "\<bar>tx - (x - h)\<bar> \<le> 1" using round64_near [OF b'] by auto
  have "draw_side e y t (Fin x) True = Op_Save # Op_Move (Fin tx) (dbl_sub y (from_pango (px_baseline (band_extents e t)))) #
      [Op_Text (apply_styled_runs (dw_undef e) [band_run (dw_sheet e) t] (Fin (- 1)) (dw_sheet e)) False, Op_Restore]"
    using assms(1,2) h(1) tx(1) by (simp add: draw_side_def saved_def dbl_sub_def div_by_def Let_def)
  moreover have "tx < x" "x < tx + q" using h(2) tx(2) assms(3) by linarith+
  ultimately show ?thesis by blast
qed

theorem right_band_overhangs_witness:
  "\<forall>e. \<exists>tx l rest. draw_side (e\<lparr>dw_pango := \<lambda>_. \<lparr>px_width = 40960, px_height = 10240, px_baseline = 8192, px_lines = 1\<rparr>\<rparr>) (Fin 30) ''Draft'' (Fin 500) True =
     Op_Save # Op_Move (Fin tx) l # rest \<and> tx < 500 \<and> 500 < tx + 40"
proof
  fix e :: draw_env
  let ?e = "e\<lparr>dw_pango := \<lambda>_. \<lparr>px_width = 40960, px_height = 10240, px_baseline = 8192, px_lines = 1\<rparr>\<rparr>"
  have "from_pango (px_width (band_extents ?e ''Draft'')) = Fin 40"
    using round64_of_int [of 40] by (simp add: band_extents_def from_pango_def pango_scale_def div_by_def)
  from right_band_overhangs [OF _ this, of 500 "Fin 30"]
  show "\<exists>tx l rest. draw_side ?e (Fin 30) ''Draft'' (Fin 500) True = Op_Save # Op_Move (Fin tx) l # rest \<and> tx < 500 \<and> 500 < tx + 40"
    by simp
qed

end
