(* ===== verification/Note_Export.thy ===== *)
theory Note_Export
  imports Pdf_Draw Note_Tab
begin

text \<open>
  Exporting a note (\<^verbatim>\<open>export_html\<close> and \<^verbatim>\<open>export_pdf\<close> of \<^verbatim>\<open>gui/window/note_tab_view.cpp\<close>): from the editor's text and
  the settings to the file.  The chooser is its answer, whether the file can be opened an argument, and the
  parser, the files and Pango are parameters.
\<close>

section \<open>The handlers\<close>

text \<open>The name that the chooser proposes.\<close>

definition export_name :: "note_view \<Rightarrow> string \<Rightarrow> string" where
  "export_name v suffix = (if nv_title v = ''note'' then ''note'' else nv_title v) @ suffix"

text \<open>\<open>None\<close>: the parser's callbacks are not those of a document.\<close>

definition note_export_html :: "path_env \<Rightarrow> (string \<Rightarrow> md_event list) \<Rightarrow> (string \<Rightarrow> string) \<Rightarrow> html_options \<Rightarrow> string \<Rightarrow> string \<Rightarrow>
    's store \<Rightarrow> markdown_document \<Rightarrow> note_view \<Rightarrow> string option \<Rightarrow> bool \<Rightarrow> (string \<rightharpoonup> string) \<Rightarrow> (string \<rightharpoonup> string) option" where
  "note_export_html e md4c b64 opts builtin data_dir st doc v answer opens files =
     (case answer of
        None \<Rightarrow> Some files
      | Some target \<Rightarrow>
          if target = '''' then Some files
          else let doc = set_source md4c (nv_text v) doc
               in case md_ast doc of
                    None \<Rightarrow> None
                  | Some ast \<Rightarrow>
                      Some (if opens then files(target \<mapsto> export_html_text e files b64 opts builtin data_dir st doc ast v) else files))"

text \<open>What the exporter of the PDF is given: the layout's surroundings with the style and the resolver of the note.\<close>

definition note_layout_env :: "path_env \<Rightarrow> (string \<Rightarrow> string option) \<Rightarrow> string \<Rightarrow> 's store \<Rightarrow> markdown_document \<Rightarrow> note_view \<Rightarrow> layout_env \<Rightarrow> layout_env" where
  "note_layout_env e read data_dir st doc v lay =
     (let note_root = note_root_dir data_dir st v;
          doc = doc\<lparr>md_note_dir := note_root, md_asset_dir := path_div note_root ''assets''\<rparr>
      in lay\<lparr>le_sheet := note_pdf_style (le_dp lay) read st, le_resolve_image := Some (resolve_asset_file e doc)\<rparr>)"

definition note_export_pdf :: "path_env \<Rightarrow> (string \<Rightarrow> md_event list) \<Rightarrow> (string \<Rightarrow> string option) \<Rightarrow> string \<Rightarrow> 's store \<Rightarrow> markdown_document \<Rightarrow>
    note_view \<Rightarrow> layout_env \<Rightarrow> draw_env \<Rightarrow> string \<Rightarrow> string \<Rightarrow> bool \<Rightarrow> string option \<Rightarrow>
    (string \<times> draw_op list list \<times> outline_entry list) option option" where
  "note_export_pdf e md4c read data_dir st doc v lay dr date time opens answer =
     (case answer of
        None \<Rightarrow> Some None
      | Some target \<Rightarrow>
          if target = '''' then Some None
          else (case parse_events (md4c (nv_text v)) of
                  None \<Rightarrow> None
                | Some ast \<Rightarrow>
                    map_option (map_option (Pair target))
                      (export_pdf (note_layout_env e read data_dir st doc v lay) dr opens date time (note_pdf_meta v) ast)))"

section \<open>The footer\<close>

lemma replace_none:
  assumes "c \<notin> set p"
  shows "replace_all (c # tok) val (p @ s) = p @ replace_all (c # tok) val s"
  using assms
proof (induction p)
  case (Cons x p)
  then have "\<not> starts_with (c # tok) (x # p @ s)" by (auto simp add: starts_with_def)
  then show ?case using Cons by (subst replace_all.simps) simp
qed simp

lemma replace_plain: "c \<notin> set s \<Longrightarrow> replace_all (c # tok) val s = s"
  using replace_none [of c s tok val "[]"] by (simp add: replace_all.simps [of _ _ "[]"])

lemma replace_token: "replace_all (c # tok) val (c # tok @ s) = val @ replace_all (c # tok) val s"
  by (subst replace_all.simps) (simp add: starts_with_def)

lemma replace_other: "\<not> starts_with tok s \<Longrightarrow> c \<notin> set s \<Longrightarrow> replace_all (c # tok) val (c # s) = c # s"
  by (subst replace_all.simps) (simp add: starts_with_def replace_plain)

lemma number_plain: "CHR ''{'' \<notin> set (dec_of_int (int n))"
  using dec_of_nat_digits [of n] by (auto simp: dec_of_int_def is_digit_def)

text \<open>The footer of the exported note's page shows the title on the left and, on the right, the page's number and the
  number of pages; there is no header.  Titles with an opening brace are left out: they may hold a token.\<close>

theorem footer_numbers_pages:
  assumes "CHR ''{'' \<notin> set (nv_title v)"
  shows "page_bands date time (note_pdf_meta v) k n =
    ['''', '''', '''', nv_title v, '''', dec_of_int (int k + 1) @ '' / '' @ dec_of_int (int n)]"
proof -
  let ?p = "dec_of_int (int k + 1)" and ?n = "dec_of_int (int n)" and ?c = "CHR ''{''"
  have d: "?c \<notin> set ?p" "?c \<notin> set ?n"
    using number_plain [of "k + 1"] number_plain [of n] by (simp_all add: add.commute)
  have e: "replace_all tok val '''' = ''''" for tok val by (simp add: replace_all.simps [of _ _ "[]"])
  have other: "replace_all ''{page}'' ?p ''{pages}'' = ''{pages}''"
    by (rule replace_other) (simp_all add: starts_with_def)
  have page: "replace_all ''{page}'' ?p ''{page} / {pages}'' = ?p @ '' / {pages}''"
    using replace_token [of ?c "''page}''" ?p "'' / {pages}''"] replace_none [of ?c "'' / ''" "''page}''" ?p "''{pages}''"] other by simp
  have pages: "replace_all ''{pages}'' ?n (?p @ '' / {pages}'') = ?p @ '' / '' @ ?n"
    using replace_none [of ?c "?p @ '' / ''" "''pages}''" ?n "''{pages}''"] replace_token [of ?c "''pages}''" ?n "[]"] d(1) e by simp
  have rest: "replace_all (?c # tok) val (?p @ '' / '' @ ?n) = ?p @ '' / '' @ ?n" for tok val
    by (rule replace_plain) (use d in simp)
  have none: "replace_all (?c # tok) val (nv_title v) = nv_title v" for tok val by (rule replace_plain [OF assms])
  have title: "replace_all ''{title}'' (nv_title v) ''{title}'' = nv_title v"
    using replace_token [of ?c "''title}''" "nv_title v" "[]"] e by simp
  have kept: "replace_all ''{page}'' x ''{title}'' = ''{title}''" "replace_all ''{pages}'' x ''{title}'' = ''{title}''"
    "replace_all ''{date}'' x ''{title}'' = ''{title}''" "replace_all ''{time}'' x ''{title}'' = ''{title}''" for x
    by (rule replace_other; simp add: starts_with_def)+
  have left: "expand_tokens date time ''{title}'' (int k + 1) (int n) (note_pdf_meta v) = nv_title v"
    by (simp add: expand_tokens_def note_pdf_meta_def title kept none)
  have right: "expand_tokens date time ''{page} / {pages}'' (int k + 1) (int n) (note_pdf_meta v) = ?p @ '' / '' @ ?n"
    unfolding expand_tokens_def fold.simps prod.case o_apply id_apply page pages by (simp add: rest [simplified])
  have empty: "expand_tokens date time '''' (int k + 1) (int n) (note_pdf_meta v) = ''''"
    by (simp add: expand_tokens_def e)
  show ?thesis using left right empty by (simp add: page_bands_def note_pdf_meta_def)
qed

theorem footer_numbers_pages_witness:
  "page_bands ''2024-01-01'' ''12:00'' (note_pdf_meta (demo_note\<lparr>nv_title := ''plan''\<rparr>)) 1 12 = ['''', '''', '''', ''plan'', '''', ''2 / 12'']"
proof -
  have "dec_of_int (int 1 + 1) = ''2''" "dec_of_int (int 12) = ''12''" by code_simp+
  with footer_numbers_pages [of "demo_note\<lparr>nv_title := ''plan''\<rparr>" "''2024-01-01''" "''12:00''" 1 12] show ?thesis by simp
qed

section \<open>The exported page in the dark theme\<close>

definition unpainted :: "draw_op list \<Rightarrow> bool" where
  "unpainted ops \<longleftrightarrow> Op_Paint \<notin> set ops"

named_theorems bare \<open>drawings that paint nothing as a whole\<close>

lemma unpainted_lists [bare]: "unpainted []" "unpainted (a @ b) \<longleftrightarrow> unpainted a \<and> unpainted b" "unpainted (d # a) \<longleftrightarrow> d \<noteq> Op_Paint \<and> unpainted a"
  "unpainted (saved a) \<longleftrightarrow> unpainted a" "unpainted (set_color c)" "unpainted (line x1 y1 x2 y2)" "unpainted (rounded_rect x y w h r)"
  "unpainted (concat (map f xs)) \<longleftrightarrow> (\<forall>x \<in> set xs. unpainted (f x))"
  by (auto simp: unpainted_def saved_def set_color_def line_def rounded_rect_def Let_def)

lemma unpainted_if [bare]: "unpainted (if b then x else y) \<longleftrightarrow> (b \<longrightarrow> unpainted x) \<and> (\<not> b \<longrightarrow> unpainted y)"
  by simp

lemma unpainted_text [bare]: "unpainted (show_text e j runs w x y)" "unpainted (open_link_tags links b)" "unpainted (close_link_tags links b)"
  "unpainted (draw_side e y t x c)"
  by (simp_all add: show_text_def open_link_tags_def close_link_tags_def draw_side_def bare Let_def)

lemma unpainted_cells [bare]: "unpainted (draw_cells e b pad x y h cs ws)"
  by (induction e b pad x y h cs ws rule: draw_cells.induct) (simp_all add: draw_cell_def bare Let_def)

lemma unpainted_rows [bare]: "unpainted (draw_rows e b pad y rs)"
  by (induction rs arbitrary: y) (simp_all add: bare)

lemma unpainted_table [bare]: "unpainted (draw_table e b)"
  by (simp add: draw_table_def draw_grid_def bare Let_def split: list.split)

lemma unpainted_box [bare]: "unpainted (draw_box b)"
  by (simp add: draw_box_def bare Let_def)

lemma unpainted_text_block [bare]: "unpainted (draw_text_block e j links b)"
  by (simp add: draw_text_block_def draw_badge_def draw_toc_row_def bare Let_def)

lemma unpainted_block: "bl_kind b \<noteq> KImage \<Longrightarrow> unpainted (draw_block e j links b)"
  by (cases "bl_kind b") (simp_all add: draw_block_def bare Let_def)

text \<open>The export takes the colours of the theme but paints no background: in the dark theme, without a style sheet of the
  user's, the text of a document without images is the dark theme's light grey on the white of the paper.\<close>

theorem dark_export_on_white:
  assumes "theme_dark st" "markdown_css_path st = ''''"
    "note_export_pdf e md4c read data_dir st doc v lay dr date time opens answer = Some (Some (target, drawn, outline))"
    "parse_events (md4c (nv_text v)) = Some ast" "pdf_pages (note_layout_env e read data_dir st doc v lay) ast = Some (Some (blocks, pages))"
    "\<forall>b \<in> set blocks. bl_kind b \<noteq> KImage"
  shows "st_text_color (le_sheet (note_layout_env e read data_dir st doc v lay)) = rgb100 91 92 94 \<and> (\<forall>ops \<in> set drawn. Op_Paint \<notin> set ops)"
proof -
  let ?env = "note_layout_env e read data_dir st doc v lay"
  have "export_pdf ?env dr opens date time (note_pdf_meta v) ast = Some (Some (drawn, outline))"
    using assms(3,4) by (auto simp: note_export_pdf_def split: option.splits if_splits)
  then have d: "drawn = map (\<lambda>(k, s). export_page (dr\<lparr>dw_sheet := le_sheet ?env\<rparr>) date time (note_pdf_meta v) blocks (length pages) k s) (enumerate 0 pages)"
    using assms(5) by (auto simp: export_pdf_def split: if_splits)
  have "unpainted (page_content x blocks s)" for x s
    using assms(6) by (auto simp: page_content_def draw_blocks_range_def bare intro!: unpainted_block dest: in_set_takeD in_set_dropD)
  then have "unpainted (export_page x date time meta blocks n k s)" for x meta n k s
    by (simp add: export_page_def draw_band_def bare Let_def)
  then have "\<forall>ops \<in> set drawn. Op_Paint \<notin> set ops" by (auto simp: d unpainted_def)
  then show ?thesis using assms(1,2) by (simp add: note_layout_env_def note_pdf_style_def default_style_def dark_palette_def Let_def)
qed

text \<open>No file exists; a document without a source.\<close>

definition demo_paths :: path_env where
  "demo_paths = \<lparr>pe_exists = (\<lambda>_. False), pe_canonical = id, pe_cwd = None\<rparr>"

definition demo_doc :: markdown_document where
  "demo_doc = \<lparr>md_source = [], md_ast = None, md_note_dir = [], md_asset_dir = [], md_css_path = [], md_print_config = default_print_config\<rparr>"

text \<open>A note that is one thematic break\<close>

definition demo_break :: node where
  "demo_break = Node (node_default\<lparr>n_type := NRoot\<rparr>) [Node (node_default\<lparr>n_type := NThematicBreak\<rparr>) []]"

definition demo_events :: "md_event list" where
  "demo_events = events_of (DBlock MD_DOC [DBlock MD_HR []])"

lemma demo_break_parsed: "parse_events demo_events = Some demo_break"
  by (simp add: demo_events_def parse_events_def on_event_def on_enter_block_def on_leave_block_def on_text_def empty_builder_def demo_break_def
      b_verbatim_def b_top_def b_close_def b_open_def b_leaf_def b_add_def b_parent_def block_data_def Let_def
      verbatim_type_def text_leaf_def node_default_def mark_toc_nodes_def is_toc_child_def)

lemma demo_break_pages: "\<exists>b pages. pdf_pages env demo_break = Some (Some ([b], pages)) \<and> bl_kind b = KHr"
  by (simp add: pdf_pages_def demo_break_def layout_document_def emit_hr_block_def place_def layout_start_def new_block_def Let_def node_default_def)

theorem dark_export_on_white_witness:
  "\<forall>lay dr. \<exists>drawn outline. note_export_pdf demo_paths (\<lambda>_. demo_events) (\<lambda>_. None) ''/d''
       (set_theme_dark 1 True demo_store) demo_doc demo_note lay dr ''2024-01-01'' ''12:00'' True (Some ''/a.pdf'') =
     Some (Some (''/a.pdf'', drawn, outline)) \<and> drawn \<noteq> [] \<and> (\<forall>ops \<in> set drawn. Op_Paint \<notin> set ops)"
proof (intro allI)
  fix lay dr
  let ?st = "set_theme_dark 1 True demo_store" and ?md = "\<lambda>_ :: string. demo_events"
  let ?env = "note_layout_env demo_paths (\<lambda>_. None) ''/d'' ?st demo_doc demo_note lay"
  have dark: "theme_dark ?st"
    using sqlite_text.load_save_text [OF demo_healthy, of "flag_text True" 1 "''settings:theme-dark''"]
    by (simp add: theme_dark_def set_theme_dark_def flag_text_def)
  have "load_text ?st ''settings:markdown-css'' = load_text demo_store ''settings:markdown-css''"
    using sqlite_text.load_save_other [OF demo_healthy, of "''settings:theme-dark''" "''settings:markdown-css''" 1 "flag_text True"]
    by (simp add: set_theme_dark_def)
  moreover have "markdown_css_path demo_store = ''''"
    by (simp add: markdown_css_path_def demo_store_def load_text_def sqlite_storage_def sqlite_load_scrollback_def plain_db_def
        initialize_db_def empty_tables_def)
  ultimately have css: "markdown_css_path ?st = ''''" by (simp add: markdown_css_path_def)
  obtain b pages where p: "pdf_pages ?env demo_break = Some (Some ([b], pages))" "bl_kind b = KHr" using demo_break_pages by blast
  then obtain drawn outline where x: "note_export_pdf demo_paths ?md (\<lambda>_. None) ''/d'' ?st demo_doc demo_note lay dr ''2024-01-01'' ''12:00''
      True (Some ''/a.pdf'') = Some (Some (''/a.pdf'', drawn, outline))" and d: "length drawn = length pages"
    by (auto simp: note_export_pdf_def demo_break_parsed export_pdf_def)
  have "pages \<noteq> []" using p(1) by (auto simp: pdf_pages_def paginate_blocks_def Let_def split: option.splits if_splits)
  then have "drawn \<noteq> []" using d by auto
  moreover have "\<forall>ops \<in> set drawn. Op_Paint \<notin> set ops"
    using dark_export_on_white [OF dark css x demo_break_parsed p(1)] p(2) by simp
  ultimately show "\<exists>drawn outline. note_export_pdf demo_paths ?md (\<lambda>_. None) ''/d'' ?st demo_doc demo_note lay dr ''2024-01-01'' ''12:00''
      True (Some ''/a.pdf'') = Some (Some (''/a.pdf'', drawn, outline)) \<and> drawn \<noteq> [] \<and> (\<forall>ops \<in> set drawn. Op_Paint \<notin> set ops)"
    using x by blast
qed

end
