(* ===== verification/Core_Reload.thy ===== *)
theory Core_Reload
  imports Core_Invariants
begin

text \<open>
  What loading makes of a well-formed workspace.  Opening a workspace and restoring a snapshot take what
  \<^verbatim>\<open>core/serialization.cpp\<close> reads, unchecked.  The empty tree of a note tab is written like a pane and read
  back as a leaf with a pane whose identifier is empty, so that two such tabs share a pane identifier.
\<close>

lemma collect_norm_tree_full: "full t \<Longrightarrow> collect_panes (norm_tree t) = map norm_pane (collect_panes t)"
  by (induction t rule: norm_tree.induct) (auto simp: leaf_def)

lemma full_norm_tree: "full (norm_tree t)"
  by (induction t rule: norm_tree.induct) (simp_all add: leaf_def)

definition no_panes :: "tab \<Rightarrow> bool" where
  "no_panes t \<longleftrightarrow> t_pane_tree t = Leaf None"

lemma tab_panes_read:
  "wf_tab t \<Longrightarrow> tab_panes (norm_tab t) = (if no_panes t then [empty_pane] else map norm_pane (tab_panes t))"
  by (auto simp: tab_panes_def norm_tab_def no_panes_def leaf_def wf_tab_def wf_tree_def collect_norm_tree_full)

lemma wf_norm_tab: "wf_tab t \<Longrightarrow> wf_tab (norm_tab t)"
  using tab_panes_read [of t]
  by (auto simp: wf_tab_def wf_tree_def full_norm_tree wf_pane_def norm_pane_def norm_pane_state_def empty_pane_def
      empty_pane_state_def norm_tab_def)

lemma all_tabs_norm: "all_tabs (norm_workspace ws) = map norm_tab (all_tabs ws)"
  by (simp add: all_tabs_def norm_workspace_def norm_window_def map_concat comp_def)

lemma tab_ids_norm: "map t_id (all_tabs (norm_workspace ws)) = map t_id (all_tabs ws)"
  by (simp add: all_tabs_norm norm_tab_def)

lemma window_ids_norm: "map w_id (ws_windows (norm_workspace ws)) = map w_id (ws_windows ws)"
  by (simp add: norm_workspace_def norm_window_def)

definition read_ids :: "tab \<Rightarrow> pane_id list" where
  "read_ids t = (if no_panes t then [empty_id] else map p_id (tab_panes t))"

lemma pane_ids_read:
  assumes "\<forall>t \<in> set (all_tabs ws). wf_tab t"
  shows "map p_id (all_panes (norm_workspace ws)) = concat (map read_ids (all_tabs ws))"
proof -
  have "map p_id (tab_panes (norm_tab t)) = read_ids t" if "t \<in> set (all_tabs ws)" for t
    using assms that by (simp add: tab_panes_read read_ids_def norm_pane_def empty_pane_def comp_def)
  then have "concat (map (\<lambda>t. map p_id (tab_panes (norm_tab t))) (all_tabs ws)) = concat (map read_ids (all_tabs ws))"
    by (intro arg_cong [where f = concat] map_cong) simp_all
  then show ?thesis unfolding all_panes_tabs all_tabs_norm map_concat map_map comp_def .
qed

text \<open>Tabs without panes collide in the empty identifier, and nothing else does.\<close>

lemma distinct_with_default:
  assumes "distinct (concat (map f ts))" "e \<notin> set (concat (map f ts))" "\<And>t. P t \<Longrightarrow> f t = []"
  shows "distinct (concat (map (\<lambda>t. if P t then [e] else f t) ts)) \<longleftrightarrow> length (filter P ts) \<le> 1"
proof -
  let ?g = "\<lambda>t. if P t then [e] else f t"
  have *: "set (concat (map ?g us)) = set (concat (map f us)) \<union> (if filter P us = [] then {} else {e})" for us
  proof (induction us)
    case (Cons u us)
    then show ?case using assms(3) [of u] by (cases "P u") auto
  qed simp
  from assms(1,2) show ?thesis
  proof (induction ts)
    case (Cons t ts)
    then have ih: "distinct (concat (map ?g ts)) \<longleftrightarrow> length (filter P ts) \<le> 1" by simp
    have d: "distinct (f t)" "set (f t) \<inter> set (concat (map f ts)) = {}" "e \<notin> set (f t)" "e \<notin> set (concat (map f ts))"
      using Cons.prems by simp_all
    have "distinct (concat (map ?g (t # ts))) \<longleftrightarrow> distinct (?g t) \<and> distinct (concat (map ?g ts)) \<and>
        set (?g t) \<inter> set (concat (map ?g ts)) = {}" by simp
    then show ?case
      unfolding ih * using d assms(3) [of t] by (cases "filter P ts") (auto simp del: set_concat)
  qed simp
qed

lemma wf_norm_iff:
  assumes wf: "wf_workspace ws" and ne: "\<forall>p \<in> set (all_panes ws). p_id p \<noteq> empty_id"
  shows "wf_workspace (norm_workspace ws) \<longleftrightarrow> length (filter no_panes (all_tabs ws)) \<le> 1"
proof -
  have t: "\<forall>t \<in> set (all_tabs ws). wf_tab t" using wf by (simp add: wf_workspace_def)
  have p: "map p_id (all_panes ws) = concat (map (\<lambda>t. map p_id (tab_panes t)) (all_tabs ws))"
    by (simp only: all_panes_tabs map_concat map_map comp_def)
  have d: "distinct (concat (map (\<lambda>t. map p_id (tab_panes t)) (all_tabs ws)))"
    using wf unfolding wf_workspace_def p by blast
  have "empty_id \<notin> set (map p_id (all_panes ws))" using ne by auto
  then have e: "empty_id \<notin> set (concat (map (\<lambda>t. map p_id (tab_panes t)) (all_tabs ws)))" unfolding p .
  have f: "ws_focus_window_id (norm_workspace ws) = ws_focus_window_id ws" by (simp add: norm_workspace_def)
  have i: "w_id ` set (ws_windows (norm_workspace ws)) = w_id ` set (ws_windows ws)"
    using window_ids_norm [of ws] by (metis list.set_map)
  have "wf_workspace (norm_workspace ws) \<longleftrightarrow> distinct (concat (map read_ids (all_tabs ws)))"
    using wf t unfolding wf_workspace_def window_ids_norm tab_ids_norm pane_ids_read [OF t] f i
    by (auto simp: all_tabs_norm wf_norm_tab)
  moreover have "no_panes t \<Longrightarrow> map p_id (tab_panes t) = []" for t by (simp add: no_panes_def tab_panes_def)
  ultimately show ?thesis using distinct_with_default [OF d e, of no_panes] by (simp add: read_ids_def [abs_def])
qed

text \<open>C31: A well-formed workspace whose panes have identifiers and whose times are not before 1970 is read back well-formed
  from what is written of it exactly when at most one of its tabs has no panes, as note tabs have none.\<close>

theorem reload_well_formed:
  assumes "wf_workspace ws" "\<forall>p \<in> set (all_panes ws). p_id p \<noteq> empty_id"
    and "0 \<le> sint (ws_created_at ws)" "0 \<le> sint (ws_last_saved_at ws)"
  shows "\<exists>r. workspace_from_json (workspace_to_json ws) = Some r \<and>
    (wf_workspace r \<longleftrightarrow> length (filter no_panes (all_tabs ws)) \<le> 1)"
  using workspace_roundtrip_norm [OF assms(3,4)] wf_norm_iff [OF assms(1,2)] by blast

definition two_notes :: workspace where
  "two_notes = empty_workspace\<lparr>ws_windows := [empty_window\<lparr>w_id := Id ''v'', w_tabs :=
     map (\<lambda>i. empty_tab\<lparr>t_id := Id i, t_kind := Note, t_note_state := Some empty_note_tab_state\<rparr>) [''s'', ''t'']\<rparr>]\<rparr>"

lemma reload_well_formed_witness:
  "wf_workspace two_notes \<and>
   (\<exists>r. workspace_from_json (workspace_to_json two_notes) = Some r \<and> \<not> wf_workspace r)"
proof -
  have a: "wf_workspace two_notes" "\<forall>p \<in> set (all_panes two_notes). p_id p \<noteq> empty_id"
    "0 \<le> sint (ws_created_at two_notes)" "0 \<le> sint (ws_last_saved_at two_notes)"
    "\<not> length (filter no_panes (all_tabs two_notes)) \<le> 1"
    by (simp_all add: two_notes_def wf_workspace_def all_tabs_def all_panes_def window_panes_def tab_panes_def empty_workspace_def
        empty_window_def empty_tab_def empty_tree_def wf_tab_def wf_tree_def no_panes_def)
  from reload_well_formed [OF a(1-4)] a(1,5) show ?thesis by blast
qed

end
