(* ===== verification/Note_Preview.thy ===== *)
theory Note_Preview
  imports Note_Editor Markdown_Preview
begin

text \<open>
  The editor and the open preview beside it: \<^verbatim>\<open>connect_editor\<close>, \<^verbatim>\<open>toggle_preview\<close> and
  \<^verbatim>\<open>refresh_preview_settings\<close> of \<^verbatim>\<open>gui/window/note_tab_view.cpp\<close> with the editor's timer of 200 ms and
  the idle callback that renders a preview for the first time.  The main loop is the sequence of events.
\<close>

section \<open>Events\<close>

record split_view =
  sp_editor :: editor
  sp_preview :: preview
  sp_idle :: bool

text \<open>
  The user types, deletes or moves the cursor, the text is replaced by a program (a reload, a restored state), the
  timer or the idle callback fires, the settings are refreshed, the canvas is drawn at a width, the pointer moves.
\<close>

datatype split_event = Sv_Type codes | Sv_Delete nat nat | Sv_Cursor nat | Sv_Set_Text codes | Sv_Timer | Sv_Idle
  | Sv_Refresh string bool | Sv_Draw int | Sv_Motion dbl dbl adjustment

definition editor_text :: "split_view \<Rightarrow> string" where
  "editor_text s = utf8_text (ed_text (sp_editor s))"

text \<open>What the tab's callback does with the editor's calls: only \<^const>\<open>On_Preview\<close> concerns the preview.\<close>

primrec preview_hears :: "editor_call \<Rightarrow> preview \<Rightarrow> preview" where
  "preview_hears (On_Preview t) = render (utf8_text t)"
| "preview_hears On_Change = id"
| "preview_hears Scroll_To_Cursor = id"

definition edit_step :: "(editor \<Rightarrow> editor) \<Rightarrow> split_view \<Rightarrow> split_view" where
  "edit_step f s =
     (let ed = sp_editor s; ed' = f ed
      in s\<lparr>sp_editor := ed', sp_preview := fold preview_hears (drop (length (ed_calls ed)) (ed_calls ed')) (sp_preview s)\<rparr>)"

definition on_idle :: "split_view \<Rightarrow> split_view" where
  "on_idle s = (if sp_idle s then s\<lparr>sp_preview := render (editor_text s) (sp_preview s), sp_idle := False\<rparr> else s)"

definition on_timer :: "split_view \<Rightarrow> split_view" where
  "on_timer s = (if ed_preview_timer (sp_editor s) then edit_step on_preview_tick s else s)"

definition on_refresh :: "string \<Rightarrow> bool \<Rightarrow> split_view \<Rightarrow> split_view" where
  "on_refresh css dark s =
     s\<lparr>sp_preview := fold preview_call [Pv_Style_Path css, Pv_Dark dark, Pv_Render (editor_text s)] (sp_preview s)\<rparr>"

fun split_step :: "preview_env \<Rightarrow> split_event \<Rightarrow> split_view \<Rightarrow> split_view option" where
  "split_step e (Sv_Type us) s = Some (edit_step (ed_type us) s)"
| "split_step e (Sv_Delete a b) s = Some (edit_step (ed_delete a b) s)"
| "split_step e (Sv_Cursor i) s = Some (edit_step (place_cursor i) s)"
| "split_step e (Sv_Set_Text t) s = Some (edit_step (ed_set_text t) s)"
| "split_step e Sv_Timer s = Some (on_timer s)"
| "split_step e Sv_Idle s = Some (on_idle s)"
| "split_step e (Sv_Refresh css dark) s = Some (on_refresh css dark s)"
| "split_step e (Sv_Draw w) s = map_option (\<lambda>(p, ops). s\<lparr>sp_preview := p\<rparr>) (on_canvas_draw e w (sp_preview s))"
| "split_step e (Sv_Motion x y adj) s = Some (s\<lparr>sp_preview := on_motion x y adj (sp_preview s)\<rparr>)"

fun split_run :: "preview_env \<Rightarrow> split_event list \<Rightarrow> split_view \<Rightarrow> split_view option" where
  "split_run e [] s = Some s"
| "split_run e (ev # evs) s = (case split_step e ev s of None \<Rightarrow> None | Some s \<Rightarrow> split_run e evs s)"

text \<open>A preview is opened: it is told the directory at once and gets the text when the main loop is idle.\<close>

definition opened_split :: "string \<Rightarrow> 's store \<Rightarrow> note_view \<Rightarrow> editor \<Rightarrow> split_view" where
  "opened_split data_dir st v ed =
     (let (calls, v') = toggle_preview data_dir st v
      in \<lparr>sp_editor = ed, sp_preview = fold preview_call calls new_preview, sp_idle = nv_preview v'\<rparr>)"

section \<open>What edits do to the waiting render\<close>

definition waiting :: "editor \<Rightarrow> bool" where
  "waiting ed \<longleftrightarrow> ed_preview_pending ed \<and> ed_preview_timer ed"

definition quiet_call :: "editor_call \<Rightarrow> bool" where
  "quiet_call c \<longleftrightarrow> (case c of On_Preview t \<Rightarrow> False | _ \<Rightarrow> True)"

text \<open>From one state of the editor to another: the preview is not called, and a changed text has it waiting.\<close>

definition edits :: "editor \<Rightarrow> editor \<Rightarrow> bool" where
  "edits ed ed' \<longleftrightarrow> (\<exists>cs. ed_calls ed' = ed_calls ed @ cs \<and> list_all quiet_call cs) \<and>
     (waiting ed \<or> ed_text ed' \<noteq> ed_text ed \<longrightarrow> waiting ed')"

lemma edits_refl [simp]: "edits ed ed"
  by (simp add: edits_def)

lemma edits_trans: "edits a b \<Longrightarrow> edits b c \<Longrightarrow> edits a c"
  by (auto simp: edits_def)

lemma edits_changed: "ed_calls x = ed_calls ed \<Longrightarrow> edits ed (changed x)"
  by (auto simp: edits_def changed_def auto_close_def on_buffer_changed_def ed_call_def waiting_def put_text_def
      place_cursor_def quiet_call_def Let_def)

lemma edits_insert: "edits ed (ed_insert i us ed)"
  unfolding ed_insert_def by (auto intro: edits_changed simp: put_text_def)

lemma edits_delete: "edits ed (ed_delete a b ed)"
  unfolding ed_delete_def by (auto intro: edits_changed simp: cut_text_def)

lemma edits_type: "edits ed (ed_type us ed)"
  unfolding ed_type_def Let_def
  by (rule edits_trans [OF _ edits_insert]) (auto intro: edits_delete split: option.split)

lemma edits_cursor: "edits ed (place_cursor i ed)"
  by (simp add: edits_def place_cursor_def waiting_def)

lemma quiet_hears: "list_all quiet_call cs \<Longrightarrow> fold preview_hears cs p = p"
  by (induction cs arbitrary: p) (auto simp: quiet_call_def split: editor_call.splits)

lemma edit_step_quiet:
  assumes "edits (sp_editor s) (f (sp_editor s))"
  shows "edit_step f s = s\<lparr>sp_editor := f (sp_editor s)\<rparr>"
  using assms by (auto simp: edits_def edit_step_def Let_def quiet_hears)

lemma user_steps:
  "edit_step (ed_type us) s = s\<lparr>sp_editor := ed_type us (sp_editor s)\<rparr>"
  "edit_step (ed_delete a b) s = s\<lparr>sp_editor := ed_delete a b (sp_editor s)\<rparr>"
  "edit_step (place_cursor i) s = s\<lparr>sp_editor := place_cursor i (sp_editor s)\<rparr>"
  by (rule edit_step_quiet, rule edits_type edits_delete edits_cursor)+

text \<open>Replacing the text leaves nothing waiting.\<close>

lemma set_text_calls:
  "\<exists>cs. ed_calls (ed_set_text t ed) = ed_calls ed @ cs \<and> list_all quiet_call cs" "\<not> ed_preview_pending (ed_set_text t ed)"
proof -
  have "edits ed (ed_insert 0 t (ed_delete 0 (length (ed_text ed)) ed))" by (rule edits_trans [OF edits_delete edits_insert])
  then show "\<exists>cs. ed_calls (ed_set_text t ed) = ed_calls ed @ cs \<and> list_all quiet_call cs" "\<not> ed_preview_pending (ed_set_text t ed)"
    by (simp_all add: ed_set_text_def edits_def)
qed

lemma set_text_step: "edit_step (ed_set_text t) s = s\<lparr>sp_editor := ed_set_text t (sp_editor s)\<rparr>"
  using set_text_calls(1) [of t "sp_editor s"] by (auto simp: edit_step_def Let_def quiet_hears)

lemma timer_step: "on_timer s = (if ed_preview_timer (sp_editor s)
    then s\<lparr>sp_editor := on_preview_tick (sp_editor s),
       sp_preview := if ed_preview_pending (sp_editor s) then render (editor_text s) (sp_preview s) else sp_preview s\<rparr> else s)"
  by (simp add: on_timer_def edit_step_def on_preview_tick_def ed_call_def editor_text_def Let_def)

lemma tick_text [simp]: "ed_text (on_preview_tick ed) = ed_text ed" "\<not> ed_preview_pending (on_preview_tick ed)"
  by (simp_all add: on_preview_tick_def ed_call_def)

section \<open>The preview and the editor\<close>

fun settings_after :: "split_event \<Rightarrow> string \<times> bool \<Rightarrow> string \<times> bool" where
  "settings_after (Sv_Refresh css dark) x = (css, dark)"
| "settings_after ev x = x"

definition is_set_text :: "split_event \<Rightarrow> bool" where
  "is_set_text ev \<longleftrightarrow> (case ev of Sv_Set_Text t \<Rightarrow> True | _ \<Rightarrow> False)"

text \<open>The text last rendered is that of the editor, or a render is still to come.\<close>

definition in_time :: "split_view \<Rightarrow> bool" where
  "in_time s \<longleftrightarrow> pv_source (sp_preview s) = editor_text s \<or> waiting (sp_editor s) \<or> sp_idle s"

text \<open>No render is waiting.\<close>

definition settled :: "split_view \<Rightarrow> bool" where
  "settled s \<longleftrightarrow> \<not> sp_idle s \<and> \<not> ed_preview_pending (sp_editor s)"

definition displays :: "preview_env \<Rightarrow> string \<Rightarrow> string \<times> bool \<Rightarrow> split_view \<Rightarrow> bool" where
  "displays e dir x s \<longleftrightarrow> showing e dir (pv_source (sp_preview s), fst x, snd x) (sp_preview s)"

lemma displays_draws:
  assumes "displays e dir x s"
  shows "map_option snd (on_canvas_draw e w (sp_preview s)) = picture e dir (pv_source (sp_preview s), fst x, snd x) w"
  using assms unfolding displays_def by (rule showing_draws)

lemma displays_render: "showing e dir (s, x) p \<Longrightarrow> showing e dir (pv_source (render t p), x) (render t p)"
  by (cases x) (simp add: showing.simps render_def)

lemma draw_source: "on_canvas_draw e w p = Some (p', ops) \<Longrightarrow> pv_source p' = pv_source p"
  by (auto simp: on_canvas_draw_def relayout_if_needed_def Let_def split: if_splits option.splits)

lemma motion_source: "pv_source (on_motion x y adj p) = pv_source p"
  by (simp add: on_motion_def Let_def)

lemma showing_motion: "showing e dir x p \<Longrightarrow> showing e dir x (on_motion mx my adj p)"
  by (simp add: on_motion_def Let_def showing_cursor)

lemma displays_step:
  assumes "displays e dir x s" "split_step e ev s = Some s'"
  shows "displays e dir (settings_after ev x) s'"
proof (cases ev)
  case (Sv_Type us)
  then show ?thesis using assms by (auto simp: user_steps displays_def)
next
  case (Sv_Delete a b)
  then show ?thesis using assms by (auto simp: user_steps displays_def)
next
  case (Sv_Cursor i)
  then show ?thesis using assms by (auto simp: user_steps displays_def)
next
  case (Sv_Set_Text t)
  then show ?thesis using assms by (auto simp: set_text_step displays_def)
next
  case Sv_Timer
  then show ?thesis using assms displays_render [of e dir _ x "sp_preview s"] by (auto simp: timer_step displays_def)
next
  case Sv_Idle
  then show ?thesis using assms displays_render [of e dir _ x "sp_preview s"] by (auto simp: on_idle_def displays_def)
next
  case (Sv_Refresh css dark)
  then have "s' = on_refresh css dark s" using assms(2) by simp
  then show ?thesis using assms(1)
    by (cases x) (simp add: Sv_Refresh on_refresh_def displays_def showing.simps set_style_path_def set_dark_def render_def theme_palette_def Let_def)
next
  case (Sv_Draw w)
  then obtain p ops where p: "on_canvas_draw e w (sp_preview s) = Some (p, ops)" "s' = s\<lparr>sp_preview := p\<rparr>" using assms(2) by auto
  then have "relayout_if_needed e w (sp_preview s) = Some p" by (auto simp: on_canvas_draw_def)
  from showing_relayout [OF assms(1) [unfolded displays_def] this] p show ?thesis by (simp add: Sv_Draw displays_def draw_source [OF p(1)])
next
  case (Sv_Motion mx my adj)
  then show ?thesis using assms showing_motion [of e dir "(pv_source (sp_preview s), x)"] by (auto simp: displays_def motion_source)
qed

lemma edits_in_time: "edits (sp_editor s) ed \<Longrightarrow> in_time s \<Longrightarrow> in_time (s\<lparr>sp_editor := ed\<rparr>)"
  by (auto simp: edits_def in_time_def editor_text_def)

lemma render_source [simp]: "pv_source (render t p) = t"
  by (simp add: render_def)

lemma timer_in_time: "in_time s \<Longrightarrow> in_time (on_timer s)"
  by (cases "ed_preview_timer (sp_editor s)"; cases "ed_preview_pending (sp_editor s)")
    (auto simp: timer_step in_time_def editor_text_def waiting_def)

lemma round_source: "in_time s \<Longrightarrow> pv_source (sp_preview (on_timer (on_idle s))) = editor_text s \<and>
    editor_text (on_timer (on_idle s)) = editor_text s"
  by (cases "sp_idle s"; cases "ed_preview_timer (sp_editor s)"; cases "ed_preview_pending (sp_editor s)")
    (auto simp: timer_step on_idle_def in_time_def editor_text_def waiting_def)

lemma in_time_step:
  assumes "in_time s" "split_step e ev s = Some s'" "\<not> is_set_text ev"
  shows "in_time s'"
proof (cases ev)
  case (Sv_Type us)
  then show ?thesis using assms edits_in_time [OF edits_type] by (auto simp: user_steps)
next
  case (Sv_Delete a b)
  then show ?thesis using assms edits_in_time [OF edits_delete] by (auto simp: user_steps)
next
  case (Sv_Cursor i)
  then show ?thesis using assms edits_in_time [OF edits_cursor] by (auto simp: user_steps)
next
  case (Sv_Set_Text t)
  then show ?thesis using assms(3) by (simp add: is_set_text_def)
next
  case Sv_Timer
  then show ?thesis using assms timer_in_time [of s] by auto
next
  case Sv_Idle
  then show ?thesis using assms by (cases "sp_idle s") (auto simp: on_idle_def in_time_def editor_text_def)
next
  case (Sv_Refresh css dark)
  then show ?thesis using assms by (auto simp: on_refresh_def in_time_def editor_text_def render_def)
next
  case (Sv_Draw w)
  then show ?thesis using assms draw_source by (fastforce simp: in_time_def editor_text_def)
next
  case (Sv_Motion mx my adj)
  then show ?thesis using assms by (auto simp: in_time_def editor_text_def motion_source)
qed

lemma split_run_displays:
  "displays e dir x s \<Longrightarrow> split_run e evs s = Some s' \<Longrightarrow> displays e dir (fold settings_after evs x) s'"
proof (induction evs arbitrary: s x)
  case (Cons ev evs)
  then obtain u where "split_step e ev s = Some u" "split_run e evs u = Some s'" by (auto split: option.splits)
  with Cons displays_step show ?case by fastforce
qed simp

lemma split_run_in_time:
  "in_time s \<Longrightarrow> split_run e evs s = Some s' \<Longrightarrow> \<not> list_ex is_set_text evs \<Longrightarrow> in_time s'"
proof (induction evs arbitrary: s)
  case (Cons ev evs)
  then obtain u where "split_step e ev s = Some u" "split_run e evs u = Some s'" by (auto split: option.splits)
  with Cons in_time_step show ?case by fastforce
qed simp

lemma opened_split_starts:
  assumes "\<not> nv_preview v"
  shows "displays e (note_root_dir data_dir st v) ('''', False) (opened_split data_dir st v ed)"
    "in_time (opened_split data_dir st v ed)"
  using assms
  by (simp_all add: opened_split_def toggle_preview_def displays_def in_time_def showing.simps new_preview_def set_note_dir_def
      assets_in_def theme_palette_def Let_def)

text \<open>C30: However the note has been edited by typing and deleting and the settings refreshed since its preview was opened, when no render is waiting
  the preview draws the picture of the editor's text with the style sheet and the theme of the last refresh (before
  any refresh, the light theme and no user style sheet), as if nothing were kept between two drawings; and one round
  of the idle callback and the editor's timer brings it there.  The text must not have been replaced as a whole in the
  meantime, by a reload from disk or a restored state.\<close>

theorem preview_follows_edits:
  assumes "\<not> nv_preview v" "\<not> list_ex is_set_text evs" "split_run e evs (opened_split data_dir st v ed) = Some s"
  shows "let shown = \<lambda>t w. picture e (note_root_dir data_dir st v)
               (t, fst (fold settings_after evs ('''', False)), snd (fold settings_after evs ('''', False))) w
    in (settled s \<longrightarrow>
         map_option snd (on_canvas_draw e w (sp_preview s)) = shown (editor_text s) w) \<and>
       (\<exists>u. split_run e [Sv_Idle, Sv_Timer] s = Some u \<and> editor_text u = editor_text s \<and>
          map_option snd (on_canvas_draw e w (sp_preview u)) = shown (editor_text s) w)"
proof -
  let ?dir = "note_root_dir data_dir st v" and ?x = "fold settings_after evs ('''', False)"
  note start = opened_split_starts [OF assms(1)]
  have sh: "displays e ?dir ?x s" by (rule split_run_displays [OF start(1) assms(3)])
  have t: "in_time s" by (rule split_run_in_time [OF start(2) assms(3,2)])
  let ?u = "on_timer (on_idle s)"
  have "displays e ?dir ?x ?u"
    using split_run_displays [OF sh, of "[Sv_Idle, Sv_Timer]" ?u] by simp
  moreover note src = round_source [OF t]
  ultimately have "map_option snd (on_canvas_draw e w (sp_preview ?u)) = picture e ?dir (editor_text s, fst ?x, snd ?x) w"
    using displays_draws by metis
  moreover have "map_option snd (on_canvas_draw e w (sp_preview s)) = picture e ?dir (editor_text s, fst ?x, snd ?x) w"
    if "settled s"
    using displays_draws [OF sh, of w] t that by (simp add: in_time_def waiting_def settled_def)
  ultimately show ?thesis
    using src by (simp add: Let_def)
qed


text \<open>An empty note: the user types, the timer fires, the settings are refreshed in the dark theme and the canvas is drawn.\<close>

definition demo_preview_env :: "layout_env \<Rightarrow> draw_env \<Rightarrow> preview_env" where
  "demo_preview_env lay dr = \<lparr>pw_parse = (\<lambda>_. []), pw_read = (\<lambda>_. None), pw_home = None, pw_regular = (\<lambda>_. False),
     pw_canonical = (\<lambda>_. None), pw_layout = lay, pw_draw = dr\<rparr>"

lemma demo_layout_text: "layout_text (demo_preview_env lay dr) sheet assets dir w s = Some []"
  by (simp add: layout_text_def demo_preview_env_def parse_events_def empty_builder_def mark_toc_nodes_def layout_document_def
      layout_start_def Let_def)

lemma demo_draws: "on_canvas_draw (demo_preview_env lay dr) w p \<noteq> None"
  by (simp add: on_canvas_draw_def relayout_if_needed_def demo_layout_text Let_def)

lemma demo_note_closed: "\<not> nv_preview demo_note"
  by (simp add: demo_note_def user_edit_def new_note_view_def start_watcher_def load_note_def
      load_text_def note_path_def set_modified_def dirty_check_def call_def)

definition demo_events :: "split_event list" where
  "demo_events = [Sv_Idle, Sv_Type [98], Sv_Draw 80, Sv_Timer, Sv_Refresh '''' True]"

lemma demo_split_runs:
  "\<exists>s. split_run (demo_preview_env lay dr) demo_events (opened_split ''/d'' demo_store demo_note new_editor) = Some s \<and>
     settled s \<and> editor_text s = ''b'' \<and> sp_editor s = on_preview_tick (ed_type [98] new_editor)"
proof -
  let ?e = "demo_preview_env lay dr"
  let ?s0 = "on_idle (opened_split ''/d'' demo_store demo_note new_editor)"
  let ?s1 = "edit_step (ed_type [98]) ?s0"
  obtain p ops where p: "on_canvas_draw ?e 80 (sp_preview ?s1) = Some (p, ops)" using demo_draws by fastforce
  let ?s2 = "?s1\<lparr>sp_preview := p\<rparr>"
  have ed: "sp_editor ?s0 = new_editor" "\<not> sp_idle ?s0"
    by (simp_all add: opened_split_def toggle_preview_def demo_note_closed on_idle_def Let_def)
  have t: "ed_text (ed_type [98] new_editor) = [98]" by code_simp
  have u: "utf8_text [98] = ''b''" by code_simp
  have "split_run ?e demo_events (opened_split ''/d'' demo_store demo_note new_editor) = Some (on_refresh '''' True (on_timer ?s2))"
    by (simp add: demo_events_def p)
  moreover have timer: "ed_preview_timer (ed_type [98] new_editor)" by code_simp
  have "sp_editor ?s2 = ed_type [98] new_editor" "\<not> sp_idle ?s2"
    using ed by (simp_all add: edit_step_def Let_def)
  with timer have "settled (on_refresh '''' True (on_timer ?s2))" "editor_text (on_refresh '''' True (on_timer ?s2)) = ''b''"
    "sp_editor (on_refresh '''' True (on_timer ?s2)) = on_preview_tick (ed_type [98] new_editor)"
    using t u by (simp_all add: on_refresh_def timer_step editor_text_def settled_def)
  ultimately show ?thesis by blast
qed

theorem preview_follows_edits_witness:
  "\<forall>lay dr. \<exists>s. split_run (demo_preview_env lay dr) demo_events (opened_split ''/d'' demo_store demo_note new_editor) = Some s \<and>
     editor_text s = ''b'' \<and>
     map_option snd (on_canvas_draw (demo_preview_env lay dr) 80 (sp_preview s)) = Some [Op_Source (rgb8 30 30 46), Op_Paint]"
proof (intro allI)
  fix lay :: layout_env and dr :: draw_env
  let ?e = "demo_preview_env lay dr"
  obtain s where s: "split_run ?e demo_events (opened_split ''/d'' demo_store demo_note new_editor) = Some s"
    "settled s" "editor_text s = ''b''" using demo_split_runs by blast
  have q: "\<not> list_ex is_set_text demo_events" by (simp add: demo_events_def is_set_text_def)
  have "map_option snd (on_canvas_draw ?e 80 (sp_preview s)) = picture ?e (note_root_dir ''/d'' demo_store demo_note) (''b'', '''', True) 80"
    using preview_follows_edits [OF demo_note_closed q s(1), of 80] s(2,3) by (simp add: Let_def demo_events_def)
  then show "\<exists>s. split_run ?e demo_events (opened_split ''/d'' demo_store demo_note new_editor) = Some s \<and> editor_text s = ''b'' \<and>
     map_option snd (on_canvas_draw ?e 80 (sp_preview s)) = Some [Op_Source (rgb8 30 30 46), Op_Paint]"
    using s by (auto simp: picture.simps demo_layout_text canvas_ops_def Let_def)
qed

section \<open>A replaced text\<close>

text \<open>What may happen while nobody edits the note or refreshes the settings.\<close>

definition is_wait :: "split_event \<Rightarrow> bool" where
  "is_wait ev \<longleftrightarrow> (case ev of Sv_Timer \<Rightarrow> True | Sv_Idle \<Rightarrow> True | Sv_Draw w \<Rightarrow> True | Sv_Motion x y adj \<Rightarrow> True | Sv_Cursor i \<Rightarrow> True | _ \<Rightarrow> False)"

lemma wait_step:
  assumes "settled s" "is_wait ev" "split_step e ev s = Some s'"
  shows "settled s' \<and> ed_text (sp_editor s') = ed_text (sp_editor s) \<and> pv_source (sp_preview s') = pv_source (sp_preview s) \<and>
    settings_after ev x = x"
proof (cases ev)
  case (Sv_Draw w)
  then show ?thesis using assms draw_source by (fastforce simp: settled_def)
next
  case (Sv_Cursor i)
  then show ?thesis using assms by (auto simp: user_steps settled_def place_cursor_def)
next
  case Sv_Timer
  then show ?thesis using assms by (cases "ed_preview_timer (sp_editor s)") (auto simp: settled_def timer_step)
qed (use assms in \<open>auto simp: is_wait_def settled_def timer_step on_idle_def motion_source\<close>)

lemma wait_run:
  "settled s \<Longrightarrow> list_all is_wait evs \<Longrightarrow> split_run e evs s = Some s' \<Longrightarrow>
   ed_text (sp_editor s') = ed_text (sp_editor s) \<and> pv_source (sp_preview s') = pv_source (sp_preview s) \<and>
   fold settings_after evs x = x"
proof (induction evs arbitrary: s)
  case (Cons ev evs)
  then obtain u where u: "split_step e ev s = Some u" "split_run e evs u = Some s'" by (auto split: option.splits)
  then show ?case using wait_step [OF Cons.prems(1) _ u(1), of x] Cons by fastforce
qed simp

text \<open>C32: When the text is replaced as a whole, as a reload from the disk does, an open preview with no render waiting goes on
  showing the text of before: the replacement cancels the render that its own change asked for, and neither the
  timer nor a drawing changes that until the note is edited or the settings are refreshed.\<close>

theorem reload_leaves_preview:
  assumes "\<not> nv_preview v" "\<not> list_ex is_set_text evs" "split_run e evs (opened_split data_dir st v ed) = Some s" "settled s"
    and "list_all is_wait waits" "split_run e (Sv_Set_Text t # waits) s = Some s'"
  shows "ed_text (sp_editor s') = ed_text (ed_set_text t (sp_editor s)) \<and>
    map_option snd (on_canvas_draw e w (sp_preview s')) = picture e (note_root_dir data_dir st v)
      (editor_text s, fst (fold settings_after evs ('''', False)), snd (fold settings_after evs ('''', False))) w"
proof -
  let ?dir = "note_root_dir data_dir st v" and ?x = "fold settings_after evs ('''', False)"
  note start = opened_split_starts [OF assms(1)]
  have sh: "displays e ?dir ?x s" by (rule split_run_displays [OF start(1) assms(3)])
  have src: "pv_source (sp_preview s) = editor_text s"
    using split_run_in_time [OF start(2) assms(3,2)] assms(4) by (simp add: in_time_def settled_def waiting_def)
  let ?u = "s\<lparr>sp_editor := ed_set_text t (sp_editor s)\<rparr>"
  have u: "split_run e waits ?u = Some s'" "settled ?u"
    using assms(4,6) by (simp_all add: set_text_step settled_def set_text_calls)
  note wr = wait_run [OF u(2) assms(5) u(1), of ?x]
  have "displays e ?dir (fold settings_after (Sv_Set_Text t # waits) ?x) s'" by (rule split_run_displays [OF sh assms(6)])
  then have "displays e ?dir ?x s'" using wr by simp
  from displays_draws [OF this, of w] wr src show ?thesis by simp
qed

theorem reload_leaves_preview_witness:
  "\<forall>lay dr. \<exists>s s'. split_run (demo_preview_env lay dr) demo_events (opened_split ''/d'' demo_store demo_note new_editor) = Some s \<and>
     split_run (demo_preview_env lay dr) [Sv_Set_Text [99], Sv_Timer] s = Some s' \<and> editor_text s' = ''c'' \<and>
     map_option snd (on_canvas_draw (demo_preview_env lay dr) 80 (sp_preview s')) =
       picture (demo_preview_env lay dr) (note_root_dir ''/d'' demo_store demo_note) (''b'', '''', True) 80"
proof (intro allI)
  fix lay :: layout_env and dr :: draw_env
  let ?e = "demo_preview_env lay dr"
  obtain s where s: "split_run ?e demo_events (opened_split ''/d'' demo_store demo_note new_editor) = Some s"
    "settled s" "editor_text s = ''b''" "sp_editor s = on_preview_tick (ed_type [98] new_editor)" using demo_split_runs by blast
  have q: "\<not> list_ex is_set_text demo_events" by (simp add: demo_events_def is_set_text_def)
  let ?s' = "on_timer (edit_step (ed_set_text [99]) s)"
  have r: "split_run ?e [Sv_Set_Text [99], Sv_Timer] s = Some ?s'" by simp
  have k: "list_all is_wait [Sv_Timer]" by (simp add: is_wait_def)
  from reload_leaves_preview [OF demo_note_closed q s(1,2) k r, of 80] s
  have z: "ed_text (sp_editor ?s') = ed_text (ed_set_text [99] (sp_editor s))"
    "map_option snd (on_canvas_draw ?e 80 (sp_preview ?s')) =
       picture ?e (note_root_dir ''/d'' demo_store demo_note) (''b'', '''', True) 80"
    by (simp_all add: demo_events_def)
  have "ed_text (ed_set_text [99] (on_preview_tick (ed_type [98] new_editor))) = [99]" by code_simp
  then have "ed_text (ed_set_text [99] (sp_editor s)) = [99]" by (simp only: s(4))
  then have "editor_text ?s' = ''c''" using z(1) by (simp add: editor_text_def) code_simp
  with r z(2) s show "\<exists>s s'. split_run ?e demo_events (opened_split ''/d'' demo_store demo_note new_editor) = Some s \<and>
     split_run ?e [Sv_Set_Text [99], Sv_Timer] s = Some s' \<and> editor_text s' = ''c'' \<and>
     map_option snd (on_canvas_draw ?e 80 (sp_preview s')) =
       picture ?e (note_root_dir ''/d'' demo_store demo_note) (''b'', '''', True) 80" by blast
qed

end
