(* ===== verification/Spec2Isabelle.thy ===== *)
theory Spec2Isabelle
  imports Core_Properties Storage_Properties Session_Properties Terminal_Properties Document_Properties
    Preview_Properties Program_Properties Window_Properties Note_Editor Directory_Panel Find_Bar History_Panel Application Note_Export Core_Reload
    Note_Preview
begin

text \<open>
  Remin (\<^verbatim>\<open>src/src\<close>, C++) is a desktop application of terminals and Markdown notes whose whole
  state, the workspace, survives a restart.  This is a model of the parts of it that decide
  something, with the theorems that make them correct.

  The parts of the program and how they interact:

    \<^item> the domain model (\<^verbatim>\<open>core/\<close>): a workspace has windows, a window has tabs, a tab is a note or a
      binary tree of terminal panes, a pane has a command history;
    \<^item> the engine \<^verbatim>\<open>WorkspaceCore\<close>: every change of the open workspace goes through one of its
      operations, which marks it dirty, reports errors and tells listeners by events;
    \<^item> the store (\<^verbatim>\<open>storage/\<close>): the engine saves workspaces and checkpoints through the abstract class
      \<^verbatim>\<open>Storage\<close>, which SQLite tables implement with transactions and a mutex;
    \<^item> the session (\<^verbatim>\<open>gui/session/\<close>, \<^verbatim>\<open>core/autosave\<close>, \<^verbatim>\<open>core/workspace_lock\<close>): it opens the store, takes the
      lock of the workspace, listens to the engine's events and checkpoints when the autosaver says so;
    \<^item> the command line and IPC (\<^verbatim>\<open>cli/\<close>, \<^verbatim>\<open>ipc/\<close>): JSON requests are dispatched to the engine;
    \<^item> terminals (\<^verbatim>\<open>core/terminal/\<close>, \<^verbatim>\<open>gui/terminal/\<close>, \<^verbatim>\<open>terminal/\<close>): a pane starts a shell, captures what a
      checkpoint keeps and replays it; shell history files are parsed, watched and merged into the panes'
      histories, which the commands page and the history panel show;
    \<^item> the window (\<^verbatim>\<open>gui/window/\<close>, \<^verbatim>\<open>gui/note/\<close>): tabs of terminals and notes that mirror the engine's, an editor with
      search, a preview, a tree of files, a settings dialog, and the application around it;
    \<^item> Markdown notes (\<^verbatim>\<open>gui/markdown/\<close>): md4c's callbacks build a tree, from which come the HTML page and,
      through a style sheet, a flow of laid-out blocks that the preview draws and the PDF export cuts into
      pages.

  Where what is modelled:

    \<^item> \<^verbatim>\<open>Prelude\<close>: machine integers, floating point values, identifiers, character classes, searches;
      \<^verbatim>\<open>Floating\<close>: the arithmetic of \<^verbatim>\<open>double\<close> and \<^verbatim>\<open>float\<close> with its rounding; \<^verbatim>\<open>Text_Numbers\<close>: \<^verbatim>\<open>strtod\<close>,
      \<^verbatim>\<open>strtol\<close>, \<^verbatim>\<open>sscanf\<close>; \<^verbatim>\<open>Json_Value\<close>: the JSON library's interface; \<^verbatim>\<open>Identifiers\<close>, \<^verbatim>\<open>Base64\<close>, \<^verbatim>\<open>Iso8601\<close>.
    \<^item> \<^verbatim>\<open>Workspace_Model\<close>, \<^verbatim>\<open>Pane_Tree\<close>: the data of \<^verbatim>\<open>core/workspace\<close>, \<^verbatim>\<open>core/window\<close>, \<^verbatim>\<open>core/pane\<close> and the
      operations on trees of panes; \<^verbatim>\<open>Serialization\<close>: \<^verbatim>\<open>core/serialization\<close> with its round trips and the
      migration of older files; \<^verbatim>\<open>Policy\<close>: \<^verbatim>\<open>core/persistence_policy\<close>.
    \<^item> \<^verbatim>\<open>Workspace_Core\<close>: the engine, one definition per method of \<^verbatim>\<open>core/workspace_core.cpp\<close>; a state is
      the record \<open>core\<close> with the open workspace, the dirty flag and the log of events; an error is a value.
      \<^verbatim>\<open>Core_Invariants\<close>: the step relation \<open>core_step\<close> and the well-formedness its operations keep;
      \<^verbatim>\<open>Core_Reload\<close>: what reading a workspace back keeps of it;
      \<^verbatim>\<open>Core_Lookup\<close>: operations seen through lookups; \<^verbatim>\<open>Core_Properties\<close>.
    \<^item> \<^verbatim>\<open>Storage_Api\<close>: the abstract class as a record of operations, and its contract as the locale
      \<open>storage_contract\<close>; \<^verbatim>\<open>Sqlite_Storage\<close>: the tables, failing statements, transactions and the count of
      the mutex, and the interpretation of the locale; \<^verbatim>\<open>Core_Persistence\<close>: what the engine achieves through
      any store with this contract; \<^verbatim>\<open>Storage_Properties\<close>.
    \<^item> \<^verbatim>\<open>Autosave\<close>, \<^verbatim>\<open>Workspace_Lock\<close>, \<^verbatim>\<open>Session_Controller\<close> (with the locale \<open>text_store\<close> of its settings),
      \<^verbatim>\<open>Workspace_Session\<close>, \<^verbatim>\<open>Request_Dispatcher\<close>; \<^verbatim>\<open>Session_Properties\<close>.
    \<^item> \<^verbatim>\<open>History_Parser\<close>, \<^verbatim>\<open>History_Tracker\<close>, \<^verbatim>\<open>Commands_Page\<close>, \<^verbatim>\<open>Terminal_Cwd\<close>; \<^verbatim>\<open>Terminal_Properties\<close>.
    \<^item> \<^verbatim>\<open>Markdown_Ast\<close>: the callbacks of \<^verbatim>\<open>markdown_ast.cpp\<close> over an arena of nodes, entities, slugs and
      headings; \<^verbatim>\<open>Markdown_Build\<close>: the callbacks build the tree of a well-nested document; \<^verbatim>\<open>Markdown_Html\<close>,
      \<^verbatim>\<open>Markdown_Css\<close>: \<^verbatim>\<open>markdown_html.cpp\<close> and \<^verbatim>\<open>markdown_css.cpp\<close>; \<^verbatim>\<open>Markdown_Render\<close>, \<^verbatim>\<open>Markdown_Toc\<close>: lemmas on
      escaping, anchors and the table of contents; \<^verbatim>\<open>Markdown_Document\<close>; \<^verbatim>\<open>Document_Properties\<close>.
    \<^item> \<^verbatim>\<open>Markdown_Style\<close>, \<^verbatim>\<open>Style_Parser\<close>: \<^verbatim>\<open>markdown_style.cpp\<close>; \<^verbatim>\<open>Inline_Html\<close>, \<^verbatim>\<open>Html_Blocks\<close>:
      \<^verbatim>\<open>markdown_inline_html.cpp\<close>; \<^verbatim>\<open>Markdown_Pango\<close>, \<^verbatim>\<open>Markdown_Runs\<close>, \<^verbatim>\<open>Markdown_Layout\<close>: \<^verbatim>\<open>markdown_pango.cpp\<close>
      and \<^verbatim>\<open>markdown_layout.cpp\<close>, with the record \<open>layout_state\<close> for the local variables of
      \<^verbatim>\<open>layout_document\<close>; \<^verbatim>\<open>Pdf_Export\<close>, \<^verbatim>\<open>Pdf_Draw\<close>: \<^verbatim>\<open>markdown_pdf_export.cpp\<close>; \<^verbatim>\<open>Layout_Flow\<close>, \<^verbatim>\<open>Table_Widths\<close>, \<^verbatim>\<open>Pdf_Pages\<close>,
      \<^verbatim>\<open>Toc_Pages\<close>: their lemmas; \<^verbatim>\<open>Preview_Properties\<close>.
    \<^item> \<^verbatim>\<open>Markdown_Draw\<close>: \<^verbatim>\<open>markdown_draw.cpp\<close> as the list of the calls of Cairo; \<^verbatim>\<open>Markdown_Preview\<close>:
      \<^verbatim>\<open>gui/note/markdown_preview.cpp\<close>, with the specification \<open>picture\<close> of what is drawn;
      \<^verbatim>\<open>Note_Preview\<close>: an open preview beside its editor, with the timer and the idle callback of the main loop.
    \<^item> \<^verbatim>\<open>Paths\<close>: \<^verbatim>\<open>std::filesystem::path\<close>; \<^verbatim>\<open>Entry_Point\<close>: \<^verbatim>\<open>app/main.cpp\<close>; \<^verbatim>\<open>Event_Loop\<close>: \<^verbatim>\<open>terminal/pty\<close> and
      \<^verbatim>\<open>terminal/shell\<close>; \<^verbatim>\<open>Ipc_Socket\<close>: \<^verbatim>\<open>ipc/\<close>; \<^verbatim>\<open>Program_Properties\<close>.
    \<^item> \<^verbatim>\<open>Note_Tab\<close>, \<^verbatim>\<open>Note_Export\<close>, \<^verbatim>\<open>Note_Editor\<close>: \<^verbatim>\<open>note_tab_view.cpp\<close> and \<^verbatim>\<open>note_editor.cpp\<close>, the search context behind the locale
      \<open>occurrence_search\<close>, interpreted for literal search; \<^verbatim>\<open>Terminal_Pane\<close>, \<^verbatim>\<open>Terminal_Tab\<close>: \<^verbatim>\<open>terminal_pane.cpp\<close> and
      \<^verbatim>\<open>terminal_tab_view.cpp\<close>, whose tree of widgets refines the engine's tree of panes.
    \<^item> \<^verbatim>\<open>Core_Outline\<close>: the engine seen as windows with lists of tabs; \<^verbatim>\<open>Main_Window\<close>, \<^verbatim>\<open>Window_Tabs\<close>: the tabs of
      \<^verbatim>\<open>main_window.cpp\<close> with their stack of pages and labels, an operation being a function that returns, closes
      the window or is undefined; \<^verbatim>\<open>Window_Invariant\<close>, \<^verbatim>\<open>Window_Life\<close>: a window agrees with the engine from its
      opening on; \<^verbatim>\<open>Window_Properties\<close>; \<^verbatim>\<open>Find_Bar\<close>, \<^verbatim>\<open>History_Panel\<close>: its find bar, keys, menus and history panel;
      \<^verbatim>\<open>Directory_Panel\<close>: \<^verbatim>\<open>directory_tree_panel.cpp\<close>; \<^verbatim>\<open>Application\<close>: \<^verbatim>\<open>application.cpp\<close>, \<^verbatim>\<open>resources.cpp\<close>, the
      settings dialog and the context menus.
    \<^item> this theory: the engine and the autosaver together.

  Interfaces as locales: \<open>storage_contract\<close> and its extension \<open>text_store\<close> (\<^verbatim>\<open>Sqlite_Storage\<close> provides them),
  \<open>rounding\<close> (both floating point formats provide it), \<open>occurrence_search\<close> (literal search provides it).

  What the lemmas show.  The engine: its operations keep a well-formed workspace well-formed, do what they say
  and nothing else, and mark every edit; reading a workspace back keeps it well-formed only if at most one tab has no
  panes.  The store: a checkpoint is all or nothing and is what the next start opens, also with failing statements;
  JSON round trips; a commit that is refused keeps the store from being written again.  The session: one holder per
  lock, an edit reaches the store after the debounce time.  Terminals: history files are read back as written, new
  commands are appended once.  Notes: the callbacks build the document's tree, links of the table of
  contents lead to headings, escaping leaves no markup; blocks do not overlap, pages hold all blocks in
  order and fit but for the named exceptions, the page numbers of the table of contents are right, words fit their
  columns, a rule of a style sheet changes what it names; drawing leaves nothing open, and the preview follows the
  edits and the settings but not a reloaded text.  The window: as long as the shown window is not deleted from its own
  side panel, it shows the engine's tabs; a clean note is what was last read or written, unless a restored state
  has replaced it; the tree of files marks its selection and its rendering ends, the dialog shows what is stored.  A few theorems state where the code
  does not do what it means to.

  Parameters.  Code outside the repository or the language is an argument of the definitions that use it:
  the text form of JSON, md4c (as the list of its callbacks), SHA-256, the random source, the clock, the
  file system, Pango (as a function from a text with attributes to its extents), the sizes of images and
  the locale's decimal point.  SQLite is modelled by tables and a plan of which statements fail, \<^verbatim>\<open>flock\<close>
  by a map of owners.  A value the language leaves undefined is a parameter (\<open>undef\<close>) or \<open>None\<close>.

  Bounds and fuel.  \<open>to_value\<close> has the number of nodes of the arena as fuel, which is enough since
  children have larger indices (\<open>to_value_total\<close>); \<open>emit_toc\<close> has the number of entries, and more does not
  change the result.  Rendering the tree of files has one more than the number of expanded directories
  (\<open>rendering_ends\<close>), rendering a note's edited region the length of its text and two (\<open>render_marks_window\<close>).  The attribute loop of the tag tokenizer is a partial function: \<open>None\<close> is the
  loop that does not end, as for the event loop, which runs until it is stopped.  Every other loop is a total function.

  Not modelled: building widgets of GTK, their icons, tooltips and style classes, and what VTE, GtkSourceView and
  Cairo do with the calls they get; the dialogs are their answers.  Colours and style schemes of the editor, the
  colour profile dialog of terminals.  The registration of icons.  Threads, except that a mutex taken twice blocks.
\<close>

section \<open>From an edit to the disk\<close>

text \<open>
  The session installs \<^const>\<open>on_workspace_event\<close> as the engine's callback: it sees the events of the
  engine in the order they were emitted.
\<close>

definition hear :: "int \<Rightarrow> workspace_event list \<Rightarrow> autosaver \<Rightarrow> autosaver" where
  "hear now evs a = fold (on_workspace_event now) evs a"

lemma hear_other: "StateDirty \<notin> ev_type ` set evs \<Longrightarrow> hear now evs a = a"
  unfolding hear_def by (induction evs arbitrary: a) (auto simp: on_workspace_event_def)






end
